(* ===== verification/Prelude.thy ===== *)
theory Prelude
  imports Main "HOL-Library.Product_Lexorder"
begin

text \<open>
  Prelude of the Letter IRL development: what every component shares.

  \<^item> \<open>bindE\<close> sequences fallible steps. The program's exceptions are values of a
    sum type, \<open>Inl\<close> for a throw; a database transaction that throws rolls back, so
    an \<open>Inl\<close> result carries no state.
  \<^item> \<open>find_by\<close>, \<open>upd_where\<close> are SELECT by a key and UPDATE ... WHERE on a table,
    which is the list of its rows.
  \<^item> The locale \<open>db_table\<close> states what a table's accessor and updater promise; its
    lemmas are proved once and used for every table of the store.
  \<^item> The locale \<open>exactly_once\<close> states the contract of a compensation (a return of
    credits or of a gift letter) that records a marker with what it pays.
  \<^item> JavaScript's falsy defaults, decimal text of integers.
\<close>

section \<open>Collections of facts\<close>

named_theorems store_simps \<open>how a store operation changes each table\<close>
named_theorems row_defs \<open>definitions of row updates\<close>

section \<open>Errors as values\<close>

definition bindE :: "'e + 'a \<Rightarrow> ('a \<Rightarrow> 'e + 'b) \<Rightarrow> 'e + 'b" where
  "bindE m f = (case m of Inl e \<Rightarrow> Inl e | Inr x \<Rightarrow> f x)"

lemma bindE_simps [simp]:
  "bindE (Inl e) f = Inl e"
  "bindE (Inr x) f = f x"
  by (simp_all add: bindE_def)

lemma bindE_Inr_iff: "bindE m f = Inr y \<longleftrightarrow> (\<exists>x. m = Inr x \<and> f x = Inr y)"
  by (cases m) auto

lemma bindE_Inl_iff: "bindE m f = Inl e \<longleftrightarrow> m = Inl e \<or> (\<exists>x. m = Inr x \<and> f x = Inl e)"
  by (cases m) auto

lemma bindE_assoc: "bindE (bindE m f) g = bindE m (\<lambda>x. bindE (f x) g)"
  by (cases m) auto

lemma bindE_InrE [elim]:
  assumes "bindE m f = Inr y"
  obtains x where "m = Inr x" and "f x = Inr y"
  using assms by (auto simp: bindE_Inr_iff)

text \<open>A check that throws: the early \<open>throw\<close> of a guard.\<close>

definition guardE :: "bool \<Rightarrow> 'e \<Rightarrow> 'e + unit" where
  "guardE b e = (if b then Inr () else Inl e)"

lemma guardE_Inr_iff [simp]: "guardE b e = Inr u \<longleftrightarrow> b"
  by (simp add: guardE_def)

lemma guardE_Inl_iff [simp]: "guardE b e = Inl e' \<longleftrightarrow> \<not> b \<and> e' = e"
  by (auto simp: guardE_def)

lemma guardE_simps [simp]: "guardE True e = Inr ()" "guardE False e = Inl e"
  by (simp_all add: guardE_def)

definition is_ok :: "'e + 'a \<Rightarrow> bool" where
  "is_ok m = (case m of Inl _ \<Rightarrow> False | Inr _ \<Rightarrow> True)"

lemma is_ok_simps [simp]: "is_ok (Inl e) = False" "is_ok (Inr x) = True"
  by (simp_all add: is_ok_def)

lemma is_ok_iff: "is_ok m \<longleftrightarrow> (\<exists>x. m = Inr x)"
  by (cases m) auto

section \<open>Tables\<close>

definition find_by :: "('r \<Rightarrow> 'k) \<Rightarrow> 'k \<Rightarrow> 'r list \<Rightarrow> 'r option" where
  "find_by key k rows = List.find (\<lambda>r. key r = k) rows"

definition upd_where :: "('r \<Rightarrow> bool) \<Rightarrow> ('r \<Rightarrow> 'r) \<Rightarrow> 'r list \<Rightarrow> 'r list" where
  "upd_where P f rows = map (\<lambda>r. if P r then f r else r) rows"

lemma find_by_simps [simp]:
  "find_by key k [] = None"
  "find_by key k (r # rows) = (if key r = k then Some r else find_by key k rows)"
  by (simp_all add: find_by_def)

lemma upd_where_simps [simp]:
  "upd_where P f [] = []"
  "upd_where P f (r # rows) = (if P r then f r else r) # upd_where P f rows"
  by (simp_all add: upd_where_def)

lemma length_upd_where [simp]: "length (upd_where P f rows) = length rows"
  by (simp add: upd_where_def)

lemma find_by_key: "find_by key k rows = Some r \<Longrightarrow> key r = k"
  by (induction rows) (auto split: if_splits)

lemma find_by_mem: "find_by key k rows = Some r \<Longrightarrow> r \<in> set rows"
  by (induction rows) (auto split: if_splits)

lemma find_by_None_iff: "find_by key k rows = None \<longleftrightarrow> k \<notin> key ` set rows"
  by (induction rows) auto

lemma find_by_distinct:
  "distinct (map key rows) \<Longrightarrow> r \<in> set rows \<Longrightarrow> find_by key (key r) rows = Some r"
  by (induction rows) auto

lemma find_by_append:
  "find_by key k (rows @ rows') =
     (case find_by key k rows of None \<Rightarrow> find_by key k rows' | Some r \<Rightarrow> Some r)"
  by (induction rows) auto

lemma map_upd_where [simp]:
  "(\<And>r. P r \<Longrightarrow> g (f r) = g r) \<Longrightarrow> map g (upd_where P f rows) = map g rows"
  by (induction rows) auto

lemma set_upd_where: "set (upd_where P f rows) = (\<lambda>r. if P r then f r else r) ` set rows"
  by (simp add: upd_where_def)

lemma filter_upd_where:
  "(\<And>r. P r \<Longrightarrow> Q (f r) = Q r) \<Longrightarrow> filter Q (upd_where P f rows) = upd_where P f (filter Q rows)"
  by (induction rows) auto

lemma upd_where_none: "(\<And>r. r \<in> set rows \<Longrightarrow> \<not> P r) \<Longrightarrow> upd_where P f rows = rows"
  by (induction rows) auto

lemma find_by_upd_where:
  "(\<And>r. P r \<Longrightarrow> key (f r) = key r) \<Longrightarrow>
   find_by key k (upd_where P f rows) = map_option (\<lambda>r. if P r then f r else r) (find_by key k rows)"
  by (induction rows) auto

lemma list_all_upd_where:
  "list_all Q rows \<Longrightarrow> (\<And>r. r \<in> set rows \<Longrightarrow> P r \<Longrightarrow> Q r \<Longrightarrow> Q (f r)) \<Longrightarrow> list_all Q (upd_where P f rows)"
  by (induction rows) auto

text \<open>An update of one row, by its key, changes a sum over the table at that row only.\<close>

lemma sum_list_upd_key:
  fixes g :: "'r \<Rightarrow> int"
  assumes "distinct (map key rows)" and "find_by key k rows = Some r"
  shows "sum_list (map g (upd_where (\<lambda>x. key x = k) f rows)) = sum_list (map g rows) - g r + g (f r)"
  using assms
proof (induction rows)
  case Nil
  then show ?case by simp
next
  case (Cons x rows)
  show ?case
  proof (cases "key x = k")
    case True
    with Cons.prems have "upd_where (\<lambda>x. key x = k) f rows = rows"
      by (intro upd_where_none) (auto simp: image_iff)
    with True Cons.prems show ?thesis by simp
  next
    case False
    with Cons show ?thesis by simp
  qed
qed

lemma sum_list_filter_upd_key:
  fixes g :: "'r \<Rightarrow> int"
  assumes "distinct (map key rows)" and "find_by key k rows = Some r"
  shows "sum_list (map g (filter Q (upd_where (\<lambda>x. key x = k) f rows))) =
         sum_list (map g (filter Q rows)) - (if Q r then g r else 0) + (if Q (f r) then g (f r) else 0)"
proof -
  have filt: "sum_list (map g (filter Q xs)) = sum_list (map (\<lambda>x. if Q x then g x else 0) xs)" for xs
    by (induction xs) auto
  show ?thesis unfolding filt using sum_list_upd_key [OF assms, of "\<lambda>x. if Q x then g x else 0"] by simp
qed

subsection \<open>A table of a store\<close>

text \<open>
  A store keeps each table as a field: \<open>tab\<close> reads it, \<open>tab_upd\<close> rewrites it, and
  \<open>key\<close> is its primary key. The one law is the record field's; what a client needs of
  reads after writes follows.
\<close>

locale db_table =
  fixes tab :: "'s \<Rightarrow> 'r list"
    and tab_upd :: "('r list \<Rightarrow> 'r list) \<Rightarrow> 's \<Rightarrow> 's"
    and key :: "'r \<Rightarrow> 'k"
  assumes tab_tab_upd: "tab (tab_upd f s) = f (tab s)"
begin

lemma lookup_update:
  assumes "\<And>r. key r = k \<Longrightarrow> key (f r) = k"
  shows "find_by key k' (tab (tab_upd (upd_where (\<lambda>r. key r = k) f) s)) =
    (if k' = k then map_option f (find_by key k (tab s)) else find_by key k' (tab s))"
proof -
  have "find_by key k' (upd_where (\<lambda>r. key r = k) f (tab s)) =
      map_option (\<lambda>r. if key r = k then f r else r) (find_by key k' (tab s))"
    by (rule find_by_upd_where) (simp add: assms)
  then show ?thesis
    by (cases "find_by key k' (tab s)") (auto simp: tab_tab_upd dest: find_by_key)
qed

lemma keys_update:
  assumes "\<And>r. P r \<Longrightarrow> key (f r) = key r"
  shows "map key (tab (tab_upd (upd_where P f) s)) = map key (tab s)"
  using assms by (simp add: tab_tab_upd)

lemma lookup_insert:
  "find_by key k (tab (tab_upd (\<lambda>rows. rows @ [r]) s)) =
     (case find_by key k (tab s) of None \<Rightarrow> (if key r = k then Some r else None) | Some x \<Rightarrow> Some x)"
  by (simp add: tab_tab_upd find_by_append split: option.split)

lemma distinct_insert:
  assumes "distinct (map key (tab s))" and "find_by key (key r) (tab s) = None"
  shows "distinct (map key (tab (tab_upd (\<lambda>rows. rows @ [r]) s)))"
  using assms by (auto simp: tab_tab_upd find_by_None_iff)

lemma sum_update:
  fixes g :: "'r \<Rightarrow> int"
  assumes "distinct (map key (tab s))" and "find_by key k (tab s) = Some r"
  shows "sum_list (map g (filter Q (tab (tab_upd (upd_where (\<lambda>x. key x = k) f) s)))) =
         sum_list (map g (filter Q (tab s))) - (if Q r then g r else 0) + (if Q (f r) then g (f r) else 0)"
  unfolding tab_tab_upd by (rule sum_list_filter_upd_key [OF assms])

end

section \<open>Payments made exactly once\<close>

text \<open>
  A compensation \<open>pay\<close> returns the amount it paid and the new state. Its contract: while
  the marker is set it pays nothing and changes nothing, and whenever it pays it sets the
  marker. Any number of attempts, with any steps between them that keep the marker, then
  pays at most once.
\<close>

fun attempts_total :: "('s \<Rightarrow> 'e + int \<times> 's) \<Rightarrow> ('s \<Rightarrow> 's) list \<Rightarrow> 's \<Rightarrow> 'e + int \<times> 's" where
  "attempts_total pay [] s = Inr (0, s)"
| "attempts_total pay (g # gs) s =
     bindE (pay s) (\<lambda>(n, s'). bindE (attempts_total pay gs (g s')) (\<lambda>(m, s''). Inr (n + m, s'')))"

locale exactly_once =
  fixes pay :: "'s \<Rightarrow> 'e + int \<times> 's"
    and marker :: "'s \<Rightarrow> bool"
  assumes paid_already: "marker s \<Longrightarrow> pay s = Inr (0, s)"
    and pays_marks: "pay s = Inr (n, s') \<Longrightarrow> n \<noteq> 0 \<Longrightarrow> marker s'"
begin

lemma marked_pays_nothing:
  assumes "\<And>g s. g \<in> set gs \<Longrightarrow> marker s \<Longrightarrow> marker (g s)" and "marker s"
    and "attempts_total pay gs s = Inr (n, s')"
  shows "n = 0"
  using assms
proof (induction gs arbitrary: s n)
  case Nil
  then show ?case by simp
next
  case (Cons g gs)
  from Cons.prems(2) have "pay s = Inr (0, s)" by (rule paid_already)
  with Cons.prems(3) obtain m where m: "attempts_total pay gs (g s) = Inr (m, s')" and n: "n = m"
    by (auto simp: bindE_Inr_iff)
  have "marker (g s)" using Cons.prems(1,2) by simp
  with Cons.IH Cons.prems(1) m n show ?case by simp
qed

lemma pays_at_most_once:
  assumes "\<And>g s. g \<in> set gs \<Longrightarrow> marker s \<Longrightarrow> marker (g s)"
    and "attempts_total pay gs s = Inr (n, s')" and "n \<noteq> 0"
  shows "\<exists>t t'. pay t = Inr (n, t')"
  using assms
proof (induction gs arbitrary: s n)
  case Nil
  then show ?case by simp
next
  case (Cons g gs)
  from Cons.prems(2) obtain a s1 b where a: "pay s = Inr (a, s1)"
    and b: "attempts_total pay gs (g s1) = Inr (b, s')" and n: "n = a + b"
    by (auto simp: bindE_Inr_iff)
  show ?case
  proof (cases "a = 0")
    case True
    with n Cons.prems(3) have "b \<noteq> 0" by simp
    with Cons.IH [OF _ b] Cons.prems(1) True n show ?thesis by simp
  next
    case False
    with a have "marker s1" by (rule pays_marks)
    with Cons.prems(1) have "marker (g s1)" by simp
    with marked_pays_nothing [OF _ _ b] Cons.prems(1) have "b = 0" by simp
    with a n show ?thesis by auto
  qed
qed

text \<open>Which attempt paid, and that the first one does when there is something to pay.\<close>

lemma paid_by_one:
  assumes "\<And>g s. g \<in> set gs \<Longrightarrow> marker s \<Longrightarrow> marker (g s)"
    and "attempts_total pay gs s = Inr (n, s')" and "n \<noteq> 0"
  shows "\<exists>i<length gs. \<exists>t t'. attempts_total pay (take i gs) s = Inr (0, t) \<and> pay t = Inr (n, t') \<and>
    attempts_total pay (drop (Suc i) gs) ((gs ! i) t') = Inr (0, s')"
  using assms
proof (induction gs arbitrary: s n)
  case Nil
  then show ?case by simp
next
  case (Cons g gs)
  from Cons.prems(2) obtain a s1 b where a: "pay s = Inr (a, s1)"
    and b: "attempts_total pay gs (g s1) = Inr (b, s')" and n: "n = a + b"
    by (auto simp: bindE_Inr_iff)
  show ?case
  proof (cases "a = 0")
    case True
    with n Cons.prems(3) have "b \<noteq> 0" by simp
    with Cons.IH [OF _ b] Cons.prems(1) obtain i t t' where i: "i < length gs"
      "attempts_total pay (take i gs) (g s1) = Inr (0, t)" "pay t = Inr (b, t')"
      "attempts_total pay (drop (Suc i) gs) ((gs ! i) t') = Inr (0, s')" by auto
    with a True n show ?thesis by (intro exI [of _ "Suc i"]) simp
  next
    case False
    with a have "marker s1" by (rule pays_marks)
    with Cons.prems(1) have "marker (g s1)" by simp
    with marked_pays_nothing [OF _ _ b] Cons.prems(1) have "b = 0" by simp
    with a b n show ?thesis by (intro exI [of _ 0]) simp
  qed
qed

lemma first_pays:
  assumes "\<And>h s. h \<in> set (g # gs) \<Longrightarrow> marker s \<Longrightarrow> marker (h s)"
    and "attempts_total pay (g # gs) s = Inr (n, s')" and "pay s = Inr (a, s1)" and "a \<noteq> 0"
  shows "n = a"
proof -
  from assms(2,3) obtain b where b: "attempts_total pay gs (g s1) = Inr (b, s')" and n: "n = a + b"
    by (auto simp: bindE_Inr_iff)
  have "marker (g s1)" using assms(1) pays_marks [OF assms(3,4)] by simp
  then have "b = 0" using marked_pays_nothing [OF _ _ b] assms(1) by simp
  with n show ?thesis by simp
qed

end

section \<open>Invariants of step relations\<close>

text \<open>
  A component's operations as a step relation: what every single step keeps holds along
  every run.
\<close>

locale kept_by_steps =
  fixes step :: "'s \<Rightarrow> 's \<Rightarrow> bool"
    and inv :: "'s \<Rightarrow> bool"
  assumes step_keeps: "step s s' \<Longrightarrow> inv s \<Longrightarrow> inv s'"
begin

lemma run_keeps: "rtranclp step s s' \<Longrightarrow> inv s \<Longrightarrow> inv s'"
  by (induction rule: rtranclp_induct) (auto intro: step_keeps)

end

section \<open>JavaScript values\<close>

text \<open>\<open>a || b\<close> on an optional string: undefined, null and the empty string are falsy.\<close>

definition or_str :: "string option \<Rightarrow> string \<Rightarrow> string" where
  "or_str a b = (case a of None \<Rightarrow> b | Some t \<Rightarrow> if t = [] then b else t)"

definition or_null_str :: "string option \<Rightarrow> string option" where
  "or_null_str a = (case a of None \<Rightarrow> None | Some t \<Rightarrow> if t = [] then None else Some t)"

definition or_null_int :: "int option \<Rightarrow> int option" where
  "or_null_int a = (case a of None \<Rightarrow> None | Some n \<Rightarrow> if n = 0 then None else Some n)"

text \<open>Decimal text, as template strings print integers.\<close>

definition digit_char :: "nat \<Rightarrow> char" where
  "digit_char d = char_of (48 + d)"

fun show_nat :: "nat \<Rightarrow> string" where
  "show_nat n = (if n < 10 then [digit_char n] else show_nat (n div 10) @ [digit_char (n mod 10)])"

declare show_nat.simps [simp del]

definition show_int :: "int \<Rightarrow> string" where
  "show_int i = (if i < 0 then ''-'' @ show_nat (nat (- i)) else show_nat (nat i))"

text \<open>
  ASCII case mapping and trimming. Characters are bytes; the codes and addresses these
  are applied to are ASCII.
\<close>

definition char_code :: "char \<Rightarrow> nat" where
  "char_code c = of_char c"

definition lower_char :: "char \<Rightarrow> char" where
  "lower_char c = (if 65 \<le> char_code c \<and> char_code c \<le> 90 then char_of (char_code c + 32) else c)"

definition upper_char :: "char \<Rightarrow> char" where
  "upper_char c = (if 97 \<le> char_code c \<and> char_code c \<le> 122 then char_of (char_code c - 32) else c)"

definition lower_str :: "string \<Rightarrow> string" where
  "lower_str = map lower_char"

definition upper_str :: "string \<Rightarrow> string" where
  "upper_str = map upper_char"

definition js_space :: "char \<Rightarrow> bool" where
  "js_space c = (char_code c = 32 \<or> (9 \<le> char_code c \<and> char_code c \<le> 13))"

definition js_trim :: "string \<Rightarrow> string" where
  "js_trim t = rev (dropWhile js_space (rev (dropWhile js_space t)))"

section \<open>Time\<close>

text \<open>
  An instant is its milliseconds since the epoch. The server runs in UTC (its image sets
  no time zone), so \<open>date.setDate(date.getDate() + n)\<close> adds n days of 24 hours.
\<close>

type_synonym instant = int

definition day_ms :: int where "day_ms = 86400000"

definition add_days :: "instant \<Rightarrow> int \<Rightarrow> instant" where
  "add_days t n = t + n * day_ms"

section \<open>Lists\<close>

lemma sum_list_nonneg_int: "(\<And>x. x \<in> set xs \<Longrightarrow> (0::int) \<le> g x) \<Longrightarrow> 0 \<le> sum_list (map g xs)"
  by (induction xs) auto

lemma sum_list_filter_le:
  "(\<And>x. x \<in> set xs \<Longrightarrow> (0::int) \<le> g x) \<Longrightarrow> sum_list (map g (filter P xs)) \<le> sum_list (map g xs)"
  by (induction xs) (auto simp: add_increasing)

lemma sum_list_filter_split:
  "sum_list (map g xs) = sum_list (map g (filter P xs)) + (sum_list (map g (filter (\<lambda>x. \<not> P x) xs)) :: int)"
  by (induction xs) auto

lemma sum_list_sort_key: "sum_list (map g (sort_key f xs)) = (sum_list (map g xs) :: int)"
proof -
  have "sum_list (map g (insort_key f x xs)) = g x + sum_list (map g xs)" for x xs
    by (induction xs) auto
  then show ?thesis by (induction xs) simp_all
qed

end
