(* ===== verification/EnvSettings.thy ===== *)
theory EnvSettings
  imports Prelude
begin

text \<open>
  Settings read from the environment (src/utils/envSettings.ts) and the gift letters'
  settings built on them (src/config/giftLetters.ts). The environment is a partial function
  from names to values; each reader fails to its default rather than to a surprising value.
\<close>

type_synonym environment = "string \<Rightarrow> string option"

section \<open>Integers\<close>

definition is_digit :: "char \<Rightarrow> bool" where
  "is_digit c \<longleftrightarrow> 48 \<le> char_code c \<and> char_code c \<le> 57"

definition digits_value :: "string \<Rightarrow> nat" where
  "digits_value ds = foldl (\<lambda>n c. n * 10 + (char_code c - 48)) 0 ds"

text \<open>\<open>Number.parseInt(text, 10)\<close>: None is NaN. What follows the digits is ignored.\<close>

definition parseInt10 :: "string \<Rightarrow> int option" where
  "parseInt10 raw =
     (let t = dropWhile js_space raw;
          neg = (t \<noteq> [] \<and> hd t = CHR ''-'');
          body = (if t \<noteq> [] \<and> (hd t = CHR ''-'' \<or> hd t = CHR ''+'') then tl t else t);
          ds = takeWhile is_digit body
      in if ds = [] then None
         else Some (if neg then - int (digits_value ds) else int (digits_value ds)))"

text \<open>
  The caller's maximum is at most 2^53 - 1, below which a Number holds every integer; beyond
  it the parsed number is out of range either way.
\<close>

definition max_safe_integer :: int where "max_safe_integer = 9007199254740991"

definition positiveIntegerSetting :: "string \<Rightarrow> int \<Rightarrow> int \<Rightarrow> int \<Rightarrow> environment \<Rightarrow> int" where
  "positiveIntegerSetting name fallback minimum maximum env =
     (let raw = (case env name of None \<Rightarrow> [] | Some t \<Rightarrow> t)
      in case parseInt10 raw of
           None \<Rightarrow> fallback
         | Some parsed \<Rightarrow>
             if parsed < minimum \<or> maximum < parsed then fallback
             else if js_trim raw \<noteq> show_int parsed then fallback
             else parsed)"

section \<open>Flags\<close>

definition affirmative :: "string list" where
  "affirmative = [''true'', ''1'', ''yes'', ''on'', ''enabled'']"

definition negative :: "string list" where
  "negative = [''false'', ''0'', ''no'', ''off'', ''disabled'']"

definition flag_text :: "string \<Rightarrow> environment \<Rightarrow> string" where
  "flag_text name env = lower_str (js_trim (case env name of None \<Rightarrow> [] | Some t \<Rightarrow> t))"

definition enabledUnlessDisabled :: "string \<Rightarrow> environment \<Rightarrow> bool" where
  "enabledUnlessDisabled name env =
     (let raw = flag_text name env in if raw = [] then True else raw \<in> set affirmative)"

definition offUnlessExplicitlyEnabled :: "string \<Rightarrow> environment \<Rightarrow> bool" where
  "offUnlessExplicitlyEnabled name env = (flag_text name env \<in> set affirmative)"

definition onUnlessExplicitlyDisabled :: "string \<Rightarrow> environment \<Rightarrow> bool" where
  "onUnlessExplicitlyDisabled name env = (flag_text name env \<notin> set negative)"

section \<open>Gift letters\<close>

definition isGiftLettersEnabled :: "environment \<Rightarrow> bool" where
  "isGiftLettersEnabled = offUnlessExplicitlyEnabled ''LETTER_IRL_GIFT_LETTERS_ENABLED''"

definition giftDailySendCap :: "environment \<Rightarrow> int" where
  "giftDailySendCap = positiveIntegerSetting ''LETTER_IRL_GIFT_DAILY_SEND_CAP'' 20 0 max_safe_integer"

definition giftCodeTtlDays :: "environment \<Rightarrow> int" where
  "giftCodeTtlDays = positiveIntegerSetting ''LETTER_IRL_GIFT_CODE_TTL_DAYS'' 90 1 3650"

definition giftLetterTtlDays :: "environment \<Rightarrow> int" where
  "giftLetterTtlDays = positiveIntegerSetting ''LETTER_IRL_GIFT_LETTER_TTL_DAYS'' 180 1 3650"

definition giftOperatorGenerationsRemaining :: "environment \<Rightarrow> int" where
  "giftOperatorGenerationsRemaining =
     positiveIntegerSetting ''LETTER_IRL_GIFT_OPERATOR_GENERATIONS'' 4 0 100"

fun drop_trailing_slashes :: "string \<Rightarrow> string" where
  "drop_trailing_slashes t = rev (dropWhile (\<lambda>c. c = CHR ''/'') (rev t))"

definition giftLandingBaseUrl :: "environment \<Rightarrow> string" where
  "giftLandingBaseUrl env =
     (let raw = js_trim (case env ''LETTER_IRL_GIFT_LANDING_BASE_URL'' of None \<Rightarrow> [] | Some t \<Rightarrow> t);
          value = (if raw = [] then ''https://letterirl.com'' else raw)
      in drop_trailing_slashes value)"

section \<open>Laws\<close>

lemma setting_in_range:
  assumes "minimum \<le> fallback" and "fallback \<le> maximum"
  shows "minimum \<le> positiveIntegerSetting name fallback minimum maximum env \<and>
    positiveIntegerSetting name fallback minimum maximum env \<le> maximum"
  using assms by (auto simp: positiveIntegerSetting_def Let_def split: option.split)

lemma code_ttl_bounds: "1 \<le> giftCodeTtlDays env \<and> giftCodeTtlDays env \<le> 3650"
  unfolding giftCodeTtlDays_def by (rule setting_in_range) simp_all

lemma letter_ttl_bounds: "1 \<le> giftLetterTtlDays env \<and> giftLetterTtlDays env \<le> 3650"
  unfolding giftLetterTtlDays_def by (rule setting_in_range) simp_all

text \<open>Decimal text reads back.\<close>

lemma char_code_digit: "d < 10 \<Longrightarrow> char_code (digit_char d) = 48 + d"
  by (simp add: char_code_def digit_char_def)

lemma is_digit_char: "d < 10 \<Longrightarrow> is_digit (digit_char d)"
  by (simp add: is_digit_def char_code_digit)

lemma digits_value_append: "digits_value (xs @ [c]) = digits_value xs * 10 + (char_code c - 48)"
  by (simp add: digits_value_def)

lemma show_nat_digits: "list_all is_digit (show_nat n) \<and> show_nat n \<noteq> [] \<and> digits_value (show_nat n) = n"
proof (induction n rule: show_nat.induct)
  case (1 n)
  show ?case
  proof (cases "n < 10")
    case True
    then show ?thesis
      by (simp add: show_nat.simps [of n] is_digit_char digits_value_def char_code_digit)
  next
    case False
    with 1 have "list_all is_digit (show_nat (n div 10))" "digits_value (show_nat (n div 10)) = n div 10"
      by simp_all
    with False show ?thesis
      by (simp add: show_nat.simps [of n] is_digit_char digits_value_append char_code_digit)
  qed
qed

lemma digit_not_space: "is_digit c \<Longrightarrow> \<not> js_space c"
  by (auto simp: is_digit_def js_space_def)

lemma digit_not_sign: "is_digit c \<Longrightarrow> c \<noteq> CHR ''-'' \<and> c \<noteq> CHR ''+''"
  by (auto simp: is_digit_def char_code_def)

lemma trim_digits:
  assumes "list_all is_digit t"
  shows "js_trim t = t"
proof -
  have dw: "dropWhile js_space xs = xs" if "list_all is_digit xs" for xs
    using that by (cases xs) (auto simp: digit_not_space)
  have "list_all is_digit (rev t)" using assms by (simp add: list_all_iff)
  with assms show ?thesis by (simp add: js_trim_def dw)
qed

lemma parseInt_show: "0 \<le> n \<Longrightarrow> parseInt10 (show_int n) = Some n"
proof -
  assume "0 \<le> n"
  let ?t = "show_nat (nat n)"
  have t: "list_all is_digit ?t" "?t \<noteq> []" "digits_value ?t = nat n"
    using show_nat_digits [of "nat n"] by simp_all
  then obtain c cs where c: "?t = c # cs" by (cases ?t) simp_all
  with t have "is_digit c" by simp
  then have start: "dropWhile js_space ?t = ?t" "c \<noteq> CHR ''-''" "c \<noteq> CHR ''+''"
    using c digit_not_space digit_not_sign by auto
  have tw: "takeWhile is_digit ?t = ?t"
    using t(1) by (simp add: takeWhile_eq_all_conv list_all_iff)
  have "hd ?t = c" using c by simp
  with start show ?thesis
    using t(2,3) \<open>0 \<le> n\<close> by (simp add: parseInt10_def show_int_def Let_def tw)
qed

text \<open>
  An integer setting reads back what an operator writes: the decimal text of any number
  in range gives that number, and whatever else the variable holds (nothing, words, a number
  with a suffix, a number out of range) gives a value in range too, the default.
\<close>

theorem setting_reads_back:
  assumes "0 \<le> minimum" and "minimum \<le> fallback" and "fallback \<le> maximum"
  shows "(\<forall>n. minimum \<le> n \<and> n \<le> maximum \<longrightarrow>
      positiveIntegerSetting name fallback minimum maximum (env(name \<mapsto> show_int n)) = n) \<and>
    minimum \<le> positiveIntegerSetting name fallback minimum maximum env \<and>
    positiveIntegerSetting name fallback minimum maximum env \<le> maximum \<and>
    (positiveIntegerSetting name fallback minimum maximum env \<noteq> fallback \<longrightarrow>
      (\<exists>raw. env name = Some raw \<and>
        js_trim raw = show_int (positiveIntegerSetting name fallback minimum maximum env)))"
proof -
  have reads: "positiveIntegerSetting name fallback minimum maximum (env(name \<mapsto> show_int n)) = n"
    if "minimum \<le> n" "n \<le> maximum" for n
  proof -
    have "0 \<le> n" using that assms by simp
    then have "js_trim (show_int n) = show_int n"
      by (simp add: show_int_def trim_digits show_nat_digits)
    with that parseInt_show [OF \<open>0 \<le> n\<close>] show ?thesis
      by (simp add: positiveIntegerSetting_def Let_def)
  qed
  have "\<exists>raw. env name = Some raw \<and>
      js_trim raw = show_int (positiveIntegerSetting name fallback minimum maximum env)"
    if "positiveIntegerSetting name fallback minimum maximum env \<noteq> fallback"
  proof (cases "env name")
    case None
    with that show ?thesis by (simp add: positiveIntegerSetting_def parseInt10_def Let_def)
  next
    case (Some raw)
    with that show ?thesis
      by (auto simp: positiveIntegerSetting_def Let_def split: option.splits if_splits)
  qed
  with reads setting_in_range [OF assms(2,3)] show ?thesis by blast
qed

lemma setting_reads_back_witness:
  "giftCodeTtlDays [''LETTER_IRL_GIFT_CODE_TTL_DAYS'' \<mapsto> show_int 30] = 30"
  using setting_reads_back [of 1 90 3650 "''LETTER_IRL_GIFT_CODE_TTL_DAYS''" Map.empty]
  by (simp add: giftCodeTtlDays_def)

text \<open>
  The three kinds of flag agree on every value that says on or off, and differ only where
  they are meant to: an unset variable leaves only the give-away flag off, and a value that
  is neither (a typo) leaves only the access gate on.
\<close>

lemma flags_differ_only_in_direction:
  "(flag_text name env \<in> set affirmative \<longrightarrow> enabledUnlessDisabled name env \<and>
      offUnlessExplicitlyEnabled name env \<and> onUnlessExplicitlyDisabled name env) \<and>
   (flag_text name env \<in> set negative \<longrightarrow> \<not> enabledUnlessDisabled name env \<and>
      \<not> offUnlessExplicitlyEnabled name env \<and> \<not> onUnlessExplicitlyDisabled name env) \<and>
   (flag_text name env = [] \<longrightarrow> enabledUnlessDisabled name env \<and>
      \<not> offUnlessExplicitlyEnabled name env \<and> onUnlessExplicitlyDisabled name env) \<and>
   (flag_text name env \<notin> set ([] # affirmative @ negative) \<longrightarrow> \<not> enabledUnlessDisabled name env \<and>
      \<not> offUnlessExplicitlyEnabled name env \<and> onUnlessExplicitlyDisabled name env)"
  by (auto simp: enabledUnlessDisabled_def offUnlessExplicitlyEnabled_def onUnlessExplicitlyDisabled_def
      affirmative_def negative_def Let_def)

end
