(* ===== verification/Json.thy ===== *)
theory Json
  imports EnvSettings
begin

text \<open>
  JSON values, as the jsonb columns hold them and as \<open>JSON.stringify\<close> and PostgreSQL print them.
  Numbers are integers: no value the modelled code writes or reads has another. The printer takes
  what follows a comma and a colon: nothing for \<open>JSON.stringify\<close>, a space for jsonb's text.

  The laws: a printed value ends where its text says it ends, so a text determines its value.
  Versions of a draft and fingerprints of mail are compared as such texts.
\<close>

datatype json =
  JStr string
| JInt int
| JBool bool
| JNull
| JArr "json list"
| JObj "(string \<times> json) list"

type_synonym json_object = "(string \<times> json) list"

section \<open>Printing\<close>

definition hex_lower :: "nat \<Rightarrow> char" where
  "hex_lower d = (if d < 10 then char_of (48 + d) else char_of (87 + d))"

definition short_escapes :: "(nat \<times> char) list" where
  "short_escapes = [(34, CHR 0x22), (92, CHR 0x5C), (8, CHR ''b''), (9, CHR ''t''), (10, CHR ''n''),
     (12, CHR ''f''), (13, CHR ''r'')]"

definition json_char :: "char \<Rightarrow> string" where
  "json_char c =
     (case map_of short_escapes (char_code c) of
        Some e \<Rightarrow> [CHR 0x5C, e]
      | None \<Rightarrow>
          if char_code c < 32
          then [CHR 0x5C, CHR ''u'', CHR ''0'', CHR ''0'', hex_lower (char_code c div 16), hex_lower (char_code c mod 16)]
          else [c])"

definition json_quote :: "string \<Rightarrow> string" where
  "json_quote t = CHR 0x22 # concat (map json_char t) @ [CHR 0x22]"

fun print_json :: "string \<Rightarrow> json \<Rightarrow> string"
and print_items :: "string \<Rightarrow> json list \<Rightarrow> string"
and print_fields :: "string \<Rightarrow> (string \<times> json) list \<Rightarrow> string" where
  "print_json sp (JStr t) = json_quote t"
| "print_json sp (JInt n) = show_int n"
| "print_json sp (JBool b) = (if b then ''true'' else ''false'')"
| "print_json sp JNull = ''null''"
| "print_json sp (JArr []) = ''[]''"
| "print_json sp (JArr (v # vs)) = CHR ''['' # print_json sp v @ print_items sp vs"
| "print_json sp (JObj []) = ''{}''"
| "print_json sp (JObj ((k, v) # kvs)) =
     CHR ''{'' # json_quote k @ CHR '':'' # sp @ print_json sp v @ print_fields sp kvs"
| "print_items sp [] = '']''"
| "print_items sp (v # vs) = CHR '','' # sp @ print_json sp v @ print_items sp vs"
| "print_fields sp [] = ''}''"
| "print_fields sp ((k, v) # kvs) =
     CHR '','' # sp @ json_quote k @ CHR '':'' # sp @ print_json sp v @ print_fields sp kvs"

definition stringify :: "json \<Rightarrow> string" where
  "stringify = print_json []"

section \<open>A text determines its value\<close>

text \<open>A character is printed as itself, by a letter after a backslash, or by its code.\<close>

lemma json_char_cases:
  obtains (plain) "json_char c = [c]" "c \<noteq> CHR 0x22" "c \<noteq> CHR 0x5C"
    | (short) e where "(char_code c, e) \<in> set short_escapes" "json_char c = [CHR 0x5C, e]"
    | (control) "char_code c < 32" "json_char c =
        [CHR 0x5C, CHR ''u'', CHR ''0'', CHR ''0'', hex_lower (char_code c div 16), hex_lower (char_code c mod 16)]"
proof (cases "map_of short_escapes (char_code c)")
  case (Some e)
  then show ?thesis by (intro short [of e]) (auto simp: json_char_def dest: map_of_SomeD)
next
  case None
  show ?thesis
  proof (cases "char_code c < 32")
    case True
    then show ?thesis by (intro control) (use None in \<open>auto simp: json_char_def\<close>)
  next
    case False
    have "c \<noteq> CHR 0x22" "c \<noteq> CHR 0x5C" using None by (auto simp: short_escapes_def char_code_def)
    then show ?thesis by (intro plain) (use None False in \<open>simp_all add: json_char_def\<close>)
  qed
qed

lemma short_escapes_facts:
  "(n, e) \<in> set short_escapes \<Longrightarrow> e \<noteq> CHR ''u''"
  "(n, e) \<in> set short_escapes \<Longrightarrow> (m, e) \<in> set short_escapes \<Longrightarrow> n = m"
  by (auto simp: short_escapes_def)

lemma char_code_inj: "char_code c = char_code d \<Longrightarrow> c = d"
  by (simp add: char_code_def)

lemma hex_lower_inj: "a < 16 \<Longrightarrow> b < 16 \<Longrightarrow> hex_lower a = hex_lower b \<Longrightarrow> a = b"
proof -
  assume h: "a < 16" "b < 16" "hex_lower a = hex_lower b"
  have of: "(of_char (char_of n :: char) :: nat) = n" if "n < 256" for n using that by simp
  from h(3) have "(of_char (hex_lower a) :: nat) = of_char (hex_lower b)" by simp
  with h(1,2) show "a = b" by (auto simp: hex_lower_def of split: if_splits)
qed

lemma json_char_nonempty: "\<exists>x xs. json_char c = x # xs \<and> x \<noteq> CHR 0x22"
  by (cases c rule: json_char_cases) auto

lemma json_char_cancel: "json_char c @ r = json_char d @ r' \<Longrightarrow> c = d \<and> r = r'"
proof (cases c rule: json_char_cases)
  case plain
  then show "json_char c @ r = json_char d @ r' \<Longrightarrow> c = d \<and> r = r'"
    by (cases d rule: json_char_cases) auto
next
  case (short e)
  then show "json_char c @ r = json_char d @ r' \<Longrightarrow> c = d \<and> r = r'"
    by (cases d rule: json_char_cases) (auto dest: short_escapes_facts intro: char_code_inj)
next
  case control
  have digits: "char_code d = char_code c"
    if "char_code d < 32" "hex_lower (char_code c div 16) = hex_lower (char_code d div 16)"
      "hex_lower (char_code c mod 16) = hex_lower (char_code d mod 16)"
  proof -
    from that control have "char_code c div 16 = char_code d div 16" "char_code c mod 16 = char_code d mod 16"
      by (auto intro: hex_lower_inj)
    then show ?thesis by (metis div_mult_mod_eq)
  qed
  assume eq: "json_char c @ r = json_char d @ r'"
  then show "c = d \<and> r = r'"
  proof (cases d rule: json_char_cases)
    case control
    with eq \<open>json_char c = _\<close> have "char_code d = char_code c" "r = r'" by (auto intro: digits)
    then show ?thesis by (auto intro: char_code_inj)
  qed (use control eq in \<open>auto dest: short_escapes_facts\<close>)
qed

lemma quoted_body_cancel:
  "concat (map json_char a) @ CHR 0x22 # r = concat (map json_char b) @ CHR 0x22 # r' \<Longrightarrow> a = b \<and> r = r'"
proof (induction a arbitrary: b)
  case Nil
  then show ?case by (cases b) (use json_char_nonempty in \<open>auto, metis append_Cons list.inject\<close>)
next
  case (Cons c a)
  show ?case
  proof (cases b)
    case Nil
    with Cons.prems show ?thesis using json_char_nonempty [of c] by auto
  next
    case (Cons d b')
    with Cons.prems Cons.IH [of b'] show ?thesis by (auto dest: json_char_cancel)
  qed
qed

lemma json_quote_cancel: "json_quote a @ r = json_quote b @ r' \<Longrightarrow> a = b \<and> r = r'"
  by (auto simp: json_quote_def dest: quoted_body_cancel)

definition stops :: "string \<Rightarrow> bool" where
  "stops r \<longleftrightarrow> (case r of [] \<Rightarrow> True | c # _ \<Rightarrow> \<not> is_digit c)"

lemma show_nat_cancel: "show_nat n @ r = show_nat m @ r' \<Longrightarrow> stops r \<Longrightarrow> stops r' \<Longrightarrow> n = m \<and> r = r'"
proof -
  assume h: "show_nat n @ r = show_nat m @ r'" "stops r" "stops r'"
  have tw: "takeWhile is_digit (show_nat k @ q) = show_nat k" if "stops q" for k q
    using that show_nat_digits [of k]
    by (cases q) (auto simp: stops_def takeWhile_append list_all_iff takeWhile_eq_all_conv [THEN iffD2])
  from h have "show_nat n = show_nat m" by (metis tw)
  with h(1) show "n = m \<and> r = r'" by (metis append_same_eq same_append_eq show_nat_digits)
qed

lemma show_nat_head: "\<exists>c cs. show_nat n = c # cs \<and> is_digit c"
  using show_nat_digits [of n] by (cases "show_nat n") auto

lemma digit_not: "is_digit c \<Longrightarrow> c \<noteq> CHR ''-'' \<and> c \<noteq> CHR 0x22 \<and> c \<noteq> CHR ''t'' \<and> c \<noteq> CHR ''f'' \<and>
    c \<noteq> CHR ''n'' \<and> c \<noteq> CHR ''['' \<and> c \<noteq> CHR ''{'' \<and> c \<noteq> CHR '']'' \<and> c \<noteq> CHR '','' \<and> c \<noteq> CHR ''}''"
  by (auto simp: is_digit_def char_code_def)

lemma show_int_head: "\<exists>c cs. show_int n = c # cs \<and> (c = CHR ''-'' \<or> is_digit c)"
  using show_nat_head [of "nat n"] by (auto simp: show_int_def)

lemma show_int_cancel:
  assumes "show_int n @ r = show_int m @ r'" and "stops r" and "stops r'"
  shows "n = m \<and> r = r'"
proof (cases "n < 0 \<longleftrightarrow> m < 0")
  case True
  with assms show ?thesis by (auto simp: show_int_def dest: show_nat_cancel split: if_splits)
next
  case False
  obtain c cs where c: "show_nat (nat n) = c # cs" "is_digit c" using show_nat_head by blast
  obtain d ds where d: "show_nat (nat m) = d # ds" "is_digit d" using show_nat_head by blast
  from False assms(1) c d show ?thesis by (auto simp: show_int_def dest: digit_not split: if_splits)
qed

lemma json_quote_head: "\<exists>cs. json_quote t = CHR 0x22 # cs"
  by (simp add: json_quote_def)

text \<open>The first character of a printed value says which constructor it has.\<close>

fun starts :: "json \<Rightarrow> char \<Rightarrow> bool" where
  "starts (JStr t) c \<longleftrightarrow> c = CHR 0x22"
| "starts (JInt n) c \<longleftrightarrow> c = CHR ''-'' \<or> is_digit c"
| "starts (JBool b) c \<longleftrightarrow> c = (if b then CHR ''t'' else CHR ''f'')"
| "starts JNull c \<longleftrightarrow> c = CHR ''n''"
| "starts (JArr vs) c \<longleftrightarrow> c = CHR ''[''"
| "starts (JObj kvs) c \<longleftrightarrow> c = CHR ''{''"

lemma print_json_head: "\<exists>c cs. print_json sp v = c # cs \<and> starts v c"
proof (cases v)
  case (JInt n)
  with show_int_head [of n] show ?thesis by auto
next
  case (JArr vs)
  then show ?thesis by (cases vs) auto
next
  case (JObj kvs)
  then show ?thesis by (cases kvs) auto
qed (auto simp: json_quote_def)

lemma starts_not_close: "starts v c \<Longrightarrow> c \<noteq> CHR '']'' \<and> c \<noteq> CHR ''}''"
  by (cases v) (auto dest: digit_not split: if_splits)

lemma value_not_close: "print_json sp v @ r \<noteq> CHR '']'' # r'"
  using print_json_head [of sp v] starts_not_close by fastforce

lemma same_start:
  assumes "print_json sp v @ r = print_json sp w @ r'"
  obtains c where "starts v c" "starts w c"
  using assms print_json_head [of sp v] print_json_head [of sp w] that by auto

lemma starts_kind:
  "starts v c \<Longrightarrow> starts (JStr t) c \<Longrightarrow> \<exists>u. v = JStr u"
  "starts v c \<Longrightarrow> starts (JInt n) c \<Longrightarrow> \<exists>m. v = JInt m"
  "starts v c \<Longrightarrow> starts (JBool b) c \<Longrightarrow> v = JBool b"
  "starts v c \<Longrightarrow> starts JNull c \<Longrightarrow> v = JNull"
  "starts v c \<Longrightarrow> starts (JArr vs) c \<Longrightarrow> \<exists>ws. v = JArr ws"
  "starts v c \<Longrightarrow> starts (JObj kvs) c \<Longrightarrow> \<exists>ws. v = JObj ws"
  by (cases v; auto dest: digit_not split: if_splits)+

lemma items_stop: "stops (print_items sp vs @ r)" "stops (print_fields sp kvs @ r)"
  by (cases vs; simp add: stops_def is_digit_def char_code_def)
     (cases kvs; auto simp add: stops_def is_digit_def char_code_def)

text \<open>A printed value is followed by what follows it: the printer's output can be split in one way only.\<close>

lemma print_json_cancel:
  "print_json sp v @ r = print_json sp w @ r' \<Longrightarrow> stops r \<Longrightarrow> stops r' \<Longrightarrow> v = w \<and> r = r'"
  "print_items sp vs @ r = print_items sp ws @ r' \<Longrightarrow> vs = ws \<and> r = r'"
  "print_fields sp kvs @ r = print_fields sp kws @ r' \<Longrightarrow> kvs = kws \<and> r = r'"
proof (induction sp v and sp vs and sp kvs arbitrary: w r r' and ws r r' and kws r r'
    rule: print_json_print_items_print_fields.induct)
  case (1 sp t)
  then obtain u where "w = JStr u" by (elim same_start) (auto dest: starts_kind(1))
  with 1 show ?case by (auto dest: json_quote_cancel)
next
  case (2 sp n)
  then obtain m where "w = JInt m" by (elim same_start) (metis starts_kind(2))
  with 2 show ?case by (auto dest: show_int_cancel)
next
  case (3 sp b)
  then have "w = JBool b" by (elim same_start) (metis starts_kind(3))
  with 3 show ?case by (simp split: if_splits)
next
  case (4 sp)
  then have "w = JNull" by (elim same_start) (metis starts_kind(4))
  with 4 show ?case by simp
next
  case (5 sp)
  then obtain ws where w: "w = JArr ws" by (elim same_start) (metis starts_kind(5))
  show ?case
  proof (cases ws)
    case (Cons v' vs')
    with 5 w have "print_json sp v' @ print_items sp vs' @ r' = CHR '']'' # r" by simp
    then show ?thesis using value_not_close by blast
  qed (use 5 w in simp)
next
  case (6 sp v vs)
  then obtain ws where w: "w = JArr ws" by (elim same_start) (metis starts_kind(5))
  show ?case
  proof (cases ws)
    case Nil
    with 6(3) w have "print_json sp v @ print_items sp vs @ r = CHR '']'' # r'" by simp
    then show ?thesis using value_not_close by blast
  next
    case (Cons v' vs')
    with 6(3) w have "print_json sp v @ (print_items sp vs @ r) = print_json sp v' @ (print_items sp vs' @ r')" by simp
    from 6(1) [OF this items_stop(1) items_stop(1)]
    have v: "v = v'" and "print_items sp vs @ r = print_items sp vs' @ r'" by auto
    from 6(2) [OF this(2)] v Cons w show ?thesis by simp
  qed
next
  case (7 sp)
  then obtain ws where w: "w = JObj ws" by (elim same_start) (metis starts_kind(6))
  with 7 show ?case by (cases ws) (auto simp: json_quote_def)
next
  case (8 sp k v kvs)
  then obtain ws where w: "w = JObj ws" by (elim same_start) (metis starts_kind(6))
  show ?case
  proof (cases ws)
    case Nil
    with 8(3) w show ?thesis by (simp add: json_quote_def)
  next
    case (Cons kv kws)
    obtain k' v' where kv: "kv = (k', v')" by (cases kv)
    from 8(3) w Cons kv have "json_quote k @ (CHR '':'' # sp @ print_json sp v @ print_fields sp kvs @ r) =
        json_quote k' @ (CHR '':'' # sp @ print_json sp v' @ print_fields sp kws @ r')" by simp
    from json_quote_cancel [OF this] have k: "k = k'"
      and rest: "print_json sp v @ (print_fields sp kvs @ r) = print_json sp v' @ (print_fields sp kws @ r')" by auto
    from 8(1) [OF rest items_stop(2) items_stop(2)] have "v = v'"
      and "print_fields sp kvs @ r = print_fields sp kws @ r'" by auto
    from 8(2) [OF this(2)] this(1) k w Cons kv show ?thesis by simp
  qed
next
  case (9 sp)
  then show ?case by (cases ws) auto
next
  case (10 sp v vs)
  show ?case
  proof (cases ws)
    case Nil
    with 10(3) show ?thesis by simp
  next
    case (Cons v' vs')
    with 10(3) have "print_json sp v @ (print_items sp vs @ r) = print_json sp v' @ (print_items sp vs' @ r')" by simp
    from 10(1) [OF this items_stop(1) items_stop(1)]
    have v: "v = v'" and "print_items sp vs @ r = print_items sp vs' @ r'" by auto
    from 10(2) [OF this(2)] v Cons show ?thesis by simp
  qed
next
  case (11 sp)
  then show ?case by (cases kws) auto
next
  case (12 sp k v kvs)
  show ?case
  proof (cases kws)
    case Nil
    with 12(3) show ?thesis by simp
  next
    case (Cons kv kws')
    obtain k' v' where kv: "kv = (k', v')" by (cases kv)
    from 12(3) Cons kv have "json_quote k @ (CHR '':'' # sp @ print_json sp v @ print_fields sp kvs @ r) =
        json_quote k' @ (CHR '':'' # sp @ print_json sp v' @ print_fields sp kws' @ r')" by simp
    from json_quote_cancel [OF this] have k: "k = k'"
      and rest: "print_json sp v @ (print_fields sp kvs @ r) = print_json sp v' @ (print_fields sp kws' @ r')" by auto
    from 12(1) [OF rest items_stop(2) items_stop(2)] have "v = v'"
      and "print_fields sp kvs @ r = print_fields sp kws' @ r'" by auto
    from 12(2) [OF this(2)] this(1) k Cons kv show ?thesis by simp
  qed
qed

lemma stringify_inj: "stringify v = stringify w \<longleftrightarrow> v = w"
  using print_json_cancel(1) [of "[]" v "[]" w "[]"] by (auto simp: stringify_def stops_def)

end
