(* ===== verification/Store.thy ===== *)
theory Store
  imports Json
begin

text \<open>
  The database the services share: one record whose fields are the PostgreSQL tables
  (db/migrations), each a list of its rows in insertion order, and the row types with the
  columns the services read or write. An operation of a service is a function from the
  store to \<open>error + (result \<times> store)\<close>; an \<open>Inl\<close> is the exception that rolls its
  transaction back. Columns that hold a fixed vocabulary (a CHECK ... IN or an enum type)
  are datatypes; free text is \<open>string\<close>; a nullable column is an option.

  \<open>NOW()\<close> is an argument of every operation that reads it: the database's clock at the
  transaction. Generated keys are drawn from counters of the store; an insert still checks
  its primary key, as the table does.
\<close>

section \<open>Vocabularies\<close>

datatype credit_source_type =
  Src_purchase | Src_signup_bonus | Src_promo | Src_adjustment | Src_refund | Src_legacy

datatype ledger_status = Lot_active | Lot_depleted | Lot_expired | Lot_revoked

datatype expiration_policy = Pol_fixed_date | Pol_days_from_activation | Pol_never

datatype transaction_type = Tx_purchase | Tx_deduction | Tx_refund | Tx_adjustment

datatype reference_type = Ref_order | Ref_letter | Ref_manual

datatype letter_status =
  L_draft | L_queued | L_processing | L_held | L_sent | L_accepted | L_in_transit
| L_delivered | L_returned | L_failed | L_cancelled

datatype job_status = J_pending | J_processing | J_held | J_completed | J_failed | J_cancelled

datatype provider_outcome =
  O_not_dispatched | O_dispatching | O_accepted | O_definite_failure | O_ambiguous

datatype order_status =
  Ord_checkout_pending | Ord_paid | Ord_fulfillment_pending | Ord_fulfilled | Ord_payment_failed
| Ord_refund_pending | Ord_refunded | Ord_disputed | Ord_held | Ord_cancelled

fun order_status_text :: "order_status \<Rightarrow> string" where
  "order_status_text Ord_checkout_pending = ''checkout_pending''"
| "order_status_text Ord_paid = ''paid''"
| "order_status_text Ord_fulfillment_pending = ''fulfillment_pending''"
| "order_status_text Ord_fulfilled = ''fulfilled''"
| "order_status_text Ord_payment_failed = ''payment_failed''"
| "order_status_text Ord_refund_pending = ''refund_pending''"
| "order_status_text Ord_refunded = ''refunded''"
| "order_status_text Ord_disputed = ''disputed''"
| "order_status_text Ord_held = ''held''"
| "order_status_text Ord_cancelled = ''cancelled''"

datatype order_type = Ot_letter_pack | Ot_jit_mail

datatype funding_type = Fund_prepaid_balance | Fund_jit_order | Fund_gift_letter

datatype mail_type = Mt_letter | Mt_postcard

datatype gift_source =
  Gs_pack_purchase | Gs_seed_redemption | Gs_chain_redemption | Gs_operator | Gs_send_failed

datatype gift_status = G_available | G_consumed | G_expired | G_revoked

datatype gift_code_status = Gc_issued | Gc_redeemed | Gc_void

datatype draft_status = D_pending | D_consumed | D_expired | D_cancelled

datatype daily_limit_key =
  Lk_global_daily_mail | Lk_account_daily_mail | Lk_account_daily_charge_cents | Lk_gift_daily_send

datatype alert_severity = Sev_info | Sev_warning | Sev_critical

datatype user_tier = Tier_standard | Tier_trusted

section \<open>JSON columns\<close>

text \<open>The operator \<open>->>\<close>: the value of a key as text, NULL for a missing key or a null.\<close>

fun json_value_text :: "json \<Rightarrow> string option" where
  "json_value_text (JStr t) = Some t"
| "json_value_text (JInt n) = Some (show_int n)"
| "json_value_text (JBool b) = Some (if b then ''true'' else ''false'')"
| "json_value_text JNull = None"
| "json_value_text v = Some (print_json '' '' v)"

definition json_text :: "json_object option \<Rightarrow> string \<Rightarrow> string option" where
  "json_text obj k = (case obj of None \<Rightarrow> None | Some kvs \<Rightarrow>
     (case map_of kvs k of None \<Rightarrow> None | Some v \<Rightarrow> json_value_text v))"

section \<open>Rows\<close>

record user =
  u_id :: string
  u_email :: string
  u_credits :: int
  u_credits_purchased :: int
  u_credits_used :: int
  u_sends_blocked_at :: "instant option"
  u_sends_blocked_reason :: "string option"
  u_erased_at :: "instant option"
  u_tier :: user_tier
  u_tier_calculated_at :: "instant option"
  u_updated_at :: instant

record ledger_entry =
  le_id :: string
  le_user :: string
  le_initial :: int
  le_remaining :: int
  le_source_type :: credit_source_type
  le_source_reference_id :: "string option"
  le_source_order_id :: "string option"
  le_source_metadata :: "json_object option"
  le_activated_at :: instant
  le_expires_at :: "instant option"
  le_expiration_policy :: "expiration_policy option"
  le_expiration_days :: "int option"
  le_status :: ledger_status
  le_description :: "string option"
  le_related_ledger_id :: "string option"
  le_created_at :: instant
  le_updated_at :: instant

record credit_transaction =
  tx_id :: nat
  tx_user :: string
  tx_amount :: int
  tx_balance_after :: int
  tx_type :: transaction_type
  tx_reference_type :: "reference_type option"
  tx_reference_id :: "string option"
  tx_description :: "string option"
  tx_created_at :: instant

record credit_consumption =
  cc_transaction_id :: nat
  cc_ledger_id :: string
  cc_amount :: int
  cc_ledger_remaining_after :: int

text \<open>The card page of a gift letter, as the send writes it into the letter's content.\<close>

datatype card_state = Card_funded | Card_unfunded

record gift_card =
  ca_state :: card_state
  ca_code :: "string option"
  ca_url :: string
  ca_display_url :: string
  ca_redeem_by :: "string option"
  ca_sample :: bool
  ca_multi_use :: bool
  ca_new_accounts_only :: bool

text \<open>A letter's JSON content: one field for each key a send writes, absent keys as None.\<close>

record letter_content =
  lc_layout_type :: "string option"
  lc_renderer_version :: "json option"
  lc_sender :: "json_object option"
  lc_body_text :: "string option"
  lc_sign_off :: "string option"
  lc_message :: "string option"
  lc_postcard_size :: "string option"
  lc_header_image_data :: "string option"
  lc_header_image_url :: "string option"
  lc_inline_image_data :: "string option"
  lc_inline_image_url :: "string option"
  lc_front_image_data :: "string option"
  lc_front_image_url :: "string option"
  lc_stationery :: "json_object option"
  lc_pages :: "int option"
  lc_signature_image :: "string option"
  lc_postcard_front :: "json_object option"
  lc_gift_card :: "gift_card option"

record letter =
  lt_id :: string
  lt_user :: string
  lt_content :: letter_content
  lt_credits_cost :: int
  lt_status :: letter_status
  lt_mail_type :: mail_type
  lt_mail_service :: "string option"
  lt_funding_type :: funding_type
  lt_funding_order_id :: "string option"
  lt_tracking_id :: "string option"
  lt_provider :: "string option"
  lt_provider_raw_status :: "string option"
  lt_cost_cents :: int
  lt_expected_delivery :: "instant option"
  lt_sent_at :: "instant option"
  lt_status_updated_at :: "instant option"
  lt_redacted_at :: "instant option"
  lt_arrive_by :: "string option"
  lt_mail_on :: "string option"
  lt_recipient :: "json_object option"
  lt_preview_html :: "string option"
  lt_print_pdf_sha256 :: "string option"
  lt_print_layout_fingerprint :: "string option"
  lt_print_layout_engine :: "string option"
  lt_created_at :: instant
  lt_updated_at :: instant

record letter_job =
  j_id :: string
  j_letter :: string
  j_status :: job_status
  j_attempts :: nat
  j_max_attempts :: nat
  j_scheduled_at :: instant
  j_idempotency_key :: string
  j_next_attempt_at :: instant
  j_locked_at :: "instant option"
  j_provider_order_id :: "string option"
  j_provider_outcome :: provider_outcome
  j_provider_dispatch_started_at :: "instant option"
  j_held_at :: "instant option"
  j_hold_reason :: "string option"
  j_mail_hold_until :: "instant option"
  j_operator_resolution :: "string option"
  j_resolved_at :: "instant option"
  j_last_error :: "string option"
  j_error_message :: "string option"
  j_started_at :: "instant option"
  j_completed_at :: "instant option"
  j_metadata :: json_object
  j_created_at :: instant
  j_updated_at :: instant

record order =
  o_id :: string
  o_user :: string
  o_type :: order_type
  o_draft_id :: "string option"
  o_letter_id :: "string option"
  o_product_code :: string
  o_product_snapshot :: json_object
  o_credits :: "int option"
  o_amount_cents :: int
  o_amount_known :: bool
  o_currency :: string
  o_status :: order_status
  o_idempotency_key :: string
  o_checkout_url :: "string option"
  o_checkout_expires_at :: "instant option"
  o_stripe_checkout_session_id :: "string option"
  o_stripe_payment_intent_id :: "string option"
  o_stripe_refund_id :: "string option"
  o_refund_attempts :: int
  o_credits_refunded :: int
  o_amount_refunded_cents :: int
  o_hold_previous_status :: "order_status option"
  o_held_at :: "instant option"
  o_hold_reason :: "string option"
  o_dispute_status :: "string option"
  o_paid_at :: "instant option"
  o_fulfillment_started_at :: "instant option"
  o_fulfilled_at :: "instant option"
  o_completed_at :: "instant option"
  o_payment_failed_at :: "instant option"
  o_refund_pending_at :: "instant option"
  o_refunded_at :: "instant option"
  o_last_error_code :: "string option"
  o_last_error :: "string option"
  o_created_at :: instant
  o_updated_at :: instant

record order_event =
  oe_order :: string
  oe_type :: string
  oe_from :: "order_status option"
  oe_to :: "order_status option"
  oe_metadata :: json_object

record alert =
  al_source_event :: "string option"
  al_order :: "string option"
  al_type :: string
  al_severity :: alert_severity
  al_resolved :: bool
  al_resolved_by :: "string option"
  al_resolution_code :: "string option"
  al_details :: json_object

record status_history =
  sh_letter :: string
  sh_old :: letter_status
  sh_new :: letter_status
  sh_provider_raw_status :: "string option"
  sh_source :: string

record operator_audit =
  au_key_hash :: string
  au_actor_hash :: string
  au_operation :: string
  au_target_type :: string
  au_target_hash :: string
  au_reason_code :: string
  au_before :: json_object
  au_after :: json_object
  au_evidence :: json_object

record gift_letter =
  g_id :: string
  g_user :: string
  g_generations_remaining :: int
  g_source :: gift_source
  g_source_reference_id :: string
  g_grant_index :: nat
  g_source_order_id :: "string option"
  g_source_campaign_id :: "string option"
  g_parent_code :: "string option"
  g_card_campaign_id :: "string option"
  g_status :: gift_status
  g_expires_at :: "instant option"
  g_consumed_at :: "instant option"
  g_consumed_by_letter_id :: "string option"
  g_source_reversed_at :: "instant option"
  g_created_at :: instant

record gift_code =
  gc_code :: string
  gc_gift :: string
  gc_letter :: string
  gc_issued_to :: string
  gc_grants_generations_remaining :: int
  gc_status :: gift_code_status
  gc_expires_at :: instant
  gc_redeemed_by :: "string option"
  gc_redeemed_at :: "instant option"
  gc_voided_at :: "instant option"
  gc_void_reason :: "string option"

record campaign =
  pc_id :: string
  pc_code :: string
  pc_status :: string
  pc_starts_at :: instant
  pc_ends_at :: "instant option"
  pc_max_total_redemptions :: "int option"
  pc_current_redemptions :: int
  pc_gift_generations_remaining :: "int option"
  pc_requires_new_user :: bool

record draft =
  d_id :: string
  d_user :: string
  d_mail_type :: mail_type
  d_sender :: json_object
  d_recipient :: json_object
  d_body_text :: string
  d_sign_off :: "string option"
  d_required_credits :: int
  d_preview_html :: "string option"
  d_layout_type :: "string option"
  d_header_image_data :: "string option"
  d_header_image_url :: "string option"
  d_inline_image_data :: "string option"
  d_inline_image_url :: "string option"
  d_front_image_data :: "string option"
  d_front_image_url :: "string option"
  d_postcard_size :: "string option"
  d_postcard_front :: "json_object option"
  d_stationery :: "json_object option"
  d_signature_image :: "string option"
  d_renderer_version :: "string option"
  d_pages :: int
  d_mail_service :: string
  d_arrive_by :: "string option"
  d_mail_on :: "string option"
  d_is_gift_send :: bool
  d_status :: draft_status
  d_expires_at :: instant
  d_consumed_at :: "instant option"
  d_consumed_letter_id :: "string option"
  d_redacted_at :: "instant option"
  d_updated_at :: instant

record limit_override =
  lo_key :: daily_limit_key
  lo_user :: "string option"
  lo_value :: int
  lo_expires_at :: "instant option"
  lo_cleared_at :: "instant option"

section \<open>The store\<close>

text \<open>
  \<open>submissions\<close> is the outside world's part: the idempotency keys of the requests the
  mail provider has been sent, in order. Nothing in the program reads it.
\<close>

record db =
  users :: "user list"
  ledger :: "ledger_entry list"
  txns :: "credit_transaction list"
  consumptions :: "credit_consumption list"
  letters :: "letter list"
  jobs :: "letter_job list"
  orders :: "order list"
  order_events :: "order_event list"
  alerts :: "alert list"
  history :: "status_history list"
  audits :: "operator_audit list"
  gifts :: "gift_letter list"
  gift_codes :: "gift_code list"
  campaigns :: "campaign list"
  drafts :: "draft list"
  limit_overrides :: "limit_override list"
  uuid_seq :: nat
  txn_seq :: nat
  submissions :: "string list"

definition empty_db :: db where
  "empty_db = \<lparr> users = [], ledger = [], txns = [], consumptions = [], letters = [], jobs = [],
     orders = [], order_events = [], alerts = [], history = [], audits = [], gifts = [],
     gift_codes = [], campaigns = [], drafts = [], limit_overrides = [], uuid_seq = 0, txn_seq = 1, submissions = [] \<rparr>"

section \<open>Errors\<close>

text \<open>
  What a service throws: an Error with its message, one of its own error classes, or the
  database's refusal of a statement, named by its constraint.
\<close>

datatype error =
  Error string
| Verified_email_required
| Email_already_linked
| Coded_error string string   \<comment> \<open>code and message\<close>
| Admin_job_error string      \<comment> \<open>AdminJobReleaseError, AdminJobRetryError, AdminMailResolutionError: the code\<close>
| Check_violation string      \<comment> \<open>SQLSTATE 23514, the constraint\<close>
| Unique_violation string     \<comment> \<open>SQLSTATE 23505, the index\<close>
| Foreign_key_violation string \<comment> \<open>SQLSTATE 23503, the constraint\<close>

text \<open>The store after a transaction: what it committed, or the store it rolled back to.\<close>

definition committed :: "db \<Rightarrow> error + 'a \<times> db \<Rightarrow> db" where
  "committed s r = (case r of Inl _ \<Rightarrow> s | Inr (x, s') \<Rightarrow> s')"

lemma committed_simps [simp]: "committed s (Inl e) = s" "committed s (Inr (x, s')) = s'"
  by (simp_all add: committed_def)

lemma committed_ok:
  assumes "is_ok r"
  obtains x where "r = Inr (x, committed s r)"
  using assms that by (cases r) auto

section \<open>The tables as instances of the table interface\<close>

interpretation users_tab: db_table users users_update u_id
  by unfold_locales simp

interpretation ledger_tab: db_table ledger ledger_update le_id
  by unfold_locales simp

interpretation letters_tab: db_table letters letters_update lt_id
  by unfold_locales simp

interpretation jobs_tab: db_table jobs jobs_update j_id
  by unfold_locales simp

interpretation orders_tab: db_table orders orders_update o_id
  by unfold_locales simp

interpretation gifts_tab: db_table gifts gifts_update g_id
  by unfold_locales simp

interpretation codes_tab: db_table gift_codes gift_codes_update gc_code
  by unfold_locales simp

interpretation drafts_tab: db_table drafts drafts_update d_id
  by unfold_locales simp

section \<open>Lookups by primary key\<close>

definition find_user :: "string \<Rightarrow> db \<Rightarrow> user option" where
  "find_user uid s = find_by u_id uid (users s)"

definition find_lot :: "string \<Rightarrow> db \<Rightarrow> ledger_entry option" where
  "find_lot lid s = find_by le_id lid (ledger s)"

definition find_letter :: "string \<Rightarrow> db \<Rightarrow> letter option" where
  "find_letter lid s = find_by lt_id lid (letters s)"

definition find_job :: "string \<Rightarrow> db \<Rightarrow> letter_job option" where
  "find_job jid s = find_by j_id jid (jobs s)"

definition find_order :: "string \<Rightarrow> db \<Rightarrow> order option" where
  "find_order oid s = find_by o_id oid (orders s)"

definition find_code :: "string \<Rightarrow> db \<Rightarrow> gift_code option" where
  "find_code c s = find_by gc_code c (gift_codes s)"

definition find_draft :: "string \<Rightarrow> db \<Rightarrow> draft option" where
  "find_draft did s = find_by d_id did (drafts s)"

section \<open>Updates by primary key\<close>

definition upd_user :: "string \<Rightarrow> (user \<Rightarrow> user) \<Rightarrow> db \<Rightarrow> db" where
  "upd_user uid f = users_update (upd_where (\<lambda>u. u_id u = uid) f)"

definition upd_lot :: "string \<Rightarrow> (ledger_entry \<Rightarrow> ledger_entry) \<Rightarrow> db \<Rightarrow> db" where
  "upd_lot lid f = ledger_update (upd_where (\<lambda>e. le_id e = lid) f)"

definition upd_letter :: "string \<Rightarrow> (letter \<Rightarrow> letter) \<Rightarrow> db \<Rightarrow> db" where
  "upd_letter lid f = letters_update (upd_where (\<lambda>l. lt_id l = lid) f)"

definition upd_job :: "string \<Rightarrow> (letter_job \<Rightarrow> letter_job) \<Rightarrow> db \<Rightarrow> db" where
  "upd_job jid f = jobs_update (upd_where (\<lambda>j. j_id j = jid) f)"

definition upd_order :: "string \<Rightarrow> (order \<Rightarrow> order) \<Rightarrow> db \<Rightarrow> db" where
  "upd_order oid f = orders_update (upd_where (\<lambda>ord. o_id ord = oid) f)"

definition upd_code :: "string \<Rightarrow> (gift_code \<Rightarrow> gift_code) \<Rightarrow> db \<Rightarrow> db" where
  "upd_code c f = gift_codes_update (upd_where (\<lambda>g. gc_code g = c) f)"

definition upd_draft :: "string \<Rightarrow> (draft \<Rightarrow> draft) \<Rightarrow> db \<Rightarrow> db" where
  "upd_draft did f = drafts_update (upd_where (\<lambda>d. d_id d = did) f)"

lemmas find_defs =
  find_user_def find_lot_def find_letter_def find_job_def find_order_def find_code_def find_draft_def
lemmas upd_defs =
  upd_user_def upd_lot_def upd_letter_def upd_job_def upd_order_def upd_code_def upd_draft_def

text \<open>An update of one table leaves the others as they are.\<close>

lemma upd_user_frame [store_simps, simp]:
  "ledger (upd_user k f s) = ledger s" "txns (upd_user k f s) = txns s"
  "consumptions (upd_user k f s) = consumptions s" "letters (upd_user k f s) = letters s"
  "jobs (upd_user k f s) = jobs s" "orders (upd_user k f s) = orders s"
  "gifts (upd_user k f s) = gifts s" "gift_codes (upd_user k f s) = gift_codes s"
  "drafts (upd_user k f s) = drafts s"
  "submissions (upd_user k f s) = submissions s"
  "order_events (upd_user k f s) = order_events s" "alerts (upd_user k f s) = alerts s"
  "history (upd_user k f s) = history s" "audits (upd_user k f s) = audits s"
  "limit_overrides (upd_user k f s) = limit_overrides s"
  by (simp_all add: upd_user_def)

lemma upd_lot_frame [store_simps, simp]:
  "users (upd_lot k f s) = users s" "txns (upd_lot k f s) = txns s"
  "consumptions (upd_lot k f s) = consumptions s" "letters (upd_lot k f s) = letters s"
  "jobs (upd_lot k f s) = jobs s" "orders (upd_lot k f s) = orders s"
  "gifts (upd_lot k f s) = gifts s" "gift_codes (upd_lot k f s) = gift_codes s"
  "drafts (upd_lot k f s) = drafts s"
  "submissions (upd_lot k f s) = submissions s"
  "order_events (upd_lot k f s) = order_events s" "alerts (upd_lot k f s) = alerts s"
  "history (upd_lot k f s) = history s" "audits (upd_lot k f s) = audits s"
  "limit_overrides (upd_lot k f s) = limit_overrides s"
  by (simp_all add: upd_lot_def)

lemma upd_letter_frame [store_simps, simp]:
  "users (upd_letter k f s) = users s" "ledger (upd_letter k f s) = ledger s"
  "txns (upd_letter k f s) = txns s" "consumptions (upd_letter k f s) = consumptions s"
  "jobs (upd_letter k f s) = jobs s" "orders (upd_letter k f s) = orders s"
  "gifts (upd_letter k f s) = gifts s" "gift_codes (upd_letter k f s) = gift_codes s"
  "drafts (upd_letter k f s) = drafts s"
  "submissions (upd_letter k f s) = submissions s"
  "order_events (upd_letter k f s) = order_events s" "alerts (upd_letter k f s) = alerts s"
  "history (upd_letter k f s) = history s" "audits (upd_letter k f s) = audits s"
  "limit_overrides (upd_letter k f s) = limit_overrides s"
  by (simp_all add: upd_letter_def)

lemma upd_job_frame [store_simps, simp]:
  "users (upd_job k f s) = users s" "ledger (upd_job k f s) = ledger s"
  "txns (upd_job k f s) = txns s" "consumptions (upd_job k f s) = consumptions s"
  "letters (upd_job k f s) = letters s" "orders (upd_job k f s) = orders s"
  "gifts (upd_job k f s) = gifts s" "gift_codes (upd_job k f s) = gift_codes s"
  "drafts (upd_job k f s) = drafts s"
  "submissions (upd_job k f s) = submissions s"
  "order_events (upd_job k f s) = order_events s" "alerts (upd_job k f s) = alerts s"
  "history (upd_job k f s) = history s" "audits (upd_job k f s) = audits s"
  "limit_overrides (upd_job k f s) = limit_overrides s"
  by (simp_all add: upd_job_def)

lemma upd_order_frame [store_simps, simp]:
  "users (upd_order k f s) = users s" "ledger (upd_order k f s) = ledger s"
  "txns (upd_order k f s) = txns s" "consumptions (upd_order k f s) = consumptions s"
  "letters (upd_order k f s) = letters s" "jobs (upd_order k f s) = jobs s"
  "gifts (upd_order k f s) = gifts s" "gift_codes (upd_order k f s) = gift_codes s"
  "drafts (upd_order k f s) = drafts s"
  "submissions (upd_order k f s) = submissions s"
  "order_events (upd_order k f s) = order_events s" "alerts (upd_order k f s) = alerts s"
  "history (upd_order k f s) = history s" "audits (upd_order k f s) = audits s"
  "limit_overrides (upd_order k f s) = limit_overrides s"
  by (simp_all add: upd_order_def)

lemma upd_draft_frame [store_simps, simp]:
  "users (upd_draft k f s) = users s" "ledger (upd_draft k f s) = ledger s"
  "txns (upd_draft k f s) = txns s" "consumptions (upd_draft k f s) = consumptions s"
  "letters (upd_draft k f s) = letters s" "jobs (upd_draft k f s) = jobs s"
  "orders (upd_draft k f s) = orders s" "gifts (upd_draft k f s) = gifts s"
  "gift_codes (upd_draft k f s) = gift_codes s" "submissions (upd_draft k f s) = submissions s"
  "order_events (upd_draft k f s) = order_events s" "alerts (upd_draft k f s) = alerts s"
  "history (upd_draft k f s) = history s" "audits (upd_draft k f s) = audits s"
  "limit_overrides (upd_draft k f s) = limit_overrides s"
  by (simp_all add: upd_draft_def)

text \<open>Reads after writes, from the table interface.\<close>

lemma find_user_upd:
  "(\<And>u. u_id (f u) = u_id u) \<Longrightarrow>
   find_user k' (upd_user k f s) = (if k' = k then map_option f (find_user k s) else find_user k' s)"
  unfolding find_user_def upd_user_def by (rule users_tab.lookup_update) simp

lemma find_lot_upd:
  "(\<And>e. le_id (f e) = le_id e) \<Longrightarrow>
   find_lot k' (upd_lot k f s) = (if k' = k then map_option f (find_lot k s) else find_lot k' s)"
  unfolding find_lot_def upd_lot_def by (rule ledger_tab.lookup_update) simp

lemma find_letter_upd:
  "(\<And>l. lt_id (f l) = lt_id l) \<Longrightarrow>
   find_letter k' (upd_letter k f s) =
     (if k' = k then map_option f (find_letter k s) else find_letter k' s)"
  unfolding find_letter_def upd_letter_def by (rule letters_tab.lookup_update) simp

lemma find_job_upd:
  "(\<And>j. j_id (f j) = j_id j) \<Longrightarrow>
   find_job k' (upd_job k f s) = (if k' = k then map_option f (find_job k s) else find_job k' s)"
  unfolding find_job_def upd_job_def by (rule jobs_tab.lookup_update) simp

lemma find_order_upd:
  "(\<And>x. o_id (f x) = o_id x) \<Longrightarrow>
   find_order k' (upd_order k f s) = (if k' = k then map_option f (find_order k s) else find_order k' s)"
  unfolding find_order_def upd_order_def by (rule orders_tab.lookup_update) simp

lemma find_draft_upd:
  "(\<And>x. d_id (f x) = d_id x) \<Longrightarrow>
   find_draft k' (upd_draft k f s) = (if k' = k then map_option f (find_draft k s) else find_draft k' s)"
  unfolding find_draft_def upd_draft_def by (rule drafts_tab.lookup_update) simp

end
