(* ===== verification/Accounts.thy ===== *)
theory Accounts
  imports Store
begin

text \<open>
  Accounts (src/services/userService.ts): finding a user, opening an account, and the
  account row a credit grant or a gift redemption needs. \<open>users.email\<close> is unique up to
  case, and \<open>credits\<close> carries a CHECK that it is not negative.
\<close>

section \<open>Reads\<close>

definition getUser :: "string \<Rightarrow> db \<Rightarrow> error + user" where
  "getUser uid s = (case find_user uid s of None \<Rightarrow> Inl (Error ''User not found'') | Some u \<Rightarrow> Inr u)"

definition getUserByEmail :: "string \<Rightarrow> db \<Rightarrow> user option" where
  "getUserByEmail em s = List.find (\<lambda>u. lower_str (u_email u) = lower_str em) (users s)"

section \<open>Writes\<close>

definition new_user :: "instant \<Rightarrow> string \<Rightarrow> string \<Rightarrow> int \<Rightarrow> int \<Rightarrow> user" where
  "new_user now uid em credits purchased =
     \<lparr> u_id = uid, u_email = em, u_credits = credits, u_credits_purchased = purchased,
       u_credits_used = 0, u_sends_blocked_at = None, u_sends_blocked_reason = None, u_erased_at = None,
       u_tier = Tier_standard, u_tier_calculated_at = Some now, u_updated_at = now \<rparr>"

text \<open>INSERT ... ON CONFLICT DO NOTHING, then what the conflict was is read.\<close>

definition createUser :: "instant \<Rightarrow> string \<Rightarrow> string \<Rightarrow> db \<Rightarrow> error + user \<times> db" where
  "createUser now uid em s =
     (case find_user uid s of
        Some u \<Rightarrow> Inr (u, s)
      | None \<Rightarrow>
          if getUserByEmail em s \<noteq> None then Inl Email_already_linked
          else let u = new_user now uid em 0 0
               in Inr (u, users_update (\<lambda>us. us @ [u]) s))"

text \<open>
  The UPDATE of an address: the unique index on its lower case refuses an address another
  row holds.
\<close>

definition updateUserEmail :: "instant \<Rightarrow> string \<Rightarrow> string \<Rightarrow> db \<Rightarrow> error + user \<times> db" where
  "updateUserEmail now uid em s =
     (case find_user uid s of
        None \<Rightarrow> Inl (Error ''User not found'')
      | Some u \<Rightarrow>
          if list_ex (\<lambda>v. u_id v \<noteq> uid \<and> lower_str (u_email v) = lower_str em) (users s)
          then Inl Email_already_linked
          else let u' = u\<lparr>u_email := em, u_updated_at := now\<rparr>
               in Inr (u', upd_user uid (\<lambda>v. v\<lparr>u_email := em, u_updated_at := now\<rparr>) s))"

text \<open>
  The CHECK (credits >= 0) on an UPDATE of the balance; every write of \<open>users.credits\<close>
  goes through here.
\<close>

definition set_balance :: "string \<Rightarrow> (user \<Rightarrow> user) \<Rightarrow> db \<Rightarrow> error + (user option \<times> db)" where
  "set_balance uid f s =
     (case find_user uid s of
        None \<Rightarrow> Inr (None, s)
      | Some u \<Rightarrow>
          if u_credits (f u) < 0 then Inl (Check_violation ''users_credits_check'')
          else Inr (Some (f u), upd_user uid f s))"

definition ensureAccountRowWithClient ::
  "instant \<Rightarrow> string \<Rightarrow> string option \<Rightarrow> int \<Rightarrow> bool \<Rightarrow> db \<Rightarrow> error + user \<times> db" where
  "ensureAccountRowWithClient now uid em_opt credits countAsPurchased s =
     (let purchased = (if countAsPurchased then credits else 0);
          em = (case em_opt of None \<Rightarrow> [] | Some e \<Rightarrow> js_trim e);
          add = (\<lambda>u. u\<lparr>u_credits := u_credits u + credits,
                       u_credits_purchased := u_credits_purchased u + purchased,
                       u_updated_at := now\<rparr>)
      in if credits = 0 \<and> purchased = 0 then
           (case find_user uid s of
              Some u \<Rightarrow> Inr (u, s)
            | None \<Rightarrow>
                if em = [] then Inl Verified_email_required
                else if getUserByEmail em s \<noteq> None then Inl Email_already_linked
                else let u = new_user now uid em 0 0 in Inr (u, users_update (\<lambda>us. us @ [u]) s))
         else if em \<noteq> [] then
           (if credits < 0 then Inl (Check_violation ''users_credits_check'')
            else case find_user uid s of
              Some u \<Rightarrow> Inr (add u, upd_user uid add s)
            | None \<Rightarrow>
                if getUserByEmail em s \<noteq> None then Inl Email_already_linked
                else let u = new_user now uid em credits purchased
                     in Inr (u, users_update (\<lambda>us. us @ [u]) s))
         else
           bindE (set_balance uid add s) (\<lambda>(r, s').
             case r of None \<Rightarrow> Inl Verified_email_required | Some u \<Rightarrow> Inr (u, s')))"

section \<open>Invariants of the users table\<close>

definition wf_users :: "db \<Rightarrow> bool" where
  "wf_users s \<longleftrightarrow> distinct (map u_id (users s)) \<and>
     distinct (map (\<lambda>u. lower_str (u_email u)) (users s)) \<and>
     list_all (\<lambda>u. 0 \<le> u_credits u) (users s)"

lemma find_userD: "find_user uid s = Some u \<Longrightarrow> u_id u = uid \<and> u \<in> set (users s)"
  unfolding find_user_def by (auto dest: find_by_key find_by_mem)

lemma getUserByEmail_None:
  "getUserByEmail em s = None \<longleftrightarrow> lower_str em \<notin> (\<lambda>u. lower_str (u_email u)) ` set (users s)"
  unfolding getUserByEmail_def by (force simp: find_None_iff)

lemma wf_users_append:
  assumes "wf_users s" and "find_user (u_id u) s = None"
    and "getUserByEmail (u_email u) s = None" and "0 \<le> u_credits u"
  shows "wf_users (users_update (\<lambda>us. us @ [u]) s)"
  using assms by (auto simp: wf_users_def getUserByEmail_None find_user_def find_by_None_iff)

lemma wf_users_upd:
  assumes "wf_users s" and "\<And>u. u_id (f u) = u_id u" and "\<And>u. u_email (f u) = u_email u"
    and "\<And>u. find_user uid s = Some u \<Longrightarrow> 0 \<le> u_credits (f u)"
  shows "wf_users (upd_user uid f s)"
proof -
  have "0 \<le> u_credits (f u)" if "u \<in> set (users s)" "u_id u = uid" for u
  proof -
    have "find_user uid s = Some u"
      using find_by_distinct [of u_id "users s" u] assms(1) that by (simp add: wf_users_def find_user_def)
    then show ?thesis by (rule assms(4))
  qed
  then have "list_all (\<lambda>u. 0 \<le> u_credits u) (upd_where (\<lambda>u. u_id u = uid) f (users s))"
    using assms(1) by (intro list_all_upd_where) (auto simp: wf_users_def)
  with assms(1-3) show ?thesis by (simp add: wf_users_def upd_user_def)
qed

lemma set_balance_Inr:
  assumes "set_balance uid f s = Inr (r, s')"
  shows "(find_user uid s = None \<and> r = None \<and> s' = s) \<or>
    (\<exists>u. find_user uid s = Some u \<and> r = Some (f u) \<and> s' = upd_user uid f s \<and> 0 \<le> u_credits (f u))"
  using assms by (auto simp: set_balance_def split: option.splits if_splits)

lemma set_balance_wf:
  assumes "set_balance uid f s = Inr (r, s')" and "wf_users s"
    and "\<And>u. u_id (f u) = u_id u" and "\<And>u. u_email (f u) = u_email u"
  shows "wf_users s'"
proof (cases "find_user uid s")
  case None
  with assms(1) have "s' = s" by (simp add: set_balance_def)
  with assms(2) show ?thesis by simp
next
  case (Some u)
  with assms(1) have nn: "0 \<le> u_credits (f u)" and s': "s' = upd_user uid f s"
    by (auto simp: set_balance_def split: if_splits)
  show ?thesis unfolding s' by (rule wf_users_upd [OF assms(2-4)]) (use Some nn in simp)
qed

lemma createUser_wf: "createUser now uid em s = Inr (u, s') \<Longrightarrow> wf_users s \<Longrightarrow> wf_users s'"
  by (auto simp: createUser_def Let_def new_user_def split: option.splits if_splits
      intro!: wf_users_append)

text \<open>
  What a successful \<open>ensureAccountRowWithClient\<close> with credits to add does: the row is there
  afterwards with exactly that many credits more, whether it was opened or found.
\<close>

definition balance_of :: "string \<Rightarrow> db \<Rightarrow> int" where
  "balance_of uid s = (case find_user uid s of None \<Rightarrow> 0 | Some u \<Rightarrow> u_credits u)"

lemma find_user_append:
  "find_user k (users_update (\<lambda>us. us @ [u]) s) =
     (case find_user k s of None \<Rightarrow> (if u_id u = k then Some u else None) | Some x \<Rightarrow> Some x)"
  unfolding find_user_def by (rule users_tab.lookup_insert)

definition grant_credits :: "instant \<Rightarrow> int \<Rightarrow> int \<Rightarrow> user \<Rightarrow> user" where
  [row_defs]: "grant_credits now credits purchased u = u\<lparr>u_credits := u_credits u + credits,
     u_credits_purchased := u_credits_purchased u + purchased, u_updated_at := now\<rparr>"

lemma ensureAccountRow_cases:
  assumes "ensureAccountRowWithClient now uid em credits cp s = Inr (u, s')"
  obtains (found) v where "find_user uid s = Some v" "u = v" "s' = s" "credits = 0"
  | (updated) v p where "find_user uid s = Some v" "u = grant_credits now credits p v"
      "s' = upd_user uid (grant_credits now credits p) s" "0 \<le> credits \<or> 0 \<le> u_credits u"
  | (opened) e p where "find_user uid s = None" "getUserByEmail e s = None"
      "u = new_user now uid e credits p" "s' = users_update (\<lambda>us. us @ [u]) s" "0 \<le> credits"
proof -
  define p where "p = (if cp then credits else 0)"
  define e where "e = (case em of None \<Rightarrow> [] | Some t \<Rightarrow> js_trim t)"
  have eq: "ensureAccountRowWithClient now uid em credits cp s =
    (if credits = 0 \<and> p = 0 then
       (case find_user uid s of
          Some u \<Rightarrow> Inr (u, s)
        | None \<Rightarrow>
            if e = [] then Inl Verified_email_required
            else if getUserByEmail e s \<noteq> None then Inl Email_already_linked
            else Inr (new_user now uid e 0 0, users_update (\<lambda>us. us @ [new_user now uid e 0 0]) s))
     else if e \<noteq> [] then
       (if credits < 0 then Inl (Check_violation ''users_credits_check'')
        else case find_user uid s of
          Some u \<Rightarrow> Inr (grant_credits now credits p u, upd_user uid (grant_credits now credits p) s)
        | None \<Rightarrow>
            if getUserByEmail e s \<noteq> None then Inl Email_already_linked
            else Inr (new_user now uid e credits p, users_update (\<lambda>us. us @ [new_user now uid e credits p]) s))
     else
       bindE (set_balance uid (grant_credits now credits p) s) (\<lambda>(r, s').
         case r of None \<Rightarrow> Inl Verified_email_required | Some u \<Rightarrow> Inr (u, s')))"
    unfolding ensureAccountRowWithClient_def p_def e_def grant_credits_def Let_def by (rule refl)
  show ?thesis
  proof (cases "find_user uid s")
    case None
    with assms that(3) [of e 0] that(3) [of e p] show ?thesis
      unfolding eq by (auto simp: set_balance_def split: if_splits)
  next
    case (Some v)
    with assms that(1) [of v] that(2) [of v p] show ?thesis
      unfolding eq by (simp add: set_balance_def split: if_splits)
  qed
qed

lemma ensureAccountRow_ok:
  assumes "ensureAccountRowWithClient now uid em credits cp s = Inr (u, s')"
  shows "find_user uid s' = Some u" and "u_id u = uid" and "u_credits u = balance_of uid s + credits"
    and "k \<noteq> uid \<Longrightarrow> find_user k s' = find_user k s"
proof -
  from assms have "find_user uid s' = Some u \<and> u_id u = uid \<and>
    u_credits u = balance_of uid s + credits \<and> (k \<noteq> uid \<longrightarrow> find_user k s' = find_user k s)"
    by (cases rule: ensureAccountRow_cases)
      (auto simp: balance_of_def grant_credits_def new_user_def find_user_append find_user_upd
        dest: find_userD split: option.splits)
  then show "find_user uid s' = Some u" "u_id u = uid" "u_credits u = balance_of uid s + credits"
    "k \<noteq> uid \<Longrightarrow> find_user k s' = find_user k s"
    by simp_all
qed

lemma ensureAccountRow_frame:
  assumes "ensureAccountRowWithClient now uid em credits cp s = Inr (u, s')"
  shows "s' = s\<lparr>users := users s'\<rparr>"
  using assms by (cases rule: ensureAccountRow_cases) (simp_all add: upd_user_def)

lemma ensureAccountRow_wf:
  assumes "ensureAccountRowWithClient now uid em credits cp s = Inr (u, s')" and "wf_users s"
  shows "wf_users s'"
  using assms(1)
proof (cases rule: ensureAccountRow_cases)
  case found
  with assms(2) show ?thesis by simp
next
  case (updated v p)
  then have "0 \<le> u_credits (grant_credits now credits p v)"
    using assms(2) find_userD [of uid s v]
    by (auto simp: wf_users_def list_all_iff grant_credits_def)
  with updated show ?thesis
    by (auto simp: grant_credits_def intro!: wf_users_upd assms(2))
next
  case (opened e p)
  then show ?thesis
    by (auto simp: new_user_def intro!: wf_users_append assms(2))
qed

end
