(* ===== verification/Ledger.thy ===== *)
theory Ledger
  imports Accounts
begin

text \<open>
  The credit ledger (src/services/creditLedgerService.ts) and the operator's adjustment of a
  balance (src/services/creditService.ts). Credits are held in lots, the rows of
  \<open>credit_ledger\<close>; \<open>users.credits\<close> caches what is spendable. A deduction takes lots in the
  order they expire (oldest first among equals, lots that never expire last), records what
  it took from each, and moves the cache by the same amount.
\<close>

section \<open>Spendable lots and their order\<close>

definition spendable :: "instant \<Rightarrow> string \<Rightarrow> ledger_entry \<Rightarrow> bool" where
  "spendable now uid e \<longleftrightarrow> le_user e = uid \<and> le_status e = Lot_active \<and> 0 < le_remaining e \<and>
     (case le_expires_at e of None \<Rightarrow> True | Some t \<Rightarrow> now < t)"

text \<open>ORDER BY expires_at NULLS LAST, created_at ASC; rows equal in both keep the table's order.\<close>

definition fifo_key :: "ledger_entry \<Rightarrow> nat \<times> instant \<times> instant" where
  "fifo_key e = (case le_expires_at e of
     None \<Rightarrow> (1, 0, le_created_at e) | Some t \<Rightarrow> (0, t, le_created_at e))"

definition consumption_order :: "instant \<Rightarrow> string \<Rightarrow> db \<Rightarrow> ledger_entry list" where
  "consumption_order now uid s = sort_key fifo_key (filter (spendable now uid) (ledger s))"

text \<open>\<open>getAvailableCredits\<close>: SUM(remaining_amount) over the spendable lots.\<close>

definition getAvailableCredits :: "instant \<Rightarrow> string \<Rightarrow> db \<Rightarrow> int" where
  "getAvailableCredits now uid s = sum_list (map le_remaining (filter (spendable now uid) (ledger s)))"

definition hasSufficientCredits :: "instant \<Rightarrow> string \<Rightarrow> int \<Rightarrow> db \<Rightarrow> bool" where
  "hasSufficientCredits now uid required s \<longleftrightarrow> required \<le> getAvailableCredits now uid s"

section \<open>Adding credits\<close>

record add_credits_params =
  ac_user :: string
  ac_email :: "string option"
  ac_credits :: int
  ac_source_type :: credit_source_type
  ac_source_reference_id :: "string option"
  ac_source_order_id :: "string option"
  ac_source_metadata :: "json_object option"
  ac_expiration_policy :: "expiration_policy option"
  ac_expires_at :: "instant option"
  ac_expiration_days :: "int option"
  ac_description :: "string option"

fun default_expiration_days :: "credit_source_type \<Rightarrow> int option" where
  "default_expiration_days Src_purchase = Some 730"
| "default_expiration_days Src_signup_bonus = Some 30"
| "default_expiration_days Src_promo = Some 90"
| "default_expiration_days Src_adjustment = None"
| "default_expiration_days Src_refund = None"
| "default_expiration_days Src_legacy = None"

text \<open>
  The expiration a grant gets: (expires_at, policy, days). \<open>js_now\<close> is the server's clock
  (\<open>new Date()\<close>), not the database's. Two copies of the code compute it: the first is
  \<open>addCreditsToLedger\<close>'s, the second \<open>addCreditsToLedgerWithClient\<close>'s.
\<close>

definition expiration_of :: "instant \<Rightarrow> add_credits_params \<Rightarrow> instant option \<times> expiration_policy \<times> int option" where
  "expiration_of js_now p =
     (let policy = (case ac_expiration_policy p of None \<Rightarrow> Pol_days_from_activation | Some q \<Rightarrow> q);
          days = ac_expiration_days p
      in case ac_expires_at p of
           Some t \<Rightarrow> (Some t, Pol_fixed_date, days)
         | None \<Rightarrow>
             (case ac_expiration_days p of
                Some n \<Rightarrow> (Some (add_days js_now n), Pol_days_from_activation, Some n)
              | None \<Rightarrow>
                  (case default_expiration_days (ac_source_type p) of
                     Some n \<Rightarrow> (Some (add_days js_now n), Pol_days_from_activation, Some n)
                   | None \<Rightarrow> (None, Pol_never, days))))"

definition expiration_of_with_client ::
  "instant \<Rightarrow> add_credits_params \<Rightarrow> instant option \<times> expiration_policy \<times> int option" where
  "expiration_of_with_client js_now p =
     (let policy = (case ac_expiration_policy p of None \<Rightarrow> Pol_days_from_activation | Some q \<Rightarrow> q);
          days = ac_expiration_days p
      in case ac_expires_at p of
           Some t \<Rightarrow> (Some t, Pol_fixed_date, days)
         | None \<Rightarrow>
             (case days of
                Some n \<Rightarrow> (Some (add_days js_now n), Pol_days_from_activation, days)
              | None \<Rightarrow>
                  (case default_expiration_days (ac_source_type p) of
                     None \<Rightarrow> (None, Pol_never, days)
                   | Some n \<Rightarrow> (Some (add_days js_now n), Pol_days_from_activation, Some n))))"

definition fresh_id :: "db \<Rightarrow> string" where
  "fresh_id s = ''uuid-'' @ show_nat (uuid_seq s)"

text \<open>
  INSERT INTO credit_ledger: the primary key, the CHECKs of migration 003, the trigger that
  refuses a purchase grant naming no order (migration 027), and the unique index on the
  funding order of a purchase (migration 023).
\<close>

definition insert_lot :: "ledger_entry \<Rightarrow> db \<Rightarrow> error + db" where
  "insert_lot e s =
     (if le_source_type e = Src_purchase \<and> le_source_order_id e = None
      then Inl (Check_violation ''reject_unattributed_purchase_grant'')
      else if le_initial e \<le> 0 then Inl (Check_violation ''credit_ledger_initial_amount_check'')
      else if le_remaining e < 0 then Inl (Check_violation ''credit_ledger_remaining_amount_check'')
      else if le_initial e < le_remaining e then Inl (Check_violation ''remaining_lte_initial'')
      else if find_lot (le_id e) s \<noteq> None then Inl (Unique_violation ''credit_ledger_pkey'')
      else if le_source_type e = Src_purchase \<and>
              list_ex (\<lambda>x. le_source_type x = Src_purchase \<and> le_source_order_id x = le_source_order_id e) (ledger s)
      then Inl (Unique_violation ''idx_credit_ledger_purchase_order_unique'')
      else Inr (s\<lparr>ledger := ledger s @ [e], uuid_seq := Suc (uuid_seq s)\<rparr>))"

text \<open>INSERT INTO credit_transactions: the serial key.\<close>

definition insert_txn :: "credit_transaction \<Rightarrow> db \<Rightarrow> db" where
  "insert_txn t s = s\<lparr>txns := txns s @ [t], txn_seq := Suc (txn_seq s)\<rparr>"

fun source_name :: "credit_source_type \<Rightarrow> string" where
  "source_name Src_purchase = ''purchase''"
| "source_name Src_signup_bonus = ''signup_bonus''"
| "source_name Src_promo = ''promo''"
| "source_name Src_adjustment = ''adjustment''"
| "source_name Src_refund = ''refund''"
| "source_name Src_legacy = ''legacy''"

definition added_text :: "add_credits_params \<Rightarrow> string" where
  "added_text p = or_str (ac_description p)
     (''Added '' @ show_int (ac_credits p) @ '' credits ('' @ source_name (ac_source_type p) @ '')'')"

definition new_lot :: "instant \<Rightarrow> instant option \<times> expiration_policy \<times> int option \<Rightarrow>
    add_credits_params \<Rightarrow> string \<Rightarrow> ledger_entry" where
  "new_lot now ex p lid =
     \<lparr> le_id = lid, le_user = ac_user p, le_initial = ac_credits p, le_remaining = ac_credits p,
       le_source_type = ac_source_type p,
       le_source_reference_id = or_null_str (ac_source_reference_id p),
       le_source_order_id = or_null_str (ac_source_order_id p),
       le_source_metadata = ac_source_metadata p,
       le_activated_at = now, le_expires_at = fst ex,
       le_expiration_policy = Some (fst (snd ex)), le_expiration_days = or_null_int (snd (snd ex)),
       le_status = Lot_active,
       le_description = Some (added_text p),
       le_related_ledger_id = None, le_created_at = now, le_updated_at = now \<rparr>"

definition grant_txn :: "instant \<Rightarrow> add_credits_params \<Rightarrow> int \<Rightarrow> ledger_entry \<Rightarrow> nat \<Rightarrow> credit_transaction" where
  "grant_txn now p balance lot tid =
     \<lparr> tx_id = tid, tx_user = ac_user p, tx_amount = ac_credits p, tx_balance_after = balance,
       tx_type = (if ac_source_type p = Src_purchase then Tx_purchase else Tx_adjustment),
       tx_reference_type = Some (if ac_source_type p = Src_purchase then Ref_order else Ref_manual),
       tx_reference_id = Some (or_str (ac_source_reference_id p) (le_id lot)),
       tx_description = Some (added_text p), tx_created_at = now \<rparr>"

definition addCreditsToLedger ::
  "instant \<Rightarrow> instant \<Rightarrow> add_credits_params \<Rightarrow> db \<Rightarrow> error + (user \<times> credit_transaction \<times> ledger_entry) \<times> db" where
  "addCreditsToLedger now js_now p s =
     (if ac_credits p \<le> 0 then Inl (Error ''Credits must be positive'')
      else let ex = expiration_of js_now p in
        bindE (ensureAccountRowWithClient now (ac_user p) (ac_email p) (ac_credits p) True s) (\<lambda>(u, s1).
          let lot = new_lot now ex p (fresh_id s1) in
          bindE (insert_lot lot s1) (\<lambda>s2.
            let t = grant_txn now p (u_credits u) lot (txn_seq s2)
            in Inr ((u, t, lot), insert_txn t s2))))"

definition addCreditsToLedgerWithClient ::
  "instant \<Rightarrow> instant \<Rightarrow> add_credits_params \<Rightarrow> db \<Rightarrow> error + (user \<times> credit_transaction \<times> ledger_entry) \<times> db" where
  "addCreditsToLedgerWithClient now js_now p s =
     (if ac_credits p \<le> 0 then Inl (Error ''Credits must be positive'')
      else let ex = expiration_of_with_client js_now p in
        bindE (ensureAccountRowWithClient now (ac_user p) (ac_email p) (ac_credits p) True s) (\<lambda>(u, s1).
          let lot = new_lot now ex p (fresh_id s1) in
          bindE (insert_lot lot s1) (\<lambda>s2.
            let t = grant_txn now p (u_credits u) lot (txn_seq s2)
            in Inr ((u, t, lot), insert_txn t s2))))"

section \<open>Deducting credits\<close>

text \<open>One UPDATE of a lot: the new remainder, and 'depleted' when nothing is left.\<close>

definition set_remaining :: "instant \<Rightarrow> int \<Rightarrow> ledger_entry \<Rightarrow> ledger_entry" where
  "set_remaining now nr e = e\<lparr>le_remaining := nr,
     le_status := (if nr = 0 then Lot_depleted else le_status e), le_updated_at := now\<rparr>"

definition consumption_row :: "nat \<Rightarrow> ledger_entry \<Rightarrow> int \<Rightarrow> credit_consumption" where
  "consumption_row tid e amt = \<lparr> cc_transaction_id = tid, cc_ledger_id = le_id e,
     cc_amount = amt, cc_ledger_remaining_after = le_remaining e - amt \<rparr>"

fun consume_lots :: "instant \<Rightarrow> nat \<Rightarrow> int \<Rightarrow> ledger_entry list \<Rightarrow> db \<Rightarrow> credit_consumption list \<times> db" where
  "consume_lots now tid rem [] s = ([], s)"
| "consume_lots now tid rem (e # es) s =
     (if rem \<le> 0 then ([], s)
      else let amt = min rem (le_remaining e);
               c = consumption_row tid e amt;
               s1 = upd_lot (le_id e) (set_remaining now (le_remaining e - amt)) s;
               s2 = s1\<lparr>consumptions := consumptions s1 @ [c]\<rparr>;
               r = consume_lots now tid (rem - amt) es s2
           in (c # fst r, snd r))"

record deduct_params =
  dp_user :: string
  dp_credits :: int
  dp_letter :: string
  dp_description :: "string option"

definition deduct_balance :: "instant \<Rightarrow> int \<Rightarrow> user \<Rightarrow> user" where
  "deduct_balance now credits u = u\<lparr>u_credits := u_credits u - credits,
     u_credits_used := u_credits_used u + credits, u_updated_at := now\<rparr>"

definition deduct_txn :: "instant \<Rightarrow> deduct_params \<Rightarrow> int \<Rightarrow> nat \<Rightarrow> credit_transaction" where
  "deduct_txn now p balance tid =
     \<lparr> tx_id = tid, tx_user = dp_user p, tx_amount = - dp_credits p, tx_balance_after = balance,
       tx_type = Tx_deduction, tx_reference_type = Some Ref_letter,
       tx_reference_id = Some (dp_letter p),
       tx_description = Some (or_str (dp_description p) ''Sent letter''), tx_created_at = now \<rparr>"

definition deductCreditsFromLedgerWithClient ::
  "instant \<Rightarrow> deduct_params \<Rightarrow> db \<Rightarrow>
   error + (user \<times> credit_transaction \<times> credit_consumption list) \<times> db" where
  "deductCreditsFromLedgerWithClient now p s =
     (if dp_credits p \<le> 0 then Inl (Error ''Credits must be positive'')
      else case find_user (dp_user p) s of
        None \<Rightarrow> Inl (Error ''User not found'')
      | Some _ \<Rightarrow>
          let rows = consumption_order now (dp_user p) s;
              total = sum_list (map le_remaining rows)
          in if total < dp_credits p
             then Inl (Error (''Insufficient credits. Required: '' @ show_int (dp_credits p) @
                              '', Available: '' @ show_int total))
             else bindE (set_balance (dp_user p) (deduct_balance now (dp_credits p)) s) (\<lambda>(r, s1).
               case r of
                 None \<Rightarrow> Inl (Error ''User not found'')
               | Some u \<Rightarrow>
                   let t = deduct_txn now p (u_credits u) (txn_seq s1);
                       s2 = insert_txn t s1;
                       cs = consume_lots now (tx_id t) (dp_credits p) rows s2
                   in Inr ((u, t, fst cs), snd cs)))"

text \<open>
  In the branch \<open>None\<close> after the balance update the source would read a column of an
  undefined row; the user was found under the same lock just before, so it is not reached.
\<close>

section \<open>The operator's adjustment\<close>

definition operator_adjustment_label :: string where
  "operator_adjustment_label = ''Operator adjustment''"

definition adjustment_params :: "string \<Rightarrow> int \<Rightarrow> add_credits_params" where
  "adjustment_params uid amount =
     \<lparr> ac_user = uid, ac_email = None, ac_credits = amount, ac_source_type = Src_adjustment,
       ac_source_reference_id = None, ac_source_order_id = None, ac_source_metadata = None,
       ac_expiration_policy = Some Pol_never, ac_expires_at = None, ac_expiration_days = None,
       ac_description = Some operator_adjustment_label \<rparr>"

text \<open>The loop over the lots of a negative adjustment; it records no consumption. It returns what is left to take.\<close>

fun take_lots :: "instant \<Rightarrow> int \<Rightarrow> ledger_entry list \<Rightarrow> db \<Rightarrow> int \<times> db" where
  "take_lots now rem [] s = (rem, s)"
| "take_lots now rem (e # es) s =
     (if rem \<le> 0 then (rem, s)
      else let amt = min rem (le_remaining e)
           in take_lots now (rem - amt) es
                (upd_lot (le_id e) (set_remaining now (le_remaining e - amt)) s))"

definition adjustCreditsWithClient ::
  "instant \<Rightarrow> instant \<Rightarrow> string \<Rightarrow> int \<Rightarrow> db \<Rightarrow> error + (user \<times> credit_transaction) \<times> db" where
  "adjustCreditsWithClient now js_now uid amount s =
     (if amount = 0 then Inl (Error ''Adjustment amount must be a non-zero integer'')
      else if 0 < amount then
        bindE (addCreditsToLedgerWithClient now js_now (adjustment_params uid amount) s)
          (\<lambda>((u, t, lot), s'). Inr ((u, t), s'))
      else
        bindE (set_balance uid (\<lambda>u. u\<lparr>u_credits := u_credits u + amount, u_updated_at := now\<rparr>) s)
          (\<lambda>(r, s1). case r of
             None \<Rightarrow> Inl (Error ''User not found'')
           | Some u \<Rightarrow>
               if u_credits u < 0
               then Inl (Error ''Cannot adjust credits: would result in negative balance'')
               else let r2 = take_lots now (\<bar>amount\<bar>) (consumption_order now uid s1) s1
                    in if 0 < fst r2
                       then Inl (Error ''Cannot adjust credits: ledger has fewer spendable credits than the balance'')
                       else let t = \<lparr> tx_id = txn_seq (snd r2), tx_user = uid, tx_amount = amount,
                                      tx_balance_after = u_credits u, tx_type = Tx_adjustment,
                                      tx_reference_type = Some Ref_manual, tx_reference_id = None,
                                      tx_description = Some operator_adjustment_label,
                                      tx_created_at = now \<rparr>
                            in Inr ((u, t), insert_txn t (snd r2))))"

end
