(* ===== verification/LedgerLaws.thy ===== *)
theory LedgerLaws
  imports Ledger
begin

text \<open>
  What the ledger's operations promise. Both loops over lots (a deduction's, an operator's
  negative adjustment's) are a plan, \<open>takes\<close>, applied lot by lot, so each fact about the
  plan is proved once: it takes exactly what was asked while the lots cover it, drains every
  lot but the last, and follows the consumption order. \<open>ledger_ok\<close> is the invariant of the
  ledger's tables and \<open>cache_exact\<close> says the cached balances are what the ledger will spend.
\<close>

section \<open>The plan of a consumption\<close>

fun takes :: "int \<Rightarrow> ledger_entry list \<Rightarrow> (ledger_entry \<times> int) list" where
  "takes rem [] = []"
| "takes rem (e # es) = (if rem \<le> 0 then []
     else (e, min rem (le_remaining e)) # takes (rem - min rem (le_remaining e)) es)"

fun apply_takes :: "instant \<Rightarrow> (ledger_entry \<times> int) list \<Rightarrow> db \<Rightarrow> db" where
  "apply_takes now [] s = s"
| "apply_takes now ((e, a) # ts) s =
     apply_takes now ts (upd_lot (le_id e) (set_remaining now (le_remaining e - a)) s)"

lemma upd_lot_consumptions:
  "upd_lot k g (consumptions_update f s) = consumptions_update f (upd_lot k g s)"
  by (cases s) (simp add: upd_lot_def)

lemma apply_takes_consumptions:
  "apply_takes now ts (consumptions_update f s) = consumptions_update f (apply_takes now ts s)"
  by (induction now ts s rule: apply_takes.induct) (simp_all add: upd_lot_consumptions)

lemma apply_takes_frame [simp]:
  "users (apply_takes now ts s) = users s" "txns (apply_takes now ts s) = txns s"
  "consumptions (apply_takes now ts s) = consumptions s" "letters (apply_takes now ts s) = letters s"
  "jobs (apply_takes now ts s) = jobs s" "orders (apply_takes now ts s) = orders s"
  "gifts (apply_takes now ts s) = gifts s" "gift_codes (apply_takes now ts s) = gift_codes s"
  "submissions (apply_takes now ts s) = submissions s" "drafts (apply_takes now ts s) = drafts s"
  "order_events (apply_takes now ts s) = order_events s" "alerts (apply_takes now ts s) = alerts s"
  "history (apply_takes now ts s) = history s" "audits (apply_takes now ts s) = audits s"
  "limit_overrides (apply_takes now ts s) = limit_overrides s"
  by (induction now ts s rule: apply_takes.induct) simp_all

lemma apply_takes_txns_cong:
  "ledger s = ledger s' \<Longrightarrow> ledger (apply_takes now ts s) = ledger (apply_takes now ts s')"
  by (induction ts arbitrary: s s') (auto simp: upd_lot_def)

lemma consume_lots_takes:
  "consume_lots now tid rem es s =
     (map (\<lambda>(e, a). consumption_row tid e a) (takes rem es),
      consumptions_update (\<lambda>cs. cs @ map (\<lambda>(e, a). consumption_row tid e a) (takes rem es))
        (apply_takes now (takes rem es) s))"
proof (induction es arbitrary: rem s)
  case Nil
  then show ?case by simp
next
  case (Cons e es)
  show ?case
    by (simp add: Let_def Cons.IH apply_takes_consumptions comp_def)
qed

lemma take_lots_takes:
  "take_lots now rem es s =
     (rem - sum_list (map snd (takes rem es)), apply_takes now (takes rem es) s)"
  by (induction es arbitrary: rem s) (simp_all add: Let_def)

lemma sum_takes:
  assumes "0 \<le> rem" and "\<forall>e\<in>set es. 0 \<le> le_remaining e"
  shows "sum_list (map snd (takes rem es)) = min rem (sum_list (map le_remaining es))"
  using assms
proof (induction es arbitrary: rem)
  case Nil
  then show ?case by simp
next
  case (Cons e es)
  then have "0 \<le> sum_list (map le_remaining es)"
    by (intro sum_list_nonneg_int) simp
  with Cons show ?case by (auto simp: min_def)
qed

lemma takes_mem: "(e, a) \<in> set (takes rem es) \<Longrightarrow> e \<in> set es \<and> a \<le> le_remaining e"
  by (induction es arbitrary: rem) (auto split: if_splits)

lemma takes_pos: "(e, a) \<in> set (takes rem es) \<Longrightarrow> \<forall>x\<in>set es. 0 < le_remaining x \<Longrightarrow> 0 < a"
  by (induction es arbitrary: rem) (auto split: if_splits)

lemma takes_prefix: "map fst (takes rem es) = take (length (takes rem es)) es"
  by (induction es arbitrary: rem) auto

text \<open>Every lot of the plan but the last is drained.\<close>

lemma takes_drain:
  "0 < le_remaining x \<Longrightarrow> takes rem es = ts @ [(x, a)] \<Longrightarrow> (e, b) \<in> set ts \<Longrightarrow> b = le_remaining e"
proof (induction es arbitrary: rem ts)
  case Nil
  then show ?case by simp
next
  case (Cons y ys)
  from Cons.prems(2) have rem: "0 < rem" by (auto split: if_splits)
  show ?case
  proof (cases ts)
    case Nil
    with Cons.prems(3) show ?thesis by simp
  next
    case (Cons t ts')
    with Cons.prems rem have t: "t = (y, min rem (le_remaining y))"
      and r: "takes (rem - min rem (le_remaining y)) ys = ts' @ [(x, a)]" by auto
    from r have "0 < rem - min rem (le_remaining y)"
      by (cases ys) (auto split: if_splits)
    then have "min rem (le_remaining y) = le_remaining y" by auto
    with t r Cons.prems Cons Cons.IH [OF Cons.prems(1) r] show ?thesis by auto
  qed
qed

section \<open>The invariant of the ledger\<close>

definition lot_ok :: "ledger_entry \<Rightarrow> bool" where
  "lot_ok e \<longleftrightarrow> 0 < le_initial e \<and> 0 \<le> le_remaining e \<and> le_remaining e \<le> le_initial e"

definition consumed_of :: "string \<Rightarrow> credit_consumption list \<Rightarrow> int" where
  "consumed_of lid cs = sum_list (map cc_amount (filter (\<lambda>c. cc_ledger_id c = lid) cs))"

text \<open>
  Keys are distinct, every lot is within its bounds and belongs to an account, every
  consumption names a lot, and no lot is consumed beyond what it held: what the consumptions
  took and what remains together stay within the lot's initial amount.
\<close>

definition ledger_ok :: "db \<Rightarrow> bool" where
  "ledger_ok s \<longleftrightarrow> distinct (map le_id (ledger s)) \<and> list_all lot_ok (ledger s) \<and>
     list_all (\<lambda>e. find_user (le_user e) s \<noteq> None) (ledger s) \<and>
     list_all (\<lambda>c. find_lot (cc_ledger_id c) s \<noteq> None) (consumptions s) \<and>
     list_all (\<lambda>c. 0 < cc_amount c) (consumptions s) \<and>
     list_all (\<lambda>e. consumed_of (le_id e) (consumptions s) + le_remaining e \<le> le_initial e) (ledger s)"

definition cache_exact :: "instant \<Rightarrow> db \<Rightarrow> bool" where
  "cache_exact now s \<longleftrightarrow> list_all (\<lambda>u. u_credits u = getAvailableCredits now (u_id u) s) (users s)"

lemma consumed_of_append: "consumed_of lid (cs @ ds) = consumed_of lid cs + consumed_of lid ds"
  by (simp add: consumed_of_def)

lemma consumed_of_Nil [simp]: "consumed_of lid [] = 0"
  by (simp add: consumed_of_def)

lemma spendable_user: "spendable now uid e \<Longrightarrow> le_user e = uid"
  by (simp add: spendable_def)

lemma consumption_order_set: "set (consumption_order now uid s) = {e \<in> set (ledger s). spendable now uid e}"
  by (auto simp: consumption_order_def)

lemma consumption_order_total:
  "sum_list (map le_remaining (consumption_order now uid s)) = getAvailableCredits now uid s"
  by (simp add: consumption_order_def getAvailableCredits_def sum_list_sort_key)

lemma consumption_order_sorted: "sorted (map fifo_key (consumption_order now uid s))"
  by (simp add: consumption_order_def)

lemma consumption_order_ids:
  "distinct (map le_id (ledger s)) \<Longrightarrow> distinct (map le_id (consumption_order now uid s))"
proof -
  assume "distinct (map le_id (ledger s))"
  then have "distinct (map le_id (filter (spendable now uid) (ledger s)))"
    by (rule distinct_map_filter)
  then show ?thesis
    by (simp add: consumption_order_def distinct_map)
qed

lemma available_cong: "ledger s = ledger s' \<Longrightarrow> getAvailableCredits now uid s = getAvailableCredits now uid s'"
  by (simp add: getAvailableCredits_def)

lemma available_nonneg: "0 \<le> getAvailableCredits now uid s"
  unfolding getAvailableCredits_def by (rule sum_list_nonneg_int) (simp add: spendable_def)

lemma set_remaining_fields [simp]:
  "le_id (set_remaining now n e) = le_id e" "le_user (set_remaining now n e) = le_user e"
  "le_initial (set_remaining now n e) = le_initial e" "le_remaining (set_remaining now n e) = n"
  "le_expires_at (set_remaining now n e) = le_expires_at e"
  "le_source_type (set_remaining now n e) = le_source_type e"
  "le_source_metadata (set_remaining now n e) = le_source_metadata e"
  by (simp_all add: set_remaining_def)

lemma spendable_set_remaining:
  "0 \<le> n \<Longrightarrow> spendable now uid e \<Longrightarrow> spendable now uid (set_remaining now n e) \<longleftrightarrow> 0 < n"
  by (auto simp: spendable_def set_remaining_def)

text \<open>A plan over spendable lots: distinct, present in the ledger, none overdrawn.\<close>

definition plan_ok :: "instant \<Rightarrow> string \<Rightarrow> (ledger_entry \<times> int) list \<Rightarrow> db \<Rightarrow> bool" where
  "plan_ok now uid ts s \<longleftrightarrow> distinct (map (le_id \<circ> fst) ts) \<and>
     (\<forall>(e, a)\<in>set ts. find_lot (le_id e) s = Some e \<and> spendable now uid e \<and> 0 < a \<and> a \<le> le_remaining e)"

lemma plan_ok_takes:
  assumes "distinct (map le_id (ledger s))"
  shows "plan_ok now uid (takes rem (consumption_order now uid s)) s"
proof -
  let ?es = "consumption_order now uid s" and ?ts = "takes rem (consumption_order now uid s)"
  have "map (le_id \<circ> fst) ?ts = take (length ?ts) (map le_id ?es)"
    using takes_prefix [of rem ?es] by (metis map_map take_map)
  then have d: "distinct (map (le_id \<circ> fst) ?ts)"
    using consumption_order_ids [OF assms] by simp
  have "find_lot (le_id e) s = Some e \<and> spendable now uid e \<and> 0 < a \<and> a \<le> le_remaining e"
    if "(e, a) \<in> set ?ts" for e a
  proof -
    from takes_mem [OF that] have e: "e \<in> set ?es" and "a \<le> le_remaining e" by simp_all
    moreover have "\<forall>x\<in>set ?es. 0 < le_remaining x"
      by (simp add: consumption_order_set spendable_def)
    ultimately show ?thesis
      using takes_pos [OF that] assms
      by (auto simp: consumption_order_set find_lot_def intro: find_by_distinct)
  qed
  with d show ?thesis by (auto simp: plan_ok_def)
qed

lemma plan_ok_Cons:
  "plan_ok now uid ((e, a) # ts) s \<longleftrightarrow> find_lot (le_id e) s = Some e \<and> spendable now uid e \<and> 0 < a \<and>
     a \<le> le_remaining e \<and> le_id e \<notin> (le_id \<circ> fst) ` set ts \<and> plan_ok now uid ts s"
  by (auto simp: plan_ok_def)

lemma plan_ok_step:
  assumes "plan_ok now uid ((e, a) # ts) s"
  shows "plan_ok now uid ts (upd_lot (le_id e) (set_remaining now n) s)"
proof -
  have "find_lot (le_id x) (upd_lot (le_id e) (set_remaining now n) s) = find_lot (le_id x) s"
    if "(x, b) \<in> set ts" for x b
  proof -
    have "le_id x \<noteq> le_id e" using assms that by (force simp: plan_ok_Cons)
    then show ?thesis by (simp add: find_lot_upd)
  qed
  with assms show ?thesis by (auto simp: plan_ok_def)
qed

lemma available_take:
  assumes "distinct (map le_id (ledger s))" and "find_lot (le_id e) s = Some e"
    and "spendable now uid e" and "0 < a" and "a \<le> le_remaining e"
  shows "getAvailableCredits now k (upd_lot (le_id e) (set_remaining now (le_remaining e - a)) s) =
    getAvailableCredits now k s - (if k = uid then a else 0)"
proof -
  have "getAvailableCredits now k (upd_lot (le_id e) (set_remaining now (le_remaining e - a)) s) =
    getAvailableCredits now k s - (if spendable now k e then le_remaining e else 0) +
    (if spendable now k (set_remaining now (le_remaining e - a) e) then le_remaining e - a else 0)"
    using ledger_tab.sum_update [OF assms(1), of "le_id e" e le_remaining "spendable now k"
        "set_remaining now (le_remaining e - a)"] assms(2)
    by (simp add: getAvailableCredits_def upd_lot_def find_lot_def)
  moreover have "spendable now k (set_remaining now (le_remaining e - a) e) \<longleftrightarrow> k = uid \<and> a < le_remaining e"
    using assms(3-5) spendable_set_remaining [of "le_remaining e - a" now uid e]
    by (auto simp: spendable_def set_remaining_def)
  moreover have "spendable now k e \<longleftrightarrow> k = uid"
    using assms(3) by (auto simp: spendable_def)
  ultimately show ?thesis using assms(4,5) by auto
qed

lemma ids_upd_lot [simp]:
  "map le_id (ledger (upd_lot k (set_remaining now n) s)) = map le_id (ledger s)"
  unfolding upd_lot_def by (rule ledger_tab.keys_update) simp

lemma apply_takes_ids [simp]: "map le_id (ledger (apply_takes now ts s)) = map le_id (ledger s)"
  by (induction ts arbitrary: s) auto

lemma available_apply:
  assumes "distinct (map le_id (ledger s))" and "plan_ok now uid ts s"
  shows "getAvailableCredits now k (apply_takes now ts s) =
    getAvailableCredits now k s - (if k = uid then sum_list (map snd ts) else 0)"
  using assms
proof (induction ts arbitrary: s)
  case Nil
  then show ?case by simp
next
  case (Cons t ts)
  obtain e a where t: "t = (e, a)" by (cases t)
  let ?s = "upd_lot (le_id e) (set_remaining now (le_remaining e - a)) s"
  have "getAvailableCredits now k (apply_takes now ts ?s) =
    getAvailableCredits now k ?s - (if k = uid then sum_list (map snd ts) else 0)"
    using Cons.prems by (intro Cons.IH) (auto simp: t plan_ok_step)
  moreover have "getAvailableCredits now k ?s = getAvailableCredits now k s - (if k = uid then a else 0)"
    using Cons.prems by (intro available_take) (simp_all add: t plan_ok_Cons)
  ultimately show ?case by (simp add: t)
qed

text \<open>What the plan leaves of each lot.\<close>

definition taken_from :: "string \<Rightarrow> (ledger_entry \<times> int) list \<Rightarrow> int" where
  "taken_from lid ts = sum_list (map snd (filter (\<lambda>t. le_id (fst t) = lid) ts))"

lemma taken_from_absent: "lid \<notin> (le_id \<circ> fst) ` set ts \<Longrightarrow> taken_from lid ts = 0"
  by (induction ts) (auto simp: taken_from_def)

lemma find_lot_apply:
  assumes "plan_ok now uid ts s"
  shows "\<exists>f. find_lot lid (apply_takes now ts s) = map_option f (find_lot lid s) \<and>
    (\<forall>e. find_lot lid s = Some e \<longrightarrow> le_user (f e) = le_user e \<and> le_initial (f e) = le_initial e \<and>
      le_id (f e) = le_id e \<and> le_expires_at (f e) = le_expires_at e \<and>
      le_remaining (f e) = le_remaining e - taken_from lid ts)"
  using assms
proof (induction ts arbitrary: s)
  case Nil
  show ?case by (rule exI [of _ "\<lambda>e. e"]) (simp add: taken_from_def option.map_ident)
next
  case (Cons t ts)
  obtain e a where t: "t = (e, a)" by (cases t)
  let ?s = "upd_lot (le_id e) (set_remaining now (le_remaining e - a)) s"
  from Cons.prems have "plan_ok now uid ts ?s" by (simp add: t plan_ok_step)
  from Cons.IH [OF this] obtain f where
    f: "find_lot lid (apply_takes now ts ?s) = map_option f (find_lot lid ?s)"
       "\<forall>x. find_lot lid ?s = Some x \<longrightarrow> le_user (f x) = le_user x \<and> le_initial (f x) = le_initial x \<and>
         le_id (f x) = le_id x \<and> le_expires_at (f x) = le_expires_at x \<and>
         le_remaining (f x) = le_remaining x - taken_from lid ts" by blast
  show ?case
  proof (cases "lid = le_id e")
    case True
    with Cons.prems have "find_lot lid s = Some e" and "taken_from lid ts = 0"
      by (auto simp: t plan_ok_Cons taken_from_absent)
    with f True show ?thesis
      by (intro exI [of _ "f \<circ> set_remaining now (le_remaining e - a)"])
        (simp add: t find_lot_upd taken_from_def)
  next
    case False
    with f show ?thesis
      by (intro exI [of _ f]) (auto simp: t find_lot_upd taken_from_def)
  qed
qed

lemma consumed_of_rows:
  "consumed_of lid (map (\<lambda>(e, a). consumption_row tid e a) ts) = taken_from lid ts"
  by (induction ts) (auto simp: consumed_of_def taken_from_def consumption_row_def)


lemma taken_from_bounds:
  assumes "plan_ok now uid ts s" and "find_lot lid s = Some e" and "0 \<le> le_remaining e"
  shows "0 \<le> taken_from lid ts" and "taken_from lid ts \<le> le_remaining e"
proof -
  have "0 \<le> taken_from lid ts \<and> taken_from lid ts \<le> le_remaining e"
    using assms
  proof (induction ts)
    case Nil
    then show ?case by (simp add: taken_from_def)
  next
    case (Cons t ts)
    obtain x a where t: "t = (x, a)" by (cases t)
    show ?case
    proof (cases "le_id x = lid")
      case True
      with Cons.prems have "x = e" and "lid \<notin> (le_id \<circ> fst) ` set ts"
        by (auto simp: t plan_ok_Cons simp del: image_comp)
      then have "taken_from lid ts = 0" by (intro taken_from_absent)
      with True \<open>x = e\<close> Cons.prems show ?thesis by (simp add: t plan_ok_Cons taken_from_def)
    next
      case False
      then have "taken_from lid (t # ts) = taken_from lid ts" by (simp add: t taken_from_def)
      with Cons show ?thesis by (simp add: t plan_ok_Cons)
    qed
  qed
  then show "0 \<le> taken_from lid ts" "taken_from lid ts \<le> le_remaining e" by simp_all
qed

lemma find_lot_id: "find_lot lid s = Some e \<Longrightarrow> le_id e = lid"
  unfolding find_lot_def by (rule find_by_key)

lemma find_lot_mem:
  "distinct (map le_id (ledger s)) \<Longrightarrow> find_lot lid s = Some e \<longleftrightarrow> e \<in> set (ledger s) \<and> le_id e = lid"
  using find_by_distinct [of le_id "ledger s" e] find_by_mem [of le_id lid "ledger s" e]
    find_by_key [of le_id lid "ledger s" e]
  unfolding find_lot_def by blast

lemma list_all_lots:
  "distinct (map le_id (ledger s)) \<Longrightarrow>
   list_all P (ledger s) \<longleftrightarrow> (\<forall>lid e. find_lot lid s = Some e \<longrightarrow> P e)"
  by (auto simp: list_all_iff find_lot_mem)

lemma ledger_ok_iff:
  "ledger_ok s \<longleftrightarrow> distinct (map le_id (ledger s)) \<and>
     (\<forall>lid e. find_lot lid s = Some e \<longrightarrow> lot_ok e \<and> find_user (le_user e) s \<noteq> None \<and>
        consumed_of lid (consumptions s) + le_remaining e \<le> le_initial e) \<and>
     list_all (\<lambda>c. find_lot (cc_ledger_id c) s \<noteq> None) (consumptions s) \<and>
     list_all (\<lambda>c. 0 < cc_amount c) (consumptions s)"
proof (cases "distinct (map le_id (ledger s))")
  case True
  have "list_all (\<lambda>e. consumed_of (le_id e) (consumptions s) + le_remaining e \<le> le_initial e) (ledger s) \<longleftrightarrow>
    (\<forall>lid e. find_lot lid s = Some e \<longrightarrow> consumed_of lid (consumptions s) + le_remaining e \<le> le_initial e)"
    unfolding list_all_lots [OF True] by (auto simp: find_lot_id)
  then show ?thesis
    unfolding ledger_ok_def list_all_lots [OF True, of lot_ok]
      list_all_lots [OF True, of "\<lambda>e. find_user (le_user e) s \<noteq> None"] by blast
qed (simp add: ledger_ok_def)

text \<open>Applying a plan keeps the invariant, whether its consumptions are recorded or not.\<close>

lemma ledger_ok_apply:
  assumes ok: "ledger_ok s" and p: "plan_ok now uid ts s"
    and rows: "ds = map (\<lambda>(e, a). consumption_row tid e a) ts \<or> ds = []"
  shows "ledger_ok (consumptions_update (\<lambda>cs. cs @ ds) (apply_takes now ts s))"
proof -
  let ?s = "consumptions_update (\<lambda>cs. cs @ ds) (apply_takes now ts s)"
  have look: "find_lot lid ?s = find_lot lid (apply_takes now ts s)" for lid
    by (simp add: find_lot_def)
  have none: "find_lot lid ?s = None \<longleftrightarrow> find_lot lid s = None" for lid
    using find_lot_apply [OF p, of lid] by (auto simp: look)
  have lots: "lot_ok e' \<and> find_user (le_user e') ?s \<noteq> None \<and>
      consumed_of lid (consumptions ?s) + le_remaining e' \<le> le_initial e'"
    if f: "find_lot lid ?s = Some e'" for lid e'
  proof -
    from find_lot_apply [OF p, of lid] f obtain e where e: "find_lot lid s = Some e"
      and eq: "le_user e' = le_user e" "le_initial e' = le_initial e"
        "le_remaining e' = le_remaining e - taken_from lid ts"
      by (cases "find_lot lid s") (auto simp: look)
    from ok e have h: "lot_ok e" "find_user (le_user e) s \<noteq> None"
        "consumed_of lid (consumptions s) + le_remaining e \<le> le_initial e"
      by (auto simp: ledger_ok_iff)
    then have b: "0 \<le> taken_from lid ts" "taken_from lid ts \<le> le_remaining e"
      using taken_from_bounds [OF p e] by (simp_all add: lot_ok_def)
    have "consumed_of lid ds \<le> taken_from lid ts"
      using rows b(1) consumed_of_rows by auto
    with h b eq show ?thesis
      by (auto simp: lot_ok_def consumed_of_append find_user_def)
  qed
  have "list_all (\<lambda>c. find_lot (cc_ledger_id c) ?s \<noteq> None) ds" "list_all (\<lambda>c. 0 < cc_amount c) ds"
    using rows p by (force simp: none list_all_iff plan_ok_def consumption_row_def)+
  then show ?thesis
    using ok lots none unfolding ledger_ok_iff by (auto simp: list_all_iff)
qed

section \<open>Granting credits\<close>

lemma expiration_copies_agree: "expiration_of_with_client js_now p = expiration_of js_now p"
  by (simp add: expiration_of_def expiration_of_with_client_def Let_def split: option.split)

lemma insert_lot_Inr:
  assumes "insert_lot e s = Inr s'"
  shows "s' = s\<lparr>ledger := ledger s @ [e], uuid_seq := Suc (uuid_seq s)\<rparr>"
    and "0 < le_initial e" and "0 \<le> le_remaining e" and "le_remaining e \<le> le_initial e"
    and "find_lot (le_id e) s = None"
    and "le_source_type e = Src_purchase \<Longrightarrow> le_source_order_id e \<noteq> None"
    and "\<And>x. le_source_type e = Src_purchase \<Longrightarrow> x \<in> set (ledger s) \<Longrightarrow> le_source_type x = Src_purchase \<Longrightarrow>
      le_source_order_id x \<noteq> le_source_order_id e"
  using assms by (auto simp: insert_lot_def list_ex_iff split: if_splits)

lemma find_lot_insert:
  "find_lot k (s\<lparr>ledger := ledger s @ [e], uuid_seq := n\<rparr>) =
     (case find_lot k s of None \<Rightarrow> (if le_id e = k then Some e else None) | Some x \<Rightarrow> Some x)"
  by (simp add: find_lot_def find_by_append split: option.split)

lemma insert_txn_frame [simp]:
  "users (insert_txn t s) = users s" "ledger (insert_txn t s) = ledger s"
  "consumptions (insert_txn t s) = consumptions s" "letters (insert_txn t s) = letters s"
  "jobs (insert_txn t s) = jobs s" "orders (insert_txn t s) = orders s"
  "gifts (insert_txn t s) = gifts s" "gift_codes (insert_txn t s) = gift_codes s"
  "submissions (insert_txn t s) = submissions s" "txns (insert_txn t s) = txns s @ [t]"
  by (simp_all add: insert_txn_def)

lemma ledger_ok_insert:
  assumes ok: "ledger_ok s" and ins: "insert_lot e s = Inr s'" and fk: "find_user (le_user e) s \<noteq> None"
  shows "ledger_ok s'"
proof -
  note i = insert_lot_Inr [OF ins]
  have d: "distinct (map le_id (ledger s'))"
    using ok i(5) by (auto simp: i(1) ledger_ok_def find_lot_def find_by_None_iff)
  have none: "find_lot k s \<noteq> None \<Longrightarrow> find_lot k s' \<noteq> None" for k
    by (auto simp: i(1) find_lot_insert)
  have "consumed_of (le_id e) (consumptions s) = 0"
    using ok i(5) unfolding ledger_ok_def list_all_iff consumed_of_def
    by (metis (mono_tags, lifting) filter_False list.simps(8) sum_list.Nil)
  then have "lot_ok x \<and> find_user (le_user x) s' \<noteq> None \<and>
      consumed_of k (consumptions s') + le_remaining x \<le> le_initial x" if "find_lot k s' = Some x" for k x
    using that ok i(2-5) fk
    by (auto simp: i(1) find_lot_insert ledger_ok_iff lot_ok_def find_user_def split: option.splits if_splits)
  with d none ok show ?thesis
    unfolding ledger_ok_iff by (auto simp: list_all_iff i(1))
qed

lemma ledger_ok_cong:
  assumes "ledger s' = ledger s" and "consumptions s' = consumptions s"
    and "\<And>k. find_user k s \<noteq> None \<Longrightarrow> find_user k s' \<noteq> None"
  shows "ledger_ok s \<Longrightarrow> ledger_ok s'"
  using assms unfolding ledger_ok_def by (auto simp: list_all_iff find_lot_def)

lemma available_insert:
  assumes "insert_lot e s = Inr s'"
  shows "getAvailableCredits now k s' =
    getAvailableCredits now k s + (if spendable now k e then le_remaining e else 0)"
  by (simp add: insert_lot_Inr(1) [OF assms] getAvailableCredits_def)

text \<open>What a successful grant did, for both copies of the code.\<close>

lemma add_Inr:
  assumes "addCreditsToLedgerWithClient now js_now p s = Inr ((u, t, lot), s')"
  obtains s1 s2 where "0 < ac_credits p"
    and "ensureAccountRowWithClient now (ac_user p) (ac_email p) (ac_credits p) True s = Inr (u, s1)"
    and "lot = new_lot now (expiration_of js_now p) p (fresh_id s1)" and "insert_lot lot s1 = Inr s2"
    and "t = grant_txn now p (u_credits u) lot (txn_seq s2)" and "s' = insert_txn t s2"
  using assms
  by (auto simp: addCreditsToLedgerWithClient_def expiration_copies_agree Let_def bindE_Inr_iff split: if_splits)

lemma new_lot_fields [simp]:
  "le_user (new_lot now ex p k) = ac_user p" "le_initial (new_lot now ex p k) = ac_credits p"
  "le_remaining (new_lot now ex p k) = ac_credits p" "le_status (new_lot now ex p k) = Lot_active"
  "le_expires_at (new_lot now ex p k) = fst ex" "le_source_type (new_lot now ex p k) = ac_source_type p"
  "le_source_order_id (new_lot now ex p k) = or_null_str (ac_source_order_id p)"
  by (simp_all add: new_lot_def)

definition lasting :: "instant \<Rightarrow> instant option \<Rightarrow> bool" where
  "lasting now x \<longleftrightarrow> (case x of None \<Rightarrow> True | Some t \<Rightarrow> now < t)"

lemma spendable_iff:
  "spendable now uid e \<longleftrightarrow> le_user e = uid \<and> le_status e = Lot_active \<and> 0 < le_remaining e \<and>
     lasting now (le_expires_at e)"
  by (simp add: spendable_def lasting_def)

lemma add_frame:
  assumes "addCreditsToLedgerWithClient now js_now p s = Inr ((u, t, lot), s')"
  shows "find_user (ac_user p) s' = Some u" and "u_credits u = balance_of (ac_user p) s + ac_credits p"
    and "k \<noteq> ac_user p \<Longrightarrow> find_user k s' = find_user k s"
    and "ledger s' = ledger s @ [lot]" and "txns s' = txns s @ [t]" and "consumptions s' = consumptions s"
proof -
  from assms obtain s1 s2 where a:
    "ensureAccountRowWithClient now (ac_user p) (ac_email p) (ac_credits p) True s = Inr (u, s1)"
    "insert_lot lot s1 = Inr s2" "s' = insert_txn t s2" by (rule add_Inr)
  note f = ensureAccountRow_frame [OF a(1)] and i = insert_lot_Inr(1) [OF a(2)]
  have same: "find_user x s' = find_user x s1" for x by (simp add: a(3) i find_user_def)
  show "find_user (ac_user p) s' = Some u" "u_credits u = balance_of (ac_user p) s + ac_credits p"
    "k \<noteq> ac_user p \<Longrightarrow> find_user k s' = find_user k s"
    using ensureAccountRow_ok [OF a(1)] by (simp_all add: same)
  show "ledger s' = ledger s @ [lot]" "txns s' = txns s @ [t]" "consumptions s' = consumptions s"
    using f by (simp_all add: a(3) i, (metis db.select_convs db.surjective db.update_convs)+)
qed

lemma add_available:
  assumes "addCreditsToLedgerWithClient now js_now p s = Inr ((u, t, lot), s')"
  shows "getAvailableCredits now k s' = getAvailableCredits now k s +
    (if k = ac_user p \<and> lasting now (fst (expiration_of js_now p)) then ac_credits p else 0)"
proof -
  from assms obtain s1 s2 where a: "0 < ac_credits p"
    "lot = new_lot now (expiration_of js_now p) p (fresh_id s1)" by (rule add_Inr)
  have "getAvailableCredits now k s' = getAvailableCredits now k s + (if spendable now k lot then le_remaining lot else 0)"
    by (simp add: getAvailableCredits_def add_frame(4) [OF assms])
  with a show ?thesis by (auto simp: spendable_iff)
qed

lemma add_ledger_ok:
  assumes "addCreditsToLedgerWithClient now js_now p s = Inr ((u, t, lot), s')" and "ledger_ok s"
  shows "ledger_ok s'"
proof -
  from assms(1) obtain s1 s2 where a:
    "ensureAccountRowWithClient now (ac_user p) (ac_email p) (ac_credits p) True s = Inr (u, s1)"
    "lot = new_lot now (expiration_of js_now p) p (fresh_id s1)"
    "insert_lot lot s1 = Inr s2" "s' = insert_txn t s2" by (rule add_Inr)
  have fs: "ledger s1 = ledger s" "consumptions s1 = consumptions s"
    by (subst ensureAccountRow_frame [OF a(1)], simp)+
  have "find_user k s1 \<noteq> None" if "find_user k s \<noteq> None" for k
    using that ensureAccountRow_ok(1,4) [OF a(1)] by (cases "k = ac_user p") auto
  with fs assms(2) have "ledger_ok s1" by (intro ledger_ok_cong [of s1 s]) auto
  then have "ledger_ok s2"
    by (rule ledger_ok_insert [OF _ a(3)]) (simp add: a(2) ensureAccountRow_ok(1) [OF a(1)])
  then show ?thesis by (rule ledger_ok_cong [rotated 3]) (simp_all add: a(4) find_user_def)
qed

lemma add_wf_users:
  assumes "addCreditsToLedgerWithClient now js_now p s = Inr ((u, t, lot), s')" and "wf_users s"
  shows "wf_users s'"
proof -
  from assms(1) obtain s1 s2 where a:
    "ensureAccountRowWithClient now (ac_user p) (ac_email p) (ac_credits p) True s = Inr (u, s1)"
    "insert_lot lot s1 = Inr s2" "s' = insert_txn t s2" by (rule add_Inr)
  from ensureAccountRow_wf [OF a(1) assms(2)] show ?thesis
    by (simp add: wf_users_def a(3) insert_lot_Inr(1) [OF a(2)])
qed

lemma cache_exactD: "cache_exact now s \<Longrightarrow> find_user k s = Some u \<Longrightarrow> u_credits u = getAvailableCredits now k s"
  using find_userD [of k s u] by (auto simp: cache_exact_def list_all_iff)

text \<open>The cache by account; an account that is not there holds nothing.\<close>

lemma cache_exact_iff:
  assumes "wf_users s" and "ledger_ok s"
  shows "cache_exact now s \<longleftrightarrow> (\<forall>k. balance_of k s = getAvailableCredits now k s)"
proof
  have none: "getAvailableCredits now k s = 0" if "find_user k s = None" for k
  proof -
    have "filter (spendable now k) (ledger s) = []"
      using assms(2) that by (auto simp: filter_empty_conv ledger_ok_def list_all_iff spendable_def)
    then show ?thesis by (simp add: getAvailableCredits_def)
  qed
  assume "cache_exact now s"
  with none show "\<forall>k. balance_of k s = getAvailableCredits now k s"
    by (auto simp: balance_of_def dest: cache_exactD split: option.split)
next
  assume *: "\<forall>k. balance_of k s = getAvailableCredits now k s"
  have "u_credits u = getAvailableCredits now (u_id u) s" if "u \<in> set (users s)" for u
  proof -
    have "find_user (u_id u) s = Some u"
      using assms(1) that by (simp add: find_user_def wf_users_def find_by_distinct)
    with * [rule_format, of "u_id u"] show ?thesis by (simp add: balance_of_def)
  qed
  then show "cache_exact now s" by (simp add: cache_exact_def list_all_iff)
qed

lemma add_balance:
  assumes "addCreditsToLedgerWithClient now js_now p s = Inr ((u, t, lot), s')"
  shows "balance_of k s' = balance_of k s + (if k = ac_user p then ac_credits p else 0)"
  using add_frame(1-3) [OF assms] by (simp add: balance_of_def)

section \<open>Deducting\<close>

lemma deduct_Inr:
  assumes "deductCreditsFromLedgerWithClient now p s = Inr ((u, t, cs), s')"
  obtains v where "find_user (dp_user p) s = Some v" and "0 < dp_credits p"
    and "dp_credits p \<le> getAvailableCredits now (dp_user p) s" and "dp_credits p \<le> u_credits v"
    and "u = deduct_balance now (dp_credits p) v"
    and "t = deduct_txn now p (u_credits u) (txn_seq s)"
    and "cs = map (\<lambda>(e, a). consumption_row (tx_id t) e a)
      (takes (dp_credits p) (consumption_order now (dp_user p) s))"
    and "s' = consumptions_update (\<lambda>xs. xs @ cs)
      (apply_takes now (takes (dp_credits p) (consumption_order now (dp_user p) s))
        (insert_txn t (upd_user (dp_user p) (deduct_balance now (dp_credits p)) s)))"
proof -
  from assms obtain v where v: "find_user (dp_user p) s = Some v"
    by (auto simp: deductCreditsFromLedgerWithClient_def split: if_splits option.splits)
  with assms that [OF v] show ?thesis
    by (auto simp: deductCreditsFromLedgerWithClient_def Let_def consumption_order_total set_balance_def
        consume_lots_takes deduct_balance_def upd_user_def split: if_splits)
qed

lemma deduct_ok:
  "is_ok (deductCreditsFromLedgerWithClient now p s) \<longleftrightarrow> 0 < dp_credits p \<and>
     (\<exists>v. find_user (dp_user p) s = Some v \<and> dp_credits p \<le> u_credits v) \<and>
     dp_credits p \<le> getAvailableCredits now (dp_user p) s"
  by (auto simp: deductCreditsFromLedgerWithClient_def Let_def consumption_order_total set_balance_def
      deduct_balance_def split: option.split)

lemma upd_user_ids:
  "(\<And>v. u_id (f v) = u_id v) \<Longrightarrow> find_user k s \<noteq> None \<Longrightarrow> find_user k (upd_user x f s) \<noteq> None"
  by (auto simp: find_user_upd)

lemma deduct_balance_fields [simp]:
  "u_id (deduct_balance now n v) = u_id v" "u_email (deduct_balance now n v) = u_email v"
  "u_credits (deduct_balance now n v) = u_credits v - n"
  by (simp_all add: deduct_balance_def)

lemma deduct_effect:
  assumes "deductCreditsFromLedgerWithClient now p s = Inr ((u, t, cs), s')" and "ledger_ok s"
  shows "getAvailableCredits now k s' = getAvailableCredits now k s - (if k = dp_user p then dp_credits p else 0)"
    and "balance_of k s' = balance_of k s - (if k = dp_user p then dp_credits p else 0)"
    and "sum_list (map cc_amount cs) = dp_credits p"
    and "ledger_ok s'" and "wf_users s \<Longrightarrow> wf_users s'"
    and "consumptions s' = consumptions s @ cs" and "txns s' = txns s @ [t]"
    and "find_user (dp_user p) s' = Some u"
proof -
  from assms(1) obtain v where v: "find_user (dp_user p) s = Some v" "0 < dp_credits p"
    "dp_credits p \<le> getAvailableCredits now (dp_user p) s" "dp_credits p \<le> u_credits v"
    "u = deduct_balance now (dp_credits p) v"
    and cs: "cs = map (\<lambda>(e, a). consumption_row (tx_id t) e a)
      (takes (dp_credits p) (consumption_order now (dp_user p) s))"
    and s': "s' = consumptions_update (\<lambda>xs. xs @ cs)
      (apply_takes now (takes (dp_credits p) (consumption_order now (dp_user p) s))
        (insert_txn t (upd_user (dp_user p) (deduct_balance now (dp_credits p)) s)))"
    by (rule deduct_Inr)
  let ?ts = "takes (dp_credits p) (consumption_order now (dp_user p) s)"
  let ?s1 = "insert_txn t (upd_user (dp_user p) (deduct_balance now (dp_credits p)) s)"
  from assms(2) have d: "distinct (map le_id (ledger s))" by (simp add: ledger_ok_def)
  have plan: "plan_ok now (dp_user p) ?ts ?s1"
    using plan_ok_takes [OF d, of now "dp_user p" "dp_credits p"] by (simp add: plan_ok_def find_lot_def)
  have sum: "sum_list (map snd ?ts) = dp_credits p"
    using v(2,3) by (subst sum_takes) (auto simp: consumption_order_set spendable_def consumption_order_total)
  have avs: "getAvailableCredits now k s' = getAvailableCredits now k (apply_takes now ?ts ?s1)"
    by (simp add: s' getAvailableCredits_def)
  have av1: "getAvailableCredits now k ?s1 = getAvailableCredits now k s"
    by (simp add: getAvailableCredits_def)
  show "getAvailableCredits now k s' = getAvailableCredits now k s - (if k = dp_user p then dp_credits p else 0)"
    unfolding avs using available_apply [OF _ plan, of k] d by (simp add: sum av1)
  have fu: "find_user k s' = find_user k (upd_user (dp_user p) (deduct_balance now (dp_credits p)) s)" for k
    by (simp add: s' find_user_def)
  show "balance_of k s' = balance_of k s - (if k = dp_user p then dp_credits p else 0)"
    using v by (simp add: balance_of_def fu find_user_upd)
  show "find_user (dp_user p) s' = Some u" using v by (simp add: fu find_user_upd)
  have "sum_list (map cc_amount cs) = sum_list (map snd ?ts)"
    unfolding cs by (rule arg_cong [of _ _ sum_list]) (auto simp: consumption_row_def)
  then show "sum_list (map cc_amount cs) = dp_credits p" by (simp add: sum)
  have "ledger_ok ?s1"
    using assms(2) upd_user_ids [of "deduct_balance now (dp_credits p)"]
    by (intro ledger_ok_cong [of ?s1 s]) (auto simp: find_user_def)
  then show "ledger_ok s'" unfolding s' by (rule ledger_ok_apply [OF _ plan, where tid = "tx_id t"]) (simp add: cs)
  show "wf_users s'" if "wf_users s"
  proof -
    have "wf_users (upd_user (dp_user p) (deduct_balance now (dp_credits p)) s)"
      by (rule wf_users_upd [OF that]) (use v in simp_all)
    then show ?thesis by (simp add: s' wf_users_def)
  qed
  show "consumptions s' = consumptions s @ cs" "txns s' = txns s @ [t]" by (simp_all add: s')
qed

section \<open>Adjusting\<close>

lemma adjust_negative_Inr:
  assumes "adjustCreditsWithClient now js_now uid amount s = Inr ((u, t), s')" and "amount < 0"
  obtains v ts where "find_user uid s = Some v" and "0 \<le> u_credits v + amount"
    and "u = v\<lparr>u_credits := u_credits v + amount, u_updated_at := now\<rparr>"
    and "ts = takes (- amount) (consumption_order now uid s)"
    and "sum_list (map snd ts) = - amount" and "- amount \<le> getAvailableCredits now uid s"
    and "s' = insert_txn t (apply_takes now ts
      (upd_user uid (\<lambda>v. v\<lparr>u_credits := u_credits v + amount, u_updated_at := now\<rparr>) s))"
    and "tx_amount t = amount" and "tx_balance_after t = u_credits u"
proof -
  let ?f = "\<lambda>v. v\<lparr>u_credits := u_credits v + amount, u_updated_at := now\<rparr>"
  let ?ts = "takes (- amount) (consumption_order now uid s)"
  have rows: "consumption_order now uid (upd_user uid ?f s) = consumption_order now uid s"
    by (simp add: consumption_order_def)
  from assms obtain v where v: "find_user uid s = Some v"
    by (auto simp: adjustCreditsWithClient_def set_balance_def split: option.splits)
  have sum: "sum_list (map snd ?ts) = min (- amount) (getAvailableCredits now uid s)"
    using assms(2) by (subst sum_takes)
      (auto simp: consumption_order_set spendable_def consumption_order_total)
  from assms v have c: "0 \<le> u_credits v + amount" "u = ?f v" "- amount \<le> sum_list (map snd ?ts)"
    "s' = insert_txn t (apply_takes now ?ts (upd_user uid ?f s))"
    "tx_amount t = amount" "tx_balance_after t = u_credits u"
    by (auto simp: adjustCreditsWithClient_def set_balance_def Let_def take_lots_takes rows
        split: if_splits)
  with that [OF v, of ?ts] sum show ?thesis by simp
qed

lemma adjust_positive_Inr:
  assumes "adjustCreditsWithClient now js_now uid amount s = Inr ((u, t), s')" and "0 < amount"
  obtains lot where "addCreditsToLedgerWithClient now js_now (adjustment_params uid amount) s = Inr ((u, t, lot), s')"
  using assms by (auto simp: adjustCreditsWithClient_def bindE_Inr_iff)

lemma adjust_nonzero:
  "adjustCreditsWithClient now js_now uid amount s = Inr r \<Longrightarrow> amount \<noteq> 0"
  by (auto simp: adjustCreditsWithClient_def)

lemma adjustment_lasting: "lasting now (fst (expiration_of js_now (adjustment_params uid amount)))"
  by (simp add: expiration_of_def adjustment_params_def lasting_def Let_def)

lemma adjust_effect:
  assumes "adjustCreditsWithClient now js_now uid amount s = Inr ((u, t), s')" and "ledger_ok s"
  shows "getAvailableCredits now k s' = getAvailableCredits now k s + (if k = uid then amount else 0)"
    and "balance_of k s' = balance_of k s + (if k = uid then amount else 0)"
    and "ledger_ok s'" and "wf_users s \<Longrightarrow> wf_users s'"
    and "consumptions s' = consumptions s"
proof -
  have "getAvailableCredits now k s' = getAvailableCredits now k s + (if k = uid then amount else 0) \<and>
    balance_of k s' = balance_of k s + (if k = uid then amount else 0) \<and>
    ledger_ok s' \<and> (wf_users s \<longrightarrow> wf_users s') \<and> consumptions s' = consumptions s"
  proof (cases "0 < amount")
    case True
    with assms(1) obtain lot where
      l: "addCreditsToLedgerWithClient now js_now (adjustment_params uid amount) s = Inr ((u, t, lot), s')"
      by (rule adjust_positive_Inr)
    have "ac_user (adjustment_params uid amount) = uid" "ac_credits (adjustment_params uid amount) = amount"
      by (simp_all add: adjustment_params_def)
    with add_available [OF l, of k] add_balance [OF l, of k] add_ledger_ok [OF l assms(2)]
      add_wf_users [OF l] add_frame(6) [OF l] adjustment_lasting
    show ?thesis by simp
  next
    case False
    with adjust_nonzero [OF assms(1)] have "amount < 0" by simp
    with assms(1) obtain v ts where v: "find_user uid s = Some v" "0 \<le> u_credits v + amount"
      and ts: "ts = takes (- amount) (consumption_order now uid s)" "sum_list (map snd ts) = - amount"
      and s': "s' = insert_txn t (apply_takes now ts
        (upd_user uid (\<lambda>v. v\<lparr>u_credits := u_credits v + amount, u_updated_at := now\<rparr>) s))"
      by (rule adjust_negative_Inr)
    let ?f = "\<lambda>v. v\<lparr>u_credits := u_credits v + amount, u_updated_at := now\<rparr>"
    let ?s1 = "upd_user uid ?f s"
    have d: "distinct (map le_id (ledger s))" using assms(2) by (simp add: ledger_ok_def)
    have plan: "plan_ok now uid ts ?s1"
      using plan_ok_takes [OF d, of now uid "- amount"] by (simp add: plan_ok_def find_lot_def ts(1))
    have "getAvailableCredits now k s' = getAvailableCredits now k (apply_takes now ts ?s1)"
      by (simp add: s' getAvailableCredits_def)
    also have "\<dots> = getAvailableCredits now k s + (if k = uid then amount else 0)"
      using available_apply [OF _ plan, of k] d by (simp add: ts(2) getAvailableCredits_def)
    finally have av: "getAvailableCredits now k s' = getAvailableCredits now k s + (if k = uid then amount else 0)" .
    have fu: "find_user k s' = find_user k ?s1" for k by (simp add: s' find_user_def)
    have bal: "balance_of k s' = balance_of k s + (if k = uid then amount else 0)"
      using v by (simp add: balance_of_def fu find_user_upd)
    have "ledger_ok ?s1"
      using assms(2) upd_user_ids [of ?f] by (intro ledger_ok_cong [of ?s1 s]) auto
    then have "ledger_ok (consumptions_update (\<lambda>cs. cs @ []) (apply_takes now ts ?s1))"
      by (rule ledger_ok_apply [OF _ plan]) simp
    then have ok: "ledger_ok s'" by (rule ledger_ok_cong [rotated 3]) (simp_all add: s' find_user_def)
    have "wf_users ?s1" if "wf_users s" by (rule wf_users_upd [OF that]) (use v in simp_all)
    then have "wf_users s \<longrightarrow> wf_users s'" by (simp add: s' wf_users_def)
    with av bal ok show ?thesis by (simp add: s')
  qed
  then show "getAvailableCredits now k s' = getAvailableCredits now k s + (if k = uid then amount else 0)"
    "balance_of k s' = balance_of k s + (if k = uid then amount else 0)"
    "ledger_ok s'" "wf_users s \<Longrightarrow> wf_users s'" "consumptions s' = consumptions s"
    by simp_all
qed

end
