(* ===== verification/LedgerReads.thy ===== *)
theory LedgerReads
  imports LedgerLaws
begin

text \<open>
  The reads of the ledger and its daily jobs (src/services/creditLedgerService.ts,
  src/services/creditService.ts): the detailed balance with its expiry buckets and its
  breakdown by source, the paged lists, the marking of expired lots, the reconciliation of
  the cached balances, and the accounts whose credits run out soon.
\<close>

section \<open>The balance\<close>

definition getBalance :: "string \<Rightarrow> db \<Rightarrow> error + int \<times> int \<times> int" where
  "getBalance uid s = (case find_user uid s of
     None \<Rightarrow> Inl (Error ''User not found'')
   | Some u \<Rightarrow> Inr (u_credits u, u_credits_purchased u, u_credits_used u))"

record expiring_bucket =
  bk_expires_at :: "instant option"
  bk_credits :: int
  bk_ledger_ids :: "string list"

record source_breakdown =
  sb_source :: credit_source_type
  sb_available :: int
  sb_total :: int

record balance_detailed =
  bd_total_available :: int
  bd_expiring_soon :: int
  bd_never_expiring :: int
  bd_expiring_dates :: "expiring_bucket list"
  bd_by_source :: "source_breakdown list"

text \<open>
  A JavaScript Map in insertion order: \<open>get(k) || init\<close>, changed, then \<open>set\<close>. The bucket's
  key is the expiry's ISO text or 'never', which distinct expiries never share, so the key
  is the optional expiry itself.
\<close>

fun map_upsert :: "('r \<Rightarrow> 'k) \<Rightarrow> 'k \<Rightarrow> 'r \<Rightarrow> ('r \<Rightarrow> 'r) \<Rightarrow> 'r list \<Rightarrow> 'r list" where
  "map_upsert key k ini f [] = [f ini]"
| "map_upsert key k ini f (r # rs) = (if key r = k then f r # rs else r # map_upsert key k ini f rs)"

definition add_bucket :: "ledger_entry \<Rightarrow> expiring_bucket list \<Rightarrow> expiring_bucket list" where
  "add_bucket e = map_upsert bk_expires_at (le_expires_at e)
     \<lparr> bk_expires_at = le_expires_at e, bk_credits = 0, bk_ledger_ids = [] \<rparr>
     (\<lambda>b. b\<lparr>bk_credits := bk_credits b + le_remaining e, bk_ledger_ids := bk_ledger_ids b @ [le_id e]\<rparr>)"

definition add_source :: "ledger_entry \<Rightarrow> source_breakdown list \<Rightarrow> source_breakdown list" where
  "add_source e = map_upsert sb_source (le_source_type e)
     \<lparr> sb_source = le_source_type e, sb_available = 0, sb_total = 0 \<rparr>
     (\<lambda>b. b\<lparr>sb_available := sb_available b + le_remaining e, sb_total := sb_total b + le_initial e\<rparr>)"

definition balance_step :: "instant \<Rightarrow> balance_detailed \<Rightarrow> ledger_entry \<Rightarrow> balance_detailed" where
  "balance_step soon b e =
     \<lparr> bd_total_available = bd_total_available b + le_remaining e,
       bd_expiring_soon = (case le_expires_at e of
          Some t \<Rightarrow> if t \<le> soon then bd_expiring_soon b + le_remaining e else bd_expiring_soon b
        | None \<Rightarrow> bd_expiring_soon b),
       bd_never_expiring = (case le_expires_at e of
          Some t \<Rightarrow> bd_never_expiring b | None \<Rightarrow> bd_never_expiring b + le_remaining e),
       bd_expiring_dates = add_bucket e (bd_expiring_dates b),
       bd_by_source = add_source e (bd_by_source b) \<rparr>"

definition bucket_key :: "expiring_bucket \<Rightarrow> nat \<times> instant" where
  "bucket_key b = (case bk_expires_at b of None \<Rightarrow> (1, 0) | Some t \<Rightarrow> (0, t))"

definition getDetailedBalance :: "instant \<Rightarrow> instant \<Rightarrow> string \<Rightarrow> db \<Rightarrow> balance_detailed" where
  "getDetailedBalance now js_now uid s =
     (let entries = consumption_order now uid s;
          thirtyDaysFromNow = add_days js_now 30;
          b = foldl (balance_step thirtyDaysFromNow)
                \<lparr> bd_total_available = 0, bd_expiring_soon = 0, bd_never_expiring = 0,
                  bd_expiring_dates = [], bd_by_source = [] \<rparr> entries
      in b\<lparr>bd_expiring_dates := sort_key bucket_key (bd_expiring_dates b)\<rparr>)"

section \<open>Paged lists\<close>

text \<open>LIMIT and OFFSET of a query, and the count of the same WHERE.\<close>

definition page :: "nat \<Rightarrow> nat \<Rightarrow> 'r list \<Rightarrow> 'r list \<times> nat" where
  "page limit offset rows = (take limit (drop offset rows), length rows)"

record get_entries_params =
  ge_user :: string
  ge_status :: "ledger_status list option"
  ge_include_expired :: "bool option"
  ge_limit :: "nat option"
  ge_offset :: "nat option"

definition entry_listed :: "instant \<Rightarrow> get_entries_params \<Rightarrow> ledger_entry \<Rightarrow> bool" where
  "entry_listed now q e \<longleftrightarrow> le_user e = ge_user q \<and>
     (case ge_status q of None \<Rightarrow> True | Some sts \<Rightarrow> sts = [] \<or> le_status e \<in> set sts) \<and>
     (ge_include_expired q = Some True \<or>
      (case le_expires_at e of None \<Rightarrow> True | Some t \<Rightarrow> now < t))"

definition getLedgerEntries :: "instant \<Rightarrow> get_entries_params \<Rightarrow> db \<Rightarrow> ledger_entry list \<times> nat" where
  "getLedgerEntries now q s =
     (let limit = (case ge_limit q of None \<Rightarrow> 50 | Some n \<Rightarrow> n);
          offset = (case ge_offset q of None \<Rightarrow> 0 | Some n \<Rightarrow> n)
      in page limit offset
           (sort_key (\<lambda>e. - le_created_at e) (filter (entry_listed now q) (ledger s))))"

definition getTransactions ::
  "string \<Rightarrow> nat option \<Rightarrow> nat option \<Rightarrow> transaction_type option \<Rightarrow> db \<Rightarrow> credit_transaction list \<times> nat" where
  "getTransactions uid limit_opt offset_opt ty s =
     (let limit = (case limit_opt of None \<Rightarrow> 50 | Some n \<Rightarrow> n);
          offset = (case offset_opt of None \<Rightarrow> 0 | Some n \<Rightarrow> n)
      in page limit offset
           (sort_key (\<lambda>t. - tx_created_at t)
             (filter (\<lambda>t. tx_user t = uid \<and> (case ty of None \<Rightarrow> True | Some y \<Rightarrow> tx_type t = y)) (txns s))))"

section \<open>Daily jobs\<close>

definition expired_active :: "instant \<Rightarrow> ledger_entry \<Rightarrow> bool" where
  "expired_active now e \<longleftrightarrow> le_status e = Lot_active \<and>
     (case le_expires_at e of None \<Rightarrow> False | Some t \<Rightarrow> t \<le> now) \<and> 0 < le_remaining e"

definition markExpiredEntries :: "instant \<Rightarrow> db \<Rightarrow> nat \<times> db" where
  "markExpiredEntries now s =
     (length (filter (expired_active now) (ledger s)),
      ledger_update (upd_where (expired_active now)
        (\<lambda>e. e\<lparr>le_status := Lot_expired, le_updated_at := now\<rparr>)) s)"

record balance_mismatch =
  mm_user :: string
  mm_cached :: int
  mm_actual :: int

definition mismatches :: "instant \<Rightarrow> db \<Rightarrow> balance_mismatch list" where
  "mismatches now s =
     map (\<lambda>u. \<lparr> mm_user = u_id u, mm_cached = u_credits u,
                mm_actual = getAvailableCredits now (u_id u) s \<rparr>)
       (filter (\<lambda>u. u_credits u \<noteq> getAvailableCredits now (u_id u) s) (users s))"

text \<open>The repair of one mismatch, and the loop over them.\<close>

definition fix_balance :: "instant \<Rightarrow> balance_mismatch \<Rightarrow> db \<Rightarrow> db" where
  "fix_balance now m = upd_user (mm_user m) (\<lambda>u. u\<lparr>u_credits := mm_actual m, u_updated_at := now\<rparr>)"

definition reconcileBalances :: "instant \<Rightarrow> db \<Rightarrow> (nat \<times> nat \<times> balance_mismatch list) \<times> db" where
  "reconcileBalances now s =
     (let ms = mismatches now s; s' = fold (fix_balance now) ms s
      in ((length (users s'), length ms, ms), s'))"

record expiring_user =
  ex_user :: string
  ex_email :: string
  ex_credits :: int
  ex_expires_at :: instant

definition expiring_within :: "instant \<Rightarrow> instant \<Rightarrow> string \<Rightarrow> ledger_entry \<Rightarrow> bool" where
  "expiring_within now future uid e \<longleftrightarrow> le_user e = uid \<and> le_status e = Lot_active \<and> 0 < le_remaining e \<and>
     (case le_expires_at e of None \<Rightarrow> False | Some t \<Rightarrow> now < t \<and> t \<le> future)"

definition getUsersWithExpiringCredits :: "instant \<Rightarrow> instant \<Rightarrow> int \<Rightarrow> db \<Rightarrow> expiring_user list" where
  "getUsersWithExpiringCredits now js_now withinDays s =
     (let future = add_days js_now withinDays;
          row = (\<lambda>u. let es = filter (expiring_within now future (u_id u)) (ledger s)
                     in \<lparr> ex_user = u_id u, ex_email = u_email u,
                          ex_credits = sum_list (map le_remaining es),
                          ex_expires_at = Min (set (map (the \<circ> le_expires_at) es)) \<rparr>)
      in sort_key ex_expires_at
           (map row (filter (\<lambda>u. list_ex (expiring_within now future (u_id u)) (ledger s)) (users s))))"

section \<open>The detailed balance adds up\<close>

lemma sum_map_upsert:
  fixes g :: "'r \<Rightarrow> int"
  assumes "\<And>r. g (f r) = g r + n" and "g ini = 0"
  shows "sum_list (map g (map_upsert key k ini f rs)) = sum_list (map g rs) + n"
  using assms by (induction rs) auto

lemma keys_map_upsert:
  assumes "\<And>r. key (f r) = key r" and "key ini = k"
  shows "key ` set (map_upsert key k ini f rs) = insert k (key ` set rs)"
    and "distinct (map key rs) \<Longrightarrow> distinct (map key (map_upsert key k ini f rs))"
proof -
  show *: "key ` set (map_upsert key k ini f rs) = insert k (key ` set rs)" for rs
    using assms by (induction rs) auto
  show "distinct (map key (map_upsert key k ini f rs))" if "distinct (map key rs)"
    using that
  proof (induction rs)
    case Nil
    then show ?case by simp
  next
    case (Cons r rs)
    then show ?case using * [of rs] assms(1) by auto
  qed
qed

lemma bucket_sum: "sum_list (map bk_credits (add_bucket e bs)) = sum_list (map bk_credits bs) + le_remaining e"
  unfolding add_bucket_def by (rule sum_map_upsert) simp_all

lemma source_sum: "sum_list (map sb_available (add_source e bs)) = sum_list (map sb_available bs) + le_remaining e"
  unfolding add_source_def by (rule sum_map_upsert) simp_all

lemma bucket_distinct: "distinct (map bk_expires_at bs) \<Longrightarrow> distinct (map bk_expires_at (add_bucket e bs))"
  unfolding add_bucket_def by (rule keys_map_upsert(2)) simp_all

text \<open>The loop's invariant, relative to where it starts.\<close>

definition balanced :: "balance_detailed \<Rightarrow> bool" where
  "balanced b \<longleftrightarrow> sum_list (map bk_credits (bd_expiring_dates b)) = bd_total_available b \<and>
     sum_list (map sb_available (bd_by_source b)) = bd_total_available b \<and>
     0 \<le> bd_expiring_soon b \<and> 0 \<le> bd_never_expiring b \<and>
     bd_expiring_soon b + bd_never_expiring b \<le> bd_total_available b \<and>
     distinct (map bk_expires_at (bd_expiring_dates b))"

lemma balance_step_balanced:
  "balanced b \<Longrightarrow> 0 \<le> le_remaining e \<Longrightarrow> balanced (balance_step soon b e)"
  by (auto simp: balanced_def balance_step_def bucket_sum source_sum bucket_distinct split: option.split)

lemma balance_step_total: "bd_total_available (balance_step soon b e) = bd_total_available b + le_remaining e"
  by (simp add: balance_step_def)

lemma foldl_balanced:
  "balanced b \<Longrightarrow> \<forall>e\<in>set es. 0 \<le> le_remaining e \<Longrightarrow> balanced (foldl (balance_step soon) b es) \<and>
   bd_total_available (foldl (balance_step soon) b es) = bd_total_available b + sum_list (map le_remaining es)"
  by (induction es arbitrary: b) (simp_all add: balance_step_balanced balance_step_total)

lemma distinct_sort_key: "distinct (map g (sort_key f xs)) = distinct (map g xs)"
proof -
  have "distinct (map g (insort_key f x xs)) = (g x \<notin> g ` set xs \<and> distinct (map g xs))" for x xs
    by (induction xs) (auto simp: set_insort_key)
  then show ?thesis by (induction xs) simp_all
qed

text \<open>
  The detailed balance is consistent with itself and with the balance check: its total is
  what \<open>getAvailableCredits\<close> answers, the expiry buckets and the sources each add up to it,
  the buckets are one per expiry in the order they run out (never last), and the credits
  expiring soon and those never expiring are disjoint parts of the total.
\<close>

theorem getDetailedBalance_adds_up:
  "let b = getDetailedBalance now js_now uid s in
     bd_total_available b = getAvailableCredits now uid s \<and>
     sum_list (map bk_credits (bd_expiring_dates b)) = getAvailableCredits now uid s \<and>
     sum_list (map sb_available (bd_by_source b)) = getAvailableCredits now uid s \<and>
     bd_expiring_soon b + bd_never_expiring b \<le> getAvailableCredits now uid s \<and>
     0 \<le> bd_expiring_soon b \<and> 0 \<le> bd_never_expiring b \<and>
     sorted (map bucket_key (bd_expiring_dates b)) \<and> distinct (map bk_expires_at (bd_expiring_dates b))"
proof -
  let ?z = "\<lparr> bd_total_available = 0, bd_expiring_soon = 0, bd_never_expiring = 0,
    bd_expiring_dates = [], bd_by_source = [] \<rparr>"
  have "balanced ?z" by (simp add: balanced_def)
  moreover have "\<forall>e\<in>set (consumption_order now uid s). 0 \<le> le_remaining e"
    by (simp add: consumption_order_set spendable_def)
  ultimately show ?thesis
    using foldl_balanced [of ?z "consumption_order now uid s" "add_days js_now 30"]
    by (simp add: getDetailedBalance_def Let_def balanced_def sum_list_sort_key distinct_sort_key
        consumption_order_total)
qed

section \<open>What the jobs keep\<close>

definition expire_lot :: "instant \<Rightarrow> ledger_entry \<Rightarrow> ledger_entry" where
  "expire_lot now e = e\<lparr>le_status := Lot_expired, le_updated_at := now\<rparr>"

lemma markExpired_eq:
  "snd (markExpiredEntries now s) = ledger_update (upd_where (expired_active now) (expire_lot now)) s"
  by (simp add: markExpiredEntries_def expire_lot_def [abs_def])

lemma expire_lot_fields [simp]:
  "le_id (expire_lot now e) = le_id e" "le_user (expire_lot now e) = le_user e"
  "le_remaining (expire_lot now e) = le_remaining e" "le_initial (expire_lot now e) = le_initial e"
  "le_status (expire_lot now e) = Lot_expired" "le_expires_at (expire_lot now e) = le_expires_at e"
  by (simp_all add: expire_lot_def)

lemma expired_not_spendable: "expired_active now e \<Longrightarrow> \<not> spendable now uid e"
  by (auto simp: expired_active_def spendable_def split: option.splits)

lemma filter_spendable_expire:
  "filter (spendable now uid) (upd_where (expired_active now) (expire_lot now) es) = filter (spendable now uid) es"
  by (induction es) (auto simp: expired_not_spendable, auto simp: spendable_def)

lemma markExpired_available: "getAvailableCredits now k (snd (markExpiredEntries now s)) = getAvailableCredits now k s"
  by (simp add: markExpired_eq getAvailableCredits_def filter_spendable_expire)

lemma find_lot_markExpired:
  "find_lot k (snd (markExpiredEntries now s)) =
     map_option (\<lambda>e. if expired_active now e then expire_lot now e else e) (find_lot k s)"
  unfolding markExpired_eq find_lot_def by (simp add: find_by_upd_where)

lemma markExpired_ledger_ok:
  assumes "ledger_ok s"
  shows "ledger_ok (snd (markExpiredEntries now s))"
proof -
  let ?s = "snd (markExpiredEntries now s)"
  have u: "users ?s = users s" "consumptions ?s = consumptions s" by (simp_all add: markExpired_eq)
  have "distinct (map le_id (ledger ?s))" using assms by (simp add: markExpired_eq ledger_ok_def)
  then show ?thesis
    using assms unfolding ledger_ok_iff
    by (auto simp: find_lot_markExpired u lot_ok_def find_user_def list_all_iff)
qed

lemma fix_balance_frame [simp]: "ledger (fix_balance now m s) = ledger s"
  by (simp add: fix_balance_def)

lemma fold_fix_frame [simp]: "ledger (fold (fix_balance now) ms s) = ledger s"
  by (induction ms arbitrary: s) simp_all

lemma fold_fix_available [simp]:
  "getAvailableCredits now k (fold (fix_balance now) ms s) = getAvailableCredits now k s"
  by (simp add: getAvailableCredits_def)

text \<open>What the loop leaves of an account: its first mismatch's actual balance, set by the last.\<close>

lemma find_user_fix:
  assumes "distinct (map mm_user ms)"
  shows "find_user k (fold (fix_balance now) ms s) =
    (case find_by mm_user k ms of None \<Rightarrow> find_user k s
     | Some m \<Rightarrow> map_option (\<lambda>u. u\<lparr>u_credits := mm_actual m, u_updated_at := now\<rparr>) (find_user k s))"
  using assms
proof (induction ms arbitrary: s)
  case Nil
  then show ?case by simp
next
  case (Cons m ms)
  have *: "find_by mm_user (mm_user m) ms = None"
    using Cons.prems by (simp add: find_by_None_iff)
  have "find_user k (fix_balance now m s) = (if k = mm_user m
      then map_option (\<lambda>u. u\<lparr>u_credits := mm_actual m, u_updated_at := now\<rparr>) (find_user k s) else find_user k s)"
    by (simp add: fix_balance_def find_user_upd)
  with * Cons show ?case by (auto split: option.splits)
qed

lemma fix_balance_ids [simp]: "map u_id (users (fix_balance now m s)) = map u_id (users s)"
  unfolding fix_balance_def upd_user_def by (rule users_tab.keys_update) simp

lemma fold_fix_ids [simp]: "map u_id (users (fold (fix_balance now) ms s)) = map u_id (users s)"
  by (induction ms arbitrary: s) simp_all

lemma mismatches_distinct: "wf_users s \<Longrightarrow> distinct (map mm_user (mismatches now s))"
  by (simp add: mismatches_def comp_def wf_users_def distinct_map_filter)

lemma mismatch_of:
  assumes "wf_users s" and "find_user k s = Some u"
  shows "find_by mm_user k (mismatches now s) =
    (if u_credits u = getAvailableCredits now k s then None
     else Some \<lparr> mm_user = k, mm_cached = u_credits u, mm_actual = getAvailableCredits now k s \<rparr>)"
proof -
  have u: "u \<in> set (users s)" "u_id u = k" using find_userD [OF assms(2)] by simp_all
  have only: "v = u" if "v \<in> set (users s)" "u_id v = k" for v
    using assms(1) that u by (metis distinct_map inj_onD wf_users_def)
  show ?thesis
  proof (cases "u_credits u = getAvailableCredits now k s")
    case True
    then show ?thesis
      using only by (auto simp: find_by_None_iff mismatches_def)
  next
    case False
    then have m: "\<lparr> mm_user = k, mm_cached = u_credits u, mm_actual = getAvailableCredits now k s \<rparr>
        \<in> set (mismatches now s)"
      using u by (force simp: mismatches_def)
    show ?thesis
      using find_by_distinct [OF mismatches_distinct [OF assms(1)] m] False by simp
  qed
qed

text \<open>
  Reconciliation repairs every cached balance from the ledger, in one run: afterwards each
  account's balance is what its lots hold, it reports as many accounts as there are and as
  many repairs as there were mismatches, and a second run finds nothing to repair and
  changes nothing.
\<close>

theorem reconcileBalances_repairs:
  assumes "wf_users s"
  shows "cache_exact now (snd (reconcileBalances now s)) \<and>
    fst (reconcileBalances now s) = (length (users s), length (mismatches now s), mismatches now s) \<and>
    reconcileBalances now (snd (reconcileBalances now s)) =
      ((length (users s), 0, []), snd (reconcileBalances now s))"
proof -
  let ?s = "snd (reconcileBalances now s)"
  have s: "?s = fold (fix_balance now) (mismatches now s) s" by (simp add: reconcileBalances_def Let_def)
  have len: "length (users ?s) = length (users s)"
    unfolding s by (metis fold_fix_ids length_map)
  have d: "distinct (map u_id (users ?s))" using assms by (simp add: s wf_users_def)
  have fixed: "u_credits v = getAvailableCredits now k s" if fv: "find_user k ?s = Some v" for k v
  proof -
    from fv obtain u where u: "find_user k s = Some u"
      by (auto simp: s find_user_fix [OF mismatches_distinct [OF assms]] split: option.splits)
    show ?thesis
      using fv mismatch_of [OF assms u, of now] u
      by (auto simp: s find_user_fix [OF mismatches_distinct [OF assms]] split: if_splits)
  qed
  have "u_credits v = getAvailableCredits now (u_id v) ?s" if v: "v \<in> set (users ?s)" for v
    using fixed [of "u_id v" v] find_by_distinct [OF d v] by (simp add: find_user_def s)
  then have exact: "cache_exact now ?s" by (simp add: cache_exact_def list_all_iff)
  then have "mismatches now ?s = []"
    by (auto simp: mismatches_def filter_empty_conv cache_exact_def list_all_iff)
  with exact len show ?thesis by (simp add: reconcileBalances_def Let_def)
qed

end
