(* ===== verification/Returns.thy ===== *)
theory Returns
  imports LedgerLaws
begin

text \<open>
  The credits a send that did not go out gives back (src/services/creditLedgerService.ts,
  \<open>hasReturnedCreditsForLetter\<close> and \<open>returnConsumedCreditsForLetter\<close>): one compensating lot
  per lot the deduction drew from, with that lot's expiry and reference, skipping what was
  already refunded in cash. The marker is the compensating lot itself.
\<close>

section \<open>The marker\<close>

definition is_return_lot :: "string \<Rightarrow> string \<Rightarrow> ledger_entry \<Rightarrow> bool" where
  "is_return_lot letterId uid e \<longleftrightarrow> le_user e = uid \<and> le_source_type e = Src_adjustment \<and>
     json_text (le_source_metadata e) ''letter_id'' = Some letterId \<and>
     json_text (le_source_metadata e) ''reason'' = Some ''send_failed''"

definition hasReturnedCreditsForLetter :: "string \<Rightarrow> string \<Rightarrow> db \<Rightarrow> bool" where
  "hasReturnedCreditsForLetter letterId uid s = list_ex (is_return_lot letterId uid) (ledger s)"

section \<open>What the letter's deduction consumed\<close>

definition find_txn :: "nat \<Rightarrow> db \<Rightarrow> credit_transaction option" where
  "find_txn tid s = find_by tx_id tid (txns s)"

definition letter_deduction :: "string \<Rightarrow> string \<Rightarrow> credit_transaction \<Rightarrow> bool" where
  "letter_deduction letterId uid t \<longleftrightarrow> tx_reference_type t = Some Ref_letter \<and>
     tx_reference_id t = Some letterId \<and> tx_type t = Tx_deduction \<and> tx_user t = uid"

text \<open>credit_consumption JOIN credit_transactions JOIN credit_ledger, with the WHERE.\<close>

definition consumed_row :: "string \<Rightarrow> string \<Rightarrow> db \<Rightarrow> credit_consumption \<Rightarrow> (int \<times> ledger_entry) option" where
  "consumed_row letterId uid s c =
     (case find_txn (cc_transaction_id c) s of
        None \<Rightarrow> None
      | Some t \<Rightarrow> if letter_deduction letterId uid t
          then map_option (Pair (cc_amount c)) (find_lot (cc_ledger_id c) s) else None)"

definition consumed_lots :: "string \<Rightarrow> string \<Rightarrow> db \<Rightarrow> (int \<times> ledger_entry) list" where
  "consumed_lots letterId uid s = List.map_filter (consumed_row letterId uid s) (consumptions s)"

section \<open>The return\<close>

datatype return_cause = Cause_failed | Cause_cancelled

definition return_description :: "return_cause option \<Rightarrow> string \<Rightarrow> string" where
  "return_description cause letterId = ''Returned after '' @
     (if cause = Some Cause_cancelled then ''cancelled'' else ''failed'') @ '' send '' @ letterId"

definition lot_expired :: "instant \<Rightarrow> ledger_entry \<Rightarrow> bool" where
  "lot_expired now e = (case le_expires_at e of None \<Rightarrow> False | Some t \<Rightarrow> t \<le> now)"

definition return_metadata :: "string \<Rightarrow> string \<Rightarrow> ledger_entry \<Rightarrow> json_object" where
  "return_metadata letterId failureCode lot =
     [(''reason'', JStr ''send_failed''), (''letter_id'', JStr letterId),
      (''failure_code'', JStr failureCode), (''restores_ledger_id'', JStr (le_id lot))] @
     (case or_null_str (json_text (le_source_metadata lot) ''stripe_session_id'') of
        None \<Rightarrow> [] | Some sid \<Rightarrow> [(''stripe_session_id'', JStr sid)])"

definition return_lot ::
  "instant \<Rightarrow> string \<Rightarrow> string \<Rightarrow> string \<Rightarrow> string \<Rightarrow> string \<Rightarrow> int \<Rightarrow> ledger_entry \<Rightarrow> ledger_entry" where
  "return_lot now letterId uid failureCode description lid amount lot =
     \<lparr> le_id = lid, le_user = uid, le_initial = amount, le_remaining = amount,
       le_source_type = Src_adjustment, le_source_reference_id = le_source_reference_id lot,
       le_source_order_id = None, le_source_metadata = Some (return_metadata letterId failureCode lot),
       le_activated_at = now, le_expires_at = le_expires_at lot,
       le_expiration_policy = le_expiration_policy lot, le_expiration_days = None,
       le_status = (if lot_expired now lot then Lot_expired else Lot_active),
       le_description = Some description, le_related_ledger_id = Some (le_id lot),
       le_created_at = now, le_updated_at = now \<rparr>"

text \<open>The loop: (returned, usable) and the store after the inserts.\<close>

fun return_lots ::
  "instant \<Rightarrow> string \<Rightarrow> string \<Rightarrow> string \<Rightarrow> string \<Rightarrow> (int \<times> ledger_entry) list \<Rightarrow> int \<Rightarrow> int \<Rightarrow> db \<Rightarrow>
   error + (int \<times> int) \<times> db" where
  "return_lots now letterId uid failureCode description [] returned usable s = Inr ((returned, usable), s)"
| "return_lots now letterId uid failureCode description ((amount, lot) # rows) returned usable s =
     (if amount \<le> 0 then return_lots now letterId uid failureCode description rows returned usable s
      else if le_status lot = Lot_revoked
      then return_lots now letterId uid failureCode description rows returned usable s
      else bindE (insert_lot (return_lot now letterId uid failureCode description (fresh_id s) amount lot) s)
        (\<lambda>s'. return_lots now letterId uid failureCode description rows (returned + amount)
           (if lot_expired now lot then usable else usable + amount) s'))"

text \<open>The balance and the transaction: an UPDATE and an INSERT ... SELECT of the account's row.\<close>

definition credit_return :: "instant \<Rightarrow> string \<Rightarrow> string \<Rightarrow> string \<Rightarrow> int \<Rightarrow> db \<Rightarrow> db" where
  "credit_return now letterId uid description usable s =
     (let s1 = upd_user uid (\<lambda>u. u\<lparr>u_credits := u_credits u + usable, u_updated_at := now\<rparr>) s
      in case find_user uid s1 of
           None \<Rightarrow> s1
         | Some u \<Rightarrow> insert_txn
             \<lparr> tx_id = txn_seq s1, tx_user = uid, tx_amount = usable, tx_balance_after = u_credits u,
               tx_type = Tx_refund, tx_reference_type = Some Ref_letter,
               tx_reference_id = Some letterId, tx_description = Some description,
               tx_created_at = now \<rparr> s1)"

definition returnConsumedCreditsForLetter ::
  "instant \<Rightarrow> string \<Rightarrow> string \<Rightarrow> string \<Rightarrow> return_cause option \<Rightarrow> db \<Rightarrow> error + int \<times> db" where
  "returnConsumedCreditsForLetter now letterId uid failureCode cause s =
     (let description = return_description cause letterId
      in if hasReturnedCreditsForLetter letterId uid s then Inr (0, s)
         else let rows = consumed_lots letterId uid s
              in if rows = [] then Inr (0, s)
                 else bindE (return_lots now letterId uid failureCode description rows 0 0 s)
                   (\<lambda>((returned, usable), s').
                     if returned = 0 then Inr (0, s')
                     else if 0 < usable then Inr (returned, credit_return now letterId uid description usable s')
                     else Inr (returned, s')))"

section \<open>What the loop does\<close>

definition returnable :: "int \<times> ledger_entry \<Rightarrow> bool" where
  "returnable r \<longleftrightarrow> 0 < fst r \<and> le_status (snd r) \<noteq> Lot_revoked"

lemma return_lot_fields [simp]:
  "le_user (return_lot now l uid fc d k a lot) = uid" "le_initial (return_lot now l uid fc d k a lot) = a"
  "le_remaining (return_lot now l uid fc d k a lot) = a"
  "le_expires_at (return_lot now l uid fc d k a lot) = le_expires_at lot"
  "le_related_ledger_id (return_lot now l uid fc d k a lot) = Some (le_id lot)"
  "le_source_reference_id (return_lot now l uid fc d k a lot) = le_source_reference_id lot"
  "le_status (return_lot now l uid fc d k a lot) = (if lot_expired now lot then Lot_expired else Lot_active)"
  by (simp_all add: return_lot_def)

lemma return_lot_marks [simp]: "is_return_lot l uid (return_lot now l uid fc d k a lot)"
  by (simp add: is_return_lot_def return_lot_def return_metadata_def json_text_def)

lemma spendable_return_lot:
  "0 < a \<Longrightarrow> spendable now k (return_lot now l uid fc d n a lot) \<longleftrightarrow> k = uid \<and> \<not> lot_expired now lot"
  by (auto simp: spendable_def lot_expired_def split: option.split)

definition returned_amount :: "(int \<times> ledger_entry) list \<Rightarrow> int" where
  "returned_amount rows = sum_list (map fst (filter returnable rows))"

definition usable_amount :: "instant \<Rightarrow> (int \<times> ledger_entry) list \<Rightarrow> int" where
  "usable_amount now rows =
     sum_list (map fst (filter (\<lambda>r. returnable r \<and> \<not> lot_expired now (snd r)) rows))"

lemma amounts_Cons:
  "returned_amount (r # rows) = (if returnable r then fst r else 0) + returned_amount rows"
  "usable_amount now (r # rows) =
     (if returnable r \<and> \<not> lot_expired now (snd r) then fst r else 0) + usable_amount now rows"
  by (simp_all add: returned_amount_def usable_amount_def)

lemma amounts_Nil [simp]: "returned_amount [] = 0" "usable_amount now [] = 0"
  by (simp_all add: returned_amount_def usable_amount_def)

lemma returned_amount_nonneg: "0 \<le> returned_amount rows" "0 \<le> usable_amount now rows"
  unfolding returned_amount_def usable_amount_def
  by (rule sum_list_nonneg_int; simp add: returnable_def)+

lemma return_lots_Inr:
  assumes "return_lots now l uid fc d rows r0 u0 s = Inr ((r, u), s')"
  shows "r = r0 + returned_amount rows" and "u = u0 + usable_amount now rows"
    and "users s' = users s" and "txns s' = txns s" and "consumptions s' = consumptions s"
    and "getAvailableCredits now k s' = getAvailableCredits now k s +
      (if k = uid then usable_amount now rows else 0)"
    and "\<exists>new. ledger s' = ledger s @ new \<and> list_all (is_return_lot l uid) new \<and>
      (returned_amount rows \<noteq> 0 \<longrightarrow> new \<noteq> []) \<and>
      map (\<lambda>e. (le_initial e, le_expires_at e, le_source_reference_id e, le_related_ledger_id e)) new =
      map (\<lambda>(a, lot). (a, le_expires_at lot, le_source_reference_id lot, Some (le_id lot))) (filter returnable rows)"
    and "ledger_ok s \<Longrightarrow> find_user uid s \<noteq> None \<Longrightarrow> ledger_ok s'"
proof -
  have "r = r0 + returned_amount rows \<and> u = u0 + usable_amount now rows \<and> users s' = users s \<and>
    txns s' = txns s \<and> consumptions s' = consumptions s \<and>
    getAvailableCredits now k s' = getAvailableCredits now k s + (if k = uid then usable_amount now rows else 0) \<and>
    (\<exists>new. ledger s' = ledger s @ new \<and> list_all (is_return_lot l uid) new \<and>
      (returned_amount rows \<noteq> 0 \<longrightarrow> new \<noteq> []) \<and>
      map (\<lambda>e. (le_initial e, le_expires_at e, le_source_reference_id e, le_related_ledger_id e)) new =
      map (\<lambda>(a, lot). (a, le_expires_at lot, le_source_reference_id lot, Some (le_id lot))) (filter returnable rows)) \<and>
    (ledger_ok s \<longrightarrow> find_user uid s \<noteq> None \<longrightarrow> ledger_ok s')"
    using assms
  proof (induction rows arbitrary: r0 u0 s)
    case Nil
    then show ?case by simp
  next
    case (Cons row rows)
    obtain a lot where row: "row = (a, lot)" by (cases row)
    show ?case
    proof (cases "returnable row")
      case False
      with Cons.prems have "return_lots now l uid fc d rows r0 u0 s = Inr ((r, u), s')"
        by (auto simp: row returnable_def split: if_splits)
      from Cons.IH [OF this] False show ?thesis by (simp add: amounts_Cons)
    next
      case True
      let ?e = "return_lot now l uid fc d (fresh_id s) a lot"
      have a: "0 < a" using True by (simp add: row returnable_def)
      from True Cons.prems obtain s1 where i: "insert_lot ?e s = Inr s1"
        and rest: "return_lots now l uid fc d rows (r0 + a)
          (if lot_expired now lot then u0 else u0 + a) s1 = Inr ((r, u), s')"
        by (auto simp: row returnable_def bindE_Inr_iff split: if_splits)
      note IH = Cons.IH [OF rest]
      have av: "getAvailableCredits now k s1 = getAvailableCredits now k s +
        (if k = uid \<and> \<not> lot_expired now lot then a else 0)"
        using available_insert [OF i, of now k] a by (simp add: spendable_return_lot)
      have fr: "users s1 = users s" "txns s1 = txns s" "consumptions s1 = consumptions s"
        "ledger s1 = ledger s @ [?e]" by (simp_all add: insert_lot_Inr(1) [OF i])
      have ok: "ledger_ok s \<longrightarrow> find_user uid s \<noteq> None \<longrightarrow> ledger_ok s1"
        using ledger_ok_insert [OF _ i] by simp
      from IH obtain new where new: "ledger s' = ledger s1 @ new" "list_all (is_return_lot l uid) new"
        "map (\<lambda>e. (le_initial e, le_expires_at e, le_source_reference_id e, le_related_ledger_id e)) new =
         map (\<lambda>(a, lot). (a, le_expires_at lot, le_source_reference_id lot, Some (le_id lot))) (filter returnable rows)"
        by blast
      have "\<exists>new. ledger s' = ledger s @ new \<and> list_all (is_return_lot l uid) new \<and>
        (returned_amount (row # rows) \<noteq> 0 \<longrightarrow> new \<noteq> []) \<and>
        map (\<lambda>e. (le_initial e, le_expires_at e, le_source_reference_id e, le_related_ledger_id e)) new =
        map (\<lambda>(a, lot). (a, le_expires_at lot, le_source_reference_id lot, Some (le_id lot)))
          (filter returnable (row # rows))"
        using new True by (intro exI [of _ "?e # new"]) (simp add: fr row)
      with IH av ok fr True show ?thesis
        by (auto simp: amounts_Cons row find_user_def)
    qed
  qed
  then show "r = r0 + returned_amount rows" "u = u0 + usable_amount now rows" "users s' = users s"
    "txns s' = txns s" "consumptions s' = consumptions s"
    "getAvailableCredits now k s' = getAvailableCredits now k s + (if k = uid then usable_amount now rows else 0)"
    "\<exists>new. ledger s' = ledger s @ new \<and> list_all (is_return_lot l uid) new \<and>
      (returned_amount rows \<noteq> 0 \<longrightarrow> new \<noteq> []) \<and>
      map (\<lambda>e. (le_initial e, le_expires_at e, le_source_reference_id e, le_related_ledger_id e)) new =
      map (\<lambda>(a, lot). (a, le_expires_at lot, le_source_reference_id lot, Some (le_id lot))) (filter returnable rows)"
    "ledger_ok s \<Longrightarrow> find_user uid s \<noteq> None \<Longrightarrow> ledger_ok s'"
    by blast+
qed

section \<open>The return as a whole\<close>

lemma return_Inr:
  assumes "returnConsumedCreditsForLetter now l uid fc cause s = Inr (n, s')"
  obtains (already) "hasReturnedCreditsForLetter l uid s" "n = 0" "s' = s"
  | (nothing) "\<not> hasReturnedCreditsForLetter l uid s" "consumed_lots l uid s = []" "n = 0" "s' = s"
  | (returned) s1 where "\<not> hasReturnedCreditsForLetter l uid s"
      "return_lots now l uid fc (return_description cause l) (consumed_lots l uid s) 0 0 s =
        Inr ((n, usable_amount now (consumed_lots l uid s)), s1)"
      "n = returned_amount (consumed_lots l uid s)"
      "s' = (if 0 < usable_amount now (consumed_lots l uid s)
        then credit_return now l uid (return_description cause l) (usable_amount now (consumed_lots l uid s)) s1 else s1)"
proof -
  let ?rows = "consumed_lots l uid s" and ?d = "return_description cause l"
  have le: "usable_amount now rows \<le> returned_amount rows" for rows :: "(int \<times> ledger_entry) list"
    by (induction rows) (auto simp: amounts_Cons returnable_def)
  show ?thesis
  proof (cases "hasReturnedCreditsForLetter l uid s")
    case True
    with assms have "n = 0" "s' = s" by (simp_all add: returnConsumedCreditsForLetter_def Let_def)
    with True show ?thesis by (rule that(1))
  next
    case no: False
    show ?thesis
    proof (cases "?rows = []")
      case True
      with no assms have "n = 0" "s' = s" by (simp_all add: returnConsumedCreditsForLetter_def Let_def)
      with no True show ?thesis by (intro that(2))
    next
    case False
    with no assms obtain r u s1 where loop: "return_lots now l uid fc ?d ?rows 0 0 s = Inr ((r, u), s1)"
      and res: "(if r = 0 then Inr (0, s1) else if 0 < u then Inr (r, credit_return now l uid ?d u s1)
        else Inr (r, s1)) = (Inr (n, s') :: error + int \<times> db)"
      by (auto simp: returnConsumedCreditsForLetter_def Let_def bindE_Inr_iff)
    have r: "r = returned_amount ?rows" "u = usable_amount now ?rows"
      using return_lots_Inr(1,2) [OF loop] by simp_all
    then have "r = 0 \<Longrightarrow> \<not> 0 < u" using le [of ?rows] returned_amount_nonneg(2) [of now ?rows] by simp
    with res have "n = r" "s' = (if 0 < u then credit_return now l uid ?d u s1 else s1)"
      by (auto split: if_splits)
    with that(3) [of s1] no loop r show ?thesis by simp
    qed
  qed
qed

lemma credit_return_frame [simp]:
  "ledger (credit_return now l uid d n s) = ledger s"
  "consumptions (credit_return now l uid d n s) = consumptions s"
  by (simp_all add: credit_return_def Let_def split: option.split)

lemma find_user_credit_return:
  "find_user k (credit_return now l uid d n s) = (if k = uid
     then map_option (\<lambda>u. u\<lparr>u_credits := u_credits u + n, u_updated_at := now\<rparr>) (find_user uid s)
     else find_user k s)"
proof -
  have "users (credit_return now l uid d n s) =
    users (upd_user uid (\<lambda>u. u\<lparr>u_credits := u_credits u + n, u_updated_at := now\<rparr>) s)"
    by (simp add: credit_return_def Let_def split: option.split)
  then have "find_user k (credit_return now l uid d n s) =
    find_user k (upd_user uid (\<lambda>u. u\<lparr>u_credits := u_credits u + n, u_updated_at := now\<rparr>) s)"
    by (simp add: find_user_def)
  then show ?thesis by (simp add: find_user_upd)
qed

lemma credit_return_wf:
  assumes "wf_users s" and "0 \<le> n"
  shows "wf_users (credit_return now l uid d n s)"
proof -
  let ?f = "\<lambda>u. u\<lparr>u_credits := u_credits u + n, u_updated_at := now\<rparr>"
  have "wf_users (upd_user uid ?f s)"
  proof (rule wf_users_upd [OF assms(1)])
    fix u assume "find_user uid s = Some u"
    then show "0 \<le> u_credits (?f u)"
      using assms find_userD [of uid s u] by (auto simp: wf_users_def list_all_iff)
  qed simp_all
  then show ?thesis
    by (simp add: credit_return_def Let_def wf_users_def split: option.split)
qed

lemma consumed_lots_user:
  assumes "ledger_ok s" and "(a, lot) \<in> set (consumed_lots l uid s)"
  shows "lot \<in> set (ledger s) \<and> 0 < a"
proof -
  from assms(2) obtain c where c0: "c \<in> set (consumptions s)" and m: "consumed_row l uid s c = Some (a, lot)"
    by (auto simp: consumed_lots_def List.map_filter_def image_iff)
  with c0 have c: "c \<in> set (consumptions s)" "a = cc_amount c" "find_lot (cc_ledger_id c) s = Some lot"
    by (auto simp: consumed_row_def split: option.splits if_splits)
  have "distinct (map le_id (ledger s))" and "list_all (\<lambda>c. 0 < cc_amount c) (consumptions s)"
    using assms(1) by (simp_all add: ledger_ok_def)
  with c find_lot_mem [of s "cc_ledger_id c" lot] show ?thesis by (simp add: list_all_iff)
qed

lemma return_effect:
  assumes "returnConsumedCreditsForLetter now l uid fc cause s = Inr (n, s')"
    and "ledger_ok s" and "find_user uid s \<noteq> None"
  shows "ledger_ok s'" and "wf_users s \<Longrightarrow> wf_users s'"
    and "getAvailableCredits now k s' - getAvailableCredits now k s = balance_of k s' - balance_of k s"
    and "k \<noteq> uid \<Longrightarrow> balance_of k s' = balance_of k s" and "balance_of k s \<le> balance_of k s'"
    and "consumptions s' = consumptions s"
proof -
  have "ledger_ok s' \<and> (wf_users s \<longrightarrow> wf_users s') \<and>
    getAvailableCredits now k s' - getAvailableCredits now k s = balance_of k s' - balance_of k s \<and>
    (k \<noteq> uid \<longrightarrow> balance_of k s' = balance_of k s) \<and> balance_of k s \<le> balance_of k s' \<and>
    consumptions s' = consumptions s"
    using assms(1)
  proof (cases rule: return_Inr)
    case (returned s1)
    let ?u = "usable_amount now (consumed_lots l uid s)"
    note L = return_lots_Inr [OF returned(2)]
    have ok1: "ledger_ok s1" using L(8) assms(2,3) by simp
    have nn: "0 \<le> ?u" by (rule returned_amount_nonneg)
    have fs: "find_user k s1 = find_user k s" for k by (simp add: find_user_def L(3))
    have fs': "find_user k s' = (if k = uid \<and> 0 < ?u
        then map_option (\<lambda>u. u\<lparr>u_credits := u_credits u + ?u, u_updated_at := now\<rparr>) (find_user uid s)
        else find_user k s)" for k
      by (simp add: returned(4) find_user_credit_return fs)
    have led: "ledger s' = ledger s1" "consumptions s' = consumptions s1"
      by (simp_all add: returned(4))
    have ok: "ledger_ok s'"
      by (rule ledger_ok_cong [OF led _ ok1]) (auto simp: fs fs')
    have av: "getAvailableCredits now k s' = getAvailableCredits now k s + (if k = uid then ?u else 0)"
      using L(6) [of k] led(1) by (simp add: getAvailableCredits_def)
    have bal: "balance_of k s' = balance_of k s + (if k = uid then ?u else 0)"
      using assms(3) nn by (auto simp: balance_of_def fs')
    have "wf_users s \<longrightarrow> wf_users s1" by (simp add: wf_users_def L(3))
    then have "wf_users s \<longrightarrow> wf_users s'" using nn by (simp add: returned(4) credit_return_wf)
    with ok av bal nn led L(5) show ?thesis by simp
  qed (use assms in simp_all)
  then show "ledger_ok s'" "wf_users s \<Longrightarrow> wf_users s'"
    "getAvailableCredits now k s' - getAvailableCredits now k s = balance_of k s' - balance_of k s"
    "k \<noteq> uid \<Longrightarrow> balance_of k s' = balance_of k s" "balance_of k s \<le> balance_of k s'"
    "consumptions s' = consumptions s" by simp_all
qed

text \<open>The return meets the contract of a payment made exactly once.\<close>

lemma hasReturned_append:
  "ledger s' = ledger s @ new \<Longrightarrow> hasReturnedCreditsForLetter l uid s' \<longleftrightarrow>
     hasReturnedCreditsForLetter l uid s \<or> list_ex (is_return_lot l uid) new"
  by (simp add: hasReturnedCreditsForLetter_def)

lemma return_marks:
  assumes "returnConsumedCreditsForLetter now l uid fc cause s = Inr (n, s')" and "n \<noteq> 0"
  shows "hasReturnedCreditsForLetter l uid s'"
  using assms(1)
proof (cases rule: return_Inr)
  case (returned s1)
  from return_lots_Inr(7) [OF returned(2)] obtain new where new: "ledger s1 = ledger s @ new"
    "list_all (is_return_lot l uid) new" "new \<noteq> []"
    using assms(2) returned(3) by auto
  then have "list_ex (is_return_lot l uid) new" by (cases new) auto
  with new(1) show ?thesis
    using hasReturned_append [of s' s new] by (simp add: returned(4))
qed (use assms(2) in simp_all)

lemma return_already:
  "hasReturnedCreditsForLetter l uid s \<Longrightarrow> returnConsumedCreditsForLetter now l uid fc cause s = Inr (0, s)"
  by (simp add: returnConsumedCreditsForLetter_def)

lemma return_amount:
  assumes "returnConsumedCreditsForLetter now l uid fc cause s = Inr (n, s')" and "n \<noteq> 0"
  shows "n = returned_amount (consumed_lots l uid s)"
  using assms(1) by (cases rule: return_Inr) (use assms(2) in simp_all)

interpretation credit_return: exactly_once
  "returnConsumedCreditsForLetter now l uid fc cause" "hasReturnedCreditsForLetter l uid"
  for now l uid fc cause
  by unfold_locales (auto intro: return_already return_marks)

end
