(* ===== verification/LedgerBooks.thy ===== *)
theory LedgerBooks
  imports LedgerReads Returns
begin

text \<open>
  What the ledger's rows account for. Three tables tell the same story: a lot's remainder says
  what was taken from it, a transaction what an account was charged, a consumption which lot a
  letter's charge was taken from. \<open>books_kept\<close> says they agree to the credit, and the lemmas
  that every operation of the ledger keeps it.
\<close>

section \<open>The accounts\<close>

text \<open>What is gone from the lots of an account, whatever their status.\<close>

definition spent_lots :: "string \<Rightarrow> db \<Rightarrow> int" where
  "spent_lots k s = sum_list (map (\<lambda>e. le_initial e - le_remaining e) (filter (\<lambda>e. le_user e = k) (ledger s)))"

text \<open>What the account's transactions charged it.\<close>

definition charged :: "string \<Rightarrow> credit_transaction list \<Rightarrow> int" where
  "charged k ts = sum_list (map (\<lambda>t. - tx_amount t) (filter (\<lambda>t. tx_user t = k \<and> tx_amount t < 0) ts))"

text \<open>What the consumptions of a transaction took.\<close>

definition consumed_by :: "nat \<Rightarrow> credit_consumption list \<Rightarrow> int" where
  "consumed_by tid cs = sum_list (map cc_amount (filter (\<lambda>c. cc_transaction_id c = tid) cs))"

definition deducted :: "credit_transaction \<Rightarrow> int" where
  "deducted t = (if tx_type t = Tx_deduction then - tx_amount t else 0)"

definition books_kept :: "db \<Rightarrow> bool" where
  "books_kept s \<longleftrightarrow> distinct (map tx_id (txns s)) \<and> (\<forall>t\<in>set (txns s). tx_id t < txn_seq s) \<and>
     (\<forall>c\<in>set (consumptions s). cc_transaction_id c \<in> tx_id ` set (txns s)) \<and>
     (\<forall>t\<in>set (txns s). consumed_by (tx_id t) (consumptions s) = deducted t) \<and>
     (\<forall>k. spent_lots k s = charged k (txns s))"

lemma consumed_by_append [simp]: "consumed_by tid (cs @ ds) = consumed_by tid cs + consumed_by tid ds"
  by (simp add: consumed_by_def)

lemma consumed_by_absent: "tid \<notin> cc_transaction_id ` set cs \<Longrightarrow> consumed_by tid cs = 0"
  by (induction cs) (auto simp: consumed_by_def)

lemma consumed_by_all: "\<forall>c\<in>set cs. cc_transaction_id c = tid \<Longrightarrow> consumed_by tid cs = sum_list (map cc_amount cs)"
  by (simp add: consumed_by_def)

lemma charged_append [simp]:
  "charged k (ts @ [t]) = charged k ts + (if tx_user t = k \<and> tx_amount t < 0 then - tx_amount t else 0)"
  by (simp add: charged_def)

lemma empty_books: "books_kept empty_db"
  by (simp add: books_kept_def empty_db_def spent_lots_def charged_def)

section \<open>Keeping them\<close>

text \<open>One more transaction, with its consumptions, and lots that fell by what it charged.\<close>

lemma books_txn:
  assumes b: "books_kept s" and t: "txns s' = txns s @ [t]" "txn_seq s' = Suc (txn_seq s)" "tx_id t = txn_seq s"
    and c: "consumptions s' = consumptions s @ cs" "\<forall>c\<in>set cs. cc_transaction_id c = tx_id t"
      "sum_list (map cc_amount cs) = deducted t"
    and l: "\<And>k. spent_lots k s' = spent_lots k s + (if tx_user t = k \<and> tx_amount t < 0 then - tx_amount t else 0)"
  shows "books_kept s'"
proof -
  have below: "\<forall>x\<in>set (txns s). tx_id x < txn_seq s" using b by (simp add: books_kept_def)
  then have new: "tx_id t \<notin> tx_id ` set (txns s)" using t(3) by auto
  then have "tx_id t \<notin> cc_transaction_id ` set (consumptions s)" using b by (auto simp: books_kept_def)
  then have this_one: "consumed_by (tx_id t) (consumptions s') = deducted t"
    using c by (simp add: consumed_by_absent consumed_by_all)
  have others: "consumed_by (tx_id x) (consumptions s') = deducted x" if x: "x \<in> set (txns s)" for x
  proof -
    have "tx_id x \<noteq> tx_id t" using new x by (metis imageI)
    then have "tx_id x \<notin> cc_transaction_id ` set cs" using c(2) by auto
    then show ?thesis using b x c(1) by (simp add: consumed_by_absent books_kept_def)
  qed
  show ?thesis
    unfolding books_kept_def
  proof (intro conjI ballI allI)
    show "distinct (map tx_id (txns s'))" using b new t(1) by (simp add: books_kept_def)
    show "tx_id x < txn_seq s'" if "x \<in> set (txns s')" for x
      using that below t by (auto simp: less_Suc_eq)
    show "cc_transaction_id x \<in> tx_id ` set (txns s')" if "x \<in> set (consumptions s')" for x
      using that b c(1,2) t(1) by (auto simp: books_kept_def)
    show "consumed_by (tx_id x) (consumptions s') = deducted x" if "x \<in> set (txns s')" for x
      using that this_one others t(1) by auto
    show "spent_lots k s' = charged k (txns s')" for k
      using b l [of k] t(1) by (simp add: books_kept_def)
  qed
qed

lemma books_same:
  assumes "books_kept s" and "txns s' = txns s" and "txn_seq s' = txn_seq s"
    and "consumptions s' = consumptions s" and "\<And>k. spent_lots k s' = spent_lots k s"
  shows "books_kept s'"
  using assms by (simp add: books_kept_def)

lemma spent_cong: "ledger s' = ledger s \<Longrightarrow> spent_lots k s' = spent_lots k s"
  by (simp add: spent_lots_def)

lemma spent_insert:
  assumes "insert_lot e s = Inr s'" and "le_remaining e = le_initial e"
  shows "spent_lots k s' = spent_lots k s"
  using assms(2) by (simp add: spent_lots_def insert_lot_Inr(1) [OF assms(1)])

lemma spent_take:
  assumes "distinct (map le_id (ledger s))" and "find_lot (le_id e) s = Some e"
  shows "spent_lots k (upd_lot (le_id e) (set_remaining now (le_remaining e - a)) s) =
    spent_lots k s + (if k = le_user e then a else 0)"
  using ledger_tab.sum_update [OF assms(1), of "le_id e" e "\<lambda>e. le_initial e - le_remaining e"
      "\<lambda>e. le_user e = k" "set_remaining now (le_remaining e - a)"] assms(2)
  by (auto simp: spent_lots_def upd_lot_def find_lot_def)

lemma spent_apply:
  assumes "distinct (map le_id (ledger s))" and "plan_ok now uid ts s"
  shows "spent_lots k (apply_takes now ts s) = spent_lots k s + (if k = uid then sum_list (map snd ts) else 0)"
  using assms
proof (induction ts arbitrary: s)
  case Nil
  then show ?case by simp
next
  case (Cons t ts)
  obtain e a where t: "t = (e, a)" by (cases t)
  let ?s = "upd_lot (le_id e) (set_remaining now (le_remaining e - a)) s"
  have "spent_lots k (apply_takes now ts ?s) = spent_lots k ?s + (if k = uid then sum_list (map snd ts) else 0)"
    using Cons.prems by (intro Cons.IH) (auto simp: t plan_ok_step)
  moreover have "spent_lots k ?s = spent_lots k s + (if k = uid then a else 0)"
    using Cons.prems spent_take [of s e k now a] by (auto simp: t plan_ok_Cons spendable_def)
  ultimately show ?case by (simp add: t)
qed

lemma apply_takes_seq [simp]: "txn_seq (apply_takes now ts s) = txn_seq s"
  by (induction now ts s rule: apply_takes.induct) (simp_all add: upd_lot_def)

section \<open>The operations\<close>

lemma add_books:
  assumes "addCreditsToLedgerWithClient now js p s = Inr ((u, t, lot), s')" and "books_kept s"
  shows "books_kept s'"
proof -
  from assms(1) obtain s1 s2 where a: "0 < ac_credits p"
    "ensureAccountRowWithClient now (ac_user p) (ac_email p) (ac_credits p) True s = Inr (u, s1)"
    "lot = new_lot now (expiration_of js p) p (fresh_id s1)" "insert_lot lot s1 = Inr s2"
    "t = grant_txn now p (u_credits u) lot (txn_seq s2)" "s' = insert_txn t s2" by (rule add_Inr)
  have s1: "ledger s1 = ledger s" "txn_seq s1 = txn_seq s"
    by (subst ensureAccountRow_frame [OF a(2)], simp)+
  have "spent_lots k s' = spent_lots k s" for k
    using spent_insert [OF a(4), of k] s1(1) by (simp add: a(3,6) spent_lots_def)
  moreover have "txn_seq s2 = txn_seq s" by (simp add: insert_lot_Inr(1) [OF a(4)] s1)
  moreover have "txn_seq s' = Suc (txn_seq s2)" by (simp add: a(6) insert_txn_def)
  ultimately show ?thesis
    using a(1) add_frame(5,6) [OF assms(1)]
    by (intro books_txn [OF assms(2), of s' t "[]"]) (auto simp: a(5) grant_txn_def deducted_def)
qed

lemma deduct_books:
  assumes "deductCreditsFromLedgerWithClient now p s = Inr ((u, t, cs), s')" and "ledger_ok s"
    and "books_kept s"
  shows "books_kept s'"
proof -
  from assms(1) have t: "t = deduct_txn now p (u_credits u) (txn_seq s)" and pos: "0 < dp_credits p"
    and cs: "cs = map (\<lambda>(e, a). consumption_row (tx_id t) e a)
      (takes (dp_credits p) (consumption_order now (dp_user p) s))"
    and s': "s' = consumptions_update (\<lambda>xs. xs @ cs)
      (apply_takes now (takes (dp_credits p) (consumption_order now (dp_user p) s))
        (insert_txn t (upd_user (dp_user p) (deduct_balance now (dp_credits p)) s)))"
    by (rule deduct_Inr; simp)+
  let ?ts = "takes (dp_credits p) (consumption_order now (dp_user p) s)"
  let ?s1 = "insert_txn t (upd_user (dp_user p) (deduct_balance now (dp_credits p)) s)"
  note d = deduct_effect [OF assms(1,2)]
  have ids: "distinct (map le_id (ledger s))" using assms(2) by (simp add: ledger_ok_def)
  have plan: "plan_ok now (dp_user p) ?ts ?s1"
    using plan_ok_takes [OF ids, of now "dp_user p" "dp_credits p"] by (simp add: plan_ok_def find_lot_def)
  have "sum_list (map cc_amount cs) = sum_list (map snd ?ts)"
    unfolding cs by (rule arg_cong [of _ _ sum_list]) (auto simp: consumption_row_def)
  then have "spent_lots k s' = spent_lots k s + (if k = dp_user p then dp_credits p else 0)" for k
    using spent_apply [OF _ plan, of k] ids d(3) by (simp add: s' spent_lots_def)
  moreover have "\<forall>c\<in>set cs. cc_transaction_id c = tx_id t" by (auto simp: cs consumption_row_def)
  moreover have "txn_seq s' = Suc (txn_seq s)" by (simp add: s' insert_txn_def upd_user_def)
  ultimately show ?thesis
    using pos d(3,6,7) by (intro books_txn [OF assms(3), of s' t cs]) (auto simp: t deduct_txn_def deducted_def)
qed

lemma adjust_txn:
  assumes "adjustCreditsWithClient now js uid amount s = Inr ((u, t), s')" and "amount < 0"
  shows "tx_user t = uid" and "tx_type t = Tx_adjustment" and "tx_id t = txn_seq s"
  using assms by (auto simp: adjustCreditsWithClient_def set_balance_def Let_def take_lots_takes upd_user_def
      split: if_splits option.splits)

lemma adjust_books:
  assumes "adjustCreditsWithClient now js uid amount s = Inr ((u, t), s')" and "ledger_ok s"
    and "books_kept s"
  shows "books_kept s'"
proof (cases "0 < amount")
  case True
  with assms(1) obtain lot where
    "addCreditsToLedgerWithClient now js (adjustment_params uid amount) s = Inr ((u, t, lot), s')"
    by (rule adjust_positive_Inr)
  then show ?thesis using assms(3) by (rule add_books)
next
  case False
  with adjust_nonzero [OF assms(1)] have neg: "amount < 0" by simp
  with assms(1) obtain v ts where ts: "ts = takes (- amount) (consumption_order now uid s)" "sum_list (map snd ts) = - amount"
    and s': "s' = insert_txn t (apply_takes now ts
      (upd_user uid (\<lambda>v. v\<lparr>u_credits := u_credits v + amount, u_updated_at := now\<rparr>) s))"
    and t: "tx_amount t = amount" by (rule adjust_negative_Inr)
  let ?s1 = "upd_user uid (\<lambda>v. v\<lparr>u_credits := u_credits v + amount, u_updated_at := now\<rparr>) s"
  have ids: "distinct (map le_id (ledger s))" using assms(2) by (simp add: ledger_ok_def)
  have plan: "plan_ok now uid ts ?s1"
    using plan_ok_takes [OF ids, of now uid "- amount"] by (simp add: plan_ok_def find_lot_def ts(1))
  have "spent_lots k s' = spent_lots k s + (if k = uid then - amount else 0)" for k
    using spent_apply [OF _ plan, of k] ids by (simp add: s' ts(2) spent_lots_def)
  moreover have "txn_seq s' = Suc (txn_seq s)" by (simp add: s' insert_txn_def upd_user_def)
  moreover have "txns s' = txns s @ [t]" "consumptions s' = consumptions s" by (simp_all add: s')
  ultimately show ?thesis
    using neg t adjust_txn [OF assms(1) neg]
    by (intro books_txn [OF assms(3), of s' t "[]"]) (auto simp: deducted_def)
qed

lemma return_lots_spent:
  assumes "return_lots now l uid fc d rows r0 u0 s = Inr (r, s')"
  shows "spent_lots k s' = spent_lots k s \<and> txn_seq s' = txn_seq s"
  using assms
proof (induction rows arbitrary: r0 u0 s)
  case Nil
  then show ?case by simp
next
  case (Cons row rows)
  obtain a lot where row: "row = (a, lot)" by (cases row)
  show ?case
  proof (cases "returnable row")
    case False
    with Cons.prems have "return_lots now l uid fc d rows r0 u0 s = Inr (r, s')"
      by (auto simp: row returnable_def split: if_splits)
    then show ?thesis by (rule Cons.IH)
  next
    case True
    let ?e = "return_lot now l uid fc d (fresh_id s) a lot"
    from True Cons.prems obtain s1 where i: "insert_lot ?e s = Inr s1"
      and rest: "return_lots now l uid fc d rows (r0 + a)
        (if lot_expired now lot then u0 else u0 + a) s1 = Inr (r, s')"
      by (auto simp: row returnable_def bindE_Inr_iff split: if_splits)
    from Cons.IH [OF rest] spent_insert [OF i, of k] insert_lot_Inr(1) [OF i] show ?thesis by simp
  qed
qed

lemma return_books:
  assumes "returnConsumedCreditsForLetter now l uid fc cause s = Inr (n, s')" and "books_kept s"
  shows "books_kept s'"
  using assms(1)
proof (cases rule: return_Inr)
  case (returned s1)
  have s1: "books_kept s1"
    using return_lots_Inr(4,5) [OF returned(2)] return_lots_spent [OF returned(2)]
    by (intro books_same [OF assms(2)]) simp_all
  let ?d = "return_description cause l" and ?u = "usable_amount now (consumed_lots l uid s)"
  have "books_kept (credit_return now l uid ?d ?u s1)" if u: "0 < ?u"
  proof (cases "find_user uid (upd_user uid (\<lambda>u. u\<lparr>u_credits := u_credits u + ?u, u_updated_at := now\<rparr>) s1)")
    case None
    then show ?thesis
      by (intro books_same [OF s1]) (simp_all add: credit_return_def spent_lots_def, simp add: upd_user_def)
  next
    case (Some v)
    show ?thesis
      by (rule books_txn [OF s1, where cs = "[]"])
        (use Some u in \<open>simp_all add: credit_return_def Let_def spent_lots_def deducted_def\<close>,
          (simp add: upd_user_def insert_txn_def)+)
  qed
  then show ?thesis using returned(4) s1 by auto
qed (use assms(2) in simp_all)

lemma expire_books:
  assumes "books_kept s"
  shows "books_kept (snd (markExpiredEntries now s))"
proof (rule books_same [OF assms])
  have "filter (\<lambda>e. le_user e = k) (upd_where (expired_active now) (expire_lot now) es) =
    upd_where (expired_active now) (expire_lot now) (filter (\<lambda>e. le_user e = k) es)" for k es
    by (induction es) auto
  moreover have "sum_list (map (\<lambda>e. le_initial e - le_remaining e) (upd_where (expired_active now) (expire_lot now) es)) =
    sum_list (map (\<lambda>e. le_initial e - le_remaining e) es)" for es
    by (induction es) auto
  ultimately show "spent_lots k (snd (markExpiredEntries now s)) = spent_lots k s" for k
    by (simp add: spent_lots_def markExpired_eq)
qed (simp_all add: markExpired_eq)

lemma reconcile_books:
  assumes "books_kept s"
  shows "books_kept (snd (reconcileBalances now s))"
proof -
  have "txns (fold (fix_balance now) ms s) = txns s \<and> txn_seq (fold (fix_balance now) ms s) = txn_seq s \<and>
    consumptions (fold (fix_balance now) ms s) = consumptions s" for ms
    by (induction ms arbitrary: s) (simp_all add: fix_balance_def upd_user_def)
  then show ?thesis
    by (intro books_same [OF assms]) (simp_all add: reconcileBalances_def Let_def spent_lots_def)
qed

lemma open_books:
  assumes "createUser now uid em s = Inr (u, s')" and "books_kept s"
  shows "books_kept s'"
proof -
  from assms(1) have "s' = s \<or> s' = users_update (\<lambda>us. us @ [new_user now uid em 0 0]) s"
    by (auto simp: createUser_def Let_def split: option.splits if_splits)
  then show ?thesis by (auto intro!: books_same [OF assms(2)] simp: spent_lots_def assms(2))
qed

end
