(* ===== verification/LedgerProps.thy ===== *)
theory LedgerProps
  imports LedgerBooks
begin

text \<open>
  The ledger as a whole: its operations as a step relation over the clock and the store, the
  invariant of every reachable ledger, and the properties of each operation.
\<close>

section \<open>Runs of the ledger\<close>

text \<open>
  A step: time passes, an account is opened, or one of the services' operations commits.
  \<open>js\<close> is the server's clock, which may differ from the database's.
\<close>

inductive ledger_step :: "instant \<times> db \<Rightarrow> instant \<times> db \<Rightarrow> bool" where
  tick: "now \<le> now' \<Longrightarrow> ledger_step (now, s) (now', s)"
| opens: "createUser now uid em s = Inr (u, s') \<Longrightarrow> ledger_step (now, s) (now, s')"
| grants: "addCreditsToLedgerWithClient now js p s = Inr (r, s') \<Longrightarrow> ledger_step (now, s) (now, s')"
| deducts: "deductCreditsFromLedgerWithClient now d s = Inr (r, s') \<Longrightarrow> ledger_step (now, s) (now, s')"
| adjusts: "adjustCreditsWithClient now js uid n s = Inr (r, s') \<Longrightarrow> ledger_step (now, s) (now, s')"
| returns: "returnConsumedCreditsForLetter now l uid fc cause s = Inr (n, s') \<Longrightarrow>
    find_user uid s \<noteq> None \<Longrightarrow> ledger_step (now, s) (now, s')"
| expires: "ledger_step (now, s) (now, snd (markExpiredEntries now s))"
| reconciles: "ledger_step (now, s) (now, snd (reconcileBalances now s))"

inductive_cases ledger_stepE: "ledger_step c c'"

text \<open>The cached balance covers what the ledger will spend: expiry only lowers the latter.\<close>

definition cache_covers :: "instant \<Rightarrow> db \<Rightarrow> bool" where
  "cache_covers now s \<longleftrightarrow> (\<forall>k. getAvailableCredits now k s \<le> balance_of k s)"

definition ledger_inv :: "instant \<times> db \<Rightarrow> bool" where
  "ledger_inv c \<longleftrightarrow> ledger_ok (snd c) \<and> wf_users (snd c) \<and> cache_covers (fst c) (snd c) \<and> books_kept (snd c)"

lemma available_antimono:
  assumes "now \<le> now'"
  shows "getAvailableCredits now' k s \<le> getAvailableCredits now k s"
proof -
  have "filter (spendable now' k) es = filter (spendable now' k) (filter (spendable now k) es)" for es
    using assms by (induction es) (auto simp: spendable_def split: option.splits)
  then show ?thesis
    unfolding getAvailableCredits_def
    by (metis (no_types, lifting) sum_list_filter_le mem_Collect_eq set_filter less_imp_le spendable_def)
qed

lemma wf_reconcile:
  assumes "wf_users s"
  shows "wf_users (snd (reconcileBalances now s))"
proof -
  have step: "wf_users (fix_balance now m s)" if "wf_users s" "0 \<le> mm_actual m" for m s
    unfolding fix_balance_def by (rule wf_users_upd [OF that(1)]) (use that in simp_all)
  have "wf_users (fold (fix_balance now) ms s)" if "wf_users s" "\<forall>m\<in>set ms. 0 \<le> mm_actual m" for ms s
    using that by (induction ms arbitrary: s) (auto intro: step)
  with assms show ?thesis
    by (simp add: reconcileBalances_def Let_def) (auto simp: mismatches_def available_nonneg)
qed

lemma ledger_ok_reconcile:
  assumes "ledger_ok s"
  shows "ledger_ok (snd (reconcileBalances now s))"
proof (rule ledger_ok_cong [OF _ _ _ assms])
  let ?s = "fold (fix_balance now) (mismatches now s) s"
  have c: "consumptions (fold (fix_balance now) ms s) = consumptions s" for ms
    by (induction ms arbitrary: s) (simp_all add: fix_balance_def)
  show "ledger (snd (reconcileBalances now s)) = ledger s"
    "consumptions (snd (reconcileBalances now s)) = consumptions s"
    by (simp_all add: reconcileBalances_def Let_def c)
  have "u_id ` set (users ?s) = u_id ` set (users s)"
    by (metis fold_fix_ids list.set_map)
  then show "find_user k (snd (reconcileBalances now s)) \<noteq> None" if "find_user k s \<noteq> None" for k
    using that by (simp add: find_user_def reconcileBalances_def Let_def find_by_None_iff)
qed

lemma opens_keeps:
  assumes "createUser now uid em s = Inr (u, s')" and "ledger_inv (now, s)"
  shows "ledger_inv (now, s')"
proof -
  from assms(1) have s': "s' = s \<or> (find_user uid s = None \<and>
      s' = users_update (\<lambda>us. us @ [new_user now uid em 0 0]) s)"
    by (auto simp: createUser_def Let_def split: option.splits if_splits)
  have wf: "wf_users s'" using createUser_wf [OF assms(1)] assms(2) by (simp add: ledger_inv_def)
  have bal: "balance_of k s' = balance_of k s" for k
    using s' by (auto simp: balance_of_def find_user_append new_user_def split: option.splits if_splits)
  have look: "find_user k s \<noteq> None \<Longrightarrow> find_user k s' \<noteq> None" for k
    using s' by (auto simp: find_user_append split: option.split)
  have l: "ledger s' = ledger s" "consumptions s' = consumptions s" using s' by auto
  have "ledger_ok s'" by (rule ledger_ok_cong [OF l look]) (use assms(2) in \<open>simp_all add: ledger_inv_def\<close>)
  with wf bal l assms(2) open_books [OF assms(1)] show ?thesis
    by (simp add: ledger_inv_def cache_covers_def available_cong [of s' s])
qed

lemma grants_keeps:
  assumes "addCreditsToLedgerWithClient now js p s = Inr ((u, t, lot), s')" and "ledger_inv (now, s)"
  shows "ledger_inv (now, s')"
proof -
  have "0 < ac_credits p" by (rule add_Inr [OF assms(1)])
  moreover have "getAvailableCredits now k s \<le> balance_of k s" for k
    using assms(2) by (simp add: ledger_inv_def cache_covers_def)
  ultimately have "getAvailableCredits now k s' \<le> balance_of k s'" for k
    by (simp add: add_available [OF assms(1)] add_balance [OF assms(1)] add_increasing2)
  then show ?thesis
    using add_ledger_ok [OF assms(1)] add_wf_users [OF assms(1)] add_books [OF assms(1)] assms(2)
    by (simp add: ledger_inv_def cache_covers_def)
qed

lemma reconciles_keeps:
  assumes "ledger_inv (now, s)"
  shows "ledger_inv (now, snd (reconcileBalances now s))"
proof -
  let ?s = "snd (reconcileBalances now s)"
  have wf: "wf_users s" using assms by (simp add: ledger_inv_def)
  have fixed: "getAvailableCredits now k ?s \<le> balance_of k ?s" for k
  proof (cases "find_user k s")
    case None
    then have "getAvailableCredits now k s \<le> 0" "balance_of k s = 0"
      using assms by (auto simp: ledger_inv_def cache_covers_def balance_of_def dest: spec [of _ k])
    then show ?thesis
      using None by (simp add: reconcileBalances_def Let_def balance_of_def
          find_user_fix [OF mismatches_distinct [OF wf]] split: option.split)
  next
    case (Some u)
    then show ?thesis
      using mismatch_of [OF wf Some, of now]
      by (auto simp: reconcileBalances_def Let_def balance_of_def
          find_user_fix [OF mismatches_distinct [OF wf]] split: option.split)
  qed
  with assms wf_reconcile [OF wf] ledger_ok_reconcile reconcile_books show ?thesis
    by (simp add: ledger_inv_def cache_covers_def)
qed

lemma ledger_step_keeps: "ledger_step c c' \<Longrightarrow> ledger_inv c \<Longrightarrow> ledger_inv c'"
proof (induction rule: ledger_step.induct)
  case (tick now now' s)
  then show ?case
    using available_antimono [OF tick.hyps] by (auto simp: ledger_inv_def cache_covers_def intro: order_trans)
next
  case (opens now uid em s u s')
  then show ?case by (rule opens_keeps)
next
  case (grants now js p s r s')
  then show ?case by (cases r) (auto intro: grants_keeps)
next
  case (deducts now d s r s')
  obtain u t cs where r: "r = (u, t, cs)" by (cases r)
  note d = deduct_effect [OF deducts(1) [unfolded r]]
  from deducts(2) d(1,2,4,5) deduct_books [OF deducts(1) [unfolded r]] show ?case
    by (simp add: ledger_inv_def cache_covers_def)
next
  case (adjusts now js uid n s r s')
  obtain u t where r: "r = (u, t)" by (cases r)
  note a = adjust_effect [OF adjusts(1) [unfolded r]]
  from adjusts(2) a(1-4) adjust_books [OF adjusts(1) [unfolded r]] show ?case
    by (simp add: ledger_inv_def cache_covers_def)
next
  case (returns now l uid fc cause s n s')
  have "getAvailableCredits now k s' \<le> balance_of k s'" for k
    using return_effect(3) [OF returns(1) _ returns(2), of k] returns(3)
    by (auto simp: ledger_inv_def cache_covers_def dest: spec [of _ k])
  with return_effect(1,2) [OF returns(1) _ returns(2)] return_books [OF returns(1)] returns(3) show ?case
    by (simp add: ledger_inv_def cache_covers_def)
next
  case (expires now s)
  have "balance_of k (snd (markExpiredEntries now s)) = balance_of k s" for k
    by (simp add: balance_of_def find_user_def markExpired_eq)
  with expires show ?case
    by (simp add: ledger_inv_def cache_covers_def markExpired_available markExpired_ledger_ok expire_books,
        simp add: wf_users_def markExpired_eq)
next
  case (reconciles now s)
  then show ?case by (rule reconciles_keeps)
qed

interpretation ledger_run: kept_by_steps ledger_step ledger_inv
  by unfold_locales (rule ledger_step_keeps)

definition ledger_reachable :: "instant \<Rightarrow> db \<Rightarrow> bool" where
  "ledger_reachable now s \<longleftrightarrow> (\<exists>t0. rtranclp ledger_step (t0, empty_db) (now, s))"

lemma empty_ledger_inv: "ledger_inv (t0, empty_db)"
  using empty_books by (simp add: ledger_inv_def ledger_ok_def wf_users_def cache_covers_def empty_db_def
      getAvailableCredits_def balance_of_def find_user_def)

lemma reachable_inv: "ledger_reachable now s \<Longrightarrow> ledger_inv (now, s)"
  using ledger_run.run_keeps empty_ledger_inv by (auto simp: ledger_reachable_def)

section \<open>Properties\<close>

text \<open>
  C27: every store that the ledger's own operations reach keeps its books, whatever was granted,
  deducted, adjusted, returned, expired or reconciled before, in any order, with time passing in
  between. The rows account for each other to the credit: a transaction's consumptions add up
  to what it deducted, and to nothing for every other kind of transaction; every consumption
  belongs to a transaction and, by the lots' invariant, to a lot that is not consumed beyond what it
  was granted with; and what is gone from the lots of an account is what its transactions charged.
  No balance is negative, and the cached balance covers what the lots would spend at that
  moment. Reversing a whole pack for a refund is not one of these operations (it lowers the
  cached balance by the lot's remainder even when that has expired).
\<close>

theorem reachable_ledger_keeps_books:
  assumes "ledger_reachable now s"
  shows "distinct (map tx_id (txns s)) \<and>
    (\<forall>t\<in>set (txns s). consumed_by (tx_id t) (consumptions s) =
      (if tx_type t = Tx_deduction then - tx_amount t else 0)) \<and>
    (\<forall>c\<in>set (consumptions s). cc_transaction_id c \<in> tx_id ` set (txns s)) \<and>
    (\<forall>k. sum_list (map (\<lambda>e. le_initial e - le_remaining e) (filter (\<lambda>e. le_user e = k) (ledger s))) =
      sum_list (map (\<lambda>t. - tx_amount t) (filter (\<lambda>t. tx_user t = k \<and> tx_amount t < 0) (txns s)))) \<and>
    ledger_ok s \<and> wf_users s \<and>
    (\<forall>k. 0 \<le> getAvailableCredits now k s \<and> getAvailableCredits now k s \<le> balance_of k s)"
  using reachable_inv [OF assms] available_nonneg
  by (auto simp: ledger_inv_def cache_covers_def books_kept_def spent_lots_def charged_def deducted_def)

text \<open>
  C28: a deduction goes through exactly when it asks for a positive number of credits, the
  account exists, its spendable lots hold that many and its cached balance does too; when only the
  cached balance falls short, the CHECK of the balance refuses it. In a store that the
  ledger's own operations reached the cached balance never is what refuses: there the spendable lots
  alone decide. (After the reversal of an expired pack, which is not among those operations, it can be.)
\<close>

theorem deduct_succeeds_iff_covered:
  "(is_ok (deductCreditsFromLedgerWithClient now p s) \<longleftrightarrow>
      0 < dp_credits p \<and> find_user (dp_user p) s \<noteq> None \<and>
      dp_credits p \<le> getAvailableCredits now (dp_user p) s \<and> dp_credits p \<le> balance_of (dp_user p) s) \<and>
   (0 < dp_credits p \<and> find_user (dp_user p) s \<noteq> None \<and>
      dp_credits p \<le> getAvailableCredits now (dp_user p) s \<and> balance_of (dp_user p) s < dp_credits p \<longrightarrow>
      deductCreditsFromLedgerWithClient now p s = Inl (Check_violation ''users_credits_check'')) \<and>
   (ledger_reachable now s \<longrightarrow>
      is_ok (deductCreditsFromLedgerWithClient now p s) = (0 < dp_credits p \<and> find_user (dp_user p) s \<noteq> None \<and>
        dp_credits p \<le> getAvailableCredits now (dp_user p) s))"
proof (intro conjI impI)
  show iff: "is_ok (deductCreditsFromLedgerWithClient now p s) \<longleftrightarrow>
      0 < dp_credits p \<and> find_user (dp_user p) s \<noteq> None \<and>
      dp_credits p \<le> getAvailableCredits now (dp_user p) s \<and> dp_credits p \<le> balance_of (dp_user p) s"
    unfolding deduct_ok by (auto simp: balance_of_def)
  assume "ledger_reachable now s"
  then have "getAvailableCredits now (dp_user p) s \<le> balance_of (dp_user p) s"
    using reachable_inv [of now s] by (simp add: ledger_inv_def cache_covers_def)
  then show "is_ok (deductCreditsFromLedgerWithClient now p s) = (0 < dp_credits p \<and>
      find_user (dp_user p) s \<noteq> None \<and> dp_credits p \<le> getAvailableCredits now (dp_user p) s)"
    unfolding iff by auto
next
  assume "0 < dp_credits p \<and> find_user (dp_user p) s \<noteq> None \<and>
      dp_credits p \<le> getAvailableCredits now (dp_user p) s \<and> balance_of (dp_user p) s < dp_credits p"
  then show "deductCreditsFromLedgerWithClient now p s = Inl (Check_violation ''users_credits_check'')"
    by (auto simp: deductCreditsFromLedgerWithClient_def Let_def consumption_order_total set_balance_def
        balance_of_def)
qed

text \<open>
  A deduction takes exactly what was asked, from the account it names only: the spendable
  credits and the cached balance both fall by that amount, the consumptions recorded add up
  to it, one transaction with the negative amount and the new balance is written, and every
  other account keeps both.
\<close>

theorem deduct_takes_exactly:
  assumes "deductCreditsFromLedgerWithClient now p s = Inr ((u, t, cs), s')" and "ledger_ok s"
  shows "getAvailableCredits now k s' = getAvailableCredits now k s - (if k = dp_user p then dp_credits p else 0) \<and>
    balance_of k s' = balance_of k s - (if k = dp_user p then dp_credits p else 0) \<and>
    consumptions s' = consumptions s @ cs \<and> sum_list (map cc_amount cs) = dp_credits p \<and>
    txns s' = txns s @ [t] \<and> tx_amount t = - dp_credits p \<and> tx_balance_after t = balance_of (dp_user p) s' \<and>
    tx_reference_id t = Some (dp_letter p) \<and> list_all (\<lambda>c. cc_transaction_id c = tx_id t) cs"
proof -
  have "t = deduct_txn now p (u_credits u) (txn_seq s)" "list_all (\<lambda>c. cc_transaction_id c = tx_id t) cs"
    by (rule deduct_Inr [OF assms(1)]; auto simp: list_all_iff consumption_row_def)+
  then show ?thesis
    using deduct_effect [OF assms] by (simp add: deduct_txn_def balance_of_def)
qed

text \<open>
  C29: consumption is first-expiring first: the lots a deduction draws from are the first ones
  of the account's spendable lots in order of expiry (never last, older first among equals),
  each consumption is recorded against its lot with what the lot keeps, and every lot but
  the last is drained.
\<close>

theorem deduct_first_expiring_first:
  assumes "deductCreditsFromLedgerWithClient now p s = Inr ((u, t, cs), s')"
  shows "\<exists>order n. sorted (map fifo_key order) \<and> set order = {e \<in> set (ledger s). spendable now (dp_user p) e} \<and>
    map cc_ledger_id cs = map le_id (take n order) \<and> length cs = n \<and>
    (\<forall>i<n. cc_ledger_remaining_after (cs ! i) = le_remaining (order ! i) - cc_amount (cs ! i)) \<and>
    (\<forall>i. Suc i < n \<longrightarrow> cc_amount (cs ! i) = le_remaining (order ! i))"
proof -
  let ?o = "consumption_order now (dp_user p) s"
  let ?ts = "takes (dp_credits p) ?o"
  have cs: "cs = map (\<lambda>(e, a). consumption_row (tx_id t) e a) ?ts"
    by (rule deduct_Inr [OF assms])
  have pre: "map fst ?ts = take (length ?ts) ?o" by (rule takes_prefix)
  have nth: "fst (?ts ! i) = ?o ! i" if "i < length ?ts" for i
    using that pre by (metis length_map nth_map nth_take)
  have row: "cs ! i = consumption_row (tx_id t) (?o ! i) (snd (?ts ! i))" if "i < length ?ts" for i
    using that nth [OF that] by (simp add: cs split: prod.split) (metis fst_conv snd_conv)
  have ids: "map cc_ledger_id cs = map le_id (map fst ?ts)"
    by (auto simp: cs consumption_row_def)
  have drained: "snd (?ts ! i) = le_remaining (?o ! i)" if i: "Suc i < length ?ts" for i
  proof -
    have ne: "?ts \<noteq> []" using i by auto
    then have eq: "?ts = butlast ?ts @ [(fst (last ?ts), snd (last ?ts))]" by simp
    have "fst (last ?ts) \<in> set ?o"
      using ne last_in_set [OF ne] takes_mem by (metis prod.collapse)
    then have pos: "0 < le_remaining (fst (last ?ts))" by (simp add: consumption_order_set spendable_def)
    have "?ts ! i \<in> set (butlast ?ts)" using i by (auto simp: in_set_conv_nth nth_butlast intro!: exI [of _ i])
    then have "(fst (?ts ! i), snd (?ts ! i)) \<in> set (butlast ?ts)" by simp
    then have "snd (?ts ! i) = le_remaining (fst (?ts ! i))" by (rule takes_drain [OF pos eq])
    then show ?thesis using nth i by simp
  qed
  show ?thesis
    by (rule exI [of _ ?o], rule exI [of _ "length ?ts"])
      (use consumption_order_sorted consumption_order_set ids pre row drained in
        \<open>auto simp: cs consumption_row_def\<close>)
qed

text \<open>
  The two copies of the grant (the one that owns its transaction and the one inside its
  caller's) compute the same result for every input, the expiration included.
\<close>

theorem grant_copies_agree: "addCreditsToLedger = addCreditsToLedgerWithClient"
  by (simp add: fun_eq_iff addCreditsToLedger_def addCreditsToLedgerWithClient_def expiration_copies_agree)

text \<open>
  A purchase is granted at most once: after a purchase grant for an order, every later
  purchase grant that names the same order is refused, whoever asks and whatever ran in
  between that keeps the ledger's lots.
\<close>

theorem purchase_granted_once:
  assumes "addCreditsToLedgerWithClient now js p s = Inr (r, s1)" and "ac_source_type p = Src_purchase"
    and "\<And>e. e \<in> set (ledger s1) \<Longrightarrow> \<exists>e'\<in>set (ledger s2). le_source_type e' = le_source_type e \<and>
      le_source_order_id e' = le_source_order_id e"
    and "ac_source_type q = Src_purchase" and "ac_source_order_id q = ac_source_order_id p"
  shows "\<not> is_ok (addCreditsToLedgerWithClient now' js' q s2)"
proof
  assume "is_ok (addCreditsToLedgerWithClient now' js' q s2)"
  then obtain u t lot s3 where "addCreditsToLedgerWithClient now' js' q s2 = Inr ((u, t, lot), s3)"
    by (auto simp: is_ok_iff)
  then obtain sa sb where q: "lot = new_lot now' (expiration_of js' q) q (fresh_id sa)" "insert_lot lot sa = Inr sb"
    and e: "ensureAccountRowWithClient now' (ac_user q) (ac_email q) (ac_credits q) True s2 = Inr (u, sa)"
    by (rule add_Inr)
  have sa: "ledger sa = ledger s2" by (subst ensureAccountRow_frame [OF e]) simp
  obtain u' t' lot' where r: "r = (u', t', lot')" by (cases r)
  note one = assms(1) [unfolded r]
  have lot': "le_source_type lot' = Src_purchase" "le_source_order_id lot' = or_null_str (ac_source_order_id p)"
    by (rule add_Inr [OF one]; simp add: assms(2))+
  have "lot' \<in> set (ledger s1)" by (simp add: add_frame(4) [OF one])
  from assms(3) [OF this] obtain e' where "e' \<in> set (ledger s2)" "le_source_type e' = Src_purchase"
    "le_source_order_id e' = or_null_str (ac_source_order_id p)" by (auto simp: lot')
  with insert_lot_Inr(7) [OF q(2), of e'] q(1) sa assms(4,5) show False by simp
qed

text \<open>
  An operator's adjustment moves the spendable credits and the cached balance together,
  by exactly its amount and for that account only; a negative one goes through exactly when
  both the balance and the lots cover it, and a refusal changes nothing.
\<close>

theorem adjustment_moves_both:
  assumes "ledger_ok s"
  shows "(adjustCreditsWithClient now js uid n s = Inr ((u, t), s') \<longrightarrow>
      getAvailableCredits now k s' = getAvailableCredits now k s + (if k = uid then n else 0) \<and>
      balance_of k s' = balance_of k s + (if k = uid then n else 0)) \<and>
    (n < 0 \<longrightarrow> is_ok (adjustCreditsWithClient now js uid n s) = (find_user uid s \<noteq> None \<and>
      - n \<le> balance_of uid s \<and> - n \<le> getAvailableCredits now uid s))"
proof (intro conjI impI)
  assume r: "adjustCreditsWithClient now js uid n s = Inr ((u, t), s')"
  show "getAvailableCredits now k s' = getAvailableCredits now k s + (if k = uid then n else 0)"
    by (rule adjust_effect(1) [OF r assms])
  show "balance_of k s' = balance_of k s + (if k = uid then n else 0)"
    by (rule adjust_effect(2) [OF r assms])
next
  assume n: "n < 0"
  have rows: "consumption_order now uid (upd_user uid f s) = consumption_order now uid s" for f
    by (simp add: consumption_order_def)
  have sum: "sum_list (map snd (takes (- n) (consumption_order now uid s))) =
      min (- n) (getAvailableCredits now uid s)"
    using n by (subst sum_takes) (auto simp: consumption_order_set spendable_def consumption_order_total)
  show "is_ok (adjustCreditsWithClient now js uid n s) = (find_user uid s \<noteq> None \<and>
      - n \<le> balance_of uid s \<and> - n \<le> getAvailableCredits now uid s)"
    using n by (auto simp: adjustCreditsWithClient_def set_balance_def Let_def take_lots_takes rows sum
        balance_of_def min_def split: option.split)
qed

text \<open>
  A daily marking of expired lots changes no account's spendable credits, leaves no active
  lot behind that has run out while holding credits, and finds nothing when run again.
\<close>

theorem marking_expired_changes_no_balance:
  "getAvailableCredits now k (snd (markExpiredEntries now s)) = getAvailableCredits now k s \<and>
   filter (expired_active now) (ledger (snd (markExpiredEntries now s))) = [] \<and>
   markExpiredEntries now (snd (markExpiredEntries now s)) = (0, snd (markExpiredEntries now s))"
proof -
  let ?s = "snd (markExpiredEntries now s)"
  have "filter (expired_active now) (upd_where (expired_active now) (expire_lot now) es) = []" for es
    by (induction es) (auto simp: expired_active_def)
  then have none: "filter (expired_active now) (ledger ?s) = []" by (simp add: markExpired_eq)
  then have "upd_where (expired_active now) (expire_lot now) (ledger ?s) = ledger ?s"
    by (intro upd_where_none) (auto simp: filter_empty_conv)
  then have "snd (markExpiredEntries now ?s) = ?s" by (simp add: markExpired_eq [of now ?s])
  with none show ?thesis
    by (simp add: markExpired_available) (simp add: markExpiredEntries_def [of now ?s] prod_eq_iff)
qed

text \<open>
  C30: the credits of a failed or cancelled send come back exactly once, however often the
  return is attempted, with any other work in between that leaves its marker. Once the marker is
  there the attempts pay nothing. Otherwise, when they pay at all, one of them paid everything, and
  it paid what the letter's deductions took from lots not refunded in cash, as its
  store has them: the attempts before it paid nothing, it left the marker, and those after it
  paid nothing. When there was something to return, the first attempt is the one that pays.
\<close>

theorem credits_return_exactly_once:
  assumes "\<forall>g\<in>set gs. \<forall>s. hasReturnedCreditsForLetter l uid s \<longrightarrow> hasReturnedCreditsForLetter l uid (g s)"
    and "attempts_total (returnConsumedCreditsForLetter now l uid fc cause) gs s = Inr (n, s')"
  shows "(hasReturnedCreditsForLetter l uid s \<longrightarrow> n = 0) \<and>
    (n \<noteq> 0 \<longrightarrow> (\<exists>i<length gs. \<exists>t t'.
       attempts_total (returnConsumedCreditsForLetter now l uid fc cause) (take i gs) s = Inr (0, t) \<and>
       returnConsumedCreditsForLetter now l uid fc cause t = Inr (n, t') \<and>
       n = returned_amount (consumed_lots l uid t) \<and> hasReturnedCreditsForLetter l uid t' \<and>
       attempts_total (returnConsumedCreditsForLetter now l uid fc cause) (drop (Suc i) gs) ((gs ! i) t') = Inr (0, s'))) \<and>
    (gs \<noteq> [] \<and> \<not> hasReturnedCreditsForLetter l uid s \<and> returned_amount (consumed_lots l uid s) \<noteq> 0 \<longrightarrow>
       n = returned_amount (consumed_lots l uid s))"
proof (intro conjI impI)
  have keep: "hasReturnedCreditsForLetter l uid (g s)" if "g \<in> set gs" "hasReturnedCreditsForLetter l uid s" for g s
    using assms(1) that by blast
  show "n = 0" if "hasReturnedCreditsForLetter l uid s"
    by (rule credit_return.marked_pays_nothing [rotated, OF that assms(2)]) (rule keep)
  show "\<exists>i<length gs. \<exists>t t'.
      attempts_total (returnConsumedCreditsForLetter now l uid fc cause) (take i gs) s = Inr (0, t) \<and>
      returnConsumedCreditsForLetter now l uid fc cause t = Inr (n, t') \<and>
      n = returned_amount (consumed_lots l uid t) \<and> hasReturnedCreditsForLetter l uid t' \<and>
      attempts_total (returnConsumedCreditsForLetter now l uid fc cause) (drop (Suc i) gs) ((gs ! i) t') = Inr (0, s')"
    if n: "n \<noteq> 0"
  proof -
    obtain i t t' where i: "i < length gs"
      "attempts_total (returnConsumedCreditsForLetter now l uid fc cause) (take i gs) s = Inr (0, t)"
      "returnConsumedCreditsForLetter now l uid fc cause t = Inr (n, t')"
      "attempts_total (returnConsumedCreditsForLetter now l uid fc cause) (drop (Suc i) gs) ((gs ! i) t') = Inr (0, s')"
      using credit_return.paid_by_one [rotated, OF assms(2) n] keep by blast
    from return_amount [OF i(3) n] return_marks [OF i(3) n] i show ?thesis by blast
  qed
  assume first: "gs \<noteq> [] \<and> \<not> hasReturnedCreditsForLetter l uid s \<and> returned_amount (consumed_lots l uid s) \<noteq> 0"
  then obtain g hs where gs: "gs = g # hs" by (cases gs) auto
  with assms(2) obtain a s1 where a: "returnConsumedCreditsForLetter now l uid fc cause s = Inr (a, s1)"
    by (auto simp: bindE_Inr_iff)
  moreover have "a = returned_amount (consumed_lots l uid s)"
    using a by (cases rule: return_Inr) (use first in simp_all)
  moreover have "n = a" if "a \<noteq> 0"
    by (rule credit_return.first_pays [rotated, OF assms(2) [unfolded gs] a that]) (use keep gs in blast)
  ultimately show "n = returned_amount (consumed_lots l uid s)" using first by simp
qed

text \<open>
  what a return gives back mirrors what was taken: one new lot for every consumption of
  the letter's deduction whose lot was not refunded in cash, with the consumed amount and the
  lot's own expiry and reference, so the credit neither outlives the original nor escapes a
  later refund of its purchase; the spendable credits and the cached balance rise together,
  by no more than what is returned, and for that account only.
\<close>

theorem return_mirrors_consumption:
  assumes "returnConsumedCreditsForLetter now l uid fc cause s = Inr (n, s')"
    and "ledger_ok s" and "find_user uid s \<noteq> None" and "\<not> hasReturnedCreditsForLetter l uid s"
  shows "n = returned_amount (consumed_lots l uid s) \<and>
    (\<exists>new. ledger s' = ledger s @ new \<and>
      map (\<lambda>e. (le_initial e, le_expires_at e, le_source_reference_id e, le_related_ledger_id e)) new =
      map (\<lambda>(a, lot). (a, le_expires_at lot, le_source_reference_id lot, Some (le_id lot)))
        (filter returnable (consumed_lots l uid s))) \<and>
    getAvailableCredits now uid s' - getAvailableCredits now uid s = usable_amount now (consumed_lots l uid s) \<and>
    balance_of uid s' - balance_of uid s = usable_amount now (consumed_lots l uid s)"
  using assms(1)
proof (cases rule: return_Inr)
  case already
  with assms(4) show ?thesis by simp
next
  case nothing
  then show ?thesis by simp
next
  case (returned s1)
  have led: "ledger s' = ledger s1" by (simp add: returned(4))
  have "getAvailableCredits now uid s' - getAvailableCredits now uid s = usable_amount now (consumed_lots l uid s)"
    using return_lots_Inr(6) [OF returned(2), of uid] led by (simp add: getAvailableCredits_def)
  with return_effect(3) [OF assms(1-3), of uid] return_lots_Inr(7) [OF returned(2)] returned(3) led
  show ?thesis by auto
qed

section \<open>A concrete account\<close>

text \<open>
  Five credits bought at time 0 that end at 100, three promotional ones from time 1 that end
  at 50, and a send of four credits at time 2: it drains the promotional lot and takes one
  credit of the pack.
\<close>

definition demo_grant :: "credit_source_type \<Rightarrow> string \<Rightarrow> int \<Rightarrow> instant \<Rightarrow> add_credits_params" where
  "demo_grant src oid n ends = \<lparr> ac_user = ''u'', ac_email = Some ''u@x.io'', ac_credits = n,
     ac_source_type = src, ac_source_reference_id = None, ac_source_order_id = Some oid,
     ac_source_metadata = None, ac_expiration_policy = None, ac_expires_at = Some ends,
     ac_expiration_days = None, ac_description = None \<rparr>"

definition demo_send :: deduct_params where
  "demo_send = \<lparr> dp_user = ''u'', dp_credits = 4, dp_letter = ''letter-1'', dp_description = None \<rparr>"

definition demo_bought :: db where
  "demo_bought = committed empty_db
     (addCreditsToLedgerWithClient 0 0 (demo_grant Src_purchase ''o1'' 5 100) empty_db)"

definition demo_funded :: db where
  "demo_funded = committed demo_bought
     (addCreditsToLedgerWithClient 1 1 (demo_grant Src_promo [] 3 50) demo_bought)"

definition demo_sent :: db where
  "demo_sent = committed demo_funded (deductCreditsFromLedgerWithClient 2 demo_send demo_funded)"

lemma demo_bought_ok:
  "is_ok (addCreditsToLedgerWithClient 0 0 (demo_grant Src_purchase ''o1'' 5 100) empty_db)"
  by code_simp
lemma demo_funded_ok:
  "is_ok (addCreditsToLedgerWithClient 1 1 (demo_grant Src_promo [] 3 50) demo_bought)"
  by code_simp
lemma demo_sent_ok:
  "is_ok (deductCreditsFromLedgerWithClient 2 demo_send demo_funded)"
  by code_simp

lemma demo_reachable: "ledger_reachable 1 demo_funded"
proof -
  obtain r1 where "addCreditsToLedgerWithClient 0 0 (demo_grant Src_purchase ''o1'' 5 100) empty_db = Inr (r1, demo_bought)"
    using demo_bought_ok unfolding demo_bought_def by (rule committed_ok)
  then have 1: "ledger_step (0, empty_db) (0, demo_bought)" by (rule ledger_step.grants)
  have 2: "ledger_step (0, demo_bought) (1, demo_bought)" by (rule ledger_step.tick) simp
  obtain r2 where "addCreditsToLedgerWithClient 1 1 (demo_grant Src_promo [] 3 50) demo_bought = Inr (r2, demo_funded)"
    using demo_funded_ok unfolding demo_funded_def by (rule committed_ok)
  then have 3: "ledger_step (1, demo_bought) (1, demo_funded)" by (rule ledger_step.grants)
  from 1 2 3 have "rtranclp ledger_step (0, empty_db) (1, demo_funded)"
    by (meson r_into_rtranclp rtranclp_trans)
  then show ?thesis by (auto simp: ledger_reachable_def)
qed

lemma demo_funded_books: "ledger_ok demo_funded" "wf_users demo_funded"
  using reachable_inv [OF demo_reachable] by (simp_all add: ledger_inv_def)

lemma demo_sent_run:
  obtains u t cs where "deductCreditsFromLedgerWithClient 2 demo_send demo_funded = Inr ((u, t, cs), demo_sent)"
proof -
  obtain r where "deductCreditsFromLedgerWithClient 2 demo_send demo_funded = Inr (r, demo_sent)"
    using demo_sent_ok unfolding demo_sent_def by (rule committed_ok)
  with that show ?thesis by (cases r) auto
qed

lemma demo_sent_books: "ledger_ok demo_sent" "find_user ''u'' demo_sent \<noteq> None"
proof -
  obtain u t cs where r: "deductCreditsFromLedgerWithClient 2 demo_send demo_funded = Inr ((u, t, cs), demo_sent)"
    by (rule demo_sent_run)
  show "ledger_ok demo_sent" by (rule deduct_effect(4) [OF r demo_funded_books(1)])
  show "find_user ''u'' demo_sent \<noteq> None"
    using deduct_effect(8) [OF r demo_funded_books(1)] by (simp add: demo_send_def)
qed

section \<open>Witnesses\<close>

lemma demo_sent_reachable: "ledger_reachable 2 demo_sent"
proof -
  obtain u t cs where "deductCreditsFromLedgerWithClient 2 demo_send demo_funded = Inr ((u, t, cs), demo_sent)"
    by (rule demo_sent_run)
  then have 2: "ledger_step (2, demo_funded) (2, demo_sent)" by (rule ledger_step.deducts)
  have 1: "ledger_step (1, demo_funded) (2, demo_funded)" by (rule ledger_step.tick) simp
  from demo_reachable obtain t0 where "rtranclp ledger_step (t0, empty_db) (1, demo_funded)"
    by (auto simp: ledger_reachable_def)
  with 1 2 show ?thesis unfolding ledger_reachable_def by (meson rtranclp.rtrancl_into_rtrancl)
qed

text \<open>The books of the account after its send: four credits, charged once and taken from two lots.\<close>

lemma reachable_ledger_keeps_books_witness:
  "ledger_ok demo_sent \<and> balance_of ''u'' demo_sent = 4 \<and> getAvailableCredits 2 ''u'' demo_sent \<le> 4 \<and>
   tx_type (last (txns demo_sent)) = Tx_deduction \<and>
   consumed_by (tx_id (last (txns demo_sent))) (consumptions demo_sent) = 4 \<and>
   sum_list (map (\<lambda>e. le_initial e - le_remaining e) (filter (\<lambda>e. le_user e = ''u'') (ledger demo_sent))) = 4"
proof -
  have v: "balance_of ''u'' demo_sent = 4" "tx_type (last (txns demo_sent)) = Tx_deduction" "tx_amount (last (txns demo_sent)) = - 4"
    "sum_list (map (\<lambda>t. - tx_amount t) (filter (\<lambda>t. tx_user t = ''u'' \<and> tx_amount t < 0) (txns demo_sent))) = 4"
    "txns demo_sent \<noteq> []"
    by code_simp+
  then have last: "last (txns demo_sent) \<in> set (txns demo_sent)" by simp
  note b = reachable_ledger_keeps_books [OF demo_sent_reachable]
  from b have "ledger_ok demo_sent" by blast
  moreover from b have "getAvailableCredits 2 ''u'' demo_sent \<le> balance_of ''u'' demo_sent" by blast
  moreover from b last have "consumed_by (tx_id (last (txns demo_sent))) (consumptions demo_sent) =
      (if tx_type (last (txns demo_sent)) = Tx_deduction then - tx_amount (last (txns demo_sent)) else 0)"
    by (elim conjE) (erule bspec)
  moreover from b have "sum_list (map (\<lambda>e. le_initial e - le_remaining e) (filter (\<lambda>e. le_user e = ''u'') (ledger demo_sent))) =
      sum_list (map (\<lambda>t. - tx_amount t) (filter (\<lambda>t. tx_user t = ''u'' \<and> tx_amount t < 0) (txns demo_sent)))"
    by (elim conjE) (erule spec)
  ultimately show ?thesis using v by (intro conjI) simp_all
qed

text \<open>The same account with a cached balance of 2, below its spendable lots.\<close>

definition demo_short :: db where
  "demo_short = upd_user ''u'' (\<lambda>u. u\<lparr>u_credits := 2\<rparr>) demo_funded"

lemma deduct_succeeds_iff_covered_witness:
  "is_ok (deductCreditsFromLedgerWithClient 1 demo_send demo_funded) \<and>
   \<not> is_ok (deductCreditsFromLedgerWithClient 1 (demo_send\<lparr>dp_credits := 9\<rparr>) demo_funded) \<and>
   deductCreditsFromLedgerWithClient 1 demo_send demo_short = Inl (Check_violation ''users_credits_check'')"
proof -
  have f: "find_user ''u'' demo_funded \<noteq> None" "getAvailableCredits 1 ''u'' demo_funded = 8" by code_simp+
  have "find_user ''u'' demo_short \<noteq> None" "getAvailableCredits 1 ''u'' demo_short = 8"
    "balance_of ''u'' demo_short = 2" by code_simp+
  then have "deductCreditsFromLedgerWithClient 1 demo_send demo_short = Inl (Check_violation ''users_credits_check'')"
    using deduct_succeeds_iff_covered [of 1 demo_send demo_short] by (simp add: demo_send_def)
  moreover note covered = deduct_succeeds_iff_covered [THEN conjunct2, THEN conjunct2, rule_format, OF demo_reachable]
  have "is_ok (deductCreditsFromLedgerWithClient 1 demo_send demo_funded)"
    unfolding covered by (simp add: f demo_send_def)
  moreover have "\<not> is_ok (deductCreditsFromLedgerWithClient 1 (demo_send\<lparr>dp_credits := 9\<rparr>) demo_funded)"
    unfolding covered by (simp add: f demo_send_def)
  ultimately show ?thesis by simp
qed

lemma deduct_takes_exactly_witness:
  "getAvailableCredits 2 ''u'' demo_sent = 4 \<and> balance_of ''u'' demo_sent = 4 \<and>
   sum_list (map cc_amount (consumptions demo_sent)) = 4"
proof -
  obtain u t cs where r: "deductCreditsFromLedgerWithClient 2 demo_send demo_funded = Inr ((u, t, cs), demo_sent)"
    by (rule demo_sent_run)
  have "getAvailableCredits 2 ''u'' demo_funded = 8" "balance_of ''u'' demo_funded = 8"
    "consumptions demo_funded = []" by code_simp+
  with deduct_takes_exactly [OF r demo_funded_books(1), of "''u''"] show ?thesis
    by (simp add: demo_send_def)
qed

lemma deduct_first_expiring_first_witness:
  "\<exists>order n. sorted (map fifo_key order) \<and> set order = {e \<in> set (ledger demo_funded). spendable 2 ''u'' e} \<and>
     map cc_ledger_id (consumptions demo_sent) = map le_id (take n order) \<and>
     map cc_amount (consumptions demo_sent) = [3, 1]"
proof -
  obtain u t cs where r: "deductCreditsFromLedgerWithClient 2 demo_send demo_funded = Inr ((u, t, cs), demo_sent)"
    by (rule demo_sent_run)
  have "consumptions demo_sent = cs"
    using deduct_effect(6) [OF r demo_funded_books(1)] by (simp, code_simp)
  moreover have "map cc_amount (consumptions demo_sent) = [3, 1]" by code_simp
  ultimately show ?thesis
    using deduct_first_expiring_first [OF r] by (simp add: demo_send_def) metis
qed

lemma purchase_granted_once_witness:
  "\<not> is_ok (addCreditsToLedgerWithClient 7 7 (demo_grant Src_purchase ''o1'' 5 200) demo_bought)"
proof -
  obtain r where "addCreditsToLedgerWithClient 0 0 (demo_grant Src_purchase ''o1'' 5 100) empty_db = Inr (r, demo_bought)"
    using demo_bought_ok unfolding demo_bought_def by (rule committed_ok)
  then show ?thesis
    by (rule purchase_granted_once) (auto simp: demo_grant_def)
qed

lemma adjustment_moves_both_witness:
  "is_ok (adjustCreditsWithClient 1 1 ''u'' (- 6) demo_funded) \<and>
   \<not> is_ok (adjustCreditsWithClient 1 1 ''u'' (- 9) demo_funded)"
proof -
  have "find_user ''u'' demo_funded \<noteq> None" "balance_of ''u'' demo_funded = 8"
    "getAvailableCredits 1 ''u'' demo_funded = 8" by code_simp+
  with adjustment_moves_both [OF demo_funded_books(1), of 1 1 "''u''"] show ?thesis by simp
qed

definition demo_returned :: db where
  "demo_returned = committed demo_sent
     (returnConsumedCreditsForLetter 60 ''letter-1'' ''u'' ''address_rejected'' None demo_sent)"

lemma demo_return: "returnConsumedCreditsForLetter 60 ''letter-1'' ''u'' ''address_rejected'' None demo_sent =
  Inr (4, demo_returned)"
proof -
  have "is_ok (returnConsumedCreditsForLetter 60 ''letter-1'' ''u'' ''address_rejected'' None demo_sent)"
    by code_simp
  then obtain n where r: "returnConsumedCreditsForLetter 60 ''letter-1'' ''u'' ''address_rejected'' None demo_sent =
    Inr (n, demo_returned)" unfolding demo_returned_def by (rule committed_ok)
  have "(case returnConsumedCreditsForLetter 60 ''letter-1'' ''u'' ''address_rejected'' None demo_sent of
      Inl _ \<Rightarrow> 0 | Inr (k, _) \<Rightarrow> k) = 4" by code_simp
  with r show ?thesis by simp
qed

lemma demo_not_returned: "\<not> hasReturnedCreditsForLetter ''letter-1'' ''u'' demo_sent"
  by code_simp

text \<open>Three attempts at the same return: the four credits of the send come back, once.\<close>

lemma credits_return_exactly_once_witness:
  "attempts_total (returnConsumedCreditsForLetter 60 ''letter-1'' ''u'' ''address_rejected'' None)
     [\<lambda>s. s, \<lambda>s. s, \<lambda>s. s] demo_sent = Inr (4, demo_returned) \<and>
   returned_amount (consumed_lots ''letter-1'' ''u'' demo_sent) = 4"
proof -
  let ?pay = "returnConsumedCreditsForLetter 60 ''letter-1'' ''u'' ''address_rejected'' None"
  have marked: "hasReturnedCreditsForLetter ''letter-1'' ''u'' demo_returned"
    by (rule return_marks [OF demo_return]) simp
  then have run: "attempts_total ?pay [\<lambda>s. s, \<lambda>s. s, \<lambda>s. s] demo_sent = Inr (4, demo_returned)"
    by (simp add: demo_return return_already)
  have amount: "returned_amount (consumed_lots ''letter-1'' ''u'' demo_sent) \<noteq> 0" by code_simp
  have "4 = returned_amount (consumed_lots ''letter-1'' ''u'' demo_sent)"
    using credits_return_exactly_once [OF _ run] demo_not_returned amount by simp
  with run show ?thesis by simp
qed

lemma return_mirrors_consumption_witness:
  "balance_of ''u'' demo_returned = 5 \<and> getAvailableCredits 60 ''u'' demo_returned = 5"
proof -
  have "usable_amount 60 (consumed_lots ''letter-1'' ''u'' demo_sent) = 1" "balance_of ''u'' demo_sent = 4"
    "getAvailableCredits 60 ''u'' demo_sent = 4" by code_simp+
  with return_mirrors_consumption [OF demo_return demo_sent_books demo_not_returned] show ?thesis by simp
qed

lemma reconcileBalances_repairs_witness:
  "cache_exact 60 (snd (reconcileBalances 60 demo_funded)) \<and>
   fst (reconcileBalances 60 demo_funded) =
     (1, 1, [\<lparr> mm_user = ''u'', mm_cached = 8, mm_actual = 5 \<rparr>])"
proof -
  have "length (users demo_funded) = 1"
    "mismatches 60 demo_funded = [\<lparr> mm_user = ''u'', mm_cached = 8, mm_actual = 5 \<rparr>]" by code_simp+
  with reconcileBalances_repairs [OF demo_funded_books(2), of 60] show ?thesis by simp
qed

end
