(* ===== verification/GiftCodes.thy ===== *)
theory GiftCodes
  imports EnvSettings
begin

text \<open>
  Chain codes (src/services/giftCodes.ts): generating, reading and printing the eight
  characters of a gift code, and the address a person redeems with.
\<close>

section \<open>Codes\<close>

definition gift_code_alphabet :: string where
  "gift_code_alphabet = ''0123456789ABCDEFGHJKMNPQRSTVWXYZ''"

definition gift_code_length :: nat where "gift_code_length = 8"

text \<open>\<open>/^[0-9A-HJKMNP-TV-Z]{8}$/\<close>\<close>

definition code_char :: "char \<Rightarrow> bool" where
  "code_char c = (let n = char_code c in
     (48 \<le> n \<and> n \<le> 57) \<or> (65 \<le> n \<and> n \<le> 72) \<or> n = 74 \<or> n = 75 \<or> n = 77 \<or> n = 78 \<or>
     (80 \<le> n \<and> n \<le> 84) \<or> (86 \<le> n \<and> n \<le> 90))"

definition isCanonicalGiftCode :: "string \<Rightarrow> bool" where
  "isCanonicalGiftCode code \<longleftrightarrow> length code = 8 \<and> list_all code_char code"

text \<open>The source of randomness: the i-th draw below the given bound.\<close>

definition generateGiftCode :: "(nat \<Rightarrow> nat \<Rightarrow> nat) \<Rightarrow> string" where
  "generateGiftCode random =
     map (\<lambda>i. gift_code_alphabet ! random i (length gift_code_alphabet)) [0 ..< gift_code_length]"

definition lookalike :: "char \<Rightarrow> char" where
  "lookalike c = (if c = CHR ''O'' then CHR ''0''
     else if c = CHR ''I'' \<or> c = CHR ''L'' then CHR ''1'' else c)"

definition compact_code :: "string \<Rightarrow> string" where
  "compact_code raw = map lookalike
     (filter (\<lambda>c. \<not> (js_space c \<or> c = CHR ''-'')) (upper_str (js_trim raw)))"

definition normalizeGiftCode :: "string \<Rightarrow> string option" where
  "normalizeGiftCode raw =
     (let compact = compact_code raw in if isCanonicalGiftCode compact then Some compact else None)"

definition formatGiftCode :: "string \<Rightarrow> string" where
  "formatGiftCode code = take 4 code @ ''-'' @ drop 4 code"

section \<open>The redeeming address\<close>

text \<open>\<open>lastIndexOf\<close> and \<open>indexOf\<close> of a character; None is -1.\<close>

fun last_index :: "char \<Rightarrow> string \<Rightarrow> nat option" where
  "last_index c [] = None"
| "last_index c (x # xs) = (case last_index c xs of Some i \<Rightarrow> Some (Suc i)
     | None \<Rightarrow> if x = c then Some 0 else None)"

definition normalizeEmail :: "string option \<Rightarrow> string option" where
  "normalizeEmail raw_opt =
     (case raw_opt of None \<Rightarrow> None | Some raw \<Rightarrow>
        if raw = [] then None
        else let email = lower_str (js_trim raw) in
          (case last_index (CHR ''@'') email of
             None \<Rightarrow> None
           | Some p \<Rightarrow>
               if p = 0 \<or> p = length email - 1 then None
               else let local0 = take p email;
                        domain0 = drop (Suc p) email;
                        local1 = takeWhile (\<lambda>c. c \<noteq> CHR ''+'') local0;
                        domain = (if domain0 = ''googlemail.com'' then ''gmail.com'' else domain0);
                        local = (if domain = ''gmail.com'' then filter (\<lambda>c. c \<noteq> CHR ''.'') local1 else local1)
                    in if local = [] then None else Some (local @ ''@'' @ domain)))"

section \<open>Laws of codes\<close>

lemma all_codes: "(\<forall>c. P (char_code c)) \<longleftrightarrow> (\<forall>n<256. P n)"
proof -
  have "\<exists>c. char_code c = n" if "n < 256" for n
    using that by (intro exI [of _ "char_of n"]) (simp add: char_code_def)
  moreover have "char_code c < 256" for c
    by (simp add: char_code_def)
  ultimately show ?thesis by metis
qed

lemma char_code_eq [simp]: "char_code c = char_code d \<longleftrightarrow> c = d"
  by (simp add: char_code_def)

lemma code_char_upper: "code_char c \<Longrightarrow> upper_char c = c"
  by (auto simp: code_char_def upper_char_def Let_def)

lemma code_char_lookalike: "code_char c \<Longrightarrow> lookalike c = c"
  by (auto simp: code_char_def lookalike_def Let_def char_code_def)

lemma code_char_kept: "code_char c \<Longrightarrow> \<not> js_space c \<and> c \<noteq> CHR ''-''"
  by (auto simp: code_char_def js_space_def Let_def char_code_def)

lemma trim_kept:
  assumes "list_all (\<lambda>c. \<not> js_space c) t"
  shows "js_trim t = t"
proof -
  have dw: "dropWhile js_space xs = xs" if "list_all (\<lambda>c. \<not> js_space c) xs" for xs
    using that by (cases xs) auto
  have "list_all (\<lambda>c. \<not> js_space c) (rev t)" using assms by (simp add: list_all_iff)
  with assms show ?thesis by (simp add: js_trim_def dw)
qed

lemma compact_chars:
  assumes "list_all (\<lambda>c. code_char c \<or> c = CHR ''-'') t"
  shows "compact_code t = filter (\<lambda>c. c \<noteq> CHR ''-'') t"
proof -
  have up: "upper_char (CHR ''-'') = CHR ''-''" "\<not> js_space (CHR ''-'')"
    by (simp_all add: upper_char_def js_space_def char_code_def)
  have "list_all (\<lambda>c. \<not> js_space c) t"
    using assms code_char_kept up(2) by (auto simp: list_all_iff)
  then have "js_trim t = t" by (rule trim_kept)
  moreover have "map lookalike (filter (\<lambda>c. \<not> (js_space c \<or> c = CHR ''-'')) (upper_str t)) =
      filter (\<lambda>c. c \<noteq> CHR ''-'') t"
    using assms
  proof (induction t)
    case Nil
    then show ?case by (simp add: upper_str_def)
  next
    case (Cons c t)
    then show ?case
      using up code_char_upper [of c] code_char_kept [of c] code_char_lookalike [of c]
      by (auto simp: upper_str_def)
  qed
  ultimately show ?thesis by (simp add: compact_code_def)
qed

lemma code_chars_no_dash: "list_all code_char t \<Longrightarrow> filter (\<lambda>c. c \<noteq> CHR ''-'') t = t"
  using code_char_kept by (auto simp: list_all_iff filter_id_conv)

lemma normalize_canonical: "isCanonicalGiftCode c \<Longrightarrow> normalizeGiftCode c = Some c"
  using compact_chars [of c] code_chars_no_dash [of c]
  by (simp add: normalizeGiftCode_def isCanonicalGiftCode_def list_all_iff)

lemma normalize_format:
  assumes "isCanonicalGiftCode c"
  shows "normalizeGiftCode (formatGiftCode c) = Some c"
proof -
  have c: "list_all code_char c" using assms by (simp add: isCanonicalGiftCode_def)
  then have t: "list_all code_char (take 4 c)" and d: "list_all code_char (drop 4 c)"
    by (auto simp: list_all_iff dest: in_set_takeD in_set_dropD)
  have "list_all (\<lambda>x. code_char x \<or> x = CHR ''-'') (formatGiftCode c)"
    using t d by (auto simp: formatGiftCode_def list_all_iff)
  then have "compact_code (formatGiftCode c) = c"
    using code_chars_no_dash [OF t] code_chars_no_dash [OF d]
    by (simp add: compact_chars formatGiftCode_def)
  with assms show ?thesis by (simp add: normalizeGiftCode_def)
qed

lemma generated_canonical:
  assumes "\<And>i n. 0 < n \<Longrightarrow> random i n < n"
  shows "isCanonicalGiftCode (generateGiftCode random)"
proof -
  have "list_all code_char gift_code_alphabet" by code_simp
  moreover have "gift_code_alphabet ! random i (length gift_code_alphabet) \<in> set gift_code_alphabet" for i
    using assms by (intro nth_mem) (simp add: gift_code_alphabet_def)
  ultimately show ?thesis
    by (auto simp: isCanonicalGiftCode_def generateGiftCode_def gift_code_length_def list_all_iff)
qed

text \<open>
  a code on paper reads back: every generated code is canonical, the canonical form and
  the printed form with its hyphen both normalise to the code itself, whatever normalises at
  all normalises to a canonical code, and reading a normalised code again changes nothing.
\<close>

theorem gift_code_roundtrip:
  "((\<forall>i n. 0 < n \<longrightarrow> random i n < n) \<longrightarrow>
     normalizeGiftCode (formatGiftCode (generateGiftCode random)) = Some (generateGiftCode random)) \<and>
   (normalizeGiftCode raw = Some c \<longrightarrow> isCanonicalGiftCode c \<and> normalizeGiftCode c = Some c \<and>
     normalizeGiftCode (formatGiftCode c) = Some c)"
proof (intro conjI impI)
  assume "\<forall>i n. 0 < n \<longrightarrow> random i n < n"
  then show "normalizeGiftCode (formatGiftCode (generateGiftCode random)) = Some (generateGiftCode random)"
    by (intro normalize_format generated_canonical) simp
next
  assume "normalizeGiftCode raw = Some c"
  then have c: "isCanonicalGiftCode c" by (auto simp: normalizeGiftCode_def Let_def split: if_splits)
  then show "isCanonicalGiftCode c" "normalizeGiftCode c = Some c" "normalizeGiftCode (formatGiftCode c) = Some c"
    by (simp_all add: normalize_canonical normalize_format)
qed

lemma gift_code_roundtrip_witness:
  "normalizeGiftCode '' we1c-ome5 '' = Some ''WE1C0ME5'' \<and>
   normalizeGiftCode (formatGiftCode ''WE1C0ME5'') = Some ''WE1C0ME5'' \<and>
   normalizeGiftCode (formatGiftCode (generateGiftCode (\<lambda>i n. i mod n))) = Some ''01234567''"
proof -
  have n: "normalizeGiftCode '' we1c-ome5 '' = Some ''WE1C0ME5''" by code_simp
  have "generateGiftCode (\<lambda>i n. i mod n) = ''01234567''" by code_simp
  with gift_code_roundtrip [of "\<lambda>i n. i mod n" "'' we1c-ome5 ''" "''WE1C0ME5''"] n
  show ?thesis by simp
qed

section \<open>Laws of addresses\<close>

lemma last_index_split:
  "last_index c t = Some p \<Longrightarrow> t = take p t @ c # drop (Suc p) t \<and> c \<notin> set (drop (Suc p) t) \<and> p < length t"
proof (induction t arbitrary: p)
  case Nil
  then show ?case by simp
next
  case (Cons x t)
  have none: "last_index c t = None \<Longrightarrow> c \<notin> set t" for t by (induction t) (auto split: option.splits if_splits)
  from Cons show ?case by (auto split: option.splits if_splits dest: none)
qed

lemma last_index_append: "c \<notin> set ys \<Longrightarrow> last_index c (xs @ c # ys) = Some (length xs)"
proof (induction xs)
  case Nil
  have "c \<notin> set ys \<Longrightarrow> last_index c ys = None" by (induction ys) auto
  with Nil show ?case by simp
next
  case (Cons x xs)
  then show ?case by simp
qed

lemma lower_char_code: "char_code (lower_char c) =
    (if 65 \<le> char_code c \<and> char_code c \<le> 90 then char_code c + 32 else char_code c)"
  by (simp add: lower_char_def char_code_def)

lemma lower_char_idem [simp]: "lower_char (lower_char c) = lower_char c"
  by (subst char_code_eq [symmetric]) (simp add: lower_char_code)

lemma lower_str_idem [simp]: "lower_str (lower_str t) = lower_str t"
  by (simp add: lower_str_def)

lemma lower_char_eq:
  assumes "char_code d < 65"
  shows "lower_char c = d \<longleftrightarrow> c = d"
  using assms by (subst (1 2) char_code_eq [symmetric]) (auto simp: lower_char_code)

lemma lower_at: "lower_char c = CHR ''@'' \<longleftrightarrow> c = CHR ''@''"
  by (rule lower_char_eq) (simp add: char_code_def)

lemma lower_plus: "lower_char c = CHR ''+'' \<longleftrightarrow> c = CHR ''+''"
  by (rule lower_char_eq) (simp add: char_code_def)

lemma lower_at_char [simp]: "lower_char (CHR ''@'') = CHR ''@''" "lower_char (CHR ''+'') = CHR ''+''"
  by (simp_all add: lower_at lower_plus)

lemma at_in_lower: "CHR ''@'' \<in> set (lower_str t) \<longleftrightarrow> CHR ''@'' \<in> set t"
  unfolding lower_str_def using lower_at by (metis (no_types, lifting) image_iff list.set_map)

text \<open>The mailbox and the domain a person redeems with.\<close>

definition address_parts :: "string \<Rightarrow> string \<Rightarrow> string option" where
  "address_parts local0 domain0 =
     (let local1 = takeWhile (\<lambda>c. c \<noteq> CHR ''+'') local0;
          domain = (if domain0 = ''googlemail.com'' then ''gmail.com'' else domain0);
          local = (if domain = ''gmail.com'' then filter (\<lambda>c. c \<noteq> CHR ''.'') local1 else local1)
      in if local = [] then None else Some (local @ ''@'' @ domain))"

lemma address_parts_fixed:
  assumes "CHR ''+'' \<notin> set l" and "d \<noteq> ''googlemail.com''" and "d = ''gmail.com'' \<longrightarrow> CHR ''.'' \<notin> set l"
    and "l \<noteq> []"
  shows "address_parts l d = Some (l @ ''@'' @ d)"
proof -
  have tw: "takeWhile (\<lambda>c. c \<noteq> CHR ''+'') l = l" using assms(1) by (auto simp: takeWhile_eq_all_conv)
  have fl: "CHR ''.'' \<notin> set l \<Longrightarrow> filter (\<lambda>c. c \<noteq> CHR ''.'') l = l" by (auto simp: filter_id_conv)
  show ?thesis using assms(2-4) fl by (simp add: address_parts_def Let_def tw)
qed

definition spaceless :: "string \<Rightarrow> bool" where
  "spaceless t = list_all (\<lambda>c. \<not> js_space c) t"

lemma normalizeEmail_parts:
  assumes "spaceless l" and "spaceless d" and "l \<noteq> []" and "d \<noteq> []" and "CHR ''@'' \<notin> set d"
  shows "normalizeEmail (Some (l @ ''@'' @ d)) = address_parts (lower_str l) (lower_str d)"
proof -
  have "\<not> js_space (CHR ''@'')" by (simp add: js_space_def char_code_def)
  with assms(1,2) have "js_trim (l @ ''@'' @ d) = l @ ''@'' @ d"
    by (intro trim_kept) (auto simp: spaceless_def)
  then have e: "lower_str (js_trim (l @ ''@'' @ d)) = lower_str l @ CHR ''@'' # lower_str d"
    by (simp add: lower_str_def)
  have "last_index (CHR ''@'') (lower_str l @ CHR ''@'' # lower_str d) = Some (length (lower_str l))"
    by (rule last_index_append) (use assms(5) at_in_lower in simp)
  moreover have "length (lower_str l) \<noteq> 0" "length (lower_str d) \<noteq> 0"
    using assms(3,4) by (simp_all add: lower_str_def)
  ultimately show ?thesis
    unfolding normalizeEmail_def address_parts_def using e assms(3) by (simp add: Let_def)
qed

lemma normalizeEmail_split:
  assumes "normalizeEmail (Some raw) = Some e" and "spaceless raw"
  obtains l d where "raw = l @ ''@'' @ d" and "l \<noteq> []" and "d \<noteq> []" and "CHR ''@'' \<notin> set d"
    and "spaceless l" and "spaceless d"
proof -
  have "js_trim raw = raw" using assms(2) by (intro trim_kept) (simp add: spaceless_def)
  with assms(1) obtain p where p: "last_index (CHR ''@'') (lower_str raw) = Some p" "p \<noteq> 0"
    "p \<noteq> length raw - 1"
    by (auto simp: normalizeEmail_def Let_def lower_str_def split: option.splits if_splits)
  note s = last_index_split [OF p(1)]
  have len: "p < length raw" using s by (simp add: lower_str_def)
  have d: "CHR ''@'' \<notin> set (drop (Suc p) raw)"
    using s at_in_lower [of "drop (Suc p) raw"] by (simp add: lower_str_def drop_map)
  have "lower_str raw ! p = CHR ''@''" using s by (metis nth_append_length length_take min.absorb4)
  then have "raw ! p = CHR ''@''" using len by (simp add: lower_str_def lower_at)
  then have raw: "raw = take p raw @ ''@'' @ drop (Suc p) raw"
    using len id_take_nth_drop [of p raw] by simp
  show ?thesis
  proof (rule that [OF raw])
    show "take p raw \<noteq> []" "drop (Suc p) raw \<noteq> []" using p(2,3) len by auto
    show "spaceless (take p raw)" "spaceless (drop (Suc p) raw)"
      using assms(2) by (auto simp: spaceless_def list_all_iff dest: in_set_takeD in_set_dropD)
  qed (rule d)
qed

text \<open>
  One person cannot pass as several: an address and the same address with any +tag
  normalise to the same identity, and an identity is its own normal form, whatever capitals,
  tags or Gmail dots the address carried.
\<close>

theorem normalizeEmail_one_identity:
  assumes "spaceless l" and "spaceless tag" and "spaceless d" and "CHR ''@'' \<notin> set d" and "d \<noteq> []" and "l \<noteq> []"
  shows "normalizeEmail (Some (l @ ''+'' @ tag @ ''@'' @ d)) = normalizeEmail (Some (l @ ''@'' @ d)) \<and>
    (\<forall>e. normalizeEmail (Some (l @ ''@'' @ d)) = Some e \<longrightarrow> normalizeEmail (Some e) = Some e)"
proof
  have sp: "spaceless (l @ ''+'' @ tag)"
    using assms(1,2) by (auto simp: spaceless_def js_space_def char_code_def)
  have tw: "takeWhile (\<lambda>c. c \<noteq> CHR ''+'') (lower_str (l @ ''+'' @ tag)) =
      takeWhile (\<lambda>c. c \<noteq> CHR ''+'') (lower_str l)"
    by (induction l) (simp_all add: lower_str_def)
  have "normalizeEmail (Some ((l @ ''+'' @ tag) @ ''@'' @ d)) = address_parts (lower_str (l @ ''+'' @ tag)) (lower_str d)"
    by (rule normalizeEmail_parts) (use assms sp in simp_all)
  also have "\<dots> = address_parts (lower_str l) (lower_str d)"
    unfolding address_parts_def tw by (rule refl)
  also have "\<dots> = normalizeEmail (Some (l @ ''@'' @ d))"
    by (rule normalizeEmail_parts [symmetric]) (use assms in simp_all)
  finally show "normalizeEmail (Some (l @ ''+'' @ tag @ ''@'' @ d)) = normalizeEmail (Some (l @ ''@'' @ d))"
    by simp
next
  let ?m = "takeWhile (\<lambda>c. c \<noteq> CHR ''+'') (lower_str l)"
  let ?d = "if lower_str d = ''googlemail.com'' then ''gmail.com'' else lower_str d"
  let ?l = "if ?d = ''gmail.com'' then filter (\<lambda>c. c \<noteq> CHR ''.'') ?m else ?m"
  show "\<forall>e. normalizeEmail (Some (l @ ''@'' @ d)) = Some e \<longrightarrow> normalizeEmail (Some e) = Some e"
  proof (intro allI impI)
    fix e assume "normalizeEmail (Some (l @ ''@'' @ d)) = Some e"
    then have ne: "?l \<noteq> []" and e: "e = ?l @ ''@'' @ ?d"
      using normalizeEmail_parts [OF assms(1,3,6,5,4)] by (auto simp: address_parts_def Let_def split: if_splits)
    have lsp: "spaceless (lower_str t)" if "spaceless t" for t
      using that by (auto simp: spaceless_def lower_str_def list_all_iff js_space_def lower_char_code split: if_splits)
    have fixed: "lower_char c = c" if "c \<in> set (lower_str l)" for c
      using that by (auto simp: lower_str_def)
    have sub: "set ?l \<subseteq> set (lower_str l)" by (auto dest: set_takeWhileD)
    have low: "lower_str ?l = ?l"
      unfolding lower_str_def by (rule map_idI) (use fixed sub in \<open>unfold lower_str_def, blast\<close>)
    have lowd: "lower_str ?d = ?d" by (simp, code_simp)
    have sl: "spaceless ?l"
      using lsp [OF assms(1)] by (auto simp: spaceless_def list_all_iff dest: set_takeWhileD)
    have sd: "spaceless ?d" using lsp [OF assms(3)] by (auto simp: spaceless_def js_space_def char_code_def)
    have dn: "?d \<noteq> []" using assms(5) by (simp add: lower_str_def)
    have da: "CHR ''@'' \<notin> set ?d" using assms(4) at_in_lower [of d] by simp
    have "normalizeEmail (Some e) = address_parts ?l ?d"
      unfolding e by (rule normalizeEmail_parts [OF sl sd ne dn da, unfolded low lowd])
    also have "\<dots> = Some (?l @ ''@'' @ ?d)"
    proof (rule address_parts_fixed [OF _ _ _ ne])
      show "CHR ''+'' \<notin> set ?l" by (auto dest: set_takeWhileD)
      show "?d \<noteq> ''googlemail.com''" by simp
      show "?d = ''gmail.com'' \<longrightarrow> CHR ''.'' \<notin> set ?l" by simp
    qed
    also have "\<dots> = Some e" by (simp only: e)
    finally show "normalizeEmail (Some e) = Some e" .
  qed
qed

lemma normalizeEmail_one_identity_witness:
  "normalizeEmail (Some ''J.Doe+gifts@GoogleMail.com'') = normalizeEmail (Some ''J.Doe@GoogleMail.com'') \<and>
   normalizeEmail (Some ''J.Doe@GoogleMail.com'') = Some ''jdoe@gmail.com''"
proof -
  have "spaceless ''J.Doe''" "spaceless ''gifts''" "spaceless ''GoogleMail.com''"
    "normalizeEmail (Some ''J.Doe@GoogleMail.com'') = Some ''jdoe@gmail.com''" by code_simp+
  with normalizeEmail_one_identity [of "''J.Doe''" "''gifts''" "''GoogleMail.com''"] show ?thesis by simp
qed

end
