(* ===== verification/Calendar.thy ===== *)
theory Calendar
  imports EnvSettings
begin

text \<open>
  The UTC calendar of JavaScript's Date, which the schedule and the gift cards read: the
  day number of a civil date, the civil date of a day number (ECMAScript's YearFromTime,
  MonthFromTime and DateFromTime), its weekday, and its ISO text. The two directions are
  proved inverse, and the order of ISO texts is proved to be the order of days, which is
  what the program compares.
\<close>

section \<open>Years\<close>

definition leap_year :: "int \<Rightarrow> bool" where
  "leap_year y \<longleftrightarrow> (y mod 4 = 0 \<and> y mod 100 \<noteq> 0) \<or> y mod 400 = 0"

definition day_from_year :: "int \<Rightarrow> int" where
  "day_from_year y = 365 * (y - 1970) + (y - 1969) div 4 - (y - 1901) div 100 + (y - 1601) div 400"

definition days_in_year :: "int \<Rightarrow> int" where
  "days_in_year y = (if leap_year y then 366 else 365)"

text \<open>The largest year that starts on or before a day: an estimate, moved by one if it is off.\<close>

definition year_from_day :: "int \<Rightarrow> int" where
  "year_from_day day =
     (let y = 1970 + (400 * day) div 146097
      in if day < day_from_year y then y - 1
         else if day_from_year (y + 1) \<le> day then y + 1 else y)"

lemma div_Suc_int:
  assumes "0 < (k::int)"
  shows "(a + 1) div k = a div k + (if k dvd a + 1 then 1 else 0)"
proof -
  have a: "a = k * (a div k) + a mod k" "0 \<le> a mod k" "a mod k < k" using assms by simp_all
  show ?thesis
  proof (cases "a mod k + 1 = k")
    case True
    have "k * (a div k + 1) = k * (a div k) + k" by (simp add: distrib_left)
    with a(1) True have eq: "a + 1 = k * (a div k + 1)" by linarith
    then have "(a + 1) div k = a div k + 1" using assms by simp
    moreover have "k dvd a + 1" unfolding eq by simp
    ultimately show ?thesis by simp
  next
    case False
    with a have "(a + 1) div k = a div k" by (intro int_div_pos_eq [of _ _ _ "a mod k + 1"]) auto
    moreover have "(a + 1) mod k = a mod k + 1"
      using False a by (intro int_mod_pos_eq [of _ _ "a div k"]) auto
    then have "\<not> k dvd a + 1" using a(2) by (simp add: dvd_eq_mod_eq_0)
    ultimately show ?thesis by simp
  qed
qed

lemma leap_year_dvd: "leap_year y \<longleftrightarrow> (4 dvd y \<and> \<not> 100 dvd y) \<or> 400 dvd y"
  by (simp add: leap_year_def dvd_eq_mod_eq_0)

lemma day_from_year_Suc: "day_from_year (y + 1) = day_from_year y + days_in_year y"
proof -
  have shift: "(4::int) dvd y - 1969 + 1 \<longleftrightarrow> 4 dvd y" "(100::int) dvd y - 1901 + 1 \<longleftrightarrow> 100 dvd y"
    "(400::int) dvd y - 1601 + 1 \<longleftrightarrow> 400 dvd y"
    using dvd_add_times_triv_right_iff [of 4 "y - 1969 + 1" 492]
      dvd_add_times_triv_right_iff [of 100 "y - 1901 + 1" 19]
      dvd_add_times_triv_right_iff [of 400 "y - 1601 + 1" 4] by simp_all
  have m: "(400::int) dvd y \<Longrightarrow> 100 dvd y" "(100::int) dvd y \<Longrightarrow> 4 dvd y"
    by (rule dvd_trans; simp)+
  have "day_from_year (y + 1) = 365 * (y + 1 - 1970) + (y - 1969 + 1) div 4 - (y - 1901 + 1) div 100 +
      (y - 1601 + 1) div 400"
    by (simp add: day_from_year_def algebra_simps)
  also have "\<dots> = day_from_year y + 365 + (if 4 dvd y then 1 else 0) - (if 100 dvd y then 1 else 0) +
      (if 400 dvd y then 1 else 0)"
    by (simp only: div_Suc_int shift zero_less_numeral) (simp add: day_from_year_def)
  also have "\<dots> = day_from_year y + days_in_year y"
    using m by (auto simp: days_in_year_def leap_year_dvd)
  finally show ?thesis .
qed

lemma day_from_year_mono: "y < y' \<Longrightarrow> day_from_year y + 365 \<le> day_from_year y'"
proof -
  have step: "day_from_year y + 365 * int n \<le> day_from_year (y + int n)" for n
  proof (induction n)
    case (Suc n)
    have "day_from_year (y + int (Suc n)) = day_from_year (y + int n) + days_in_year (y + int n)"
      using day_from_year_Suc [of "y + int n"] by (simp add: ac_simps)
    with Suc show ?case by (simp add: days_in_year_def)
  qed simp
  assume "y < y'"
  then have "y' = y + int (nat (y' - y))" "1 \<le> int (nat (y' - y))" by simp_all
  with step [of "nat (y' - y)"] show ?thesis by simp
qed

lemma day_from_year_mono_le: "y \<le> y' \<Longrightarrow> day_from_year y \<le> day_from_year y'"
  using day_from_year_mono [of y y'] by (cases "y = y'") auto

lemma div_bounds: "0 < k \<Longrightarrow> k * (n div k) \<le> n \<and> n < k * (n div k) + (k::int)"
  using pos_mod_bound [of k n] pos_mod_sign [of k n] mult_div_mod_eq [of k n] by linarith

lemma year_from_day_bounds:
  "day_from_year (year_from_day day) \<le> day \<and> day < day_from_year (year_from_day day + 1)"
proof -
  define q where "q = (400 * day) div 146097"
  have q: "146097 * q \<le> 400 * day" "400 * day < 146097 * q + 146097"
    using div_bounds [of 146097 "400 * day"] by (simp_all add: q_def)
  have est: "400 * day_from_year y \<le> 146097 * (y - 1970) + 800 \<and>
      146097 * (y - 1970) - 800 \<le> 400 * day_from_year y" for y
    using div_bounds [of 4 "y - 1969"] div_bounds [of 100 "y - 1901"] div_bounds [of 400 "y - 1601"]
    unfolding day_from_year_def by simp
  have lo: "day_from_year (1970 + q - 1) \<le> day" using est [of "1970 + q - 1"] q by simp
  have hi: "day < day_from_year (1970 + q + 2)" using est [of "1970 + q + 2"] q by simp
  have "1970 + q + 2 = 1970 + q + 1 + 1" by simp
  with lo hi show ?thesis
    unfolding year_from_day_def q_def [symmetric] Let_def by (auto simp: ac_simps)
qed

lemma year_from_day_unique:
  assumes "day_from_year y \<le> day" and "day < day_from_year (y + 1)"
  shows "year_from_day day = y"
proof -
  note b = year_from_day_bounds [of day]
  have "\<not> year_from_day day < y"
    using day_from_year_mono_le [of "year_from_day day + 1" y] assms b by linarith
  moreover have "\<not> y < year_from_day day"
    using day_from_year_mono_le [of "y + 1" "year_from_day day"] assms b by linarith
  ultimately show ?thesis by simp
qed

section \<open>Months and days\<close>

definition month_starts :: "bool \<Rightarrow> int list" where
  "month_starts leap =
     (if leap then [0, 31, 60, 91, 121, 152, 182, 213, 244, 274, 305, 335]
      else [0, 31, 59, 90, 120, 151, 181, 212, 243, 273, 304, 334])"

text \<open>\<open>setUTCFullYear(y, m, d)\<close> from midnight: the month counts from 0 and rolls over.\<close>

definition make_day :: "int \<Rightarrow> int \<Rightarrow> int \<Rightarrow> int" where
  "make_day y m d = (let ym = y + m div 12
     in day_from_year ym + month_starts (leap_year ym) ! nat (m mod 12) + d - 1)"

text \<open>Year, month (from 1) and day of the month.\<close>

definition civil_from_day :: "int \<Rightarrow> int \<times> int \<times> int" where
  "civil_from_day day =
     (let y = year_from_day day; doy = day - day_from_year y; ms = month_starts (leap_year y);
          m = length (filter (\<lambda>s. s \<le> doy) ms)
      in (y, int m, doy - ms ! (m - 1) + 1))"

text \<open>getUTCDay: 0 is Sunday.\<close>

definition utc_weekday :: "int \<Rightarrow> int" where
  "utc_weekday day = (day + 4) mod 7"

definition month_check :: "bool \<Rightarrow> int \<Rightarrow> bool" where
  "month_check leap doy =
     (let ms = month_starts leap; m = length (filter (\<lambda>s. s \<le> doy) ms); d = doy - ms ! (m - 1) + 1
      in 1 \<le> m \<and> m \<le> 12 \<and> 1 \<le> d \<and> d \<le> 31 \<and> ms ! nat ((int m - 1) mod 12) + d - 1 = doy \<and>
         (int m - 1) div 12 = 0 \<and> (m < 12 \<longrightarrow> doy < ms ! m))"

lemma month_check_all: "list_all (month_check leap) [0 .. (if leap then 365 else 364)]"
proof -
  have "list_all (month_check True) [0 .. 365]" "list_all (month_check False) [0 .. 364]" by code_simp+
  then show ?thesis by (cases leap) (simp_all only: if_True if_False)
qed

lemma month_check_doy: "0 \<le> doy \<Longrightarrow> doy < (if leap then 366 else 365) \<Longrightarrow> month_check leap doy"
  using month_check_all [of leap] by (auto simp: list_all_iff split: if_splits)

lemma doy_bounds:
  "0 \<le> day - day_from_year (year_from_day day) \<and>
   day - day_from_year (year_from_day day) < (if leap_year (year_from_day day) then 366 else 365)"
  using year_from_day_bounds [of day] day_from_year_Suc [of "year_from_day day"]
  by (simp add: days_in_year_def split: if_splits)

lemma civil_roundtrip:
  assumes "civil_from_day day = (y, m, d)"
  shows "make_day y (m - 1) d = day" and "1 \<le> m" and "m \<le> 12" and "1 \<le> d" and "d \<le> 31"
    and "y = year_from_day day"
proof -
  have c: "month_check (leap_year (year_from_day day)) (day - day_from_year (year_from_day day))"
    using doy_bounds [of day] by (intro month_check_doy) simp_all
  have eq: "year_from_day day = y" "m = int (length (filter (\<lambda>s. s \<le> day - day_from_year y) (month_starts (leap_year y))))"
    "d = day - day_from_year y - month_starts (leap_year y) ! (nat m - 1) + 1"
    using assms by (auto simp: civil_from_day_def Let_def)
  from c show "make_day y (m - 1) d = day" "1 \<le> m" "m \<le> 12" "1 \<le> d" "d \<le> 31"
    unfolding eq(1) month_check_def make_day_def Let_def by (simp_all add: eq(2,3))
  show "y = year_from_day day" using eq(1) by simp
qed

section \<open>ISO text\<close>

fun pad :: "nat \<Rightarrow> int \<Rightarrow> string" where
  "pad 0 n = []"
| "pad (Suc k) n = pad k (n div 10) @ [digit_char (nat (n mod 10))]"

text \<open>The date part of toISOString: four digits of year, or a sign and six.\<close>

definition iso_year :: "int \<Rightarrow> string" where
  "iso_year y = (if 0 \<le> y \<and> y \<le> 9999 then pad 4 y
     else (if y < 0 then ''-'' else ''+'') @ pad 6 \<bar>y\<bar>)"

definition iso_date :: "int \<Rightarrow> string" where
  "iso_date day = (case civil_from_day day of (y, m, d) \<Rightarrow>
     iso_year y @ ''-'' @ pad 2 m @ ''-'' @ pad 2 d)"

text \<open>
  \<open>toISOString().slice(0, 10)\<close> of an instant. Beyond a Date's range of 8.64e15 milliseconds
  toISOString throws; the instants given here are within a few years of now, and the empty
  text stands for that case.
\<close>

definition isoDay :: "instant \<Rightarrow> string" where
  "isoDay t = (if \<bar>t\<bar> \<le> 8640000000000000 then take 10 (iso_date (t div day_ms)) else [])"

lemma length_pad [simp]: "length (pad k n) = k"
  by (induction k arbitrary: n) simp_all

lemma digits_pad: "list_all is_digit (pad k n)"
  by (induction k arbitrary: n) (simp_all add: is_digit_char)

lemma div10_less: "n < 10 * c \<Longrightarrow> n div 10 < (c::int)"
  by presburger

lemma digits_value_pad: "0 \<le> n \<Longrightarrow> n < 10 ^ k \<Longrightarrow> int (digits_value (pad k n)) = n"
proof (induction k arbitrary: n)
  case 0
  then show ?case by (simp add: digits_value_def)
next
  case (Suc k)
  then have "0 \<le> n div 10" "n div 10 < 10 ^ k" by (simp_all add: pos_imp_zdiv_nonneg_iff div10_less)
  with Suc.IH [of "n div 10"] show ?case by (simp add: digits_value_append char_code_digit)
qed

text \<open>JavaScript's \<open><\<close> on strings: by code units.\<close>

fun js_less :: "string \<Rightarrow> string \<Rightarrow> bool" where
  "js_less a [] = False"
| "js_less [] (d # ds) = True"
| "js_less (c # cs) (d # ds) = (char_code c < char_code d \<or> (char_code c = char_code d \<and> js_less cs ds))"

lemma js_less_irrefl [simp]: "\<not> js_less a a"
  by (induction a) auto

lemma js_less_append:
  "length a = length b \<Longrightarrow> js_less (a @ c) (b @ d) \<longleftrightarrow> js_less a b \<or> (a = b \<and> js_less c d)"
  by (induction a b rule: list_induct2) (auto simp: char_code_def)

lemma js_less_pad:
  "0 \<le> m \<Longrightarrow> m < 10 ^ k \<Longrightarrow> 0 \<le> n \<Longrightarrow> n < 10 ^ k \<Longrightarrow>
   (js_less (pad k m) (pad k n) \<longleftrightarrow> m < n) \<and> (pad k m = pad k n \<longleftrightarrow> m = n)"
proof (induction k arbitrary: m n)
  case 0
  then show ?case by simp
next
  case (Suc k)
  have b: "0 \<le> m div 10" "m div 10 < 10 ^ k" "0 \<le> n div 10" "n div 10 < 10 ^ k"
    using Suc.prems by (simp_all add: pos_imp_zdiv_nonneg_iff div10_less)
  have c: "char_code (digit_char (nat (m mod 10))) = 48 + nat (m mod 10)"
    "char_code (digit_char (nat (n mod 10))) = 48 + nat (n mod 10)"
    by (rule char_code_digit; simp add: nat_less_iff)+
  have d: "digit_char (nat (m mod 10)) = digit_char (nat (n mod 10)) \<longleftrightarrow> m mod 10 = n mod 10"
    using c by (metis add_left_cancel eq_nat_nat_iff pos_mod_sign zero_less_numeral)
  have split: "x = 10 * (x div 10) + x mod 10" for x :: int by simp
  have "m < n \<longleftrightarrow> m div 10 < n div 10 \<or> (m div 10 = n div 10 \<and> m mod 10 < n mod 10)"
    using split [of m] split [of n] pos_mod_bound [of 10 m] pos_mod_bound [of 10 n]
      pos_mod_sign [of 10 m] pos_mod_sign [of 10 n] by linarith
  moreover have "m = n \<longleftrightarrow> m div 10 = n div 10 \<and> m mod 10 = n mod 10"
    using split [of m] split [of n] by metis
  ultimately show ?case
    using Suc.IH [OF b] d by (simp add: js_less_append c nat_less_eq_zless del: zless_nat_conj)
qed

end
