(* ===== verification/Gifts.thy ===== *)
theory Gifts
  imports Ledger GiftCodes Calendar "HOL-Library.List_Lexorder"
begin

text \<open>
  Gift letters (src/services/giftLetterService.ts): free sends that print a card for the
  recipient. A gift letter sent with budget left mints a chain code; redeeming the code
  grants one gift letter with one less budget. The services read the server's clock (\<open>js\<close>,
  milliseconds) for lifetimes and the database's (\<open>now\<close>) in their statements. The
  environment is an argument wherever a setting is read.
\<close>

section \<open>Cards\<close>

definition daysFromNow :: "instant \<Rightarrow> int \<Rightarrow> instant" where
  "daysFromNow js days = js + days * day_ms"

definition daysAfter :: "instant \<Rightarrow> int \<Rightarrow> instant" where
  "daysAfter start days = start + days * day_ms"

definition drop_prefix :: "string \<Rightarrow> string \<Rightarrow> string option" where
  "drop_prefix p t = (if take (length p) t = p then Some (drop (length p) t) else None)"

definition landingHost :: "string \<Rightarrow> string" where
  "landingHost base = (case drop_prefix ''https://'' base of Some r \<Rightarrow> r
     | None \<Rightarrow> (case drop_prefix ''http://'' base of Some r \<Rightarrow> r | None \<Rightarrow> base))"

text \<open>encodeURIComponent, byte by byte.\<close>

definition hex_digit :: "nat \<Rightarrow> char" where
  "hex_digit d = (if d < 10 then char_of (48 + d) else char_of (55 + d))"

definition uri_unreserved :: "char \<Rightarrow> bool" where
  "uri_unreserved c = (let n = char_code c in
     (48 \<le> n \<and> n \<le> 57) \<or> (65 \<le> n \<and> n \<le> 90) \<or> (97 \<le> n \<and> n \<le> 122) \<or> c \<in> set ''-_.!~*()'' \<or> n = 39)"

definition encodeURIComponent :: "string \<Rightarrow> string" where
  "encodeURIComponent t = concat (map (\<lambda>c. if uri_unreserved c then [c]
     else [CHR ''%'', hex_digit (char_code c div 16), hex_digit (char_code c mod 16)]) t)"

definition fundedCard :: "environment \<Rightarrow> string \<Rightarrow> instant option \<Rightarrow> gift_card" where
  "fundedCard env code redeemBy =
     (let base = giftLandingBaseUrl env
      in \<lparr> ca_state = Card_funded, ca_code = Some code,
           ca_url = base @ ''/g/'' @ encodeURIComponent code,
           ca_display_url = landingHost base @ ''/g'',
           ca_redeem_by = map_option isoDay redeemBy, ca_sample = False, ca_multi_use = False,
           ca_new_accounts_only = False \<rparr>)"

definition seedCard :: "environment \<Rightarrow> string \<Rightarrow> instant option \<Rightarrow> bool \<Rightarrow> gift_card" where
  "seedCard env code endsAt newAccountsOnly =
     (fundedCard env code endsAt)\<lparr>ca_multi_use := True, ca_new_accounts_only := newAccountsOnly\<rparr>"

definition sampleFundedCard :: "environment \<Rightarrow> instant \<Rightarrow> gift_card" where
  "sampleFundedCard env js =
     (let base = giftLandingBaseUrl env
      in \<lparr> ca_state = Card_funded, ca_code = None, ca_url = base @ ''/g'',
           ca_display_url = landingHost base @ ''/g'',
           ca_redeem_by = Some (isoDay (daysFromNow js (giftCodeTtlDays env))), ca_sample = True,
           ca_multi_use = False, ca_new_accounts_only = False \<rparr>)"

definition unfundedCard :: "environment \<Rightarrow> gift_card" where
  "unfundedCard env =
     (let base = giftLandingBaseUrl env
      in \<lparr> ca_state = Card_unfunded, ca_code = None, ca_url = base, ca_display_url = landingHost base,
           ca_redeem_by = None, ca_sample = False, ca_multi_use = False, ca_new_accounts_only = False \<rparr>)"

section \<open>Seed campaigns\<close>

datatype seed_code_hold = Not_seed | Not_live | Not_started | Ended | At_cap

definition seedCodeHold :: "campaign \<Rightarrow> instant \<Rightarrow> seed_code_hold option" where
  "seedCodeHold row at =
     (if pc_gift_generations_remaining row = None then Some Not_seed
      else if pc_status row \<noteq> ''active'' then Some Not_live
      else if at < pc_starts_at row then Some Not_started
      else if (case pc_ends_at row of None \<Rightarrow> False | Some t \<Rightarrow> t \<le> at) then Some Ended
      else if (case pc_max_total_redemptions row of None \<Rightarrow> False
               | Some cap \<Rightarrow> \<not> pc_current_redemptions row < cap) then Some At_cap
      else None)"

definition seedCodePrints :: "campaign option \<Rightarrow> instant \<Rightarrow> bool" where
  "seedCodePrints row at = (case row of None \<Rightarrow> False | Some r \<Rightarrow> seedCodeHold r at = None)"

definition find_campaign :: "string \<Rightarrow> db \<Rightarrow> campaign option" where
  "find_campaign cid s = find_by pc_id cid (campaigns s)"

section \<open>Balance\<close>

text \<open>ORDER BY expires_at NULLS LAST, created_at, gift_id.\<close>

definition gift_key :: "gift_letter \<Rightarrow> nat \<times> instant \<times> instant \<times> nat list" where
  "gift_key g = (case g_expires_at g of
     None \<Rightarrow> (1, 0, g_created_at g, map char_code (g_id g))
   | Some t \<Rightarrow> (0, t, g_created_at g, map char_code (g_id g)))"

definition unsent_gift :: "instant \<Rightarrow> string \<Rightarrow> gift_letter \<Rightarrow> bool" where
  "unsent_gift now uid g \<longleftrightarrow> g_user g = uid \<and> g_status g = G_available \<and>
     (case g_expires_at g of None \<Rightarrow> True | Some t \<Rightarrow> now < t)"

record gift_seed =
  gs_code :: string
  gs_ends_at :: "instant option"
  gs_new_accounts_only :: bool

record gift_next =
  gn_gift :: string
  gn_card_state :: card_state
  gn_seed :: "gift_seed option"

definition getGiftBalance :: "instant \<Rightarrow> instant \<Rightarrow> string \<Rightarrow> db \<Rightarrow> nat \<times> gift_next option" where
  "getGiftBalance now js uid s =
     (let rows = sort_key gift_key (filter (unsent_gift now uid) (gifts s))
      in case rows of
           [] \<Rightarrow> (0, None)
         | first # _ \<Rightarrow>
             let campaign = (case g_card_campaign_id first of None \<Rightarrow> None | Some cid \<Rightarrow> find_campaign cid s);
                 campaignFunds = (case campaign of None \<Rightarrow> False | Some c \<Rightarrow> seedCodePrints (Some c) js)
             in (length rows, Some \<lparr> gn_gift = g_id first,
                   gn_card_state = (if campaignFunds \<or> 0 < g_generations_remaining first
                     then Card_funded else Card_unfunded),
                   gn_seed = (case campaign of None \<Rightarrow> None | Some c \<Rightarrow>
                     if campaignFunds then Some \<lparr> gs_code = pc_code c, gs_ends_at = pc_ends_at c,
                       gs_new_accounts_only = pc_requires_new_user c \<rparr> else None) \<rparr>))"

section \<open>Granting\<close>

record grant_gift_params =
  gp_user :: string
  gp_quantity :: int
  gp_generations :: int
  gp_source :: gift_source
  gp_source_reference_id :: string
  gp_source_order_id :: "string option"
  gp_source_campaign_id :: "string option"
  gp_parent_code :: "string option"
  gp_card_campaign_id :: "string option"
  gp_expires_at :: "instant option option"   \<comment> \<open>None is undefined, Some None is null\<close>

definition same_grant :: "gift_source \<Rightarrow> string \<Rightarrow> nat \<Rightarrow> gift_letter \<Rightarrow> bool" where
  "same_grant src ref idx g \<longleftrightarrow> g_source g = src \<and> g_source_reference_id g = ref \<and> g_grant_index g = idx"

definition fresh_gift_id :: "db \<Rightarrow> string" where
  "fresh_gift_id s = ''gift-'' @ show_nat (uuid_seq s)"

text \<open>
  INSERT INTO gift_letters ... ON CONFLICT (source, source_reference_id, grant_index) DO
  NOTHING RETURNING: the row inserted, or none on a conflict. The account must exist
  (foreign key), and the budget carries a CHECK.
\<close>

definition insert_gift :: "gift_letter \<Rightarrow> db \<Rightarrow> error + gift_letter option \<times> db" where
  "insert_gift g s =
     (if g_generations_remaining g < 0 then Inl (Check_violation ''gift_letters_generations_remaining_check'')
      else if list_ex (same_grant (g_source g) (g_source_reference_id g) (g_grant_index g)) (gifts s)
      then Inr (None, s)
      else if find_by g_id (g_id g) (gifts s) \<noteq> None then Inl (Unique_violation ''gift_letters_pkey'')
      else if find_user (g_user g) s = None then Inl (Check_violation ''gift_letters_user_id_fkey'')
      else Inr (Some g, s\<lparr>gifts := gifts s @ [g], uuid_seq := Suc (uuid_seq s)\<rparr>))"

definition new_gift :: "instant \<Rightarrow> grant_gift_params \<Rightarrow> instant option \<Rightarrow> nat \<Rightarrow> string \<Rightarrow> gift_letter" where
  "new_gift now p expiresAt idx gid =
     \<lparr> g_id = gid, g_user = gp_user p, g_generations_remaining = gp_generations p,
       g_source = gp_source p, g_source_reference_id = gp_source_reference_id p, g_grant_index = idx,
       g_source_order_id = gp_source_order_id p, g_source_campaign_id = gp_source_campaign_id p,
       g_parent_code = gp_parent_code p, g_card_campaign_id = gp_card_campaign_id p,
       g_status = G_available, g_expires_at = expiresAt, g_consumed_at = None,
       g_consumed_by_letter_id = None, g_source_reversed_at = None, g_created_at = now \<rparr>"

text \<open>The loop over the grant's indices.\<close>

fun grant_gifts :: "instant \<Rightarrow> grant_gift_params \<Rightarrow> instant option \<Rightarrow> nat list \<Rightarrow> db \<Rightarrow>
    error + gift_letter list \<times> db" where
  "grant_gifts now p expiresAt [] s = Inr ([], s)"
| "grant_gifts now p expiresAt (idx # idxs) s =
     bindE (insert_gift (new_gift now p expiresAt idx (fresh_gift_id s)) s) (\<lambda>(r, s').
       bindE (grant_gifts now p expiresAt idxs s') (\<lambda>(rest, s'').
         Inr ((case r of None \<Rightarrow> rest | Some g \<Rightarrow> g # rest), s'')))"

definition grantGiftLettersWithClient ::
  "environment \<Rightarrow> instant \<Rightarrow> instant \<Rightarrow> grant_gift_params \<Rightarrow> db \<Rightarrow> error + gift_letter list \<times> db" where
  "grantGiftLettersWithClient env now js p s =
     (if gp_quantity p \<le> 0 then Inr ([], s)
      else if gp_generations p < 0
      then Inl (Error ''generationsRemaining must be a non-negative integer'')
      else let expiresAt = (case gp_expires_at p of
                 None \<Rightarrow> Some (daysFromNow js (giftLetterTtlDays env)) | Some e \<Rightarrow> e)
           in grant_gifts now p expiresAt [0 ..< nat (gp_quantity p)] s)"

section \<open>Sending\<close>

text \<open>\<open>translate(UPPER(code), 'OIL- ', '011')\<close>: the last two characters have no counterpart and go.\<close>

definition reads_as :: "string \<Rightarrow> string" where
  "reads_as code = map lookalike (filter (\<lambda>c. c \<noteq> CHR ''-'' \<and> c \<noteq> CHR '' '') (upper_str code))"

definition new_code :: "string \<Rightarrow> gift_letter \<Rightarrow> string \<Rightarrow> instant \<Rightarrow> gift_code" where
  "new_code code gift letterId expiresAt =
     \<lparr> gc_code = code, gc_gift = g_id gift, gc_letter = letterId, gc_issued_to = g_user gift,
       gc_grants_generations_remaining = g_generations_remaining gift - 1, gc_status = Gc_issued,
       gc_expires_at = expiresAt, gc_redeemed_by = None, gc_redeemed_at = None,
       gc_voided_at = None, gc_void_reason = None \<rparr>"

text \<open>
  INSERT INTO gift_codes ... WHERE NOT EXISTS ... ON CONFLICT (code) DO NOTHING: true when a
  row went in. The unique gift and letter hold the chain's branching to one.
\<close>

definition insert_code :: "gift_code \<Rightarrow> db \<Rightarrow> error + bool \<times> db" where
  "insert_code c s =
     (if list_ex (\<lambda>k. reads_as (pc_code k) = gc_code c) (campaigns s) then Inr (False, s)
      else if \<not> isCanonicalGiftCode (gc_code c) then Inl (Check_violation ''valid_gift_code_format'')
      else if gc_grants_generations_remaining c < 0
      then Inl (Check_violation ''gift_codes_grants_generations_remaining_check'')
      else if find_code (gc_code c) s \<noteq> None then Inr (False, s)
      else if list_ex (\<lambda>x. gc_gift x = gc_gift c) (gift_codes s)
      then Inl (Unique_violation ''gift_codes_gift_id_key'')
      else if list_ex (\<lambda>x. gc_letter x = gc_letter c) (gift_codes s)
      then Inl (Unique_violation ''gift_codes_letter_id_key'')
      else Inr (True, s\<lparr>gift_codes := gift_codes s @ [c]\<rparr>))"

text \<open>The retry loop: \<open>codes\<close> are the candidates the generator draws, at most five are tried.\<close>

fun mint_attempts :: "nat \<Rightarrow> (nat \<Rightarrow> string) \<Rightarrow> gift_letter \<Rightarrow> string \<Rightarrow> instant \<Rightarrow> db \<Rightarrow>
    error + (string \<times> instant) \<times> db" where
  "mint_attempts 0 codes gift letterId expiresAt s =
     Inl (Coded_error ''GIFT_CODE_UNAVAILABLE'' ''Could not mint a gift code'')"
| "mint_attempts (Suc n) codes gift letterId expiresAt s =
     (case insert_code (new_code (codes (4 - n)) gift letterId expiresAt) s of
        Inl e \<Rightarrow> Inl e
      | Inr (ok, s') \<Rightarrow>
          if ok then Inr ((codes (4 - n), expiresAt), s')
          else mint_attempts n codes gift letterId expiresAt s')"

definition mintChainCode ::
  "environment \<Rightarrow> instant \<Rightarrow> (nat \<Rightarrow> string) \<Rightarrow> gift_letter \<Rightarrow> string \<Rightarrow> instant option \<Rightarrow> db \<Rightarrow>
   error + (string \<times> instant) \<times> db" where
  "mintChainCode env js codes gift letterId mailsAt s =
     (let expiresAt = (case mailsAt of
            Some t \<Rightarrow> daysAfter t (giftCodeTtlDays env)
          | None \<Rightarrow> daysFromNow js (giftCodeTtlDays env))
      in mint_attempts 5 codes gift letterId expiresAt s)"

definition upd_gift :: "string \<Rightarrow> (gift_letter \<Rightarrow> gift_letter) \<Rightarrow> db \<Rightarrow> db" where
  "upd_gift gid f = gifts_update (upd_where (\<lambda>g. g_id g = gid) f)"

definition expire_gifts :: "instant \<Rightarrow> string \<Rightarrow> db \<Rightarrow> db" where
  "expire_gifts now uid = gifts_update (upd_where
     (\<lambda>g. g_user g = uid \<and> g_status g = G_available \<and>
       (case g_expires_at g of None \<Rightarrow> False | Some t \<Rightarrow> t \<le> now))
     (\<lambda>g. g\<lparr>g_status := G_expired\<rparr>))"

definition next_gift :: "string \<Rightarrow> db \<Rightarrow> gift_letter option" where
  "next_gift uid s =
     (case sort_key gift_key (filter (\<lambda>g. g_user g = uid \<and> g_status g = G_available) (gifts s)) of
        [] \<Rightarrow> None | g # _ \<Rightarrow> Some g)"

definition consume_gift :: "instant \<Rightarrow> string \<Rightarrow> gift_letter \<Rightarrow> gift_letter" where
  "consume_gift now letterId g = g\<lparr>g_status := G_consumed, g_consumed_at := Some now,
     g_consumed_by_letter_id := Some letterId\<rparr>"

definition consumeGiftLetterForSendWithClient ::
  "environment \<Rightarrow> instant \<Rightarrow> instant \<Rightarrow> (nat \<Rightarrow> string) \<Rightarrow> string \<Rightarrow> string \<Rightarrow> instant option \<Rightarrow> db \<Rightarrow>
   error + (gift_letter \<times> gift_card) option \<times> db" where
  "consumeGiftLetterForSendWithClient env now js codes uid letterId mailsAt s =
     (let s1 = expire_gifts now uid s
      in case next_gift uid s1 of
           None \<Rightarrow> Inr (None, s1)
         | Some gift \<Rightarrow>
             let s2 = upd_gift (g_id gift) (consume_gift now letterId) s1;
                 row = (case g_card_campaign_id gift of None \<Rightarrow> None | Some cid \<Rightarrow> find_campaign cid s2);
                 at = (case mailsAt of None \<Rightarrow> js | Some t \<Rightarrow> t)
             in case (if seedCodePrints row at then row else None) of
                  Some r \<Rightarrow>
                    Inr (Some (gift, seedCard env (pc_code r) (pc_ends_at r) (pc_requires_new_user r)), s2)
                | None \<Rightarrow>
                    if 0 < g_generations_remaining gift then
                      (case mintChainCode env js codes gift letterId mailsAt s2 of
                         Inl e \<Rightarrow> Inl e
                       | Inr ((code, expiresAt), s3) \<Rightarrow>
                           Inr (Some (gift, fundedCard env code (Some expiresAt)), s3))
                    else Inr (Some (gift, unfundedCard env), s2))"

section \<open>Redeeming\<close>

datatype redemption_reason = Rr_not_available | Rr_redeemed | Rr_expired | Rr_void | Rr_own_code

datatype redemption_result =
  Redeem_refused redemption_reason
| Redeem_granted nat "instant option"   \<comment> \<open>gift letters granted, their expiry\<close>

fun reason_text :: "redemption_reason \<Rightarrow> string" where
  "reason_text Rr_not_available = ''Gift letters are not available right now.''"
| "reason_text Rr_redeemed = ''This gift code has already been used.''"
| "reason_text Rr_expired = ''This gift code has expired.''"
| "reason_text Rr_void = ''This gift code is no longer valid.''"
| "reason_text Rr_own_code =
     ''This gift code was printed on a letter you sent, so it is for your recipient to use.''"

definition codeState :: "instant \<Rightarrow> gift_code \<Rightarrow> redemption_reason option" where
  "codeState js row =
     (if gc_status row = Gc_redeemed then Some Rr_redeemed
      else if gc_status row = Gc_void then Some Rr_void
      else if gc_expires_at row \<le> js then Some Rr_expired
      else None)"

text \<open>
  The checks before the transaction, on what the code's row and its issuer's address say:
  None is "not a chain code", then a refusal or the code to redeem.
\<close>

definition redeem_preview ::
  "environment \<Rightarrow> instant \<Rightarrow> string \<Rightarrow> string option \<Rightarrow> string \<Rightarrow> db \<Rightarrow> (redemption_reason + string) option" where
  "redeem_preview env js uid email rawCode s =
     (case normalizeGiftCode rawCode of None \<Rightarrow> None | Some code \<Rightarrow>
       (case find_code code s of None \<Rightarrow> None | Some preview \<Rightarrow>
         Some (if \<not> isGiftLettersEnabled env then Inl Rr_not_available
               else case codeState js preview of
                 Some r \<Rightarrow> Inl r
               | None \<Rightarrow>
                   let redeemerEmail = normalizeEmail email;
                       issuerEmail = normalizeEmail (map_option u_email (find_user (gc_issued_to preview) s))
                   in if gc_issued_to preview = uid \<or> (redeemerEmail \<noteq> None \<and> redeemerEmail = issuerEmail)
                      then Inl Rr_own_code else Inr code)))"

definition chain_grant :: "string \<Rightarrow> int \<Rightarrow> string \<Rightarrow> grant_gift_params" where
  "chain_grant uid budget code =
     \<lparr> gp_user = uid, gp_quantity = 1, gp_generations = budget, gp_source = Gs_chain_redemption,
       gp_source_reference_id = code, gp_source_order_id = None, gp_source_campaign_id = None,
       gp_parent_code = Some code, gp_card_campaign_id = None, gp_expires_at = None \<rparr>"

definition redeem_code :: "instant \<Rightarrow> string \<Rightarrow> gift_code \<Rightarrow> gift_code" where
  "redeem_code now uid c = c\<lparr>gc_status := Gc_redeemed, gc_redeemed_by := Some uid, gc_redeemed_at := Some now\<rparr>"

text \<open>The transaction: it opens the account if need be, then reads the code's row again, under its lock.\<close>

definition redeem_locked ::
  "environment \<Rightarrow> instant \<Rightarrow> instant \<Rightarrow> string \<Rightarrow> string \<Rightarrow> db \<Rightarrow> error + redemption_result \<times> db" where
  "redeem_locked env now js uid code s =
     (case find_code code s of
        None \<Rightarrow> Inr (Redeem_refused Rr_void, s)
      | Some row \<Rightarrow>
          (case codeState js row of
             Some r \<Rightarrow> Inr (Redeem_refused r, s)
           | None \<Rightarrow>
               bindE (grantGiftLettersWithClient env now js
                   (chain_grant uid (gc_grants_generations_remaining row) code)
                   (upd_code code (redeem_code now uid) s)) (\<lambda>(granted, s').
                 Inr (Redeem_granted (length granted)
                   (case granted of [] \<Rightarrow> None | g # _ \<Rightarrow> g_expires_at g), s'))))"

definition redeem_transaction ::
  "environment \<Rightarrow> instant \<Rightarrow> instant \<Rightarrow> string \<Rightarrow> string option \<Rightarrow> string \<Rightarrow> db \<Rightarrow> error + redemption_result \<times> db" where
  "redeem_transaction env now js uid email code s =
     bindE (ensureAccountRowWithClient now uid email 0 False s) (\<lambda>(u, s1).
       redeem_locked env now js uid code s1)"

definition redeemChainCode ::
  "environment \<Rightarrow> instant \<Rightarrow> instant \<Rightarrow> string \<Rightarrow> string option \<Rightarrow> string \<Rightarrow> db \<Rightarrow>
   error + redemption_result option \<times> db" where
  "redeemChainCode env now js uid email rawCode s =
     (case redeem_preview env js uid email rawCode s of
        None \<Rightarrow> Inr (None, s)
      | Some (Inl r) \<Rightarrow> Inr (Some (Redeem_refused r), s)
      | Some (Inr code) \<Rightarrow>
          bindE (redeem_transaction env now js uid email code s) (\<lambda>(r, s'). Inr (Some r, s')))"

section \<open>The public lookup\<close>

datatype lookup_reason = Lr_redemption redemption_reason | Lr_not_found | Lr_limit_reached

datatype public_lookup =
  Lookup_unknown lookup_reason                \<comment> \<open>valid: false, no kind\<close>
| Lookup_chain_refused redemption_reason
| Lookup_chain string                         \<comment> \<open>redeemBy\<close>
| Lookup_seed_refused lookup_reason
| Lookup_seed "string option" bool            \<comment> \<open>redeemBy, newCustomersOnly\<close>

definition lookupGiftCodePublic :: "environment \<Rightarrow> instant \<Rightarrow> string \<Rightarrow> db \<Rightarrow> public_lookup" where
  "lookupGiftCodePublic env js rawCode s =
     (if \<not> isGiftLettersEnabled env then Lookup_unknown (Lr_redemption Rr_not_available)
      else case (case normalizeGiftCode rawCode of None \<Rightarrow> None | Some code \<Rightarrow> find_code code s) of
        Some row \<Rightarrow>
          (case codeState js row of
             Some r \<Rightarrow> Lookup_chain_refused r
           | None \<Rightarrow> Lookup_chain (isoDay (gc_expires_at row)))
      | None \<Rightarrow>
          let trimmed = upper_str (js_trim rawCode)
          in if trimmed = [] then Lookup_unknown Lr_not_found
             else case List.find (\<lambda>c. upper_str (pc_code c) = trimmed) (campaigns s) of
               None \<Rightarrow> Lookup_unknown Lr_not_found
             | Some row \<Rightarrow>
                 (case seedCodeHold row js of
                    Some Not_seed \<Rightarrow> Lookup_unknown Lr_not_found
                  | Some At_cap \<Rightarrow> Lookup_seed_refused Lr_limit_reached
                  | Some _ \<Rightarrow> Lookup_seed_refused (Lr_redemption Rr_expired)
                  | None \<Rightarrow> Lookup_seed (map_option isoDay (pc_ends_at row)) (pc_requires_new_user row)))"

section \<open>Failure and reversal\<close>

definition void_code :: "instant \<Rightarrow> string \<Rightarrow> gift_code \<Rightarrow> gift_code" where
  "void_code now reason c = c\<lparr>gc_status := Gc_void, gc_voided_at := Some now, gc_void_reason := Some reason\<rparr>"

definition returned_gift :: "instant \<Rightarrow> string \<Rightarrow> string \<Rightarrow> gift_letter \<Rightarrow> instant option \<Rightarrow> string \<Rightarrow> gift_letter" where
  "returned_gift now uid letterId gift expiresAt gid =
     \<lparr> g_id = gid, g_user = uid, g_generations_remaining = g_generations_remaining gift,
       g_source = Gs_send_failed, g_source_reference_id = letterId, g_grant_index = 0,
       g_source_order_id = g_source_order_id gift, g_source_campaign_id = g_source_campaign_id gift,
       g_parent_code = g_parent_code gift, g_card_campaign_id = g_card_campaign_id gift,
       g_status = G_available, g_expires_at = expiresAt, g_consumed_at = None,
       g_consumed_by_letter_id = None, g_source_reversed_at = None, g_created_at = now \<rparr>"

definition return_expiry :: "environment \<Rightarrow> instant \<Rightarrow> bool \<Rightarrow> gift_letter \<Rightarrow> instant option" where
  "return_expiry env js cancelled gift =
     (let freshExpiry = daysFromNow js (giftLetterTtlDays env)
      in case g_expires_at gift of
           None \<Rightarrow> None
         | Some t \<Rightarrow> if cancelled then Some t else if freshExpiry < t then Some t else Some freshExpiry)"

definition returnGiftLetterForFailedSendWithClient ::
  "environment \<Rightarrow> instant \<Rightarrow> instant \<Rightarrow> string \<Rightarrow> string \<Rightarrow> string \<Rightarrow> bool \<Rightarrow> db \<Rightarrow> error + int \<times> db" where
  "returnGiftLetterForFailedSendWithClient env now js letterId uid failureCode cancelled s =
     (if list_ex (\<lambda>g. g_source g = Gs_send_failed \<and> g_source_reference_id g = letterId) (gifts s)
      then Inr (0, s)
      else case List.find (\<lambda>g. g_consumed_by_letter_id g = Some letterId \<and> g_user g = uid) (gifts s) of
        None \<Rightarrow> Inr (0, s)
      | Some gift \<Rightarrow>
          let code = List.find (\<lambda>c. gc_letter c = letterId) (gift_codes s)
          in if map_option gc_status code = Some Gc_redeemed then Inr (0, s)
             else let s1 = (case code of
                        Some c \<Rightarrow> if gc_status c = Gc_issued
                          then upd_code (gc_code c)
                            (void_code now (if cancelled then ''send_cancelled'' else ''send_failed'')) s
                          else s
                      | None \<Rightarrow> s)
                  in if g_source_reversed_at gift \<noteq> None then Inr (0, s1)
                     else bindE (insert_gift (returned_gift now uid letterId gift
                            (return_expiry env js cancelled gift) (fresh_gift_id s1)) s1)
                          (\<lambda>(_, s2). Inr (1, s2)))"

definition isGiftLetterCompensated :: "string \<Rightarrow> db \<Rightarrow> bool" where
  "isGiftLetterCompensated letterId s = list_ex (\<lambda>g.
     (g_source g = Gs_send_failed \<and> g_source_reference_id g = letterId) \<or>
     (g_consumed_by_letter_id g = Some letterId \<and> g_source_reversed_at g \<noteq> None)) (gifts s)"

datatype reversal_cause = Payment_refunded | Payment_disputed

definition revokeGiftLettersForOrderWithClient :: "instant \<Rightarrow> string \<Rightarrow> reversal_cause \<Rightarrow> db \<Rightarrow> db" where
  "revokeGiftLettersForOrderWithClient now orderId cause s =
     (let s1 = gifts_update (upd_where
              (\<lambda>g. g_source_order_id g = Some orderId \<and> g_status g = G_available)
              (\<lambda>g. g\<lparr>g_status := G_revoked\<rparr>)) s;
          s2 = gifts_update (upd_where
              (\<lambda>g. g_source_order_id g = Some orderId \<and> g_status g = G_consumed)
              (\<lambda>g. g\<lparr>g_source_reversed_at := (case g_source_reversed_at g of None \<Rightarrow> Some now | Some t \<Rightarrow> Some t)\<rparr>)) s1
      in if cause = Payment_disputed
         then gift_codes_update (upd_where
              (\<lambda>c. gc_status c = Gc_issued \<and>
                 list_ex (\<lambda>g. g_id g = gc_gift c \<and> g_source_order_id g = Some orderId) (gifts s2))
              (void_code now ''purchase_reversed'')) s2
         else s2)"

end
