(* ===== verification/GiftLaws.thy ===== *)
theory GiftLaws
  imports Gifts
begin

text \<open>
  The invariant of the gift tables and the cost bound of a chain. A code belongs to one gift
  letter, was printed by the letter that gift was sent with, and grants one less budget; a
  gift granted by a code belongs to a redeemed code; a gift handed back belongs to a letter
  whose code, if it printed one, is void. From these: a gift letter is followed by at most
  one other, never both by a redemption and by a return, and the budget counts down.
\<close>

section \<open>The invariant\<close>

definition find_gift :: "string \<Rightarrow> db \<Rightarrow> gift_letter option" where
  "find_gift gid s = find_by g_id gid (gifts s)"

definition sent_with :: "string \<Rightarrow> db \<Rightarrow> gift_letter option" where
  "sent_with letterId s = find_by g_consumed_by_letter_id (Some letterId) (gifts s)"

definition grant_key :: "gift_letter \<Rightarrow> gift_source \<times> string \<times> nat" where
  "grant_key g = (g_source g, g_source_reference_id g, g_grant_index g)"

text \<open>What the columns of a gift row promise on their own.\<close>

definition gift_row_ok :: "gift_letter \<Rightarrow> bool" where
  "gift_row_ok g \<longleftrightarrow> 0 \<le> g_generations_remaining g \<and>
     (g_status g = G_consumed) = (g_consumed_by_letter_id g \<noteq> None) \<and>
     (g_source g = Gs_chain_redemption \<or> g_source g = Gs_send_failed \<longrightarrow> g_grant_index g = 0)"

definition code_of_gift :: "db \<Rightarrow> gift_code \<Rightarrow> bool" where
  "code_of_gift s c \<longleftrightarrow> (\<exists>g. find_gift (gc_gift c) s = Some g \<and>
     g_consumed_by_letter_id g = Some (gc_letter c) \<and> gc_issued_to c = g_user g \<and>
     0 \<le> gc_grants_generations_remaining c \<and>
     gc_grants_generations_remaining c = g_generations_remaining g - 1)"

definition chain_gift_ok :: "db \<Rightarrow> gift_letter \<Rightarrow> bool" where
  "chain_gift_ok s g \<longleftrightarrow> (g_source g = Gs_chain_redemption \<longrightarrow>
     (\<exists>c. find_code (g_source_reference_id g) s = Some c \<and> gc_status c = Gc_redeemed \<and>
       g_generations_remaining g = gc_grants_generations_remaining c))"

definition returned_gift_ok :: "db \<Rightarrow> gift_letter \<Rightarrow> bool" where
  "returned_gift_ok s g \<longleftrightarrow> (g_source g = Gs_send_failed \<longrightarrow>
     (\<exists>h. sent_with (g_source_reference_id g) s = Some h \<and>
       g_generations_remaining g = g_generations_remaining h) \<and>
     (\<forall>c\<in>set (gift_codes s). gc_letter c = g_source_reference_id g \<longrightarrow> gc_status c = Gc_void))"

definition one_letter_per_gift :: "db \<Rightarrow> bool" where
  "one_letter_per_gift s \<longleftrightarrow> (\<forall>g\<in>set (gifts s). \<forall>h\<in>set (gifts s).
     g_consumed_by_letter_id g \<noteq> None \<and> g_consumed_by_letter_id g = g_consumed_by_letter_id h \<longrightarrow> g = h)"

definition gifts_ok :: "db \<Rightarrow> bool" where
  "gifts_ok s \<longleftrightarrow> distinct (map g_id (gifts s)) \<and> distinct (map grant_key (gifts s)) \<and>
     distinct (map gc_code (gift_codes s)) \<and> distinct (map gc_gift (gift_codes s)) \<and>
     distinct (map gc_letter (gift_codes s)) \<and> one_letter_per_gift s \<and>
     (\<forall>g\<in>set (gifts s). gift_row_ok g \<and> chain_gift_ok s g \<and> returned_gift_ok s g) \<and>
     (\<forall>c\<in>set (gift_codes s). code_of_gift s c)"

lemma gifts_okD:
  assumes "gifts_ok s"
  shows "g \<in> set (gifts s) \<Longrightarrow> gift_row_ok g" "g \<in> set (gifts s) \<Longrightarrow> chain_gift_ok s g"
    "g \<in> set (gifts s) \<Longrightarrow> returned_gift_ok s g" "c \<in> set (gift_codes s) \<Longrightarrow> code_of_gift s c"
    "one_letter_per_gift s" "distinct (map g_id (gifts s))" "distinct (map grant_key (gifts s))"
    "distinct (map gc_code (gift_codes s))" "distinct (map gc_gift (gift_codes s))"
    "distinct (map gc_letter (gift_codes s))"
  using assms unfolding gifts_ok_def by blast+

lemma gifts_okI:
  assumes "distinct (map g_id (gifts s))" and "distinct (map grant_key (gifts s))"
    and "distinct (map gc_code (gift_codes s))" and "distinct (map gc_gift (gift_codes s))"
    and "distinct (map gc_letter (gift_codes s))" and "one_letter_per_gift s"
    and "\<And>g. g \<in> set (gifts s) \<Longrightarrow> gift_row_ok g \<and> chain_gift_ok s g \<and> returned_gift_ok s g"
    and "\<And>c. c \<in> set (gift_codes s) \<Longrightarrow> code_of_gift s c"
  shows "gifts_ok s"
  using assms unfolding gifts_ok_def by blast

lemma one_letter_cong: "gifts s' = gifts s \<Longrightarrow> one_letter_per_gift s' = one_letter_per_gift s"
  by (simp add: one_letter_per_gift_def)

lemma one_letterD:
  "one_letter_per_gift s \<Longrightarrow> g \<in> set (gifts s) \<Longrightarrow> h \<in> set (gifts s) \<Longrightarrow>
   g_consumed_by_letter_id g = Some l \<Longrightarrow> g_consumed_by_letter_id h = Some l \<Longrightarrow> g = h"
  unfolding one_letter_per_gift_def by (metis option.distinct(1))

section \<open>Updates that keep it\<close>

text \<open>An update of gift rows that leaves what identifies and funds them alone.\<close>

definition keeps_gift :: "(gift_letter \<Rightarrow> gift_letter) \<Rightarrow> bool" where
  "keeps_gift f \<longleftrightarrow> (\<forall>g. g_id (f g) = g_id g \<and> g_user (f g) = g_user g \<and>
     g_generations_remaining (f g) = g_generations_remaining g \<and> grant_key (f g) = grant_key g \<and>
     g_consumed_by_letter_id (f g) = g_consumed_by_letter_id g)"

lemma grant_key_eq:
  "grant_key g = grant_key h \<longleftrightarrow> g_source g = g_source h \<and>
     g_source_reference_id g = g_source_reference_id h \<and> g_grant_index g = g_grant_index h"
  by (simp add: grant_key_def)

lemma find_gift_upd_where:
  "keeps_gift f \<Longrightarrow> find_gift k (gifts_update (upd_where P f) s) =
     map_option (\<lambda>g. if P g then f g else g) (find_gift k s)"
  unfolding find_gift_def by (simp add: keeps_gift_def find_by_upd_where)

lemma sent_with_upd_where:
  "keeps_gift f \<Longrightarrow> sent_with k (gifts_update (upd_where P f) s) =
     map_option (\<lambda>g. if P g then f g else g) (sent_with k s)"
  unfolding sent_with_def by (simp add: keeps_gift_def find_by_upd_where)

lemma gifts_ok_upd_gifts:
  assumes ok: "gifts_ok s" and f: "keeps_gift f"
    and st: "\<And>g. P g \<Longrightarrow> (g_status (f g) = G_consumed) = (g_status g = G_consumed)"
  shows "gifts_ok (gifts_update (upd_where P f) s)"
proof -
  let ?s = "gifts_update (upd_where P f) s" and ?h = "\<lambda>g. if P g then f g else g"
  have f': "g_id (f g) = g_id g" "g_user (f g) = g_user g"
    "g_generations_remaining (f g) = g_generations_remaining g" "grant_key (f g) = grant_key g"
    "g_source (f g) = g_source g" "g_source_reference_id (f g) = g_source_reference_id g"
    "g_grant_index (f g) = g_grant_index g"
    "g_consumed_by_letter_id (f g) = g_consumed_by_letter_id g" for g
    using f by (auto simp: keeps_gift_def grant_key_eq)
  have gs: "set (gifts ?s) = ?h ` set (gifts s)" by (simp add: set_upd_where)
  have row: "gift_row_ok g \<Longrightarrow> gift_row_ok (?h g)" for g
    using st [of g] by (auto simp: gift_row_ok_def f')
  have chain: "chain_gift_ok s g \<Longrightarrow> chain_gift_ok ?s (?h g)" for g
    by (auto simp: chain_gift_ok_def f' find_code_def)
  have h: "g_source (?h g) = g_source g" "g_source_reference_id (?h g) = g_source_reference_id g"
    "g_generations_remaining (?h g) = g_generations_remaining g" "g_user (?h g) = g_user g"
    "g_consumed_by_letter_id (?h g) = g_consumed_by_letter_id g" for g
    by (simp_all add: f')
  have ret: "returned_gift_ok ?s (?h g)" if "returned_gift_ok s g" for g
    unfolding returned_gift_ok_def h
  proof (intro impI conjI)
    assume src: "g_source g = Gs_send_failed"
    with that obtain k where "sent_with (g_source_reference_id g) s = Some k"
      "g_generations_remaining g = g_generations_remaining k" by (auto simp: returned_gift_ok_def)
    then show "\<exists>k. sent_with (g_source_reference_id g) ?s = Some k \<and>
        g_generations_remaining g = g_generations_remaining k"
      by (intro exI [of _ "?h k"]) (simp add: sent_with_upd_where [OF f] h)
    show "\<forall>c\<in>set (gift_codes ?s). gc_letter c = g_source_reference_id g \<longrightarrow> gc_status c = Gc_void"
      using that src by (simp add: returned_gift_ok_def)
  qed
  have code: "code_of_gift ?s c" if "code_of_gift s c" for c
  proof -
    from that obtain k where "find_gift (gc_gift c) s = Some k" "g_consumed_by_letter_id k = Some (gc_letter c)"
      "gc_issued_to c = g_user k" "0 \<le> gc_grants_generations_remaining c"
      "gc_grants_generations_remaining c = g_generations_remaining k - 1" by (auto simp: code_of_gift_def)
    then show ?thesis
      unfolding code_of_gift_def
      by (intro exI [of _ "?h k"]) (simp add: find_gift_upd_where [OF f] h)
  qed
  have one: "one_letter_per_gift ?s"
    unfolding one_letter_per_gift_def gs
  proof (intro ballI impI)
    fix g k assume "g \<in> ?h ` set (gifts s)" "k \<in> ?h ` set (gifts s)"
      and eq: "g_consumed_by_letter_id g \<noteq> None \<and> g_consumed_by_letter_id g = g_consumed_by_letter_id k"
    then obtain g0 k0 where m: "g0 \<in> set (gifts s)" "k0 \<in> set (gifts s)" and e: "g = ?h g0" "k = ?h k0" by blast
    from eq have "g_consumed_by_letter_id g0 \<noteq> None \<and> g_consumed_by_letter_id g0 = g_consumed_by_letter_id k0"
      unfolding e h .
    with ok m have "g0 = k0" unfolding gifts_ok_def one_letter_per_gift_def by blast
    then show "g = k" using e by simp
  qed
  have ids: "map g_id (gifts ?s) = map g_id (gifts s)" "map grant_key (gifts ?s) = map grant_key (gifts s)"
    by (simp_all add: f')
  have all: "\<forall>g\<in>set (gifts ?s). gift_row_ok g \<and> chain_gift_ok ?s g \<and> returned_gift_ok ?s g"
  proof
    fix g assume "g \<in> set (gifts ?s)"
    then obtain k where "k \<in> set (gifts s)" "g = ?h k" unfolding gs by blast
    then show "gift_row_ok g \<and> chain_gift_ok ?s g \<and> returned_gift_ok ?s g"
      using gifts_okD(1-3) [OF ok, of k] row [of k] chain [of k] ret [of k] by simp
  qed
  have "\<forall>c\<in>set (gift_codes ?s). code_of_gift ?s c"
    using ok code by (simp add: gifts_ok_def)
  with all one ids ok show ?thesis by (simp add: gifts_ok_def)
qed

text \<open>An update of codes that keeps what they grant, and never takes a code back.\<close>

definition keeps_code :: "(gift_code \<Rightarrow> gift_code) \<Rightarrow> bool" where
  "keeps_code f \<longleftrightarrow> (\<forall>c. gc_code (f c) = gc_code c \<and> gc_gift (f c) = gc_gift c \<and>
     gc_letter (f c) = gc_letter c \<and> gc_issued_to (f c) = gc_issued_to c \<and>
     gc_grants_generations_remaining (f c) = gc_grants_generations_remaining c)"

lemma find_code_upd_where:
  "keeps_code f \<Longrightarrow> find_code k (gift_codes_update (upd_where P f) s) =
     map_option (\<lambda>c. if P c then f c else c) (find_code k s)"
  unfolding find_code_def by (simp add: keeps_code_def find_by_upd_where)

lemma gifts_ok_upd_codes:
  assumes ok: "gifts_ok s" and f: "keeps_code f"
    and st: "\<And>c. c \<in> set (gift_codes s) \<Longrightarrow> P c \<Longrightarrow> gc_status c = Gc_issued"
  shows "gifts_ok (gift_codes_update (upd_where P f) s)"
proof -
  let ?s = "gift_codes_update (upd_where P f) s" and ?h = "\<lambda>c. if P c then f c else c"
  have cs: "set (gift_codes ?s) = ?h ` set (gift_codes s)" by (simp add: set_upd_where)
  have f': "gc_code (f c) = gc_code c" "gc_gift (f c) = gc_gift c" "gc_letter (f c) = gc_letter c"
    "gc_issued_to (f c) = gc_issued_to c"
    "gc_grants_generations_remaining (f c) = gc_grants_generations_remaining c" for c
    using f by (auto simp: keeps_code_def)
  have mem: "find_code k s = Some c \<Longrightarrow> c \<in> set (gift_codes s)" for k c
    unfolding find_code_def by (rule find_by_mem)
  have chain: "chain_gift_ok s g \<Longrightarrow> chain_gift_ok ?s g" for g
    using st mem by (force simp: chain_gift_ok_def find_code_upd_where [OF f] f')
  have ret: "returned_gift_ok s g \<Longrightarrow> returned_gift_ok ?s g" for g
    using st unfolding returned_gift_ok_def cs by (fastforce simp: f' sent_with_def)
  have code: "code_of_gift s c \<Longrightarrow> code_of_gift ?s (?h c)" for c
    by (auto simp: code_of_gift_def f' find_gift_def)
  have ids: "map gc_code (gift_codes ?s) = map gc_code (gift_codes s)"
    "map gc_gift (gift_codes ?s) = map gc_gift (gift_codes s)"
    "map gc_letter (gift_codes ?s) = map gc_letter (gift_codes s)"
    by (simp_all add: f')
  have "code_of_gift ?s c" if "c \<in> set (gift_codes ?s)" for c
  proof -
    from that obtain d where "d \<in> set (gift_codes s)" "c = ?h d" unfolding cs by blast
    with gifts_okD(4) [OF ok] code show ?thesis by simp
  qed
  moreover have "one_letter_per_gift ?s"
    using gifts_okD(5) [OF ok] by (subst one_letter_cong [of _ s]) simp_all
  ultimately show ?thesis using chain ret ids ok by (simp add: gifts_ok_def)
qed

section \<open>Inserts that keep it\<close>

lemma insert_gift_Inr:
  assumes "insert_gift g s = Inr (r, s')"
  shows "(r = None \<and> s' = s) \<or> (r = Some g \<and> s' = s\<lparr>gifts := gifts s @ [g], uuid_seq := Suc (uuid_seq s)\<rparr> \<and>
    0 \<le> g_generations_remaining g \<and> find_gift (g_id g) s = None \<and> grant_key g \<notin> grant_key ` set (gifts s))"
  using assms by (auto simp: insert_gift_def find_gift_def list_ex_iff same_grant_def grant_key_def split: if_splits)

lemma gifts_ok_insert_gift:
  assumes ok: "gifts_ok s" and ins: "insert_gift g s = Inr (r, s')"
    and row: "gift_row_ok g" "g_consumed_by_letter_id g = None"
    and src: "chain_gift_ok s g" "returned_gift_ok s g"
  shows "gifts_ok s'"
  using insert_gift_Inr [OF ins]
proof
  assume "r = None \<and> s' = s"
  with ok show ?thesis by simp
next
  assume a: "r = Some g \<and> s' = s\<lparr>gifts := gifts s @ [g], uuid_seq := Suc (uuid_seq s)\<rparr> \<and>
    0 \<le> g_generations_remaining g \<and> find_gift (g_id g) s = None \<and> grant_key g \<notin> grant_key ` set (gifts s)"
  then have s': "gifts s' = gifts s @ [g]" "gift_codes s' = gift_codes s" by simp_all
  have fg: "find_gift k s = Some h \<Longrightarrow> find_gift k s' = Some h" for k h
    by (simp add: find_gift_def s' find_by_append)
  have sw: "sent_with k s = Some h \<Longrightarrow> sent_with k s' = Some h" for k h
    by (simp add: sent_with_def s' find_by_append)
  have fc: "find_code k s' = find_code k s" for k by (simp add: find_code_def s')
  have chain: "chain_gift_ok s h \<Longrightarrow> chain_gift_ok s' h" for h
    by (simp add: chain_gift_ok_def fc)
  have ret: "returned_gift_ok s h \<Longrightarrow> returned_gift_ok s' h" for h
    using sw by (fastforce simp: returned_gift_ok_def s')
  have code: "code_of_gift s c \<Longrightarrow> code_of_gift s' c" for c
    using fg by (fastforce simp: code_of_gift_def)
  have one: "one_letter_per_gift s'"
    unfolding one_letter_per_gift_def
  proof (intro ballI impI)
    fix h k assume m: "h \<in> set (gifts s')" "k \<in> set (gifts s')"
      and e: "g_consumed_by_letter_id h \<noteq> None \<and> g_consumed_by_letter_id h = g_consumed_by_letter_id k"
    with row(2) have "h \<noteq> g" "k \<noteq> g" by auto
    with m have "h \<in> set (gifts s)" "k \<in> set (gifts s)" by (simp_all add: s')
    with e gifts_okD(5) [OF ok] show "h = k" unfolding one_letter_per_gift_def by blast
  qed
  have d: "distinct (map g_id (gifts s'))" "distinct (map grant_key (gifts s'))"
    using gifts_okD(6,7) [OF ok] a by (simp_all add: s' find_gift_def find_by_None_iff)
  show ?thesis
  proof (rule gifts_okI [OF d _ _ _ one])
    show "gift_row_ok h \<and> chain_gift_ok s' h \<and> returned_gift_ok s' h" if "h \<in> set (gifts s')" for h
    proof (cases "h = g")
      case True
      with row(1) src chain ret show ?thesis by simp
    next
      case False
      with that have "h \<in> set (gifts s)" by (simp add: s')
      with gifts_okD(1-3) [OF ok] chain ret show ?thesis by simp
    qed
    show "code_of_gift s' c" if "c \<in> set (gift_codes s')" for c
      using that code gifts_okD(4) [OF ok] by (simp add: s')
  qed (use gifts_okD [OF ok] s' in simp_all)
qed

lemma insert_code_Inr:
  assumes "insert_code c s = Inr (b, s')"
  shows "(\<not> b \<and> s' = s) \<or> (b \<and> s' = s\<lparr>gift_codes := gift_codes s @ [c]\<rparr> \<and> isCanonicalGiftCode (gc_code c) \<and>
    0 \<le> gc_grants_generations_remaining c \<and> find_code (gc_code c) s = None \<and>
    gc_gift c \<notin> gc_gift ` set (gift_codes s) \<and> gc_letter c \<notin> gc_letter ` set (gift_codes s))"
  using assms by (auto simp: insert_code_def list_ex_iff split: if_splits)

lemma gifts_ok_insert_code:
  assumes ok: "gifts_ok s" and ins: "insert_code c s = Inr (b, s')" and of: "code_of_gift s c"
    and fresh: "\<forall>g\<in>set (gifts s). g_source g = Gs_send_failed \<longrightarrow> g_source_reference_id g \<noteq> gc_letter c"
  shows "gifts_ok s'"
  using insert_code_Inr [OF ins]
proof
  assume "\<not> b \<and> s' = s"
  with ok show ?thesis by simp
next
  assume a: "b \<and> s' = s\<lparr>gift_codes := gift_codes s @ [c]\<rparr> \<and> isCanonicalGiftCode (gc_code c) \<and>
    0 \<le> gc_grants_generations_remaining c \<and> find_code (gc_code c) s = None \<and>
    gc_gift c \<notin> gc_gift ` set (gift_codes s) \<and> gc_letter c \<notin> gc_letter ` set (gift_codes s)"
  then have s': "gifts s' = gifts s" "gift_codes s' = gift_codes s @ [c]" by simp_all
  have fc: "find_code k s = Some d \<Longrightarrow> find_code k s' = Some d" for k d
    by (simp add: find_code_def s' find_by_append)
  have chain: "chain_gift_ok s h \<Longrightarrow> chain_gift_ok s' h" for h
    using fc by (fastforce simp: chain_gift_ok_def)
  have ret: "h \<in> set (gifts s) \<Longrightarrow> returned_gift_ok s h \<Longrightarrow> returned_gift_ok s' h" for h
    using fresh by (auto simp: returned_gift_ok_def s' sent_with_def)
  have code: "code_of_gift s d \<Longrightarrow> code_of_gift s' d" for d
    by (simp add: code_of_gift_def find_gift_def s')
  have "distinct (map gc_code (gift_codes s'))" "distinct (map gc_gift (gift_codes s'))"
    "distinct (map gc_letter (gift_codes s'))"
    using ok a by (auto simp: s' gifts_ok_def find_code_def find_by_None_iff)
  moreover have "one_letter_per_gift s'"
    using gifts_okD(5) [OF ok] unfolding one_letter_per_gift_def s' .
  ultimately show ?thesis
  proof (intro gifts_okI)
    show "gift_row_ok h \<and> chain_gift_ok s' h \<and> returned_gift_ok s' h" if "h \<in> set (gifts s')" for h
      using that gifts_okD(1-3) [OF ok] chain ret by (simp add: s')
    show "code_of_gift s' d" if "d \<in> set (gift_codes s')" for d
      using that code of gifts_okD(4) [OF ok] by (auto simp: s')
  qed (use gifts_okD [OF ok] s' in simp_all)
qed

section \<open>The operations keep it\<close>

lemma keeps_gift_simps [intro!]:
  "keeps_gift (\<lambda>g. g\<lparr>g_status := st\<rparr>)" "keeps_gift (\<lambda>g. g\<lparr>g_source_reversed_at := h g\<rparr>)"
  by (simp_all add: keeps_gift_def grant_key_def)

lemma keeps_code_simps [intro!]: "keeps_code (void_code now r)" "keeps_code (redeem_code now uid)"
  by (simp_all add: keeps_code_def void_code_def redeem_code_def)

lemma expire_gifts_ok: "gifts_ok s \<Longrightarrow> gifts_ok (expire_gifts now uid s)"
  unfolding expire_gifts_def by (rule gifts_ok_upd_gifts) auto

lemma gifts_ok_cong:
  assumes "gifts s' = gifts s" and "gift_codes s' = gift_codes s"
  shows "gifts_ok s' = gifts_ok s"
  using assms by (simp add: gifts_ok_def one_letter_per_gift_def chain_gift_ok_def returned_gift_ok_def
      code_of_gift_def find_gift_def sent_with_def find_code_def)

lemma revoke_ok: "gifts_ok s \<Longrightarrow> gifts_ok (revokeGiftLettersForOrderWithClient now oid cause s)"
proof -
  let ?u1 = "gifts_update (upd_where (\<lambda>g. g_source_order_id g = Some oid \<and> g_status g = G_available)
    (\<lambda>g. g\<lparr>g_status := G_revoked\<rparr>))"
  let ?u2 = "gifts_update (upd_where (\<lambda>g. g_source_order_id g = Some oid \<and> g_status g = G_consumed)
    (\<lambda>g. g\<lparr>g_source_reversed_at := (case g_source_reversed_at g of None \<Rightarrow> Some now | Some t \<Rightarrow> Some t)\<rparr>))"
  assume ok: "gifts_ok s"
  have ok1: "gifts_ok (?u1 s)" using ok by (rule gifts_ok_upd_gifts) auto
  have ok2: "gifts_ok (?u2 (?u1 s))" using ok1 by (rule gifts_ok_upd_gifts) auto
  show ?thesis
    unfolding revokeGiftLettersForOrderWithClient_def Let_def
    using ok2 by (auto intro: gifts_ok_upd_codes)
qed

text \<open>A grant from outside the chain.\<close>

lemma new_gift_fields [simp]:
  "g_consumed_by_letter_id (new_gift now p e i k) = None" "g_status (new_gift now p e i k) = G_available"
  "g_source (new_gift now p e i k) = gp_source p" "g_grant_index (new_gift now p e i k) = i"
  "g_source_reference_id (new_gift now p e i k) = gp_source_reference_id p"
  "g_generations_remaining (new_gift now p e i k) = gp_generations p"
  "g_user (new_gift now p e i k) = gp_user p" "g_expires_at (new_gift now p e i k) = e"
  "g_id (new_gift now p e i k) = k"
  by (simp_all add: new_gift_def)

lemma grant_gifts_ok:
  assumes "grant_gifts now p e idxs s = Inr (gs, s')" and "gifts_ok s" and "0 \<le> gp_generations p"
    and "gp_source p \<noteq> Gs_chain_redemption" and "gp_source p \<noteq> Gs_send_failed"
  shows "gifts_ok s'"
  using assms
proof (induction idxs arbitrary: s gs)
  case Nil
  then show ?case by simp
next
  case (Cons i idxs)
  from Cons.prems(1) obtain r s1 gs1 where
    i: "insert_gift (new_gift now p e i (fresh_gift_id s)) s = Inr (r, s1)"
    and rest: "grant_gifts now p e idxs s1 = Inr (gs1, s')" by (auto simp: bindE_Inr_iff)
  have "gifts_ok s1"
    by (rule gifts_ok_insert_gift [OF Cons.prems(2) i])
      (use Cons.prems in \<open>simp_all add: gift_row_ok_def chain_gift_ok_def returned_gift_ok_def\<close>)
  with Cons.IH [OF rest] Cons.prems show ?case by simp
qed

lemma grantGiftLetters_ok:
  assumes "grantGiftLettersWithClient env now js p s = Inr (gs, s')" and "gifts_ok s"
    and "gp_source p \<noteq> Gs_chain_redemption" and "gp_source p \<noteq> Gs_send_failed"
  shows "gifts_ok s'"
  using assms grant_gifts_ok [of now p _ _ s gs s']
  by (auto simp: grantGiftLettersWithClient_def Let_def split: if_splits)

text \<open>Sending: the gift letter is marked, then its code is minted.\<close>

lemma next_gift_D:
  assumes "next_gift uid s = Some g"
  shows "g \<in> set (gifts s)" and "g_user g = uid" and "g_status g = G_available"
    and "\<And>h. h \<in> set (gifts s) \<Longrightarrow> g_user h = uid \<Longrightarrow> g_status h = G_available \<Longrightarrow> gift_key g \<le> gift_key h"
proof -
  let ?xs = "filter (\<lambda>g. g_user g = uid \<and> g_status g = G_available) (gifts s)"
  from assms obtain gs where gs: "sort_key gift_key ?xs = g # gs"
    by (auto simp: next_gift_def split: list.splits)
  then have "set ?xs = set (g # gs)" by (metis set_sort)
  then show "g \<in> set (gifts s)" "g_user g = uid" "g_status g = G_available" by auto
  have "sorted (map gift_key (g # gs))" by (metis gs sorted_sort_key)
  then have *: "\<forall>h\<in>set (g # gs). gift_key g \<le> gift_key h" by auto
  show "gift_key g \<le> gift_key h" if "h \<in> set (gifts s)" "g_user h = uid" "g_status h = G_available" for h
    using * that \<open>set ?xs = set (g # gs)\<close> by auto
qed

definition fresh_letter :: "string \<Rightarrow> db \<Rightarrow> bool" where
  "fresh_letter l s \<longleftrightarrow> (\<forall>g\<in>set (gifts s). g_consumed_by_letter_id g \<noteq> Some l \<and>
     (g_source g = Gs_send_failed \<longrightarrow> g_source_reference_id g \<noteq> l))"

lemma upd_gift_mark:
  assumes ok: "gifts_ok s" and g: "g \<in> set (gifts s)" "g_status g = G_available" and l: "fresh_letter l s"
  shows "gifts_ok (upd_gift (g_id g) (consume_gift now l) s)"
    and "find_gift (g_id g) (upd_gift (g_id g) (consume_gift now l) s) = Some (consume_gift now l g)"
    and "gift_codes (upd_gift (g_id g) (consume_gift now l) s) = gift_codes s"
    and "\<And>h. h \<in> set (gifts (upd_gift (g_id g) (consume_gift now l) s)) \<Longrightarrow> g_source h = Gs_send_failed \<Longrightarrow>
      g_source_reference_id h \<noteq> l"
proof -
  let ?s = "upd_gift (g_id g) (consume_gift now l) s"
  let ?h = "\<lambda>x. if g_id x = g_id g then consume_gift now l x else x"
  have fields: "g_id (?h x) = g_id x" "g_user (?h x) = g_user x"
    "g_generations_remaining (?h x) = g_generations_remaining x" "grant_key (?h x) = grant_key x"
    "g_source (?h x) = g_source x" "g_source_reference_id (?h x) = g_source_reference_id x"
    "g_grant_index (?h x) = g_grant_index x" for x
    by (simp_all add: consume_gift_def grant_key_def)
  have gs: "gifts ?s = map ?h (gifts s)" by (simp add: upd_gift_def upd_where_def)
  show cs: "gift_codes ?s = gift_codes s" by (simp add: upd_gift_def)
  have only: "x = g" if "x \<in> set (gifts s)" "g_id x = g_id g" for x
    using that g(1) gifts_okD(6) [OF ok] by (metis distinct_map inj_onD)
  have gnone: "g_consumed_by_letter_id g = None"
    using gifts_okD(1) [OF ok g(1)] g(2) by (auto simp: gift_row_ok_def)
  have look: "find_gift k ?s = map_option ?h (find_gift k s)" for k
    unfolding find_gift_def upd_gift_def by (simp add: find_by_upd_where consume_gift_def)
  have sent: "sent_with k ?s = Some h" if "sent_with k s = Some h" for k h
  proof -
    have h: "h \<in> set (gifts s)" "g_consumed_by_letter_id h = Some k"
      using that unfolding sent_with_def by (auto dest: find_by_mem find_by_key)
    have "k \<noteq> l" using h l by (auto simp: fresh_letter_def)
    have "find_by g_consumed_by_letter_id (Some k) (map ?h xs) = find_by g_consumed_by_letter_id (Some k) xs"
      if "set xs \<subseteq> set (gifts s)" for xs
      using that
    proof (induction xs)
      case (Cons x xs)
      have "g_id x = g_id g \<Longrightarrow> g_consumed_by_letter_id x = None"
        using only [of x] gnone Cons.prems by auto
      with Cons \<open>k \<noteq> l\<close> show ?case by (auto simp: consume_gift_def)
    qed simp
    with that show ?thesis by (simp add: sent_with_def gs)
  qed
  show "find_gift (g_id g) ?s = Some (consume_gift now l g)"
  proof -
    have "find_gift (g_id g) s = Some g"
      using find_by_distinct [OF gifts_okD(6) [OF ok] g(1)] by (simp add: find_gift_def)
    then show ?thesis unfolding look by simp
  qed
  show fresh: "g_source_reference_id h \<noteq> l" if "h \<in> set (gifts ?s)" "g_source h = Gs_send_failed" for h
  proof -
    from that(1) obtain x where x: "x \<in> set (gifts s)" "h = ?h x" unfolding gs set_map by blast
    with that(2) l show ?thesis by (simp only: fields fresh_letter_def) blast
  qed
  show "gifts_ok ?s"
  proof (rule gifts_okI)
    have "map g_id (gifts ?s) = map g_id (gifts s)" "map grant_key (gifts ?s) = map grant_key (gifts s)"
      unfolding gs map_map comp_def fields by simp_all
    then show "distinct (map g_id (gifts ?s))" "distinct (map grant_key (gifts ?s))"
      using gifts_okD(6,7) [OF ok] by simp_all
    show "one_letter_per_gift ?s"
      unfolding one_letter_per_gift_def
    proof (intro ballI impI)
      fix a b assume m: "a \<in> set (gifts ?s)" "b \<in> set (gifts ?s)"
        and e: "g_consumed_by_letter_id a \<noteq> None \<and> g_consumed_by_letter_id a = g_consumed_by_letter_id b"
      from m obtain x y where x: "x \<in> set (gifts s)" "a = ?h x" and y: "y \<in> set (gifts s)" "b = ?h y"
        unfolding gs set_map by blast
      have none: "g_id z = g_id g \<longleftrightarrow> g_consumed_by_letter_id (?h z) = Some l" if "z \<in> set (gifts s)" for z
        using that l by (auto simp: consume_gift_def fresh_letter_def)
      have "g_id x = g_id g \<longleftrightarrow> g_id y = g_id g" using none [OF x(1)] none [OF y(1)] e x y by simp
      then show "a = b"
      proof (cases "g_id x = g_id g")
        case True
        with \<open>(g_id x = g_id g) = (g_id y = g_id g)\<close> have "x = y" using only x y by metis
        with x y show ?thesis by simp
      next
        case False
        with \<open>(g_id x = g_id g) = (g_id y = g_id g)\<close> x y e gifts_okD(5) [OF ok]
        show ?thesis unfolding one_letter_per_gift_def by auto
      qed
    qed
    show "gift_row_ok a \<and> chain_gift_ok ?s a \<and> returned_gift_ok ?s a" if a: "a \<in> set (gifts ?s)" for a
    proof -
      obtain x where x: "x \<in> set (gifts s)" "a = ?h x" using a unfolding gs set_map by blast
      have "gift_row_ok a"
        using gifts_okD(1) [OF ok x(1)] x(2) by (auto simp: gift_row_ok_def consume_gift_def)
      moreover have "chain_gift_ok ?s a"
        using gifts_okD(2) [OF ok x(1)] unfolding chain_gift_ok_def x(2) fields find_code_def cs .
      moreover have "returned_gift_ok ?s a"
        using gifts_okD(3) [OF ok x(1)] sent unfolding returned_gift_ok_def x(2) fields cs by blast
      ultimately show ?thesis by simp
    qed
    show "code_of_gift ?s c" if "c \<in> set (gift_codes ?s)" for c
    proof -
      from that cs have "c \<in> set (gift_codes s)" by simp
      from gifts_okD(4) [OF ok this] obtain k where k: "find_gift (gc_gift c) s = Some k"
        "g_consumed_by_letter_id k = Some (gc_letter c)" "gc_issued_to c = g_user k"
        "0 \<le> gc_grants_generations_remaining c"
        "gc_grants_generations_remaining c = g_generations_remaining k - 1"
        by (auto simp: code_of_gift_def)
      have "g_id k \<noteq> g_id g"
        using k only [of k] gnone unfolding find_gift_def by (auto dest: find_by_mem)
      with k show ?thesis unfolding code_of_gift_def by (intro exI [of _ k]) (simp add: look)
    qed
  qed (use gifts_okD(8-10) [OF ok] cs in simp_all)
qed

lemma mint_attempts_ok:
  assumes "mint_attempts n codes g l e s = Inr (r, s')" and "gifts_ok s"
    and "find_gift (g_id g) s = Some h" "g_consumed_by_letter_id h = Some l" "g_user h = g_user g"
      "g_generations_remaining h = g_generations_remaining g" "0 < g_generations_remaining g"
    and "\<forall>x\<in>set (gifts s). g_source x = Gs_send_failed \<longrightarrow> g_source_reference_id x \<noteq> l"
  shows "gifts_ok s'" and "gifts s' = gifts s" and "\<exists>c. gift_codes s' = gift_codes s @ [c] \<and> gc_gift c = g_id g \<and>
    gc_letter c = l \<and> gc_code c = fst r \<and> gc_status c = Gc_issued \<and> isCanonicalGiftCode (fst r) \<and>
    gc_grants_generations_remaining c = g_generations_remaining g - 1 \<and> gc_expires_at c = e \<and> snd r = e"
proof -
  have "gifts_ok s' \<and> gifts s' = gifts s \<and> (\<exists>c. gift_codes s' = gift_codes s @ [c] \<and> gc_gift c = g_id g \<and>
    gc_letter c = l \<and> gc_code c = fst r \<and> gc_status c = Gc_issued \<and> isCanonicalGiftCode (fst r) \<and>
    gc_grants_generations_remaining c = g_generations_remaining g - 1 \<and> gc_expires_at c = e \<and> snd r = e)"
    using assms
  proof (induction n arbitrary: s)
    case 0
    then show ?case by simp
  next
    case (Suc n)
    let ?c = "new_code (codes (4 - n)) g l e"
    from Suc.prems(1) obtain b s1 where i: "insert_code ?c s = Inr (b, s1)"
      and rest: "(if b then Inr ((codes (4 - n), e), s1) else mint_attempts n codes g l e s1) = Inr (r, s')"
      by (auto split: sum.splits)
    have of: "code_of_gift s ?c"
      using Suc.prems by (simp add: code_of_gift_def new_code_def)
    have ok1: "gifts_ok s1"
      by (rule gifts_ok_insert_code [OF Suc.prems(2) i of]) (use Suc.prems(8) in \<open>simp add: new_code_def\<close>)
    show ?case
    proof (cases b)
      case True
      with rest insert_code_Inr [OF i] ok1 show ?thesis by (auto simp: new_code_def)
    next
      case False
      with insert_code_Inr [OF i] have "s1 = s" by simp
      with False rest have "mint_attempts n codes g l e s = Inr (r, s')" by simp
      with Suc.IH Suc.prems show ?thesis by blast
    qed
  qed
  then show "gifts_ok s'" "gifts s' = gifts s" "\<exists>c. gift_codes s' = gift_codes s @ [c] \<and> gc_gift c = g_id g \<and>
    gc_letter c = l \<and> gc_code c = fst r \<and> gc_status c = Gc_issued \<and> isCanonicalGiftCode (fst r) \<and>
    gc_grants_generations_remaining c = g_generations_remaining g - 1 \<and> gc_expires_at c = e \<and> snd r = e"
    by blast+
qed

lemma expire_gifts_fresh: "fresh_letter l s \<Longrightarrow> fresh_letter l (expire_gifts now uid s)"
  by (auto simp: fresh_letter_def expire_gifts_def set_upd_where)

lemma consume_ok:
  assumes "consumeGiftLetterForSendWithClient env now js codes uid l mailsAt s = Inr (r, s')"
    and ok: "gifts_ok s" and fresh: "fresh_letter l s"
  shows "gifts_ok s'"
proof -
  let ?s1 = "expire_gifts now uid s"
  have ok1: "gifts_ok ?s1" by (rule expire_gifts_ok [OF ok])
  show ?thesis
  proof (cases "next_gift uid ?s1")
    case None
    with assms(1) ok1 show ?thesis by (simp add: consumeGiftLetterForSendWithClient_def Let_def)
  next
    case (Some g)
    let ?s2 = "upd_gift (g_id g) (consume_gift now l) ?s1"
    note mark = upd_gift_mark [OF ok1 next_gift_D(1,3) [OF Some] expire_gifts_fresh [OF fresh], where now = now]
    from assms(1) Some consider "s' = ?s2"
      | c e where "0 < g_generations_remaining g" "mintChainCode env js codes g l mailsAt ?s2 = Inr ((c, e), s')"
      by (auto simp: consumeGiftLetterForSendWithClient_def Let_def split: option.splits if_splits sum.splits)
    then show ?thesis
    proof cases
      case 1
      with mark(1) show ?thesis by simp
    next
      case 2
      from 2(2) show ?thesis
        unfolding mintChainCode_def Let_def
        by (rule mint_attempts_ok(1) [OF _ mark(1,2)])
          (use mark(4) 2(1) in \<open>auto simp: consume_gift_def\<close>)
    qed
  qed
qed

text \<open>Redeeming: the code is marked, then its gift letter is granted.\<close>

lemma find_code_D: "find_code k s = Some c \<Longrightarrow> c \<in> set (gift_codes s) \<and> gc_code c = k"
  unfolding find_code_def by (auto dest: find_by_mem find_by_key)

lemma codeState_issued: "codeState js c = None \<Longrightarrow> gc_status c = Gc_issued"
  by (cases "gc_status c") (auto simp: codeState_def)

lemma redeem_locked_granted:
  assumes "redeem_locked env now js uid code s = Inr (Redeem_granted n e, s')" and ok: "gifts_ok s"
  obtains row ex g where "find_code code s = Some row" and "codeState js row = None"
    and "0 \<le> gc_grants_generations_remaining row"
    and "insert_gift (new_gift now (chain_grant uid (gc_grants_generations_remaining row) code) ex 0
      (fresh_gift_id (upd_code code (redeem_code now uid) s))) (upd_code code (redeem_code now uid) s) = Inr (g, s')"
    and "n = (case g of None \<Rightarrow> 0 | Some _ \<Rightarrow> 1)"
proof -
  from assms(1) obtain row where row: "find_code code s = Some row" "codeState js row = None"
    by (auto simp: redeem_locked_def split: option.splits)
  let ?p = "chain_grant uid (gc_grants_generations_remaining row) code"
  let ?s2 = "upd_code code (redeem_code now uid) s"
  from assms(1) row obtain gs where g: "grantGiftLettersWithClient env now js ?p ?s2 = Inr (gs, s')" and n: "n = length gs"
    by (auto simp: redeem_locked_def bindE_Inr_iff)
  have nonneg: "0 \<le> gc_grants_generations_remaining row"
    using gifts_okD(4) [OF ok, of row] find_code_D [OF row(1)] by (auto simp: code_of_gift_def)
  from g nonneg obtain ex r1 where "insert_gift (new_gift now ?p ex 0 (fresh_gift_id ?s2)) ?s2 = Inr (r1, s')"
    and "gs = (case r1 of None \<Rightarrow> [] | Some g \<Rightarrow> [g])"
    by (auto simp: grantGiftLettersWithClient_def chain_grant_def Let_def bindE_Inr_iff)
  with row nonneg n that show ?thesis by (auto split: option.splits)
qed

lemma redeem_marked:
  assumes ok: "gifts_ok s" and row: "find_code code s = Some row" "codeState js row = None"
  shows "gifts_ok (upd_code code (redeem_code now uid) s)"
    and "find_code code (upd_code code (redeem_code now uid) s) = Some (redeem_code now uid row)"
proof -
  have only: "c = row" if "c \<in> set (gift_codes s)" "gc_code c = code" for c
    using that find_code_D [OF row(1)] gifts_okD(8) [OF ok] by (metis distinct_map inj_onD)
  show "gifts_ok (upd_code code (redeem_code now uid) s)"
    unfolding upd_code_def
    by (rule gifts_ok_upd_codes [OF ok]) (use only codeState_issued [OF row(2)] in auto)
  show "find_code code (upd_code code (redeem_code now uid) s) = Some (redeem_code now uid row)"
    unfolding upd_code_def
    using find_code_upd_where [of "redeem_code now uid" code "\<lambda>c. gc_code c = code" s] row(1) find_code_D [OF row(1)]
    by (simp add: keeps_code_simps)
qed

lemma redeem_locked_ok:
  assumes "redeem_locked env now js uid code s = Inr (r, s')" and ok: "gifts_ok s"
  shows "gifts_ok s'"
proof (cases r)
  case (Redeem_refused x)
  with assms show ?thesis by (auto simp: redeem_locked_def bindE_Inr_iff split: option.splits)
next
  case (Redeem_granted n e)
  with assms(1) have "redeem_locked env now js uid code s = Inr (Redeem_granted n e, s')" by simp
  then obtain row ex g where row: "find_code code s = Some row" "codeState js row = None"
    and nonneg: "0 \<le> gc_grants_generations_remaining row"
    and i: "insert_gift (new_gift now (chain_grant uid (gc_grants_generations_remaining row) code) ex 0
      (fresh_gift_id (upd_code code (redeem_code now uid) s))) (upd_code code (redeem_code now uid) s) = Inr (g, s')"
    by (rule redeem_locked_granted [OF _ ok])
  show ?thesis
    by (rule gifts_ok_insert_gift [OF redeem_marked(1) [OF ok row] i])
      (use redeem_marked(2) [OF ok row] nonneg in \<open>simp_all add: gift_row_ok_def chain_gift_ok_def
         returned_gift_ok_def chain_grant_def redeem_code_def\<close>)
qed

lemma redeem_ok:
  assumes "redeem_transaction env now js uid email code s = Inr (r, s')" and "gifts_ok s"
  shows "gifts_ok s'"
proof -
  from assms(1) obtain u s1 where e: "ensureAccountRowWithClient now uid email 0 False s = Inr (u, s1)"
    and rest: "redeem_locked env now js uid code s1 = Inr (r, s')"
    by (auto simp: redeem_transaction_def bindE_Inr_iff)
  have "gifts s1 = gifts s" "gift_codes s1 = gift_codes s" by (subst ensureAccountRow_frame [OF e], simp)+
  then have "gifts_ok s1" using assms(2) gifts_ok_cong [of s1 s] by simp
  with rest show ?thesis by (rule redeem_locked_ok)
qed

section \<open>Returning\<close>

definition gift_returned :: "string \<Rightarrow> db \<Rightarrow> bool" where
  "gift_returned l s = list_ex (\<lambda>g. g_source g = Gs_send_failed \<and> g_source_reference_id g = l) (gifts s)"

lemma find_sent:
  "List.find (\<lambda>g. g_consumed_by_letter_id g = Some l \<and> g_user g = uid) xs = Some g \<Longrightarrow>
   g \<in> set xs \<and> g_consumed_by_letter_id g = Some l \<and> g_user g = uid"
  by (auto simp: find_Some_iff)

lemma return_gift_cases:
  assumes "returnGiftLetterForFailedSendWithClient env now js l uid fc cancelled s = Inr (n, s')" and ok: "gifts_ok s"
  obtains (nothing) "n = 0" "s' = s"
  | (voided) "n = 0" "gifts_ok s'" "gifts s' = gifts s"
  | (returned) g r s1 ex where "n = 1" "\<not> gift_returned l s" "g \<in> set (gifts s)"
      "g_consumed_by_letter_id g = Some l" "g_user g = uid" "g_source_reversed_at g = None"
      "gifts_ok s1" "gifts s1 = gifts s" "\<forall>c\<in>set (gift_codes s1). gc_letter c = l \<longrightarrow> gc_status c = Gc_void"
      "\<forall>c\<in>set (gift_codes s). gc_letter c = l \<longrightarrow> gc_status c \<noteq> Gc_redeemed"
      "ex = return_expiry env js cancelled g"
      "insert_gift (returned_gift now uid l g ex (fresh_gift_id s1)) s1 = Inr (r, s')"
proof (cases "gift_returned l s \<or> (\<nexists>g. List.find (\<lambda>g. g_consumed_by_letter_id g = Some l \<and> g_user g = uid) (gifts s) = Some g)")
  case True
  with assms(1) show ?thesis
    by (intro that(1)) (auto simp: returnGiftLetterForFailedSendWithClient_def gift_returned_def split: option.splits if_splits)
next
  case False
  then obtain g where nr: "\<not> gift_returned l s"
    and g: "List.find (\<lambda>g. g_consumed_by_letter_id g = Some l \<and> g_user g = uid) (gifts s) = Some g" by blast
  let ?code = "List.find (\<lambda>c. gc_letter c = l) (gift_codes s)"
  let ?r = "if cancelled then ''send_cancelled'' else ''send_failed''"
  define s1 where "s1 = (case ?code of
      Some c \<Rightarrow> if gc_status c = Gc_issued then upd_code (gc_code c) (void_code now ?r) s else s | None \<Rightarrow> s)"
  have letter: "c = d" if "c \<in> set (gift_codes s)" "d \<in> set (gift_codes s)" "gc_letter c = l" "gc_letter d = l" for c d
    using that gifts_okD(10) [OF ok] by (metis distinct_map inj_onD)
  have code: "?code = Some c \<longleftrightarrow> c \<in> set (gift_codes s) \<and> gc_letter c = l" for c
    using find_by_mem [of gc_letter l "gift_codes s" c] find_by_key [of gc_letter l "gift_codes s" c]
      find_by_distinct [OF gifts_okD(10) [OF ok], of c] unfolding find_by_def by blast
  show ?thesis
  proof (cases "map_option gc_status ?code = Some Gc_redeemed")
    case True
    with assms(1) nr g have "n = 0" "s' = s"
      by (simp_all add: returnGiftLetterForFailedSendWithClient_def gift_returned_def)
    then show ?thesis by (rule that(1))
  next
    case live: False
    have s1_ok: "gifts_ok s1 \<and> gifts s1 = gifts s \<and>
      (\<forall>c\<in>set (gift_codes s1). gc_letter c = l \<longrightarrow> gc_status c = Gc_void)"
    proof (cases ?code)
      case None
      then have "\<forall>c\<in>set (gift_codes s). gc_letter c \<noteq> l" by (simp add: find_None_iff)
      with None ok show ?thesis by (simp add: s1_def)
    next
      case (Some c)
      then have c: "c \<in> set (gift_codes s)" "gc_letter c = l" using code by simp_all
      have key: "d = c" if "d \<in> set (gift_codes s)" "gc_code d = gc_code c" for d
        using that c(1) gifts_okD(8) [OF ok] by (metis distinct_map inj_onD)
      show ?thesis
      proof (cases "gc_status c = Gc_issued")
        case True
        with Some have s1: "s1 = gift_codes_update (upd_where (\<lambda>d. gc_code d = gc_code c) (void_code now ?r)) s"
          by (simp add: s1_def upd_code_def)
        have issued: "gc_status d = Gc_issued" if "d \<in> set (gift_codes s)" "gc_code d = gc_code c" for d
          using key [OF that] True by simp
        have "gifts_ok s1"
          unfolding s1 by (rule gifts_ok_upd_codes [OF ok keeps_code_simps(1) issued])
        moreover have "gc_status d = Gc_void" if "d \<in> set (gift_codes s1)" "gc_letter d = l" for d
        proof -
          from that(1) obtain x where x: "x \<in> set (gift_codes s)"
            "d = (if gc_code x = gc_code c then void_code now ?r x else x)"
            unfolding s1 by (auto simp: set_upd_where)
          have "gc_letter d = gc_letter x" unfolding x(2) by (simp add: void_code_def)
          with that(2) have "x = c" using letter [OF x(1) c(1)] c(2) by simp
          with x(2) show ?thesis by (simp add: void_code_def)
        qed
        ultimately show ?thesis by (simp add: s1)
      next
        case False
        with Some live have "gc_status c = Gc_void" by (cases "gc_status c") auto
        moreover have "s1 = s" using Some False by (simp add: s1_def)
        ultimately show ?thesis using ok letter [OF c(1)] c(2) by metis
      qed
    qed
    have res: "(if g_source_reversed_at g \<noteq> None then Inr (0, s1)
        else bindE (insert_gift (returned_gift now uid l g (return_expiry env js cancelled g) (fresh_gift_id s1)) s1)
          (\<lambda>(_, s2). Inr (1, s2))) = Inr (n, s')"
      using assms(1) unfolding s1_def
      by (simp only: returnGiftLetterForFailedSendWithClient_def nr [unfolded gift_returned_def] g live
          if_False option.case Let_def)
    show ?thesis
    proof (cases "g_source_reversed_at g")
      case (Some t)
      with res have "n = 0" "s' = s1" by simp_all
      with s1_ok show ?thesis by (intro that(2)) simp_all
    next
      case None
      with res obtain r where i: "n = 1"
        "insert_gift (returned_gift now uid l g (return_expiry env js cancelled g) (fresh_gift_id s1)) s1 = Inr (r, s')"
        by (auto simp: bindE_Inr_iff)
      have "\<forall>c\<in>set (gift_codes s). gc_letter c = l \<longrightarrow> gc_status c \<noteq> Gc_redeemed"
        using live code by fastforce
      with that(3) [OF i(1) nr _ _ _ None _ _ _ _ refl i(2)] find_sent [OF g] s1_ok show ?thesis by blast
    qed
  qed
qed

lemma returned_gift_fields [simp]:
  "g_source (returned_gift now uid l g e k) = Gs_send_failed"
  "g_source_reference_id (returned_gift now uid l g e k) = l" "g_grant_index (returned_gift now uid l g e k) = 0"
  "g_consumed_by_letter_id (returned_gift now uid l g e k) = None"
  "g_status (returned_gift now uid l g e k) = G_available"
  "g_generations_remaining (returned_gift now uid l g e k) = g_generations_remaining g"
  "g_user (returned_gift now uid l g e k) = uid" "g_expires_at (returned_gift now uid l g e k) = e"
  by (simp_all add: returned_gift_def)

lemma sent_with_unique:
  assumes "gifts_ok s" and "g \<in> set (gifts s)" and "g_consumed_by_letter_id g = Some l"
  shows "sent_with l s = Some g"
proof (cases "sent_with l s")
  case None
  with assms show ?thesis by (auto simp: sent_with_def find_by_None_iff image_iff)
next
  case (Some h)
  then have "h \<in> set (gifts s)" "g_consumed_by_letter_id h = Some l"
    unfolding sent_with_def by (auto dest: find_by_mem find_by_key)
  with one_letterD [OF gifts_okD(5) [OF assms(1)] assms(2) _ assms(3)] Some show ?thesis by simp
qed

lemma return_gift_ok:
  assumes "returnGiftLetterForFailedSendWithClient env now js l uid fc cancelled s = Inr (n, s')" and "gifts_ok s"
  shows "gifts_ok s'"
  using assms
proof (cases rule: return_gift_cases)
  case (returned g r s1 ex)
  have "sent_with l s1 = Some g"
    using returned sent_with_unique [of s1 g l] by simp
  then show ?thesis
    by (intro gifts_ok_insert_gift [OF returned(7) returned(12)])
      (use returned gifts_okD(1) [OF assms(2) returned(3)] in \<open>simp_all add: gift_row_ok_def
         chain_gift_ok_def returned_gift_ok_def\<close>)
qed (use assms in simp_all)

lemma return_gift_marks:
  assumes "returnGiftLetterForFailedSendWithClient env now js l uid fc cancelled s = Inr (n, s')" and "n \<noteq> 0"
  shows "gift_returned l s'"
proof -
  from assms obtain s1 g r where i: "insert_gift (returned_gift now uid l g (return_expiry env js cancelled g)
      (fresh_gift_id s1)) s1 = Inr (r, s')"
    by (auto simp: returnGiftLetterForFailedSendWithClient_def Let_def bindE_Inr_iff split: if_splits option.splits)
  then show ?thesis
    by (auto simp: insert_gift_def gift_returned_def same_grant_def list_ex_iff split: if_splits)
qed

lemma return_gift_already:
  "gift_returned l s \<Longrightarrow> returnGiftLetterForFailedSendWithClient env now js l uid fc cancelled s = Inr (0, s)"
  by (simp add: returnGiftLetterForFailedSendWithClient_def gift_returned_def)

interpretation gift_return: exactly_once
  "returnGiftLetterForFailedSendWithClient env now js l uid fc cancelled" "gift_returned l"
  for env now js l uid fc cancelled
  by unfold_locales (auto intro: return_gift_already return_gift_marks)

end
