(* ===== verification/GiftProps.thy ===== *)
theory GiftProps
  imports GiftLaws
begin

text \<open>
  Gift letters as a whole: the services' operations as a step relation, the chains they
  build, and the properties of granting, sending, redeeming, returning and revoking.
\<close>

section \<open>Runs\<close>

text \<open>
  A send names a letter its transaction has just inserted, so no gift was sent or returned
  for it before. Grants from outside the chain come from packs, seed campaigns and operators.
\<close>

inductive gift_step :: "db \<Rightarrow> db \<Rightarrow> bool" where
  opens: "createUser now uid em s = Inr (u, s') \<Longrightarrow> gift_step s s'"
| grants: "grantGiftLettersWithClient env now js p s = Inr (gs, s') \<Longrightarrow>
    gp_source p \<in> {Gs_pack_purchase, Gs_seed_redemption, Gs_operator} \<Longrightarrow> gift_step s s'"
| sends: "consumeGiftLetterForSendWithClient env now js codes uid l mailsAt s = Inr (r, s') \<Longrightarrow>
    fresh_letter l s \<Longrightarrow> gift_step s s'"
| redeems: "redeem_transaction env now js uid email code s = Inr (r, s') \<Longrightarrow> gift_step s s'"
| returns: "returnGiftLetterForFailedSendWithClient env now js l uid fc cancelled s = Inr (n, s') \<Longrightarrow> gift_step s s'"
| revokes: "gift_step s (revokeGiftLettersForOrderWithClient now oid cause s)"

lemma opens_gift_ok: "createUser now uid em s = Inr (u, s') \<Longrightarrow> gifts s' = gifts s \<and> gift_codes s' = gift_codes s"
  by (auto simp: createUser_def Let_def split: option.splits if_splits)

lemma gift_step_keeps: "gift_step s s' \<Longrightarrow> gifts_ok s \<Longrightarrow> gifts_ok s'"
proof (induction rule: gift_step.induct)
  case (opens now uid em s u s')
  with opens_gift_ok [OF opens(1)] gifts_ok_cong [of s' s] show ?case by simp
next
  case (grants env now js p s gs s')
  then show ?case by (auto intro: grantGiftLetters_ok)
qed (auto intro: consume_ok redeem_ok return_gift_ok revoke_ok)

interpretation gift_run: kept_by_steps gift_step gifts_ok
  by unfold_locales (rule gift_step_keeps)

definition gift_reachable :: "db \<Rightarrow> bool" where
  "gift_reachable s \<longleftrightarrow> rtranclp gift_step empty_db s"

lemma gift_reachable_ok: "gift_reachable s \<Longrightarrow> gifts_ok s"
  unfolding gift_reachable_def
  by (erule gift_run.run_keeps) (simp add: gifts_ok_def empty_db_def one_letter_per_gift_def)

section \<open>Chains\<close>

text \<open>The gift letter a code printed with \<open>g\<close> granted, and the one handed back for \<open>g\<close>'s letter.\<close>

definition redeemed_child :: "db \<Rightarrow> gift_letter \<Rightarrow> gift_letter \<Rightarrow> bool" where
  "redeemed_child s g k \<longleftrightarrow> g \<in> set (gifts s) \<and> k \<in> set (gifts s) \<and> g_source k = Gs_chain_redemption \<and>
     list_ex (\<lambda>c. gc_gift c = g_id g \<and> gc_code c = g_source_reference_id k) (gift_codes s)"

definition handed_back :: "db \<Rightarrow> gift_letter \<Rightarrow> gift_letter \<Rightarrow> bool" where
  "handed_back s g k \<longleftrightarrow> g \<in> set (gifts s) \<and> k \<in> set (gifts s) \<and> g_source k = Gs_send_failed \<and>
     g_consumed_by_letter_id g = Some (g_source_reference_id k)"

text \<open>\<open>k\<close> follows \<open>g\<close> after \<open>n\<close> redemptions.\<close>

inductive chain_of :: "db \<Rightarrow> nat \<Rightarrow> gift_letter \<Rightarrow> gift_letter \<Rightarrow> bool" for s where
  chain_start: "g \<in> set (gifts s) \<Longrightarrow> chain_of s 0 g g"
| chain_redeemed: "chain_of s n g h \<Longrightarrow> redeemed_child s h k \<Longrightarrow> chain_of s (Suc n) g k"
| chain_back: "chain_of s n g h \<Longrightarrow> handed_back s h k \<Longrightarrow> chain_of s n g k"

inductive_cases chain_ofE: "chain_of s n g k"

lemma redeemed_childE:
  assumes "redeemed_child s g k" and "gifts_ok s"
  obtains c where "c \<in> set (gift_codes s)" and "gc_gift c = g_id g" and "gc_code c = g_source_reference_id k"
    and "gc_status c = Gc_redeemed" and "g_generations_remaining k = g_generations_remaining g - 1"
    and "g_consumed_by_letter_id g = Some (gc_letter c)" and "g_grant_index k = 0"
proof -
  from assms(1) obtain c where c: "c \<in> set (gift_codes s)" "gc_gift c = g_id g" "gc_code c = g_source_reference_id k"
    and k: "k \<in> set (gifts s)" "g_source k = Gs_chain_redemption" and g: "g \<in> set (gifts s)"
    by (auto simp: redeemed_child_def list_ex_iff)
  have "find_code (g_source_reference_id k) s = Some c"
    using find_by_distinct [OF gifts_okD(8) [OF assms(2)] c(1)] c(3) by (simp add: find_code_def)
  with gifts_okD(2) [OF assms(2) k(1)] k(2) have st: "gc_status c = Gc_redeemed"
    and b: "g_generations_remaining k = gc_grants_generations_remaining c" by (auto simp: chain_gift_ok_def)
  have "find_gift (gc_gift c) s = Some g"
    using find_by_distinct [OF gifts_okD(6) [OF assms(2)] g] c(2) by (simp add: find_gift_def)
  with gifts_okD(4) [OF assms(2) c(1)] have "g_consumed_by_letter_id g = Some (gc_letter c)"
    "gc_grants_generations_remaining c = g_generations_remaining g - 1" by (auto simp: code_of_gift_def)
  with that c st b gifts_okD(1) [OF assms(2) k(1)] k(2) show ?thesis by (simp add: gift_row_ok_def)
qed

lemma handed_backE:
  assumes "handed_back s g k" and "gifts_ok s"
  shows "g_generations_remaining k = g_generations_remaining g" and "g_grant_index k = 0"
    and "\<And>c. c \<in> set (gift_codes s) \<Longrightarrow> Some (gc_letter c) = g_consumed_by_letter_id g \<Longrightarrow> gc_status c = Gc_void"
proof -
  from assms(1) have h: "g \<in> set (gifts s)" "k \<in> set (gifts s)" "g_source k = Gs_send_failed"
    "g_consumed_by_letter_id g = Some (g_source_reference_id k)" by (simp_all add: handed_back_def)
  note r = gifts_okD(3) [OF assms(2) h(2)]
  have "sent_with (g_source_reference_id k) s = Some g" by (rule sent_with_unique [OF assms(2) h(1,4)])
  with r h(3) show "g_generations_remaining k = g_generations_remaining g" by (auto simp: returned_gift_ok_def)
  show "g_grant_index k = 0" using gifts_okD(1) [OF assms(2) h(2)] h(3) by (simp add: gift_row_ok_def)
  show "gc_status c = Gc_void" if "c \<in> set (gift_codes s)" "Some (gc_letter c) = g_consumed_by_letter_id g" for c
    using r h(3,4) that by (auto simp: returned_gift_ok_def)
qed

lemma same_gift:
  assumes "gifts_ok s" and "j \<in> set (gifts s)" and "k \<in> set (gifts s)" and "grant_key j = grant_key k"
  shows "j = k"
  using assms gifts_okD(7) [OF assms(1)] by (metis distinct_map inj_onD)

lemma redeemed_not_handed_back:
  assumes "gifts_ok s" and "redeemed_child s g j" and "handed_back s g k"
  shows False
proof -
  obtain c where c: "c \<in> set (gift_codes s)" "gc_status c = Gc_redeemed"
    "g_consumed_by_letter_id g = Some (gc_letter c)" by (rule redeemed_childE [OF assms(2,1)])
  from handed_backE(3) [OF assms(3,1) c(1)] c show False by simp
qed

lemma chain_budget:
  assumes "gifts_ok s" and "chain_of s n g k"
  shows "g_generations_remaining k = g_generations_remaining g - int n \<and> k \<in> set (gifts s)"
  using assms(2)
proof induction
  case (chain_start g)
  then show ?case by simp
next
  case (chain_redeemed n g h k)
  have "g_generations_remaining k = g_generations_remaining h - 1"
    by (rule redeemed_childE [OF chain_redeemed(2) assms(1)])
  with chain_redeemed show ?case by (simp add: redeemed_child_def)
next
  case (chain_back n g h k)
  with handed_backE(1) [OF chain_back(2) assms(1)] show ?case by (simp add: handed_back_def)
qed

section \<open>A redeemed code stays redeemed\<close>

definition code_spent :: "string \<Rightarrow> db \<Rightarrow> bool" where
  "code_spent code s \<longleftrightarrow> (\<exists>c. find_code code s = Some c \<and> gc_status c = Gc_redeemed)"

lemma code_spent_append:
  "gift_codes s' = gift_codes s @ cs \<Longrightarrow> code_spent code s \<Longrightarrow> code_spent code s'"
  by (auto simp: code_spent_def find_code_def find_by_append)

lemma code_spent_upd:
  assumes "keeps_code f" and "\<And>c. P c \<Longrightarrow> gc_status c = Gc_issued" and "code_spent code s"
  shows "code_spent code (gift_codes_update (upd_where P f) s)"
  using assms(2,3) by (force simp: code_spent_def find_code_upd_where [OF assms(1)])

lemma code_spent_key:
  assumes "keeps_code f" and "find_code k s = Some c" and "gc_status c = Gc_issued" and "code_spent code s"
  shows "code_spent code (upd_code k f s)"
proof -
  obtain d where d: "find_code code s = Some d" "gc_status d = Gc_redeemed" using assms(4) by (auto simp: code_spent_def)
  have "gc_code d \<noteq> k" using d assms(2,3) find_code_D by fastforce
  with d show ?thesis by (simp add: code_spent_def upd_code_def find_code_upd_where [OF assms(1)])
qed

lemma insert_gift_codes: "insert_gift g s = Inr (r, s') \<Longrightarrow> gift_codes s' = gift_codes s"
  by (auto dest: insert_gift_Inr)

lemma grant_gifts_codes: "grant_gifts now p e is s = Inr (gs, s') \<Longrightarrow> gift_codes s' = gift_codes s"
  by (induction "is" arbitrary: s gs) (auto simp: bindE_Inr_iff dest!: insert_gift_codes)

lemma grant_codes: "grantGiftLettersWithClient env now js p s = Inr (gs, s') \<Longrightarrow> gift_codes s' = gift_codes s"
  by (auto simp: grantGiftLettersWithClient_def Let_def dest: grant_gifts_codes split: if_splits)

lemma mint_codes: "mint_attempts n codes g l e s = Inr (r, s') \<Longrightarrow> \<exists>cs. gift_codes s' = gift_codes s @ cs"
proof (induction n arbitrary: s)
  case (Suc n)
  then show ?case by (auto dest!: insert_code_Inr split: sum.splits if_splits)
qed simp

lemma consume_codes:
  assumes "consumeGiftLetterForSendWithClient env now js codes uid l mailsAt s = Inr (r, s')"
  shows "\<exists>cs. gift_codes s' = gift_codes s @ cs"
proof -
  have e: "gift_codes (expire_gifts now uid s) = gift_codes s" by (simp add: expire_gifts_def)
  have m: "gift_codes (upd_gift k f s) = gift_codes s" for k f s by (simp add: upd_gift_def)
  show ?thesis
  proof (cases "next_gift uid (expire_gifts now uid s)")
    case None
    with assms e show ?thesis by (auto simp: consumeGiftLetterForSendWithClient_def Let_def)
  next
    case (Some g)
    let ?s2 = "upd_gift (g_id g) (consume_gift now l) (expire_gifts now uid s)"
    from assms Some have "s' = ?s2 \<or> (\<exists>c e. mintChainCode env js codes g l mailsAt ?s2 = Inr ((c, e), s'))"
      by (auto simp: consumeGiftLetterForSendWithClient_def Let_def split: option.splits if_splits sum.splits)
    then show ?thesis
    proof (elim disjE exE)
      assume "s' = ?s2"
      then show ?thesis using e m by simp
    next
      fix c t assume "mintChainCode env js codes g l mailsAt ?s2 = Inr ((c, t), s')"
      from mint_codes [OF this [unfolded mintChainCode_def Let_def]] show ?thesis by (simp add: e m)
    qed
  qed
qed

lemma redeem_locked_spent:
  assumes "redeem_locked env now js uid k s = Inr (r, s')" and "code_spent code s"
  shows "code_spent code s'"
proof (cases "\<exists>c. find_code k s = Some c \<and> codeState js c = None")
  case False
  with assms show ?thesis by (auto simp: redeem_locked_def split: option.splits)
next
  case True
  then obtain c where c: "find_code k s = Some c" "codeState js c = None" by blast
  with assms(1) obtain gs where "grantGiftLettersWithClient env now js
      (chain_grant uid (gc_grants_generations_remaining c) k) (upd_code k (redeem_code now uid) s) = Inr (gs, s')"
    by (auto simp: redeem_locked_def bindE_Inr_iff)
  from grant_codes [OF this] have "gift_codes s' = gift_codes (upd_code k (redeem_code now uid) s)" .
  with code_spent_key [OF keeps_code_simps(2) c(1) codeState_issued [OF c(2)] assms(2)] show ?thesis
    by (simp add: code_spent_def find_code_def)
qed

lemma return_gift_spent:
  assumes "returnGiftLetterForFailedSendWithClient env now js l uid fc cancelled s = Inr (n, s')"
    and ok: "gifts_ok s" and sp: "code_spent code s"
  shows "code_spent code s'"
proof -
  let ?code = "List.find (\<lambda>c. gc_letter c = l) (gift_codes s)"
  let ?r = "if cancelled then ''send_cancelled'' else ''send_failed''"
  have "gift_codes s' = gift_codes s \<or>
    (\<exists>c. ?code = Some c \<and> gc_status c = Gc_issued \<and> gift_codes s' = gift_codes (upd_code (gc_code c) (void_code now ?r) s))"
    using assms(1) by (auto simp: returnGiftLetterForFailedSendWithClient_def Let_def bindE_Inr_iff
        dest!: insert_gift_codes split: option.splits if_splits)
  then show ?thesis
  proof (elim disjE exE conjE)
    assume "gift_codes s' = gift_codes s"
    with sp show ?thesis by (simp add: code_spent_def find_code_def)
  next
    fix c assume c: "?code = Some c" "gc_status c = Gc_issued"
      and s': "gift_codes s' = gift_codes (upd_code (gc_code c) (void_code now ?r) s)"
    have "c \<in> set (gift_codes s)" using c(1) by (auto simp: find_Some_iff)
    then have "find_code (gc_code c) s = Some c"
      using find_by_distinct [OF gifts_okD(8) [OF ok]] by (simp add: find_code_def)
    from code_spent_key [OF keeps_code_simps(1) this c(2) sp] s' show ?thesis
      by (simp add: code_spent_def find_code_def)
  qed
qed

lemma revoke_spent: "code_spent code s \<Longrightarrow> code_spent code (revokeGiftLettersForOrderWithClient now oid cause s)"
proof -
  assume sp: "code_spent code s"
  have "code_spent code (gifts_update f s)" for f using sp by (simp add: code_spent_def find_code_def)
  then have g: "code_spent code (gifts_update f (gifts_update h s))" for f h
    by (simp add: code_spent_def find_code_def)
  show ?thesis
    unfolding revokeGiftLettersForOrderWithClient_def Let_def
    using g by (auto intro!: code_spent_upd)
qed

lemma gift_step_spent: "gift_step s s' \<Longrightarrow> gifts_ok s \<Longrightarrow> code_spent code s \<Longrightarrow> code_spent code s'"
proof (induction rule: gift_step.induct)
  case (opens now uid em s u s')
  with opens_gift_ok [OF opens(1)] show ?case by (simp add: code_spent_def find_code_def)
next
  case (grants env now js p s gs s')
  with grant_codes [OF grants(1)] show ?case by (simp add: code_spent_def find_code_def)
next
  case (sends env now js codes uid l mailsAt s r s')
  with consume_codes [OF sends(1)] show ?case by (auto intro: code_spent_append)
next
  case (redeems env now js uid email k s r s')
  from redeems(1) obtain u s1 where e: "ensureAccountRowWithClient now uid email 0 False s = Inr (u, s1)"
    and rest: "redeem_locked env now js uid k s1 = Inr (r, s')"
    by (auto simp: redeem_transaction_def bindE_Inr_iff)
  have "gift_codes s1 = gift_codes s" by (subst ensureAccountRow_frame [OF e]) simp
  with redeems(3) have "code_spent code s1" by (simp add: code_spent_def find_code_def)
  with rest show ?case by (rule redeem_locked_spent)
qed (auto intro: return_gift_spent revoke_spent)

interpretation spent_run: kept_by_steps gift_step "\<lambda>s. gifts_ok s \<and> code_spent code s" for code
  by unfold_locales (auto intro: gift_step_keeps gift_step_spent)

section \<open>Properties\<close>

lemma unsent_after_expiry:
  "h \<in> set (gifts s) \<and> unsent_gift now uid h \<longleftrightarrow>
   h \<in> set (gifts (expire_gifts now uid s)) \<and> g_user h = uid \<and> g_status h = G_available"
proof -
  let ?P = "\<lambda>g. g_user g = uid \<and> g_status g = G_available \<and>
    (case g_expires_at g of None \<Rightarrow> False | Some t \<Rightarrow> t \<le> now)"
  let ?f = "\<lambda>g. if ?P g then g\<lparr>g_status := G_expired\<rparr> else g"
  have img: "set (gifts (expire_gifts now uid s)) = ?f ` set (gifts s)"
    by (simp add: expire_gifts_def set_upd_where)
  have live: "unsent_gift now uid x \<longleftrightarrow> g_user x = uid \<and> g_status x = G_available \<and> \<not> ?P x" for x
    by (auto simp: unsent_gift_def split: option.split)
  show ?thesis
  proof
    assume h: "h \<in> set (gifts s) \<and> unsent_gift now uid h"
    then have no: "\<not> ?P h" using live [of h] by blast
    have "?f h = h" by (rule if_not_P [OF no])
    then have "h \<in> ?f ` set (gifts s)" using h [THEN conjunct1] by (rule image_eqI [OF sym])
    moreover have "g_user h = uid \<and> g_status h = G_available" using h by (simp add: unsent_gift_def)
    ultimately show "h \<in> set (gifts (expire_gifts now uid s)) \<and> g_user h = uid \<and> g_status h = G_available"
      unfolding img by (rule conjI)
  next
    assume h: "h \<in> set (gifts (expire_gifts now uid s)) \<and> g_user h = uid \<and> g_status h = G_available"
    then have "h \<in> ?f ` set (gifts s)" unfolding img by (rule conjunct1)
    then obtain x where x: "x \<in> set (gifts s)" "h = ?f x" by (rule imageE)
    have "\<not> ?P x"
    proof
      assume "?P x"
      with x(2) have "g_status h = G_expired" by simp
      with h show False by simp
    qed
    then have "?f x = x" by (rule if_not_P)
    with x(2) have "h = x" by (rule trans)
    with x(1) h \<open>\<not> ?P x\<close> show "h \<in> set (gifts s) \<and> unsent_gift now uid h" unfolding live by blast
  qed
qed

definition lasts_as_long :: "bool \<Rightarrow> instant option \<Rightarrow> instant option \<Rightarrow> bool" where
  "lasts_as_long exactly a b = (case a of None \<Rightarrow> b = None
     | Some x \<Rightarrow> (case b of None \<Rightarrow> False | Some y \<Rightarrow> x \<le> y \<and> (exactly \<longrightarrow> x = y)))"

text \<open>
  C31: the cost bound of gift letters. In every reachable store a chain is a path: a gift
  letter is followed by at most one other, the one its printed code granted or the one handed
  back for its letter, never both; and a chain started with budget b is at most b redemptions
  long, each leaving one less budget. So the free letters that descend from any grant are at
  most its budget.
\<close>

theorem chain_is_a_bounded_path:
  assumes "gift_reachable s"
  shows "((redeemed_child s g j \<or> handed_back s g j) \<and> (redeemed_child s g k \<or> handed_back s g k) \<longrightarrow> j = k) \<and>
    (chain_of s n g k \<longrightarrow> g_generations_remaining k = g_generations_remaining g - int n \<and>
      int n \<le> g_generations_remaining g)"
proof
  have ok: "gifts_ok s" by (rule gift_reachable_ok [OF assms])
  have cc: "x = y" if x: "redeemed_child s g x" and y: "redeemed_child s g y" for x y
  proof -
    obtain c where c: "c \<in> set (gift_codes s)" "gc_gift c = g_id g" "gc_code c = g_source_reference_id x" "g_grant_index x = 0"
      by (rule redeemed_childE [OF x ok])
    obtain d where d: "d \<in> set (gift_codes s)" "gc_gift d = g_id g" "gc_code d = g_source_reference_id y" "g_grant_index y = 0"
      by (rule redeemed_childE [OF y ok])
    have "c = d" using c d gifts_okD(9) [OF ok] by (metis distinct_map inj_onD)
    with c d x y show ?thesis
      by (intro same_gift [OF ok]) (auto simp: redeemed_child_def grant_key_def)
  qed
  have hh: "x = y" if x: "handed_back s g x" and y: "handed_back s g y" for x y
    using x y handed_backE(2) [OF x ok] handed_backE(2) [OF y ok]
    by (intro same_gift [OF ok]) (auto simp: handed_back_def grant_key_def)
  show "(redeemed_child s g j \<or> handed_back s g j) \<and> (redeemed_child s g k \<or> handed_back s g k) \<longrightarrow> j = k"
    using cc hh redeemed_not_handed_back [OF ok] by blast
  show "chain_of s n g k \<longrightarrow> g_generations_remaining k = g_generations_remaining g - int n \<and>
      int n \<le> g_generations_remaining g"
  proof
    assume "chain_of s n g k"
    with chain_budget [OF ok] have "g_generations_remaining k = g_generations_remaining g - int n" "k \<in> set (gifts s)"
      by blast+
    with gifts_okD(1) [OF ok, of k] show "g_generations_remaining k = g_generations_remaining g - int n \<and>
        int n \<le> g_generations_remaining g" by (simp add: gift_row_ok_def)
  qed
qed

text \<open>
  A chain code grants one gift letter, once: a redemption that goes through marks the code,
  grants the redeemer one gift letter with the code's budget and names the code as its
  source, and whatever happens to the gift tables afterwards, every later redemption of the
  same code, by anyone, grants nothing.
\<close>

theorem chain_code_redeemed_once:
  assumes "gift_reachable s" and "redeem_transaction env now js uid email code s = Inr (Redeem_granted n e, s1)"
    and "rtranclp gift_step s1 s2"
  shows "n \<le> 1 \<and>
    (n = 1 \<longrightarrow> (\<exists>c g. find_code code s = Some c \<and> gc_status c = Gc_issued \<and> js < gc_expires_at c \<and>
      gifts s1 = gifts s @ [g] \<and> g_user g = uid \<and> g_source g = Gs_chain_redemption \<and>
      g_source_reference_id g = code \<and> g_generations_remaining g = gc_grants_generations_remaining c)) \<and>
    (\<forall>env' now' js' uid' email' r s3.
      redeem_transaction env' now' js' uid' email' code s2 = Inr (r, s3) \<longrightarrow> r = Redeem_refused Rr_redeemed)"
proof -
  have ok: "gifts_ok s" by (rule gift_reachable_ok [OF assms(1)])
  from assms(2) obtain u sa where e: "ensureAccountRowWithClient now uid email 0 False s = Inr (u, sa)"
    and rest: "redeem_locked env now js uid code sa = Inr (Redeem_granted n e, s1)"
    by (auto simp: redeem_transaction_def bindE_Inr_iff)
  have sa: "gifts sa = gifts s" "gift_codes sa = gift_codes s" by (subst ensureAccountRow_frame [OF e], simp)+
  have oka: "gifts_ok sa" using ok gifts_ok_cong [OF sa] by simp
  from rest obtain row ex g where row: "find_code code sa = Some row" "codeState js row = None"
    and i: "insert_gift (new_gift now (chain_grant uid (gc_grants_generations_remaining row) code) ex 0
      (fresh_gift_id (upd_code code (redeem_code now uid) sa))) (upd_code code (redeem_code now uid) sa) = Inr (g, s1)"
    and n: "n = (case g of None \<Rightarrow> 0 | Some _ \<Rightarrow> 1)"
    by (rule redeem_locked_granted [OF _ oka])
  have rows: "find_code code s = Some row" using row(1) sa by (simp add: find_code_def)
  have state: "gc_status row = Gc_issued" "js < gc_expires_at row"
    using codeState_issued [OF row(2)] row(2) by (auto simp: codeState_def split: if_splits)
  have gifts2: "gifts (upd_code code (redeem_code now uid) sa) = gifts s" using sa by (simp add: upd_code_def)
  have granted: "\<exists>g. gifts s1 = gifts s @ [g] \<and> g_user g = uid \<and> g_source g = Gs_chain_redemption \<and>
      g_source_reference_id g = code \<and> g_generations_remaining g = gc_grants_generations_remaining row" if "n = 1"
    using insert_gift_Inr [OF i] n that gifts2 by (auto simp: chain_grant_def)
  have "find_code code s1 = Some (redeem_code now uid row)"
    using redeem_marked(2) [OF oka row, of now uid] insert_gift_codes [OF i] by (simp add: find_code_def)
  then have sp: "code_spent code s1" by (simp add: code_spent_def redeem_code_def)
  have ok1: "gifts_ok s1" by (rule redeem_ok [OF assms(2) ok])
  have sp2: "gifts_ok s2 \<and> code_spent code s2"
    by (rule spent_run.run_keeps [OF assms(3)]) (use ok1 sp in simp)
  have "r = Redeem_refused Rr_redeemed"
    if "redeem_transaction env' now' js' uid' email' code s2 = Inr (r, s3)" for env' now' js' uid' email' r s3
  proof -
    from that obtain u' sb where e': "ensureAccountRowWithClient now' uid' email' 0 False s2 = Inr (u', sb)"
      and rest': "redeem_locked env' now' js' uid' code sb = Inr (r, s3)"
      by (auto simp: redeem_transaction_def bindE_Inr_iff)
    have "gift_codes sb = gift_codes s2" by (subst ensureAccountRow_frame [OF e']) simp
    with sp2 obtain c where "find_code code sb = Some c" "gc_status c = Gc_redeemed"
      by (auto simp: code_spent_def find_code_def)
    with rest' show ?thesis by (simp add: redeem_locked_def codeState_def)
  qed
  with n granted rows state show ?thesis by (auto split: option.splits)
qed

text \<open>
  A sender cannot redeem the code printed on their own letter, under any address that is
  the same person's, and while gift letters are off no code is redeemed at all.
\<close>

theorem own_code_refused:
  assumes "redeemChainCode env now js uid email rawCode s = Inr (Some (Redeem_granted n e), s')"
  shows "isGiftLettersEnabled env \<and> (\<exists>code c. normalizeGiftCode rawCode = Some code \<and>
    find_code code s = Some c \<and> gc_issued_to c \<noteq> uid \<and>
    (normalizeEmail email = None \<or>
     normalizeEmail email \<noteq> normalizeEmail (map_option u_email (find_user (gc_issued_to c) s))))"
  using assms by (auto simp: redeemChainCode_def redeem_preview_def Let_def bindE_Inr_iff split: option.splits if_splits)

text \<open>
  C32: a failed or cancelled gift send is made good at most once, however often it is attempted,
  and once it was made good the operator's compensation check says so.
\<close>

theorem gift_returned_exactly_once:
  assumes "\<forall>g\<in>set gs. \<forall>s. gift_returned l s \<longrightarrow> gift_returned l (g s)"
    and "attempts_total (returnGiftLetterForFailedSendWithClient env now js l uid fc cancelled) gs s = Inr (n, s')"
  shows "n \<in> {0, 1} \<and> (gift_returned l s \<longrightarrow> n = 0 \<and> isGiftLetterCompensated l s)"
proof -
  have one: "m \<in> {0, 1}" if "returnGiftLetterForFailedSendWithClient env now js l uid fc cancelled t = Inr (m, t')" for m t t'
    using that by (auto simp: returnGiftLetterForFailedSendWithClient_def Let_def bindE_Inr_iff split: option.splits if_splits)
  have "n \<in> {0, 1}"
  proof (cases "n = 0")
    case False
    have "\<exists>t t'. returnGiftLetterForFailedSendWithClient env now js l uid fc cancelled t = Inr (n, t')"
      by (rule gift_return.pays_at_most_once [rotated, OF assms(2) False]) (use assms(1) in blast)
    with one show ?thesis by blast
  qed simp
  moreover have "n = 0" if "gift_returned l s"
    using that by (rule gift_return.marked_pays_nothing [rotated, OF _ assms(2)]) (use assms(1) in blast)
  moreover have "gift_returned l s \<Longrightarrow> isGiftLetterCompensated l s"
    by (auto simp: gift_returned_def isGiftLetterCompensated_def list_ex_iff)
  ultimately show ?thesis by blast
qed

text \<open>
  C33: a gift letter is handed back only for a letter whose code nobody redeemed and whose
  purchase was not reversed; the code is void afterwards, and the new gift letter carries the
  same budget and lasts no less long than the one it replaces (exactly as long when the
  customer cancelled).
\<close>

theorem gift_return_replaces:
  assumes "returnGiftLetterForFailedSendWithClient env now js l uid fc cancelled s = Inr (1, s')" and "gifts_ok s"
  shows "\<exists>g. g \<in> set (gifts s) \<and> g_consumed_by_letter_id g = Some l \<and> g_source_reversed_at g = None \<and>
    (\<forall>c\<in>set (gift_codes s). gc_letter c = l \<longrightarrow> gc_status c \<noteq> Gc_redeemed) \<and>
    (\<forall>c\<in>set (gift_codes s'). gc_letter c = l \<longrightarrow> gc_status c = Gc_void) \<and>
    (\<exists>k. gifts s' = gifts s @ [k] \<and> g_status k = G_available \<and> handed_back s' g k \<and> g_user k = uid \<and>
      g_generations_remaining k = g_generations_remaining g \<and>
      lasts_as_long cancelled (g_expires_at g) (g_expires_at k))"
  using assms
proof (cases rule: return_gift_cases)
  case (returned g r s1 ex)
  let ?k = "returned_gift now uid l g ex (fresh_gift_id s1)"
  have none: "\<not> list_ex (same_grant Gs_send_failed l 0) (gifts s1)"
    using returned(2,8) by (auto simp: gift_returned_def list_ex_iff same_grant_def)
  then have k: "gifts s' = gifts s @ [?k]" "gift_codes s' = gift_codes s1"
    using returned(8,12) by (auto simp: insert_gift_def split: if_splits)
  have "handed_back s' g ?k" using returned(3,4) by (simp add: handed_back_def k)
  moreover have "lasts_as_long cancelled (g_expires_at g) ex"
    using returned(11) by (auto simp: return_expiry_def lasts_as_long_def Let_def split: option.splits)
  ultimately show ?thesis
    using returned k by (intro exI [of _ g]) simp
qed simp_all

text \<open>
  A gift send uses the account's earliest-expiring gift letter that has not run out, and
  its card keeps its promise: a multi-use card prints a live campaign's code as of the moment
  it is printed, a funded card prints a code this send has just minted for that letter with
  one less budget, and only a gift letter with no budget left prints the plain card.
\<close>

theorem gift_send_card:
  assumes "consumeGiftLetterForSendWithClient env now js codes uid l mailsAt s = Inr (Some (g, printed), s')"
    and "gifts_ok s" and "fresh_letter l s"
  shows "g \<in> set (gifts s) \<and> unsent_gift now uid g \<and>
    (\<forall>h\<in>set (gifts s). unsent_gift now uid h \<longrightarrow> gift_key g \<le> gift_key h) \<and>
    (if ca_multi_use printed
     then \<exists>r. find_campaign (the (g_card_campaign_id g)) s = Some r \<and> ca_code printed = Some (pc_code r) \<and>
       seedCodeHold r (case mailsAt of None \<Rightarrow> js | Some t \<Rightarrow> t) = None \<and> gift_codes s' = gift_codes s
     else if ca_state printed = Card_funded
     then \<exists>c. gift_codes s' = gift_codes s @ [c] \<and> ca_code printed = Some (gc_code c) \<and> gc_gift c = g_id g \<and>
       gc_letter c = l \<and> gc_status c = Gc_issued \<and>
       gc_grants_generations_remaining c = g_generations_remaining g - 1
     else g_generations_remaining g = 0 \<and> gift_codes s' = gift_codes s)"
proof -
  let ?s1 = "expire_gifts now uid s"
  let ?s2 = "upd_gift (g_id g) (consume_gift now l) ?s1"
  let ?row = "case g_card_campaign_id g of None \<Rightarrow> None | Some cid \<Rightarrow> find_campaign cid ?s2"
  let ?at = "case mailsAt of None \<Rightarrow> js | Some t \<Rightarrow> t"
  have ok1: "gifts_ok ?s1" by (rule expire_gifts_ok [OF assms(2)])
  from assms(1) have next_g: "next_gift uid ?s1 = Some g"
    by (auto simp: consumeGiftLetterForSendWithClient_def Let_def split: option.splits if_splits sum.splits)
  note d = next_gift_D [OF next_g]
  note mark = upd_gift_mark [OF ok1 d(1,3) expire_gifts_fresh [OF assms(3)], where now = now]
  have fc: "find_campaign cid ?s2 = find_campaign cid s" for cid
    by (simp add: find_campaign_def upd_gift_def expire_gifts_def)
  have cs2: "gift_codes ?s2 = gift_codes s" by (simp add: mark(3)) (simp add: expire_gifts_def)
  have unsent: "h \<in> set (gifts s) \<and> unsent_gift now uid h \<longleftrightarrow>
      h \<in> set (gifts ?s1) \<and> g_user h = uid \<and> g_status h = G_available" for h
    by (rule unsent_after_expiry)
  have order: "g \<in> set (gifts s) \<and> unsent_gift now uid g \<and>
      (\<forall>h\<in>set (gifts s). unsent_gift now uid h \<longrightarrow> gift_key g \<le> gift_key h)"
  proof (intro conjI ballI impI)
    show "g \<in> set (gifts s)" "unsent_gift now uid g" using unsent [of g] d(1-3) by simp_all
    show "gift_key g \<le> gift_key h" if "h \<in> set (gifts s)" "unsent_gift now uid h" for h
      using unsent [of h] that d(4) by simp
  qed
  show ?thesis
  proof (cases "seedCodePrints ?row ?at")
    case True
    then obtain cid r where r: "g_card_campaign_id g = Some cid" "find_campaign cid s = Some r"
      "seedCodeHold r ?at = None"
      by (auto simp: seedCodePrints_def fc split: option.splits)
    with assms(1) next_g True have "printed = seedCard env (pc_code r) (pc_ends_at r) (pc_requires_new_user r)" "s' = ?s2"
      by (simp_all add: consumeGiftLetterForSendWithClient_def Let_def fc)
    with order r cs2 show ?thesis by (simp add: seedCard_def fundedCard_def Let_def)
  next
    case False
    show ?thesis
    proof (cases "0 < g_generations_remaining g")
      case True
      with assms(1) next_g False obtain c e where m: "mintChainCode env js codes g l mailsAt ?s2 = Inr ((c, e), s')"
        and printed: "printed = fundedCard env c (Some e)"
        by (auto simp: consumeGiftLetterForSendWithClient_def Let_def split: sum.splits)
      have h: "g_consumed_by_letter_id (consume_gift now l g) = Some l" "g_user (consume_gift now l g) = g_user g"
        "g_generations_remaining (consume_gift now l g) = g_generations_remaining g"
        by (simp_all add: consume_gift_def)
      have sf: "\<forall>x\<in>set (gifts ?s2). g_source x = Gs_send_failed \<longrightarrow> g_source_reference_id x \<noteq> l"
        using mark(4) by blast
      from mint_attempts_ok(3) [OF m [unfolded mintChainCode_def Let_def] mark(1,2) h True sf]
      obtain d where dd: "gift_codes s' = gift_codes s @ [d]" "gc_gift d = g_id g" "gc_letter d = l" "gc_code d = c"
        "gc_status d = Gc_issued" "gc_grants_generations_remaining d = g_generations_remaining g - 1"
        by (auto simp: cs2)
      have "\<not> ca_multi_use printed" "ca_state printed = Card_funded" "ca_code printed = Some c"
        by (simp_all add: printed fundedCard_def Let_def)
      with order dd show ?thesis by auto
    next
      case no: False
      with assms(1) next_g False have "printed = unfundedCard env" "s' = ?s2"
        by (simp_all add: consumeGiftLetterForSendWithClient_def Let_def)
      moreover have "0 \<le> g_generations_remaining g" using gifts_okD(1) [OF ok1 d(1)] by (simp add: gift_row_ok_def)
      ultimately show ?thesis using order cs2 no by (simp add: unfundedCard_def Let_def)
    qed
  qed
qed

section \<open>A concrete chain\<close>

text \<open>
  An operator grants a gift letter with a budget of two; it is sent, its code is redeemed, and,
  in the other branch, its send fails and it is handed back.
\<close>

definition demo_env :: environment where
  "demo_env = [''LETTER_IRL_GIFT_LETTERS_ENABLED'' \<mapsto> ''on'']"

definition demo_sender :: db where
  "demo_sender = committed empty_db (createUser 0 ''s'' ''s@x.io'' empty_db)"

definition demo_operator_grant :: grant_gift_params where
  "demo_operator_grant = (chain_grant ''s'' 2 ''ticket-1'')\<lparr>gp_source := Gs_operator, gp_parent_code := None\<rparr>"

definition demo_granted :: db where
  "demo_granted = committed demo_sender (grantGiftLettersWithClient demo_env 0 0 demo_operator_grant demo_sender)"

definition demo_posted :: db where
  "demo_posted = committed demo_granted
     (consumeGiftLetterForSendWithClient demo_env 1 1 (\<lambda>i. ''WE1C0ME5'') ''s'' ''letter-1'' None demo_granted)"

definition demo_redeemed :: db where
  "demo_redeemed = committed demo_posted
     (redeem_transaction demo_env 2 2 ''r'' (Some ''r@x.io'') ''WE1C0ME5'' demo_posted)"

definition demo_back :: db where
  "demo_back = committed demo_posted
     (returnGiftLetterForFailedSendWithClient demo_env 3 3 ''letter-1'' ''s'' ''address_rejected'' False demo_posted)"

lemma demo_gift_ok:
  "is_ok (createUser 0 ''s'' ''s@x.io'' empty_db)"
  "is_ok (grantGiftLettersWithClient demo_env 0 0 demo_operator_grant demo_sender)"
  "is_ok (consumeGiftLetterForSendWithClient demo_env 1 1 (\<lambda>i. ''WE1C0ME5'') ''s'' ''letter-1'' None demo_granted)"
  "is_ok (redeem_transaction demo_env 2 2 ''r'' (Some ''r@x.io'') ''WE1C0ME5'' demo_posted)"
  "is_ok (returnGiftLetterForFailedSendWithClient demo_env 3 3 ''letter-1'' ''s'' ''address_rejected'' False demo_posted)"
  by code_simp+

lemma demo_posted_reachable: "gift_reachable demo_granted" "gift_reachable demo_posted"
proof -
  obtain u where "createUser 0 ''s'' ''s@x.io'' empty_db = Inr (u, demo_sender)"
    using demo_gift_ok(1) unfolding demo_sender_def by (rule committed_ok)
  then have 1: "gift_step empty_db demo_sender" by (rule gift_step.opens)
  obtain gs where "grantGiftLettersWithClient demo_env 0 0 demo_operator_grant demo_sender = Inr (gs, demo_granted)"
    using demo_gift_ok(2) unfolding demo_granted_def by (rule committed_ok)
  then have 2: "gift_step demo_sender demo_granted"
    by (rule gift_step.grants) (simp add: demo_operator_grant_def)
  obtain r where r: "consumeGiftLetterForSendWithClient demo_env 1 1 (\<lambda>i. ''WE1C0ME5'') ''s'' ''letter-1'' None
      demo_granted = Inr (r, demo_posted)"
    using demo_gift_ok(3) unfolding demo_posted_def by (rule committed_ok)
  have "fresh_letter ''letter-1'' demo_granted" by code_simp
  with r have 3: "gift_step demo_granted demo_posted" by (rule gift_step.sends)
  show "gift_reachable demo_granted" using 1 2 unfolding gift_reachable_def by (meson r_into_rtranclp rtranclp_trans)
  with 3 show "gift_reachable demo_posted" unfolding gift_reachable_def by (meson rtranclp.rtrancl_into_rtrancl)
qed

lemma demo_redeem_run: "redeem_transaction demo_env 2 2 ''r'' (Some ''r@x.io'') ''WE1C0ME5'' demo_posted =
    Inr (Redeem_granted 1 (Some 15552000002), demo_redeemed)"
proof -
  obtain r where r: "redeem_transaction demo_env 2 2 ''r'' (Some ''r@x.io'') ''WE1C0ME5'' demo_posted = Inr (r, demo_redeemed)"
    using demo_gift_ok(4) unfolding demo_redeemed_def by (rule committed_ok)
  have "(case redeem_transaction demo_env 2 2 ''r'' (Some ''r@x.io'') ''WE1C0ME5'' demo_posted of
      Inl _ \<Rightarrow> False | Inr (x, _) \<Rightarrow> x = Redeem_granted 1 (Some 15552000002))" by code_simp
  with r show ?thesis by simp
qed

lemma demo_back_run: "returnGiftLetterForFailedSendWithClient demo_env 3 3 ''letter-1'' ''s'' ''address_rejected'' False
    demo_posted = Inr (1, demo_back)"
proof -
  obtain n where r: "returnGiftLetterForFailedSendWithClient demo_env 3 3 ''letter-1'' ''s'' ''address_rejected'' False
      demo_posted = Inr (n, demo_back)"
    using demo_gift_ok(5) unfolding demo_back_def by (rule committed_ok)
  have "(case returnGiftLetterForFailedSendWithClient demo_env 3 3 ''letter-1'' ''s'' ''address_rejected'' False
      demo_posted of Inl _ \<Rightarrow> False | Inr (x, _) \<Rightarrow> x = 1)" by code_simp
  with r show ?thesis by simp
qed

lemma demo_redeemed_reachable: "gift_reachable demo_redeemed"
  using demo_posted_reachable(2) gift_step.redeems [OF demo_redeem_run] unfolding gift_reachable_def
  by (meson rtranclp.rtrancl_into_rtrancl)

section \<open>Witnesses\<close>

lemma chain_is_a_bounded_path_witness:
  "\<exists>g k. redeemed_child demo_redeemed g k \<and> chain_of demo_redeemed 1 g k \<and>
     g_generations_remaining g = 2 \<and> g_generations_remaining k = 1 \<and>
     {j. redeemed_child demo_redeemed g j} = {k}"
proof -
  let ?g = "gifts demo_redeemed ! 0" and ?k = "gifts demo_redeemed ! 1"
  have c: "redeemed_child demo_redeemed ?g ?k" "?g \<in> set (gifts demo_redeemed)"
    "g_generations_remaining ?g = 2" by code_simp+
  then have "chain_of demo_redeemed (Suc 0) ?g ?k"
    by (auto intro: chain_of.chain_redeemed chain_of.chain_start)
  then have ch: "chain_of demo_redeemed 1 ?g ?k" by simp
  note path = chain_is_a_bounded_path [OF demo_redeemed_reachable]
  have "g_generations_remaining ?k = g_generations_remaining ?g - int 1" using path ch by blast
  then have "g_generations_remaining ?k = 1" unfolding c(3) by simp
  moreover have "{j. redeemed_child demo_redeemed ?g j} = {?k}" using path c(1) by blast
  ultimately show ?thesis using c ch by blast
qed

lemma chain_code_redeemed_once_witness:
  "\<exists>s. redeem_transaction demo_env 9 9 ''q'' (Some ''q@x.io'') ''WE1C0ME5'' demo_redeemed =
     Inr (Redeem_refused Rr_redeemed, s)"
proof -
  have "is_ok (redeem_transaction demo_env 9 9 ''q'' (Some ''q@x.io'') ''WE1C0ME5'' demo_redeemed)" by code_simp
  then obtain r s where "redeem_transaction demo_env 9 9 ''q'' (Some ''q@x.io'') ''WE1C0ME5'' demo_redeemed = Inr (r, s)"
    by (auto simp: is_ok_iff)
  with chain_code_redeemed_once [OF demo_posted_reachable(2) demo_redeem_run rtranclp.rtrancl_refl] show ?thesis by blast
qed

lemma own_code_refused_witness:
  "\<exists>c. find_code ''WE1C0ME5'' demo_posted = Some c \<and> gc_issued_to c \<noteq> ''r''"
proof -
  have "(case redeemChainCode demo_env 2 2 ''r'' (Some ''r@x.io'') ''we1c-ome5'' demo_posted of
      Inr (Some (Redeem_granted n e), s) \<Rightarrow> True | _ \<Rightarrow> False)" by code_simp
  then obtain n e s where r: "redeemChainCode demo_env 2 2 ''r'' (Some ''r@x.io'') ''we1c-ome5'' demo_posted =
      Inr (Some (Redeem_granted n e), s)"
    by (auto split: sum.splits prod.splits option.splits redemption_result.splits)
  have "normalizeGiftCode ''we1c-ome5'' = Some ''WE1C0ME5''" by code_simp
  with own_code_refused [OF r] show ?thesis by auto
qed

lemma gift_returned_exactly_once_witness:
  "attempts_total (returnGiftLetterForFailedSendWithClient demo_env 3 3 ''letter-1'' ''s'' ''address_rejected'' False)
     [\<lambda>s. s, \<lambda>s. s] demo_posted = Inr (1, demo_back) \<and> isGiftLetterCompensated ''letter-1'' demo_back"
proof -
  have m: "gift_returned ''letter-1'' demo_back" by (rule return_gift_marks [OF demo_back_run]) simp
  let ?p = "returnGiftLetterForFailedSendWithClient demo_env 3 3 ''letter-1'' ''s'' ''address_rejected'' False"
  have a: "attempts_total ?p [\<lambda>s. s] demo_back = Inr (0, demo_back)"
    using return_gift_already [OF m] by simp
  have "attempts_total ?p [\<lambda>s. s, \<lambda>s. s] demo_posted = Inr (1, demo_back)"
    using demo_back_run return_gift_already [OF m] by simp
  with gift_returned_exactly_once [OF _ a] m show ?thesis by simp
qed

lemma gift_return_replaces_witness:
  "\<exists>k. gifts demo_back = gifts demo_posted @ [k] \<and> g_generations_remaining k = 2 \<and>
     map gc_status (gift_codes demo_back) = [Gc_void]"
proof -
  have g: "\<forall>g\<in>set (gifts demo_posted). g_generations_remaining g = 2"
    and c: "map gc_letter (gift_codes demo_back) = [''letter-1'']" by code_simp+
  from c obtain c where c: "gift_codes demo_back = [c]" "gc_letter c = ''letter-1''" by (auto simp: map_eq_Cons_conv)
  show ?thesis
    using gift_return_replaces [OF demo_back_run gift_reachable_ok [OF demo_posted_reachable(2)]] g c by auto
qed

lemma gift_send_card_witness:
  "\<exists>c. gift_codes demo_posted = [c] \<and> gc_code c = ''WE1C0ME5'' \<and> gc_grants_generations_remaining c = 1"
proof -
  have "(case consumeGiftLetterForSendWithClient demo_env 1 1 (\<lambda>i. ''WE1C0ME5'') ''s'' ''letter-1'' None demo_granted of
      Inr (Some (g, gcard), s) \<Rightarrow> \<not> ca_multi_use gcard \<and> ca_state gcard = Card_funded \<and>
        ca_code gcard = Some ''WE1C0ME5'' \<and> g_generations_remaining g = 2 | _ \<Rightarrow> False)" by code_simp
  moreover obtain r where r: "consumeGiftLetterForSendWithClient demo_env 1 1 (\<lambda>i. ''WE1C0ME5'') ''s'' ''letter-1'' None
      demo_granted = Inr (r, demo_posted)"
    using demo_gift_ok(3) unfolding demo_posted_def by (rule committed_ok)
  ultimately obtain g gcard where rc: "r = Some (g, gcard)" "\<not> ca_multi_use gcard" "ca_state gcard = Card_funded"
    "ca_code gcard = Some ''WE1C0ME5''" "g_generations_remaining g = 2"
    by (auto split: option.splits)
  have "fresh_letter ''letter-1'' demo_granted" "gift_codes demo_granted = []" by code_simp+
  with gift_send_card [OF r [unfolded rc(1)] gift_reachable_ok [OF demo_posted_reachable(1)]] rc(2-5)
  show ?thesis by auto
qed

end
