(* ===== verification/Outbox.thy ===== *)
theory Outbox
  imports Returns Gifts
begin

text \<open>
  The transactional outbox that mails letters (services/letterJobService.ts, with
  services/heldMail.ts, services/providerFailureSummary.ts, utils/backoff.ts and the refusals
  of services/providers/extraServices.ts): a job per letter is claimed, marked as dispatching,
  submitted to the mail provider once, and settled: accepted, rejected (what paid comes back)
  or held for an operator when nobody can say whether the piece was accepted.

  The provider is a parameter: a record of what it says of itself and of the functions the
  code calls, whose answers are arbitrary. \<open>submissions\<close> of the store records the
  idempotency key of every call that may have reached it.
  Each transaction is one function of the store, so two workers interleave by interleaving
  these functions (OutboxLaws). Row locks are held by one transaction at a time, so inside a
  function nothing changes but by the function. What is printed (the letter's parameters, the
  stored PDF of held mail) is not modelled: it changes no state here.
\<close>

section \<open>Error classes\<close>

text \<open>Of \<open>SAFE_ERROR_CODES\<close>, in the order of the source.\<close>

definition safe_error_codes :: "string list" where
  "safe_error_codes =
     [''ERR_JWT_EXPIRED'', ''ERR_JWT_CLAIM_VALIDATION_FAILED'', ''ERR_JWS_SIGNATURE_VERIFICATION_FAILED'',
      ''ERR_JOSE_ALG_NOT_ALLOWED'', ''ERR_JWKS_NO_MATCHING_KEY'', ''ERR_JWKS_MULTIPLE_MATCHING_KEYS'',
      ''ERR_JWKS_TIMEOUT'', ''ECONNREFUSED'', ''ECONNRESET'', ''ENOTFOUND'', ''ETIMEDOUT'',
      ''23505'', ''23503'', ''23514'', ''42501'', ''28P01'', ''3D000'', ''42P01'', ''55P03'',
      ''render_refused'', ''resource_missing'', ''api_key_expired'', ''amount_too_small'',
      ''amount_too_large'', ''parameter_missing'', ''parameter_invalid_integer'', ''testmode_charges_only'']"

text \<open>
  The code an error carries: its own, or the SQLSTATE of a refused statement. The errors here
  carry no Stripe \<open>type\<close>. A \<open>Coded_error\<close> carries its code as its diagnostic class too, as
  every error of the source that reaches \<open>carriedDiagnosticClass\<close> with a code does.
\<close>

fun error_code :: "error \<Rightarrow> string option" where
  "error_code (Coded_error c m) = Some c"
| "error_code (Check_violation c) = Some ''23514''"
| "error_code (Unique_violation c) = Some ''23505''"
| "error_code (Foreign_key_violation c) = Some ''23503''"
| "error_code _ = None"

definition classifyDiagnosticError :: "error \<Rightarrow> string \<Rightarrow> string" where
  "classifyDiagnosticError e fallback = (case error_code e of
     Some c \<Rightarrow> if c \<in> set safe_error_codes then c else fallback
   | None \<Rightarrow> fallback)"

fun carriedDiagnosticClass :: "error \<Rightarrow> string option" where
  "carriedDiagnosticClass (Coded_error c m) = Some c"
| "carriedDiagnosticClass _ = None"

text \<open>\<open>error.message\<close>; the database's own texts are kept nowhere, so they are not modelled.\<close>

fun message_of :: "error \<Rightarrow> string" where
  "message_of (Error m) = m"
| "message_of (Coded_error c m) = m"
| "message_of _ = []"

section \<open>Settings and backoff\<close>

definition outboxDispatchEnabled :: "environment \<Rightarrow> bool" where
  "outboxDispatchEnabled env = enabledUnlessDisabled ''LETTER_IRL_OUTBOX_DISPATCH_ENABLED'' env"

definition maxAttempts :: "environment \<Rightarrow> nat" where
  "maxAttempts env = (case parseInt10 (or_str (env ''OUTBOX_MAX_ATTEMPTS'') []) of
     None \<Rightarrow> 5
   | Some configured \<Rightarrow> if 0 < configured then nat configured else 5)"

definition stale_lock_ms :: int where "stale_lock_ms = 15 * 60 * 1000"

text \<open>\<open>draw n\<close> is \<open>Math.floor(random() * n)\<close>.\<close>

definition boundedExponentialDelayMs :: "int \<Rightarrow> int \<Rightarrow> nat \<Rightarrow> (int \<Rightarrow> int) \<Rightarrow> int \<Rightarrow> int" where
  "boundedExponentialDelayMs base ceiling attempt draw jitter =
     min (base * 2 ^ (attempt - 1)) ceiling + draw jitter"

definition retryDelayMilliseconds :: "nat \<Rightarrow> (int \<Rightarrow> int) \<Rightarrow> int" where
  "retryDelayMilliseconds attempts draw = boundedExponentialDelayMs 60000 (60 * 60000) attempts draw 1000"

section \<open>Mail held for an operator or for its date (heldMail.ts)\<close>

definition isFundingHoldReason :: "string option \<Rightarrow> bool" where
  "isFundingHoldReason r \<longleftrightarrow> r = Some ''funding_reversed'' \<or> r = Some ''funding_disputed''"

definition fundingHeldJob :: "letter_job \<Rightarrow> bool" where
  "fundingHeldJob j \<longleftrightarrow> j_provider_outcome j = O_not_dispatched \<and> isFundingHoldReason (j_hold_reason j)"

definition leftForOperator :: "db \<Rightarrow> letter_job \<Rightarrow> bool" where
  "leftForOperator s j \<longleftrightarrow> fundingHeldJob j \<or>
     list_ex (\<lambda>l. lt_id l = j_letter j \<and>
       list_ex (\<lambda>u. u_id u = lt_user l \<and> u_sends_blocked_reason u \<noteq> None) (users s)) (letters s)"

definition heldMailJob :: "instant \<Rightarrow> letter_job \<Rightarrow> bool" where
  "heldMailJob now j \<longleftrightarrow> j_status j = J_pending \<and> j_provider_outcome j = O_not_dispatched \<and>
     j_attempts j = 0 \<and> j_mail_hold_until j \<noteq> None \<and> now < j_next_attempt_at j"

section \<open>A new job\<close>

definition new_job :: "environment \<Rightarrow> instant \<Rightarrow> string \<Rightarrow> (instant \<Rightarrow> string) \<Rightarrow> string \<Rightarrow> instant option \<Rightarrow> letter_job" where
  "new_job env now jid to_iso letterId notBefore =
     (let due = (case notBefore of None \<Rightarrow> now | Some t \<Rightarrow> t)
      in \<lparr> j_id = jid, j_letter = letterId, j_status = J_pending, j_attempts = 0,
       j_max_attempts = maxAttempts env, j_scheduled_at = due, j_idempotency_key = letterId,
       j_next_attempt_at = due, j_locked_at = None, j_provider_order_id = None,
       j_provider_outcome = O_not_dispatched, j_provider_dispatch_started_at = None,
       j_held_at = None, j_hold_reason = None, j_mail_hold_until = notBefore,
       j_operator_resolution = None, j_resolved_at = None, j_last_error = None,
       j_error_message = None, j_started_at = None, j_completed_at = None,
       j_metadata = (''source'', JStr ''transactional-outbox'') #
         (case notBefore of None \<Rightarrow> [] | Some t \<Rightarrow> [(''heldUntil'', JStr (to_iso t))]),
       j_created_at = now, j_updated_at = now \<rparr>)"

text \<open>
  \<open>ON CONFLICT (letter_id)\<close> touches the job the letter already has; the two other unique keys
  (the drawn id and the idempotency key) refuse the row. \<open>jid\<close> is the drawn UUID and \<open>to_iso\<close>
  is \<open>toISOString\<close>.
\<close>

definition createLetterJobWithClient ::
  "environment \<Rightarrow> instant \<Rightarrow> string \<Rightarrow> (instant \<Rightarrow> string) \<Rightarrow> string \<Rightarrow> instant option \<Rightarrow> db \<Rightarrow>
   error + letter_job \<times> db" where
  "createLetterJobWithClient env now jid to_iso letterId notBefore s =
     (let j = new_job env now jid to_iso letterId notBefore;
          queued = upd_letter letterId (\<lambda>l. l\<lparr>lt_status := L_queued, lt_updated_at := now\<rparr>)
      in case List.find (\<lambda>r. j_letter r = letterId) (jobs s) of
           Some r \<Rightarrow> Inr (r\<lparr>j_updated_at := now\<rparr>,
             queued (jobs_update (upd_where (\<lambda>r. j_letter r = letterId) (\<lambda>r. r\<lparr>j_updated_at := now\<rparr>)) s))
         | None \<Rightarrow>
             if list_ex (\<lambda>r. j_id r = jid) (jobs s) then Inl (Unique_violation ''letter_jobs_pkey'')
             else if list_ex (\<lambda>r. j_idempotency_key r = letterId) (jobs s)
             then Inl (Unique_violation ''idx_letter_jobs_idempotency_unique'')
             else Inr (j, queued (s\<lparr>jobs := jobs s @ [j]\<rparr>)))"

section \<open>The claim\<close>

definition stale_lock :: "instant \<Rightarrow> letter_job \<Rightarrow> bool" where
  "stale_lock now j = (case j_locked_at j of None \<Rightarrow> False | Some t \<Rightarrow> t < now - stale_lock_ms)"

definition claimable :: "instant \<Rightarrow> db \<Rightarrow> string option \<Rightarrow> letter_job \<Rightarrow> bool" where
  "claimable now s only j \<longleftrightarrow>
     j_attempts j < j_max_attempts j \<and> j_provider_outcome j = O_not_dispatched \<and>
     (case or_null_str only of None \<Rightarrow> True | Some jid \<Rightarrow> j_id j = jid) \<and>
     ((j_status j = J_pending \<or> j_status j = J_failed) \<and> j_next_attempt_at j \<le> now \<and> \<not> leftForOperator s j \<or>
      j_status j = J_processing \<and> stale_lock now j)"

definition claim_key :: "letter_job \<Rightarrow> instant \<times> instant" where
  "claim_key j = (j_next_attempt_at j, j_created_at j)"

definition claim_row :: "instant \<Rightarrow> letter_job \<Rightarrow> letter_job" where
  "claim_row now j = j\<lparr>j_status := J_processing, j_attempts := j_attempts j + 1,
     j_started_at := (case j_started_at j of None \<Rightarrow> Some now | Some t \<Rightarrow> Some t),
     j_completed_at := None, j_locked_at := Some now, j_last_error := None,
     j_error_message := None, j_updated_at := now\<rparr>"

definition claimJob :: "environment \<Rightarrow> instant \<Rightarrow> string option \<Rightarrow> db \<Rightarrow> letter_job option \<times> db" where
  "claimJob env now only s =
     (if \<not> outboxDispatchEnabled env then (None, s)
      else case sort_key claim_key (filter (claimable now s only) (jobs s)) of
          [] \<Rightarrow> (None, s)
        | j # _ \<Rightarrow> (Some (claim_row now j), upd_job (j_id j) (claim_row now) s))"

section \<open>The dispatch marker\<close>

datatype marked = Left_for_operator | Marked letter

definition funding_order :: "letter \<Rightarrow> string option" where
  "funding_order l = or_null_str (lt_funding_order_id l)"

definition sends_blocked :: "string \<Rightarrow> db \<Rightarrow> bool" where
  "sends_blocked uid s = (case find_user uid s of None \<Rightarrow> False
     | Some u \<Rightarrow> or_null_str (u_sends_blocked_reason u) \<noteq> None)"

definition order_status_of :: "string \<Rightarrow> db \<Rightarrow> order_status option" where
  "order_status_of oid s = map_option o_status (find_order oid s)"

definition dispatchable :: "letter_job \<Rightarrow> letter_job \<Rightarrow> letter \<Rightarrow> bool" where
  "dispatchable job current l \<longleftrightarrow>
     j_status current = J_processing \<and> j_attempts current = j_attempts job \<and>
     j_provider_outcome current = O_not_dispatched \<and>
     (lt_status l = L_queued \<or> lt_status l = L_processing) \<and> lt_redacted_at l = None"

definition put_back :: "instant \<Rightarrow> letter_job \<Rightarrow> letter_job" where
  "put_back now j = j\<lparr>j_status := J_pending, j_attempts := j_attempts j - 1, j_locked_at := None,
     j_updated_at := now\<rparr>"

definition mark_row :: "instant \<Rightarrow> letter_job \<Rightarrow> letter_job" where
  "mark_row now j = j\<lparr>j_provider_outcome := O_dispatching, j_provider_dispatch_started_at := Some now,
     j_updated_at := now\<rparr>"

definition markProviderDispatch :: "instant \<Rightarrow> letter_job \<Rightarrow> db \<Rightarrow> error + marked \<times> db" where
  "markProviderDispatch now job s =
     (case find_job (j_id job) s of
        None \<Rightarrow> Inl (Error ''Outbox relation no longer exists'')
      | Some current \<Rightarrow> (case find_letter (j_letter current) s of
          None \<Rightarrow> Inl (Error ''Outbox relation no longer exists'')
        | Some l \<Rightarrow>
            if (case funding_order l of None \<Rightarrow> False
                | Some oid \<Rightarrow> order_status_of oid s \<noteq> Some Ord_fulfillment_pending)
            then Inl (Error ''Funding order is not dispatchable'')
            else if \<not> dispatchable job current l
            then Inl (Error ''Mail item is held or no longer dispatchable'')
            else if isFundingHoldReason (j_hold_reason current) \<or> sends_blocked (lt_user l) s
            then Inr (Left_for_operator, upd_job (j_id job) (put_back now) s)
            else Inr (Marked l,
              upd_letter (lt_id l) (\<lambda>l. l\<lparr>lt_status := L_processing, lt_updated_at := now\<rparr>)
                (upd_job (j_id job) (mark_row now) s))))"

section \<open>The hold\<close>

definition hold_row :: "instant \<Rightarrow> string \<Rightarrow> letter_job \<Rightarrow> letter_job" where
  "hold_row now errorClass j =
     (if j_status j = J_completed \<or> j_status j = J_failed then j
      else j\<lparr>j_status := J_held, j_provider_outcome := O_ambiguous, j_held_at := Some now,
        j_hold_reason := Some ''provider_outcome_ambiguous'', j_locked_at := None,
        j_last_error := Some errorClass, j_error_message := Some errorClass, j_updated_at := now\<rparr>)"

definition hold_letter :: "instant \<Rightarrow> letter \<Rightarrow> letter" where
  "hold_letter now l =
     (if lt_status l \<in> {L_accepted, L_sent, L_in_transit, L_delivered, L_returned, L_failed} then l
      else l\<lparr>lt_status := L_held, lt_updated_at := now\<rparr>)"

definition hold_order :: "instant \<Rightarrow> order \<Rightarrow> order" where
  "hold_order now ord =
     (if o_status ord \<noteq> Ord_fulfillment_pending then ord
      else ord\<lparr>o_status := Ord_held, o_hold_previous_status := Some (o_status ord), o_held_at := Some now,
        o_hold_reason := Some ''provider_outcome_ambiguous'', o_updated_at := now\<rparr>)"

definition letter_order :: "string \<Rightarrow> db \<Rightarrow> string option" where
  "letter_order letterId s = (case find_letter letterId s of None \<Rightarrow> None | Some l \<Rightarrow> funding_order l)"

definition holdAmbiguousDispatch :: "instant \<Rightarrow> letter_job \<Rightarrow> error \<Rightarrow> db \<Rightarrow> db" where
  "holdAmbiguousDispatch now job e s =
     (let errorClass = classifyDiagnosticError e ''provider_error'';
          orderId = letter_order (j_letter job) s;
          s1 = upd_letter (j_letter job) (hold_letter now) (upd_job (j_id job) (hold_row now errorClass) s);
          s2 = (case orderId of None \<Rightarrow> s1 | Some oid \<Rightarrow> upd_order oid (hold_order now) s1)
      in s2\<lparr>alerts := alerts s2 @ [\<lparr> al_source_event = None, al_order = orderId,
           al_type = ''mail_provider_outcome_ambiguous'', al_severity = Sev_critical, al_resolved = False, al_resolved_by = None,
           al_resolution_code = None,
           al_details = [(''jobId'', JStr (j_id job)), (''errorClass'', JStr errorClass)] \<rparr>]\<rparr>)"

section \<open>The provider\<close>

record provider_result =
  pr_success :: bool
  pr_tracking_id :: string
  pr_error :: "string option"
  pr_cost_cents :: "int option"
  pr_expected_delivery :: "instant option"
  pr_submission_outcome :: "string option"
  pr_error_class :: "string option"
  pr_status_code :: "int option"

text \<open>
  What the dispatch asks a provider. The two calls get the letter and the idempotency key and
  answer a result or throw; a provider without postcards has no second call.
\<close>

record provider =
  p_name :: string
  p_display_name :: string
  p_supports_extra_services :: bool
  p_prints_rendered_pdf :: bool
  p_send_letter :: "letter \<Rightarrow> string \<Rightarrow> error + provider_result"
  p_send_postcard :: "(letter \<Rightarrow> string \<Rightarrow> error + provider_result) option"

definition errorResult :: "error \<Rightarrow> provider_result" where
  "errorResult e = \<lparr> pr_success = False, pr_tracking_id = [], pr_error = Some (message_of e),
     pr_cost_cents = None, pr_expected_delivery = None, pr_submission_outcome = Some ''ambiguous'',
     pr_error_class = None, pr_status_code = None \<rparr>"

definition submitToProviderOnce :: "error + provider_result \<Rightarrow> provider_result" where
  "submitToProviderOnce answer = (case answer of Inl e \<Rightarrow> errorResult e | Inr r \<Rightarrow> r)"

definition mailServiceOf :: "string option \<Rightarrow> string option" where
  "mailServiceOf v = (case or_null_str v of None \<Rightarrow> None
     | Some t \<Rightarrow> if t = ''standard'' then None else Some t)"

definition isExtraService :: "string \<Rightarrow> bool" where
  "isExtraService v \<longleftrightarrow> v = ''certified'' \<or> v = ''certified_return_receipt''"

definition extraServiceRefusal :: "provider \<Rightarrow> letter \<Rightarrow> string option" where
  "extraServiceRefusal p l = (case mailServiceOf (lt_mail_service l) of
     None \<Rightarrow> None
   | Some service \<Rightarrow>
       if \<not> isExtraService service then Some ''unknown_service''
       else if lt_mail_type l = Mt_postcard then Some ''postcard''
       else if \<not> p_supports_extra_services p then Some ''provider_cannot_sell''
       else None)"

definition drawnByRenderer :: "letter_content \<Rightarrow> bool" where
  "drawnByRenderer c = (case lc_renderer_version c of None \<Rightarrow> False | Some v \<Rightarrow> v \<noteq> JNull)"

definition rendererRefusal :: "provider \<Rightarrow> letter \<Rightarrow> string option" where
  "rendererRefusal p l =
     (if \<not> drawnByRenderer (lt_content l) then None
      else if p_prints_rendered_pdf p then None else Some ''provider_cannot_print_rendered'')"

definition rejected :: "string \<Rightarrow> string option \<Rightarrow> provider_result" where
  "rejected text cls = \<lparr> pr_success = False, pr_tracking_id = [], pr_error = Some text,
     pr_cost_cents = None, pr_expected_delivery = None,
     pr_submission_outcome = Some ''definite_rejection'', pr_error_class = cls, pr_status_code = None \<rparr>"

definition submitToProvider :: "provider \<Rightarrow> letter \<Rightarrow> letter_job \<Rightarrow> db \<Rightarrow> (provider_result \<times> string) \<times> db" where
  "submitToProvider p l job s =
     (let key = j_idempotency_key job;
          called = s\<lparr>submissions := submissions s @ [key]\<rparr>
      in case extraServiceRefusal p l of
           Some refusal \<Rightarrow>
             ((rejected (p_display_name p @ '' cannot send this letter's mail service ('' @ refusal @ '')'')
                (Some ''extra_service_refused''), p_name p), s)
         | None \<Rightarrow> (case rendererRefusal p l of
             Some refusal \<Rightarrow>
               ((rejected (p_display_name p @ '' cannot print mail our renderer drew ('' @ refusal @ '')'')
                  (Some ''renderer_refused''), p_name p), s)
           | None \<Rightarrow>
               (if lt_mail_type l = Mt_postcard
                then case p_send_postcard p of
                    None \<Rightarrow> ((rejected (p_display_name p @ '' does not support postcards'') None, p_name p), s)
                  | Some send \<Rightarrow> ((submitToProviderOnce (send l key), p_name p), called)
                else ((submitToProviderOnce (p_send_letter p l key), p_name p), called))))"

section \<open>The rejection an operator reads (providerFailureSummary.ts)\<close>

definition word_char :: "char \<Rightarrow> bool" where
  "word_char c \<longleftrightarrow> is_digit c \<or> 65 \<le> char_code c \<and> char_code c \<le> 90 \<or>
     97 \<le> char_code c \<and> char_code c \<le> 122 \<or> c = CHR ''_''"

text \<open>The match of \<open>/^HTTP (\d{3})\b/\<close>.\<close>

definition http_status :: "string \<Rightarrow> int option" where
  "http_status t =
     (let ds = List.take 3 (drop 5 t); rest = drop 8 t
      in if List.take 5 t = ''HTTP '' \<and> length ds = 3 \<and> list_all is_digit ds \<and>
            (rest = [] \<or> \<not> word_char (hd rest))
         then Some (int (digits_value ds)) else None)"

definition summarizeProviderRejection :: "provider_result \<Rightarrow> string" where
  "summarizeProviderRejection r =
     (if pr_error_class r = Some ''extra_service_refused'' then ''extra_service_refused''
      else if pr_error_class r = Some ''renderer_refused'' then ''renderer_refused''
      else case (case pr_status_code r of Some n \<Rightarrow> Some n
                 | None \<Rightarrow> http_status (case pr_error r of None \<Rightarrow> [] | Some t \<Rightarrow> t)) of
             None \<Rightarrow> ''provider_rejected''
           | Some n \<Rightarrow> ''provider_rejected http_'' @ show_int n)"

section \<open>Acceptance\<close>

definition accept_letter :: "instant \<Rightarrow> string \<Rightarrow> provider_result \<Rightarrow> letter \<Rightarrow> letter" where
  "accept_letter now name r l = l\<lparr>lt_status := L_accepted, lt_tracking_id := Some (pr_tracking_id r),
     lt_provider := Some name, lt_cost_cents := (case or_null_int (pr_cost_cents r) of None \<Rightarrow> 0 | Some c \<Rightarrow> c),
     lt_expected_delivery := pr_expected_delivery r, lt_sent_at := Some now, lt_updated_at := now\<rparr>"

definition complete_row :: "instant \<Rightarrow> provider_result \<Rightarrow> letter_job \<Rightarrow> letter_job" where
  "complete_row now r j = j\<lparr>j_status := J_completed, j_provider_order_id := Some (pr_tracking_id r),
     j_completed_at := Some now, j_provider_outcome := O_accepted, j_locked_at := None,
     j_last_error := None, j_error_message := None, j_updated_at := now\<rparr>"

definition can_persist_acceptance :: "letter_job \<Rightarrow> bool" where
  "can_persist_acceptance j \<longleftrightarrow>
     j_status j = J_processing \<and> j_provider_outcome j = O_dispatching \<or>
     j_status j = J_held \<and> j_provider_outcome j = O_ambiguous"

text \<open>An order of a letter's funding that one of the transitions below moves, and its event.\<close>

definition fulfilment_order :: "string option \<Rightarrow> db \<Rightarrow> order option" where
  "fulfilment_order orderId s = (case orderId of None \<Rightarrow> None
     | Some oid \<Rightarrow> (case find_order oid s of None \<Rightarrow> None
       | Some ord \<Rightarrow> if o_type ord = Ot_jit_mail \<and> o_status ord = Ord_fulfillment_pending
           then Some ord else None))"

definition order_moved :: "string \<Rightarrow> order_status \<Rightarrow> json_object \<Rightarrow> (order \<Rightarrow> order) \<Rightarrow> string option \<Rightarrow> db \<Rightarrow> db" where
  "order_moved event to details f orderId s = (case fulfilment_order orderId s of
     None \<Rightarrow> s
   | Some ord \<Rightarrow> (upd_order (o_id ord) f s)\<lparr>order_events := order_events s @
       [\<lparr> oe_order = o_id ord, oe_type = event, oe_from = Some Ord_fulfillment_pending,
          oe_to = Some to, oe_metadata = details \<rparr>]\<rparr>)"

definition fulfil_order :: "instant \<Rightarrow> order \<Rightarrow> order" where
  "fulfil_order now ord = ord\<lparr>o_status := Ord_fulfilled, o_fulfilled_at := Some now,
     o_completed_at := Some now, o_last_error_code := None, o_last_error := None, o_updated_at := now\<rparr>"

definition accepted_state :: "instant \<Rightarrow> letter_job \<Rightarrow> letter \<Rightarrow> string \<Rightarrow> provider_result \<Rightarrow> string option \<Rightarrow> db \<Rightarrow> db" where
  "accepted_state now job l name r orderId s =
     order_moved ''provider.accepted'' Ord_fulfilled
       [(''provider'', JStr name), (''providerOrderId'', JStr (pr_tracking_id r))] (fulfil_order now) orderId
       (upd_job (j_id job) (complete_row now r) (upd_letter (lt_id l) (accept_letter now name r) s))"

definition acceptance_lost :: error where
  "acceptance_lost = Error ''Mail item is no longer eligible for provider acceptance persistence''"

definition completeJob :: "instant \<Rightarrow> letter_job \<Rightarrow> letter \<Rightarrow> string \<Rightarrow> provider_result \<Rightarrow> db \<Rightarrow> error + db" where
  "completeJob now job l name r s =
     (let orderId = letter_order (lt_id l) s;
          orderExists = (case orderId of None \<Rightarrow> True | Some oid \<Rightarrow> find_order oid s \<noteq> None)
      in case find_job (j_id job) s of
           None \<Rightarrow> Inl acceptance_lost
         | Some current \<Rightarrow>
             if j_status current = J_completed \<and> j_provider_outcome current = O_accepted then Inr s
             else (case find_letter (lt_id l) s of
                 None \<Rightarrow> Inl acceptance_lost
               | Some locked \<Rightarrow>
                   if can_persist_acceptance current \<and> j_letter current = lt_id l \<and> orderExists \<and>
                      lt_funding_order_id locked = orderId \<and>
                      (lt_status locked = L_processing \<or> lt_status locked = L_held)
                   then Inr (accepted_state now job l name r orderId s)
                   else Inl acceptance_lost))"

text \<open>
  After \<open>completeJob\<close> threw: was the job completed meanwhile, else hold it. The third outcome
  of the source, a failure of the hold itself, is a failure of the database.
\<close>

datatype recovery = Rec_completed | Rec_held

definition recoverProviderAcceptancePersistence :: "instant \<Rightarrow> letter_job \<Rightarrow> error \<Rightarrow> db \<Rightarrow> recovery \<times> db" where
  "recoverProviderAcceptancePersistence now job e s =
     (if map_option j_status (find_job (j_id job) s) = Some J_completed then (Rec_completed, s)
      else (Rec_held, holdAmbiguousDispatch now job (Error (message_of e)) s))"

section \<open>Compensation and failure\<close>

definition lockFundingGraph :: "letter_job \<Rightarrow> db \<Rightarrow> error + string option" where
  "lockFundingGraph job s =
     (let orderId = letter_order (j_letter job) s;
          changed = Error ''Funding graph changed while acquiring canonical locks''
      in case find_letter (j_letter job) s of
           None \<Rightarrow> Inl changed
         | Some l \<Rightarrow> (case find_job (j_id job) s of
             None \<Rightarrow> Inl changed
           | Some current \<Rightarrow> if j_letter current = j_letter job \<and> lt_funding_order_id l = orderId
               then Inr orderId else Inl changed))"

definition returnPrepaidCreditsForFailedLetter ::
  "environment \<Rightarrow> instant \<Rightarrow> instant \<Rightarrow> string \<Rightarrow> string \<Rightarrow> db \<Rightarrow> error + db" where
  "returnPrepaidCreditsForFailedLetter env now js letterId failureCode s =
     (case find_letter letterId s of
        None \<Rightarrow> Inr s
      | Some l \<Rightarrow> (case lt_funding_type l of
          Fund_gift_letter \<Rightarrow>
            (case returnGiftLetterForFailedSendWithClient env now js letterId (lt_user l) failureCode False s of
               Inl e \<Rightarrow> Inl e | Inr (_, s') \<Rightarrow> Inr s')
        | Fund_prepaid_balance \<Rightarrow>
            (case returnConsumedCreditsForLetter now letterId (lt_user l) failureCode None s of
               Inl e \<Rightarrow> Inl e | Inr (_, s') \<Rightarrow> Inr s')
        | Fund_jit_order \<Rightarrow> Inr s))"

definition refund_pending :: "instant \<Rightarrow> string \<Rightarrow> string \<Rightarrow> order \<Rightarrow> order" where
  "refund_pending now code stored ord = ord\<lparr>o_status := Ord_refund_pending, o_refund_pending_at := Some now,
     o_last_error_code := Some code, o_last_error := Some stored, o_updated_at := now\<rparr>"

text \<open>What a job's terminal failure gives back: the order's payment, or what a prepaid send used.\<close>

definition compensate ::
  "environment \<Rightarrow> instant \<Rightarrow> instant \<Rightarrow> string \<Rightarrow> string \<Rightarrow> string \<Rightarrow> string \<Rightarrow> letter_job \<Rightarrow> string option \<Rightarrow> db \<Rightarrow>
   error + db" where
  "compensate env now js event code stored failureCode job orderId s =
     (if orderId \<noteq> None
      then Inr (order_moved event Ord_refund_pending [(''errorClass'', JStr stored)]
             (refund_pending now code stored) orderId s)
      else returnPrepaidCreditsForFailedLetter env now js (j_letter job) failureCode s)"

definition fail_row :: "instant \<Rightarrow> instant \<Rightarrow> string \<Rightarrow> letter_job \<Rightarrow> letter_job" where
  "fail_row now nextAttemptAt stored j = j\<lparr>j_status := J_failed, j_next_attempt_at := nextAttemptAt,
     j_locked_at := None, j_completed_at := Some now, j_provider_outcome := O_definite_failure,
     j_last_error := Some stored, j_error_message := Some stored, j_updated_at := now\<rparr>"

definition fail_letter :: "instant \<Rightarrow> letter \<Rightarrow> letter" where
  "fail_letter now l = l\<lparr>lt_status := L_failed, lt_updated_at := now\<rparr>"

text \<open>
  The source computes \<open>terminal = true\<close>, so its branches for a retry never run and the answer
  is that none is scheduled. The guard of the UPDATE is the dispatch the result belongs to.
\<close>

definition failOrRescheduleJob ::
  "environment \<Rightarrow> instant \<Rightarrow> instant \<Rightarrow> letter_job \<Rightarrow> provider_result \<Rightarrow> db \<Rightarrow> error + bool \<times> db" where
  "failOrRescheduleJob env now js job r s =
     (let text = or_str (pr_error r) ''Provider returned an unsuccessful result'';
          stored = summarizeProviderRejection r
      in if pr_submission_outcome r \<noteq> Some ''definite_rejection''
         then Inr (False, holdAmbiguousDispatch now job
           (case pr_error_class r of None \<Rightarrow> Error text | Some c \<Rightarrow> Coded_error c text) s)
         else case lockFundingGraph job s of
             Inl e \<Rightarrow> Inl e
           | Inr orderId \<Rightarrow> (case find_job (j_id job) s of
               None \<Rightarrow> Inr (False, s)
             | Some current \<Rightarrow>
                 if \<not> (j_status current = J_processing \<and> j_provider_outcome current = O_dispatching)
                 then Inr (False, s)
                 else (case compensate env now js ''provider.terminal_failure'' ''PROVIDER_SUBMISSION_FAILED''
                         stored ''provider_definite_rejection'' job orderId
                         (upd_letter (j_letter job) (fail_letter now)
                           (upd_job (j_id job) (fail_row now js stored) s)) of
                     Inl e \<Rightarrow> Inl e | Inr s' \<Rightarrow> Inr (False, s'))))"

definition undispatched_put_back :: "instant \<Rightarrow> string \<Rightarrow> letter_job \<Rightarrow> letter_job" where
  "undispatched_put_back now cls j = j\<lparr>j_status := J_pending, j_attempts := j_attempts j - 1,
     j_locked_at := None, j_last_error := Some cls, j_error_message := Some cls, j_updated_at := now\<rparr>"

definition undispatched_row :: "instant \<Rightarrow> bool \<Rightarrow> instant \<Rightarrow> string \<Rightarrow> letter_job \<Rightarrow> letter_job" where
  "undispatched_row now retryable nextAttemptAt cls j = j\<lparr>
     j_status := (if retryable then J_pending else J_failed), j_next_attempt_at := nextAttemptAt,
     j_locked_at := None, j_completed_at := (if retryable then None else Some now),
     j_last_error := Some cls, j_error_message := Some cls, j_updated_at := now\<rparr>"

definition undispatched_letter :: "instant \<Rightarrow> bool \<Rightarrow> letter \<Rightarrow> letter" where
  "undispatched_letter now retryable l =
     (if lt_status l = L_held \<or> lt_status l = L_cancelled then l
      else l\<lparr>lt_status := (if retryable then L_queued else L_failed), lt_updated_at := now\<rparr>)"

text \<open>The claimant still holds the job: not dispatched, processing, at the attempts its claim set.\<close>

definition holds_claim :: "letter_job \<Rightarrow> letter_job \<Rightarrow> bool" where
  "holds_claim job current \<longleftrightarrow> j_provider_outcome current = O_not_dispatched \<and>
     j_status current = J_processing \<and> j_attempts current = j_attempts job"

definition failBeforeDispatch ::
  "environment \<Rightarrow> instant \<Rightarrow> instant \<Rightarrow> (int \<Rightarrow> int) \<Rightarrow> letter_job \<Rightarrow> error \<Rightarrow> db \<Rightarrow> error + bool \<times> db" where
  "failBeforeDispatch env now js draw job e s =
     (let retryable = j_attempts job < j_max_attempts job;
          cls = (case carriedDiagnosticClass e of Some c \<Rightarrow> c
                 | None \<Rightarrow> classifyDiagnosticError e ''unknown_error'')
      in case lockFundingGraph job s of
           Inl err \<Rightarrow> Inl err
         | Inr orderId \<Rightarrow> (case find_job (j_id job) s of
             None \<Rightarrow> Inr (False, s)
           | Some current \<Rightarrow>
               if (case find_letter (j_letter current) s of None \<Rightarrow> False
                   | Some l \<Rightarrow> find_user (lt_user l) s \<noteq> None \<and>
                       (isFundingHoldReason (j_hold_reason current) \<or> sends_blocked (lt_user l) s))
               then if holds_claim job current
                    then Inr (True, upd_job (j_id job) (undispatched_put_back now cls) s)
                    else Inr (False, s)
               else if \<not> holds_claim job current then Inr (False, s)
               else let s1 = upd_letter (j_letter job) (undispatched_letter now retryable)
                          (upd_job (j_id job) (undispatched_row now retryable
                             (js + retryDelayMilliseconds (j_attempts job) draw) cls) s)
                    in if retryable then Inr (True, s1)
                       else (case compensate env now js ''provider.pre_dispatch_terminal_failure''
                               ''PRE_DISPATCH_TERMINAL_FAILURE'' cls cls job orderId s1 of
                           Inl err \<Rightarrow> Inl err | Inr s' \<Rightarrow> Inr (False, s'))))"

section \<open>Was the letter paid back already\<close>

text \<open>\<open>bool_and\<close> over no row is NULL, which is not true.\<close>

definition isLetterAlreadyCompensated :: "string \<Rightarrow> string \<Rightarrow> db \<Rightarrow> bool" where
  "isLetterAlreadyCompensated letterId uid s \<longleftrightarrow>
     hasReturnedCreditsForLetter letterId uid s \<or> isGiftLetterCompensated letterId s \<or>
     (let lots = consumed_lots letterId uid s
      in \<not> List.null lots \<and> list_all (\<lambda>lot. le_status (snd lot) = Lot_revoked) lots)"

section \<open>Mail the provider cancelled after accepting it\<close>

definition provider_cancelled_alert :: string where "provider_cancelled_alert = ''provider_cancelled_mail''"

definition ended_letter :: "letter_status \<Rightarrow> bool" where
  "ended_letter st \<longleftrightarrow> st \<in> {L_delivered, L_returned, L_failed, L_cancelled}"

definition not_yet_printing :: "letter_status \<Rightarrow> bool" where
  "not_yet_printing st \<longleftrightarrow> st = L_accepted \<or> st = L_sent"

fun letter_status_text :: "letter_status \<Rightarrow> string" where
  "letter_status_text L_draft = ''draft''"
| "letter_status_text L_queued = ''queued''"
| "letter_status_text L_processing = ''processing''"
| "letter_status_text L_held = ''held''"
| "letter_status_text L_sent = ''sent''"
| "letter_status_text L_accepted = ''accepted''"
| "letter_status_text L_in_transit = ''in_transit''"
| "letter_status_text L_delivered = ''delivered''"
| "letter_status_text L_returned = ''returned''"
| "letter_status_text L_failed = ''failed''"
| "letter_status_text L_cancelled = ''cancelled''"

fun funding_type_text :: "funding_type \<Rightarrow> string" where
  "funding_type_text Fund_prepaid_balance = ''prepaid_balance''"
| "funding_type_text Fund_jit_order = ''jit_order''"
| "funding_type_text Fund_gift_letter = ''gift_letter''"

text \<open>ON CONFLICT DO NOTHING on the partial unique index over the alert's letter (migration 043).\<close>

definition raise_once :: "alert \<Rightarrow> db \<Rightarrow> db" where
  "raise_once a s =
     (if list_ex (\<lambda>b. al_type b = provider_cancelled_alert \<and>
           json_text (Some (al_details b)) ''letterId'' = json_text (Some (al_details a)) ''letterId'') (alerts s)
      then s else s\<lparr>alerts := alerts s @ [a]\<rparr>)"

datatype cancel_outcome = Co_failed | Co_unchanged

definition failProviderCancelledLetter ::
  "environment \<Rightarrow> instant \<Rightarrow> instant \<Rightarrow> string \<Rightarrow> string \<Rightarrow> db \<Rightarrow> error + cancel_outcome \<times> db" where
  "failProviderCancelledLetter env now js letterId raw s =
     (case find_letter letterId s of
        None \<Rightarrow> Inr (Co_unchanged, s)
      | Some l \<Rightarrow>
          let orderId = funding_order l
          in if ended_letter (lt_status l) then Inr (Co_unchanged, s)
             else
               let s1 = upd_letter letterId (\<lambda>l. l\<lparr>lt_status := L_failed, lt_status_updated_at := Some now,
                          lt_provider_raw_status := Some raw, lt_updated_at := now\<rparr>) s;
                   s2 = s1\<lparr>history := history s1 @ [\<lparr> sh_letter = letterId, sh_old = lt_status l,
                          sh_new = L_failed, sh_provider_raw_status = Some raw, sh_source = ''sync'' \<rparr>]\<rparr>;
                   forAPerson = (orderId \<noteq> None \<or> \<not> not_yet_printing (lt_status l));
                   a = \<lparr> al_source_event = None, al_order = orderId, al_type = provider_cancelled_alert,
                         al_severity = (if forAPerson then Sev_critical else Sev_warning),
                         al_resolved = False, al_resolved_by = None, al_resolution_code = None,
                         al_details = [(''letterId'', JStr letterId), (''userId'', JStr (lt_user l)),
                           (''fundingType'', JStr (funding_type_text (lt_funding_type l))),
                           (''refundForAPerson'', JBool forAPerson),
                           (''statusBefore'', JStr (letter_status_text (lt_status l)))] \<rparr>
               in if forAPerson then Inr (Co_failed, raise_once a s2)
                  else (case returnPrepaidCreditsForFailedLetter env now js letterId ''provider_cancelled'' s2 of
                      Inl e \<Rightarrow> Inl e | Inr s3 \<Rightarrow> Inr (Co_failed, raise_once a s3)))"

end
