(* ===== verification/OutboxRun.thy ===== *)
theory OutboxRun
  imports Outbox
begin

text \<open>
  The runs of the outbox (services/letterJobService.ts, processClaimedJob onwards): one claimed
  job from its preview to its settlement, one specific job, and the maintenance batch with its
  two sweeps of crashed jobs and its pause.

  \<open>clk\<close> and \<open>jsk\<close> are the database's and the process's clock, read once per transaction;
  \<open>getProvider\<close> is the provider factory, a parameter. A throw that leaves a run is an \<open>Inl\<close>
  beside the store, since the transactions before it have committed.
\<close>

section \<open>Routing\<close>

datatype routing = R_postcard | R_header_image_letter | R_inline_image_letter | R_text_only_letter

definition determineMailType :: "mail_type \<Rightarrow> string option \<Rightarrow> routing" where
  "determineMailType m layout =
     (if m = Mt_postcard then R_postcard
      else if layout = Some ''header_image'' then R_header_image_letter
      else if layout = Some ''inline_image'' then R_inline_image_letter
      else R_text_only_letter)"

definition resolveProviderForLetter :: "(routing \<Rightarrow> error + provider) \<Rightarrow> letter \<Rightarrow> error + provider" where
  "resolveProviderForLetter getProvider l =
     getProvider (determineMailType (lt_mail_type l) (lc_layout_type (lt_content l)))"

definition loadLetter :: "string \<Rightarrow> db \<Rightarrow> error + letter" where
  "loadLetter letterId s = (case find_letter letterId s of
     None \<Rightarrow> Inl (Coded_error ''LETTER_NOT_FOUND'' (''Letter not found for outbox job: '' @ letterId))
   | Some l \<Rightarrow> Inr l)"

section \<open>One claimed job\<close>

record process_result =
  ps_claimed :: bool
  ps_completed :: bool
  ps_retry_scheduled :: bool
  ps_left_for_operator :: bool

definition processed :: "bool \<Rightarrow> bool \<Rightarrow> bool \<Rightarrow> process_result" where
  "processed completed retry left = \<lparr> ps_claimed = True, ps_completed = completed,
     ps_retry_scheduled = retry, ps_left_for_operator = left \<rparr>"

type_synonym clock = "nat \<Rightarrow> instant"

definition settle_undispatched ::
  "environment \<Rightarrow> clock \<Rightarrow> clock \<Rightarrow> (int \<Rightarrow> int) \<Rightarrow> letter_job \<Rightarrow> error \<Rightarrow> db \<Rightarrow> (error + process_result) \<times> db" where
  "settle_undispatched env clk jsk draw job e s =
     (case failBeforeDispatch env (clk 1) (jsk 1) draw job e s of
        Inl err \<Rightarrow> (Inl err, s)
      | Inr (retry, s') \<Rightarrow> (Inr (processed False retry False), s'))"

definition settle_submitted ::
  "environment \<Rightarrow> clock \<Rightarrow> clock \<Rightarrow> letter_job \<Rightarrow> letter \<Rightarrow> provider_result \<Rightarrow> string \<Rightarrow> db \<Rightarrow> process_result \<times> db" where
  "settle_submitted env clk jsk job l r name s =
     (if pr_success r
      then case completeJob (clk 1) job l name r s of
          Inr s' \<Rightarrow> (processed True False False, s')
        | Inl e \<Rightarrow> (case recoverProviderAcceptancePersistence (clk 2) job e s of
            (Rec_completed, s') \<Rightarrow> (processed True False False, s')
          | (Rec_held, s') \<Rightarrow> (processed False False False, s'))
      else case failOrRescheduleJob env (clk 1) (jsk 1) job r s of
          Inr (retry, s') \<Rightarrow> (processed False retry False, s')
        | Inl e \<Rightarrow> (processed False False False, holdAmbiguousDispatch (clk 2) job e s))"

definition processClaimedJob ::
  "environment \<Rightarrow> clock \<Rightarrow> clock \<Rightarrow> (int \<Rightarrow> int) \<Rightarrow> (routing \<Rightarrow> error + provider) \<Rightarrow> letter_job \<Rightarrow> db \<Rightarrow>
   (error + process_result) \<times> db" where
  "processClaimedJob env clk jsk draw getProvider job s =
     (case loadLetter (j_letter job) s of
        Inl e \<Rightarrow> settle_undispatched env clk jsk draw job e s
      | Inr preview \<Rightarrow> (case resolveProviderForLetter getProvider preview of
          Inl e \<Rightarrow> settle_undispatched env clk jsk draw job e s
        | Inr p \<Rightarrow> (case markProviderDispatch (clk 0) job s of
            Inl e \<Rightarrow> settle_undispatched env clk jsk draw job e s
          | Inr (Left_for_operator, s1) \<Rightarrow> (Inr (processed False False True), s1)
          | Inr (Marked l, s1) \<Rightarrow> (case submitToProvider p l job s1 of ((r, name), s2) \<Rightarrow>
              (case settle_submitted env clk jsk job l r name s2 of (res, s3) \<Rightarrow> (Inr res, s3))))))"

definition not_claimed :: process_result where
  "not_claimed = \<lparr> ps_claimed = False, ps_completed = False, ps_retry_scheduled = False,
     ps_left_for_operator = False \<rparr>"

definition later :: "nat \<Rightarrow> clock \<Rightarrow> clock" where
  "later k clk = (\<lambda>i. clk (k + i))"

definition processLetterJob ::
  "environment \<Rightarrow> clock \<Rightarrow> clock \<Rightarrow> (int \<Rightarrow> int) \<Rightarrow> (routing \<Rightarrow> error + provider) \<Rightarrow> string \<Rightarrow> db \<Rightarrow>
   (error + process_result) \<times> db" where
  "processLetterJob env clk jsk draw getProvider jobId s =
     (case claimJob env (clk 0) (Some jobId) s of
        (None, s') \<Rightarrow> (Inr not_claimed, s')
      | (Some job, s') \<Rightarrow> processClaimedJob env (later 1 clk) (later 1 jsk) draw getProvider job s')"

section \<open>What a pause holds back\<close>

definition waiting_job :: "instant \<Rightarrow> db \<Rightarrow> letter_job \<Rightarrow> bool" where
  "waiting_job now s j \<longleftrightarrow>
     j_attempts j < j_max_attempts j \<and> j_provider_outcome j = O_not_dispatched \<and>
     (j_status j = J_pending \<or> j_status j = J_failed \<or> j_status j = J_processing \<and> stale_lock now j) \<and>
     \<not> heldMailJob now j \<and> \<not> leftForOperator s j"

definition countWaitingLetterJobs :: "instant \<Rightarrow> db \<Rightarrow> nat" where
  "countWaitingLetterJobs now s = length (filter (waiting_job now s) (jobs s))"

text \<open>The source also answers \<open>unknown\<close>, when the count's query fails.\<close>

definition lettersWaitingBehindPause :: "environment \<Rightarrow> instant \<Rightarrow> db \<Rightarrow> nat" where
  "lettersWaitingBehindPause env now s =
     (if outboxDispatchEnabled env then 0 else countWaitingLetterJobs now s)"

section \<open>The maintenance batch\<close>

definition locked_time :: "letter_job \<Rightarrow> instant" where
  "locked_time j = (case j_locked_at j of None \<Rightarrow> 0 | Some t \<Rightarrow> t)"

definition stale_dispatched :: "instant \<Rightarrow> nat \<Rightarrow> db \<Rightarrow> letter_job list" where
  "stale_dispatched now limit s = List.take limit (sort_key locked_time (filter
     (\<lambda>j. j_status j = J_processing \<and> j_provider_outcome j = O_dispatching \<and> stale_lock now j) (jobs s)))"

definition spent_claim :: "instant \<Rightarrow> letter_job \<Rightarrow> bool" where
  "spent_claim now j \<longleftrightarrow> j_status j = J_processing \<and> j_provider_outcome j = O_not_dispatched \<and>
     j_max_attempts j \<le> j_attempts j \<and> stale_lock now j"

definition put_back_spent :: "instant \<Rightarrow> db \<Rightarrow> db" where
  "put_back_spent now s =
     jobs_update (upd_where (\<lambda>j. spent_claim now j \<and> leftForOperator s j) (put_back now)) s"

definition stale_undispatched :: "instant \<Rightarrow> nat \<Rightarrow> db \<Rightarrow> letter_job list" where
  "stale_undispatched now limit s = List.take limit (sort_key locked_time (filter
     (\<lambda>j. spent_claim now j \<and> \<not> leftForOperator s j) (jobs s)))"

definition interrupted_dispatch :: error where
  "interrupted_dispatch = Error ''process_interrupted_after_provider_dispatch''"

definition interrupted_claim :: error where
  "interrupted_claim = Error ''process_interrupted_before_provider_dispatch''"

fun hold_all :: "clock \<Rightarrow> letter_job list \<Rightarrow> db \<Rightarrow> db" where
  "hold_all clk [] s = s"
| "hold_all clk (j # js) s = hold_all (later 1 clk) js (holdAmbiguousDispatch (clk 0) j interrupted_dispatch s)"

fun fail_all ::
  "environment \<Rightarrow> clock \<Rightarrow> clock \<Rightarrow> (int \<Rightarrow> int) \<Rightarrow> letter_job list \<Rightarrow> db \<Rightarrow> (error + unit) \<times> db" where
  "fail_all env clk jsk draw [] s = (Inr (), s)"
| "fail_all env clk jsk draw (j # js) s =
     (case failBeforeDispatch env (clk 0) (jsk 0) draw j interrupted_claim s of
        Inl e \<Rightarrow> (Inl e, s)
      | Inr (b, s') \<Rightarrow> fail_all env (later 1 clk) (later 1 jsk) draw js s')"

record due_summary =
  ds_processed :: nat
  ds_completed :: nat
  ds_retry_scheduled :: nat
  ds_failed :: nat

definition summed :: "process_result \<Rightarrow> due_summary \<Rightarrow> due_summary" where
  "summed r sm = (let sm1 = sm\<lparr>ds_processed := ds_processed sm + 1\<rparr>
     in if ps_completed r then sm1\<lparr>ds_completed := ds_completed sm1 + 1\<rparr>
        else if ps_retry_scheduled r then sm1\<lparr>ds_retry_scheduled := ds_retry_scheduled sm1 + 1\<rparr>
        else if \<not> ps_left_for_operator r then sm1\<lparr>ds_failed := ds_failed sm1 + 1\<rparr>
        else sm1)"

text \<open>
  The loop, by the jobs it may still take: each round adds one to \<open>processed\<close>, so \<open>limit\<close> rounds
  are all it can make.
\<close>

fun due_loop ::
  "environment \<Rightarrow> clock \<Rightarrow> clock \<Rightarrow> (int \<Rightarrow> int) \<Rightarrow> (routing \<Rightarrow> error + provider) \<Rightarrow> instant option \<Rightarrow> nat \<Rightarrow>
   due_summary \<Rightarrow> db \<Rightarrow> (error + due_summary) \<times> db" where
  "due_loop env clk jsk draw getProvider stopAt 0 sm s = (Inr sm, s)"
| "due_loop env clk jsk draw getProvider stopAt (Suc n) sm s =
     (if (case stopAt of None \<Rightarrow> False | Some t \<Rightarrow> t \<le> jsk 0) then (Inr sm, s)
      else case claimJob env (clk 0) None s of
          (None, s1) \<Rightarrow> (Inr sm, s1)
        | (Some job, s1) \<Rightarrow>
            (case processClaimedJob env (later 1 clk) (later 1 jsk) draw getProvider job s1 of
               (Inl e, s2) \<Rightarrow> (Inl e, s2)
             | (Inr r, s2) \<Rightarrow> due_loop env (later 4 clk) (later 4 jsk) draw getProvider stopAt n (summed r sm) s2))"

datatype due_result = Due_done due_summary | Due_paused nat

definition no_work :: due_summary where
  "no_work = \<lparr> ds_processed = 0, ds_completed = 0, ds_retry_scheduled = 0, ds_failed = 0 \<rparr>"

definition processDueLetterJobs ::
  "environment \<Rightarrow> clock \<Rightarrow> clock \<Rightarrow> (int \<Rightarrow> int) \<Rightarrow> (routing \<Rightarrow> error + provider) \<Rightarrow> nat \<Rightarrow> instant option \<Rightarrow> db \<Rightarrow>
   (error + due_result) \<times> db" where
  "processDueLetterJobs env clk jsk draw getProvider limit stopAt s =
     (let s1 = hold_all (later 1 clk) (stale_dispatched (clk 0) limit s) s;
          k = limit + 1;
          s2 = put_back_spent (clk k) s1
      in case fail_all env (later (k + 2) clk) (later (k + 2) jsk) draw (stale_undispatched (clk (k + 1)) limit s2) s2 of
           (Inl e, s3) \<Rightarrow> (Inl e, s3)
         | (Inr u, s3) \<Rightarrow>
             let m = k + limit + 2
             in if \<not> outboxDispatchEnabled env
                then (Inr (Due_paused (countWaitingLetterJobs (clk m) s3)), s3)
                else (case due_loop env (later m clk) (later m jsk) draw getProvider stopAt limit no_work s3 of
                    (Inl e, s4) \<Rightarrow> (Inl e, s4)
                  | (Inr sm, s4) \<Rightarrow> (Inr (Due_done sm), s4)))"

end
