(* ===== verification/OutboxAdmin.thy ===== *)
theory OutboxAdmin
  imports OutboxRun
begin

text \<open>
  The operator's commands on the outbox (services/letterJobService.ts, from
  cancelLeftLetterJobAsAdmin on): cancel mail left for the operator, resolve an ambiguous
  provider outcome, retry a rejected letter, release held mail. Each runs once per
  idempotency key, which its row in the audit table records; a repeated command answers from
  that row and changes nothing.

  \<open>hash\<close> is SHA-256 in hexadecimal, a parameter.
\<close>

section \<open>Idempotency through the audit table\<close>

record admin_params =
  ap_job :: string
  ap_user :: string
  ap_actor :: string
  ap_reason :: string
  ap_key :: string

definition find_audit :: "string \<Rightarrow> db \<Rightarrow> operator_audit option" where
  "find_audit k s = find_by au_key_hash k (audits s)"

definition audit_text :: "json_object \<Rightarrow> string \<Rightarrow> string option" where
  "audit_text obj k = json_text (Some obj) k"

definition same_command :: "(string \<Rightarrow> string) \<Rightarrow> string \<Rightarrow> admin_params \<Rightarrow> operator_audit \<Rightarrow> bool" where
  "same_command hash operation p a \<longleftrightarrow>
     au_operation a = operation \<and> au_target_type a = ''letter_job'' \<and>
     au_target_hash a = hash (ap_job p) \<and> au_actor_hash a = hash (ap_actor p) \<and>
     audit_text (au_evidence a) ''operatorReasonHash'' = Some (hash (ap_reason p)) \<and>
     audit_text (au_evidence a) ''expectedUserHash'' = Some (hash (ap_user p))"

definition admin_audit ::
  "(string \<Rightarrow> string) \<Rightarrow> string \<Rightarrow> string \<Rightarrow> admin_params \<Rightarrow> json_object \<Rightarrow> json_object \<Rightarrow> operator_audit" where
  "admin_audit hash operation reason p old new = \<lparr> au_key_hash = hash (ap_key p),
     au_actor_hash = hash (ap_actor p), au_operation = operation, au_target_type = ''letter_job'',
     au_target_hash = hash (ap_job p), au_reason_code = reason, au_before = old, au_after = new,
     au_evidence = [(''operatorReasonHash'', JStr (hash (ap_reason p))),
       (''expectedUserHash'', JStr (hash (ap_user p)))] \<rparr>"

definition record_audit :: "operator_audit \<Rightarrow> db \<Rightarrow> db" where
  "record_audit a s = s\<lparr>audits := audits s @ [a]\<rparr>"

definition truthy :: "string option \<Rightarrow> bool" where
  "truthy v \<longleftrightarrow> or_null_str v \<noteq> None"

definition order_json :: "order_status option \<Rightarrow> json" where
  "order_json st = (case st of None \<Rightarrow> JNull | Some x \<Rightarrow> JStr (order_status_text x))"

section \<open>Cancel mail left for the operator\<close>

definition cancellable :: "letter_job \<Rightarrow> letter \<Rightarrow> bool \<Rightarrow> bool" where
  "cancellable j l blocked \<longleftrightarrow>
     (isFundingHoldReason (j_hold_reason j) \<or> blocked) \<and>
     lt_status l = L_queued \<and> funding_order l = None \<and>
     (lt_funding_type l = Fund_prepaid_balance \<or> lt_funding_type l = Fund_gift_letter) \<and>
     j_status j = J_pending \<and> j_provider_outcome j = O_not_dispatched \<and>
     j_attempts j < j_max_attempts j \<and>
     \<not> (truthy (j_operator_resolution j) \<and> \<not> isFundingHoldReason (j_hold_reason j))"

definition cancel_row :: "instant \<Rightarrow> letter_job \<Rightarrow> letter_job" where
  "cancel_row now j = j\<lparr>j_status := J_cancelled, j_completed_at := Some now, j_locked_at := None,
     j_operator_resolution := Some ''operator_cancelled'', j_resolved_at := Some now, j_updated_at := now\<rparr>"

definition cancel_letter :: "instant \<Rightarrow> letter \<Rightarrow> letter" where
  "cancel_letter now l = l\<lparr>lt_status := L_cancelled, lt_status_updated_at := Some now, lt_updated_at := now\<rparr>"

definition hold_json :: "letter_job \<Rightarrow> json_object" where
  "hold_json j = (if isFundingHoldReason (j_hold_reason j)
     then [(''fundingHold'', JStr (case j_hold_reason j of None \<Rightarrow> [] | Some r \<Rightarrow> r))] else [])"

definition cancelLeftLetterJobAsAdmin ::
  "(string \<Rightarrow> string) \<Rightarrow> environment \<Rightarrow> instant \<Rightarrow> instant \<Rightarrow> admin_params \<Rightarrow> db \<Rightarrow> error + (string \<times> bool) \<times> db" where
  "cancelLeftLetterJobAsAdmin hash env now js p s =
     (case find_audit (hash (ap_key p)) s of
        Some a \<Rightarrow> if same_command hash ''mail_job_cancel'' p a then Inr ((ap_job p, True), s)
          else Inl (Admin_job_error ''idempotency_conflict'')
      | None \<Rightarrow> (case find_job (ap_job p) s of
          None \<Rightarrow> Inl (Admin_job_error ''not_found'')
        | Some j \<Rightarrow> (case find_letter (j_letter j) s of
            None \<Rightarrow> Inl (Admin_job_error ''not_found'')
          | Some l \<Rightarrow>
              if lt_user l \<noteq> ap_user p then Inl (Admin_job_error ''not_found'')
              else if \<not> cancellable j l (sends_blocked (lt_user l) s) then Inl (Admin_job_error ''invalid_state'')
              else let s1 = upd_letter (lt_id l) (cancel_letter now) (upd_job (ap_job p) (cancel_row now) s);
                       s2 = s1\<lparr>history := history s1 @ [\<lparr> sh_letter = lt_id l, sh_old = L_queued,
                          sh_new = L_cancelled, sh_provider_raw_status = None, sh_source = ''operator'' \<rparr>]\<rparr>
                   in (case returnPrepaidCreditsForFailedLetter env now js (lt_id l) ''operator_cancelled'' s2 of
                         Inl e \<Rightarrow> Inl e
                       | Inr s3 \<Rightarrow> Inr ((ap_job p, False), record_audit
                           (admin_audit hash ''mail_job_cancel'' ''operator_cancelled_held_mail'' p
                              ((''jobStatus'', JStr ''pending'') #
                                (if hold_json j = [] then [(''accountBlocked'', JBool True)] else hold_json j))
                              [(''jobStatus'', JStr ''cancelled'')]) s3)))))"

section \<open>Release held mail\<close>

definition releasable :: "instant \<Rightarrow> letter_job \<Rightarrow> letter \<Rightarrow> bool" where
  "releasable now j l \<longleftrightarrow>
     (let fundingHeld = isFundingHoldReason (j_hold_reason j)
      in lt_status l = L_queued \<and> j_status j = J_pending \<and> j_provider_outcome j = O_not_dispatched \<and>
         (if fundingHeld then j_attempts j < j_max_attempts j else j_attempts j = 0) \<and>
         \<not> (truthy (j_operator_resolution j) \<and> \<not> fundingHeld) \<and>
         (j_mail_hold_until j \<noteq> None \<and> heldMailJob now j \<or> fundingHeld))"

definition release_row :: "instant \<Rightarrow> letter_job \<Rightarrow> letter_job" where
  "release_row now j =
     (let fundingHeld = isFundingHoldReason (j_hold_reason j)
      in j\<lparr>j_next_attempt_at := (if fundingHeld then max (j_next_attempt_at j) now else now),
           j_scheduled_at := (if fundingHeld then max (j_scheduled_at j) now else now),
           j_hold_reason := None, j_updated_at := now\<rparr>)"

text \<open>The order of a Pay and Send letter must be the user's and await fulfilment.\<close>

definition release_order_error :: "admin_params \<Rightarrow> letter \<Rightarrow> db \<Rightarrow> error option" where
  "release_order_error p l s = (case funding_order l of
     None \<Rightarrow> None
   | Some oid \<Rightarrow> (case find_order oid s of
       None \<Rightarrow> Some (Admin_job_error ''not_found'')
     | Some ord \<Rightarrow>
         if o_user ord \<noteq> ap_user p then Some (Admin_job_error ''not_found'')
         else if o_status ord \<noteq> Ord_fulfillment_pending then Some (Admin_job_error ''invalid_state'')
         else None))"

definition releaseHeldLetterJobAsAdmin ::
  "(string \<Rightarrow> string) \<Rightarrow> (instant \<Rightarrow> string) \<Rightarrow> instant \<Rightarrow> admin_params \<Rightarrow> db \<Rightarrow> error + (string \<times> bool) \<times> db" where
  "releaseHeldLetterJobAsAdmin hash to_iso now p s =
     (case find_audit (hash (ap_key p)) s of
        Some a \<Rightarrow> if same_command hash ''mail_job_release'' p a then Inr ((ap_job p, True), s)
          else Inl (Admin_job_error ''idempotency_conflict'')
      | None \<Rightarrow> (case find_job (ap_job p) s of
          None \<Rightarrow> Inl (Admin_job_error ''not_found'')
        | Some j \<Rightarrow> (case find_letter (j_letter j) s of
            None \<Rightarrow> Inl (Admin_job_error ''not_found'')
          | Some l \<Rightarrow> (case release_order_error p l s of
              Some e \<Rightarrow> Inl e
            | None \<Rightarrow>
                if lt_user l \<noteq> ap_user p \<or> \<not> releasable now j l then Inl (Admin_job_error ''invalid_state'')
                else Inr ((ap_job p, False), record_audit
                  (admin_audit hash ''mail_job_release'' ''operator_released_hold'' p
                     ([(''jobStatus'', JStr ''pending''),
                       (''heldUntil'', (case j_mail_hold_until j of None \<Rightarrow> JNull | Some t \<Rightarrow> JStr (to_iso t))),
                       (''nextAttemptAt'', JStr (to_iso (j_next_attempt_at j)))] @ hold_json j)
                     [(''jobStatus'', JStr ''pending''),
                      (''nextAttemptAt'', JStr (to_iso (j_next_attempt_at (release_row now j))))])
                  (upd_job (ap_job p) (release_row now) s))))))"

section \<open>Retry a rejected letter\<close>

text \<open>
  The checks on the funding order: a refusal, or whether its pending refund can still be taken
  back because no attempt at it was made.
\<close>

definition retry_order :: "admin_params \<Rightarrow> letter \<Rightarrow> db \<Rightarrow> error + (order \<times> bool) option" where
  "retry_order p l s = (case funding_order l of
     None \<Rightarrow> Inr None
   | Some oid \<Rightarrow> (case find_order oid s of
       None \<Rightarrow> Inl (Admin_job_error ''not_found'')
     | Some ord \<Rightarrow>
         if o_user ord \<noteq> ap_user p then Inl (Admin_job_error ''not_found'')
         else Inr (Some (ord, o_status ord = Ord_refund_pending \<and>
           (o_last_error_code ord = Some ''PROVIDER_SUBMISSION_FAILED'' \<or>
            o_last_error_code ord = Some ''PRE_DISPATCH_TERMINAL_FAILURE'') \<and>
           o_refund_attempts ord = 0 \<and> \<not> truthy (o_stripe_refund_id ord)))))"

definition retryable_job :: "admin_params \<Rightarrow> letter_job \<Rightarrow> letter \<Rightarrow> (order \<times> bool) option \<Rightarrow> bool" where
  "retryable_job p j l ord \<longleftrightarrow>
     j_status j = J_failed \<and> j_provider_outcome j = O_definite_failure \<and>
     \<not> truthy (j_operator_resolution j) \<and> lt_user l = ap_user p \<and> lt_status l = L_failed \<and>
     lt_redacted_at l = None \<and>
     (case ord of None \<Rightarrow> True
      | Some (x, refundable) \<Rightarrow> o_status x = Ord_fulfillment_pending \<or> refundable)"

definition retry_row :: "instant \<Rightarrow> letter_job \<Rightarrow> letter_job" where
  "retry_row now j = j\<lparr>j_status := J_pending, j_provider_outcome := O_not_dispatched,
     j_max_attempts := max (j_max_attempts j) (j_attempts j + 1), j_next_attempt_at := now,
     j_scheduled_at := now, j_completed_at := None, j_last_error := None, j_error_message := None,
     j_updated_at := now\<rparr>"

definition unrefund_order :: "instant \<Rightarrow> order \<Rightarrow> order" where
  "unrefund_order now ord = ord\<lparr>o_status := Ord_fulfillment_pending, o_refund_pending_at := None,
     o_last_error_code := None, o_last_error := None, o_updated_at := now\<rparr>"

definition retry_order_back :: "instant \<Rightarrow> (order \<times> bool) option \<Rightarrow> db \<Rightarrow> db" where
  "retry_order_back now ord s = (case ord of
     Some (x, True) \<Rightarrow> (upd_order (o_id x) (unrefund_order now) s)\<lparr>order_events := order_events s @
       [\<lparr> oe_order = o_id x, oe_type = ''provider.operator_retry'', oe_from = Some Ord_refund_pending,
          oe_to = Some Ord_fulfillment_pending,
          oe_metadata = [(''reason'', JStr ''confirmed_definite_rejection'')] \<rparr>]\<rparr>
   | _ \<Rightarrow> s)"

definition queue_letter :: "instant \<Rightarrow> letter \<Rightarrow> letter" where
  "queue_letter now l = l\<lparr>lt_status := L_queued, lt_updated_at := now\<rparr>"

definition retry_after_status :: "(order \<times> bool) option \<Rightarrow> order_status option" where
  "retry_after_status ord = (case ord of None \<Rightarrow> None
     | Some (x, refundable) \<Rightarrow> Some (if refundable then Ord_fulfillment_pending else o_status x))"

definition retryLetterJobAsAdmin ::
  "(string \<Rightarrow> string) \<Rightarrow> instant \<Rightarrow> admin_params \<Rightarrow> db \<Rightarrow> error + (string \<times> bool) \<times> db" where
  "retryLetterJobAsAdmin hash now p s =
     (case find_audit (hash (ap_key p)) s of
        Some a \<Rightarrow> if same_command hash ''mail_job_retry'' p a then Inr ((ap_job p, True), s)
          else Inl (Admin_job_error ''idempotency_conflict'')
      | None \<Rightarrow> (case find_job (ap_job p) s of
          None \<Rightarrow> Inl (Admin_job_error ''not_found'')
        | Some j \<Rightarrow> (case find_letter (j_letter j) s of
            None \<Rightarrow> Inl (Admin_job_error ''not_found'')
          | Some l \<Rightarrow> (case retry_order p l s of
              Inl e \<Rightarrow> Inl e
            | Inr ord \<Rightarrow>
                if \<not> retryable_job p j l ord then Inl (Admin_job_error ''invalid_state'')
                else if isLetterAlreadyCompensated (lt_id l) (ap_user p) s
                then Inl (Admin_job_error ''invalid_state'')
                else Inr ((ap_job p, False), record_audit
                  (admin_audit hash ''mail_job_retry'' ''operator_confirmed_rejection'' p
                     [(''jobStatus'', JStr ''failed''), (''providerOutcome'', JStr ''definite_failure''),
                      (''orderStatus'', order_json (map_option (o_status \<circ> fst) ord))]
                     [(''jobStatus'', JStr ''pending''), (''providerOutcome'', JStr ''not_dispatched''),
                      (''orderStatus'', order_json (retry_after_status ord))])
                  (upd_letter (lt_id l) (queue_letter now)
                    (upd_job (ap_job p) (retry_row now) (retry_order_back now ord s))))))))"

end
