(* ===== verification/OutboxResolve.thy ===== *)
theory OutboxResolve
  imports OutboxAdmin
begin

text \<open>
  The operator's resolution of an ambiguous provider outcome
  (services/letterJobService.ts, resolveAmbiguousLetterJobAsAdmin): with conclusive evidence a
  held job is completed, queued again under its idempotency key, or failed and paid back.
\<close>

section \<open>The request\<close>

datatype mail_decision = Dec_accepted | Dec_retry | Dec_rejected

datatype mail_resolution = Confirmed_accepted | Confirmed_rejected_retry | Confirmed_rejected_refund

fun decision_text :: "mail_decision \<Rightarrow> string" where
  "decision_text Dec_accepted = ''accepted''"
| "decision_text Dec_retry = ''retry''"
| "decision_text Dec_rejected = ''rejected''"

fun resolution_text :: "mail_resolution \<Rightarrow> string" where
  "resolution_text Confirmed_accepted = ''provider_confirmed_accepted''"
| "resolution_text Confirmed_rejected_retry = ''provider_confirmed_rejected_retry''"
| "resolution_text Confirmed_rejected_refund = ''provider_confirmed_rejected_refund''"

record resolve_params =
  rp_job :: string
  rp_user :: string
  rp_actor :: string
  rp_key :: string
  rp_decision :: mail_decision
  rp_resolution :: mail_resolution
  rp_provider :: string
  rp_tracking :: "string option"

record resolve_result =
  rr_job :: string
  rr_decision :: string
  rr_resolution :: string
  rr_job_status :: string
  rr_letter_status :: string
  rr_order_status :: "string option"
  rr_replayed :: bool

section \<open>Validation\<close>

definition alnum :: "char \<Rightarrow> bool" where
  "alnum c \<longleftrightarrow> is_digit c \<or> 65 \<le> char_code c \<and> char_code c \<le> 90 \<or> 97 \<le> char_code c \<and> char_code c \<le> 122"

definition token_char :: "char \<Rightarrow> bool" where
  "token_char c \<longleftrightarrow> alnum c \<or> c = CHR ''.'' \<or> c = CHR ''_'' \<or> c = CHR '':'' \<or> c = CHR ''-''"

text \<open>The match of \<open>/^[A-Za-z0-9][A-Za-z0-9._:-]{lo,hi}$/\<close>.\<close>

definition token :: "nat \<Rightarrow> nat \<Rightarrow> string \<Rightarrow> bool" where
  "token lo hi t \<longleftrightarrow> (case t of [] \<Rightarrow> False
     | c # cs \<Rightarrow> alnum c \<and> lo \<le> length cs \<and> length cs \<le> hi \<and> list_all token_char cs)"

definition hex_char :: "char \<Rightarrow> bool" where
  "hex_char c \<longleftrightarrow> is_digit c \<or> 97 \<le> char_code (lower_char c) \<and> char_code (lower_char c) \<le> 102"

text \<open>The UUID pattern, case-insensitive: groups of 8, 4, 4, 4 and 12 hexadecimal digits.\<close>

definition uuid_char :: "nat \<Rightarrow> char \<Rightarrow> bool" where
  "uuid_char i c \<longleftrightarrow>
     (if i = 8 \<or> i = 13 \<or> i = 18 \<or> i = 23 then c = CHR ''-''
      else if i = 14 then 49 \<le> char_code c \<and> char_code c \<le> 53
      else if i = 19 then c = CHR ''8'' \<or> c = CHR ''9'' \<or> lower_char c = CHR ''a'' \<or> lower_char c = CHR ''b''
      else hex_char c)"

definition is_uuid :: "string \<Rightarrow> bool" where
  "is_uuid t \<longleftrightarrow> length t = 36 \<and> list_all (\<lambda>(i, c). uuid_char i c) (zip [0..<36] t)"

definition exact_pair :: "mail_decision \<Rightarrow> mail_resolution \<Rightarrow> bool" where
  "exact_pair d r \<longleftrightarrow> d = Dec_accepted \<and> r = Confirmed_accepted \<or>
     d = Dec_retry \<and> r = Confirmed_rejected_retry \<or> d = Dec_rejected \<and> r = Confirmed_rejected_refund"

definition valid_tracking :: "mail_decision \<Rightarrow> string option \<Rightarrow> bool" where
  "valid_tracking d t \<longleftrightarrow> (if d = Dec_accepted then token 2 254 (or_str t []) else t = None)"

definition validateMailResolution :: "resolve_params \<Rightarrow> bool" where
  "validateMailResolution p \<longleftrightarrow> is_uuid (rp_job p) \<and>
     rp_user p \<noteq> [] \<and> length (rp_user p) \<le> 255 \<and> rp_actor p \<noteq> [] \<and> length (rp_actor p) \<le> 255 \<and>
     exact_pair (rp_decision p) (rp_resolution p) \<and> valid_tracking (rp_decision p) (rp_tracking p) \<and>
     (rp_provider p = ''postgrid'' \<or> rp_provider p = ''dummy'' \<or> rp_provider p = ''diy'') \<and>
     token 7 127 (rp_key p)"

section \<open>The replay\<close>

definition nul :: char where "nul = char_of (0::nat)"

definition mailResolutionSubjectBinding :: "(string \<Rightarrow> string) \<Rightarrow> string \<Rightarrow> string \<Rightarrow> string" where
  "mailResolutionSubjectBinding hash jobId userId = hash (jobId @ [nul] @ userId)"

definition provider_reference :: "(string \<Rightarrow> string) \<Rightarrow> resolve_params \<Rightarrow> string option" where
  "provider_reference hash p = map_option hash (or_null_str (rp_tracking p))"

definition same_resolution :: "(string \<Rightarrow> string) \<Rightarrow> resolve_params \<Rightarrow> operator_audit \<Rightarrow> bool" where
  "same_resolution hash p a \<longleftrightarrow>
     au_operation a = ''mail_fulfillment_resolve'' \<and> au_target_type a = ''letter_job'' \<and>
     au_target_hash a = hash (rp_job p) \<and> au_actor_hash a = hash (rp_actor p) \<and>
     audit_text (au_before a) ''subjectBinding'' = Some (mailResolutionSubjectBinding hash (rp_job p) (rp_user p)) \<and>
     audit_text (au_after a) ''decision'' = Some (decision_text (rp_decision p)) \<and>
     audit_text (au_after a) ''resolution'' = Some (resolution_text (rp_resolution p)) \<and>
     audit_text (au_evidence a) ''providerName'' = Some (rp_provider p) \<and>
     audit_text (au_evidence a) ''providerReferenceHash'' = provider_reference hash p"

definition audit_str :: "json_object \<Rightarrow> string \<Rightarrow> string" where
  "audit_str obj k = (case audit_text obj k of None \<Rightarrow> [] | Some t \<Rightarrow> t)"

definition replayMailResolution :: "(string \<Rightarrow> string) \<Rightarrow> operator_audit \<Rightarrow> resolve_params \<Rightarrow> error + resolve_result" where
  "replayMailResolution hash a p =
     (if \<not> same_resolution hash p a then Inl (Admin_job_error ''idempotency_conflict'')
      else Inr \<lparr> rr_job = rp_job p, rr_decision = audit_str (au_after a) ''decision'',
             rr_resolution = audit_str (au_after a) ''resolution'',
             rr_job_status = audit_str (au_after a) ''jobStatus'',
             rr_letter_status = audit_str (au_after a) ''letterStatus'',
             rr_order_status = audit_text (au_after a) ''orderStatus'', rr_replayed = True \<rparr>)"

section \<open>The three decisions\<close>

definition providerSellsExtraServices :: "string \<Rightarrow> bool" where
  "providerSellsExtraServices name \<longleftrightarrow> lower_str name = ''postgrid'' \<or> lower_str name = ''dummy''"

definition providerPrintsRenderedPdf :: "string \<Rightarrow> bool" where
  "providerPrintsRenderedPdf name \<longleftrightarrow> lower_str name = ''postgrid'' \<or> lower_str name = ''dummy''"

definition can_accept_by :: "string \<Rightarrow> letter \<Rightarrow> bool" where
  "can_accept_by name l \<longleftrightarrow>
     (mailServiceOf (lt_mail_service l) = None \<or> providerSellsExtraServices name) \<and>
     (\<not> drawnByRenderer (lt_content l) \<or> providerPrintsRenderedPdf name)"

definition held_for_outcome :: "order \<Rightarrow> bool" where
  "held_for_outcome ord \<longleftrightarrow> o_status ord = Ord_held \<and>
     (o_hold_reason ord = Some ''provider_outcome_ambiguous'' \<or>
      o_hold_reason ord = Some ''legacy_processing_outcome_unknown'')"

definition coalesce :: "instant option \<Rightarrow> instant \<Rightarrow> instant option" where
  "coalesce t now = (case t of None \<Rightarrow> Some now | Some x \<Rightarrow> Some x)"

definition resolved_letter :: "instant \<Rightarrow> string option \<Rightarrow> string \<Rightarrow> letter \<Rightarrow> letter" where
  "resolved_letter now tracking name l = l\<lparr>lt_status := L_accepted, lt_tracking_id := tracking,
     lt_provider := Some name, lt_sent_at := coalesce (lt_sent_at l) now, lt_updated_at := now\<rparr>"

definition resolved_row :: "instant \<Rightarrow> string option \<Rightarrow> string \<Rightarrow> letter_job \<Rightarrow> letter_job" where
  "resolved_row now tracking resolution j = j\<lparr>j_status := J_completed, j_provider_outcome := O_accepted,
     j_provider_order_id := tracking, j_operator_resolution := Some resolution, j_resolved_at := Some now,
     j_completed_at := coalesce (j_completed_at j) now, j_locked_at := None, j_held_at := None,
     j_hold_reason := None, j_updated_at := now\<rparr>"

definition requeued_row :: "instant \<Rightarrow> string \<Rightarrow> letter_job \<Rightarrow> letter_job" where
  "requeued_row now resolution j = j\<lparr>j_status := J_pending, j_provider_outcome := O_not_dispatched,
     j_max_attempts := max (j_max_attempts j) (j_attempts j + 1), j_next_attempt_at := now,
     j_scheduled_at := now, j_operator_resolution := Some resolution, j_resolved_at := Some now,
     j_completed_at := None, j_locked_at := None, j_held_at := None, j_hold_reason := None,
     j_last_error := None, j_error_message := None, j_updated_at := now\<rparr>"

definition refused_row :: "instant \<Rightarrow> string \<Rightarrow> letter_job \<Rightarrow> letter_job" where
  "refused_row now resolution j = j\<lparr>j_status := J_failed, j_provider_outcome := O_definite_failure,
     j_attempts := j_max_attempts j, j_operator_resolution := Some resolution, j_resolved_at := Some now,
     j_completed_at := coalesce (j_completed_at j) now, j_locked_at := None, j_held_at := None,
     j_hold_reason := None, j_updated_at := now\<rparr>"

definition order_fulfilled :: "instant \<Rightarrow> order \<Rightarrow> order" where
  "order_fulfilled now ord = ord\<lparr>o_status := Ord_fulfilled, o_fulfilled_at := coalesce (o_fulfilled_at ord) now,
     o_completed_at := coalesce (o_completed_at ord) now, o_hold_previous_status := None, o_held_at := None,
     o_hold_reason := None, o_updated_at := now\<rparr>"

definition order_requeued :: "instant \<Rightarrow> order \<Rightarrow> order" where
  "order_requeued now ord = ord\<lparr>o_status := Ord_fulfillment_pending, o_hold_previous_status := None,
     o_held_at := None, o_hold_reason := None, o_last_error_code := None, o_last_error := None,
     o_updated_at := now\<rparr>"

definition order_refund :: "instant \<Rightarrow> order \<Rightarrow> order" where
  "order_refund now ord = ord\<lparr>o_status := Ord_refund_pending,
     o_refund_pending_at := coalesce (o_refund_pending_at ord) now,
     o_last_error_code := Some ''PROVIDER_CONFIRMED_REJECTION'', o_hold_previous_status := None,
     o_held_at := None, o_hold_reason := None, o_updated_at := now\<rparr>"

text \<open>What a decision writes to the order it funds: the store, and the status after.\<close>

definition resolve_order ::
  "(instant \<Rightarrow> order \<Rightarrow> order) \<Rightarrow> order_status \<Rightarrow> instant \<Rightarrow> order option \<Rightarrow> db \<Rightarrow> order_status option \<times> db" where
  "resolve_order f to now ord s = (case ord of
     None \<Rightarrow> (None, s)
   | Some x \<Rightarrow> if held_for_outcome x then (Some to, upd_order (o_id x) (f now) s) else (Some (o_status x), s))"

definition resolve_decision ::
  "environment \<Rightarrow> instant \<Rightarrow> instant \<Rightarrow> resolve_params \<Rightarrow> letter \<Rightarrow> order option \<Rightarrow> db \<Rightarrow>
   error + order_status option \<times> db" where
  "resolve_decision env now js p l ord s = (case rp_decision p of
     Dec_accepted \<Rightarrow> Inr (resolve_order order_fulfilled Ord_fulfilled now ord
       (upd_job (rp_job p) (resolved_row now (rp_tracking p) (resolution_text (rp_resolution p)))
         (upd_letter (lt_id l) (resolved_letter now (rp_tracking p) (rp_provider p)) s)))
   | Dec_retry \<Rightarrow>
       if (case ord of None \<Rightarrow> False | Some x \<Rightarrow> \<not> held_for_outcome x)
       then Inl (Admin_job_error ''invalid_state'')
       else Inr (resolve_order order_requeued Ord_fulfillment_pending now ord
         (upd_job (rp_job p) (requeued_row now (resolution_text (rp_resolution p)))
           (upd_letter (lt_id l) (queue_letter now) s)))
   | Dec_rejected \<Rightarrow>
       (case returnPrepaidCreditsForFailedLetter env now js (lt_id l) ''operator_confirmed_rejection''
           (upd_job (rp_job p) (refused_row now (resolution_text (rp_resolution p)))
             (upd_letter (lt_id l) (fail_letter now) s)) of
          Inl e \<Rightarrow> Inl e
        | Inr s1 \<Rightarrow> Inr (resolve_order order_refund Ord_refund_pending now ord s1)))"

fun resolved_job_status :: "mail_decision \<Rightarrow> string" where
  "resolved_job_status Dec_accepted = ''completed''"
| "resolved_job_status Dec_retry = ''pending''"
| "resolved_job_status Dec_rejected = ''failed''"

fun resolved_letter_status :: "mail_decision \<Rightarrow> string" where
  "resolved_letter_status Dec_accepted = ''accepted''"
| "resolved_letter_status Dec_retry = ''queued''"
| "resolved_letter_status Dec_rejected = ''failed''"

section \<open>The record of a resolution\<close>

definition resolution_event :: "resolve_params \<Rightarrow> order option \<Rightarrow> order_status option \<Rightarrow> db \<Rightarrow> db" where
  "resolution_event p ord after s = (case ord of
     None \<Rightarrow> s
   | Some x \<Rightarrow> s\<lparr>order_events := order_events s @ [\<lparr> oe_order = o_id x,
       oe_type = ''provider.operator_resolved'', oe_from = Some (o_status x), oe_to = after,
       oe_metadata = [(''decision'', JStr (decision_text (rp_decision p))), (''provider'', JStr (rp_provider p))] \<rparr>]\<rparr>)"

definition settles_alert :: "string \<Rightarrow> alert \<Rightarrow> bool" where
  "settles_alert jobId a \<longleftrightarrow> \<not> al_resolved a \<and>
     (al_type a = ''mail_provider_outcome_ambiguous'' \<or> al_type a = ''refunded_mail_already_dispatched'') \<and>
     json_text (Some (al_details a)) ''jobId'' = Some jobId"

definition settle_alerts :: "(string \<Rightarrow> string) \<Rightarrow> resolve_params \<Rightarrow> db \<Rightarrow> db" where
  "settle_alerts hash p = alerts_update (upd_where (settles_alert (rp_job p))
     (\<lambda>a. a\<lparr>al_resolved := True, al_resolved_by := Some (hash (rp_actor p)),
        al_resolution_code := Some (resolution_text (rp_resolution p))\<rparr>))"

definition resolution_audit ::
  "(string \<Rightarrow> string) \<Rightarrow> resolve_params \<Rightarrow> order option \<Rightarrow> order_status option \<Rightarrow> operator_audit" where
  "resolution_audit hash p ord after = \<lparr> au_key_hash = hash (rp_key p), au_actor_hash = hash (rp_actor p),
     au_operation = ''mail_fulfillment_resolve'', au_target_type = ''letter_job'',
     au_target_hash = hash (rp_job p), au_reason_code = resolution_text (rp_resolution p),
     au_before = [(''jobStatus'', JStr ''held''), (''letterStatus'', JStr ''held''),
       (''orderStatus'', order_json (map_option o_status ord)),
       (''subjectBinding'', JStr (mailResolutionSubjectBinding hash (rp_job p) (rp_user p)))],
     au_after = [(''decision'', JStr (decision_text (rp_decision p))),
       (''resolution'', JStr (resolution_text (rp_resolution p))),
       (''jobStatus'', JStr (resolved_job_status (rp_decision p))),
       (''letterStatus'', JStr (resolved_letter_status (rp_decision p))), (''orderStatus'', order_json after)],
     au_evidence = [(''providerName'', JStr (rp_provider p)),
       (''providerReferenceHash'', (case provider_reference hash p of None \<Rightarrow> JNull | Some h \<Rightarrow> JStr h))] \<rparr>"

definition resolvable :: "resolve_params \<Rightarrow> letter_job \<Rightarrow> letter \<Rightarrow> order option \<Rightarrow> bool" where
  "resolvable p j l ord \<longleftrightarrow> lt_user l = rp_user p \<and> lt_status l = L_held \<and> j_status j = J_held \<and>
     j_provider_outcome j = O_ambiguous \<and>
     (funding_order l = None \<or> (case ord of None \<Rightarrow> False | Some x \<Rightarrow> o_user x = rp_user p))"

definition funding_row :: "letter \<Rightarrow> db \<Rightarrow> order option" where
  "funding_row l s = (case funding_order l of None \<Rightarrow> None | Some oid \<Rightarrow> find_order oid s)"

definition resolveAmbiguousLetterJobAsAdmin ::
  "(string \<Rightarrow> string) \<Rightarrow> environment \<Rightarrow> instant \<Rightarrow> instant \<Rightarrow> resolve_params \<Rightarrow> db \<Rightarrow> error + resolve_result \<times> db" where
  "resolveAmbiguousLetterJobAsAdmin hash env now js p s =
     (if \<not> validateMailResolution p then Inl (Admin_job_error ''invalid_request'')
      else case find_audit (hash (rp_key p)) s of
        Some a \<Rightarrow> (case replayMailResolution hash a p of Inl e \<Rightarrow> Inl e | Inr r \<Rightarrow> Inr (r, s))
      | None \<Rightarrow> (case find_job (rp_job p) s of
          None \<Rightarrow> Inl (Admin_job_error ''not_found'')
        | Some j \<Rightarrow> (case find_letter (j_letter j) s of
            None \<Rightarrow> Inl (Admin_job_error ''not_found'')
          | Some l \<Rightarrow>
              let ord = funding_row l s
              in if \<not> resolvable p j l ord
                 then Inl (Admin_job_error (if lt_user l = rp_user p then ''invalid_state'' else ''not_found''))
                 else if rp_decision p = Dec_accepted \<and> \<not> can_accept_by (rp_provider p) l
                 then Inl (Admin_job_error ''invalid_state'')
                 else if rp_decision p \<noteq> Dec_rejected \<and> isLetterAlreadyCompensated (lt_id l) (rp_user p) s
                 then Inl (Admin_job_error ''invalid_state'')
                 else (case resolve_decision env now js p l ord s of
                     Inl e \<Rightarrow> Inl e
                   | Inr (after, s1) \<Rightarrow>
                       Inr (\<lparr> rr_job = rp_job p, rr_decision = decision_text (rp_decision p),
                           rr_resolution = resolution_text (rp_resolution p),
                           rr_job_status = resolved_job_status (rp_decision p),
                           rr_letter_status = resolved_letter_status (rp_decision p),
                           rr_order_status = map_option order_status_text after, rr_replayed = False \<rparr>,
                         record_audit (resolution_audit hash p ord after)
                           (settle_alerts hash p (resolution_event p ord after s1)))))))"

end
