(* ===== verification/OutboxLaws.thy ===== *)
theory OutboxLaws
  imports OutboxRun
begin

text \<open>
  What every transaction of the outbox does to the job rows, and the interleaving of any number
  of workers: a state is the store and the workers in flight, each between two transactions
  with the job row its claim returned; a step is one transaction of one worker, a new job, a
  crash, or any transaction elsewhere that leaves the job rows alone.
\<close>

section \<open>The life cycle of a job\<close>

text \<open>The abstract machine of a job, over its status and what is known of the provider.\<close>

inductive life :: "job_status \<times> provider_outcome \<Rightarrow> job_status \<times> provider_outcome \<Rightarrow> bool" where
  claimed: "life (J_pending, O_not_dispatched) (J_processing, O_not_dispatched)"
| reclaimed: "life (J_processing, O_not_dispatched) (J_processing, O_not_dispatched)"
| waits_again: "life (J_processing, O_not_dispatched) (J_pending, O_not_dispatched)"
| withdrawn: "life (J_pending, O_not_dispatched) (J_cancelled, O_not_dispatched)"
| gave_up: "life (J_processing, O_not_dispatched) (J_failed, O_not_dispatched)"
| dispatched: "life (J_processing, O_not_dispatched) (J_processing, O_dispatching)"
| accepted: "life (J_processing, O_dispatching) (J_completed, O_accepted)"
| refused: "life (J_processing, O_dispatching) (J_failed, O_definite_failure)"
| held: "life (J_processing, O_dispatching) (J_held, O_ambiguous)"
| held_still: "life (J_held, O_ambiguous) (J_held, O_ambiguous)"
| accepted_late: "life (J_held, O_ambiguous) (J_completed, O_accepted)"

inductive_simps life_from [simp]:
  "life (J_completed, x) q" "life (J_failed, x) q" "life (J_cancelled, x) q"

definition job_state :: "letter_job \<Rightarrow> job_status \<times> provider_outcome" where
  "job_state j = (j_status j, j_provider_outcome j)"

text \<open>The CHECKs of migration 023 on a job, and the attempts within their limit.\<close>

definition outcome_state_ok :: "letter_job \<Rightarrow> bool" where
  "outcome_state_ok j \<longleftrightarrow> (case j_status j of
       J_processing \<Rightarrow> j_provider_outcome j \<in> {O_not_dispatched, O_dispatching}
     | J_held \<Rightarrow> j_provider_outcome j \<in> {O_ambiguous, O_accepted}
     | J_completed \<Rightarrow> j_provider_outcome j = O_accepted
     | _ \<Rightarrow> j_provider_outcome j \<in> {O_not_dispatched, O_definite_failure})"

definition job_ok :: "letter_job \<Rightarrow> bool" where
  "job_ok j \<longleftrightarrow> outcome_state_ok j \<and>
     (j_status j = J_held \<longrightarrow> j_held_at j \<noteq> None \<and> j_hold_reason j \<noteq> None) \<and>
     j_attempts j \<le> j_max_attempts j \<and>
     (job_state j = (J_failed, O_not_dispatched) \<longrightarrow> j_attempts j = j_max_attempts j)"

text \<open>What a step may do to one row: nothing of its identity, and along the life cycle.\<close>

definition same_job :: "letter_job \<Rightarrow> letter_job \<Rightarrow> bool" where
  "same_job r r' \<longleftrightarrow> j_id r' = j_id r \<and> j_letter r' = j_letter r \<and>
     j_idempotency_key r' = j_idempotency_key r \<and> j_max_attempts r' = j_max_attempts r"

definition follows :: "letter_job \<Rightarrow> letter_job \<Rightarrow> bool" where
  "follows r r' \<longleftrightarrow> same_job r r' \<and> (job_state r' = job_state r \<or> life (job_state r) (job_state r'))"

lemma follows_refl [simp, intro]: "follows r r"
  by (simp add: follows_def same_job_def)

lemma followsI:
  assumes "same_job r r'" and "job_state r = p" and "job_state r' = q" and "life p q"
  shows "follows r r'"
  using assms by (simp add: follows_def)

lemma job_stateI: "j_status j = a \<Longrightarrow> j_provider_outcome j = b \<Longrightarrow> job_state j = (a, b)"
  by (simp add: job_state_def)

lemma follows_dispatched: "follows r r' \<Longrightarrow> j_provider_outcome r \<noteq> O_not_dispatched \<Longrightarrow>
    j_provider_outcome r' \<noteq> O_not_dispatched"
  by (auto simp: follows_def job_state_def elim: life.cases)

lemma list_all2_upd_key:
  assumes "distinct (map key rows)" and "find_by key k rows = Some r" and "R r (f r)" and "\<And>x. R x x"
  shows "list_all2 R rows (upd_where (\<lambda>x. key x = k) f rows)"
  using assms
proof (induction rows)
  case Nil
  then show ?case by simp
next
  case (Cons x rows)
  show ?case
  proof (cases "key x = k")
    case True
    with Cons.prems(1) have "upd_where (\<lambda>x. key x = k) f rows = rows"
      by (intro upd_where_none) (auto simp: image_iff)
    with True Cons.prems show ?thesis by (simp add: list_all2_refl)
  next
    case False
    with Cons show ?thesis by simp
  qed
qed

section \<open>The row updates along the life cycle\<close>

lemma row_same_job [simp]:
  "same_job j (claim_row now j)" "same_job j (put_back now j)" "same_job j (mark_row now j)"
  "same_job j (hold_row now c j)" "same_job j (complete_row now r j)" "same_job j (fail_row now n t j)"
  "same_job j (undispatched_put_back now c j)" "same_job j (undispatched_row now b n c j)"
  by (simp_all add: same_job_def claim_row_def put_back_def mark_row_def hold_row_def complete_row_def
      fail_row_def undispatched_put_back_def undispatched_row_def)

lemma row_ids [simp]:
  "j_id (claim_row now j) = j_id j" "j_id (put_back now j) = j_id j" "j_id (mark_row now j) = j_id j"
  "j_id (hold_row now c j) = j_id j" "j_id (complete_row now r j) = j_id j"
  "j_id (fail_row now n t j) = j_id j" "j_id (undispatched_put_back now c j) = j_id j"
  "j_id (undispatched_row now b n c j) = j_id j"
  by (simp_all add: claim_row_def put_back_def mark_row_def hold_row_def complete_row_def fail_row_def
      undispatched_put_back_def undispatched_row_def)

lemma row_states [simp]:
  "job_state (claim_row now j) = (J_processing, j_provider_outcome j)"
  "job_state (put_back now j) = (J_pending, j_provider_outcome j)"
  "job_state (mark_row now j) = (j_status j, O_dispatching)"
  "job_state (complete_row now r j) = (J_completed, O_accepted)"
  "job_state (fail_row now n t j) = (J_failed, O_definite_failure)"
  "job_state (undispatched_put_back now c j) = (J_pending, j_provider_outcome j)"
  "job_state (undispatched_row now b n c j) = (if b then J_pending else J_failed, j_provider_outcome j)"
  "job_state (hold_row now c j) =
    (if j_status j = J_completed \<or> j_status j = J_failed then job_state j else (J_held, O_ambiguous))"
  by (simp_all add: job_state_def claim_row_def put_back_def mark_row_def complete_row_def fail_row_def
      undispatched_put_back_def undispatched_row_def hold_row_def)

lemma row_attempts [simp]:
  "j_attempts (claim_row now j) = Suc (j_attempts j)" "j_attempts (put_back now j) = j_attempts j - 1"
  "j_attempts (mark_row now j) = j_attempts j" "j_attempts (complete_row now r j) = j_attempts j"
  "j_attempts (fail_row now n t j) = j_attempts j" "j_attempts (hold_row now c j) = j_attempts j"
  "j_attempts (undispatched_put_back now c j) = j_attempts j - 1"
  "j_attempts (undispatched_row now b n c j) = j_attempts j"
  by (simp_all add: claim_row_def put_back_def mark_row_def complete_row_def fail_row_def
      undispatched_put_back_def undispatched_row_def hold_row_def)

lemma row_max [simp]:
  "j_max_attempts (claim_row now j) = j_max_attempts j" "j_max_attempts (put_back now j) = j_max_attempts j"
  "j_max_attempts (mark_row now j) = j_max_attempts j" "j_max_attempts (complete_row now r j) = j_max_attempts j"
  "j_max_attempts (fail_row now n t j) = j_max_attempts j" "j_max_attempts (hold_row now c j) = j_max_attempts j"
  "j_max_attempts (undispatched_put_back now c j) = j_max_attempts j"
  "j_max_attempts (undispatched_row now b n c j) = j_max_attempts j"
  by (simp_all add: claim_row_def put_back_def mark_row_def hold_row_def complete_row_def fail_row_def
      undispatched_put_back_def undispatched_row_def)

text \<open>The rows the updates are applied to follow the life cycle.\<close>

lemma job_okI:
  assumes "job_state r = (st, out)" and "j_attempts r \<le> j_max_attempts r"
    and "life (st0, out0) (st, out)" and "st = J_held \<Longrightarrow> j_held_at r \<noteq> None \<and> j_hold_reason r \<noteq> None"
    and "st = J_failed \<Longrightarrow> out = O_not_dispatched \<Longrightarrow> j_attempts r = j_max_attempts r"
  shows "job_ok r"
  using assms by (auto simp: job_ok_def outcome_state_ok_def job_state_def elim: life.cases)

lemma claim_follows:
  assumes "claimable now s only j" and "job_ok j"
  shows "follows j (claim_row t j) \<and> job_ok (claim_row t j)"
proof -
  have c: "j_attempts j < j_max_attempts j" "j_provider_outcome j = O_not_dispatched"
    "j_status j = J_pending \<or> j_status j = J_failed \<or> j_status j = J_processing"
    using assms(1) by (auto simp: claimable_def)
  have nf: "j_status j \<noteq> J_failed" using c(1,2) assms(2) by (auto simp: job_ok_def job_state_def)
  then have l: "life (job_state j) (J_processing, O_not_dispatched)"
    using c by (auto simp: job_state_def intro: life.intros)
  have "job_ok (claim_row t j)"
    by (rule job_okI [OF _ _ life.reclaimed]) (use c in simp_all)
  with l c(2) show ?thesis by (simp add: follows_def)
qed

lemma put_back_follows:
  assumes "j_status j = J_processing" "j_provider_outcome j = O_not_dispatched" "job_ok j"
  shows "follows j (put_back t j) \<and> job_ok (put_back t j)"
    and "follows j (undispatched_put_back t c j) \<and> job_ok (undispatched_put_back t c j)"
proof -
  have a: "j_attempts j \<le> j_max_attempts j" using assms(3) by (simp add: job_ok_def)
  have "job_ok (put_back t j)" "job_ok (undispatched_put_back t c j)"
    by (rule job_okI [OF _ _ life.waits_again], use assms a in simp_all)+
  then show "follows j (put_back t j) \<and> job_ok (put_back t j)"
    "follows j (undispatched_put_back t c j) \<and> job_ok (undispatched_put_back t c j)"
    using followsI [OF _ job_stateI [OF assms(1,2)] _ life.waits_again] assms(2) by simp_all
qed

lemma mark_follows:
  assumes "j_status j = J_processing" "j_provider_outcome j = O_not_dispatched" "job_ok j"
  shows "follows j (mark_row t j) \<and> job_ok (mark_row t j)"
proof -
  have "job_ok (mark_row t j)"
    by (rule job_okI [OF _ _ life.dispatched]) (use assms in \<open>simp_all add: job_ok_def\<close>)
  with followsI [OF _ job_stateI [OF assms(1,2)] _ life.dispatched] assms(1) show ?thesis by simp
qed

lemma undispatched_follows:
  assumes "j_status j = J_processing" "j_provider_outcome j = O_not_dispatched" "job_ok j"
    and "b \<longleftrightarrow> j_attempts j < j_max_attempts j"
  shows "follows j (undispatched_row t b n c j) \<and> job_ok (undispatched_row t b n c j)"
proof -
  have a: "j_attempts j \<le> j_max_attempts j" using assms(3) by (simp add: job_ok_def)
  have "life (J_processing, O_not_dispatched) (if b then J_pending else J_failed, O_not_dispatched)"
    by (simp add: life.waits_again life.gave_up)
  moreover have "job_ok (undispatched_row t b n c j)"
    by (rule job_okI [OF _ _ calculation], use assms a in \<open>simp_all split: if_splits\<close>)
  ultimately show ?thesis using followsI [OF _ job_stateI [OF assms(1,2)]] assms(2) by simp
qed

lemma complete_follows:
  assumes "can_persist_acceptance j" "job_ok j"
  shows "follows j (complete_row t r j) \<and> job_ok (complete_row t r j)"
proof -
  have "life (job_state j) (J_completed, O_accepted)"
    using assms(1) by (auto simp: can_persist_acceptance_def job_state_def intro: life.intros)
  moreover have "job_ok (complete_row t r j)"
    by (rule job_okI [OF _ _ life.accepted]) (use assms in \<open>simp_all add: job_ok_def\<close>)
  ultimately show ?thesis by (simp add: follows_def)
qed

lemma fail_follows:
  assumes "j_status j = J_processing" "j_provider_outcome j = O_dispatching" "job_ok j"
  shows "follows j (fail_row t n x j) \<and> job_ok (fail_row t n x j)"
proof -
  have "job_ok (fail_row t n x j)"
    by (rule job_okI [OF _ _ life.refused]) (use assms in \<open>simp_all add: job_ok_def\<close>)
  with followsI [OF _ job_stateI [OF assms(1,2)] _ life.refused] show ?thesis by simp
qed

text \<open>A job that was dispatched, or never left its claim for the hold's caller, is held along the life cycle.\<close>

lemma hold_follows:
  assumes "j_provider_outcome j \<noteq> O_not_dispatched" "job_state j \<noteq> (J_held, O_accepted)"
    "j_status j \<noteq> J_pending" "j_status j \<noteq> J_cancelled" "job_ok j"
  shows "follows j (hold_row t c j) \<and> job_ok (hold_row t c j)"
proof (cases "j_status j = J_completed \<or> j_status j = J_failed")
  case True
  then have "hold_row t c j = j" by (auto simp: hold_row_def)
  with assms show ?thesis by simp
next
  case False
  with assms have st: "job_state j = (J_processing, O_dispatching) \<or> job_state j = (J_held, O_ambiguous)"
    by (cases "j_status j") (auto simp: job_ok_def outcome_state_ok_def job_state_def)
  then have "life (job_state j) (J_held, O_ambiguous)" by (auto intro: life.intros)
  moreover have "job_state (hold_row t c j) = (J_held, O_ambiguous)" using False by simp
  moreover have "job_ok (hold_row t c j)"
    by (rule job_okI [OF calculation(2) _ life.held_still])
      (use assms(5) False in \<open>simp_all add: job_ok_def\<close>, simp add: hold_row_def)
  ultimately show ?thesis using False by (simp add: follows_def)
qed

end
