(* ===== verification/OutboxSteps.thy ===== *)
theory OutboxSteps
  imports OutboxLaws
begin

text \<open>
  The effect of every transaction of the outbox on the job rows and on the requests sent, and
  the step relation of any number of workers over the store, with the invariant every
  interleaving keeps.
\<close>

section \<open>Transactions that leave the jobs alone\<close>

definition quiet :: "db \<Rightarrow> db \<Rightarrow> bool" where
  "quiet s s' \<longleftrightarrow> jobs s' = jobs s \<and> submissions s' = submissions s"

lemma quiet_refl [simp]: "quiet s s"
  by (simp add: quiet_def)

lemma quiet_trans: "quiet s s' \<Longrightarrow> quiet s' s'' \<Longrightarrow> quiet s s''"
  by (simp add: quiet_def)

text \<open>A transaction that only pays: balances, lots, movements, gift letters and their codes.\<close>

definition pays_only :: "db \<Rightarrow> db \<Rightarrow> bool" where
  "pays_only s s' \<longleftrightarrow> jobs s' = jobs s \<and> submissions s' = submissions s \<and> letters s' = letters s \<and>
     orders s' = orders s \<and> order_events s' = order_events s \<and> alerts s' = alerts s \<and> history s' = history s \<and>
     audits s' = audits s \<and> drafts s' = drafts s \<and> limit_overrides s' = limit_overrides s"

lemma pays_refl [simp]: "pays_only s s"
  by (simp add: pays_only_def)

lemma pays_trans: "pays_only s s' \<Longrightarrow> pays_only s' s'' \<Longrightarrow> pays_only s s''"
  by (simp add: pays_only_def)

lemma insert_lot_pays: "insert_lot e s = Inr s' \<Longrightarrow> pays_only s s'"
  by (auto simp: insert_lot_def pays_only_def split: if_splits)

lemma return_lots_pays:
  "return_lots now l uid fc d rows a b s = Inr (r, s') \<Longrightarrow> pays_only s s'"
proof (induction rows arbitrary: a b s)
  case (Cons x rows)
  from Cons.prems obtain s1 a' b' where "pays_only s s1" "return_lots now l uid fc d rows a' b' s1 = Inr (r, s')"
    by (cases x) (auto simp: bindE_Inr_iff Let_def split: if_splits dest: insert_lot_pays intro: that [OF pays_refl])
  with Cons.IH show ?case by (blast intro: pays_trans)
qed simp

lemma credit_return_pays: "pays_only s (credit_return now l uid d n s)"
  by (simp add: pays_only_def credit_return_def Let_def insert_txn_def upd_user_def split: option.split)

lemma return_credits_pays:
  assumes "returnConsumedCreditsForLetter now l uid fc cause s = Inr (n, s')"
  shows "pays_only s s'"
proof (cases "s' = s")
  case False
  with assms obtain r s1 where r: "return_lots now l uid fc (return_description cause l) (consumed_lots l uid s) 0 0 s
      = Inr (r, s1)"
    and k: "(case r of (returned, usable) \<Rightarrow>
        if returned = 0 then Inr (0, s1)
        else if 0 < usable then Inr (returned, credit_return now l uid (return_description cause l) usable s1)
        else Inr (returned, s1)) = (Inr (n, s') :: error + int \<times> db)"
    by (auto simp: returnConsumedCreditsForLetter_def Let_def bindE_Inr_iff split: if_splits)
  from k have s': "s' = s1 \<or> (\<exists>d u. s' = credit_return now l uid d u s1)"
    by (cases r) (auto split: if_splits)
  from s' return_lots_pays [OF r] credit_return_pays show ?thesis by (auto intro: pays_trans)
qed simp

lemma insert_gift_pays: "insert_gift g s = Inr (r, s') \<Longrightarrow> pays_only s s'"
  by (auto simp: insert_gift_def pays_only_def split: if_splits)

lemma return_gift_pays:
  assumes "returnGiftLetterForFailedSendWithClient env now js l uid fc cancelled s = Inr (n, s')"
  shows "pays_only s s'"
proof -
  have u: "pays_only s (upd_code k f s)" for k f by (simp add: pays_only_def upd_code_def)
  from assms obtain s1 where "s1 = s \<or> (\<exists>k f. s1 = upd_code k f s)"
    and "s' = s1 \<or> (\<exists>g r. insert_gift g s1 = Inr (r, s'))"
    by (auto simp: returnGiftLetterForFailedSendWithClient_def Let_def bindE_Inr_iff
        split: if_splits option.splits)
  then have "pays_only s s1" "pays_only s1 s'" using u insert_gift_pays by auto
  then show ?thesis by (rule pays_trans)
qed

lemma return_prepaid_pays:
  "returnPrepaidCreditsForFailedLetter env now js l fc s = Inr s' \<Longrightarrow> pays_only s s'"
  by (auto simp: returnPrepaidCreditsForFailedLetter_def split: option.splits funding_type.splits sum.splits
      dest: return_credits_pays return_gift_pays)

lemma pays_quiet: "pays_only s s' \<Longrightarrow> quiet s s'"
  by (simp add: pays_only_def quiet_def)

lemmas return_prepaid_quiet = return_prepaid_pays [THEN pays_quiet]

lemma order_moved_quiet [simp]: "quiet s (order_moved ev to d f oid s)"
  by (simp add: order_moved_def quiet_def split: option.split)

lemma compensate_quiet: "compensate env now js ev code t fc job oid s = Inr s' \<Longrightarrow> quiet s s'"
  by (auto simp: compensate_def dest: return_prepaid_quiet split: if_splits)

lemma upd_letter_quiet [simp]: "quiet s (upd_letter k f s)"
  by (simp add: quiet_def)

section \<open>The effect of each transaction on the jobs\<close>

text \<open>The one row of a job, rewritten.\<close>

definition job_written :: "string \<Rightarrow> (letter_job \<Rightarrow> letter_job) \<Rightarrow> db \<Rightarrow> db \<Rightarrow> bool" where
  "job_written jid f s s' \<longleftrightarrow> jobs s' = upd_where (\<lambda>r. j_id r = jid) f (jobs s) \<and>
     submissions s' = submissions s"

lemma job_written_upd [simp]: "job_written jid f s (upd_job jid f s)"
  by (simp add: job_written_def upd_job_def)

lemma job_written_quiet: "job_written jid f s s' \<Longrightarrow> quiet s' s'' \<Longrightarrow> job_written jid f s s''"
  by (simp add: job_written_def quiet_def)

lemma find_job_key: "find_job k s = Some r \<Longrightarrow> j_id r = k"
  unfolding find_job_def by (rule find_by_key)

lemma claim_cases:
  assumes "claimJob env now only s = (Some j, s')"
  obtains r where "r \<in> set (jobs s)" "claimable now s only r" "j = claim_row now r"
    "job_written (j_id r) (claim_row now) s s'" "outboxDispatchEnabled env"
proof -
  from assms obtain r rs where e: "outboxDispatchEnabled env"
    and r: "sort_key claim_key (filter (claimable now s only) (jobs s)) = r # rs"
    and j: "j = claim_row now r" and s': "s' = upd_job (j_id r) (claim_row now) s"
    by (auto simp: claimJob_def split: if_splits list.splits)
  have "set (r # rs) = set (filter (claimable now s only) (jobs s))"
    by (metis r set_sort)
  then have "r \<in> set (jobs s)" "claimable now s only r" by auto
  then show ?thesis
    by (rule that [OF _ _ j _ e]) (simp add: s' job_written_upd)
qed

lemma mark_cases:
  assumes "markProviderDispatch now job s = Inr (m, s')"
  obtains current l where "find_job (j_id job) s = Some current" "find_letter (j_letter current) s = Some l"
    "dispatchable job current l" "m = Left_for_operator" "job_written (j_id job) (put_back now) s s'"
  | current l where "find_job (j_id job) s = Some current" "find_letter (j_letter current) s = Some l"
    "dispatchable job current l" "m = Marked l" "job_written (j_id job) (mark_row now) s s'"
    "\<not> isFundingHoldReason (j_hold_reason current)" "\<not> sends_blocked (lt_user l) s"
    "funding_order l = None \<or> (\<exists>oid. funding_order l = Some oid \<and> order_status_of oid s = Some Ord_fulfillment_pending)"
proof -
  from assms obtain current l where c: "find_job (j_id job) s = Some current"
      "find_letter (j_letter current) s = Some l" "dispatchable job current l"
    and funded: "funding_order l = None \<or> (\<exists>oid. funding_order l = Some oid \<and> order_status_of oid s = Some Ord_fulfillment_pending)"
    and m: "(if isFundingHoldReason (j_hold_reason current) \<or> sends_blocked (lt_user l) s
            then Inr (Left_for_operator, upd_job (j_id job) (put_back now) s)
            else Inr (Marked l,
              upd_letter (lt_id l) (\<lambda>l. l\<lparr>lt_status := L_processing, lt_updated_at := now\<rparr>)
                (upd_job (j_id job) (mark_row now) s))) = (Inr (m, s') :: error + marked \<times> db)"
    unfolding markProviderDispatch_def by (auto split: option.splits if_splits)
  show ?thesis
  proof (cases "isFundingHoldReason (j_hold_reason current) \<or> sends_blocked (lt_user l) s")
    case True
    with m have m': "m = Left_for_operator" "s' = upd_job (j_id job) (put_back now) s" by simp_all
    show ?thesis by (rule that(1) [OF c m'(1)]) (simp add: m'(2))
  next
    case False
    with m have m': "m = Marked l" "s' = upd_letter (lt_id l) (\<lambda>l. l\<lparr>lt_status := L_processing, lt_updated_at := now\<rparr>)
        (upd_job (j_id job) (mark_row now) s)" by simp_all
    show ?thesis
      by (rule that(2) [OF c m'(1)])
        (use False funded job_written_quiet [OF job_written_upd upd_letter_quiet] in \<open>simp_all add: m'(2)\<close>)
  qed
qed

lemma hold_written:
  "\<exists>c. job_written (j_id job) (hold_row now c) s (holdAmbiguousDispatch now job e s)"
  by (rule exI [of _ "classifyDiagnosticError e ''provider_error''"])
    (simp add: job_written_def holdAmbiguousDispatch_def Let_def upd_job_def split: option.split)

lemma complete_cases:
  assumes "completeJob now job l name r s = Inr s'"
  obtains "s' = s"
  | current locked where "find_job (j_id job) s = Some current" "can_persist_acceptance current"
      "j_letter current = lt_id l" "find_letter (lt_id l) s = Some locked"
      "lt_status locked = L_processing \<or> lt_status locked = L_held"
      "s' = accepted_state now job l name r (letter_order (lt_id l) s) s"
      "job_written (j_id job) (complete_row now r) s s'"
proof (cases "s' = s")
  case True
  then show ?thesis by (rule that(1))
next
  case False
  with assms obtain current locked where c: "find_job (j_id job) s = Some current" "can_persist_acceptance current"
      "j_letter current = lt_id l" "find_letter (lt_id l) s = Some locked"
      "lt_status locked = L_processing \<or> lt_status locked = L_held"
    and s': "s' = accepted_state now job l name r (letter_order (lt_id l) s) s"
    unfolding completeJob_def Let_def by (auto split: option.splits if_splits)
  have "job_written (j_id job) (complete_row now r) s s'"
    unfolding s' accepted_state_def
    by (rule job_written_quiet [OF _ order_moved_quiet]) (simp add: job_written_def upd_job_def)
  with c s' show ?thesis by (rule that(2))
qed

lemma fail_cases:
  assumes "failOrRescheduleJob env now js job r s = Inr (b, s')"
  obtains (held) e where "pr_submission_outcome r \<noteq> Some ''definite_rejection''" "s' = holdAmbiguousDispatch now job e s"
  | (superseded) "pr_submission_outcome r = Some ''definite_rejection''" "s' = s"
  | (failed) current oid where "pr_submission_outcome r = Some ''definite_rejection''"
      "find_job (j_id job) s = Some current" "j_status current = J_processing"
      "j_provider_outcome current = O_dispatching" "lockFundingGraph job s = Inr oid"
      "compensate env now js ''provider.terminal_failure'' ''PROVIDER_SUBMISSION_FAILED''
         (summarizeProviderRejection r) ''provider_definite_rejection'' job oid
         (upd_letter (j_letter job) (fail_letter now)
           (upd_job (j_id job) (fail_row now js (summarizeProviderRejection r)) s)) = Inr s'"
      "job_written (j_id job) (fail_row now js (summarizeProviderRejection r)) s s'"
proof (cases "pr_submission_outcome r = Some ''definite_rejection''")
  case False
  with assms show ?thesis
    by (intro that(1)) (auto simp: failOrRescheduleJob_def Let_def)
next
  case True
  let ?s1 = "upd_letter (j_letter job) (fail_letter now)
      (upd_job (j_id job) (fail_row now js (summarizeProviderRejection r)) s)"
  show ?thesis
  proof (cases "s' = s")
    case False
    with True assms obtain current oid where c: "find_job (j_id job) s = Some current" "j_status current = J_processing"
        "j_provider_outcome current = O_dispatching" "lockFundingGraph job s = Inr oid"
      and k: "compensate env now js ''provider.terminal_failure'' ''PROVIDER_SUBMISSION_FAILED''
         (summarizeProviderRejection r) ''provider_definite_rejection'' job oid ?s1 = Inr s'"
      unfolding failOrRescheduleJob_def Let_def by (auto split: sum.splits option.splits if_splits)
    have "job_written (j_id job) (fail_row now js (summarizeProviderRejection r)) s ?s1"
      by (rule job_written_quiet [OF job_written_upd upd_letter_quiet])
    from job_written_quiet [OF this compensate_quiet [OF k]] show ?thesis by (rule that(3) [OF True c k])
  qed (use that(2) True in simp)
qed

lemma fail_before_cases:
  assumes "failBeforeDispatch env now js draw job e s = Inr (b, s')"
  obtains (superseded) "b = False" "s' = s"
  | (put_back) current c where "find_job (j_id job) s = Some current" "holds_claim job current" "b = True"
      "s' = upd_job (j_id job) (undispatched_put_back now c) s"
  | (settled) current c n oid where "find_job (j_id job) s = Some current" "holds_claim job current"
      "lockFundingGraph job s = Inr oid" "b = (j_attempts job < j_max_attempts job)"
      "job_written (j_id job) (undispatched_row now b n c) s s'"
      "(if b then Inr (upd_letter (j_letter job) (undispatched_letter now b) (upd_job (j_id job) (undispatched_row now b n c) s))
        else compensate env now js ''provider.pre_dispatch_terminal_failure'' ''PRE_DISPATCH_TERMINAL_FAILURE'' c c
          job oid (upd_letter (j_letter job) (undispatched_letter now b) (upd_job (j_id job) (undispatched_row now b n c) s))) = Inr s'"
proof -
  define c where "c = (case carriedDiagnosticClass e of Some c \<Rightarrow> c | None \<Rightarrow> classifyDiagnosticError e ''unknown_error'')"
  define n where "n = js + retryDelayMilliseconds (j_attempts job) draw"
  define rt where "rt \<longleftrightarrow> j_attempts job < j_max_attempts job"
  define s1 where "s1 = upd_letter (j_letter job) (undispatched_letter now rt)
      (upd_job (j_id job) (undispatched_row now rt n c) s)"
  from assms obtain oid where lk: "lockFundingGraph job s = Inr oid"
    unfolding failBeforeDispatch_def Let_def by (auto split: sum.splits)
  then obtain current where fj: "find_job (j_id job) s = Some current"
    unfolding lockFundingGraph_def Let_def by (auto split: option.splits)
  define lo where "lo \<longleftrightarrow> (case find_letter (j_letter current) s of None \<Rightarrow> False
      | Some l \<Rightarrow> find_user (lt_user l) s \<noteq> None \<and>
          (isFundingHoldReason (j_hold_reason current) \<or> sends_blocked (lt_user l) s))"
  have run: "failBeforeDispatch env now js draw job e s =
    (if lo then if holds_claim job current
       then Inr (True, upd_job (j_id job) (undispatched_put_back now c) s) else Inr (False, s)
     else if \<not> holds_claim job current then Inr (False, s)
     else if rt then Inr (True, s1)
     else (case compensate env now js ''provider.pre_dispatch_terminal_failure'' ''PRE_DISPATCH_TERMINAL_FAILURE''
         c c job oid s1 of Inl err \<Rightarrow> Inl err | Inr s' \<Rightarrow> Inr (False, s')))"
    unfolding failBeforeDispatch_def Let_def c_def [symmetric] n_def [symmetric] rt_def [symmetric] s1_def [symmetric]
    by (simp only: lk fj sum.case option.case lo_def [symmetric])
  have w: "job_written (j_id job) (undispatched_row now rt n c) s s1"
    unfolding s1_def by (rule job_written_quiet [OF job_written_upd upd_letter_quiet])
  consider "b = False" "s' = s" | "lo" "holds_claim job current" "b = True"
      "s' = upd_job (j_id job) (undispatched_put_back now c) s"
    | "holds_claim job current" "rt" "b = True" "s' = s1"
    | "holds_claim job current" "\<not> rt" "b = False" "compensate env now js ''provider.pre_dispatch_terminal_failure''
        ''PRE_DISPATCH_TERMINAL_FAILURE'' c c job oid s1 = Inr s'"
    using assms unfolding run by (auto split: if_splits sum.splits)
  then show ?thesis
  proof cases
    case 1
    then show ?thesis by (rule that(1))
  next
    case 2
    show ?thesis by (rule that(2) [OF fj 2(2-4)])
  next
    case 3
    show ?thesis
      by (rule that(3) [OF fj 3(1) lk, of n c]) (use 3 w in \<open>simp_all add: rt_def s1_def\<close>)
  next
    case 4
    show ?thesis
      by (rule that(3) [OF fj 4(1) lk, of n c])
        (use 4 job_written_quiet [OF w compensate_quiet [OF 4(4)]] in \<open>simp_all add: rt_def s1_def\<close>)
  qed
qed

end
