(* ===== verification/Schedule.thy ===== *)
theory Schedule
  imports Calendar "HOL-Library.List_Lexorder"
begin

text \<open>
  When scheduled mail goes to the printer (src/services/deliverySchedule.ts, with the holidays
  of src/content/uspsHolidays.ts): calendar dates as texts, business days, and the arrival dates
  on offer. A RangeError is a left value.

  \<open>zone t\<close> is the offset of America/New_York from UTC in milliseconds at the instant \<open>t\<close>, which
  the code reads from the runtime's time zone data through Intl; it is a parameter.
\<close>

section \<open>Calendar dates\<close>

datatype range_error = Not_a_date string | Not_a_day_count string | Not_an_hour

definition hour_ms :: int where "hour_ms = 3600000"

lemma is_digit_code [code]: "is_digit c \<longleftrightarrow> 48 \<le> (of_char c :: int) \<and> of_char c \<le> (57::int)"
proof -
  have "of_char c = int (char_code c)" by (simp only: char_code_def of_nat_of_char)
  then show ?thesis by (simp add: is_digit_def)
qed

text \<open>Number of a text of digits.\<close>

definition digits_number :: "string \<Rightarrow> int" where
  "digits_number ds = foldl (\<lambda>n c. n * 10 + (of_char c - 48)) 0 ds"

lemma digits_number_value: "list_all is_digit u \<Longrightarrow> digits_number u = int (digits_value u)"
proof (induction u rule: rev_induct)
  case (snoc c u)
  have "of_char c = int (char_code c)" by (simp only: char_code_def of_nat_of_char)
  with snoc show ?case by (simp add: digits_number_def digits_value_append is_digit_def of_nat_diff)
qed (simp add: digits_number_def digits_value_def)

text \<open>\<open>/^(\d{4})-(\d{2})-(\d{2})$/\<close>, and the numbers of its groups.\<close>

definition date_fields :: "string \<Rightarrow> (int \<times> int \<times> int) option" where
  "date_fields t =
     (if length t = 10 \<and> list_all is_digit (take 4 t) \<and> t ! 4 = CHR ''-'' \<and> list_all is_digit (take 2 (drop 5 t)) \<and>
         t ! 7 = CHR ''-'' \<and> list_all is_digit (drop 8 t)
      then Some (digits_number (take 4 t), digits_number (take 2 (drop 5 t)), digits_number (drop 8 t))
      else None)"

fun real_day :: "int \<times> int \<times> int \<Rightarrow> int option" where
  "real_day (y, m, d) = (let n = make_day y (m - 1) d in if civil_from_day n = (y, m, d) then Some n else None)"

definition realDayNumber :: "string \<Rightarrow> int option" where
  "realDayNumber t = Option.bind (date_fields t) real_day"

definition dayNumber :: "string \<Rightarrow> range_error + int" where
  "dayNumber date = (case realDayNumber date of None \<Rightarrow> Inl (Not_a_date date) | Some n \<Rightarrow> Inr n)"

definition fromDayNumber :: "int \<Rightarrow> string" where
  "fromDayNumber day = isoDay (day * day_ms)"

definition parseCalendarDate :: "string \<Rightarrow> string option" where
  "parseCalendarDate t = (if realDayNumber t = None then None else Some t)"

definition addCalendarDays :: "string \<Rightarrow> int \<Rightarrow> range_error + string" where
  "addCalendarDays date days = bindE (dayNumber date) (\<lambda>n. Inr (fromDayNumber (n + days)))"

section \<open>Business days\<close>

definition USPS_HOLIDAYS :: "string list" where
  "USPS_HOLIDAYS =
     [''2026-01-01'', ''2026-01-19'', ''2026-02-16'', ''2026-05-25'', ''2026-06-19'', ''2026-07-03'',
      ''2026-09-07'', ''2026-10-12'', ''2026-11-11'', ''2026-11-26'', ''2026-12-25'',
      ''2027-01-01'', ''2027-01-18'', ''2027-02-15'', ''2027-05-31'', ''2027-06-18'', ''2027-07-05'',
      ''2027-09-06'', ''2027-10-11'', ''2027-11-11'', ''2027-11-25'', ''2027-12-24'', ''2027-12-31'']"

definition USPS_HOLIDAYS_THROUGH :: string where "USPS_HOLIDAYS_THROUGH = ''2027-12-31''"

definition isBusinessDay :: "string \<Rightarrow> range_error + bool" where
  "isBusinessDay date = bindE (dayNumber date) (\<lambda>n.
     Inr (utc_weekday n \<noteq> 0 \<and> utc_weekday n \<noteq> 6 \<and> date \<notin> set USPS_HOLIDAYS))"

definition dayCount :: "string \<Rightarrow> int \<Rightarrow> range_error + int" where
  "dayCount name n = (if n < 0 \<or> 1000 < n then Inl (Not_a_day_count name) else Inr n)"

text \<open>Every day of a text lies in the years 0 to 9999, which ends the loop over business days.\<close>

definition first_day :: int where "first_day = -719528"

definition last_day :: int where "last_day = 2932896"

lemma year_from_day_range: "day_from_year 0 = first_day" "day_from_year 10000 = last_day + 1"
  by (simp_all add: day_from_year_def first_day_def last_day_def)

lemma in_range_iff: "0 \<le> year_from_day n \<and> year_from_day n \<le> 9999 \<longleftrightarrow> first_day \<le> n \<and> n \<le> last_day"
proof
  note b = year_from_day_bounds [of n]
  assume r: "0 \<le> year_from_day n \<and> year_from_day n \<le> 9999"
  then have "day_from_year 0 \<le> n" "n < day_from_year 10000"
    using b day_from_year_mono_le [of 0 "year_from_day n"] day_from_year_mono_le [of "year_from_day n + 1" 10000] by linarith+
  then show "first_day \<le> n \<and> n \<le> last_day" by (simp add: year_from_day_range)
next
  note b = year_from_day_bounds [of n]
  assume "first_day \<le> n \<and> n \<le> last_day"
  then have r: "day_from_year 0 \<le> n" "n < day_from_year 10000" by (simp_all add: year_from_day_range)
  show "0 \<le> year_from_day n \<and> year_from_day n \<le> 9999"
  proof (rule ccontr)
    assume "\<not> ?thesis"
    then consider "year_from_day n + 1 \<le> 0" | "10000 \<le> year_from_day n" by linarith
    then show False
    proof cases
      case 1
      with day_from_year_mono_le [OF 1] b r show False by linarith
    next
      case 2
      with day_from_year_mono_le [OF 2] b r show False by linarith
    qed
  qed
qed

lemma realDayNumber_range:
  assumes "realDayNumber t = Some n"
  shows "first_day \<le> n" and "n \<le> last_day"
proof -
  obtain y m d where f: "date_fields t = Some (y, m, d)" "civil_from_day n = (y, m, d)"
    using assms by (auto simp: realDayNumber_def Let_def bind_eq_Some_conv split: if_splits)
  have "length (take 4 t) = 4" "list_all is_digit (take 4 t)" "y = int (digits_value (take 4 t))"
    using f(1) by (auto simp: date_fields_def digits_number_value split: if_splits)
  moreover have "digits_value u < 10 ^ length u" if "list_all is_digit u" for u
    using that
  proof (induction u rule: rev_induct)
    case (snoc c u)
    then have "char_code c - 48 \<le> 9" by (auto simp: is_digit_def)
    with snoc show ?case by (simp add: digits_value_append)
  qed (simp add: digits_value_def)
  ultimately have y: "0 \<le> y" "y < 10000" by force+
  have "y = year_from_day n" by (rule civil_roundtrip [OF f(2)])
  with y in_range_iff [of n] show "first_day \<le> n" "n \<le> last_day" by simp_all
qed

text \<open>The loop of stepBusinessDays, from the day before its step.\<close>

function step_loop :: "bool \<Rightarrow> nat \<Rightarrow> int \<Rightarrow> range_error + int" where
  "step_loop bk remaining day =
     (if remaining = 0 then Inr day
      else let day' = (if bk then day - 1 else day + 1)
           in case isBusinessDay (fromDayNumber day') of
                Inl e \<Rightarrow> Inl e
              | Inr b \<Rightarrow> step_loop bk (if b then remaining - 1 else remaining) day')"
  by pat_completeness auto

lemma iso_date_fields:
  assumes "civil_from_day n = (y, m, d)" and "0 \<le> y" and "y \<le> 9999"
  shows "date_fields (iso_date n) = Some (y, m, d)" "length (iso_date n) = 10"
proof -
  have r: "1 \<le> m" "m \<le> 12" "1 \<le> d" "d \<le> 31" using civil_roundtrip [OF assms(1)] by simp_all
  let ?y = "pad 4 y" let ?m = "pad 2 m" let ?d = "pad 2 d"
  have t: "iso_date n = ?y @ CHR ''-'' # ?m @ CHR ''-'' # ?d"
    using assms by (simp add: iso_date_def iso_year_def)
  have v: "int (digits_value ?y) = y" "int (digits_value ?m) = m" "int (digits_value ?d) = d"
    using assms(2,3) r by (intro digits_value_pad; simp)+
  have i: "(?y @ CHR ''-'' # ?m @ CHR ''-'' # ?d) ! 4 = CHR ''-''" "(?y @ CHR ''-'' # ?m @ CHR ''-'' # ?d) ! 7 = CHR ''-''"
    "take 2 (drop 5 (?y @ CHR ''-'' # ?m @ CHR ''-'' # ?d)) = ?m" "drop 8 (?y @ CHR ''-'' # ?m @ CHR ''-'' # ?d) = ?d"
    "take 4 (?y @ CHR ''-'' # ?m @ CHR ''-'' # ?d) = ?y"
    by (simp_all add: nth_append)
  show "date_fields (iso_date n) = Some (y, m, d)"
    unfolding date_fields_def t using assms(2) r by (simp add: i v digits_pad digits_number_value del: pad.simps)
  show "length (iso_date n) = 10" by (simp add: t)
qed

lemma fromDayNumber_iso:
  assumes "first_day \<le> n" and "n \<le> last_day"
  shows "fromDayNumber n = iso_date n" "realDayNumber (fromDayNumber n) = Some n"
proof -
  obtain y m d where c: "civil_from_day n = (y, m, d)" by (cases "civil_from_day n") auto
  have y: "0 \<le> y" "y \<le> 9999" using assms in_range_iff [of n] civil_roundtrip(6) [OF c] by simp_all
  have b: "\<bar>n * day_ms\<bar> \<le> 8640000000000000" using assms by (simp add: first_day_def last_day_def day_ms_def)
  have l: "length (iso_date n) = 10" by (rule iso_date_fields [OF c y])
  show f: "fromDayNumber n = iso_date n"
    using b l by (simp add: fromDayNumber_def isoDay_def day_ms_def)
  show "realDayNumber (fromDayNumber n) = Some n"
    unfolding f by (simp add: realDayNumber_def iso_date_fields [OF c y] civil_roundtrip(1) [OF c] c)
qed

lemma fromDayNumber_out:
  assumes "\<not> (first_day \<le> n \<and> n \<le> last_day)"
  shows "realDayNumber (fromDayNumber n) = None"
proof -
  obtain y m d where c: "civil_from_day n = (y, m, d)" by (cases "civil_from_day n") auto
  have "\<not> (0 \<le> y \<and> y \<le> 9999)" using assms in_range_iff [of n] civil_roundtrip(6) [OF c] by simp
  then obtain s r where "iso_date n = s # r" "\<not> is_digit s"
    using c by (auto simp: iso_date_def iso_year_def is_digit_def char_code_def)
  then have "fromDayNumber n = [] \<or> fromDayNumber n = s # take 9 r"
    by (simp add: fromDayNumber_def isoDay_def day_ms_def numeral_eq_Suc)
  then have "date_fields (fromDayNumber n) = None"
    using \<open>\<not> is_digit s\<close> by (auto simp: date_fields_def)
  then show ?thesis by (simp add: realDayNumber_def)
qed

lemma business_day_in_range:
  "isBusinessDay (fromDayNumber n) = Inr b \<Longrightarrow> first_day \<le> n \<and> n \<le> last_day"
  using fromDayNumber_out [of n] by (auto simp: isBusinessDay_def dayNumber_def bindE_Inr_iff split: option.splits)

termination step_loop
  by (relation "measure (\<lambda>(bk, remaining, day). nat (if bk then day - first_day + 1 else last_day + 1 - day))")
    (auto simp: Let_def dest!: business_day_in_range)

declare step_loop.simps [simp del]

definition stepBusinessDays :: "string \<Rightarrow> int \<Rightarrow> range_error + string" where
  "stepBusinessDays date count = bindE (dayNumber date) (\<lambda>n.
     bindE (step_loop (count < 0) (nat \<bar>count\<bar>) n) (\<lambda>m. Inr (fromDayNumber m)))"

definition businessDayOnOrBefore :: "string \<Rightarrow> range_error + string" where
  "businessDayOnOrBefore date = bindE (isBusinessDay date) (\<lambda>b. if b then Inr date else stepBusinessDays date (- 1))"

section \<open>New York's clock\<close>

type_synonym time_zone = "instant \<Rightarrow> int"

definition MAIL_CUTOFF_HOUR :: int where "MAIL_CUTOFF_HOUR = 12"

definition DISPATCH_HOUR :: int where "DISPATCH_HOUR = 9"

text \<open>The date and the hour the formatter shows.\<close>

definition newYorkClock :: "time_zone \<Rightarrow> instant \<Rightarrow> string \<times> int" where
  "newYorkClock zone t = (let local = t + zone t in (isoDay local, local mod day_ms div hour_ms))"

definition newYorkDate :: "time_zone \<Rightarrow> instant \<Rightarrow> string" where
  "newYorkDate zone t = fst (newYorkClock zone t)"

definition clock_offset :: "time_zone \<Rightarrow> instant \<Rightarrow> range_error + int" where
  "clock_offset zone t = (case newYorkClock zone t of (date, hour) \<Rightarrow>
     bindE (dayNumber date) (\<lambda>n. Inr (n * day_ms + hour * hour_ms - t)))"

definition newYorkTime :: "time_zone \<Rightarrow> string \<Rightarrow> int \<Rightarrow> range_error + instant" where
  "newYorkTime zone date hour =
     (if hour < 0 \<or> 23 < hour then Inl Not_an_hour
      else bindE (dayNumber date) (\<lambda>n. let wall = n * day_ms + hour * hour_ms in
        bindE (clock_offset zone wall) (\<lambda>o1. let guess = wall - o1 in
          bindE (clock_offset zone guess) (\<lambda>o2. Inr (wall - o2)))))"

section \<open>The schedule\<close>

definition mailOnFor :: "string \<Rightarrow> int \<Rightarrow> range_error + string" where
  "mailOnFor arriveBy leadDays = bindE (businessDayOnOrBefore arriveBy) (\<lambda>b.
     bindE (dayCount ''leadDays'' leadDays) (\<lambda>n. stepBusinessDays b (- n)))"

definition earliestMailOn :: "time_zone \<Rightarrow> instant \<Rightarrow> range_error + string" where
  "earliestMailOn zone now = (case newYorkClock zone now of (today, hour) \<Rightarrow>
     bindE (isBusinessDay today) (\<lambda>b. if b \<and> hour < MAIL_CUTOFF_HOUR then Inr today else stepBusinessDays today 1))"

definition earliestArrival :: "time_zone \<Rightarrow> instant \<Rightarrow> int \<Rightarrow> range_error + string" where
  "earliestArrival zone now leadDays = bindE (earliestMailOn zone now) (\<lambda>d.
     bindE (dayCount ''leadDays'' leadDays) (\<lambda>n. stepBusinessDays d n))"

definition latestArrival :: "time_zone \<Rightarrow> instant \<Rightarrow> int \<Rightarrow> range_error + string" where
  "latestArrival zone now horizonDays = bindE (dayCount ''horizonDays'' horizonDays) (\<lambda>h.
     bindE (addCalendarDays (newYorkDate zone now) h) (\<lambda>latest.
       Inr (if js_less latest USPS_HOLIDAYS_THROUGH then latest else USPS_HOLIDAYS_THROUGH)))"

definition dispatchAt :: "time_zone \<Rightarrow> string \<Rightarrow> range_error + instant" where
  "dispatchAt zone mailOn = newYorkTime zone mailOn DISPATCH_HOUR"

record schedule_settings =
  leadDays :: int
  horizonDays :: int

datatype arrival_refusal = Invalid_date | Unavailable | Too_soon | Too_late

datatype arrival_check =
    Arrival_ok (ac_arriveBy: string) (ac_mailOn: string) (ac_dispatchAt: instant) (ac_earliest: string) (ac_latest: string)
  | Arrival_refused arrival_refusal (ac_earliest: string) (ac_latest: string)

definition checkArrival :: "time_zone \<Rightarrow> string \<Rightarrow> instant \<Rightarrow> schedule_settings \<Rightarrow> range_error + arrival_check" where
  "checkArrival zone arriveBy now settings =
     bindE (earliestArrival zone now (leadDays settings)) (\<lambda>earliest.
     bindE (latestArrival zone now (horizonDays settings)) (\<lambda>latest.
       case parseCalendarDate arriveBy of
         None \<Rightarrow> Inr (Arrival_refused Invalid_date earliest latest)
       | Some date \<Rightarrow>
           if js_less latest earliest then Inr (Arrival_refused Unavailable earliest latest)
           else if js_less date earliest then Inr (Arrival_refused Too_soon earliest latest)
           else if js_less latest date then Inr (Arrival_refused Too_late earliest latest)
           else bindE (mailOnFor date (leadDays settings)) (\<lambda>mailOn.
             bindE (dispatchAt zone mailOn) (\<lambda>at. Inr (Arrival_ok date mailOn at earliest latest)))))"

definition heldDatesOf :: "string option \<Rightarrow> string option \<Rightarrow> (string \<times> string) option" where
  "heldDatesOf arriveBy mailOn =
     (case (Option.bind arriveBy parseCalendarDate, Option.bind mailOn parseCalendarDate) of
        (Some a, Some m) \<Rightarrow> Some (a, m) | _ \<Rightarrow> None)"

section \<open>The nearest open dates\<close>

text \<open>\<open>byMailOn\<close>: by mail date, in the order of its arrival dates, the first of them and its distance.\<close>

type_synonym open_dates = "(string \<times> string \<times> int) list"

definition note_arrival :: "string \<Rightarrow> string \<Rightarrow> int \<Rightarrow> open_dates \<Rightarrow> open_dates" where
  "note_arrival mailOn date distance m =
     (case map_of m mailOn of
        None \<Rightarrow> m @ [(mailOn, date, distance)]
      | Some _ \<Rightarrow> map (\<lambda>(k, d, n). if k = mailOn then (k, d, min n distance) else (k, d, n)) m)"

function arrivals_loop :: "int \<Rightarrow> int \<Rightarrow> string \<Rightarrow> string \<Rightarrow> open_dates \<Rightarrow> range_error + open_dates" where
  "arrivals_loop lead target date latest m =
     (if js_less latest date then Inr m
      else case dayNumber date of
          Inl e \<Rightarrow> Inl e
        | Inr n \<Rightarrow> (case mailOnFor date lead of
            Inl e \<Rightarrow> Inl e
          | Inr mailOn \<Rightarrow> arrivals_loop lead target (fromDayNumber (n + 1)) latest (note_arrival mailOn date \<bar>n - target\<bar> m)))"
  by pat_completeness auto

termination
proof (relation "measure (\<lambda>(lead, target, date, latest, m).
    case realDayNumber date of None \<Rightarrow> 0 | Some n \<Rightarrow> nat (last_day + 2 - n))")
  fix lead target date latest m n mailOn
  assume "dayNumber date = Inr n"
  then have n: "realDayNumber date = Some n" by (simp add: dayNumber_def split: option.splits)
  note r = realDayNumber_range [OF n]
  show "((lead, target, fromDayNumber (n + 1), latest, note_arrival mailOn date \<bar>n - target\<bar> m),
      (lead, target, date, latest, m)) \<in> measure (\<lambda>(lead, target, date, latest, m).
        case realDayNumber date of None \<Rightarrow> 0 | Some n \<Rightarrow> nat (last_day + 2 - n))"
    using r n fromDayNumber_iso(2) [of "n + 1"] fromDayNumber_out [of "n + 1"]
    by (cases "n + 1 \<le> last_day") auto
qed simp

declare arrivals_loop.simps [simp del]

definition code_units :: "string \<Rightarrow> nat list" where "code_units = map char_code"

text \<open>\<open>sort\<close> of texts: by their code units.\<close>

definition nearestOpenArrivals ::
  "time_zone \<Rightarrow> string \<Rightarrow> instant \<Rightarrow> schedule_settings \<Rightarrow> (string \<Rightarrow> bool) \<Rightarrow> nat \<Rightarrow> range_error + string list" where
  "nearestOpenArrivals zone arriveBy now settings hasRoom count =
     bindE (earliestArrival zone now (leadDays settings)) (\<lambda>earliest.
     bindE (latestArrival zone now (horizonDays settings)) (\<lambda>latest.
     bindE (dayNumber arriveBy) (\<lambda>target.
     bindE (arrivals_loop (leadDays settings) target earliest latest []) (\<lambda>byMailOn.
       let offers = map snd (filter (hasRoom \<circ> fst) byMailOn);
           nearest = take count (sort_key (\<lambda>(date, distance). (distance, code_units date)) offers)
       in Inr (sort_key code_units (map fst nearest))))))"

end
