(* ===== verification/ScheduledMail.thy ===== *)
theory ScheduledMail
  imports Outbox Schedule
begin

text \<open>
  Held mail and its cancel (src/services/scheduledMailService.ts), the settings of arrive-by
  mail (src/config/arriveBy.ts, with the deployment mode of src/config/deploymentConfig.ts), the
  dates of a draft (src/services/draftSchedule.ts) and the room on a mail date
  (src/services/mailDateCapacity.ts).

  A letter's dates are the texts of its DATE columns. \<open>six_pm\<close> is PostgreSQL's
  \<open>(date + TIME '18:00') AT TIME ZONE 'America/New_York'\<close>, from its time zone data: a parameter.
  A query that throws is not modelled, so neither are the two catch branches of the counts.
\<close>

section \<open>The deployment mode\<close>

datatype deployment_mode = Production | Development | Test_mode

text \<open>The mode of resolveDeploymentMode; its findings are messages for the startup log.\<close>

definition resolveDeploymentMode :: "environment \<Rightarrow> deployment_mode" where
  "resolveDeploymentMode env =
     (let identity = env ''LETTER_IRL_DEPLOYMENT_ENVIRONMENT''; nodeEnv = env ''NODE_ENV''
      in if identity = Some ''production'' then Production
         else if identity = Some ''development'' then Development
         else if or_null_str identity \<noteq> None then Production
         else if nodeEnv = Some ''production'' then Production
         else if nodeEnv = Some ''test'' then Test_mode
         else Development)"

definition isProductionEnv :: "environment \<Rightarrow> bool" where
  "isProductionEnv env \<longleftrightarrow> resolveDeploymentMode env = Production"

section \<open>Arrive-by settings\<close>

definition SCHEDULE_HORIZON_LIMIT_DAYS :: int where "SCHEDULE_HORIZON_LIMIT_DAYS = 60"

definition isArriveByEnabled :: "environment \<Rightarrow> bool" where
  "isArriveByEnabled = offUnlessExplicitlyEnabled ''LETTER_IRL_ARRIVE_BY_ENABLED''"

definition scheduleLeadDays :: "environment \<Rightarrow> int" where
  "scheduleLeadDays env =
     positiveIntegerSetting ''LETTER_IRL_SCHEDULE_LEAD_DAYS'' 7 (if isProductionEnv env then 3 else 0) 30 env"

definition scheduleHorizonDays :: "environment \<Rightarrow> int" where
  "scheduleHorizonDays =
     positiveIntegerSetting ''LETTER_IRL_SCHEDULE_HORIZON_DAYS'' 60 1 SCHEDULE_HORIZON_LIMIT_DAYS"

definition scheduleDailyCap :: "environment \<Rightarrow> int" where
  "scheduleDailyCap = positiveIntegerSetting ''LETTER_IRL_SCHEDULE_DAILY_CAP'' 200 1 100000"

section \<open>A draft's dates\<close>

definition calendarDateColumn :: "string option \<Rightarrow> string \<Rightarrow> error + string" where
  "calendarDateColumn v column =
     (case Option.bind v parseCalendarDate of
        None \<Rightarrow> Inl (Error (''letter_drafts.'' @ column @ '' is not a 'YYYY-MM-DD' string''))
      | Some d \<Rightarrow> Inr d)"

definition draftScheduleOf :: "string option \<Rightarrow> string option \<Rightarrow> error + (string \<times> string) option" where
  "draftScheduleOf arrive_by mail_on =
     (if arrive_by = None \<and> mail_on = None then Inr None
      else bindE (calendarDateColumn arrive_by ''arrive_by'') (\<lambda>a.
           bindE (calendarDateColumn mail_on ''mail_on'') (\<lambda>m. Inr (Some (a, m)))))"

section \<open>Room on a mail date\<close>

definition held_on_date :: "string \<Rightarrow> letter \<Rightarrow> bool" where
  "held_on_date mailOn l \<longleftrightarrow> lt_status l = L_queued \<and> lt_mail_on l = Some mailOn"

definition heldOn :: "string \<Rightarrow> db \<Rightarrow> int" where
  "heldOn mailOn s = int (length (filter (held_on_date mailOn) (letters s)))"

text \<open>The map of heldBetween, read as \<open>held.get(mailOn) ?? 0\<close>: the dates outside the range read 0.\<close>

definition heldBetween :: "string \<Rightarrow> string \<Rightarrow> db \<Rightarrow> string \<Rightarrow> int" where
  "heldBetween from to s mailOn = (if js_less mailOn from \<or> js_less to mailOn then 0 else heldOn mailOn s)"

record full_date =
  fd_mailOn :: string
  fd_openArrivals :: "string list"

definition fullMailDate ::
  "time_zone \<Rightarrow> environment \<Rightarrow> string \<times> string \<Rightarrow> instant \<Rightarrow> db \<Rightarrow> range_error + full_date option" where
  "fullMailDate zone env schedule now s =
     (let cap = scheduleDailyCap env; mail = snd schedule;
          settings = \<lparr> leadDays = scheduleLeadDays env, horizonDays = scheduleHorizonDays env \<rparr>
      in if heldOn mail s < cap then Inr None
         else bindE (earliestArrival zone now (leadDays settings)) (\<lambda>earliest.
              bindE (latestArrival zone now (horizonDays settings)) (\<lambda>latest.
                if js_less latest earliest then Inr (Some \<lparr> fd_mailOn = mail, fd_openArrivals = [] \<rparr>)
                else bindE (mailOnFor earliest (leadDays settings)) (\<lambda>from.
                     bindE (mailOnFor latest (leadDays settings)) (\<lambda>to.
                     bindE (nearestOpenArrivals zone (fst schedule) now settings
                              (\<lambda>m. m \<noteq> mail \<and> heldBetween from to s m < cap) 3)
                       (\<lambda>open_arrivals. Inr (Some \<lparr> fd_mailOn = mail, fd_openArrivals = open_arrivals \<rparr>)))))))"

section \<open>Held mail that missed its mail day\<close>

definition schedule_missed_alert :: string where "schedule_missed_alert = ''schedule_missed_mail_day''"

definition past_mail_day :: "(string \<Rightarrow> instant) \<Rightarrow> instant \<Rightarrow> letter \<Rightarrow> bool" where
  "past_mail_day six_pm now l \<longleftrightarrow> lt_sent_at l = None \<and>
     (case lt_mail_on l of None \<Rightarrow> False | Some d \<Rightarrow> six_pm d < now)"

definition alerted :: "string \<Rightarrow> string option \<Rightarrow> db \<Rightarrow> bool" where
  "alerted type letterId s \<longleftrightarrow>
     list_ex (\<lambda>a. al_type a = type \<and> json_text (Some (al_details a)) ''letterId'' = letterId) (alerts s)"

definition missed_mail_day :: "(string \<Rightarrow> instant) \<Rightarrow> instant \<Rightarrow> db \<Rightarrow> letter \<Rightarrow> bool" where
  "missed_mail_day six_pm now s l \<longleftrightarrow> past_mail_day six_pm now l \<and>
     lt_status l \<in> {L_queued, L_processing, L_failed} \<and> \<not> alerted schedule_missed_alert (Some (lt_id l)) s"

definition missed_alert :: "letter \<Rightarrow> alert" where
  "missed_alert l = \<lparr> al_source_event = None, al_order = lt_funding_order_id l, al_type = schedule_missed_alert,
     al_severity = Sev_warning, al_resolved = False, al_resolved_by = None, al_resolution_code = None,
     al_details = [(''letterId'', JStr (lt_id l)),
       (''mailOn'', case lt_mail_on l of None \<Rightarrow> JNull | Some d \<Rightarrow> JStr d), (''userId'', JStr (lt_user l))] \<rparr>"

text \<open>ON CONFLICT DO NOTHING on the partial unique index of migration 041; the rows inserted are counted.\<close>

fun insert_missed_alerts :: "letter list \<Rightarrow> db \<Rightarrow> nat \<times> db" where
  "insert_missed_alerts [] s = (0, s)"
| "insert_missed_alerts (l # ls) s =
     (if alerted schedule_missed_alert (Some (lt_id l)) s then insert_missed_alerts ls s
      else case insert_missed_alerts ls (s\<lparr>alerts := alerts s @ [missed_alert l]\<rparr>) of (n, s') \<Rightarrow> (Suc n, s'))"

definition raiseMissedMailDayAlerts :: "(string \<Rightarrow> instant) \<Rightarrow> instant \<Rightarrow> db \<Rightarrow> nat \<times> db" where
  "raiseMissedMailDayAlerts six_pm now s =
     insert_missed_alerts
       (take 100 (sort_key (\<lambda>l. case lt_mail_on l of None \<Rightarrow> [] | Some d \<Rightarrow> code_units d)
         (filter (missed_mail_day six_pm now s) (letters s)))) s"

definition lettersPastMailDay :: "(string \<Rightarrow> instant) \<Rightarrow> instant \<Rightarrow> db \<Rightarrow> nat" where
  "lettersPastMailDay six_pm now s = length (filter (\<lambda>l.
     past_mail_day six_pm now l \<and> lt_status l \<in> {L_queued, L_processing} \<and>
     \<not> list_ex (\<lambda>j. j_letter j = lt_id l \<and> leftForOperator s j) (jobs s)) (letters s))"

section \<open>Cancelling held mail\<close>

datatype scheduled_mail_refusal = Sm_not_found | Sm_not_scheduled | Sm_pay_and_send | Sm_too_late | Sm_busy

datatype return_shortfall = Short_none | Short_partial | Short_expired | Short_refunded

datatype returned_kind = Ret_letters | Ret_gift_letter

record cancelled_mail =
  cm_letterId :: string
  cm_alreadyCancelled :: bool
  cm_kind :: returned_kind
  cm_count :: int
  cm_shortfall :: return_shortfall
  cm_arriveBy :: "string option"
  cm_mailOn :: "string option"

datatype cancel_result = Cancelled cancelled_mail | Cancel_refused scheduled_mail_refusal

definition CANCELLED_BY_CUSTOMER :: string where "CANCELLED_BY_CUSTOMER = ''cancelled_by_customer''"

definition CREDITS_PER_LETTER :: int where "CREDITS_PER_LETTER = 2"

definition returnedKind :: "funding_type \<Rightarrow> returned_kind" where
  "returnedKind f = (if f = Fund_gift_letter then Ret_gift_letter else Ret_letters)"

definition cancel_job_row :: "instant \<Rightarrow> letter_job \<Rightarrow> letter_job" where
  "cancel_job_row now j = j\<lparr>j_status := J_cancelled, j_locked_at := None, j_completed_at := Some now,
     j_last_error := Some CANCELLED_BY_CUSTOMER, j_error_message := None, j_updated_at := now\<rparr>"

definition cancel_letter_row :: "instant \<Rightarrow> letter \<Rightarrow> letter" where
  "cancel_letter_row now l = l\<lparr>lt_status := L_cancelled, lt_status_updated_at := Some now, lt_updated_at := now\<rparr>"

text \<open>The three statements of a cancel that goes through, before the return.\<close>

definition cancel_rows :: "instant \<Rightarrow> string \<Rightarrow> string \<Rightarrow> db \<Rightarrow> db" where
  "cancel_rows now jid letterId s =
     (let s1 = upd_letter letterId (cancel_letter_row now) (upd_job jid (cancel_job_row now) s)
      in s1\<lparr>history := history s1 @ [\<lparr> sh_letter = letterId, sh_old = L_queued, sh_new = L_cancelled,
           sh_provider_raw_status = None, sh_source = ''customer'' \<rparr>]\<rparr>)"

definition giftBack :: "environment \<Rightarrow> instant \<Rightarrow> instant \<Rightarrow> string \<Rightarrow> string \<Rightarrow> db \<Rightarrow>
    error + (int \<times> return_shortfall) \<times> db" where
  "giftBack env now js letterId uid s =
     bindE (returnGiftLetterForFailedSendWithClient env now js letterId uid CANCELLED_BY_CUSTOMER True s)
       (\<lambda>(count, s').
          if count = 0 then Inr ((count, Short_refunded), s')
          else case List.find (\<lambda>g. g_source g = Gs_send_failed \<and> g_source_reference_id g = letterId) (gifts s') of
              None \<Rightarrow> Inr ((count, Short_none), s')
            | Some g \<Rightarrow>
                if (case g_expires_at g of None \<Rightarrow> False | Some t \<Rightarrow> t \<le> now) then Inr ((0, Short_expired), s')
                else Inr ((count, Short_none), s'))"

definition expired_back :: "instant \<Rightarrow> string \<Rightarrow> string \<Rightarrow> db \<Rightarrow> int" where
  "expired_back now letterId uid s =
     sum_list (map le_initial (filter (\<lambda>e. is_return_lot letterId uid e \<and> lot_expired now e) (ledger s)))"

definition shortfall_of :: "int \<Rightarrow> int \<Rightarrow> int \<Rightarrow> return_shortfall" where
  "shortfall_of creditsCost usable expired =
     (if creditsCost \<le> usable then Short_none else if 0 < usable then Short_partial
      else if 0 < expired then Short_expired else Short_refunded)"

definition creditsBack :: "instant \<Rightarrow> string \<Rightarrow> string \<Rightarrow> int \<Rightarrow> db \<Rightarrow>
    error + (int \<times> return_shortfall) \<times> db" where
  "creditsBack now letterId uid creditsCost s =
     bindE (returnConsumedCreditsForLetter now letterId uid CANCELLED_BY_CUSTOMER (Some Cause_cancelled) s)
       (\<lambda>(credits, s').
          let expired = (if 0 < credits then expired_back now letterId uid s' else 0);
              usable = credits - expired
          in Inr ((usable div CREDITS_PER_LETTER, shortfall_of creditsCost usable expired), s'))"

definition cancelScheduledMailWithClient ::
  "environment \<Rightarrow> instant \<Rightarrow> instant \<Rightarrow> string \<Rightarrow> string \<Rightarrow> db \<Rightarrow> error + cancel_result \<times> db" where
  "cancelScheduledMailWithClient env now js letterId uid s =
     (case List.find (\<lambda>l. lt_id l = letterId \<and> lt_user l = uid) (letters s) of
        None \<Rightarrow> Inr (Cancel_refused Sm_not_found, s)
      | Some l \<Rightarrow>
          if lt_status l = L_cancelled
          then Inr (Cancelled \<lparr> cm_letterId = letterId, cm_alreadyCancelled = True,
                 cm_kind = returnedKind (lt_funding_type l), cm_count = 0, cm_shortfall = Short_none,
                 cm_arriveBy = lt_arrive_by l, cm_mailOn = lt_mail_on l \<rparr>, s)
          else if lt_status l \<noteq> L_queued then Inr (Cancel_refused Sm_too_late, s)
          else if lt_funding_type l = Fund_jit_order then Inr (Cancel_refused Sm_pay_and_send, s)
          else if lt_mail_on l = None then Inr (Cancel_refused Sm_not_scheduled, s)
          else case List.find (\<lambda>j. j_letter j = letterId) (jobs s) of
              None \<Rightarrow> Inr (Cancel_refused Sm_too_late, s)
            | Some j \<Rightarrow>
                if j_status j \<noteq> J_pending \<or> j_provider_outcome j \<noteq> O_not_dispatched
                then Inr (Cancel_refused Sm_too_late, s)
                else
                  let s1 = cancel_rows now (j_id j) letterId s
                  in bindE (if lt_funding_type l = Fund_gift_letter then giftBack env now js letterId uid s1
                            else creditsBack now letterId uid (lt_credits_cost l) s1)
                       (\<lambda>((count, shortfall), s2).
                          Inr (Cancelled \<lparr> cm_letterId = letterId, cm_alreadyCancelled = False,
                            cm_kind = returnedKind (lt_funding_type l), cm_count = count,
                            cm_shortfall = shortfall, cm_arriveBy = lt_arrive_by l, cm_mailOn = lt_mail_on l \<rparr>, s2)))"

text \<open>
  The transaction and its lock: \<open>locked\<close> says that another transaction holds the row of the
  letter's job, on which \<open>FOR UPDATE NOWAIT\<close> fails. It is asked only where that statement is
  reached and finds the row.
\<close>

definition reaches_job :: "string \<Rightarrow> string \<Rightarrow> db \<Rightarrow> bool" where
  "reaches_job letterId uid s \<longleftrightarrow>
     (case List.find (\<lambda>l. lt_id l = letterId \<and> lt_user l = uid) (letters s) of
        None \<Rightarrow> False
      | Some l \<Rightarrow> lt_status l = L_queued \<and> lt_funding_type l \<noteq> Fund_jit_order \<and> lt_mail_on l \<noteq> None \<and>
          list_ex (\<lambda>j. j_letter j = letterId) (jobs s))"

definition cancelScheduledMail ::
  "environment \<Rightarrow> instant \<Rightarrow> instant \<Rightarrow> bool \<Rightarrow> string \<Rightarrow> string \<Rightarrow> db \<Rightarrow> error + cancel_result \<times> db" where
  "cancelScheduledMail env now js locked letterId uid s =
     (if locked \<and> reaches_job letterId uid s then Inr (Cancel_refused Sm_busy, s)
      else cancelScheduledMailWithClient env now js letterId uid s)"

end
