(* ===== verification/ScheduledMailLaws.thy ===== *)
theory ScheduledMailLaws
  imports OutboxSteps ScheduledMail
begin

text \<open>
  What a cancel of held mail does: the branch it took, the rows it writes, and what of the
  payment came back usable.
\<close>

section \<open>The return within a cancel only pays\<close>

lemma gift_back_pays: "giftBack env now js l uid s = Inr (r, s') \<Longrightarrow> pays_only s s'"
  by (auto simp: giftBack_def bindE_Inr_iff dest: return_gift_pays split: if_splits option.splits)

lemma credits_back_pays: "creditsBack now l uid cost s = Inr (r, s') \<Longrightarrow> pays_only s s'"
  by (auto simp: creditsBack_def bindE_Inr_iff Let_def dest: return_credits_pays)

lemma cancel_rows_frame [simp]:
  "ledger (cancel_rows now jid l s) = ledger s" "users (cancel_rows now jid l s) = users s"
  "txns (cancel_rows now jid l s) = txns s" "consumptions (cancel_rows now jid l s) = consumptions s"
  "gifts (cancel_rows now jid l s) = gifts s" "gift_codes (cancel_rows now jid l s) = gift_codes s"
  "orders (cancel_rows now jid l s) = orders s" "submissions (cancel_rows now jid l s) = submissions s"
  "jobs (cancel_rows now jid l s) = upd_where (\<lambda>j. j_id j = jid) (cancel_job_row now) (jobs s)"
  "letters (cancel_rows now jid l s) = upd_where (\<lambda>x. lt_id x = l) (cancel_letter_row now) (letters s)"
  "history (cancel_rows now jid l s) = history s @ [\<lparr> sh_letter = l, sh_old = L_queued, sh_new = L_cancelled,
     sh_provider_raw_status = None, sh_source = ''customer'' \<rparr>]"
  by (simp_all add: cancel_rows_def Let_def upd_letter_def upd_job_def)

lemma cancel_rows_keep [simp]:
  "lt_id (cancel_letter_row now l) = lt_id l" "lt_user (cancel_letter_row now l) = lt_user l"
  "lt_status (cancel_letter_row now l) = L_cancelled" "j_id (cancel_job_row now j) = j_id j"
  "job_state (cancel_job_row now j) = (J_cancelled, j_provider_outcome j)"
  "j_idempotency_key (cancel_job_row now j) = j_idempotency_key j"
  by (simp_all add: cancel_letter_row_def cancel_job_row_def job_state_def)

section \<open>The branches\<close>

definition cancels_held :: "string \<Rightarrow> string \<Rightarrow> letter \<Rightarrow> letter_job \<Rightarrow> db \<Rightarrow> bool" where
  "cancels_held letterId uid l j s \<longleftrightarrow>
     List.find (\<lambda>l. lt_id l = letterId \<and> lt_user l = uid) (letters s) = Some l \<and> lt_status l = L_queued \<and>
     lt_funding_type l \<noteq> Fund_jit_order \<and> lt_mail_on l \<noteq> None \<and>
     List.find (\<lambda>j. j_letter j = letterId) (jobs s) = Some j \<and>
     j_status j = J_pending \<and> j_provider_outcome j = O_not_dispatched"

lemma find_letterD:
  "List.find (\<lambda>l. lt_id l = letterId \<and> lt_user l = uid) ls = Some l \<Longrightarrow>
     l \<in> set ls \<and> lt_id l = letterId \<and> lt_user l = uid"
  by (auto simp: find_Some_iff)

lemma find_jobD: "List.find (\<lambda>j. j_letter j = letterId) js = Some j \<Longrightarrow> j \<in> set js \<and> j_letter j = letterId"
  by (auto simp: find_Some_iff)

lemma cancel_cases:
  assumes "cancelScheduledMailWithClient env now js letterId uid s = Inr (r, s')"
  obtains (kept) "s' = s" "\<forall>m. r = Cancelled m \<longrightarrow> cm_alreadyCancelled m \<and> cm_count m = 0"
  | (gone) l j m where "cancels_held letterId uid l j s" "r = Cancelled m" "cm_letterId m = letterId"
      "\<not> cm_alreadyCancelled m" "cm_kind m = returnedKind (lt_funding_type l)"
      "cm_arriveBy m = lt_arrive_by l" "cm_mailOn m = lt_mail_on l"
      "pays_only (cancel_rows now (j_id j) letterId s) s'"
      "(if lt_funding_type l = Fund_gift_letter then giftBack env now js letterId uid (cancel_rows now (j_id j) letterId s)
        else creditsBack now letterId uid (lt_credits_cost l) (cancel_rows now (j_id j) letterId s)) =
        Inr ((cm_count m, cm_shortfall m), s')"
proof -
  obtain l where f: "List.find (\<lambda>l. lt_id l = letterId \<and> lt_user l = uid) (letters s) = Some l \<or> s' = s \<and> r = Cancel_refused Sm_not_found"
    using assms by (auto simp: cancelScheduledMailWithClient_def split: option.splits)
  show ?thesis
  proof (cases "\<exists>j. cancels_held letterId uid l j s")
    case False
    with assms f have "s' = s \<and> (\<forall>m. r = Cancelled m \<longrightarrow> cm_alreadyCancelled m \<and> cm_count m = 0)"
      by (auto simp: cancelScheduledMailWithClient_def cancels_held_def split: option.splits if_splits)
    then show ?thesis by (intro that(1)) simp_all
  next
    case True
    then obtain j where c: "cancels_held letterId uid l j s" by blast
    let ?s1 = "cancel_rows now (j_id j) letterId s"
    let ?ret = "if lt_funding_type l = Fund_gift_letter then giftBack env now js letterId uid ?s1
        else creditsBack now letterId uid (lt_credits_cost l) ?s1"
    have run: "cancelScheduledMailWithClient env now js letterId uid s = bindE ?ret (\<lambda>((count, shortfall), s2).
        Inr (Cancelled \<lparr> cm_letterId = letterId, cm_alreadyCancelled = False,
          cm_kind = returnedKind (lt_funding_type l), cm_count = count, cm_shortfall = shortfall,
          cm_arriveBy = lt_arrive_by l, cm_mailOn = lt_mail_on l \<rparr>, s2))"
      using c by (cases "lt_mail_on l") (simp_all add: cancelScheduledMailWithClient_def cancels_held_def Let_def)
    with assms obtain count shortfall where paid: "?ret = Inr ((count, shortfall), s')"
      and r: "r = Cancelled \<lparr> cm_letterId = letterId, cm_alreadyCancelled = False,
          cm_kind = returnedKind (lt_funding_type l), cm_count = count, cm_shortfall = shortfall,
          cm_arriveBy = lt_arrive_by l, cm_mailOn = lt_mail_on l \<rparr>"
      by (auto simp: bindE_Inr_iff)
    have "pays_only ?s1 s'"
      using paid by (auto split: if_splits dest: gift_back_pays credits_back_pays)
    moreover note paid
    ultimately show ?thesis by (intro that(2) [OF c r]) simp_all
  qed
qed

lemma cancel_follows:
  assumes "cancels_held letterId uid l j s" and "job_ok j"
  shows "follows j (cancel_job_row now j) \<and> job_ok (cancel_job_row now j)"
  using assms by (auto simp: cancels_held_def follows_def same_job_def job_state_def cancel_job_row_def job_ok_def
      outcome_state_ok_def intro: life.withdrawn)

section \<open>What came back usable\<close>

lemma expired_among_new:
  "map (\<lambda>e. (le_initial e, le_expires_at e)) new = map (\<lambda>(a, lot). (a, le_expires_at lot)) rs \<Longrightarrow>
   sum_list (map le_initial (filter (lot_expired now) new)) = sum_list (map fst (filter (\<lambda>r. lot_expired now (snd r)) rs))"
proof (induction new arbitrary: rs)
  case (Cons e new)
  then obtain a lot rs' where rs: "rs = (a, lot) # rs'" "le_initial e = a" "le_expires_at e = le_expires_at lot"
      "map (\<lambda>e. (le_initial e, le_expires_at e)) new = map (\<lambda>(a, lot). (a, le_expires_at lot)) rs'"
    by (cases rs) auto
  from Cons.IH [OF rs(4)] rs(1-3) show ?case by (simp add: lot_expired_def)
qed simp

lemma usable_expired:
  "usable_amount now rows + sum_list (map fst (filter (\<lambda>r. lot_expired now (snd r)) (filter returnable rows))) =
   returned_amount rows"
  by (induction rows) (auto simp: amounts_Cons)

text \<open>
  The credits that count are exactly those the account can spend again: the returned lots less
  the ones that had run out.
\<close>

lemma credits_back_usable:
  assumes "creditsBack now l uid cost s = Inr ((count, short), s')"
    and "ledger_ok s" and "find_user uid s \<noteq> None"
  obtains u where "getAvailableCredits now uid s' = getAvailableCredits now uid s + u" "0 \<le> u"
    "balance_of uid s' = balance_of uid s + u" "count = u div CREDITS_PER_LETTER"
    "short = Short_none \<longleftrightarrow> cost \<le> u" "short \<in> {Short_expired, Short_refunded} \<longleftrightarrow> u < cost \<and> u = 0"
    "hasReturnedCreditsForLetter l uid s \<Longrightarrow> u = 0"
    "\<not> hasReturnedCreditsForLetter l uid s \<Longrightarrow> u = usable_amount now (consumed_lots l uid s)"
proof -
  from assms(1) obtain n where ret: "returnConsumedCreditsForLetter now l uid CANCELLED_BY_CUSTOMER (Some Cause_cancelled) s = Inr (n, s')"
    and c: "count = (n - (if 0 < n then expired_back now l uid s' else 0)) div CREDITS_PER_LETTER"
      "short = shortfall_of cost (n - (if 0 < n then expired_back now l uid s' else 0)) (if 0 < n then expired_back now l uid s' else 0)"
    by (auto simp: creditsBack_def bindE_Inr_iff Let_def)
  note eff = return_effect(3) [OF ret assms(2,3), of uid]
  let ?rows = "consumed_lots l uid s"
  have "\<exists>u. getAvailableCredits now uid s' = getAvailableCredits now uid s + u \<and> 0 \<le> u \<and>
      n - (if 0 < n then expired_back now l uid s' else 0) = u \<and>
      (hasReturnedCreditsForLetter l uid s \<longrightarrow> u = 0) \<and>
      (\<not> hasReturnedCreditsForLetter l uid s \<longrightarrow> u = usable_amount now ?rows)"
    using ret
  proof (cases rule: return_Inr)
    case (returned s1)
    note L = return_lots_Inr [OF returned(2)]
    obtain new where new: "ledger s1 = ledger s @ new" "list_all (is_return_lot l uid) new"
      and m: "map (\<lambda>e. (le_initial e, le_expires_at e, le_source_reference_id e, le_related_ledger_id e)) new =
        map (\<lambda>(a, lot). (a, le_expires_at lot, le_source_reference_id lot, Some (le_id lot))) (filter returnable ?rows)"
      using L(7) by blast
    have m': "map (\<lambda>e. (le_initial e, le_expires_at e)) new = map (\<lambda>(a, lot). (a, le_expires_at lot)) (filter returnable ?rows)"
      using arg_cong [OF m, of "map (\<lambda>(a, b, c, d). (a, b))"] by (simp add: case_prod_beta' comp_def)
    have old: "filter (\<lambda>e. is_return_lot l uid e \<and> lot_expired now e) (ledger s) = []"
      using returned(1) by (auto simp: hasReturnedCreditsForLetter_def list_ex_iff filter_empty_conv)
    have "filter (\<lambda>e. is_return_lot l uid e \<and> lot_expired now e) new = filter (lot_expired now) new"
      by (rule filter_cong) (use new(2) in \<open>auto simp: list_all_iff\<close>)
    with old have "expired_back now l uid s' = sum_list (map le_initial (filter (lot_expired now) new))"
      by (simp add: expired_back_def returned(4) new(1))
    with expired_among_new [OF m', of now] usable_expired [of now ?rows] returned(3)
    have e: "n - expired_back now l uid s' = usable_amount now ?rows" by simp
    moreover have "n = 0 \<Longrightarrow> usable_amount now ?rows = 0"
      using usable_expired [of now ?rows] returned(3) returned_amount_nonneg(2) [of now ?rows]
        sum_list_nonneg_int [of "filter (\<lambda>r. lot_expired now (snd r)) (filter returnable ?rows)" fst]
      by (auto simp: returnable_def)
    moreover have "0 \<le> n" using returned(3) returned_amount_nonneg(1) by simp
    moreover have "getAvailableCredits now uid s' = getAvailableCredits now uid s + usable_amount now ?rows"
      using L(6) [of uid] by (simp add: returned(4) getAvailableCredits_def)
    ultimately show ?thesis using returned(1) returned_amount_nonneg(2) [of now ?rows]
      by (intro exI [of _ "usable_amount now ?rows"]) auto
  qed simp_all
  then obtain u where u: "getAvailableCredits now uid s' = getAvailableCredits now uid s + u" "0 \<le> u"
      "n - (if 0 < n then expired_back now l uid s' else 0) = u"
      "hasReturnedCreditsForLetter l uid s \<longrightarrow> u = 0"
      "\<not> hasReturnedCreditsForLetter l uid s \<longrightarrow> u = usable_amount now ?rows" by blast
  have "balance_of uid s' = balance_of uid s + u" using eff u(1) by simp
  with u c show ?thesis
    by (intro that [of u]) (auto simp: shortfall_of_def)
qed

section \<open>Each return leaves the other tables alone\<close>

lemma return_gift_books:
  assumes "returnGiftLetterForFailedSendWithClient env now js l uid fc cancelled s = Inr (n, s')"
  shows "ledger s' = ledger s \<and> users s' = users s \<and> txns s' = txns s"
proof -
  have i: "insert_gift g t = Inr (r, t') \<Longrightarrow> ledger t' = ledger t \<and> users t' = users t \<and> txns t' = txns t" for g t r t'
    by (auto simp: insert_gift_def split: if_splits)
  show ?thesis
    using assms
    by (auto simp: returnGiftLetterForFailedSendWithClient_def Let_def bindE_Inr_iff upd_code_def
        split: if_splits option.splits dest!: i)
qed

lemma return_lots_gifts: "return_lots now l uid fc d rows a b s = Inr (r, s') \<Longrightarrow> gifts s' = gifts s"
proof (induction rows arbitrary: a b s)
  case (Cons x rows)
  have i: "insert_lot e t = Inr t' \<Longrightarrow> gifts t' = gifts t" for e t t'
    by (auto simp: insert_lot_def split: if_splits)
  from Cons.prems obtain s1 a' b' where "gifts s1 = gifts s" "return_lots now l uid fc d rows a' b' s1 = Inr (r, s')"
    by (cases x) (auto simp: bindE_Inr_iff Let_def split: if_splits dest: i)
  with Cons.IH show ?case by metis
qed simp

lemma return_credits_gifts:
  assumes "returnConsumedCreditsForLetter now l uid fc cause s = Inr (n, s')"
  shows "gifts s' = gifts s"
  using assms
proof (cases rule: return_Inr)
  case (returned s1)
  have "gifts (credit_return now l uid d u s1) = gifts s1" for d u
    by (simp add: credit_return_def Let_def insert_txn_def upd_user_def split: option.split)
  with return_lots_gifts [OF returned(2)] show ?thesis by (simp add: returned(4))
qed simp_all

section \<open>Missed mail days\<close>

lemma alerted_more [simp]: "alerted t k (s\<lparr>alerts := alerts s @ as\<rparr>) \<longleftrightarrow> alerted t k s \<or>
    list_ex (\<lambda>a. al_type a = t \<and> json_text (Some (al_details a)) ''letterId'' = k) as"
  by (auto simp: alerted_def)

lemma missed_alert_names [simp]: "al_type (missed_alert l) = schedule_missed_alert"
    "json_text (Some (al_details (missed_alert l))) ''letterId'' = Some (lt_id l)"
  by (simp_all add: missed_alert_def json_text_def)

text \<open>What a run of the inserts adds: one alert each for letters that had none.\<close>

lemma insert_missed_run:
  "insert_missed_alerts ls s = (n, s') \<Longrightarrow>
     \<exists>raised. s' = s\<lparr>alerts := alerts s @ map missed_alert raised\<rparr> \<and> n = length raised \<and> set raised \<subseteq> set ls \<and>
       distinct (map lt_id raised) \<and> length raised \<le> length ls \<and>
       (\<forall>l\<in>set raised. \<not> alerted schedule_missed_alert (Some (lt_id l)) s) \<and>
       (\<forall>l\<in>set ls. alerted schedule_missed_alert (Some (lt_id l)) s')"
proof (induction ls arbitrary: s n)
  case Nil
  then show ?case by simp
next
  case (Cons l ls)
  show ?case
  proof (cases "alerted schedule_missed_alert (Some (lt_id l)) s")
    case True
    with Cons.prems have "insert_missed_alerts ls s = (n, s')" by simp
    from Cons.IH [OF this] True show ?thesis by (fastforce simp: alerted_more)
  next
    case False
    let ?s1 = "s\<lparr>alerts := alerts s @ [missed_alert l]\<rparr>"
    from Cons.prems False obtain m where m: "insert_missed_alerts ls ?s1 = (m, s')" and n: "n = Suc m"
      by (auto split: prod.splits)
    from Cons.IH [OF m] obtain raised where r: "s' = ?s1\<lparr>alerts := alerts ?s1 @ map missed_alert raised\<rparr>"
      "m = length raised" "set raised \<subseteq> set ls" "distinct (map lt_id raised)" "length raised \<le> length ls"
      and new: "\<forall>x\<in>set raised. \<not> alerted schedule_missed_alert (Some (lt_id x)) ?s1"
      and all: "\<forall>x\<in>set ls. alerted schedule_missed_alert (Some (lt_id x)) s'" by blast
    have old: "\<not> alerted schedule_missed_alert (Some (lt_id x)) s \<and> lt_id x \<noteq> lt_id l" if "x \<in> set raised" for x
      using new that alerted_more [of _ _ s "[missed_alert l]"] by auto
    have s': "s' = s\<lparr>alerts := alerts s @ map missed_alert (l # raised)\<rparr>" using r(1) by simp
    have "alerted schedule_missed_alert (Some (lt_id l)) s'" unfolding s' alerted_more by simp
    moreover have "lt_id l \<notin> lt_id ` set raised" by (metis old imageE)
    moreover have "\<forall>x\<in>set raised. \<not> alerted schedule_missed_alert (Some (lt_id x)) s" using old by blast
    ultimately show ?thesis
      using r s' n all False by (intro exI [of _ "l # raised"]) auto
  qed
qed

end
