(* ===== verification/DailyLimits.thy ===== *)
theory DailyLimits
  imports Store EnvSettings
begin

text \<open>
  Who may send and how much in a day: the limited beta (src/auth/betaAccess.ts), the daily limits
  in force (src/services/dailyLimits.ts) and the ceilings on mail and money
  (src/services/betaSpendLimits.ts). A check answers the error it throws, or None. Each count
  runs under a lock on its key in the caller's transaction, so inside one function nothing
  changes between the count and the commit. The record a refusal leaves is written by another
  transaction, after the answer, and is not modelled here.
\<close>

section \<open>The limited beta\<close>

fun split_at :: "char \<Rightarrow> string \<Rightarrow> string list" where
  "split_at c [] = [[]]"
| "split_at c (x # xs) = (if x = c then [] # split_at c xs
     else case split_at c xs of [] \<Rightarrow> [[x]] | w # ws \<Rightarrow> (x # w) # ws)"

definition parseIdList :: "string option \<Rightarrow> string list" where
  "parseIdList raw = filter (\<lambda>t. t \<noteq> []) (map js_trim (split_at (CHR '','') (or_str raw [])))"

definition isBetaGateEnabled :: "environment \<Rightarrow> bool" where
  "isBetaGateEnabled = onUnlessExplicitlyDisabled ''LETTER_IRL_BETA_GATE_ENABLED''"

definition betaCohort :: "environment \<Rightarrow> string list" where
  "betaCohort env = parseIdList (env ''LETTER_IRL_BETA_ALLOWED_SUBJECTS'') @ parseIdList (env ''LETTER_IRL_ADMIN_USER_IDS'')"

definition isBetaCohortMember :: "string \<Rightarrow> environment \<Rightarrow> bool" where
  "isBetaCohortMember uid env \<longleftrightarrow> js_trim uid \<in> set (betaCohort env)"

definition isBetaAccessAllowed :: "string \<Rightarrow> environment \<Rightarrow> bool" where
  "isBetaAccessAllowed uid env = (if \<not> isBetaGateEnabled env then True else isBetaCohortMember uid env)"

definition globalDailyMailCeiling :: "environment \<Rightarrow> int" where
  "globalDailyMailCeiling = positiveIntegerSetting ''LETTER_IRL_BETA_GLOBAL_DAILY_MAIL_CEILING'' 25 0 max_safe_integer"

definition accountDailyMailCap :: "environment \<Rightarrow> int" where
  "accountDailyMailCap = positiveIntegerSetting ''LETTER_IRL_BETA_ACCOUNT_DAILY_MAIL_CAP'' 3 0 max_safe_integer"

definition accountDailyChargeCents :: "environment \<Rightarrow> int" where
  "accountDailyChargeCents = positiveIntegerSetting ''LETTER_IRL_BETA_ACCOUNT_DAILY_CHARGE_CENTS'' 6000 0 max_safe_integer"

definition isMailSendingEnabled :: "environment \<Rightarrow> bool" where
  "isMailSendingEnabled = enabledUnlessDisabled ''LETTER_IRL_MAIL_SENDING_ENABLED''"

section \<open>The limits in force\<close>

definition account_limit_key :: "daily_limit_key \<Rightarrow> bool" where
  "account_limit_key k \<longleftrightarrow> k = Lk_account_daily_mail \<or> k = Lk_account_daily_charge_cents"

fun configuredDailyLimit :: "daily_limit_key \<Rightarrow> environment \<Rightarrow> int" where
  "configuredDailyLimit Lk_global_daily_mail env = globalDailyMailCeiling env"
| "configuredDailyLimit Lk_account_daily_mail env = accountDailyMailCap env"
| "configuredDailyLimit Lk_account_daily_charge_cents env = accountDailyChargeCents env"
| "configuredDailyLimit Lk_gift_daily_send env = giftDailySendCap env"

definition override_in_force :: "instant \<Rightarrow> daily_limit_key list \<Rightarrow> string option \<Rightarrow> limit_override \<Rightarrow> bool" where
  "override_in_force now keys uid r \<longleftrightarrow> lo_cleared_at r = None \<and>
     (case lo_expires_at r of None \<Rightarrow> True | Some t \<Rightarrow> now < t) \<and> lo_key r \<in> set keys \<and>
     (case lo_user r of None \<Rightarrow> True | Some u \<Rightarrow> uid = Some u)"

text \<open>The loop over the rows: the limits so far, and those an account's own row has set.\<close>

fun apply_overrides :: "daily_limit_key list \<Rightarrow> string option \<Rightarrow> limit_override list \<Rightarrow> daily_limit_key list \<Rightarrow>
    (daily_limit_key \<Rightarrow> int) \<Rightarrow> (daily_limit_key \<Rightarrow> int)" where
  "apply_overrides keys uid [] accountWide vals = vals"
| "apply_overrides keys uid (r # rs) accountWide vals =
     (if lo_key r \<notin> set keys \<or> lo_value r < 0 then apply_overrides keys uid rs accountWide vals
      else case lo_user r of
          Some u \<Rightarrow>
            if \<not> account_limit_key (lo_key r) \<or> uid \<noteq> Some u then apply_overrides keys uid rs accountWide vals
            else apply_overrides keys uid rs (lo_key r # accountWide) (vals(lo_key r := lo_value r))
        | None \<Rightarrow>
            if lo_key r \<in> set accountWide then apply_overrides keys uid rs accountWide vals
            else apply_overrides keys uid rs accountWide (vals(lo_key r := lo_value r)))"

text \<open>A limit that was not asked for is never read from the answer; here it has its configured value.\<close>

definition effectiveDailyLimits ::
  "environment \<Rightarrow> instant \<Rightarrow> daily_limit_key list \<Rightarrow> string option \<Rightarrow> db \<Rightarrow> (daily_limit_key \<Rightarrow> int)" where
  "effectiveDailyLimits env now keys uid s =
     apply_overrides keys uid (filter (override_in_force now keys uid) (limit_overrides s)) []
       (\<lambda>k. configuredDailyLimit k env)"

section \<open>Today's mail\<close>

definition utc_day_start :: "instant \<Rightarrow> instant" where
  "utc_day_start now = now - now mod day_ms"

definition open_checkout_today :: "instant \<Rightarrow> db \<Rightarrow> order \<Rightarrow> bool" where
  "open_checkout_today now s x \<longleftrightarrow> o_type x = Ot_jit_mail \<and>
     o_status x \<in> {Ord_checkout_pending, Ord_paid, Ord_fulfillment_pending} \<and>
     (o_status x \<noteq> Ord_checkout_pending \<or> (case o_checkout_expires_at x of None \<Rightarrow> True | Some t \<Rightarrow> now < t)) \<and>
     utc_day_start now \<le> o_created_at x \<and>
     \<not> list_ex (\<lambda>l. lt_funding_order_id l = Some (o_id x)) (letters s)"

definition in_scope :: "string option \<Rightarrow> string \<Rightarrow> bool" where
  "in_scope account uid \<longleftrightarrow> (case account of None \<Rightarrow> True | Some u \<Rightarrow> uid = u)"

definition letters_today :: "string option \<Rightarrow> instant \<Rightarrow> db \<Rightarrow> int" where
  "letters_today account now s =
     int (length (filter (\<lambda>l. in_scope account (lt_user l) \<and> utc_day_start now \<le> lt_created_at l) (letters s)))"

definition mailTodayCount :: "string option \<Rightarrow> bool \<Rightarrow> instant \<Rightarrow> db \<Rightarrow> int" where
  "mailTodayCount account openCheckouts now s =
     letters_today account now s + (if openCheckouts
       then int (length (filter (\<lambda>x. in_scope account (o_user x) \<and> open_checkout_today now s x) (orders s))) else 0)"

definition account_cap_message :: "int \<Rightarrow> string" where
  "account_cap_message cap = ''This account has reached its daily limit of '' @ show_int cap @ '' '' @
     (if cap = 1 then ''letter or postcard'' else ''letters and postcards'') @ ''. Please try again tomorrow.''"

definition assertMailWithinDailyCaps :: "environment \<Rightarrow> instant \<Rightarrow> string \<Rightarrow> int \<Rightarrow> bool \<Rightarrow> db \<Rightarrow> error option" where
  "assertMailWithinDailyCaps env now uid inFlight openCheckouts s =
     (if \<not> isMailSendingEnabled env
      then Some (Coded_error ''MAIL_SENDING_DISABLED'' ''Sending is temporarily paused. Please try again later.'')
      else
        let limits = effectiveDailyLimits env now [Lk_account_daily_mail, Lk_global_daily_mail] (Some uid) s;
            accountCap = limits Lk_account_daily_mail
        in if accountCap < mailTodayCount (Some uid) openCheckouts now s + inFlight
           then Some (Coded_error ''ACCOUNT_DAILY_MAIL_CAP'' (account_cap_message accountCap))
           else if limits Lk_global_daily_mail < mailTodayCount None openCheckouts now s + inFlight
           then Some (Coded_error ''GLOBAL_DAILY_MAIL_CEILING''
                  ''Letter IRL has reached its sending limit for today. Please try again tomorrow.'')
           else None)"

definition assertGiftSendWithinDailyCap :: "environment \<Rightarrow> instant \<Rightarrow> db \<Rightarrow> error option" where
  "assertGiftSendWithinDailyCap env now s =
     (let cap = effectiveDailyLimits env now [Lk_gift_daily_send] None s Lk_gift_daily_send;
          sent = int (length (filter (\<lambda>l. lt_funding_type l = Fund_gift_letter \<and> utc_day_start now \<le> lt_created_at l \<and>
                   lt_status l \<noteq> L_cancelled) (letters s)))
      in if cap < sent
         then Some (Coded_error ''GIFT_DAILY_SEND_CAP'' (''Gift letters have reached their limit for today. '' @
                ''Preview the letter again to send it from your balance, or try again tomorrow.''))
         else None)"

definition charged_today :: "string \<Rightarrow> instant \<Rightarrow> db \<Rightarrow> int" where
  "charged_today uid now s =
     sum_list (map o_amount_cents (filter (\<lambda>x. o_user x = uid \<and> utc_day_start now \<le> o_created_at x) (orders s)))"

definition assertChargeWithinDailyCap :: "environment \<Rightarrow> instant \<Rightarrow> string \<Rightarrow> int \<Rightarrow> db \<Rightarrow> error option" where
  "assertChargeWithinDailyCap env now uid additionalCents s =
     (let cap = effectiveDailyLimits env now [Lk_account_daily_charge_cents] (Some uid) s Lk_account_daily_charge_cents
      in if cap < additionalCents
         then Some (Coded_error ''CHARGE_ABOVE_DAILY_CAP'' (''This purchase is more than one account can spend in a day, '' @
                ''so it cannot be bought. Please choose a smaller pack.''))
         else if cap < charged_today uid now s + additionalCents
         then Some (Coded_error ''ACCOUNT_DAILY_CHARGE_CAP''
                ''This account has reached its daily purchase limit. Please try again tomorrow.'')
         else None)"

section \<open>Laws\<close>

text \<open>An account's own limit in force wins over the one for everyone, in whatever order the rows come.\<close>

definition own_override :: "instant \<Rightarrow> daily_limit_key \<Rightarrow> string \<Rightarrow> limit_override \<Rightarrow> bool" where
  "own_override now k uid r \<longleftrightarrow> override_in_force now [k] (Some uid) r \<and> lo_user r = Some uid \<and> 0 \<le> lo_value r"

lemma apply_overrides_kept:
  "k \<in> set accountWide \<Longrightarrow> \<not> list_ex (\<lambda>r. lo_key r = k \<and> lo_user r = uid \<and> uid \<noteq> None \<and> 0 \<le> lo_value r) rs \<Longrightarrow>
     apply_overrides keys uid rs accountWide vals k = vals k"
  by (induction rs arbitrary: accountWide vals) (auto split: option.split)

lemma own_override_wins:
  assumes "account_limit_key k" and "k \<in> set keys" and "\<exists>r\<in>set rs. lo_key r = k \<and> lo_user r = Some uid \<and> 0 \<le> lo_value r"
    and "\<And>r. r \<in> set rs \<Longrightarrow> lo_key r = k \<Longrightarrow> lo_user r = Some uid \<Longrightarrow> 0 \<le> lo_value r \<Longrightarrow> lo_value r = v"
  shows "apply_overrides keys (Some uid) rs accountWide vals k = v"
  using assms(3,4)
proof (induction rs arbitrary: accountWide vals)
  case (Cons r rs)
  show ?case
  proof (cases "\<exists>x\<in>set rs. lo_key x = k \<and> lo_user x = Some uid \<and> 0 \<le> lo_value x")
    case True
    with Cons.IH Cons.prems(2) show ?thesis by (auto split: option.split)
  next
    case False
    with Cons.prems(1) have r: "lo_key r = k" "lo_user r = Some uid" "0 \<le> lo_value r" by auto
    then have v: "lo_value r = v" using Cons.prems(2) by simp
    have none: "\<not> list_ex (\<lambda>r. lo_key r = k \<and> lo_user r = Some uid \<and> Some uid \<noteq> None \<and> 0 \<le> lo_value r) rs"
      using False by (auto simp: list_ex_iff)
    have "apply_overrides keys (Some uid) rs (k # accountWide) (vals(k := v)) k = v"
      by (subst apply_overrides_kept [OF _ none]) simp_all
    with r v assms(1,2) show ?thesis by simp
  qed
qed simp

text \<open>The limits read of a letter only whose it is, when it was made and what paid for it.\<close>

definition letter_counts :: "letter \<Rightarrow> string \<times> instant \<times> string option \<times> funding_type \<times> bool" where
  "letter_counts l = (lt_user l, lt_created_at l, lt_funding_order_id l, lt_funding_type l, lt_status l = L_cancelled)"

definition counts_alike :: "db \<Rightarrow> db \<Rightarrow> bool" where
  "counts_alike s s' \<longleftrightarrow> map letter_counts (letters s') = map letter_counts (letters s) \<and> orders s' = orders s \<and>
     limit_overrides s' = limit_overrides s"

lemma length_filter_map: "length (filter P (map f xs)) = length (filter (\<lambda>x. P (f x)) xs)"
  by (induction xs) auto

lemma filter_counts:
  assumes "map letter_counts xs = map letter_counts ys" and "\<And>l. P l = Q (letter_counts l)"
  shows "length (filter P xs) = length (filter P ys)" and "list_ex P xs = list_ex P ys"
proof -
  have P: "P = (\<lambda>l. Q (letter_counts l))" using assms(2) by blast
  have f: "length (filter P zs) = length (filter Q (map letter_counts zs))" for zs
    by (simp add: P length_filter_map comp_def)
  have e: "list_ex P zs = list_ex Q (map letter_counts zs)" for zs by (simp add: list_ex_iff assms(2))
  show "length (filter P xs) = length (filter P ys)" by (simp only: f assms(1))
  show "list_ex P xs = list_ex P ys" by (simp only: e assms(1))
qed

lemma counts_alike_caps:
  assumes "counts_alike s s'"
  shows "mailTodayCount account b now s' = mailTodayCount account b now s"
    and "assertMailWithinDailyCaps env now uid n b s' = assertMailWithinDailyCaps env now uid n b s"
    and "assertGiftSendWithinDailyCap env now s' = assertGiftSendWithinDailyCap env now s"
    and "effectiveDailyLimits env now ks u s' = effectiveDailyLimits env now ks u s"
proof -
  note m = assms [unfolded counts_alike_def, THEN conjunct1]
  have o: "orders s' = orders s" and v: "limit_overrides s' = limit_overrides s"
    using assms by (simp_all add: counts_alike_def)
  have today: "letters_today a now s' = letters_today a now s" for a
    using filter_counts(1) [OF m, where Q = "\<lambda>(u, t, _). in_scope a u \<and> utc_day_start now \<le> t"]
    by (simp add: letters_today_def letter_counts_def)
  have funded: "list_ex (\<lambda>l. lt_funding_order_id l = Some k) (letters s') = list_ex (\<lambda>l. lt_funding_order_id l = Some k) (letters s)" for k
    using filter_counts(2) [OF m, where Q = "\<lambda>(_, _, f, _). f = Some k"] by (simp add: letter_counts_def)
  have gifts: "length (filter (\<lambda>l. lt_funding_type l = Fund_gift_letter \<and> utc_day_start now \<le> lt_created_at l \<and>
      lt_status l \<noteq> L_cancelled) (letters s')) = length (filter (\<lambda>l. lt_funding_type l = Fund_gift_letter \<and>
      utc_day_start now \<le> lt_created_at l \<and> lt_status l \<noteq> L_cancelled) (letters s))"
    using filter_counts(1) [OF m, where Q = "\<lambda>(_, t, _, f, c). f = Fund_gift_letter \<and> utc_day_start now \<le> t \<and> \<not> c"]
    by (simp add: letter_counts_def)
  show count: "mailTodayCount account b now s' = mailTodayCount account b now s" for account b
    by (simp add: mailTodayCount_def today o open_checkout_today_def funded)
  show eff: "effectiveDailyLimits env now ks u s' = effectiveDailyLimits env now ks u s" for ks u
    by (simp add: effectiveDailyLimits_def v)
  show "assertMailWithinDailyCaps env now uid n b s' = assertMailWithinDailyCaps env now uid n b s"
    unfolding assertMailWithinDailyCaps_def count eff ..
  show "assertGiftSendWithinDailyCap env now s' = assertGiftSendWithinDailyCap env now s"
    by (simp add: assertGiftSendWithinDailyCap_def eff gifts)
qed

lemma within_caps:
  assumes "assertMailWithinDailyCaps env now uid n b s = None"
  shows "isMailSendingEnabled env"
    and "mailTodayCount (Some uid) b now s + n \<le>
      effectiveDailyLimits env now [Lk_account_daily_mail, Lk_global_daily_mail] (Some uid) s Lk_account_daily_mail"
    and "mailTodayCount None b now s + n \<le>
      effectiveDailyLimits env now [Lk_account_daily_mail, Lk_global_daily_mail] (Some uid) s Lk_global_daily_mail"
  using assms by (auto simp: assertMailWithinDailyCaps_def Let_def split: if_splits)

end
