(* ===== verification/MailOptions.thy ===== *)
theory MailOptions
  imports Outbox
begin

text \<open>
  What is sold and who pays for it: the product table (src/config/products.ts), the option a
  draft's row is and the rule for packs and gift letters (src/services/mailOptions.ts), and the
  facts of certified mail (src/config/certifiedMail.ts). The environment is an argument;
  \<open>sha256\<close> is the hex digest of Node's crypto module, a parameter. A currency is compared with
  ASCII case folding, as every currency code is. The products' names and descriptions are display text and left out.
\<close>

section \<open>The product table\<close>

definition ROOM_TO_WRITE_FLAG :: string where "ROOM_TO_WRITE_FLAG = ''LETTER_IRL_ROOM_TO_WRITE_ENABLED''"
definition POSTCARD_SIZES_FLAG :: string where "POSTCARD_SIZES_FLAG = ''LETTER_IRL_POSTCARD_SIZES_ENABLED''"
definition CERTIFIED_MAIL_FLAG :: string where "CERTIFIED_MAIL_FLAG = ''LETTER_IRL_CERTIFIED_MAIL_ENABLED''"

record mail_option =
  mo_mailType :: mail_type
  mo_pages :: "int option"
  mo_postcardSize :: "string option"
  mo_mailService :: "string option"

record pack_product =
  pp_code :: string
  pp_credits :: int
  pp_letters :: int
  pp_priceEnv :: string
  pp_expectedAmountCents :: int
  pp_giftLetters :: nat
  pp_giftGenerationsRemaining :: int

record jit_product =
  jp_code :: string
  jp_mailType :: mail_type
  jp_pages :: "int option"
  jp_postcardSize :: "string option"
  jp_mailService :: "string option"
  jp_enabledBy :: "string option"
  jp_priceEnv :: string
  jp_expectedAmountCents :: int

definition pack_row :: "string \<Rightarrow> int \<Rightarrow> int \<Rightarrow> string \<Rightarrow> int \<Rightarrow> pack_product" where
  "pack_row code credits count priceEnv cents =
     \<lparr> pp_code = code, pp_credits = credits, pp_letters = count, pp_priceEnv = priceEnv,
       pp_expectedAmountCents = cents, pp_giftLetters = 1, pp_giftGenerationsRemaining = 1 \<rparr>"

definition PACK_PRODUCTS :: "pack_product list" where
  "PACK_PRODUCTS =
     [pack_row ''credit-pack-4'' 4 2 ''STRIPE_PRICE_STARTER'' 500,
      pack_row ''credit-pack-10'' 10 5 ''STRIPE_PRICE_REGULAR'' 1000,
      pack_row ''credit-pack-100'' 100 50 ''STRIPE_PRICE_POWER'' 9000]"

definition jit_letter :: "string \<Rightarrow> int option \<Rightarrow> string option \<Rightarrow> string option \<Rightarrow> string \<Rightarrow> int \<Rightarrow> jit_product" where
  "jit_letter code pages service flag priceEnv cents =
     \<lparr> jp_code = code, jp_mailType = Mt_letter, jp_pages = pages, jp_postcardSize = None,
       jp_mailService = service, jp_enabledBy = flag, jp_priceEnv = priceEnv, jp_expectedAmountCents = cents \<rparr>"

definition jit_postcard :: "string \<Rightarrow> string \<Rightarrow> string option \<Rightarrow> string \<Rightarrow> int \<Rightarrow> jit_product" where
  "jit_postcard code size_name flag priceEnv cents =
     \<lparr> jp_code = code, jp_mailType = Mt_postcard, jp_pages = None, jp_postcardSize = Some size_name,
       jp_mailService = None, jp_enabledBy = flag, jp_priceEnv = priceEnv, jp_expectedAmountCents = cents \<rparr>"

definition JIT_PRODUCTS :: "jit_product list" where
  "JIT_PRODUCTS =
     [jit_letter ''jit-letter'' (Some 1) None None ''STRIPE_JIT_LETTER_PRICE_ID'' 499,
      jit_postcard ''jit-postcard'' ''6x9'' None ''STRIPE_JIT_POSTCARD_PRICE_ID'' 499,
      jit_letter ''jit-letter-2-pages'' (Some 2) None (Some ROOM_TO_WRITE_FLAG) ''STRIPE_JIT_LETTER_TWO_PAGES_PRICE_ID'' 599,
      jit_letter ''jit-letter-3-pages'' (Some 3) None (Some ROOM_TO_WRITE_FLAG) ''STRIPE_JIT_LETTER_THREE_PAGES_PRICE_ID'' 699,
      jit_postcard ''jit-postcard-4x6'' ''6x4'' (Some POSTCARD_SIZES_FLAG) ''STRIPE_JIT_POSTCARD_4X6_PRICE_ID'' 399,
      jit_postcard ''jit-postcard-11x6'' ''6x11'' (Some POSTCARD_SIZES_FLAG) ''STRIPE_JIT_POSTCARD_11X6_PRICE_ID'' 599,
      jit_letter ''jit-letter-certified'' None (Some ''certified'') (Some CERTIFIED_MAIL_FLAG)
        ''STRIPE_JIT_LETTER_CERTIFIED_PRICE_ID'' 1199,
      jit_letter ''jit-letter-certified-receipt'' None (Some ''certified_return_receipt'') (Some CERTIFIED_MAIL_FLAG)
        ''STRIPE_JIT_LETTER_CERTIFIED_RECEIPT_PRICE_ID'' 1499]"

definition isJitProductSold :: "jit_product \<Rightarrow> environment \<Rightarrow> bool" where
  "isJitProductSold p env = (case or_null_str (jp_enabledBy p) of
     None \<Rightarrow> True | Some flag \<Rightarrow> offUnlessExplicitlyEnabled flag env)"

definition PACK_PRICE_ENV_VARS :: "string list" where
  "PACK_PRICE_ENV_VARS = map pp_priceEnv PACK_PRODUCTS"

definition JIT_PRICE_ENV_VARS :: "string list" where
  "JIT_PRICE_ENV_VARS = map jp_priceEnv (filter (\<lambda>p. or_null_str (jp_enabledBy p) = None) JIT_PRODUCTS)"

fun option_price :: "jit_product \<Rightarrow> (string \<times> string) list" where
  "option_price p = (case or_null_str (jp_enabledBy p) of None \<Rightarrow> [] | Some flag \<Rightarrow> [(jp_priceEnv p, flag)])"

definition JIT_OPTION_PRICE_ENV_VARS :: "(string \<times> string) list" where
  "JIT_OPTION_PRICE_ENV_VARS = concat (map option_price JIT_PRODUCTS)"

definition PACK_CREDITS_BY_PRODUCT :: "string \<rightharpoonup> int" where
  "PACK_CREDITS_BY_PRODUCT = map_of (map (\<lambda>p. (pp_code p, pp_credits p)) PACK_PRODUCTS)"

definition isJitPurchaseEnabled :: "environment \<Rightarrow> bool" where
  "isJitPurchaseEnabled env \<longleftrightarrow> env ''JIT_PURCHASE_ENABLED'' = Some ''true''"

definition normalizedCurrency :: "string option \<Rightarrow> string \<Rightarrow> string" where
  "normalizedCurrency v fallback =
     (let trimmed = lower_str (js_trim (or_str v [])) in if trimmed = [] then fallback else trimmed)"

definition packCurrency :: "environment \<Rightarrow> string" where
  "packCurrency env = normalizedCurrency (env ''STRIPE_CURRENCY'') ''usd''"

definition jitCurrency :: "environment \<Rightarrow> string" where
  "jitCurrency env = normalizedCurrency (env ''JIT_CURRENCY'') (packCurrency env)"

section \<open>The configured products\<close>

datatype product_group = Group_pack | Group_jit

record configured_product =
  cp_credential :: string
  cp_code :: string
  cp_group :: product_group
  cp_priceId :: string
  cp_expectedAmountCents :: int
  cp_expectedCurrency :: string

definition credentialFingerprint :: "(string \<Rightarrow> string) \<Rightarrow> environment \<Rightarrow> string" where
  "credentialFingerprint sha256 env =
     (let key = js_trim (or_str (env ''STRIPE_SECRET_KEY'') [])
      in if key = [] then ''unset'' else take 16 (sha256 key))"

definition configuredRow ::
  "(string \<Rightarrow> string) \<Rightarrow> string \<Rightarrow> string \<Rightarrow> int \<Rightarrow> product_group \<Rightarrow> string \<Rightarrow> environment \<Rightarrow> configured_product" where
  "configuredRow sha256 code priceEnv cents grp currency env =
     \<lparr> cp_credential = credentialFingerprint sha256 env, cp_code = code, cp_group = grp,
       cp_priceId = js_trim (or_str (env priceEnv) []), cp_expectedAmountCents = cents,
       cp_expectedCurrency = currency \<rparr>"

definition configured_pack :: "(string \<Rightarrow> string) \<Rightarrow> environment \<Rightarrow> pack_product \<Rightarrow> configured_product" where
  "configured_pack sha256 env p =
     configuredRow sha256 (pp_code p) (pp_priceEnv p) (pp_expectedAmountCents p) Group_pack (packCurrency env) env"

definition configured_jit :: "(string \<Rightarrow> string) \<Rightarrow> environment \<Rightarrow> jit_product \<Rightarrow> configured_product" where
  "configured_jit sha256 env p =
     configuredRow sha256 (jp_code p) (jp_priceEnv p) (jp_expectedAmountCents p) Group_jit (jitCurrency env) env"

definition getConfiguredProducts :: "(string \<Rightarrow> string) \<Rightarrow> environment \<Rightarrow> configured_product list" where
  "getConfiguredProducts sha256 env =
     (let packs = map (configured_pack sha256 env) PACK_PRODUCTS
      in if \<not> isJitPurchaseEnabled env then packs
         else packs @ map (configured_jit sha256 env) (filter (\<lambda>p. isJitProductSold p env) JIT_PRODUCTS))"

definition getConfiguredProduct :: "(string \<Rightarrow> string) \<Rightarrow> string \<Rightarrow> environment \<Rightarrow> configured_product option" where
  "getConfiguredProduct sha256 code env =
     (case List.find (\<lambda>p. pp_code p = code) PACK_PRODUCTS of
        Some p \<Rightarrow> Some (configured_pack sha256 env p)
      | None \<Rightarrow>
          if \<not> isJitPurchaseEnabled env then None
          else case List.find (\<lambda>p. jp_code p = code) JIT_PRODUCTS of
            None \<Rightarrow> None
          | Some j \<Rightarrow> if isJitProductSold j env then Some (configured_jit sha256 env j) else None)"

definition isConfiguredProductCode :: "string \<Rightarrow> environment \<Rightarrow> bool" where
  "isConfiguredProductCode code env =
     (if list_ex (\<lambda>p. pp_code p = code) PACK_PRODUCTS then True
      else if \<not> isJitPurchaseEnabled env then False
      else list_ex (\<lambda>p. jp_code p = code \<and> isJitProductSold p env) JIT_PRODUCTS)"

section \<open>The product of a mail option\<close>

definition jit_matches :: "mail_type \<Rightarrow> string \<Rightarrow> mail_option \<Rightarrow> jit_product \<Rightarrow> bool" where
  "jit_matches mt service opt p =
     (if jp_mailType p \<noteq> mt then False
      else if mt = Mt_postcard
      then service = ''standard'' \<and> jp_postcardSize p = Some (case mo_postcardSize opt of None \<Rightarrow> ''6x9'' | Some z \<Rightarrow> z)
      else if service = ''standard''
      then jp_mailService p = None \<and> jp_pages p = Some (case mo_pages opt of None \<Rightarrow> 1 | Some n \<Rightarrow> n)
      else jp_mailService p = Some service)"

definition jitProductMatching :: "mail_option \<Rightarrow> jit_product option" where
  "jitProductMatching opt =
     (let mt = (if list_ex (\<lambda>p. jp_mailType p = mo_mailType opt) JIT_PRODUCTS
                then mo_mailType opt else jp_mailType (hd JIT_PRODUCTS));
          service = (case mo_mailService opt of None \<Rightarrow> ''standard'' | Some v \<Rightarrow> v)
      in List.find (jit_matches mt service opt) JIT_PRODUCTS)"

definition jitProductFor :: "mail_option \<Rightarrow> environment \<Rightarrow> jit_product option" where
  "jitProductFor opt env = (case jitProductMatching opt of
     None \<Rightarrow> None | Some p \<Rightarrow> if isJitProductSold p env then Some p else None)"

section \<open>The option of a draft, and who pays\<close>

definition draftMailOption :: "draft \<Rightarrow> mail_option" where
  "draftMailOption d =
     (if d_mail_type d = Mt_postcard
      then \<lparr> mo_mailType = Mt_postcard, mo_pages = None,
             mo_postcardSize = Some (case or_null_str (d_postcard_size d) of None \<Rightarrow> ''6x9'' | Some z \<Rightarrow> z),
             mo_mailService = None \<rparr>
      else \<lparr> mo_mailType = d_mail_type d, mo_pages = (if 1 < d_pages d then Some (d_pages d) else None),
             mo_postcardSize = None, mo_mailService = mailServiceOf (Some (d_mail_service d)) \<rparr>)"

text \<open>\<open>layout_pages\<close> is the number of pages of the layout, when there is one.\<close>

definition letterOption :: "int option \<Rightarrow> string option \<Rightarrow> mail_option" where
  "letterOption layout_pages service =
     (let pages = (case layout_pages of None \<Rightarrow> 1 | Some n \<Rightarrow> n)
      in \<lparr> mo_mailType = Mt_letter, mo_pages = (if 1 < pages then Some pages else None),
           mo_postcardSize = None, mo_mailService = mailServiceOf service \<rparr>)"

definition isPackPayable :: "mail_option \<Rightarrow> bool" where
  "isPackPayable opt =
     (if (case mo_mailService opt of None \<Rightarrow> ''standard'' | Some v \<Rightarrow> v) \<noteq> ''standard'' then False
      else if mo_mailType opt = Mt_postcard
      then (case mo_postcardSize opt of None \<Rightarrow> ''6x9'' | Some z \<Rightarrow> z) = ''6x9''
      else (case mo_pages opt of None \<Rightarrow> 1 | Some n \<Rightarrow> n) = 1)"

definition MAX_LETTER_PAGES :: int where "MAX_LETTER_PAGES = 3"

definition MAIL_SERVICES :: "string list" where
  "MAIL_SERVICES = [''standard'', ''certified'', ''certified_return_receipt'']"

definition storedPages :: "int option \<Rightarrow> string option \<Rightarrow> bool \<Rightarrow> error + int" where
  "storedPages pages_opt rendererVersion isGiftSend =
     (let pages = (case pages_opt of None \<Rightarrow> 1 | Some n \<Rightarrow> n);
          known = (1 \<le> pages \<and> pages \<le> MAX_LETTER_PAGES)
      in if \<not> known \<or> (1 < pages \<and> (rendererVersion = None \<or> isGiftSend))
         then Inl (Coded_error ''DRAFT_PAGES_INVALID'' ''The letter cannot be stored on that many pages.'')
         else Inr pages)"

definition storedMailService :: "string option \<Rightarrow> bool \<Rightarrow> error + string" where
  "storedMailService v isGiftSend =
     (let service = (case v of None \<Rightarrow> ''standard'' | Some t \<Rightarrow> t)
      in if service \<notin> set MAIL_SERVICES \<or> (service \<noteq> ''standard'' \<and> isGiftSend)
         then Inl (Coded_error ''DRAFT_MAIL_SERVICE_INVALID'' ''The letter cannot be stored with that mail service.'')
         else Inr service)"

definition isCertifiedMailOffered :: "environment \<Rightarrow> bool" where
  "isCertifiedMailOffered env \<longleftrightarrow> offUnlessExplicitlyEnabled CERTIFIED_MAIL_FLAG env \<and> isJitPurchaseEnabled env"

definition CARRIER_NUMBER_SYNC_DAYS :: int where "CARRIER_NUMBER_SYNC_DAYS = 30"

definition carrierNumberLookupEnded :: "instant option \<Rightarrow> instant \<Rightarrow> bool" where
  "carrierNumberLookupEnded sentAt js = (case sentAt of None \<Rightarrow> False | Some t \<Rightarrow> CARRIER_NUMBER_SYNC_DAYS * day_ms < js - t)"

section \<open>Laws\<close>

text \<open>A product table's code names one row, so a search by code and the table agree.\<close>

lemma product_codes_distinct:
  "distinct (map pp_code PACK_PRODUCTS @ map jp_code JIT_PRODUCTS)"
  by (simp add: PACK_PRODUCTS_def JIT_PRODUCTS_def pack_row_def jit_letter_def jit_postcard_def)

lemma find_map: "List.find P (map f xs) = map_option f (List.find (\<lambda>x. P (f x)) xs)"
  by (induction xs) auto

lemma find_append_lists: "List.find P (xs @ ys) = (case List.find P xs of None \<Rightarrow> List.find P ys | Some x \<Rightarrow> Some x)"
  by (induction xs) auto

lemma find_SomeD: "List.find P xs = Some x \<Longrightarrow> x \<in> set xs \<and> P x"
  by (induction xs) (auto split: if_splits)

lemma find_filter_distinct:
  "distinct (map key xs) \<Longrightarrow>
     List.find (\<lambda>x. key x = k) (filter P xs) =
     (case List.find (\<lambda>x. key x = k) xs of None \<Rightarrow> None | Some x \<Rightarrow> if P x then Some x else None)"
proof (induction xs)
  case (Cons x xs)
  have "List.find (\<lambda>y. key y = key x) (filter P xs) = None" using Cons.prems by (fastforce simp: find_None_iff image_iff)
  with Cons show ?case by auto
qed simp

lemma configured_code [simp]:
  "cp_code (configured_pack sha env p) = pp_code p" "cp_code (configured_jit sha env j) = jp_code j"
  by (simp_all add: configured_pack_def configured_jit_def configuredRow_def)

lemma one_row_of_the_table:
  "getConfiguredProduct sha code env = List.find (\<lambda>r. cp_code r = code) (getConfiguredProducts sha env)"
proof -
  have d: "distinct (map jp_code JIT_PRODUCTS)" using product_codes_distinct by simp
  show ?thesis
    unfolding getConfiguredProduct_def getConfiguredProducts_def Let_def
    by (auto simp: find_append_lists find_map find_filter_distinct [OF d, of code] split: option.split)
qed

lemma configured_code_iff:
  "isConfiguredProductCode code env \<longleftrightarrow> getConfiguredProduct sha code env \<noteq> None"
proof -
  have d: "distinct (map jp_code JIT_PRODUCTS)" using product_codes_distinct by simp
  have "list_ex (\<lambda>p. jp_code p = code \<and> isJitProductSold p env) JIT_PRODUCTS \<longleftrightarrow>
      List.find (\<lambda>p. jp_code p = code) (filter (\<lambda>p. isJitProductSold p env) JIT_PRODUCTS) \<noteq> None"
    by (auto simp: find_None_iff list_ex_iff)
  moreover have "list_ex (\<lambda>p. pp_code p = code) PACK_PRODUCTS \<longleftrightarrow> List.find (\<lambda>p. pp_code p = code) PACK_PRODUCTS \<noteq> None"
    by (auto simp: find_None_iff list_ex_iff)
  ultimately show ?thesis
    unfolding isConfiguredProductCode_def getConfiguredProduct_def find_filter_distinct [OF d, of code]
    by (auto split: option.splits)
qed

lemmas product_table_defs =
  JIT_PRODUCTS_def jit_letter_def jit_postcard_def jit_matches_def ROOM_TO_WRITE_FLAG_def
  POSTCARD_SIZES_FLAG_def CERTIFIED_MAIL_FLAG_def

lemma pack_payable_product:
  "isPackPayable opt \<longleftrightarrow> (\<exists>p. jitProductMatching opt = Some p \<and> jp_enabledBy p = None)"
proof (cases "mo_mailType opt")
  case Mt_letter
  then show ?thesis
    by (auto simp: isPackPayable_def jitProductMatching_def product_table_defs Let_def split: option.splits)
next
  case Mt_postcard
  then show ?thesis
    by (auto simp: isPackPayable_def jitProductMatching_def product_table_defs Let_def split: option.splits)
qed

end
