(* ===== verification/ContentVersion.thy ===== *)
theory ContentVersion
  imports Store
begin

text \<open>
  The version of what a draft prints (src/services/contentVersion.ts): the person sends what they
  saw, or nothing. \<open>sha256\<close> is the hex digest of Node's crypto module (and of PostgreSQL, which
  the source says computes the same), a parameter. A draft's columns are read with their pictures;
  the hashes the database can give instead are those of the pictures.
\<close>

fun mail_type_text :: "mail_type \<Rightarrow> string" where
  "mail_type_text Mt_letter = ''letter''"
| "mail_type_text Mt_postcard = ''postcard''"

definition json_opt :: "string option \<Rightarrow> json" where
  "json_opt v = (case v of None \<Rightarrow> JNull | Some t \<Rightarrow> JStr t)"

definition json_obj_opt :: "json_object option \<Rightarrow> json" where
  "json_obj_opt v = (case v of None \<Rightarrow> JNull | Some kvs \<Rightarrow> JObj kvs)"

definition pictureHash :: "(string \<Rightarrow> string) \<Rightarrow> string option \<Rightarrow> string option" where
  "pictureHash sha256 data = map_option sha256 (or_null_str data)"

definition day :: "string option \<Rightarrow> string option" where
  "day v = map_option (take 10) (or_null_str v)"

definition version_fields :: "(string \<Rightarrow> string) \<Rightarrow> draft \<Rightarrow> json list" where
  "version_fields sha256 d =
     [JStr (mail_type_text (d_mail_type d)), JObj (d_sender d), JObj (d_recipient d),
      JStr (d_body_text d), JStr (or_str (d_sign_off d) []), JInt (d_pages d),
      json_opt (d_layout_type d), json_obj_opt (d_stationery d),
      json_opt (pictureHash sha256 (d_signature_image d)), json_opt (pictureHash sha256 (d_header_image_data d)),
      json_opt (pictureHash sha256 (d_inline_image_data d)), json_opt (pictureHash sha256 (d_front_image_data d)),
      json_opt (d_postcard_size d), json_obj_opt (d_postcard_front d), JStr (d_mail_service d),
      json_opt (day (d_arrive_by d)), json_opt (day (d_mail_on d)), JBool (d_is_gift_send d),
      json_opt (d_renderer_version d)]"

definition version_text :: "(string \<Rightarrow> string) \<Rightarrow> draft \<Rightarrow> string" where
  "version_text sha256 d = stringify (JArr (version_fields sha256 d))"

definition contentVersionOf :: "(string \<Rightarrow> string) \<Rightarrow> draft \<Rightarrow> string" where
  "contentVersionOf sha256 d = take 16 (sha256 (version_text sha256 d))"

datatype version_check = V_matches | V_missing | V_differs

definition contentVersionMatches :: "(string \<Rightarrow> string) \<Rightarrow> string option \<Rightarrow> draft \<Rightarrow> version_check" where
  "contentVersionMatches sha256 shown d =
     (case or_null_str (map_option js_trim shown) of
        None \<Rightarrow> V_missing
      | Some given \<Rightarrow> if given = contentVersionOf sha256 d then V_matches else V_differs)"

section \<open>What a version determines\<close>

text \<open>Two drafts print the same and travel alike: the columns an edit can change agree, pictures by their digests.\<close>

definition prints_alike :: "(string \<Rightarrow> string) \<Rightarrow> draft \<Rightarrow> draft \<Rightarrow> bool" where
  "prints_alike sha256 d e \<longleftrightarrow>
     d_mail_type d = d_mail_type e \<and> d_sender d = d_sender e \<and> d_recipient d = d_recipient e \<and>
     d_body_text d = d_body_text e \<and> or_str (d_sign_off d) [] = or_str (d_sign_off e) [] \<and>
     d_pages d = d_pages e \<and> d_layout_type d = d_layout_type e \<and> d_stationery d = d_stationery e \<and>
     pictureHash sha256 (d_signature_image d) = pictureHash sha256 (d_signature_image e) \<and>
     pictureHash sha256 (d_header_image_data d) = pictureHash sha256 (d_header_image_data e) \<and>
     pictureHash sha256 (d_inline_image_data d) = pictureHash sha256 (d_inline_image_data e) \<and>
     pictureHash sha256 (d_front_image_data d) = pictureHash sha256 (d_front_image_data e) \<and>
     d_postcard_size d = d_postcard_size e \<and> d_postcard_front d = d_postcard_front e \<and>
     d_mail_service d = d_mail_service e \<and> day (d_arrive_by d) = day (d_arrive_by e) \<and>
     day (d_mail_on d) = day (d_mail_on e) \<and> d_is_gift_send d = d_is_gift_send e \<and>
     d_renderer_version d = d_renderer_version e"

lemma json_opt_inj [simp]: "json_opt a = json_opt b \<longleftrightarrow> a = b"
  by (auto simp: json_opt_def split: option.splits)

lemma json_obj_opt_inj [simp]: "json_obj_opt a = json_obj_opt b \<longleftrightarrow> a = b"
  by (auto simp: json_obj_opt_def split: option.splits)

lemma mail_type_text_inj [simp]: "mail_type_text a = mail_type_text b \<longleftrightarrow> a = b"
  by (cases a; cases b) simp_all

lemma version_text_iff: "version_text sha256 d = version_text sha256 e \<longleftrightarrow> prints_alike sha256 d e"
  unfolding version_text_def stringify_inj version_fields_def prints_alike_def by simp

end
