(* ===== verification/Duplicates.thy ===== *)
theory Duplicates
  imports ContentVersion
begin

text \<open>
  The same mail sent twice (src/services/duplicateMailService.ts): the fingerprint two pieces of
  mail are compared by, and the search of the last 24 hours. Two parameters stand for code not in
  the repository: \<open>uni\<close> is \<open>normalize('NFKC').toLowerCase()\<close>, from the Unicode tables, and \<open>md5\<close> is
  PostgreSQL's digest of the image data. Ages are milliseconds; the source prints whole minutes.
\<close>

section \<open>What is compared\<close>

record comparable_mail =
  cm_mailType :: mail_type
  cm_layoutType :: "string option"
  cm_postcardSize :: "string option"
  cm_sender :: "json_object option"
  cm_recipient :: "json_object option"
  cm_bodyText :: "string option"
  cm_signOff :: "string option"
  cm_headerImageMd5 :: string
  cm_inlineImageMd5 :: string
  cm_frontImageMd5 :: string

text \<open>\<open>replace(/\s+/g, ' ')\<close>: one space for every run of white space.\<close>

fun squeeze :: "string \<Rightarrow> string" where
  "squeeze [] = []"
| "squeeze (c # cs) =
     (if js_space c then (case cs of d # _ \<Rightarrow> if js_space d then squeeze cs else CHR '' '' # squeeze cs | [] \<Rightarrow> '' '')
      else c # squeeze cs)"

definition normalize_text :: "(string \<Rightarrow> string) \<Rightarrow> string \<Rightarrow> string" where
  "normalize_text uni v = js_trim (squeeze (uni v))"

fun json_string :: "json option \<Rightarrow> string option" where
  "json_string (Some (JStr t)) = Some t"
| "json_string v = None"

definition normalizeMailText :: "(string \<Rightarrow> string) \<Rightarrow> string option \<Rightarrow> string" where
  "normalizeMailText uni v = (case v of None \<Rightarrow> [] | Some t \<Rightarrow> normalize_text uni t)"

definition us_names :: "string list" where
  "us_names = [''US'', ''USA'', ''UNITED STATES'', ''U.S.'', ''U.S.A.'']"

definition countryCode :: "string option \<Rightarrow> string" where
  "countryCode v = (let country = js_trim (upper_str (or_str v []))
     in if country = [] \<or> country \<in> set us_names then ''US'' else country)"

definition address_field :: "json_object option \<Rightarrow> string \<Rightarrow> string option" where
  "address_field address k = json_string (map_of (case address of None \<Rightarrow> [] | Some kvs \<Rightarrow> kvs) k)"

definition addressParts :: "(string \<Rightarrow> string) \<Rightarrow> json_object option \<Rightarrow> string list" where
  "addressParts uni address = map (normalizeMailText uni)
     (map (address_field address) [''name'', ''addressLine1'', ''addressLine2'', ''city'', ''state'', ''postalCode''] @
      [Some (countryCode (address_field address ''country''))])"

definition or_default :: "string option \<Rightarrow> string \<Rightarrow> string option" where
  "or_default v fallback = Some (case or_null_str v of None \<Rightarrow> fallback | Some t \<Rightarrow> t)"

definition mail_format :: "(string \<Rightarrow> string) \<Rightarrow> comparable_mail \<Rightarrow> string" where
  "mail_format uni m = normalizeMailText uni
     (if cm_mailType m = Mt_postcard then or_default (cm_postcardSize m) ''6x9'' else or_default (cm_layoutType m) ''text_only'')"

definition mail_words :: "(string \<Rightarrow> string) \<Rightarrow> comparable_mail \<Rightarrow> string list" where
  "mail_words uni m = (if cm_mailType m = Mt_postcard then [normalizeMailText uni (cm_bodyText m)]
     else [normalizeMailText uni (cm_bodyText m), normalizeMailText uni (cm_signOff m)])"

definition mail_images :: "comparable_mail \<Rightarrow> string list" where
  "mail_images m = (if cm_mailType m = Mt_postcard then [cm_frontImageMd5 m] else [cm_headerImageMd5 m, cm_inlineImageMd5 m])"

definition mailFingerprint :: "(string \<Rightarrow> string) \<Rightarrow> comparable_mail \<Rightarrow> string" where
  "mailFingerprint uni m = stringify (JObj
     [(''mailType'', JStr (mail_type_text (cm_mailType m))),
      (''format'', JStr (mail_format uni m)),
      (''recipient'', JArr (map JStr (addressParts uni (cm_recipient m)))),
      (''sender'', JArr (map JStr (addressParts uni (cm_sender m)))),
      (''words'', JArr (map JStr (mail_words uni m))),
      (''images'', JArr (map JStr (mail_images m)))])"

section \<open>Drafts and letters as comparable mail\<close>

definition comparable_draft :: "(string \<Rightarrow> string) \<Rightarrow> draft \<Rightarrow> comparable_mail" where
  "comparable_draft md5 d =
     \<lparr> cm_mailType = d_mail_type d, cm_layoutType = d_layout_type d, cm_postcardSize = d_postcard_size d,
       cm_sender = Some (d_sender d), cm_recipient = Some (d_recipient d),
       cm_bodyText = Some (d_body_text d), cm_signOff = d_sign_off d,
       cm_headerImageMd5 = md5 (or_str (d_header_image_data d) []),
       cm_inlineImageMd5 = md5 (or_str (d_inline_image_data d) []),
       cm_frontImageMd5 = md5 (or_str (d_front_image_data d) []) \<rparr>"

definition comparable_letter :: "(string \<Rightarrow> string) \<Rightarrow> letter \<Rightarrow> comparable_mail" where
  "comparable_letter md5 l = (let c = lt_content l in
     \<lparr> cm_mailType = lt_mail_type l, cm_layoutType = lc_layout_type c, cm_postcardSize = lc_postcard_size c,
       cm_sender = lc_sender c, cm_recipient = lt_recipient l,
       cm_bodyText = (if lt_mail_type l = Mt_postcard then lc_message c else lc_body_text c),
       cm_signOff = lc_sign_off c,
       cm_headerImageMd5 = md5 (or_str (lc_header_image_data c) []),
       cm_inlineImageMd5 = md5 (or_str (lc_inline_image_data c) []),
       cm_frontImageMd5 = md5 (or_str (lc_front_image_data c) []) \<rparr>)"

section \<open>The search\<close>

datatype duplicate_kind = Dup_sent | Dup_paid | Dup_checkout_open

record duplicate_mail =
  dm_kind :: duplicate_kind
  dm_mailType :: mail_type
  dm_recipientName :: string
  dm_age :: int

definition duplicate_window_ms :: int where "duplicate_window_ms = 24 * 3600000"

definition recipientName :: "json_object option \<Rightarrow> string" where
  "recipientName address = (case address_field address ''name'' of None \<Rightarrow> [] | Some n \<Rightarrow> js_trim n)"

definition loadComparableDraft :: "(string \<Rightarrow> string) \<Rightarrow> string \<Rightarrow> string \<Rightarrow> db \<Rightarrow> comparable_mail option" where
  "loadComparableDraft md5 did uid s = (case find_draft did s of
     None \<Rightarrow> None | Some d \<Rightarrow> if d_user d = uid then Some (comparable_draft md5 d) else None)"

definition recent_letter :: "instant \<Rightarrow> string \<Rightarrow> mail_type \<Rightarrow> string \<Rightarrow> letter \<Rightarrow> bool" where
  "recent_letter now uid mt excluded l \<longleftrightarrow> lt_user l = uid \<and> lt_mail_type l = mt \<and> lt_id l \<noteq> excluded \<and>
     lt_status l \<notin> {L_failed, L_cancelled} \<and> lt_redacted_at l = None \<and> now - duplicate_window_ms < lt_created_at l"

definition recent_letters :: "instant \<Rightarrow> string \<Rightarrow> mail_type \<Rightarrow> string \<Rightarrow> db \<Rightarrow> letter list" where
  "recent_letters now uid mt excluded s = sort_key (\<lambda>l. - lt_created_at l) (filter (recent_letter now uid mt excluded) (letters s))"

definition recent_order :: "instant \<Rightarrow> string \<Rightarrow> string \<Rightarrow> mail_type \<Rightarrow> order \<times> draft \<Rightarrow> bool" where
  "recent_order now uid did mt = (\<lambda>(x, d). o_user x = uid \<and> o_type x = Ot_jit_mail \<and> o_draft_id x \<noteq> Some did \<and>
     o_letter_id x = None \<and> d_mail_type d = mt \<and> d_redacted_at d = None \<and> now - duplicate_window_ms < o_created_at x \<and>
     (o_status x \<in> {Ord_paid, Ord_fulfillment_pending} \<or>
      o_status x = Ord_checkout_pending \<and> (case o_checkout_expires_at x of None \<Rightarrow> True | Some t \<Rightarrow> now < t)))"

fun with_draft :: "db \<Rightarrow> order \<Rightarrow> (order \<times> draft) list" where
  "with_draft s x = (case Option.bind (o_draft_id x) (\<lambda>did. find_draft did s) of None \<Rightarrow> [] | Some d \<Rightarrow> [(x, d)])"

definition recent_orders :: "instant \<Rightarrow> string \<Rightarrow> string \<Rightarrow> mail_type \<Rightarrow> db \<Rightarrow> (order \<times> draft) list" where
  "recent_orders now uid did mt s =
     sort_key (\<lambda>xd. - o_created_at (fst xd)) (filter (recent_order now uid did mt) (concat (map (with_draft s) (orders s))))"

definition found_order :: "instant \<Rightarrow> mail_type \<Rightarrow> duplicate_kind \<Rightarrow> order \<times> draft \<Rightarrow> duplicate_mail" where
  "found_order now mt kind xd = \<lparr> dm_kind = kind, dm_mailType = mt,
     dm_recipientName = recipientName (Some (d_recipient (snd xd))), dm_age = now - o_created_at (fst xd) \<rparr>"

definition findRecentDuplicateMail ::
  "(string \<Rightarrow> string) \<Rightarrow> (string \<Rightarrow> string) \<Rightarrow> instant \<Rightarrow> string \<Rightarrow> string \<Rightarrow> comparable_mail \<Rightarrow> string option \<Rightarrow> db \<Rightarrow>
   duplicate_mail option" where
  "findRecentDuplicateMail uni md5 now uid did mail excluded s =
     (let print = mailFingerprint uni mail; mt = cm_mailType mail;
          matching = filter (\<lambda>xd. mailFingerprint uni (comparable_draft md5 (snd xd)) = print) (recent_orders now uid did mt s)
      in case List.find (\<lambda>l. mailFingerprint uni (comparable_letter md5 l) = print)
                (recent_letters now uid mt (or_str excluded []) s) of
           Some l \<Rightarrow> Some \<lparr> dm_kind = Dup_sent, dm_mailType = mt, dm_recipientName = recipientName (lt_recipient l),
                            dm_age = now - lt_created_at l \<rparr>
         | None \<Rightarrow>
             (case List.find (\<lambda>xd. o_status (fst xd) \<noteq> Ord_checkout_pending) matching of
                Some xd \<Rightarrow> Some (found_order now mt Dup_paid xd)
              | None \<Rightarrow> (case matching of [] \<Rightarrow> None | xd # _ \<Rightarrow> Some (found_order now mt Dup_checkout_open xd))))"

section \<open>The refusal\<close>

definition describeMailAge :: "int \<Rightarrow> string" where
  "describeMailAge age =
     (let minutes = max 0 age div 60000; hours = minutes div 60
      in if minutes < 1 then ''less than a minute ago''
         else if minutes < 60 then (if minutes = 1 then ''1 minute ago'' else show_int minutes @ '' minutes ago'')
         else if hours = 1 then ''1 hour ago'' else show_int hours @ '' hours ago'')"

datatype duplicate_tool = Tool_send_letter | Tool_send_postcard | Tool_create_mail_checkout

fun tool_text :: "duplicate_tool \<Rightarrow> string" where
  "tool_text Tool_send_letter = ''send_letter''"
| "tool_text Tool_send_postcard = ''send_postcard''"
| "tool_text Tool_create_mail_checkout = ''create_mail_checkout''"

definition duplicateMailMessage :: "duplicate_mail \<Rightarrow> duplicate_tool \<Rightarrow> string" where
  "duplicateMailMessage dup tool =
     (let noun = mail_type_text (dm_mailType dup);
          to_name = (if dm_recipientName dup = [] then [] else '' to '' @ json_quote (dm_recipientName dup));
          when_sent = describeMailAge (dm_age dup);
          what = (case dm_kind dup of
              Dup_sent \<Rightarrow> ''This same '' @ noun @ to_name @ '' was already sent from this account '' @ when_sent @ ''.''
            | Dup_paid \<Rightarrow> ''This same '' @ noun @ to_name @ '' was already paid for with Pay & Send '' @ when_sent @
                '', and it will be mailed.''
            | Dup_checkout_open \<Rightarrow> ''A Pay & Send checkout for this same '' @ noun @ to_name @ '' was started '' @ when_sent @
                '' and is still open. If it is paid, that copy will be mailed too.'');
          checkout = (tool = Tool_create_mail_checkout);
          nothing = (if checkout then ''No checkout was created'' else ''Nothing was sent or charged'');
          retry = (if checkout
            then ''call create_mail_checkout again with the same draftId and sendAnotherCopy: true''
            else ''call '' @ tool_text tool @ '' again with the same draftId, confirm: true and sendAnotherCopy: true'')
      in ''Possible duplicate: '' @ what @ '' '' @ nothing @ '' this time. '' @
         ''Ask the user whether they want another copy. Only if they do, '' @ retry @ ''.'')"

definition assertNoRecentDuplicateMail ::
  "(string \<Rightarrow> string) \<Rightarrow> (string \<Rightarrow> string) \<Rightarrow> instant \<Rightarrow> string \<Rightarrow> string \<Rightarrow> string option \<Rightarrow> db \<Rightarrow> error option" where
  "assertNoRecentDuplicateMail uni md5 now uid did excluded s =
     (case loadComparableDraft md5 did uid s of None \<Rightarrow> None | Some mail \<Rightarrow>
        map_option (\<lambda>dup. Coded_error ''DUPLICATE_RECENT_MAIL'' (duplicateMailMessage dup
            (if dm_mailType dup = Mt_postcard then Tool_send_postcard else Tool_send_letter)))
          (findRecentDuplicateMail uni md5 now uid did mail excluded s))"

section \<open>Laws\<close>

text \<open>Two fingerprints are equal exactly when everything compared is.\<close>

definition same_mail :: "(string \<Rightarrow> string) \<Rightarrow> comparable_mail \<Rightarrow> comparable_mail \<Rightarrow> bool" where
  "same_mail uni a b \<longleftrightarrow> cm_mailType a = cm_mailType b \<and> mail_format uni a = mail_format uni b \<and>
     addressParts uni (cm_recipient a) = addressParts uni (cm_recipient b) \<and>
     addressParts uni (cm_sender a) = addressParts uni (cm_sender b) \<and>
     mail_words uni a = mail_words uni b \<and> mail_images a = mail_images b"

lemma map_JStr_inj [simp]: "map JStr xs = map JStr ys \<longleftrightarrow> xs = ys"
  by (simp add: inj_map_eq_map inj_def)

lemma fingerprint_iff: "mailFingerprint uni a = mailFingerprint uni b \<longleftrightarrow> same_mail uni a b"
  unfolding mailFingerprint_def stringify_inj same_mail_def by simp

text \<open>No refusal means no live letter of the account in the window is the same mail, nor an order that would become it.\<close>

lemma no_duplicate_letter:
  assumes "findRecentDuplicateMail uni md5 now uid did mail excluded s = None"
    and "l \<in> set (letters s)" and "recent_letter now uid (cm_mailType mail) (or_str excluded []) l"
  shows "\<not> same_mail uni (comparable_letter md5 l) mail"
proof -
  have "l \<in> set (recent_letters now uid (cm_mailType mail) (or_str excluded []) s)"
    using assms(2,3) by (simp add: recent_letters_def)
  moreover from assms(1) have "List.find (\<lambda>l. mailFingerprint uni (comparable_letter md5 l) = mailFingerprint uni mail)
      (recent_letters now uid (cm_mailType mail) (or_str excluded []) s) = None"
    by (simp add: findRecentDuplicateMail_def Let_def split: option.splits)
  ultimately show ?thesis by (auto simp: find_None_iff fingerprint_iff)
qed

lemma no_duplicate_order:
  assumes "findRecentDuplicateMail uni md5 now uid did mail excluded s = None"
    and "x \<in> set (orders s)" and "o_draft_id x = Some did'" and "find_draft did' s = Some d"
    and "recent_order now uid did (cm_mailType mail) (x, d)"
  shows "\<not> same_mail uni (comparable_draft md5 d) mail"
proof
  assume same: "same_mail uni (comparable_draft md5 d) mail"
  have "(x, d) \<in> set (recent_orders now uid did (cm_mailType mail) s)"
    using assms(2-5) by (force simp: recent_orders_def)
  with same have "(x, d) \<in> set (filter (\<lambda>xd. mailFingerprint uni (comparable_draft md5 (snd xd)) = mailFingerprint uni mail)
      (recent_orders now uid did (cm_mailType mail) s))"
    by (simp add: fingerprint_iff)
  with assms(1) show False
    by (auto simp: findRecentDuplicateMail_def Let_def filter_empty_conv split: option.splits list.splits)
qed

end
