(* ===== verification/MailSend.thy ===== *)
theory MailSend
  imports DailyLimits MailOptions Duplicates Gifts ScheduledMail
begin

text \<open>
  The send (src/services/mailSendService.ts): one transaction that consumes a draft, moves what
  pays for it, writes the letter and its job. Its order is the code's: the replay of a draft
  already sent; the refusals that need no money (the account, the draft, its version, its dates,
  who may pay); the payment, the caps and the duplicate check; the commit of draft, job, layout
  record and order.

  \<open>send_world\<close> holds what the transaction reads from outside the database: the environment, the
  time zone of New York, the database's clock and the server's, the ids and gift codes it draws,
  \<open>toISOString\<close>, the digests and the Unicode folding, and the renderer's layout fingerprint of a
  letter (None when it refuses to lay the letter out). A write that fails under the savepoint of
  the layout record is not modelled. Advisory and row locks serialise whole transactions, so
  inside one function nothing changes between a check and the commit.
\<close>

section \<open>Parameters and results\<close>

record send_world =
  sw_env :: environment
  sw_zone :: time_zone
  sw_now :: instant
  sw_js :: instant
  sw_letter_id :: string
  sw_job_id :: string
  sw_codes :: "nat \<Rightarrow> string"
  sw_to_iso :: "instant \<Rightarrow> string"
  sw_sha256 :: "string \<Rightarrow> string"
  sw_md5 :: "string \<Rightarrow> string"
  sw_unicode :: "string \<Rightarrow> string"
  sw_layout :: "letter \<Rightarrow> string option"

datatype mail_funding = Prepaid_balance "int option" | Jit_order string

record send_params =
  sp_draft :: string
  sp_user :: string
  sp_mailType :: mail_type
  sp_funding :: mail_funding
  sp_allowDuplicate :: bool
  sp_contentVersion :: "string option"

record send_result =
  sr_letter :: letter
  sr_draft :: draft
  sr_job :: "letter_job option"
  sr_creditsRemaining :: int
  sr_alreadyConsumed :: bool
  sr_fundingType :: funding_type
  sr_giftCard :: "gift_card option"
  sr_scheduleMissed :: "(string \<times> string) option"

fun is_jit :: "mail_funding \<Rightarrow> bool" where
  "is_jit (Jit_order oid) = True"
| "is_jit (Prepaid_balance n) = False"

definition draftError :: "string \<Rightarrow> string \<Rightarrow> error" where
  "draftError code message = Coded_error code message"

fun draft_status_text :: "draft_status \<Rightarrow> string" where
  "draft_status_text D_pending = ''pending''"
| "draft_status_text D_consumed = ''consumed''"
| "draft_status_text D_expired = ''expired''"
| "draft_status_text D_cancelled = ''cancelled''"

section \<open>The letter's content\<close>

definition empty_content :: letter_content where
  "empty_content = \<lparr> lc_layout_type = None, lc_renderer_version = None, lc_sender = None,
     lc_body_text = None, lc_sign_off = None, lc_message = None, lc_postcard_size = None,
     lc_header_image_data = None, lc_header_image_url = None, lc_inline_image_data = None,
     lc_inline_image_url = None, lc_front_image_data = None, lc_front_image_url = None,
     lc_stationery = None, lc_pages = None, lc_signature_image = None, lc_postcard_front = None,
     lc_gift_card = None \<rparr>"

definition or_else :: "string option \<Rightarrow> string \<Rightarrow> string" where
  "or_else v fallback = (case or_null_str v of None \<Rightarrow> fallback | Some t \<Rightarrow> t)"

definition buildLetterContent :: "draft \<Rightarrow> letter_content" where
  "buildLetterContent d = empty_content
     \<lparr> lc_body_text := Some (d_body_text d), lc_sign_off := d_sign_off d, lc_sender := Some (d_sender d),
       lc_layout_type := Some (or_else (d_layout_type d) ''text_only''),
       lc_header_image_data := d_header_image_data d, lc_header_image_url := d_header_image_url d,
       lc_inline_image_data := d_inline_image_data d, lc_inline_image_url := d_inline_image_url d,
       lc_renderer_version := map_option JStr (or_null_str (d_renderer_version d)),
       lc_stationery := d_stationery d,
       lc_pages := (if 1 < d_pages d then Some (d_pages d) else None),
       lc_signature_image := or_null_str (d_signature_image d) \<rparr>"

definition buildPostcardContent :: "draft \<Rightarrow> letter_content" where
  "buildPostcardContent d = empty_content
     \<lparr> lc_message := Some (d_body_text d), lc_sender := Some (d_sender d),
       lc_front_image_data := d_front_image_data d, lc_front_image_url := d_front_image_url d,
       lc_postcard_size := Some (or_else (d_postcard_size d) ''6x9''),
       lc_renderer_version := map_option JStr (or_null_str (d_renderer_version d)),
       lc_postcard_front := d_postcard_front d \<rparr>"

section \<open>The dates of a send\<close>

fun range_thrown :: "range_error \<Rightarrow> error" where
  "range_thrown (Not_a_date t) = Error (''Not a calendar date (YYYY-MM-DD): '' @ t)"
| "range_thrown (Not_a_day_count name) = Error (name @ '' must be a whole number of days from 0 to 1000'')"
| "range_thrown Not_an_hour = Error ''hour must be a whole hour from 0 to 23''"

fun thrown :: "range_error + 'a \<Rightarrow> error + 'a" where
  "thrown (Inl e) = Inl (range_thrown e)"
| "thrown (Inr x) = Inr x"

datatype send_schedule = No_schedule | Held_until "string \<times> string" | Schedule_missed "string \<times> string"

text \<open>\<open>today\<close> is \<open>earliestMailOn(new Date())\<close>.\<close>

definition schedule_against :: "mail_funding \<Rightarrow> string \<Rightarrow> string \<times> string \<Rightarrow> string \<Rightarrow> error + send_schedule" where
  "schedule_against funding did schedule today =
     (if \<not> js_less (snd schedule) today then Inr (Held_until schedule)
      else if is_jit funding then Inr (Schedule_missed schedule)
      else Inl (draftError ''SCHEDULE_PASSED''
        (''Draft '' @ did @ '' was to go to the printer on '' @ snd schedule @ '', which has passed'')))"

definition sendSchedule :: "send_world \<Rightarrow> draft \<Rightarrow> mail_funding \<Rightarrow> string \<Rightarrow> error + send_schedule" where
  "sendSchedule w d funding did =
     (case draftScheduleOf (d_arrive_by d) (d_mail_on d) of
        Inl e \<Rightarrow> Inl e
      | Inr None \<Rightarrow> Inr No_schedule
      | Inr (Some schedule) \<Rightarrow>
          bindE (thrown (earliestMailOn (sw_zone w) (sw_js w))) (schedule_against funding did schedule))"

fun held_dates :: "send_schedule \<Rightarrow> (string \<times> string) option" where
  "held_dates (Held_until schedule) = Some schedule"
| "held_dates s = None"

fun missed_dates :: "send_schedule \<Rightarrow> (string \<times> string) option" where
  "missed_dates (Schedule_missed schedule) = Some schedule"
| "missed_dates s = None"

fun release_at :: "send_world \<Rightarrow> send_schedule \<Rightarrow> error + instant option" where
  "release_at w (Held_until schedule) = bindE (thrown (dispatchAt (sw_zone w) (snd schedule))) (\<lambda>t. Inr (Some t))"
| "release_at w s = Inr None"

section \<open>The refusals before any value moves\<close>

text \<open>The first refusal of a list of checks, in the order of the code.\<close>

fun first_refusal :: "error option list \<Rightarrow> error option" where
  "first_refusal [] = None"
| "first_refusal (Some e # es) = Some e"
| "first_refusal (None # es) = first_refusal es"

definition refuse_if :: "bool \<Rightarrow> string \<Rightarrow> string \<Rightarrow> error option" where
  "refuse_if b code message = (if b then Some (draftError code message) else None)"

definition BETA_ACCESS_MESSAGE :: string where
  "BETA_ACCESS_MESSAGE = ''Letter IRL is in limited beta and this account is not on the invite list. '' @
     ''If you believe that is a mistake, email support@letterirl.com.''"

definition blocked_reason :: "string \<Rightarrow> db \<Rightarrow> string option" where
  "blocked_reason uid s = or_null_str (Option.bind (find_user uid s) u_sends_blocked_reason)"

definition account_refusal :: "send_world \<Rightarrow> string \<Rightarrow> db \<Rightarrow> error option" where
  "account_refusal w uid s = first_refusal
     [refuse_if (\<not> isBetaAccessAllowed uid (sw_env w)) ''BETA_ACCESS_DENIED'' BETA_ACCESS_MESSAGE,
      refuse_if (blocked_reason uid s \<noteq> None) ''ACCOUNT_SENDS_BLOCKED''
        (''Sending is disabled on this account ('' @ or_str (blocked_reason uid s) [] @ ''). Contact support.'')]"

definition draft_refusal :: "send_world \<Rightarrow> string \<Rightarrow> draft \<Rightarrow> error option" where
  "draft_refusal w did d = first_refusal
     [refuse_if (d_status d = D_expired \<or> d_expires_at d \<le> sw_js w) ''DRAFT_EXPIRED'' (''Draft expired: '' @ did),
      refuse_if (d_status d = D_cancelled) ''DRAFT_CANCELLED'' (''Draft was cancelled: '' @ did),
      refuse_if (d_status d \<noteq> D_pending) ''DRAFT_INVALID_STATE''
        (''Draft '' @ did @ '' is '' @ draft_status_text (d_status d))]"

definition version_refusal :: "send_world \<Rightarrow> send_params \<Rightarrow> draft \<Rightarrow> error option" where
  "version_refusal w p d =
     refuse_if (contentVersionMatches (sw_sha256 w) (sp_contentVersion p) d = V_differs) ''DRAFT_CHANGED_SINCE_SHOWN''
       (''Draft '' @ sp_draft p @ '' changed since it was shown'')"

definition new_send_refusal :: "send_world \<Rightarrow> send_params \<Rightarrow> draft \<Rightarrow> db \<Rightarrow> error option" where
  "new_send_refusal w p d s = first_refusal
     [if is_jit (sp_funding p) then None else account_refusal w (sp_user p) s,
      draft_refusal w (sp_draft p) d,
      if is_jit (sp_funding p) then None else version_refusal w p d]"

definition uses_gift :: "send_params \<Rightarrow> draft \<Rightarrow> bool" where
  "uses_gift p d \<longleftrightarrow> \<not> is_jit (sp_funding p) \<and> d_is_gift_send d"

definition payer_refusal :: "send_world \<Rightarrow> send_params \<Rightarrow> draft \<Rightarrow> error option" where
  "payer_refusal w p d = first_refusal
     [refuse_if (uses_gift p d \<and> \<not> isGiftLettersEnabled (sw_env w)) ''GIFT_LETTERS_DISABLED''
        (''Draft '' @ sp_draft p @ '' is a gift send and gift letters are off''),
      refuse_if (\<not> is_jit (sp_funding p) \<and> \<not> isPackPayable (draftMailOption d)) ''PACK_CANNOT_PAY''
        (''Draft '' @ sp_draft p @ '' is paid with Pay & Send, not a pack or gift letter'')]"

text \<open>\<open>LIVE_PAY_AND_SEND_STATUSES\<close> of draftService.ts.\<close>

definition live_jit_status :: "order_status \<Rightarrow> bool" where
  "live_jit_status st \<longleftrightarrow> st \<in> {Ord_checkout_pending, Ord_paid, Ord_fulfillment_pending, Ord_refund_pending,
     Ord_disputed, Ord_held}"

definition active_checkout :: "instant \<Rightarrow> string \<Rightarrow> order \<Rightarrow> bool" where
  "active_checkout now did x \<longleftrightarrow> o_draft_id x = Some did \<and> o_type x = Ot_jit_mail \<and> live_jit_status (o_status x) \<and>
     (o_status x \<noteq> Ord_checkout_pending \<or> (case o_checkout_expires_at x of None \<Rightarrow> True | Some t \<Rightarrow> now < t))"

fun room_refusal :: "send_world \<Rightarrow> string \<Rightarrow> send_schedule \<Rightarrow> db \<Rightarrow> error option" where
  "room_refusal w did (Held_until schedule) s =
     (case thrown (fullMailDate (sw_zone w) (sw_env w) schedule (sw_js w) s) of
        Inl e \<Rightarrow> Some e
      | Inr None \<Rightarrow> None
      | Inr (Some full) \<Rightarrow> Some (draftError ''SCHEDULE_FULL''
          (''Draft '' @ did @ '' was to go to the printer on '' @ snd schedule @ '', which is full'')))"
| "room_refusal w did sched s = None"

definition prepaid_refusal :: "send_world \<Rightarrow> send_params \<Rightarrow> send_schedule \<Rightarrow> db \<Rightarrow> error option" where
  "prepaid_refusal w p sched s =
     (if list_ex (active_checkout (sw_now w) (sp_draft p)) (orders s)
      then Some (draftError ''DRAFT_CHECKOUT_PENDING'' (''Draft '' @ sp_draft p @ '' has an active Pay & Send checkout''))
      else room_refusal w (sp_draft p) sched s)"

definition order_refusal :: "send_params \<Rightarrow> string \<Rightarrow> draft \<Rightarrow> order \<Rightarrow> error option" where
  "order_refusal p oid d x = first_refusal
     [refuse_if (o_type x \<noteq> Ot_jit_mail) ''JIT_ORDER_INVALID'' (''Order '' @ oid @ '' is not a JIT order''),
      refuse_if (o_user x \<noteq> sp_user p \<or> o_draft_id x \<noteq> Some (sp_draft p)) ''JIT_ORDER_NOT_OWNED''
        ''JIT order ownership or draft binding does not match'',
      refuse_if (o_status x \<noteq> Ord_paid) ''JIT_ORDER_NOT_PAID'' (''Order '' @ oid @ '' is '' @ order_status_text (o_status x)),
      refuse_if (map_option jp_code (jitProductMatching (draftMailOption d)) \<noteq> Some (o_product_code x)) ''JIT_PRODUCT_MISMATCH''
        (''Order '' @ oid @ '' paid for '' @ o_product_code x @ '', not draft '' @ sp_draft p @ [CHR 0x27] @ ''s mail'')]"

definition jit_refusal :: "send_params \<Rightarrow> string \<Rightarrow> draft \<Rightarrow> db \<Rightarrow> error option" where
  "jit_refusal p oid d s = (case find_order oid s of
     None \<Rightarrow> Some (draftError ''JIT_ORDER_NOT_FOUND'' (''Order not found: '' @ oid))
   | Some x \<Rightarrow> order_refusal p oid d x)"

fun funding_refusal :: "send_world \<Rightarrow> send_params \<Rightarrow> draft \<Rightarrow> send_schedule \<Rightarrow> mail_funding \<Rightarrow> db \<Rightarrow> error option" where
  "funding_refusal w p d sched (Prepaid_balance n) s = prepaid_refusal w p sched s"
| "funding_refusal w p d sched (Jit_order oid) s = jit_refusal p oid d s"

section \<open>The letter's row\<close>

definition send_funding_type :: "send_params \<Rightarrow> draft \<Rightarrow> funding_type" where
  "send_funding_type p d =
     (if is_jit (sp_funding p) then Fund_jit_order else if uses_gift p d then Fund_gift_letter else Fund_prepaid_balance)"

fun funding_order_of :: "mail_funding \<Rightarrow> string option" where
  "funding_order_of (Jit_order oid) = Some oid"
| "funding_order_of (Prepaid_balance n) = None"

definition new_letter :: "send_world \<Rightarrow> send_params \<Rightarrow> draft \<Rightarrow> (string \<times> string) option \<Rightarrow> letter" where
  "new_letter w p d schedule =
     \<lparr> lt_id = sw_letter_id w, lt_user = sp_user p,
       lt_content = (if sp_mailType p = Mt_postcard then buildPostcardContent d else buildLetterContent d),
       lt_credits_cost = d_required_credits d, lt_status = L_draft, lt_mail_type = sp_mailType p,
       lt_mail_service = Some (if sp_mailType p = Mt_letter then d_mail_service d else ''standard''),
       lt_funding_type = send_funding_type p d, lt_funding_order_id = funding_order_of (sp_funding p),
       lt_tracking_id = None, lt_provider = None, lt_provider_raw_status = None, lt_cost_cents = 0,
       lt_expected_delivery = None, lt_sent_at = None, lt_status_updated_at = None, lt_redacted_at = None,
       lt_arrive_by = map_option fst schedule, lt_mail_on = map_option snd schedule,
       lt_recipient = Some (d_recipient d), lt_preview_html = or_null_str (d_preview_html d),
       lt_print_pdf_sha256 = None, lt_print_layout_fingerprint = None, lt_print_layout_engine = None,
       lt_created_at = sw_now w, lt_updated_at = sw_now w \<rparr>"

text \<open>
  The table's refusals: its CHECKs (migrations 001, 033, 040, 053), its primary key and the unique
  index on the funding order, and its foreign keys. A draft's service is read through its column,
  which is never null.
\<close>

definition letter_row_refusal :: "letter \<Rightarrow> db \<Rightarrow> error option" where
  "letter_row_refusal l s =
     (let service = or_str (lt_mail_service l) ''standard'' in first_refusal
     [if lt_credits_cost l \<le> 0 then Some (Check_violation ''letters_credits_cost_check'') else None,
      if service \<notin> set MAIL_SERVICES then Some (Check_violation ''letters_mail_service_known'') else None,
      if service \<noteq> ''standard'' \<and> \<not> (lt_mail_type l = Mt_letter \<and> lt_funding_type l = Fund_jit_order)
        then Some (Check_violation ''letters_mail_service_letters_paid_per_send'') else None,
      (case (lt_mail_on l, lt_arrive_by l) of (Some m, Some a) \<Rightarrow>
         if js_less a m then Some (Check_violation ''letters_schedule_order'') else None | _ \<Rightarrow> None),
      if (lt_arrive_by l = None) \<noteq> (lt_mail_on l = None) then Some (Check_violation ''letters_schedule_pair'') else None,
      if (lt_funding_type l = Fund_jit_order) \<noteq> (lt_funding_order_id l \<noteq> None)
        then Some (Check_violation ''valid_letter_funding_order'') else None,
      if list_ex (\<lambda>r. lt_id r = lt_id l) (letters s) then Some (Unique_violation ''letters_pkey'') else None,
      if lt_funding_order_id l \<noteq> None \<and> list_ex (\<lambda>r. lt_funding_order_id r = lt_funding_order_id l) (letters s)
        then Some (Unique_violation ''idx_letters_jit_order_unique'') else None,
      if find_user (lt_user l) s = None then Some (Foreign_key_violation ''letters_user_id_fkey'') else None,
      (case lt_funding_order_id l of None \<Rightarrow> None | Some oid \<Rightarrow>
         if find_order oid s = None then Some (Foreign_key_violation ''letters_funding_order_id_fkey'') else None)])"

definition insert_letter :: "letter \<Rightarrow> db \<Rightarrow> error + db" where
  "insert_letter l s = (case letter_row_refusal l s of
     Some e \<Rightarrow> Inl e | None \<Rightarrow> Inr (s\<lparr>letters := letters s @ [l]\<rparr>))"

section \<open>What pays\<close>

definition caps_refusal :: "send_world \<Rightarrow> send_params \<Rightarrow> db \<Rightarrow> error option" where
  "caps_refusal w p s = assertMailWithinDailyCaps (sw_env w) (sw_now w) (sp_user p) 0 True s"

definition duplicate_refusal :: "send_world \<Rightarrow> send_params \<Rightarrow> string \<Rightarrow> db \<Rightarrow> error option" where
  "duplicate_refusal w p lid s = (if sp_allowDuplicate p then None
     else assertNoRecentDuplicateMail (sw_unicode w) (sw_md5 w) (sw_now w) (sp_user p) (sp_draft p) (Some lid) s)"

definition add_gift_card :: "gift_card \<Rightarrow> letter \<Rightarrow> letter" where
  "add_gift_card gcard l = l\<lparr>lt_content := (lt_content l)\<lparr>lc_gift_card := Some gcard\<rparr>\<rparr>"

text \<open>A payment answers the credits that remain, the card of a gift letter, and the letter's row after it.\<close>

type_synonym payment = "int \<times> gift_card option \<times> letter"

definition after_gift :: "send_world \<Rightarrow> send_params \<Rightarrow> letter \<Rightarrow> (gift_letter \<times> gift_card) option \<Rightarrow> db \<Rightarrow>
    error + payment \<times> db" where
  "after_gift w p l consumed s =
     (case consumed of
        None \<Rightarrow> Inl (draftError ''GIFT_LETTER_UNAVAILABLE'' (''No gift letter available for draft '' @ sp_draft p))
      | Some (gift, gcard) \<Rightarrow>
          (case first_refusal [caps_refusal w p s, assertGiftSendWithinDailyCap (sw_env w) (sw_now w) s,
                               duplicate_refusal w p (lt_id l) s] of
             Some e \<Rightarrow> Inl e
           | None \<Rightarrow> Inr ((balance_of (sp_user p) s, Some gcard, add_gift_card gcard l),
                          upd_letter (lt_id l) (add_gift_card gcard) s)))"

definition pay_gift :: "send_world \<Rightarrow> send_params \<Rightarrow> instant option \<Rightarrow> letter \<Rightarrow> db \<Rightarrow> error + payment \<times> db" where
  "pay_gift w p release l s =
     (case consumeGiftLetterForSendWithClient (sw_env w) (sw_now w) (sw_js w) (sw_codes w) (sp_user p) (lt_id l) release s of
        Inl e \<Rightarrow> Inl e
      | Inr (consumed, s1) \<Rightarrow> after_gift w p l consumed s1)"

definition send_deduction :: "send_params \<Rightarrow> draft \<Rightarrow> string \<Rightarrow> deduct_params" where
  "send_deduction p d lid = \<lparr> dp_user = sp_user p, dp_credits = d_required_credits d, dp_letter = lid,
     dp_description = Some (''Sent '' @ mail_type_text (sp_mailType p)) \<rparr>"

fun funding_amount :: "mail_funding \<Rightarrow> draft \<Rightarrow> int" where
  "funding_amount (Prepaid_balance (Some n)) d = n"
| "funding_amount f d = d_required_credits d"

definition after_deduction :: "send_world \<Rightarrow> send_params \<Rightarrow> letter \<Rightarrow> user \<Rightarrow> db \<Rightarrow> error + payment \<times> db" where
  "after_deduction w p l u s =
     (case first_refusal [caps_refusal w p s, duplicate_refusal w p (lt_id l) s] of
        Some e \<Rightarrow> Inl e | None \<Rightarrow> Inr ((u_credits u, None, l), s))"

definition pay_prepaid :: "send_world \<Rightarrow> send_params \<Rightarrow> draft \<Rightarrow> letter \<Rightarrow> db \<Rightarrow> error + payment \<times> db" where
  "pay_prepaid w p d l s =
     (if funding_amount (sp_funding p) d \<noteq> d_required_credits d
      then Inl (draftError ''FUNDING_AMOUNT_MISMATCH'' ''Prepaid funding does not match the draft'')
      else case deductCreditsFromLedgerWithClient (sw_now w) (send_deduction p d (lt_id l)) s of
        Inl e \<Rightarrow> Inl e
      | Inr ((u, t, cs), s1) \<Rightarrow> after_deduction w p l u s1)"

definition send_pay :: "send_world \<Rightarrow> send_params \<Rightarrow> draft \<Rightarrow> instant option \<Rightarrow> letter \<Rightarrow> db \<Rightarrow> error + payment \<times> db" where
  "send_pay w p d release l s =
     (if uses_gift p d then pay_gift w p release l s
      else if is_jit (sp_funding p) then Inr ((balance_of (sp_user p) s, None, l), s)
      else pay_prepaid w p d l s)"

section \<open>The commit\<close>

definition consume_draft :: "instant \<Rightarrow> string \<Rightarrow> draft \<Rightarrow> draft" where
  "consume_draft now lid d = d\<lparr>d_status := D_consumed, d_consumed_at := Some now, d_consumed_letter_id := Some lid,
     d_updated_at := now\<rparr>"

definition LAYOUT_ENGINE_VERSION :: string where "LAYOUT_ENGINE_VERSION = ''layout-1''"

definition record_layout :: "string \<Rightarrow> letter \<Rightarrow> letter" where
  "record_layout print l = l\<lparr>lt_print_layout_fingerprint := Some print, lt_print_layout_engine := Some LAYOUT_ENGINE_VERSION\<rparr>"

text \<open>\<open>recordHeldPrintWithClient\<close> of heldPrintService.ts.\<close>

definition recordHeldPrintWithClient :: "send_world \<Rightarrow> letter \<Rightarrow> instant option \<Rightarrow> db \<Rightarrow> db" where
  "recordHeldPrintWithClient w l release s =
     (case release of None \<Rightarrow> s | Some t \<Rightarrow>
        if t \<le> sw_js w \<or> \<not> drawnByRenderer (lt_content l) then s
        else case sw_layout w l of None \<Rightarrow> s | Some print \<Rightarrow> upd_letter (lt_id l) (record_layout print) s)"

definition start_fulfilment :: "instant \<Rightarrow> string \<Rightarrow> order \<Rightarrow> order" where
  "start_fulfilment now lid x = x\<lparr>o_status := Ord_fulfillment_pending, o_letter_id := Some lid,
     o_fulfillment_started_at := (case o_fulfillment_started_at x of None \<Rightarrow> Some now | Some t \<Rightarrow> Some t),
     o_last_error_code := None, o_last_error := None, o_updated_at := now\<rparr>"

fun move_order :: "send_world \<Rightarrow> mail_funding \<Rightarrow> db \<Rightarrow> db" where
  "move_order w (Jit_order oid) s = upd_order oid (start_fulfilment (sw_now w) (sw_letter_id w)) s"
| "move_order w (Prepaid_balance n) s = s"

definition sent_result :: "send_params \<Rightarrow> draft \<Rightarrow> send_schedule \<Rightarrow> payment \<Rightarrow> letter_job \<Rightarrow> send_result" where
  "sent_result p d sched pay j =
     (case pay of (credits, gcard, l) \<Rightarrow>
     \<lparr> sr_letter = l\<lparr>lt_status := L_queued\<rparr>,
       sr_draft = d\<lparr>d_status := D_consumed, d_consumed_letter_id := Some (lt_id l)\<rparr>,
       sr_job = Some j, sr_creditsRemaining = credits, sr_alreadyConsumed = False,
       sr_fundingType = send_funding_type p d, sr_giftCard = gcard, sr_scheduleMissed = missed_dates sched \<rparr>)"

definition send_commit ::
  "send_world \<Rightarrow> send_params \<Rightarrow> draft \<Rightarrow> send_schedule \<Rightarrow> instant option \<Rightarrow> payment \<Rightarrow> db \<Rightarrow> error + send_result \<times> db" where
  "send_commit w p d sched release pay s =
     (case createLetterJobWithClient (sw_env w) (sw_now w) (sw_job_id w) (sw_to_iso w) (sw_letter_id w) release
             (upd_draft (sp_draft p) (consume_draft (sw_now w) (sw_letter_id w)) s) of
        Inl e \<Rightarrow> Inl e
      | Inr (j, s1) \<Rightarrow> Inr (sent_result p d sched pay j,
          move_order w (sp_funding p) (recordHeldPrintWithClient w (snd (snd pay)) release s1)))"

section \<open>The send\<close>

definition send_settle ::
  "send_world \<Rightarrow> send_params \<Rightarrow> draft \<Rightarrow> send_schedule \<Rightarrow> instant option \<Rightarrow> db \<Rightarrow> error + send_result \<times> db" where
  "send_settle w p d sched release s =
     (case insert_letter (new_letter w p d (held_dates sched)) s of
        Inl e \<Rightarrow> Inl e
      | Inr s1 \<Rightarrow>
          (case send_pay w p d release (new_letter w p d (held_dates sched)) s1 of
             Inl e \<Rightarrow> Inl e
           | Inr (pay, s2) \<Rightarrow> send_commit w p d sched release pay s2))"

definition send_new :: "send_world \<Rightarrow> send_params \<Rightarrow> draft \<Rightarrow> db \<Rightarrow> error + send_result \<times> db" where
  "send_new w p d s =
     (case new_send_refusal w p d s of Some e \<Rightarrow> Inl e | None \<Rightarrow>
     (case sendSchedule w d (sp_funding p) (sp_draft p) of Inl e \<Rightarrow> Inl e | Inr sched \<Rightarrow>
     (case release_at w sched of Inl e \<Rightarrow> Inl e | Inr release \<Rightarrow>
     (case payer_refusal w p d of Some e \<Rightarrow> Inl e | None \<Rightarrow>
     (case funding_refusal w p d sched (sp_funding p) s of Some e \<Rightarrow> Inl e | None \<Rightarrow>
        send_settle w p d sched release s)))))"

text \<open>A draft already sent: the same letter again, and the order of a paid one moved on from 'paid'.\<close>

fun conflicting_funding :: "mail_funding \<Rightarrow> letter \<Rightarrow> bool" where
  "conflicting_funding (Jit_order oid) l \<longleftrightarrow> lt_funding_type l \<noteq> Fund_jit_order \<or> lt_funding_order_id l \<noteq> Some oid"
| "conflicting_funding (Prepaid_balance n) l \<longleftrightarrow> False"

fun converge_order :: "send_world \<Rightarrow> mail_funding \<Rightarrow> string \<Rightarrow> db \<Rightarrow> db" where
  "converge_order w (Jit_order oid) lid s =
     upd_order oid (\<lambda>x. if o_status x = Ord_paid then start_fulfilment (sw_now w) lid x else x) s"
| "converge_order w (Prepaid_balance n) lid s = s"

definition replay_result :: "send_params \<Rightarrow> draft \<Rightarrow> letter \<Rightarrow> db \<Rightarrow> send_result" where
  "replay_result p d l s =
     \<lparr> sr_letter = l, sr_draft = d, sr_job = None, sr_creditsRemaining = balance_of (sp_user p) s,
       sr_alreadyConsumed = True, sr_fundingType = lt_funding_type l, sr_giftCard = lc_gift_card (lt_content l),
       sr_scheduleMissed = None \<rparr>"

definition send_replay :: "send_world \<Rightarrow> send_params \<Rightarrow> draft \<Rightarrow> db \<Rightarrow> error + send_result \<times> db" where
  "send_replay w p d s =
     (case or_null_str (d_consumed_letter_id d) of
        None \<Rightarrow> Inl (draftError ''DRAFT_INCOMPLETE'' (''Draft '' @ sp_draft p @ '' has no linked mail item''))
      | Some lid \<Rightarrow>
          (case find_letter lid s of
             None \<Rightarrow> Inl (draftError ''DRAFT_INCOMPLETE'' (''Draft '' @ sp_draft p @ '' links to missing mail''))
           | Some l \<Rightarrow>
               if conflicting_funding (sp_funding p) l
               then Inl (draftError ''DRAFT_FUNDING_CONFLICT''
                      (''Draft '' @ sp_draft p @ '' was already consumed by different funding''))
               else Inr (replay_result p d l s, converge_order w (sp_funding p) (lt_id l) s)))"

definition createMailOrderFromDraftWithClient :: "send_world \<Rightarrow> send_params \<Rightarrow> db \<Rightarrow> error + send_result \<times> db" where
  "createMailOrderFromDraftWithClient w p s =
     (case find_draft (sp_draft p) s of
        None \<Rightarrow> Inl (draftError ''DRAFT_NOT_FOUND'' (''Draft not found: '' @ sp_draft p))
      | Some d \<Rightarrow>
          if d_user d \<noteq> sp_user p
          then Inl (draftError ''DRAFT_NOT_OWNED'' (''Draft '' @ sp_draft p @ '' does not belong to this user''))
          else if d_mail_type d \<noteq> sp_mailType p
          then Inl (draftError ''DRAFT_WRONG_MAIL_TYPE'' (''Draft '' @ sp_draft p @ '' is a '' @ mail_type_text (d_mail_type d) @
                 '', not a '' @ mail_type_text (sp_mailType p)))
          else if d_status d = D_consumed then send_replay w p d s
          else send_new w p d s)"

end
