(* ===== verification/MailSendLaws.thy ===== *)
theory MailSendLaws
  imports MailSend OutboxSteps
begin

text \<open>
  The laws of the send: its successful runs taken apart, what each payment writes, and the
  letter, draft, job and order it leaves.
\<close>

section \<open>Refusals\<close>

lemma upd_where_id [simp]: "upd_where P id xs = xs"
  by (induction xs) (simp_all add: upd_where_def)

lemma first_refusal_None [simp]: "first_refusal es = None \<longleftrightarrow> set es \<subseteq> {None}"
  by (induction es rule: first_refusal.induct) auto

lemma refuse_if_None [simp]: "refuse_if b c m = None \<longleftrightarrow> \<not> b"
  by (simp add: refuse_if_def)

section \<open>What a payment writes\<close>

lemma insert_code_pays: "insert_code c s = Inr (ok, s') \<Longrightarrow> pays_only s s' \<and> ledger s' = ledger s \<and>
    users s' = users s \<and> txns s' = txns s \<and> consumptions s' = consumptions s \<and> gifts s' = gifts s"
  by (auto simp: insert_code_def pays_only_def split: if_splits)

lemma mint_pays:
  "mint_attempts n codes g l e s = Inr (r, s') \<Longrightarrow> pays_only s s' \<and> ledger s' = ledger s \<and>
    users s' = users s \<and> txns s' = txns s \<and> consumptions s' = consumptions s \<and> gifts s' = gifts s"
proof (induction n arbitrary: s)
  case (Suc n)
  from Suc.prems obtain ok s1 where i: "insert_code (new_code (codes (4 - n)) g l e) s = Inr (ok, s1)"
    and rest: "s' = s1 \<or> mint_attempts n codes g l e s1 = Inr (r, s')"
    by (auto split: sum.splits prod.splits if_splits)
  from rest Suc.IH [of s1] insert_code_pays [OF i] show ?case by (auto intro: pays_trans)
qed simp

text \<open>The send of a gift letter: the account's next gift letter is used, its card's code may be minted.\<close>

lemma consume_gift_cases:
  assumes "consumeGiftLetterForSendWithClient env now js codes uid l mailsAt s = Inr (r, s')"
  shows "pays_only s s' \<and> ledger s' = ledger s \<and> users s' = users s \<and> txns s' = txns s \<and>
     consumptions s' = consumptions s \<and>
     (case r of
        None \<Rightarrow> next_gift uid (expire_gifts now uid s) = None \<and> s' = expire_gifts now uid s
      | Some (g, c) \<Rightarrow> next_gift uid (expire_gifts now uid s) = Some g \<and>
          gifts s' = gifts (upd_gift (g_id g) (consume_gift now l) (expire_gifts now uid s)))"
proof -
  let ?s1 = "expire_gifts now uid s"
  have e: "pays_only s ?s1" "ledger ?s1 = ledger s" "users ?s1 = users s" "txns ?s1 = txns s" "consumptions ?s1 = consumptions s"
    by (simp_all add: expire_gifts_def pays_only_def)
  show ?thesis
  proof (cases "next_gift uid ?s1")
    case None
    with assms e show ?thesis by (auto simp: consumeGiftLetterForSendWithClient_def)
  next
    case (Some g)
    let ?s2 = "upd_gift (g_id g) (consume_gift now l) ?s1"
    have u: "pays_only ?s1 ?s2" "ledger ?s2 = ledger ?s1" "users ?s2 = users ?s1" "txns ?s2 = txns ?s1"
      "consumptions ?s2 = consumptions ?s1"
      by (simp_all add: upd_gift_def pays_only_def)
    from assms Some obtain c where r: "r = Some (g, c)"
      and s': "s' = ?s2 \<or> (\<exists>x. mintChainCode env js codes g l mailsAt ?s2 = Inr (x, s'))"
      by (auto simp: consumeGiftLetterForSendWithClient_def Let_def split: option.splits if_splits sum.splits)
    from s' have m: "pays_only ?s2 s' \<and> ledger s' = ledger ?s2 \<and> users s' = users ?s2 \<and> txns s' = txns ?s2 \<and>
        consumptions s' = consumptions ?s2 \<and> gifts s' = gifts ?s2"
    proof
      assume "\<exists>x. mintChainCode env js codes g l mailsAt ?s2 = Inr (x, s')"
      then show ?thesis by (auto simp: mintChainCode_def Let_def dest: mint_pays)
    qed simp
    from pays_trans [OF e(1) pays_trans [OF u(1)]] m e u Some r show ?thesis by auto
  qed
qed

lemma deduct_pays:
  assumes "deductCreditsFromLedgerWithClient now p s = Inr ((u, t, cs), s')"
  shows "pays_only s s' \<and> gifts s' = gifts s \<and> gift_codes s' = gift_codes s"
  using assms
proof (rule deduct_Inr)
  fix v
  assume "s' = consumptions_update (\<lambda>xs. xs @ cs)
      (apply_takes now (takes (dp_credits p) (consumption_order now (dp_user p) s))
        (insert_txn t (upd_user (dp_user p) (deduct_balance now (dp_credits p)) s)))"
  then show ?thesis by (simp add: pays_only_def insert_txn_def)
qed

section \<open>A successful send\<close>

text \<open>Everything a run that sends went through.\<close>

definition sent_run ::
  "send_world \<Rightarrow> send_params \<Rightarrow> db \<Rightarrow> draft \<Rightarrow> send_schedule \<Rightarrow> instant option \<Rightarrow> payment \<Rightarrow> db \<Rightarrow> send_result \<Rightarrow> db \<Rightarrow> bool" where
  "sent_run w p s d sched release pay s2 r s' \<longleftrightarrow>
     find_draft (sp_draft p) s = Some d \<and> d_user d = sp_user p \<and> d_mail_type d = sp_mailType p \<and>
     new_send_refusal w p d s = None \<and> sendSchedule w d (sp_funding p) (sp_draft p) = Inr sched \<and>
     release_at w sched = Inr release \<and> payer_refusal w p d = None \<and>
     funding_refusal w p d sched (sp_funding p) s = None \<and>
     letter_row_refusal (new_letter w p d (held_dates sched)) s = None \<and>
     send_pay w p d release (new_letter w p d (held_dates sched))
       (s\<lparr>letters := letters s @ [new_letter w p d (held_dates sched)]\<rparr>) = Inr (pay, s2) \<and>
     send_commit w p d sched release pay s2 = Inr (r, s')"

lemma send_commit_new: "send_commit w p d sched release pay s = Inr (r, s') \<Longrightarrow> \<not> sr_alreadyConsumed r"
  by (auto simp: send_commit_def sent_result_def split: sum.splits prod.splits)

lemma send_cases:
  assumes "createMailOrderFromDraftWithClient w p s = Inr (r, s')"
  obtains (sent) d sched release pay s2 where "\<not> sr_alreadyConsumed r" "sent_run w p s d sched release pay s2 r s'"
  | (replayed) d where "sr_alreadyConsumed r" "find_draft (sp_draft p) s = Some d" "d_user d = sp_user p"
      "d_mail_type d = sp_mailType p" "d_status d = D_consumed" "send_replay w p d s = Inr (r, s')"
proof -
  from assms obtain d where d: "find_draft (sp_draft p) s = Some d" "d_user d = sp_user p" "d_mail_type d = sp_mailType p"
    and k: "(if d_status d = D_consumed then send_replay w p d s else send_new w p d s) = Inr (r, s')"
    by (auto simp: createMailOrderFromDraftWithClient_def split: option.splits if_splits)
  show ?thesis
  proof (cases "d_status d = D_consumed")
    case True
    with k have "send_replay w p d s = Inr (r, s')" by simp
    moreover from this have "sr_alreadyConsumed r"
      by (auto simp: send_replay_def replay_result_def split: option.splits if_splits)
    ultimately show ?thesis using True d by (intro replayed)
  next
    case False
    with k have "send_new w p d s = Inr (r, s')" by simp
    then obtain sched release where a: "new_send_refusal w p d s = None"
      "sendSchedule w d (sp_funding p) (sp_draft p) = Inr sched" "release_at w sched = Inr release"
      "payer_refusal w p d = None" "funding_refusal w p d sched (sp_funding p) s = None"
      and st: "send_settle w p d sched release s = Inr (r, s')"
      by (auto simp: send_new_def split: option.splits sum.splits)
    from st obtain pay s2 where b: "letter_row_refusal (new_letter w p d (held_dates sched)) s = None"
      "send_pay w p d release (new_letter w p d (held_dates sched))
         (s\<lparr>letters := letters s @ [new_letter w p d (held_dates sched)]\<rparr>) = Inr (pay, s2)"
      "send_commit w p d sched release pay s2 = Inr (r, s')"
      by (auto simp: send_settle_def insert_letter_def split: option.splits sum.splits prod.splits)
    have "sent_run w p s d sched release pay s2 r s'" using d a b by (simp add: sent_run_def)
    with send_commit_new [OF b(3)] show ?thesis by (intro sent)
  qed
qed

section \<open>The payment of a run\<close>

lemma new_letter_fields [simp]:
  "lt_id (new_letter w p d x) = sw_letter_id w" "lt_user (new_letter w p d x) = sp_user p"
  "lt_status (new_letter w p d x) = L_draft" "lt_funding_type (new_letter w p d x) = send_funding_type p d"
  "lt_mail_on (new_letter w p d x) = map_option snd x" "lt_arrive_by (new_letter w p d x) = map_option fst x"
  "lt_credits_cost (new_letter w p d x) = d_required_credits d"
  "lt_funding_order_id (new_letter w p d x) = funding_order_of (sp_funding p)"
  "lt_mail_type (new_letter w p d x) = sp_mailType p" "lt_created_at (new_letter w p d x) = sw_now w"
  by (simp_all add: new_letter_def)

lemma add_gift_card_fields [simp]:
  "lt_id (add_gift_card c l) = lt_id l" "lt_user (add_gift_card c l) = lt_user l"
  "lt_status (add_gift_card c l) = lt_status l" "lt_funding_type (add_gift_card c l) = lt_funding_type l"
  "lt_mail_on (add_gift_card c l) = lt_mail_on l" "lt_arrive_by (add_gift_card c l) = lt_arrive_by l"
  "lt_credits_cost (add_gift_card c l) = lt_credits_cost l" "lt_created_at (add_gift_card c l) = lt_created_at l"
  "lt_funding_order_id (add_gift_card c l) = lt_funding_order_id l" "lt_mail_type (add_gift_card c l) = lt_mail_type l"
  by (simp_all add: add_gift_card_def)

lemma send_pay_cases:
  assumes "send_pay w p d release l s = Inr (pay, s2)"
  obtains (gift) g c s1 where "uses_gift p d"
      "consumeGiftLetterForSendWithClient (sw_env w) (sw_now w) (sw_js w) (sw_codes w) (sp_user p) (lt_id l) release s =
         Inr (Some (g, c), s1)"
      "caps_refusal w p s1 = None" "assertGiftSendWithinDailyCap (sw_env w) (sw_now w) s1 = None"
      "duplicate_refusal w p (lt_id l) s1 = None" "pay = (balance_of (sp_user p) s1, Some c, add_gift_card c l)"
      "s2 = upd_letter (lt_id l) (add_gift_card c) s1"
  | (jit) oid where "sp_funding p = Jit_order oid" "pay = (balance_of (sp_user p) s, None, l)" "s2 = s"
  | (prepaid) u t cs where "\<not> uses_gift p d" "\<not> is_jit (sp_funding p)"
      "deductCreditsFromLedgerWithClient (sw_now w) (send_deduction p d (lt_id l)) s = Inr ((u, t, cs), s2)"
      "caps_refusal w p s2 = None" "duplicate_refusal w p (lt_id l) s2 = None" "pay = (u_credits u, None, l)"
proof (cases "uses_gift p d")
  case True
  with assms obtain c s1 where consume:
      "consumeGiftLetterForSendWithClient (sw_env w) (sw_now w) (sw_js w) (sw_codes w) (sp_user p) (lt_id l) release s = Inr (c, s1)"
    and after: "after_gift w p l c s1 = Inr (pay, s2)"
    by (auto simp: send_pay_def pay_gift_def split: sum.splits prod.splits)
  from after obtain g x where c: "c = Some (g, x)" by (auto simp: after_gift_def split: option.splits)
  from after [unfolded c after_gift_def] have checks: "caps_refusal w p s1 = None"
    "assertGiftSendWithinDailyCap (sw_env w) (sw_now w) s1 = None" "duplicate_refusal w p (lt_id l) s1 = None"
    and out: "pay = (balance_of (sp_user p) s1, Some x, add_gift_card x l)" "s2 = upd_letter (lt_id l) (add_gift_card x) s1"
    by (simp_all split: option.splits)
  show ?thesis by (rule gift [OF True consume [unfolded c] checks out])
next
  case False
  show ?thesis
  proof (cases "sp_funding p")
    case (Jit_order oid)
    with False assms have out: "pay = (balance_of (sp_user p) s, None, l)" "s2 = s" by (auto simp: send_pay_def)
    show ?thesis by (rule jit [OF Jit_order out])
  next
    case (Prepaid_balance n)
    with False assms have "pay_prepaid w p d l s = Inr (pay, s2)" by (simp add: send_pay_def)
    then obtain u t cs s1 where "deductCreditsFromLedgerWithClient (sw_now w) (send_deduction p d (lt_id l)) s = Inr ((u, t, cs), s1)"
      "after_deduction w p l u s1 = Inr (pay, s2)"
      by (auto simp: pay_prepaid_def split: if_splits sum.splits prod.splits)
    then have ded: "deductCreditsFromLedgerWithClient (sw_now w) (send_deduction p d (lt_id l)) s = Inr ((u, t, cs), s2)"
      and out: "caps_refusal w p s2 = None" "duplicate_refusal w p (lt_id l) s2 = None" "pay = (u_credits u, None, l)"
      by (simp_all add: after_deduction_def split: option.splits)
    have "\<not> is_jit (sp_funding p)" using Prepaid_balance by simp
    from prepaid [OF False this ded out] show ?thesis .
  qed
qed

text \<open>A payment writes the books, and of the mail only the card into the letter.\<close>

lemma send_pay_mail:
  assumes "send_pay w p d release l s = Inr ((credits, gc, l'), s2)" and "find_letter (lt_id l) s = Some l"
  shows "jobs s2 = jobs s \<and> orders s2 = orders s \<and> drafts s2 = drafts s \<and> submissions s2 = submissions s \<and>
     limit_overrides s2 = limit_overrides s \<and>
     letters s2 = upd_where (\<lambda>x. lt_id x = lt_id l) (case gc of None \<Rightarrow> id | Some c \<Rightarrow> add_gift_card c) (letters s) \<and>
     l' = (case gc of None \<Rightarrow> l | Some c \<Rightarrow> add_gift_card c l)"
  using assms(1)
proof (cases rule: send_pay_cases)
  case (gift g c s1)
  from consume_gift_cases [OF gift(2)] have "pays_only s s1" by simp
  then show ?thesis using gift(6,7) by (simp add: pays_only_def upd_letter_def)
next
  case (prepaid u t cs)
  from deduct_pays [OF prepaid(3)] have "pays_only s s2" by simp
  then show ?thesis using prepaid(6) by (simp add: pays_only_def)
qed simp

section \<open>What a run leaves\<close>

definition jobs_have_letters :: "db \<Rightarrow> bool" where
  "jobs_have_letters s \<longleftrightarrow> (\<forall>j\<in>set (jobs s). find_letter (j_letter j) s \<noteq> None)"

lemma upd_where_last:
  "(\<And>x. x \<in> set xs \<Longrightarrow> \<not> P x) \<Longrightarrow> P y \<Longrightarrow> upd_where P f (xs @ [y]) = xs @ [f y]"
  by (induction xs) (auto simp: upd_where_def)

lemma find_letter_None: "find_letter k s = None \<longleftrightarrow> k \<notin> lt_id ` set (letters s)"
  by (simp add: find_letter_def find_by_None_iff)

lemma inserted_letter_fresh:
  "letter_row_refusal l s = None \<Longrightarrow> lt_id l \<notin> lt_id ` set (letters s)"
  by (auto simp: letter_row_refusal_def Let_def list_ex_iff split: if_splits)

lemma inserted_found:
  "letter_row_refusal l s = None \<Longrightarrow> find_letter (lt_id l) (s\<lparr>letters := letters s @ [l]\<rparr>) = Some l"
  using inserted_letter_fresh [of l s, folded find_letter_None] by (simp add: find_letter_def find_by_append)

lemma insert_checks:
  assumes "letter_row_refusal l s = None"
  shows "0 < lt_credits_cost l" and "find_user (lt_user l) s \<noteq> None"
    and "\<And>oid. lt_funding_order_id l = Some oid \<Longrightarrow> find_order oid s \<noteq> None"
    and "\<And>oid x. lt_funding_order_id l = Some oid \<Longrightarrow> x \<in> set (letters s) \<Longrightarrow> lt_funding_order_id x \<noteq> Some oid"
    and "(lt_arrive_by l = None) = (lt_mail_on l = None)"
    and "(lt_funding_type l = Fund_jit_order) = (lt_funding_order_id l \<noteq> None)"
  using assms by (auto simp: letter_row_refusal_def Let_def list_ex_iff split: if_splits option.splits)

definition final_letter :: "send_world \<Rightarrow> instant option \<Rightarrow> letter \<Rightarrow> letter" where
  "final_letter w release l = (let q = l\<lparr>lt_status := L_queued, lt_updated_at := sw_now w\<rparr> in
     case release of None \<Rightarrow> q | Some t \<Rightarrow>
       if t \<le> sw_js w \<or> \<not> drawnByRenderer (lt_content l) then q
       else case sw_layout w l of None \<Rightarrow> q | Some print \<Rightarrow> record_layout print q)"

lemma final_letter_fields [simp]:
  "lt_id (final_letter w release l) = lt_id l" "lt_user (final_letter w release l) = lt_user l"
  "lt_status (final_letter w release l) = L_queued" "lt_funding_type (final_letter w release l) = lt_funding_type l"
  "lt_mail_on (final_letter w release l) = lt_mail_on l" "lt_credits_cost (final_letter w release l) = lt_credits_cost l"
  "lt_arrive_by (final_letter w release l) = lt_arrive_by l" "lt_content (final_letter w release l) = lt_content l"
  "lt_funding_order_id (final_letter w release l) = lt_funding_order_id l" "lt_created_at (final_letter w release l) = lt_created_at l"
  by (simp_all add: final_letter_def Let_def record_layout_def split: option.split)

lemma recordHeldPrint_frame [simp]:
  "jobs (recordHeldPrintWithClient w l release s) = jobs s" "orders (recordHeldPrintWithClient w l release s) = orders s"
  "drafts (recordHeldPrintWithClient w l release s) = drafts s" "users (recordHeldPrintWithClient w l release s) = users s"
  "ledger (recordHeldPrintWithClient w l release s) = ledger s" "txns (recordHeldPrintWithClient w l release s) = txns s"
  "consumptions (recordHeldPrintWithClient w l release s) = consumptions s" "gifts (recordHeldPrintWithClient w l release s) = gifts s"
  "gift_codes (recordHeldPrintWithClient w l release s) = gift_codes s"
  "submissions (recordHeldPrintWithClient w l release s) = submissions s"
  "limit_overrides (recordHeldPrintWithClient w l release s) = limit_overrides s"
  by (simp_all add: recordHeldPrintWithClient_def split: option.split)

lemma move_order_frame [simp]:
  "jobs (move_order w f s) = jobs s" "letters (move_order w f s) = letters s" "drafts (move_order w f s) = drafts s"
  "users (move_order w f s) = users s" "ledger (move_order w f s) = ledger s" "txns (move_order w f s) = txns s"
  "consumptions (move_order w f s) = consumptions s" "gifts (move_order w f s) = gifts s"
  "gift_codes (move_order w f s) = gift_codes s" "submissions (move_order w f s) = submissions s"
  "limit_overrides (move_order w f s) = limit_overrides s"
  by (cases f; simp)+

lemma create_job_fresh:
  assumes "createLetterJobWithClient env now jid to_iso l nb s = Inr (j, s')" and "l \<notin> j_letter ` set (jobs s)"
  shows "j = new_job env now jid to_iso l nb" and "jobs s' = jobs s @ [j]"
    and "letters s' = upd_where (\<lambda>x. lt_id x = l) (\<lambda>x. x\<lparr>lt_status := L_queued, lt_updated_at := now\<rparr>) (letters s)"
    and "orders s' = orders s" and "drafts s' = drafts s" and "submissions s' = submissions s"
    and "ledger s' = ledger s" and "users s' = users s" and "txns s' = txns s" and "consumptions s' = consumptions s"
    and "gifts s' = gifts s" and "gift_codes s' = gift_codes s" and "limit_overrides s' = limit_overrides s"
proof -
  have "List.find (\<lambda>r. j_letter r = l) (jobs s) = None" using assms(2) by (auto simp: find_None_iff)
  with assms(1) have "j = new_job env now jid to_iso l nb"
    "s' = upd_letter l (\<lambda>x. x\<lparr>lt_status := L_queued, lt_updated_at := now\<rparr>) (s\<lparr>jobs := jobs s @ [j]\<rparr>)"
    by (auto simp: createLetterJobWithClient_def Let_def split: if_splits)
  then show "j = new_job env now jid to_iso l nb" "jobs s' = jobs s @ [j]"
    "letters s' = upd_where (\<lambda>x. lt_id x = l) (\<lambda>x. x\<lparr>lt_status := L_queued, lt_updated_at := now\<rparr>) (letters s)"
    "orders s' = orders s" "drafts s' = drafts s" "submissions s' = submissions s"
    "ledger s' = ledger s" "users s' = users s" "txns s' = txns s" "consumptions s' = consumptions s"
    "gifts s' = gifts s" "gift_codes s' = gift_codes s" "limit_overrides s' = limit_overrides s"
    by (simp_all add: upd_letter_def)
qed

text \<open>The mail of a run: one more letter, one more job, the draft consumed, the order moved on.\<close>

lemma sent_mail:
  assumes run: "sent_run w p s d sched release pay s2 r s'" and wf: "jobs_have_letters s"
  obtains l where "letters s' = letters s @ [final_letter w release l]"
    and "l = (case sr_giftCard r of None \<Rightarrow> id | Some c \<Rightarrow> add_gift_card c) (new_letter w p d (held_dates sched))"
    and "jobs s' = jobs s @ [new_job (sw_env w) (sw_now w) (sw_job_id w) (sw_to_iso w) (sw_letter_id w) release]"
    and "drafts s' = drafts (upd_draft (sp_draft p) (consume_draft (sw_now w) (sw_letter_id w)) s)"
    and "orders s' = orders (move_order w (sp_funding p) s)" and "submissions s' = submissions s"
    and "ledger s' = ledger s2" and "users s' = users s2" and "txns s' = txns s2" and "consumptions s' = consumptions s2"
    and "gifts s' = gifts s2" and "gift_codes s' = gift_codes s2"
    and "limit_overrides s' = limit_overrides s"
    and "sr_fundingType r = send_funding_type p d" and "sr_creditsRemaining r = fst pay"
    and "sr_letter r = l\<lparr>lt_status := L_queued\<rparr>" and "sr_scheduleMissed r = missed_dates sched"
    and "letters s2 = letters s @ [l]" and "orders s2 = orders s" and "drafts s2 = drafts s"
    and "limit_overrides s2 = limit_overrides s"
proof -
  define l0 where "l0 = new_letter w p d (held_dates sched)"
  define sa where "sa = s\<lparr>letters := letters s @ [l0]\<rparr>"
  have fresh: "sw_letter_id w \<notin> lt_id ` set (letters s)"
    using run inserted_letter_fresh [of l0 s] by (simp add: sent_run_def l0_def)
  have none: "\<And>x. x \<in> set (letters s) \<Longrightarrow> lt_id x \<noteq> sw_letter_id w" using fresh by force
  have "find_letter (lt_id l0) sa = Some l0"
    using run inserted_found [of l0 s] by (simp add: sent_run_def sa_def l0_def)
  moreover obtain credits gc l where pay: "pay = (credits, gc, l)" by (cases pay)
  moreover have paid: "send_pay w p d release l0 sa = Inr (pay, s2)" using run by (simp add: sent_run_def l0_def sa_def)
  ultimately have s2: "jobs s2 = jobs s" "orders s2 = orders s" "drafts s2 = drafts s" "submissions s2 = submissions s"
    "letters s2 = letters s @ [l]" "limit_overrides s2 = limit_overrides s" and l: "l = (case gc of None \<Rightarrow> id | Some c \<Rightarrow> add_gift_card c) l0"
    using send_pay_mail [of w p d release l0 sa credits gc l s2] none
    by (auto simp: sa_def l0_def upd_where_last split: option.splits)
  have lid: "lt_id l = sw_letter_id w" by (simp add: l l0_def split: option.split)
  let ?s3 = "upd_draft (sp_draft p) (consume_draft (sw_now w) (sw_letter_id w)) s2"
  from run obtain j s4 where job: "createLetterJobWithClient (sw_env w) (sw_now w) (sw_job_id w) (sw_to_iso w) (sw_letter_id w)
        release ?s3 = Inr (j, s4)"
    and r: "r = sent_result p d sched pay j" and s': "s' = move_order w (sp_funding p) (recordHeldPrintWithClient w l release s4)"
    by (auto simp: sent_run_def send_commit_def pay split: sum.splits prod.splits)
  have "sw_letter_id w \<notin> j_letter ` set (jobs s)"
    using wf fresh by (auto simp: jobs_have_letters_def find_letter_None)
  then have nj: "sw_letter_id w \<notin> j_letter ` set (jobs ?s3)" by (simp add: s2(1))
  note c = create_job_fresh [OF job nj]
  have q: "letters s4 = letters s @ [l\<lparr>lt_status := L_queued, lt_updated_at := sw_now w\<rparr>]"
    using none by (simp add: c(3) s2(5) upd_where_last lid)
  have lt: "letters s' = letters s @ [final_letter w release l]"
    using none lid q
    by (simp add: s' recordHeldPrintWithClient_def final_letter_def Let_def upd_letter_def upd_where_last
        split: option.split)
  show ?thesis
  proof (rule that [OF lt])
    show "l = (case sr_giftCard r of None \<Rightarrow> id | Some c \<Rightarrow> add_gift_card c) (new_letter w p d (held_dates sched))"
      by (simp add: r sent_result_def pay l l0_def)
    show "jobs s' = jobs s @ [new_job (sw_env w) (sw_now w) (sw_job_id w) (sw_to_iso w) (sw_letter_id w) release]"
      by (simp add: s' c(1,2) s2(1))
    show "drafts s' = drafts (upd_draft (sp_draft p) (consume_draft (sw_now w) (sw_letter_id w)) s)"
      by (simp add: s' c(5) upd_draft_def s2(3))
    show "orders s' = orders (move_order w (sp_funding p) s)"
      by (cases "sp_funding p") (simp_all add: s' c(4) s2(2) upd_order_def)
  qed (simp_all add: s' c s2 r sent_result_def pay)
qed

section \<open>What a run pays\<close>

lemma find_user_cong: "users s' = users s \<Longrightarrow> find_user k s' = find_user k s"
  by (simp add: find_user_def)

lemma balance_cong: "users s' = users s \<Longrightarrow> balance_of k s' = balance_of k s"
  by (simp add: balance_of_def find_user_def)

lemma expire_gifts_letters [simp]:
  "next_gift uid (expire_gifts now uid (s\<lparr>letters := ls\<rparr>)) = next_gift uid (expire_gifts now uid s)"
  "gifts (expire_gifts now uid (s\<lparr>letters := ls\<rparr>)) = gifts (expire_gifts now uid s)"
  by (simp_all add: expire_gifts_def next_gift_def)

text \<open>The draft a run found, and what the checks before the payment established.\<close>

lemma sent_checks:
  assumes "sent_run w p s d sched release pay s2 r s'"
  shows "d_status d = D_pending" and "sw_js w < d_expires_at d" and "0 < d_required_credits d"
    and "\<not> is_jit (sp_funding p) \<Longrightarrow> isBetaAccessAllowed (sp_user p) (sw_env w)"
    and "\<not> is_jit (sp_funding p) \<Longrightarrow> blocked_reason (sp_user p) s = None"
    and "\<not> is_jit (sp_funding p) \<Longrightarrow> contentVersionMatches (sw_sha256 w) (sp_contentVersion p) d \<noteq> V_differs"
    and "\<not> is_jit (sp_funding p) \<Longrightarrow> isPackPayable (draftMailOption d)"
    and "uses_gift p d \<Longrightarrow> isGiftLettersEnabled (sw_env w)"
    and "\<not> is_jit (sp_funding p) \<Longrightarrow> \<not> list_ex (active_checkout (sw_now w) (sp_draft p)) (orders s)"
    and "\<not> is_jit (sp_funding p) \<Longrightarrow> room_refusal w (sp_draft p) sched s = None"
  using assms insert_checks(1) [of "new_letter w p d (held_dates sched)" s]
  by (auto simp: sent_run_def new_send_refusal_def account_refusal_def draft_refusal_def version_refusal_def
      payer_refusal_def prepaid_refusal_def first_refusal_None uses_gift_def
      simp flip: not_le split: if_splits elim: is_jit.elims)

text \<open>A paid order: it was 'paid' for this draft and this mail.\<close>

lemma sent_order:
  assumes "sent_run w p s d sched release pay s2 r s'" and "sp_funding p = Jit_order oid"
  obtains x where "find_order oid s = Some x" "o_type x = Ot_jit_mail" "o_user x = sp_user p"
    "o_draft_id x = Some (sp_draft p)" "o_status x = Ord_paid"
    "\<exists>pr. jitProductMatching (draftMailOption d) = Some pr \<and> jp_code pr = o_product_code x"
  using assms by (auto simp: sent_run_def jit_refusal_def order_refusal_def split: option.splits)

lemma sent_paid_prepaid:
  assumes run: "sent_run w p s d sched release pay s2 r s'" and ok: "ledger_ok s"
    and kind: "\<not> uses_gift p d" "\<not> is_jit (sp_funding p)"
  obtains u t cs where "getAvailableCredits (sw_now w) k s2 =
      getAvailableCredits (sw_now w) k s - (if k = sp_user p then d_required_credits d else 0)"
    "balance_of k s2 = balance_of k s - (if k = sp_user p then d_required_credits d else 0)"
    "consumptions s2 = consumptions s @ cs" "txns s2 = txns s @ [t]" "tx_reference_id t = Some (sw_letter_id w)"
    "tx_amount t = - d_required_credits d" "sum_list (map cc_amount cs) = d_required_credits d" "ledger_ok s2"
    "gifts s2 = gifts s" "gift_codes s2 = gift_codes s"
    "fst pay = u_credits u" "find_user (sp_user p) s2 = Some u"
    "caps_refusal w p s2 = None" "duplicate_refusal w p (sw_letter_id w) s2 = None"
proof -
  let ?l = "new_letter w p d (held_dates sched)"
  let ?sa = "s\<lparr>letters := letters s @ [?l]\<rparr>"
  have oka: "ledger_ok ?sa" by (rule ledger_ok_cong [OF _ _ _ ok]) (simp_all add: find_user_def)
  from run have "send_pay w p d release ?l ?sa = Inr (pay, s2)" by (simp add: sent_run_def)
  then show ?thesis
  proof (cases rule: send_pay_cases)
    case (prepaid u t cs)
    from prepaid(3) have t: "tx_reference_id t = Some (sw_letter_id w) \<and> tx_amount t = - d_required_credits d"
      by (rule deduct_Inr) (simp add: deduct_txn_def send_deduction_def)
    note e = deduct_effect [OF prepaid(3) oka]
    note g = deduct_pays [OF prepaid(3)]
    have a: "getAvailableCredits (sw_now w) k ?sa = getAvailableCredits (sw_now w) k s" by (rule available_cong) simp
    have b: "balance_of k ?sa = balance_of k s" by (rule balance_cong) simp
    show ?thesis
      by (rule that [of cs t u])
        (use e(1,2) [of k] e(3,4,6,7,8) g t a b prepaid(4,5,6) in \<open>simp_all add: send_deduction_def\<close>)
  qed (use kind in \<open>simp_all\<close>)
qed

lemma sent_paid_gift:
  assumes run: "sent_run w p s d sched release pay s2 r s'" and kind: "uses_gift p d"
  obtains g c where "next_gift (sp_user p) (expire_gifts (sw_now w) (sp_user p) s) = Some g"
    "gifts s2 = upd_where (\<lambda>x. g_id x = g_id g) (consume_gift (sw_now w) (sw_letter_id w))
       (gifts (expire_gifts (sw_now w) (sp_user p) s))"
    "ledger s2 = ledger s" "users s2 = users s" "txns s2 = txns s" "consumptions s2 = consumptions s"
    "sr_giftCard r = Some c" "assertGiftSendWithinDailyCap (sw_env w) (sw_now w) s2 = None" "caps_refusal w p s2 = None"
proof -
  let ?l = "new_letter w p d (held_dates sched)"
  let ?sa = "s\<lparr>letters := letters s @ [?l]\<rparr>"
  from run have "send_pay w p d release ?l ?sa = Inr (pay, s2)" by (simp add: sent_run_def)
  then show ?thesis
  proof (cases rule: send_pay_cases)
    case (gift g c s1)
    note e = consume_gift_cases [OF gift(2)]
    have r: "sr_giftCard r = Some c"
      using run gift(6) by (auto simp: sent_run_def send_commit_def sent_result_def split: sum.splits prod.splits)
    have "map letter_counts (letters s2) = map letter_counts (letters s1)"
      by (simp add: gift(7) upd_letter_def letter_counts_def)
    then have alike: "counts_alike s1 s2" by (simp add: counts_alike_def gift(7))
    have caps: "assertGiftSendWithinDailyCap (sw_env w) (sw_now w) s2 = None" "caps_refusal w p s2 = None"
      using gift(3,4) by (simp_all add: caps_refusal_def counts_alike_caps [OF alike])
    from e have "next_gift (sp_user p) (expire_gifts (sw_now w) (sp_user p) s) = Some g"
      "gifts s2 = upd_where (\<lambda>x. g_id x = g_id g) (consume_gift (sw_now w) (sw_letter_id w))
         (gifts (expire_gifts (sw_now w) (sp_user p) s))"
      "ledger s2 = ledger s" "users s2 = users s" "txns s2 = txns s" "consumptions s2 = consumptions s"
      by (simp_all add: gift(7) upd_gift_def)
    from that [OF this r caps] show ?thesis .
  next
    case (jit oid)
    with kind show ?thesis by (simp add: uses_gift_def)
  qed (use kind in simp)
qed

section \<open>What a return finds of a payment\<close>

lemma apply_takes_lot:
  "find_lot k s = Some e \<Longrightarrow> le_status e \<noteq> Lot_revoked \<Longrightarrow>
     \<exists>e'. find_lot k (apply_takes now ts s) = Some e' \<and> le_expires_at e' = le_expires_at e \<and> le_status e' \<noteq> Lot_revoked"
proof (induction ts arbitrary: s e)
  case (Cons x ts)
  obtain y a where x: "x = (y, a)" by (cases x)
  let ?f = "set_remaining now (le_remaining y - a)"
  have "find_lot k (upd_lot (le_id y) ?f s) = Some (if k = le_id y then ?f e else e)"
    using Cons.prems by (cases "k = le_id y") (simp_all add: find_lot_upd)
  moreover have "le_expires_at (if k = le_id y then ?f e else e) = le_expires_at e"
    "le_status (if k = le_id y then ?f e else e) \<noteq> Lot_revoked"
    using Cons.prems(2) by (simp_all add: set_remaining_def)
  ultimately obtain e1 where "find_lot k (upd_lot (le_id y) ?f s) = Some e1" "le_expires_at e1 = le_expires_at e"
    "le_status e1 \<noteq> Lot_revoked" by blast
  from Cons.IH [OF this(1,3)] this(2) show ?case by (simp add: x)
qed simp

text \<open>Transaction ids come from the sequence, so those of the rows there are lie below it.\<close>

definition below_seq :: "db \<Rightarrow> bool" where
  "below_seq s \<longleftrightarrow> (\<forall>t\<in>set (txns s). tx_id t < txn_seq s) \<and> (\<forall>c\<in>set (consumptions s). cc_transaction_id c < txn_seq s)"

lemma map_filter_append: "List.map_filter f (xs @ ys) = List.map_filter f xs @ List.map_filter f ys"
  by (simp add: List.map_filter_def)

lemma map_filter_None: "(\<And>x. x \<in> set xs \<Longrightarrow> f x = None) \<Longrightarrow> List.map_filter f xs = []"
  by (induction xs) (simp_all add: map_filter_simps)

lemma map_filter_Some: "(\<And>x. x \<in> set xs \<Longrightarrow> f (h x) = Some (g x)) \<Longrightarrow> List.map_filter f (map h xs) = map g xs"
  by (induction xs) (simp_all add: map_filter_simps)

lemma deducted_lots:
  assumes run: "deductCreditsFromLedgerWithClient now p s = Inr ((u, t, cs), s')" and ok: "ledger_ok s"
    and seq: "below_seq s" and fresh: "\<forall>x\<in>set (txns s). tx_reference_id x \<noteq> Some (dp_letter p)"
  shows "list_all returnable (consumed_lots (dp_letter p) (dp_user p) s')"
    and "sum_list (map fst (consumed_lots (dp_letter p) (dp_user p) s')) = dp_credits p"
    and "\<And>a lot. (a, lot) \<in> set (consumed_lots (dp_letter p) (dp_user p) s') \<Longrightarrow>
      \<exists>e\<in>set (ledger s). spendable now (dp_user p) e \<and> le_expires_at e = le_expires_at lot"
proof -
  let ?l = "dp_letter p" and ?u = "dp_user p"
  let ?T = "takes (dp_credits p) (consumption_order now ?u s)"
  from run obtain v where t: "t = deduct_txn now p (u_credits u) (txn_seq s)"
    and cs: "cs = map (\<lambda>(e, a). consumption_row (tx_id t) e a) ?T"
    and s': "s' = consumptions_update (\<lambda>xs. xs @ cs)
      (apply_takes now ?T (insert_txn t (upd_user ?u (deduct_balance now (dp_credits p)) s)))"
    by (rule deduct_Inr) blast
  have tx: "txns s' = txns s @ [t]" by (simp add: s' insert_txn_def)
  have tid: "tx_id t = txn_seq s" by (simp add: t deduct_txn_def)
  have old: "consumed_row ?l ?u s' c = None" if "c \<in> set (consumptions s)" for c
  proof -
    have "cc_transaction_id c \<noteq> tx_id t" using that seq tid by (auto simp: below_seq_def)
    then have "find_txn (cc_transaction_id c) s' = find_by tx_id (cc_transaction_id c) (txns s)"
      by (simp add: find_txn_def tx find_by_append split: option.split)
    then show ?thesis using fresh
      by (auto simp: consumed_row_def letter_deduction_def split: option.splits dest: find_by_mem)
  qed
  have new: "find_txn (tx_id t) s' = Some t"
  proof -
    have "find_by tx_id (tx_id t) (txns s) = None" using seq by (auto simp: find_by_None_iff below_seq_def tid)
    then show ?thesis by (simp add: find_txn_def tx find_by_append)
  qed
  have ded: "letter_deduction ?l ?u t" by (simp add: letter_deduction_def t deduct_txn_def)
  have lots: "\<exists>e'. consumed_row ?l ?u s' (consumption_row (tx_id t) e a) = Some (a, e') \<and> returnable (a, e') \<and>
      le_expires_at e' = le_expires_at e" "e \<in> set (ledger s)" "spendable now ?u e"
    if m: "(e, a) \<in> set ?T" for e a
  proof -
    have e: "e \<in> set (ledger s)" "spendable now ?u e"
      using takes_mem [OF m] by (simp_all add: consumption_order_def)
    then have pos: "0 < a"
      using takes_pos [OF m] by (simp add: consumption_order_def spendable_def)
    have "find_lot (le_id e) (insert_txn t (upd_user ?u (deduct_balance now (dp_credits p)) s)) = Some e"
      using ok e(1) by (auto simp: find_lot_def insert_txn_def ledger_ok_def intro: find_by_distinct)
    moreover have "le_status e \<noteq> Lot_revoked" using e(2) by (simp add: spendable_def)
    ultimately obtain e' where e': "find_lot (le_id e) (apply_takes now ?T (insert_txn t (upd_user ?u (deduct_balance now (dp_credits p)) s))) = Some e'"
      "le_expires_at e' = le_expires_at e" "le_status e' \<noteq> Lot_revoked"
      using apply_takes_lot by blast
    then have "find_lot (le_id e) s' = Some e'" by (simp add: s' find_lot_def)
    then show "\<exists>e'. consumed_row ?l ?u s' (consumption_row (tx_id t) e a) = Some (a, e') \<and> returnable (a, e') \<and>
        le_expires_at e' = le_expires_at e"
      using new ded pos e' by (simp add: consumed_row_def consumption_row_def returnable_def)
    show "e \<in> set (ledger s)" "spendable now ?u e" by (fact e)+
  qed
  define g where "g = (\<lambda>(e, a). the (consumed_row ?l ?u s' (consumption_row (tx_id t) e a)))"
  have "consumptions s' = consumptions s @ cs" by (simp add: s' insert_txn_def)
  then have "consumed_lots ?l ?u s' = List.map_filter (consumed_row ?l ?u s') cs"
    using old by (simp add: consumed_lots_def map_filter_append map_filter_None)
  also have "\<dots> = map g ?T"
    unfolding cs by (rule map_filter_Some) (use lots(1) in \<open>force simp: g_def\<close>)
  finally have rows: "consumed_lots ?l ?u s' = map g ?T" .
  have g: "fst (g (e, a)) = a" "returnable (g (e, a))" "le_expires_at (snd (g (e, a))) = le_expires_at e" if "(e, a) \<in> set ?T" for e a
    using lots(1) [OF that] by (auto simp: g_def)
  show "list_all returnable (consumed_lots ?l ?u s')" using g(2) by (auto simp: rows list_all_iff)
  have "map (\<lambda>x. fst (g x)) ?T = map snd ?T" using g(1) by auto
  with deduct_effect(3) [OF run ok] show "sum_list (map fst (consumed_lots ?l ?u s')) = dp_credits p"
    by (simp add: rows cs consumption_row_def comp_def case_prod_beta del: map_eq_conv)
  show "\<exists>e\<in>set (ledger s). spendable now ?u e \<and> le_expires_at e = le_expires_at lot"
    if "(a, lot) \<in> set (consumed_lots ?l ?u s')" for a lot
  proof -
    from that obtain x where x: "x \<in> set ?T" "g x = (a, lot)" by (auto simp: rows)
    obtain e b where "x = (e, b)" by (cases x)
    with x g(3) [of e b] lots(2,3) [of e b] show ?thesis by (metis snd_conv)
  qed
qed

lemma usable_unexpired:
  "list_all returnable rows \<Longrightarrow> (\<And>a lot. (a, lot) \<in> set rows \<Longrightarrow> \<not> lot_expired now lot) \<Longrightarrow>
     usable_amount now rows = sum_list (map fst rows)"
proof (induction rows)
  case (Cons r rows)
  have r: "\<not> lot_expired now (snd r)" using Cons.prems(2) [of "fst r" "snd r"] by simp
  have rest: "list_all returnable rows" "\<And>a lot. (a, lot) \<in> set rows \<Longrightarrow> \<not> lot_expired now lot"
    using Cons.prems by (simp, meson list.set_intros(2))
  from Cons.prems(1) r Cons.IH [OF rest] show ?case by (simp add: amounts_Cons)
qed simp

end
