(* ===== verification/OutboxSystem.thy ===== *)
theory OutboxSystem
  imports ScheduledMailLaws MailSendLaws
begin

text \<open>
  Any number of workers over one store. A worker is between two transactions of
  processClaimedJob, or about to settle a row one of the sweeps of processDueLetterJobs read;
  what it holds is what its last query returned, which may be stale by the time it goes on.
\<close>

datatype worker =
  W_claimed letter_job                           \<comment> \<open>claimed, not yet marked\<close>
| W_marked letter_job letter                     \<comment> \<open>marked as dispatching, about to call the provider\<close>
| W_answered letter_job letter string provider_result
| W_interrupted letter_job                       \<comment> \<open>read by the sweep of stale dispatches\<close>
| W_spent letter_job                             \<comment> \<open>read by the sweep of spent claims\<close>

fun handle :: "worker \<Rightarrow> letter_job" where
  "handle (W_claimed j) = j"
| "handle (W_marked j l) = j"
| "handle (W_answered j l name r) = j"
| "handle (W_interrupted j) = j"
| "handle (W_spent j) = j"

fun past_marker :: "worker \<Rightarrow> bool" where
  "past_marker (W_marked j l) = True"
| "past_marker (W_answered j l name r) = True"
| "past_marker (W_interrupted j) = True"
| "past_marker _ = False"

inductive outbox_step :: "db \<times> worker list \<Rightarrow> db \<times> worker list \<Rightarrow> bool" where
  enqueues: "createLetterJobWithClient env now jid to_iso letterId notBefore s = Inr (j, s') \<Longrightarrow>
    outbox_step (s, ws) (s', ws)"
| sends: "createMailOrderFromDraftWithClient w p s = Inr (res, s') \<Longrightarrow> outbox_step (s, ws) (s', ws)"
| elsewhere: "jobs s' = jobs s \<Longrightarrow> submissions s' = submissions s \<Longrightarrow> outbox_step (s, ws) (s', ws)"
| cancels: "cancelScheduledMail env now js locked letterId uid s = Inr (res, s') \<Longrightarrow> outbox_step (s, ws) (s', ws)"
| claims: "claimJob env now only s = (Some j, s') \<Longrightarrow> outbox_step (s, ws) (s', W_claimed j # ws)"
| marks: "markProviderDispatch now j s = Inr (Marked l, s') \<Longrightarrow>
    outbox_step (s, xs @ W_claimed j # ys) (s', xs @ W_marked j l # ys)"
| leaves: "markProviderDispatch now j s = Inr (Left_for_operator, s') \<Longrightarrow>
    outbox_step (s, xs @ W_claimed j # ys) (s', xs @ ys)"
| fails_early: "failBeforeDispatch env now js draw j e s = Inr (b, s') \<Longrightarrow>
    outbox_step (s, xs @ W_claimed j # ys) (s', xs @ ys)"
| submits: "submitToProvider p l j s = ((r, name), s') \<Longrightarrow>
    outbox_step (s, xs @ W_marked j l # ys) (s', xs @ W_answered j l name r # ys)"
| accepts: "pr_success r \<Longrightarrow> completeJob now j l name r s = Inr s' \<Longrightarrow>
    outbox_step (s, xs @ W_answered j l name r # ys) (s', xs @ ys)"
| recovers: "pr_success r \<Longrightarrow> recoverProviderAcceptancePersistence now j e s = (rec, s') \<Longrightarrow>
    outbox_step (s, xs @ W_answered j l name r # ys) (s', xs @ ys)"
| rejects: "\<not> pr_success r \<Longrightarrow> failOrRescheduleJob env now js j r s = Inr (b, s') \<Longrightarrow>
    outbox_step (s, xs @ W_answered j l name r # ys) (s', xs @ ys)"
| holds: "\<not> pr_success r \<Longrightarrow>
    outbox_step (s, xs @ W_answered j l name r # ys) (holdAmbiguousDispatch now j e s, xs @ ys)"
| finds_interrupted: "j \<in> set (stale_dispatched now limit s) \<Longrightarrow> outbox_step (s, ws) (s, W_interrupted j # ws)"
| holds_interrupted: "outbox_step (s, xs @ W_interrupted j # ys) (holdAmbiguousDispatch now j interrupted_dispatch s, xs @ ys)"
| puts_back_spent: "outbox_step (s, ws) (put_back_spent now s, ws)"
| finds_spent: "j \<in> set (stale_undispatched now limit s) \<Longrightarrow> outbox_step (s, ws) (s, W_spent j # ws)"
| fails_spent: "failBeforeDispatch env now js draw j interrupted_claim s = Inr (b, s') \<Longrightarrow>
    outbox_step (s, xs @ W_spent j # ys) (s', xs @ ys)"
| crashes: "outbox_step (s, xs @ w # ys) (s, xs @ ys)"

text \<open>Reachable from a store without jobs, with nothing sent and no worker.\<close>

definition outbox_reachable :: "db \<times> worker list \<Rightarrow> bool" where
  "outbox_reachable x \<longleftrightarrow> (\<exists>s0. jobs s0 = [] \<and> submissions s0 = [] \<and> rtranclp outbox_step (s0, []) x)"

section \<open>The invariant\<close>

definition dispatched :: "letter_job \<Rightarrow> bool" where
  "dispatched r \<longleftrightarrow> job_state r \<in> {(J_processing, O_dispatching), (J_held, O_ambiguous),
     (J_completed, O_accepted), (J_failed, O_definite_failure)}"

definition jobs_ok :: "db \<Rightarrow> bool" where
  "jobs_ok s \<longleftrightarrow> distinct (map j_id (jobs s)) \<and> distinct (map j_idempotency_key (jobs s)) \<and>
     list_all job_ok (jobs s)"

definition worker_ok :: "db \<Rightarrow> worker \<Rightarrow> bool" where
  "worker_ok s w \<longleftrightarrow> (\<exists>r. find_job (j_id (handle w)) s = Some r \<and> same_job (handle w) r \<and>
     (past_marker w \<longrightarrow> dispatched r))"

text \<open>What may have been sent under a key: the calls made and the workers about to call.\<close>

fun calling :: "string \<Rightarrow> worker \<Rightarrow> bool" where
  "calling k (W_marked j l) = (j_idempotency_key j = k)"
| "calling k _ = False"

definition started :: "string \<Rightarrow> db \<times> worker list \<Rightarrow> nat" where
  "started k x = count_list (submissions (fst x)) k + length (filter (calling k) (snd x))"

definition allowed :: "string \<Rightarrow> db \<Rightarrow> nat" where
  "allowed k s = length (filter (\<lambda>r. j_idempotency_key r = k \<and> j_provider_outcome r \<noteq> O_not_dispatched) (jobs s))"

definition outbox_inv :: "db \<times> worker list \<Rightarrow> bool" where
  "outbox_inv x \<longleftrightarrow> jobs_ok (fst x) \<and> list_all (worker_ok (fst x)) (snd x) \<and>
     (\<forall>k. started k x \<le> allowed k (fst x))"

lemma started_simps [simp]:
  "started k (s, xs @ ys) = started k (s, xs) + length (filter (calling k) ys)"
  "started k (s, w # ws) = started k (s, ws) + (if calling k w then 1 else 0)"
  by (simp_all add: started_def)

lemma started_cong: "submissions s' = submissions s \<Longrightarrow> started k (s', ws) = started k (s, ws)"
  by (simp add: started_def)

section \<open>Stores whose jobs moved along the life cycle\<close>

definition jobs_follow :: "db \<Rightarrow> db \<Rightarrow> bool" where
  "jobs_follow s s' \<longleftrightarrow> list_all2 follows (jobs s) (jobs s') \<and> list_all job_ok (jobs s')"

lemma follow_maps:
  "list_all2 follows xs ys \<Longrightarrow> map j_id ys = map j_id xs \<and> map j_idempotency_key ys = map j_idempotency_key xs"
  by (induction rule: list_all2_induct) (auto simp: follows_def same_job_def)

lemma follow_jobs_ok: "jobs_follow s s' \<Longrightarrow> jobs_ok s \<Longrightarrow> jobs_ok s'"
  using follow_maps by (auto simp: jobs_follow_def jobs_ok_def)

lemma follow_find:
  "list_all2 follows xs ys \<Longrightarrow> find_by j_id k xs = Some r \<Longrightarrow> \<exists>r'. find_by j_id k ys = Some r' \<and> follows r r'"
proof (induction rule: list_all2_induct)
  case (Cons x xs y ys)
  then have "j_id y = j_id x" by (simp add: follows_def same_job_def)
  with Cons show ?case by (auto split: if_splits)
qed simp

lemma dispatched_follows: "dispatched r \<Longrightarrow> follows r r' \<Longrightarrow> dispatched r'"
  by (auto simp: dispatched_def follows_def elim: life.cases)

lemma dispatched_outcome: "dispatched r \<Longrightarrow> j_provider_outcome r \<noteq> O_not_dispatched"
  by (auto simp: dispatched_def job_state_def)

lemma same_job_trans: "same_job a b \<Longrightarrow> same_job b c \<Longrightarrow> same_job a c"
  by (simp add: same_job_def)

lemma same_job_sym: "same_job a b \<Longrightarrow> same_job b a"
  by (simp add: same_job_def)

lemma follow_worker_ok:
  assumes "jobs_follow s s'" and "worker_ok s w"
  shows "worker_ok s' w"
proof -
  from assms(2) obtain r where r: "find_job (j_id (handle w)) s = Some r" "same_job (handle w) r"
    "past_marker w \<longrightarrow> dispatched r" by (auto simp: worker_ok_def)
  from follow_find [of "jobs s" "jobs s'"] assms(1) r(1) obtain r'
    where r': "find_job (j_id (handle w)) s' = Some r'" "follows r r'"
    by (auto simp: jobs_follow_def find_job_def)
  then have "same_job (handle w) r'" using r(2) same_job_trans by (auto simp: follows_def)
  with r' r(3) dispatched_follows show ?thesis by (auto simp: worker_ok_def)
qed

lemma follow_allowed: "list_all2 follows (jobs s) (jobs s') \<Longrightarrow> allowed k s \<le> allowed k s'"
  unfolding allowed_def
proof (induction "jobs s" "jobs s'" arbitrary: s s' rule: list_all2_induct)
  case Nil
  then show ?case by simp
next
  case (Cons x xs y ys)
  have "length (filter (\<lambda>r. j_idempotency_key r = k \<and> j_provider_outcome r \<noteq> O_not_dispatched) xs)
     \<le> length (filter (\<lambda>r. j_idempotency_key r = k \<and> j_provider_outcome r \<noteq> O_not_dispatched) ys)"
    using Cons(3) [of "s\<lparr>jobs := xs\<rparr>" "s'\<lparr>jobs := ys\<rparr>"] Cons(2) by simp
  moreover have "j_idempotency_key y = j_idempotency_key x" using Cons(1) by (simp add: follows_def same_job_def)
  ultimately show ?case
    using Cons(1) follows_dispatched [of x y] by (simp flip: Cons(4,5))
qed

text \<open>The general preservation: the jobs followed, nobody new is about to call, nothing more was sent.\<close>

definition step_ok :: "db \<Rightarrow> db \<times> worker list \<Rightarrow> bool" where
  "step_ok s y \<longleftrightarrow> outbox_inv y \<and> list_all2 follows (jobs s) (jobs (fst y))"

lemma inv_follow:
  assumes "outbox_inv (s, ws)" and "jobs_follow s s'" and "\<And>k. started k (s', ws') \<le> started k (s, ws)"
    and "\<And>w. w \<in> set ws' \<Longrightarrow> w \<in> set ws \<or> worker_ok s' w"
  shows "step_ok s (s', ws')"
proof -
  have "jobs_ok s'" by (rule follow_jobs_ok [OF assms(2)]) (use assms(1) in \<open>simp add: outbox_inv_def\<close>)
  moreover have "list_all (worker_ok s') ws'"
    unfolding list_all_iff
  proof
    fix w assume "w \<in> set ws'"
    with assms(4) consider "w \<in> set ws" | "worker_ok s' w" by blast
    then show "worker_ok s' w"
    proof cases
      case 1
      with assms(1) have "worker_ok s w" by (simp add: outbox_inv_def list_all_iff)
      with assms(2) show ?thesis by (rule follow_worker_ok)
    qed
  qed
  moreover have "started k (s', ws') \<le> allowed k s'" for k
    using assms(1) assms(3) [of k] follow_allowed [of s s' k] assms(2)
    by (auto simp: outbox_inv_def jobs_follow_def intro: le_trans)
  ultimately show ?thesis using assms(2) by (simp add: step_ok_def outbox_inv_def jobs_follow_def)
qed

lemma jobs_follow_same: "jobs s' = jobs s \<Longrightarrow> jobs_ok s \<Longrightarrow> jobs_follow s s'"
  by (auto simp: jobs_follow_def jobs_ok_def intro: list_all2_refl)

lemma written_follows:
  assumes "jobs_ok s" and "find_job jid s = Some r" and "job_written jid f s s'"
    and "follows r (f r) \<and> job_ok (f r)"
  shows "jobs_follow s s'"
proof -
  have d: "distinct (map j_id (jobs s))" and ok: "list_all job_ok (jobs s)"
    using assms(1) by (simp_all add: jobs_ok_def)
  have u: "x = r" if "x \<in> set (jobs s)" "j_id x = jid" for x
    using find_by_distinct [OF d that(1)] that(2) assms(2) by (simp add: find_job_def)
  have "list_all2 follows (jobs s) (jobs s')"
    using list_all2_upd_key [OF d, of jid r follows f] assms(2-4) by (simp add: find_job_def job_written_def)
  moreover have "list_all job_ok (jobs s')"
    using list_all_upd_where [OF ok, of "\<lambda>r. j_id r = jid" f] u assms(3,4) by (auto simp: job_written_def)
  ultimately show ?thesis by (simp add: jobs_follow_def)
qed

lemma written_sent: "job_written jid f s s' \<Longrightarrow> started k (s', ws) = started k (s, ws)"
  by (rule started_cong) (simp add: job_written_def)

lemma find_job_ok: "jobs_ok s \<Longrightarrow> find_job k s = Some r \<Longrightarrow> job_ok r"
  unfolding find_job_def jobs_ok_def using find_by_mem [of j_id k "jobs s" r] by (auto simp: list_all_iff)

section \<open>Every step keeps the invariant\<close>

lemma inv_jobs_ok: "outbox_inv (s, ws) \<Longrightarrow> jobs_ok s"
  by (simp add: outbox_inv_def)

lemma inv_worker:
  assumes "outbox_inv (s, xs @ w # ys)"
  obtains r where "find_job (j_id (handle w)) s = Some r" "same_job (handle w) r"
    "past_marker w \<Longrightarrow> dispatched r" "job_ok r"
proof -
  from assms have "worker_ok s w" and ok: "jobs_ok s" by (simp_all add: outbox_inv_def)
  then obtain r where r: "find_job (j_id (handle w)) s = Some r" "same_job (handle w) r"
    "past_marker w \<longrightarrow> dispatched r" by (auto simp: worker_ok_def)
  with find_job_ok [OF ok r(1)] that show ?thesis by blast
qed

text \<open>A worker that leaves, having rewritten its row or nothing.\<close>

lemma leave_keeps:
  assumes "outbox_inv (s, xs @ w # ys)" and "jobs_follow s s'" and "submissions s' = submissions s"
  shows "step_ok s (s', xs @ ys)"
  by (rule inv_follow [OF assms(1,2)]) (use assms(3) in \<open>auto simp: started_cong [of s' s]\<close>)

lemma leave_written:
  assumes "outbox_inv (s, xs @ w # ys)" and "find_job jid s = Some r" and "job_written jid f s s'"
    and "follows r (f r) \<and> job_ok (f r)"
  shows "step_ok s (s', xs @ ys)"
  by (rule leave_keeps [OF assms(1) written_follows [OF inv_jobs_ok [OF assms(1)] assms(2-4)]])
    (use assms(3) in \<open>simp add: job_written_def\<close>)

lemma leave_same: "outbox_inv (s, xs @ w # ys) \<Longrightarrow> step_ok s (s, xs @ ys)"
  by (rule leave_keeps [OF _ jobs_follow_same [OF refl]]) (auto dest: inv_jobs_ok)

lemma dispatched_hold:
  assumes "dispatched r" and "job_ok r"
  shows "follows r (hold_row t c r) \<and> job_ok (hold_row t c r)"
  by (rule hold_follows) (use assms in \<open>auto simp: dispatched_def job_state_def\<close>)

lemma hold_keeps:
  assumes inv: "outbox_inv (s, xs @ w # ys)" and "past_marker w"
  shows "step_ok s (holdAmbiguousDispatch now (handle w) e s, xs @ ys)"
proof -
  from inv_worker [OF inv] obtain r where r: "find_job (j_id (handle w)) s = Some r" "dispatched r" "job_ok r"
    using assms(2) by metis
  obtain c where "job_written (j_id (handle w)) (hold_row now c) s (holdAmbiguousDispatch now (handle w) e s)"
    using hold_written by blast
  from leave_written [OF inv r(1) this dispatched_hold [OF r(2,3)]] show ?thesis .
qed

lemma early_keeps:
  assumes inv: "outbox_inv (s, xs @ w # ys)" and run: "failBeforeDispatch env now js draw (handle w) e s = Inr (b, s')"
  shows "step_ok s (s', xs @ ys)"
  using run
proof (cases rule: fail_before_cases)
  case superseded
  with inv show ?thesis by (auto intro: leave_same)
next
  case (put_back r c)
  have "job_written (j_id (handle w)) (undispatched_put_back now c) s s'" by (simp add: put_back(4))
  moreover have "job_ok r" by (rule find_job_ok [OF inv_jobs_ok [OF inv] put_back(1)])
  ultimately show ?thesis
    using leave_written [OF inv put_back(1)] put_back_follows(2) put_back(2) by (auto simp: holds_claim_def)
next
  case (settled r c n oid)
  from inv obtain r' where "find_job (j_id (handle w)) s = Some r'" "same_job (handle w) r'" "job_ok r'"
    by (rule inv_worker)
  with settled(1) have r: "same_job (handle w) r" "job_ok r" by simp_all
  have "b \<longleftrightarrow> j_attempts r < j_max_attempts r"
    using settled(2,4) r(1) by (simp add: holds_claim_def same_job_def)
  with settled(2) have "follows r (undispatched_row now b n c r) \<and> job_ok (undispatched_row now b n c r)"
    by (intro undispatched_follows r(2)) (simp_all add: holds_claim_def)
  with leave_written [OF inv settled(1,5)] show ?thesis by blast
qed

lemma accept_keeps:
  assumes inv: "outbox_inv (s, xs @ w # ys)" and run: "completeJob now (handle w) l name r s = Inr s'"
  shows "step_ok s (s', xs @ ys)"
  using run
proof (cases rule: complete_cases)
  case 1
  with inv show ?thesis by (auto intro: leave_same)
next
  case (2 current locked)
  show ?thesis
    by (rule leave_written [OF inv 2(1,7) complete_follows [OF 2(2) find_job_ok [OF inv_jobs_ok [OF inv] 2(1)]]])
qed

lemma reject_keeps:
  assumes inv: "outbox_inv (s, xs @ w # ys)" and "past_marker w"
    and run: "failOrRescheduleJob env now js (handle w) r s = Inr (b, s')"
  shows "step_ok s (s', xs @ ys)"
  using run
proof (cases rule: fail_cases)
  case (held e)
  with hold_keeps [OF inv assms(2)] show ?thesis by simp
next
  case superseded
  with inv show ?thesis by (auto intro: leave_same)
next
  case (failed current oid)
  show ?thesis
    by (rule leave_written [OF inv failed(2,7)
          fail_follows [OF failed(3,4) find_job_ok [OF inv_jobs_ok [OF inv] failed(2)]]])
qed

lemma recover_keeps:
  assumes inv: "outbox_inv (s, xs @ w # ys)" and "past_marker w"
    and "recoverProviderAcceptancePersistence now (handle w) e s = (rec, s')"
  shows "step_ok s (s', xs @ ys)"
  using assms leave_same [OF inv] hold_keeps [OF inv assms(2)]
  by (auto simp: recoverProviderAcceptancePersistence_def split: if_splits)

lemma claim_keeps:
  assumes inv: "outbox_inv (s, ws)" and "claimJob env now only s = (Some j, s')"
  shows "step_ok s (s', W_claimed j # ws)"
  using assms(2)
proof (cases rule: claim_cases)
  case (1 r)
  have ok: "jobs_ok s" by (rule inv_jobs_ok [OF inv])
  have f: "find_job (j_id r) s = Some r"
    using find_by_distinct [OF _ 1(1), of j_id] ok by (simp add: find_job_def jobs_ok_def)
  then have "job_ok r" by (rule find_job_ok [OF ok])
  with 1(2) have "follows r (claim_row now r) \<and> job_ok (claim_row now r)" by (rule claim_follows)
  then have jf: "jobs_follow s s'" by (rule written_follows [OF ok f 1(4)])
  have "find_job (j_id r) s' = Some j"
    using 1(3,4) f find_by_upd_where [of "\<lambda>x. j_id x = j_id r" j_id "claim_row now" "j_id r" "jobs s"]
      find_by_key [of j_id "j_id r" "jobs s" r]
    by (simp add: find_job_def job_written_def)
  then have w: "worker_ok s' (W_claimed j)" using 1(3) by (simp add: worker_ok_def same_job_def)
  show ?thesis
    by (rule inv_follow [OF inv jf]) (use w written_sent [OF 1(4)] in auto)
qed

text \<open>The marker: the row becomes dispatched and allows the one call its worker now makes.\<close>

lemma length_filter_upd_key:
  assumes "distinct (map key rows)" and "find_by key k rows = Some r" and "\<not> P r" and "P (f r)"
  shows "length (filter P (upd_where (\<lambda>x. key x = k) f rows)) = Suc (length (filter P rows))"
  using assms
proof (induction rows)
  case (Cons x rows)
  show ?case
  proof (cases "key x = k")
    case True
    with Cons.prems(1) have "upd_where (\<lambda>x. key x = k) f rows = rows"
      by (intro upd_where_none) (auto simp: image_iff)
    with True Cons.prems show ?thesis by simp
  qed (use Cons in simp)
qed simp

lemma mark_keeps:
  assumes inv: "outbox_inv (s, xs @ W_claimed j # ys)" and run: "markProviderDispatch now j s = Inr (Marked l, s')"
  shows "step_ok s (s', xs @ W_marked j l # ys)"
  using run
proof (cases rule: mark_cases)
  case (2 current l')
  have ok: "jobs_ok s" by (rule inv_jobs_ok [OF inv])
  have jok: "job_ok current" by (rule find_job_ok [OF ok 2(1)])
  have st: "j_status current = J_processing" "j_provider_outcome current = O_not_dispatched"
    using 2(3) by (simp_all add: dispatchable_def)
  from inv obtain r where "find_job (j_id (handle (W_claimed j))) s = Some r" "same_job (handle (W_claimed j)) r"
    by (rule inv_worker)
  with 2(1) have same: "same_job j current" by simp
  have jf: "jobs_follow s s'"
    by (rule written_follows [OF ok 2(1,5) mark_follows [OF st jok]])
  have d: "distinct (map j_id (jobs s))" using ok by (simp add: jobs_ok_def)
  have key: "j_id current = j_id j" by (rule find_job_key [OF 2(1)])
  have f': "find_job (j_id j) s' = Some (mark_row now current)"
    using 2(1,5) find_by_upd_where [of "\<lambda>x. j_id x = j_id j" j_id "mark_row now" "j_id j" "jobs s"] key
    by (simp add: find_job_def job_written_def)
  have w: "worker_ok s' (W_marked j l)"
    using f' same same_job_trans [OF same row_same_job(3)] st by (simp add: worker_ok_def dispatched_def)
  have mono: "allowed k s \<le> allowed k s'" for k
    using jf follow_allowed by (simp add: jobs_follow_def)
  have more: "allowed (j_idempotency_key j) s' = Suc (allowed (j_idempotency_key j) s)"
  proof -
    have "j_idempotency_key (mark_row now current) = j_idempotency_key j"
      using same by (simp add: same_job_def mark_row_def)
    moreover have "j_provider_outcome (mark_row now current) \<noteq> O_not_dispatched" by (simp add: mark_row_def)
    ultimately show ?thesis
      using length_filter_upd_key [OF d, of "j_id j" current
          "\<lambda>r. j_idempotency_key r = j_idempotency_key j \<and> j_provider_outcome r \<noteq> O_not_dispatched" "mark_row now"]
        2(1,5) st by (simp add: allowed_def job_written_def find_job_def)
  qed
  have sent: "started k (s', zs) = started k (s, zs)" for k zs by (rule written_sent [OF 2(5)])
  have "started k (s', xs @ W_marked j l # ys) \<le> allowed k s'" for k
  proof -
    have "started k (s, xs @ W_claimed j # ys) \<le> allowed k s" using inv by (simp add: outbox_inv_def)
    then show ?thesis using sent [of k xs] mono [of k] more by (cases "j_idempotency_key j = k") auto
  qed
  moreover have "list_all (worker_ok s') (xs @ ys)"
    using inv follow_worker_ok [OF jf] by (auto simp: outbox_inv_def list_all_iff)
  ultimately show ?thesis
    using follow_jobs_ok [OF jf ok] w jf by (simp add: step_ok_def outbox_inv_def jobs_follow_def)
qed simp

lemma submit_effect:
  assumes "submitToProvider p l j s = ((r, name), s')"
  shows "s' = s \<or> s' = s\<lparr>submissions := submissions s @ [j_idempotency_key j]\<rparr>"
  using assms by (auto simp: submitToProvider_def Let_def split: option.splits if_splits)

lemma submit_keeps:
  assumes inv: "outbox_inv (s, xs @ W_marked j l # ys)" and run: "submitToProvider p l j s = ((r, name), s')"
  shows "step_ok s (s', xs @ W_answered j l name r # ys)"
proof (rule inv_follow [OF inv])
  have js: "jobs s' = jobs s" using submit_effect [OF run] by auto
  then show "jobs_follow s s'" by (rule jobs_follow_same [OF _ inv_jobs_ok [OF inv]])
  show "started k (s', xs @ W_answered j l name r # ys) \<le> started k (s, xs @ W_marked j l # ys)" for k
    using submit_effect [OF run] by (auto simp: started_def)
  have "worker_ok s (W_marked j l)" using inv by (simp add: outbox_inv_def)
  then have "worker_ok s' (W_answered j l name r)" using js by (simp add: worker_ok_def find_job_def)
  then show "w \<in> set (xs @ W_marked j l # ys) \<or> worker_ok s' w" if "w \<in> set (xs @ W_answered j l name r # ys)" for w
    using that by auto
qed

text \<open>The sweep that puts back, the sweep that reads, and a new job.\<close>

lemma list_all2_upd_where:
  assumes "\<And>x. R x x" and "\<And>x. x \<in> set rows \<Longrightarrow> P x \<Longrightarrow> R x (f x)"
  shows "list_all2 R rows (upd_where P f rows)"
  using assms(2) by (induction rows) (auto simp: assms(1))

lemma put_back_spent_follows: "jobs_ok s \<Longrightarrow> jobs_follow s (put_back_spent now s)"
proof -
  assume "jobs_ok s"
  then have ok: "list_all job_ok (jobs s)" by (simp add: jobs_ok_def)
  have f: "follows r (put_back now r) \<and> job_ok (put_back now r)"
    if "r \<in> set (jobs s)" "spent_claim now r \<and> leftForOperator s r" for r
    by (rule put_back_follows(1)) (use that ok in \<open>auto simp: spent_claim_def list_all_iff\<close>)
  have "list_all2 follows (jobs s) (jobs (put_back_spent now s))"
    unfolding put_back_spent_def using f by (auto intro: list_all2_upd_where)
  moreover have "list_all job_ok (jobs (put_back_spent now s))"
    using list_all_upd_where [OF ok] f by (simp add: put_back_spent_def)
  ultimately show ?thesis by (simp add: jobs_follow_def)
qed

lemma worker_in_table:
  assumes "jobs_ok s" and "j \<in> set (jobs s)" and "handle w = j" and "past_marker w \<Longrightarrow> dispatched j"
  shows "worker_ok s w"
proof -
  have "find_job (j_id j) s = Some j"
    using find_by_distinct [OF _ assms(2), of j_id] assms(1) by (simp add: find_job_def jobs_ok_def)
  with assms(3,4) show ?thesis by (simp add: worker_ok_def same_job_def)
qed

lemma stale_dispatched_row: "j \<in> set (stale_dispatched now n s) \<Longrightarrow> j \<in> set (jobs s) \<and> dispatched j"
  by (auto simp: stale_dispatched_def dispatched_def job_state_def dest: in_set_takeD)

lemma stale_undispatched_row: "j \<in> set (stale_undispatched now n s) \<Longrightarrow> j \<in> set (jobs s)"
  by (auto simp: stale_undispatched_def dest: in_set_takeD)

lemma sweep_keeps:
  assumes inv: "outbox_inv (s, ws)" and "worker_ok s w" and "\<And>k. \<not> calling k w"
  shows "step_ok s (s, w # ws)"
  by (rule inv_follow [OF inv jobs_follow_same [OF refl inv_jobs_ok [OF inv]]]) (use assms in auto)

lemma enqueue_cases:
  assumes "createLetterJobWithClient env now jid to_iso l nb s = Inr (j, s')"
  obtains (exists) "jobs s' = upd_where (\<lambda>r. j_letter r = l) (\<lambda>r. r\<lparr>j_updated_at := now\<rparr>) (jobs s)"
      "submissions s' = submissions s"
  | (fresh) "jobs s' = jobs s @ [new_job env now jid to_iso l nb]" "submissions s' = submissions s"
      "jid \<notin> j_id ` set (jobs s)" "l \<notin> j_idempotency_key ` set (jobs s)" "j = new_job env now jid to_iso l nb"
proof (cases "List.find (\<lambda>r. j_letter r = l) (jobs s)")
  case (Some r)
  with assms show ?thesis
    by (intro exists) (auto simp: createLetterJobWithClient_def Let_def)
next
  case None
  with assms have k: "\<not> list_ex (\<lambda>r. j_id r = jid) (jobs s)" "\<not> list_ex (\<lambda>r. j_idempotency_key r = l) (jobs s)"
    by (simp_all add: createLetterJobWithClient_def Let_def split: if_splits)
  with None assms show ?thesis
    by (intro fresh) (auto simp: createLetterJobWithClient_def Let_def list_ex_iff)
qed

lemma new_job_ok:
  "job_ok (new_job env now jid to_iso l nb)" "j_id (new_job env now jid to_iso l nb) = jid"
  "j_idempotency_key (new_job env now jid to_iso l nb) = l"
  "job_state (new_job env now jid to_iso l nb) = (J_pending, O_not_dispatched)"
  by (simp_all add: new_job_def job_ok_def outcome_state_ok_def job_state_def Let_def)

lemma touch_follows: "follows r (r\<lparr>j_updated_at := now\<rparr>)" "job_ok (r\<lparr>j_updated_at := now\<rparr>) = job_ok r"
  by (simp_all add: follows_def same_job_def job_state_def job_ok_def outcome_state_ok_def split: job_status.split)

text \<open>A step's effect on the store's jobs: what there was follows, what is new waits.\<close>

definition jobs_grow :: "db \<Rightarrow> db \<Rightarrow> bool" where
  "jobs_grow s s' \<longleftrightarrow> (\<exists>js new. jobs s' = js @ new \<and> list_all2 follows (jobs s) js \<and>
     list_all (\<lambda>j. job_state j = (J_pending, O_not_dispatched)) new)"

lemma follow_grow: "list_all2 follows (jobs s) (jobs s') \<Longrightarrow> jobs_grow s s'"
  unfolding jobs_grow_def by (intro exI [of _ "jobs s'"] exI [of _ "[]"]) simp

lemma enqueue_keeps:
  assumes inv: "outbox_inv (s, ws)" and run: "createLetterJobWithClient env now jid to_iso l nb s = Inr (j, s')"
  shows "outbox_inv (s', ws) \<and> jobs_grow s s'"
  using run
proof (cases rule: enqueue_cases)
  case exists
  have "list_all job_ok (jobs s)" using inv by (simp add: outbox_inv_def jobs_ok_def)
  then have "jobs_follow s s'"
    using exists(1) list_all_upd_where [of job_ok "jobs s"] touch_follows
    by (auto simp: jobs_follow_def intro!: list_all2_upd_where)
  then have "step_ok s (s', ws)"
    by (rule inv_follow [OF inv]) (use exists(2) in \<open>simp_all add: started_cong [of s' s]\<close>)
  then show ?thesis by (auto simp: step_ok_def intro: follow_grow)
next
  case fresh
  have "jobs_ok s'" using inv_jobs_ok [OF inv] fresh new_job_ok by (auto simp: jobs_ok_def)
  moreover have "worker_ok s' w" if "worker_ok s w" for w
    using that by (auto simp: worker_ok_def find_job_def fresh(1) find_by_append)
  moreover have "allowed k s \<le> allowed k s'" for k by (simp add: allowed_def fresh(1))
  moreover have "started k (s', ws) = started k (s, ws)" for k by (rule started_cong [OF fresh(2)])
  ultimately have "outbox_inv (s', ws)"
    using inv unfolding outbox_inv_def list_all_iff fst_conv snd_conv by (metis le_trans)
  moreover have "list_all2 follows (jobs s) (jobs s)" by (simp add: list_all2_refl)
  ultimately show ?thesis using fresh(1) new_job_ok(4) unfolding jobs_grow_def by (intro conjI exI) auto
qed

text \<open>The customer's cancel of held mail, beside the workers.\<close>

lemma cancel_keeps:
  assumes inv: "outbox_inv (s, ws)" and run: "cancelScheduledMail env now js locked letterId uid s = Inr (r, s')"
  shows "step_ok s (s', ws)"
proof -
  have same: "step_ok s (s, ws)"
    by (rule inv_follow [OF inv jobs_follow_same [OF refl inv_jobs_ok [OF inv]]]) auto
  from run have "s' = s \<or> cancelScheduledMailWithClient env now js letterId uid s = Inr (r, s')"
    by (auto simp: cancelScheduledMail_def split: if_splits)
  then show ?thesis
  proof
    assume "s' = s"
    with same show ?thesis by simp
  next
    assume "cancelScheduledMailWithClient env now js letterId uid s = Inr (r, s')"
    then show ?thesis
    proof (cases rule: cancel_cases)
      case kept
      with same show ?thesis by simp
    next
      case (gone l j m)
      then have j: "j \<in> set (jobs s)" by (auto simp: cancels_held_def dest: find_jobD)
      with inv_jobs_ok [OF inv] have f: "find_job (j_id j) s = Some j" and ok: "job_ok j"
        by (auto simp: find_job_def jobs_ok_def list_all_iff intro: find_by_distinct)
      have w: "job_written (j_id j) (cancel_job_row now) s s'"
        using gone(8) by (simp add: job_written_def pays_only_def)
      show ?thesis
        by (rule inv_follow [OF inv written_follows [OF inv_jobs_ok [OF inv] f w cancel_follows [OF gone(1) ok]]])
          (simp_all add: written_sent [OF w])
    qed
  qed
qed

text \<open>The workers' world is the jobs and what was sent: the rest of the store may change under it.\<close>

definition same_world :: "db \<Rightarrow> db \<Rightarrow> bool" where
  "same_world s s' \<longleftrightarrow> jobs s' = jobs s \<and> submissions s' = submissions s"

lemma same_world_inv: "same_world s s' \<Longrightarrow> outbox_inv (s, ws) = outbox_inv (s', ws)"
proof -
  assume same: "same_world s s'"
  then have "worker_ok s = worker_ok s'" by (auto simp: same_world_def worker_ok_def find_job_def fun_eq_iff)
  with same show ?thesis by (simp add: same_world_def outbox_inv_def jobs_ok_def started_def allowed_def)
qed

definition enqueued :: "db \<times> worker list \<Rightarrow> db \<times> worker list \<Rightarrow> bool" where
  "enqueued x y \<longleftrightarrow> (\<exists>env now jid to_iso letterId notBefore j s1 s2. same_world (fst x) s1 \<and>
     createLetterJobWithClient env now jid to_iso letterId notBefore s1 = Inr (j, s2) \<and>
     same_world s2 (fst y)) \<and> snd y = snd x"

lemma enqueued_keeps: "enqueued x y \<Longrightarrow> outbox_inv x \<Longrightarrow> outbox_inv y \<and> jobs_grow (fst x) (fst y)"
proof -
  assume e: "enqueued x y" and inv: "outbox_inv x"
  from e obtain env now jid to_iso l nb j s1 s2 where m: "same_world (fst x) s1"
      "createLetterJobWithClient env now jid to_iso l nb s1 = Inr (j, s2)" "same_world s2 (fst y)" "snd y = snd x"
    by (auto simp: enqueued_def)
  from same_world_inv [OF m(1)] inv have "outbox_inv (s1, snd x)" by (cases x) auto
  from enqueue_keeps [OF this m(2)] same_world_inv [OF m(3)] m(1,3,4) show ?thesis
    by (cases y) (auto simp: jobs_grow_def same_world_def)
qed

text \<open>A send is, to the workers, one more job; a draft sent again is nothing.\<close>

lemma send_enqueues:
  assumes "createMailOrderFromDraftWithClient w p s = Inr (r, s')"
  shows "same_world s s' \<or> enqueued (s, ws) (s', ws)"
  using assms
proof (cases rule: send_cases)
  case (replayed d)
  then have "\<exists>lid. s' = converge_order w (sp_funding p) lid s"
    by (auto simp: send_replay_def split: option.splits if_splits)
  then show ?thesis by (cases "sp_funding p") (auto simp: same_world_def)
next
  case (sent d sched release pay s2)
  let ?l = "new_letter w p d (held_dates sched)"
  from sent(2) have f: "find_letter (lt_id ?l) (s\<lparr>letters := letters s @ [?l]\<rparr>) = Some ?l"
    using inserted_found [of ?l s] by (simp add: sent_run_def)
  obtain credits gc l where pay: "pay = (credits, gc, l)" by (cases pay)
  from sent(2) have "send_pay w p d release ?l (s\<lparr>letters := letters s @ [?l]\<rparr>) = Inr ((credits, gc, l), s2)"
    by (simp add: sent_run_def pay)
  from send_pay_mail [OF this f] have a: "same_world s (upd_draft (sp_draft p) (consume_draft (sw_now w) (sw_letter_id w)) s2)"
    by (simp add: same_world_def)
  from sent(2) obtain j s4 where job: "createLetterJobWithClient (sw_env w) (sw_now w) (sw_job_id w) (sw_to_iso w) (sw_letter_id w)
        release (upd_draft (sp_draft p) (consume_draft (sw_now w) (sw_letter_id w)) s2) = Inr (j, s4)"
    and s': "s' = move_order w (sp_funding p) (recordHeldPrintWithClient w l release s4)"
    by (auto simp: sent_run_def send_commit_def pay split: sum.splits prod.splits)
  have "same_world s4 s'" by (simp add: s' same_world_def)
  with a job show ?thesis unfolding enqueued_def fst_conv snd_conv by blast
qed

lemma step_cases: "outbox_step x y \<Longrightarrow> outbox_inv x \<Longrightarrow> step_ok (fst x) y \<or> enqueued x y"
proof (induction rule: outbox_step.induct)
  case (enqueues env now jid to_iso letterId notBefore s j s' ws)
  then show ?case unfolding enqueued_def fst_conv snd_conv same_world_def by blast
next
  case (sends w p s res s' ws)
  from send_enqueues [OF sends(1), of ws] show ?case
  proof
    assume w: "same_world s s'"
    have "jobs_follow s s'" using w inv_jobs_ok [OF sends(2)] by (intro jobs_follow_same) (simp_all add: same_world_def)
    then have "step_ok s (s', ws)"
      by (rule inv_follow [OF sends(2)]) (use w in \<open>simp_all add: same_world_def started_cong [of s' s]\<close>)
    then show ?thesis by simp
  qed simp
next
  case (elsewhere s' s ws)
  have "jobs_ok s" using elsewhere(3) by (rule inv_jobs_ok)
  with elsewhere(1) have "jobs_follow s s'" by (rule jobs_follow_same)
  then have "step_ok s (s', ws)"
    by (rule inv_follow [OF elsewhere(3)]) (use elsewhere(2) in \<open>simp_all add: started_cong [of s' s]\<close>)
  then show ?case by simp
next
  case (cancels env now js locked letterId uid s res s' ws)
  then show ?case using cancel_keeps by simp
next
  case (leaves now j s s' xs ys)
  from leaves(1) obtain current l where c: "find_job (j_id j) s = Some current" "dispatchable j current l"
      "job_written (j_id j) (put_back now) s s'"
    by (rule mark_cases) auto
  have "job_ok current" by (rule find_job_ok [OF inv_jobs_ok [OF leaves(2)] c(1)])
  then have "follows current (put_back now current) \<and> job_ok (put_back now current)"
    using c(2) by (intro put_back_follows(1)) (auto simp: dispatchable_def)
  with leave_written [OF leaves(2) c(1,3)] show ?case by auto
next
  case (fails_early env now js draw j e s b s' xs ys)
  then show ?case using early_keeps [of s xs "W_claimed j"] by simp
next
  case (accepts r now j l name s s' xs ys)
  then show ?case using accept_keeps [of s xs "W_answered j l name r"] by simp
next
  case (recovers r now j e s rec s' xs l name ys)
  then show ?case using recover_keeps [of s xs "W_answered j l name r"] by simp
next
  case (rejects r env now js j s b s' xs l name ys)
  then show ?case using reject_keeps [of s xs "W_answered j l name r"] by simp
next
  case (holds r s xs j l name ys now e)
  then show ?case using hold_keeps [of s xs "W_answered j l name r"] by simp
next
  case (finds_interrupted j now limit s ws)
  from stale_dispatched_row [OF finds_interrupted(1)] have "worker_ok s (W_interrupted j)"
    by (auto intro: worker_in_table [OF inv_jobs_ok [OF finds_interrupted(2)]])
  with sweep_keeps [OF finds_interrupted(2)] show ?case by simp
next
  case (holds_interrupted s xs j ys now)
  then show ?case using hold_keeps [of s xs "W_interrupted j"] by simp
next
  case (puts_back_spent s ws now)
  have "step_ok s (put_back_spent now s, ws)"
    by (rule inv_follow [OF puts_back_spent put_back_spent_follows [OF inv_jobs_ok [OF puts_back_spent]]])
      (simp_all add: started_def put_back_spent_def)
  then show ?case by simp
next
  case (finds_spent j now limit s ws)
  from stale_undispatched_row [OF finds_spent(1)] have "worker_ok s (W_spent j)"
    by (auto intro: worker_in_table [OF inv_jobs_ok [OF finds_spent(2)]])
  with sweep_keeps [OF finds_spent(2)] show ?case by simp
next
  case (fails_spent env now js draw j s b s' xs ys)
  then show ?case using early_keeps [of s xs "W_spent j"] by simp
qed (simp_all add: claim_keeps mark_keeps submit_keeps leave_same)

lemma step_effect: "outbox_step x y \<Longrightarrow> outbox_inv x \<Longrightarrow> outbox_inv y \<and> jobs_grow (fst x) (fst y)"
proof (drule (1) step_cases, erule disjE)
  assume "step_ok (fst x) y"
  then show ?thesis by (auto simp: step_ok_def intro: follow_grow)
next
  assume "enqueued x y" and "outbox_inv x"
  then show ?thesis
    using enqueued_keeps by blast
qed

interpretation outbox_run: kept_by_steps outbox_step outbox_inv
  by unfold_locales (simp add: step_effect)

lemma outbox_reachable_inv:
  assumes "outbox_reachable x"
  shows "outbox_inv x"
proof -
  from assms obtain s0 where "jobs s0 = []" "submissions s0 = []" and r: "rtranclp outbox_step (s0, []) x"
    by (auto simp: outbox_reachable_def)
  then have "outbox_inv (s0, [])" by (simp add: outbox_inv_def jobs_ok_def started_def allowed_def)
  with outbox_run.run_keeps [OF r] show ?thesis by blast
qed

end
