(* ===== verification/OutboxProps.thy ===== *)
theory OutboxProps
  imports OutboxSystem
begin

text \<open>
  The properties of the outbox: the sequential runs of the code are interleavings of its
  transactions, and what holds in every interleaving.
\<close>

section \<open>The runs of the code are runs of the step relation\<close>

text \<open>The steps of the only worker in front.\<close>

lemmas marks_first = outbox_step.marks [where xs = "[]", unfolded append_Nil]
lemmas leaves_first = outbox_step.leaves [where xs = "[]", unfolded append_Nil]
lemmas fails_early_first = outbox_step.fails_early [where xs = "[]", unfolded append_Nil]
lemmas submits_first = outbox_step.submits [where xs = "[]", unfolded append_Nil]
lemmas accepts_first = outbox_step.accepts [where xs = "[]", unfolded append_Nil]
lemmas recovers_first = outbox_step.recovers [where xs = "[]", unfolded append_Nil]
lemmas rejects_first = outbox_step.rejects [where xs = "[]", unfolded append_Nil]
lemmas holds_first = outbox_step.holds [where xs = "[]", unfolded append_Nil]
lemmas holds_interrupted_first = outbox_step.holds_interrupted [where xs = "[]", unfolded append_Nil]
lemmas fails_spent_first = outbox_step.fails_spent [where xs = "[]", unfolded append_Nil]
lemmas crashes_first = outbox_step.crashes [where xs = "[]", unfolded append_Nil]

lemma then_step: "outbox_step x y \<Longrightarrow> rtranclp outbox_step y z \<Longrightarrow> rtranclp outbox_step x z"
  by (rule converse_rtranclp_into_rtranclp)

lemma crash_all: "rtranclp outbox_step (s, vs @ ws) (s, ws)"
  by (induction vs) (auto intro: then_step crashes_first)

lemma settle_undispatched_run:
  assumes "settle_undispatched env clk jsk draw job e s = (x, s')"
  shows "rtranclp outbox_step (s, W_claimed job # ws) (s', ws)"
  using assms unfolding settle_undispatched_def
  by (auto split: sum.splits intro!: r_into_rtranclp fails_early_first crashes_first)

lemma settle_submitted_run:
  assumes "settle_submitted env clk jsk job l r name s = (x, s')"
  shows "rtranclp outbox_step (s, W_answered job l name r # ws) (s', ws)"
proof (cases "pr_success r")
  case True
  show ?thesis
  proof (cases "completeJob (clk 1) job l name r s")
    case (Inl e)
    obtain rec s1 where rec: "recoverProviderAcceptancePersistence (clk 2) job e s = (rec, s1)" by fastforce
    with assms True Inl have "s' = s1" by (auto simp: settle_submitted_def split: recovery.splits)
    with recovers_first [OF True rec] show ?thesis by blast
  next
    case (Inr s1)
    with assms True have "s' = s1" by (simp add: settle_submitted_def)
    with accepts_first [OF True Inr] show ?thesis by blast
  qed
next
  case False
  show ?thesis
  proof (cases "failOrRescheduleJob env (clk 1) (jsk 1) job r s")
    case (Inl e)
    with assms False have "s' = holdAmbiguousDispatch (clk 2) job e s" by (simp add: settle_submitted_def)
    with holds_first [OF False] show ?thesis by blast
  next
    case (Inr p)
    then obtain b s1 where p: "failOrRescheduleJob env (clk 1) (jsk 1) job r s = Inr (b, s1)" by (cases p) simp
    with assms False have "s' = s1" by (simp add: settle_submitted_def)
    with rejects_first [OF False p] show ?thesis by blast
  qed
qed

lemma processClaimedJob_run:
  assumes "processClaimedJob env clk jsk draw getProvider job s = (x, s')"
  shows "rtranclp outbox_step (s, W_claimed job # ws) (s', ws)"
proof (cases "\<exists>e. settle_undispatched env clk jsk draw job e s = (x, s')")
  case True
  then show ?thesis using settle_undispatched_run by blast
next
  case False
  with assms obtain p m s1 where m: "markProviderDispatch (clk 0) job s = Inr (m, s1)"
    and rest: "(case m of Left_for_operator \<Rightarrow> (Inr (processed False False True), s1)
      | Marked l \<Rightarrow> (case submitToProvider p l job s1 of ((r, name), s2) \<Rightarrow>
          (case settle_submitted env clk jsk job l r name s2 of (res, s3) \<Rightarrow> (Inr res, s3)))) = (x, s')"
    unfolding processClaimedJob_def by (auto split: sum.splits)
  show ?thesis
  proof (cases m)
    case Left_for_operator
    with rest m leaves_first show ?thesis by fastforce
  next
    case (Marked l)
    obtain r name s2 where sub: "submitToProvider p l job s1 = ((r, name), s2)" by (metis surj_pair)
    obtain res s3 where set: "settle_submitted env clk jsk job l r name s2 = (res, s3)" by fastforce
    have "s' = s3" using rest Marked sub set by simp
    moreover have "outbox_step (s, W_claimed job # ws) (s1, W_marked job l # ws)"
      using m Marked marks_first by simp
    moreover have "outbox_step (s1, W_marked job l # ws) (s2, W_answered job l name r # ws)"
      by (rule submits_first [OF sub])
    ultimately show ?thesis using settle_submitted_run [OF set] by (blast intro: then_step)
  qed
qed

lemma due_loop_run:
  "due_loop env clk jsk draw getProvider stopAt n sm s = (x, s') \<Longrightarrow> rtranclp outbox_step (s, ws) (s', ws)"
proof (induction n arbitrary: clk jsk sm s)
  case 0
  then show ?case by simp
next
  case (Suc n)
  show ?case
  proof (cases "s' = s")
    case False
    have none: "s1 = s" if "claimJob env (clk 0) None s = (None, s1)" for s1
      using that by (auto simp: claimJob_def split: if_splits list.splits)
    from Suc.prems False none obtain job s1 y s2 where c: "claimJob env (clk 0) None s = (Some job, s1)"
      and p: "processClaimedJob env (later 1 clk) (later 1 jsk) draw getProvider job s1 = (y, s2)"
      and rest: "(case y of Inl e \<Rightarrow> (Inl e, s2)
        | Inr r \<Rightarrow> due_loop env (later 4 clk) (later 4 jsk) draw getProvider stopAt n (summed r sm) s2) = (x, s')"
      by (auto split: if_splits prod.splits option.splits sum.splits)
    have "rtranclp outbox_step (s, ws) (s2, ws)"
      using outbox_step.claims [OF c] processClaimedJob_run [OF p] by (blast intro: then_step)
    moreover have "rtranclp outbox_step (s2, ws) (s', ws)"
      using rest Suc.IH by (cases y) auto
    ultimately show ?thesis by (rule rtranclp_trans)
  qed simp
qed

lemma find_all:
  assumes "\<And>j ws. j \<in> set js \<Longrightarrow> outbox_step (s, ws) (s, f j # ws)"
  shows "rtranclp outbox_step (s, ws) (s, map f js @ ws)"
  using assms
proof (induction js)
  case (Cons j js)
  then have "rtranclp outbox_step (s, ws) (s, map f js @ ws)" by simp
  moreover have "outbox_step (s, map f js @ ws) (s, f j # map f js @ ws)" using Cons.prems by simp
  ultimately show ?case by (auto intro: rtranclp.rtrancl_into_rtrancl)
qed simp

lemma hold_all_run: "rtranclp outbox_step (s, map W_interrupted js @ ws) (hold_all clk js s, ws)"
proof (induction js arbitrary: clk s)
  case (Cons j js)
  show ?case using then_step [OF holds_interrupted_first Cons.IH] by simp
qed simp

lemma fail_all_run:
  "fail_all env clk jsk draw js s = (x, s') \<Longrightarrow> rtranclp outbox_step (s, map W_spent js @ ws) (s', ws)"
proof (induction js arbitrary: clk jsk s)
  case (Cons j js)
  show ?case
  proof (cases "failBeforeDispatch env (clk 0) (jsk 0) draw j interrupted_claim s")
    case (Inl e)
    with Cons.prems crash_all [of s "W_spent j # map W_spent js" ws] show ?thesis by simp
  next
    case (Inr p)
    then obtain b s1 where p: "failBeforeDispatch env (clk 0) (jsk 0) draw j interrupted_claim s = Inr (b, s1)"
      by (cases p) simp
    with Cons.prems have "fail_all env (later 1 clk) (later 1 jsk) draw js s1 = (x, s')" by simp
    from Cons.IH [OF this] fails_spent_first [OF p] show ?thesis by (auto intro: then_step)
  qed
qed simp

lemma processDue_run:
  assumes "processDueLetterJobs env clk jsk draw getProvider limit stopAt s = (x, s')"
  shows "rtranclp outbox_step (s, ws) (s', ws)"
proof -
  define s1 where "s1 = hold_all (later 1 clk) (stale_dispatched (clk 0) limit s) s"
  define s2 where "s2 = put_back_spent (clk (limit + 1)) s1"
  define js where "js = stale_undispatched (clk (limit + 1 + 1)) limit s2"
  obtain y s3 where f: "fail_all env (later (limit + 1 + 2) clk) (later (limit + 1 + 2) jsk) draw js s2 = (y, s3)"
    by fastforce
  have rest: "s' = s3 \<or> (\<exists>clk' jsk' z. due_loop env clk' jsk' draw getProvider stopAt limit no_work s3 = (z, s'))"
    using assms f unfolding processDueLetterJobs_def Let_def s1_def [symmetric] s2_def [symmetric] js_def [symmetric]
    by (auto split: sum.splits if_splits prod.splits)
  have "rtranclp outbox_step (s, ws) (s, map W_interrupted (stale_dispatched (clk 0) limit s) @ ws)"
    by (rule find_all) (auto intro: outbox_step.finds_interrupted)
  moreover note hold_all_run [of s "stale_dispatched (clk 0) limit s" ws "later 1 clk", folded s1_def]
  ultimately have "rtranclp outbox_step (s, ws) (s1, ws)" by (rule rtranclp_trans)
  moreover have "outbox_step (s1, ws) (s2, ws)" unfolding s2_def by (rule outbox_step.puts_back_spent)
  moreover have "rtranclp outbox_step (s2, ws) (s2, map W_spent js @ ws)"
    by (rule find_all) (auto simp: js_def intro: outbox_step.finds_spent)
  moreover note fail_all_run [OF f]
  ultimately have "rtranclp outbox_step (s, ws) (s3, ws)" by (meson rtranclp_trans rtranclp.rtrancl_into_rtrancl)
  then show ?thesis using rest due_loop_run rtranclp_trans by metis
qed

section \<open>Properties\<close>

definition due_ok :: "nat \<Rightarrow> due_summary \<Rightarrow> bool" where
  "due_ok n sm \<longleftrightarrow> ds_processed sm \<le> n \<and>
     ds_completed sm + ds_retry_scheduled sm + ds_failed sm \<le> ds_processed sm"

lemma summed_ok:
  "due_ok n sm \<Longrightarrow> due_ok (Suc n) (summed r sm)"
  by (auto simp: due_ok_def summed_def Let_def)

lemma due_loop_bound:
  "due_loop env clk jsk draw getProvider stopAt n sm s = (Inr sm', s') \<Longrightarrow> due_ok m sm \<Longrightarrow> due_ok (m + n) sm'"
proof (induction n arbitrary: m clk jsk sm s)
  case 0
  then show ?case by simp
next
  case (Suc n)
  have w: "due_ok m sm \<Longrightarrow> due_ok (m + Suc n) sm" by (simp add: due_ok_def)
  from Suc show ?case
    using w summed_ok [OF Suc.prems(2)] Suc.IH [where m = "Suc m"]
    by (auto split: if_splits prod.splits option.splits sum.splits)
qed

text \<open>
  C13: a maintenance batch is a run of single transactions, so everything proved of every
  interleaving holds of it beside any other workers \<open>ws\<close>; it ends, it processes no more jobs
  than its limit, and a paused one claims nothing and calls no provider.
\<close>

theorem batch_is_an_interleaving:
  assumes "processDueLetterJobs env clk jsk draw getProvider limit stopAt s = (x, s')"
  shows "rtranclp outbox_step (s, ws) (s', ws) \<and>
    (\<forall>sm. x = Inr (Due_done sm) \<longrightarrow> due_ok limit sm \<and> outboxDispatchEnabled env) \<and>
    (\<not> outboxDispatchEnabled env \<longrightarrow> submissions s' = submissions s)"
proof (intro conjI allI impI)
  show "rtranclp outbox_step (s, ws) (s', ws)" by (rule processDue_run [OF assms])
  fix sm assume "x = Inr (Due_done sm)"
  then show "due_ok limit sm" "outboxDispatchEnabled env"
    using assms due_loop_bound [of env _ _ draw getProvider stopAt limit no_work _ sm s' 0]
    by (auto simp: processDueLetterJobs_def Let_def no_work_def due_ok_def split: sum.splits if_splits prod.splits)
next
  assume off: "\<not> outboxDispatchEnabled env"
  have h: "submissions (hold_all clk js s) = submissions s" for clk js s
  proof (induction js arbitrary: clk s)
    case (Cons j js)
    obtain c where "job_written (j_id j) (hold_row (clk 0) c) s (holdAmbiguousDispatch (clk 0) j interrupted_dispatch s)"
      using hold_written by blast
    with Cons show ?case by (simp add: job_written_def)
  qed simp
  have b: "submissions s' = submissions s" if "failBeforeDispatch env now js draw j e s = Inr (b, s')"
    for now js j e s b s'
    using that by (cases rule: fail_before_cases) (auto simp: job_written_def)
  have f: "fail_all env clk jsk draw js s = (y, s') \<Longrightarrow> submissions s' = submissions s" for clk jsk js s y s'
    by (induction js arbitrary: clk jsk s) (auto split: sum.splits dest: b)
  show "submissions s' = submissions s"
    using assms off h f
    by (auto simp: processDueLetterJobs_def Let_def put_back_spent_def split: sum.splits if_splits prod.splits)
qed

section \<open>What any worker may do to a job\<close>

text \<open>
  The edges of a worker from any store, whatever an operator or a reversal did to it before: the life cycle's, the
  claim of a failed job with attempts left, and a hold that arrives late, which takes any job that neither completed
  nor failed, also a cancelled one.
\<close>

inductive worker_life :: "job_status \<times> provider_outcome \<Rightarrow> job_status \<times> provider_outcome \<Rightarrow> bool" where
  along: "life p q \<Longrightarrow> worker_life p q"
| reopened: "worker_life (J_failed, O_not_dispatched) (J_processing, O_not_dispatched)"
| held_late: "st \<noteq> J_completed \<Longrightarrow> st \<noteq> J_failed \<Longrightarrow> worker_life (st, out) (J_held, O_ambiguous)"

definition moves :: "letter_job \<Rightarrow> letter_job \<Rightarrow> bool" where
  "moves r r' \<longleftrightarrow> same_job r r' \<and> (job_state r' = job_state r \<or> worker_life (job_state r) (job_state r'))"

definition jobs_move :: "db \<Rightarrow> db \<Rightarrow> bool" where
  "jobs_move s s' \<longleftrightarrow> (\<exists>js new. jobs s' = js @ new \<and> list_all2 moves (jobs s) js \<and>
     list_all (\<lambda>j. job_state j = (J_pending, O_not_dispatched)) new)"

lemma moves_refl [simp]: "moves r r"
  by (simp add: moves_def same_job_def)

lemma moves_along: "same_job r r' \<Longrightarrow> life (j_status r, j_provider_outcome r) (job_state r') \<Longrightarrow> moves r r'"
  by (simp add: moves_def job_state_def worker_life.along)

lemma moved_rows: "list_all2 moves (jobs s) (jobs s') \<Longrightarrow> jobs_move s s'"
  unfolding jobs_move_def by (intro exI [of _ "jobs s'"] exI [of _ "[]"]) simp

lemma moved_nothing: "jobs s' = jobs s \<Longrightarrow> jobs_move s s'"
  by (rule moved_rows) (simp add: list_all2_refl)

lemma written_moves:
  assumes "distinct (map j_id (jobs s))" and "find_job jid s = Some r" and "job_written jid f s s'" and "moves r (f r)"
  shows "jobs_move s s'"
  by (rule moved_rows) (use list_all2_upd_key [OF assms(1), of jid r moves f] assms(2-4) in \<open>simp add: find_job_def job_written_def\<close>)

lemma hold_moves: "distinct (map j_id (jobs s)) \<Longrightarrow> jobs_move s (holdAmbiguousDispatch now j e s)"
proof -
  assume d: "distinct (map j_id (jobs s))"
  obtain c where w: "job_written (j_id j) (hold_row now c) s (holdAmbiguousDispatch now j e s)" using hold_written by blast
  have m: "moves r (hold_row now c r)" for r
    by (cases "j_status r = J_completed \<or> j_status r = J_failed")
      (simp_all add: moves_def, auto simp: job_state_def intro: worker_life.held_late)
  show ?thesis
  proof (cases "find_job (j_id j) s")
    case None
    then have "jobs (holdAmbiguousDispatch now j e s) = jobs s"
      using w by (auto simp: job_written_def find_job_def find_by_None_iff image_iff intro!: upd_where_none)
    then show ?thesis by (rule moved_nothing)
  next
    case (Some r)
    show ?thesis by (rule written_moves [OF d Some w m])
  qed
qed

lemma early_moves:
  assumes d: "distinct (map j_id (jobs s))" and run: "failBeforeDispatch env now js draw j e s = Inr (b, s')"
  shows "jobs_move s s'"
  using run
proof (cases rule: fail_before_cases)
  case superseded
  then show ?thesis by (simp add: moved_nothing)
next
  case (put_back r c)
  have "moves r (undispatched_put_back now c r)"
    using put_back(2) by (intro moves_along) (auto simp: holds_claim_def intro: life.intros)
  then show ?thesis unfolding put_back(4) by (rule written_moves [OF d put_back(1) job_written_upd])
next
  case (settled r c n oid)
  have "moves r (undispatched_row now b n c r)"
    using settled(2) by (intro moves_along) (auto simp: holds_claim_def intro: life.intros)
  then show ?thesis by (rule written_moves [OF d settled(1,5)])
qed

lemma claim_moves:
  assumes d: "distinct (map j_id (jobs s))" and "claimJob env now only s = (Some j, s')" shows "jobs_move s s'"
  using assms(2)
proof (cases rule: claim_cases)
  case (1 r)
  have "find_job (j_id r) s = Some r" unfolding find_job_def by (rule find_by_distinct [OF d 1(1)])
  moreover have "worker_life (job_state r) (J_processing, O_not_dispatched)"
    using 1(2) by (auto simp: claimable_def job_state_def intro: worker_life.along [OF life.claimed] worker_life.along [OF life.reclaimed]
        worker_life.reopened)
  then have "moves r (claim_row now r)" using 1(2) by (simp add: moves_def claimable_def)
  ultimately show ?thesis using 1(4) d by (intro written_moves)
qed

lemma mark_moves:
  assumes d: "distinct (map j_id (jobs s))" and "markProviderDispatch now j s = Inr (m, s')" shows "jobs_move s s'"
  using assms(2)
proof (cases rule: mark_cases)
  case (1 r l)
  have "moves r (put_back now r)"
    using 1(3) by (intro moves_along) (auto simp: dispatchable_def intro: life.intros)
  then show ?thesis by (rule written_moves [OF d 1(1,5)])
next
  case (2 r l)
  have "moves r (mark_row now r)"
    using 2(3) by (intro moves_along) (auto simp: dispatchable_def intro: life.intros)
  then show ?thesis by (rule written_moves [OF d 2(1,5)])
qed

lemma accept_moves:
  assumes d: "distinct (map j_id (jobs s))" and "completeJob now j l name r s = Inr s'" shows "jobs_move s s'"
  using assms(2)
proof (cases rule: complete_cases)
  case 1
  then show ?thesis by (simp add: moved_nothing)
next
  case (2 current locked)
  have "moves current (complete_row now r current)"
    using 2(2) by (intro moves_along) (auto simp: can_persist_acceptance_def intro: life.intros)
  then show ?thesis by (rule written_moves [OF d 2(1,7)])
qed

lemma reject_moves:
  assumes d: "distinct (map j_id (jobs s))" and "failOrRescheduleJob env now js j r s = Inr (b, s')" shows "jobs_move s s'"
  using assms(2)
proof (cases rule: fail_cases)
  case (held e)
  then show ?thesis using hold_moves [OF d] by simp
next
  case superseded
  then show ?thesis by (simp add: moved_nothing)
next
  case (failed current oid)
  have "moves current (fail_row now js (summarizeProviderRejection r) current)"
    using failed(3,4) by (intro moves_along) (auto simp: intro: life.intros)
  then show ?thesis by (rule written_moves [OF d failed(2,7)])
qed

lemma cancel_moves:
  assumes d: "distinct (map j_id (jobs s))" and "cancelScheduledMail env now js locked letterId uid s = Inr (r, s')"
  shows "jobs_move s s'"
proof -
  from assms(2) consider "s' = s" | "cancelScheduledMailWithClient env now js letterId uid s = Inr (r, s')"
    by (auto simp: cancelScheduledMail_def split: if_splits)
  then show ?thesis
  proof cases
    case 2
    then show ?thesis
    proof (cases rule: cancel_cases)
      case kept
      then show ?thesis by (simp add: moved_nothing)
    next
      case (gone l j m)
      have f: "find_job (j_id j) s = Some j"
        unfolding find_job_def using gone(1) by (intro find_by_distinct [OF d]) (auto simp: cancels_held_def dest: find_jobD)
      have w: "job_written (j_id j) (cancel_job_row now) s s'" using gone(8) by (simp add: job_written_def pays_only_def)
      have "moves j (cancel_job_row now j)"
        using gone(1) by (intro moves_along) (auto simp: cancels_held_def same_job_def job_state_def cancel_job_row_def intro: life.intros)
      then show ?thesis by (rule written_moves [OF d f w])
    qed
  qed (simp add: moved_nothing)
qed

lemma enqueue_moves: "createLetterJobWithClient env now jid to_iso l nb s = Inr (j, s') \<Longrightarrow> jobs_move s s'"
proof (erule enqueue_cases)
  assume "jobs s' = upd_where (\<lambda>r. j_letter r = l) (\<lambda>r. r\<lparr>j_updated_at := now\<rparr>) (jobs s)"
  then show ?thesis by (intro moved_rows) (auto simp: moves_def same_job_def job_state_def intro!: list_all2_upd_where)
next
  assume "jobs s' = jobs s @ [new_job env now jid to_iso l nb]"
  moreover have "list_all2 moves (jobs s) (jobs s)" by (simp add: list_all2_refl)
  ultimately show ?thesis using new_job_ok(4) unfolding jobs_move_def by (intro exI conjI) auto
qed

lemma send_moves: "createMailOrderFromDraftWithClient w p s = Inr (r, s') \<Longrightarrow> jobs_move s s'"
proof (drule send_enqueues [where ws = "[]"], erule disjE)
  assume "enqueued (s, []) (s', [])"
  then show ?thesis unfolding enqueued_def fst_conv same_world_def by (metis enqueue_moves jobs_move_def)
qed (simp add: same_world_def moved_nothing)

lemma spent_moves: "jobs_move s (put_back_spent now s)"
proof (rule moved_rows)
  have "moves r (put_back now r)" if "spent_claim now r" for r
    using that by (intro moves_along) (auto simp: spent_claim_def intro: life.intros)
  then show "list_all2 moves (jobs s) (jobs (put_back_spent now s))"
    by (auto simp: put_back_spent_def intro: list_all2_upd_where)
qed

lemma step_moves: "outbox_step x y \<Longrightarrow> distinct (map j_id (jobs (fst x))) \<Longrightarrow> jobs_move (fst x) (fst y)"
proof (induction rule: outbox_step.induct)
  case (submits p l j s r name s' xs ys)
  then show ?case using submit_effect [OF submits(1)] by (auto intro: moved_nothing)
next
  case (recovers r now j e s rec s' xs l name ys)
  then show ?case by (auto simp: recoverProviderAcceptancePersistence_def moved_nothing hold_moves split: if_splits)
qed (auto intro: moved_nothing enqueue_moves send_moves cancel_moves claim_moves mark_moves early_moves accept_moves
    reject_moves hold_moves spent_moves)

text \<open>
  C4: the jobs refine their life cycle. From any store whose jobs have distinct ids, whatever an operator or a
  reversal of a payment did to it, and for any workers, however stale what they hold, a transaction of a worker,
  of a send or of the customer's cancel leaves each job where it is or takes one edge of the life cycle, claims a
  failed undispatched job with attempts left, or holds a job that neither completed nor failed; it keeps what
  identifies the job and adds none but waiting ones. Where the jobs saw only such transactions since the first, it
  takes edges of the life cycle alone, so nothing leaves \<open>completed\<close>, \<open>failed\<close> or \<open>cancelled\<close>.
\<close>

theorem outbox_refines_life_cycle:
  assumes "outbox_step (s, ws) (s', ws')" and "distinct (map j_id (jobs s))"
  shows "\<exists>js new. jobs s' = js @ new \<and>
    list_all2 (\<lambda>r r'. same_job r r' \<and> (job_state r' = job_state r \<or> worker_life (job_state r) (job_state r'))) (jobs s) js \<and>
    list_all (\<lambda>j. job_state j = (J_pending, O_not_dispatched)) new \<and>
    (outbox_reachable (s, ws) \<longrightarrow> list_all2 follows (jobs s) js)"
proof -
  from step_moves [OF assms(1)] assms(2) obtain js new where js: "jobs s' = js @ new" "list_all2 moves (jobs s) js"
    "list_all (\<lambda>j. job_state j = (J_pending, O_not_dispatched)) new" by (auto simp: jobs_move_def)
  have "list_all2 follows (jobs s) js" if "outbox_reachable (s, ws)"
  proof -
    have "jobs_grow s s'" using step_effect [OF assms(1) outbox_reachable_inv [OF that]] by simp
    then obtain ks older where k: "jobs s' = ks @ older" "list_all2 follows (jobs s) ks" by (auto simp: jobs_grow_def)
    have "length ks = length js" using list_all2_lengthD [OF js(2)] list_all2_lengthD [OF k(2)] by simp
    then show ?thesis using k js(1) by simp
  qed
  then show ?thesis using js unfolding moves_def by blast
qed

text \<open>
  C12: in every reachable state the job rows satisfy the database's CHECKs on status and
  provider outcome (migration 023), a held job says since when and why, no job has more
  attempts than its maximum, a job that failed undispatched has spent them all, and ids and
  idempotency keys are unique.
\<close>

theorem outbox_rows_stay_valid:
  assumes "outbox_reachable (s, ws)"
  shows "(\<forall>j\<in>set (jobs s). job_ok j) \<and> distinct (map j_id (jobs s)) \<and>
    distinct (map j_idempotency_key (jobs s))"
  using outbox_reachable_inv [OF assms] by (simp add: outbox_inv_def jobs_ok_def list_all_iff)

lemma allowed_le_1: "distinct (map j_idempotency_key js) \<Longrightarrow>
    length (filter (\<lambda>r. j_idempotency_key r = k \<and> P r) js) \<le> (if \<exists>r\<in>set js. j_idempotency_key r = k \<and> P r then 1 else 0)"
proof (induction js)
  case (Cons r js)
  show ?case
  proof (cases "j_idempotency_key r = k")
    case True
    with Cons.prems have "filter (\<lambda>r. j_idempotency_key r = k \<and> P r) js = []"
      by (auto simp: filter_empty_conv image_iff)
    then show ?thesis by simp
  next
    case False
    with Cons show ?thesis by simp
  qed
qed simp

text \<open>
  C1: a letter is submitted at most once. However many workers interleave, crash between any
  two transactions and lose their claims to others, the provider is called at most once under
  an idempotency key, and only for a job that its marker has dispatched.
\<close>

theorem submitted_at_most_once:
  assumes "outbox_reachable (s, ws)"
  shows "count_list (submissions s) k \<le> 1 \<and>
    (k \<in> set (submissions s) \<longrightarrow>
      (\<exists>j\<in>set (jobs s). j_idempotency_key j = k \<and> j_provider_outcome j \<noteq> O_not_dispatched))"
proof -
  have inv: "outbox_inv (s, ws)" by (rule outbox_reachable_inv [OF assms])
  then have "started k (s, ws) \<le> allowed k s" by (simp add: outbox_inv_def)
  then have "count_list (submissions s) k \<le> allowed k s" by (simp add: started_def)
  moreover have "allowed k s \<le> (if \<exists>r\<in>set (jobs s). j_idempotency_key r = k \<and> j_provider_outcome r \<noteq> O_not_dispatched
      then 1 else 0)"
    unfolding allowed_def by (rule allowed_le_1) (use inv in \<open>simp add: outbox_inv_def jobs_ok_def\<close>)
  ultimately show ?thesis by (auto simp: count_list_0_iff split: if_splits)
qed

lemma final_follows: "follows r r' \<Longrightarrow> j_status r \<in> {J_completed, J_failed, J_cancelled} \<Longrightarrow> job_state r' = job_state r"
  by (auto simp: follows_def job_state_def)

lemma grow_find:
  assumes "jobs_grow s s'" and "find_job k s = Some r"
  shows "\<exists>r'. find_job k s' = Some r' \<and> follows r r'"
proof -
  from assms(1) obtain js new where js: "jobs s' = js @ new" "list_all2 follows (jobs s) js"
    by (auto simp: jobs_grow_def)
  from follow_find [OF js(2)] assms(2) obtain r' where "find_by j_id k js = Some r'" "follows r r'"
    by (auto simp: find_job_def)
  then show ?thesis by (simp add: find_job_def js(1) find_by_append)
qed

definition settled :: "string \<Rightarrow> job_status \<times> provider_outcome \<Rightarrow> string \<Rightarrow> db \<times> worker list \<Rightarrow> bool" where
  "settled jid st k x \<longleftrightarrow> outbox_inv x \<and>
     (\<exists>r. find_job jid (fst x) = Some r \<and> job_state r = st \<and> j_idempotency_key r = k)"

lemma settled_step:
  assumes "fst st \<in> {J_completed, J_failed, J_cancelled}" and "outbox_step x y" and "settled jid st k x"
  shows "settled jid st k y"
proof -
  from assms(3) obtain r where inv: "outbox_inv x" and r: "find_job jid (fst x) = Some r" "job_state r = st"
    "j_idempotency_key r = k" by (auto simp: settled_def)
  note e = step_effect [OF assms(2) inv]
  from grow_find [OF conjunct2 [OF e] r(1)] obtain r' where r': "find_job jid (fst y) = Some r'" "follows r r'" by blast
  have "job_state r' = st" using final_follows [OF r'(2)] r(2) assms(1) by (auto simp: job_state_def)
  moreover have "j_idempotency_key r' = k" using r'(2) r(3) by (simp add: follows_def same_job_def)
  ultimately show ?thesis using e r'(1) by (simp add: settled_def)
qed

interpretation completed_run: kept_by_steps outbox_step "settled jid (J_completed, O_accepted) k"
  by unfold_locales (rule settled_step, simp_all)

interpretation given_up_run: kept_by_steps outbox_step "settled jid (J_failed, O_not_dispatched) k"
  by unfold_locales (rule settled_step, simp_all)

lemma key_owner:
  assumes "jobs_ok s" and "find_job jid s = Some r" and "j \<in> set (jobs s)" and "j_idempotency_key j = j_idempotency_key r"
  shows "j = r"
proof -
  have "r \<in> set (jobs s)" using assms(2) find_by_mem [of j_id jid "jobs s" r] by (simp add: find_job_def)
  with assms show ?thesis by (auto simp: jobs_ok_def distinct_map dest: inj_onD)
qed

text \<open>
  C6: what was given back is not mailed. A job that failed before its dispatch (its send paid
  back) was never submitted and never will be, whatever the workers still in flight do; it
  stays failed.
\<close>

theorem given_up_never_mailed:
  assumes "outbox_reachable (s, ws)" and "find_job jid s = Some j" and "job_state j = (J_failed, O_not_dispatched)"
    and "rtranclp outbox_step (s, ws) (s', ws')"
  shows "j_idempotency_key j \<notin> set (submissions s') \<and>
    (\<exists>j'. find_job jid s' = Some j' \<and> job_state j' = (J_failed, O_not_dispatched))"
proof -
  have "settled jid (J_failed, O_not_dispatched) (j_idempotency_key j) (s, ws)"
    using outbox_reachable_inv [OF assms(1)] assms(2,3) by (simp add: settled_def)
  from given_up_run.run_keeps [OF assms(4) this] obtain j' where inv: "outbox_inv (s', ws')"
    and j': "find_job jid s' = Some j'" "job_state j' = (J_failed, O_not_dispatched)"
      "j_idempotency_key j' = j_idempotency_key j" by (auto simp: settled_def)
  have "allowed (j_idempotency_key j) s' = 0"
    using key_owner [OF inv_jobs_ok [OF inv] j'(1)] j'(2,3)
    by (auto simp: allowed_def filter_empty_conv job_state_def)
  moreover have "started (j_idempotency_key j) (s', ws') \<le> allowed (j_idempotency_key j) s'"
    using inv by (simp add: outbox_inv_def)
  ultimately have "count_list (submissions s') (j_idempotency_key j) = 0" by (simp add: started_def)
  with j' show ?thesis by (auto simp: count_list_0_iff)
qed

lemma claim_none:
  "claimJob env now only s = (None, s') \<longleftrightarrow>
      s' = s \<and> (\<not> outboxDispatchEnabled env \<or> filter (claimable now s only) (jobs s) = [])"
proof -
  have nil: "sort_key claim_key xs = [] \<longleftrightarrow> xs = []" for xs
    by (metis length_0_conv length_sort)
  show ?thesis
  proof (cases "sort_key claim_key (filter (claimable now s only) (jobs s))")
    case Nil
    then have "filter (claimable now s only) (jobs s) = []" using nil by blast
    with Nil show ?thesis by (auto simp: claimJob_def)
  next
    case (Cons r rs)
    then have "filter (claimable now s only) (jobs s) \<noteq> []" using nil by fastforce
    with Cons show ?thesis by (auto simp: claimJob_def)
  qed
qed

text \<open>
  The claim takes the first job that is due. With dispatch on, it answers a job exactly
  when one is claimable, and the job it takes is claimable, not later in the order of due
  time and creation than any other, now processing with one more attempt; a paused outbox
  claims nothing. A claimable job is never dispatched, held, spent or left for the operator.
\<close>

theorem claim_takes_first_due:
  "(claimJob env now only s = (None, s') \<longleftrightarrow>
      s' = s \<and> (\<not> outboxDispatchEnabled env \<or> filter (claimable now s only) (jobs s) = [])) \<and>
   (\<forall>j. claimJob env now only s = (Some j, s') \<longrightarrow>
      (\<exists>r\<in>set (jobs s). claimable now s only r \<and> j = claim_row now r \<and> job_written (j_id r) (claim_row now) s s' \<and>
        (\<forall>x\<in>set (jobs s). claimable now s only x \<longrightarrow> claim_key r \<le> claim_key x)))"
proof
  show "claimJob env now only s = (None, s') \<longleftrightarrow>
      s' = s \<and> (\<not> outboxDispatchEnabled env \<or> filter (claimable now s only) (jobs s) = [])"
    by (rule claim_none)
  show "\<forall>j. claimJob env now only s = (Some j, s') \<longrightarrow>
      (\<exists>r\<in>set (jobs s). claimable now s only r \<and> j = claim_row now r \<and> job_written (j_id r) (claim_row now) s s' \<and>
        (\<forall>x\<in>set (jobs s). claimable now s only x \<longrightarrow> claim_key r \<le> claim_key x))"
  proof (intro allI impI)
    fix j assume run: "claimJob env now only s = (Some j, s')"
    let ?c = "filter (claimable now s only) (jobs s)"
    from run obtain r rs where r: "sort_key claim_key ?c = r # rs" "j = claim_row now r"
        "s' = upd_job (j_id r) (claim_row now) s"
      by (auto simp: claimJob_def split: if_splits list.splits)
    have set: "set (r # rs) = set ?c" by (metis r(1) set_sort)
    have "sorted (map claim_key (r # rs))" by (metis r(1) sorted_sort_key)
    then have le: "claim_key r \<le> claim_key x" if "x \<in> set ?c" for x
      using that unfolding set [symmetric] by auto
    from set have "r \<in> set (jobs s)" "claimable now s only r" by auto
    with le r(2,3) show "\<exists>r\<in>set (jobs s). claimable now s only r \<and> j = claim_row now r \<and>
        job_written (j_id r) (claim_row now) s s' \<and>
        (\<forall>x\<in>set (jobs s). claimable now s only x \<longrightarrow> claim_key r \<le> claim_key x)"
      by (intro bexI [of _ r] conjI ballI impI) (simp_all only: job_written_upd set_filter mem_Collect_eq)
  qed
qed

text \<open>
  A claimant that lost its claim changes nothing. When the job has other attempts than the
  claim set, or is no longer processing, or was dispatched, the marker refuses and the
  settlement of a failure before dispatch, if it goes through, leaves the store as it is and
  schedules nothing.
\<close>

theorem stale_claimant_changes_nothing:
  assumes "find_job (j_id job) s = Some current" and "\<not> holds_claim job current"
  shows "\<not> is_ok (markProviderDispatch now job s) \<and>
    (\<forall>env js draw e b s'. failBeforeDispatch env now js draw job e s = Inr (b, s') \<longrightarrow> s' = s \<and> \<not> b)"
proof (intro conjI allI impI notI)
  assume "is_ok (markProviderDispatch now job s)"
  then obtain m s' where "markProviderDispatch now job s = Inr (m, s')" by (auto simp: is_ok_iff)
  then show False
    by (cases rule: mark_cases) (use assms in \<open>auto simp: dispatchable_def holds_claim_def\<close>)
next
  fix env js draw e b s' assume "failBeforeDispatch env now js draw job e s = Inr (b, s')"
  then show "s' = s" by (cases rule: fail_before_cases) (use assms in auto)
next
  fix env js draw e b s' assume "failBeforeDispatch env now js draw job e s = Inr (b, s')" and "b"
  then show False by (cases rule: fail_before_cases) (use assms in auto)
qed

text \<open>What pays for a letter: balances, lots, movements and gift letters.\<close>

definition same_money :: "db \<Rightarrow> db \<Rightarrow> bool" where
  "same_money s s' \<longleftrightarrow> users s' = users s \<and> ledger s' = ledger s \<and> txns s' = txns s \<and>
     consumptions s' = consumptions s \<and> gifts s' = gifts s \<and> gift_codes s' = gift_codes s"

definition refund_started :: "string \<Rightarrow> db \<Rightarrow> db \<Rightarrow> bool" where
  "refund_started oid s s' \<longleftrightarrow>
     order_status_of oid s \<noteq> Some Ord_refund_pending \<and> order_status_of oid s' = Some Ord_refund_pending"

lemma hold_order_state: "o_id (hold_order now x) = o_id x" "o_status (hold_order now x) \<in> {o_status x, Ord_held}"
  by (simp_all add: hold_order_def)

lemma hold_money:
  "same_money s (holdAmbiguousDispatch now job e s)" "\<not> refund_started oid s (holdAmbiguousDispatch now job e s)"
proof -
  show "same_money s (holdAmbiguousDispatch now job e s)"
    by (simp add: same_money_def holdAmbiguousDispatch_def Let_def upd_order_def upd_letter_def upd_job_def split: option.split)
  have f: "find_order oid (holdAmbiguousDispatch now job e s) = (case letter_order (j_letter job) s of
      None \<Rightarrow> find_order oid s
    | Some k \<Rightarrow> if oid = k then map_option (hold_order now) (find_order k s) else find_order oid s)"
  proof (cases "letter_order (j_letter job) s")
    case None
    then show ?thesis by (simp add: holdAmbiguousDispatch_def Let_def find_order_def)
  next
    case (Some k)
    have "find_order oid (holdAmbiguousDispatch now job e s) = find_order oid (upd_order k (hold_order now)
        (upd_letter (j_letter job) (hold_letter now) (upd_job (j_id job)
          (hold_row now (classifyDiagnosticError e ''provider_error'')) s)))"
      using Some by (simp add: holdAmbiguousDispatch_def Let_def find_order_def)
    moreover have "find_order i (upd_letter a f (upd_job b g s)) = find_order i s" for i a f b g
      by (simp add: find_order_def)
    ultimately show ?thesis using Some by (simp add: find_order_upd hold_order_state(1))
  qed
  show "\<not> refund_started oid s (holdAmbiguousDispatch now job e s)"
  proof
    assume r: "refund_started oid s (holdAmbiguousDispatch now job e s)"
    then obtain x where "find_order oid (holdAmbiguousDispatch now job e s) = Some x" "o_status x = Ord_refund_pending"
      by (auto simp: refund_started_def order_status_of_def)
    moreover then obtain y where y: "find_order oid s = Some y" "x = y \<or> x = hold_order now y"
      using f by (auto split: option.splits if_splits)
    ultimately have "o_status y = Ord_refund_pending" by (auto simp: hold_order_def split: if_splits)
    with y(1) r show False by (simp add: refund_started_def order_status_of_def)
  qed
qed

text \<open>
  C5: an answer the provider did not give is never turned into a refund. The settlement of an
  unsuccessful result moves money (a balance, a lot, a gift letter or its code, or an order to
  refund_pending) only when the provider rejected the letter definitely, and only in the
  transaction that moves its job from dispatching to failed with a definite failure; any other
  result leaves all money as it is and holds the job unless it had already ended.
\<close>

theorem refunds_only_definite_rejections:
  assumes "failOrRescheduleJob env now js job r s = Inr (b, s')"
    and "\<not> same_money s s' \<or> refund_started oid s s'"
  shows "pr_submission_outcome r = Some ''definite_rejection'' \<and>
    (\<exists>j. find_job (j_id job) s = Some j \<and> job_state j = (J_processing, O_dispatching) \<and>
      map_option job_state (find_job (j_id job) s') = Some (J_failed, O_definite_failure))"
  using assms(1)
proof (cases rule: fail_cases)
  case (held e)
  with hold_money assms(2) show ?thesis by blast
next
  case superseded
  with assms(2) show ?thesis by (simp add: same_money_def refund_started_def)
next
  case (failed current o')
  have "find_job (j_id job) s' = Some (fail_row now js (summarizeProviderRejection r) current)"
    using failed(2,7) find_job_key [OF failed(2)]
      find_by_upd_where [of "\<lambda>x. j_id x = j_id job" j_id "fail_row now js (summarizeProviderRejection r)" "j_id job" "jobs s"]
    by (simp add: find_job_def job_written_def)
  with failed show ?thesis by (simp add: job_stateI)
qed

text \<open>
  Backoff is bounded. The delay before a retry is at least a minute and less than an hour
  and one second, whatever the attempt, and without jitter it never shrinks from one attempt
  to the next.
\<close>

theorem retry_delay_bounded:
  assumes "\<And>n. 0 < n \<Longrightarrow> 0 \<le> draw n \<and> draw n < n"
  shows "60000 \<le> retryDelayMilliseconds attempts draw \<and> retryDelayMilliseconds attempts draw < 3601000 \<and>
    (a \<le> b \<longrightarrow> retryDelayMilliseconds a (\<lambda>n. 0) \<le> retryDelayMilliseconds b (\<lambda>n. 0))"
proof -
  have d: "0 \<le> draw 1000" "draw 1000 < 1000" using assms [of 1000] by simp_all
  define x where "x = (\<lambda>n. (2::int) ^ (n - 1))"
  have run: "retryDelayMilliseconds n g = min (60000 * x n) 3600000 + g 1000" for n g
    by (simp add: retryDelayMilliseconds_def boundedExponentialDelayMs_def x_def)
  have p: "1 \<le> x attempts" by (simp add: x_def)
  have m: "x a \<le> x b" if "a \<le> b"
    unfolding x_def by (rule power_increasing) (use that in auto)
  show ?thesis
  proof (intro conjI impI)
    show "60000 \<le> retryDelayMilliseconds attempts draw" "retryDelayMilliseconds attempts draw < 3601000"
      using d p by (simp_all add: run min_def)
    assume "a \<le> b"
    from m [OF this] show "retryDelayMilliseconds a (\<lambda>n. 0) \<le> retryDelayMilliseconds b (\<lambda>n. 0)"
      by (simp add: run min_def)
  qed
qed

text \<open>
  Mail the provider cancelled is settled once. A cancel that takes effect fails a letter
  that had not ended, writes its one history row, and changes money only for a letter without
  an order that our record says was accepted and not yet printing; every later cancel of the
  letter leaves the store as it is.
\<close>

theorem provider_cancel_settles_once:
  assumes "failProviderCancelledLetter env now js letterId raw s = Inr (Co_failed, s')"
  shows "(\<exists>l. find_letter letterId s = Some l \<and> \<not> ended_letter (lt_status l) \<and>
      map_option lt_status (find_letter letterId s') = Some L_failed \<and>
      history s' = history s @ [\<lparr> sh_letter = letterId, sh_old = lt_status l, sh_new = L_failed,
        sh_provider_raw_status = Some raw, sh_source = ''sync'' \<rparr>] \<and> jobs s' = jobs s \<and>
      (same_money s s' \<or> funding_order l = None \<and> lt_status l \<in> {L_accepted, L_sent})) \<and>
    failProviderCancelledLetter env' now' js' letterId raw' s' = Inr (Co_unchanged, s')"
proof -
  let ?f = "\<lambda>l. l\<lparr>lt_status := L_failed, lt_status_updated_at := Some now, lt_provider_raw_status := Some raw, lt_updated_at := now\<rparr>"
  from assms obtain l where f0: "find_letter letterId s = Some l"
    by (auto simp: failProviderCancelledLetter_def split: option.splits)
  with assms have "\<not> ended_letter (lt_status l)"
    by (auto simp: failProviderCancelledLetter_def Let_def)
  with f0 have l: "find_letter letterId s = Some l" "\<not> ended_letter (lt_status l)" by simp_all
  define s1 where "s1 = upd_letter letterId ?f s"
  define s2 where "s2 = s1\<lparr>history := history s1 @ [\<lparr> sh_letter = letterId, sh_old = lt_status l, sh_new = L_failed,
      sh_provider_raw_status = Some raw, sh_source = ''sync'' \<rparr>]\<rparr>"
  have once: "jobs (raise_once a t) = jobs t \<and> letters (raise_once a t) = letters t \<and> history (raise_once a t) = history t \<and>
      same_money t (raise_once a t)" for a t
    by (simp add: raise_once_def same_money_def)
  obtain a s3 where s': "s' = raise_once a s3"
    and s3: "s3 = s2 \<or> funding_order l = None \<and> not_yet_printing (lt_status l) \<and>
      returnPrepaidCreditsForFailedLetter env now js letterId ''provider_cancelled'' s2 = Inr s3"
    using assms l unfolding failProviderCancelledLetter_def Let_def s2_def s1_def
    by (auto split: if_splits sum.splits)
  have p: "pays_only s2 s3" using s3 return_prepaid_pays by auto
  have h: "history s1 = history s" "same_money s s2" "jobs s2 = jobs s"
    by (simp_all add: s1_def s2_def same_money_def upd_letter_def)
  have "find_letter letterId s' = find_letter letterId s1"
    using p once [of a s3] by (simp add: s' pays_only_def find_letter_def s2_def)
  moreover have "find_letter letterId s1 = Some (?f l)"
    unfolding s1_def using l(1) by (subst find_letter_upd) simp_all
  ultimately have f: "find_letter letterId s' = Some (?f l)" by simp
  have m: "same_money s s' \<or> funding_order l = None \<and> lt_status l \<in> {L_accepted, L_sent}"
    using s3 once [of a s3] h(2) by (auto simp: s' not_yet_printing_def same_money_def)
  have j: "jobs s' = jobs s" "history s' = history s2"
    using p once [of a s3] h(3) by (simp_all add: s' pays_only_def)
  have "failProviderCancelledLetter env' now' js' letterId raw' s' = Inr (Co_unchanged, s')"
    by (simp add: failProviderCancelledLetter_def f Let_def ended_letter_def)
  then show ?thesis using l f m j h(1) by (simp add: s2_def)
qed

section \<open>A run\<close>

definition post_env :: environment where "post_env = (\<lambda>_. None)"

definition post_content :: letter_content where
  "post_content = \<lparr> lc_layout_type = None, lc_renderer_version = None, lc_sender = None,
     lc_body_text = None, lc_sign_off = None, lc_message = None, lc_postcard_size = None,
     lc_header_image_data = None, lc_header_image_url = None, lc_inline_image_data = None,
     lc_inline_image_url = None, lc_front_image_data = None, lc_front_image_url = None,
     lc_stationery = None, lc_pages = None, lc_signature_image = None, lc_postcard_front = None,
     lc_gift_card = None \<rparr>"

definition post_letter :: letter where
  "post_letter = \<lparr> lt_id = ''letter-1'', lt_user = ''s'',
     lt_content = post_content, lt_credits_cost = 1,
     lt_status = L_draft, lt_mail_type = Mt_letter, lt_mail_service = None,
     lt_funding_type = Fund_jit_order, lt_funding_order_id = Some ''order-1'', lt_tracking_id = None,
     lt_provider = None, lt_provider_raw_status = None, lt_cost_cents = 0, lt_expected_delivery = None,
     lt_sent_at = None, lt_status_updated_at = None, lt_redacted_at = None,
     lt_arrive_by = None, lt_mail_on = None, lt_recipient = None, lt_preview_html = None,
     lt_print_pdf_sha256 = None, lt_print_layout_fingerprint = None, lt_print_layout_engine = None,
     lt_created_at = 0, lt_updated_at = 0 \<rparr>"

definition post_order :: order where
  "post_order = \<lparr> o_id = ''order-1'', o_user = ''s'', o_type = Ot_jit_mail, o_draft_id = None,
     o_letter_id = Some ''letter-1'', o_product_code = ''jit-letter'', o_product_snapshot = [], o_credits = None, o_amount_cents = 300, o_amount_known = True, o_currency = ''usd'',
     o_status = Ord_fulfillment_pending, o_idempotency_key = ''jit-checkout:order-1'', o_checkout_url = None, o_checkout_expires_at = None,
     o_stripe_checkout_session_id = None,
     o_stripe_payment_intent_id = None, o_stripe_refund_id = None, o_refund_attempts = 0,
     o_credits_refunded = 0, o_amount_refunded_cents = 0, o_hold_previous_status = None, o_held_at = None,
     o_hold_reason = None, o_dispute_status = None, o_paid_at = Some 0, o_fulfillment_started_at = None, o_fulfilled_at = None, o_completed_at = None,
     o_payment_failed_at = None, o_refund_pending_at = None, o_refunded_at = None, o_last_error_code = None, o_last_error = None,
     o_created_at = 0, o_updated_at = 0 \<rparr>"

definition post_office :: db where
  "post_office = empty_db\<lparr>letters := [post_letter], orders := [post_order]\<rparr>"

definition post_queued :: db where
  "post_queued = committed post_office
     (createLetterJobWithClient post_env 1 ''job-1'' (\<lambda>_. []) ''letter-1'' None post_office)"

definition post_job :: letter_job where
  "post_job = the (fst (claimJob post_env 2 None post_queued))"

definition post_claimed :: db where "post_claimed = snd (claimJob post_env 2 None post_queued)"

definition post_marked :: db where
  "post_marked = committed post_claimed (markProviderDispatch 3 post_job post_claimed)"

definition post_provider :: "(letter \<Rightarrow> string \<Rightarrow> error + provider_result) \<Rightarrow> provider" where
  "post_provider send = \<lparr> p_name = ''postgrid'', p_display_name = ''PostGrid'',
     p_supports_extra_services = True, p_prints_rendered_pdf = True, p_send_letter = send,
     p_send_postcard = None \<rparr>"

definition post_accepts :: "routing \<Rightarrow> error + provider" where
  "post_accepts r = Inr (post_provider (\<lambda>l k. Inr \<lparr> pr_success = True, pr_tracking_id = ''pg-1'', pr_error = None,
     pr_cost_cents = Some 120, pr_expected_delivery = None, pr_submission_outcome = None,
     pr_error_class = None, pr_status_code = None \<rparr>))"

definition post_sent :: db where
  "post_sent = snd (processDueLetterJobs post_env (\<lambda>n. 2 + int n) (\<lambda>n. 2 + int n) (\<lambda>n. 0) post_accepts 25 None post_queued)"

lemma post_run:
  "map job_state (jobs post_sent) = [(J_completed, O_accepted)]" "submissions post_sent = [''letter-1'']"
  "map o_status (orders post_sent) = [Ord_fulfilled]" "map lt_status (letters post_sent) = [L_accepted]"
  by code_simp+

definition once_env :: environment where
  "once_env = (\<lambda>n. if n = ''OUTBOX_MAX_ATTEMPTS'' then Some ''1'' else None)"

definition post_unsendable :: "routing \<Rightarrow> error + provider" where
  "post_unsendable r = Inl (Coded_error ''configuration_error'' ''No provider key'')"

definition once_queued :: db where
  "once_queued = committed post_office
     (createLetterJobWithClient once_env 1 ''job-1'' (\<lambda>_. []) ''letter-1'' None post_office)"

definition post_given_up :: db where
  "post_given_up = snd (processDueLetterJobs post_env (\<lambda>n. 2 + int n) (\<lambda>n. 2 + int n) (\<lambda>n. 0) post_unsendable 25 None once_queued)"

definition post_refused :: db where
  "post_refused = committed post_marked (failOrRescheduleJob post_env 4 4 post_job (rejected ''no'' None) post_marked)"

definition post_cancelled :: db where
  "post_cancelled = committed post_sent (failProviderCancelledLetter post_env 9 9 ''letter-1'' ''cancelled'' post_sent)"

lemma post_oks:
  "is_ok (createLetterJobWithClient post_env 1 ''job-1'' (\<lambda>_. []) ''letter-1'' None post_office)"
  "is_ok (createLetterJobWithClient once_env 1 ''job-1'' (\<lambda>_. []) ''letter-1'' None post_office)"
  "fst (claimJob post_env 2 None post_queued) \<noteq> None"
  "is_ok (markProviderDispatch 3 post_job post_claimed)"
  by code_simp+

lemma post_queued_reachable: "outbox_reachable (post_queued, [])" "outbox_reachable (once_queued, [])"
proof -
  have e: "jobs post_office = [] \<and> submissions post_office = []" by (simp add: post_office_def empty_db_def)
  obtain j where "createLetterJobWithClient post_env 1 ''job-1'' (\<lambda>_. []) ''letter-1'' None post_office = Inr (j, post_queued)"
    using post_oks(1) unfolding post_queued_def by (rule committed_ok)
  from r_into_rtranclp [of outbox_step, OF outbox_step.enqueues [OF this]] e
  show "outbox_reachable (post_queued, [])" unfolding outbox_reachable_def by blast
  obtain j where "createLetterJobWithClient once_env 1 ''job-1'' (\<lambda>_. []) ''letter-1'' None post_office = Inr (j, once_queued)"
    using post_oks(2) unfolding once_queued_def by (rule committed_ok)
  from r_into_rtranclp [of outbox_step, OF outbox_step.enqueues [OF this]] e
  show "outbox_reachable (once_queued, [])" unfolding outbox_reachable_def by blast
qed

lemma reachable_run: "outbox_reachable x \<Longrightarrow> rtranclp outbox_step x y \<Longrightarrow> outbox_reachable y"
  unfolding outbox_reachable_def by (meson rtranclp_trans)

lemma batch_reachable:
  assumes "outbox_reachable (s, [])"
  shows "outbox_reachable (snd (processDueLetterJobs env clk jsk draw getProvider limit stopAt s), [])"
  by (rule reachable_run [OF assms processDue_run [OF prod.collapse [symmetric]]])

lemma post_sent_reachable: "outbox_reachable (post_sent, [])"
  unfolding post_sent_def by (rule batch_reachable [OF post_queued_reachable(1)])

lemma post_given_up_reachable: "outbox_reachable (post_given_up, [])"
  unfolding post_given_up_def by (rule batch_reachable [OF post_queued_reachable(2)])

lemma post_claim: "claimJob post_env 2 None post_queued = (Some post_job, post_claimed)"
  using post_oks(3) unfolding post_job_def post_claimed_def by (auto simp: prod_eq_iff)

section \<open>Witnesses\<close>

lemma batch_is_an_interleaving_witness:
  "rtranclp outbox_step (post_queued, [W_claimed post_job]) (post_sent, [W_claimed post_job]) \<and>
   submissions post_sent = [''letter-1'']"
  using batch_is_an_interleaving [OF prod.collapse [symmetric], of post_queued "[W_claimed post_job]" post_env
      "\<lambda>n. 2 + int n" "\<lambda>n. 2 + int n" "\<lambda>n. 0" post_accepts 25 None] post_run(2)
  by (simp add: post_sent_def)

lemma outbox_refines_life_cycle_witness:
  "\<exists>r j. jobs post_queued = [r] \<and> jobs post_claimed = [j] \<and> follows r j \<and> job_state j = (J_processing, O_not_dispatched)"
proof -
  have n: "length (jobs post_queued) = 1 \<and> length (jobs post_claimed) = 1" "distinct (map j_id (jobs post_queued))"
    and st: "map job_state (jobs post_claimed) = [(J_processing, O_not_dispatched)]" by code_simp+
  from n obtain r j where rj: "jobs post_queued = [r]" "jobs post_claimed = [j]"
    by (auto simp: length_Suc_conv numeral_eq_Suc)
  from outbox_refines_life_cycle [OF outbox_step.claims [OF post_claim, where ws = "[]"] n(2)] post_queued_reachable(1) rj
  have "follows r j" by (auto simp: list_all2_Cons1)
  with rj st show ?thesis by simp
qed

lemma outbox_rows_stay_valid_witness: "\<exists>j. jobs post_sent = [j] \<and> job_ok j \<and> j_status j = J_completed"
proof -
  from post_run(1) obtain j where "jobs post_sent = [j]" "job_state j = (J_completed, O_accepted)" by auto
  with outbox_rows_stay_valid [OF post_sent_reachable] show ?thesis by (auto simp: job_state_def)
qed

lemma submitted_at_most_once_witness:
  "count_list (submissions post_sent) ''letter-1'' = 1 \<and>
   (\<exists>j\<in>set (jobs post_sent). j_idempotency_key j = ''letter-1'' \<and> j_provider_outcome j \<noteq> O_not_dispatched)"
  using submitted_at_most_once [OF post_sent_reachable, of "''letter-1''"] post_run(2) by simp

lemma given_up_never_mailed_witness:
  "\<exists>j. find_job ''job-1'' post_given_up = Some j \<and> j_attempts j = 1 \<and> submissions post_given_up = [] \<and>
     j_idempotency_key j \<notin> set (submissions (snd (processDueLetterJobs post_env (\<lambda>n. 9000000 + int n)
       (\<lambda>n. 9000000 + int n) (\<lambda>n. 0) post_accepts 25 None post_given_up)))"
proof -
  have "map_option (\<lambda>j. (job_state j, j_attempts j)) (find_job ''job-1'' post_given_up) = Some ((J_failed, O_not_dispatched), 1)"
    and n: "submissions post_given_up = []" by code_simp+
  then obtain j where j: "find_job ''job-1'' post_given_up = Some j" "job_state j = (J_failed, O_not_dispatched)" "j_attempts j = 1"
    by auto
  from given_up_never_mailed [OF post_given_up_reachable j(1,2) processDue_run [OF prod.collapse [symmetric]]] j n
  show ?thesis by blast
qed

lemma claim_takes_first_due_witness:
  "\<exists>r\<in>set (jobs post_queued). claimable 2 post_queued None r \<and> post_job = claim_row 2 r \<and>
     job_written (j_id r) (claim_row 2) post_queued post_claimed"
  using claim_takes_first_due [of post_env 2 None post_queued post_claimed] post_claim by blast

lemma stale_claimant_changes_nothing_witness:
  "\<not> is_ok (markProviderDispatch 3 (post_job\<lparr>j_attempts := 0\<rparr>) post_claimed)"
proof -
  have "map_option (holds_claim (post_job\<lparr>j_attempts := 0\<rparr>)) (find_job (j_id (post_job\<lparr>j_attempts := 0\<rparr>)) post_claimed)
      = Some False" by code_simp
  then obtain c where "find_job (j_id (post_job\<lparr>j_attempts := 0\<rparr>)) post_claimed = Some c"
    "\<not> holds_claim (post_job\<lparr>j_attempts := 0\<rparr>) c" by auto
  from stale_claimant_changes_nothing [OF this] show ?thesis by blast
qed

lemma refunds_only_definite_rejections_witness:
  "refund_started ''order-1'' post_marked post_refused \<and>
   (\<exists>j. find_job ''job-1'' post_marked = Some j \<and> job_state j = (J_processing, O_dispatching))"
proof -
  have ok: "is_ok (failOrRescheduleJob post_env 4 4 post_job (rejected ''no'' None) post_marked)"
    and r: "refund_started ''order-1'' post_marked post_refused" and k: "j_id post_job = ''job-1''" by code_simp+
  obtain b where "failOrRescheduleJob post_env 4 4 post_job (rejected ''no'' None) post_marked = Inr (b, post_refused)"
    using ok unfolding post_refused_def by (rule committed_ok)
  from refunds_only_definite_rejections [OF this, of "''order-1''"] r k show ?thesis by auto
qed

lemma retry_delay_bounded_witness:
  "60000 \<le> retryDelayMilliseconds 9 (\<lambda>n. n - 1) \<and> retryDelayMilliseconds 9 (\<lambda>n. n - 1) < 3601000 \<and>
   retryDelayMilliseconds 3 (\<lambda>n. 0) \<le> retryDelayMilliseconds 4 (\<lambda>n. 0)"
  using retry_delay_bounded [of "\<lambda>n. n - 1" 9 3 4] by simp

lemma provider_cancel_settles_once_witness:
  "map_option lt_status (find_letter ''letter-1'' post_cancelled) = Some L_failed \<and>
   failProviderCancelledLetter post_env 10 10 ''letter-1'' ''cancelled'' post_cancelled = Inr (Co_unchanged, post_cancelled)"
proof -
  have c: "(case failProviderCancelledLetter post_env 9 9 ''letter-1'' ''cancelled'' post_sent of
      Inr (Co_failed, s) \<Rightarrow> True | _ \<Rightarrow> False)" by code_simp
  then have "is_ok (failProviderCancelledLetter post_env 9 9 ''letter-1'' ''cancelled'' post_sent)"
    by (auto split: sum.splits)
  then obtain x where "failProviderCancelledLetter post_env 9 9 ''letter-1'' ''cancelled'' post_sent = Inr (x, post_cancelled)"
    unfolding post_cancelled_def by (rule committed_ok)
  moreover from this c have "x = Co_failed" by (auto split: cancel_outcome.splits)
  ultimately have "failProviderCancelledLetter post_env 9 9 ''letter-1'' ''cancelled'' post_sent = Inr (Co_failed, post_cancelled)"
    by simp
  from provider_cancel_settles_once [OF this] show ?thesis by blast
qed

end
