(* ===== verification/OutboxAdminProps.thy ===== *)
theory OutboxAdminProps
  imports OutboxResolve OutboxProps
begin

text \<open>
  The properties of the operator's commands, and two interleavings of a command with a worker
  that outlived its claim.
\<close>

section \<open>The audit row of a command\<close>

lemma find_audit_record:
  "find_audit k s = None \<Longrightarrow> audits t = audits s \<Longrightarrow> au_key_hash a = k \<Longrightarrow> find_audit k (record_audit a t) = Some a"
  by (simp add: find_audit_def record_audit_def find_by_append)

lemma same_command_admin_audit: "same_command hash op p (admin_audit hash op reason p b a)"
  by (simp add: same_command_def admin_audit_def audit_text_def json_text_def)

lemma key_of_admin_audit [simp]: "au_key_hash (admin_audit hash op reason p b a) = hash (ap_key p)"
  by (simp add: admin_audit_def)

lemma upd_audits [simp]:
  "audits (upd_letter k f s) = audits s" "audits (upd_job k g s) = audits s"
  "audits (upd_order k h s) = audits s" "audits (upd_user k u s) = audits s"
  "audits (upd_code k c s) = audits s"
  by (simp_all add: upd_letter_def upd_job_def upd_order_def upd_user_def upd_code_def)

lemma return_prepaid_audits:
  "returnPrepaidCreditsForFailedLetter env now js l fc s = Inr s' \<Longrightarrow> audits s' = audits s"
  by (drule return_prepaid_pays) (simp add: pays_only_def)

section \<open>What a command that went through did\<close>

lemma cancel_Inr:
  assumes "cancelLeftLetterJobAsAdmin hash env now js p s = Inr ((jid, False), s')"
  obtains j l s2 s3 b where "find_audit (hash (ap_key p)) s = None" "find_job (ap_job p) s = Some j"
    "find_letter (j_letter j) s = Some l" "lt_user l = ap_user p" "cancellable j l (sends_blocked (lt_user l) s)"
    "s2 = (upd_letter (lt_id l) (cancel_letter now) (upd_job (ap_job p) (cancel_row now) s))
       \<lparr>history := history s @ [\<lparr> sh_letter = lt_id l, sh_old = L_queued, sh_new = L_cancelled,
          sh_provider_raw_status = None, sh_source = ''operator'' \<rparr>]\<rparr>"
    "returnPrepaidCreditsForFailedLetter env now js (lt_id l) ''operator_cancelled'' s2 = Inr s3"
    "jid = ap_job p" "s' = record_audit (admin_audit hash ''mail_job_cancel'' ''operator_cancelled_held_mail'' p b
       [(''jobStatus'', JStr ''cancelled'')]) s3"
proof -
  from assms have n: "find_audit (hash (ap_key p)) s = None"
    by (auto simp: cancelLeftLetterJobAsAdmin_def split: option.splits if_splits)
  from assms n obtain j l where jl: "find_job (ap_job p) s = Some j" "find_letter (j_letter j) s = Some l"
    "lt_user l = ap_user p" "cancellable j l (sends_blocked (lt_user l) s)"
    by (auto simp: cancelLeftLetterJobAsAdmin_def split: option.splits if_splits)
  have h: "history (upd_letter (lt_id l) (cancel_letter now) (upd_job (ap_job p) (cancel_row now) s)) = history s"
    by (simp add: upd_letter_def upd_job_def)
  from assms n jl show ?thesis
    by (auto simp: cancelLeftLetterJobAsAdmin_def Let_def h split: sum.splits intro: that)
qed

lemma retry_Inr:
  assumes "retryLetterJobAsAdmin hash now p s = Inr ((jid, False), s')"
  obtains j l ord b a where "find_audit (hash (ap_key p)) s = None" "find_job (ap_job p) s = Some j"
    "find_letter (j_letter j) s = Some l" "retry_order p l s = Inr ord" "retryable_job p j l ord"
    "\<not> isLetterAlreadyCompensated (lt_id l) (ap_user p) s" "jid = ap_job p"
    "s' = record_audit (admin_audit hash ''mail_job_retry'' ''operator_confirmed_rejection'' p b a)
       (upd_letter (lt_id l) (queue_letter now) (upd_job (ap_job p) (retry_row now) (retry_order_back now ord s)))"
  using assms by (auto simp: retryLetterJobAsAdmin_def split: option.splits if_splits sum.splits intro: that)

lemma release_Inr:
  assumes "releaseHeldLetterJobAsAdmin hash to_iso now p s = Inr ((jid, False), s')"
  obtains j l b a where "find_audit (hash (ap_key p)) s = None" "find_job (ap_job p) s = Some j"
    "find_letter (j_letter j) s = Some l" "release_order_error p l s = None" "lt_user l = ap_user p"
    "releasable now j l" "jid = ap_job p"
    "s' = record_audit (admin_audit hash ''mail_job_release'' ''operator_released_hold'' p b a)
       (upd_job (ap_job p) (release_row now) s)"
  using assms by (auto simp: releaseHeldLetterJobAsAdmin_def split: option.splits if_splits intro: that)

lemma resolve_Inr:
  assumes "resolveAmbiguousLetterJobAsAdmin hash env now js p s = Inr (r, s')" and "\<not> rr_replayed r"
  obtains j l after s1 where "validateMailResolution p" "find_audit (hash (rp_key p)) s = None"
    "find_job (rp_job p) s = Some j" "find_letter (j_letter j) s = Some l" "resolvable p j l (funding_row l s)"
    "rp_decision p = Dec_accepted \<Longrightarrow> can_accept_by (rp_provider p) l"
    "rp_decision p \<noteq> Dec_rejected \<Longrightarrow> \<not> isLetterAlreadyCompensated (lt_id l) (rp_user p) s"
    "resolve_decision env now js p l (funding_row l s) s = Inr (after, s1)"
    "r = \<lparr> rr_job = rp_job p, rr_decision = decision_text (rp_decision p),
           rr_resolution = resolution_text (rp_resolution p), rr_job_status = resolved_job_status (rp_decision p),
           rr_letter_status = resolved_letter_status (rp_decision p),
           rr_order_status = map_option order_status_text after, rr_replayed = False \<rparr>"
    "s' = record_audit (resolution_audit hash p (funding_row l s) after)
       (settle_alerts hash p (resolution_event p (funding_row l s) after s1))"
proof -
  from assms(1) have v: "validateMailResolution p"
    by (auto simp: resolveAmbiguousLetterJobAsAdmin_def split: if_splits)
  from assms v have n: "find_audit (hash (rp_key p)) s = None"
    by (auto simp: resolveAmbiguousLetterJobAsAdmin_def replayMailResolution_def split: option.splits sum.splits if_splits)
  from assms(1) v n obtain j l where jl: "find_job (rp_job p) s = Some j" "find_letter (j_letter j) s = Some l"
    by (auto simp: resolveAmbiguousLetterJobAsAdmin_def split: option.splits)
  from assms(1) v n jl show ?thesis
    by (auto simp: resolveAmbiguousLetterJobAsAdmin_def Let_def split: if_splits sum.splits intro: that)
qed

section \<open>Properties\<close>

text \<open>
  C23: an operator's command runs once. After a cancel, a release or a retry that went through,
  the same command with the same idempotency key answers that it is a replay and leaves the
  store as it is, whenever it comes.
\<close>

theorem operator_command_runs_once:
  "(cancelLeftLetterJobAsAdmin hash env now js p s = Inr ((jid, False), s1) \<longrightarrow>
      cancelLeftLetterJobAsAdmin hash env' now' js' p s1 = Inr ((jid, True), s1)) \<and>
   (releaseHeldLetterJobAsAdmin hash to_iso now p s = Inr ((jid, False), s2) \<longrightarrow>
      releaseHeldLetterJobAsAdmin hash to_iso now' p s2 = Inr ((jid, True), s2)) \<and>
   (retryLetterJobAsAdmin hash now p s = Inr ((jid, False), s3) \<longrightarrow>
      retryLetterJobAsAdmin hash now' p s3 = Inr ((jid, True), s3))"
proof (intro conjI impI)
  assume "cancelLeftLetterJobAsAdmin hash env now js p s = Inr ((jid, False), s1)"
  then show "cancelLeftLetterJobAsAdmin hash env' now' js' p s1 = Inr ((jid, True), s1)"
  proof (rule cancel_Inr)
    fix j l s2 s3 b
    let ?a = "admin_audit hash ''mail_job_cancel'' ''operator_cancelled_held_mail'' p b [(''jobStatus'', JStr ''cancelled'')]"
    assume n: "find_audit (hash (ap_key p)) s = None" and s2: "s2 = (upd_letter (lt_id l) (cancel_letter now)
        (upd_job (ap_job p) (cancel_row now) s))\<lparr>history := history s @ [\<lparr> sh_letter = lt_id l, sh_old = L_queued,
          sh_new = L_cancelled, sh_provider_raw_status = None, sh_source = ''operator'' \<rparr>]\<rparr>"
      and r: "returnPrepaidCreditsForFailedLetter env now js (lt_id l) ''operator_cancelled'' s2 = Inr s3"
      and jid: "jid = ap_job p" and s1: "s1 = record_audit ?a s3"
    have "audits s3 = audits s" using return_prepaid_audits [OF r] by (simp add: s2)
    from find_audit_record [OF n this, of ?a] show ?thesis
      by (simp add: cancelLeftLetterJobAsAdmin_def s1 jid same_command_admin_audit)
  qed
next
  assume "releaseHeldLetterJobAsAdmin hash to_iso now p s = Inr ((jid, False), s2)"
  then show "releaseHeldLetterJobAsAdmin hash to_iso now' p s2 = Inr ((jid, True), s2)"
    by (rule release_Inr)
      (simp add: releaseHeldLetterJobAsAdmin_def find_audit_record same_command_admin_audit)
next
  have o: "audits (retry_order_back now ord s) = audits s" for ord
    by (auto simp: retry_order_back_def split: option.splits bool.splits)
  assume "retryLetterJobAsAdmin hash now p s = Inr ((jid, False), s3)"
  then show "retryLetterJobAsAdmin hash now' p s3 = Inr ((jid, True), s3)"
    by (rule retry_Inr)
      (simp add: retryLetterJobAsAdmin_def find_audit_record same_command_admin_audit o)
qed

lemma decision_audits:
  "resolve_decision env now js p l ord s = Inr (after, s1) \<Longrightarrow> audits s1 = audits s"
  by (auto simp: resolve_decision_def resolve_order_def split: mail_decision.splits option.splits if_splits
      sum.splits dest: return_prepaid_audits)

text \<open>
  C17: a resolution reads back from its audit row. After a resolution that went through, the
  same request answers the same decision and the same statuses of job, letter and order, now
  as a replay, and changes nothing; a request that differs in the decision, the job, the user,
  the operator, the provider or the evidence is refused as a conflict unless its hashes collide.
\<close>

theorem resolution_replays:
  assumes "resolveAmbiguousLetterJobAsAdmin hash env now js p s = Inr (r, s')" and "\<not> rr_replayed r"
  shows "resolveAmbiguousLetterJobAsAdmin hash env' now' js' p s' = Inr (r\<lparr>rr_replayed := True\<rparr>, s') \<and>
    (\<forall>q. validateMailResolution q \<and> rp_key q = rp_key p \<and>
        (rp_decision q \<noteq> rp_decision p \<or> rp_provider q \<noteq> rp_provider p) \<longrightarrow>
      resolveAmbiguousLetterJobAsAdmin hash env' now' js' q s' = Inl (Admin_job_error ''idempotency_conflict''))"
  using assms
proof (rule resolve_Inr)
  fix j l after s1
  let ?a = "resolution_audit hash p (funding_row l s) after"
  assume v: "validateMailResolution p" and n: "find_audit (hash (rp_key p)) s = None"
    and d: "resolve_decision env now js p l (funding_row l s) s = Inr (after, s1)"
    and r: "r = \<lparr> rr_job = rp_job p, rr_decision = decision_text (rp_decision p),
           rr_resolution = resolution_text (rp_resolution p), rr_job_status = resolved_job_status (rp_decision p),
           rr_letter_status = resolved_letter_status (rp_decision p),
           rr_order_status = map_option order_status_text after, rr_replayed = False \<rparr>"
    and s': "s' = record_audit ?a (settle_alerts hash p (resolution_event p (funding_row l s) after s1))"
  have "audits (settle_alerts hash p (resolution_event p (funding_row l s) after s1)) = audits s"
    using decision_audits [OF d] by (simp add: settle_alerts_def resolution_event_def split: option.split)
  from find_audit_record [OF n this, of ?a] have f: "find_audit (hash (rp_key p)) s' = Some ?a"
    by (simp add: s' resolution_audit_def)
  have t: "audit_text (au_before ?a) ''subjectBinding'' = Some (mailResolutionSubjectBinding hash (rp_job p) (rp_user p))"
    "audit_text (au_after ?a) ''decision'' = Some (decision_text (rp_decision p))"
    "audit_text (au_after ?a) ''resolution'' = Some (resolution_text (rp_resolution p))"
    "audit_text (au_after ?a) ''jobStatus'' = Some (resolved_job_status (rp_decision p))"
    "audit_text (au_after ?a) ''letterStatus'' = Some (resolved_letter_status (rp_decision p))"
    "audit_text (au_after ?a) ''orderStatus'' = map_option order_status_text after"
    "audit_text (au_evidence ?a) ''providerName'' = Some (rp_provider p)"
    "audit_text (au_evidence ?a) ''providerReferenceHash'' = provider_reference hash p"
    by (simp_all add: resolution_audit_def audit_text_def json_text_def order_json_def split: option.split)
  have h: "au_operation ?a = ''mail_fulfillment_resolve''" "au_target_type ?a = ''letter_job''"
    "au_target_hash ?a = hash (rp_job p)" "au_actor_hash ?a = hash (rp_actor p)"
    by (simp_all add: resolution_audit_def)
  have "same_resolution hash p ?a" by (simp add: same_resolution_def t h)
  then have "resolveAmbiguousLetterJobAsAdmin hash env' now' js' p s' = Inr (r\<lparr>rr_replayed := True\<rparr>, s')"
    using v f by (simp add: resolveAmbiguousLetterJobAsAdmin_def replayMailResolution_def audit_str_def t r)
  moreover have "resolveAmbiguousLetterJobAsAdmin hash env' now' js' q s' = Inl (Admin_job_error ''idempotency_conflict'')"
    if q: "validateMailResolution q" "rp_key q = rp_key p" "rp_decision q \<noteq> rp_decision p \<or> rp_provider q \<noteq> rp_provider p" for q
  proof -
    have "decision_text (rp_decision q) = decision_text (rp_decision p) \<Longrightarrow> rp_decision q = rp_decision p"
      by (cases "rp_decision q"; cases "rp_decision p") simp_all
    then have "\<not> same_resolution hash q ?a" using q(3) by (auto simp: same_resolution_def t)
    then show ?thesis using q(1,2) f by (simp add: resolveAmbiguousLetterJobAsAdmin_def replayMailResolution_def)
  qed
  ultimately show ?thesis by blast
qed




text \<open>
  Released mail goes out. A release keeps the letter's own date for mail held for its
  funding and makes other mail due at once; when the account may send and its date has come,
  the next claim of that job takes it.
\<close>

theorem released_mail_is_claimed:
  assumes "releaseHeldLetterJobAsAdmin hash to_iso now p s = Inr ((jid, False), s')"
    and "find_job jid s = Some j" and "0 < j_max_attempts j"
    and "now \<le> t" and "isFundingHoldReason (j_hold_reason j) \<Longrightarrow> j_next_attempt_at j \<le> t"
    and "\<not> leftForOperator s (j\<lparr>j_hold_reason := None\<rparr>)" and "jid \<noteq> []" and "outboxDispatchEnabled env"
    and "distinct (map j_id (jobs s))"
  shows "\<exists>s''. claimJob env t (Some jid) s' = (Some (claim_row t (release_row now j)), s'')"
  using assms(1)
proof (rule release_Inr)
  fix j' l b a
  assume h: "find_job (ap_job p) s = Some j'" "releasable now j' l" "jid = ap_job p"
    and s': "s' = record_audit (admin_audit hash ''mail_job_release'' ''operator_released_hold'' p b a)
       (upd_job (ap_job p) (release_row now) s)"
  have jj: "j' = j" using h(1,3) assms(2) by simp
  let ?r = "release_row now j"
  have id: "j_id j = jid" by (rule find_job_key [OF assms(2)])
  have keep: "j_id (release_row now x) = j_id x" "j_letter (release_row now x) = j_letter x"
    "j_status (release_row now x) = j_status x" "j_provider_outcome (release_row now x) = j_provider_outcome x"
    "j_attempts (release_row now x) = j_attempts x" "j_max_attempts (release_row now x) = j_max_attempts x"
    "j_hold_reason (release_row now x) = None" for x
    by (simp_all add: release_row_def Let_def)
  have js: "jobs s' = upd_where (\<lambda>x. j_id x = jid) (release_row now) (jobs s)"
    by (simp add: s' record_audit_def upd_job_def h(3))
  have lo: "leftForOperator s' ?r = leftForOperator s (j\<lparr>j_hold_reason := None\<rparr>)"
    by (simp add: leftForOperator_def fundingHeldJob_def isFundingHoldReason_def keep s' record_audit_def)
  have due: "j_next_attempt_at ?r \<le> t" using assms(4,5) by (auto simp: release_row_def Let_def)
  have c: "claimable t s' (Some jid) ?r"
    using h(2) jj due lo assms(3,6,7) id
    by (auto simp: claimable_def keep releasable_def Let_def or_null_str_def split: if_splits)
  have mem: "j \<in> set (jobs s)" using assms(2) find_by_mem [of j_id jid "jobs s" j] by (simp add: find_job_def)
  have only: "x = ?r" if "x \<in> set (jobs s')" "claimable t s' (Some jid) x" for x
  proof -
    have "j_id x = jid" using that(2) assms(7) by (simp add: claimable_def or_null_str_def)
    moreover have "distinct (map j_id (jobs s'))" unfolding js by (subst map_upd_where) (simp_all add: keep assms(9))
    moreover have "?r \<in> set (jobs s')" using mem id by (auto simp: js set_upd_where)
    moreover have "j_id ?r = jid" by (simp add: keep id)
    ultimately show ?thesis using that(1) by (metis distinct_map inj_onD)
  qed
  obtain y where y: "claimJob env t (Some jid) s' = y" by blast
  show ?thesis
  proof (cases "fst y")
    case None
    then have "claimJob env t (Some jid) s' = (None, snd y)" using y by (simp add: prod_eq_iff)
    moreover have "?r \<in> set (jobs s')" using mem id by (auto simp: js set_upd_where)
    ultimately show ?thesis
      using claim_none [of env t "Some jid" s' "snd y"] c assms(8) by (auto simp: filter_empty_conv)
  next
    case (Some q)
    then have "claimJob env t (Some jid) s' = (Some q, snd y)" using y by (simp add: prod_eq_iff)
    moreover from this obtain r where "r \<in> set (jobs s')" "claimable t s' (Some jid) r" "q = claim_row t r"
      by (rule claim_cases) blast
    ultimately show ?thesis using only by blast
  qed
qed

section \<open>Runs\<close>

definition desk :: "string \<Rightarrow> admin_params" where
  "desk key = \<lparr> ap_job = ''job-1'', ap_user = ''s'', ap_actor = ''op'', ap_reason = ''why'', ap_key = key \<rparr>"

definition desk_retried :: db where
  "desk_retried = committed post_refused (retryLetterJobAsAdmin id 5 (desk ''k1'') post_refused)"

definition post_dated :: db where
  "post_dated = committed post_office
     (createLetterJobWithClient post_env 1 ''job-1'' (\<lambda>_. []) ''letter-1'' (Some 1000) post_office)"

definition desk_released :: db where
  "desk_released = committed post_dated (releaseHeldLetterJobAsAdmin id (\<lambda>_. []) 5 (desk ''k2'') post_dated)"

definition desk_prepaid :: db where
  "desk_prepaid = post_queued\<lparr>
     letters := map (\<lambda>l. l\<lparr>lt_funding_type := Fund_prepaid_balance, lt_funding_order_id := None\<rparr>) (letters post_queued),
     jobs := map (\<lambda>j. j\<lparr>j_hold_reason := Some ''funding_disputed''\<rparr>) (jobs post_queued)\<rparr>"

definition desk_cancelled :: db where
  "desk_cancelled = committed desk_prepaid
     (cancelLeftLetterJobAsAdmin id post_env 5 5 (desk ''k3'') desk_prepaid)"

text \<open>A call whose lock grew old while the provider kept it waiting, and the operator's answer.\<close>

definition long_id :: string where "long_id = ''00000000-0000-4000-8000-000000000001''"

definition long_queued :: db where
  "long_queued = committed post_office
     (createLetterJobWithClient post_env 1 long_id (\<lambda>_. []) ''letter-1'' None post_office)"

definition long_job :: letter_job where "long_job = the (fst (claimJob post_env 2 None long_queued))"

definition long_sent :: db where
  "long_sent = (let s = snd (claimJob post_env 2 None long_queued);
                    t = committed s (markProviderDispatch 3 long_job s)
                in t\<lparr>submissions := submissions t @ [''letter-1'']\<rparr>)"

definition long_held :: db where
  "long_held = holdAmbiguousDispatch 2000000 long_job (Coded_error ''stale_provider_dispatch'' []) long_sent"

definition answer :: "mail_decision \<Rightarrow> mail_resolution \<Rightarrow> string option \<Rightarrow> resolve_params" where
  "answer d r t = \<lparr> rp_job = long_id, rp_user = ''s'', rp_actor = ''op'', rp_key = ''resolution-1'',
     rp_decision = d, rp_resolution = r, rp_provider = ''postgrid'', rp_tracking = t \<rparr>"

definition long_requeued :: db where
  "long_requeued = committed long_held
     (resolveAmbiguousLetterJobAsAdmin id post_env 2000001 2000001 (answer Dec_retry Confirmed_rejected_retry None) long_held)"

lemma desk_oks:
  "(case retryLetterJobAsAdmin id 5 (desk ''k1'') post_refused of Inr ((j, r), _) \<Rightarrow> j = ''job-1'' \<and> \<not> r | Inl _ \<Rightarrow> False)"
  "(case releaseHeldLetterJobAsAdmin id (\<lambda>_. []) 5 (desk ''k2'') post_dated of Inr ((j, r), _) \<Rightarrow> j = ''job-1'' \<and> \<not> r | Inl _ \<Rightarrow> False)"
  "(case cancelLeftLetterJobAsAdmin id post_env 5 5 (desk ''k3'') desk_prepaid of Inr ((j, r), _) \<Rightarrow> j = ''job-1'' \<and> \<not> r | Inl _ \<Rightarrow> False)"
  "(case resolveAmbiguousLetterJobAsAdmin id post_env 2000001 2000001 (answer Dec_retry Confirmed_rejected_retry None) long_held of
     Inr (r, _) \<Rightarrow> rr_decision r = ''retry'' \<and> rr_job_status r = ''pending'' \<and> \<not> rr_replayed r | Inl _ \<Rightarrow> False)"
  by code_simp+

lemma commit_pair:
  assumes "case t of Inr ((j, r), s) \<Rightarrow> j = k \<and> \<not> r | Inl e \<Rightarrow> False"
  shows "t = Inr ((k, False), committed s0 t)"
  using assms by (cases t) (auto simp: committed_def)

lemma desk_runs:
  "retryLetterJobAsAdmin id 5 (desk ''k1'') post_refused = Inr ((''job-1'', False), desk_retried)"
  "releaseHeldLetterJobAsAdmin id (\<lambda>_. []) 5 (desk ''k2'') post_dated = Inr ((''job-1'', False), desk_released)"
  "cancelLeftLetterJobAsAdmin id post_env 5 5 (desk ''k3'') desk_prepaid = Inr ((''job-1'', False), desk_cancelled)"
  unfolding desk_retried_def desk_released_def desk_cancelled_def
  by (rule commit_pair, rule desk_oks)+

lemma long_run:
  obtains r where "resolveAmbiguousLetterJobAsAdmin id post_env 2000001 2000001
      (answer Dec_retry Confirmed_rejected_retry None) long_held = Inr (r, long_requeued)"
    "\<not> rr_replayed r" "rr_decision r = ''retry''" "rr_job_status r = ''pending''"
  using desk_oks(4) unfolding long_requeued_def by (auto simp: committed_def split: sum.splits intro: that)

section \<open>Witnesses\<close>

lemma operator_command_runs_once_witness:
  "cancelLeftLetterJobAsAdmin id post_env 6 6 (desk ''k3'') desk_cancelled = Inr ((''job-1'', True), desk_cancelled) \<and>
   releaseHeldLetterJobAsAdmin id (\<lambda>_. []) 6 (desk ''k2'') desk_released = Inr ((''job-1'', True), desk_released) \<and>
   retryLetterJobAsAdmin id 6 (desk ''k1'') desk_retried = Inr ((''job-1'', True), desk_retried)"
proof -
  note o = operator_command_runs_once
  from o [of id post_env 5 5 "desk ''k3''" desk_prepaid "''job-1''" desk_cancelled post_env 6 6]
    o [where to_iso = "\<lambda>_. []" and hash = id and now = 5 and p = "desk ''k2''" and s = post_dated
      and jid = "''job-1''" and ?s2.0 = desk_released and now' = 6]
    o [where hash = id and now = 5 and p = "desk ''k1''" and s = post_refused
      and jid = "''job-1''" and ?s3.0 = desk_retried and now' = 6]
  show ?thesis using desk_runs by blast
qed

lemma resolution_replays_witness:
  "\<exists>r. rr_decision r = ''retry'' \<and>
     resolveAmbiguousLetterJobAsAdmin id post_env 9 9 (answer Dec_retry Confirmed_rejected_retry None) long_requeued
       = Inr (r\<lparr>rr_replayed := True\<rparr>, long_requeued) \<and>
     resolveAmbiguousLetterJobAsAdmin id post_env 9 9 (answer Dec_rejected Confirmed_rejected_refund None) long_requeued
       = Inl (Admin_job_error ''idempotency_conflict'')"
proof -
  have v: "validateMailResolution (answer Dec_rejected Confirmed_rejected_refund None)" by code_simp
  obtain r where r: "resolveAmbiguousLetterJobAsAdmin id post_env 2000001 2000001
      (answer Dec_retry Confirmed_rejected_retry None) long_held = Inr (r, long_requeued)"
    "\<not> rr_replayed r" "rr_decision r = ''retry''"
    by (rule long_run)
  from resolution_replays [OF r(1,2), of post_env 9 9] r(3) v show ?thesis
    by (intro exI [of _ r]) (simp add: answer_def)
qed


lemma released_mail_is_claimed_witness:
  "\<exists>j s'. claimJob post_env 6 (Some ''job-1'') desk_released = (Some j, s') \<and> j_attempts j = 1"
proof -
  have p: "(case find_job ''job-1'' post_dated of None \<Rightarrow> False | Some j \<Rightarrow> 0 < j_max_attempts j \<and> j_attempts j = 0 \<and>
      \<not> isFundingHoldReason (j_hold_reason j) \<and> \<not> leftForOperator post_dated (j\<lparr>j_hold_reason := None\<rparr>))"
    "outboxDispatchEnabled post_env" "distinct (map j_id (jobs post_dated))" by code_simp+
  then obtain j where j: "find_job ''job-1'' post_dated = Some j" "0 < j_max_attempts j" "j_attempts j = 0"
    "\<not> isFundingHoldReason (j_hold_reason j)" "\<not> leftForOperator post_dated (j\<lparr>j_hold_reason := None\<rparr>)"
    by (auto split: option.splits)
  have "\<exists>s''. claimJob post_env 6 (Some ''job-1'') desk_released = (Some (claim_row 6 (release_row 5 j)), s'')"
    by (rule released_mail_is_claimed [OF desk_runs(2) j(1,2)]) (use j p in simp_all)
  moreover have "j_attempts (claim_row 6 (release_row 5 j)) = 1"
    using j(3) by (simp add: claim_row_def release_row_def Let_def)
  ultimately show ?thesis by blast
qed

section \<open>A result that came late\<close>

text \<open>
  The settlement of a rejection asks that the job is dispatching, not that it is dispatching for
  the attempt the result belongs to. After the operator queued the letter again and a second
  dispatch began, the late rejection of the first one fails the second and refunds its order.
\<close>

definition long_job2 :: letter_job where
  "long_job2 = the (fst (claimJob post_env 2000002 None long_requeued))"

definition long_resent :: db where
  "long_resent = (let s = snd (claimJob post_env 2000002 None long_requeued);
                      t = committed s (markProviderDispatch 2000003 long_job2 s)
                  in t\<lparr>submissions := submissions t @ [''letter-1'']\<rparr>)"

definition long_rejected :: db where
  "long_rejected = committed long_resent
     (failOrRescheduleJob post_env 2000004 2000004 long_job (rejected ''no'' None) long_resent)"

lemma late_rejection_settles_newer_dispatch:
  "j_attempts long_job = 1 \<and> j_attempts long_job2 = 2 \<and>
   map (\<lambda>j. (job_state j, j_attempts j)) (jobs long_resent) = [((J_processing, O_dispatching), 2)] \<and>
   map job_state (jobs long_rejected) = [(J_failed, O_definite_failure)] \<and>
   map o_status (orders long_rejected) = [Ord_refund_pending]"
  by code_simp

text \<open>
  A hold refuses completed and failed jobs, not cancelled ones: it reopens a job the operator
  cancelled and paid back.
\<close>

lemma hold_reopens_cancelled:
  "map job_state (jobs desk_cancelled) = [(J_cancelled, O_not_dispatched)] \<and>
   map lt_status (letters desk_cancelled) = [L_cancelled] \<and>
   map job_state (jobs (holdAmbiguousDispatch 9 post_job (Coded_error ''timeout'' []) desk_cancelled))
     = [(J_held, O_ambiguous)] \<and>
   map lt_status (letters (holdAmbiguousDispatch 9 post_job (Coded_error ''timeout'' []) desk_cancelled)) = [L_held]"
  by code_simp

end
