(* ===== verification/Gate.thy ===== *)
theory Gate
  imports Complex_Main Prelude "HOL-Library.AList"
begin

text \<open>
  The concurrency gate (src/utils/concurrencyGate.ts): at most \<open>limit\<close> callers run, at most
  \<open>maxQueue\<close> wait, each under a timer, and one key has at most its share of both. First the
  operations on the gate's variables, then the event loop's interleavings of them as a labelled
  step relation with the callers that run.

  A number of the options is a rational, or None for NaN and the infinities. A waiter is its
  caller and key; two waiters have different callers, as two objects have different identities.
\<close>

section \<open>Options\<close>

type_synonym js_number = "rat option"

definition whole_number :: "js_number \<Rightarrow> int option" where
  "whole_number x = (case x of None \<Rightarrow> None | Some q \<Rightarrow> if of_int \<lfloor>q\<rfloor> = q then Some \<lfloor>q\<rfloor> else None)"

record gate_options =
  go_name :: string
  go_limit :: js_number
  go_max_queue :: js_number
  go_queue_timeout :: js_number
  go_per_key :: "js_number option"

datatype gate_rejection = Queue_full | Queue_timeout | Key_limit

datatype gate_error = Gate_range string string | Gate_error string gate_rejection

record waiter =
  w_caller :: nat
  w_key :: "string option"

text \<open>The variables of a gate: its checked options, then its state. \<open>timers\<close> are the pending timers.\<close>

record gate =
  cg_name :: string
  cg_limit :: int
  cg_max_queue :: int
  cg_queue_timeout :: rat
  cg_per_key :: "int option"
  cg_active :: int
  cg_waiters :: "waiter list"
  cg_in_flight :: "(string \<times> int) list"
  cg_timers :: "waiter list"

definition at_least :: "int \<Rightarrow> js_number \<Rightarrow> bool" where
  "at_least n x = (case whole_number x of None \<Rightarrow> False | Some i \<Rightarrow> n \<le> i)"

definition whole :: "js_number \<Rightarrow> int" where
  "whole x = (case whole_number x of None \<Rightarrow> 0 | Some i \<Rightarrow> i)"

definition positive :: "js_number \<Rightarrow> bool" where
  "positive x = (case x of None \<Rightarrow> False | Some q \<Rightarrow> 0 < q)"

definition createConcurrencyGate :: "gate_options \<Rightarrow> gate_error + gate" where
  "createConcurrencyGate opts =
     (if \<not> at_least 1 (go_limit opts) then Inl (Gate_range (go_name opts) ''limit must be a positive integer'')
      else if \<not> at_least 0 (go_max_queue opts)
      then Inl (Gate_range (go_name opts) ''maxQueue must be a non-negative integer'')
      else if \<not> positive (go_queue_timeout opts)
      then Inl (Gate_range (go_name opts) ''queueTimeoutMs must be positive'')
      else if (case go_per_key opts of None \<Rightarrow> False | Some k \<Rightarrow> \<not> at_least 1 k)
      then Inl (Gate_range (go_name opts) ''perKeyLimit must be a positive integer'')
      else Inr \<lparr> cg_name = go_name opts, cg_limit = whole (go_limit opts),
        cg_max_queue = whole (go_max_queue opts), cg_queue_timeout = the (go_queue_timeout opts),
        cg_per_key = map_option whole (go_per_key opts), cg_active = 0, cg_waiters = [],
        cg_in_flight = [], cg_timers = [] \<rparr>)"

section \<open>The operations\<close>

definition in_flight :: "string \<Rightarrow> gate \<Rightarrow> int" where
  "in_flight k g = (case map_of (cg_in_flight g) k of None \<Rightarrow> 0 | Some n \<Rightarrow> n)"

definition countKey :: "string option \<Rightarrow> int \<Rightarrow> gate \<Rightarrow> gate" where
  "countKey key delta g = (case key of
     None \<Rightarrow> g
   | Some k \<Rightarrow> (let n = in_flight k g + delta
       in if 0 < n then g\<lparr>cg_in_flight := AList.update k n (cg_in_flight g)\<rparr>
          else g\<lparr>cg_in_flight := AList.delete k (cg_in_flight g)\<rparr>))"

datatype acquired = Acq_running | Acq_waiting | Acq_refused gate_rejection

definition over_share :: "string option \<Rightarrow> gate \<Rightarrow> bool" where
  "over_share key g = (case (key, cg_per_key g) of
     (Some k, Some share) \<Rightarrow> share \<le> in_flight k g | _ \<Rightarrow> False)"

definition acquire :: "nat \<Rightarrow> string option \<Rightarrow> gate \<Rightarrow> acquired \<times> gate" where
  "acquire caller key g =
     (if over_share key g then (Acq_refused Key_limit, g)
      else if cg_active g < cg_limit g
      then (Acq_running, countKey key 1 (g\<lparr>cg_active := cg_active g + 1\<rparr>))
      else if cg_max_queue g \<le> int (length (cg_waiters g)) then (Acq_refused Queue_full, g)
      else let w = \<lparr> w_caller = caller, w_key = key \<rparr>
           in (Acq_waiting, countKey key 1
                (g\<lparr>cg_timers := cg_timers g @ [w], cg_waiters := cg_waiters g @ [w]\<rparr>)))"

text \<open>The timer's callback; a caller it rejects fails with queue_timeout.\<close>

definition on_timer :: "waiter \<Rightarrow> gate \<Rightarrow> gate" where
  "on_timer w g = countKey (w_key w) (- 1)
     (g\<lparr>cg_timers := remove1 w (cg_timers g), cg_waiters := remove1 w (cg_waiters g)\<rparr>)"

text \<open>The end of a call: the waiter its slot is handed to, if one waits.\<close>

definition release :: "string option \<Rightarrow> gate \<Rightarrow> waiter option \<times> gate" where
  "release key g = (let g1 = countKey key (- 1) g
     in case cg_waiters g1 of
          w # ws \<Rightarrow> (Some w, g1\<lparr>cg_waiters := ws, cg_timers := remove1 w (cg_timers g1)\<rparr>)
        | [] \<Rightarrow> (None, g1\<lparr>cg_active := cg_active g1 - 1\<rparr>))"

record gate_snapshot =
  gs_active :: int
  gs_queued :: int
  gs_limit :: int
  gs_max_queue :: int
  gs_per_key :: "int option"
  gs_keys :: int

definition gate_snapshot :: "gate \<Rightarrow> gate_snapshot" where
  "gate_snapshot g = \<lparr> gs_active = cg_active g, gs_queued = int (length (cg_waiters g)),
     gs_limit = cg_limit g, gs_max_queue = cg_max_queue g, gs_per_key = cg_per_key g,
     gs_keys = int (length (cg_in_flight g)) \<rparr>"

section \<open>The event loop\<close>

text \<open>The gate, the callers that run, and every caller that started, in order.\<close>

record gate_system =
  sy_gate :: gate
  sy_running :: "waiter list"
  sy_started :: "nat list"

datatype gate_event = Arrives nat | Times_out nat | Settles nat

definition present :: "gate_system \<Rightarrow> waiter list" where
  "present x = sy_running x @ cg_waiters (sy_gate x)"

inductive gate_step :: "gate_system \<Rightarrow> gate_event \<Rightarrow> gate_system \<Rightarrow> bool" where
  starts: "acquire c key (sy_gate x) = (Acq_running, g) \<Longrightarrow> c \<notin> w_caller ` set (present x) \<Longrightarrow>
    gate_step x (Arrives c) (x\<lparr>sy_gate := g,
      sy_running := sy_running x @ [\<lparr> w_caller = c, w_key = key \<rparr>], sy_started := sy_started x @ [c]\<rparr>)"
| waits: "acquire c key (sy_gate x) = (Acq_waiting, g) \<Longrightarrow> c \<notin> w_caller ` set (present x) \<Longrightarrow>
    gate_step x (Arrives c) (x\<lparr>sy_gate := g\<rparr>)"
| refused: "acquire c key (sy_gate x) = (Acq_refused why, g) \<Longrightarrow> gate_step x (Arrives c) (x\<lparr>sy_gate := g\<rparr>)"
| times_out: "w \<in> set (cg_timers (sy_gate x)) \<Longrightarrow>
    gate_step x (Times_out (w_caller w)) (x\<lparr>sy_gate := on_timer w (sy_gate x)\<rparr>)"
| hands_over: "sy_running x = xs @ r # ys \<Longrightarrow> release (w_key r) (sy_gate x) = (Some w, g) \<Longrightarrow>
    gate_step x (Settles (w_caller r)) (x\<lparr>sy_gate := g, sy_running := xs @ ys @ [w],
      sy_started := sy_started x @ [w_caller w]\<rparr>)"
| frees: "sy_running x = xs @ r # ys \<Longrightarrow> release (w_key r) (sy_gate x) = (None, g) \<Longrightarrow>
    gate_step x (Settles (w_caller r)) (x\<lparr>sy_gate := g, sy_running := xs @ ys\<rparr>)"

inductive_cases gate_stepE: "gate_step x e y"

inductive gate_run :: "gate_system \<Rightarrow> gate_event list \<Rightarrow> gate_system \<Rightarrow> bool" where
  stop: "gate_run x [] x"
| step: "gate_step x e y \<Longrightarrow> gate_run y es z \<Longrightarrow> gate_run x (e # es) z"

inductive_cases gate_runE: "gate_run x (e # es) z"
inductive_cases gate_run_nilE: "gate_run x [] z"

definition opened :: "gate \<Rightarrow> gate_system" where
  "opened g = \<lparr> sy_gate = g, sy_running = [], sy_started = [] \<rparr>"

section \<open>The invariant\<close>

definition keyed :: "string \<Rightarrow> waiter list \<Rightarrow> int" where
  "keyed k ws = int (length (filter (\<lambda>w. w_key w = Some k) ws))"

definition counts_keys :: "gate_system \<Rightarrow> bool" where
  "counts_keys x \<longleftrightarrow> distinct (map fst (cg_in_flight (sy_gate x))) \<and>
     (\<forall>k. map_of (cg_in_flight (sy_gate x)) k =
        (if 0 < keyed k (present x) then Some (keyed k (present x)) else None))"

definition gate_ok :: "gate_system \<Rightarrow> bool" where
  "gate_ok x \<longleftrightarrow>
     cg_active (sy_gate x) = int (length (sy_running x)) \<and>
     cg_active (sy_gate x) \<le> cg_limit (sy_gate x) \<and>
     int (length (cg_waiters (sy_gate x))) \<le> cg_max_queue (sy_gate x) \<and>
     (cg_waiters (sy_gate x) \<noteq> [] \<longrightarrow> cg_active (sy_gate x) = cg_limit (sy_gate x)) \<and>
     cg_timers (sy_gate x) = cg_waiters (sy_gate x) \<and>
     distinct (map w_caller (present x)) \<and> counts_keys x \<and>
     (\<forall>k n. cg_per_key (sy_gate x) = Some n \<longrightarrow> keyed k (present x) \<le> n)"

section \<open>Counting keys\<close>

lemma countKey_keeps [simp]:
  "cg_name (countKey key d g) = cg_name g" "cg_limit (countKey key d g) = cg_limit g"
  "cg_max_queue (countKey key d g) = cg_max_queue g" "cg_per_key (countKey key d g) = cg_per_key g"
  "cg_active (countKey key d g) = cg_active g" "cg_waiters (countKey key d g) = cg_waiters g"
  "cg_timers (countKey key d g) = cg_timers g"
  by (auto simp: countKey_def Let_def split: option.split)

lemma keyed_simps [simp]:
  "keyed k [] = 0" "keyed k (w # ws) = keyed k ws + (if w_key w = Some k then 1 else 0)"
  "keyed k (ws @ vs) = keyed k ws + keyed k vs"
  by (simp_all add: keyed_def)

lemma keyed_nonneg: "0 \<le> keyed k ws"
  by (simp add: keyed_def)

lemma keyed_remove1: "w \<in> set ws \<Longrightarrow> keyed k (remove1 w ws) = keyed k ws - (if w_key w = Some k then 1 else 0)"
  by (induction ws) auto

text \<open>The map is exact: a key's number of running and waiting callers, and no key without one.\<close>

definition exact_for :: "(string \<times> int) list \<Rightarrow> (string \<Rightarrow> int) \<Rightarrow> bool" where
  "exact_for m f \<longleftrightarrow> distinct (map fst m) \<and> (\<forall>k. map_of m k = (if 0 < f k then Some (f k) else None))"

lemma counts_keys_exact: "counts_keys x \<longleftrightarrow> exact_for (cg_in_flight (sy_gate x)) (\<lambda>k. keyed k (present x))"
  by (simp add: counts_keys_def exact_for_def)

lemma in_flight_exact: "exact_for (cg_in_flight g) f \<Longrightarrow> 0 \<le> f k \<Longrightarrow> in_flight k g = f k"
  by (auto simp: exact_for_def in_flight_def)

lemma countKey_exact:
  assumes "exact_for (cg_in_flight g) f" and "\<And>k. 0 \<le> f k"
  shows "exact_for (cg_in_flight (countKey key d g)) (\<lambda>k. f k + (if key = Some k then d else 0))"
proof (cases key)
  case None
  with assms show ?thesis by (simp add: countKey_def)
next
  case (Some j)
  have n: "in_flight j g = f j" by (rule in_flight_exact [OF assms])
  show ?thesis
    using assms(1) Some
    by (auto simp: countKey_def Let_def n exact_for_def update_conv' delete_conv' distinct_update distinct_delete)
qed

end
