(* ===== verification/GateProps.thy ===== *)
theory GateProps
  imports Gate
begin

text \<open>
  The gate keeps its bounds in every interleaving, counts each key exactly, and serves its
  waiters in the order they came.
\<close>

section \<open>What each step does\<close>

lemma acquire_cases:
  assumes "acquire c key g = (a, g')"
  obtains (running) "a = Acq_running" "\<not> over_share key g" "cg_active g < cg_limit g"
      "g' = countKey key 1 (g\<lparr>cg_active := cg_active g + 1\<rparr>)"
    | (waiting) w where "a = Acq_waiting" "\<not> over_share key g" "\<not> cg_active g < cg_limit g"
      "int (length (cg_waiters g)) < cg_max_queue g" "w = \<lparr> w_caller = c, w_key = key \<rparr>"
      "g' = countKey key 1 (g\<lparr>cg_timers := cg_timers g @ [w], cg_waiters := cg_waiters g @ [w]\<rparr>)"
    | (refused) why where "a = Acq_refused why" "g' = g"
  using assms by (auto simp: acquire_def Let_def not_le split: if_splits)

lemma release_cases:
  assumes "release key g = (o', g')"
  obtains (handed) w ws where "o' = Some w" "cg_waiters g = w # ws"
      "g' = countKey key (- 1) g\<lparr>cg_waiters := ws, cg_timers := remove1 w (cg_timers g)\<rparr>"
    | (freed) "o' = None" "cg_waiters g = []" "g' = countKey key (- 1) g\<lparr>cg_active := cg_active g - 1\<rparr>"
  using assms by (auto simp: release_def Let_def split: list.splits)

lemma exact_for_cong: "exact_for m f \<Longrightarrow> (\<And>k. f k = h k) \<Longrightarrow> exact_for m h"
  by (simp add: exact_for_def)

text \<open>A step of the map, from the exact counts before to those after.\<close>

lemma counts_step:
  assumes "counts_keys x" and "cg_in_flight (sy_gate y) = cg_in_flight (countKey key d g)"
    and "cg_in_flight g = cg_in_flight (sy_gate x)"
    and "\<And>k. keyed k (present y) = keyed k (present x) + (if key = Some k then d else 0)"
  shows "counts_keys y"
proof -
  have "exact_for (cg_in_flight g) (\<lambda>k. keyed k (present x))"
    using assms(1) by (simp add: counts_keys_exact assms(3))
  from countKey_exact [OF this keyed_nonneg, of key d] show ?thesis
    by (simp add: counts_keys_exact assms(2,4))
qed

lemma gate_ok_keys:
  "gate_ok x \<Longrightarrow> counts_keys x"
  "gate_ok x \<Longrightarrow> cg_per_key (sy_gate x) = Some n \<Longrightarrow> keyed k (present x) \<le> n"
  unfolding gate_ok_def by blast+

lemma share_step:
  assumes "gate_ok x" and "\<not> over_share key (sy_gate x)" and "cg_per_key (sy_gate x) = Some n"
  shows "keyed k (present x) + (if key = Some k then 1 else 0) \<le> n"
proof -
  have "in_flight k (sy_gate x) = keyed k (present x)"
    using gate_ok_keys(1) [OF assms(1)] in_flight_exact keyed_nonneg by (simp add: counts_keys_exact)
  with gate_ok_keys(2) [OF assms(1,3)] assms(2,3) show ?thesis by (auto simp: over_share_def)
qed

lemma share_drops: "gate_ok x \<Longrightarrow> cg_per_key (sy_gate x) = Some n \<Longrightarrow>
    keyed k (present x) + (if key = Some k then - 1 else 0) \<le> n"
  by (drule (1) gate_ok_keys(2) [where k = k]) simp

lemma gate_step_config:
  "gate_step x e y \<Longrightarrow> cg_limit (sy_gate y) = cg_limit (sy_gate x) \<and>
     cg_max_queue (sy_gate y) = cg_max_queue (sy_gate x) \<and> cg_per_key (sy_gate y) = cg_per_key (sy_gate x)"
  by (erule gate_stepE; (erule acquire_cases release_cases)?; simp add: on_timer_def)

section \<open>The invariant\<close>

lemma gate_ok_opened:
  assumes "createConcurrencyGate opts = Inr g"
  shows "gate_ok (opened g)" "1 \<le> cg_limit g"
proof -
  have "1 \<le> cg_limit g" "0 \<le> cg_max_queue g" "cg_active g = 0" "cg_waiters g = []" "cg_timers g = []"
    "cg_in_flight g = []" "cg_per_key g = Some n \<Longrightarrow> 0 \<le> n" for n
    using assms by (auto simp: createConcurrencyGate_def at_least_def whole_def split: if_splits option.splits)
  then show "gate_ok (opened g)" "1 \<le> cg_limit g"
    by (auto simp: gate_ok_def opened_def present_def counts_keys_exact exact_for_def)
qed

lemma gate_ok_step:
  assumes "gate_step x e y" and "gate_ok x"
  shows "gate_ok y"
  using assms(1)
proof (cases rule: gate_step.cases)
  case (starts c key g)
  from starts(3) have g: "\<not> over_share key (sy_gate x)" "cg_active (sy_gate x) < cg_limit (sy_gate x)"
    "g = countKey key 1 (sy_gate x\<lparr>cg_active := cg_active (sy_gate x) + 1\<rparr>)"
    by (auto elim: acquire_cases)
  have w: "cg_waiters (sy_gate x) = []" using assms(2) g(2) by (auto simp: gate_ok_def)
  have k: "keyed k (present y) = keyed k (present x) + (if key = Some k then 1 else 0)" for k
    by (simp add: starts g present_def)
  have c: "counts_keys y"
    by (rule counts_step [of x y key 1 "sy_gate x\<lparr>cg_active := cg_active (sy_gate x) + 1\<rparr>"])
      (use assms(2) k in \<open>simp_all add: starts g gate_ok_def\<close>)
  have s: "keyed k (present y) \<le> n" if "cg_per_key (sy_gate y) = Some n" for k n
  proof -
    have "cg_per_key (sy_gate x) = Some n" using that by (simp add: starts g)
    from share_step [OF assms(2) g(1) this, of k] show ?thesis by (simp only: k)
  qed
  show ?thesis using assms(2) c s starts(4) w g(2)
    by (auto simp: gate_ok_def starts(2) present_def g(2,3))
next
  case (waits c key g)
  from waits(3) obtain w where g: "\<not> over_share key (sy_gate x)" "\<not> cg_active (sy_gate x) < cg_limit (sy_gate x)"
    "int (length (cg_waiters (sy_gate x))) < cg_max_queue (sy_gate x)" "w = \<lparr> w_caller = c, w_key = key \<rparr>"
    "g = countKey key 1 (sy_gate x\<lparr>cg_timers := cg_timers (sy_gate x) @ [w], cg_waiters := cg_waiters (sy_gate x) @ [w]\<rparr>)"
    by (auto elim: acquire_cases)
  have k: "keyed k (present y) = keyed k (present x) + (if key = Some k then 1 else 0)" for k
    by (simp add: waits g present_def)
  have c: "counts_keys y"
    by (rule counts_step [of x y key 1 "sy_gate x\<lparr>cg_timers := cg_timers (sy_gate x) @ [w], cg_waiters := cg_waiters (sy_gate x) @ [w]\<rparr>"])
      (use assms(2) k in \<open>simp_all add: waits g gate_ok_def\<close>)
  have s: "keyed k (present y) \<le> n" if "cg_per_key (sy_gate y) = Some n" for k n
  proof -
    have "cg_per_key (sy_gate x) = Some n" using that by (simp add: waits g)
    from share_step [OF assms(2) g(1) this, of k] show ?thesis by (simp only: k)
  qed
  show ?thesis using assms(2) c s waits(4) g(2,3)
    by (auto simp: gate_ok_def waits(2) present_def g(4,5))
next
  case (refused c key why g)
  then show ?thesis using assms(2) by (auto elim: acquire_cases)
next
  case (times_out w)
  have w: "w \<in> set (cg_waiters (sy_gate x))" using times_out assms(2) by (simp add: gate_ok_def)
  have k: "keyed k (present y) = keyed k (present x) + (if w_key w = Some k then - 1 else 0)" for k
    using w by (simp add: times_out(2) on_timer_def present_def keyed_remove1)
  have c: "counts_keys y"
    by (rule counts_step [of x y "w_key w" "- 1" "sy_gate x\<lparr>cg_timers := remove1 w (cg_timers (sy_gate x)), cg_waiters := remove1 w (cg_waiters (sy_gate x))\<rparr>"])
      (use assms(2) k in \<open>simp_all add: times_out(2) on_timer_def gate_ok_def\<close>)
  have s: "keyed k (present y) \<le> n" if "cg_per_key (sy_gate x) = Some n" for k n
    using share_drops [OF assms(2) that] by (simp only: k)
  have d: "distinct (map w_caller (present y))"
    using assms(2) distinct_remove1
    by (auto simp: gate_ok_def times_out(2) on_timer_def present_def distinct_map
        intro: inj_on_subset dest: in_set_remove1 [THEN iffD1] notin_set_remove1 set_remove1_subset [THEN subsetD])
  show ?thesis using assms(2) c s d w length_remove1 [of w "cg_waiters (sy_gate x)"]
    by (auto simp: gate_ok_def times_out(2) on_timer_def)
next
  case (hands_over xs r ys w g)
  from hands_over(4) obtain ws where g: "cg_waiters (sy_gate x) = w # ws"
    "g = countKey (w_key r) (- 1) (sy_gate x)\<lparr>cg_waiters := ws, cg_timers := remove1 w (cg_timers (sy_gate x))\<rparr>"
    by (auto elim: release_cases)
  have k: "keyed k (present y) = keyed k (present x) + (if w_key r = Some k then - 1 else 0)" for k
    by (simp add: hands_over(2,3) g present_def)
  have c: "counts_keys y"
    by (rule counts_step [of x y "w_key r" "- 1" "sy_gate x"])
      (use assms(2) k in \<open>simp_all add: hands_over(2) g gate_ok_def\<close>)
  have s: "keyed k (present y) \<le> n" if "cg_per_key (sy_gate x) = Some n" for k n
    using share_drops [OF assms(2) that] by (simp only: k)
  show ?thesis using assms(2) c s
    by (auto simp: gate_ok_def hands_over(2,3) g present_def)
next
  case (frees xs r ys g)
  from frees(4) have g: "cg_waiters (sy_gate x) = []"
    "g = countKey (w_key r) (- 1) (sy_gate x)\<lparr>cg_active := cg_active (sy_gate x) - 1\<rparr>"
    by (auto elim: release_cases)
  have k: "keyed k (present y) = keyed k (present x) + (if w_key r = Some k then - 1 else 0)" for k
    by (simp add: frees(2,3) g present_def)
  have c: "counts_keys y"
    by (rule counts_step [of x y "w_key r" "- 1" "sy_gate x"])
      (use assms(2) k in \<open>simp_all add: frees(2) g gate_ok_def\<close>)
  have s: "keyed k (present y) \<le> n" if "cg_per_key (sy_gate x) = Some n" for k n
    using share_drops [OF assms(2) that] by (simp only: k)
  show ?thesis using assms(2) c s
    by (auto simp: gate_ok_def frees(2,3) g present_def)
qed

lemma gate_ok_run: "gate_run x es y \<Longrightarrow> gate_ok x \<Longrightarrow> gate_ok y"
  by (induction rule: gate_run.induct) (auto intro: gate_ok_step)

text \<open>
  C34: the gate keeps its bounds. From a gate that was created, in every interleaving of
  arrivals, timers and settlements: the callers that run are as many as the gate counts and at
  most its limit, at most \<open>maxQueue\<close> wait, none waits while a slot is free, each waiter has its
  one pending timer and no timer is left without a waiter, a key's count is exactly its running
  and waiting callers and within its share, and a key without a caller has no entry.
\<close>

theorem gate_bounds:
  assumes "createConcurrencyGate opts = Inr g" and "gate_run (opened g) es y"
  shows "gate_snapshot (sy_gate y) = \<lparr> gs_active = int (length (sy_running y)),
      gs_queued = int (length (cg_timers (sy_gate y))), gs_limit = cg_limit g, gs_max_queue = cg_max_queue g,
      gs_per_key = cg_per_key g,
      gs_keys = int (card {k. \<exists>w \<in> set (sy_running y @ cg_waiters (sy_gate y)). w_key w = Some k}) \<rparr> \<and>
    int (length (sy_running y)) \<le> cg_limit g \<and> int (length (cg_waiters (sy_gate y))) \<le> cg_max_queue g \<and>
    (int (length (sy_running y)) = cg_limit g \<or> cg_waiters (sy_gate y) = []) \<and>
    cg_timers (sy_gate y) = cg_waiters (sy_gate y) \<and>
    (\<forall>k. in_flight k (sy_gate y) = keyed k (sy_running y @ cg_waiters (sy_gate y)) \<and>
       (case cg_per_key g of None \<Rightarrow> True | Some n \<Rightarrow> in_flight k (sy_gate y) \<le> n))"
proof -
  have ok: "gate_ok y" by (rule gate_ok_run [OF assms(2) gate_ok_opened(1) [OF assms(1)]])
  have cfg: "cg_limit (sy_gate y) = cg_limit g \<and> cg_max_queue (sy_gate y) = cg_max_queue g \<and> cg_per_key (sy_gate y) = cg_per_key g"
  proof -
    have "gate_run x es y \<Longrightarrow> cg_limit (sy_gate y) = cg_limit (sy_gate x) \<and>
        cg_max_queue (sy_gate y) = cg_max_queue (sy_gate x) \<and> cg_per_key (sy_gate y) = cg_per_key (sy_gate x)" for x es y
      by (induction rule: gate_run.induct) (auto dest: gate_step_config)
    from this [OF assms(2)] show ?thesis by (simp add: opened_def)
  qed
  have e: "exact_for (cg_in_flight (sy_gate y)) (\<lambda>k. keyed k (present y))"
    using ok by (simp add: gate_ok_def counts_keys_exact)
  have pos: "0 < keyed k ws \<longleftrightarrow> (\<exists>w\<in>set ws. w_key w = Some k)" for k ws
    by (auto simp: keyed_def filter_empty_conv)
  have "fst ` set (cg_in_flight (sy_gate y)) = {k. map_of (cg_in_flight (sy_gate y)) k \<noteq> None}"
    by (simp add: dom_map_of_conv_image_fst [symmetric] dom_def)
  also have "\<dots> = {k. \<exists>w\<in>set (present y). w_key w = Some k}"
    using e pos by (simp add: exact_for_def)
  finally have "length (cg_in_flight (sy_gate y)) = card {k. \<exists>w\<in>set (present y). w_key w = Some k}"
    using e distinct_card [of "map fst (cg_in_flight (sy_gate y))"] by (simp add: exact_for_def)
  moreover have "in_flight k (sy_gate y) = keyed k (present y)" for k
    by (rule in_flight_exact [OF e keyed_nonneg])
  ultimately show ?thesis
    using ok cfg by (auto simp: gate_ok_def gate_snapshot_def present_def split: option.split)
qed

section \<open>Waiters are served in order\<close>

definition settled :: "gate_event list \<Rightarrow> nat" where
  "settled es = length (filter (\<lambda>e. case e of Settles c \<Rightarrow> True | _ \<Rightarrow> False) es)"

lemma settled_simps [simp]:
  "settled [] = 0" "settled (Arrives c # es) = settled es" "settled (Times_out c # es) = settled es"
  "settled (Settles c # es) = Suc (settled es)"
  by (simp_all add: settled_def)

lemma gate_run_started: "gate_run x es y \<Longrightarrow> \<exists>vs. sy_started y = sy_started x @ vs"
proof (induction rule: gate_run.induct)
  case (step x e y es z)
  moreover from step(1) have "\<exists>vs. sy_started y = sy_started x @ vs" by (cases rule: gate_step.cases) auto
  ultimately show ?case by auto
qed simp

text \<open>A step before a waiter is served: it is served, or some still wait ahead of it.\<close>

lemma gate_step_waiter:
  assumes "gate_step x e y" and "gate_ok x" and "cg_waiters (sy_gate x) = us @ w # bs" and "e \<noteq> Times_out (w_caller w)"
  obtains (served) c where "us = []" "e = Settles c" "sy_started y = sy_started x @ [w_caller w]"
    | (ahead) a us' bs' c where "us = a # us'" "e = Settles c" "cg_waiters (sy_gate y) = us' @ w # bs'"
        "sy_started y = sy_started x @ [w_caller a]"
    | (waits) us' bs' where "cg_waiters (sy_gate y) = us' @ w # bs'" "set us' \<subseteq> set us" "length us' \<le> length us"
        "sy_started y = sy_started x" "settled [e] = 0"
  using assms(1)
proof (cases rule: gate_step.cases)
  case (starts c key g)
  from starts(3) have "cg_active (sy_gate x) < cg_limit (sy_gate x)" by (auto elim: acquire_cases)
  with assms(2,3) show ?thesis by (simp add: gate_ok_def)
next
  case (waits c key g)
  from waits(3) show ?thesis
    by (rule acquire_cases) (use that(3) [of us] assms(3) in \<open>simp_all add: waits\<close>)
next
  case (refused c key why g)
  from refused(3) show ?thesis
    by (rule acquire_cases) (use that(3) [of us bs] assms(3) in \<open>simp_all add: refused\<close>)
next
  case (times_out v)
  have "v \<noteq> w" using times_out(1) assms(4) by auto
  have ws: "cg_waiters (sy_gate y) = remove1 v (us @ w # bs)" by (simp add: times_out(2) on_timer_def assms(3))
  show ?thesis
  proof (cases "v \<in> set us")
    case True
    with ws have "cg_waiters (sy_gate y) = remove1 v us @ w # bs" by (simp add: remove1_append)
    with that(3) show ?thesis
      using True by (simp add: times_out(1,2) set_remove1_subset length_remove1)
  next
    case False
    with ws \<open>v \<noteq> w\<close> have "cg_waiters (sy_gate y) = us @ w # remove1 v bs" by (simp add: remove1_append)
    with that(3) show ?thesis by (simp add: times_out(1,2))
  qed
next
  case (hands_over xs r ys v g)
  from hands_over(4) have v: "us @ w # bs = v # cg_waiters g"
    by (rule release_cases) (simp_all add: assms(3))
  show ?thesis
  proof (cases us)
    case Nil
    with v that(1) show ?thesis by (simp add: hands_over)
  next
    case (Cons a us')
    with v that(2) [of a us' _ bs] show ?thesis by (simp add: hands_over)
  qed
next
  case (frees xs r ys g)
  from frees(4) show ?thesis by (rule release_cases) (simp_all add: assms(3))
qed

text \<open>
  C35: waiters are served in the order they came. A caller that waits behind \<open>n\<close> others and
  whose timer does not fire has started once more than \<open>n\<close> calls have settled, however
  arrivals and other timers interleave, and every caller that started before it since then was
  ahead of it: no later arrival overtakes.
\<close>

theorem gate_serves_in_order:
  assumes "createConcurrencyGate opts = Inr g" and "gate_run (opened g) es x"
    and "cg_waiters (sy_gate x) = us @ w # bs"
    and "gate_run x fs y" and "Times_out (w_caller w) \<notin> set fs" and "length us < settled fs"
  shows "\<exists>vs ws. sy_started y = sy_started x @ vs @ w_caller w # ws \<and> set vs \<subseteq> w_caller ` set us"
proof -
  have "gate_ok x" by (rule gate_ok_run [OF assms(2) gate_ok_opened(1) [OF assms(1)]])
  from assms(4) this assms(3,5,6) show ?thesis
  proof (induction arbitrary: us bs rule: gate_run.induct)
    case (step x e y fs z)
    have ok: "gate_ok y" by (rule gate_ok_step [OF step.hyps(1) step.prems(1)])
    have "e \<noteq> Times_out (w_caller w)" using step.prems(3) by auto
    from step.hyps(1) step.prems(1,2) this show ?case
    proof (cases rule: gate_step_waiter)
      case (served c)
      moreover obtain vs where "sy_started z = sy_started y @ vs" using gate_run_started [OF step.hyps(2)] ..
      ultimately have "sy_started z = sy_started x @ [] @ w_caller w # vs \<and> set [] \<subseteq> w_caller ` set us" by simp
      then show ?thesis by blast
    next
      case (ahead a us' bs' c)
      with step.IH [OF ok ahead(3)] step.prems(3,4) obtain vs ws where
        "sy_started z = sy_started y @ vs @ w_caller w # ws" "set vs \<subseteq> w_caller ` set us'" by auto
      with ahead have "sy_started z = sy_started x @ (w_caller a # vs) @ w_caller w # ws \<and>
          set (w_caller a # vs) \<subseteq> w_caller ` set us" by auto
      then show ?thesis by blast
    next
      case (waits us' bs')
      from waits(5) have "settled (e # fs) = settled fs" by (cases e) simp_all
      with step.IH [OF ok waits(1)] step.prems(3,4) waits(2-4) obtain vs ws where
        "sy_started z = sy_started y @ vs @ w_caller w # ws" "set vs \<subseteq> w_caller ` set us'" by auto
      with waits have "sy_started z = sy_started x @ vs @ w_caller w # ws \<and> set vs \<subseteq> w_caller ` set us"
        using image_mono [OF waits(2), of w_caller] by auto
      then show ?thesis by blast
    qed
  qed simp
qed

section \<open>A run\<close>

definition one_slot :: gate_options where
  "one_slot = \<lparr> go_name = ''image'', go_limit = Some 1, go_max_queue = Some 2, go_queue_timeout = Some 500,
     go_per_key = None \<rparr>"

definition one_gate :: gate where
  "one_gate = \<lparr> cg_name = ''image'', cg_limit = 1, cg_max_queue = 2, cg_queue_timeout = 500,
     cg_per_key = None, cg_active = 0, cg_waiters = [], cg_in_flight = [], cg_timers = [] \<rparr>"

lemma one_gate: "createConcurrencyGate one_slot = Inr one_gate"
  by (simp add: createConcurrencyGate_def one_slot_def one_gate_def at_least_def whole_def whole_number_def positive_def)

definition busy :: "waiter list \<Rightarrow> waiter list \<Rightarrow> nat list \<Rightarrow> gate_system" where
  "busy run ws st = \<lparr> sy_gate = one_gate\<lparr>cg_active := int (length run), cg_waiters := ws, cg_timers := ws\<rparr>,
     sy_running = run, sy_started = st \<rparr>"

definition nobody :: "nat \<Rightarrow> waiter" where "nobody c = \<lparr> w_caller = c, w_key = None \<rparr>"

lemma busy_fields [simp]:
  "sy_gate (busy run ws st) = one_gate\<lparr>cg_active := int (length run), cg_waiters := ws, cg_timers := ws\<rparr>"
  "sy_running (busy run ws st) = run" "sy_started (busy run ws st) = st"
  "present (busy run ws st) = run @ ws"
  by (simp_all add: busy_def present_def)

lemma nobody_fields [simp]: "w_caller (nobody c) = c" "w_key (nobody c) = None"
  by (simp_all add: nobody_def)

lemma busy_start: "gate_step (busy [] [] []) (Arrives 1) (busy [nobody 1] [] [1])"
  using gate_step.starts [of 1 None "busy [] [] []"]
  by (simp add: acquire_def over_share_def countKey_def one_gate_def nobody_def) (simp add: busy_def one_gate_def)

lemma busy_wait:
  assumes "length ws < 2" and "c \<notin> set (1 # map w_caller ws)"
  shows "gate_step (busy [nobody 1] ws st) (Arrives c) (busy [nobody 1] (ws @ [nobody c]) st)"
proof -
  have "acquire c None (sy_gate (busy [nobody 1] ws st)) = (Acq_waiting, sy_gate (busy [nobody 1] (ws @ [nobody c]) st))"
    using assms(1) by (simp add: acquire_def over_share_def countKey_def Let_def) (simp add: one_gate_def nobody_def)
  moreover have "c \<notin> w_caller ` set (present (busy [nobody 1] ws st))" using assms(2) by auto
  ultimately show ?thesis using gate_step.waits by (fastforce simp: busy_def)
qed

lemma busy_next: "gate_step (busy [nobody a] (nobody b # ws) st) (Settles a) (busy [nobody b] ws (st @ [b]))"
proof -
  have "release None (sy_gate (busy [nobody a] (nobody b # ws) st)) = (Some (nobody b), sy_gate (busy [nobody b] ws (st @ [b])))"
    by (simp add: release_def countKey_def Let_def)
  from gate_step.hands_over [of _ "[]" "nobody a" "[]", OF _ this [folded nobody_fields(2) [of a]]]
  show ?thesis by (simp add: busy_def)
qed

lemma busy_run:
  "gate_run (opened one_gate) [Arrives 1, Arrives 2, Arrives 3] (busy [nobody 1] [nobody 2, nobody 3] [1])"
  "gate_run (busy [nobody 1] [nobody 2, nobody 3] [1]) [Settles 1, Settles 2] (busy [nobody 3] [] [1, 2, 3])"
proof -
  have o: "opened one_gate = busy [] [] []" by (simp add: opened_def busy_def one_gate_def)
  show "gate_run (opened one_gate) [Arrives 1, Arrives 2, Arrives 3] (busy [nobody 1] [nobody 2, nobody 3] [1])"
    unfolding o
    using busy_start busy_wait [of "[]" 2 "[1]"] busy_wait [of "[nobody 2]" 3 "[1]"]
    by (auto intro: gate_run.intros)
  show "gate_run (busy [nobody 1] [nobody 2, nobody 3] [1]) [Settles 1, Settles 2] (busy [nobody 3] [] [1, 2, 3])"
    using busy_next [of 1 2 "[nobody 3]" "[1]"] busy_next [of 2 3 "[]" "[1, 2]"]
    by (auto intro: gate_run.intros)
qed

lemma gate_bounds_witness:
  "int (length (sy_running (busy [nobody 1] [nobody 2, nobody 3] [1]))) = cg_limit one_gate \<and>
   gs_queued (gate_snapshot (sy_gate (busy [nobody 1] [nobody 2, nobody 3] [1]))) = 2"
  using gate_bounds [OF one_gate busy_run(1)] by simp

lemma gate_serves_in_order_witness:
  "\<exists>vs ws. sy_started (busy [nobody 3] [] [1, 2, 3]) = [1] @ vs @ 3 # ws \<and> set vs \<subseteq> {2}"
  using gate_serves_in_order [OF one_gate busy_run(1), of "[nobody 2]" "nobody 3" "[]", OF _ busy_run(2)]
  by simp

end
