(* ===== verification/ScheduleLaws.thy ===== *)
theory ScheduleLaws
  imports Schedule
begin

text \<open>
  Calendar texts and day numbers are the same thing: the texts that read as dates are the
  texts of the days of the years 0 to 9999, and their order as texts is the order of days.
  Then business days by their number: each week has one, and what the loop over them steps.
\<close>

section \<open>Texts and days\<close>

lemma pad_digits_value: "list_all is_digit u \<Longrightarrow> pad (length u) (int (digits_value u)) = u"
proof (induction u rule: rev_induct)
  case Nil
  then show ?case by (simp add: digits_value_def)
next
  case (snoc c u)
  have c: "48 \<le> char_code c" "char_code c \<le> 57" using snoc.prems by (auto simp: is_digit_def)
  let ?k = "char_code c - 48"
  have k: "?k < 10" "char_code (digit_char ?k) = char_code c" using c char_code_digit [of ?k] by simp_all
  then have "digit_char ?k = c" by (simp add: char_code_def)
  moreover have "int (digits_value u * 10 + ?k) div 10 = int (digits_value u)"
      "nat (int (digits_value u * 10 + ?k) mod 10) = ?k"
    using k(1) by (simp_all add: nat_mod_distrib)
  ultimately show ?case using snoc by (simp add: digits_value_append)
qed

lemma realDayNumber_text:
  assumes "realDayNumber t = Some n"
  shows "t = fromDayNumber n"
proof -
  note r = realDayNumber_range [OF assms]
  obtain y m d where f: "date_fields t = Some (y, m, d)" "civil_from_day n = (y, m, d)"
    using assms by (auto simp: realDayNumber_def Let_def bind_eq_Some_conv split: if_splits)
  have y: "0 \<le> y" "y \<le> 9999" using r in_range_iff [of n] civil_roundtrip(6) [OF f(2)] by simp_all
  let ?y = "take 4 t" let ?m = "take 2 (drop 5 t)" let ?d = "drop 8 t"
  from f(1) have t: "length t = 10" "list_all is_digit ?y" "t ! 4 = CHR ''-''" "list_all is_digit ?m"
      "t ! 7 = CHR ''-''" "list_all is_digit ?d"
    and v: "y = int (digits_value ?y)" "m = int (digits_value ?m)" "d = int (digits_value ?d)"
    by (auto simp: date_fields_def digits_number_value split: if_splits)
  have p: "pad 4 y = ?y" "pad 2 m = ?m" "pad 2 d = ?d"
    using pad_digits_value [OF t(2)] pad_digits_value [OF t(4)] pad_digits_value [OF t(6)] t(1) by (simp_all add: v)
  have "t = ?y @ t ! 4 # ?m @ t ! 7 # ?d"
  proof -
    have "t = ?y @ drop 4 t" by simp
    also have "drop 4 t = t ! 4 # drop 5 t" using t(1) Cons_nth_drop_Suc [of 4 t] by (simp add: eval_nat_numeral)
    also have "drop 5 t = ?m @ drop 7 t"
      using append_take_drop_id [of 2 "drop 5 t"] by simp
    also have "drop 7 t = t ! 7 # ?d" using t(1) Cons_nth_drop_Suc [of 7 t] by (simp add: eval_nat_numeral)
    finally show ?thesis .
  qed
  also have "\<dots> = iso_date n"
    using f(2) y by (simp add: iso_date_def iso_year_def p t(3,5))
  also have "\<dots> = fromDayNumber n" using fromDayNumber_iso(1) [OF r] by simp
  finally show ?thesis .
qed

lemma realDayNumber_iff:
  "realDayNumber t = Some n \<longleftrightarrow> first_day \<le> n \<and> n \<le> last_day \<and> t = fromDayNumber n"
  using realDayNumber_range [of t n] realDayNumber_text [of t n] fromDayNumber_iso(2) [of n] by auto

lemma dayNumber_iff: "dayNumber t = Inr n \<longleftrightarrow> first_day \<le> n \<and> n \<le> last_day \<and> t = fromDayNumber n"
  using realDayNumber_iff [of t n] by (auto simp: dayNumber_def split: option.splits)

lemma dayNumber_from [simp]: "first_day \<le> n \<Longrightarrow> n \<le> last_day \<Longrightarrow> dayNumber (fromDayNumber n) = Inr n"
  by (simp add: dayNumber_iff)

text \<open>Civil dates come in the order of their days.\<close>

lemma civil_day:
  assumes "civil_from_day n = (y, m, d)"
  shows "n = day_from_year y + month_starts (leap_year y) ! nat (m - 1) + d - 1" "1 \<le> m" "m \<le> 12" "1 \<le> d"
    "m < 12 \<Longrightarrow> n < day_from_year y + month_starts (leap_year y) ! nat m"
proof -
  have eq: "year_from_day n = y" "m = int (length (filter (\<lambda>s. s \<le> n - day_from_year y) (month_starts (leap_year y))))"
    using assms by (auto simp: civil_from_day_def Let_def)
  have c: "month_check (leap_year y) (n - day_from_year y)"
    using doy_bounds [of n] unfolding eq(1) by (intro month_check_doy) simp_all
  note r = civil_roundtrip [OF assms]
  then show "1 \<le> m" "m \<le> 12" "1 \<le> d" by simp_all
  then show "n = day_from_year y + month_starts (leap_year y) ! nat (m - 1) + d - 1"
    using r(1) by (simp add: make_day_def)
  show "n < day_from_year y + month_starts (leap_year y) ! nat m" if "m < 12"
    using c that unfolding month_check_def Let_def eq(2) [symmetric]
    by (simp add: eq(2) [symmetric] nat_int_comparison) (simp add: eq(2))
qed

lemma month_starts_mono: "i \<le> j \<Longrightarrow> j < 12 \<Longrightarrow> month_starts leap ! i \<le> month_starts leap ! j"
  by (rule sorted_nth_mono) (simp_all add: month_starts_def)

lemma civil_less:
  assumes "civil_from_day a = (y, m, d)" and "civil_from_day b = (y', m', d')"
    and "(y, m, d) < (y', m', d')"
  shows "a < b"
proof -
  note A = civil_day [OF assms(1)] and B = civil_day [OF assms(2)]
  have y: "y = year_from_day a" "y' = year_from_day b"
    using civil_roundtrip(6) [OF assms(1)] civil_roundtrip(6) [OF assms(2)] by simp_all
  from assms(3) consider "y < y'" | "y = y'" "m < m'" | "y = y'" "m = m'" "d < d'" by (auto simp: le_less)
  then show ?thesis
  proof cases
    case 1
    then show ?thesis
      using year_from_day_bounds [of a] year_from_day_bounds [of b] day_from_year_mono_le [of "y + 1" y'] y by simp
  next
    case 2
    then have "a < day_from_year y + month_starts (leap_year y) ! nat m" using A(5) B(3) by simp
    moreover have "month_starts (leap_year y) ! nat m \<le> month_starts (leap_year y) ! nat (m' - 1)"
      using 2 A(2) B(3) by (intro month_starts_mono) simp_all
    ultimately show ?thesis using B(1,4) unfolding 2(1) by linarith
  next
    case 3
    then show ?thesis using A(1) B(1) by simp
  qed
qed

lemma civil_less_iff:
  assumes "civil_from_day a = x" and "civil_from_day b = z"
  shows "x < z \<longleftrightarrow> a < b"
proof -
  obtain y m d y' m' d' where c: "x = (y, m, d)" "z = (y', m', d')" by (cases x; cases z) auto
  have "x < z \<Longrightarrow> a < b" using civil_less [of a y m d b y' m' d'] assms c by simp
  moreover have "z < x \<Longrightarrow> b < a" using civil_less [of b y' m' d' a y m d] assms c by simp
  moreover have "x = z \<Longrightarrow> a = b" using civil_roundtrip(1) assms c by metis
  ultimately show ?thesis by (metis less_asym linorder_neq_iff)
qed

lemma text_order:
  assumes "first_day \<le> a" "a \<le> last_day" "first_day \<le> b" "b \<le> last_day"
  shows "js_less (fromDayNumber a) (fromDayNumber b) \<longleftrightarrow> a < b"
proof -
  obtain y m d where a: "civil_from_day a = (y, m, d)" by (cases "civil_from_day a") auto
  obtain y' m' d' where b: "civil_from_day b = (y', m', d')" by (cases "civil_from_day b") auto
  have ra: "0 \<le> y" "y \<le> 9999" "1 \<le> m" "m \<le> 12" "1 \<le> d" "d \<le> 31"
    using civil_roundtrip [OF a] in_range_iff [of a] assms(1,2) by simp_all
  have rb: "0 \<le> y'" "y' \<le> 9999" "1 \<le> m'" "m' \<le> 12" "1 \<le> d'" "d' \<le> 31"
    using civil_roundtrip [OF b] in_range_iff [of b] assms(3,4) by simp_all
  have f: "fromDayNumber a = pad 4 y @ CHR ''-'' # pad 2 m @ CHR ''-'' # pad 2 d"
    "fromDayNumber b = pad 4 y' @ CHR ''-'' # pad 2 m' @ CHR ''-'' # pad 2 d'"
    using fromDayNumber_iso(1) [OF assms(1,2)] fromDayNumber_iso(1) [OF assms(3,4)] a b ra rb
    by (simp_all add: iso_date_def iso_year_def)
  have "js_less (pad 4 y) (pad 4 y') \<longleftrightarrow> y < y'" "pad 4 y = pad 4 y' \<longleftrightarrow> y = y'"
    "js_less (pad 2 m) (pad 2 m') \<longleftrightarrow> m < m'" "pad 2 m = pad 2 m' \<longleftrightarrow> m = m'"
    "js_less (pad 2 d) (pad 2 d') \<longleftrightarrow> d < d'"
    using js_less_pad [of y 4 y'] js_less_pad [of m 2 m'] js_less_pad [of d 2 d'] ra rb
    by auto
  then have "js_less (fromDayNumber a) (fromDayNumber b) \<longleftrightarrow> (y, m, d) < (y', m', d')"
    unfolding f by (auto simp: js_less_append)
  then show ?thesis using civil_less_iff [OF a b] by simp
qed

section \<open>Business days\<close>

definition holiday_days :: "int list" where
  "holiday_days = [20454, 20472, 20500, 20598, 20623, 20637, 20703, 20738, 20768, 20783, 20812,
     20819, 20836, 20864, 20969, 20987, 21004, 21067, 21102, 21133, 21147, 21176, 21183]"

lemma holiday_texts: "USPS_HOLIDAYS = map fromDayNumber holiday_days" "USPS_HOLIDAYS_THROUGH = fromDayNumber 21183"
proof -
  have "map realDayNumber ts = map Some ns \<Longrightarrow> ts = map fromDayNumber ns" for ts ns
  proof (induction ns arbitrary: ts)
    case (Cons n ns)
    then obtain u us where u: "ts = u # us" "realDayNumber u = Some n" "map realDayNumber us = map Some ns"
      by (auto simp: map_eq_Cons_conv)
    with Cons.IH [OF u(3)] realDayNumber_text [OF u(2)] show ?case by simp
  qed simp
  moreover have "map realDayNumber USPS_HOLIDAYS = map Some holiday_days" by code_simp
  ultimately show "USPS_HOLIDAYS = map fromDayNumber holiday_days" .
  have "realDayNumber USPS_HOLIDAYS_THROUGH = Some 21183" by code_simp
  then show "USPS_HOLIDAYS_THROUGH = fromDayNumber 21183" by (rule realDayNumber_text)
qed

definition business :: "int \<Rightarrow> bool" where
  "business n \<longleftrightarrow> utc_weekday n \<noteq> 0 \<and> utc_weekday n \<noteq> 6 \<and> n \<notin> set holiday_days"

lemma fromDayNumber_inj:
  "first_day \<le> a \<Longrightarrow> a \<le> last_day \<Longrightarrow> first_day \<le> b \<Longrightarrow> b \<le> last_day \<Longrightarrow> fromDayNumber a = fromDayNumber b \<longleftrightarrow> a = b"
  by (rule iffI, drule arg_cong [of _ _ realDayNumber]) (simp_all add: fromDayNumber_iso(2))

lemma isBusinessDay_iff: "isBusinessDay (fromDayNumber n) = Inr b \<longleftrightarrow> first_day \<le> n \<and> n \<le> last_day \<and> b = business n"
proof
  have h: "fromDayNumber n \<in> set USPS_HOLIDAYS \<longleftrightarrow> n \<in> set holiday_days" if "first_day \<le> n" "n \<le> last_day"
  proof -
    have "\<forall>h\<in>set holiday_days. first_day \<le> h \<and> h \<le> last_day" by code_simp
    then have "\<forall>h\<in>set holiday_days. fromDayNumber n = fromDayNumber h \<longleftrightarrow> n = h"
      using that by (simp add: fromDayNumber_inj)
    then show ?thesis unfolding holiday_texts(1) by auto
  qed
  {
    assume i: "isBusinessDay (fromDayNumber n) = Inr b"
    from business_day_in_range [OF i] show "first_day \<le> n \<and> n \<le> last_day \<and> b = business n"
      using i h by (simp add: isBusinessDay_def business_def)
  next
    assume "first_day \<le> n \<and> n \<le> last_day \<and> b = business n"
    then show "isBusinessDay (fromDayNumber n) = Inr b" using h by (simp add: isBusinessDay_def business_def)
  }
qed

lemma isBusinessDay_text: "isBusinessDay t = Inr b \<longleftrightarrow> (\<exists>n. dayNumber t = Inr n \<and> b = business n)"
proof
  assume i: "isBusinessDay t = Inr b"
  then obtain n where n: "dayNumber t = Inr n" by (auto simp: isBusinessDay_def bindE_Inr_iff)
  with i show "\<exists>n. dayNumber t = Inr n \<and> b = business n" by (auto simp: dayNumber_iff isBusinessDay_iff)
next
  assume "\<exists>n. dayNumber t = Inr n \<and> b = business n"
  then show "isBusinessDay t = Inr b" by (auto simp: dayNumber_iff isBusinessDay_iff)
qed

text \<open>No holiday of the list is a Tuesday, so each week has a business day.\<close>

lemma tuesday_open: "utc_weekday n = 2 \<Longrightarrow> business n"
proof -
  have "\<forall>h\<in>set holiday_days. utc_weekday h \<noteq> 2" by code_simp
  then show "utc_weekday n = 2 \<Longrightarrow> business n" by (auto simp: business_def)
qed

lemma week_has_business_day: "\<exists>k. 0 \<le> k \<and> k < 7 \<and> business (n + k)"
proof -
  let ?k = "(2 - (n + 4)) mod 7"
  have "(n + ?k + 4) mod 7 = 2" by presburger
  then have "utc_weekday (n + ?k) = 2" by (simp add: utc_weekday_def)
  then show ?thesis using tuesday_open by (intro exI [of _ ?k]) auto
qed

definition open_days :: "int \<Rightarrow> int \<Rightarrow> nat" where
  "open_days a b = card {k. a < k \<and> k \<le> b \<and> business k}"

lemma open_days_step: "a \<le> b \<Longrightarrow> open_days a (b + 1) = open_days a b + (if business (b + 1) then 1 else 0)"
proof -
  assume "a \<le> b"
  have f: "finite {k. a < k \<and> k \<le> b \<and> business k}" by (rule finite_subset [of _ "{a..b}"]) auto
  have "{k. a < k \<and> k \<le> b + 1 \<and> business k} =
      (if business (b + 1) then insert (b + 1) {k. a < k \<and> k \<le> b \<and> business k} else {k. a < k \<and> k \<le> b \<and> business k})"
    using \<open>a \<le> b\<close> by (auto simp: le_less zless_add1_eq)
  then show ?thesis using f by (simp add: open_days_def)
qed

lemma open_days_refl [simp]: "open_days a a = 0"
proof -
  have "{k. a < k \<and> k \<le> a \<and> business k} = {}" by auto
  then show ?thesis unfolding open_days_def by (simp only: card.empty)
qed

lemma open_days_split: "a \<le> b \<Longrightarrow> b \<le> c \<Longrightarrow> open_days a c = open_days a b + open_days b c"
proof -
  assume o: "a \<le> b" "b \<le> c"
  have "{k. a < k \<and> k \<le> c \<and> business k} = {k. a < k \<and> k \<le> b \<and> business k} \<union> {k. b < k \<and> k \<le> c \<and> business k}"
    using o by auto
  moreover have "finite {k. x < k \<and> k \<le> y \<and> business k}" for x y by (rule finite_subset [of _ "{x..y}"]) auto
  ultimately show ?thesis by (simp add: open_days_def card_Un_disjoint disjoint_iff)
qed

lemma open_days_one: "business b \<Longrightarrow> open_days (b - 1) b = 1"
  using open_days_step [of "b - 1" "b - 1"] by simp

lemma open_days_none: "\<not> business b \<Longrightarrow> open_days (b - 1) b = 0"
  using open_days_step [of "b - 1" "b - 1"] by simp

text \<open>
  The loop ends on the business day the asked number of business days away; going back from a
  day, the day itself is not counted.
\<close>

lemma step_loop_forward:
  "step_loop False r n = Inr m \<Longrightarrow>
   n \<le> m \<and> open_days n m = r \<and> (0 < r \<longrightarrow> business m \<and> first_day \<le> m \<and> m \<le> last_day)"
proof (induction "False" r n rule: step_loop.induct)
  case (1 r n)
  show ?case
  proof (cases "r = 0")
    case True
    with 1(2) show ?thesis by (simp add: step_loop.simps)
  next
    case False
    with 1(2) obtain b where b: "isBusinessDay (fromDayNumber (n + 1)) = Inr b"
      and s: "step_loop False (if b then r - 1 else r) (n + 1) = Inr m"
      by (subst (asm) step_loop.simps) (auto simp: Let_def split: sum.splits)
    have bb: "b = business (n + 1)" "first_day \<le> n + 1" "n + 1 \<le> last_day" using b by (simp_all add: isBusinessDay_iff)
    from 1(1) [OF False, of "n + 1"] b s have ih: "n + 1 \<le> m \<and> open_days (n + 1) m = (if b then r - 1 else r) \<and>
        (0 < (if b then r - 1 else r) \<longrightarrow> business m \<and> first_day \<le> m \<and> m \<le> last_day)" by simp
    have sp: "open_days n m = (if b then 1 else 0) + open_days (n + 1) m"
      using open_days_split [of n "n + 1" m] open_days_one [of "n + 1"] open_days_none [of "n + 1"] ih bb(1) by auto
    show ?thesis
    proof (cases "b \<and> r = 1")
      case True
      then have "step_loop False 0 (n + 1) = Inr m" using s by simp
      then have "m = n + 1" by (simp add: step_loop.simps)
      with ih sp bb True show ?thesis by simp
    next
      case F: False
      with False have "0 < (if b then r - 1 else r)" by auto
      with ih sp False show ?thesis by (auto split: if_splits)
    qed
  qed
qed

lemma step_loop_back:
  "step_loop True r n = Inr m \<Longrightarrow>
   m \<le> n \<and> open_days (m - 1) (n - 1) = r \<and> (0 < r \<longrightarrow> business m \<and> first_day \<le> m \<and> m \<le> last_day)"
proof (induction "True" r n rule: step_loop.induct)
  case (1 r n)
  show ?case
  proof (cases "r = 0")
    case True
    with 1(2) show ?thesis by (simp add: step_loop.simps)
  next
    case False
    with 1(2) obtain b where b: "isBusinessDay (fromDayNumber (n - 1)) = Inr b"
      and s: "step_loop True (if b then r - 1 else r) (n - 1) = Inr m"
      by (subst (asm) step_loop.simps) (auto simp: Let_def split: sum.splits)
    have bb: "b = business (n - 1)" "first_day \<le> n - 1" "n - 1 \<le> last_day" using b by (simp_all add: isBusinessDay_iff)
    from 1(1) [OF False, of "n - 1"] b s have ih: "m \<le> n - 1 \<and> open_days (m - 1) (n - 1 - 1) = (if b then r - 1 else r) \<and>
        (0 < (if b then r - 1 else r) \<longrightarrow> business m \<and> first_day \<le> m \<and> m \<le> last_day)" by simp
    have sp: "open_days (m - 1) (n - 1) = open_days (m - 1) (n - 1 - 1) + (if b then 1 else 0)"
      using open_days_split [of "m - 1" "n - 1 - 1" "n - 1"] open_days_one [of "n - 1"] open_days_none [of "n - 1"] ih bb(1) by auto
    show ?thesis
    proof (cases "b \<and> r = 1")
      case True
      then have "step_loop True 0 (n - 1) = Inr m" using s by simp
      then have "m = n - 1" by (simp add: step_loop.simps)
      with ih sp bb True show ?thesis by simp
    next
      case F: False
      with False have "0 < (if b then r - 1 else r)" by auto
      with ih sp False show ?thesis by (auto split: if_splits)
    qed
  qed
qed

text \<open>The loop ends: within seven days for each business day it steps.\<close>

definition in_years :: "int \<Rightarrow> bool" where
  "in_years n \<longleftrightarrow> first_day \<le> n \<and> n \<le> last_day"

definition away :: "bool \<Rightarrow> int" where
  "away bk = (if bk then - 1 else 1)"

lemma step_loop_one:
  assumes "0 < r" and "in_years (n + away bk)"
  shows "step_loop bk r n = step_loop bk (if business (n + away bk) then r - 1 else r) (n + away bk)"
proof -
  have "isBusinessDay (fromDayNumber (n + away bk)) = Inr (business (n + away bk))"
    using assms(2) by (simp add: isBusinessDay_iff in_years_def)
  then show ?thesis using assms(1) by (subst step_loop.simps) (auto simp: away_def)
qed

lemma step_loop_skip:
  assumes "0 < r" and "\<And>j. 1 \<le> j \<Longrightarrow> j \<le> Suc k \<Longrightarrow> in_years (n + away bk * int j)"
    and "\<And>j. 1 \<le> j \<Longrightarrow> j \<le> k \<Longrightarrow> \<not> business (n + away bk * int j)"
    and "business (n + away bk * int (Suc k))"
  shows "step_loop bk r n = step_loop bk (r - 1) (n + away bk * int (Suc k))"
  using assms(2-4)
proof (induction k arbitrary: n)
  case 0
  then show ?case using step_loop_one [OF assms(1), of n bk] by simp
next
  case (Suc k)
  have sh: "n + away bk + away bk * int j = n + away bk * int (Suc j)" for j by (simp add: algebra_simps)
  have "step_loop bk r n = step_loop bk r (n + away bk)"
    using step_loop_one [OF assms(1), of n bk] Suc.prems(1) [of 1] Suc.prems(2) [of 1] by simp
  also have "\<dots> = step_loop bk (r - 1) (n + away bk + away bk * int (Suc k))"
  proof (rule Suc.IH)
    show "in_years (n + away bk + away bk * int j)" if "1 \<le> j" "j \<le> Suc k" for j
      using Suc.prems(1) [of "Suc j"] that unfolding sh by simp
    show "\<not> business (n + away bk + away bk * int j)" if "1 \<le> j" "j \<le> k" for j
      using Suc.prems(2) [of "Suc j"] that unfolding sh by simp
    show "business (n + away bk + away bk * int (Suc k))" unfolding sh by (rule Suc.prems(3))
  qed
  also have "n + away bk + away bk * int (Suc k) = n + away bk * int (Suc (Suc k))" by (rule sh)
  finally show ?case .
qed

lemma next_business_day: "\<exists>k<7. business (n + away bk * int (Suc k)) \<and> (\<forall>j. 1 \<le> j \<and> j \<le> k \<longrightarrow> \<not> business (n + away bk * int j))"
proof -
  have "\<exists>k<7. business (n + away bk * int (Suc k))"
  proof (cases bk)
    case True
    obtain k where "0 \<le> k" "k < 7" "business (n - 7 + k)" using week_has_business_day [of "n - 7"] by auto
    moreover from this have "n + away bk * int (Suc (nat (6 - k))) = n - 7 + k" using True by (simp add: away_def)
    ultimately have "business (n + away bk * int (Suc (nat (6 - k))))" "nat (6 - k) < 7" by (simp_all only:)
    then show ?thesis by blast
  next
    case False
    obtain k where "0 \<le> k" "k < 7" "business (n + 1 + k)" using week_has_business_day [of "n + 1"] by auto
    with False show ?thesis by (intro exI [of _ "nat k"]) (simp add: away_def ac_simps)
  qed
  then obtain i where i: "i < 7" "business (n + away bk * int (Suc i))" by blast
  define k where "k = (LEAST i. business (n + away bk * int (Suc i)))"
  have k: "business (n + away bk * int (Suc k))" "k \<le> i"
    unfolding k_def using i(2) by (rule LeastI, rule Least_le)
  have "\<not> business (n + away bk * int (Suc i))" if "i < k" for i
    using that not_less_Least unfolding k_def by blast
  then have "\<not> business (n + away bk * int j)" if "1 \<le> j" "j \<le> k" for j
    using that by (cases j) auto
  with k i(1) show ?thesis by (intro exI [of _ k]) auto
qed

lemma step_loop_total:
  "in_years n \<Longrightarrow> in_years (n + away bk * 7 * int r) \<Longrightarrow> \<exists>m. step_loop bk r n = Inr m \<and> \<bar>m - n\<bar> \<le> 7 * int r"
proof (induction r arbitrary: n)
  case 0
  then show ?case by (simp add: step_loop.simps)
next
  case (Suc r)
  obtain k where k: "k < 7" "business (n + away bk * int (Suc k))"
    "\<And>j. 1 \<le> j \<Longrightarrow> j \<le> k \<Longrightarrow> \<not> business (n + away bk * int j)"
    using next_business_day [of n bk] by blast
  have i: "in_years (n + away bk * int j)" if "j \<le> 7 * Suc r" for j
    using Suc.prems that by (auto simp: in_years_def away_def)
  have "step_loop bk (Suc r) n = step_loop bk r (n + away bk * int (Suc k))"
    using step_loop_skip [of "Suc r" k n bk] k i by simp
  moreover have "in_years (n + away bk * int (Suc k))" using i [of "Suc k"] k(1) by simp
  moreover have "in_years (n + away bk * int (Suc k) + away bk * 7 * int r)"
    using i [of "Suc k + 7 * r"] k(1) by (simp add: algebra_simps)
  ultimately obtain m where "step_loop bk (Suc r) n = Inr m" "\<bar>m - (n + away bk * int (Suc k))\<bar> \<le> 7 * int r"
    using Suc.IH by metis
  moreover have "\<bar>away bk * int (Suc k)\<bar> \<le> 7" using k(1) by (simp add: away_def)
  ultimately show ?case by (intro exI [of _ m]) auto
qed

end
