(* ===== verification/ScheduleClock.thy ===== *)
theory ScheduleClock
  imports ScheduleLaws
begin

text \<open>
  What the schedule relies on of the runtime's time zone data for America/New_York, as a
  locale: the offset from UTC is four or five hours, and the clocks change only between 06:00
  and 07:00 UTC (02:00 New York time on either side). From it, mail is released at nine. The
  interpretation is the rule in force since 2007.
\<close>

section \<open>The interface\<close>

locale new_york =
  fixes zone :: time_zone
  assumes whole: "zone t = - 4 * hour_ms \<or> zone t = - 5 * hour_ms"
    and steady: "D * day_ms + 7 * hour_ms \<le> t \<Longrightarrow> t < (D + 1) * day_ms + 6 * hour_ms \<Longrightarrow>
      zone t = zone (D * day_ms + 7 * hour_ms)"
begin

lemma clock_at:
  assumes "in_years n" and "0 \<le> h" and "h < 24" and "t + zone t = n * day_ms + h * hour_ms"
  shows "newYorkClock zone t = (fromDayNumber n, h)" "clock_offset zone t = Inr (zone t)"
proof -
  have l: "(n * day_ms + h * hour_ms) div day_ms = n" "(n * day_ms + h * hour_ms) mod day_ms div hour_ms = h"
    using assms(2,3) by (simp_all add: day_ms_def hour_ms_def mod_mult_self3 add.commute [of "n * _"])
  have "\<bar>n * day_ms + h * hour_ms\<bar> \<le> 8640000000000000"
    using assms(1-3) by (auto simp: in_years_def first_day_def last_day_def day_ms_def hour_ms_def abs_le_iff)
  moreover have "\<bar>n * day_ms\<bar> \<le> 8640000000000000"
    using assms(1) by (auto simp: in_years_def first_day_def last_day_def day_ms_def abs_le_iff)
  moreover have "n * day_ms div day_ms = n" by (simp add: day_ms_def)
  ultimately have i: "isoDay (n * day_ms + h * hour_ms) = fromDayNumber n" by (simp add: isoDay_def fromDayNumber_def l)
  then show c: "newYorkClock zone t = (fromDayNumber n, h)" by (simp only: newYorkClock_def Let_def assms(4) l)
  show "clock_offset zone t = Inr (zone t)"
    using assms(1,4) by (simp add: clock_offset_def c in_years_def)
qed

lemma released_at_nine:
  assumes "realDayNumber d = Some n"
  shows "\<exists>t. dispatchAt zone d = Inr t \<and> newYorkClock zone t = (d, 9)"
proof -
  have n: "in_years n" "d = fromDayNumber n" using assms by (simp_all add: realDayNumber_iff in_years_def)
  define z where "z = zone (n * day_ms + 7 * hour_ms)"
  have z: "z = - 4 * hour_ms \<or> z = - 5 * hour_ms" unfolding z_def by (rule whole)
  let ?wall = "n * day_ms + 9 * hour_ms"
  have s: "zone t = z" if "n * day_ms + 7 * hour_ms \<le> t" "t < n * day_ms + 30 * hour_ms" for t
    unfolding z_def using that by (intro steady) (simp_all add: day_ms_def hour_ms_def)
  have zw: "zone ?wall = z" "zone (?wall - z) = z" using z by (intro s; auto simp: hour_ms_def)+
  have w: "\<exists>h. 0 \<le> h \<and> h < 24 \<and> ?wall + zone ?wall = n * day_ms + h * hour_ms"
    using z zw(1) by (auto simp: hour_ms_def intro: exI [of _ 5] exI [of _ 4])
  then have o1: "clock_offset zone ?wall = Inr z" using clock_at(2) [OF n(1)] zw(1) by metis
  have g: "?wall - z + zone (?wall - z) = n * day_ms + 9 * hour_ms" by (simp add: zw(2))
  have o2: "clock_offset zone (?wall - z) = Inr z" using clock_at(2) [OF n(1) _ _ g] zw(2) by simp
  have "dispatchAt zone d = Inr (?wall - z)"
    using n by (simp add: dispatchAt_def newYorkTime_def DISPATCH_HOUR_def in_years_def Let_def o1 o2)
  moreover have "newYorkClock zone (?wall - z) = (d, 9)" using clock_at(1) [OF n(1) _ _ g] n(2) by simp
  ultimately show ?thesis by blast
qed

end

section \<open>The rule since 2007\<close>

text \<open>Daylight saving time from the second Sunday of March to the first Sunday of November.\<close>

definition sunday_from :: "int \<Rightarrow> int" where
  "sunday_from d = d + (7 - utc_weekday d) mod 7"

definition dst_starts :: "int \<Rightarrow> int" where "dst_starts y = sunday_from (make_day y 2 8)"

definition dst_ends :: "int \<Rightarrow> int" where "dst_ends y = sunday_from (make_day y 10 1)"

definition eastern :: time_zone where
  "eastern t = (let y = year_from_day (t div day_ms)
     in if dst_starts y * day_ms + 7 * hour_ms \<le> t \<and> t < dst_ends y * day_ms + 6 * hour_ms
        then - 4 * hour_ms else - 5 * hour_ms)"

lemma sunday_from_bounds: "d \<le> sunday_from d \<and> sunday_from d \<le> d + 6"
proof -
  have "0 \<le> (7 - utc_weekday d) mod 7" "(7 - utc_weekday d) mod 7 < 7" by simp_all
  then show ?thesis by (simp add: sunday_from_def)
qed

lemma dst_bounds: "day_from_year y + 59 \<le> dst_starts y" "dst_ends y + 50 \<le> day_from_year (y + 1)"
proof -
  have m: "make_day y 2 8 = day_from_year y + (if leap_year y then 67 else 66)"
    "make_day y 10 1 = day_from_year y + (if leap_year y then 305 else 304)"
    by (simp_all add: make_day_def month_starts_def)
  show "day_from_year y + 59 \<le> dst_starts y"
    using sunday_from_bounds [of "make_day y 2 8"] m by (simp add: dst_starts_def split: if_splits)
  show "dst_ends y + 50 \<le> day_from_year (y + 1)"
    using sunday_from_bounds [of "make_day y 10 1"] m day_from_year_Suc [of y]
    by (simp add: dst_ends_def days_in_year_def split: if_splits)
qed

interpretation eastern: new_york eastern
proof
  show "eastern t = - 4 * hour_ms \<or> eastern t = - 5 * hour_ms" for t by (simp add: eastern_def Let_def)
  fix D t :: int
  assume t: "D * day_ms + 7 * hour_ms \<le> t" "t < (D + 1) * day_ms + 6 * hour_ms"
  let ?s = "D * day_ms + 7 * hour_ms"
  let ?y = "year_from_day D"
  have s: "?s div day_ms = D" by (simp add: day_ms_def hour_ms_def)
  have es: "eastern ?s = (if dst_starts ?y \<le> D \<and> D < dst_ends ?y then - 4 * hour_ms else - 5 * hour_ms)"
    by (auto simp: eastern_def Let_def s day_ms_def hour_ms_def)
  have "t div day_ms = D \<or> t div day_ms = D + 1"
  proof -
    have "D \<le> t div day_ms" "t div day_ms \<le> D + 1"
      using t by (simp_all add: day_ms_def hour_ms_def)
    then show ?thesis by linarith
  qed
  moreover have "eastern t = eastern ?s" if "year_from_day (t div day_ms) = ?y"
  proof -
    have "eastern t = (if dst_starts ?y * day_ms + 7 * hour_ms \<le> t \<and> t < dst_ends ?y * day_ms + 6 * hour_ms
        then - 4 * hour_ms else - 5 * hour_ms)" by (simp only: eastern_def Let_def that)
    then show ?thesis using t unfolding es by (auto simp: day_ms_def hour_ms_def)
  qed
  moreover have "year_from_day (D + 1) = ?y \<or> D + 1 = day_from_year (?y + 1)"
    using year_from_day_bounds [of D] year_from_day_unique [of ?y "D + 1"] by linarith
  moreover have "eastern t = eastern ?s" if "t div day_ms = D + 1" "D + 1 = day_from_year (?y + 1)"
  proof -
    have y: "year_from_day (t div day_ms) = ?y + 1"
      unfolding that using day_from_year_mono [of "?y + 1" "?y + 1 + 1"] by (intro year_from_day_unique) simp_all
    have "\<not> dst_starts (?y + 1) * day_ms + 7 * hour_ms \<le> t"
      using dst_bounds(1) [of "?y + 1"] t(2) that(2) by (simp add: day_ms_def hour_ms_def)
    moreover have "\<not> D < dst_ends ?y" using dst_bounds(2) [of ?y] that(2) by simp
    ultimately show ?thesis unfolding es by (simp add: eastern_def Let_def y)
  qed
  ultimately show "eastern t = eastern ?s" by metis
qed

end
