(* ===== verification/ScheduleProps.thy ===== *)
theory ScheduleProps
  imports ScheduleClock
begin

text \<open>
  The properties of the arrive-by schedule: dates read back, mail dates are business days the
  lead time before their arrival, an accepted date never mails before the first mail date, the
  dates offered instead of a full one are dates it would accept, and mail is released at nine.
\<close>

section \<open>Mail dates\<close>

lemma open_days_pos: "business b \<Longrightarrow> a < b \<Longrightarrow> open_days a b = open_days a (b - 1) + 1"
  using open_days_split [of a "b - 1" b] open_days_one [of b] by simp

lemma mailOnFor_days:
  assumes "mailOnFor t lead = Inr u"
  shows "\<exists>n m. realDayNumber t = Some n \<and> realDayNumber u = Some m \<and> 0 \<le> lead \<and> lead \<le> 1000 \<and>
    business m \<and> m \<le> n \<and> open_days m n = nat lead"
proof -
  obtain c where c: "businessDayOnOrBefore t = Inr c" "0 \<le> lead" "lead \<le> 1000" "stepBusinessDays c (- lead) = Inr u"
    using assms by (auto simp: mailOnFor_def bindE_Inr_iff dayCount_def split: if_splits)
  obtain n where n: "dayNumber t = Inr n" using c(1)
    by (auto simp: businessDayOnOrBefore_def bindE_Inr_iff isBusinessDay_text)
  have "\<exists>b. dayNumber c = Inr b \<and> business b \<and> b \<le> n \<and> open_days b n = 0"
  proof (cases "business n")
    case True
    then have "c = t" using c(1) n by (auto simp: businessDayOnOrBefore_def bindE_Inr_iff isBusinessDay_text)
    with n True show ?thesis by simp
  next
    case False
    with c(1) n obtain b where b: "step_loop True 1 n = Inr b" "c = fromDayNumber b"
      by (auto simp: businessDayOnOrBefore_def bindE_Inr_iff isBusinessDay_text stepBusinessDays_def)
    note s = step_loop_back [OF b(1)]
    have "b \<noteq> n" using s by auto
    with s have "b \<le> n - 1" by simp
    then have "open_days (b - 1) (n - 1) = open_days (b - 1) b + open_days b (n - 1)"
      by (intro open_days_split) simp_all
    then have "open_days b (n - 1) = 0" using s open_days_one [of b] by simp
    then have "open_days b n = 0"
      using open_days_split [of b "n - 1" n] open_days_none [OF False] \<open>b \<le> n - 1\<close> by simp
    then show ?thesis using s b(2) by (auto simp: dayNumber_iff)
  qed
  then obtain b where b: "dayNumber c = Inr b" "business b" "b \<le> n" "open_days b n = 0" by blast
  from c(2-4) b(1) obtain m where m: "step_loop (0 < lead) (nat lead) b = Inr m" "u = fromDayNumber m"
    by (auto simp: stepBusinessDays_def bindE_Inr_iff)
  have "business m \<and> m \<le> b \<and> open_days m b = nat lead \<and> first_day \<le> m \<and> m \<le> last_day"
  proof (cases "lead = 0")
    case True
    with m(1) have "m = b" by (simp add: step_loop.simps)
    with True b show ?thesis by (simp add: dayNumber_iff)
  next
    case False
    then have "step_loop True (nat lead) b = Inr m" "0 < nat lead" using m(1) c(2) by simp_all
    from step_loop_back [OF this(1)] this(2) have s: "m \<le> b" "open_days (m - 1) (b - 1) = nat lead"
      "business m" "first_day \<le> m" "m \<le> last_day" by simp_all
    have "m \<noteq> b" using s(2) \<open>0 < nat lead\<close> by auto
    with s(1) have "m < b" by simp
    have "open_days (m - 1) (b - 1) = open_days (m - 1) m + open_days m (b - 1)"
      using \<open>m < b\<close> by (intro open_days_split) simp_all
    with s(2) open_days_one [OF s(3)] open_days_pos [OF b(2) \<open>m < b\<close>] have "open_days m b = nat lead" by simp
    with s show ?thesis by simp
  qed
  moreover from this have "open_days m n = nat lead" using open_days_split [of m b n] b(3,4) by simp
  moreover have "realDayNumber t = Some n" using n by (simp add: dayNumber_iff realDayNumber_iff)
  ultimately show ?thesis using c(2,3) b(3) m(2)
    by (rule_tac x = n in exI, rule_tac x = m in exI) (simp add: fromDayNumber_iso(2))
qed

lemma mailOnFor_total:
  assumes "realDayNumber t = Some n" and "0 \<le> n" and "0 \<le> lead" and "lead \<le> 1000"
  shows "\<exists>u m. mailOnFor t lead = Inr u \<and> realDayNumber u = Some m \<and> n - m \<le> 7 * (lead + 1)"
proof -
  have n: "in_years n" "t = fromDayNumber n" using assms(1) by (simp_all add: realDayNumber_iff in_years_def)
  have d: "dayNumber t = Inr n" using n by (simp add: in_years_def)
  have "\<exists>b. businessDayOnOrBefore t = Inr (fromDayNumber b) \<and> in_years b \<and> \<bar>b - n\<bar> \<le> 7"
  proof (cases "business n")
    case True
    then show ?thesis using d n by (intro exI [of _ n]) (auto simp: businessDayOnOrBefore_def bindE_Inr_iff isBusinessDay_text)
  next
    case False
    have "in_years (n + away True * 7 * int 1)" using n(1) assms(2) by (simp add: in_years_def away_def first_day_def)
    from step_loop_total [OF n(1) this] obtain b where b: "step_loop True 1 n = Inr b" "\<bar>b - n\<bar> \<le> 7" by auto
    with step_loop_back [OF b(1)] have "in_years b" by (simp add: in_years_def)
    moreover have "businessDayOnOrBefore t = Inr (fromDayNumber b)"
      using False d b by (auto simp: businessDayOnOrBefore_def bindE_Inr_iff isBusinessDay_text stepBusinessDays_def)
    ultimately show ?thesis using b(2) by blast
  qed
  then obtain b where b: "businessDayOnOrBefore t = Inr (fromDayNumber b)" "in_years b" "\<bar>b - n\<bar> \<le> 7" by blast
  have "in_years (b + away True * 7 * int (nat lead))"
    using b(2,3) assms(2-4) by (simp add: in_years_def away_def first_day_def)
  from step_loop_total [OF b(2) this] obtain m where m: "step_loop True (nat lead) b = Inr m" "\<bar>m - b\<bar> \<le> 7 * lead"
    using assms(3) by auto
  have "step_loop (0 < lead) (nat lead) b = Inr m"
    using m(1) assms(3) by (cases "lead = 0") (simp_all add: step_loop.simps)
  then have r: "mailOnFor t lead = Inr (fromDayNumber m)"
    using b(1,2) assms(3,4) by (auto simp: mailOnFor_def bindE_Inr_iff dayCount_def stepBusinessDays_def in_years_def)
  moreover have "realDayNumber (fromDayNumber m) = Some m"
    using m(2) b(2,3) assms(2-4) step_loop_back [OF m(1)]
    by (intro fromDayNumber_iso(2)) (auto simp: in_years_def first_day_def)
  ultimately show ?thesis using m(2) b(3) by (intro exI [of _ "fromDayNumber m"] exI [of _ m]) simp
qed

text \<open>
  C37: a mail date is the lead time before its arrival date. For a real date since 1970 and a
  lead of 0 to 1000 business days the mail date exists, is a business day on or before the
  arrival date with exactly the lead's number of business days after it up to that date, and
  lies within seven days per business day of it, so the loop over days ends.
\<close>

theorem mail_date_is_lead_before:
  assumes "realDayNumber arriveBy = Some n" and "0 \<le> n" and "0 \<le> lead" and "lead \<le> 1000"
  shows "\<exists>mailOn m. mailOnFor arriveBy lead = Inr mailOn \<and> realDayNumber mailOn = Some m \<and>
    isBusinessDay mailOn = Inr True \<and> m \<le> n \<and> n - m \<le> 7 * (lead + 1) \<and>
    card {k. m < k \<and> k \<le> n \<and> isBusinessDay (fromDayNumber k) = Inr True} = nat lead"
proof -
  obtain u m where u: "mailOnFor arriveBy lead = Inr u" "realDayNumber u = Some m" "n - m \<le> 7 * (lead + 1)"
    using mailOnFor_total [OF assms] by blast
  from mailOnFor_days [OF u(1)] u(2) assms(1) have d: "business m" "m \<le> n" "open_days m n = nat lead" by auto
  have r: "first_day \<le> m" "m \<le> last_day" "first_day \<le> n" "n \<le> last_day" "u = fromDayNumber m"
    using u(2) assms(1) by (simp_all add: realDayNumber_iff)
  have "{k. m < k \<and> k \<le> n \<and> isBusinessDay (fromDayNumber k) = Inr True} = {k. m < k \<and> k \<le> n \<and> business k}"
    using r by (auto simp: isBusinessDay_iff)
  moreover have "isBusinessDay u = Inr True" using d(1) r by (simp add: isBusinessDay_iff)
  ultimately show ?thesis using u d by (auto simp: open_days_def)
qed

section \<open>What is on offer\<close>

lemma step_forward_days:
  assumes "stepBusinessDays t c = Inr u" and "0 \<le> c" and "dayNumber t = Inr n" and "c = 0 \<longrightarrow> business n"
  shows "\<exists>m. realDayNumber u = Some m \<and> business m \<and> n \<le> m \<and> open_days n m = nat c"
proof -
  obtain m where m: "step_loop False (nat c) n = Inr m" "u = fromDayNumber m"
    using assms(1-3) by (auto simp: stepBusinessDays_def bindE_Inr_iff)
  from step_loop_forward [OF m(1)] show ?thesis
  proof (cases "c = 0")
    case True
    with m(1) have "m = n" by (simp add: step_loop.simps)
    with True assms(3,4) m(2) show ?thesis by (auto simp: dayNumber_iff realDayNumber_iff)
  next
    case False
    with step_loop_forward [OF m(1)] assms(2) m(2) show ?thesis by (auto simp: realDayNumber_iff)
  qed
qed

lemma earliestMailOn_days:
  assumes "earliestMailOn zone now = Inr u"
  shows "\<exists>T E. realDayNumber (newYorkDate zone now) = Some T \<and> realDayNumber u = Some E \<and> business E \<and> T \<le> E"
proof -
  obtain d h where clk: "newYorkClock zone now = (d, h)" by fastforce
  from assms clk obtain T where T: "dayNumber d = Inr T"
    and b: "(if business T \<and> h < MAIL_CUTOFF_HOUR then Inr d else stepBusinessDays d 1) = Inr u"
    by (auto simp: earliestMailOn_def bindE_Inr_iff isBusinessDay_text)
  have "\<exists>E. realDayNumber u = Some E \<and> business E \<and> T \<le> E"
    using b T step_forward_days [of d 1 u T] by (auto simp: dayNumber_iff realDayNumber_iff split: if_splits)
  then show ?thesis using T clk by (auto simp: newYorkDate_def dayNumber_iff realDayNumber_iff)
qed

lemma earliestArrival_days:
  assumes "earliestArrival zone now lead = Inr v"
  shows "\<exists>u E A. earliestMailOn zone now = Inr u \<and> realDayNumber u = Some E \<and> business E \<and>
    realDayNumber v = Some A \<and> E \<le> A \<and> open_days E A = nat lead"
proof -
  obtain u where u: "earliestMailOn zone now = Inr u" "0 \<le> lead" "stepBusinessDays u lead = Inr v"
    using assms by (auto simp: earliestArrival_def bindE_Inr_iff dayCount_def split: if_splits)
  from earliestMailOn_days [OF u(1)] obtain E where E: "realDayNumber u = Some E" "business E" by blast
  with step_forward_days [OF u(3,2), of E] u(1) show ?thesis by (auto simp: dayNumber_def)
qed

lemma late_text:
  assumes "last_day < n" and "realDayNumber t = Some k"
  shows "js_less (fromDayNumber n) t"
proof -
  obtain y m d where c: "civil_from_day n = (y, m, d)" by (cases "civil_from_day n") auto
  have "9999 < y" using assms(1) in_range_iff [of n] civil_roundtrip(6) [OF c] day_from_year_mono_le [of "y + 1" 0]
      year_from_day_bounds [of n] by (auto simp: year_from_day_range first_day_def last_day_def)
  then have "iso_date n = CHR ''+'' # pad 6 y @ ''-'' @ pad 2 m @ ''-'' @ pad 2 d"
    using c by (simp add: iso_date_def iso_year_def)
  then have "fromDayNumber n = [] \<or> (\<exists>r. fromDayNumber n = CHR ''+'' # r)"
    by (simp add: fromDayNumber_def isoDay_def day_ms_def numeral_eq_Suc)
  moreover obtain x xs where "t = x # xs" "is_digit x"
    using assms(2) by (cases t) (auto simp: realDayNumber_def date_fields_def numeral_eq_Suc bind_eq_Some_conv split: if_splits)
  ultimately show ?thesis by (auto simp: is_digit_def char_code_def)
qed

text \<open>A real date up to the latest arrival.\<close>

lemma latestArrival_days:
  assumes "latestArrival zone now h = Inr v" and "realDayNumber t = Some n" and "\<not> js_less v t"
  shows "\<exists>T. realDayNumber (newYorkDate zone now) = Some T \<and> n \<le> T + h \<and> n \<le> 21183"
proof -
  obtain T where T: "dayNumber (newYorkDate zone now) = Inr T"
    and v: "v = (if js_less (fromDayNumber (T + h)) USPS_HOLIDAYS_THROUGH then fromDayNumber (T + h) else USPS_HOLIDAYS_THROUGH)"
    and h: "0 \<le> h" "h \<le> 1000"
    using assms(1) by (auto simp: latestArrival_def bindE_Inr_iff addCalendarDays_def dayCount_def split: if_splits)
  have r: "realDayNumber (newYorkDate zone now) = Some T" using T by (simp add: dayNumber_iff realDayNumber_iff)
  have n: "in_years n" "t = fromDayNumber n" using assms(2) by (simp_all add: realDayNumber_iff in_years_def)
  have e: "realDayNumber USPS_HOLIDAYS_THROUGH = Some 21183" "in_years 21183"
    by (simp_all add: realDayNumber_iff holiday_texts(2) in_years_def first_day_def last_day_def)
  have o: "js_less (fromDayNumber a) (fromDayNumber b) \<longleftrightarrow> a < b" if "in_years a" "in_years b" for a b
    using that by (intro text_order) (simp_all add: in_years_def)
  show ?thesis
  proof (cases "in_years (T + h)")
    case True
    from o [OF True e(2)] o [OF True n(1)] o [OF e(2) n(1)] assms(3) r show ?thesis
      unfolding v n(2) holiday_texts(2) by (auto split: if_splits)
  next
    case False
    then have "last_day < T + h" using h realDayNumber_range [OF r] by (simp add: in_years_def)
    from late_text [OF this e(1)] late_text [OF this assms(2)] v assms(3) show ?thesis by simp
  qed
qed

text \<open>
  C36: an accepted arrival date can be kept. When a date is accepted at a moment, it is the real
  date asked for, neither past the horizon from the New York day nor past the holiday list; its
  mail date is a business day with exactly the lead's business days up to it, and is not before
  the first date mail can still go to the printer, which is not before that day.
\<close>

theorem accepted_arrival_can_be_kept:
  assumes "checkArrival zone arriveBy now settings = Inr (Arrival_ok date mailOn at earliest latest)"
  shows "date = arriveBy \<and> dispatchAt zone mailOn = Inr at \<and>
    (\<exists>n m E T first. realDayNumber arriveBy = Some n \<and> realDayNumber mailOn = Some m \<and>
      earliestMailOn zone now = Inr first \<and> realDayNumber first = Some E \<and>
      realDayNumber (newYorkDate zone now) = Some T \<and> T \<le> E \<and> E \<le> m \<and> m \<le> n \<and>
      n \<le> T + horizonDays settings \<and> isBusinessDay mailOn = Inr True \<and> open_days m n = nat (leadDays settings))"
proof -
  from assms obtain
    e: "earliestArrival zone now (leadDays settings) = Inr earliest" and
    l: "latestArrival zone now (horizonDays settings) = Inr latest" and
    p: "parseCalendarDate arriveBy = Some date" and
    c: "\<not> js_less date earliest" "\<not> js_less latest date" and
    m: "mailOnFor date (leadDays settings) = Inr mailOn" "dispatchAt zone mailOn = Inr at"
    by (auto simp: checkArrival_def bindE_Inr_iff split: option.splits if_splits)
  have d: "date = arriveBy" using p by (simp add: parseCalendarDate_def split: if_splits)
  from mailOnFor_days [OF m(1)] obtain n k where n: "realDayNumber date = Some n" "realDayNumber mailOn = Some k"
    "business k" "k \<le> n" "open_days k n = nat (leadDays settings)" by blast
  from earliestArrival_days [OF e] obtain u E A where E: "earliestMailOn zone now = Inr u" "realDayNumber u = Some E"
    "business E" "realDayNumber earliest = Some A" "E \<le> A" "open_days E A = nat (leadDays settings)" by blast
  from earliestMailOn_days [OF E(1)] E(2) obtain T where T: "realDayNumber (newYorkDate zone now) = Some T" "T \<le> E" by auto
  from latestArrival_days [OF l n(1) c(2)] T(1) have h: "n \<le> T + horizonDays settings" by auto
  have "A \<le> n"
    using c(1) n(1) E(4) text_order [of n A] by (simp add: realDayNumber_iff)
  have "E \<le> k"
  proof (rule ccontr)
    assume "\<not> E \<le> k"
    then have "k < E" by simp
    have "open_days k n = open_days k E + (open_days E A + open_days A n)"
      using open_days_split [of k E n] open_days_split [of E A n] \<open>k < E\<close> E(5) \<open>A \<le> n\<close> by simp
    with open_days_pos [OF E(3) \<open>k < E\<close>] E(6) n(5) show False by simp
  qed
  moreover have "isBusinessDay mailOn = Inr True" using n(2,3) by (auto simp: realDayNumber_iff isBusinessDay_iff)
  ultimately show ?thesis using d m(2) n E(1,2) T h by auto
qed

section \<open>The dates offered instead\<close>

definition on_offer :: "int \<Rightarrow> string \<Rightarrow> string \<Rightarrow> string \<Rightarrow> string \<Rightarrow> bool" where
  "on_offer lead earliest latest mailOn date \<longleftrightarrow>
     mailOnFor date lead = Inr mailOn \<and> \<not> js_less date earliest \<and> \<not> js_less latest date"

definition offers_ok :: "int \<Rightarrow> string \<Rightarrow> string \<Rightarrow> open_dates \<Rightarrow> bool" where
  "offers_ok lead earliest latest m \<longleftrightarrow> distinct (map fst m) \<and>
     (\<forall>(k, d, dist)\<in>set m. on_offer lead earliest latest k d)"

lemma note_arrival_ok:
  assumes "offers_ok lead earliest latest m" and "on_offer lead earliest latest k d"
  shows "offers_ok lead earliest latest (note_arrival k d dist m)"
proof (cases "map_of m k")
  case None
  then have "k \<notin> fst ` set m" by (simp add: map_of_eq_None_iff)
  with assms show ?thesis by (auto simp: note_arrival_def None offers_ok_def)
next
  case (Some x)
  then have "map fst (note_arrival k d dist m) = map fst m"
    by (simp add: note_arrival_def comp_def split_beta)
  moreover have "\<forall>(j, c, n)\<in>set (note_arrival k d dist m). on_offer lead earliest latest j c"
    using assms Some by (auto simp: note_arrival_def offers_ok_def split_beta split: if_splits)
  ultimately show ?thesis using assms(1) by (simp add: offers_ok_def)
qed

lemma arrivals_loop_ok:
  assumes "realDayNumber earliest = Some A"
  shows "arrivals_loop lead target date latest m = Inr m' \<Longrightarrow> offers_ok lead earliest latest m \<Longrightarrow>
    (\<And>n. realDayNumber date = Some n \<Longrightarrow> A \<le> n) \<Longrightarrow> offers_ok lead earliest latest m'"
proof (induction lead target date latest m rule: arrivals_loop.induct)
  case (1 lead target date latest m)
  show ?case
  proof (cases "js_less latest date")
    case True
    with 1(2,3) show ?thesis by (simp add: arrivals_loop.simps)
  next
    case False
    with 1(2) obtain n k where n: "dayNumber date = Inr n" and k: "mailOnFor date lead = Inr k"
      and r: "arrivals_loop lead target (fromDayNumber (n + 1)) latest (note_arrival k date \<bar>n - target\<bar> m) = Inr m'"
      by (subst (asm) arrivals_loop.simps) (auto split: sum.splits)
    have d: "realDayNumber date = Some n" using n by (simp add: dayNumber_iff realDayNumber_iff)
    then have "A \<le> n" by (rule 1(4))
    then have "\<not> js_less date earliest"
      using d assms text_order [of n A] by (simp add: realDayNumber_iff)
    with False k have "on_offer lead earliest latest k date" by (simp add: on_offer_def)
    from note_arrival_ok [OF 1(3) this] 1(1) [OF False n k r] \<open>A \<le> n\<close> show ?thesis
      using fromDayNumber_iso(2) [of "n + 1"] fromDayNumber_out [of "n + 1"] by (metis le_add_same_cancel1 dual_order.trans option.distinct(1) option.inject zero_le_one)
  qed
qed

text \<open>A latest arrival before one real date is before every later one.\<close>

lemma latest_less:
  assumes "latestArrival zone now h = Inr v" and "js_less v t" and "realDayNumber s = Some n"
    and "realDayNumber t = Some k" and "k \<le> n"
  shows "js_less v s"
proof -
  obtain T where T: "dayNumber (newYorkDate zone now) = Inr T" "0 \<le> h"
    and v: "v = (if js_less (fromDayNumber (T + h)) USPS_HOLIDAYS_THROUGH then fromDayNumber (T + h) else USPS_HOLIDAYS_THROUGH)"
    using assms(1) by (auto simp: latestArrival_def bindE_Inr_iff addCalendarDays_def dayCount_def split: if_splits)
  have e: "realDayNumber USPS_HOLIDAYS_THROUGH = Some 21183"
    by (simp add: realDayNumber_iff holiday_texts(2) first_day_def last_day_def)
  have o: "js_less a b \<longleftrightarrow> x < y" if "realDayNumber a = Some x" "realDayNumber b = Some y" for a b x y
    using that text_order [of x y] by (simp add: realDayNumber_iff)
  show ?thesis
  proof (cases "T + h \<le> last_day")
    case True
    then have "realDayNumber (fromDayNumber (T + h)) = Some (T + h)"
      using T by (intro fromDayNumber_iso(2)) (simp_all add: dayNumber_iff)
    with e have "\<exists>w. realDayNumber v = Some w"
      unfolding v by (cases "js_less (fromDayNumber (T + h)) USPS_HOLIDAYS_THROUGH") simp_all
    then obtain w where "realDayNumber v = Some w" by blast
    with o [OF this assms(4)] o [OF this assms(3)] assms(2,5) show ?thesis by simp
  next
    case False
    then have "last_day < T + h" by simp
    from late_text [OF this e] late_text [OF this assms(3)] v show ?thesis by simp
  qed
qed

text \<open>
  The dates offered instead of a full one are dates the schedule accepts. Each of the at
  most \<open>count\<close> dates lies between the earliest and the latest arrival, mails on a date that has
  room, and reads as accepted when it is asked for at the same moment; they come in order.
\<close>

lemma offered_arrivals_are_accepted:
  assumes "nearestOpenArrivals zone arriveBy now settings hasRoom count = Inr dates" and "d \<in> set dates"
    and "new_york zone"
  shows "length dates \<le> count \<and> sorted (map code_units dates) \<and>
    (\<exists>mailOn at earliest latest. hasRoom mailOn \<and>
       checkArrival zone d now settings = Inr (Arrival_ok d mailOn at earliest latest))"
proof -
  obtain earliest latest target m where e: "earliestArrival zone now (leadDays settings) = Inr earliest"
    and l: "latestArrival zone now (horizonDays settings) = Inr latest"
    and m: "arrivals_loop (leadDays settings) target earliest latest [] = Inr m"
    and ds: "dates = sort_key code_units (map fst (take count
        (sort_key (\<lambda>(date, distance). (distance, code_units date)) (map snd (filter (hasRoom \<circ> fst) m)))))"
    using assms(1) by (auto simp: nearestOpenArrivals_def bindE_Inr_iff)
  from earliestArrival_days [OF e] obtain u E A where A: "earliestMailOn zone now = Inr u" "realDayNumber u = Some E"
    "business E" "realDayNumber earliest = Some A" "E \<le> A" "open_days E A = nat (leadDays settings)" by blast
  have ok: "offers_ok (leadDays settings) earliest latest m"
    by (rule arrivals_loop_ok [OF A(4) m]) (simp_all add: offers_ok_def A(4))
  have "d \<in> fst ` snd ` {x \<in> set m. hasRoom (fst x)}"
    using assms(2) unfolding ds by (auto dest!: in_set_takeD simp: image_iff) force
  then obtain k dist where k: "(k, d, dist) \<in> set m" "hasRoom k" by auto
  with ok have o: "mailOnFor d (leadDays settings) = Inr k" "\<not> js_less d earliest" "\<not> js_less latest d"
    by (auto simp: offers_ok_def on_offer_def)
  obtain at where at: "dispatchAt zone k = Inr at"
    using mailOnFor_days [OF o(1)] new_york.released_at_nine [OF assms(3)] by blast
  obtain n where n: "realDayNumber d = Some n" using mailOnFor_days [OF o(1)] by blast
  have "\<not> js_less latest earliest"
  proof
    assume lt: "js_less latest earliest"
    from n A(4) have "js_less d earliest \<longleftrightarrow> n < A" using text_order [of n A] by (simp add: realDayNumber_iff)
    with o(2) have "A \<le> n" by simp
    have "js_less latest d"
      using l lt n A(4) \<open>A \<le> n\<close> by (rule latest_less)
    with o(3) show False by simp
  qed
  then have "checkArrival zone d now settings = Inr (Arrival_ok d k at earliest latest)"
    using e l o at n by (simp add: checkArrival_def parseCalendarDate_def)
  moreover have "length dates \<le> count" "sorted (map code_units dates)" by (simp_all add: ds)
  ultimately show ?thesis using k(2) by blast
qed

text \<open>
  Held mail is released at nine. Whatever the daylight saving, the instant computed for a
  real mail date is 09:00 of that date on New York's clock.
\<close>

theorem mail_released_at_nine:
  assumes "new_york zone" and "realDayNumber mailOn = Some n"
  shows "\<exists>t. dispatchAt zone mailOn = Inr t \<and> newYorkClock zone t = (mailOn, DISPATCH_HOUR)"
  using new_york.released_at_nine [OF assms] by (simp add: DISPATCH_HOUR_def)

text \<open>
  A date reads back as written. A text parses as a calendar date exactly when it is the text
  of a day of the years 0 to 9999, adding days to a date moves its day number by as many while
  the result stays in those years, and texts compare as their days do.
\<close>

theorem calendar_texts_are_days:
  "(parseCalendarDate t = Some t \<longleftrightarrow> (\<exists>n. first_day \<le> n \<and> n \<le> last_day \<and> t = fromDayNumber n)) \<and>
   (first_day \<le> n \<and> n \<le> last_day \<longrightarrow> dayNumber (fromDayNumber n) = Inr n) \<and>
   (dayNumber t = Inr n \<and> first_day \<le> n + k \<and> n + k \<le> last_day \<longrightarrow>
      bindE (addCalendarDays t k) dayNumber = Inr (n + k)) \<and>
   (dayNumber t = Inr n \<and> dayNumber u = Inr m \<longrightarrow> (js_less t u \<longleftrightarrow> n < m))"
proof (intro conjI impI)
  show "parseCalendarDate t = Some t \<longleftrightarrow> (\<exists>n. first_day \<le> n \<and> n \<le> last_day \<and> t = fromDayNumber n)"
    by (cases "realDayNumber t") (simp_all add: parseCalendarDate_def realDayNumber_iff [symmetric])
  show "dayNumber (fromDayNumber n) = Inr n" if "first_day \<le> n \<and> n \<le> last_day" using that by simp
  show "bindE (addCalendarDays t k) dayNumber = Inr (n + k)"
    if "dayNumber t = Inr n \<and> first_day \<le> n + k \<and> n + k \<le> last_day"
    using that by (simp add: addCalendarDays_def)
  show "js_less t u \<longleftrightarrow> n < m" if "dayNumber t = Inr n \<and> dayNumber u = Inr m"
    using that text_order [of n m] by (simp add: dayNumber_iff)
qed

section \<open>A day\<close>

text \<open>Thursday, 2 July 2026, 14:00 in New York: the Friday is a holiday.\<close>

definition july :: instant where "july = 20636 * day_ms + 18 * hour_ms"

definition two_months :: schedule_settings where "two_months = \<lparr> leadDays = 7, horizonDays = 60 \<rparr>"

lemma july_texts:
  "realDayNumber ''2026-07-02'' = Some 20636" "realDayNumber ''2026-07-06'' = Some 20640"
  "realDayNumber ''2026-07-09'' = Some 20643" "realDayNumber ''2026-07-15'' = Some 20649"
  "realDayNumber ''2026-07-20'' = Some 20654" "realDayNumber ''2026-08-31'' = Some 20696"
  by code_simp+

lemmas july_days = july_texts [THEN realDayNumber_text, symmetric]

lemma dayNumber_real: "realDayNumber t = Some n \<Longrightarrow> dayNumber t = Inr n"
  by (simp add: dayNumber_def)

lemma july_clock: "newYorkClock eastern july = (''2026-07-02'', 14)"
proof -
  have "eastern july = - 4 * hour_ms" by code_simp
  then show ?thesis
    using eastern.clock_at(1) [of 20636 14 july]
    by (simp add: july_days in_years_def first_day_def last_day_def july_def hour_ms_def day_ms_def)
qed

lemma step_loop_0: "step_loop bk 0 n = Inr n"
  by (simp add: step_loop.simps)

lemma july_business: "map business [20637, 20638, 20639, 20640, 20641, 20642, 20643, 20644, 20645, 20646, 20647,
    20648, 20649, 20650, 20651, 20652, 20653, 20654] = [False, False, False, True, True, True, True, True, False, False,
    True, True, True, True, True, False, False, True]"
  by code_simp

lemma july_steps:
  "step_loop False 1 20636 = Inr 20640" "step_loop False 7 20640 = Inr 20649" "step_loop True 7 20654 = Inr 20643"
  using july_business
  by (simp_all add: step_loop_one step_loop_0 away_def in_years_def first_day_def last_day_def)

lemma july_earliest:
  "earliestMailOn eastern july = Inr ''2026-07-06''" "earliestArrival eastern july 7 = Inr ''2026-07-15''"
  "latestArrival eastern july 60 = Inr ''2026-08-31''" "mailOnFor ''2026-07-20'' 7 = Inr ''2026-07-09''"
proof -
  have b: "isBusinessDay ''2026-07-20'' = Inr True" "\<exists>b. isBusinessDay ''2026-07-02'' = Inr b"
    using july_business by (simp_all add: isBusinessDay_text july_texts dayNumber_real)
  show e: "earliestMailOn eastern july = Inr ''2026-07-06''"
    using b(2) july_steps(1)
    by (auto simp: earliestMailOn_def july_clock MAIL_CUTOFF_HOUR_def stepBusinessDays_def july_texts dayNumber_real july_days)
  show "earliestArrival eastern july 7 = Inr ''2026-07-15''"
    using july_steps(2) by (simp add: earliestArrival_def e dayCount_def stepBusinessDays_def july_texts dayNumber_real july_days)
  show "latestArrival eastern july 60 = Inr ''2026-08-31''"
    by (simp add: latestArrival_def dayCount_def addCalendarDays_def newYorkDate_def july_clock july_texts dayNumber_real
        july_days USPS_HOLIDAYS_THROUGH_def char_code_def)
  show "mailOnFor ''2026-07-20'' 7 = Inr ''2026-07-09''"
    using july_steps(3) b(1)
    by (simp add: mailOnFor_def businessDayOnOrBefore_def dayCount_def stepBusinessDays_def july_texts dayNumber_real july_days)
qed

lemma july_check:
  "\<exists>at. dispatchAt eastern ''2026-07-09'' = Inr at \<and> checkArrival eastern ''2026-07-20'' july two_months =
     Inr (Arrival_ok ''2026-07-20'' ''2026-07-09'' at ''2026-07-15'' ''2026-08-31'')"
proof -
  obtain at where "dispatchAt eastern ''2026-07-09'' = Inr at" using eastern.released_at_nine [OF july_texts(3)] by blast
  then show ?thesis
    by (simp add: checkArrival_def two_months_def july_earliest parseCalendarDate_def july_texts char_code_def)
qed

text \<open>Without a lead time, over five days: the Monday is full, the Tuesday has room.\<close>

definition five_days :: schedule_settings where "five_days = \<lparr> leadDays = 0, horizonDays = 5 \<rparr>"

lemma five_texts: "realDayNumber ''2026-07-07'' = Some 20641" "realDayNumber ''2026-07-08'' = Some 20642"
  by code_simp+

lemmas five_days_texts = five_texts [THEN realDayNumber_text, symmetric]

lemma mail_same_day: "realDayNumber t = Some n \<Longrightarrow> business n \<Longrightarrow> mailOnFor t 0 = Inr t"
proof -
  assume r: "realDayNumber t = Some n" "business n"
  then have "isBusinessDay t = Inr True" by (auto simp: isBusinessDay_text dayNumber_real)
  with r(1) show ?thesis
    using realDayNumber_text [OF r(1)]
    by (simp add: mailOnFor_def businessDayOnOrBefore_def dayCount_def stepBusinessDays_def step_loop_0 dayNumber_real)
qed

lemma five_days_range:
  "mailOnFor ''2026-07-06'' 0 = Inr ''2026-07-06''" "mailOnFor ''2026-07-07'' 0 = Inr ''2026-07-07''"
  "earliestArrival eastern july 0 = Inr ''2026-07-06''" "latestArrival eastern july 5 = Inr ''2026-07-07''"
proof -
  show "mailOnFor ''2026-07-06'' 0 = Inr ''2026-07-06''" "mailOnFor ''2026-07-07'' 0 = Inr ''2026-07-07''"
    using july_business by (simp_all add: mail_same_day [OF july_texts(2)] mail_same_day [OF five_texts(1)])
  show "earliestArrival eastern july 0 = Inr ''2026-07-06''"
    by (simp add: earliestArrival_def july_earliest dayCount_def stepBusinessDays_def step_loop_0 july_texts dayNumber_real july_days)
  show "latestArrival eastern july 5 = Inr ''2026-07-07''"
    by (simp add: latestArrival_def dayCount_def addCalendarDays_def newYorkDate_def july_clock july_texts dayNumber_real
        five_days_texts USPS_HOLIDAYS_THROUGH_def char_code_def)
qed

lemma five_days_offer:
  "nearestOpenArrivals eastern ''2026-07-06'' july five_days (\<lambda>m. m \<noteq> ''2026-07-06'') 3 = Inr [''2026-07-07'']"
proof -
  have loop: "arrivals_loop 0 20640 ''2026-07-06'' ''2026-07-07'' [] =
      Inr [(''2026-07-06'', ''2026-07-06'', 0), (''2026-07-07'', ''2026-07-07'', 1)]"
    by (subst arrivals_loop.simps, simp add: five_days_range july_texts dayNumber_real five_days_texts char_code_def note_arrival_def,
        subst arrivals_loop.simps, simp add: five_days_range five_texts dayNumber_real five_days_texts char_code_def note_arrival_def,
        subst arrivals_loop.simps, simp add: char_code_def)
  show ?thesis
    by (simp add: nearestOpenArrivals_def five_days_def five_days_range loop july_texts dayNumber_real)
qed

section \<open>Witnesses\<close>

lemma mail_date_is_lead_before_witness:
  "\<exists>m. realDayNumber ''2026-07-09'' = Some m \<and> m \<le> 20654 \<and> 20654 - m \<le> 56 \<and>
     card {k. m < k \<and> k \<le> 20654 \<and> isBusinessDay (fromDayNumber k) = Inr True} = 7"
  using mail_date_is_lead_before [OF july_texts(5), of 7] july_earliest(4) by auto

lemma accepted_arrival_can_be_kept_witness:
  "\<exists>m E. realDayNumber ''2026-07-09'' = Some m \<and> realDayNumber ''2026-07-06'' = Some E \<and> E \<le> m \<and> open_days m 20654 = 7"
proof -
  obtain at where "checkArrival eastern ''2026-07-20'' july two_months =
     Inr (Arrival_ok ''2026-07-20'' ''2026-07-09'' at ''2026-07-15'' ''2026-08-31'')" using july_check by blast
  from accepted_arrival_can_be_kept [OF this] show ?thesis
    by (auto simp: july_earliest july_texts two_months_def)
qed

lemma mail_released_at_nine_witness:
  "\<exists>t. dispatchAt eastern ''2026-07-09'' = Inr t \<and> newYorkClock eastern t = (''2026-07-09'', 9)"
  using mail_released_at_nine [OF eastern.new_york_axioms july_texts(3)] by (simp add: DISPATCH_HOUR_def)

lemma calendar_texts_are_days_witness:
  "dayNumber (fromDayNumber 20654) = Inr 20654 \<and> bindE (addCalendarDays ''2026-07-02'' 60) dayNumber = Inr 20696 \<and>
   js_less ''2026-07-02'' ''2026-07-20''"
  using calendar_texts_are_days [of "''2026-07-02''" 20654 0 "''2026-07-20''" 20654]
    calendar_texts_are_days [of "''2026-07-02''" 20636 60 "''2026-07-20''" 20654]
    july_texts(1,5) [THEN dayNumber_real]
  by (simp add: first_day_def last_day_def)

end
