(* ===== verification/ScheduledMailProps.thy ===== *)
theory ScheduledMailProps
  imports OutboxProps LedgerProps GiftProps ScheduleProps
begin

text \<open>
  The properties of held mail: its cancel settles it once and for good, what paid for it comes
  back, its missed day is told once, and a full mail date offers dates that have room.
\<close>

section \<open>A cancelled letter\<close>

interpretation withdrawn_run: kept_by_steps outbox_step "settled jid (J_cancelled, O_not_dispatched) k"
  by unfold_locales (rule settled_step, simp_all)

lemma cancel_gone:
  assumes "cancelScheduledMailWithClient env now js letterId uid s = Inr (Cancelled m, s')" and "\<not> cm_alreadyCancelled m"
  obtains l j where "cancels_held letterId uid l j s" "cm_letterId m = letterId" "cm_kind m = returnedKind (lt_funding_type l)"
      "cm_arriveBy m = lt_arrive_by l" "cm_mailOn m = lt_mail_on l"
      "pays_only (cancel_rows now (j_id j) letterId s) s'"
      "(if lt_funding_type l = Fund_gift_letter then giftBack env now js letterId uid (cancel_rows now (j_id j) letterId s)
        else creditsBack now letterId uid (lt_credits_cost l) (cancel_rows now (j_id j) letterId s)) =
        Inr ((cm_count m, cm_shortfall m), s')"
  using assms(1) by (cases rule: cancel_cases) (use assms(2) that in auto)

text \<open>
  C24: cancelled mail is never mailed. Once a customer's cancel of held mail has gone through, the
  letter was never submitted to the provider, and whatever the workers in flight, further
  cancels, crashes and new jobs do afterwards, its job stays cancelled and its idempotency key
  is never submitted.
\<close>

theorem cancelled_mail_never_goes:
  assumes "outbox_reachable (s, ws)" and "cancelScheduledMailWithClient env now js letterId uid s = Inr (Cancelled m, s')"
    and "\<not> cm_alreadyCancelled m" and "rtranclp outbox_step (s', ws) (t, vs)"
  shows "\<exists>j j'. j \<in> set (jobs s) \<and> j_letter j = letterId \<and> job_state j = (J_pending, O_not_dispatched) \<and>
    find_job (j_id j) t = Some j' \<and> job_state j' = (J_cancelled, O_not_dispatched) \<and>
    j_idempotency_key j' = j_idempotency_key j \<and> j_idempotency_key j \<notin> set (submissions t)"
proof -
  obtain l j where c: "cancels_held letterId uid l j s" and p: "pays_only (cancel_rows now (j_id j) letterId s) s'"
    using assms(2,3) by (rule cancel_gone)
  have j: "j \<in> set (jobs s)" "j_letter j = letterId" "job_state j = (J_pending, O_not_dispatched)"
    using c by (auto simp: cancels_held_def job_state_def dest: find_jobD)
  have inv: "outbox_inv (s, ws)" by (rule outbox_reachable_inv [OF assms(1)])
  then have inv': "outbox_inv (s', ws)"
    using cancel_keeps [of s ws env now js False letterId uid] assms(2) by (simp add: cancelScheduledMail_def step_ok_def)
  have "find_job (j_id j) s = Some j"
    using j(1) inv_jobs_ok [OF inv] by (auto simp: find_job_def jobs_ok_def intro: find_by_distinct)
  then have "find_job (j_id j) s' = Some (cancel_job_row now j)"
    using p find_by_upd_where [of "\<lambda>x. j_id x = j_id j" j_id "cancel_job_row now" "j_id j" "jobs s"]
    by (simp add: pays_only_def find_job_def)
  moreover have "job_state (cancel_job_row now j) = (J_cancelled, O_not_dispatched)"
    using j(3) by (simp add: job_state_def [of j])
  ultimately have "settled (j_id j) (J_cancelled, O_not_dispatched) (j_idempotency_key j) (s', ws)"
    using inv' by (simp add: settled_def)
  from withdrawn_run.run_keeps [OF assms(4) this] obtain j' where t: "outbox_inv (t, vs)"
    "find_job (j_id j) t = Some j'" "job_state j' = (J_cancelled, O_not_dispatched)"
    "j_idempotency_key j' = j_idempotency_key j" by (auto simp: settled_def)
  have "allowed (j_idempotency_key j) t = 0"
    using key_owner [OF inv_jobs_ok [OF t(1)] t(2)] t(3,4)
    by (auto simp: allowed_def filter_empty_conv job_state_def)
  moreover have "started (j_idempotency_key j) (t, vs) \<le> allowed (j_idempotency_key j) t"
    using t(1) by (simp add: outbox_inv_def)
  ultimately have "count_list (submissions t) (j_idempotency_key j) = 0" by (simp add: started_def)
  then have "j_idempotency_key j \<notin> set (submissions t)" by (simp add: count_list_0_iff)
  with j t(2-4) show ?thesis by - (rule exI [of _ j], rule exI [of _ j'], simp)
qed

lemma find_only:
  assumes "y \<in> set xs" and "\<And>x. x \<in> set xs \<Longrightarrow> P x \<Longrightarrow> x = y" and "P y"
  shows "List.find P xs = Some y"
proof (cases "List.find P xs")
  case None
  with assms(1,3) show ?thesis by (auto simp: find_None_iff)
next
  case (Some z)
  then have "z \<in> set xs" "P z" by (auto simp: find_Some_iff)
  with assms(2) Some show ?thesis by metis
qed

text \<open>
  C25: a cancel settles one letter. It goes through only for the caller's queued letter with a mail
  date that was not bought by Pay and Send, while its job waits undispatched; it rewrites that
  letter and that job only, writes one row of history, and the same cancel asked again, at any
  later time, answers already cancelled with nothing returned and changes nothing.
\<close>

theorem cancel_settles_one_letter:
  assumes "cancelScheduledMailWithClient env now js letterId uid s = Inr (Cancelled m, s')"
    and "\<not> cm_alreadyCancelled m" and "distinct (map lt_id (letters s))"
  shows "(\<exists>l j. l \<in> set (letters s) \<and> lt_id l = letterId \<and> lt_user l = uid \<and> lt_status l = L_queued \<and>
      lt_funding_type l \<noteq> Fund_jit_order \<and> lt_mail_on l = cm_mailOn m \<and> cm_mailOn m \<noteq> None \<and>
      j \<in> set (jobs s) \<and> j_letter j = letterId \<and> job_state j = (J_pending, O_not_dispatched) \<and>
      letters s' = upd_where (\<lambda>x. lt_id x = letterId) (cancel_letter_row now) (letters s) \<and>
      jobs s' = upd_where (\<lambda>x. j_id x = j_id j) (cancel_job_row now) (jobs s) \<and>
      length (history s') = Suc (length (history s)) \<and> orders s' = orders s \<and> alerts s' = alerts s \<and>
      submissions s' = submissions s) \<and>
    cancelScheduledMailWithClient env' now' js' letterId uid s' =
      Inr (Cancelled (m\<lparr>cm_alreadyCancelled := True, cm_count := 0, cm_shortfall := Short_none\<rparr>), s')"
proof -
  obtain l j where c: "cancels_held letterId uid l j s" and m: "cm_letterId m = letterId"
      "cm_kind m = returnedKind (lt_funding_type l)" "cm_arriveBy m = lt_arrive_by l" "cm_mailOn m = lt_mail_on l"
    and p: "pays_only (cancel_rows now (j_id j) letterId s) s'"
    using assms(1,2) by (rule cancel_gone)
  have j: "j \<in> set (jobs s)" "j_letter j = letterId" "job_state j = (J_pending, O_not_dispatched)"
    and l: "l \<in> set (letters s)" "lt_id l = letterId" "lt_user l = uid" "lt_status l = L_queued"
      "lt_funding_type l \<noteq> Fund_jit_order" "lt_mail_on l \<noteq> None"
    using c by (auto simp: cancels_held_def job_state_def dest: find_jobD find_letterD)
  have rows: "letters s' = upd_where (\<lambda>x. lt_id x = letterId) (cancel_letter_row now) (letters s)"
      "jobs s' = upd_where (\<lambda>x. j_id x = j_id j) (cancel_job_row now) (jobs s)"
      "length (history s') = Suc (length (history s))" "orders s' = orders s" "submissions s' = submissions s"
    using p by (simp_all add: pays_only_def)
  have al: "alerts s' = alerts s"
    using p by (simp add: pays_only_def cancel_rows_def Let_def upd_letter_def upd_job_def)
  have u: "x = l" if "x \<in> set (letters s)" "lt_id x = letterId" for x
    using that l(1,2) assms(3) by (metis distinct_map inj_onD)
  let ?l = "cancel_letter_row now l"
  have "?l \<in> set (letters s')" unfolding rows set_upd_where using l(1,2) by force
  moreover have "x = ?l" if "x \<in> set (letters s')" "lt_id x = letterId \<and> lt_user x = uid" for x
    using that u unfolding rows set_upd_where by (auto split: if_splits)
  ultimately have "List.find (\<lambda>x. lt_id x = letterId \<and> lt_user x = uid) (letters s') = Some ?l"
    by (rule find_only) (use l(2,3) in simp_all)
  moreover have "lt_arrive_by ?l = lt_arrive_by l" "lt_mail_on ?l = lt_mail_on l" "lt_funding_type ?l = lt_funding_type l"
    by (simp_all add: cancel_letter_row_def)
  moreover have "\<lparr> cm_letterId = letterId, cm_alreadyCancelled = True, cm_kind = returnedKind (lt_funding_type l),
      cm_count = 0, cm_shortfall = Short_none, cm_arriveBy = lt_arrive_by l, cm_mailOn = lt_mail_on l \<rparr> =
      m\<lparr>cm_alreadyCancelled := True, cm_count := 0, cm_shortfall := Short_none\<rparr>"
    by (rule cancelled_mail.equality) (simp_all add: m)
  ultimately have "cancelScheduledMailWithClient env' now' js' letterId uid s' =
      Inr (Cancelled (m\<lparr>cm_alreadyCancelled := True, cm_count := 0, cm_shortfall := Short_none\<rparr>), s')"
    by (simp add: cancelScheduledMailWithClient_def)
  moreover have "lt_mail_on l = cm_mailOn m" "cm_mailOn m \<noteq> None" using m(4) l(6) by simp_all
  ultimately show ?thesis
    using l(1-5) j rows al
    by - (rule conjI, rule exI [of _ l], rule exI [of _ j], (intro conjI; assumption), assumption)
qed

lemma find_after_none: "List.find P xs = None \<Longrightarrow> List.find P (xs @ ys) = List.find P ys"
  by (induction xs) (auto split: if_splits)

text \<open>
  The gift letter a cancelled letter gives back: the one that paid, unless it came back before, its purchase was
  reversed or somebody redeemed the code that went with the letter.
\<close>

definition gift_to_return :: "string \<Rightarrow> string \<Rightarrow> db \<Rightarrow> gift_letter option" where
  "gift_to_return l uid s = (case List.find (\<lambda>g. g_consumed_by_letter_id g = Some l \<and> g_user g = uid) (gifts s) of
     None \<Rightarrow> None
   | Some g \<Rightarrow> if gift_returned l s \<or> g_source_reversed_at g \<noteq> None \<or>
         list_ex (\<lambda>c. gc_letter c = l \<and> gc_status c = Gc_redeemed) (gift_codes s) then None else Some g)"

lemma redeemed_code:
  assumes "gifts_ok s"
  shows "map_option gc_status (List.find (\<lambda>c. gc_letter c = l) (gift_codes s)) = Some Gc_redeemed \<longleftrightarrow>
    list_ex (\<lambda>c. gc_letter c = l \<and> gc_status c = Gc_redeemed) (gift_codes s)"
proof -
  have "List.find (\<lambda>c. gc_letter c = l) (gift_codes s) = Some c \<longleftrightarrow> c \<in> set (gift_codes s) \<and> gc_letter c = l" for c
    using find_by_mem [of gc_letter l "gift_codes s" c] find_by_key [of gc_letter l "gift_codes s" c]
      find_by_distinct [OF gifts_okD(10) [OF assms], of c] unfolding find_by_def by blast
  then show ?thesis by (auto simp: list_ex_iff)
qed

lemma gift_returned_as_due:
  assumes run: "returnGiftLetterForFailedSendWithClient env now js l uid fc True s = Inr (n, s')" and ok: "gifts_ok s"
  shows "case gift_to_return l uid s of None \<Rightarrow> n = 0 \<and> gifts s' = gifts s
    | Some g \<Rightarrow> n = 1 \<and> (\<exists>k. gifts s' = gifts s @ [k] \<and> g_user k = uid \<and> g_status k = G_available \<and> g_source k = Gs_send_failed \<and>
        g_source_reference_id k = l \<and> g_generations_remaining k = g_generations_remaining g \<and> g_expires_at k = g_expires_at g)"
proof (cases "gift_to_return l uid s")
  case None
  then show ?thesis using run redeemed_code [OF ok, of l]
    by (auto simp: gift_to_return_def returnGiftLetterForFailedSendWithClient_def gift_returned_def upd_code_def
        split: option.splits if_splits)
next
  case (Some g)
  then have g: "List.find (\<lambda>g. g_consumed_by_letter_id g = Some l \<and> g_user g = uid) (gifts s) = Some g" "\<not> gift_returned l s"
    "g_source_reversed_at g = None" "\<not> list_ex (\<lambda>c. gc_letter c = l \<and> gc_status c = Gc_redeemed) (gift_codes s)"
    by (auto simp: gift_to_return_def split: option.splits if_splits)
  define s1 where "s1 = (case List.find (\<lambda>c. gc_letter c = l) (gift_codes s) of
      Some c \<Rightarrow> if gc_status c = Gc_issued then upd_code (gc_code c) (void_code now ''send_cancelled'') s else s | None \<Rightarrow> s)"
  let ?k = "returned_gift now uid l g (g_expires_at g) (fresh_gift_id s1)"
  have ex: "return_expiry env js True g = g_expires_at g" by (simp add: return_expiry_def Let_def split: option.split)
  have same: "gifts s1 = gifts s" by (simp add: s1_def upd_code_def split: option.split)
  have fresh: "map_option gc_status (List.find (\<lambda>c. gc_letter c = l) (gift_codes s)) \<noteq> Some Gc_redeemed"
    using redeemed_code [OF ok, of l] g(4) by blast
  have "returnGiftLetterForFailedSendWithClient env now js l uid fc True s = bindE (insert_gift ?k s1) (\<lambda>(_, s2). Inr (1, s2))"
    unfolding returnGiftLetterForFailedSendWithClient_def Let_def if_not_P [OF g(2) [unfolded gift_returned_def]] g(1) option.case
      if_not_P [OF fresh] ex by (simp add: g(3) s1_def)
  with run obtain r where r: "insert_gift ?k s1 = Inr (r, s')" and n: "n = 1" by (auto simp: bindE_Inr_iff)
  have "\<not> list_ex (same_grant Gs_send_failed l 0) (gifts s1)"
    using g(2) by (auto simp: same gift_returned_def list_ex_iff same_grant_def)
  then have "gifts s' = gifts s @ [?k]" using r by (auto simp: insert_gift_def same returned_gift_def split: if_splits)
  then show ?thesis using Some n by (auto simp: returned_gift_def)
qed

text \<open>A gift letter that comes back: one row more, which the account can send unless it has run out.\<close>

lemma gift_back_returns:
  assumes "giftBack env now js l uid s = Inr ((count, short), s')" and "gifts_ok s"
  shows "ledger s' = ledger s \<and> users s' = users s \<and>
      (case gift_to_return l uid s of None \<Rightarrow> gifts s' = gifts s \<and> count = 0 \<and> short = Short_refunded
       | Some g \<Rightarrow> \<exists>k. gifts s' = gifts s @ [k] \<and> g_user k = uid \<and> g_status k = G_available \<and>
           g_generations_remaining k = g_generations_remaining g \<and> g_expires_at k = g_expires_at g \<and>
           (if unsent_gift now uid k then count = 1 \<and> short = Short_none else count = 0 \<and> short = Short_expired))"
proof -
  from assms(1) obtain n where r: "returnGiftLetterForFailedSendWithClient env now js l uid CANCELLED_BY_CUSTOMER True s = Inr (n, s')"
    and c: "(if n = 0 then (n, Short_refunded)
        else case List.find (\<lambda>g. g_source g = Gs_send_failed \<and> g_source_reference_id g = l) (gifts s') of
            None \<Rightarrow> (n, Short_none)
          | Some g \<Rightarrow> if (case g_expires_at g of None \<Rightarrow> False | Some t \<Rightarrow> t \<le> now) then (0, Short_expired) else (n, Short_none))
        = (count, short)"
    by (auto simp: giftBack_def bindE_Inr_iff split: if_splits option.splits)
  note books = return_gift_books [OF r] and due = gift_returned_as_due [OF r assms(2)]
  show ?thesis
  proof (cases "gift_to_return l uid s")
    case None
    then show ?thesis using due c books by simp
  next
    case (Some g)
    then obtain k where n: "n = 1" and k: "gifts s' = gifts s @ [k]" "g_user k = uid" "g_status k = G_available" "g_source k = Gs_send_failed"
      "g_source_reference_id k = l" "g_generations_remaining k = g_generations_remaining g" "g_expires_at k = g_expires_at g"
      using due by auto
    have "\<not> gift_returned l s" using Some by (auto simp: gift_to_return_def split: option.splits if_splits)
    then have "List.find (\<lambda>g. g_source g = Gs_send_failed \<and> g_source_reference_id g = l) (gifts s) = None"
      by (auto simp: gift_returned_def list_ex_iff find_None_iff)
    then have f: "List.find (\<lambda>g. g_source g = Gs_send_failed \<and> g_source_reference_id g = l) (gifts s') = Some k"
      using k by (simp add: find_after_none)
    have "unsent_gift now uid k \<longleftrightarrow> \<not> (case g_expires_at k of None \<Rightarrow> False | Some t \<Rightarrow> t \<le> now)"
      using k by (simp add: unsent_gift_def split: option.split) linarith
    then show ?thesis using c f n k books Some by (auto split: if_splits)
  qed
qed

text \<open>
  What a return owes of a letter's credits: the part each deduction took from a lot that was not revoked since,
  counted as usable while the lot has not run out.
\<close>

definition credits_due :: "instant \<Rightarrow> string \<Rightarrow> string \<Rightarrow> db \<Rightarrow> int" where
  "credits_due now l uid s = (if hasReturnedCreditsForLetter l uid s then 0 else usable_amount now (consumed_lots l uid s))"

definition lots_due :: "string \<Rightarrow> string \<Rightarrow> db \<Rightarrow> (int \<times> ledger_entry) list" where
  "lots_due l uid s = (if hasReturnedCreditsForLetter l uid s then [] else filter returnable (consumed_lots l uid s))"

lemma credits_back_lots:
  assumes "creditsBack now l uid cost s = Inr ((count, short), s')"
  shows "\<exists>new. ledger s' = ledger s @ new \<and> map (\<lambda>e. (le_initial e, le_expires_at e, le_related_ledger_id e)) new =
    map (\<lambda>(a, lot). (a, le_expires_at lot, Some (le_id lot))) (lots_due l uid s)"
proof -
  from assms obtain n where ret: "returnConsumedCreditsForLetter now l uid CANCELLED_BY_CUSTOMER (Some Cause_cancelled) s = Inr (n, s')"
    by (auto simp: creditsBack_def bindE_Inr_iff Let_def)
  from ret show ?thesis
  proof (cases rule: return_Inr)
    case (returned s1)
    obtain new where new: "ledger s1 = ledger s @ new"
      "map (\<lambda>e. (le_initial e, le_expires_at e, le_source_reference_id e, le_related_ledger_id e)) new =
       map (\<lambda>(a, lot). (a, le_expires_at lot, le_source_reference_id lot, Some (le_id lot))) (filter returnable (consumed_lots l uid s))"
      using return_lots_Inr(7) [OF returned(2)] by blast
    from arg_cong [OF new(2), of "map (\<lambda>(a, b, c, d). (a, b, d))"] have
      "map (\<lambda>e. (le_initial e, le_expires_at e, le_related_ledger_id e)) new =
       map (\<lambda>(a, lot). (a, le_expires_at lot, Some (le_id lot))) (filter returnable (consumed_lots l uid s))"
      by (simp add: case_prod_beta' comp_def)
    then show ?thesis using new(1) returned(1) by (intro exI [of _ new]) (simp add: returned(4) lots_due_def)
  qed (simp_all add: lots_due_def)
qed

lemma cancel_rows_due: "consumed_lots l uid (cancel_rows now jid k s) = consumed_lots l uid s"
  "hasReturnedCreditsForLetter l uid (cancel_rows now jid k s) = hasReturnedCreditsForLetter l uid s"
  "gift_to_return l uid (cancel_rows now jid k s) = gift_to_return l uid s"
proof -
  have same: "consumptions (cancel_rows now jid k s) = consumptions s" "txns (cancel_rows now jid k s) = txns s"
    "ledger (cancel_rows now jid k s) = ledger s" "gifts (cancel_rows now jid k s) = gifts s"
    "gift_codes (cancel_rows now jid k s) = gift_codes s"
    by (simp_all add: cancel_rows_def Let_def upd_letter_def upd_job_def)
  have "find_lot c (cancel_rows now jid k s) = find_lot c s" for c by (simp add: find_lot_def same)
  then have "consumed_row l uid (cancel_rows now jid k s) = consumed_row l uid s"
    by (intro ext) (simp add: consumed_row_def find_txn_def same split: option.split)
  then show "consumed_lots l uid (cancel_rows now jid k s) = consumed_lots l uid s" by (simp add: consumed_lots_def same)
  show "hasReturnedCreditsForLetter l uid (cancel_rows now jid k s) = hasReturnedCreditsForLetter l uid s"
    by (simp add: hasReturnedCreditsForLetter_def same)
  show "gift_to_return l uid (cancel_rows now jid k s) = gift_to_return l uid s"
    by (simp add: gift_to_return_def gift_returned_def same cong: option.case_cong)
qed

text \<open>
  C26: What paid for cancelled mail comes back, and the answer says how much of it can be used. Of a letter paid from
  the balance every part its deduction took from a lot not revoked since comes back as a lot of its own, of that
  amount and with that lot's expiry; the spendable credits and the cached balance rise by the parts whose lots have
  not run out, which is what the answer counts in whole letters, with a shortfall exactly when that is less than
  the price. The gift letter that paid comes back as one letter of its budget and expiry unless its purchase was
  reversed or its code redeemed, counted when it can still be sent and named expired or refunded otherwise. Nothing
  comes back that came back before.
\<close>

theorem cancel_returns_what_paid:
  assumes "cancelScheduledMailWithClient env now js letterId uid s = Inr (Cancelled m, s')"
    and "\<not> cm_alreadyCancelled m" and "ledger_ok s" and "gifts_ok s" and "find_user uid s \<noteq> None"
    and "List.find (\<lambda>l. lt_id l = letterId \<and> lt_user l = uid) (letters s) = Some l"
  shows "if lt_funding_type l = Fund_gift_letter
    then ledger s' = ledger s \<and> users s' = users s \<and>
      (case gift_to_return letterId uid s of None \<Rightarrow> gifts s' = gifts s \<and> cm_count m = 0 \<and> cm_shortfall m = Short_refunded
       | Some g \<Rightarrow> \<exists>k. gifts s' = gifts s @ [k] \<and> g_user k = uid \<and> g_status k = G_available \<and>
           g_generations_remaining k = g_generations_remaining g \<and> g_expires_at k = g_expires_at g \<and>
           (if unsent_gift now uid k then cm_count m = 1 \<and> cm_shortfall m = Short_none
            else cm_count m = 0 \<and> cm_shortfall m = Short_expired))
    else gifts s' = gifts s \<and>
      (\<exists>new. ledger s' = ledger s @ new \<and> map (\<lambda>e. (le_initial e, le_expires_at e, le_related_ledger_id e)) new =
        map (\<lambda>(a, lot). (a, le_expires_at lot, Some (le_id lot))) (lots_due letterId uid s)) \<and>
      (let u = credits_due now letterId uid s in
        getAvailableCredits now uid s' = getAvailableCredits now uid s + u \<and>
        balance_of uid s' = balance_of uid s + u \<and> cm_count m = u div CREDITS_PER_LETTER \<and>
        (cm_shortfall m = Short_none \<longleftrightarrow> lt_credits_cost l \<le> u) \<and>
        (cm_shortfall m = Short_partial \<longleftrightarrow> 0 < u \<and> u < lt_credits_cost l))"
proof -
  obtain l' j where c: "cancels_held letterId uid l' j s"
    and b: "(if lt_funding_type l' = Fund_gift_letter then giftBack env now js letterId uid (cancel_rows now (j_id j) letterId s)
        else creditsBack now letterId uid (lt_credits_cost l') (cancel_rows now (j_id j) letterId s)) =
        Inr ((cm_count m, cm_shortfall m), s')"
    using assms(1,2) by (rule cancel_gone)
  have l': "l' = l" using c assms(6) by (simp add: cancels_held_def)
  let ?s1 = "cancel_rows now (j_id j) letterId s"
  show ?thesis
  proof (cases "lt_funding_type l = Fund_gift_letter")
    case True
    with b have g: "giftBack env now js letterId uid ?s1 = Inr ((cm_count m, cm_shortfall m), s')" by (simp add: l')
    have ok: "gifts_ok ?s1" using assms(4) gifts_ok_cong [of ?s1 s] by simp
    show ?thesis
      unfolding if_P [OF True] by (rule gift_back_returns [OF g ok, unfolded cancel_rows_frame cancel_rows_due])
  next
    case False
    with b have g: "creditsBack now letterId uid (lt_credits_cost l) ?s1 = Inr ((cm_count m, cm_shortfall m), s')" by (simp add: l')
    have ok: "ledger_ok ?s1" by (rule ledger_ok_cong [OF _ _ _ assms(3)]) (simp_all add: find_user_def)
    have u1: "find_user uid ?s1 \<noteq> None" using assms(5) by (simp add: find_user_def)
    have gs: "gifts s' = gifts s"
      using g return_credits_gifts by (auto simp: creditsBack_def bindE_Inr_iff Let_def)
    obtain u where u: "getAvailableCredits now uid s' = getAvailableCredits now uid ?s1 + u" "0 \<le> u"
      "balance_of uid s' = balance_of uid ?s1 + u" "cm_count m = u div CREDITS_PER_LETTER"
      "cm_shortfall m = Short_none \<longleftrightarrow> lt_credits_cost l \<le> u"
      "cm_shortfall m \<in> {Short_expired, Short_refunded} \<longleftrightarrow> u < lt_credits_cost l \<and> u = 0"
      "u = credits_due now letterId uid ?s1"
    proof (rule credits_back_usable [OF g ok u1])
      fix u
      assume *: "getAvailableCredits now uid s' = getAvailableCredits now uid ?s1 + u" "0 \<le> u"
        "balance_of uid s' = balance_of uid ?s1 + u" "cm_count m = u div CREDITS_PER_LETTER"
        "cm_shortfall m = Short_none \<longleftrightarrow> lt_credits_cost l \<le> u"
        "cm_shortfall m \<in> {Short_expired, Short_refunded} \<longleftrightarrow> u < lt_credits_cost l \<and> u = 0"
      assume "hasReturnedCreditsForLetter letterId uid ?s1 \<Longrightarrow> u = 0"
        "\<not> hasReturnedCreditsForLetter letterId uid ?s1 \<Longrightarrow> u = usable_amount now (consumed_lots letterId uid ?s1)"
      then have "u = credits_due now letterId uid ?s1" by (auto simp: credits_due_def)
      with * show ?thesis by (rule that)
    qed
    have due: "credits_due now letterId uid s = u" using u(7) by (simp add: credits_due_def cancel_rows_due)
    have "cm_shortfall m = Short_partial \<longleftrightarrow> 0 < u \<and> u < lt_credits_cost l"
      using u(2,5,6) by (cases "cm_shortfall m") auto
    moreover have "getAvailableCredits now uid ?s1 = getAvailableCredits now uid s" "balance_of uid ?s1 = balance_of uid s"
      by (simp_all add: getAvailableCredits_def balance_of_def find_user_def)
    moreover have "lots_due letterId uid ?s1 = lots_due letterId uid s" by (simp add: lots_due_def cancel_rows_due)
    ultimately show ?thesis
      unfolding if_not_P [OF False] due Let_def using gs u(1,3-5) credits_back_lots [OF g] by (simp only: cancel_rows_frame)
  qed
qed

section \<open>A missed mail day\<close>

text \<open>
  Each run tells of letters that missed their day and were not told of before, each once and at
  most a hundred; what it leaves untold is more than a hundred letters, so when it raised fewer
  the next run at the same moment raises none.
\<close>

lemma missed_day_told_once:
  assumes "raiseMissedMailDayAlerts six_pm now s = (n, s')"
  shows "\<exists>raised. s' = s\<lparr>alerts := alerts s @ map missed_alert raised\<rparr> \<and> n = length raised \<and> n \<le> 100 \<and>
      distinct (map lt_id raised) \<and> (\<forall>l\<in>set raised. missed_mail_day six_pm now s l)"
    and "length (filter (missed_mail_day six_pm now s) (letters s)) \<le> 100 \<Longrightarrow>
      raiseMissedMailDayAlerts six_pm now s' = (0, s')"
proof -
  let ?k = "\<lambda>l. case lt_mail_on l of None \<Rightarrow> [] | Some d \<Rightarrow> code_units d"
  let ?late = "sort_key ?k (filter (missed_mail_day six_pm now s) (letters s))"
  have run: "insert_missed_alerts (take 100 ?late) s = (n, s')" using assms by (simp add: raiseMissedMailDayAlerts_def)
  from insert_missed_run [OF run] obtain raised where r: "s' = s\<lparr>alerts := alerts s @ map missed_alert raised\<rparr>"
      "n = length raised" "set raised \<subseteq> set (take 100 ?late)" "distinct (map lt_id raised)"
      "length raised \<le> length (take 100 ?late)"
    and all: "\<forall>l\<in>set (take 100 ?late). alerted schedule_missed_alert (Some (lt_id l)) s'" by blast
  have "\<forall>l\<in>set raised. missed_mail_day six_pm now s l"
  proof
    fix l assume "l \<in> set raised"
    with r(3) have "l \<in> set ?late" by (meson in_set_takeD subsetD)
    then show "missed_mail_day six_pm now s l" by simp
  qed
  with r show "\<exists>raised. s' = s\<lparr>alerts := alerts s @ map missed_alert raised\<rparr> \<and> n = length raised \<and> n \<le> 100 \<and>
      distinct (map lt_id raised) \<and> (\<forall>l\<in>set raised. missed_mail_day six_pm now s l)"
    by (intro exI [of _ raised]) auto
  assume "length (filter (missed_mail_day six_pm now s) (letters s)) \<le> 100"
  then have told: "alerted schedule_missed_alert (Some (lt_id l)) s'"
    if "l \<in> set (letters s)" "missed_mail_day six_pm now s l" for l
    using all that by simp
  have ls: "letters s' = letters s" by (simp add: r(1))
  have "\<not> missed_mail_day six_pm now s' l" if "l \<in> set (letters s)" for l
    using told [OF that] by (auto simp: missed_mail_day_def r(1))
  then have "filter (missed_mail_day six_pm now s') (letters s') = []" by (simp add: ls filter_empty_conv)
  then show "raiseMissedMailDayAlerts six_pm now s' = (0, s')" by (simp add: raiseMissedMailDayAlerts_def)
qed

section \<open>A full mail date\<close>

text \<open>Mail for a later arrival never goes to the printer earlier.\<close>

lemma mailOnFor_mono:
  assumes "mailOnFor t lead = Inr u" and "mailOnFor t' lead = Inr u'" and "realDayNumber t = Some n"
    and "realDayNumber t' = Some n'" and "n \<le> n'"
  shows "\<not> js_less u' u"
proof
  assume less: "js_less u' u"
  from mailOnFor_days [OF assms(1)] assms(3) obtain m where m: "realDayNumber u = Some m" "business m" "m \<le> n"
    "open_days m n = nat lead" by auto
  from mailOnFor_days [OF assms(2)] assms(4) obtain m' where m': "realDayNumber u' = Some m'" "m' \<le> n'"
    "open_days m' n' = nat lead" by auto
  from less have lt: "m' < m" using text_order [of m' m] m(1) m'(1) by (simp add: realDayNumber_iff)
  have "open_days m' n' = open_days m' (m - 1) + open_days (m - 1) m + open_days m n + open_days n n'"
    using open_days_split [of m' "m - 1" n'] open_days_split [of "m - 1" m n'] open_days_split [of m n n'] lt m(3) assms(5)
    by simp
  with m(2,4) m'(3) show False by (simp add: open_days_one)
qed

text \<open>
  A full date offers dates with room. A mail date is refused as full exactly when the letters
  held on it reach the daily cap; the at most three arrival dates offered instead come in order,
  each is accepted when asked for at that moment, and each mails on another date that holds
  fewer letters than the cap.
\<close>

theorem full_date_offers_room:
  assumes "fullMailDate zone env (arriveBy, mail) now s = Inr r" and "new_york zone"
  shows "(r = None \<longleftrightarrow> heldOn mail s < scheduleDailyCap env) \<and>
    (\<forall>full. r = Some full \<longrightarrow> fd_mailOn full = mail \<and> length (fd_openArrivals full) \<le> 3 \<and>
       sorted (map code_units (fd_openArrivals full)) \<and>
       (\<forall>d\<in>set (fd_openArrivals full). \<exists>mailOn at earliest latest.
          checkArrival zone d now \<lparr> leadDays = scheduleLeadDays env, horizonDays = scheduleHorizonDays env \<rparr> =
            Inr (Arrival_ok d mailOn at earliest latest) \<and>
          mailOn \<noteq> mail \<and> heldOn mailOn s < scheduleDailyCap env))"
proof (cases "heldOn mail s < scheduleDailyCap env")
  case True
  with assms(1) have "r = None" by (simp add: fullMailDate_def Let_def)
  with True show ?thesis by simp
next
  case False
  let ?st = "\<lparr> leadDays = scheduleLeadDays env, horizonDays = scheduleHorizonDays env \<rparr>"
  from False assms(1) obtain earliest latest where e: "earliestArrival zone now (scheduleLeadDays env) = Inr earliest"
    and l: "latestArrival zone now (scheduleHorizonDays env) = Inr latest"
    and k: "js_less latest earliest \<and> r = Some \<lparr> fd_mailOn = mail, fd_openArrivals = [] \<rparr> \<or>
      (\<exists>lo hi ds. mailOnFor earliest (scheduleLeadDays env) = Inr lo \<and> mailOnFor latest (scheduleLeadDays env) = Inr hi \<and>
         nearestOpenArrivals zone arriveBy now ?st (\<lambda>m. m \<noteq> mail \<and> heldBetween lo hi s m < scheduleDailyCap env) 3 = Inr ds \<and>
         r = Some \<lparr> fd_mailOn = mail, fd_openArrivals = ds \<rparr>)"
    by (auto simp: fullMailDate_def Let_def bindE_Inr_iff split: if_splits)
  from k show ?thesis
  proof (elim disjE exE conjE)
    assume "r = Some \<lparr> fd_mailOn = mail, fd_openArrivals = [] \<rparr>"
    with False show ?thesis by simp
  next
    fix lo hi ds
    assume m: "mailOnFor earliest (scheduleLeadDays env) = Inr lo" "mailOnFor latest (scheduleLeadDays env) = Inr hi"
      and n: "nearestOpenArrivals zone arriveBy now ?st (\<lambda>m. m \<noteq> mail \<and> heldBetween lo hi s m < scheduleDailyCap env) 3 = Inr ds"
      and r: "r = Some \<lparr> fd_mailOn = mail, fd_openArrivals = ds \<rparr>"
    have room: "\<exists>mailOn at earliest latest. checkArrival zone d now ?st = Inr (Arrival_ok d mailOn at earliest latest) \<and>
        mailOn \<noteq> mail \<and> heldOn mailOn s < scheduleDailyCap env" if "d \<in> set ds" for d
    proof -
      from offered_arrivals_are_accepted [OF n that assms(2)] obtain mailOn at a b
        where h: "mailOn \<noteq> mail" "heldBetween lo hi s mailOn < scheduleDailyCap env"
          and c: "checkArrival zone d now ?st = Inr (Arrival_ok d mailOn at a b)" by blast
      from c e l have d: "\<not> js_less d earliest" "\<not> js_less latest d" "mailOnFor d (scheduleLeadDays env) = Inr mailOn"
        "parseCalendarDate d = Some d"
        by (auto simp: checkArrival_def bindE_Inr_iff parseCalendarDate_def split: option.splits if_splits)
      obtain nd ne nl where days: "realDayNumber d = Some nd" "realDayNumber earliest = Some ne" "realDayNumber latest = Some nl"
        using mailOnFor_days [OF d(3)] mailOnFor_days [OF m(1)] mailOnFor_days [OF m(2)] by blast
      then have "ne \<le> nd" "nd \<le> nl"
        using d(1,2) text_order [of nd ne] text_order [of nl nd] by (simp_all add: realDayNumber_iff)
      with days d(3) m have "\<not> js_less mailOn lo" "\<not> js_less hi mailOn"
        using mailOnFor_mono by metis+
      with h(2) have "heldOn mailOn s < scheduleDailyCap env" by (simp add: heldBetween_def)
      with c h(1) show ?thesis by blast
    qed
    have "length ds \<le> 3 \<and> sorted (map code_units ds)"
    proof (cases "ds = []")
      case False
      then obtain d where "d \<in> set ds" by (cases ds) auto
      from offered_arrivals_are_accepted [OF n this assms(2)] show ?thesis by blast
    qed simp
    with room False r show ?thesis by auto
  qed
qed

section \<open>Held mail\<close>

text \<open>
  The account of demo_sent paid four credits for the letter at time 2, three of them promotional
  that end at 50; it is held until 80. It is cancelled at 60, when one credit is still usable.
\<close>

definition held_letter :: letter where
  "held_letter = post_letter\<lparr>lt_user := ''u'', lt_credits_cost := 4, lt_funding_type := Fund_prepaid_balance,
     lt_funding_order_id := None, lt_arrive_by := Some ''2026-07-20'', lt_mail_on := Some ''2026-07-09''\<rparr>"

definition held_office :: db where "held_office = demo_sent\<lparr>letters := [held_letter]\<rparr>"

definition held_queued :: db where
  "held_queued = committed held_office
     (createLetterJobWithClient post_env 3 ''job-1'' (\<lambda>_. []) ''letter-1'' (Some 80) held_office)"

definition held_cancelled :: db where
  "held_cancelled = committed held_queued (cancelScheduledMailWithClient post_env 60 60 ''letter-1'' ''u'' held_queued)"

definition held_answer :: cancelled_mail where
  "held_answer = \<lparr> cm_letterId = ''letter-1'', cm_alreadyCancelled = False, cm_kind = Ret_letters, cm_count = 0,
     cm_shortfall = Short_partial, cm_arriveBy = Some ''2026-07-20'', cm_mailOn = Some ''2026-07-09'' \<rparr>"

lemma held_oks:
  "is_ok (createLetterJobWithClient post_env 3 ''job-1'' (\<lambda>_. []) ''letter-1'' (Some 80) held_office)"
  "is_ok (cancelScheduledMailWithClient post_env 60 60 ''letter-1'' ''u'' held_queued)"
  "jobs held_office = [] \<and> submissions held_office = []"
  by code_simp+

lemma held_run: "cancelScheduledMailWithClient post_env 60 60 ''letter-1'' ''u'' held_queued = Inr (Cancelled held_answer, held_cancelled)"
proof -
  obtain r where r: "cancelScheduledMailWithClient post_env 60 60 ''letter-1'' ''u'' held_queued = Inr (r, held_cancelled)"
    using held_oks(2) unfolding held_cancelled_def by (rule committed_ok)
  have "(case cancelScheduledMailWithClient post_env 60 60 ''letter-1'' ''u'' held_queued of
      Inl _ \<Rightarrow> False | Inr (x, _) \<Rightarrow> x = Cancelled held_answer)" by code_simp
  with r show ?thesis by simp
qed

lemma held_queued_run: obtains j where
  "createLetterJobWithClient post_env 3 ''job-1'' (\<lambda>_. []) ''letter-1'' (Some 80) held_office = Inr (j, held_queued)"
  using held_oks(1) unfolding held_queued_def by (rule committed_ok)

lemma held_reachable: "outbox_reachable (held_queued, [])"
proof -
  obtain j where "createLetterJobWithClient post_env 3 ''job-1'' (\<lambda>_. []) ''letter-1'' (Some 80) held_office = Inr (j, held_queued)"
    by (rule held_queued_run)
  from r_into_rtranclp [of outbox_step, OF outbox_step.enqueues [OF this]] held_oks(3)
  show ?thesis unfolding outbox_reachable_def by blast
qed

lemma held_fresh: "\<not> cm_alreadyCancelled held_answer" by (simp add: held_answer_def)

lemma create_job_books:
  "createLetterJobWithClient env now jid to_iso l nb s = Inr (j, s') \<Longrightarrow>
     ledger s' = ledger s \<and> users s' = users s \<and> consumptions s' = consumptions s"
  by (auto simp: createLetterJobWithClient_def Let_def split: option.splits if_splits)

lemma held_books: "ledger_ok held_queued" "gifts_ok held_queued" "find_user ''u'' held_queued \<noteq> None"
proof -
  obtain j where "createLetterJobWithClient post_env 3 ''job-1'' (\<lambda>_. []) ''letter-1'' (Some 80) held_office = Inr (j, held_queued)"
    by (rule held_queued_run)
  from create_job_books [OF this] have same: "ledger held_queued = ledger demo_sent"
    "users held_queued = users demo_sent" "consumptions held_queued = consumptions demo_sent"
    by (simp_all add: held_office_def)
  show "ledger_ok held_queued"
    by (rule ledger_ok_cong [OF same(1,3) _ demo_sent_books(1)]) (simp add: find_user_def same(2))
  show "find_user ''u'' held_queued \<noteq> None" using demo_sent_books(2) by (simp add: find_user_def same(2))
  have "gifts held_queued = []" "gift_codes held_queued = []" by code_simp+
  then show "gifts_ok held_queued" using gifts_ok_cong [of held_queued empty_db] by (simp add: empty_db_def gifts_ok_def one_letter_per_gift_def)
qed

section \<open>Witnesses\<close>

lemma cancelled_mail_never_goes_witness:
  "\<exists>j'. find_job ''job-1'' (snd (processDueLetterJobs post_env (\<lambda>n. 9000000 + int n) (\<lambda>n. 9000000 + int n) (\<lambda>n. 0)
       post_accepts 25 None held_cancelled)) = Some j' \<and> job_state j' = (J_cancelled, O_not_dispatched)"
proof -
  have n: "map j_id (jobs held_queued) = [''job-1'']" by code_simp
  then obtain r where r: "jobs held_queued = [r]" "j_id r = ''job-1''" by (auto simp: map_eq_Cons_conv)
  from cancelled_mail_never_goes [OF held_reachable held_run held_fresh
      processDue_run [OF prod.collapse [symmetric]]] r show ?thesis by fastforce
qed

lemma cancel_settles_one_letter_witness:
  "cancelScheduledMailWithClient post_env 70 70 ''letter-1'' ''u'' held_cancelled =
     Inr (Cancelled (held_answer\<lparr>cm_alreadyCancelled := True, cm_count := 0, cm_shortfall := Short_none\<rparr>), held_cancelled)"
proof -
  have "map lt_id (letters held_queued) = [''letter-1'']" by code_simp
  then have "distinct (map lt_id (letters held_queued))" by simp
  from cancel_settles_one_letter [OF held_run held_fresh this] show ?thesis by blast
qed

lemma cancel_returns_what_paid_witness:
  "getAvailableCredits 60 ''u'' held_queued = 4 \<and> getAvailableCredits 60 ''u'' held_cancelled = 5 \<and>
   cm_count held_answer = 0 \<and> cm_shortfall held_answer = Short_partial"
proof -
  have a: "getAvailableCredits 60 ''u'' held_queued = 4" "getAvailableCredits 60 ''u'' held_cancelled = 5" by code_simp+
  have "map (\<lambda>l. (lt_id l, lt_user l, lt_funding_type l, lt_credits_cost l)) (letters held_queued) =
    [(''letter-1'', ''u'', Fund_prepaid_balance, 4)]" by code_simp
  then obtain l where "letters held_queued = [l]" "lt_id l = ''letter-1''" "lt_user l = ''u''"
    "lt_funding_type l = Fund_prepaid_balance" "lt_credits_cost l = 4" by (auto simp: map_eq_Cons_conv)
  moreover from this have "List.find (\<lambda>l. lt_id l = ''letter-1'' \<and> lt_user l = ''u'') (letters held_queued) = Some l" by simp
  from cancel_returns_what_paid [OF held_run held_fresh held_books this] calculation a
  show ?thesis by (auto simp: CREDITS_PER_LETTER_def Let_def)
qed

text \<open>One letter a day: the Monday has its letter, the Tuesday is offered.\<close>

definition one_a_day :: environment where
  "one_a_day = [''LETTER_IRL_SCHEDULE_DAILY_CAP'' \<mapsto> ''1'', ''LETTER_IRL_SCHEDULE_LEAD_DAYS'' \<mapsto> ''0'',
     ''LETTER_IRL_SCHEDULE_HORIZON_DAYS'' \<mapsto> ''5'']"

definition monday_letter :: letter where
  "monday_letter = held_letter\<lparr>lt_status := L_queued, lt_arrive_by := Some ''2026-07-06'', lt_mail_on := Some ''2026-07-06''\<rparr>"

definition monday_full :: db where "monday_full = empty_db\<lparr>letters := [monday_letter]\<rparr>"

lemma monday_refused: "fullMailDate eastern one_a_day (''2026-07-06'', ''2026-07-06'') july monday_full =
    Inr (Some \<lparr> fd_mailOn = ''2026-07-06'', fd_openArrivals = [''2026-07-07''] \<rparr>)"
proof -
  have st: "scheduleDailyCap one_a_day = 1" "scheduleLeadDays one_a_day = 0" "scheduleHorizonDays one_a_day = 5"
    by code_simp+
  have h: "heldOn m monday_full = (if m = ''2026-07-06'' then 1 else 0)" for m
    by (auto simp: heldOn_def held_on_date_def monday_full_def monday_letter_def)
  have room: "(\<lambda>m. m \<noteq> ''2026-07-06'' \<and> heldBetween a b monday_full m < 1) = (\<lambda>m. m \<noteq> ''2026-07-06'')" for a b
    by (rule ext) (simp add: heldBetween_def h)
  show ?thesis
    using five_days_offer
    by (simp add: fullMailDate_def Let_def st h room five_days_range five_days_def char_code_def)
qed

lemma full_date_offers_room_witness:
  "\<exists>mailOn at earliest latest. checkArrival eastern ''2026-07-07'' july
      \<lparr> leadDays = scheduleLeadDays one_a_day, horizonDays = scheduleHorizonDays one_a_day \<rparr> =
        Inr (Arrival_ok ''2026-07-07'' mailOn at earliest latest) \<and>
    mailOn \<noteq> ''2026-07-06'' \<and> heldOn mailOn monday_full < scheduleDailyCap one_a_day"
proof -
  have "new_york eastern" by unfold_locales
  from full_date_offers_room [OF monday_refused this] show ?thesis by simp
qed

end
