(* ===== verification/MailSendProps.thy ===== *)
theory MailSendProps
  imports MailSendLaws ScheduledMailProps
begin

text \<open>
  The properties of the send: one draft becomes one letter with one job, paid once; the same draft
  sent again is the same letter; a send from the balance stays within the limits and is no second
  copy; what a held letter took comes back when it is cancelled at once.
\<close>

section \<open>One draft, one letter\<close>

lemma sent_new:
  assumes "createMailOrderFromDraftWithClient w p s = Inr (r, s')" and "\<not> sr_alreadyConsumed r"
  obtains d sched release pay s2 where "sent_run w p s d sched release pay s2 r s'"
  using assms(1) by (cases rule: send_cases) (use assms(2) that in auto)

text \<open>
  C7: a send turns one pending draft of the caller into one letter. The store gains that letter,
  queued, with the draft's recipient, content, dates and price, and its one job, undispatched; the draft
  is consumed by it; no other letter, job or draft changes and nothing is submitted.
\<close>

theorem send_settles_one_draft:
  assumes "createMailOrderFromDraftWithClient w p s = Inr (r, s')" and "\<not> sr_alreadyConsumed r" and "jobs_have_letters s"
  shows "\<exists>d l j. find_draft (sp_draft p) s = Some d \<and> d_user d = sp_user p \<and> d_status d = D_pending \<and>
    sw_js w < d_expires_at d \<and> d_mail_type d = sp_mailType p \<and>
    letters s' = letters s @ [l] \<and> lt_id l = sw_letter_id w \<and> lt_id l \<notin> lt_id ` set (letters s) \<and>
    lt_user l = sp_user p \<and> lt_status l = L_queued \<and> lt_recipient l = Some (d_recipient d) \<and>
    lt_credits_cost l = d_required_credits d \<and> lt_funding_type l = sr_fundingType r \<and>
    (lt_content l)\<lparr>lc_gift_card := None\<rparr> = (if sp_mailType p = Mt_postcard then buildPostcardContent d else buildLetterContent d) \<and>
    lc_gift_card (lt_content l) = sr_giftCard r \<and>
    jobs s' = jobs s @ [j] \<and> j_letter j = lt_id l \<and> job_state j = (J_pending, O_not_dispatched) \<and>
    drafts s' = upd_where (\<lambda>x. d_id x = sp_draft p) (consume_draft (sw_now w) (lt_id l)) (drafts s) \<and>
    submissions s' = submissions s"
proof -
  obtain d sched release pay s2 where run: "sent_run w p s d sched release pay s2 r s'"
    using assms(1,2) by (rule sent_new)
  have f: "find_draft (sp_draft p) s = Some d" "d_user d = sp_user p" "d_mail_type d = sp_mailType p"
    "letter_row_refusal (new_letter w p d (held_dates sched)) s = None"
    using run by (simp_all add: sent_run_def)
  have c: "d_status d = D_pending" "sw_js w < d_expires_at d" using sent_checks(1,2) [OF run] by simp_all
  let ?n = "new_letter w p d (held_dates sched)"
  let ?j = "new_job (sw_env w) (sw_now w) (sw_job_id w) (sw_to_iso w) (sw_letter_id w) release"
  obtain l where m: "letters s' = letters s @ [final_letter w release l]"
    "l = (case sr_giftCard r of None \<Rightarrow> id | Some c \<Rightarrow> add_gift_card c) ?n"
    "jobs s' = jobs s @ [new_job (sw_env w) (sw_now w) (sw_job_id w) (sw_to_iso w) (sw_letter_id w) release]"
    "drafts s' = drafts (upd_draft (sp_draft p) (consume_draft (sw_now w) (sw_letter_id w)) s)"
    "submissions s' = submissions s" "sr_fundingType r = send_funding_type p d"
    using sent_mail [OF run assms(3)] by metis
  have n: "lc_gift_card (lt_content ?n) = None" "lt_recipient ?n = Some (d_recipient d)"
    "lt_content ?n = (if sp_mailType p = Mt_postcard then buildPostcardContent d else buildLetterContent d)"
    by (simp_all add: new_letter_def buildPostcardContent_def buildLetterContent_def empty_content_def)
  have l: "lt_id l = sw_letter_id w" "lt_user l = sp_user p" "lt_credits_cost l = d_required_credits d"
    "lt_funding_type l = send_funding_type p d" "lt_recipient (final_letter w release l) = Some (d_recipient d)"
    "lc_gift_card (lt_content l) = sr_giftCard r" "(lt_content l)\<lparr>lc_gift_card := None\<rparr> = lt_content ?n"
    unfolding m(2) using n(1,2)
    by (simp_all add: add_gift_card_def final_letter_def record_layout_def Let_def split: option.split)
  have new: "sw_letter_id w \<notin> lt_id ` set (letters s)" using inserted_letter_fresh [OF f(4)] by simp
  have j: "j_letter ?j = sw_letter_id w" "job_state ?j = (J_pending, O_not_dispatched)"
    by (simp_all add: new_job_def job_state_def Let_def)
  show ?thesis
    apply (rule exI [of _ d], rule exI [of _ "final_letter w release l"], rule exI [of _ ?j])
    using f(1-3) c m(1,3-6) l n(3) new j by (simp add: upd_draft_def)
qed

section \<open>Paid once\<close>

lemma sent_by_order:
  assumes run: "sent_run w p s d sched release pay s2 r s'" and "jobs_have_letters s" and "is_jit (sp_funding p)"
  shows "(\<exists>oid x pr. sp_funding p = Jit_order oid \<and> find_order oid s = Some x \<and> o_status x = Ord_paid \<and>
        o_user x = sp_user p \<and> o_draft_id x = Some (sp_draft p) \<and>
        jitProductMatching (draftMailOption d) = Some pr \<and> jp_code pr = o_product_code x \<and>
        find_order oid s' = Some (start_fulfilment (sw_now w) (sw_letter_id w) x)) \<and>
      ledger s' = ledger s \<and> users s' = users s \<and> txns s' = txns s \<and> gifts s' = gifts s"
proof -
  obtain oid where oid: "sp_funding p = Jit_order oid" using assms(3) by (cases "sp_funding p") simp_all
  have m: "orders s' = orders (move_order w (sp_funding p) s)" "ledger s' = ledger s2" "users s' = users s2"
    "txns s' = txns s2" "gifts s' = gifts s2"
    using sent_mail [OF run assms(2)] by metis+
  let ?n = "new_letter w p d (held_dates sched)"
  from run have "send_pay w p d release ?n (s\<lparr>letters := letters s @ [?n]\<rparr>) = Inr (pay, s2)" by (simp add: sent_run_def)
  then have "s2 = s\<lparr>letters := letters s @ [?n]\<rparr>" using oid by (simp add: send_pay_def uses_gift_def)
  then have books: "ledger s' = ledger s" "users s' = users s" "txns s' = txns s" "gifts s' = gifts s" by (simp_all add: m)
  obtain x where x: "find_order oid s = Some x" "o_user x = sp_user p" "o_draft_id x = Some (sp_draft p)" "o_status x = Ord_paid"
    "\<exists>pr. jitProductMatching (draftMailOption d) = Some pr \<and> jp_code pr = o_product_code x"
    using sent_order [OF run oid] by metis
  have "find_order oid s' = find_order oid (upd_order oid (start_fulfilment (sw_now w) (sw_letter_id w)) s)"
    using m(1) by (simp add: find_order_def oid)
  also have "\<dots> = Some (start_fulfilment (sw_now w) (sw_letter_id w) x)"
    by (subst find_order_upd) (simp_all add: x start_fulfilment_def)
  finally show ?thesis using books x oid by auto
qed

lemma sent_by_gift:
  assumes run: "sent_run w p s d sched release pay s2 r s'" and "jobs_have_letters s"
    and "\<not> is_jit (sp_funding p)" and "d_is_gift_send d"
  shows "(\<exists>g. next_gift (sp_user p) (expire_gifts (sw_now w) (sp_user p) s) = Some g \<and>
        gifts s' = upd_where (\<lambda>x. g_id x = g_id g) (consume_gift (sw_now w) (sw_letter_id w))
          (gifts (expire_gifts (sw_now w) (sp_user p) s))) \<and>
      ledger s' = ledger s \<and> users s' = users s \<and> txns s' = txns s \<and> orders s' = orders s"
proof -
  have g: "uses_gift p d" using assms(3,4) by (simp add: uses_gift_def)
  have m: "orders s' = orders (move_order w (sp_funding p) s)" "ledger s' = ledger s2" "users s' = users s2"
    "txns s' = txns s2" "gifts s' = gifts s2"
    using sent_mail [OF run assms(2)] by metis+
  obtain g where "next_gift (sp_user p) (expire_gifts (sw_now w) (sp_user p) s) = Some g"
    "gifts s2 = upd_where (\<lambda>x. g_id x = g_id g) (consume_gift (sw_now w) (sw_letter_id w))
      (gifts (expire_gifts (sw_now w) (sp_user p) s))"
    "ledger s2 = ledger s" "users s2 = users s" "txns s2 = txns s" using sent_paid_gift [OF run g] by metis
  then show ?thesis using m assms(3) by (cases "sp_funding p") simp_all
qed

lemma sent_by_balance:
  assumes run: "sent_run w p s d sched release pay s2 r s'" and "jobs_have_letters s" and "ledger_ok s"
    and nj: "\<not> is_jit (sp_funding p)" and "\<not> d_is_gift_send d"
  shows "0 < d_required_credits d \<and>
      getAvailableCredits (sw_now w) k s' =
        getAvailableCredits (sw_now w) k s - (if k = sp_user p then d_required_credits d else 0) \<and>
      balance_of k s' = balance_of k s - (if k = sp_user p then d_required_credits d else 0) \<and>
      sr_creditsRemaining r = balance_of (sp_user p) s' \<and>
      (\<exists>t. txns s' = txns s @ [t] \<and> tx_reference_id t = Some (sw_letter_id w) \<and> tx_amount t = - d_required_credits d) \<and>
      gifts s' = gifts s \<and> orders s' = orders s"
proof -
  have g: "\<not> uses_gift p d" using assms(5) by (simp add: uses_gift_def)
  have m: "orders s' = orders (move_order w (sp_funding p) s)" "ledger s' = ledger s2" "users s' = users s2"
    "txns s' = txns s2" "gifts s' = gifts s2" "sr_creditsRemaining r = fst pay"
    using sent_mail [OF run assms(2)] by metis+
  have o: "orders s' = orders s" using m(1) nj by (cases "sp_funding p") simp_all
  obtain u t cs where c: "getAvailableCredits (sw_now w) k s2 =
      getAvailableCredits (sw_now w) k s - (if k = sp_user p then d_required_credits d else 0)"
    "balance_of k s2 = balance_of k s - (if k = sp_user p then d_required_credits d else 0)"
    and t: "txns s2 = txns s @ [t]" "tx_reference_id t = Some (sw_letter_id w)" "tx_amount t = - d_required_credits d"
    and g2: "gifts s2 = gifts s" and u: "fst pay = u_credits u" "find_user (sp_user p) s2 = Some u"
    using sent_paid_prepaid [OF run assms(3) g nj, of k] by metis
  note same = available_cong [OF m(2)] balance_cong [OF m(3)]
  have rest: "sr_creditsRemaining r = balance_of (sp_user p) s'" "txns s' = txns s @ [t]" "gifts s' = gifts s"
    using u m(4,5,6) t(1) g2 same(2) by (simp_all add: balance_of_def)
  show ?thesis
    unfolding same c
    by (intro conjI sent_checks(3) [OF run] refl rest exI [of _ t] t(2,3) o) (simp_all add: rest(1) same)
qed

text \<open>
  C10: a send is paid once, by what it says paid. From the balance the spendable credits of the
  account, and its cached balance, fall by the draft's price and one transaction records it; a gift
  send uses the account's next gift letter and leaves the credits; a Pay and Send order was 'paid'
  for this draft and this mail, and waits for its fulfilment with the letter. Other accounts, and the books the
  payment does not use, stay as they are.
\<close>

theorem send_pays_once:
  assumes "createMailOrderFromDraftWithClient w p s = Inr (r, s')" and "\<not> sr_alreadyConsumed r"
    and "jobs_have_letters s" and "ledger_ok s" and "find_draft (sp_draft p) s = Some d"
  shows "case sr_fundingType r of
      Fund_prepaid_balance \<Rightarrow> \<not> is_jit (sp_funding p) \<and> \<not> d_is_gift_send d \<and> 0 < d_required_credits d \<and>
        getAvailableCredits (sw_now w) k s' =
          getAvailableCredits (sw_now w) k s - (if k = sp_user p then d_required_credits d else 0) \<and>
        balance_of k s' = balance_of k s - (if k = sp_user p then d_required_credits d else 0) \<and>
        sr_creditsRemaining r = balance_of (sp_user p) s' \<and>
        (\<exists>t. txns s' = txns s @ [t] \<and> tx_reference_id t = Some (sw_letter_id w) \<and> tx_amount t = - d_required_credits d) \<and>
        gifts s' = gifts s \<and> orders s' = orders s
    | Fund_gift_letter \<Rightarrow> \<not> is_jit (sp_funding p) \<and> d_is_gift_send d \<and>
        (\<exists>g. next_gift (sp_user p) (expire_gifts (sw_now w) (sp_user p) s) = Some g \<and>
          gifts s' = upd_where (\<lambda>x. g_id x = g_id g) (consume_gift (sw_now w) (sw_letter_id w))
            (gifts (expire_gifts (sw_now w) (sp_user p) s))) \<and>
        ledger s' = ledger s \<and> users s' = users s \<and> txns s' = txns s \<and> orders s' = orders s
    | Fund_jit_order \<Rightarrow> (\<exists>oid x pr. sp_funding p = Jit_order oid \<and> find_order oid s = Some x \<and> o_status x = Ord_paid \<and>
        o_user x = sp_user p \<and> o_draft_id x = Some (sp_draft p) \<and>
        jitProductMatching (draftMailOption d) = Some pr \<and> jp_code pr = o_product_code x \<and>
        find_order oid s' = Some (start_fulfilment (sw_now w) (sw_letter_id w) x)) \<and>
        ledger s' = ledger s \<and> users s' = users s \<and> txns s' = txns s \<and> gifts s' = gifts s"
proof -
  obtain e sched release pay s2 where run: "sent_run w p s e sched release pay s2 r s'"
    using assms(1,2) by (rule sent_new)
  then have "e = d" using assms(5) by (simp add: sent_run_def)
  note run = run [unfolded this]
  have type: "sr_fundingType r = send_funding_type p d" using sent_mail [OF run assms(3)] by metis
  show ?thesis
  proof (cases "is_jit (sp_funding p)")
    case True
    then have kind: "sr_fundingType r = Fund_jit_order" by (simp add: type send_funding_type_def)
    from sent_by_order [OF run assms(3) True] show ?thesis unfolding kind funding_type.case by blast
  next
    case nj: False
    show ?thesis
    proof (cases "d_is_gift_send d")
      case True
      then have kind: "sr_fundingType r = Fund_gift_letter" using nj by (simp add: type send_funding_type_def uses_gift_def)
      from sent_by_gift [OF run assms(3) nj True] nj True show ?thesis unfolding kind funding_type.case by blast
    next
      case False
      then have kind: "sr_fundingType r = Fund_prepaid_balance" using nj by (simp add: type send_funding_type_def uses_gift_def)
      from sent_by_balance [OF run assms(3,4) nj False] nj False show ?thesis unfolding kind funding_type.case by blast
    qed
  qed
qed

section \<open>The same draft again\<close>

text \<open>What a later call finds of a send: the draft consumed, its letter, and an order no longer 'paid'.\<close>

lemma sent_found:
  assumes run: "sent_run w p s d sched release pay s2 r s'" and "jobs_have_letters s"
  obtains l where "find_draft (sp_draft p) s' = Some (consume_draft (sw_now w) (sw_letter_id w) d)"
    and "find_letter (sw_letter_id w) s' = Some l" and "lt_id l = sw_letter_id w" and "lt_funding_type l = sr_fundingType r"
    and "lt_funding_order_id l = funding_order_of (sp_funding p)" and "lc_gift_card (lt_content l) = sr_giftCard r"
    and "sr_fundingType r = send_funding_type p d"
proof -
  let ?n = "new_letter w p d (held_dates sched)"
  obtain l where m: "letters s' = letters s @ [final_letter w release l]"
    "l = (case sr_giftCard r of None \<Rightarrow> id | Some c \<Rightarrow> add_gift_card c) ?n"
    "drafts s' = drafts (upd_draft (sp_draft p) (consume_draft (sw_now w) (sw_letter_id w)) s)"
    "sr_fundingType r = send_funding_type p d"
    using sent_mail [OF run assms(2)] by metis
  have f: "find_draft (sp_draft p) s = Some d" "letter_row_refusal ?n s = None"
    using run by (simp_all add: sent_run_def)
  have l: "lt_id l = sw_letter_id w" "lt_funding_type l = send_funding_type p d"
    "lt_funding_order_id l = funding_order_of (sp_funding p)" "lc_gift_card (lt_content l) = sr_giftCard r"
    unfolding m(2) by (simp_all add: new_letter_def buildPostcardContent_def buildLetterContent_def empty_content_def
        add_gift_card_def split: option.split)
  have "find_draft (sp_draft p) s' = find_draft (sp_draft p) (upd_draft (sp_draft p) (consume_draft (sw_now w) (sw_letter_id w)) s)"
    using m(3) by (simp add: find_draft_def)
  also have "\<dots> = Some (consume_draft (sw_now w) (sw_letter_id w) d)"
    by (subst find_draft_upd) (simp_all add: f consume_draft_def)
  finally have fd: "find_draft (sp_draft p) s' = Some (consume_draft (sw_now w) (sw_letter_id w) d)" .
  have "find_letter (sw_letter_id w) s = None" using inserted_letter_fresh [OF f(2)] by (simp add: find_letter_None)
  then have fl: "find_letter (sw_letter_id w) s' = Some (final_letter w release l)"
    by (simp add: find_letter_def m(1) find_by_append l)
  show ?thesis by (rule that [OF fd fl]) (simp_all add: l m(4))
qed

lemma replay_keeps_order:
  assumes run: "sent_run w p s d sched release pay s2 r s'" and "jobs_have_letters s"
    and "is_jit f \<Longrightarrow> f = sp_funding p"
  shows "converge_order v f lid s' = s'"
proof (cases f)
  case (Jit_order oid)
  with assms(3) have p: "sp_funding p = Jit_order oid" by simp
  have o: "orders s' = orders (move_order w (sp_funding p) s)" using sent_mail [OF run assms(2)] by metis
  have "upd_where (\<lambda>x. o_id x = oid) (\<lambda>x. if o_status x = Ord_paid then start_fulfilment (sw_now v) lid x else x) (orders s') = orders s'"
    by (simp add: o p upd_order_def upd_where_def start_fulfilment_def)
  then show ?thesis using Jit_order by (simp add: upd_order_def)
qed simp

text \<open>
  C11: the same draft sent again is the same letter. Whatever the second call brings, at any later
  moment, it answers the letter of the first send and changes nothing; a Pay and Send order other than
  the one that paid is refused as a funding conflict.
\<close>

theorem sent_again_same_letter:
  assumes "createMailOrderFromDraftWithClient w p s = Inr (r, s')" and "\<not> sr_alreadyConsumed r"
    and "jobs_have_letters s" and "sw_letter_id w \<noteq> []"
    and "sp_draft q = sp_draft p" and "sp_user q = sp_user p" and "sp_mailType q = sp_mailType p"
  shows "if is_jit (sp_funding q) \<and> sp_funding q \<noteq> sp_funding p
    then createMailOrderFromDraftWithClient v q s' = Inl (draftError ''DRAFT_FUNDING_CONFLICT''
      (''Draft '' @ sp_draft q @ '' was already consumed by different funding''))
    else \<exists>r'. createMailOrderFromDraftWithClient v q s' = Inr (r', s') \<and> sr_alreadyConsumed r' \<and>
      find_letter (sw_letter_id w) s' = Some (sr_letter r') \<and> sr_fundingType r' = sr_fundingType r \<and>
      sr_giftCard r' = sr_giftCard r \<and> sr_creditsRemaining r' = balance_of (sp_user p) s'"
proof -
  obtain d sched release pay s2 where run: "sent_run w p s d sched release pay s2 r s'"
    using assms(1,2) by (rule sent_new)
  let ?d = "consume_draft (sw_now w) (sw_letter_id w) d"
  obtain l where f: "find_draft (sp_draft p) s' = Some ?d" "find_letter (sw_letter_id w) s' = Some l" "lt_id l = sw_letter_id w"
    and l: "lt_funding_type l = sr_fundingType r" "lt_funding_order_id l = funding_order_of (sp_funding p)"
      "lc_gift_card (lt_content l) = sr_giftCard r" "sr_fundingType r = send_funding_type p d"
    using run assms(3) by (rule sent_found)
  have "d_user ?d = sp_user p" "d_mail_type ?d = sp_mailType p" "d_status ?d = D_consumed"
    "or_null_str (d_consumed_letter_id ?d) = Some (sw_letter_id w)"
    using run assms(4) by (simp_all add: sent_run_def consume_draft_def or_null_str_def)
  then have step: "createMailOrderFromDraftWithClient v q s' = (if conflicting_funding (sp_funding q) l
      then Inl (draftError ''DRAFT_FUNDING_CONFLICT'' (''Draft '' @ sp_draft q @ '' was already consumed by different funding''))
      else Inr (replay_result q ?d l s', converge_order v (sp_funding q) (sw_letter_id w) s'))"
    using f assms(5-7) by (simp add: createMailOrderFromDraftWithClient_def send_replay_def)
  have c: "conflicting_funding (sp_funding q) l \<longleftrightarrow> is_jit (sp_funding q) \<and> sp_funding q \<noteq> sp_funding p"
    by (cases "sp_funding q"; cases "sp_funding p") (auto simp: l send_funding_type_def uses_gift_def)
  show ?thesis
  proof (cases "conflicting_funding (sp_funding q) l")
    case False
    with c have "converge_order v (sp_funding q) (sw_letter_id w) s' = s'"
      by (intro replay_keeps_order [OF run assms(3)]) blast
    with step c False show ?thesis by (simp add: replay_result_def f(2) l assms(6))
  qed (use step c in simp)
qed

section \<open>Within the limits\<close>

text \<open>What the checks after the payment saw: the store the send leaves, as far as they read it.\<close>

lemma sent_capped:
  assumes "sent_run w p s d sched release pay s2 r s'" and "\<not> is_jit (sp_funding p)"
  shows "caps_refusal w p s2 = None" and "uses_gift p d \<Longrightarrow> assertGiftSendWithinDailyCap (sw_env w) (sw_now w) s2 = None"
proof -
  from assms(1) have "send_pay w p d release (new_letter w p d (held_dates sched))
      (s\<lparr>letters := letters s @ [new_letter w p d (held_dates sched)]\<rparr>) = Inr (pay, s2)" by (simp add: sent_run_def)
  then have "caps_refusal w p s2 = None \<and> (uses_gift p d \<longrightarrow> assertGiftSendWithinDailyCap (sw_env w) (sw_now w) s2 = None)"
  proof (cases rule: send_pay_cases)
    case (gift g c s1)
    from sent_paid_gift [OF assms(1) gift(1)] show ?thesis by metis
  next
    case (jit oid)
    with assms(2) show ?thesis by simp
  qed simp
  then show "caps_refusal w p s2 = None" "uses_gift p d \<Longrightarrow> assertGiftSendWithinDailyCap (sw_env w) (sw_now w) s2 = None"
    by simp_all
qed

text \<open>
  C18: a send from the balance or a gift letter keeps within the limits of the day, counted after it:
  the account's letters and open checkouts and those of every account are at most the values in
  force, a gift send is within the gift budget, sending is on, and the account is in the beta and not blocked;
  the draft is what a pack pays for; a send that names the version the person was shown goes through only while the
  draft still has that version, one that names none is let through; and of the live Pay and Send orders of the draft
  none is left but checkouts whose window is past.
\<close>

theorem send_within_limits:
  assumes "createMailOrderFromDraftWithClient w p s = Inr (r, s')" and "\<not> sr_alreadyConsumed r"
    and "jobs_have_letters s" and "\<not> is_jit (sp_funding p)" and "find_draft (sp_draft p) s = Some d"
  shows "let limit = effectiveDailyLimits (sw_env w) (sw_now w) [Lk_account_daily_mail, Lk_global_daily_mail] (Some (sp_user p)) s in
    mailTodayCount (Some (sp_user p)) True (sw_now w) s' \<le> limit Lk_account_daily_mail \<and>
    mailTodayCount None True (sw_now w) s' \<le> limit Lk_global_daily_mail \<and>
    (if d_is_gift_send d then assertGiftSendWithinDailyCap (sw_env w) (sw_now w) s' = None \<and> isGiftLettersEnabled (sw_env w) else True) \<and>
    isMailSendingEnabled (sw_env w) \<and> isBetaAccessAllowed (sp_user p) (sw_env w) \<and> blocked_reason (sp_user p) s = None \<and>
    isPackPayable (draftMailOption d) \<and>
    (case or_null_str (map_option js_trim (sp_contentVersion p)) of None \<Rightarrow> True
      | Some shown \<Rightarrow> shown = contentVersionOf (sw_sha256 w) d) \<and>
    (\<forall>x\<in>set (orders s). o_draft_id x = Some (sp_draft p) \<and> o_type x = Ot_jit_mail \<and> live_jit_status (o_status x) \<longrightarrow>
      o_status x = Ord_checkout_pending \<and> (\<exists>t. o_checkout_expires_at x = Some t \<and> t \<le> sw_now w))"
proof -
  obtain e sched release pay s2 where run: "sent_run w p s e sched release pay s2 r s'"
    using assms(1,2) by (rule sent_new)
  then have "e = d" using assms(5) by (simp add: sent_run_def)
  note run = run [unfolded this]
  obtain l where m: "letters s' = letters s @ [final_letter w release l]" "limit_overrides s' = limit_overrides s"
    "orders s' = orders (move_order w (sp_funding p) s)" "letters s2 = letters s @ [l]" "orders s2 = orders s"
    "limit_overrides s2 = limit_overrides s"
    and l: "l = (case sr_giftCard r of None \<Rightarrow> id | Some c \<Rightarrow> add_gift_card c) (new_letter w p d (held_dates sched))"
    using sent_mail [OF run assms(3)] by metis
  have o: "orders s' = orders s" using m(3) assms(4) by (cases "sp_funding p") simp_all
  have "lt_status l = L_draft" by (simp add: l split: option.split)
  then have "counts_alike s2 s'" using m o by (simp add: counts_alike_def letter_counts_def)
  note alike = counts_alike_caps [OF this]
  note capped = sent_capped [OF run assms(4)]
  have lim: "effectiveDailyLimits (sw_env w) (sw_now w) ks u s2 = effectiveDailyLimits (sw_env w) (sw_now w) ks u s" for ks u
    by (simp add: effectiveDailyLimits_def m)
  have g: "uses_gift p d \<longleftrightarrow> d_is_gift_send d" using assms(4) by (simp add: uses_gift_def)
  note c = within_caps [OF capped(1) [unfolded caps_refusal_def], unfolded lim add_0_right]
  have version: "case or_null_str (map_option js_trim (sp_contentVersion p)) of None \<Rightarrow> True
      | Some shown \<Rightarrow> shown = contentVersionOf (sw_sha256 w) d"
    using sent_checks(6) [OF run assms(4)] by (auto simp: contentVersionMatches_def split: option.splits if_splits)
  have over: "\<forall>x\<in>set (orders s). o_draft_id x = Some (sp_draft p) \<and> o_type x = Ot_jit_mail \<and> live_jit_status (o_status x) \<longrightarrow>
      o_status x = Ord_checkout_pending \<and> (\<exists>t. o_checkout_expires_at x = Some t \<and> t \<le> sw_now w)"
    using sent_checks(9) [OF run assms(4)] by (force simp: active_checkout_def list_ex_iff not_less split: option.splits)
  show ?thesis
    unfolding Let_def alike
    using c capped(2) sent_checks(4,5,7,8) [OF run] assms(4) g version over by simp
qed

lemma sent_no_duplicate:
  assumes "sent_run w p s d sched release pay s2 r s'" and "\<not> is_jit (sp_funding p)" and "\<not> sp_allowDuplicate p"
  obtains t where "findRecentDuplicateMail (sw_unicode w) (sw_md5 w) (sw_now w) (sp_user p) (sp_draft p)
      (comparable_draft (sw_md5 w) d) (Some (sw_letter_id w)) t = None"
    "orders t = orders s" "drafts t = drafts s" "set (letters s) \<subseteq> set (letters t)"
proof -
  let ?n = "new_letter w p d (held_dates sched)"
  let ?sa = "s\<lparr>letters := letters s @ [?n]\<rparr>"
  from assms(1) have "send_pay w p d release ?n ?sa = Inr (pay, s2)" by (simp add: sent_run_def)
  then have "\<exists>t. duplicate_refusal w p (sw_letter_id w) t = None \<and> pays_only ?sa t"
  proof (cases rule: send_pay_cases)
    case (gift g c s1)
    from consume_gift_cases [OF gift(2)] have "pays_only ?sa s1" by simp
    with gift(5) show ?thesis by auto
  next
    case (jit oid)
    with assms(2) show ?thesis by simp
  next
    case (prepaid u t cs)
    from deduct_pays [OF prepaid(3)] have "pays_only ?sa s2" by simp
    with prepaid(5) show ?thesis by auto
  qed
  then obtain t where t: "duplicate_refusal w p (sw_letter_id w) t = None" "orders t = orders s" "drafts t = drafts s"
    "letters t = letters s @ [?n]" by (auto simp: pays_only_def)
  have "find_draft (sp_draft p) t = Some d" "d_user d = sp_user p"
    using assms(1) t(3) by (simp_all add: sent_run_def find_draft_def)
  with t(1) assms(3) have "findRecentDuplicateMail (sw_unicode w) (sw_md5 w) (sw_now w) (sp_user p) (sp_draft p)
      (comparable_draft (sw_md5 w) d) (Some (sw_letter_id w)) t = None"
    by (simp add: duplicate_refusal_def assertNoRecentDuplicateMail_def loadComparableDraft_def)
  from that [OF this t(2,3)] t(4) show ?thesis by auto
qed

text \<open>
  C19: a send from the balance or a gift letter is no second copy. Unless the person asked for another one, no live
  letter of the account made in the last day is the same mail as the draft, compared by kind,
  format, addresses, words and pictures, and no paid order or open checkout of the last day will become it.
  The mail of a Pay and Send order is not compared when it is paid, and this says nothing of it.
\<close>

theorem send_is_no_second_copy:
  assumes "createMailOrderFromDraftWithClient w p s = Inr (r, s')" and "\<not> sr_alreadyConsumed r"
    and "\<not> is_jit (sp_funding p)" and "\<not> sp_allowDuplicate p" and "sw_letter_id w \<noteq> []"
    and "find_draft (sp_draft p) s = Some d"
  shows "list_all (\<lambda>l. \<not> (recent_letter (sw_now w) (sp_user p) (d_mail_type d) [] l \<and>
      same_mail (sw_unicode w) (comparable_letter (sw_md5 w) l) (comparable_draft (sw_md5 w) d))) (letters s) \<and>
    list_all (\<lambda>xe. \<not> (recent_order (sw_now w) (sp_user p) (sp_draft p) (d_mail_type d) xe \<and>
      same_mail (sw_unicode w) (comparable_draft (sw_md5 w) (snd xe)) (comparable_draft (sw_md5 w) d)))
      (concat (map (with_draft s) (orders s)))"
proof -
  obtain e sched release pay s2 where run: "sent_run w p s e sched release pay s2 r s'"
    using assms(1,2) by (rule sent_new)
  then have "e = d" using assms(6) by (simp add: sent_run_def)
  note run = run [unfolded this]
  obtain t where t: "findRecentDuplicateMail (sw_unicode w) (sw_md5 w) (sw_now w) (sp_user p) (sp_draft p)
      (comparable_draft (sw_md5 w) d) (Some (sw_letter_id w)) t = None"
    "orders t = orders s" "drafts t = drafts s" "set (letters s) \<subseteq> set (letters t)"
    using run assms(3,4) by (rule sent_no_duplicate)
  have mt: "cm_mailType (comparable_draft (sw_md5 w) d) = d_mail_type d" by (simp add: comparable_draft_def)
  have "letter_row_refusal (new_letter w p d (held_dates sched)) s = None" using run by (simp add: sent_run_def)
  from inserted_letter_fresh [OF this] have fresh: "lt_id l \<noteq> sw_letter_id w" if "l \<in> set (letters s)" for l
    using that by force
  have letters: "\<not> same_mail (sw_unicode w) (comparable_letter (sw_md5 w) l) (comparable_draft (sw_md5 w) d)"
    if l: "l \<in> set (letters s)" "recent_letter (sw_now w) (sp_user p) (d_mail_type d) [] l" for l
    by (rule no_duplicate_letter [OF t(1)])
      (use l t(4) fresh assms(5) in \<open>auto simp: mt recent_letter_def or_str_def\<close>)
  have orders: "\<not> same_mail (sw_unicode w) (comparable_draft (sw_md5 w) (snd xe)) (comparable_draft (sw_md5 w) d)"
    if xe: "xe \<in> set (concat (map (with_draft s) (orders s)))"
      "recent_order (sw_now w) (sp_user p) (sp_draft p) (d_mail_type d) xe" for xe
  proof -
    from xe(1) obtain x did f where x: "x \<in> set (orders s)" "o_draft_id x = Some did" "find_draft did s = Some f" "xe = (x, f)"
      by (auto split: option.splits bind_splits)
    have "\<not> same_mail (sw_unicode w) (comparable_draft (sw_md5 w) f) (comparable_draft (sw_md5 w) d)"
      by (rule no_duplicate_order [OF t(1), of x did])
        (use x xe(2) t(2,3) in \<open>auto simp: mt find_draft_def\<close>)
    then show ?thesis by (simp add: x(4))
  qed
  show ?thesis using letters orders by (auto simp: list_all_iff)
qed

section \<open>Sent and cancelled\<close>

lemma apply_takes_marks:
  "list_ex (is_return_lot l uid) (ledger (apply_takes now ts s)) = list_ex (is_return_lot l uid) (ledger s)"
proof (induction now ts s rule: apply_takes.induct)
  case (2 now e a ts s)
  have k: "is_return_lot l uid (set_remaining now n x) = is_return_lot l uid x" for n x
    by (simp add: is_return_lot_def set_remaining_def)
  have "list_ex (is_return_lot l uid) (upd_where P (set_remaining now n) xs) = list_ex (is_return_lot l uid) xs" for P n xs
    by (induction xs) (simp_all add: upd_where_def k)
  with 2 show ?case by (simp add: upd_lot_def)
qed simp

lemma deduct_marks:
  assumes "deductCreditsFromLedgerWithClient now p s = Inr ((u, t, cs), s')"
  shows "hasReturnedCreditsForLetter l uid s' = hasReturnedCreditsForLetter l uid s"
  using assms by (rule deduct_Inr) (simp add: hasReturnedCreditsForLetter_def apply_takes_marks insert_txn_def upd_user_def)

lemma consumed_lots_cong:
  assumes "ledger s' = ledger s" and "txns s' = txns s" and "consumptions s' = consumptions s"
  shows "consumed_lots l uid s' = consumed_lots l uid s"
proof -
  have "find_lot k s' = find_lot k s" "find_txn i s' = find_txn i s" for k i
    using assms by (simp_all add: find_lot_def find_txn_def)
  then have "consumed_row l uid s' = consumed_row l uid s" unfolding consumed_row_def by presburger
  then show ?thesis by (simp add: consumed_lots_def assms)
qed

lemma below_seq_letters [simp]: "below_seq (s\<lparr>letters := ls\<rparr>) = below_seq s"
  by (simp add: below_seq_def)

text \<open>What a send from the balance leaves for a return: the price, all of it usable while no credit runs out.\<close>

lemma sent_leaves_price:
  assumes run: "sent_run w p s d sched release pay s2 r s'" and "\<not> uses_gift p d" and "\<not> is_jit (sp_funding p)"
    and "ledger_ok s" and "below_seq s" and "list_all (\<lambda>t. tx_reference_id t \<noteq> Some (sw_letter_id w)) (txns s)"
    and "list_all (\<lambda>e. \<not> (spendable (sw_now w) (sp_user p) e \<and> lot_expired now e)) (ledger s)"
  shows "usable_amount now (consumed_lots (sw_letter_id w) (sp_user p) s2) = d_required_credits d"
    and "hasReturnedCreditsForLetter l u s2 = hasReturnedCreditsForLetter l u s"
proof -
  let ?n = "new_letter w p d (held_dates sched)" and ?l = "sw_letter_id w" and ?u = "sp_user p"
  let ?sa = "s\<lparr>letters := letters s @ [?n]\<rparr>"
  have ok: "ledger_ok ?sa" by (rule ledger_ok_cong [OF _ _ _ assms(4)]) (simp_all add: find_user_def)
  from run have "send_pay w p d release ?n ?sa = Inr (pay, s2)" by (simp add: sent_run_def)
  then obtain v t cs where ded: "deductCreditsFromLedgerWithClient (sw_now w) (send_deduction p d ?l) ?sa = Inr ((v, t, cs), s2)"
    by (cases rule: send_pay_cases) (use assms(2,3) in auto)
  have "\<forall>x\<in>set (txns s). tx_reference_id x \<noteq> Some ?l" using assms(6) by (simp add: list_all_iff)
  note lots = deducted_lots [OF ded ok, simplified, OF assms(5), unfolded send_deduction_def, simplified, OF this]
  have "\<not> lot_expired now lot" if "(a, lot) \<in> set (consumed_lots ?l ?u s2)" for a lot
    using lots(3) [OF that] assms(7) by (auto simp: list_all_iff lot_expired_def)
  then show "usable_amount now (consumed_lots ?l ?u s2) = d_required_credits d"
    using usable_unexpired [OF lots(1)] lots(2) by simp
  show "hasReturnedCreditsForLetter l u s2 = hasReturnedCreditsForLetter l u s"
    using deduct_marks [OF ded] by (simp add: hasReturnedCreditsForLetter_def)
qed

lemma cancel_of_sent:
  assumes run: "sent_run w p s d sched release pay s2 r s'" and "jobs_have_letters s"
    and "\<not> uses_gift p d" and "\<not> is_jit (sp_funding p)"
    and "cancelScheduledMailWithClient env now js (sw_letter_id w) (sp_user p) s' = Inr (Cancelled m, s'')"
    and "\<not> cm_alreadyCancelled m"
  obtains j :: letter_job where "creditsBack now (sw_letter_id w) (sp_user p) (d_required_credits d)
      (cancel_rows now (j_id j) (sw_letter_id w) s') = Inr ((cm_count m, cm_shortfall m), s'')" "cm_kind m = Ret_letters"
proof -
  let ?l = "sw_letter_id w" and ?u = "sp_user p" and ?n = "new_letter w p d (held_dates sched)"
  obtain l where m: "letters s' = letters s @ [final_letter w release l]"
    and l: "l = (case sr_giftCard r of None \<Rightarrow> id | Some c \<Rightarrow> add_gift_card c) ?n"
    using sent_mail [OF run assms(2)] by metis
  obtain l' j where c: "cancels_held ?l ?u l' j s'" and k: "cm_kind m = returnedKind (lt_funding_type l')"
    and ret: "(if lt_funding_type l' = Fund_gift_letter then giftBack env now js ?l ?u (cancel_rows now (j_id j) ?l s')
      else creditsBack now ?l ?u (lt_credits_cost l') (cancel_rows now (j_id j) ?l s')) = Inr ((cm_count m, cm_shortfall m), s'')"
    using assms(5,6) by (rule cancel_gone)
  have fresh: "?l \<notin> lt_id ` set (letters s)"
    using run inserted_letter_fresh [of ?n s] by (simp add: sent_run_def)
  from c have "l' \<in> set (letters s')" "lt_id l' = ?l" by (auto simp: cancels_held_def dest: find_letterD)
  with fresh have "l' = final_letter w release l" by (force simp: m(1))
  then have l': "lt_funding_type l' = Fund_prepaid_balance" "lt_credits_cost l' = d_required_credits d"
    using assms(3,4) by (simp_all add: l send_funding_type_def split: option.split)
  have "creditsBack now ?l ?u (d_required_credits d) (cancel_rows now (j_id j) ?l s') = Inr ((cm_count m, cm_shortfall m), s'')"
    using ret by (simp add: l')
  moreover have "cm_kind m = Ret_letters" using k by (simp add: l' returnedKind_def)
  ultimately show ?thesis by (rule that)
qed

text \<open>
  C20: held mail sent from the balance and cancelled gives back exactly what it took. When none of the
  credits that were spendable at the send has run out by the cancel, the cached balance of the account is
  what it was before the send, its spendable credits rise by the draft's price, and the cancel
  counts the letters of that price and names no shortfall.
\<close>

theorem send_then_cancel_restores:
  assumes "createMailOrderFromDraftWithClient w p s = Inr (r, s')" and "\<not> sr_alreadyConsumed r"
    and "sr_fundingType r = Fund_prepaid_balance" and "find_draft (sp_draft p) s = Some d"
    and "cancelScheduledMailWithClient env now js (sw_letter_id w) (sp_user p) s' = Inr (Cancelled m, s'')"
    and "\<not> cm_alreadyCancelled m" and "jobs_have_letters s" and "ledger_ok s" and "below_seq s"
    and "list_all (\<lambda>t. tx_reference_id t \<noteq> Some (sw_letter_id w)) (txns s)"
    and "\<not> hasReturnedCreditsForLetter (sw_letter_id w) (sp_user p) s"
    and "list_all (\<lambda>e. \<not> (spendable (sw_now w) (sp_user p) e \<and> lot_expired now e)) (ledger s)"
  shows "balance_of (sp_user p) s'' = balance_of (sp_user p) s \<and>
    getAvailableCredits now (sp_user p) s'' = getAvailableCredits now (sp_user p) s' + d_required_credits d \<and>
    cm_count m = d_required_credits d div CREDITS_PER_LETTER \<and> cm_shortfall m = Short_none \<and> cm_kind m = Ret_letters"
proof -
  let ?l = "sw_letter_id w" and ?u = "sp_user p"
  obtain e sched release pay s2 where run: "sent_run w p s e sched release pay s2 r s'"
    using assms(1,2) by (rule sent_new)
  then have "e = d" using assms(4) by (simp add: sent_run_def)
  note run = run [unfolded this]
  have m: "ledger s' = ledger s2" "users s' = users s2" "txns s' = txns s2" "consumptions s' = consumptions s2"
    "sr_fundingType r = send_funding_type p d"
    using sent_mail [OF run assms(7)] by metis+
  have kind: "\<not> uses_gift p d" "\<not> is_jit (sp_funding p)"
    using m(5) assms(3) by (auto simp: send_funding_type_def split: if_splits)
  note left = sent_leaves_price [OF run kind assms(8-10,12)]
  have eff: "balance_of ?u s2 = balance_of ?u s - d_required_credits d" "ledger_ok s2" "find_user ?u s2 \<noteq> None"
    using sent_paid_prepaid [OF run assms(8) kind, of ?u] by (metis, metis, metis option.distinct(1))
  obtain j :: letter_job where ret: "creditsBack now ?l ?u (d_required_credits d) (cancel_rows now (j_id j) ?l s') =
      Inr ((cm_count m, cm_shortfall m), s'')" and k: "cm_kind m = Ret_letters"
    using run assms(7) kind assms(5,6) by (rule cancel_of_sent)
  let ?s1 = "cancel_rows now (j_id j) ?l s'"
  have same: "balance_of ?u ?s1 = balance_of ?u s2" "getAvailableCredits now ?u ?s1 = getAvailableCredits now ?u s'"
    "consumed_lots ?l ?u ?s1 = consumed_lots ?l ?u s2" "hasReturnedCreditsForLetter ?l ?u ?s1 = hasReturnedCreditsForLetter ?l ?u s2"
    by (rule balance_cong, simp add: m) (rule available_cong, simp, rule consumed_lots_cong, (simp add: m hasReturnedCreditsForLetter_def)+)
  have ok1: "ledger_ok ?s1"
    by (rule ledger_ok_cong [OF _ _ _ eff(2)]) (simp_all add: m find_user_def)
  have u1: "find_user ?u ?s1 \<noteq> None" using eff(3) by (simp add: find_user_def m)
  obtain v where "getAvailableCredits now ?u s'' = getAvailableCredits now ?u ?s1 + v"
    "balance_of ?u s'' = balance_of ?u ?s1 + v" "cm_count m = v div CREDITS_PER_LETTER"
    "cm_shortfall m = Short_none \<longleftrightarrow> d_required_credits d \<le> v" "v = usable_amount now (consumed_lots ?l ?u ?s1)"
    using credits_back_usable [OF ret ok1 u1] assms(11) unfolding same left by metis
  then show ?thesis using eff(1) k by (simp add: same left)
qed

section \<open>Valid rows\<close>

text \<open>What the letters, jobs and drafts satisfy row by row and between them, as the schema has it.\<close>

definition letter_row_ok :: "letter \<Rightarrow> bool" where
  "letter_row_ok l \<longleftrightarrow> 0 < lt_credits_cost l \<and> or_str (lt_mail_service l) ''standard'' \<in> set MAIL_SERVICES \<and>
     (or_str (lt_mail_service l) ''standard'' = ''standard'' \<or> (lt_mail_type l = Mt_letter \<and> lt_funding_type l = Fund_jit_order)) \<and>
     (lt_arrive_by l = None) = (lt_mail_on l = None) \<and>
     (lt_funding_type l = Fund_jit_order) = (lt_funding_order_id l \<noteq> None)"

definition draft_linked :: "db \<Rightarrow> draft \<Rightarrow> bool" where
  "draft_linked s d \<longleftrightarrow> (d_status d = D_consumed \<longrightarrow>
     (\<exists>l. d_consumed_letter_id d = Some l \<and> find_letter l s \<noteq> None))"

definition mail_rows_ok :: "db \<Rightarrow> bool" where
  "mail_rows_ok s \<longleftrightarrow> list_all letter_row_ok (letters s) \<and> distinct (map lt_id (letters s)) \<and>
     distinct (List.map_filter lt_funding_order_id (letters s)) \<and>
     list_all (\<lambda>l. find_user (lt_user l) s \<noteq> None) (letters s) \<and>
     list_all (\<lambda>oid. find_order oid s \<noteq> None) (List.map_filter lt_funding_order_id (letters s)) \<and>
     jobs_have_letters s \<and> distinct (map j_letter (jobs s)) \<and> list_all (draft_linked s) (drafts s)"

lemma map_filter_set: "set (List.map_filter f xs) = {y. \<exists>x\<in>set xs. f x = Some y}"
  by (force simp: List.map_filter_def)

lemma letter_row_ok_kept:
  "letter_row_ok (add_gift_card c l) = letter_row_ok l" "letter_row_ok (final_letter w release l) = letter_row_ok l"
proof -
  have "lt_mail_service (add_gift_card c l) = lt_mail_service l" by (simp add: add_gift_card_def)
  then show "letter_row_ok (add_gift_card c l) = letter_row_ok l" by (simp add: letter_row_ok_def)
  have "lt_mail_service (final_letter w release l) = lt_mail_service l" "lt_mail_type (final_letter w release l) = lt_mail_type l"
    by (simp_all add: final_letter_def Let_def record_layout_def split: option.split)
  then show "letter_row_ok (final_letter w release l) = letter_row_ok l" by (simp add: letter_row_ok_def)
qed

lemma inserted_row_ok: "letter_row_refusal l s = None \<Longrightarrow> letter_row_ok l"
  by (auto simp: letter_row_refusal_def letter_row_ok_def Let_def split: if_splits option.splits)

lemma send_pay_users:
  assumes "send_pay w p d release l s = Inr (pay, s2)"
  shows "find_user k s2 = None \<longleftrightarrow> find_user k s = None"
  using assms
proof (cases rule: send_pay_cases)
  case (gift g c s1)
  with consume_gift_cases [OF gift(2)] show ?thesis by (simp add: find_user_def)
next
  case (prepaid u t cs)
  from prepaid(3) show ?thesis
  proof (rule deduct_Inr)
    fix v
    assume "s2 = consumptions_update (\<lambda>xs. xs @ cs)
      (apply_takes (sw_now w) (takes (dp_credits (send_deduction p d (lt_id l)))
          (consumption_order (sw_now w) (dp_user (send_deduction p d (lt_id l))) s))
        (insert_txn t (upd_user (dp_user (send_deduction p d (lt_id l)))
          (deduct_balance (sw_now w) (dp_credits (send_deduction p d (lt_id l)))) s)))"
    then have "users s2 = users (upd_user (dp_user (send_deduction p d (lt_id l)))
          (deduct_balance (sw_now w) (dp_credits (send_deduction p d (lt_id l)))) s)"
      by (simp add: insert_txn_def)
    then show ?thesis by (simp add: find_user_def upd_user_def find_by_upd_where deduct_balance_def)
  qed
qed simp

text \<open>The rows a send adds, and what it leaves of the accounts and the orders.\<close>

lemma new_send_lookups:
  assumes run: "sent_run w p s d sched release pay s2 r s'" and "jobs_have_letters s"
  shows "find_user k s' = None \<longleftrightarrow> find_user k s = None" and "find_order k s' = None \<longleftrightarrow> find_order k s = None"
    and "find_letter k s' \<noteq> None \<longleftrightarrow> find_letter k s \<noteq> None \<or> k = sw_letter_id w"
    and "\<exists>f. letters s' = letters s @ [f] \<and> letter_row_ok f \<and> lt_id f = sw_letter_id w \<and> lt_user f = sp_user p \<and>
      lt_funding_order_id f = funding_order_of (sp_funding p)"
proof -
  let ?n = "new_letter w p d (held_dates sched)"
  obtain l where m: "letters s' = letters s @ [final_letter w release l]"
    "orders s' = orders (move_order w (sp_funding p) s)" "users s' = users s2"
    and l: "l = (case sr_giftCard r of None \<Rightarrow> id | Some c \<Rightarrow> add_gift_card c) ?n"
    using sent_mail [OF run assms(2)] by metis
  have ref: "letter_row_refusal ?n s = None" using run by (simp add: sent_run_def)
  have row: "letter_row_ok (final_letter w release l)"
    using inserted_row_ok [OF ref] by (simp add: l letter_row_ok_kept split: option.split)
  have id: "lt_id l = sw_letter_id w" "lt_user l = sp_user p" "lt_funding_order_id l = funding_order_of (sp_funding p)"
    by (simp_all add: l split: option.split)
  show "find_user k s' = None \<longleftrightarrow> find_user k s = None"
    using run send_pay_users [of w p d release ?n "s\<lparr>letters := letters s @ [?n]\<rparr>" pay s2 k] m(3)
    by (simp add: sent_run_def find_user_def)
  show "find_order k s' = None \<longleftrightarrow> find_order k s = None"
    using m(2) by (cases "sp_funding p") (simp_all add: find_order_def upd_order_def find_by_upd_where start_fulfilment_def)
  show "find_letter k s' \<noteq> None \<longleftrightarrow> find_letter k s \<noteq> None \<or> k = sw_letter_id w"
    using id(1) by (auto simp: find_letter_def m(1) find_by_append split: option.split)
  show "\<exists>f. letters s' = letters s @ [f] \<and> letter_row_ok f \<and> lt_id f = sw_letter_id w \<and> lt_user f = sp_user p \<and>
      lt_funding_order_id f = funding_order_of (sp_funding p)"
    using m(1) row id by (intro exI [of _ "final_letter w release l"]) simp
qed

lemma new_send_rows:
  assumes run: "sent_run w p s d sched release pay s2 r s'" and ok: "mail_rows_ok s"
  shows "mail_rows_ok s'"
proof -
  have jl: "jobs_have_letters s" using ok by (simp add: mail_rows_ok_def)
  note users = new_send_lookups(1) [OF run jl] and orders = new_send_lookups(2) [OF run jl] and found = new_send_lookups(3) [OF run jl]
  obtain f where f: "letters s' = letters s @ [f]" "letter_row_ok f" "lt_id f = sw_letter_id w" "lt_user f = sp_user p"
    "lt_funding_order_id f = funding_order_of (sp_funding p)" using new_send_lookups(4) [OF run jl] by blast
  have m: "jobs s' = jobs s @ [new_job (sw_env w) (sw_now w) (sw_job_id w) (sw_to_iso w) (sw_letter_id w) release]"
    "drafts s' = drafts (upd_draft (sp_draft p) (consume_draft (sw_now w) (sw_letter_id w)) s)"
    using sent_mail [OF run jl] by metis+
  have ref: "letter_row_refusal (new_letter w p d (held_dates sched)) s = None" using run by (simp add: sent_run_def)
  have fresh: "sw_letter_id w \<notin> lt_id ` set (letters s)" using inserted_letter_fresh [OF ref] by simp
  note checks = insert_checks [OF ref, unfolded new_letter_fields]
  have funded: "List.map_filter lt_funding_order_id (letters s') =
      List.map_filter lt_funding_order_id (letters s) @ (case funding_order_of (sp_funding p) of None \<Rightarrow> [] | Some oid \<Rightarrow> [oid])"
    using f(5) by (auto simp: f(1) map_filter_append map_filter_simps split: option.split)
  have own: "oid \<notin> set (List.map_filter lt_funding_order_id (letters s))" "find_order oid s \<noteq> None"
    if "funding_order_of (sp_funding p) = Some oid" for oid
    using checks(3,4) [of oid] that by (auto simp: map_filter_set)
  have jobs: "sw_letter_id w \<notin> j_letter ` set (jobs s)"
    using jl fresh by (auto simp: jobs_have_letters_def find_letter_None)
  have "list_all (draft_linked s') (drafts s')"
  proof -
    have old: "draft_linked s' x" if "x \<in> set (drafts s)" for x
      using that ok found by (fastforce simp: mail_rows_ok_def list_all_iff draft_linked_def)
    have "draft_linked s' (consume_draft (sw_now w) (sw_letter_id w) x)" for x
      using found [of "sw_letter_id w"] by (simp add: draft_linked_def consume_draft_def)
    with old show ?thesis by (auto simp: m(2) upd_draft_def list_all_iff set_upd_where)
  qed
  moreover have "jobs_have_letters s'" using jl found by (fastforce simp: jobs_have_letters_def m(1) new_job_def Let_def)
  moreover have "distinct (map j_letter (jobs s'))"
    using ok jobs by (simp add: m(1) mail_rows_ok_def new_job_def Let_def)
  moreover have "distinct (map lt_id (letters s'))" "list_all letter_row_ok (letters s')"
    using ok fresh f(2) by (simp_all add: f(1,3) mail_rows_ok_def)
  moreover have "distinct (List.map_filter lt_funding_order_id (letters s'))"
    "list_all (\<lambda>oid. find_order oid s' \<noteq> None) (List.map_filter lt_funding_order_id (letters s'))"
    using ok own by (auto simp: funded mail_rows_ok_def orders split: option.splits)
  moreover have "list_all (\<lambda>l. find_user (lt_user l) s' \<noteq> None) (letters s')"
    using ok checks(2) by (auto simp: f(1,4) mail_rows_ok_def users list_all_iff)
  ultimately show ?thesis by (simp add: mail_rows_ok_def)
qed

text \<open>
  C22: a send keeps the mail's rows valid: every letter satisfies the checks of its table, has its own
  id and funding order, belongs to an account and, when an order paid it, to an order that exists;
  every job has its letter and no letter two jobs; every consumed draft links to a letter that
  exists. This holds of a new send and of a replay alike.
\<close>

theorem send_keeps_rows_valid:
  assumes "createMailOrderFromDraftWithClient w p s = Inr (r, s')" and "mail_rows_ok s"
  shows "mail_rows_ok s'"
  using assms(1)
proof (cases rule: send_cases)
  case (sent d sched release pay s2)
  from new_send_rows [OF sent(2) assms(2)] show ?thesis .
next
  case (replayed d)
  from replayed(6) obtain lid where "s' = converge_order w (sp_funding p) lid s"
    by (auto simp: send_replay_def split: option.splits if_splits)
  then have same: "letters s' = letters s" "jobs s' = jobs s" "drafts s' = drafts s" "users s' = users s"
    and o: "find_order k s' = None \<longleftrightarrow> find_order k s = None" for k
    by (cases "sp_funding p"; simp add: find_order_upd start_fulfilment_def)+
  have "find_letter k s' = find_letter k s" "find_user k s' = find_user k s" for k
    by (simp_all add: find_letter_def find_user_def same)
  then have "draft_linked s' = draft_linked s" "jobs_have_letters s' = jobs_have_letters s"
    by (simp_all add: fun_eq_iff draft_linked_def jobs_have_letters_def same)
  with assms(2) o show ?thesis by (simp add: mail_rows_ok_def same find_user_def)
qed

section \<open>Prices and versions\<close>

definition priced :: "mail_option \<Rightarrow> (mail_type \<times> string option \<times> int) option" where
  "priced opt = map_option (\<lambda>p. (jp_mailType p, jp_enabledBy p, jp_expectedAmountCents p)) (jitProductMatching opt)"

definition letter_of :: "int option \<Rightarrow> string option \<Rightarrow> mail_option" where
  "letter_of pages service = \<lparr> mo_mailType = Mt_letter, mo_pages = pages, mo_postcardSize = None, mo_mailService = service \<rparr>"

lemma letter_prices:
  "priced (letter_of None None) = Some (Mt_letter, None, 499)"
  "priced (letter_of (Some 2) None) = Some (Mt_letter, Some ROOM_TO_WRITE_FLAG, 599)"
  "priced (letter_of (Some 3) None) = Some (Mt_letter, Some ROOM_TO_WRITE_FLAG, 699)"
  "list_all (\<lambda>n. priced (letter_of n (Some ''certified'')) = Some (Mt_letter, Some CERTIFIED_MAIL_FLAG, 1199) \<and>
     priced (letter_of n (Some ''certified_return_receipt'')) = Some (Mt_letter, Some CERTIFIED_MAIL_FLAG, 1499)) [None, Some 2, Some 3]"
  by code_simp+

text \<open>
  Every letter a preview may store has a price, and the one rule of who pays is the price
  table's: the product that matches the draft exists, a pack or a gift letter pays for it exactly when
  that product has no flag of its own, which is when the letter is standard and on one page, and a gift
  send is always among them.
\<close>

theorem stored_letter_has_price:
  assumes "storedPages pages renderer gift = Inr n" and "storedMailService service gift = Inr travels"
    and "d_mail_type d = Mt_letter" and "d_pages d = n" and "d_mail_service d = travels"
  shows "\<exists>pr. jitProductMatching (draftMailOption d) = Some pr \<and> jp_mailType pr = Mt_letter \<and>
    (isPackPayable (draftMailOption d) \<longleftrightarrow> jp_enabledBy pr = None) \<and>
    (isPackPayable (draftMailOption d) \<longleftrightarrow> n = 1 \<and> travels = ''standard'') \<and>
    (gift \<longrightarrow> isPackPayable (draftMailOption d)) \<and>
    (n = 1 \<and> travels = ''standard'' \<longrightarrow> jp_expectedAmountCents pr = 499)"
proof -
  from assms(1) have n: "n \<in> {1, 2, 3}" "gift \<Longrightarrow> n = 1"
    by (auto simp: storedPages_def MAX_LETTER_PAGES_def Let_def split: if_splits option.splits)
  from assms(2) have t: "travels \<in> {''standard'', ''certified'', ''certified_return_receipt''}" "gift \<Longrightarrow> travels = ''standard''"
    by (auto simp: storedMailService_def MAIL_SERVICES_def Let_def split: if_splits option.splits)
  have o: "draftMailOption d = letter_of (if n = 1 then None else Some n) (if travels = ''standard'' then None else Some travels)"
    using n(1) t(1) assms(3-5) by (auto simp: draftMailOption_def letter_of_def mailServiceOf_def or_null_str_def)
  have "\<exists>flag cents. priced (draftMailOption d) = Some (Mt_letter, flag, cents) \<and>
      (flag = None \<longleftrightarrow> n = 1 \<and> travels = ''standard'') \<and> (flag = None \<longrightarrow> cents = 499)"
    using n(1) t(1) letter_prices unfolding o by auto
  then obtain flag cents where f: "priced (draftMailOption d) = Some (Mt_letter, flag, cents)"
    "flag = None \<longleftrightarrow> n = 1 \<and> travels = ''standard''" "flag = None \<longrightarrow> cents = 499" by blast
  from f(1) obtain pr where "jitProductMatching (draftMailOption d) = Some pr" "jp_mailType pr = Mt_letter"
    "jp_enabledBy pr = flag" "jp_expectedAmountCents pr = cents" by (auto simp: priced_def)
  with f(2,3) pack_payable_product [of "draftMailOption d"] n(2) t(2) show ?thesis by simp
qed

text \<open>
  C40: the person sends what they saw. The version shown of one draft is accepted for another exactly
  when the two print the same and travel alike, all their columns an edit can change agreeing and their
  pictures having the same digests. The digest is a hex text, and keeps these two drafts' texts apart if they differ.
\<close>

theorem version_accepts_what_was_shown:
  assumes "take 16 (sha256 (version_text sha256 d)) \<noteq> []"
    and "js_trim (take 16 (sha256 (version_text sha256 d))) = take 16 (sha256 (version_text sha256 d))"
    and "take 16 (sha256 (version_text sha256 d)) = take 16 (sha256 (version_text sha256 e)) \<Longrightarrow>
      version_text sha256 d = version_text sha256 e"
  shows "contentVersionMatches sha256 (Some (contentVersionOf sha256 d)) e =
    (if prints_alike sha256 d e then V_matches else V_differs)"
proof -
  have "contentVersionOf sha256 d = contentVersionOf sha256 e \<longleftrightarrow> prints_alike sha256 d e"
    using assms(3) version_text_iff [of sha256 d e] by (auto simp: contentVersionOf_def)
  moreover have "or_null_str (Some (js_trim (contentVersionOf sha256 d))) = Some (contentVersionOf sha256 d)"
    using assms(1,2) by (simp add: contentVersionOf_def or_null_str_def)
  ultimately show ?thesis by (auto simp: contentVersionMatches_def)
qed

section \<open>A concrete send\<close>

text \<open>
  The account of demo_funded holds eight credits, three of them ending at 50. A letter of four
  credits, to arrive on 20 July 2026 and mailed on the 9th, is sent at time 2 of the database with the
  server's clock on 2 July, and cancelled at time 40.
\<close>

definition open_env :: environment where
  "open_env = [''LETTER_IRL_BETA_GATE_ENABLED'' \<mapsto> ''false'']"

definition sending :: send_world where
  "sending = \<lparr> sw_env = open_env, sw_zone = eastern, sw_now = 2, sw_js = july, sw_letter_id = ''letter-1'',
     sw_job_id = ''job-1'', sw_codes = (\<lambda>_. []), sw_to_iso = (\<lambda>_. []), sw_sha256 = (\<lambda>x. ''0''),
     sw_md5 = (\<lambda>x. x), sw_unicode = (\<lambda>x. x), sw_layout = (\<lambda>_. None) \<rparr>"

definition written :: draft where
  "written = \<lparr> d_id = ''draft-1'', d_user = ''u'', d_mail_type = Mt_letter, d_sender = [], d_recipient = [],
     d_body_text = ''Dear Ann'', d_sign_off = None, d_required_credits = 4, d_preview_html = None,
     d_layout_type = None, d_header_image_data = None, d_header_image_url = None, d_inline_image_data = None,
     d_inline_image_url = None, d_front_image_data = None, d_front_image_url = None, d_postcard_size = None,
     d_postcard_front = None, d_stationery = None, d_signature_image = None, d_renderer_version = None,
     d_pages = 1, d_mail_service = ''standard'', d_arrive_by = Some ''2026-07-20'', d_mail_on = Some ''2026-07-09'',
     d_is_gift_send = False, d_status = D_pending, d_expires_at = july + 1, d_consumed_at = None,
     d_consumed_letter_id = None, d_redacted_at = None, d_updated_at = 0 \<rparr>"

definition asked :: send_params where
  "asked = \<lparr> sp_draft = ''draft-1'', sp_user = ''u'', sp_mailType = Mt_letter, sp_funding = Prepaid_balance None,
     sp_allowDuplicate = False, sp_contentVersion = None \<rparr>"

text \<open>Another letter of the account went out earlier that day.\<close>

definition earlier_letter :: letter where
  "earlier_letter = held_letter\<lparr>lt_id := ''letter-0'', lt_status := L_sent, lt_created_at := 1\<rparr>"

definition desk_ready :: db where "desk_ready = demo_funded\<lparr>drafts := [written], letters := [earlier_letter]\<rparr>"

lemma july_ninth: "dispatchAt eastern ''2026-07-09'' = Inr 1783602000000"
proof -
  have e: "eastern 1783587600000 = - 4 * hour_ms" "eastern 1783602000000 = - 4 * hour_ms" by code_simp+
  have "clock_offset eastern 1783587600000 = Inr (- 4 * hour_ms)"
    using eastern.clock_at(2) [of 20643 5 1783587600000] e(1)
    by (simp add: in_years_def first_day_def last_day_def hour_ms_def day_ms_def)
  moreover have "clock_offset eastern 1783602000000 = Inr (- 4 * hour_ms)"
    using eastern.clock_at(2) [of 20643 9 1783602000000] e(2)
    by (simp add: in_years_def first_day_def last_day_def hour_ms_def day_ms_def)
  ultimately show ?thesis
    by (simp add: dispatchAt_def newYorkTime_def DISPATCH_HOUR_def july_texts dayNumber_real hour_ms_def day_ms_def)
qed

lemma written_parts:
  "new_send_refusal sending asked written desk_ready = None" "payer_refusal sending asked written = None"
  "draftScheduleOf (d_arrive_by written) (d_mail_on written) = Inr (Some (''2026-07-20'', ''2026-07-09''))"
  "heldOn ''2026-07-09'' desk_ready < scheduleDailyCap open_env" "orders desk_ready = []"
  "find_draft ''draft-1'' desk_ready = Some written"
  by code_simp+

lemma settles: "is_ok (send_settle sending asked written (Held_until (''2026-07-20'', ''2026-07-09'')) (Some 1783602000000) desk_ready)"
  by code_simp

lemma sending_step: "createMailOrderFromDraftWithClient sending asked desk_ready =
    send_settle sending asked written (Held_until (''2026-07-20'', ''2026-07-09'')) (Some 1783602000000) desk_ready"
proof -
  have f: "sp_funding asked = Prepaid_balance None" "sp_draft asked = ''draft-1''" "sp_user asked = ''u''" "sp_mailType asked = Mt_letter"
    "d_user written = ''u''" "d_mail_type written = Mt_letter" "d_status written = D_pending"
    "sw_zone sending = eastern" "sw_js sending = july" "sw_env sending = open_env"
    by (simp_all add: asked_def written_def sending_def)
  have "sendSchedule sending written (Prepaid_balance None) ''draft-1'' = Inr (Held_until (''2026-07-20'', ''2026-07-09''))"
    by (simp add: sendSchedule_def written_parts july_earliest f schedule_against_def char_code_def)
  moreover have "release_at sending (Held_until (''2026-07-20'', ''2026-07-09'')) = Inr (Some 1783602000000)"
    by (simp add: july_ninth f)
  moreover have "fullMailDate eastern open_env (''2026-07-20'', ''2026-07-09'') july desk_ready = Inr None"
    using written_parts(4) by (simp add: fullMailDate_def)
  ultimately show ?thesis
    using written_parts
    by (simp add: createMailOrderFromDraftWithClient_def send_new_def f prepaid_refusal_def)
qed

definition desk_sent :: db where
  "desk_sent = committed desk_ready
     (send_settle sending asked written (Held_until (''2026-07-20'', ''2026-07-09'')) (Some 1783602000000) desk_ready)"

definition desk_undone :: db where
  "desk_undone = committed desk_sent (cancelScheduledMailWithClient open_env 40 40 ''letter-1'' ''u'' desk_sent)"

lemma sending_facts:
  "\<not> is_jit (sp_funding asked)" "\<not> sp_allowDuplicate asked" "sp_draft asked = ''draft-1''" "sp_user asked = ''u''"
  "sw_letter_id sending = ''letter-1''" "sw_now sending = 2" "sp_mailType asked = Mt_letter" "sp_funding asked = Prepaid_balance None"
  "d_required_credits written = 4" "d_is_gift_send written = False" "d_mail_type written = Mt_letter"
  by (simp_all add: asked_def sending_def written_def)

lemma desk_facts:
  "jobs desk_ready = []" "drafts desk_ready = [written]"
  "list_all (\<lambda>t. tx_reference_id t \<noteq> Some ''letter-1'') (txns desk_ready)" "below_seq desk_ready"
  "\<not> hasReturnedCreditsForLetter ''letter-1'' ''u'' desk_ready"
  "list_all (\<lambda>e. \<not> (spendable 2 ''u'' e \<and> lot_expired 40 e)) (ledger desk_ready)"
  "is_ok (cancelScheduledMailWithClient open_env 40 40 ''letter-1'' ''u'' desk_sent)"
  by code_simp+

lemma desk_letters: "letters desk_ready = [earlier_letter]" by (simp add: desk_ready_def)

lemma desk_run: obtains r where "createMailOrderFromDraftWithClient sending asked desk_ready = Inr (r, desk_sent)"
    "\<not> sr_alreadyConsumed r" "sr_fundingType r = Fund_prepaid_balance"
proof -
  obtain r where r: "send_settle sending asked written (Held_until (''2026-07-20'', ''2026-07-09''))
      (Some 1783602000000) desk_ready = Inr (r, desk_sent)"
    using settles unfolding desk_sent_def by (rule committed_ok)
  have "(case send_settle sending asked written (Held_until (''2026-07-20'', ''2026-07-09'')) (Some 1783602000000) desk_ready of
      Inl _ \<Rightarrow> False | Inr (x, _) \<Rightarrow> \<not> sr_alreadyConsumed x \<and> sr_fundingType x = Fund_prepaid_balance)" by code_simp
  with r show ?thesis by (intro that [of r]) (simp_all add: sending_step)
qed

lemma desk_books: "ledger_ok desk_ready" "jobs_have_letters desk_ready" "find_draft (sp_draft asked) desk_ready = Some written"
proof -
  show "ledger_ok desk_ready"
    by (rule ledger_ok_cong [OF _ _ _ demo_funded_books(1)]) (simp_all add: desk_ready_def find_user_def)
  show "jobs_have_letters desk_ready" by (simp add: jobs_have_letters_def desk_facts)
  show "find_draft (sp_draft asked) desk_ready = Some written" by (simp add: written_parts sending_facts)
qed

lemma desk_rows: "mail_rows_ok desk_ready"
proof -
  have "letter_row_ok earlier_letter" by code_simp
  moreover have "find_user (lt_user earlier_letter) desk_ready \<noteq> None" "lt_funding_order_id earlier_letter = None" by code_simp+
  ultimately show ?thesis
    by (simp add: mail_rows_ok_def desk_facts desk_letters jobs_have_letters_def map_filter_simps draft_linked_def written_def)
qed

section \<open>Witnesses\<close>

lemma send_settles_one_draft_witness:
  "\<exists>l j. letters desk_sent = [earlier_letter, l] \<and> lt_id l = ''letter-1'' \<and> lt_status l = L_queued \<and> lt_credits_cost l = 4 \<and>
     jobs desk_sent = [j] \<and> job_state j = (J_pending, O_not_dispatched) \<and> map d_status (drafts desk_sent) = [D_consumed]"
proof -
  obtain r where r: "createMailOrderFromDraftWithClient sending asked desk_ready = Inr (r, desk_sent)" "\<not> sr_alreadyConsumed r"
    by (rule desk_run)
  have "d_id written = ''draft-1''" by (simp add: written_def)
  with send_settles_one_draft [OF r desk_books(2)] show ?thesis
    by (auto simp: desk_facts desk_letters desk_books(3) [unfolded sending_facts] sending_facts consume_draft_def)
qed

lemma send_pays_once_witness:
  "getAvailableCredits 2 ''u'' desk_sent = 4 \<and> balance_of ''u'' desk_sent = 4 \<and> length (txns desk_sent) = Suc (length (txns desk_ready))"
proof -
  obtain r where r: "createMailOrderFromDraftWithClient sending asked desk_ready = Inr (r, desk_sent)" "\<not> sr_alreadyConsumed r"
    "sr_fundingType r = Fund_prepaid_balance" by (rule desk_run)
  have "getAvailableCredits 2 ''u'' desk_ready = 8" "balance_of ''u'' desk_ready = 8" by code_simp+
  with send_pays_once [OF r(1,2) desk_books(2,1,3), of "''u''"] r(3) show ?thesis by (auto simp: sending_facts)
qed

lemma sent_again_same_letter_witness:
  "(\<exists>r'. createMailOrderFromDraftWithClient sending asked desk_sent = Inr (r', desk_sent) \<and> sr_alreadyConsumed r' \<and>
     lt_id (sr_letter r') = ''letter-1'') \<and>
   createMailOrderFromDraftWithClient sending (asked\<lparr>sp_funding := Jit_order ''order-9''\<rparr>) desk_sent =
     Inl (draftError ''DRAFT_FUNDING_CONFLICT'' ''Draft draft-1 was already consumed by different funding'')"
proof -
  obtain r where r: "createMailOrderFromDraftWithClient sending asked desk_ready = Inr (r, desk_sent)" "\<not> sr_alreadyConsumed r"
    by (rule desk_run)
  have n: "sw_letter_id sending \<noteq> []" by (simp add: sending_facts)
  note again = sent_again_same_letter [OF r desk_books(2) n]
  have "find_letter ''letter-1'' t = Some l \<Longrightarrow> lt_id l = ''letter-1''" for t l
    unfolding find_letter_def by (rule find_by_key)
  with again [of asked sending] again [of "asked\<lparr>sp_funding := Jit_order ''order-9''\<rparr>" sending]
  show ?thesis by (auto simp: sending_facts)
qed

lemma send_within_limits_witness:
  "mailTodayCount (Some ''u'') True 2 desk_sent \<le> 3 \<and> mailTodayCount None True 2 desk_sent \<le> 25 \<and>
   isBetaAccessAllowed ''u'' open_env"
proof -
  obtain r where r: "createMailOrderFromDraftWithClient sending asked desk_ready = Inr (r, desk_sent)" "\<not> sr_alreadyConsumed r"
    by (rule desk_run)
  have "effectiveDailyLimits open_env 2 [Lk_account_daily_mail, Lk_global_daily_mail] (Some ''u'') desk_ready Lk_account_daily_mail = 3"
    "effectiveDailyLimits open_env 2 [Lk_account_daily_mail, Lk_global_daily_mail] (Some ''u'') desk_ready Lk_global_daily_mail = 25"
    by code_simp+
  moreover have "sw_env sending = open_env" by (simp add: sending_def)
  ultimately show ?thesis
    using send_within_limits [OF r desk_books(2) sending_facts(1) desk_books(3)] by (simp add: sending_facts Let_def)
qed

lemma send_is_no_second_copy_witness:
  "recent_letter 2 ''u'' Mt_letter [] earlier_letter \<and>
   \<not> same_mail (\<lambda>x. x) (comparable_letter (\<lambda>x. x) earlier_letter) (comparable_draft (\<lambda>x. x) written)"
proof -
  obtain r where r: "createMailOrderFromDraftWithClient sending asked desk_ready = Inr (r, desk_sent)" "\<not> sr_alreadyConsumed r"
    by (rule desk_run)
  have n: "sw_letter_id sending \<noteq> []" by (simp add: sending_facts)
  have "recent_letter 2 ''u'' Mt_letter [] earlier_letter" by code_simp
  moreover have "sw_unicode sending = (\<lambda>x. x)" "sw_md5 sending = (\<lambda>x. x)" by (simp_all add: sending_def)
  ultimately show ?thesis
    using send_is_no_second_copy [OF r sending_facts(1,2) n desk_books(3)] by (simp add: desk_letters sending_facts)
qed

lemma send_then_cancel_restores_witness:
  "balance_of ''u'' desk_undone = 8 \<and> getAvailableCredits 40 ''u'' desk_undone = 8"
proof -
  obtain r where r: "createMailOrderFromDraftWithClient sending asked desk_ready = Inr (r, desk_sent)" "\<not> sr_alreadyConsumed r"
    "sr_fundingType r = Fund_prepaid_balance" by (rule desk_run)
  obtain x where x: "cancelScheduledMailWithClient open_env 40 40 ''letter-1'' ''u'' desk_sent = Inr (x, desk_undone)"
    using desk_facts(7) unfolding desk_undone_def by (rule committed_ok)
  have "(case cancelScheduledMailWithClient open_env 40 40 ''letter-1'' ''u'' desk_sent of
      Inr (Cancelled m, _) \<Rightarrow> \<not> cm_alreadyCancelled m | _ \<Rightarrow> False)" by code_simp
  with x obtain m where m: "cancelScheduledMailWithClient open_env 40 40 (sw_letter_id sending) (sp_user asked) desk_sent =
      Inr (Cancelled m, desk_undone)" "\<not> cm_alreadyCancelled m"
    by (cases x) (auto simp: sending_facts)
  have a: "balance_of ''u'' desk_ready = 8" "getAvailableCredits 40 ''u'' desk_sent = 4" by code_simp+
  from send_then_cancel_restores [OF r desk_books(3) m desk_books(2,1) desk_facts(4)] desk_facts(3,5,6) a
  show ?thesis by (simp add: sending_facts)
qed

lemma send_keeps_rows_valid_witness: "mail_rows_ok desk_sent"
proof -
  obtain r where "createMailOrderFromDraftWithClient sending asked desk_ready = Inr (r, desk_sent)" by (rule desk_run)
  from send_keeps_rows_valid [OF this desk_rows] show ?thesis .
qed

lemma stored_letter_has_price_witness:
  "\<exists>pr. jitProductMatching (draftMailOption (written\<lparr>d_pages := 2\<rparr>)) = Some pr \<and> jp_enabledBy pr \<noteq> None"
proof -
  have "storedPages (Some 2) (Some ''pdf-1'') False = Inr 2" "storedMailService None False = Inr ''standard''" by code_simp+
  from stored_letter_has_price [OF this, of "written\<lparr>d_pages := 2\<rparr>"] show ?thesis by (auto simp: written_def)
qed

text \<open>A digest that tells the two drafts apart.\<close>

lemma version_accepts_what_was_shown_witness:
  "contentVersionMatches (\<lambda>t. if t = version_text (\<lambda>x. []) written then ''a'' else ''b'')
     (Some (contentVersionOf (\<lambda>t. if t = version_text (\<lambda>x. []) written then ''a'' else ''b'') written))
     (written\<lparr>d_body_text := ''Dear Bob''\<rparr>) = V_differs"
proof -
  define sha :: "string \<Rightarrow> string" where "sha = (\<lambda>t. if t = version_text (\<lambda>x. []) written then ''a'' else ''b'')"
  let ?e = "written\<lparr>d_body_text := ''Dear Bob''\<rparr>"
  have p: "pictureHash f None = None" for f by (simp add: pictureHash_def or_null_str_def)
  have d: "version_text f written = version_text g written" for f g
    by (simp add: version_text_def version_fields_def written_def p)
  have n: "\<not> prints_alike sha written ?e" by (simp add: prints_alike_def written_def)
  have e: "version_text sha ?e \<noteq> version_text (\<lambda>x. []) written"
  proof
    assume "version_text sha ?e = version_text (\<lambda>x. []) written"
    then have "version_text sha written = version_text sha ?e" using d [of sha "\<lambda>x. []"] by (rule trans [OF _ sym, rotated])
    with n version_text_iff [of sha written ?e] show False by blast
  qed
  have a: "sha (version_text sha written) = ''a''" unfolding sha_def by (rule if_P, rule d)
  have b: "sha (version_text sha ?e) = ''b''" using e unfolding sha_def by (rule if_not_P)
  have t: "js_trim (take 16 ''a'') = take 16 ''a''" "take 16 ''a'' \<noteq> take 16 ''b''" "take 16 ''a'' \<noteq> []" by code_simp+
  have "contentVersionMatches sha (Some (contentVersionOf sha written)) ?e = (if prints_alike sha written ?e then V_matches else V_differs)"
  proof (rule version_accepts_what_was_shown)
    show "take 16 (sha (version_text sha written)) \<noteq> []" unfolding a by (rule t(3))
    show "js_trim (take 16 (sha (version_text sha written))) = take 16 (sha (version_text sha written))" unfolding a by (rule t(1))
    show "version_text sha written = version_text sha ?e"
      if "take 16 (sha (version_text sha written)) = take 16 (sha (version_text sha ?e))"
      using that t(2) unfolding a b by contradiction
  qed
  then show ?thesis unfolding if_not_P [OF n] by (simp only: sha_def)
qed

end
