(* ===== verification/Stationery.thy ===== *)
theory Stationery
  imports Store Calendar
begin

text \<open>
  What a draft stores of a letter's look (src/render/stationery.ts, src/render/postcard.ts,
  src/render/pdf.ts): the themes and designs, how a stored theme or postcard front is read back,
  and the renderer version recorded with it; and how PostgreSQL keeps a JSON value (jsonb: keys
  ordered by length and bytes, the last of equal keys). Drawing is not modelled. \<open>names\<close> is
  \<open>designNameOf\<close>, a normalisation over the Unicode tables, a parameter: only whether a name is
  kept as it is matters here.
\<close>

section \<open>jsonb\<close>

definition key_first :: "string \<Rightarrow> string \<Rightarrow> bool" where
  "key_first a b \<longleftrightarrow> length a < length b \<or> (length a = length b \<and> js_less a b)"

fun put_key :: "string \<Rightarrow> json \<Rightarrow> json_object \<Rightarrow> json_object" where
  "put_key k v [] = [(k, v)]"
| "put_key k v ((k', v') # r) =
     (if k = k' then (k, v) # r else if key_first k k' then (k, v) # (k', v') # r else (k', v') # put_key k v r)"

fun jsonb :: "json \<Rightarrow> json"
  and jsonb_items :: "json list \<Rightarrow> json list"
  and jsonb_fields :: "json_object \<Rightarrow> json_object \<Rightarrow> json_object" where
  "jsonb (JArr vs) = JArr (jsonb_items vs)"
| "jsonb (JObj kvs) = JObj (jsonb_fields kvs [])"
| "jsonb (JStr t) = JStr t"
| "jsonb (JInt n) = JInt n"
| "jsonb (JBool b) = JBool b"
| "jsonb JNull = JNull"
| "jsonb_items [] = []"
| "jsonb_items (v # vs) = jsonb v # jsonb_items vs"
| "jsonb_fields [] acc = acc"
| "jsonb_fields ((k, v) # kvs) acc = jsonb_fields kvs (put_key k (jsonb v) acc)"

lemma map_of_put_key: "map_of (put_key k v kvs) = (map_of kvs)(k \<mapsto> v)"
  by (induction k v kvs rule: put_key.induct) auto

lemma keys_put_key: "fst ` set (put_key k v kvs) = insert k (fst ` set kvs)"
  by (induction k v kvs rule: put_key.induct) auto

lemma map_of_jsonb_fields:
  "distinct (map fst kvs) \<Longrightarrow> map_of (jsonb_fields kvs acc) k =
     (case map_of kvs k of None \<Rightarrow> map_of acc k | Some v \<Rightarrow> Some (jsonb v))"
proof (induction kvs arbitrary: acc)
  case (Cons kv kvs)
  obtain k' v where kv: "kv = (k', v)" by (cases kv)
  have "map_of kvs k' = None" using Cons.prems by (auto simp: kv map_of_eq_None_iff)
  then show ?case using Cons.prems by (simp add: kv Cons.IH map_of_put_key split: option.split)
qed simp

lemma keys_jsonb_fields: "fst ` set (jsonb_fields kvs acc) = fst ` set kvs \<union> fst ` set acc"
proof (induction kvs arbitrary: acc)
  case (Cons kv kvs)
  obtain k' v where kv: "kv = (k', v)" by (cases kv)
  show ?case by (simp add: kv Cons.IH keys_put_key)
qed simp

section \<open>Themes and designs\<close>

definition STATIONERY_THEMES :: "string list" where
  "STATIONERY_THEMES = [''classic'', ''monogram'', ''botanical'', ''celebration'', ''typewriter'', ''handwritten'']"

definition CUSTOM_THEME :: string where "CUSTOM_THEME = ''custom''"

definition STATIONERY_FACES :: "string list" where
  "STATIONERY_FACES = [''serif'', ''typewriter'', ''handwritten'']"

definition STATIONERY_ORNAMENTS :: "string list" where
  "STATIONERY_ORNAMENTS = [''none'', ''monogram'', ''sprig'', ''confetti'']"

definition STATIONERY_TONES :: "string list" where
  "STATIONERY_TONES = [''black'', ''dark'', ''medium'', ''light'']"

definition STATIONERY_SLOT_MAX_LENGTH :: nat where "STATIONERY_SLOT_MAX_LENGTH = 200"

record stationery_design =
  sd_face :: string
  sd_ornament :: string
  sd_ruled :: bool
  sd_tone :: string

record stationery =
  st_theme :: string
  st_design :: "stationery_design option"
  st_name :: "string option"
  st_dateLine :: "string option"
  st_monogram :: "string option"
  st_headline :: "string option"

definition known_design :: "stationery_design \<Rightarrow> bool" where
  "known_design d \<longleftrightarrow> sd_face d \<in> set STATIONERY_FACES \<and> sd_ornament d \<in> set STATIONERY_ORNAMENTS \<and>
     sd_tone d \<in> set STATIONERY_TONES"

definition design_keys :: "string list" where
  "design_keys = [''face'', ''ornament'', ''ruled'', ''tone'']"

text \<open>An array has no \<open>face\<close> of its own, so it is refused as every other value is.\<close>

fun design_choices :: "json option \<Rightarrow> json option \<Rightarrow> json option \<Rightarrow> json option \<Rightarrow> stationery_design option" where
  "design_choices (Some (JStr face)) (Some (JStr ornament)) (Some (JBool ruled)) (Some (JStr tone)) =
     (let d = \<lparr> sd_face = face, sd_ornament = ornament, sd_ruled = ruled, sd_tone = tone \<rparr>
      in if known_design d then Some d else None)"
| "design_choices f r b t = None"

fun designOf :: "json option \<Rightarrow> stationery_design option" where
  "designOf (Some (JObj kvs)) =
     (if list_ex (\<lambda>kv. fst kv \<notin> set design_keys) kvs then None
      else design_choices (map_of kvs ''face'') (map_of kvs ''ornament'') (map_of kvs ''ruled'') (map_of kvs ''tone''))"
| "designOf v = None"

text \<open>A slot: None when it is no text a page could hold, \<open>Some None\<close> when absent.\<close>

fun slot_of :: "json option \<Rightarrow> string option option" where
  "slot_of None = Some None"
| "slot_of (Some JNull) = Some None"
| "slot_of (Some (JStr t)) = (if STATIONERY_SLOT_MAX_LENGTH < length t then None else Some (Some t))"
| "slot_of (Some v) = None"

fun kept_name :: "(string \<Rightarrow> string option) \<Rightarrow> json option \<Rightarrow> string option" where
  "kept_name names (Some (JStr t)) = (if names t = Some t then Some t else None)"
| "kept_name names v = None"

definition bare :: "string \<Rightarrow> stationery_design option \<Rightarrow> string option \<Rightarrow> stationery" where
  "bare theme design nm = \<lparr> st_theme = theme, st_design = design, st_name = nm,
     st_dateLine = None, st_monogram = None, st_headline = None \<rparr>"

definition themed :: "(string \<Rightarrow> string option) \<Rightarrow> json_object \<Rightarrow> stationery option" where
  "themed names kvs = (case map_of kvs ''theme'' of
     Some (JStr theme) \<Rightarrow>
       if theme = CUSTOM_THEME
       then map_option (\<lambda>d. bare CUSTOM_THEME (Some d) (kept_name names (map_of kvs ''name''))) (designOf (map_of kvs ''design''))
       else if theme = ''classic'' \<or> theme \<notin> set STATIONERY_THEMES then None
       else Some (bare theme None None)
   | _ \<Rightarrow> None)"

fun with_slots :: "stationery \<Rightarrow> string option option \<Rightarrow> string option option \<Rightarrow> string option option \<Rightarrow> stationery option" where
  "with_slots st (Some d) (Some m) (Some h) = Some (st\<lparr>st_dateLine := d, st_monogram := m, st_headline := h\<rparr>)"
| "with_slots st d m h = None"

fun stationeryOf :: "(string \<Rightarrow> string option) \<Rightarrow> json \<Rightarrow> stationery option" where
  "stationeryOf names (JObj kvs) = (case themed names kvs of None \<Rightarrow> None
     | Some st \<Rightarrow> with_slots st (slot_of (map_of kvs ''dateLine'')) (slot_of (map_of kvs ''monogram'')) (slot_of (map_of kvs ''headline'')))"
| "stationeryOf names v = None"

text \<open>The value \<open>JSON.stringify\<close> writes: a property that is not set is left out.\<close>

fun json_field :: "string \<Rightarrow> string option \<Rightarrow> json_object" where
  "json_field k None = []"
| "json_field k (Some t) = [(k, JStr t)]"

fun design_json :: "stationery_design option \<Rightarrow> json_object" where
  "design_json None = []"
| "design_json (Some d) = [(''design'', JObj [(''face'', JStr (sd_face d)), (''ornament'', JStr (sd_ornament d)),
     (''ruled'', JBool (sd_ruled d)), (''tone'', JStr (sd_tone d))])]"

definition stationery_fields :: "stationery \<Rightarrow> json_object" where
  "stationery_fields st = (''theme'', JStr (st_theme st)) # design_json (st_design st) @ json_field ''name'' (st_name st) @
     json_field ''dateLine'' (st_dateLine st) @ json_field ''monogram'' (st_monogram st) @ json_field ''headline'' (st_headline st)"

section \<open>The face, rules, headline and initials of a stationery\<close>

definition customDesign :: "stationery \<Rightarrow> error + stationery_design" where
  "customDesign st = (case designOf (map_of (design_json (st_design st)) ''design'') of
     None \<Rightarrow> Inl (Error ''A custom stationery needs a design this build draws.'') | Some d \<Rightarrow> Inr d)"

definition FACE_THEMES :: "string \<rightharpoonup> string" where
  "FACE_THEMES = [''serif'' \<mapsto> ''classic'', ''typewriter'' \<mapsto> ''typewriter'', ''handwritten'' \<mapsto> ''handwritten'']"

definition knownTheme :: "string \<Rightarrow> error + string" where
  "knownTheme theme = (if theme \<in> set STATIONERY_THEMES then Inr theme
     else Inl (Error (''Unknown stationery theme: '' @ take 32 theme)))"

definition faceTheme :: "stationery \<Rightarrow> error + string" where
  "faceTheme st = (if st_theme st = CUSTOM_THEME
     then bindE (customDesign st) (\<lambda>d. Inr (or_str (FACE_THEMES (sd_face d)) []))
     else knownTheme (st_theme st))"

definition isRuled :: "stationery \<Rightarrow> error + bool" where
  "isRuled st = (if st_theme st = CUSTOM_THEME then bindE (customDesign st) (\<lambda>d. Inr (sd_ruled d))
     else Inr (st_theme st = ''handwritten''))"

definition printsHeadline :: "stationery \<Rightarrow> bool" where
  "printsHeadline st \<longleftrightarrow> st_theme st = ''celebration'' \<or> st_theme st = CUSTOM_THEME"

definition printsInitials :: "stationery \<Rightarrow> error + bool" where
  "printsInitials st = (if st_theme st = CUSTOM_THEME
     then bindE (customDesign st) (\<lambda>d. Inr (sd_ornament d = ''monogram'')) else Inr (st_theme st = ''monogram''))"

section \<open>Postcard fronts\<close>

definition POSTCARD_FRONT_TEXT_MAX_LENGTH :: nat where "POSTCARD_FRONT_TEXT_MAX_LENGTH = 120"

datatype postcard_front = Front_border "string option" | Front_greetings string

text \<open>\<open>textOf\<close>: None for a value that is no text a front could hold.\<close>

fun front_text :: "json option \<Rightarrow> string option option" where
  "front_text None = Some None"
| "front_text (Some JNull) = Some None"
| "front_text (Some (JStr t)) = (if length t \<le> POSTCARD_FRONT_TEXT_MAX_LENGTH then Some (Some t) else None)"
| "front_text (Some v) = None"

definition front_of_texts :: "json option \<Rightarrow> string option \<Rightarrow> string option \<Rightarrow> postcard_front option" where
  "front_of_texts layout caption place =
     (if layout = Some (JStr ''border'') then (if place \<noteq> None then None else Some (Front_border caption))
      else if layout = Some (JStr ''greetings'')
      then (case place of None \<Rightarrow> None
            | Some t \<Rightarrow> if caption \<noteq> None \<or> js_trim t = [] then None else Some (Front_greetings t))
      else None)"

fun postcardFrontOf :: "json \<Rightarrow> postcard_front option" where
  "postcardFrontOf (JObj kvs) = (case front_text (map_of kvs ''caption'') of None \<Rightarrow> None | Some caption \<Rightarrow>
     (case front_text (map_of kvs ''place'') of None \<Rightarrow> None | Some place \<Rightarrow>
        front_of_texts (map_of kvs ''layout'') caption place))"
| "postcardFrontOf v = None"

fun front_fields :: "postcard_front \<Rightarrow> json_object" where
  "front_fields (Front_border caption) = (''layout'', JStr ''border'') # json_field ''caption'' caption"
| "front_fields (Front_greetings place) = [(''layout'', JStr ''greetings''), (''place'', JStr place)]"

section \<open>The renderer version recorded with a page\<close>

definition RENDERER_VERSION :: string where "RENDERER_VERSION = ''pdf-1''"
definition STATIONERY_RENDERER_VERSION :: string where "STATIONERY_RENDERER_VERSION = ''pdf-2''"
definition POSTCARD_FRONT_RENDERER_VERSION :: string where "POSTCARD_FRONT_RENDERER_VERSION = ''pdf-3''"
definition SIGNATURE_RENDERER_VERSION :: string where "SIGNATURE_RENDERER_VERSION = ''pdf-4''"

definition rendererVersionFor :: "stationery option \<Rightarrow> bool \<Rightarrow> string" where
  "rendererVersionFor st signed = (if signed then SIGNATURE_RENDERER_VERSION
     else case st of None \<Rightarrow> RENDERER_VERSION
       | Some t \<Rightarrow> if st_theme t \<noteq> ''classic'' then STATIONERY_RENDERER_VERSION else RENDERER_VERSION)"

section \<open>What a draft stores\<close>

text \<open>draftService.ts: a look the print would not read back is refused before anything is written.\<close>

definition storedStationery :: "(string \<Rightarrow> string option) \<Rightarrow> stationery option \<Rightarrow> error + stationery option" where
  "storedStationery names st = (case st of None \<Rightarrow> Inr None
     | Some t \<Rightarrow>
         if st_theme t = ''classic'' then Inr None
         else case stationeryOf names (JObj (stationery_fields t)) of
           None \<Rightarrow> Inl (Coded_error ''STATIONERY_UNREADABLE'' ''The stationery cannot be stored: the print would not read it back.'')
         | Some kept \<Rightarrow> Inr (Some kept))"

definition storedPostcardFront :: "postcard_front option \<Rightarrow> error + postcard_front option" where
  "storedPostcardFront front = (case front of None \<Rightarrow> Inr None
     | Some f \<Rightarrow> (case postcardFrontOf (JObj (front_fields f)) of
         None \<Rightarrow> Inl (Coded_error ''POSTCARD_FRONT_UNREADABLE''
           ([CHR ''T''] @ ''he postcard'' @ [CHR 0x27] @ ''s front cannot be stored: the print would not read it back.''))
       | Some kept \<Rightarrow> Inr (Some kept)))"

text \<open>The columns as PostgreSQL keeps them.\<close>

definition stationery_column :: "stationery option \<Rightarrow> json_object option" where
  "stationery_column st = map_option (\<lambda>t. jsonb_fields (stationery_fields t) []) st"

definition front_column :: "postcard_front option \<Rightarrow> json_object option" where
  "front_column front = map_option (\<lambda>f. jsonb_fields (front_fields f) []) front"

section \<open>Laws\<close>

text \<open>A look as the print reads it: a known theme, a known design exactly under the custom theme, slots of a sensible length.\<close>

definition slot_fits :: "string option \<Rightarrow> bool" where
  "slot_fits t \<longleftrightarrow> (case t of None \<Rightarrow> True | Some x \<Rightarrow> length x \<le> STATIONERY_SLOT_MAX_LENGTH)"

definition readable :: "(string \<Rightarrow> string option) \<Rightarrow> stationery \<Rightarrow> bool" where
  "readable names st \<longleftrightarrow>
     (if st_theme st = CUSTOM_THEME
      then (\<exists>d. st_design st = Some d \<and> known_design d) \<and> (case st_name st of None \<Rightarrow> True | Some n \<Rightarrow> names n = Some n)
      else st_theme st \<in> set STATIONERY_THEMES \<and> st_theme st \<noteq> ''classic'' \<and> st_design st = None \<and> st_name st = None) \<and>
     slot_fits (st_dateLine st) \<and> slot_fits (st_monogram st) \<and> slot_fits (st_headline st)"

lemma distinct_stationery_fields: "distinct (map fst (stationery_fields st))"
  by (cases "st_design st"; cases "st_name st"; cases "st_dateLine st"; cases "st_monogram st"; cases "st_headline st")
    (simp_all add: stationery_fields_def)

lemma map_of_json_field: "map_of (json_field k' v) k = (if k = k' then map_option JStr v else None)"
  by (cases v) simp_all

lemma map_of_stationery_fields:
  "map_of (stationery_fields st) ''theme'' = Some (JStr (st_theme st))"
  "map_of (stationery_fields st) ''name'' = map_option JStr (st_name st)"
  "map_of (stationery_fields st) ''dateLine'' = map_option JStr (st_dateLine st)"
  "map_of (stationery_fields st) ''monogram'' = map_option JStr (st_monogram st)"
  "map_of (stationery_fields st) ''headline'' = map_option JStr (st_headline st)"
  "map_of (stationery_fields st) ''design'' = map_of (design_json (st_design st)) ''design''"
  by (cases "st_design st"; simp add: stationery_fields_def map_of_json_field map_add_def split: option.split)+

lemma map_of_column:
  "map_of (jsonb_fields (stationery_fields st) []) k = map_option jsonb (map_of (stationery_fields st) k)"
  by (subst map_of_jsonb_fields [OF distinct_stationery_fields]) (simp split: option.split)

lemma design_choices_known: "design_choices f r b t = Some d \<Longrightarrow> known_design d"
  by (induction f r b t rule: design_choices.induct) (auto simp: Let_def split: if_splits)

lemma designOf_known: "designOf v = Some d \<Longrightarrow> known_design d"
  by (induction v rule: designOf.induct) (auto split: if_splits dest: design_choices_known)

lemma designOf_json:
  "known_design d \<Longrightarrow> designOf (map_of (design_json (Some d)) ''design'') = Some d"
  "known_design d \<Longrightarrow> designOf (map_option jsonb (map_of (design_json (Some d)) ''design'')) = Some d"
  by (cases d, simp add: design_keys_def Let_def key_first_def char_code_def)+

lemma slot_of_fits: "slot_of v = Some t \<Longrightarrow> slot_fits t"
  by (induction v rule: slot_of.induct) (auto simp: slot_fits_def split: if_splits)

lemma slot_of_text: "slot_fits t \<Longrightarrow> slot_of (map_option JStr t) = Some t"
  by (cases t) (simp_all add: slot_fits_def)

lemma kept_name_kept: "kept_name names v = Some n \<Longrightarrow> names n = Some n"
  by (induction names v rule: kept_name.induct) (auto split: if_splits)

lemma with_slots_iff:
  "with_slots st d m h = Some st' \<longleftrightarrow>
     (\<exists>a b c. d = Some a \<and> m = Some b \<and> h = Some c \<and> st' = st\<lparr>st_dateLine := a, st_monogram := b, st_headline := c\<rparr>)"
  by (induction st d m h rule: with_slots.induct) auto

lemma themed_cases:
  assumes "themed names kvs = Some st"
  obtains (custom) d where "designOf (map_of kvs ''design'') = Some d"
    "st = bare CUSTOM_THEME (Some d) (kept_name names (map_of kvs ''name''))"
  | (theme) theme where "theme \<in> set STATIONERY_THEMES" "theme \<noteq> ''classic''" "theme \<noteq> CUSTOM_THEME" "st = bare theme None None"
  using assms that by (auto simp: themed_def simp del: designOf.simps split: option.splits json.splits if_splits)

lemma themed_readable: assumes "themed names kvs = Some st" shows "readable names st"
  using assms
proof (cases rule: themed_cases)
  case (custom d)
  have "names n = Some n" if "kept_name names (map_of kvs ''name'') = Some n" for n
    using that by (rule kept_name_kept)
  then show ?thesis using designOf_known [OF custom(1)]
    by (simp add: custom(2) readable_def bare_def slot_fits_def split: option.split)
next
  case (theme theme)
  then show ?thesis by (simp add: readable_def bare_def slot_fits_def)
qed

lemma readable_slots:
  "readable names (st\<lparr>st_dateLine := a, st_monogram := b, st_headline := c\<rparr>) \<longleftrightarrow>
     readable names (st\<lparr>st_dateLine := None, st_monogram := None, st_headline := None\<rparr>) \<and> slot_fits a \<and> slot_fits b \<and> slot_fits c"
  by (auto simp: readable_def slot_fits_def)

lemma themed_bare: "themed names kvs = Some st \<Longrightarrow> st\<lparr>st_dateLine := None, st_monogram := None, st_headline := None\<rparr> = st"
  by (erule themed_cases) (simp_all add: bare_def)

lemma stationeryOf_readable: "stationeryOf names v = Some st \<Longrightarrow> readable names st"
  by (induction names v rule: stationeryOf.induct)
    (auto simp: with_slots_iff readable_slots themed_bare dest: themed_readable slot_of_fits split: option.splits)

lemma themed_json:
  assumes "readable names st" and "map_of kvs ''theme'' = Some (JStr (st_theme st))"
    and "kept_name names (map_of kvs ''name'') = st_name st"
    and "\<And>d. st_design st = Some d \<Longrightarrow> known_design d \<Longrightarrow> designOf (map_of kvs ''design'') = Some d"
  shows "themed names kvs = Some (st\<lparr>st_dateLine := None, st_monogram := None, st_headline := None\<rparr>)"
proof (cases "st_theme st = CUSTOM_THEME")
  case True
  then obtain d where d: "st_design st = Some d" "known_design d" using assms(1) by (auto simp: readable_def)
  then show ?thesis using True assms(2,3) assms(4) [OF d] by (cases st) (simp add: themed_def bare_def)
next
  case False
  then have "st_theme st \<in> set STATIONERY_THEMES" "st_theme st \<noteq> ''classic''" "st_design st = None" "st_name st = None"
    using assms(1) by (simp_all add: readable_def)
  then show ?thesis using False assms(2) by (cases st) (simp add: themed_def bare_def)
qed

text \<open>A look as the print reads it comes back whole from the column, and from the value before it is stored.\<close>

lemma kept_name_json: "readable names st \<Longrightarrow> kept_name names (map_option JStr (st_name st)) = st_name st"
  by (cases "st_name st") (auto simp: readable_def split: if_splits)

lemma readable_slot_fits:
  "readable names st \<Longrightarrow> slot_fits (st_dateLine st) \<and> slot_fits (st_monogram st) \<and> slot_fits (st_headline st)"
  by (simp add: readable_def)

lemma option_jsonb_str: "map_option jsonb (map_option JStr t) = map_option JStr t"
  by (cases t) simp_all

lemma readable_reads:
  assumes "readable names st"
  shows "stationeryOf names (JObj (stationery_fields st)) = Some st"
    and "stationeryOf names (JObj (jsonb_fields (stationery_fields st) [])) = Some st"
proof -
  note fits = readable_slot_fits [OF assms]
  have a: "themed names (stationery_fields st) = Some (st\<lparr>st_dateLine := None, st_monogram := None, st_headline := None\<rparr>)"
    by (rule themed_json [OF assms]) (simp_all only: map_of_stationery_fields kept_name_json [OF assms] designOf_json)
  have b: "themed names (jsonb_fields (stationery_fields st) []) = Some (st\<lparr>st_dateLine := None, st_monogram := None, st_headline := None\<rparr>)"
    by (rule themed_json [OF assms])
      (simp_all only: map_of_column map_of_stationery_fields option_jsonb_str kept_name_json [OF assms] designOf_json,
       simp)
  show "stationeryOf names (JObj (stationery_fields st)) = Some st"
    using fits by (simp add: a map_of_stationery_fields slot_of_text)
  show "stationeryOf names (JObj (jsonb_fields (stationery_fields st) [])) = Some st"
    using fits by (simp add: b map_of_column map_of_stationery_fields option_jsonb_str slot_of_text)
qed

lemma stored_stationery_readable:
  "storedStationery names st = Inr (Some kept) \<Longrightarrow> readable names kept \<and> st_theme kept \<noteq> ''classic''"
proof -
  assume "storedStationery names st = Inr (Some kept)"
  then obtain t where "stationeryOf names (JObj (stationery_fields t)) = Some kept"
    by (auto simp: storedStationery_def simp del: stationeryOf.simps split: option.splits if_splits)
  then have "readable names kept" by (rule stationeryOf_readable)
  then show ?thesis by (auto simp: readable_def CUSTOM_THEME_def split: if_splits)
qed

lemma stored_theme_known:
  assumes "readable names st"
  shows "json_text (stationery_column (Some st)) ''theme'' = Some (st_theme st)"
  by (simp add: json_text_def stationery_column_def map_of_column map_of_stationery_fields)

lemma front_of_texts_fields:
  "front_of_texts layout caption place = Some f \<Longrightarrow> front_fields f =
     (case f of Front_border c \<Rightarrow> (''layout'', JStr ''border'') # json_field ''caption'' caption
      | Front_greetings t \<Rightarrow> [(''layout'', JStr ''greetings''), (''place'', JStr t)])"
  by (auto simp: front_of_texts_def split: option.splits if_splits)

lemma front_reads:
  assumes "postcardFrontOf v = Some f"
  shows "postcardFrontOf (JObj (front_fields f)) = Some f"
    and "postcardFrontOf (JObj (jsonb_fields (front_fields f) [])) = Some f"
proof -
  obtain caption place layout where t: "front_of_texts layout caption place = Some f"
    and fits: "\<And>x. caption = Some x \<Longrightarrow> length x \<le> POSTCARD_FRONT_TEXT_MAX_LENGTH"
      "\<And>x. place = Some x \<Longrightarrow> length x \<le> POSTCARD_FRONT_TEXT_MAX_LENGTH"
  proof -
    obtain kvs where kvs: "v = JObj kvs" using assms by (cases v) simp_all
    obtain c p where c: "front_text (map_of kvs ''caption'') = Some c" "front_text (map_of kvs ''place'') = Some p"
      and f: "front_of_texts (map_of kvs ''layout'') c p = Some f"
      using assms by (auto simp: kvs split: option.splits)
    have len: "length x \<le> POSTCARD_FRONT_TEXT_MAX_LENGTH" if "front_text u = Some (Some x)" for u x
      using that by (induction u rule: front_text.induct) (auto split: if_splits)
    show thesis using that [OF f] c len by auto
  qed
  have "postcardFrontOf (JObj (front_fields f)) = Some f \<and> postcardFrontOf (JObj (jsonb_fields (front_fields f) [])) = Some f"
  proof (cases f)
    case (Front_border c)
    then have "caption = c" using t by (auto simp: front_of_texts_def split: if_splits option.splits)
    with fits show ?thesis
      by (cases c) (simp_all add: Front_border front_of_texts_def key_first_def)
  next
    case (Front_greetings p)
    then have "place = Some p" "js_trim p \<noteq> []" using t by (auto simp: front_of_texts_def split: if_splits option.splits)
    with fits show ?thesis by (simp add: Front_greetings front_of_texts_def key_first_def)
  qed
  then show "postcardFrontOf (JObj (front_fields f)) = Some f" "postcardFrontOf (JObj (jsonb_fields (front_fields f) [])) = Some f"
    by blast+
qed

end
