(* ===== verification/Choices.thy ===== *)
theory Choices
  imports Stationery
begin

text \<open>
  What an account keeps for its next letters: the theme or saved design it chose last
  (src/services/stationeryDefaultService.ts, the columns of users of migrations 045 and 054), its
  saved designs (src/services/stationeryDesignService.ts) and its saved signature
  (src/services/signatureService.ts). These tables stand in a record of their own beside the store.
  \<open>low\<close> is PostgreSQL's \<open>lower\<close>, a parameter; a design's timestamps are read as instants, not as
  their ISO text. A transaction takes the account's row first, so it runs alone on the account.
\<close>

section \<open>State\<close>

record account_choice =
  hc_user :: string
  hc_erased_at :: "instant option"
  hc_theme :: "string option"
  hc_design :: "string option"

record design_row =
  ds_id :: string
  ds_user :: string
  ds_name :: string
  ds_face :: string
  ds_ornament :: string
  ds_ruled :: bool
  ds_tone :: string
  ds_created_at :: instant
  ds_updated_at :: instant

record signature_row =
  us_user :: string
  us_png :: string
  us_width :: int
  us_height :: int
  us_use_by_default :: bool
  us_created_at :: instant
  us_updated_at :: instant

record choices =
  accounts :: "account_choice list"
  designs :: "design_row list"
  signatures :: "signature_row list"

definition empty_choices :: choices where
  "empty_choices = \<lparr> accounts = [], designs = [], signatures = [] \<rparr>"

interpretation accounts_tab: db_table accounts accounts_update hc_user
  by unfold_locales simp

interpretation designs_tab: db_table designs designs_update ds_id
  by unfold_locales simp

interpretation signatures_tab: db_table signatures signatures_update us_user
  by unfold_locales simp

text \<open>\<open>lockAccount\<close>: the account's row as locked.\<close>

definition lockAccount :: "string \<Rightarrow> choices \<Rightarrow> account_choice option" where
  "lockAccount uid c = find_by hc_user uid (accounts c)"

definition upd_account :: "string \<Rightarrow> (account_choice \<Rightarrow> account_choice) \<Rightarrow> choices \<Rightarrow> choices" where
  "upd_account uid f = accounts_update (upd_where (\<lambda>a. hc_user a = uid) f)"

definition open_account :: "string \<Rightarrow> choices \<Rightarrow> bool" where
  "open_account uid c \<longleftrightarrow> (case lockAccount uid c of None \<Rightarrow> False | Some a \<Rightarrow> hc_erased_at a = None)"

section \<open>Saved designs\<close>

definition MAX_STATIONERY_DESIGNS :: nat where "MAX_STATIONERY_DESIGNS = 10"

definition STATIONERY_DESIGN_NAME_MAX_LENGTH :: nat where "STATIONERY_DESIGN_NAME_MAX_LENGTH = 40"

record saved_design =
  sv_designId :: string
  sv_name :: string
  sv_design :: stationery_design
  sv_createdAt :: instant
  sv_updatedAt :: instant

definition row_choices :: "design_row \<Rightarrow> stationery_design option" where
  "row_choices r = designOf (Some (JObj [(''face'', JStr (ds_face r)), (''ornament'', JStr (ds_ornament r)),
     (''ruled'', JBool (ds_ruled r)), (''tone'', JStr (ds_tone r))]))"

definition savedOf :: "design_row \<Rightarrow> saved_design option" where
  "savedOf r = (case row_choices r of None \<Rightarrow> None
     | Some d \<Rightarrow> Some \<lparr> sv_designId = ds_id r, sv_name = ds_name r, sv_design = d,
         sv_createdAt = ds_created_at r, sv_updatedAt = ds_updated_at r \<rparr>)"

definition hex_digit :: "char \<Rightarrow> bool" where
  "hex_digit ch \<longleftrightarrow> ch \<in> set ''0123456789abcdefABCDEF''"

text \<open>The pattern of a UUID: hex digits in groups of 8, 4, 4, 4 and 12, and dashes between.\<close>

definition isDesignId :: "string \<Rightarrow> bool" where
  "isDesignId t \<longleftrightarrow> length t = 36 \<and>
     list_all (\<lambda>(i, ch). if i \<in> {8, 13, 18, 23} then ch = CHR ''-'' else hex_digit ch) (enumerate 0 t)"

text \<open>A uuid column compares the value, not the letters' case.\<close>

definition design_named :: "string \<Rightarrow> string \<Rightarrow> design_row \<Rightarrow> bool" where
  "design_named uid did r \<longleftrightarrow> ds_user r = uid \<and> ds_id r = lower_str did"

definition design_first :: "design_row \<Rightarrow> design_row \<Rightarrow> bool" where
  "design_first a b \<longleftrightarrow> ds_created_at a < ds_created_at b \<or> (ds_created_at a = ds_created_at b \<and> js_less (ds_id a) (ds_id b))"

fun insert_design :: "design_row \<Rightarrow> design_row list \<Rightarrow> design_row list" where
  "insert_design x [] = [x]"
| "insert_design x (y # ys) = (if design_first y x then y # insert_design x ys else x # y # ys)"

definition listDesigns :: "string \<Rightarrow> choices \<Rightarrow> saved_design list" where
  "listDesigns uid c = List.map_filter savedOf (foldr insert_design (filter (\<lambda>r. ds_user r = uid) (designs c)) [])"

definition getDesign :: "string \<Rightarrow> string \<Rightarrow> choices \<Rightarrow> saved_design option" where
  "getDesign uid did c = (if \<not> isDesignId did then None
     else Option.bind (List.find (design_named uid did) (designs c)) savedOf)"

datatype design_refusal = Refuse_account_closed | Refuse_limit | Refuse_exists

datatype save_design_result = Design_saved "saved_design option" bool | Design_refused design_refusal

definition same_name :: "(string \<Rightarrow> string) \<Rightarrow> string \<Rightarrow> string \<Rightarrow> design_row \<Rightarrow> bool" where
  "same_name low uid nm r \<longleftrightarrow> ds_user r = uid \<and> low (ds_name r) = low nm"

text \<open>The row's CHECKs (migration 054), in the order PostgreSQL tries them; \<open>btrim\<close> trims spaces.\<close>

definition design_row_refusal :: "design_row \<Rightarrow> error option" where
  "design_row_refusal r =
     (if ds_face r \<notin> set STATIONERY_FACES then Some (Check_violation ''stationery_designs_face_known'')
      else if ds_name r = [] \<or> STATIONERY_DESIGN_NAME_MAX_LENGTH < length (ds_name r)
      then Some (Check_violation ''stationery_designs_name_length'')
      else if hd (ds_name r) = CHR '' '' \<or> last (ds_name r) = CHR '' ''
      then Some (Check_violation ''stationery_designs_name_trimmed'')
      else if ds_ornament r \<notin> set STATIONERY_ORNAMENTS then Some (Check_violation ''stationery_designs_ornament_known'')
      else if ds_updated_at r < ds_created_at r then Some (Check_violation ''stationery_designs_times'')
      else if ds_tone r \<notin> set STATIONERY_TONES then Some (Check_violation ''stationery_designs_tone_known'')
      else None)"

definition redesign :: "instant \<Rightarrow> string \<Rightarrow> stationery_design \<Rightarrow> design_row \<Rightarrow> design_row" where
  "redesign now nm d r = r\<lparr>ds_name := nm, ds_face := sd_face d, ds_ornament := sd_ornament d, ds_ruled := sd_ruled d,
     ds_tone := sd_tone d, ds_updated_at := now\<rparr>"

definition new_design :: "instant \<Rightarrow> string \<Rightarrow> string \<Rightarrow> string \<Rightarrow> stationery_design \<Rightarrow> design_row" where
  "new_design now did uid nm d = \<lparr> ds_id = did, ds_user = uid, ds_name = nm, ds_face = sd_face d,
     ds_ornament = sd_ornament d, ds_ruled = sd_ruled d, ds_tone = sd_tone d, ds_created_at = now, ds_updated_at = now \<rparr>"

definition replace_design ::
  "(string \<Rightarrow> string) \<Rightarrow> instant \<Rightarrow> string \<Rightarrow> string \<Rightarrow> stationery_design \<Rightarrow> design_row \<Rightarrow> choices \<Rightarrow>
     error + save_design_result \<times> choices" where
  "replace_design low now uid nm d r c =
     (case design_row_refusal (redesign now nm d r) of
        Some e \<Rightarrow> Inl e
      | None \<Rightarrow> Inr (Design_saved (savedOf (redesign now nm d r)) True,
          c\<lparr>designs := upd_where (same_name low uid nm) (redesign now nm d) (designs c)\<rparr>))"

definition add_design :: "instant \<Rightarrow> string \<Rightarrow> string \<Rightarrow> string \<Rightarrow> stationery_design \<Rightarrow> choices \<Rightarrow>
     error + save_design_result \<times> choices" where
  "add_design now did uid nm d c =
     (case design_row_refusal (new_design now did uid nm d) of
        Some e \<Rightarrow> Inl e
      | None \<Rightarrow>
          if did \<in> ds_id ` set (designs c) then Inl (Unique_violation ''stationery_designs_pkey'')
          else Inr (Design_saved (savedOf (new_design now did uid nm d)) False,
                 c\<lparr>designs := designs c @ [new_design now did uid nm d]\<rparr>))"

text \<open>\<open>did\<close> is the id the database draws for a new row.\<close>

definition saveDesign ::
  "(string \<Rightarrow> string) \<Rightarrow> instant \<Rightarrow> string \<Rightarrow> string \<Rightarrow> string \<Rightarrow> stationery_design \<Rightarrow> bool \<Rightarrow> choices \<Rightarrow>
     error + save_design_result \<times> choices" where
  "saveDesign low now did uid nm d may_replace c =
     (if \<not> open_account uid c then Inr (Design_refused Refuse_account_closed, c)
      else case List.find (same_name low uid nm) (designs c) of
        Some r \<Rightarrow> if \<not> may_replace then Inr (Design_refused Refuse_exists, c)
                  else replace_design low now uid nm d r c
      | None \<Rightarrow> if MAX_STATIONERY_DESIGNS \<le> length (filter (\<lambda>r. ds_user r = uid) (designs c))
                then Inr (Design_refused Refuse_limit, c)
                else add_design now did uid nm d c)"

text \<open>The composite foreign key of users sets the remembered design back to NULL.\<close>

definition forget_design :: "string \<Rightarrow> string \<Rightarrow> account_choice \<Rightarrow> account_choice" where
  "forget_design uid did a = (if hc_user a = uid \<and> hc_design a = Some did then a\<lparr>hc_design := None\<rparr> else a)"

definition deleteDesign :: "string \<Rightarrow> string \<Rightarrow> choices \<Rightarrow> bool \<times> choices" where
  "deleteDesign uid did c =
     (if \<not> isDesignId did then (False, c)
      else (list_ex (design_named uid did) (designs c),
            c\<lparr>designs := filter (\<lambda>r. \<not> design_named uid did r) (designs c),
              accounts := (if list_ex (design_named uid did) (designs c)
                then map (forget_design uid (lower_str did)) (accounts c) else accounts c)\<rparr>))"

section \<open>The remembered look\<close>

definition rememberedDesign :: "string \<Rightarrow> choices \<Rightarrow> saved_design option" where
  "rememberedDesign uid c = (case Option.bind (lockAccount uid c) hc_design of None \<Rightarrow> None
     | Some did \<Rightarrow> Option.bind (List.find (\<lambda>r. ds_user r = uid \<and> ds_id r = did) (designs c)) savedOf)"

definition rememberDesign :: "string \<Rightarrow> string option \<Rightarrow> choices \<Rightarrow> bool \<times> choices" where
  "rememberDesign uid did c =
     (if (case did of None \<Rightarrow> False | Some t \<Rightarrow> \<not> isDesignId t) then (False, c)
      else if \<not> open_account uid c then (False, c)
      else case did of
        None \<Rightarrow> (True, upd_account uid (\<lambda>a. a\<lparr>hc_design := None\<rparr>) c)
      | Some t \<Rightarrow> if list_ex (design_named uid t) (designs c)
          then (True, upd_account uid (\<lambda>a. a\<lparr>hc_design := Some (lower_str t)\<rparr>) c) else (False, c))"

definition rememberedStationery :: "string \<Rightarrow> choices \<Rightarrow> string option" where
  "rememberedStationery uid c = (case Option.bind (lockAccount uid c) hc_theme of None \<Rightarrow> None
     | Some theme \<Rightarrow> if theme \<in> set STATIONERY_THEMES then Some theme else None)"

definition rememberStationery :: "string \<Rightarrow> string \<Rightarrow> choices \<Rightarrow> choices" where
  "rememberStationery uid theme c =
     accounts_update (upd_where (\<lambda>a. hc_user a = uid \<and> hc_erased_at a = None)
       (\<lambda>a. a\<lparr>hc_theme := Some theme, hc_design := None\<rparr>)) c"

section \<open>The saved signature\<close>

definition getSignature :: "string \<Rightarrow> choices \<Rightarrow> signature_row option" where
  "getSignature uid c = find_by us_user uid (signatures c)"

datatype save_signature_result = Signature_saved signature_row bool | Signature_account_closed

definition png_signature :: string where
  "png_signature = map char_of [0x89, 0x50, 0x4E, 0x47, 0x0D, 0x0A, 0x1A, 0x0A :: nat]"

definition signature_row_refusal :: "signature_row \<Rightarrow> error option" where
  "signature_row_refusal r =
     (if length (us_png r) < 8 \<or> 1048576 < length (us_png r) \<or> take 8 (us_png r) \<noteq> png_signature
      then Some (Check_violation ''valid_user_signature_png'')
      else if us_width r < 1 \<or> 1200 < us_width r \<or> us_height r < 1 \<or> 400 < us_height r
      then Some (Check_violation ''valid_user_signature_size'')
      else if us_updated_at r < us_created_at r then Some (Check_violation ''valid_user_signature_times'')
      else None)"

definition sign_again :: "instant \<Rightarrow> string \<Rightarrow> int \<Rightarrow> int \<Rightarrow> signature_row \<Rightarrow> signature_row" where
  "sign_again now png w h r = r\<lparr>us_png := png, us_width := w, us_height := h, us_use_by_default := True, us_updated_at := now\<rparr>"

definition new_signature :: "instant \<Rightarrow> string \<Rightarrow> string \<Rightarrow> int \<Rightarrow> int \<Rightarrow> signature_row" where
  "new_signature now uid png w h = \<lparr> us_user = uid, us_png = png, us_width = w, us_height = h,
     us_use_by_default = True, us_created_at = now, us_updated_at = now \<rparr>"

definition put_signature :: "signature_row \<Rightarrow> choices \<Rightarrow> choices" where
  "put_signature r c = c\<lparr>signatures := (if us_user r \<in> us_user ` set (signatures c)
     then upd_where (\<lambda>x. us_user x = us_user r) (\<lambda>x. r) (signatures c) else signatures c @ [r])\<rparr>"

definition saveSignature :: "instant \<Rightarrow> string \<Rightarrow> string \<Rightarrow> int \<Rightarrow> int \<Rightarrow> choices \<Rightarrow> error + save_signature_result \<times> choices" where
  "saveSignature now uid png w h c =
     (if \<not> open_account uid c then Inr (Signature_account_closed, c)
      else let r = (case getSignature uid c of None \<Rightarrow> new_signature now uid png w h | Some old \<Rightarrow> sign_again now png w h old)
        in case signature_row_refusal r of
             Some e \<Rightarrow> Inl e
           | None \<Rightarrow> Inr (Signature_saved r (getSignature uid c \<noteq> None), put_signature r c))"

definition rememberSignatureChoice :: "string \<Rightarrow> bool \<Rightarrow> choices \<Rightarrow> choices" where
  "rememberSignatureChoice uid use_it =
     signatures_update (upd_where (\<lambda>r. us_user r = uid) (\<lambda>r. r\<lparr>us_use_by_default := use_it\<rparr>))"

definition clearSignature :: "string \<Rightarrow> choices \<Rightarrow> bool \<times> choices" where
  "clearSignature uid c =
     (list_ex (\<lambda>r. us_user r = uid) (signatures c), c\<lparr>signatures := filter (\<lambda>r. us_user r \<noteq> uid) (signatures c)\<rparr>)"

end
