(* ===== verification/Drafts.thy ===== *)
theory Drafts
  imports MailSend Choices
begin

text \<open>
  The life of a draft before its send (src/services/draftService.ts): creation, the edits made in
  place under the draft's lock, cancelling, expiry and the daily cleanup. An edit runs on the store
  and on the account's choices (Choices), which a restyle and a signature remember.

  \<open>draft_world\<close> holds the database's clock, the server's clock, the new draft's id, the digests
  and \<open>designNameOf\<close>. A draft's pages are whole numbers; a date is its text, already a calendar
  date; the validations and the creation time of a draft are columns nothing here reads.
\<close>

record draft_world =
  dw_now :: instant
  dw_js :: instant
  dw_draft_id :: string
  dw_sha256 :: "string \<Rightarrow> string"
  dw_md5 :: "string \<Rightarrow> string"
  dw_names :: "string \<Rightarrow> string option"

section \<open>The rows of letter_drafts\<close>

definition known_layouts :: "string list" where
  "known_layouts = [''text_only'', ''header_image'', ''inline_image'']"

definition postcard_sizes :: "string list" where "postcard_sizes = [''6x4'', ''6x9'', ''6x11'']"

definition drawn_themes :: "string list" where
  "drawn_themes = [''monogram'', ''botanical'', ''celebration'', ''typewriter'', ''handwritten'', ''custom'']"

definition refuse_row :: "bool \<Rightarrow> string \<Rightarrow> error option" where
  "refuse_row ok check = (if ok then None else Some (Check_violation check))"

text \<open>
  The table's CHECKs (migrations 004, 012, 013, 040, 044, 047, 048, 051, 052 and 054), in the order
  PostgreSQL tries them.
\<close>

definition draft_row_refusal :: "draft \<Rightarrow> error option" where
  "draft_row_refusal d = (let is_letter = (d_mail_type d = Mt_letter) in first_refusal
     [refuse_row (d_layout_type d = None \<or> the (d_layout_type d) \<in> set known_layouts) ''check_letter_layout_type'',
      refuse_row (d_layout_type d \<noteq> Some ''header_image'' \<or> d_header_image_data d \<noteq> None) ''header_layout_requires_image'',
      refuse_row (d_layout_type d \<noteq> Some ''inline_image'' \<or> d_inline_image_data d \<noteq> None) ''inline_layout_requires_image'',
      refuse_row (\<not> (d_header_image_data d \<noteq> None \<and> d_inline_image_data d \<noteq> None)) ''layout_images_mutually_exclusive'',
      refuse_row (d_mail_service d \<in> set MAIL_SERVICES) ''letter_drafts_mail_service_known'',
      refuse_row (d_mail_service d = ''standard'' \<or> (is_letter \<and> \<not> d_is_gift_send d)) ''letter_drafts_mail_service_paid_per_send'',
      refuse_row (1 \<le> d_pages d \<and> d_pages d \<le> 3) ''letter_drafts_pages_known'',
      refuse_row (d_pages d = 1 \<or> (is_letter \<and> d_renderer_version d \<noteq> None \<and> \<not> d_is_gift_send d)) ''letter_drafts_pages_paid_per_send'',
      refuse_row ((d_postcard_front d \<noteq> None) = (d_renderer_version d = Some ''pdf-3'')) ''letter_drafts_postcard_front_drawn_by_pdf_3'',
      refuse_row (d_postcard_front d = None \<or> (\<not> is_letter \<and> or_str (json_text (d_postcard_front d) ''layout'') [] \<in> {''border'', ''greetings''}))
        ''letter_drafts_postcard_front_layout_known'',
      refuse_row (d_renderer_version d = None \<or> the (d_renderer_version d) \<in> {''pdf-1'', ''pdf-2'', ''pdf-3'', ''pdf-4''})
        ''letter_drafts_renderer_version_known'',
      refuse_row (0 < d_required_credits d) ''letter_drafts_required_credits_check'',
      refuse_row (case (d_mail_on d, d_arrive_by d) of (Some m, Some a) \<Rightarrow> \<not> js_less a m | _ \<Rightarrow> True) ''letter_drafts_schedule_order'',
      refuse_row ((d_arrive_by d = None) = (d_mail_on d = None)) ''letter_drafts_schedule_pair'',
      refuse_row ((d_signature_image d \<noteq> None) = (d_renderer_version d = Some ''pdf-4'')) ''letter_drafts_signature_drawn_by_pdf_4'',
      refuse_row (d_signature_image d = None \<or> is_letter) ''letter_drafts_signature_letters_only'',
      refuse_row ((d_stationery d = None \<or> or_str (d_renderer_version d) [] \<in> {''pdf-2'', ''pdf-4''}) \<and>
        (d_renderer_version d = Some ''pdf-2'' \<longrightarrow> d_stationery d \<noteq> None)) ''letter_drafts_stationery_drawn_by_pdf_2'',
      refuse_row (d_stationery d = None \<or> or_str (json_text (d_stationery d) ''theme'') [] \<in> set drawn_themes)
        ''letter_drafts_stationery_theme_known'',
      refuse_row (is_letter \<or> d_front_image_data d \<noteq> None) ''postcard_requires_image'',
      refuse_row (is_letter \<or> d_postcard_size d \<noteq> None) ''postcard_requires_size'',
      refuse_row (d_postcard_size d = None \<or> the (d_postcard_size d) \<in> set postcard_sizes) ''valid_postcard_size''])"

text \<open>An UPDATE of one draft: its row is checked whole, and nothing is written when a CHECK refuses it.\<close>

definition update_draft :: "string \<Rightarrow> (draft \<Rightarrow> draft) \<Rightarrow> db \<Rightarrow> error + db" where
  "update_draft did f s = (case find_draft did s of
     None \<Rightarrow> Inr s
   | Some d \<Rightarrow> (case draft_row_refusal (f d) of Some e \<Rightarrow> Inl e | None \<Rightarrow> Inr (upd_draft did f s)))"

definition insert_draft :: "draft \<Rightarrow> db \<Rightarrow> error + db" where
  "insert_draft d s = (case draft_row_refusal d of
     Some e \<Rightarrow> Inl e
   | None \<Rightarrow>
       if d_id d \<in> d_id ` set (drafts s) then Inl (Unique_violation ''letter_drafts_pkey'')
       else if find_user (d_user d) s = None then Inl (Foreign_key_violation ''letter_drafts_user_id_fkey'')
       else Inr (s\<lparr>drafts := drafts s @ [d]\<rparr>))"

section \<open>Creation\<close>

definition DEFAULT_EXPIRATION_HOURS :: int where "DEFAULT_EXPIRATION_HOURS = 24"

record create_draft_params =
  cd_userId :: string
  cd_sender :: json_object
  cd_recipient :: json_object
  cd_bodyText :: string
  cd_signOff :: string
  cd_requiredCredits :: int
  cd_previewHtml :: "string option"
  cd_expiresInHours :: "int option"
  cd_layoutType :: "string option"
  cd_headerImageData :: "string option"
  cd_headerImageUrl :: "string option"
  cd_inlineImageData :: "string option"
  cd_inlineImageUrl :: "string option"
  cd_isGiftSend :: bool
  cd_rendererVersion :: "string option"
  cd_schedule :: "(string \<times> string) option"
  cd_stationery :: "stationery option"
  cd_pages :: "int option"
  cd_mailService :: "string option"
  cd_signatureImage :: "string option"

record created_draft =
  cr_draftId :: string
  cr_expiresAt :: instant
  cr_contentVersion :: string

definition expiry :: "draft_world \<Rightarrow> int option \<Rightarrow> instant" where
  "expiry w hours = dw_js w + (case hours of None \<Rightarrow> DEFAULT_EXPIRATION_HOURS | Some h \<Rightarrow> h) * 3600000"

definition letter_draft_row :: "draft_world \<Rightarrow> create_draft_params \<Rightarrow> stationery option \<Rightarrow> int \<Rightarrow> string \<Rightarrow> draft" where
  "letter_draft_row w p look pages service =
     \<lparr> d_id = dw_draft_id w, d_user = cd_userId p, d_mail_type = Mt_letter,
       d_sender = jsonb_fields (cd_sender p) [], d_recipient = jsonb_fields (cd_recipient p) [],
       d_body_text = cd_bodyText p, d_sign_off = Some (cd_signOff p), d_required_credits = cd_requiredCredits p,
       d_preview_html = cd_previewHtml p,
       d_layout_type = Some (case cd_layoutType p of None \<Rightarrow> ''text_only'' | Some t \<Rightarrow> t),
       d_header_image_data = cd_headerImageData p, d_header_image_url = cd_headerImageUrl p,
       d_inline_image_data = cd_inlineImageData p, d_inline_image_url = cd_inlineImageUrl p,
       d_front_image_data = None, d_front_image_url = None, d_postcard_size = None, d_postcard_front = None,
       d_stationery = stationery_column look, d_signature_image = cd_signatureImage p,
       d_renderer_version = cd_rendererVersion p, d_pages = pages, d_mail_service = service,
       d_arrive_by = map_option fst (cd_schedule p), d_mail_on = map_option snd (cd_schedule p),
       d_is_gift_send = cd_isGiftSend p, d_status = D_pending, d_expires_at = expiry w (cd_expiresInHours p),
       d_consumed_at = None, d_consumed_letter_id = None, d_redacted_at = None, d_updated_at = dw_now w \<rparr>"

definition created :: "draft_world \<Rightarrow> draft \<Rightarrow> db \<Rightarrow> error + created_draft \<times> db" where
  "created w d s = (case insert_draft d s of
     Inl e \<Rightarrow> Inl e
   | Inr s' \<Rightarrow> Inr (\<lparr> cr_draftId = d_id d, cr_expiresAt = d_expires_at d,
                      cr_contentVersion = contentVersionOf (dw_sha256 w) d \<rparr>, s'))"

definition createDraft :: "draft_world \<Rightarrow> create_draft_params \<Rightarrow> db \<Rightarrow> error + created_draft \<times> db" where
  "createDraft w p s =
     (case storedStationery (dw_names w) (cd_stationery p) of Inl e \<Rightarrow> Inl e | Inr look \<Rightarrow>
     (case storedPages (cd_pages p) (cd_rendererVersion p) (cd_isGiftSend p) of Inl e \<Rightarrow> Inl e | Inr pages \<Rightarrow>
     (case storedMailService (cd_mailService p) (cd_isGiftSend p) of Inl e \<Rightarrow> Inl e | Inr service \<Rightarrow>
        created w (letter_draft_row w p look pages service) s)))"

record create_postcard_params =
  cp_userId :: string
  cp_sender :: json_object
  cp_recipient :: json_object
  cp_message :: string
  cp_frontImageData :: string
  cp_frontImageUrl :: "string option"
  cp_postcardSize :: "string option"
  cp_requiredCredits :: "int option"
  cp_previewHtml :: "string option"
  cp_expiresInHours :: "int option"
  cp_isGiftSend :: bool
  cp_rendererVersion :: "string option"
  cp_schedule :: "(string \<times> string) option"
  cp_postcardFront :: "postcard_front option"

definition postcard_draft_row :: "draft_world \<Rightarrow> create_postcard_params \<Rightarrow> postcard_front option \<Rightarrow> draft" where
  "postcard_draft_row w p front =
     \<lparr> d_id = dw_draft_id w, d_user = cp_userId p, d_mail_type = Mt_postcard,
       d_sender = jsonb_fields (cp_sender p) [], d_recipient = jsonb_fields (cp_recipient p) [],
       d_body_text = cp_message p, d_sign_off = None,
       d_required_credits = (case cp_requiredCredits p of None \<Rightarrow> 2 | Some n \<Rightarrow> n),
       d_preview_html = cp_previewHtml p, d_layout_type = Some ''text_only'',
       d_header_image_data = None, d_header_image_url = None, d_inline_image_data = None, d_inline_image_url = None,
       d_front_image_data = Some (cp_frontImageData p), d_front_image_url = cp_frontImageUrl p,
       d_postcard_size = Some (case cp_postcardSize p of None \<Rightarrow> ''6x9'' | Some z \<Rightarrow> z),
       d_postcard_front = front_column front, d_stationery = None, d_signature_image = None,
       d_renderer_version = cp_rendererVersion p, d_pages = 1, d_mail_service = ''standard'',
       d_arrive_by = map_option fst (cp_schedule p), d_mail_on = map_option snd (cp_schedule p),
       d_is_gift_send = cp_isGiftSend p, d_status = D_pending, d_expires_at = expiry w (cp_expiresInHours p),
       d_consumed_at = None, d_consumed_letter_id = None, d_redacted_at = None, d_updated_at = dw_now w \<rparr>"

definition createPostcardDraft :: "draft_world \<Rightarrow> create_postcard_params \<Rightarrow> db \<Rightarrow> error + created_draft \<times> db" where
  "createPostcardDraft w p s =
     (case storedPostcardFront (cp_postcardFront p) of Inl e \<Rightarrow> Inl e | Inr front \<Rightarrow>
        created w (postcard_draft_row w p front) s)"

section \<open>Reading, expiring, cancelling\<close>

definition getDraft :: "string \<Rightarrow> db \<Rightarrow> draft option" where
  "getDraft did s = find_draft did s"

definition expire_draft :: "instant \<Rightarrow> draft \<Rightarrow> draft" where
  "expire_draft now d = d\<lparr>d_status := D_expired, d_updated_at := now\<rparr>"

definition lapsed :: "instant \<Rightarrow> draft \<Rightarrow> bool" where
  "lapsed now d \<longleftrightarrow> d_status d = D_pending \<and> d_expires_at d < now"

definition markExpiredDrafts :: "instant \<Rightarrow> db \<Rightarrow> int \<times> db" where
  "markExpiredDrafts now s = (int (length (filter (lapsed now) (drafts s))),
     s\<lparr>drafts := upd_where (lapsed now) (expire_draft now) (drafts s)\<rparr>)"

definition cancellable_draft :: "string \<Rightarrow> string \<Rightarrow> draft \<Rightarrow> bool" where
  "cancellable_draft did uid d \<longleftrightarrow> d_id d = did \<and> d_user d = uid \<and> d_status d = D_pending"

definition cancelDraft :: "instant \<Rightarrow> string \<Rightarrow> string \<Rightarrow> db \<Rightarrow> bool \<times> db" where
  "cancelDraft now did uid s = (list_ex (cancellable_draft did uid) (drafts s),
     s\<lparr>drafts := upd_where (cancellable_draft did uid) (\<lambda>d. d\<lparr>d_status := D_cancelled, d_updated_at := now\<rparr>) (drafts s)\<rparr>)"

definition UNSENT_DRAFT_DAYS_AFTER_EXPIRY :: int where "UNSENT_DRAFT_DAYS_AFTER_EXPIRY = 4"

definition CANCELLED_HELD_DRAFT_DAYS :: int where "CANCELLED_HELD_DRAFT_DAYS = 4"

definition cancelled_held :: "draft \<Rightarrow> letter \<Rightarrow> bool" where
  "cancelled_held d l \<longleftrightarrow> Some (lt_id l) = d_consumed_letter_id d \<and> lt_status l = L_cancelled \<and> lt_mail_on l \<noteq> None"

text \<open>\<open>mail_on >= CURRENT_DATE - n\<close>, the day of the database's clock (the servers run in UTC).\<close>

definition still_waits :: "instant \<Rightarrow> int \<Rightarrow> draft \<Rightarrow> letter \<Rightarrow> bool" where
  "still_waits now days d l \<longleftrightarrow> Some (lt_id l) = d_consumed_letter_id d \<and> lt_status l \<noteq> L_cancelled \<and>
     (case lt_mail_on l of None \<Rightarrow> False | Some m \<Rightarrow> \<not> js_less m (isoDay (now - days * day_ms)))"

text \<open>The time since which a draft is done with, against its cutoff.\<close>

definition past_cutoff :: "instant \<Rightarrow> int \<Rightarrow> db \<Rightarrow> draft \<Rightarrow> bool" where
  "past_cutoff js days s d =
     (if d_status d = D_expired then d_expires_at d < js - UNSENT_DRAFT_DAYS_AFTER_EXPIRY * day_ms
      else case Option.bind (List.find (cancelled_held d) (letters s)) lt_status_updated_at of
        Some t \<Rightarrow> t < js - CANCELLED_HELD_DRAFT_DAYS * day_ms
      | None \<Rightarrow> d_updated_at d < js - days * day_ms)"

definition done_with :: "instant \<Rightarrow> instant \<Rightarrow> int \<Rightarrow> db \<Rightarrow> draft \<Rightarrow> bool" where
  "done_with now js days s d \<longleftrightarrow> d_status d \<noteq> D_pending \<and> past_cutoff js days s d \<and>
     \<not> list_ex (\<lambda>x. o_draft_id x = Some (d_id d)) (orders s) \<and> \<not> list_ex (still_waits now days d) (letters s)"

definition cleanupOldDrafts :: "instant \<Rightarrow> instant \<Rightarrow> int \<Rightarrow> db \<Rightarrow> int \<times> db" where
  "cleanupOldDrafts now js days s = (int (length (filter (done_with now js days s) (drafts s))),
     s\<lparr>drafts := filter (\<lambda>d. \<not> done_with now js days s d) (drafts s)\<rparr>)"

record draft_stats =
  dt_pending :: int
  dt_consumed :: int
  dt_expired :: int
  dt_cancelled :: int
  dt_expiringSoon :: int

definition drafts_in :: "draft_status \<Rightarrow> db \<Rightarrow> int" where
  "drafts_in st s = int (length (filter (\<lambda>d. d_status d = st) (drafts s)))"

definition getDraftStats :: "instant \<Rightarrow> db \<Rightarrow> draft_stats" where
  "getDraftStats now s = \<lparr> dt_pending = drafts_in D_pending s, dt_consumed = drafts_in D_consumed s,
     dt_expired = drafts_in D_expired s, dt_cancelled = drafts_in D_cancelled s,
     dt_expiringSoon = int (length (filter (\<lambda>d. d_status d = D_pending \<and> d_expires_at d < now + 3600000) (drafts s))) \<rparr>"

section \<open>The consume and link of two transactions\<close>

text \<open>Kept by the module beside the send, which does both in one transaction (MailSend).\<close>

record consumed_draft =
  cn_draft :: draft
  cn_alreadyConsumed :: bool
  cn_existingLetterId :: "string option"

definition consume_refusal :: "draft_world \<Rightarrow> string \<Rightarrow> draft \<Rightarrow> error option" where
  "consume_refusal w did d = first_refusal
     [refuse_if (d_status d = D_expired \<or> d_expires_at d < dw_js w) ''DRAFT_EXPIRED'' (''Draft expired: '' @ did),
      refuse_if (d_status d = D_cancelled) ''DRAFT_CANCELLED'' (''Draft was cancelled: '' @ did)]"

definition consumed_now :: "instant \<Rightarrow> draft \<Rightarrow> draft" where
  "consumed_now now d = d\<lparr>d_status := D_consumed, d_consumed_at := Some now, d_updated_at := now\<rparr>"

definition consumeDraft :: "draft_world \<Rightarrow> string \<Rightarrow> string \<Rightarrow> db \<Rightarrow> error + consumed_draft \<times> db" where
  "consumeDraft w did uid s = (case find_draft did s of
     None \<Rightarrow> Inl (draftError ''DRAFT_NOT_FOUND'' (''Draft not found: '' @ did))
   | Some d \<Rightarrow>
       if d_user d \<noteq> uid
       then Inl (draftError ''DRAFT_NOT_OWNED'' (''Draft '' @ did @ '' does not belong to user '' @ uid))
       else if d_status d = D_consumed
       then Inr (\<lparr> cn_draft = d, cn_alreadyConsumed = True, cn_existingLetterId = d_consumed_letter_id d \<rparr>, s)
       else case consume_refusal w did d of
         Some e \<Rightarrow> Inl e
       | None \<Rightarrow> Inr (\<lparr> cn_draft = consumed_now (dw_now w) d, cn_alreadyConsumed = False, cn_existingLetterId = None \<rparr>,
                      upd_draft did (consumed_now (dw_now w)) s))"

definition link_draft :: "instant \<Rightarrow> string \<Rightarrow> draft \<Rightarrow> draft" where
  "link_draft now lid d = (if d_status d = D_consumed then d\<lparr>d_consumed_letter_id := Some lid, d_updated_at := now\<rparr> else d)"

definition linkDraftToLetter :: "instant \<Rightarrow> string \<Rightarrow> string \<Rightarrow> db \<Rightarrow> error + db" where
  "linkDraftToLetter now did lid s =
     (if list_ex (\<lambda>d. d_id d = did \<and> d_status d = D_consumed) (drafts s) \<and> find_letter lid s = None
      then Inl (Foreign_key_violation ''letter_drafts_consumed_letter_id_fkey'')
      else Inr (upd_draft did (link_draft now lid) s))"

section \<open>The lock of an edit\<close>

datatype edit_refusal =
  Rf_not_found | Rf_sent | Rf_expired | Rf_checkout_pending | Rf_changed | Rf_not_a_letter | Rf_gift_send

text \<open>A live Pay & Send order holds its draft; an opened Stripe session holds it until Stripe closes it.\<close>

definition held_by_checkout :: "instant \<Rightarrow> string \<Rightarrow> order \<Rightarrow> bool" where
  "held_by_checkout now did x \<longleftrightarrow> o_draft_id x = Some did \<and> o_type x = Ot_jit_mail \<and> live_jit_status (o_status x) \<and>
     (o_status x \<noteq> Ord_checkout_pending \<or> (case o_checkout_expires_at x of None \<Rightarrow> True | Some t \<Rightarrow> now < t) \<or>
      o_stripe_checkout_session_id x \<noteq> None \<or> o_checkout_url x \<noteq> None)"

definition draft_lock_refusal :: "draft_world \<Rightarrow> draft \<Rightarrow> db \<Rightarrow> edit_refusal option" where
  "draft_lock_refusal w d s =
     (if d_status d = D_consumed then Some Rf_sent
      else if d_status d \<noteq> D_pending \<or> d_redacted_at d \<noteq> None \<or> d_expires_at d \<le> dw_js w then Some Rf_expired
      else if list_ex (held_by_checkout (dw_now w) (d_id d)) (orders s) then Some Rf_checkout_pending else None)"

definition lockChangeableDraft :: "draft_world \<Rightarrow> string \<Rightarrow> string \<Rightarrow> db \<Rightarrow> edit_refusal option" where
  "lockChangeableDraft w did uid s = (case find_draft did s of
     None \<Rightarrow> Some Rf_not_found
   | Some d \<Rightarrow> if d_user d \<noteq> uid then Some Rf_not_found else draft_lock_refusal w d s)"

text \<open>What \<open>onWritten\<close> is told: the content version written, the one before it, and the service of the row.\<close>

record written_version =
  wv_contentVersion :: string
  wv_before :: string
  wv_mailService :: string

type_synonym desk_state = "db \<times> choices"
type_synonym edit_answer = "edit_refusal option \<times> written_version option"

definition written_of :: "draft_world \<Rightarrow> string \<Rightarrow> db \<Rightarrow> db \<Rightarrow> written_version option" where
  "written_of w did s s' = (case (find_draft did s, find_draft did s') of
     (Some before, Some written) \<Rightarrow> Some \<lparr> wv_contentVersion = contentVersionOf (dw_sha256 w) written,
        wv_before = contentVersionOf (dw_sha256 w) before, wv_mailService = d_mail_service written \<rparr>
   | _ \<Rightarrow> None)"

definition withChangeableDraft ::
  "draft_world \<Rightarrow> string \<Rightarrow> string \<Rightarrow> (desk_state \<Rightarrow> error + edit_refusal option \<times> desk_state) \<Rightarrow> desk_state \<Rightarrow>
     error + edit_answer \<times> desk_state" where
  "withChangeableDraft w did uid change sc = (case lockChangeableDraft w did uid (fst sc) of
     Some r \<Rightarrow> Inr ((Some r, None), sc)
   | None \<Rightarrow> (case change sc of
       Inl e \<Rightarrow> Inl e
     | Inr (result, sc') \<Rightarrow>
         Inr ((result, if result = None then written_of w did (fst sc) (fst sc') else None), sc')))"

text \<open>An edit's UPDATE, and what the account remembers with it.\<close>

definition write_draft :: "string \<Rightarrow> (draft \<Rightarrow> draft) \<Rightarrow> (choices \<Rightarrow> choices) \<Rightarrow> desk_state \<Rightarrow>
    error + edit_refusal option \<times> desk_state" where
  "write_draft did f g sc = (case update_draft did f (fst sc) of
     Inl e \<Rightarrow> Inl e | Inr s' \<Rightarrow> Inr (None, s', g (snd sc)))"

section \<open>The edits\<close>

definition put_schedule :: "instant \<Rightarrow> (string \<times> string) option \<Rightarrow> draft \<Rightarrow> draft" where
  "put_schedule now schedule d =
     d\<lparr>d_arrive_by := map_option fst schedule, d_mail_on := map_option snd schedule, d_updated_at := now\<rparr>"

definition setDraftSchedule :: "draft_world \<Rightarrow> string \<Rightarrow> string \<Rightarrow> (string \<times> string) option \<Rightarrow> desk_state \<Rightarrow>
    error + edit_answer \<times> desk_state" where
  "setDraftSchedule w did uid schedule =
     withChangeableDraft w did uid (write_draft did (put_schedule (dw_now w) schedule) id)"

definition put_service :: "instant \<Rightarrow> string \<Rightarrow> draft \<Rightarrow> draft" where
  "put_service now service d = d\<lparr>d_mail_service := service, d_updated_at := now\<rparr>"

definition change_service :: "draft_world \<Rightarrow> string \<Rightarrow> string \<Rightarrow> desk_state \<Rightarrow> error + edit_refusal option \<times> desk_state" where
  "change_service w did service sc = (case find_draft did (fst sc) of
     None \<Rightarrow> Inr (Some Rf_not_found, sc)
   | Some d \<Rightarrow>
       if service \<noteq> ''standard'' \<and> d_mail_type d \<noteq> Mt_letter then Inr (Some Rf_not_a_letter, sc)
       else if service \<noteq> ''standard'' \<and> d_is_gift_send d then Inr (Some Rf_gift_send, sc)
       else write_draft did (put_service (dw_now w) service) id sc)"

definition setDraftMailService :: "draft_world \<Rightarrow> string \<Rightarrow> string \<Rightarrow> string \<Rightarrow> desk_state \<Rightarrow>
    error + edit_answer \<times> desk_state" where
  "setDraftMailService w did uid mailService sc = (case storedMailService (Some mailService) False of
     Inl e \<Rightarrow> Inl e | Inr service \<Rightarrow> withChangeableDraft w did uid (change_service w did service) sc)"

text \<open>What a page was drawn from, as read before the lock; a part left out was not drawn from.\<close>

record drawn_from =
  df_words :: "(string \<times> string option) option"
  df_stationery :: "json_object option option"
  df_signature :: "string option option"

definition row_changed :: "drawn_from \<Rightarrow> draft \<Rightarrow> bool" where
  "row_changed df d \<longleftrightarrow>
     (case df_words df of None \<Rightarrow> False | Some (body, sign_off) \<Rightarrow> d_body_text d \<noteq> body \<or> d_sign_off d \<noteq> sign_off) \<or>
     (case df_stationery df of None \<Rightarrow> False
      | Some look \<Rightarrow> stringify (json_obj_opt (d_stationery d)) \<noteq> stringify (json_obj_opt look)) \<or>
     (case df_signature df of None \<Rightarrow> False | Some sig \<Rightarrow> d_signature_image d \<noteq> sig)"

definition drawnFromChanged :: "string \<Rightarrow> drawn_from \<Rightarrow> db \<Rightarrow> bool" where
  "drawnFromChanged did df s = (case find_draft did s of None \<Rightarrow> True | Some d \<Rightarrow> row_changed df d)"

definition unless_changed :: "string \<Rightarrow> drawn_from \<Rightarrow> (desk_state \<Rightarrow> error + edit_refusal option \<times> desk_state) \<Rightarrow>
    desk_state \<Rightarrow> error + edit_refusal option \<times> desk_state" where
  "unless_changed did df change sc = (if drawnFromChanged did df (fst sc) then Inr (Some Rf_changed, sc) else change sc)"

record stationery_change =
  sc_stationery :: stationery
  sc_designId :: "string option"
  sc_previewHtml :: string
  sc_pages :: "int option"
  sc_words :: "string \<times> string option"
  sc_signature :: "string option option"

definition restyle :: "instant \<Rightarrow> stationery option \<Rightarrow> string \<Rightarrow> stationery_change \<Rightarrow> draft \<Rightarrow> draft" where
  "restyle now look version ch d = d\<lparr>d_stationery := stationery_column look,
     d_renderer_version := Some (if d_signature_image d \<noteq> None then ''pdf-4'' else version),
     d_preview_html := Some (sc_previewHtml ch),
     d_pages := (case sc_pages ch of None \<Rightarrow> d_pages d | Some n \<Rightarrow> n), d_updated_at := now\<rparr>"

text \<open>The account's choice for its next preview: a theme, or a saved design of its own.\<close>

definition remember_look :: "string \<Rightarrow> stationery_change \<Rightarrow> choices \<Rightarrow> choices" where
  "remember_look uid ch c =
     (if st_theme (sc_stationery ch) \<noteq> CUSTOM_THEME then rememberStationery uid (st_theme (sc_stationery ch)) c
      else case or_null_str (sc_designId ch) of
        None \<Rightarrow> c
      | Some did \<Rightarrow>
          if list_ex (design_named uid did) (designs c)
          then accounts_update (upd_where (\<lambda>a. hc_user a = uid \<and> hc_erased_at a = None)
                 (\<lambda>a. a\<lparr>hc_design := Some (lower_str did)\<rparr>)) c
          else c)"

definition setDraftStationery :: "draft_world \<Rightarrow> string \<Rightarrow> string \<Rightarrow> stationery_change \<Rightarrow> desk_state \<Rightarrow>
    error + edit_answer \<times> desk_state" where
  "setDraftStationery w did uid ch sc = (case storedStationery (dw_names w) (Some (sc_stationery ch)) of
     Inl e \<Rightarrow> Inl e
   | Inr look \<Rightarrow> withChangeableDraft w did uid
       (unless_changed did \<lparr> df_words = Some (sc_words ch), df_stationery = None, df_signature = sc_signature ch \<rparr>
         (write_draft did (restyle (dw_now w) look (rendererVersionFor look False) ch) (remember_look uid ch))) sc)"

record words_change =
  wc_bodyText :: string
  wc_signOff :: string
  wc_previewHtml :: string
  wc_pages :: int
  wc_drawnIn :: "json_object option"
  wc_replacing :: "string \<times> string option"
  wc_drawnWith :: "string option option"

definition rewrite :: "instant \<Rightarrow> words_change \<Rightarrow> draft \<Rightarrow> draft" where
  "rewrite now ch d = d\<lparr>d_body_text := wc_bodyText ch, d_sign_off := Some (wc_signOff ch),
     d_preview_html := Some (wc_previewHtml ch), d_pages := wc_pages ch, d_updated_at := now\<rparr>"

definition setDraftWords :: "draft_world \<Rightarrow> string \<Rightarrow> string \<Rightarrow> words_change \<Rightarrow> desk_state \<Rightarrow>
    error + edit_answer \<times> desk_state" where
  "setDraftWords w did uid ch = withChangeableDraft w did uid
     (unless_changed did \<lparr> df_words = Some (wc_replacing ch), df_stationery = Some (wc_drawnIn ch), df_signature = wc_drawnWith ch \<rparr>
       (write_draft did (rewrite (dw_now w) ch) id))"

record signature_change =
  sn_signatureImage :: "string option"
  sn_previewHtml :: string
  sn_pages :: int
  sn_words :: "string \<times> string option"
  sn_stationery :: "json_object option"
  sn_signature :: "string option"

definition sign_draft :: "instant \<Rightarrow> signature_change \<Rightarrow> draft \<Rightarrow> draft" where
  "sign_draft now ch d = d\<lparr>d_signature_image := sn_signatureImage ch,
     d_renderer_version := Some (if sn_signatureImage ch \<noteq> None then ''pdf-4''
       else if d_stationery d \<noteq> None then ''pdf-2'' else ''pdf-1''),
     d_preview_html := Some (sn_previewHtml ch), d_pages := sn_pages ch, d_updated_at := now\<rparr>"

definition setDraftSignature :: "draft_world \<Rightarrow> string \<Rightarrow> string \<Rightarrow> signature_change \<Rightarrow> desk_state \<Rightarrow>
    error + edit_answer \<times> desk_state" where
  "setDraftSignature w did uid ch = withChangeableDraft w did uid
     (unless_changed did \<lparr> df_words = Some (sn_words ch), df_stationery = Some (sn_stationery ch), df_signature = Some (sn_signature ch) \<rparr>
       (write_draft did (sign_draft (dw_now w) ch) (rememberSignatureChoice uid (sn_signatureImage ch \<noteq> None))))"

record postcard_change =
  pc_size :: string
  pc_front :: "postcard_front option"
  pc_previewHtml :: string
  pc_frontImageData :: "string option"
  pc_drawnFrom :: "string option"

definition restyle_postcard :: "instant \<Rightarrow> postcard_front option \<Rightarrow> postcard_change \<Rightarrow> draft \<Rightarrow> draft" where
  "restyle_postcard now front ch d = d\<lparr>d_postcard_size := Some (pc_size ch), d_postcard_front := front_column front,
     d_renderer_version := Some (if front \<noteq> None then POSTCARD_FRONT_RENDERER_VERSION else RENDERER_VERSION),
     d_preview_html := Some (pc_previewHtml ch),
     d_front_image_data := (case pc_frontImageData ch of None \<Rightarrow> d_front_image_data d | Some t \<Rightarrow> Some t),
     d_updated_at := now\<rparr>"

definition change_postcard :: "draft_world \<Rightarrow> string \<Rightarrow> postcard_front option \<Rightarrow> postcard_change \<Rightarrow> desk_state \<Rightarrow>
    error + edit_refusal option \<times> desk_state" where
  "change_postcard w did front ch sc = (case find_draft did (fst sc) of
     None \<Rightarrow> Inr (Some Rf_changed, sc)
   | Some d \<Rightarrow>
       if map_option (dw_md5 w) (d_preview_html d) \<noteq> map_option (dw_md5 w) (pc_drawnFrom ch) \<or>
          (d_is_gift_send d \<and> pc_size ch \<noteq> ''6x9'')
       then Inr (Some Rf_changed, sc)
       else write_draft did (restyle_postcard (dw_now w) front ch) id sc)"

definition setDraftPostcardStyle :: "draft_world \<Rightarrow> string \<Rightarrow> string \<Rightarrow> postcard_change \<Rightarrow> desk_state \<Rightarrow>
    error + edit_answer \<times> desk_state" where
  "setDraftPostcardStyle w did uid ch sc = (case storedPostcardFront (pc_front ch) of
     Inl e \<Rightarrow> Inl e
   | Inr front \<Rightarrow> withChangeableDraft w did uid (change_postcard w did front ch) sc)"

end
