(* ===== verification/DraftLaws.thy ===== *)
theory DraftLaws
  imports Drafts MailSendLaws
begin

text \<open>
  The laws of drafts: the edits as one family, each of them refused without a trace or written to
  one open draft; what the account's choices keep; the drafts a step leaves.
\<close>

section \<open>The choices of an account\<close>

definition remembers_own :: "choices \<Rightarrow> account_choice \<Rightarrow> bool" where
  "remembers_own c a \<longleftrightarrow> (case hc_design a of None \<Rightarrow> True
     | Some did \<Rightarrow> list_ex (\<lambda>r. ds_user r = hc_user a \<and> ds_id r = did) (designs c))"

definition designs_of :: "string \<Rightarrow> choices \<Rightarrow> nat" where
  "designs_of uid c = length (filter (\<lambda>r. ds_user r = uid) (designs c))"

definition choices_ok :: "(string \<Rightarrow> string) \<Rightarrow> choices \<Rightarrow> bool" where
  "choices_ok low c \<longleftrightarrow> distinct (map hc_user (accounts c)) \<and> distinct (map ds_id (designs c)) \<and>
     distinct (map (\<lambda>r. (ds_user r, low (ds_name r))) (designs c)) \<and>
     (\<forall>uid. designs_of uid c \<le> MAX_STATIONERY_DESIGNS) \<and> list_all (\<lambda>r. design_row_refusal r = None) (designs c) \<and>
     list_all (remembers_own c) (accounts c) \<and> distinct (map us_user (signatures c)) \<and>
     list_all (\<lambda>r. signature_row_refusal r = None) (signatures c)"

lemma choices_okI:
  assumes "choices_ok low c" and "accounts c' = accounts c" and "designs c' = designs c"
    and "distinct (map us_user (signatures c'))" and "list_all (\<lambda>r. signature_row_refusal r = None) (signatures c')"
  shows "choices_ok low c'"
proof -
  have "remembers_own c' = remembers_own c" "\<And>u. designs_of u c' = designs_of u c"
    by (simp_all add: remembers_own_def designs_of_def assms(2,3) fun_eq_iff cong: option.case_cong)
  then show ?thesis using assms by (simp add: choices_ok_def)
qed

lemma remembered_accounts_ok:
  assumes "choices_ok low c" and "designs c' = designs c" and "signatures c' = signatures c"
    and "map hc_user (accounts c') = map hc_user (accounts c)" and "list_all (remembers_own c) (accounts c')"
  shows "choices_ok low c'"
proof -
  have "remembers_own c' = remembers_own c" "\<And>u. designs_of u c' = designs_of u c"
    by (simp_all add: remembers_own_def designs_of_def assms(2) fun_eq_iff cong: option.case_cong)
  then show ?thesis using assms by (simp add: choices_ok_def)
qed

lemma account_update_ok:
  assumes "choices_ok low c" and "\<And>a. P a \<Longrightarrow> hc_user (f a) = hc_user a"
    and "\<And>a. P a \<Longrightarrow> remembers_own c (f a)"
  shows "choices_ok low (accounts_update (upd_where P f) c)"
proof (rule remembered_accounts_ok [OF assms(1)])
  show "map hc_user (accounts (accounts_update (upd_where P f) c)) = map hc_user (accounts c)"
    using accounts_tab.keys_update [of P f c] assms(2) by simp
  show "list_all (remembers_own c) (accounts (accounts_update (upd_where P f) c))"
    using assms(1,3) by (auto simp: choices_ok_def list_all_iff set_upd_where)
qed simp_all

lemma remembers_design:
  "list_ex (design_named (hc_user a) did) (designs c) \<Longrightarrow> remembers_own c (a\<lparr>hc_design := Some (lower_str did)\<rparr>)"
  by (auto simp: remembers_own_def design_named_def list_ex_iff)

lemma remember_look_ok:
  assumes "choices_ok low c" shows "choices_ok low (remember_look uid ch c)"
proof -
  have "choices_ok low (rememberStationery uid t c)" for t
    unfolding rememberStationery_def by (rule account_update_ok [OF assms]) (simp_all add: remembers_own_def)
  moreover have "choices_ok low (accounts_update (upd_where (\<lambda>a. hc_user a = uid \<and> hc_erased_at a = None)
      (\<lambda>a. a\<lparr>hc_design := Some (lower_str did)\<rparr>)) c)" if "list_ex (design_named uid did) (designs c)" for did
    by (rule account_update_ok [OF assms]) (use that remembers_design in auto)
  ultimately show ?thesis using assms by (simp add: remember_look_def split: option.split)
qed

lemma rememberDesign_ok:
  assumes "choices_ok low c" "rememberDesign uid did c = (b, c')" shows "choices_ok low c'"
proof -
  have none: "choices_ok low (upd_account uid (\<lambda>a. a\<lparr>hc_design := None\<rparr>) c)"
    unfolding upd_account_def by (rule account_update_ok [OF assms(1)]) (simp_all add: remembers_own_def)
  have some: "choices_ok low (upd_account uid (\<lambda>a. a\<lparr>hc_design := Some (lower_str t)\<rparr>) c)"
    if "list_ex (design_named uid t) (designs c)" for t
    unfolding upd_account_def by (rule account_update_ok [OF assms(1)]) (use that remembers_design in auto)
  show ?thesis using assms none some by (auto simp: rememberDesign_def split: option.splits if_splits)
qed

lemma rememberStationery_ok: "choices_ok low c \<Longrightarrow> choices_ok low (rememberStationery uid t c)"
  unfolding rememberStationery_def by (rule account_update_ok) (simp_all add: remembers_own_def)

lemma rememberSignatureChoice_ok:
  assumes "choices_ok low c" shows "choices_ok low (rememberSignatureChoice uid b c)"
proof (rule choices_okI [OF assms])
  have refusal: "signature_row_refusal (r\<lparr>us_use_by_default := b\<rparr>) = signature_row_refusal r" for r
    by (simp add: signature_row_refusal_def)
  show "distinct (map us_user (signatures (rememberSignatureChoice uid b c)))"
    using assms by (simp add: choices_ok_def rememberSignatureChoice_def)
  show "list_all (\<lambda>r. signature_row_refusal r = None) (signatures (rememberSignatureChoice uid b c))"
    using assms by (auto simp: choices_ok_def rememberSignatureChoice_def list_all_iff set_upd_where refusal)
qed (simp_all add: rememberSignatureChoice_def)

lemma clearSignature_ok:
  assumes "choices_ok low c" "clearSignature uid c = (b, c')" shows "choices_ok low c'"
proof -
  have c': "c' = c\<lparr>signatures := filter (\<lambda>r. us_user r \<noteq> uid) (signatures c)\<rparr>" using assms(2) by (simp add: clearSignature_def)
  show ?thesis
    by (rule choices_okI [OF assms(1)]) (use assms(1) in \<open>auto simp: c' choices_ok_def list_all_iff distinct_map_filter\<close>)
qed

lemma saveSignature_ok:
  assumes "choices_ok low c" "saveSignature now uid png wd h c = Inr (r, c')" shows "choices_ok low c'"
proof -
  define x where "x = (case getSignature uid c of None \<Rightarrow> new_signature now uid png wd h | Some old \<Rightarrow> sign_again now png wd h old)"
  have "us_user x = uid"
    by (auto simp: x_def new_signature_def sign_again_def getSignature_def dest: find_by_key split: option.split)
  then consider "c' = c" | "signature_row_refusal x = None" "c' = put_signature x c" "us_user x = uid"
    using assms(2) unfolding saveSignature_def Let_def x_def [symmetric]
    by (cases "open_account uid c"; cases "signature_row_refusal x") auto
  then show ?thesis
  proof cases
    case 2
    have d: "distinct (map us_user (signatures c))" "list_all (\<lambda>r. signature_row_refusal r = None) (signatures c)"
      using assms(1) by (simp_all add: choices_ok_def)
    have "map us_user (upd_where (\<lambda>y. us_user y = us_user x) (\<lambda>y. x) (signatures c)) = map us_user (signatures c)"
      by (rule map_upd_where) simp
    with d 2(1) have "distinct (map us_user (signatures c'))" "list_all (\<lambda>r. signature_row_refusal r = None) (signatures c')"
      by (auto simp: 2(2) put_signature_def list_all_iff set_upd_where)
    then show ?thesis by (intro choices_okI [OF assms(1)]) (simp_all add: 2(2) put_signature_def)
  qed (simp add: assms(1))
qed

lemma deleteDesign_ok:
  assumes "choices_ok low c" "deleteDesign uid did c = (b, c')" shows "choices_ok low c'"
proof (cases "isDesignId did \<and> list_ex (design_named uid did) (designs c)")
  case False
  then have "filter (\<lambda>r. \<not> design_named uid did r) (designs c) = designs c \<or> c' = c"
    using assms(2) by (auto simp: deleteDesign_def list_ex_iff)
  then have "c' = c" using False assms(2) by (auto simp: deleteDesign_def split: if_splits)
  then show ?thesis using assms(1) by simp
next
  case True
  let ?keep = "\<lambda>r. \<not> design_named uid did r"
  have c': "designs c' = filter ?keep (designs c)" "accounts c' = map (forget_design uid (lower_str did)) (accounts c)"
    "signatures c' = signatures c"
    using assms(2) True by (auto simp: deleteDesign_def)
  have ok: "distinct (map hc_user (accounts c))" "distinct (map ds_id (designs c))"
    "distinct (map (\<lambda>r. (ds_user r, low (ds_name r))) (designs c))" "\<And>u. designs_of u c \<le> MAX_STATIONERY_DESIGNS"
    "list_all (\<lambda>r. design_row_refusal r = None) (designs c)" "list_all (remembers_own c) (accounts c)"
    "distinct (map us_user (signatures c))" "list_all (\<lambda>r. signature_row_refusal r = None) (signatures c)"
    using assms(1) by (simp_all add: choices_ok_def)
  have users: "map hc_user (accounts c') = map hc_user (accounts c)" by (simp add: c' forget_design_def)
  have count: "designs_of u c' \<le> MAX_STATIONERY_DESIGNS" for u
  proof -
    have "designs_of u c' = length (filter ?keep (filter (\<lambda>r. ds_user r = u) (designs c)))"
      by (simp add: designs_of_def c' conj_commute)
    also have "\<dots> \<le> designs_of u c" unfolding designs_of_def by (rule length_filter_le)
    finally show ?thesis using ok(4) le_trans by blast
  qed
  have own: "remembers_own c' (forget_design uid (lower_str did) a)" if "remembers_own c a" for a
    using that by (auto simp: remembers_own_def forget_design_def c' list_ex_iff design_named_def split: option.splits)
  have "distinct (map hc_user (accounts c'))" using ok(1) users by simp
  moreover have "list_all (remembers_own c') (accounts c')" using ok(6) own by (auto simp: c' list_all_iff)
  moreover have "list_all (\<lambda>r. design_row_refusal r = None) (designs c')" using ok(5) by (auto simp: c' list_all_iff)
  moreover have "distinct (map ds_id (designs c'))" "distinct (map (\<lambda>r. (ds_user r, low (ds_name r))) (designs c'))"
    using ok(2,3) by (simp_all add: c' distinct_map_filter)
  ultimately show ?thesis using ok(7,8) count by (simp add: choices_ok_def c'(3))
qed

lemma find_none: "List.find P xs = None \<longleftrightarrow> (\<forall>x\<in>set xs. \<not> P x)"
  by (auto simp: find_None_iff)

lemma saveDesign_ok:
  assumes "choices_ok low c" "saveDesign low now did uid nm d b c = Inr (r, c')" shows "choices_ok low c'"
proof -
  have ok: "distinct (map hc_user (accounts c))" "distinct (map ds_id (designs c))"
    "distinct (map (\<lambda>r. (ds_user r, low (ds_name r))) (designs c))" "\<And>u. designs_of u c \<le> MAX_STATIONERY_DESIGNS"
    "list_all (\<lambda>r. design_row_refusal r = None) (designs c)" "list_all (remembers_own c) (accounts c)"
    "distinct (map us_user (signatures c))" "list_all (\<lambda>r. signature_row_refusal r = None) (signatures c)"
    using assms(1) by (simp_all add: choices_ok_def)
  from assms(2) consider "c' = c"
    | old where "List.find (same_name low uid nm) (designs c) = Some old" "replace_design low now uid nm d old c = Inr (r, c')"
    | "List.find (same_name low uid nm) (designs c) = None" "designs_of uid c < MAX_STATIONERY_DESIGNS"
      "add_design now did uid nm d c = Inr (r, c')"
    by (auto simp: saveDesign_def designs_of_def split: option.splits if_splits)
  then show ?thesis
  proof cases
    case 2
    then have old: "old \<in> set (designs c)" "same_name low uid nm old" by (auto simp: find_SomeD)
    have r: "design_row_refusal (redesign now nm d old) = None"
      and c': "c' = c\<lparr>designs := upd_where (same_name low uid nm) (redesign now nm d) (designs c)\<rparr>"
      using 2(2) by (auto simp: replace_design_def split: option.splits)
    have one: "x = old" if "x \<in> set (designs c)" "same_name low uid nm x" for x
      using ok(3) old that by (auto simp: same_name_def distinct_map inj_on_def)
    have keys: "map ds_id (designs c') = map ds_id (designs c)" "map ds_user (designs c') = map ds_user (designs c)"
      by (simp_all add: c' redesign_def)
    have "map (\<lambda>r. (ds_user r, low (ds_name r))) (designs c') = map (\<lambda>r. (ds_user r, low (ds_name r))) (designs c)"
      unfolding c' by (simp, rule map_upd_where) (simp add: redesign_def same_name_def)
    moreover have "designs_of u c' = designs_of u c" for u
    proof -
      have "designs_of u x = length (filter (\<lambda>v. v = u) (map ds_user (designs x)))" for x
        by (simp add: designs_of_def filter_map comp_def)
      from this [of c'] this [of c] show ?thesis by (simp only: keys)
    qed
    moreover have "list_all (\<lambda>r. design_row_refusal r = None) (designs c')"
      using ok(5) r one by (auto simp: c' list_all_iff set_upd_where)
    moreover have "remembers_own c' = remembers_own c"
    proof -
      have ex: "list_ex (\<lambda>r. ds_user r = u \<and> ds_id r = i) xs \<longleftrightarrow> (u, i) \<in> set (map (\<lambda>r. (ds_user r, ds_id r)) xs)" for u i xs
        by (auto simp: list_ex_iff)
      have same: "map (\<lambda>r. (ds_user r, ds_id r)) (designs c') = map (\<lambda>r. (ds_user r, ds_id r)) (designs c)"
        unfolding c' by (simp, rule map_upd_where) (simp add: redesign_def)
      have "list_ex (\<lambda>r. ds_user r = u \<and> ds_id r = i) (designs c') = list_ex (\<lambda>r. ds_user r = u \<and> ds_id r = i) (designs c)" for u i
        by (simp only: ex same)
      then show ?thesis by (simp add: remembers_own_def fun_eq_iff cong: option.case_cong)
    qed
    ultimately show ?thesis using ok keys by (simp add: choices_ok_def) (simp add: c')
  next
    case 3
    have new: "design_row_refusal (new_design now did uid nm d) = None" "did \<notin> ds_id ` set (designs c)"
      and c': "c' = c\<lparr>designs := designs c @ [new_design now did uid nm d]\<rparr>"
      using 3(3) by (auto simp: add_design_def split: option.splits if_splits)
    have "(uid, low nm) \<notin> (\<lambda>r. (ds_user r, low (ds_name r))) ` set (designs c)"
      using 3(1) by (fastforce simp: find_none same_name_def)
    then have "distinct (map (\<lambda>r. (ds_user r, low (ds_name r))) (designs c'))"
      using ok(3) by (simp add: c' new_design_def)
    moreover have "distinct (map ds_id (designs c'))" using ok(2) new(2) by (simp add: c' new_design_def)
    moreover have "designs_of u c' \<le> MAX_STATIONERY_DESIGNS" for u
      using ok(4) [of u] 3(2) by (auto simp: designs_of_def c' new_design_def)
    moreover have "list_all (\<lambda>r. design_row_refusal r = None) (designs c')" using ok(5) new(1) by (simp add: c')
    moreover have "remembers_own c' a" if "remembers_own c a" for a
      using that by (auto simp: remembers_own_def c' split: option.splits)
    then have "list_all (remembers_own c') (accounts c')" using ok(6) by (auto simp: c' list_all_iff)
    ultimately show ?thesis using ok(1,7,8) by (simp add: choices_ok_def) (simp add: c')
  qed (simp add: assms(1))
qed

section \<open>The edits\<close>

text \<open>The six edits as one family, and the row each writes.\<close>

datatype draft_edit =
  Ed_schedule "(string \<times> string) option" | Ed_service string | Ed_stationery stationery_change
| Ed_words words_change | Ed_signature signature_change | Ed_postcard postcard_change

fun edit_draft :: "draft_world \<Rightarrow> string \<Rightarrow> string \<Rightarrow> draft_edit \<Rightarrow> desk_state \<Rightarrow> error + edit_answer \<times> desk_state" where
  "edit_draft w did uid (Ed_schedule dates) sc = setDraftSchedule w did uid dates sc"
| "edit_draft w did uid (Ed_service v) sc = setDraftMailService w did uid v sc"
| "edit_draft w did uid (Ed_stationery ch) sc = setDraftStationery w did uid ch sc"
| "edit_draft w did uid (Ed_words ch) sc = setDraftWords w did uid ch sc"
| "edit_draft w did uid (Ed_signature ch) sc = setDraftSignature w did uid ch sc"
| "edit_draft w did uid (Ed_postcard ch) sc = setDraftPostcardStyle w did uid ch sc"

definition stored_look :: "draft_world \<Rightarrow> stationery_change \<Rightarrow> stationery option" where
  "stored_look w ch = (case storedStationery (dw_names w) (Some (sc_stationery ch)) of Inl e \<Rightarrow> None | Inr look \<Rightarrow> look)"

definition stored_front :: "postcard_change \<Rightarrow> postcard_front option" where
  "stored_front ch = (case storedPostcardFront (pc_front ch) of Inl e \<Rightarrow> None | Inr front \<Rightarrow> front)"

fun edit_row :: "draft_world \<Rightarrow> draft_edit \<Rightarrow> draft \<Rightarrow> draft" where
  "edit_row w (Ed_schedule dates) = put_schedule (dw_now w) dates"
| "edit_row w (Ed_service v) = put_service (dw_now w) v"
| "edit_row w (Ed_stationery ch) = restyle (dw_now w) (stored_look w ch) (rendererVersionFor (stored_look w ch) False) ch"
| "edit_row w (Ed_words ch) = rewrite (dw_now w) ch"
| "edit_row w (Ed_signature ch) = sign_draft (dw_now w) ch"
| "edit_row w (Ed_postcard ch) = restyle_postcard (dw_now w) (stored_front ch) ch"

fun edit_choice :: "string \<Rightarrow> draft_edit \<Rightarrow> choices \<Rightarrow> choices" where
  "edit_choice uid (Ed_stationery ch) c = remember_look uid ch c"
| "edit_choice uid (Ed_signature ch) c = rememberSignatureChoice uid (sn_signatureImage ch \<noteq> None) c"
| "edit_choice uid e c = c"

lemmas edit_row_defs = put_schedule_def put_service_def restyle_def rewrite_def sign_draft_def restyle_postcard_def

lemma edit_row_id [simp]: "d_id (edit_row w e d) = d_id d"
  by (cases e) (simp_all add: edit_row_defs)

text \<open>An edit leaves who the draft is for, what it costs and its life as they are.\<close>

lemma edit_row_keeps [simp]:
  "d_user (edit_row w e d) = d_user d" "d_status (edit_row w e d) = d_status d" "d_mail_type (edit_row w e d) = d_mail_type d"
  "d_recipient (edit_row w e d) = d_recipient d" "d_sender (edit_row w e d) = d_sender d"
  "d_required_credits (edit_row w e d) = d_required_credits d" "d_is_gift_send (edit_row w e d) = d_is_gift_send d"
  "d_expires_at (edit_row w e d) = d_expires_at d" "d_consumed_letter_id (edit_row w e d) = d_consumed_letter_id d"
  "d_redacted_at (edit_row w e d) = d_redacted_at d"
  by (cases e; simp add: edit_row_defs)+

text \<open>The two ends of a change: it wrote the row, or refused without a trace.\<close>

definition change_end :: "string \<Rightarrow> (draft \<Rightarrow> draft) \<Rightarrow> (choices \<Rightarrow> choices) \<Rightarrow> desk_state \<Rightarrow> edit_refusal option \<Rightarrow> desk_state \<Rightarrow> bool" where
  "change_end did f g sc r sc' \<longleftrightarrow> (if r = None
     then \<exists>d. find_draft did (fst sc) = Some d \<and> draft_row_refusal (f d) = None \<and> sc' = (upd_draft did f (fst sc), g (snd sc))
     else sc' = sc)"

definition changes_by :: "string \<Rightarrow> (desk_state \<Rightarrow> error + edit_refusal option \<times> desk_state) \<Rightarrow> (draft \<Rightarrow> draft) \<Rightarrow>
    (choices \<Rightarrow> choices) \<Rightarrow> bool" where
  "changes_by did change f g \<longleftrightarrow> (\<forall>sc r sc'. find_draft did (fst sc) \<noteq> None \<longrightarrow> change sc = Inr (r, sc') \<longrightarrow>
     change_end did f g sc r sc')"

lemma change_end_refused [simp]: "change_end did f g sc (Some x) sc' \<longleftrightarrow> sc' = sc"
  by (simp add: change_end_def)

lemma changes_byI:
  assumes "\<And>s c d r sc'. find_draft did s = Some d \<Longrightarrow> change (s, c) = Inr (r, sc') \<Longrightarrow> change_end did f g (s, c) r sc'"
  shows "changes_by did change f g"
  unfolding changes_by_def
proof (intro allI impI)
  fix sc r sc' assume a: "find_draft did (fst sc) \<noteq> None" "change sc = Inr (r, sc')"
  then obtain d where "find_draft did (fst sc) = Some d" by auto
  with a(2) assms [of "fst sc" d "snd sc" r sc'] show "change_end did f g sc r sc'" by simp
qed

lemma changes_byD:
  "changes_by did change f g \<Longrightarrow> find_draft did s = Some d \<Longrightarrow> change (s, c) = Inr (r, sc') \<Longrightarrow> change_end did f g (s, c) r sc'"
  unfolding changes_by_def by (drule spec [of _ "(s, c)"], drule spec [of _ r], drule spec [of _ sc']) simp

lemma write_changes: "changes_by did (write_draft did f g) f g"
  by (rule changes_byI) (auto simp: write_draft_def update_draft_def change_end_def split: sum.splits option.splits)

lemma unless_changes: "changes_by did change f g \<Longrightarrow> changes_by did (unless_changed did df change) f g"
  by (rule changes_byI) (auto simp: unless_changed_def dest: changes_byD split: if_splits)

lemma service_changes: "changes_by did (change_service w did v) (put_service (dw_now w) v) id"
  by (rule changes_byI) (auto simp: change_service_def dest: changes_byD [OF write_changes] split: if_splits)

lemma postcard_changes: "changes_by did (change_postcard w did front ch) (restyle_postcard (dw_now w) front ch) id"
  by (rule changes_byI) (auto simp: change_postcard_def dest: changes_byD [OF write_changes] split: if_splits)

lemma with_changeable_cases:
  assumes "withChangeableDraft w did uid change sc = Inr ((r, v), sc')" and "changes_by did change f g"
    and "\<And>d. d_id (f d) = d_id d"
  obtains (refused) "r \<noteq> None" "v = None" "sc' = sc"
  | (wrote) d where "r = None" "find_draft did (fst sc) = Some d" "d_user d = uid" "draft_lock_refusal w d (fst sc) = None"
      "draft_row_refusal (f d) = None" "sc' = (upd_draft did f (fst sc), g (snd sc))"
      "v = Some \<lparr> wv_contentVersion = contentVersionOf (dw_sha256 w) (f d),
         wv_before = contentVersionOf (dw_sha256 w) d, wv_mailService = d_mail_service (f d) \<rparr>"
proof (cases "lockChangeableDraft w did uid (fst sc)")
  case (Some x)
  with assms(1) have "r = Some x" "v = None" "sc' = sc" by (simp_all add: withChangeableDraft_def)
  then show ?thesis by (intro refused) simp_all
next
  case None
  then obtain d where d: "find_draft did (fst sc) = Some d" "d_user d = uid" "draft_lock_refusal w d (fst sc) = None"
    by (auto simp: lockChangeableDraft_def split: option.splits if_splits)
  from None assms(1) have ch: "change sc = Inr (r, sc')"
    and v: "v = (if r = None then written_of w did (fst sc) (fst sc') else None)"
    by (auto simp: withChangeableDraft_def split: sum.splits prod.splits)
  show ?thesis
  proof (cases r)
    case None
    with ch d(1) assms(2) have r: "draft_row_refusal (f d) = None" "sc' = (upd_draft did f (fst sc), g (snd sc))"
      using changes_byD [of did change f g "fst sc" d "snd sc"] by (auto simp: change_end_def)
    have "find_draft did (fst sc') = Some (f d)" using r(2) d(1) find_draft_upd [of f did did "fst sc"] assms(3) by simp
    then show ?thesis using wrote [OF None d r] v None d(1) by (simp add: written_of_def)
  next
    case (Some x)
    with ch d(1) assms(2) have "sc' = sc" using changes_byD [of did change f g "fst sc" d "snd sc"] by auto
    moreover have "v = None" "r \<noteq> None" using Some v by simp_all
    ultimately show ?thesis by (intro refused)
  qed
qed

text \<open>What an edit that went through did, and one that refused.\<close>

lemma stored_front_eq: "storedPostcardFront (pc_front ch) = Inr front \<Longrightarrow> stored_front ch = front"
  by (simp add: stored_front_def)

lemma stored_look_eq: "storedStationery (dw_names w) (Some (sc_stationery ch)) = Inr look \<Longrightarrow> stored_look w ch = look"
  by (simp add: stored_look_def)

lemma stored_service_eq: "storedMailService (Some v) b = Inr service \<Longrightarrow> service = v \<and> v \<in> set MAIL_SERVICES"
  by (auto simp: storedMailService_def Let_def split: if_splits)

lemma edit_change:
  assumes "edit_draft w did uid e sc = Inr (a, sc')"
  obtains change where "withChangeableDraft w did uid change sc = Inr (a, sc')"
    "changes_by did change (edit_row w e) (edit_choice uid e)"
proof (cases e)
  case (Ed_schedule x)
  have "edit_choice uid e = id" by (simp add: Ed_schedule fun_eq_iff)
  then show ?thesis using assms that write_changes by (simp add: Ed_schedule setDraftSchedule_def)
next
  case (Ed_service v)
  then obtain service where s: "storedMailService (Some v) False = Inr service"
    "withChangeableDraft w did uid (change_service w did service) sc = Inr (a, sc')"
    using assms by (auto simp: setDraftMailService_def split: sum.splits)
  have "edit_choice uid e = id" by (simp add: Ed_service fun_eq_iff)
  then show ?thesis using s stored_service_eq [OF s(1)] that service_changes by (simp add: Ed_service)
next
  case (Ed_stationery ch)
  then obtain look where s: "storedStationery (dw_names w) (Some (sc_stationery ch)) = Inr look"
    "withChangeableDraft w did uid
       (unless_changed did \<lparr> df_words = Some (sc_words ch), df_stationery = None, df_signature = sc_signature ch \<rparr>
         (write_draft did (restyle (dw_now w) look (rendererVersionFor look False) ch) (remember_look uid ch))) sc = Inr (a, sc')"
    using assms by (auto simp: setDraftStationery_def split: sum.splits)
  have "edit_choice uid e = remember_look uid ch" by (simp add: Ed_stationery fun_eq_iff)
  then show ?thesis using s stored_look_eq [OF s(1)] that [OF s(2)] unless_changes [OF write_changes] by (simp add: Ed_stationery)
next
  case (Ed_words ch)
  have "edit_choice uid e = id" by (simp add: Ed_words fun_eq_iff)
  then show ?thesis using assms that unless_changes [OF write_changes] by (simp add: Ed_words setDraftWords_def)
next
  case (Ed_signature ch)
  have "edit_choice uid e = rememberSignatureChoice uid (sn_signatureImage ch \<noteq> None)" by (simp add: Ed_signature fun_eq_iff)
  then show ?thesis using assms that unless_changes [OF write_changes] by (simp add: Ed_signature setDraftSignature_def)
next
  case (Ed_postcard ch)
  then obtain front where s: "storedPostcardFront (pc_front ch) = Inr front"
    "withChangeableDraft w did uid (change_postcard w did front ch) sc = Inr (a, sc')"
    using assms by (auto simp: setDraftPostcardStyle_def split: sum.splits)
  have "edit_choice uid e = id" by (simp add: Ed_postcard fun_eq_iff)
  then show ?thesis using s stored_front_eq [OF s(1)] that [OF s(2)] postcard_changes by (simp add: Ed_postcard)
qed

lemma edit_cases:
  assumes "edit_draft w did uid e (s, c) = Inr ((r, v), sc')"
  obtains (refused) "r \<noteq> None" "v = None" "sc' = (s, c)"
  | (wrote) d where "r = None" "find_draft did s = Some d" "d_user d = uid" "draft_lock_refusal w d s = None"
      "draft_row_refusal (edit_row w e d) = None" "sc' = (upd_draft did (edit_row w e) s, edit_choice uid e c)"
      "v = Some \<lparr> wv_contentVersion = contentVersionOf (dw_sha256 w) (edit_row w e d),
         wv_before = contentVersionOf (dw_sha256 w) d, wv_mailService = d_mail_service (edit_row w e d) \<rparr>"
proof -
  obtain change where ch: "withChangeableDraft w did uid change (s, c) = Inr ((r, v), sc')"
    "changes_by did change (edit_row w e) (edit_choice uid e)"
    using assms by (rule edit_change)
  show ?thesis
    using ch by (rule with_changeable_cases) (use refused wrote in simp_all)
qed

lemma edit_choice_ok: "choices_ok low c \<Longrightarrow> choices_ok low (edit_choice uid e c)"
  by (cases e) (simp_all add: remember_look_ok rememberSignatureChoice_ok)

section \<open>The desk as a step relation\<close>

text \<open>The choices made outside a draft.\<close>

inductive choice_step :: "(string \<Rightarrow> string) \<Rightarrow> choices \<Rightarrow> choices \<Rightarrow> bool" for low where
  saves: "saveDesign low now did uid nm d b c = Inr (r, c') \<Longrightarrow> choice_step low c c'"
| deletes: "deleteDesign uid did c = (b, c') \<Longrightarrow> choice_step low c c'"
| remembers: "rememberDesign uid did c = (b, c') \<Longrightarrow> choice_step low c c'"
| themes: "choice_step low c (rememberStationery uid theme c)"
| signs: "saveSignature now uid png wd h c = Inr (r, c') \<Longrightarrow> choice_step low c c'"
| signs_by_default: "choice_step low c (rememberSignatureChoice uid b c)"
| unsigns: "clearSignature uid c = (b, c') \<Longrightarrow> choice_step low c c'"

text \<open>Everything that touches drafts: their creation, edits, cancel, expiry and cleanup, the sends, and the choices.\<close>

inductive desk_step :: "(string \<Rightarrow> string option) \<Rightarrow> (string \<Rightarrow> string) \<Rightarrow> desk_state \<Rightarrow> desk_state \<Rightarrow> bool" for names low where
  creates: "createDraft w p s = Inr (r, s') \<Longrightarrow> dw_names w = names \<Longrightarrow> desk_step names low (s, c) (s', c)"
| creates_postcard: "createPostcardDraft w q s = Inr (r, s') \<Longrightarrow> desk_step names low (s, c) (s', c)"
| edits: "edit_draft w did uid e (s, c) = Inr (a, sc') \<Longrightarrow> dw_names w = names \<Longrightarrow> desk_step names low (s, c) sc'"
| cancels: "cancelDraft now did uid s = (b, s') \<Longrightarrow> desk_step names low (s, c) (s', c)"
| lapses: "markExpiredDrafts now s = (n, s') \<Longrightarrow> desk_step names low (s, c) (s', c)"
| cleans: "cleanupOldDrafts now js days s = (n, s') \<Longrightarrow> desk_step names low (s, c) (s', c)"
| sends: "createMailOrderFromDraftWithClient sw sp s = Inr (sent, s') \<Longrightarrow> desk_step names low (s, c) (s', c)"
| chooses: "choice_step low c c' \<Longrightarrow> desk_step names low (s, c) (s, c')"

lemma choice_step_ok:
  assumes "choice_step low c c'" and "choices_ok low c"
  shows "choices_ok low c'"
  using assms(1)
proof cases
  case saves then show ?thesis by (rule saveDesign_ok [OF assms(2)])
next
  case deletes then show ?thesis by (rule deleteDesign_ok [OF assms(2)])
next
  case remembers then show ?thesis by (rule rememberDesign_ok [OF assms(2)])
next
  case themes then show ?thesis using rememberStationery_ok [OF assms(2)] by simp
next
  case signs then show ?thesis by (rule saveSignature_ok [OF assms(2)])
next
  case signs_by_default then show ?thesis using rememberSignatureChoice_ok [OF assms(2)] by simp
next
  case unsigns then show ?thesis by (rule clearSignature_ok [OF assms(2)])
qed

section \<open>The drafts a step leaves\<close>

text \<open>The looks a draft holds are ones the print reads back as they are.\<close>

definition looks_print :: "(string \<Rightarrow> string option) \<Rightarrow> draft \<Rightarrow> bool" where
  "looks_print names d \<longleftrightarrow>
     (case d_stationery d of None \<Rightarrow> True | Some kvs \<Rightarrow>
        \<exists>st. stationeryOf names (JObj kvs) = Some st \<and> stationery_column (Some st) = Some kvs) \<and>
     (case d_postcard_front d of None \<Rightarrow> True | Some kvs \<Rightarrow>
        \<exists>f. postcardFrontOf (JObj kvs) = Some f \<and> front_column (Some f) = Some kvs)"

text \<open>An order that holds its draft whatever the clock: past its checkout, or with a Stripe session opened.\<close>

definition held_always :: "string \<Rightarrow> order \<Rightarrow> bool" where
  "held_always did x \<longleftrightarrow> o_draft_id x = Some did \<and> o_type x = Ot_jit_mail \<and> live_jit_status (o_status x) \<and>
     (o_status x \<noteq> Ord_checkout_pending \<or> o_stripe_checkout_session_id x \<noteq> None \<or> o_checkout_url x \<noteq> None)"

text \<open>A draft but for its life: what is printed, how it travels and what it costs.\<close>

definition as_written :: "draft \<Rightarrow> draft" where
  "as_written d = d\<lparr>d_status := D_pending, d_consumed_at := None, d_consumed_letter_id := None, d_updated_at := 0\<rparr>"

lemma as_written_reads:
  "draft_row_refusal (as_written d) = draft_row_refusal d" "looks_print names (as_written d) = looks_print names d"
  "draftMailOption (as_written d) = draftMailOption d" "contentVersionOf sha (as_written d) = contentVersionOf sha d"
  "buildLetterContent (as_written d) = buildLetterContent d" "buildPostcardContent (as_written d) = buildPostcardContent d"
  "d_required_credits (as_written d) = d_required_credits d" "d_recipient (as_written d) = d_recipient d"
  by (cases d, simp only: as_written_def draft.select_convs draft.update_convs draft_row_refusal_def looks_print_def
      draftMailOption_def contentVersionOf_def version_text_def version_fields_def buildLetterContent_def buildPostcardContent_def)+

lemma as_written_same:
  assumes "as_written d' = as_written d"
  shows "draft_row_refusal d' = draft_row_refusal d" and "looks_print names d' = looks_print names d"
    and "draftMailOption d' = draftMailOption d" and "contentVersionOf sha d' = contentVersionOf sha d"
    and "buildLetterContent d' = buildLetterContent d" and "buildPostcardContent d' = buildPostcardContent d"
    and "d_required_credits d' = d_required_credits d" and "d_recipient d' = d_recipient d"
  using as_written_reads [where d = d'] as_written_reads [where d = d] by (simp_all only: assms)

lemma held_order_locks:
  "list_ex (held_always did) xs \<Longrightarrow> list_ex (held_by_checkout now did) xs"
  by (auto simp: list_ex_iff held_always_def held_by_checkout_def)

text \<open>A row a step may write: an open draft, kept valid, and kept as written while an order holds it.\<close>

definition row_step :: "(string \<Rightarrow> string option) \<Rightarrow> db \<Rightarrow> draft \<Rightarrow> draft \<Rightarrow> bool" where
  "row_step names s d d' \<longleftrightarrow> d_id d' = d_id d \<and> d_status d = D_pending \<and>
     (draft_row_refusal d = None \<longrightarrow> draft_row_refusal d' = None) \<and> (looks_print names d \<longrightarrow> looks_print names d') \<and>
     (list_ex (held_always (d_id d)) (orders s) \<longrightarrow> as_written d' = as_written d)"

lemma life_row_step:
  assumes "d_status d = D_pending" and "as_written d' = as_written d" and "d_id d' = d_id d"
  shows "row_step names s d d'"
  using assms by (simp add: row_step_def as_written_same [OF assms(2)])

lemma stored_look_prints:
  "(case stationery_column (stored_look w ch) of None \<Rightarrow> True | Some kvs \<Rightarrow>
      \<exists>st. stationeryOf (dw_names w) (JObj kvs) = Some st \<and> stationery_column (Some st) = Some kvs)"
proof (cases "stored_look w ch")
  case (Some kept)
  then have "storedStationery (dw_names w) (Some (sc_stationery ch)) = Inr (Some kept)"
    by (simp add: stored_look_def split: sum.splits)
  then have "readable (dw_names w) kept" using stored_stationery_readable by blast
  from readable_reads(2) [OF this] show ?thesis using Some by (simp add: stationery_column_def del: stationeryOf.simps)
qed (simp add: stationery_column_def)

lemma kept_front_prints:
  assumes "storedPostcardFront v = Inr front"
  shows "case front_column front of None \<Rightarrow> True | Some kvs \<Rightarrow>
      \<exists>f. postcardFrontOf (JObj kvs) = Some f \<and> front_column (Some f) = Some kvs"
proof (cases front)
  case (Some f)
  with assms obtain t where "postcardFrontOf (JObj (front_fields t)) = Some f"
    by (auto simp: storedPostcardFront_def simp del: postcardFrontOf.simps split: option.splits)
  from front_reads(2) [OF this] show ?thesis using Some by (simp add: front_column_def del: postcardFrontOf.simps)
qed (simp add: front_column_def)

lemma edit_row_looks:
  assumes "dw_names w = names" and "looks_print names d"
  shows "looks_print names (edit_row w e d)"
proof (cases e)
  case (Ed_stationery ch)
  then show ?thesis using assms(2) stored_look_prints [of w ch] unfolding assms(1) by (simp add: looks_print_def restyle_def)
next
  case (Ed_postcard ch)
  have "case front_column (stored_front ch) of None \<Rightarrow> True | Some kvs \<Rightarrow>
      \<exists>f. postcardFrontOf (JObj kvs) = Some f \<and> front_column (Some f) = Some kvs"
    using kept_front_prints by (cases "storedPostcardFront (pc_front ch)") (simp_all add: stored_front_def front_column_def)
  with Ed_postcard assms(2) show ?thesis by (simp add: looks_print_def restyle_postcard_def)
qed (use assms(2) in \<open>simp_all add: looks_print_def edit_row_defs\<close>)

lemma sent_drafts:
  assumes "createMailOrderFromDraftWithClient w p s = Inr (r, s')" and "jobs_have_letters s"
  shows "drafts s' = (if sr_alreadyConsumed r then drafts s
    else upd_where (\<lambda>d. d_id d = sp_draft p) (consume_draft (sw_now w) (sw_letter_id w)) (drafts s))"
  using assms(1)
proof (cases rule: send_cases)
  case (sent d sched release pay s2)
  then have "drafts s' = drafts (upd_draft (sp_draft p) (consume_draft (sw_now w) (sw_letter_id w)) s)"
    using sent_mail [OF sent(2) assms(2)] by metis
  then show ?thesis using sent(1) by (simp add: upd_draft_def)
next
  case (replayed d)
  have "drafts (converge_order w f lid s) = drafts s" for f lid by (cases f) simp_all
  then show ?thesis using replayed(1,6) by (auto simp: send_replay_def split: option.splits if_splits)
qed

lemma consumed_as_written: "as_written (consume_draft now lid d) = as_written d"
  by (simp add: as_written_def consume_draft_def)

text \<open>What a step does to the drafts: one added, open rows rewritten, or rows no order names taken out.\<close>

definition drafts_step :: "(string \<Rightarrow> string option) \<Rightarrow> db \<Rightarrow> db \<Rightarrow> bool" where
  "drafts_step names s s' \<longleftrightarrow>
     (\<exists>d. drafts s' = drafts s @ [d] \<and> d_id d \<notin> d_id ` set (drafts s) \<and> draft_row_refusal d = None \<and> looks_print names d) \<or>
     (\<exists>P f. drafts s' = upd_where P f (drafts s) \<and> (\<forall>d\<in>set (drafts s). P d \<longrightarrow> row_step names s d (f d))) \<or>
     (\<exists>P. drafts s' = filter (\<lambda>d. \<not> P d) (drafts s) \<and>
        (\<forall>d. P d \<longrightarrow> d_status d \<noteq> D_pending \<and> \<not> list_ex (\<lambda>x. o_draft_id x = Some (d_id d)) (orders s)))"

lemma drafts_same: "drafts s' = drafts s \<Longrightarrow> drafts_step names s s'"
  unfolding drafts_step_def by (rule disjI2, rule disjI1, rule exI [of _ "\<lambda>d. False"]) (simp add: upd_where_none)

lemma drafts_rewritten:
  "drafts s' = upd_where P f (drafts s) \<Longrightarrow> (\<And>d. d \<in> set (drafts s) \<Longrightarrow> P d \<Longrightarrow> row_step names s d (f d)) \<Longrightarrow>
     drafts_step names s s'"
  unfolding drafts_step_def by blast

lemma found_row:
  assumes "distinct (map d_id (drafts s))" and "x \<in> set (drafts s)" and "d_id x = did" and "find_draft did s = Some d"
  shows "x = d"
  using find_by_distinct [of d_id "drafts s" x] assms by (auto simp: find_draft_def)

lemma inserted_draft:
  assumes "created w d s = Inr (r, s')" and "looks_print names d"
  shows "drafts_step names s s' \<and> orders s' = orders s \<and> letters s' = letters s \<and> jobs s' = jobs s"
  using assms unfolding drafts_step_def by (auto simp: created_def insert_draft_def split: option.splits sum.splits if_splits)

lemma created_letter_looks:
  assumes "storedStationery names v = Inr look"
  shows "looks_print names (letter_draft_row w p look pages service)"
proof (cases look)
  case (Some kept)
  with assms have "storedStationery names (Some (the v)) = Inr (Some kept)" by (cases v) (simp_all add: storedStationery_def)
  then have "readable names kept" using stored_stationery_readable by blast
  from readable_reads(2) [OF this] show ?thesis
    by (simp add: looks_print_def letter_draft_row_def stationery_column_def Some del: stationeryOf.simps)
qed (simp add: looks_print_def letter_draft_row_def stationery_column_def)

lemma created_postcard_looks:
  "storedPostcardFront v = Inr front \<Longrightarrow> looks_print names (postcard_draft_row w p front)"
  using kept_front_prints [of v front] by (simp add: looks_print_def postcard_draft_row_def)

lemma edited_drafts:
  assumes "edit_draft w did uid e (s, c) = Inr ((r, v), sc')" and "distinct (map d_id (drafts s))" and "dw_names w = names"
  shows "drafts_step names s (fst sc') \<and> orders (fst sc') = orders s \<and> letters (fst sc') = letters s \<and> jobs (fst sc') = jobs s"
  using assms(1)
proof (cases rule: edit_cases)
  case (wrote d)
  then have id: "d_id d = did" by (auto simp: find_draft_def dest: find_by_key)
  have "row_step names s x (edit_row w e x)" if x: "x \<in> set (drafts s)" "d_id x = did" for x
  proof -
    have "x = d" by (rule found_row [OF assms(2) x wrote(2)])
    moreover have "d_status d = D_pending" "\<not> list_ex (held_by_checkout (dw_now w) (d_id d)) (orders s)"
      using wrote(4) by (auto simp: draft_lock_refusal_def split: if_splits)
    moreover have "looks_print names d \<Longrightarrow> looks_print names (edit_row w e d)" by (rule edit_row_looks [OF assms(3)])
    ultimately show ?thesis using wrote(5) held_order_locks by (auto simp: row_step_def)
  qed
  then have "drafts_step names s (fst sc')"
    by (intro drafts_rewritten [where P = "\<lambda>x. d_id x = did" and f = "edit_row w e"]) (simp_all add: wrote(6) upd_draft_def)
  then show ?thesis by (simp add: wrote(6))
qed (simp add: drafts_same)

lemma list_ex_upd:
  "list_ex P xs \<Longrightarrow> (\<And>x. Q x \<Longrightarrow> P x \<Longrightarrow> P (f x)) \<Longrightarrow> list_ex P (upd_where Q f xs)"
  by (induction xs) auto

lemma sent_mail_kept:
  assumes "createMailOrderFromDraftWithClient w p s = Inr (r, s')" and "jobs_have_letters s"
  shows "jobs_have_letters s' \<and> (list_ex (held_always did) (orders s) \<longrightarrow> list_ex (held_always did) (orders s'))"
proof -
  have fulfil: "held_always did (start_fulfilment now lid x) = (o_draft_id x = Some did \<and> o_type x = Ot_jit_mail)" for now lid x
    by (simp add: held_always_def start_fulfilment_def live_jit_status_def)
  then have step: "held_always did x \<Longrightarrow> held_always did (start_fulfilment now lid x)" for now lid x
    by (simp add: held_always_def)
  have moves: "list_ex (held_always did) (orders s) \<Longrightarrow> list_ex (held_always did) (orders (move_order w f s))" for f
    by (cases f) (auto simp: upd_order_def intro!: list_ex_upd step)
  have converges: "list_ex (held_always did) (orders s) \<Longrightarrow> list_ex (held_always did) (orders (converge_order w f lid s))" for f lid
    by (cases f) (auto simp: upd_order_def intro!: list_ex_upd step)
  from assms(1) show ?thesis
  proof (cases rule: send_cases)
    case (sent d sched release pay s2)
    obtain l where l: "letters s' = letters s @ [final_letter w release l]" "letters s2 = letters s @ [l]"
      and j: "jobs s' = jobs s @ [new_job (sw_env w) (sw_now w) (sw_job_id w) (sw_to_iso w) (sw_letter_id w) release]"
      and o: "orders s' = orders (move_order w (sp_funding p) s)"
      and id: "l = (case sr_giftCard r of None \<Rightarrow> id | Some c \<Rightarrow> add_gift_card c) (new_letter w p d (held_dates sched))"
      using sent_mail [OF sent(2) assms(2)] by metis
    have "lt_id l = sw_letter_id w" by (simp add: id split: option.split)
    then have "jobs_have_letters s'" using assms(2)
      by (auto simp: jobs_have_letters_def j l find_letter_None new_job_def Let_def)
    then show ?thesis using moves o by simp
  next
    case (replayed d)
    then obtain f lid where "s' = converge_order w f lid s" by (auto simp: send_replay_def split: option.splits if_splits)
    moreover have "jobs (converge_order w f lid s) = jobs s" "letters (converge_order w f lid s) = letters s"
      by (cases f; simp)+
    ultimately show ?thesis using converges assms(2) by (simp add: jobs_have_letters_def find_letter_def)
  qed
qed

text \<open>What the desk keeps: its rows valid, its looks printable, its jobs with letters, and its choices.\<close>

definition desk_ok :: "(string \<Rightarrow> string option) \<Rightarrow> desk_state \<Rightarrow> bool" where
  "desk_ok names sc \<longleftrightarrow> distinct (map d_id (drafts (fst sc))) \<and> jobs_have_letters (fst sc) \<and>
     list_all (\<lambda>d. draft_row_refusal d = None) (drafts (fst sc)) \<and> list_all (looks_print names) (drafts (fst sc))"

lemma desk_step_effect:
  assumes "desk_step names low sc sc'" and "distinct (map d_id (drafts (fst sc)))" and "jobs_have_letters (fst sc)"
  shows "drafts_step names (fst sc) (fst sc') \<and> jobs_have_letters (fst sc') \<and>
    (list_ex (held_always did) (orders (fst sc)) \<longrightarrow> list_ex (held_always did) (orders (fst sc')))"
proof -
  have kept: "jobs_have_letters s'" if "letters s' = letters s" "jobs s' = jobs s" "jobs_have_letters s" for s s'
    using that by (simp add: jobs_have_letters_def find_letter_def)
  from assms(1) show ?thesis
  proof cases
    case (creates w p s r s' c)
    then obtain look pages service where "storedStationery names (cd_stationery p) = Inr look"
      "created w (letter_draft_row w p look pages service) s = Inr (r, s')"
      by (auto simp: createDraft_def split: sum.splits)
    with inserted_draft [OF this(2) created_letter_looks [OF this(1)]] show ?thesis
      using kept [of s' s] assms(3) by (simp add: creates(1,2))
  next
    case (creates_postcard w q s r s' c)
    then obtain front where "storedPostcardFront (cp_postcardFront q) = Inr front"
      "created w (postcard_draft_row w q front) s = Inr (r, s')"
      by (auto simp: createPostcardDraft_def split: sum.splits)
    with inserted_draft [OF this(2) created_postcard_looks [OF this(1)]] show ?thesis
      using kept [of s' s] assms(3) by (simp add: creates_postcard(1,2))
  next
    case (edits w did' uid e s c a)
    obtain r v where a: "a = (r, v)" by (cases a)
    have "distinct (map d_id (drafts s))" using assms(2) by (simp add: edits(1))
    from edited_drafts [OF edits(2) [unfolded a] this edits(3)] show ?thesis
      using kept [of "fst sc'" s] assms(3) by (simp add: edits(1))
  next
    case (cancels now did' uid s b s' c)
    then have "drafts_step names s s'"
      by (intro drafts_rewritten [where P = "cancellable_draft did' uid"])
        (auto simp: cancelDraft_def cancellable_draft_def as_written_def intro!: life_row_step)
    then show ?thesis using cancels kept [of s' s] assms(3) by (auto simp: cancelDraft_def)
  next
    case (lapses now s n s' c)
    then have "drafts_step names s s'"
      by (intro drafts_rewritten [where P = "lapsed now"])
        (auto simp: markExpiredDrafts_def lapsed_def expire_draft_def as_written_def intro!: life_row_step)
    then show ?thesis using lapses kept [of s' s] assms(3) by (auto simp: markExpiredDrafts_def)
  next
    case (cleans now js days s n s' c)
    then have s': "s' = s\<lparr>drafts := filter (\<lambda>d. \<not> done_with now js days s d) (drafts s)\<rparr>"
      by (simp add: cleanupOldDrafts_def)
    then have "drafts_step names s s'"
      unfolding drafts_step_def
      by (intro disjI2 exI [of _ "done_with now js days s"] conjI allI impI) (simp_all add: done_with_def)
    then show ?thesis using cleans s' kept [of s' s] assms(3) by simp
  next
    case (sends sw sp s sent s' c)
    then have wf: "jobs_have_letters s" "distinct (map d_id (drafts s))" using assms(2,3) by simp_all
    have "drafts_step names s s'"
    proof (cases "sr_alreadyConsumed sent")
      case True
      then show ?thesis using sent_drafts [OF sends(3) wf(1)] by (simp add: drafts_same)
    next
      case False
      with sends(3) obtain d sched release pay s2 where run: "sent_run sw sp s d sched release pay s2 sent s'"
        by (cases rule: send_cases) auto
      then have d: "find_draft (sp_draft sp) s = Some d" by (simp add: sent_run_def)
      have "row_step names s x (consume_draft (sw_now sw) (sw_letter_id sw) x)"
        if x: "x \<in> set (drafts s)" "d_id x = sp_draft sp" for x
        using found_row [OF wf(2) x d] sent_checks(1) [OF run]
        by (intro life_row_step) (simp_all add: consumed_as_written, simp add: consume_draft_def)
      then show ?thesis using sent_drafts [OF sends(3) wf(1)] False
        by (intro drafts_rewritten [where P = "\<lambda>d. d_id d = sp_draft sp"]) simp_all
    qed
    then show ?thesis using sent_mail_kept [OF sends(3) wf(1)] by (simp add: sends(1,2))
  next
    case (chooses c c' s)
    then show ?thesis using assms(3) by (simp add: drafts_same)
  qed
qed

lemma drafts_step_ok:
  assumes "drafts_step names s s'" and "desk_ok names (s, c)" and "jobs_have_letters s'"
  shows "desk_ok names (s', c')"
  using assms(1) unfolding drafts_step_def
proof (elim disjE exE conjE)
  fix d assume a: "drafts s' = drafts s @ [d]" "d_id d \<notin> d_id ` set (drafts s)" "draft_row_refusal d = None" "looks_print names d"
  show ?thesis using assms(2,3) a by (simp add: desk_ok_def)
next
  fix P f assume a: "drafts s' = upd_where P f (drafts s)" "\<forall>d\<in>set (drafts s). P d \<longrightarrow> row_step names s d (f d)"
  have row: "d_id (f d) = d_id d \<and> draft_row_refusal (f d) = None \<and> looks_print names (f d)" if "d \<in> set (drafts s)" "P d" for d
    using a(2) that assms(2) by (auto simp: row_step_def desk_ok_def list_all_iff)
  have "map d_id (upd_where P f (drafts s)) = map d_id (drafts s)"
    using row by (simp add: upd_where_def)
  then show ?thesis using assms(2,3) row by (auto simp: desk_ok_def a(1) list_all_iff set_upd_where)
next
  fix P assume a: "drafts s' = filter (\<lambda>d. \<not> P d) (drafts s)"
  show ?thesis using assms(2,3) by (auto simp: desk_ok_def a list_all_iff distinct_map_filter)
qed

lemma desk_step_ok: "desk_step names low sc sc' \<Longrightarrow> desk_ok names sc \<Longrightarrow> desk_ok names sc'"
  using desk_step_effect [of names low sc sc'] drafts_step_ok [of names "fst sc" "fst sc'" "snd sc" "snd sc'"]
  by (simp add: desk_ok_def)

lemma desk_step_choices_ok: "desk_step names low sc sc' \<Longrightarrow> choices_ok low (snd sc) \<Longrightarrow> choices_ok low (snd sc')"
proof (erule desk_step.cases, goal_cases)
  case (3 w did uid e s c a sc'')
  obtain r v where a: "a = (r, v)" by (cases a)
  from 3(4) [unfolded a] show ?thesis by (cases rule: edit_cases) (use 3 in \<open>auto simp: edit_choice_ok\<close>)
qed (auto dest: choice_step_ok)

interpretation desk: kept_by_steps "desk_step names low" "desk_ok names"
  by unfold_locales (rule desk_step_ok)

interpretation choosing: kept_by_steps "desk_step names low" "\<lambda>sc. choices_ok low (snd sc)"
  by unfold_locales (rule desk_step_choices_ok)

text \<open>A draft an order holds stays in the store, as it was written.\<close>

definition fixed_by_order :: "(string \<Rightarrow> string option) \<Rightarrow> string \<Rightarrow> draft \<Rightarrow> desk_state \<Rightarrow> bool" where
  "fixed_by_order names did d sc \<longleftrightarrow> desk_ok names sc \<and> list_ex (held_always did) (orders (fst sc)) \<and>
     (\<exists>e. find_draft did (fst sc) = Some e \<and> as_written e = as_written d)"

lemma find_by_filter: "find_by key k xs = Some x \<Longrightarrow> P x \<Longrightarrow> find_by key k (filter P xs) = Some x"
  by (induction xs) (auto split: if_splits)

lemma fixed_drafts_step:
  assumes "drafts_step names s s'" and "distinct (map d_id (drafts s))" and "list_ex (held_always did) (orders s)"
    and "find_draft did s = Some e"
  shows "\<exists>e'. find_draft did s' = Some e' \<and> as_written e' = as_written e"
  using assms(1) unfolding drafts_step_def
proof (elim disjE exE conjE)
  fix d assume "drafts s' = drafts s @ [d]"
  then show ?thesis using assms(4) by (simp add: find_draft_def find_by_append)
next
  fix P f assume a: "drafts s' = upd_where P f (drafts s)" "\<forall>d\<in>set (drafts s). P d \<longrightarrow> row_step names s d (f d)"
  have e: "e \<in> set (drafts s)" "d_id e = did" using assms(4) by (auto simp: find_draft_def dest: find_by_key find_by_mem)
  have ids: "d_id (if P d then f d else d) = d_id d" if "d \<in> set (drafts s)" for d
    using a(2) that by (simp add: row_step_def)
  have "map d_id (drafts s') = map d_id (drafts s)" using ids by (simp add: a(1) upd_where_def)
  then have dist: "distinct (map d_id (drafts s'))" using assms(2) by simp
  have "(if P e then f e else e) \<in> set (drafts s')" using e(1) by (simp add: a(1) set_upd_where)
  then have "find_draft did s' = Some (if P e then f e else e)"
    using find_by_distinct [OF dist] ids [OF e(1)] e(2) by (auto simp: find_draft_def)
  moreover have "as_written (f e) = as_written e" if "P e"
    using a(2) e that assms(3) by (auto simp: row_step_def)
  ultimately show ?thesis by auto
next
  fix P assume a: "drafts s' = filter (\<lambda>d. \<not> P d) (drafts s)"
    "\<forall>d. P d \<longrightarrow> d_status d \<noteq> D_pending \<and> \<not> list_ex (\<lambda>x. o_draft_id x = Some (d_id d)) (orders s)"
  have "d_id e = did" using assms(4) by (auto simp: find_draft_def dest: find_by_key)
  then have "\<not> P e" using a(2) assms(3) by (auto simp: list_ex_iff held_always_def)
  then show ?thesis using assms(4) find_by_filter [of d_id did "drafts s" e] by (simp add: find_draft_def a(1))
qed

lemma fixed_by_order_step:
  assumes "desk_step names low sc sc'" and "fixed_by_order names did d sc"
  shows "fixed_by_order names did d sc'"
proof -
  have wf: "distinct (map d_id (drafts (fst sc)))" "jobs_have_letters (fst sc)" "list_ex (held_always did) (orders (fst sc))"
    using assms(2) by (simp_all add: fixed_by_order_def desk_ok_def)
  obtain e where "find_draft did (fst sc) = Some e" "as_written e = as_written d" using assms(2) by (auto simp: fixed_by_order_def)
  with desk_step_effect [OF assms(1) wf(1,2)] fixed_drafts_step [OF _ wf(1,3)] desk_step_ok [OF assms(1)] assms(2)
  show ?thesis unfolding fixed_by_order_def by metis
qed

interpretation paid: kept_by_steps "desk_step names low" "fixed_by_order names did d"
  by unfold_locales (rule fixed_by_order_step)

end
