(* ===== verification/DraftProps.thy ===== *)
theory DraftProps
  imports DraftLaws
begin

text \<open>
  The properties of drafts: an edit is refused without a trace or written to one open draft; what was
  paid for is what is mailed; the person sends what they saw; rows, looks and choices stay valid in every
  interleaving; the cleanup keeps the promises of the privacy policy.
\<close>

section \<open>One edit\<close>

text \<open>
  an edit that is refused changes nothing and tells no version. One that goes through wrote one
  draft, the caller's, open: pending, unexpired, not emptied, and held by no checkout. Nothing else of
  the store changed, the row passes every CHECK, its sender, recipient, price and life are as before, and
  the caller is told the versions of the draft before and after.
\<close>

theorem edit_only_open_draft:
  assumes "edit_draft w did uid e (s, c) = Inr ((refusal, told), (s', c'))"
  shows "(refusal \<noteq> None \<longrightarrow> told = None \<and> s' = s \<and> c' = c) \<and>
    (refusal = None \<longrightarrow> (\<exists>d d'. find_draft did s = Some d \<and> find_draft did s' = Some d' \<and>
      d_user d = uid \<and> d_status d = D_pending \<and> d_redacted_at d = None \<and> dw_js w < d_expires_at d \<and>
      \<not> list_ex (held_by_checkout (dw_now w) did) (orders s) \<and>
      s' = s\<lparr>drafts := upd_where (\<lambda>x. d_id x = did) (edit_row w e) (drafts s)\<rparr> \<and> draft_row_refusal d' = None \<and>
      d_user d' = uid \<and> d_status d' = D_pending \<and> d_sender d' = d_sender d \<and> d_recipient d' = d_recipient d \<and>
      d_required_credits d' = d_required_credits d \<and> d_expires_at d' = d_expires_at d \<and>
      told = Some \<lparr> wv_contentVersion = contentVersionOf (dw_sha256 w) d', wv_before = contentVersionOf (dw_sha256 w) d,
        wv_mailService = d_mail_service d' \<rparr>))"
  using assms
proof (cases rule: edit_cases)
  case (wrote d)
  have id: "d_id d = did" using wrote(2) by (auto simp: find_draft_def dest: find_by_key)
  have found: "find_draft did s' = Some (edit_row w e d)"
    using wrote(2,6) find_draft_upd [of "edit_row w e" did did s] by simp
  show ?thesis
    using wrote id found
    by (intro conjI impI exI [of _ d] exI [of _ "edit_row w e d"])
      (auto simp: draft_lock_refusal_def upd_draft_def split: if_splits)
qed simp

section \<open>What was seen is what is sent\<close>

text \<open>
  after an edit changed a draft, a send from the balance that names the version the person was
  shown before it is refused, whatever else happened since while the draft stands as written; a
  send that names the version the edit told is not refused for it. The digests are hex texts.
\<close>

theorem send_of_earlier_version_refused:
  assumes "edit_draft w did uid e (s, c) = Inr ((None, Some told), (s', c'))"
    and "wv_before told \<noteq> wv_contentVersion told"
    and "\<And>t. take 16 (dw_sha256 w t) \<noteq> [] \<and> js_trim (take 16 (dw_sha256 w t)) = take 16 (dw_sha256 w t)"
    and "sw_sha256 sw = dw_sha256 w" and "sp_draft p = did" and "\<not> is_jit (sp_funding p)"
    and "find_draft did s2 = find_draft did s'"
  shows "(sp_contentVersion p = Some (wv_before told) \<longrightarrow> \<not> is_ok (createMailOrderFromDraftWithClient sw p s2)) \<and>
    (sp_contentVersion p = Some (wv_contentVersion told) \<longrightarrow>
      (\<exists>d. find_draft did s2 = Some d \<and> version_refusal sw p d = None))"
proof -
  from assms(1) obtain d where d: "find_draft did s = Some d" "s' = upd_draft did (edit_row w e) s" "draft_lock_refusal w d s = None"
    "told = \<lparr> wv_contentVersion = contentVersionOf (dw_sha256 w) (edit_row w e d),
         wv_before = contentVersionOf (dw_sha256 w) d, wv_mailService = d_mail_service (edit_row w e d) \<rparr>"
    by (cases rule: edit_cases) auto
  let ?d = "edit_row w e d"
  have f: "find_draft did s2 = Some ?d"
    using d(1,2) assms(7) find_draft_upd [of "edit_row w e" did did s] by simp
  have trim: "or_null_str (Some (js_trim (contentVersionOf (dw_sha256 w) x))) = Some (contentVersionOf (dw_sha256 w) x)" for x
    using assms(3) by (simp add: contentVersionOf_def or_null_str_def)
  have st: "d_status ?d = D_pending" using d(3) by (simp add: draft_lock_refusal_def split: if_splits)
  have "\<not> is_ok (createMailOrderFromDraftWithClient sw p s2)" if v: "sp_contentVersion p = Some (wv_before told)"
  proof -
    have "contentVersionMatches (sw_sha256 sw) (sp_contentVersion p) ?d = V_differs"
      using assms(2) trim [of d] by (simp add: v d(4) contentVersionMatches_def assms(4))
    then have "new_send_refusal sw p ?d s2 \<noteq> None"
      using assms(6) by (simp add: new_send_refusal_def version_refusal_def)
    then show ?thesis using f st by (auto simp: createMailOrderFromDraftWithClient_def send_new_def assms(5) is_ok_iff)
  qed
  moreover have "version_refusal sw p ?d = None" if v: "sp_contentVersion p = Some (wv_contentVersion told)"
    using trim [of ?d] by (simp add: v d(4) version_refusal_def contentVersionMatches_def assms(4))
  ultimately show ?thesis using f by blast
qed

section \<open>Every interleaving\<close>

text \<open>
  C21: what is paid for is what is mailed. While a Pay & Send order past its checkout, or one whose
  Stripe session opened, names a draft, no interleaving of edits, cancels, expiry, cleanups, sends and new
  drafts deletes the draft or changes what it prints, its recipient, its price, its mail option or its version.
\<close>

theorem paid_draft_is_fixed:
  assumes "rtranclp (desk_step names low) (s, c) (s', c')" and "desk_ok names (s, c)"
    and "find_draft did s = Some d" and "list_ex (held_always did) (orders s)"
  shows "\<exists>d'. find_draft did s' = Some d' \<and> as_written d' = as_written d \<and> buildLetterContent d' = buildLetterContent d \<and>
    buildPostcardContent d' = buildPostcardContent d \<and> d_recipient d' = d_recipient d \<and>
    d_required_credits d' = d_required_credits d \<and> draftMailOption d' = draftMailOption d \<and>
    contentVersionOf sha d' = contentVersionOf sha d"
proof -
  have "fixed_by_order names did d (s, c)" using assms(2-4) by (simp add: fixed_by_order_def)
  from paid.run_keeps [OF assms(1) this] obtain d' where "find_draft did s' = Some d'" "as_written d' = as_written d"
    by (auto simp: fixed_by_order_def)
  then show ?thesis using as_written_same by blast
qed

text \<open>
  in every state the desk reaches, the drafts have distinct ids and pass every CHECK of
  their table, so no edit is ever refused by the database for what an earlier one wrote.
\<close>

theorem drafts_stay_valid:
  assumes "rtranclp (desk_step names low) (s, c) (s', c')" and "desk_ok names (s, c)"
  shows "distinct (map d_id (drafts s')) \<and> list_all (\<lambda>d. draft_row_refusal d = None) (drafts s') \<and> jobs_have_letters s'"
  using desk.run_keeps [OF assms] by (simp add: desk_ok_def)

text \<open>
  every look a draft stores comes back: in every state the desk reaches, a stored theme or design,
  and a stored postcard front, is read by the print as a value whose column is the one stored.
\<close>

theorem stored_looks_print_back:
  assumes "rtranclp (desk_step names low) (s, c) (s', c')" and "desk_ok names (s, c)" and "d \<in> set (drafts s')"
  shows "(d_stationery d = Some kvs \<longrightarrow>
      (\<exists>st. stationeryOf names (JObj kvs) = Some st \<and> stationery_column (Some st) = Some kvs)) \<and>
    (d_postcard_front d = Some fvs \<longrightarrow>
      (\<exists>f. postcardFrontOf (JObj fvs) = Some f \<and> front_column (Some f) = Some fvs))"
  using desk.run_keeps [OF assms(1,2)] assms(3) by (auto simp: desk_ok_def list_all_iff looks_print_def)

text \<open>
  C38: an account keeps at most ten designs, one of a name whatever its case, each of choices the
  renderer draws, remembers only a design of its own, and holds at most one signature, whatever
  its sessions save, delete, remember and edit.
\<close>

theorem choices_stay_own:
  assumes "rtranclp (desk_step names low) (s, c) (s', c')" and "choices_ok low c"
  shows "length (filter (\<lambda>r. ds_user r = uid) (designs c')) \<le> 10 \<and>
    distinct (map (\<lambda>r. (ds_user r, low (ds_name r))) (designs c')) \<and>
    list_all (\<lambda>r. savedOf r \<noteq> None) (designs c') \<and> distinct (map us_user (signatures c')) \<and>
    (\<forall>a\<in>set (accounts c'). \<forall>did. hc_design a = Some did \<longrightarrow> (\<exists>r\<in>set (designs c'). ds_id r = did \<and> ds_user r = hc_user a))"
proof -
  have ok: "choices_ok low c'" using choosing.run_keeps [OF assms(1)] assms(2) by simp
  have drawn: "savedOf r \<noteq> None" if "design_row_refusal r = None" for r
    using that by (auto simp: savedOf_def row_choices_def design_row_refusal_def known_design_def design_keys_def Let_def split: if_splits)
  have "list_all (\<lambda>r. savedOf r \<noteq> None) (designs c')"
    using ok drawn by (auto simp: choices_ok_def list_all_iff simp del: not_None_eq)
  moreover have "length (filter (\<lambda>r. ds_user r = uid) (designs c')) \<le> 10"
    using ok by (simp add: choices_ok_def designs_of_def MAX_STATIONERY_DESIGNS_def)
  moreover have "\<exists>r\<in>set (designs c'). ds_id r = did \<and> ds_user r = hc_user a"
    if "a \<in> set (accounts c')" "hc_design a = Some did" for a did
  proof -
    have "remembers_own c' a" using ok that(1) by (simp add: choices_ok_def list_all_iff)
    then show ?thesis using that(2) by (auto simp: remembers_own_def list_ex_iff)
  qed
  ultimately show ?thesis using ok by (simp add: choices_ok_def)
qed

section \<open>The cleanup\<close>

text \<open>
  C39: the daily maintenance marks what expired and cleans up. It takes out no draft that is still open, that an
  order names, or whose letter still waits for its mail date; and it leaves no unsent draft without an
  order more than four days past its expiry, the privacy policy's week with room for the sweep's drift.
\<close>

theorem cleanup_keeps_promises:
  assumes "markExpiredDrafts now s = (m, s1)" and "cleanupOldDrafts now js days s1 = (n, s2)"
    and "js - 4 * day_ms \<le> now"
  shows "(\<forall>d\<in>set (drafts s). (\<exists>d'\<in>set (drafts s2). d_id d' = d_id d) \<or>
      ((d_status d = D_pending \<longrightarrow> d_expires_at d < js - 4 * day_ms) \<and> \<not> list_ex (\<lambda>x. o_draft_id x = Some (d_id d)) (orders s) \<and>
       \<not> list_ex (still_waits now days d) (letters s))) \<and>
    (\<forall>d\<in>set (drafts s2). d_status d \<in> {D_pending, D_expired} \<longrightarrow> d_consumed_letter_id d = None \<longrightarrow>
      \<not> list_ex (\<lambda>x. o_draft_id x = Some (d_id d)) (orders s2) \<longrightarrow> js - 4 * day_ms \<le> d_expires_at d) \<and>
    s2 = s\<lparr>drafts := drafts s2\<rparr>"
proof -
  have s1: "s1 = s\<lparr>drafts := upd_where (lapsed now) (expire_draft now) (drafts s)\<rparr>" and m: "orders s1 = orders s" "letters s1 = letters s"
    using assms(1) by (auto simp: markExpiredDrafts_def)
  have s2: "s2 = s1\<lparr>drafts := filter (\<lambda>d. \<not> done_with now js days s1 d) (drafts s1)\<rparr>"
    using assms(2) by (simp add: cleanupOldDrafts_def)
  have waits: "still_waits now days (d\<lparr>d_status := D_expired, d_updated_at := now\<rparr>) = still_waits now days d" for d
    by (simp add: still_waits_def fun_eq_iff)
  have taken: "(d_status d = D_pending \<longrightarrow> d_expires_at d < js - 4 * day_ms) \<and> \<not> list_ex (\<lambda>x. o_draft_id x = Some (d_id d)) (orders s) \<and>
      \<not> list_ex (still_waits now days d) (letters s)"
    if "done_with now js days s1 (if lapsed now d then expire_draft now d else d)" for d
    using that by (auto simp: done_with_def m waits past_cutoff_def UNSENT_DRAFT_DAYS_AFTER_EXPIRY_def expire_draft_def split: if_splits)
  have "(\<exists>d'\<in>set (drafts s2). d_id d' = d_id d) \<or> done_with now js days s1 (if lapsed now d then expire_draft now d else d)"
    if d: "d \<in> set (drafts s)" for d
  proof (rule disjCI)
    let ?d = "if lapsed now d then expire_draft now d else d"
    assume "\<not> done_with now js days s1 ?d"
    moreover have "?d \<in> set (drafts s1)" using d by (simp add: s1 set_upd_where)
    ultimately show "\<exists>d'\<in>set (drafts s2). d_id d' = d_id d"
      by (intro bexI [of _ ?d]) (auto simp: s2 expire_draft_def)
  qed
  moreover have "js - 4 * day_ms \<le> d_expires_at d"
    if d: "d \<in> set (drafts s2)" "d_status d \<in> {D_pending, D_expired}" "d_consumed_letter_id d = None"
      "\<not> list_ex (\<lambda>x. o_draft_id x = Some (d_id d)) (orders s2)" for d
  proof (cases "d_status d = D_pending")
    case True
    with d(1) have "\<not> lapsed now d" by (auto simp: s2 s1 set_upd_where expire_draft_def)
    then show ?thesis using True assms(3) by (simp add: lapsed_def)
  next
    case False
    with d have "d_status d = D_expired" "\<not> done_with now js days s1 d" by (auto simp: s2)
    then show ?thesis using d(3,4)
      by (auto simp: done_with_def past_cutoff_def UNSENT_DRAFT_DAYS_AFTER_EXPIRY_def s2 m still_waits_def list_ex_iff)
  qed
  ultimately show ?thesis using taken by (intro conjI ballI) (blast, blast, simp add: s2 s1)
qed

section \<open>A concrete desk\<close>

declare edit_row.simps [simp del] edit_choice.simps [simp del] stationeryOf.simps [simp del]

text \<open>An account with one letter draft, edited at time 5; a version that differs by the draft's text.\<close>

definition sketch :: draft where
  "sketch = \<lparr> d_id = ''draft-9'', d_user = ''u'', d_mail_type = Mt_letter, d_sender = [], d_recipient = [],
     d_body_text = ''Dear Ann'', d_sign_off = Some ''Bob'', d_required_credits = 2, d_preview_html = None,
     d_layout_type = Some ''text_only'', d_header_image_data = None, d_header_image_url = None, d_inline_image_data = None,
     d_inline_image_url = None, d_front_image_data = None, d_front_image_url = None, d_postcard_size = None,
     d_postcard_front = None, d_stationery = None, d_signature_image = None, d_renderer_version = Some ''pdf-1'',
     d_pages = 1, d_mail_service = ''standard'', d_arrive_by = None, d_mail_on = None,
     d_is_gift_send = False, d_status = D_pending, d_expires_at = 100, d_consumed_at = None,
     d_consumed_letter_id = None, d_redacted_at = None, d_updated_at = 0 \<rparr>"

definition sketch_sha :: "string \<Rightarrow> string" where
  "sketch_sha t = (if t = version_text (\<lambda>x. []) sketch then ''a'' else ''b'')"

definition editing :: draft_world where
  "editing = \<lparr> dw_now = 5, dw_js = 5, dw_draft_id = ''draft-10'', dw_sha256 = sketch_sha, dw_md5 = (\<lambda>x. x), dw_names = Some \<rparr>"

definition desk_db :: db where "desk_db = empty_db\<lparr>drafts := [sketch]\<rparr>"

definition desk_choices :: choices where
  "desk_choices = empty_choices\<lparr>accounts := [\<lparr> hc_user = ''u'', hc_erased_at = None, hc_theme = None, hc_design = None \<rparr>]\<rparr>"

text \<open>The letter restyled in Botanical with a date line.\<close>

definition botanical :: stationery_change where
  "botanical = \<lparr> sc_stationery = bare ''botanical'' None None\<lparr>st_dateLine := Some ''May 1''\<rparr>, sc_designId = None,
     sc_previewHtml = ''page'', sc_pages = None, sc_words = (''Dear Ann'', Some ''Bob''), sc_signature = None \<rparr>"

definition desk_after :: desk_state where
  "desk_after = (case edit_draft editing ''draft-9'' ''u'' (Ed_stationery botanical) (desk_db, desk_choices) of
     Inl e \<Rightarrow> (desk_db, desk_choices) | Inr (a, sc') \<Rightarrow> sc')"

lemma desk_edit:
  obtains told where "edit_draft editing ''draft-9'' ''u'' (Ed_stationery botanical) (desk_db, desk_choices) =
    Inr ((None, Some told), desk_after)"
proof -
  let ?r = "edit_draft editing ''draft-9'' ''u'' (Ed_stationery botanical) (desk_db, desk_choices)"
  have "(case ?r of Inl e \<Rightarrow> False | Inr ((r, v), sc') \<Rightarrow> r = None)" by code_simp
  then obtain v where r: "?r = Inr ((None, v), desk_after)"
    by (auto simp: desk_after_def simp del: edit_draft.simps split: sum.splits prod.splits)
  from r obtain told where "v = Some told" by (cases rule: edit_cases) auto
  with r show thesis by (intro that) simp
qed

lemma desk_start: "desk_ok Some (desk_db, desk_choices)" "choices_ok low desk_choices"
  "find_draft ''draft-9'' desk_db = Some sketch"
proof -
  show "find_draft ''draft-9'' desk_db = Some sketch" by code_simp
  have "draft_row_refusal sketch = None" by code_simp
  then show "desk_ok Some (desk_db, desk_choices)"
    by (simp add: desk_ok_def desk_db_def empty_db_def jobs_have_letters_def looks_print_def) (simp add: sketch_def)
  show "choices_ok low desk_choices"
    by (simp add: choices_ok_def desk_choices_def empty_choices_def designs_of_def remembers_own_def)
qed

lemma desk_moves: "rtranclp (desk_step Some low) (desk_db, desk_choices) desk_after"
proof -
  obtain told where "edit_draft editing ''draft-9'' ''u'' (Ed_stationery botanical) (desk_db, desk_choices) =
    Inr ((None, Some told), desk_after)" by (rule desk_edit)
  moreover have "dw_names editing = Some" by (simp add: editing_def)
  ultimately show ?thesis by (intro r_into_rtranclp desk_step.edits)
qed

lemma edit_only_open_draft_witness:
  "\<exists>d'. find_draft ''draft-9'' (fst desk_after) = Some d' \<and> d_status d' = D_pending \<and> draft_row_refusal d' = None"
proof -
  obtain told where "edit_draft editing ''draft-9'' ''u'' (Ed_stationery botanical) (desk_db, desk_choices) =
    Inr ((None, Some told), (fst desk_after, snd desk_after))" using desk_edit by auto
  from edit_only_open_draft [OF this] show ?thesis by blast
qed

text \<open>The same letter sent under the version it had before the restyle.\<close>

lemma sketch_version:
  "version_text sha sketch = version_text (\<lambda>x. []) sketch"
  by (simp add: version_text_def version_fields_def sketch_def pictureHash_def or_null_str_def)

lemma restyled_version: "version_text sha (edit_row editing (Ed_stationery botanical) sketch) \<noteq> version_text (\<lambda>x. []) sketch"
proof -
  have "d_renderer_version (edit_row editing (Ed_stationery botanical) sketch) = Some ''pdf-2''" by code_simp
  moreover have "d_renderer_version sketch = Some ''pdf-1''" by (simp add: sketch_def)
  ultimately have "\<not> prints_alike sha (edit_row editing (Ed_stationery botanical) sketch) sketch" by (simp add: prints_alike_def)
  then show ?thesis using version_text_iff sketch_version by metis
qed

definition sending_sketch :: send_world where
  "sending_sketch = \<lparr> sw_env = Map.empty, sw_zone = (\<lambda>_. 0), sw_now = 6, sw_js = 6, sw_letter_id = ''letter-1'',
     sw_job_id = ''job-1'', sw_codes = (\<lambda>_. []), sw_to_iso = (\<lambda>_. []), sw_sha256 = sketch_sha,
     sw_md5 = (\<lambda>x. x), sw_unicode = (\<lambda>x. x), sw_layout = (\<lambda>_. None) \<rparr>"

definition asked_sketch :: send_params where
  "asked_sketch = \<lparr> sp_draft = ''draft-9'', sp_user = ''u'', sp_mailType = Mt_letter, sp_funding = Prepaid_balance None,
     sp_allowDuplicate = False, sp_contentVersion = Some ''a'' \<rparr>"

lemma send_of_earlier_version_refused_witness:
  "\<not> is_ok (createMailOrderFromDraftWithClient sending_sketch asked_sketch (fst desk_after))"
proof -
  obtain told where r: "edit_draft editing ''draft-9'' ''u'' (Ed_stationery botanical) (desk_db, desk_choices) =
    Inr ((None, Some told), (fst desk_after, snd desk_after))" using desk_edit by auto
  then have told: "told = \<lparr> wv_contentVersion = contentVersionOf sketch_sha (edit_row editing (Ed_stationery botanical) sketch),
     wv_before = contentVersionOf sketch_sha sketch, wv_mailService = d_mail_service (edit_row editing (Ed_stationery botanical) sketch) \<rparr>"
    by (cases rule: edit_cases) (simp_all add: desk_start(3), simp add: editing_def)
  have a: "contentVersionOf sketch_sha sketch = ''a''"
    using sketch_version [of sketch_sha] by (simp add: contentVersionOf_def, simp add: sketch_sha_def)
  have b: "contentVersionOf sketch_sha (edit_row editing (Ed_stationery botanical) sketch) = ''b''"
    using restyled_version by (simp add: contentVersionOf_def sketch_sha_def)
  have "wv_before told \<noteq> wv_contentVersion told" by (simp add: told a b)
  moreover have "take 16 (dw_sha256 editing t) \<noteq> [] \<and> js_trim (take 16 (dw_sha256 editing t)) = take 16 (dw_sha256 editing t)" for t
  proof -
    have "js_trim ''a'' = ''a''" "js_trim ''b'' = ''b''" by code_simp+
    then show ?thesis by (simp add: editing_def sketch_sha_def)
  qed
  moreover have "sw_sha256 sending_sketch = dw_sha256 editing" "sp_draft asked_sketch = ''draft-9''" "\<not> is_jit (sp_funding asked_sketch)"
    by (simp_all add: sending_sketch_def editing_def asked_sketch_def)
  ultimately have "sp_contentVersion asked_sketch = Some (wv_before told) \<longrightarrow>
      \<not> is_ok (createMailOrderFromDraftWithClient sending_sketch asked_sketch (fst desk_after))"
    using send_of_earlier_version_refused [OF r, of sending_sketch asked_sketch "fst desk_after"] by blast
  then show ?thesis by (simp add: told a) (simp add: asked_sketch_def)
qed

text \<open>A paid order holds the draft while it expires.\<close>

definition sketch_order :: order where
  "sketch_order = \<lparr> o_id = ''order-1'', o_user = ''u'', o_type = Ot_jit_mail, o_draft_id = Some ''draft-9'', o_letter_id = None,
     o_product_code = ''jit-letter'', o_product_snapshot = [], o_credits = None, o_amount_cents = 499, o_amount_known = True, o_currency = ''usd'', o_status = Ord_paid,
     o_idempotency_key = ''jit-checkout:order-1'', o_checkout_url = None, o_checkout_expires_at = None, o_stripe_checkout_session_id = None,
     o_stripe_payment_intent_id = None, o_stripe_refund_id = None, o_refund_attempts = 0, o_credits_refunded = 0,
     o_amount_refunded_cents = 0, o_hold_previous_status = None, o_held_at = None, o_hold_reason = None, o_dispute_status = None, o_paid_at = Some 4,
     o_fulfillment_started_at = None, o_fulfilled_at = None, o_completed_at = None, o_payment_failed_at = None, o_refund_pending_at = None,
     o_refunded_at = None, o_last_error_code = None, o_last_error = None, o_created_at = 3, o_updated_at = 4 \<rparr>"

lemma paid_draft_is_fixed_witness:
  "\<exists>d'. find_draft ''draft-9'' (snd (markExpiredDrafts 200 (desk_db\<lparr>orders := [sketch_order]\<rparr>))) = Some d' \<and>
     d_status d' = D_expired \<and> buildLetterContent d' = buildLetterContent sketch"
proof -
  let ?s = "desk_db\<lparr>orders := [sketch_order]\<rparr>" let ?s' = "snd (markExpiredDrafts 200 ?s)"
  have "desk_step Some (\<lambda>x. x) (?s, desk_choices) (?s', desk_choices)" by (rule desk_step.lapses [of 200]) (rule prod.collapse [symmetric])
  moreover have "desk_ok Some (?s, desk_choices)" using desk_start(1)
    by (simp add: desk_ok_def jobs_have_letters_def find_letter_def)
  moreover have "find_draft ''draft-9'' ?s = Some sketch" using desk_start(3) by (simp add: find_draft_def)
  moreover have "list_ex (held_always ''draft-9'') (orders ?s)"
    by (simp add: held_always_def sketch_order_def live_jit_status_def)
  ultimately obtain d' where "find_draft ''draft-9'' ?s' = Some d'" "buildLetterContent d' = buildLetterContent sketch"
    using paid_draft_is_fixed [of Some "\<lambda>x. x" ?s desk_choices ?s' desk_choices "''draft-9''" sketch] by blast
  moreover have "find_draft ''draft-9'' ?s' = Some (expire_draft 200 sketch)" by code_simp
  moreover have "d_status (expire_draft 200 sketch) = D_expired" by (simp add: expire_draft_def)
  ultimately show ?thesis by auto
qed

lemma drafts_stay_valid_witness: "list_all (\<lambda>d. draft_row_refusal d = None) (drafts (fst desk_after))"
  using drafts_stay_valid [of Some "\<lambda>x. x" desk_db desk_choices "fst desk_after" "snd desk_after"] desk_moves desk_start(1)
  by simp

lemma desk_after_drafts: "drafts (fst desk_after) = [edit_row editing (Ed_stationery botanical) sketch]"
proof -
  obtain told where "edit_draft editing ''draft-9'' ''u'' (Ed_stationery botanical) (desk_db, desk_choices) =
    Inr ((None, Some told), desk_after)" by (rule desk_edit)
  then have e: "desk_after = (upd_draft ''draft-9'' (edit_row editing (Ed_stationery botanical)) desk_db, edit_choice ''u'' (Ed_stationery botanical) desk_choices)"
    by (cases rule: edit_cases) simp_all
  have "drafts desk_db = [sketch]" "d_id sketch = ''draft-9''" by (simp_all add: desk_db_def sketch_def)
  then show ?thesis unfolding e by (simp add: upd_draft_def)
qed

lemma stored_looks_print_back_witness:
  "\<exists>kvs st. d_stationery (hd (drafts (fst desk_after))) = Some kvs \<and> stationeryOf Some (JObj kvs) = Some st \<and>
     stationery_column (Some st) = Some kvs"
proof -
  let ?d = "hd (drafts (fst desk_after))"
  have "d_stationery (edit_row editing (Ed_stationery botanical) sketch) \<noteq> None" by code_simp
  then obtain kvs where "d_stationery ?d = Some kvs" by (auto simp: desk_after_drafts)
  moreover have "?d \<in> set (drafts (fst desk_after))" by (simp add: desk_after_drafts)
  ultimately show ?thesis
    using stored_looks_print_back [of Some "\<lambda>x. x" desk_db desk_choices "fst desk_after" "snd desk_after" ?d kvs]
      desk_moves desk_start(1) by simp
qed

text \<open>A design saved, then remembered.\<close>

definition plain_design :: stationery_design where
  "plain_design = \<lparr> sd_face = ''serif'', sd_ornament = ''sprig'', sd_ruled = True, sd_tone = ''dark'' \<rparr>"

definition design_id :: string where "design_id = ''0123abcd-0000-4000-8000-0123456789ab''"

definition designed :: choices where
  "designed = (case saveDesign (\<lambda>x. x) 7 design_id ''u'' ''Home'' plain_design True desk_choices of
     Inl e \<Rightarrow> desk_choices | Inr (r, c) \<Rightarrow> c)"

lemma designed_remembered:
  "rtranclp (desk_step Some (\<lambda>x. x)) (desk_db, desk_choices) (desk_db, snd (rememberDesign ''u'' (Some design_id) designed))"
proof -
  let ?r = "saveDesign (\<lambda>x. x) 7 design_id ''u'' ''Home'' plain_design True desk_choices"
  have "is_ok ?r" by code_simp
  then obtain r where "?r = Inr (r, designed)" by (auto simp: designed_def is_ok_iff)
  then have a: "desk_step Some (\<lambda>x. x) (desk_db, desk_choices) (desk_db, designed)"
    by (intro desk_step.chooses choice_step.saves)
  have b: "desk_step Some (\<lambda>x. x) (desk_db, designed) (desk_db, snd (rememberDesign ''u'' (Some design_id) designed))"
    by (rule desk_step.chooses, rule choice_step.remembers) (rule prod.collapse [symmetric])
  from rtranclp.rtrancl_into_rtrancl [OF r_into_rtranclp [of "desk_step Some (\<lambda>x. x)", OF a] b] show ?thesis .
qed

lemma choices_stay_own_witness:
  "length (designs (snd (rememberDesign ''u'' (Some design_id) designed))) = 1 \<and>
   list_all (\<lambda>r. savedOf r \<noteq> None) (designs (snd (rememberDesign ''u'' (Some design_id) designed)))"
proof -
  have "length (designs (snd (rememberDesign ''u'' (Some design_id) designed))) = 1" by code_simp
  then show ?thesis
    using choices_stay_own [OF designed_remembered desk_start(2)] by blast
qed

lemma cleanup_keeps_promises_witness:
  "drafts (snd (cleanupOldDrafts 1000000000 1000000000 7 (snd (markExpiredDrafts 1000000000 desk_db)))) = [] \<and>
   \<not> list_ex (\<lambda>x. o_draft_id x = Some (d_id sketch)) (orders desk_db)"
proof -
  let ?m = "markExpiredDrafts 1000000000 desk_db" and ?now = "1000000000 :: int"
  let ?n = "cleanupOldDrafts ?now ?now 7 (snd ?m)"
  have e: "drafts (snd ?n) = []" by code_simp
  have "sketch \<in> set (drafts desk_db)" by (simp add: desk_db_def)
  then show ?thesis
    using cleanup_keeps_promises [of ?now desk_db "fst ?m" "snd ?m" ?now 7 "fst ?n" "snd ?n"] e
    by (simp add: day_ms_def)
qed

end
