(* ===== verification/Till.thy ===== *)
theory Till
  imports MailSend
begin

text \<open>
  The tables of the commerce service beside the store: Stripe's webhook events, its disputes, the
  proportional pack refunds and the image entitlements (migrations 006, 021, 023, 029), and what every
  path of src/services/commerceService.ts writes through: an order's UPDATE and INSERT under the CHECKs and
  unique indexes of its table, the order event, the operator's alert, the claim of an event, the
  entitlement of a purchase.

  What Stripe sends is a parameter: a checkout session, a refund, a charge and a dispute are records of
  the fields the code reads. An empty string is falsy in the code, so where it tests one it is read as
  absent (\<open>or_null_str\<close>). Row and advisory locks serialise the transactions, so each is one function.
\<close>

section \<open>Rows\<close>

datatype event_status = Ev_processed | Ev_unmatched

record stripe_event =
  se_id :: string
  se_type :: string
  se_object :: string
  se_order :: "string option"
  se_status :: event_status
  se_intent :: "string option"
  se_charge :: "string option"
  se_metadata_order :: "string option"
  se_processed_at :: instant
  se_resolved_at :: "instant option"

record stripe_dispute =
  di_id :: string
  di_charge :: string
  di_intent :: "string option"
  di_user :: "string option"
  di_amount :: int
  di_currency :: string
  di_reason :: "string option"
  di_status :: string
  di_due_by :: "instant option"
  di_created :: "instant option"
  di_resolved_at :: "instant option"

datatype pack_refund_status = Pr_letters_revoked | Pr_stripe_pending | Pr_succeeded | Pr_failed | Pr_compensated

record pack_refund =
  prf_id :: string
  prf_order :: string
  prf_user :: string
  prf_letters :: int
  prf_credits :: int
  prf_amount :: int
  prf_currency :: string
  prf_status :: pack_refund_status
  prf_intent :: string
  prf_refund_id :: "string option"
  prf_key :: string
  prf_attempts :: int
  prf_last_error_code :: "string option"
  prf_failure_reason :: "string option"
  prf_compensation :: "string option"
  prf_submitted_at :: "instant option"
  prf_settled_at :: "instant option"
  prf_failed_at :: "instant option"
  prf_created_at :: instant
  prf_updated_at :: instant

datatype entitlement_status = Ie_active | Ie_depleted | Ie_expired | Ie_revoked

record entitlement =
  ie_user :: string
  ie_source_type :: string
  ie_reference :: string
  ie_order :: "string option"
  ie_quantity :: int
  ie_consumed :: int
  ie_status :: entitlement_status
  ie_expires_at :: "instant option"

record till =
  till_db :: db
  stripe_events :: "stripe_event list"
  disputes :: "stripe_dispute list"
  pack_refunds :: "pack_refund list"
  entitlements :: "entitlement list"
  refund_calls :: "(string \<times> int) list"

definition with_db :: "(db \<Rightarrow> db) \<Rightarrow> till \<Rightarrow> till" where
  "with_db f t = t\<lparr>till_db := f (till_db t)\<rparr>"

text \<open>A fallible function of the store, run in a transaction over the till.\<close>

definition run_db :: "(db \<Rightarrow> 'e + 'a \<times> db) \<Rightarrow> till \<Rightarrow> 'e + 'a \<times> till" where
  "run_db f t = (case f (till_db t) of Inl e \<Rightarrow> Inl e | Inr (x, s) \<Rightarrow> Inr (x, t\<lparr>till_db := s\<rparr>))"

definition exec_db :: "(db \<Rightarrow> 'e + db) \<Rightarrow> till \<Rightarrow> 'e + till" where
  "exec_db f t = (case f (till_db t) of Inl e \<Rightarrow> Inl e | Inr s \<Rightarrow> Inr (t\<lparr>till_db := s\<rparr>))"

interpretation events_tab: db_table stripe_events stripe_events_update se_id
  by unfold_locales simp

interpretation disputes_tab: db_table disputes disputes_update di_id
  by unfold_locales simp

interpretation refunds_tab: db_table pack_refunds pack_refunds_update prf_id
  by unfold_locales simp

definition find_event :: "string \<Rightarrow> till \<Rightarrow> stripe_event option" where
  "find_event eid t = find_by se_id eid (stripe_events t)"

definition find_dispute :: "string \<Rightarrow> till \<Rightarrow> stripe_dispute option" where
  "find_dispute did t = find_by di_id did (disputes t)"

definition lockPackRefund :: "string \<Rightarrow> till \<Rightarrow> pack_refund option" where
  "lockPackRefund rid t = find_by prf_id rid (pack_refunds t)"

definition upd_event :: "string \<Rightarrow> (stripe_event \<Rightarrow> stripe_event) \<Rightarrow> till \<Rightarrow> till" where
  "upd_event eid f = stripe_events_update (upd_where (\<lambda>e. se_id e = eid) f)"

definition upd_refund :: "string \<Rightarrow> (pack_refund \<Rightarrow> pack_refund) \<Rightarrow> till \<Rightarrow> till" where
  "upd_refund rid f = pack_refunds_update (upd_where (\<lambda>r. prf_id r = rid) f)"

section \<open>The orders table\<close>

text \<open>\<open>ACTIVE_JIT_STATUSES\<close>, the predicate of \<open>idx_orders_active_jit_draft_unique\<close>, and the statuses already acted on.\<close>

definition ACTIVE_JIT_STATUSES :: "order_status list" where
  "ACTIVE_JIT_STATUSES = [Ord_checkout_pending, Ord_paid, Ord_fulfillment_pending, Ord_refund_pending, Ord_disputed, Ord_held]"

definition FUNDED_OR_REVERSED_ORDER_STATUSES :: "order_status list" where
  "FUNDED_OR_REVERSED_ORDER_STATUSES =
     [Ord_fulfillment_pending, Ord_fulfilled, Ord_refund_pending, Ord_refunded, Ord_disputed, Ord_held]"

definition jit_slot :: "order \<Rightarrow> string option" where
  "jit_slot x = (if o_type x = Ot_jit_mail \<and> o_status x \<in> set ACTIVE_JIT_STATUSES then o_draft_id x else None)"

definition taken_by :: "(order \<Rightarrow> string option) \<Rightarrow> order \<Rightarrow> order list \<Rightarrow> bool" where
  "taken_by col x others \<longleftrightarrow> col x \<noteq> None \<and> list_ex (\<lambda>y. col y = col x) others"

text \<open>The CHECKs and unique indexes of orders (migrations 001, 021, 023 and 029).\<close>

definition order_row_refusal :: "order \<Rightarrow> order list \<Rightarrow> error option" where
  "order_row_refusal x others = first_refusal
     [if o_amount_cents x \<le> 0 then Some (Check_violation ''orders_amount_cents_check'') else None,
      if o_amount_refunded_cents x < 0 \<or> o_amount_cents x < o_amount_refunded_cents x
        then Some (Check_violation ''valid_order_amount_refunded'') else None,
      if \<not> (case o_credits x of None \<Rightarrow> o_type x = Ot_jit_mail | Some n \<Rightarrow> o_type x = Ot_letter_pack \<and> 0 < n)
        then Some (Check_violation ''valid_order_credits'') else None,
      if o_credits_refunded x < 0 \<or> (case o_credits x of None \<Rightarrow> False | Some n \<Rightarrow> n < o_credits_refunded x)
        then Some (Check_violation ''valid_order_credits_refunded'') else None,
      if o_type x = Ot_jit_mail \<and> o_draft_id x = None then Some (Check_violation ''valid_order_draft'') else None,
      if taken_by o_stripe_checkout_session_id x others then Some (Unique_violation ''idx_orders_checkout_session_unique'') else None,
      if taken_by o_stripe_payment_intent_id x others then Some (Unique_violation ''idx_orders_payment_intent_unique'') else None,
      if taken_by o_stripe_refund_id x others then Some (Unique_violation ''idx_orders_refund_unique'') else None,
      if taken_by (Some \<circ> o_idempotency_key) x others then Some (Unique_violation ''idx_orders_idempotency_unique'') else None,
      if taken_by jit_slot x others then Some (Unique_violation ''idx_orders_active_jit_draft_unique'') else None]"

text \<open>
  UPDATE orders ... WHERE order_id: the trigger \<open>update_orders_updated_at\<close> stamps the row, then it is checked
  whole. A row not there is not updated.
\<close>

definition touched :: "instant \<Rightarrow> (order \<Rightarrow> order) \<Rightarrow> order \<Rightarrow> order" where
  [row_defs]: "touched now f x = (f x)\<lparr>o_updated_at := now\<rparr>"

definition update_order :: "instant \<Rightarrow> string \<Rightarrow> (order \<Rightarrow> order) \<Rightarrow> db \<Rightarrow> error + db" where
  "update_order now oid f s = (case find_order oid s of
     None \<Rightarrow> Inr s
   | Some x \<Rightarrow> (case order_row_refusal (touched now f x) (filter (\<lambda>y. o_id y \<noteq> oid) (orders s)) of
       Some e \<Rightarrow> Inl e
     | None \<Rightarrow> Inr (upd_order oid (touched now f) s)))"

definition insert_order :: "order \<Rightarrow> db \<Rightarrow> error + db" where
  "insert_order x s =
     (case order_row_refusal x (orders s) of
        Some e \<Rightarrow> Inl e
      | None \<Rightarrow> if find_order (o_id x) s \<noteq> None then Inl (Unique_violation ''orders_pkey'')
          else if find_user (o_user x) s = None then Inl (Foreign_key_violation ''orders_user_id_fkey'')
          else Inr (s\<lparr>orders := orders s @ [x]\<rparr>))"

definition recordOrderEvent ::
  "string \<Rightarrow> string \<Rightarrow> order_status option \<Rightarrow> order_status option \<Rightarrow> json_object \<Rightarrow> db \<Rightarrow> db" where
  "recordOrderEvent oid eventType fromStatus toStatus metadata s = s\<lparr>order_events := order_events s @
     [\<lparr> oe_order = oid, oe_type = eventType, oe_from = fromStatus, oe_to = toStatus, oe_metadata = metadata \<rparr>]\<rparr>"

section \<open>Alerts\<close>

text \<open>
  INSERT ... ON CONFLICT DO NOTHING, and whether a row went in. The unique keys: an event and a type, one
  \<open>held_mail_funding_reversed\<close> for an order, one open \<open>refund_not_completed\<close> for an order.
\<close>

definition same_alert :: "alert \<Rightarrow> alert \<Rightarrow> bool" where
  "same_alert a b \<longleftrightarrow> al_type a = al_type b \<and>
     (al_source_event a \<noteq> None \<and> al_source_event a = al_source_event b \<or>
      al_order a \<noteq> None \<and> al_order a = al_order b \<and>
        (al_type a = ''held_mail_funding_reversed'' \<or>
         al_type a = ''refund_not_completed'' \<and> \<not> al_resolved a \<and> \<not> al_resolved b))"

definition new_alert :: "string option \<Rightarrow> string option \<Rightarrow> string \<Rightarrow> alert_severity \<Rightarrow> json_object \<Rightarrow> alert" where
  "new_alert ev oid type sev details =
     \<lparr> al_source_event = ev, al_order = oid, al_type = type, al_severity = sev, al_resolved = False,
       al_resolved_by = None, al_resolution_code = None, al_details = details \<rparr>"

definition insert_alert :: "alert \<Rightarrow> db \<Rightarrow> bool \<times> db" where
  "insert_alert a s = (if list_ex (same_alert a) (alerts s) then (False, s) else (True, s\<lparr>alerts := alerts s @ [a]\<rparr>))"

definition raise_alert ::
  "string option \<Rightarrow> string option \<Rightarrow> string \<Rightarrow> alert_severity \<Rightarrow> json_object \<Rightarrow> db \<Rightarrow> db" where
  "raise_alert ev oid type sev details s = snd (insert_alert (new_alert ev oid type sev details) s)"

definition resolve_alerts :: "string \<Rightarrow> (alert \<Rightarrow> bool) \<Rightarrow> db \<Rightarrow> db" where
  "resolve_alerts code P = alerts_update (upd_where (\<lambda>a. \<not> al_resolved a \<and> P a)
     (\<lambda>a. a\<lparr>al_resolved := True, al_resolution_code := Some code\<rparr>))"

section \<open>Stripe's events\<close>

definition claimStripeEvent :: "instant \<Rightarrow> string \<Rightarrow> string \<Rightarrow> string \<Rightarrow> till \<Rightarrow> bool \<times> till" where
  "claimStripeEvent now eventId eventType objectId t =
     (if find_event eventId t \<noteq> None then (False, t)
      else (True, t\<lparr>stripe_events := stripe_events t @
        [\<lparr> se_id = eventId, se_type = eventType, se_object = objectId, se_order = None, se_status = Ev_processed,
           se_intent = None, se_charge = None, se_metadata_order = None, se_processed_at = now,
           se_resolved_at = None \<rparr>]\<rparr>))"

definition bind_event :: "string \<Rightarrow> string \<Rightarrow> till \<Rightarrow> till" where
  "bind_event eventId oid = upd_event eventId (\<lambda>e. e\<lparr>se_order := Some oid\<rparr>)"

text \<open>\<open>TERMINAL_ERROR_CLASSES\<close> of utils/diagnosticLog.ts: what retrying cannot clear.\<close>

definition isTerminalDiagnosticClass :: "string \<Rightarrow> bool" where
  "isTerminalDiagnosticClass c \<longleftrightarrow> c \<in> {''configuration_error'', ''resource_missing'', ''api_key_expired'',
     ''testmode_charges_only'', ''StripeAuthenticationError'', ''StripePermissionError'', ''amount_too_small'',
     ''amount_too_large'', ''parameter_missing'', ''parameter_invalid_integer''}"

section \<open>What a purchase brings beside letters\<close>

text \<open>\<open>integerSetting\<close> of the commerce service, and \<open>isImageGenerationOff\<close> of config/imageGeneration.ts.\<close>

definition integerSetting :: "string \<Rightarrow> int \<Rightarrow> environment \<Rightarrow> int" where
  "integerSetting name fallback env = (case parseInt10 (or_str (env name) []) of
     None \<Rightarrow> fallback | Some n \<Rightarrow> if 0 \<le> n then n else fallback)"

definition imageGenMode :: "environment \<Rightarrow> string" where
  "imageGenMode env = (let raw = lower_str (js_trim (case env ''LETTER_IRL_IMAGE_GEN_MODE'' of None \<Rightarrow> ''on'' | Some v \<Rightarrow> v))
     in if raw \<in> {''off'', ''redirect'', ''mobile_only''} then raw else ''on'')"

definition isImageGenerationOff :: "environment \<Rightarrow> bool" where
  "isImageGenerationOff env \<longleftrightarrow> imageGenMode env = ''off''"

definition packImageGrant :: "int \<Rightarrow> environment \<Rightarrow> int" where
  "packImageGrant credits env = credits div 2 *
     integerSetting ''IMAGE_ENTITLEMENTS_PER_PACK_LETTER'' (integerSetting ''IMAGE_GENERATION_LIMIT_PER_LETTER'' 5 env) env"

definition grantImageEntitlementWithClient ::
  "string \<Rightarrow> string \<Rightarrow> string \<Rightarrow> string option \<Rightarrow> int \<Rightarrow> instant option \<Rightarrow> till \<Rightarrow> error + entitlement option \<times> till" where
  "grantImageEntitlementWithClient uid sourceType ref oid quantity expiresAt t =
     (if quantity \<le> 0 then Inr (None, t)
      else if list_ex (\<lambda>e. ie_source_type e = sourceType \<and> ie_reference e = ref) (entitlements t) then Inr (None, t)
      else if find_user uid (till_db t) = None then Inl (Foreign_key_violation ''image_entitlements_user_id_fkey'')
      else let e = \<lparr> ie_user = uid, ie_source_type = sourceType, ie_reference = ref, ie_order = or_null_str oid,
                     ie_quantity = quantity, ie_consumed = 0, ie_status = Ie_active, ie_expires_at = expiresAt \<rparr>
           in Inr (Some e, t\<lparr>entitlements := entitlements t @ [e]\<rparr>))"

definition grantPurchaseImageEntitlement ::
  "environment \<Rightarrow> string \<Rightarrow> string \<Rightarrow> string \<Rightarrow> int \<Rightarrow> till \<Rightarrow> error + till" where
  "grantPurchaseImageEntitlement env uid sourceType oid quantity t =
     (if isImageGenerationOff env then Inr t
      else (case grantImageEntitlementWithClient uid sourceType oid (Some oid) quantity None t of
        Inl e \<Rightarrow> Inl e | Inr (r, t') \<Rightarrow> Inr t'))"

definition revoke_entitlements :: "string \<Rightarrow> till \<Rightarrow> till" where
  "revoke_entitlements oid = entitlements_update (upd_where (\<lambda>e. ie_order e = Some oid \<and> ie_status e \<noteq> Ie_revoked)
     (\<lambda>e. e\<lparr>ie_status := Ie_revoked\<rparr>))"

text \<open>The lines of the customer's history, named as the pack was bought.\<close>

definition pack_display_name :: "string \<Rightarrow> string option" where
  "pack_display_name code = map_of
     [(''credit-pack-4'', ''Starter Pack - 2 Letters''), (''credit-pack-10'', ''Regular Pack - 5 Letters''),
      (''credit-pack-100'', ''Power Pack - 50 Letters'')] code"

definition packName :: "order \<Rightarrow> string" where
  "packName x = (case map_of (o_product_snapshot x) ''name'' of
     Some (JStr name) \<Rightarrow> if js_trim name \<noteq> [] then js_trim name
       else or_str (pack_display_name (o_product_code x)) ''a letter pack''
   | _ \<Rightarrow> (case pack_display_name (o_product_code x) of Some n \<Rightarrow> n | None \<Rightarrow> ''a letter pack''))"

definition packPurchaseLine :: "order \<Rightarrow> string" where
  "packPurchaseLine x = ''Purchased '' @ packName x"

definition packRefundLine :: "order \<Rightarrow> string" where
  "packRefundLine x = ''Refunded '' @ packName x"

text \<open>\<open>publicPurchaseStatus\<close>: the vocabulary the customer reads.\<close>

fun publicPurchaseStatus :: "order_status \<Rightarrow> string" where
  "publicPurchaseStatus Ord_checkout_pending = ''pending_payment''"
| "publicPurchaseStatus Ord_paid = ''processing''"
| "publicPurchaseStatus Ord_fulfillment_pending = ''processing''"
| "publicPurchaseStatus Ord_fulfilled = ''submitted''"
| "publicPurchaseStatus Ord_payment_failed = ''payment_failed''"
| "publicPurchaseStatus Ord_refund_pending = ''refund_pending''"
| "publicPurchaseStatus Ord_refunded = ''refunded''"
| "publicPurchaseStatus Ord_disputed = ''on_hold''"
| "publicPurchaseStatus Ord_held = ''on_hold''"
| "publicPurchaseStatus Ord_cancelled = ''cancelled''"

end
