(* ===== verification/PackLots.thy ===== *)
theory PackLots
  imports Till Returns ScheduledMail
begin

text \<open>
  Taking a pack's credits back, and giving them back again (src/services/commerceService.ts): the whole-pack
  reversal of a refund or a dispute, the proportional refund of some letters, the compensation of a dispute
  resolved in our favour, and the mail a reversed payment had funded, stopped or held.
  All of it runs in the caller's transaction, under the order's and the account's locks.
\<close>

section \<open>A pack's lots\<close>

definition of_pack :: "order \<Rightarrow> ledger_entry \<Rightarrow> bool" where
  "of_pack x e \<longleftrightarrow> le_user e = o_user x \<and> le_source_type e \<in> {Src_purchase, Src_adjustment} \<and>
     (le_source_reference_id e = Some (o_id x) \<or>
      (case or_null_str (o_stripe_checkout_session_id x) of None \<Rightarrow> False
       | Some sid \<Rightarrow> json_text (le_source_metadata e) ''stripe_session_id'' = Some sid))"

definition revocable :: "order \<Rightarrow> ledger_entry \<Rightarrow> bool" where
  "revocable x e \<longleftrightarrow> of_pack x e \<and> le_status e \<noteq> Lot_revoked"

datatype revocation_cause = Rc_payment_refunded | Rc_payment_disputed

fun cause_text :: "revocation_cause \<Rightarrow> string" where
  "cause_text Rc_payment_refunded = ''payment_refunded''"
| "cause_text Rc_payment_disputed = ''payment_disputed''"

fun gift_cause :: "revocation_cause \<Rightarrow> reversal_cause" where
  "gift_cause Rc_payment_refunded = Payment_refunded"
| "gift_cause Rc_payment_disputed = Payment_disputed"

text \<open>The audit row of a taken lot: a 'refund' lot with nothing left, linked to the lot it took.\<close>

definition audit_lot :: "instant \<Rightarrow> order \<Rightarrow> int \<Rightarrow> json_object \<Rightarrow> string \<Rightarrow> string \<Rightarrow> string \<Rightarrow> ledger_entry" where
  "audit_lot now x amount metadata description source lid =
     \<lparr> le_id = lid, le_user = o_user x, le_initial = amount, le_remaining = 0, le_source_type = Src_refund,
       le_source_reference_id = Some (o_id x), le_source_order_id = None, le_source_metadata = Some metadata,
       le_activated_at = now, le_expires_at = None, le_expiration_policy = Some Pol_never, le_expiration_days = None,
       le_status = Lot_revoked, le_description = Some description, le_related_ledger_id = Some source,
       le_created_at = now, le_updated_at = now \<rparr>"

definition revocation_metadata :: "order \<Rightarrow> revocation_cause \<Rightarrow> string option \<Rightarrow> ledger_entry \<Rightarrow> json_object" where
  "revocation_metadata x cause disputeId e =
     [(''reason'', JStr (cause_text cause)), (''order_id'', JStr (o_id x)),
      (''remaining_at_revocation'', JInt (le_remaining e))] @
     (case or_null_str disputeId of None \<Rightarrow> [] | Some d \<Rightarrow> [(''dispute_id'', JStr d)])"

definition revocation_audit :: "instant \<Rightarrow> order \<Rightarrow> revocation_cause \<Rightarrow> string option \<Rightarrow> ledger_entry \<Rightarrow> string \<Rightarrow> ledger_entry" where
  "revocation_audit now x cause disputeId e lid = audit_lot now x (le_initial e)
     (revocation_metadata x cause disputeId e) (''Payment refund for '' @ o_id x) (le_id e) lid"

fun audit_lots :: "instant \<Rightarrow> order \<Rightarrow> revocation_cause \<Rightarrow> string option \<Rightarrow> ledger_entry list \<Rightarrow> db \<Rightarrow> error + db" where
  "audit_lots now x cause disputeId [] s = Inr s"
| "audit_lots now x cause disputeId (e # es) s =
     bindE (insert_lot (revocation_audit now x cause disputeId e (fresh_id s)) s) (audit_lots now x cause disputeId es)"

section \<open>The tier of an account\<close>

text \<open>The purchases that still count: a proportional refund leaves its purchase standing.\<close>

definition counted_purchase :: "string \<Rightarrow> ledger_entry list \<Rightarrow> ledger_entry \<Rightarrow> bool" where
  "counted_purchase uid es e \<longleftrightarrow> le_user e = uid \<and> le_source_type e = Src_purchase \<and>
     \<not> list_ex (\<lambda>r. le_source_type r = Src_refund \<and> le_related_ledger_id r = Some (le_id e) \<and>
       json_text (le_source_metadata r) ''reason'' \<noteq> Some ''partial_refund'') es"

definition tier_after :: "instant \<Rightarrow> string \<Rightarrow> db \<Rightarrow> user_tier" where
  "tier_after now uid s =
     (let made = sort (map le_created_at (filter (counted_purchase uid (ledger s)) (ledger s)))
      in if 3 \<le> length made \<and> made ! 2 \<le> now - 120 * day_ms then Tier_trusted else Tier_standard)"

definition set_tier :: "instant \<Rightarrow> user_tier \<Rightarrow> user \<Rightarrow> user" where
  [row_defs]: "set_tier now tier u = u\<lparr>u_tier := tier, u_tier_calculated_at := Some now, u_updated_at := now\<rparr>"

section \<open>The whole pack\<close>

definition take_whole :: "instant \<Rightarrow> ledger_entry \<Rightarrow> ledger_entry" where
  [row_defs]: "take_whole now e = e\<lparr>le_remaining := 0, le_status := Lot_revoked, le_updated_at := now\<rparr>"

text \<open>\<open>GREATEST(credits - n, 0)\<close> and the same for lifetime purchases.\<close>

definition take_balance :: "instant \<Rightarrow> int \<Rightarrow> int \<Rightarrow> user \<Rightarrow> user" where
  [row_defs]: "take_balance now credits lifetime u = u\<lparr>u_credits := max (u_credits u - credits) 0,
     u_credits_purchased := max (u_credits_purchased u - lifetime) 0, u_updated_at := now\<rparr>"

definition order_txn :: "instant \<Rightarrow> string \<Rightarrow> int \<Rightarrow> int \<Rightarrow> string \<Rightarrow> string \<Rightarrow> nat \<Rightarrow> credit_transaction" where
  "order_txn now uid amount balance oid description tid =
     \<lparr> tx_id = tid, tx_user = uid, tx_amount = amount, tx_balance_after = balance, tx_type = Tx_refund,
       tx_reference_type = Some Ref_order, tx_reference_id = Some oid, tx_description = Some description,
       tx_created_at = now \<rparr>"

definition write_txn :: "instant \<Rightarrow> string \<Rightarrow> int \<Rightarrow> int \<Rightarrow> string \<Rightarrow> string \<Rightarrow> db \<Rightarrow> db" where
  "write_txn now uid amount balance oid description s =
     insert_txn (order_txn now uid amount balance oid description (txn_seq s)) s"

definition lifetime_decrement :: "order \<Rightarrow> ledger_entry list \<Rightarrow> int" where
  "lifetime_decrement x entries = (if list_ex (\<lambda>e. le_source_type e = Src_purchase) entries
     then max ((case o_credits x of None \<Rightarrow> 0 | Some n \<Rightarrow> n) - o_credits_refunded x) 0 else 0)"

definition revocation_line :: "order \<Rightarrow> revocation_cause \<Rightarrow> string" where
  "revocation_line x cause = (if cause = Rc_payment_refunded then packRefundLine x
     else ''Revoked unused credits after refund of '' @ o_id x)"

definition settle_whole :: "instant \<Rightarrow> order \<Rightarrow> revocation_cause \<Rightarrow> ledger_entry list \<Rightarrow> db \<Rightarrow> db" where
  "settle_whole now x cause entries s =
     (let remaining = sum_list (map le_remaining entries);
          s1 = upd_user (o_user x) (take_balance now remaining (lifetime_decrement x entries)) s;
          s2 = (case find_user (o_user x) s1 of
                  None \<Rightarrow> s1
                | Some u \<Rightarrow> if 0 < remaining \<or> cause = Rc_payment_refunded
                    then write_txn now (o_user x) (- remaining) (u_credits u) (o_id x) (revocation_line x cause) s1
                    else s1)
      in upd_user (o_user x) (set_tier now (tier_after now (o_user x) s2)) s2)"

definition revokeWholePack :: "instant \<Rightarrow> order \<Rightarrow> revocation_cause \<Rightarrow> string option \<Rightarrow> db \<Rightarrow> error + int \<times> db" where
  "revokeWholePack now x cause disputeId s =
     (let entries = filter (revocable x) (ledger s)
      in if entries = [] then Inr (0, s)
         else bindE (audit_lots now x cause disputeId entries (ledger_update (upd_where (revocable x) (take_whole now)) s))
           (\<lambda>s1. Inr (sum_list (map le_remaining entries), settle_whole now x cause entries s1)))"

section \<open>Some letters of the pack\<close>

definition live_on_pack :: "instant \<Rightarrow> order \<Rightarrow> ledger_entry \<Rightarrow> bool" where
  "live_on_pack now x e \<longleftrightarrow> of_pack x e \<and> le_status e = Lot_active \<and> 0 < le_remaining e \<and>
     (case le_expires_at e of None \<Rightarrow> True | Some u \<Rightarrow> now < u)"

definition live_lots :: "instant \<Rightarrow> order \<Rightarrow> db \<Rightarrow> ledger_entry list" where
  "live_lots now x s = sort_key fifo_key (filter (live_on_pack now x) (ledger s))"

definition partial_line :: "string \<Rightarrow> int \<Rightarrow> string" where
  "partial_line oid n = ''Proportional refund of '' @ show_int n @ '' '' @
     (if n = 1 then ''letter'' else ''letters'') @ '' for '' @ oid"

definition partial_audit :: "instant \<Rightarrow> order \<Rightarrow> string option \<Rightarrow> int \<Rightarrow> ledger_entry \<Rightarrow> int \<Rightarrow> string \<Rightarrow> ledger_entry" where
  "partial_audit now x prid count e amount lid = audit_lot now x amount
     [(''reason'', JStr ''partial_refund''), (''order_id'', JStr (o_id x)),
      (''pack_refund_id'', (case prid of None \<Rightarrow> JNull | Some p \<Rightarrow> JStr p)), (''letters_refunded'', JInt count),
      (''credits_taken'', JInt amount), (''remaining_before'', JInt (le_remaining e)),
      (''remaining_after'', JInt (le_remaining e - amount))]
     (partial_line (o_id x) count) (le_id e) lid"

record revoked_lot =
  rl_ledger :: string
  rl_audit :: string
  rl_taken :: int

text \<open>The loop over the lots, first expiring first.\<close>

fun take_pack_lots :: "instant \<Rightarrow> order \<Rightarrow> string option \<Rightarrow> int \<Rightarrow> int \<Rightarrow> ledger_entry list \<Rightarrow> db \<Rightarrow>
    error + revoked_lot list \<times> db" where
  "take_pack_lots now x prid count needed [] s = Inr ([], s)"
| "take_pack_lots now x prid count needed (e # es) s =
     (if needed \<le> 0 then Inr ([], s)
      else let amount = min needed (le_remaining e);
               s1 = upd_lot (le_id e) (set_remaining now (le_remaining e - amount)) s;
               audit = partial_audit now x prid count e amount (fresh_id s1)
           in bindE (insert_lot audit s1) (\<lambda>s2.
              bindE (take_pack_lots now x prid count (needed - amount) es s2) (\<lambda>(taken, s3).
              Inr (\<lparr> rl_ledger = le_id e, rl_audit = le_id audit, rl_taken = amount \<rparr> # taken, s3))))"

text \<open>A proportional refund names twice as many credits as letters.\<close>

definition revokePackCreditsProportionally ::
  "instant \<Rightarrow> order \<Rightarrow> int \<Rightarrow> string option \<Rightarrow> db \<Rightarrow> error + (int \<times> revoked_lot list \<times> bool) \<times> db" where
  "revokePackCreditsProportionally now x credits prid s =
     (if credits \<le> 0 then Inl (Error (''revokePackLots: credits must be a positive integer, got '' @ show_int credits))
      else let rows = live_lots now x s;
               available = sum_list (map le_remaining rows);
               count = credits div CREDITS_PER_LETTER
           in if available < credits
              then Inl (Error (''revokePackLots: '' @ show_int credits @ '' credits requested but only '' @
                     show_int available @ '' are live on '' @ o_id x))
              else bindE (take_pack_lots now x prid count credits rows s) (\<lambda>(taken, s1).
                let s2 = upd_user (o_user x) (take_balance now credits credits) s1
                in Inr ((credits, taken, available = credits),
                        write_txn now (o_user x) (- credits) (balance_of (o_user x) s2) (o_id x)
                          (partial_line (o_id x) count) s2)))"

datatype taken_back = Whole_pack revocation_cause "string option" | Some_credits int "string option"

definition revokePackLots :: "instant \<Rightarrow> order \<Rightarrow> taken_back \<Rightarrow> db \<Rightarrow> error + (int \<times> revoked_lot list) \<times> db" where
  "revokePackLots now x what s = (case what of
     Whole_pack cause disputeId \<Rightarrow>
       bindE (revokeWholePack now x cause disputeId s) (\<lambda>(taken, s1).
         Inr ((taken, []), revokeGiftLettersForOrderWithClient now (o_id x) (gift_cause cause) s1))
   | Some_credits credits prid \<Rightarrow>
       bindE (revokePackCreditsProportionally now x credits prid s) (\<lambda>((taken, lots, exhausted), s1).
         Inr ((taken, lots), if exhausted then revokeGiftLettersForOrderWithClient now (o_id x) Payment_refunded s1 else s1)))"

section \<open>A dispute resolved in our favour\<close>

definition json_int :: "json_object option \<Rightarrow> string \<Rightarrow> int" where
  "json_int obj k = (case obj of None \<Rightarrow> 0 | Some kvs \<Rightarrow> (case map_of kvs k of Some (JInt n) \<Rightarrow> n | _ \<Rightarrow> 0))"

definition took :: "string \<Rightarrow> ledger_entry \<Rightarrow> ledger_entry \<Rightarrow> bool" where
  "took disputeId e audit \<longleftrightarrow> le_related_ledger_id audit = Some (le_id e) \<and> le_source_type audit = Src_refund \<and>
     json_text (le_source_metadata audit) ''reason'' = Some ''payment_disputed'' \<and>
     json_text (le_source_metadata audit) ''dispute_id'' = Some disputeId"

definition compensates :: "ledger_entry \<Rightarrow> ledger_entry \<Rightarrow> bool" where
  "compensates c e \<longleftrightarrow> le_related_ledger_id c = Some (le_id e) \<and> le_source_type c = Src_adjustment \<and>
     json_text (le_source_metadata c) ''reason'' = Some ''dispute_resolved_in_our_favour''"

definition disputed_lots :: "order \<Rightarrow> string \<Rightarrow> db \<Rightarrow> (ledger_entry \<times> int) list" where
  "disputed_lots x disputeId s = concat (map (\<lambda>e. map (\<lambda>audit. (e, json_int (le_source_metadata audit) ''remaining_at_revocation''))
     (filter (took disputeId e) (ledger s)))
     (filter (\<lambda>e. of_pack x e \<and> le_status e = Lot_revoked \<and> \<not> list_ex (\<lambda>c. compensates c e) (ledger s)) (ledger s)))"

definition compensation_lot :: "instant \<Rightarrow> order \<Rightarrow> string \<Rightarrow> ledger_entry \<Rightarrow> int \<Rightarrow> string \<Rightarrow> ledger_entry" where
  "compensation_lot now x disputeId e amount lid =
     \<lparr> le_id = lid, le_user = o_user x, le_initial = amount, le_remaining = amount, le_source_type = Src_adjustment,
       le_source_reference_id = Some (o_id x), le_source_order_id = None,
       le_source_metadata = Some [(''reason'', JStr ''dispute_resolved_in_our_favour''), (''order_id'', JStr (o_id x)),
         (''dispute_id'', JStr disputeId), (''compensates_ledger_id'', JStr (le_id e))],
       le_activated_at = now, le_expires_at = le_expires_at e, le_expiration_policy = le_expiration_policy e,
       le_expiration_days = None, le_status = Lot_active,
       le_description = Some (''Dispute resolved in our favour for '' @ o_id x),
       le_related_ledger_id = Some (le_id e), le_created_at = now, le_updated_at = now \<rparr>"

fun compensate_lots :: "instant \<Rightarrow> order \<Rightarrow> string \<Rightarrow> (ledger_entry \<times> int) list \<Rightarrow> db \<Rightarrow> error + int \<times> db" where
  "compensate_lots now x disputeId [] s = Inr (0, s)"
| "compensate_lots now x disputeId ((e, amount) # es) s =
     (if amount \<le> 0 then compensate_lots now x disputeId es s
      else bindE (insert_lot (compensation_lot now x disputeId e amount (fresh_id s)) s) (\<lambda>s1.
           bindE (compensate_lots now x disputeId es s1) (\<lambda>(n, s2). Inr (amount + n, s2))))"

definition add_balance :: "instant \<Rightarrow> int \<Rightarrow> int \<Rightarrow> user \<Rightarrow> user" where
  [row_defs]: "add_balance now credits lifetime u = u\<lparr>u_credits := u_credits u + credits,
     u_credits_purchased := u_credits_purchased u + lifetime, u_updated_at := now\<rparr>"

text \<open>The balance raised, and the line read from the account as updated: none when the account is not there.\<close>

definition give_back :: "instant \<Rightarrow> string \<Rightarrow> int \<Rightarrow> int \<Rightarrow> string \<Rightarrow> string \<Rightarrow> db \<Rightarrow> db" where
  "give_back now uid credits lifetime oid line s =
     (let s1 = upd_user uid (add_balance now credits lifetime) s
      in case find_user uid s1 of None \<Rightarrow> s1 | Some u \<Rightarrow> write_txn now uid credits (u_credits u) oid line s1)"

definition compensateDisputedPacks :: "instant \<Rightarrow> order \<Rightarrow> string \<Rightarrow> db \<Rightarrow> error + db" where
  "compensateDisputedPacks now x disputeId s =
     (if o_status x \<in> {Ord_refunded, Ord_refund_pending} then Inr s
      else let entries = disputed_lots x disputeId s;
               unknown = length (filter (\<lambda>p. snd p \<le> 0) entries)
           in bindE (compensate_lots now x disputeId entries s) (\<lambda>(restored, s1).
              let s2 = (if unknown = 0 then s1
                        else raise_alert None (Some (o_id x)) ''dispute_compensation_incomplete'' Sev_warning
                          [(''disputeId'', JStr disputeId), (''lotsWithoutRecordedBalance'', JInt (int unknown))] s1)
              in Inr (if restored = 0 then s2
                      else give_back now (o_user x) restored 0 (o_id x)
                        (''Dispute '' @ disputeId @ '' resolved in our favour for '' @ o_id x) s2)))"

section \<open>Mail a reversed payment funded\<close>

datatype stopped = Stop_none | Stop_cancelled | Stop_held

definition job_of_letter :: "string \<Rightarrow> db \<Rightarrow> letter_job option" where
  "job_of_letter lid s = List.find (\<lambda>j. j_letter j = lid) (jobs s)"

definition past_stopping :: "letter_status \<Rightarrow> bool" where
  "past_stopping st \<longleftrightarrow> st \<in> {L_accepted, L_sent, L_in_transit, L_delivered, L_returned}"

definition stop_letter :: "instant \<Rightarrow> letter_status \<Rightarrow> letter \<Rightarrow> letter" where
  [row_defs]: "stop_letter now st l = (if past_stopping (lt_status l) then l else l\<lparr>lt_status := st, lt_updated_at := now\<rparr>)"

definition cancel_stopped :: "instant \<Rightarrow> string \<Rightarrow> letter_job \<Rightarrow> letter_job" where
  [row_defs]: "cancel_stopped now reason j = (if j_status j = J_completed then j
     else j\<lparr>j_status := J_cancelled, j_completed_at := Some now, j_locked_at := None, j_hold_reason := Some reason,
       j_updated_at := now\<rparr>)"

definition hold_stopped :: "instant \<Rightarrow> string \<Rightarrow> letter_job \<Rightarrow> letter_job" where
  [row_defs]: "hold_stopped now reason j = j\<lparr>j_status := J_held, j_provider_outcome := O_ambiguous, j_held_at := Some now,
     j_hold_reason := Some reason, j_locked_at := None, j_updated_at := now\<rparr>"

fun outcome_text :: "provider_outcome \<Rightarrow> string" where
  "outcome_text O_not_dispatched = ''not_dispatched''"
| "outcome_text O_dispatching = ''dispatching''"
| "outcome_text O_accepted = ''accepted''"
| "outcome_text O_definite_failure = ''definite_failure''"
| "outcome_text O_ambiguous = ''ambiguous''"

definition dispatched_alert :: "string \<Rightarrow> string \<Rightarrow> string \<Rightarrow> string \<Rightarrow> db \<Rightarrow> db" where
  "dispatched_alert eventId oid jobId outcome = raise_alert (Some eventId) (Some oid) ''refunded_mail_already_dispatched''
     Sev_critical [(''jobId'', JStr jobId), (''providerOutcome'', JStr outcome)]"

definition stopFundedMailBeforeFinancialReversal ::
  "instant \<Rightarrow> order \<Rightarrow> string \<Rightarrow> string \<Rightarrow> db \<Rightarrow> stopped \<times> db" where
  "stopFundedMailBeforeFinancialReversal now x eventId reason s =
     (case (o_type x, or_null_str (o_letter_id x)) of
        (Ot_jit_mail, Some lid) \<Rightarrow>
          (case job_of_letter lid s of
             None \<Rightarrow> (Stop_none, s)
           | Some j \<Rightarrow>
               if j_provider_outcome j = O_not_dispatched
               then (Stop_cancelled, upd_letter lid (stop_letter now L_cancelled) (upd_job (j_id j) (cancel_stopped now reason) s))
               else if j_provider_outcome j \<in> {O_dispatching, O_ambiguous}
               then (Stop_held, dispatched_alert eventId (o_id x) (j_id j) (outcome_text (j_provider_outcome j))
                      (upd_letter lid (stop_letter now L_held) (upd_job (j_id j) (hold_stopped now reason) s)))
               else if j_provider_outcome j = O_accepted \<or> j_status j = J_completed
               then (Stop_none, dispatched_alert eventId (o_id x) (j_id j) ''accepted'' s)
               else (Stop_none, s))
      | _ \<Rightarrow> (Stop_none, s))"

text \<open>The letters a pack paid for: those whose deduction drew on its lots, and those its gift letters were sent with.\<close>

definition paid_by_lots :: "order \<Rightarrow> db \<Rightarrow> letter \<Rightarrow> bool" where
  "paid_by_lots x s l \<longleftrightarrow> list_ex (\<lambda>tx. tx_reference_type tx = Some Ref_letter \<and> tx_type tx = Tx_deduction \<and>
     tx_user tx = o_user x \<and> tx_reference_id tx = Some (lt_id l) \<and>
     list_ex (\<lambda>c. cc_transaction_id c = tx_id tx \<and>
       list_ex (\<lambda>e. le_id e = cc_ledger_id c \<and> le_user e = o_user x \<and>
         (le_source_order_id e = Some (o_id x) \<or> le_source_reference_id e = Some (o_id x) \<or>
          (case or_null_str (o_stripe_checkout_session_id x) of None \<Rightarrow> False
           | Some sid \<Rightarrow> json_text (le_source_metadata e) ''stripe_session_id'' = Some sid))) (ledger s))
       (consumptions s)) (txns s)"

definition funded_by :: "order \<Rightarrow> db \<Rightarrow> letter \<Rightarrow> bool" where
  "funded_by x s l \<longleftrightarrow> lt_user l = o_user x \<and> (paid_by_lots x s l \<or>
     list_ex (\<lambda>g. g_consumed_by_letter_id g = Some (lt_id l) \<and> g_source_order_id g = Some (o_id x)) (gifts s))"

definition holdable :: "letter_job \<Rightarrow> bool" where
  "holdable j \<longleftrightarrow> j_status j \<in> {J_pending, J_processing} \<and> j_provider_outcome j = O_not_dispatched"

definition hold_funded :: "instant \<Rightarrow> string \<Rightarrow> string \<Rightarrow> db \<Rightarrow> db" where
  "hold_funded now reason lid = jobs_update (upd_where (\<lambda>j. j_letter j = lid \<and> holdable j)
     (\<lambda>j. j\<lparr>j_hold_reason := Some reason, j_updated_at := now\<rparr>))"

text \<open>The loop: each letter is another row, so the order of the ids, which only orders the locks, is the table's.\<close>

definition held_letters :: "order \<Rightarrow> db \<Rightarrow> string list" where
  "held_letters x s = map lt_id (filter (\<lambda>l. funded_by x s l \<and> lt_status l = L_queued) (letters s))"

definition holdMailFundedByOrder :: "instant \<Rightarrow> order \<Rightarrow> string \<Rightarrow> string \<Rightarrow> db \<Rightarrow> nat \<times> db" where
  "holdMailFundedByOrder now x eventId reason s =
     (if o_type x \<noteq> Ot_letter_pack then (0, s)
      else let lids = held_letters x s;
               held = length (filter (\<lambda>j. j_letter j \<in> set lids \<and> holdable j) (jobs s));
               s1 = fold (hold_funded now reason) lids s
           in (held, if held = 0 then s1
                else raise_alert (Some eventId) (Some (o_id x)) ''held_mail_funding_reversed'' Sev_warning
                  [(''reason'', JStr reason), (''letters'', JInt (int held))] s1))"

end
