(* ===== verification/Disputes.thy ===== *)
theory Disputes
  imports PackLots
begin

text \<open>
  Disputes (src/services/commerceService.ts): the dispute rows, the block of an account, the events of a
  dispute in whatever order Stripe delivers them, and the loss rule for disputes recorded before an order
  matched. \<open>pw_collate\<close> is JavaScript's \<open>localeCompare\<close> (at or before), a parameter: it only decides which of
  several disputes of one order is shown. The answer of a service is a \<open>event_result\<close>.

  An event that found no order looks again before it is recorded unmatched, since a checkout may have
  committed the order while it waited; transactions are atomic here, so it never finds one.
\<close>

record pay_world =
  pw_send :: send_world
  pw_collate :: "string \<Rightarrow> string \<Rightarrow> bool"

definition pw_now :: "pay_world \<Rightarrow> instant" where "pw_now w = sw_now (pw_send w)"
definition pw_js :: "pay_world \<Rightarrow> instant" where "pw_js w = sw_js (pw_send w)"
definition pw_env :: "pay_world \<Rightarrow> environment" where "pw_env w = sw_env (pw_send w)"

record event_result =
  er_duplicate :: bool
  er_order :: "string option"
  er_status :: "order_status option"

definition duplicate_event :: event_result where
  "duplicate_event = \<lparr> er_duplicate = True, er_order = None, er_status = None \<rparr>"

definition unmatched_event :: event_result where
  "unmatched_event = \<lparr> er_duplicate = False, er_order = None, er_status = None \<rparr>"

definition order_result :: "string \<Rightarrow> order_status \<Rightarrow> event_result" where
  "order_result oid st = \<lparr> er_duplicate = False, er_order = Some oid, er_status = Some st \<rparr>"

section \<open>The dispute's row\<close>

record dispute_object =
  do_id :: string
  do_status :: "string option"
  do_intent :: "string option"
  do_charge :: "string option"
  do_amount :: int
  do_currency :: string
  do_reason :: "string option"
  do_due_by :: "int option"
  do_created :: "int option"
  do_metadata_order :: "string option"

definition NON_LOSS_DISPUTE_STATUSES :: "string set" where
  "NON_LOSS_DISPUTE_STATUSES = {''won'', ''prevented'', ''warning_needs_response'', ''warning_under_review'', ''warning_closed''}"

definition FAVOURABLE_DISPUTE_STATUSES :: "string set" where
  "FAVOURABLE_DISPUTE_STATUSES = {''won'', ''prevented''}"

fun first_some :: "'a option \<Rightarrow> 'a option \<Rightarrow> 'a option" where
  "first_some (Some v) b = Some v"
| "first_some None b = b"

definition seconds :: "int option \<Rightarrow> instant option" where
  "seconds v = map_option (\<lambda>n. n * 1000) (or_null_int v)"

definition dispute_row :: "instant \<Rightarrow> dispute_object \<Rightarrow> string option \<Rightarrow> bool \<Rightarrow> stripe_dispute" where
  "dispute_row js d uid closed =
     \<lparr> di_id = do_id d, di_charge = or_str (do_charge d) [], di_intent = or_null_str (do_intent d), di_user = uid,
       di_amount = do_amount d, di_currency = do_currency d, di_reason = or_null_str (do_reason d),
       di_status = or_str (do_status d) ''open'', di_due_by = seconds (do_due_by d), di_created = seconds (do_created d),
       di_resolved_at = (if closed then Some js else None) \<rparr>"

text \<open>ON CONFLICT (dispute_id) DO UPDATE: \<open>n\<close> is the row that was not inserted.\<close>

definition merge_dispute :: "bool \<Rightarrow> stripe_dispute \<Rightarrow> stripe_dispute \<Rightarrow> stripe_dispute" where
  "merge_dispute keepStatus n r = r
     \<lparr> di_charge := di_charge n, di_intent := first_some (di_intent n) (di_intent r), di_user := first_some (di_user n) (di_user r),
       di_amount := di_amount n, di_currency := di_currency n, di_reason := first_some (di_reason n) (di_reason r),
       di_status := (if keepStatus then di_status r else di_status n), di_due_by := first_some (di_due_by n) (di_due_by r),
       di_created := first_some (di_created n) (di_created r),
       di_resolved_at := first_some (di_resolved_at r) (di_resolved_at n) \<rparr>"

definition recordDispute :: "instant \<Rightarrow> dispute_object \<Rightarrow> string option \<Rightarrow> bool \<Rightarrow> bool \<Rightarrow> till \<Rightarrow> till" where
  "recordDispute js d uid closed keepStatus t =
     (let n = dispute_row js d uid closed
      in if find_dispute (do_id d) t = None then t\<lparr>disputes := disputes t @ [n]\<rparr>
         else disputes_update (upd_where (\<lambda>r. di_id r = do_id d) (merge_dispute keepStatus n)) t)"

section \<open>The block of an account\<close>

definition block_user :: "instant \<Rightarrow> string \<Rightarrow> user \<Rightarrow> user" where
  [row_defs]: "block_user now reason u = u\<lparr>u_sends_blocked_at := first_some (u_sends_blocked_at u) (Some now),
     u_sends_blocked_reason := first_some (u_sends_blocked_reason u) (Some reason), u_updated_at := now\<rparr>"

definition blockAccountSends :: "instant \<Rightarrow> string \<Rightarrow> string \<Rightarrow> db \<Rightarrow> db" where
  "blockAccountSends now uid reason = upd_user uid (block_user now reason)"

definition unblock_user :: "instant \<Rightarrow> user \<Rightarrow> user" where
  [row_defs]: "unblock_user now u = (if u_sends_blocked_reason u \<noteq> Some ''payment_disputed'' then u
     else u\<lparr>u_sends_blocked_at := None, u_sends_blocked_reason := None, u_updated_at := now\<rparr>)"

definition standing_dispute :: "string \<Rightarrow> string \<Rightarrow> till \<Rightarrow> bool" where
  "standing_dispute uid resolved t \<longleftrightarrow> list_ex (\<lambda>r. di_user r = Some uid \<and> di_id r \<noteq> resolved \<and>
     di_status r \<notin> NON_LOSS_DISPUTE_STATUSES) (disputes t)"

definition unblockAccountSends :: "instant \<Rightarrow> string \<Rightarrow> string \<Rightarrow> till \<Rightarrow> till" where
  "unblockAccountSends now uid resolved t =
     (if standing_dispute uid resolved t then t else with_db (upd_user uid (unblock_user now)) t)"

section \<open>The events of a dispute\<close>

datatype dispute_event_type = De_created | De_updated | De_funds_withdrawn | De_closed

fun dispute_event_text :: "dispute_event_type \<Rightarrow> string" where
  "dispute_event_text De_created = ''charge.dispute.created''"
| "dispute_event_text De_updated = ''charge.dispute.updated''"
| "dispute_event_text De_funds_withdrawn = ''charge.dispute.funds_withdrawn''"
| "dispute_event_text De_closed = ''charge.dispute.closed''"

definition status_of :: "dispute_object \<Rightarrow> string" where
  "status_of d = or_str (do_status d) []"

definition is_loss :: "string \<Rightarrow> bool" where
  "is_loss st \<longleftrightarrow> st \<notin> NON_LOSS_DISPUTE_STATUSES"

text \<open>
  What was known before the event: the stored row. \<open>recorded_only\<close> names why an event changes no effect:
  it came after the close, the dispute is a loss whose effects ran, or an inquiry stays one.
\<close>

definition loss_ran :: "stripe_dispute option \<Rightarrow> bool" where
  "loss_ran prior = (case prior of None \<Rightarrow> False | Some r \<Rightarrow> is_loss (di_status r) \<and> di_user r \<noteq> None)"

definition settled_before :: "dispute_event_type \<Rightarrow> stripe_dispute option \<Rightarrow> bool" where
  "settled_before ty prior \<longleftrightarrow> ty \<noteq> De_closed \<and> Option.bind prior di_resolved_at \<noteq> None"

definition recorded_only :: "dispute_event_type \<Rightarrow> dispute_object \<Rightarrow> stripe_dispute option \<Rightarrow> string option" where
  "recorded_only ty d prior =
     (if ty = De_closed then None
      else if settled_before ty prior then Some ''after_close''
      else if loss_ran prior then Some ''already_a_loss''
      else if ty \<in> {De_updated, De_funds_withdrawn} \<and> \<not> is_loss (status_of d) then Some ''still_an_inquiry''
      else None)"

definition keep_stored_status :: "dispute_event_type \<Rightarrow> dispute_object \<Rightarrow> stripe_dispute option \<Rightarrow> bool" where
  "keep_stored_status ty d prior \<longleftrightarrow> settled_before ty prior \<or> ty \<noteq> De_closed \<and> loss_ran prior \<and> \<not> is_loss (status_of d)"

definition mark_disputed :: "instant \<Rightarrow> string option \<Rightarrow> order \<Rightarrow> order" where
  [row_defs]: "mark_disputed now st x = x\<lparr>o_status := Ord_disputed,
     o_hold_previous_status := first_some (o_hold_previous_status x) (Some (o_status x)),
     o_held_at := first_some (o_held_at x) (Some now), o_hold_reason := Some ''payment_disputed'', o_dispute_status := st\<rparr>"

definition json_str :: "string option \<Rightarrow> json" where
  "json_str v = (case v of None \<Rightarrow> JNull | Some t \<Rightarrow> JStr t)"

definition code_of_status :: "dispute_object \<Rightarrow> string" where
  "code_of_status d = take 80 (''stripe_dispute_'' @
     map (\<lambda>c. if is_digit c \<or> 97 \<le> char_code c \<and> char_code c \<le> 122 \<or> c = CHR ''_'' then c else CHR ''_'')
       (lower_str (or_str (do_status d) ''unknown'')))"

definition resolve_created_alerts :: "dispute_object \<Rightarrow> string \<Rightarrow> till \<Rightarrow> till" where
  "resolve_created_alerts d oid t = with_db (resolve_alerts (code_of_status d) (\<lambda>a. al_order a = Some oid \<and>
     al_type a = ''stripe_dispute_created'' \<and>
     list_ex (\<lambda>e. al_source_event a = Some (se_id e) \<and> se_object e = do_id d) (stripe_events t))) t"

definition dispute_severity :: "bool \<Rightarrow> string option \<Rightarrow> alert_severity" where
  "dispute_severity closed st = (if closed then (if st = Some ''lost'' then Sev_critical
     else if st = Some ''won'' then Sev_info else Sev_warning) else Sev_warning)"

definition dispute_alert_type :: "bool \<Rightarrow> string" where
  "dispute_alert_type closed = (if closed then ''stripe_dispute_closed'' else ''stripe_dispute_created'')"

text \<open>A pack's part in a lost payment: its mail not yet printed waits, its lots are taken.\<close>

definition take_disputed_pack :: "instant \<Rightarrow> order \<Rightarrow> string \<Rightarrow> string \<Rightarrow> db \<Rightarrow> error + db" where
  "take_disputed_pack now x eventId disputeId s =
     (if o_type x \<noteq> Ot_letter_pack then Inr s
      else bindE (revokePackLots now x (Whole_pack Rc_payment_disputed (Some disputeId))
             (snd (holdMailFundedByOrder now x eventId ''funding_disputed'' s))) (\<lambda>(r, s1). Inr s1))"

definition dispute_effects :: "pay_world \<Rightarrow> string \<Rightarrow> dispute_event_type \<Rightarrow> dispute_object \<Rightarrow> order \<Rightarrow> till \<Rightarrow> error + till" where
  "dispute_effects w eventId ty d x t =
     (if is_loss (status_of d)
      then bindE (exec_db (take_disputed_pack (pw_now w) x eventId (do_id d)) t)
             (\<lambda>t1. Inr (with_db (blockAccountSends (pw_now w) (o_user x) ''payment_disputed'') t1))
      else if ty = De_closed \<and> status_of d \<in> FAVOURABLE_DISPUTE_STATUSES
      then bindE (if o_type x = Ot_letter_pack then exec_db (compensateDisputedPacks (pw_now w) x (do_id d)) t else Inr t)
             (\<lambda>t1. Inr (unblockAccountSends (pw_now w) (o_user x) (do_id d) t1))
      else Inr t)"

definition escalation_note :: "dispute_event_type \<Rightarrow> stripe_dispute option \<Rightarrow> json_object" where
  "escalation_note ty prior = (case prior of None \<Rightarrow> [] | Some r \<Rightarrow>
     if ty \<in> {De_updated, De_funds_withdrawn} \<and> take 8 (di_status r) = ''warning_''
     then [(''escalatedBy'', JStr (dispute_event_text ty))] else [])"

definition matched_dispute ::
  "pay_world \<Rightarrow> string \<Rightarrow> dispute_event_type \<Rightarrow> dispute_object \<Rightarrow> stripe_dispute option \<Rightarrow> order \<Rightarrow> till \<Rightarrow> error + till" where
  "matched_dispute w eventId ty d prior x t =
     (let closed = (ty = De_closed);
          t1 = with_db (\<lambda>s. snd (stopFundedMailBeforeFinancialReversal (pw_now w) x eventId ''payment_disputed'' s)) t
      in bindE (exec_db (update_order (pw_now w) (o_id x) (mark_disputed (pw_now w) (do_status d))) t1) (\<lambda>t2.
         bindE (dispute_effects w eventId ty d x (with_db (recordOrderEvent (o_id x) (dispute_event_text ty) (Some (o_status x))
                  (Some Ord_disputed) [(''disputeStatus'', json_str (do_status d))]) t2)) (\<lambda>t3.
         let t4 = (if closed then resolve_created_alerts d (o_id x) t3 else t3)
         in Inr (with_db (raise_alert (Some eventId) (Some (o_id x)) (dispute_alert_type closed)
              (dispute_severity closed (do_status d))
              ([(''disputeStatus'', json_str (do_status d)), (''reason'', json_str (or_null_str (do_reason d))),
                (''amountCents'', JInt (do_amount d)), (''currency'', JStr (do_currency d)),
                (''chargeReferencePresent'', JBool (or_null_str (do_charge d) \<noteq> None))] @ escalation_note ty prior)) t4))))"

text \<open>An event that changes no effect: the order shows the dispute's status unless an older one came.\<close>

definition note_dispute ::
  "pay_world \<Rightarrow> dispute_event_type \<Rightarrow> dispute_object \<Rightarrow> string \<Rightarrow> bool \<Rightarrow> order \<Rightarrow> till \<Rightarrow> error + till" where
  "note_dispute w ty d why keepStatus x t =
     bindE (if keepStatus then Inr t
            else exec_db (update_order (pw_now w) (o_id x) (\<lambda>y. y\<lparr>o_dispute_status := do_status d\<rparr>)) t)
       (\<lambda>t1. Inr (with_db (recordOrderEvent (o_id x) (dispute_event_text ty) (Some (o_status x)) (Some (o_status x))
          [(''disputeStatus'', json_str (do_status d)), (''recordedOnly'', JStr why)]) t1))"

definition unmatched_dispute ::
  "string \<Rightarrow> dispute_event_type \<Rightarrow> dispute_object \<Rightarrow> stripe_dispute option \<Rightarrow> till \<Rightarrow> till" where
  "unmatched_dispute eventId ty d prior t =
     (let t1 = upd_event eventId (\<lambda>e. e\<lparr>se_status := Ev_unmatched\<rparr>) t
      in case prior of
           Some r \<Rightarrow> if ty \<noteq> De_closed \<and> (is_loss (di_status r) \<or> \<not> is_loss (status_of d)) then t1
             else with_db (raise_alert (Some eventId) None ''stripe_money_event_unmatched'' Sev_critical
               [(''eventClass'', JStr ''dispute''), (''hasPaymentIntent'', JBool (or_null_str (do_intent d) \<noteq> None)),
                (''hasCharge'', JBool (or_null_str (do_charge d) \<noteq> None)),
                (''hasMetadataOrder'', JBool (or_null_str (do_metadata_order d) \<noteq> None))]) t1
         | None \<Rightarrow> with_db (raise_alert (Some eventId) None ''stripe_money_event_unmatched'' Sev_critical
               [(''eventClass'', JStr ''dispute''), (''hasPaymentIntent'', JBool (or_null_str (do_intent d) \<noteq> None)),
                (''hasCharge'', JBool (or_null_str (do_charge d) \<noteq> None)),
                (''hasMetadataOrder'', JBool (or_null_str (do_metadata_order d) \<noteq> None))]) t1)"

definition order_of_intent :: "string option \<Rightarrow> db \<Rightarrow> order option" where
  "order_of_intent intent s = (case or_null_str intent of None \<Rightarrow> None
     | Some i \<Rightarrow> List.find (\<lambda>x. o_stripe_payment_intent_id x = Some i) (orders s))"

definition note_references :: "string \<Rightarrow> string option \<Rightarrow> string option \<Rightarrow> string option \<Rightarrow> till \<Rightarrow> till" where
  "note_references eventId intent charge orderId = upd_event eventId (\<lambda>e. e\<lparr>se_intent := or_null_str intent,
     se_charge := or_null_str charge, se_metadata_order := or_null_str orderId\<rparr>)"

definition processDisputeEvent ::
  "pay_world \<Rightarrow> string \<Rightarrow> dispute_event_type \<Rightarrow> dispute_object \<Rightarrow> till \<Rightarrow> error + event_result \<times> till" where
  "processDisputeEvent w eventId ty d t =
     (case claimStripeEvent (pw_now w) eventId (dispute_event_text ty) (do_id d) t of
        (False, t0) \<Rightarrow> Inr (duplicate_event, t0)
      | (True, t0) \<Rightarrow>
          let t1 = note_references eventId (do_intent d) (do_charge d) (do_metadata_order d) t0;
              found = order_of_intent (do_intent d) (till_db t1);
              prior = find_dispute (do_id d) t1;
              keepStatus = keep_stored_status ty d prior;
              t2 = recordDispute (pw_js w) d (map_option o_user found) (ty = De_closed) keepStatus t1
          in case found of
               None \<Rightarrow> Inr (unmatched_event, unmatched_dispute eventId ty d prior t2)
             | Some x \<Rightarrow>
                 bindE (case recorded_only ty d prior of
                          Some why \<Rightarrow> note_dispute w ty d why keepStatus x (bind_event eventId (o_id x) t2)
                        | None \<Rightarrow> matched_dispute w eventId ty d prior x (bind_event eventId (o_id x) t2))
                   (\<lambda>t3. Inr (unmatched_event, t3)))"

section \<open>Disputes recorded before an order matched\<close>

definition is_dispute_type :: "string \<Rightarrow> bool" where
  "is_dispute_type ty \<longleftrightarrow> take 15 ty = ''charge.dispute.''"

text \<open>The Map from a dispute to its last event, its keys in the order they first came.\<close>

definition latest_event :: "stripe_event list \<Rightarrow> string \<Rightarrow> string" where
  "latest_event evs did = (case rev (filter (\<lambda>e. is_dispute_type (se_type e) \<and> se_object e = did) evs) of
     [] \<Rightarrow> [] | e # es \<Rightarrow> se_id e)"

definition disputes_named :: "stripe_event list \<Rightarrow> string list" where
  "disputes_named evs = remdups (map se_object (filter (\<lambda>e. is_dispute_type (se_type e) \<and> se_object e \<noteq> []) evs))"

fun insert_sorted :: "(string \<Rightarrow> string \<Rightarrow> bool) \<Rightarrow> stripe_dispute \<Rightarrow> stripe_dispute list \<Rightarrow> stripe_dispute list" where
  "insert_sorted le r [] = [r]"
| "insert_sorted le r (y # ys) = (if le (di_id r) (di_id y) then r # y # ys else y # insert_sorted le r ys)"

definition sort_disputes :: "(string \<Rightarrow> string \<Rightarrow> bool) \<Rightarrow> stripe_dispute list \<Rightarrow> stripe_dispute list" where
  "sort_disputes le rs = foldr (insert_sorted le) rs []"

definition recovered_alert :: "stripe_event list \<Rightarrow> order \<Rightarrow> stripe_dispute \<Rightarrow> db \<Rightarrow> db" where
  "recovered_alert evs x r =
     (let closed = (di_resolved_at r \<noteq> None)
      in raise_alert (Some (latest_event evs (di_id r))) (Some (o_id x)) (dispute_alert_type closed)
           (dispute_severity closed (Some (di_status r)))
           [(''disputeStatus'', JStr (di_status r)), (''reason'', json_str (di_reason r)),
            (''amountCents'', JInt (di_amount r)), (''currency'', JStr (di_currency r)),
            (''chargeReferencePresent'', JBool (di_charge r \<noteq> [])), (''matchedAfterCheckout'', JBool True),
            (''orderFunded'', JBool (o_status x \<noteq> Ord_checkout_pending))])"

fun take_recovered :: "instant \<Rightarrow> stripe_event list \<Rightarrow> order \<Rightarrow> stripe_dispute list \<Rightarrow> db \<Rightarrow> error + db" where
  "take_recovered now evs x [] s = Inr s"
| "take_recovered now evs x (r # rs) s =
     bindE (take_disputed_pack now x (latest_event evs (di_id r)) (di_id r) s) (take_recovered now evs x rs)"

definition recovered_effects ::
  "instant \<Rightarrow> stripe_event list \<Rightarrow> order \<Rightarrow> stripe_dispute list \<Rightarrow> db \<Rightarrow> error + db" where
  "recovered_effects now evs x ds s =
     (if o_status x = Ord_checkout_pending then Inr s
      else take_recovered now evs x (filter (\<lambda>r. is_loss (di_status r)) ds)
        (fold (\<lambda>r s. snd (stopFundedMailBeforeFinancialReversal now x (latest_event evs (di_id r)) ''payment_disputed'' s)) ds s))"

definition resolve_others :: "instant \<Rightarrow> string list \<Rightarrow> string \<Rightarrow> till \<Rightarrow> till" where
  "resolve_others now ours oid t =
     (let mine = (\<lambda>e. se_status e = Ev_unmatched \<and> is_dispute_type (se_type e) \<and> se_object e \<in> set ours);
          ids = map se_id (filter mine (stripe_events t));
          t1 = stripe_events_update (upd_where mine (\<lambda>e. e\<lparr>se_order := Some oid, se_status := Ev_processed,
                 se_resolved_at := Some now\<rparr>)) t
      in with_db (resolve_alerts ''matched_later_checkout'' (\<lambda>a. al_type a = ''stripe_money_event_unmatched'' \<and>
           (case al_source_event a of None \<Rightarrow> False | Some e \<Rightarrow> e \<in> set ids))) t1)"

definition applyRecoveredDisputes ::
  "pay_world \<Rightarrow> order \<Rightarrow> stripe_event list \<Rightarrow> till \<Rightarrow> error + (string list \<times> bool) \<times> till" where
  "applyRecoveredDisputes w x evs t =
     (let ours = disputes_named evs
      in if ours = [] then Inr (([], False), t)
         else let read = filter (\<lambda>r. di_id r \<in> set ours) (disputes t);
                  t1 = resolve_others (pw_now w) ours (o_id x) t;
                  ds = sort_disputes (pw_collate w) (filter (\<lambda>r. di_user r = None) read);
                  losses = filter (\<lambda>r. is_loss (di_status r)) ds
              in if ds = [] then Inr (([], False), t1)
                 else let t2 = disputes_update (upd_where (\<lambda>r. di_id r \<in> di_id ` set ds \<and> di_user r = None)
                               (\<lambda>r. r\<lparr>di_user := Some (o_user x)\<rparr>)) t1;
                          shown = hd (losses @ ds)
                      in bindE (exec_db (update_order (pw_now w) (o_id x) (\<lambda>y. y\<lparr>o_dispute_status := Some (di_status shown)\<rparr>)) t2) (\<lambda>t3.
                         bindE (exec_db (recovered_effects (pw_now w) evs x ds) t3) (\<lambda>t4.
                         let t5 = (if losses = [] then t4
                                   else with_db (blockAccountSends (pw_now w) (o_user x) ''payment_disputed'') t4)
                         in Inr ((map di_id ds, losses \<noteq> []), with_db (fold (recovered_alert evs x) ds) t5))))"

end
