(* ===== verification/Payments.thy ===== *)
theory Payments
  imports Disputes
begin

text \<open>
  Orders and payments (src/services/commerceService.ts): opening a checkout for a pack, what becomes of an
  order whose checkout cannot be opened, the events of a Stripe Checkout Session, the fulfilment of a paid
  order, the adoption of a session older than the orders table, and the repair of a missed grant.
  Stripe's answer to opening a session is a parameter (\<open>session_answer\<close>). A savepoint is the state the
  inner function got: an \<open>Inl\<close> inside it leaves that state and is turned into a row.
\<close>

section \<open>Checkout Sessions\<close>

record checkout_session =
  cs_id :: string
  cs_payment_status :: string
  cs_status :: "string option"
  cs_amount_total :: "int option"
  cs_currency :: "string option"
  cs_intent :: "string option"
  cs_url :: "string option"
  cs_metadata :: "(string \<times> string) list"
  cs_client_reference_id :: "string option"
  cs_customer_email :: "string option"
  cs_details_email :: "string option"
  cs_expires_at :: int

definition or_opt :: "string option \<Rightarrow> string option \<Rightarrow> string option" where
  "or_opt a b = (case or_null_str a of None \<Rightarrow> or_null_str b | Some v \<Rightarrow> Some v)"

definition meta :: "checkout_session \<Rightarrow> string \<Rightarrow> string option" where
  "meta cs k = map_of (cs_metadata cs) k"

definition paymentIntentId :: "checkout_session \<Rightarrow> string option" where
  "paymentIntentId cs = or_null_str (cs_intent cs)"

text \<open>The order the session names, or else the one it was attached to.\<close>

definition order_of_session :: "string \<Rightarrow> db \<Rightarrow> order option" where
  "order_of_session sid s = List.find (\<lambda>x. o_stripe_checkout_session_id x = Some sid) (orders s)"

definition findCheckoutOrder :: "checkout_session \<Rightarrow> db \<Rightarrow> order option" where
  "findCheckoutOrder cs s = (case or_opt (meta cs ''orderId'') (cs_client_reference_id cs) of
     None \<Rightarrow> order_of_session (cs_id cs) s
   | Some oid \<Rightarrow> (case find_order oid s of Some x \<Rightarrow> Some x | None \<Rightarrow> order_of_session (cs_id cs) s))"

section \<open>Opening a checkout\<close>

text \<open>The product a checkout sells, resolved against the price catalog: an amount that is not positive is unresolved.\<close>

record commerce_product =
  cm_code :: string
  cm_name :: string
  cm_description :: string
  cm_mail_type :: "string option"
  cm_credits :: "int option"
  cm_amount :: int
  cm_currency :: string
  cm_price_id :: string

definition productSnapshot :: "commerce_product \<Rightarrow> json_object" where
  "productSnapshot p = [(''name'', JStr (cm_name p)), (''description'', JStr (cm_description p))] @
     (case cm_mail_type p of None \<Rightarrow> [] | Some m \<Rightarrow> [(''mailType'', JStr m)])"

definition assertConfiguredAmount :: "commerce_product \<Rightarrow> error option" where
  "assertConfiguredAmount p = (if cm_amount p \<le> 0
     then Some (Coded_error ''PACK_AMOUNT_NOT_CONFIGURED'' (''Pack amount is not configured for '' @ cm_code p)) else None)"

definition assertAccountMayPurchase :: "string \<Rightarrow> db \<Rightarrow> error option" where
  "assertAccountMayPurchase uid s =
     (let refused = Some (Coded_error ''ACCOUNT_SENDS_BLOCKED'' ''Purchasing is disabled on this account'')
      in case find_user uid s of
           None \<Rightarrow> refused
         | Some u \<Rightarrow> if u_erased_at u \<noteq> None \<or> or_null_str (u_sends_blocked_reason u) \<noteq> None then refused else None)"

definition new_order :: "instant \<Rightarrow> string \<Rightarrow> string \<Rightarrow> order_type \<Rightarrow> string option \<Rightarrow> commerce_product \<Rightarrow>
    json_object \<Rightarrow> int option \<Rightarrow> string \<Rightarrow> instant option \<Rightarrow> order" where
  "new_order now oid uid type did p snapshot credits key expires =
     \<lparr> o_id = oid, o_user = uid, o_type = type, o_draft_id = did, o_letter_id = None, o_product_code = cm_code p,
       o_product_snapshot = snapshot, o_credits = credits, o_amount_cents = cm_amount p, o_amount_known = True,
       o_currency = cm_currency p, o_status = Ord_checkout_pending, o_idempotency_key = key, o_checkout_url = None,
       o_checkout_expires_at = expires, o_stripe_checkout_session_id = None, o_stripe_payment_intent_id = None,
       o_stripe_refund_id = None, o_refund_attempts = 0, o_credits_refunded = 0, o_amount_refunded_cents = 0,
       o_hold_previous_status = None, o_held_at = None, o_hold_reason = None, o_dispute_status = None, o_paid_at = None,
       o_fulfillment_started_at = None, o_fulfilled_at = None, o_completed_at = None, o_payment_failed_at = None,
       o_refund_pending_at = None, o_refunded_at = None, o_last_error_code = None, o_last_error = None,
       o_created_at = now, o_updated_at = now \<rparr>"

text \<open>What Stripe answered to a request for a session, with the class of its failure.\<close>

record session_answer =
  sa_success :: bool
  sa_session :: "string option"
  sa_url :: "string option"
  sa_expires_at :: "instant option"
  sa_error :: "string option"
  sa_error_code :: "string option"
  sa_class :: "string option"

text \<open>The guards of a pack's checkout, before any row: \<open>p\<close> is what \<open>getPackProductConfig\<close> answers.\<close>

definition pack_checkout_refusal :: "pay_world \<Rightarrow> string \<Rightarrow> string \<Rightarrow> commerce_product option \<Rightarrow> db \<Rightarrow> error option" where
  "pack_checkout_refusal w uid productId p s =
     (case refuse_if (\<not> isBetaAccessAllowed uid (pw_env w)) ''BETA_ACCESS_DENIED'' BETA_ACCESS_MESSAGE of
        Some e \<Rightarrow> Some e
      | None \<Rightarrow> (case p of
          None \<Rightarrow> Some (Error (''Invalid product ID: '' @ productId))
        | Some q \<Rightarrow> first_refusal
            [if cm_price_id q = [] then Some (Error (''Price ID not configured for '' @ productId)) else None,
             assertConfiguredAmount q,
             assertChargeWithinDailyCap (pw_env w) (pw_now w) uid (cm_amount q) s]))"

definition open_pack_order :: "instant \<Rightarrow> string \<Rightarrow> string \<Rightarrow> commerce_product \<Rightarrow> db \<Rightarrow> error + order \<times> db" where
  "open_pack_order now oid uid p s =
     (let x = new_order now oid uid Ot_letter_pack None p (productSnapshot p) (cm_credits p) (''pack-checkout:'' @ oid) None
      in bindE (insert_order x s) (\<lambda>s1. case assertAccountMayPurchase uid s1 of Some e \<Rightarrow> Inl e | None \<Rightarrow> Inr (x, s1)))"

definition note_failure :: "string \<Rightarrow> string \<Rightarrow> order \<Rightarrow> order" where
  [row_defs]: "note_failure code message x = x\<lparr>o_last_error_code := Some code, o_last_error := Some message\<rparr>"

definition markCheckoutCreationFailure ::
  "instant \<Rightarrow> string \<Rightarrow> string \<Rightarrow> string option \<Rightarrow> bool \<Rightarrow> db \<Rightarrow> error + db" where
  "markCheckoutCreationFailure now oid message errorCode terminal s =
     (let code = (case errorCode of None \<Rightarrow> ''CHECKOUT_CREATION_FAILED'' | Some c \<Rightarrow> c)
      in if \<not> terminal then update_order now oid (note_failure code message) s
         else case find_order oid s of
           None \<Rightarrow> Inr s
         | Some x \<Rightarrow> if o_status x \<noteq> Ord_checkout_pending then Inr s
             else bindE (update_order now oid (\<lambda>y. (note_failure code message y)\<lparr>o_status := Ord_cancelled\<rparr>) s)
               (\<lambda>s1. Inr (recordOrderEvent oid ''checkout_creation_cancelled'' (Some Ord_checkout_pending)
                  (Some Ord_cancelled) [(''errorCode'', JStr code)] s1)))"

definition attach_session :: "string \<Rightarrow> string option \<Rightarrow> instant option \<Rightarrow> order \<Rightarrow> order" where
  [row_defs]: "attach_session sid url expires x = x\<lparr>o_stripe_checkout_session_id := Some sid,
     o_checkout_url := first_some (o_checkout_url x) (or_null_str url),
     o_checkout_expires_at := first_some expires (o_checkout_expires_at x),
     o_last_error_code := None, o_last_error := None\<rparr>"

definition attachCheckout ::
  "instant \<Rightarrow> string \<Rightarrow> string \<Rightarrow> string option \<Rightarrow> instant option \<Rightarrow> db \<Rightarrow> error + order \<times> db" where
  "attachCheckout now oid sid url expires s = (case find_order oid s of
     None \<Rightarrow> Inl (Error (''Commerce order not found: '' @ oid))
   | Some x \<Rightarrow> bindE (update_order now oid (attach_session sid url expires) s)
       (\<lambda>s1. Inr (touched now (attach_session sid url expires) x,
          recordOrderEvent oid ''checkout.session.created'' (Some (o_status x)) (Some (o_status x))
            [(''sessionId'', JStr sid)] s1)))"

text \<open>
  \<open>createPackCheckout\<close>: its transactions one after another; what it answers, or throws, and the store it
  leaves, since a failed session leaves the order it opened.
\<close>

definition session_error :: "session_answer \<Rightarrow> string \<Rightarrow> error" where
  "session_error a fallback = (case sa_error_code a of
     None \<Rightarrow> Error (or_str (sa_error a) fallback) | Some c \<Rightarrow> Coded_error c (or_str (sa_error a) fallback))"

definition failCheckoutCreation :: "instant \<Rightarrow> string \<Rightarrow> session_answer \<Rightarrow> string \<Rightarrow> db \<Rightarrow> error + error \<times> db" where
  "failCheckoutCreation now oid a fallback s =
     bindE (markCheckoutCreationFailure now oid (or_str (sa_error a) fallback) (sa_error_code a)
              (isTerminalDiagnosticClass (case sa_class a of None \<Rightarrow> ''provider_error'' | Some c \<Rightarrow> c)) s)
       (\<lambda>s1. Inr (session_error a fallback, s1))"

definition createPackCheckout ::
  "pay_world \<Rightarrow> string \<Rightarrow> string \<Rightarrow> string \<Rightarrow> commerce_product option \<Rightarrow> session_answer \<Rightarrow> db \<Rightarrow> (error + order) \<times> db" where
  "createPackCheckout w oid uid productId p answer s =
     (case pack_checkout_refusal w uid productId p s of
        Some e \<Rightarrow> (Inl e, s)
      | None \<Rightarrow> (case p of None \<Rightarrow> (Inl (Error []), s) | Some q \<Rightarrow>
          (case open_pack_order (pw_now w) oid uid q s of
             Inl e \<Rightarrow> (Inl e, s)
           | Inr (x, s1) \<Rightarrow>
               (case (sa_success answer, or_null_str (sa_session answer)) of
                  (True, Some sid) \<Rightarrow>
                    (case attachCheckout (pw_now w) oid sid (sa_url answer) (sa_expires_at answer) s1 of
                       Inl e \<Rightarrow> (Inl e, s1) | Inr (y, s2) \<Rightarrow> (Inr y, s2))
                | _ \<Rightarrow> (case failCheckoutCreation (pw_now w) oid answer ''Failed to create checkout session'' s1 of
                     Inl e \<Rightarrow> (Inl e, s1) | Inr (e, s2) \<Rightarrow> (Inl e, s2))))))"

text \<open>The sweep's cancel of checkouts whose session was never made.\<close>

definition orphaned :: "instant \<Rightarrow> order \<Rightarrow> bool" where
  "orphaned now x \<longleftrightarrow> o_status x = Ord_checkout_pending \<and> o_stripe_checkout_session_id x = None \<and>
     (case o_checkout_expires_at x of Some e \<Rightarrow> e \<le> now | None \<Rightarrow> o_updated_at x \<le> now - day_ms)"

definition cancel_orphans :: "instant \<Rightarrow> db \<Rightarrow> nat \<times> db" where
  "cancel_orphans now s = (length (filter (orphaned now) (orders s)),
     orders_update (upd_where (orphaned now) (\<lambda>x. x\<lparr>o_status := Ord_cancelled, o_updated_at := now\<rparr>)) s)"

section \<open>A session older than the orders table\<close>

text \<open>Names and descriptions of the packs, for the snapshot.\<close>

definition pack_descriptions :: "(string \<times> string) list" where
  "pack_descriptions = [(''credit-pack-4'', ''Two prepaid physical letters or postcards''),
     (''credit-pack-10'', ''Five prepaid physical letters or postcards''),
     (''credit-pack-100'', ''Fifty prepaid physical letters or postcards'')]"

definition legacy_product :: "environment \<Rightarrow> pack_product \<Rightarrow> commerce_product" where
  "legacy_product env p = \<lparr> cm_code = pp_code p, cm_name = or_str (pack_display_name (pp_code p)) [],
     cm_description = or_str (map_of pack_descriptions (pp_code p)) [], cm_mail_type = None, cm_credits = Some (pp_credits p),
     cm_amount = pp_expectedAmountCents p, cm_currency = packCurrency env, cm_price_id = [] \<rparr>"

definition legacy_definition :: "checkout_session \<Rightarrow> pack_product option" where
  "legacy_definition cs = (case or_opt (or_opt (meta cs ''productCode'') (meta cs ''productId'')) (meta cs ''product_id'') of
     None \<Rightarrow> None | Some code \<Rightarrow> List.find (\<lambda>p. pp_code p = code) PACK_PRODUCTS)"

definition legacy_order :: "instant \<Rightarrow> environment \<Rightarrow> checkout_session \<Rightarrow> string \<Rightarrow> pack_product \<Rightarrow> order" where
  "legacy_order now env cs uid p =
     (new_order now (''stripe-'' @ cs_id cs) uid Ot_letter_pack None (legacy_product env p)
        (productSnapshot (legacy_product env p) @ [(''migratedFromLegacyCheckout'', JBool True)]) (Some (pp_credits p))
        (''legacy-checkout:'' @ cs_id cs) (Some (cs_expires_at cs * 1000)))
      \<lparr>o_stripe_checkout_session_id := Some (cs_id cs), o_stripe_payment_intent_id := paymentIntentId cs\<rparr>"

definition createLegacyPackOrder :: "instant \<Rightarrow> environment \<Rightarrow> checkout_session \<Rightarrow> db \<Rightarrow> error + order option \<times> db" where
  "createLegacyPackOrder now env cs s =
     (case (or_opt (meta cs ''userId'') (meta cs ''user_id''), legacy_definition cs) of
        (Some uid, Some p) \<Rightarrow>
          if cs_amount_total cs \<noteq> Some (pp_expectedAmountCents p) \<or> normalizedCurrency (cs_currency cs) [] \<noteq> packCurrency env
          then Inr (None, s)
          else let x = legacy_order now env cs uid p
               in bindE (insert_order x s) (\<lambda>s1. Inr (Some x, recordOrderEvent (o_id x) ''order.created_from_legacy_checkout''
                    None (Some Ord_checkout_pending) [] s1))
      | _ \<Rightarrow> Inr (None, s))"

section \<open>A paid order\<close>

definition PURCHASE_CREDIT_EXPIRY_DAYS :: int where "PURCHASE_CREDIT_EXPIRY_DAYS = 730"

definition pack_grant :: "order \<Rightarrow> string option \<Rightarrow> string \<Rightarrow> string option \<Rightarrow> add_credits_params" where
  "pack_grant x email sid intent =
     \<lparr> ac_user = o_user x, ac_email = email, ac_credits = (case o_credits x of None \<Rightarrow> 0 | Some n \<Rightarrow> n),
       ac_source_type = Src_purchase, ac_source_reference_id = Some (o_id x), ac_source_order_id = Some (o_id x),
       ac_source_metadata = Some [(''stripe_session_id'', JStr sid), (''stripe_payment_intent_id'', json_str intent),
         (''product_code'', JStr (o_product_code x)), (''amount_cents'', JInt (o_amount_cents x)),
         (''currency'', JStr (o_currency x))],
       ac_expiration_policy = None, ac_expires_at = None, ac_expiration_days = Some PURCHASE_CREDIT_EXPIRY_DAYS,
       ac_description = Some (packPurchaseLine x) \<rparr>"

definition pack_gifts :: "order \<Rightarrow> pack_product \<Rightarrow> grant_gift_params" where
  "pack_gifts x p = \<lparr> gp_user = o_user x, gp_quantity = int (pp_giftLetters p), gp_generations = pp_giftGenerationsRemaining p,
     gp_source = Gs_pack_purchase, gp_source_reference_id = o_id x, gp_source_order_id = Some (o_id x),
     gp_source_campaign_id = None, gp_parent_code = None, gp_card_campaign_id = None, gp_expires_at = None \<rparr>"

definition grant_pack_gifts :: "pay_world \<Rightarrow> order \<Rightarrow> db \<Rightarrow> error + db" where
  "grant_pack_gifts w x s = (case List.find (\<lambda>p. pp_code p = o_product_code x) PACK_PRODUCTS of
     None \<Rightarrow> Inr s
   | Some p \<Rightarrow> if 0 < pp_giftLetters p \<and> isGiftLettersEnabled (pw_env w)
       then bindE (grantGiftLettersWithClient (pw_env w) (pw_now w) (pw_js w) (pack_gifts x p) s) (\<lambda>(gs, s1). Inr s1)
       else Inr s)"

definition fulfil_pack_order :: "instant \<Rightarrow> order \<Rightarrow> order" where
  [row_defs]: "fulfil_pack_order now x = x\<lparr>o_status := Ord_fulfilled, o_fulfilled_at := Some now, o_completed_at := Some now\<rparr>"

definition fulfil_pack :: "pay_world \<Rightarrow> order \<Rightarrow> checkout_session \<Rightarrow> till \<Rightarrow> error + order_status \<times> till" where
  "fulfil_pack w x cs t =
     bindE (run_db (addCreditsToLedgerWithClient (pw_now w) (pw_js w)
              (pack_grant x (or_opt (cs_customer_email cs) (cs_details_email cs)) (cs_id cs) (paymentIntentId cs))) t) (\<lambda>(r, t1).
     bindE (grantPurchaseImageEntitlement (pw_env w) (o_user x) ''letter_pack'' (o_id x)
              (packImageGrant (case o_credits x of None \<Rightarrow> 0 | Some n \<Rightarrow> n) (pw_env w)) t1) (\<lambda>t2.
     bindE (exec_db (grant_pack_gifts w x) t2) (\<lambda>t3.
     bindE (exec_db (update_order (pw_now w) (o_id x) (fulfil_pack_order (pw_now w))) t3) (\<lambda>t4.
     Inr (Ord_fulfilled, with_db (recordOrderEvent (o_id x) ''letter_pack.granted'' (Some Ord_paid) (Some Ord_fulfilled) []) t4)))))"

text \<open>The mail of a Pay and Send order. A snapshot's mail type is one of the two, letter where it is absent.\<close>

definition snapshot_mail_type :: "order \<Rightarrow> mail_type" where
  "snapshot_mail_type x = (if map_of (o_product_snapshot x) ''mailType'' = Some (JStr ''postcard'') then Mt_postcard else Mt_letter)"

definition jit_send :: "order \<Rightarrow> send_params" where
  "jit_send x = \<lparr> sp_draft = or_str (o_draft_id x) [], sp_user = o_user x, sp_mailType = snapshot_mail_type x,
     sp_funding = Jit_order (o_id x), sp_allowDuplicate = False, sp_contentVersion = None \<rparr>"

definition error_class :: "error \<Rightarrow> string \<Rightarrow> string" where
  "error_class e fallback = (case carriedDiagnosticClass e of Some c \<Rightarrow> c | None \<Rightarrow> classifyDiagnosticError e fallback)"

definition mail_jit_order :: "pay_world \<Rightarrow> order \<Rightarrow> till \<Rightarrow> error + send_result \<times> till" where
  "mail_jit_order w x t =
     bindE (run_db (createMailOrderFromDraftWithClient (pw_send w) (jit_send x)) t) (\<lambda>(sent, t1).
     bindE (grantPurchaseImageEntitlement (pw_env w) (o_user x) ''jit_order'' (o_id x)
              (integerSetting ''IMAGE_ENTITLEMENTS_PER_JIT_ORDER'' 2 (pw_env w)) t1) (\<lambda>t2. Inr (sent, t2)))"

definition recordMissedSchedule :: "string \<Rightarrow> (string \<times> string) option \<Rightarrow> db \<Rightarrow> db" where
  "recordMissedSchedule oid missed s = (case missed of None \<Rightarrow> s
     | Some (arriveBy, mailOn) \<Rightarrow> recordOrderEvent oid ''jit.schedule_missed'' None None
         [(''arriveBy'', JStr arriveBy), (''mailOn'', JStr mailOn)] s)"

definition to_refund :: "instant \<Rightarrow> string \<Rightarrow> string \<Rightarrow> order \<Rightarrow> order" where
  [row_defs]: "to_refund now code message x = x\<lparr>o_status := Ord_refund_pending, o_refund_pending_at := Some now,
     o_last_error_code := Some code, o_last_error := Some message\<rparr>"

text \<open>Both fulfilments, the webhook's and the recovery's, differ in the events and the code they write.\<close>

record fulfilment_texts =
  ft_queued :: string
  ft_rejected :: string
  ft_code :: string

definition webhook_texts :: fulfilment_texts where
  "webhook_texts = \<lparr> ft_queued = ''jit.fulfillment_queued'', ft_rejected = ''jit.fulfillment_rejected'',
     ft_code = ''JIT_FULFILLMENT_REJECTED'' \<rparr>"

definition recovery_texts :: fulfilment_texts where
  "recovery_texts = \<lparr> ft_queued = ''maintenance.fulfillment_recovered'', ft_rejected = ''maintenance.fulfillment_failed'',
     ft_code = ''RECOVERY_FAILED'' \<rparr>"

definition fulfil_jit :: "pay_world \<Rightarrow> fulfilment_texts \<Rightarrow> order \<Rightarrow> till \<Rightarrow> error + order_status \<times> till" where
  "fulfil_jit w texts x t = (case mail_jit_order w x t of
     Inr (sent, t1) \<Rightarrow> Inr (Ord_fulfillment_pending,
       with_db (\<lambda>s. recordMissedSchedule (o_id x) (sr_scheduleMissed sent)
         (recordOrderEvent (o_id x) (ft_queued texts) (Some Ord_paid) (Some Ord_fulfillment_pending) [] s)) t1)
   | Inl e \<Rightarrow>
       bindE (exec_db (update_order (pw_now w) (o_id x)
                (to_refund (pw_now w) (ft_code texts) (error_class e ''database_error''))) t)
         (\<lambda>t1. Inr (Ord_refund_pending, with_db (recordOrderEvent (o_id x) (ft_rejected texts) (Some Ord_paid)
            (Some Ord_refund_pending) [(''errorClass'', JStr (error_class e ''database_error''))]) t1)))"

definition note_session :: "checkout_session \<Rightarrow> order \<Rightarrow> order" where
  [row_defs]: "note_session cs x = x\<lparr>o_stripe_checkout_session_id := first_some (o_stripe_checkout_session_id x) (Some (cs_id cs)),
     o_stripe_payment_intent_id := first_some (o_stripe_payment_intent_id x) (paymentIntentId cs),
     o_checkout_url := first_some (o_checkout_url x) (or_null_str (cs_url cs))\<rparr>"

definition mark_paid :: "instant \<Rightarrow> string option \<Rightarrow> order \<Rightarrow> order" where
  [row_defs]: "mark_paid now intent x = x\<lparr>o_status := Ord_paid, o_paid_at := first_some (o_paid_at x) (Some now),
     o_stripe_payment_intent_id := first_some (o_stripe_payment_intent_id x) intent,
     o_last_error_code := None, o_last_error := None\<rparr>"

definition paid_as_ordered :: "order \<Rightarrow> checkout_session \<Rightarrow> bool" where
  "paid_as_ordered x cs \<longleftrightarrow> (case cs_amount_total cs of None \<Rightarrow> 0 | Some n \<Rightarrow> n) = o_amount_cents x \<and>
     normalizedCurrency (cs_currency cs) [] = normalizedCurrency (Some (o_currency x)) []"

definition mismatch_text :: "order \<Rightarrow> checkout_session \<Rightarrow> string" where
  "mismatch_text x cs = ''Expected '' @ show_int (o_amount_cents x) @ '' '' @ o_currency x @ ''; received '' @
     show_int (case cs_amount_total cs of None \<Rightarrow> 0 | Some n \<Rightarrow> n) @ '' '' @ normalizedCurrency (cs_currency cs) []"

definition transitionPaidCheckout ::
  "pay_world \<Rightarrow> order \<Rightarrow> checkout_session \<Rightarrow> string \<Rightarrow> till \<Rightarrow> error + order_status \<times> till" where
  "transitionPaidCheckout w x cs eventType t =
     bindE (exec_db (update_order (pw_now w) (o_id x) (note_session cs)) t) (\<lambda>t1.
     if cs_payment_status cs \<noteq> ''paid'' then Inr (o_status x, t1)
     else if o_status x \<in> set FUNDED_OR_REVERSED_ORDER_STATUSES then Inr (o_status x, t1)
     else if \<not> paid_as_ordered x cs
     then bindE (exec_db (update_order (pw_now w) (o_id x)
                   (to_refund (pw_now w) ''PAYMENT_AMOUNT_MISMATCH'' (mismatch_text x cs))) t1)
            (\<lambda>t2. Inr (Ord_refund_pending, with_db (recordOrderEvent (o_id x) eventType (Some (o_status x))
               (Some Ord_refund_pending) [(''reason'', JStr ''payment_amount_mismatch'')]) t2))
     else bindE (exec_db (update_order (pw_now w) (o_id x) (mark_paid (pw_now w) (paymentIntentId cs))) t1) (\<lambda>t2.
            let t3 = with_db (recordOrderEvent (o_id x) eventType (Some (o_status x)) (Some Ord_paid) []) t2
            in if o_type x = Ot_letter_pack then fulfil_pack w x cs t3 else fulfil_jit w webhook_texts x t3))"

section \<open>Money that arrived before its order\<close>

definition waiting_money :: "string option \<Rightarrow> string \<Rightarrow> string option \<Rightarrow> till \<Rightarrow> stripe_event list" where
  "waiting_money intent oid settledIntent t = sort_key se_processed_at (filter (\<lambda>e. se_status e = Ev_unmatched \<and>
     (intent \<noteq> None \<and> se_intent e = intent \<or> se_metadata_order e = Some oid) \<and>
     (\<not> is_dispute_type (se_type e) \<or> list_ex (\<lambda>d. di_id d = se_object e \<and> di_intent d \<noteq> None \<and> di_intent d = settledIntent)
        (disputes t))) (stripe_events t))"

definition recover_order :: "instant \<Rightarrow> bool \<Rightarrow> checkout_session \<Rightarrow> order \<Rightarrow> order" where
  [row_defs]: "recover_order now disputed cs x = x
     \<lparr> o_stripe_checkout_session_id := first_some (o_stripe_checkout_session_id x) (Some (cs_id cs)),
       o_stripe_payment_intent_id := first_some (o_stripe_payment_intent_id x) (paymentIntentId cs),
       o_status := (if disputed then Ord_disputed else Ord_refund_pending),
       o_refund_pending_at := (if disputed then o_refund_pending_at x else first_some (o_refund_pending_at x) (Some now)),
       o_hold_previous_status := (if disputed then first_some (o_hold_previous_status x) (Some (o_status x)) else o_hold_previous_status x),
       o_held_at := (if disputed then first_some (o_held_at x) (Some now) else o_held_at x),
       o_hold_reason := (if disputed then Some ''payment_disputed'' else o_hold_reason x),
       o_last_error_code := (if o_last_error_code x = Some ''PAYMENT_AMOUNT_MISMATCH'' then o_last_error_code x
         else Some ''UNMATCHED_MONEY_EVENT_RECOVERED''),
       o_last_error := (if o_last_error_code x = Some ''PAYMENT_AMOUNT_MISMATCH'' then o_last_error x
         else Some ''Money arrived for a session this order had not recorded'') \<rparr>"

definition match_events :: "instant \<Rightarrow> string list \<Rightarrow> string \<Rightarrow> till \<Rightarrow> till" where
  "match_events now ids oid t = with_db (resolve_alerts ''matched_later_checkout''
       (\<lambda>a. case al_source_event a of None \<Rightarrow> False | Some e \<Rightarrow> e \<in> set ids))
     (stripe_events_update (upd_where (\<lambda>e. se_id e \<in> set ids) (\<lambda>e. e\<lparr>se_order := Some oid, se_status := Ev_processed,
        se_resolved_at := Some now\<rparr>)) t)"

definition recover_money ::
  "pay_world \<Rightarrow> order \<Rightarrow> string option \<Rightarrow> checkout_session \<Rightarrow> stripe_event list \<Rightarrow> till \<Rightarrow> error + event_result \<times> till" where
  "recover_money w x committedIntent cs evs t =
     (let disputed = list_ex (\<lambda>e. is_dispute_type (se_type e)) evs;
          blocked = (if disputed then Ord_disputed else Ord_refund_pending)
      in bindE (exec_db (update_order (pw_now w) (o_id x) (recover_order (pw_now w) disputed cs)) t) (\<lambda>t1.
         let t2 = match_events (pw_now w) (map se_id evs) (o_id x) t1
         in bindE (if disputed then applyRecoveredDisputes w x evs t2 else Inr (([], False), t2)) (\<lambda>((taken, lossRule), t3).
            Inr (order_result (o_id x) blocked, with_db (recordOrderEvent (o_id x) ''stripe.money_event_recovered''
              (Some (o_status x)) (Some blocked) ([(''eventCount'', JInt (int (length evs)))] @
                (if disputed then [(''disputesTakenOver'', JArr (map JStr taken)), (''lossRuleApplied'', JBool lossRule)]
                 else []))) t3))))"

section \<open>The events of a session\<close>

definition unmatched_session :: "string \<Rightarrow> checkout_session \<Rightarrow> till \<Rightarrow> till" where
  "unmatched_session eventId cs t = (if cs_payment_status cs \<noteq> ''paid'' then t
     else with_db (raise_alert (Some eventId) None ''stripe_money_event_unmatched'' Sev_critical
       [(''eventClass'', JStr ''checkout''), (''hasPaymentIntent'', JBool (paymentIntentId cs \<noteq> None)),
        (''hasCharge'', JBool False), (''hasMetadataOrder'', JBool (or_null_str (meta cs ''orderId'') \<noteq> None))])
       (upd_event eventId (\<lambda>e. e\<lparr>se_status := Ev_unmatched, se_intent := paymentIntentId cs\<rparr>) t))"

definition ignored_event :: "string \<Rightarrow> order \<Rightarrow> json_object \<Rightarrow> till \<Rightarrow> event_result \<times> till" where
  "ignored_event eventType x details t = (order_result (o_id x) (o_status x),
     with_db (recordOrderEvent (o_id x) eventType (Some (o_status x)) (Some (o_status x)) ((''ignored'', JBool True) # details)) t)"

text \<open>A session that failed or expired closes an order still at its checkout.\<close>

definition close_checkout ::
  "pay_world \<Rightarrow> string \<Rightarrow> order_status \<Rightarrow> (order \<Rightarrow> order) \<Rightarrow> order \<Rightarrow> till \<Rightarrow> error + event_result \<times> till" where
  "close_checkout w eventType to f x t =
     (if o_status x \<noteq> Ord_checkout_pending then Inr (ignored_event eventType x [] t)
      else bindE (exec_db (update_order (pw_now w) (o_id x) f) t) (\<lambda>t1.
        Inr (order_result (o_id x) to, with_db (recordOrderEvent (o_id x) eventType (Some (o_status x)) (Some to) []) t1)))"

definition session_event ::
  "pay_world \<Rightarrow> string \<Rightarrow> checkout_session \<Rightarrow> order \<Rightarrow> string option \<Rightarrow> till \<Rightarrow> error + event_result \<times> till" where
  "session_event w eventType cs x committedIntent t =
     (let money = waiting_money (paymentIntentId cs) (o_id x) (first_some committedIntent (paymentIntentId cs)) t
      in if money \<noteq> [] then recover_money w x committedIntent cs money t
         else if or_null_str (o_stripe_checkout_session_id x) \<noteq> None \<and> o_stripe_checkout_session_id x \<noteq> Some (cs_id cs)
         then Inr (ignored_event eventType x [(''reason'', JStr ''checkout_session_mismatch'')] t)
         else if eventType = ''checkout.session.async_payment_failed''
         then close_checkout w eventType Ord_payment_failed
                (\<lambda>y. y\<lparr>o_status := Ord_payment_failed, o_payment_failed_at := Some (pw_now w)\<rparr>) x t
         else if eventType = ''checkout.session.expired''
         then close_checkout w eventType Ord_cancelled (\<lambda>y. y\<lparr>o_status := Ord_cancelled\<rparr>) x t
         else bindE (transitionPaidCheckout w x cs eventType t) (\<lambda>(st, t1). Inr (order_result (o_id x) st, t1)))"

definition processCheckoutSessionEvent ::
  "pay_world \<Rightarrow> string \<Rightarrow> string \<Rightarrow> checkout_session \<Rightarrow> till \<Rightarrow> error + event_result \<times> till" where
  "processCheckoutSessionEvent w eventId eventType cs t =
     (case claimStripeEvent (pw_now w) eventId eventType (cs_id cs) t of
        (False, t0) \<Rightarrow> Inr (duplicate_event, t0)
      | (True, t0) \<Rightarrow>
          (case findCheckoutOrder cs (till_db t0) of
             Some x \<Rightarrow> session_event w eventType cs x (or_null_str (o_stripe_payment_intent_id x)) (bind_event eventId (o_id x) t0)
           | None \<Rightarrow>
               bindE (run_db (createLegacyPackOrder (pw_now w) (pw_env w) cs) t0) (\<lambda>(adopted, t1).
                 case adopted of
                   None \<Rightarrow> Inr (unmatched_event, unmatched_session eventId cs t1)
                 | Some x \<Rightarrow> session_event w eventType cs x None (bind_event eventId (o_id x) t1))))"

section \<open>Recovery\<close>

definition fulfillPaidOrder :: "pay_world \<Rightarrow> string \<Rightarrow> till \<Rightarrow> error + bool \<times> till" where
  "fulfillPaidOrder w oid t = (case find_order oid (till_db t) of
     None \<Rightarrow> Inr (False, t)
   | Some x \<Rightarrow> if o_type x \<noteq> Ot_jit_mail \<or> o_status x \<noteq> Ord_paid then Inr (False, t)
       else bindE (fulfil_jit w recovery_texts x t) (\<lambda>(st, t1). Inr (st = Ord_fulfillment_pending, t1)))"

record repair_params =
  rp_order :: string
  rp_session :: string
  rp_credits :: int
  rp_amount :: int
  rp_currency :: string

definition repairable :: "repair_params \<Rightarrow> order \<Rightarrow> bool" where
  "repairable p x \<longleftrightarrow> o_type x = Ot_letter_pack \<and> o_status x = Ord_fulfilled \<and>
     o_stripe_checkout_session_id x = Some (rp_session p) \<and> o_credits x = Some (rp_credits p) \<and>
     o_amount_cents x = rp_amount p \<and>
     normalizedCurrency (Some (o_currency x)) [] = normalizedCurrency (Some (rp_currency p)) []"

text \<open>True when the grant was repaired, False when it was there.\<close>

definition repairFulfilledPackGrant :: "pay_world \<Rightarrow> repair_params \<Rightarrow> till \<Rightarrow> error + bool \<times> till" where
  "repairFulfilledPackGrant w p t =
     (let refused = Inl (Error ''Pack reconciliation does not match a fulfilled authoritative order'')
      in case find_order (rp_order p) (till_db t) of
           None \<Rightarrow> refused
         | Some x \<Rightarrow>
             if \<not> repairable p x then refused
             else let granted = list_ex (\<lambda>e. le_source_type e = Src_purchase \<and> le_source_reference_id e = Some (o_id x))
                        (ledger (till_db t))
                  in bindE (grantPurchaseImageEntitlement (pw_env w) (o_user x) ''letter_pack'' (o_id x)
                       (packImageGrant (rp_credits p) (pw_env w)) t) (\<lambda>t1.
                     if granted then Inr (False, t1)
                     else bindE (run_db (addCreditsToLedgerWithClient (pw_now w) (pw_js w)
                            (pack_grant x None (rp_session p) (o_stripe_payment_intent_id x))) t1) (\<lambda>(r, t2).
                          Inr (True, with_db (recordOrderEvent (o_id x) ''maintenance.pack_grant_repaired'' (Some (o_status x))
                            (Some (o_status x)) [(''source'', JStr ''stripe_reconciliation'')]) t2))))"

end
