(* ===== verification/Refunds.thy ===== *)
theory Refunds
  imports Payments
begin

text \<open>
  Refunds (src/services/commerceService.ts, src/services/packRefundService.ts): the events of a refund or a
  charge, the settlement and compensation of a proportional refund, the refund the app requests itself with
  its claim and its hold, and the operator's command to refund some letters of a pack.

  Stripe's calls are parameters. The app's own refund is three transactions with Stripe's answers between
  them: \<open>claimRefund\<close>, \<open>permitCreate\<close> (only where no refund was found) and \<open>finalizeRefund\<close>;
  \<open>requestRefund\<close> runs them in turn. \<open>refund_calls\<close> of the till logs, outside the program, the requests Stripe
  was sent to create a refund.
\<close>

section \<open>What Stripe says of a refund\<close>

record stripe_refund =
  rf_id :: string
  rf_intent :: "string option"
  rf_charge :: "string option"
  rf_metadata_order :: "string option"
  rf_pack_refund :: "string option"
  rf_status :: "string option"
  rf_amount :: int
  rf_failure_reason :: "string option"

record stripe_charge =
  ch_id :: string
  ch_intent :: "string option"
  ch_metadata_order :: "string option"
  ch_amount_refunded :: int

datatype money_object = A_refund stripe_refund | A_charge stripe_charge

definition ended_refund :: "stripe_refund \<Rightarrow> bool" where
  "ended_refund r \<longleftrightarrow> rf_status r = Some ''failed'' \<or> rf_status r = Some ''canceled''"

text \<open>\<open>classifyOrderRefunds\<close> of stripeService.ts: the live refund of an order, and one that ended.\<close>

definition theOrders :: "string \<Rightarrow> int option \<Rightarrow> stripe_refund \<Rightarrow> bool" where
  "theOrders oid known r \<longleftrightarrow> or_null_str (rf_pack_refund r) = None \<and>
     (case or_null_str (rf_metadata_order r) of Some o' \<Rightarrow> o' = oid
      | None \<Rightarrow> (case known of None \<Rightarrow> False | Some k \<Rightarrow> 0 < k \<and> k \<le> rf_amount r))"

definition classifyOrderRefunds :: "stripe_refund list \<Rightarrow> string \<Rightarrow> int option \<Rightarrow> stripe_refund option \<times> stripe_refund option" where
  "classifyOrderRefunds refunds oid known =
     (let mine = filter (theOrders oid known) refunds
      in (List.find (\<lambda>r. \<not> ended_refund r) mine, List.find ended_refund mine))"

section \<open>The rows of proportional refunds\<close>

text \<open>The CHECKs and unique indexes of commerce_pack_refunds (migration 029).\<close>

definition live_refund :: "pack_refund_status \<Rightarrow> bool" where
  "live_refund st \<longleftrightarrow> st \<in> {Pr_letters_revoked, Pr_stripe_pending, Pr_succeeded}"

definition refund_settlement_ok :: "pack_refund \<Rightarrow> bool" where
  "refund_settlement_ok r \<longleftrightarrow> (case prf_status r of
     Pr_letters_revoked \<Rightarrow> prf_settled_at r = None \<and> prf_failed_at r = None
   | Pr_stripe_pending \<Rightarrow> prf_refund_id r \<noteq> None \<and> prf_settled_at r = None \<and> prf_failed_at r = None
   | Pr_succeeded \<Rightarrow> prf_refund_id r \<noteq> None \<and> prf_settled_at r \<noteq> None \<and> prf_failed_at r = None
   | _ \<Rightarrow> prf_failed_at r \<noteq> None \<and> prf_last_error_code r \<noteq> None)"

definition refund_row_refusal :: "pack_refund \<Rightarrow> pack_refund list \<Rightarrow> error option" where
  "refund_row_refusal r others = first_refusal
     [if \<not> (0 < prf_letters r \<and> 0 < prf_credits r \<and> 0 < prf_amount r) then Some (Check_violation ''valid_pack_refund_counts'') else None,
      if \<not> refund_settlement_ok r then Some (Check_violation ''valid_pack_refund_settlement'') else None,
      if prf_status r = Pr_compensated \<and> prf_compensation r = None then Some (Check_violation ''valid_pack_refund_compensation'') else None,
      if live_refund (prf_status r) \<and> list_ex (\<lambda>q. prf_order q = prf_order r \<and> live_refund (prf_status q)) others
        then Some (Unique_violation ''idx_commerce_pack_refunds_live_per_order'') else None,
      if prf_refund_id r \<noteq> None \<and> list_ex (\<lambda>q. prf_refund_id q = prf_refund_id r) others
        then Some (Unique_violation ''idx_commerce_pack_refunds_stripe_refund'') else None,
      if list_ex (\<lambda>q. prf_key q = prf_key r) others
        then Some (Unique_violation ''idx_commerce_pack_refunds_idempotency'') else None]"

definition stamped :: "instant \<Rightarrow> (pack_refund \<Rightarrow> pack_refund) \<Rightarrow> pack_refund \<Rightarrow> pack_refund" where
  [row_defs]: "stamped now f r = (f r)\<lparr>prf_updated_at := now\<rparr>"

definition update_refund :: "instant \<Rightarrow> string \<Rightarrow> (pack_refund \<Rightarrow> pack_refund) \<Rightarrow> till \<Rightarrow> error + till" where
  "update_refund now rid f t = (case lockPackRefund rid t of
     None \<Rightarrow> Inr t
   | Some r \<Rightarrow> (case refund_row_refusal (stamped now f r) (filter (\<lambda>q. prf_id q \<noteq> rid) (pack_refunds t)) of
       Some e \<Rightarrow> Inl e | None \<Rightarrow> Inr (upd_refund rid (stamped now f) t)))"

definition insert_refund :: "pack_refund \<Rightarrow> till \<Rightarrow> error + till" where
  "insert_refund r t = (case refund_row_refusal r (pack_refunds t) of
     Some e \<Rightarrow> Inl e
   | None \<Rightarrow> if lockPackRefund (prf_id r) t \<noteq> None then Inl (Unique_violation ''commerce_pack_refunds_pkey'')
       else Inr (t\<lparr>pack_refunds := pack_refunds t @ [r]\<rparr>))"

definition knownRefundedCents :: "order \<Rightarrow> till \<Rightarrow> int" where
  "knownRefundedCents x t = o_amount_refunded_cents x + sum_list (map prf_amount (filter (\<lambda>r. prf_order r = o_id x \<and>
     prf_status r \<in> {Pr_letters_revoked, Pr_stripe_pending}) (pack_refunds t)))"

section \<open>Alerts of proportional refunds\<close>

definition pack_alert :: "string \<Rightarrow> string \<Rightarrow> alert \<Rightarrow> bool" where
  "pack_alert rid kind a \<longleftrightarrow> al_type a = ''pack_refund_failed'' \<and> \<not> al_resolved a \<and>
     json_text (Some (al_details a)) ''packRefundId'' = Some rid \<and> json_text (Some (al_details a)) ''kind'' = Some kind"

definition raisePackRefundAlertOnce :: "pack_refund \<Rightarrow> string \<Rightarrow> json_object \<Rightarrow> db \<Rightarrow> db" where
  "raisePackRefundAlertOnce r kind details s = (if list_ex (pack_alert (prf_id r) kind) (alerts s) then s
     else raise_alert None (Some (prf_order r)) ''pack_refund_failed'' Sev_critical
       ([(''packRefundId'', JStr (prf_id r)), (''kind'', JStr kind)] @ details) s)"

definition resolveUnconfirmedPackRefundAlert :: "string \<Rightarrow> db \<Rightarrow> db" where
  "resolveUnconfirmedPackRefundAlert rid = resolve_alerts ''pack_refund_settled'' (pack_alert rid ''stripe_unconfirmed'')"

section \<open>Compensating a proportional refund\<close>

record compensation_params =
  cp2_error_code :: string
  cp2_failure_reason :: "string option"
  cp2_refund_id :: "string option"

definition cut_reason :: "compensation_params \<Rightarrow> string" where
  "cut_reason p = take 80 (case cp2_failure_reason p of None \<Rightarrow> cp2_error_code p | Some r \<Rightarrow> r)"

definition fail_refund :: "instant \<Rightarrow> compensation_params \<Rightarrow> pack_refund \<Rightarrow> pack_refund" where
  [row_defs]: "fail_refund now p r = r\<lparr>prf_status := Pr_failed, prf_failed_at := Some now,
     prf_last_error_code := Some (cp2_error_code p), prf_failure_reason := Some (cut_reason p),
     prf_refund_id := first_some (cp2_refund_id p) (prf_refund_id r)\<rparr>"

definition compensate_refund :: "instant \<Rightarrow> compensation_params \<Rightarrow> string option \<Rightarrow> pack_refund \<Rightarrow> pack_refund" where
  [row_defs]: "compensate_refund now p lot r = r\<lparr>prf_status := Pr_compensated, prf_failed_at := Some now,
     prf_last_error_code := Some (cp2_error_code p), prf_failure_reason := Some (cut_reason p),
     prf_compensation := lot, prf_refund_id := first_some (cp2_refund_id p) (prf_refund_id r)\<rparr>"

text \<open>Withheld under a dispute or a hold, and from a blocked account.\<close>

definition withheld :: "pack_refund \<Rightarrow> db \<Rightarrow> bool" where
  "withheld r s \<longleftrightarrow> (case find_order (prf_order r) s of None \<Rightarrow> True
      | Some x \<Rightarrow> o_status x \<in> {Ord_disputed, Ord_held}) \<or> blocked_reason (prf_user r) s \<noteq> None"

text \<open>The audit rows of the command, each with the lot it was taken from.\<close>

definition refund_audits :: "string \<Rightarrow> db \<Rightarrow> (ledger_entry \<times> ledger_entry) list" where
  "refund_audits rid s = sort_key (\<lambda>p. le_created_at (fst p)) (concat (map (\<lambda>audit.
     map (\<lambda>source. (audit, source)) (filter (\<lambda>e. le_related_ledger_id audit = Some (le_id e)) (ledger s)))
     (filter (\<lambda>e. le_source_type e = Src_refund \<and> json_text (le_source_metadata e) ''pack_refund_id'' = Some rid) (ledger s))))"

definition restored_lot :: "instant \<Rightarrow> pack_refund \<Rightarrow> string \<Rightarrow> ledger_entry \<Rightarrow> ledger_entry \<Rightarrow> string \<Rightarrow> ledger_entry" where
  "restored_lot now r reason audit source lid =
     \<lparr> le_id = lid, le_user = prf_user r, le_initial = le_initial audit, le_remaining = le_initial audit,
       le_source_type = Src_adjustment, le_source_reference_id = Some (prf_order r), le_source_order_id = None,
       le_source_metadata = Some [(''reason'', JStr ''partial_refund_failed''), (''order_id'', JStr (prf_order r)),
         (''pack_refund_id'', JStr (prf_id r)), (''compensates_ledger_id'', JStr (le_id audit)),
         (''failure_reason'', JStr reason)],
       le_activated_at = now, le_expires_at = le_expires_at source, le_expiration_policy = le_expiration_policy source,
       le_expiration_days = None, le_status = Lot_active,
       le_description = Some (''Restored after a failed proportional refund of '' @ prf_order r),
       le_related_ledger_id = Some (le_id audit), le_created_at = now, le_updated_at = now \<rparr>"

text \<open>The credits restored and the first lot posted.\<close>

fun restore_lots :: "instant \<Rightarrow> pack_refund \<Rightarrow> string \<Rightarrow> (ledger_entry \<times> ledger_entry) list \<Rightarrow> db \<Rightarrow>
    error + (int \<times> string option) \<times> db" where
  "restore_lots now r reason [] s = Inr ((0, None), s)"
| "restore_lots now r reason ((audit, source) # rows) s =
     bindE (insert_lot (restored_lot now r reason audit source (fresh_id s)) s) (\<lambda>s1.
     bindE (restore_lots now r reason rows s1) (\<lambda>((n, l), s2).
     Inr ((le_initial audit + n, Some (fresh_id s)), s2)))"

definition undo_refund :: "int \<Rightarrow> pack_refund \<Rightarrow> order \<Rightarrow> order" where
  [row_defs]: "undo_refund n r x = x\<lparr>o_credits_refunded := max (o_credits_refunded x - n) 0,
     o_amount_refunded_cents := (if prf_status r = Pr_succeeded then max (o_amount_refunded_cents x - prf_amount r) 0
       else o_amount_refunded_cents x)\<rparr>"

definition restored_line :: "pack_refund \<Rightarrow> string" where
  "restored_line r = ''Restored '' @ show_int (prf_letters r) @ '' '' @
     (if prf_letters r = 1 then ''letter'' else ''letters'') @ '' after a failed proportional refund of '' @ prf_order r"

definition settle_restore :: "instant \<Rightarrow> pack_refund \<Rightarrow> int \<Rightarrow> db \<Rightarrow> error + db" where
  "settle_restore now r n s = (if n \<le> 0 then Inr s
     else bindE (update_order now (prf_order r) (undo_refund n r) s)
            (\<lambda>s1. Inr (give_back now (prf_user r) n n (prf_order r) (restored_line r) s1)))"

definition withhold_compensation :: "pay_world \<Rightarrow> pack_refund \<Rightarrow> compensation_params \<Rightarrow> till \<Rightarrow> error + pack_refund_status \<times> till" where
  "withhold_compensation w r p t =
     bindE (update_refund (pw_now w) (prf_id r) (fail_refund (pw_now w) p) t) (\<lambda>t1.
     Inr (Pr_failed, with_db (\<lambda>s. recordOrderEvent (prf_order r) ''pack_refund.failed'' None None
         [(''packRefundId'', JStr (prf_id r)), (''lastErrorCode'', JStr (cp2_error_code p)), (''compensationWithheld'', JBool True)]
       (raise_alert None (Some (prf_order r)) ''pack_refund_failed'' Sev_critical
         [(''packRefundId'', JStr (prf_id r)), (''lastErrorCode'', JStr (cp2_error_code p)),
          (''failureReason'', JStr (cut_reason p)), (''creditsRevoked'', JInt (prf_credits r)),
          (''compensationWithheld'', JStr ''payment_disputed'')] s)) t1))"

definition compensatePackRefund :: "pay_world \<Rightarrow> pack_refund \<Rightarrow> compensation_params \<Rightarrow> till \<Rightarrow> error + pack_refund_status \<times> till" where
  "compensatePackRefund w r p t0 =
     (let t = with_db (resolveUnconfirmedPackRefundAlert (prf_id r)) t0
      in if withheld r (till_db t) then withhold_compensation w r p t
         else bindE (run_db (restore_lots (pw_now w) r (cut_reason p) (refund_audits (prf_id r) (till_db t))) t) (\<lambda>((n, lot), t1).
              bindE (exec_db (settle_restore (pw_now w) r n) t1) (\<lambda>t2.
              bindE (update_refund (pw_now w) (prf_id r) (compensate_refund (pw_now w) p lot) t2) (\<lambda>t3.
              Inr (Pr_compensated, with_db (\<lambda>s. recordOrderEvent (prf_order r) ''pack_refund.compensated'' None None
                  [(''packRefundId'', JStr (prf_id r)), (''lastErrorCode'', JStr (cp2_error_code p)), (''creditsRestored'', JInt n)]
                (raise_alert None (Some (prf_order r)) ''pack_refund_failed'' Sev_critical
                  [(''packRefundId'', JStr (prf_id r)), (''lastErrorCode'', JStr (cp2_error_code p)),
                   (''failureReason'', JStr (cut_reason p)), (''creditsRestored'', JInt n)] s)) t3)))))"

section \<open>Settling a proportional refund\<close>

record refund_outcome =
  ro_id :: string
  ro_status :: "string option"
  ro_failure_reason :: "string option"

definition refund_event :: "pack_refund \<Rightarrow> string \<Rightarrow> json_object \<Rightarrow> till \<Rightarrow> till" where
  "refund_event r source details = with_db (recordOrderEvent (prf_order r) source None None
     ((''packRefundId'', JStr (prf_id r)) # details))"

definition submit_refund :: "instant \<Rightarrow> string \<Rightarrow> pack_refund \<Rightarrow> pack_refund" where
  [row_defs]: "submit_refund now rid r = r\<lparr>prf_status := Pr_stripe_pending, prf_refund_id := Some rid,
     prf_submitted_at := first_some (prf_submitted_at r) (Some now)\<rparr>"

definition succeed_refund :: "instant \<Rightarrow> string \<Rightarrow> pack_refund \<Rightarrow> pack_refund" where
  [row_defs]: "succeed_refund now rid r = r\<lparr>prf_status := Pr_succeeded, prf_refund_id := Some rid,
     prf_submitted_at := first_some (prf_submitted_at r) (Some now), prf_settled_at := Some now\<rparr>"

definition paid_out :: "int \<Rightarrow> order \<Rightarrow> order" where
  [row_defs]: "paid_out n x = x\<lparr>o_amount_refunded_cents := o_amount_refunded_cents x + n\<rparr>"

text \<open>A success that comes for a command no longer waiting: the money went back after all.\<close>

definition late_success :: "pack_refund \<Rightarrow> refund_outcome \<Rightarrow> string \<Rightarrow> till \<Rightarrow> till" where
  "late_success r out source t =
     (let t1 = refund_event r source [(''ignored'', JBool True), (''reason'', JStr (if prf_status r = Pr_succeeded
                 then ''already_settled'' else ''settled_after_failure''))] t
      in if prf_status r \<notin> {Pr_compensated, Pr_failed} then t1
         else with_db (raisePackRefundAlertOnce r
                (if prf_status r = Pr_compensated then ''refunded_after_compensation'' else ''refunded_after_withheld'')
                [(''settledAfter'', JStr (if prf_status r = Pr_compensated then ''compensated'' else ''failed'')),
                 (''stripeRefundId'', JStr (ro_id out)), (''amountCents'', JInt (prf_amount r))]) t1)"

definition refund_failure :: "refund_outcome \<Rightarrow> compensation_params" where
  "refund_failure out = (let st = or_str (ro_status out) ''pending'' in
     \<lparr> cp2_error_code = ''STRIPE_REFUND_'' @ upper_str st,
       cp2_failure_reason = first_some (ro_failure_reason out) (Some st), cp2_refund_id = Some (ro_id out) \<rparr>)"

definition settlePackRefund :: "pay_world \<Rightarrow> pack_refund \<Rightarrow> refund_outcome \<Rightarrow> string \<Rightarrow> till \<Rightarrow> error + pack_refund_status \<times> till" where
  "settlePackRefund w r out source t =
     (if or_null_str (prf_refund_id r) \<noteq> None \<and> ro_id out \<noteq> [] \<and> prf_refund_id r \<noteq> Some (ro_id out)
      then Inr (prf_status r, refund_event r source [(''ignored'', JBool True), (''reason'', JStr ''another_refund''),
             (''stripeRefundId'', JStr (ro_id out))] t)
      else let st = (case ro_status out of None \<Rightarrow> ''pending'' | Some v \<Rightarrow> v);
               t1 = (if prf_status r = Pr_letters_revoked then with_db (resolveUnconfirmedPackRefundAlert (prf_id r)) t else t)
           in if st \<in> {''failed'', ''canceled''}
              then (if prf_status r \<in> {Pr_failed, Pr_compensated} then Inr (prf_status r, t1)
                    else compensatePackRefund w r (refund_failure out) t1)
              else if st = ''succeeded''
              then (if prf_status r \<notin> {Pr_letters_revoked, Pr_stripe_pending} then Inr (prf_status r, late_success r out source t1)
                    else bindE (update_refund (pw_now w) (prf_id r) (succeed_refund (pw_now w) (ro_id out)) t1) (\<lambda>t2.
                         bindE (exec_db (update_order (pw_now w) (prf_order r) (paid_out (prf_amount r))) t2) (\<lambda>t3.
                         Inr (Pr_succeeded, refund_event r source [(''packRefundStatus'', JStr ''succeeded''),
                           (''amountCents'', JInt (prf_amount r)), (''stripeRefundId'', JStr (ro_id out))] t3))))
              else if prf_status r \<noteq> Pr_letters_revoked then Inr (prf_status r, t1)
              else bindE (update_refund (pw_now w) (prf_id r) (submit_refund (pw_now w) (ro_id out)) t1) (\<lambda>t2.
                   Inr (Pr_stripe_pending, refund_event r source [(''packRefundStatus'', JStr ''stripe_pending''),
                     (''stripeRefundId'', JStr (ro_id out))] t2)))"

section \<open>A refund the app did not issue\<close>

fun upd_first :: "('a \<Rightarrow> bool) \<Rightarrow> ('a \<Rightarrow> 'a) \<Rightarrow> 'a list \<Rightarrow> 'a list" where
  "upd_first P f [] = []"
| "upd_first P f (x # xs) = (if P x then f x # xs else x # upd_first P f xs)"

text \<open>\<open>jsonb_set(details, '{events}', COALESCE(details->'events', '[]') || [v])\<close>\<close>

definition add_evidence :: "json \<Rightarrow> json_object \<Rightarrow> json_object" where
  "add_evidence v details = (case map_of details ''events'' of
     Some (JArr vs) \<Rightarrow> map (\<lambda>p. if fst p = ''events'' then (''events'', JArr (vs @ [v])) else p) details
   | Some old \<Rightarrow> map (\<lambda>p. if fst p = ''events'' then (''events'', JArr [old, v]) else p) details
   | None \<Rightarrow> details @ [(''events'', JArr [v])])"

record partial_refund_note =
  pn_event :: string
  pn_type :: string
  pn_refund :: "string option"
  pn_charge :: "string option"
  pn_status :: "string option"
  pn_amount :: int
  pn_cumulative :: bool
  pn_known :: int
  pn_reason :: string

definition partial_evidence :: "pay_world \<Rightarrow> partial_refund_note \<Rightarrow> json" where
  "partial_evidence w n = JObj [(''eventId'', JStr (pn_event n)), (''eventType'', JStr (pn_type n)), (''reason'', JStr (pn_reason n)),
     (''stripeRefundId'', json_str (pn_refund n)), (''chargeId'', json_str (pn_charge n)), (''refundStatus'', json_str (pn_status n)),
     (''amountCents'', JInt (pn_amount n)), (''cumulative'', JBool (pn_cumulative n)),
     (''receivedAt'', JStr (sw_to_iso (pw_send w) (pw_js w)))]"

definition open_partial :: "string \<Rightarrow> alert \<Rightarrow> bool" where
  "open_partial oid a \<longleftrightarrow> al_order a = Some oid \<and> al_type a = ''stripe_partial_refund_unmatched'' \<and> \<not> al_resolved a"

definition recordUnmatchedPartialRefund :: "pay_world \<Rightarrow> order \<Rightarrow> partial_refund_note \<Rightarrow> db \<Rightarrow> db" where
  "recordUnmatchedPartialRefund w x n s =
     (let r = (if list_ex (open_partial (o_id x)) (alerts s)
               then (False, s\<lparr>alerts := upd_first (open_partial (o_id x))
                      (\<lambda>a. a\<lparr>al_details := add_evidence (partial_evidence w n) (al_details a)\<rparr>) (alerts s)\<rparr>)
               else insert_alert (new_alert (Some (pn_event n)) (Some (o_id x)) ''stripe_partial_refund_unmatched'' Sev_critical
                 [(''reason'', JStr (pn_reason n)), (''orderAmountCents'', JInt (o_amount_cents x)),
                  (''knownRefundedCents'', JInt (pn_known n)), (''stripeRefundId'', json_str (pn_refund n)),
                  (''chargeId'', json_str (pn_charge n)), (''amountCents'', JInt (pn_amount n)),
                  (''events'', JArr [partial_evidence w n])]) s)
      in recordOrderEvent (o_id x) (pn_type n) (Some (o_status x)) (Some (o_status x))
           [(''unmatchedPartialRefund'', JBool True), (''stripeRefundId'', json_str (pn_refund n)),
            (''amountCents'', JInt (pn_amount n)), (''reason'', JStr (pn_reason n)), (''alertOpened'', JBool (fst r))] (snd r))"

section \<open>The hold of a refund that did not complete\<close>

definition hold_code :: "order \<Rightarrow> order" where
  [row_defs]: "hold_code x = (if o_last_error_code x = Some ''PAYMENT_AMOUNT_MISMATCH'' then x
     else x\<lparr>o_last_error := Some ''The refund failed or was cancelled at Stripe; a person decides'',
       o_last_error_code := Some ''REFUND_NOT_COMPLETED''\<rparr>)"

text \<open>\<open>readRefund\<close> is the refund id the caller read, when it read one (None is undefined, Some None null).\<close>

definition holdRefundNotCompletedWithClient ::
  "instant \<Rightarrow> string \<Rightarrow> string \<Rightarrow> string option \<Rightarrow> string option option \<Rightarrow> db \<Rightarrow> error + bool \<times> db" where
  "holdRefundNotCompletedWithClient now oid endedId endedStatus readRefund s = (case find_order oid s of
     None \<Rightarrow> Inr (False, s)
   | Some x \<Rightarrow>
       if o_status x \<noteq> Ord_refund_pending \<or> (case readRefund of None \<Rightarrow> False | Some r \<Rightarrow> o_stripe_refund_id x \<noteq> r)
       then Inr (False, s)
       else bindE (update_order now oid hold_code s) (\<lambda>s1.
         let details = [(''refundId'', JStr endedId), (''refundStatus'', json_str endedStatus)];
             r = insert_alert (new_alert None (Some oid) ''refund_not_completed'' Sev_critical details) s1
         in Inr (fst r, recordOrderEvent oid ''refund.not_completed'' (Some Ord_refund_pending) (Some Ord_refund_pending)
              details (snd r))))"

definition clearRefundHold :: "instant \<Rightarrow> string \<Rightarrow> db \<Rightarrow> error + db" where
  "clearRefundHold now oid s = (case find_order oid s of
     None \<Rightarrow> Inr s
   | Some x \<Rightarrow> if o_last_error_code x \<noteq> Some ''REFUND_NOT_COMPLETED'' then Inr s
       else update_order now oid (\<lambda>y. y\<lparr>o_last_error_code := None, o_last_error := None\<rparr>) s)"

section \<open>The events of a refund or a charge\<close>

fun mo_id :: "money_object \<Rightarrow> string" where
  "mo_id (A_refund r) = rf_id r" | "mo_id (A_charge c) = ch_id c"

fun mo_intent :: "money_object \<Rightarrow> string option" where
  "mo_intent (A_refund r) = rf_intent r" | "mo_intent (A_charge c) = ch_intent c"

fun mo_charge :: "money_object \<Rightarrow> string option" where
  "mo_charge (A_refund r) = rf_charge r" | "mo_charge (A_charge c) = Some (ch_id c)"

fun mo_order :: "money_object \<Rightarrow> string option" where
  "mo_order (A_refund r) = or_null_str (rf_metadata_order r)" | "mo_order (A_charge c) = or_null_str (ch_metadata_order c)"

fun mo_amount :: "money_object \<Rightarrow> int" where
  "mo_amount (A_refund r) = rf_amount r" | "mo_amount (A_charge c) = ch_amount_refunded c"

fun mo_status :: "money_object \<Rightarrow> string option" where
  "mo_status (A_refund r) = rf_status r" | "mo_status (A_charge c) = Some ''succeeded''"

fun is_refund :: "money_object \<Rightarrow> bool" where
  "is_refund (A_refund r) = True" | "is_refund (A_charge c) = False"

fun refund_id_of :: "money_object \<Rightarrow> string option" where
  "refund_id_of (A_refund r) = Some (rf_id r)" | "refund_id_of (A_charge c) = None"

fun named_command :: "money_object \<Rightarrow> string option" where
  "named_command (A_refund r) = or_null_str (rf_pack_refund r)" | "named_command (A_charge c) = None"

definition order_of_money :: "money_object \<Rightarrow> db \<Rightarrow> order option" where
  "order_of_money m s = (case sort_key (\<lambda>x. - o_created_at x) (filter (\<lambda>x. mo_order m = Some (o_id x) \<or>
       or_null_str (mo_intent m) \<noteq> None \<and> o_stripe_payment_intent_id x = or_null_str (mo_intent m)) (orders s)) of
     [] \<Rightarrow> None | x # xs \<Rightarrow> Some x)"

definition partial_note :: "string \<Rightarrow> string \<Rightarrow> money_object \<Rightarrow> int \<Rightarrow> string \<Rightarrow> partial_refund_note" where
  "partial_note eventId ty m known reason =
     \<lparr> pn_event = eventId, pn_type = ty, pn_refund = refund_id_of m, pn_charge = mo_charge m, pn_status = mo_status m,
       pn_amount = mo_amount m, pn_cumulative = \<not> is_refund m, pn_known = known, pn_reason = reason \<rparr>"

text \<open>A refund that names a command of the app.\<close>

definition command_event ::
  "pay_world \<Rightarrow> string \<Rightarrow> string \<Rightarrow> money_object \<Rightarrow> string \<Rightarrow> order \<Rightarrow> till \<Rightarrow> error + till" where
  "command_event w eventId ty m rid x t =
     (let unmatched = (\<lambda>why. Inr (with_db (recordUnmatchedPartialRefund w x
            ((partial_note eventId ty m (knownRefundedCents x t) why)\<lparr>pn_cumulative := False\<rparr>)) t))
      in case lockPackRefund rid t of
           None \<Rightarrow> unmatched ''command_mismatch''
         | Some r \<Rightarrow>
             if \<not> (prf_order r = o_id x \<and> mo_intent m = Some (prf_intent r) \<and> prf_amount r = mo_amount m)
             then unmatched ''command_mismatch''
             else if or_null_str (prf_refund_id r) \<noteq> None \<and> prf_refund_id r \<noteq> Some (mo_id m)
             then unmatched ''another_refund''
             else (case m of A_charge c \<Rightarrow> Inr t
               | A_refund q \<Rightarrow> bindE (settlePackRefund w r
                   \<lparr> ro_id = rf_id q, ro_status = rf_status q, ro_failure_reason = rf_failure_reason q \<rparr> ty t)
                   (\<lambda>(st, t1). Inr t1)))"

definition completes_payment :: "money_object \<Rightarrow> int \<Rightarrow> order \<Rightarrow> bool" where
  "completes_payment m known x \<longleftrightarrow> o_amount_cents x \<le> (if is_refund m then known + mo_amount m else mo_amount m)"

definition full_refund_row :: "instant \<Rightarrow> order_status \<Rightarrow> string option \<Rightarrow> order \<Rightarrow> order" where
  [row_defs]: "full_refund_row now next rid x = x\<lparr>o_status := next, o_stripe_refund_id := first_some rid (o_stripe_refund_id x),
     o_refund_pending_at := (if next = Ord_refund_pending then first_some (o_refund_pending_at x) (Some now) else o_refund_pending_at x),
     o_refunded_at := (if next = Ord_refunded then Some now else o_refunded_at x),
     o_amount_refunded_cents := (if next = Ord_refunded then o_amount_cents x else o_amount_refunded_cents x)\<rparr>"

definition take_refunded_pack :: "instant \<Rightarrow> order \<Rightarrow> string \<Rightarrow> db \<Rightarrow> error + db" where
  "take_refunded_pack now x eventId s =
     (if o_type x \<noteq> Ot_letter_pack then Inr s
      else bindE (revokePackLots now x (Whole_pack Rc_payment_refunded None)
             (snd (holdMailFundedByOrder now x eventId ''funding_reversed'' s))) (\<lambda>(r, s1). Inr s1))"

definition full_refund :: "pay_world \<Rightarrow> string \<Rightarrow> string \<Rightarrow> money_object \<Rightarrow> order \<Rightarrow> till \<Rightarrow> error + order_status \<times> till" where
  "full_refund w eventId ty m x t =
     (let next = (if mo_status m = Some ''succeeded'' then Ord_refunded else Ord_refund_pending)
      in if o_status x = Ord_refunded
         then Inr (o_status x, with_db (recordOrderEvent (o_id x) ty (Some (o_status x)) (Some (o_status x))
                [(''ignored'', JBool True), (''reason'', JStr ''already_refunded'')]) t)
         else bindE (exec_db (\<lambda>s. let s1 = snd (stopFundedMailBeforeFinancialReversal (pw_now w) x eventId ''payment_reversed'' s)
                in if next = Ord_refunded then take_refunded_pack (pw_now w) x eventId s1 else Inr s1) t) (\<lambda>t1.
              let t2 = (if next = Ord_refunded then revoke_entitlements (o_id x) t1 else t1)
              in bindE (exec_db (update_order (pw_now w) (o_id x) (full_refund_row (pw_now w) next (refund_id_of m))) t2) (\<lambda>t3.
                 let t4 = with_db (recordOrderEvent (o_id x) ty (Some (o_status x)) (Some next) []) t3
                 in bindE (if next = Ord_refunded then exec_db (clearRefundHold (pw_now w) (o_id x)) t4
                           else if is_refund m \<and> mo_status m \<in> {Some ''failed'', Some ''canceled''}
                           then bindE (run_db (holdRefundNotCompletedWithClient (pw_now w) (o_id x) (mo_id m) (mo_status m) None) t4)
                                  (\<lambda>(opened, t5). Inr t5)
                           else Inr t4)
                      (\<lambda>t5. Inr (next, t5)))))"

definition refund_without_command ::
  "pay_world \<Rightarrow> string \<Rightarrow> string \<Rightarrow> money_object \<Rightarrow> order \<Rightarrow> till \<Rightarrow> error + order_status \<times> till" where
  "refund_without_command w eventId ty m x t =
     (let known = knownRefundedCents x t
      in if completes_payment m known x then full_refund w eventId ty m x t
         else if \<not> is_refund m \<and> mo_amount m \<le> known
         then Inr (o_status x, with_db (recordOrderEvent (o_id x) ty (Some (o_status x)) (Some (o_status x))
                [(''chargePartialRefundConfirmed'', JBool True), (''amountRefunded'', JInt (mo_amount m)),
                 (''knownRefundedCents'', JInt known)]) t)
         else Inr (o_status x, with_db (recordUnmatchedPartialRefund w x
                (partial_note eventId ty m known ''no_matching_command'')) t))"

definition unmatched_money :: "string \<Rightarrow> money_object \<Rightarrow> till \<Rightarrow> till" where
  "unmatched_money eventId m t = with_db (raise_alert (Some eventId) None ''stripe_money_event_unmatched'' Sev_critical
       [(''eventClass'', JStr ''refund''), (''hasPaymentIntent'', JBool (or_null_str (mo_intent m) \<noteq> None)),
        (''hasCharge'', JBool (or_null_str (mo_charge m) \<noteq> None)), (''hasMetadataOrder'', JBool (mo_order m \<noteq> None))])
     (upd_event eventId (\<lambda>e. e\<lparr>se_status := Ev_unmatched\<rparr>) t)"

definition processRefundEvent :: "pay_world \<Rightarrow> string \<Rightarrow> string \<Rightarrow> money_object \<Rightarrow> till \<Rightarrow> error + event_result \<times> till" where
  "processRefundEvent w eventId ty m t =
     (case claimStripeEvent (pw_now w) eventId ty (mo_id m) t of
        (False, t0) \<Rightarrow> Inr (duplicate_event, t0)
      | (True, t0) \<Rightarrow>
          let t1 = note_references eventId (mo_intent m) (mo_charge m) (mo_order m) t0
          in case order_of_money m (till_db t1) of
               None \<Rightarrow> Inr (unmatched_event, unmatched_money eventId m t1)
             | Some x \<Rightarrow>
                 let t2 = bind_event eventId (o_id x) t1
                 in (case named_command m of
                       Some rid \<Rightarrow> bindE (command_event w eventId ty m rid x t2)
                         (\<lambda>t3. Inr (order_result (o_id x) (o_status x), t3))
                     | None \<Rightarrow> bindE (refund_without_command w eventId ty m x t2)
                         (\<lambda>(st, t3). Inr (order_result (o_id x) st, t3))))"

section \<open>The refund the app requests\<close>

definition refundRetryDelaySeconds :: "environment \<Rightarrow> int" where
  "refundRetryDelaySeconds env = max 30 (integerSetting ''JIT_REFUND_RETRY_DELAY_SECONDS'' 300 env)"

definition refundRetryLimit :: "environment \<Rightarrow> int" where
  "refundRetryLimit env = integerSetting ''JIT_REFUND_RETRY_LIMIT'' 5 env"

definition refund_claimable :: "environment \<Rightarrow> instant \<Rightarrow> order \<Rightarrow> bool" where
  "refund_claimable env now x \<longleftrightarrow> o_status x = Ord_refund_pending \<and>
     o_last_error_code x \<notin> {Some ''PAYMENT_AMOUNT_MISMATCH'', Some ''REFUND_NOT_COMPLETED''} \<and>
     o_stripe_payment_intent_id x \<noteq> None \<and>
     (o_refund_attempts x = 0 \<or> o_updated_at x \<le> now - refundRetryDelaySeconds env * 1000)"

definition claim_refund_row :: "instant \<Rightarrow> int \<Rightarrow> order \<Rightarrow> order" where
  [row_defs]: "claim_refund_row now limit x = x
     \<lparr> o_refund_attempts := (if o_stripe_refund_id x = None \<and> o_refund_attempts x < limit then o_refund_attempts x + 1
         else o_refund_attempts x),
       o_refund_pending_at := first_some (o_refund_pending_at x) (Some now) \<rparr>"

text \<open>The order as claimed and the attempts before the claim.\<close>

definition claimRefund :: "environment \<Rightarrow> instant \<Rightarrow> string \<Rightarrow> db \<Rightarrow> error + (order \<times> int) option \<times> db" where
  "claimRefund env now oid s = (let limit = refundRetryLimit env in
     if limit = 0 then Inr (None, s)
     else case find_order oid s of
       None \<Rightarrow> Inr (None, s)
     | Some x \<Rightarrow> if \<not> refund_claimable env now x then Inr (None, s)
         else bindE (update_order now oid (claim_refund_row now limit) s)
           (\<lambda>s1. Inr (Some (touched now (claim_refund_row now limit) x, o_refund_attempts x), s1)))"

text \<open>The attempt under which a refund may be created, where none was found at Stripe.\<close>

definition permitCreate :: "environment \<Rightarrow> instant \<Rightarrow> order \<Rightarrow> int \<Rightarrow> db \<Rightarrow> error + int option \<times> db" where
  "permitCreate env now x previous s =
     (if or_null_str (o_stripe_refund_id x) = None
      then Inr (if refundRetryLimit env \<le> previous then None else Some (o_refund_attempts x), s)
      else case find_order (o_id x) s of
        None \<Rightarrow> Inr (None, s)
      | Some y \<Rightarrow>
          if \<not> (o_status y = Ord_refund_pending \<and> o_refund_attempts y = o_refund_attempts x \<and>
                o_refund_attempts y < refundRetryLimit env)
          then Inr (None, s)
          else bindE (update_order now (o_id x) (\<lambda>z. z\<lparr>o_refund_attempts := o_refund_attempts z + 1\<rparr>) s)
            (\<lambda>s1. Inr (Some (o_refund_attempts y + 1), s1)))"

definition finish_refund :: "instant \<Rightarrow> string \<Rightarrow> order_status \<Rightarrow> order \<Rightarrow> order" where
  [row_defs]: "finish_refund now rid next x = x\<lparr>o_stripe_refund_id := Some rid, o_status := next,
     o_refunded_at := (if next = Ord_refunded then Some now else o_refunded_at x)\<rparr>"

definition finalizeRefund :: "pay_world \<Rightarrow> order \<Rightarrow> string \<Rightarrow> string option \<Rightarrow> till \<Rightarrow> error + till" where
  "finalizeRefund w x rid st t =
     (let next = (if st = Some ''succeeded'' then Ord_refunded else Ord_refund_pending)
      in case find_order (o_id x) (till_db t) of
           None \<Rightarrow> Inr t
         | Some y \<Rightarrow> if o_status y \<noteq> Ord_refund_pending then Inr t
             else bindE (exec_db (update_order (pw_now w) (o_id x) (finish_refund (pw_now w) rid next)) t) (\<lambda>t1.
                  bindE (if next \<noteq> Ord_refunded then Inr t1
                         else bindE (exec_db (clearRefundHold (pw_now w) (o_id x)) t1) (\<lambda>t2.
                              bindE (if o_type x \<noteq> Ot_letter_pack then Inr t2
                                     else exec_db (\<lambda>s. bindE (revokePackLots (pw_now w) x (Whole_pack Rc_payment_refunded None) s)
                                       (\<lambda>(r, s1). Inr s1)) t2) (\<lambda>t3.
                              Inr (revoke_entitlements (o_id x) t3)))) (\<lambda>t4.
                  Inr (with_db (recordOrderEvent (o_id x) ''refund.requested'' (Some Ord_refund_pending) (Some next)
                    [(''refundId'', JStr rid), (''lastErrorCode'', json_str (o_last_error_code x))]) t4))))"

definition note_refund_failure :: "instant \<Rightarrow> string \<Rightarrow> string \<Rightarrow> db \<Rightarrow> error + db" where
  "note_refund_failure now oid class s = (case find_order oid s of
     None \<Rightarrow> Inr s
   | Some x \<Rightarrow> if o_status x \<noteq> Ord_refund_pending then Inr s
       else update_order now oid (note_failure ''REFUND_REQUEST_FAILED'' class) s)"

text \<open>Stripe's calls, an answer or a throw: reading a refund, listing a payment's refunds, creating one under an attempt.\<close>

record stripe_calls =
  sc_retrieve :: "string \<Rightarrow> error + stripe_refund"
  sc_list :: "string \<Rightarrow> error + stripe_refund list"
  sc_create :: "string \<Rightarrow> string \<Rightarrow> int \<Rightarrow> error + stripe_refund"

text \<open>What Stripe holds for the order: the refund to adopt, and one that ended.\<close>

definition look_up_refund :: "stripe_calls \<Rightarrow> order \<Rightarrow> error + stripe_refund option \<times> stripe_refund option" where
  "look_up_refund calls x =
     (let stored = (case or_null_str (o_stripe_refund_id x) of None \<Rightarrow> None
                    | Some rid \<Rightarrow> (case sc_retrieve calls rid of Inl e \<Rightarrow> None | Inr r \<Rightarrow> Some r))
      in case stored of
           Some r \<Rightarrow> if \<not> ended_refund r then Inr (Some r, None)
             else (case sc_list calls (or_str (o_stripe_payment_intent_id x) []) of
               Inl e \<Rightarrow> Inl e
             | Inr rs \<Rightarrow> Inr (fst (classifyOrderRefunds rs (o_id x) (if o_amount_known x then Some (o_amount_cents x) else None)), Some r))
         | None \<Rightarrow> (case sc_list calls (or_str (o_stripe_payment_intent_id x) []) of
               Inl e \<Rightarrow> Inl e
             | Inr rs \<Rightarrow> Inr (classifyOrderRefunds rs (o_id x) (if o_amount_known x then Some (o_amount_cents x) else None))))"

text \<open>The body of the \<open>try\<close>: an error keeps the store as far as it was committed.\<close>

definition pursue_refund :: "pay_world \<Rightarrow> stripe_calls \<Rightarrow> order \<Rightarrow> int \<Rightarrow> till \<Rightarrow> (error + bool) \<times> till" where
  "pursue_refund w calls x previous t =
     (case look_up_refund calls x of
        Inl e \<Rightarrow> (Inl e, t)
      | Inr (Some r, ended) \<Rightarrow>
          (case finalizeRefund w x (rf_id r) (rf_status r) t of Inl e \<Rightarrow> (Inl e, t) | Inr t1 \<Rightarrow> (Inr True, t1))
      | Inr (None, Some r) \<Rightarrow>
          (case run_db (holdRefundNotCompletedWithClient (pw_now w) (o_id x) (rf_id r) (rf_status r) (Some (o_stripe_refund_id x))) t of
             Inl e \<Rightarrow> (Inl e, t) | Inr (opened, t1) \<Rightarrow> (Inr False, t1))
      | Inr (None, None) \<Rightarrow>
          (case run_db (permitCreate (pw_env w) (pw_now w) x previous) t of
             Inl e \<Rightarrow> (Inl e, t)
           | Inr (None, t1) \<Rightarrow> (Inr False, t1)
           | Inr (Some attempt, t1) \<Rightarrow>
               (case sc_create calls (or_str (o_stripe_payment_intent_id x) []) (o_id x) attempt of
                  Inl e \<Rightarrow> (Inl e, t1\<lparr>refund_calls := refund_calls t1 @ [(o_id x, attempt)]\<rparr>)
                | Inr r \<Rightarrow>
                    (let t2 = t1\<lparr>refund_calls := refund_calls t1 @ [(o_id x, attempt)]\<rparr>
                     in case finalizeRefund w x (rf_id r) (rf_status r) t2 of
                          Inl e \<Rightarrow> (Inl e, t2) | Inr t3 \<Rightarrow> (Inr True, t3)))))"

definition requestRefund :: "pay_world \<Rightarrow> stripe_calls \<Rightarrow> string \<Rightarrow> till \<Rightarrow> error + bool \<times> till" where
  "requestRefund w calls oid t =
     (case run_db (claimRefund (pw_env w) (pw_now w) oid) t of
        Inl e \<Rightarrow> Inl e
      | Inr (None, t1) \<Rightarrow> Inr (False, t1)
      | Inr (Some (x, previous), t1) \<Rightarrow>
          (case pursue_refund w calls x previous t1 of
             (Inr b, t2) \<Rightarrow> Inr (b, t2)
           | (Inl e, t2) \<Rightarrow> bindE (exec_db (note_refund_failure (pw_now w) oid (error_class e ''unknown_error'')) t2)
               (\<lambda>t3. Inr (False, t3))))"

text \<open>The sweep's candidates, and the orders an operator is warned of (stuckOrders.ts).\<close>

definition refund_due :: "environment \<Rightarrow> instant \<Rightarrow> order \<Rightarrow> bool" where
  "refund_due env now x \<longleftrightarrow> refund_claimable env now x \<and> o_refund_attempts x < refundRetryLimit env"

definition nulls_first :: "instant option \<Rightarrow> nat \<times> instant" where
  "nulls_first v = (case v of None \<Rightarrow> (0, 0) | Some n \<Rightarrow> (1, n))"

definition due_refunds :: "environment \<Rightarrow> instant \<Rightarrow> db \<Rightarrow> string list" where
  "due_refunds env now s = map o_id (take 25 (sort_key (\<lambda>x. (nulls_first (o_refund_pending_at x), o_created_at x))
     (filter (refund_due env now) (orders s))))"

definition waits_in_hold :: "instant \<Rightarrow> order \<Rightarrow> db \<Rightarrow> bool" where
  "waits_in_hold now x s \<longleftrightarrow> o_status x = Ord_fulfillment_pending \<and> list_ex (\<lambda>l. lt_funding_order_id l = Some (o_id x) \<and>
     lt_status l = L_queued \<and> list_ex (\<lambda>j. j_letter j = lt_id l \<and> j_attempts j = 0 \<and>
       now - 90 * 60000 < j_next_attempt_at j \<and>
       (case j_mail_hold_until j of None \<Rightarrow> False | Some u \<Rightarrow> now - 90 * 60000 < u)) (jobs s)) (letters s)"

definition STUCK_ORDER_CONDITION :: "instant \<Rightarrow> order \<Rightarrow> db \<Rightarrow> bool" where
  "STUCK_ORDER_CONDITION now x s \<longleftrightarrow> o_status x \<in> {Ord_paid, Ord_fulfillment_pending, Ord_refund_pending} \<and>
     o_updated_at x < now - 30 * 60000 \<and> \<not> waits_in_hold now x s"

end
