(* ===== verification/PackRefunds.thy ===== *)
theory PackRefunds
  imports Refunds OutboxAdmin
begin

text \<open>
  The operator's proportional refund of a pack and its sweep (src/services/packRefundService.ts), and the
  dispatch of Stripe's webhook events (src/services/commerceService.ts).

  \<open>hash\<close> is SHA-256 in hexadecimal and \<open>digest\<close> the digest of a preview (\<open>createAdminPreviewDigest\<close> of its five
  fields), parameters. Stripe's answers are parameters (\<open>pack_refund_calls\<close>); a failed call is its error code
  and the class the diagnostics give it. The phases of a command commit one by one, so what is answered, or
  thrown, comes with the till it leaves.
\<close>

section \<open>The command\<close>

record refund_letters_input =
  ri_order :: string
  ri_letters :: int
  ri_reason :: string
  ri_actor :: string
  ri_key :: string
  ri_environment :: string
  ri_digest :: "string option"

definition lower_letter :: "char \<Rightarrow> bool" where
  "lower_letter c \<longleftrightarrow> 97 \<le> char_code c \<and> char_code c \<le> 122"

definition upper_letter :: "char \<Rightarrow> bool" where
  "upper_letter c \<longleftrightarrow> 65 \<le> char_code c \<and> char_code c \<le> 90"

definition PACK_REFUND_REASON_CODE_PATTERN :: "string \<Rightarrow> bool" where
  "PACK_REFUND_REASON_CODE_PATTERN t \<longleftrightarrow> 3 \<le> length t \<and> length t \<le> 80 \<and> lower_letter (hd t) \<and>
     list_all (\<lambda>c. lower_letter c \<or> is_digit c \<or> c = CHR ''_'') (tl t)"

definition PACK_REFUND_IDEMPOTENCY_KEY_PATTERN :: "string \<Rightarrow> bool" where
  "PACK_REFUND_IDEMPOTENCY_KEY_PATTERN t \<longleftrightarrow> 8 \<le> length t \<and> length t \<le> 128 \<and>
     (lower_letter (hd t) \<or> upper_letter (hd t) \<or> is_digit (hd t)) \<and>
     list_all (\<lambda>c. lower_letter c \<or> upper_letter c \<or> is_digit c \<or> c \<in> {CHR ''.'', CHR ''_'', CHR '':'', CHR ''-''}) (tl t)"

definition commandEnabled :: "environment \<Rightarrow> bool" where
  "commandEnabled env \<longleftrightarrow> env ''LETTER_IRL_PACK_REFUND_COMMAND_ENABLED'' = Some ''true''"

fun mode_text :: "deployment_mode \<Rightarrow> string" where
  "mode_text Production = ''production''"
| "mode_text Development = ''development''"
| "mode_text Test_mode = ''test''"

text \<open>The figures of a refund: a pack's letters, and the share of some letters in its price, rounded down once.\<close>

definition letters_in_pack :: "order \<Rightarrow> int" where
  "letters_in_pack x = (case o_credits x of None \<Rightarrow> 0 | Some n \<Rightarrow> n) div CREDITS_PER_LETTER"

definition refund_cents :: "order \<Rightarrow> int \<Rightarrow> int" where
  "refund_cents x n = n * o_amount_cents x div letters_in_pack x"

definition previewDigest :: "(string \<times> int \<times> int \<times> int \<times> instant \<Rightarrow> string) \<Rightarrow> order \<Rightarrow> int \<Rightarrow> int \<Rightarrow> int \<Rightarrow> string" where
  "previewDigest digest x n remaining cents = digest (o_id x, n, cents, remaining, o_updated_at x)"

definition lettersRemainingOnPack :: "instant \<Rightarrow> order \<Rightarrow> db \<Rightarrow> int" where
  "lettersRemainingOnPack now x s = sum_list (map le_remaining (live_lots now x s)) div CREDITS_PER_LETTER"

definition pack_order_refusal :: "order option \<Rightarrow> string \<Rightarrow> error option" where
  "pack_order_refusal found oid = (case found of
     None \<Rightarrow> Some (Coded_error ''PACK_REFUND_NOT_FOUND'' (''Order '' @ oid @ '' does not exist''))
   | Some x \<Rightarrow> first_refusal
       [refuse_if (o_type x \<noteq> Ot_letter_pack) ''PACK_REFUND_NOT_A_PACK'' ''Only letter-pack orders can be refunded proportionally'',
        refuse_if (let n = (case o_credits x of None \<Rightarrow> 0 | Some n \<Rightarrow> n)
             in n \<le> 0 \<or> n mod CREDITS_PER_LETTER \<noteq> 0 \<or> or_null_str (o_stripe_payment_intent_id x) = None \<or> \<not> o_amount_known x)
          ''PACK_REFUND_UNREFUNDABLE_ORDER'' ''The order has no refundable payment or letter count''])"

text \<open>The checks of the input, before any row is read.\<close>

definition input_refusal :: "environment \<Rightarrow> refund_letters_input \<Rightarrow> error option" where
  "input_refusal env i = first_refusal
     [refuse_if (\<not> commandEnabled env) ''PACK_REFUND_DISABLED''
        (''LETTER_IRL_PACK_REFUND_COMMAND_ENABLED is not '' @ [CHR 0x27] @ ''true'' @ [CHR 0x27]),
      (let mode = resolveDeploymentMode env
       in refuse_if (mode = Test_mode \<or> mode_text mode \<noteq> ri_environment i) ''PACK_REFUND_ENVIRONMENT_MISMATCH''
            (''The command names '' @ ri_environment i @ ''; this deployment is '' @ mode_text mode)),
      refuse_if (ri_letters i < 1) ''PACK_REFUND_INVALID_INPUT'' ''letters must be a positive integer'',
      refuse_if (\<not> PACK_REFUND_REASON_CODE_PATTERN (ri_reason i)) ''PACK_REFUND_INVALID_INPUT''
        ''reasonCode must match ^[a-z][a-z0-9_]{2,79}$'',
      refuse_if (\<not> PACK_REFUND_IDEMPOTENCY_KEY_PATTERN (ri_key i)) ''PACK_REFUND_INVALID_INPUT''
        ''idempotencyKey must be 8-128 URL-safe characters'',
      refuse_if (ri_actor i = []) ''PACK_REFUND_INVALID_INPUT'' ''actor.id is required'']"

text \<open>The operator's replay: the command recorded under the key, when its intent is the same.\<close>

definition replayOrNull :: "(string \<Rightarrow> string) \<Rightarrow> refund_letters_input \<Rightarrow> db \<Rightarrow> error + string option" where
  "replayOrNull hash i s = (case find_audit (hash (ri_key i)) s of
     None \<Rightarrow> Inr None
   | Some a \<Rightarrow>
       (case (map_of (au_after a) ''letters'', Option.bind (json_text (Some (au_after a)) ''packRefundId'') (\<lambda>v. or_null_str (Some v))) of
          (Some (JInt n), Some prid) \<Rightarrow>
            if au_operation a = ''pack_refund'' \<and> au_target_type a = ''order'' \<and> au_target_hash a = hash (ri_order i) \<and>
               au_actor_hash a = hash (ri_actor i) \<and> au_reason_code a = ri_reason i \<and> n = ri_letters i
            then Inr (Some prid)
            else Inl (Coded_error ''idempotency_conflict'' ''Idempotency key reused with different inputs'')
        | _ \<Rightarrow> Inl (Coded_error ''idempotency_conflict'' ''Idempotency key reused with different inputs'')))"

definition disputed_payment :: "order \<Rightarrow> till \<Rightarrow> bool" where
  "disputed_payment x t \<longleftrightarrow> list_ex (\<lambda>d. di_intent d \<noteq> None \<and> di_intent d = o_stripe_payment_intent_id x \<and>
     di_status d \<notin> NON_LOSS_DISPUTE_STATUSES) (disputes t)"

text \<open>The guards of the command on the order as locked, in the code's order.\<close>

definition refund_refusal ::
  "(string \<times> int \<times> int \<times> int \<times> instant \<Rightarrow> string) \<Rightarrow> instant \<Rightarrow> refund_letters_input \<Rightarrow> order \<Rightarrow> till \<Rightarrow> error option" where
  "refund_refusal digest now i x t =
     (let remaining = lettersRemainingOnPack now x (till_db t); cents = refund_cents x (ri_letters i)
      in first_refusal
        [refuse_if (o_status x \<noteq> Ord_fulfilled) ''PACK_REFUND_ORDER_STATE''
           (''Order is '' @ order_status_text (o_status x) @ ''; only a fulfilled pack can be refunded''),
         refuse_if (list_ex (\<lambda>r. prf_order r = o_id x \<and> live_refund (prf_status r)) (pack_refunds t))
           ''PACK_REFUND_ALREADY_ISSUED'' ''One proportional refund per pack'',
         refuse_if (disputed_payment x t \<or> blocked_reason (o_user x) (till_db t) \<noteq> None)
           ''PACK_REFUND_DISPUTED'' ''The payment is disputed or the account is blocked'',
         refuse_if (remaining < ri_letters i) ''PACK_REFUND_TOO_MANY_LETTERS''
           (show_int (ri_letters i) @ '' letters requested but '' @ show_int remaining @ '' remain on the pack''),
         refuse_if (cents < 1 \<or> o_amount_cents x \<le> o_amount_refunded_cents x + cents) ''PACK_REFUND_WOULD_BE_FULL''
           ''A refund that completes the payment is a full refund and takes the full-refund path'',
         refuse_if (case or_null_str (ri_digest i) of None \<Rightarrow> False
             | Some d \<Rightarrow> d \<noteq> previewDigest digest x (ri_letters i) remaining cents)
           ''PACK_REFUND_PREVIEW_STALE'' ''The pack changed since the preview; preview again''])"

definition new_refund :: "instant \<Rightarrow> string \<Rightarrow> refund_letters_input \<Rightarrow> order \<Rightarrow> pack_refund" where
  "new_refund now prid i x =
     \<lparr> prf_id = prid, prf_order = o_id x, prf_user = o_user x, prf_letters = ri_letters i,
       prf_credits = ri_letters i * CREDITS_PER_LETTER, prf_amount = refund_cents x (ri_letters i),
       prf_currency = o_currency x, prf_status = Pr_letters_revoked, prf_intent = or_str (o_stripe_payment_intent_id x) [],
       prf_refund_id = None, prf_key = ''pack-refund:'' @ prid, prf_attempts = 0, prf_last_error_code = None,
       prf_failure_reason = None, prf_compensation = None, prf_submitted_at = None, prf_settled_at = None,
       prf_failed_at = None, prf_created_at = now, prf_updated_at = now \<rparr>"

definition refund_audit :: "(string \<Rightarrow> string) \<Rightarrow> instant \<Rightarrow> refund_letters_input \<Rightarrow> pack_refund \<Rightarrow> order \<Rightarrow> db \<Rightarrow> operator_audit" where
  "refund_audit hash now i r x s = (let remaining = lettersRemainingOnPack now x s in
     \<lparr> au_key_hash = hash (ri_key i), au_actor_hash = hash (ri_actor i), au_operation = ''pack_refund'',
       au_target_type = ''order'', au_target_hash = hash (o_id x), au_reason_code = ri_reason i,
       au_before = [(''lettersRemaining'', JInt remaining), (''creditsRefunded'', JInt (o_credits_refunded x)),
         (''amountRefundedCents'', JInt (o_amount_refunded_cents x))],
       au_after = [(''packRefundId'', JStr (prf_id r)), (''letters'', JInt (ri_letters i)), (''amountCents'', JInt (prf_amount r)),
         (''lettersRemaining'', JInt (remaining - ri_letters i)), (''creditsRefunded'', JInt (o_credits_refunded x + prf_credits r))],
       au_evidence = [] \<rparr>)"

definition count_refunded :: "int \<Rightarrow> order \<Rightarrow> order" where
  [row_defs]: "count_refunded n x = x\<lparr>o_credits_refunded := o_credits_refunded x + n\<rparr>"

text \<open>The letters taken and the intent recorded.\<close>

definition revoke_letters ::
  "(string \<Rightarrow> string) \<Rightarrow> instant \<Rightarrow> refund_letters_input \<Rightarrow> pack_refund \<Rightarrow> order \<Rightarrow> till \<Rightarrow> error + till" where
  "revoke_letters hash now i r x t =
     bindE (insert_refund r t) (\<lambda>t1.
     bindE (run_db (revokePackLots now x (Some_credits (prf_credits r) (Some (prf_id r)))) t1) (\<lambda>(taken, t2).
     bindE (exec_db (update_order now (o_id x) (count_refunded (prf_credits r))) t2) (\<lambda>t3.
     Inr (with_db (\<lambda>s. recordOrderEvent (o_id x) ''pack_refund.letters_revoked'' (Some Ord_fulfilled) (Some Ord_fulfilled)
         [(''packRefundId'', JStr (prf_id r)), (''letters'', JInt (ri_letters i)), (''creditsRevoked'', JInt (prf_credits r)),
          (''amountCents'', JInt (prf_amount r))]
       (record_audit (refund_audit hash now i r x (till_db t)) s)) t3))))"

datatype phase_one = Replayed string | Revoked pack_refund

definition refund_phase_one ::
  "(string \<Rightarrow> string) \<Rightarrow> (string \<times> int \<times> int \<times> int \<times> instant \<Rightarrow> string) \<Rightarrow> instant \<Rightarrow> string \<Rightarrow> refund_letters_input \<Rightarrow>
   till \<Rightarrow> error + phase_one \<times> till" where
  "refund_phase_one hash digest now prid i t =
     bindE (replayOrNull hash i (till_db t)) (\<lambda>replayed. case replayed of
       Some rid \<Rightarrow> Inr (Replayed rid, t)
     | None \<Rightarrow> (case pack_order_refusal (find_order (ri_order i) (till_db t)) (ri_order i) of
         Some e \<Rightarrow> Inl e
       | None \<Rightarrow> (case find_order (ri_order i) (till_db t) of
           None \<Rightarrow> Inl (Error [])
         | Some x \<Rightarrow> (case refund_refusal digest now i x t of
             Some e \<Rightarrow> Inl e
           | None \<Rightarrow> bindE (revoke_letters hash now i (new_refund now prid i x) x t)
               (\<lambda>t1. Inr (Revoked (new_refund now prid i x), t1))))))"

section \<open>Stripe's part\<close>

record stripe_failure =
  sf_code :: "string option"
  sf_class :: string

record pack_refund_calls =
  pc_create :: "pack_refund \<Rightarrow> stripe_failure + stripe_refund"
  pc_list :: "string \<Rightarrow> stripe_failure + stripe_refund list"
  pc_retrieve :: "string \<Rightarrow> stripe_failure + stripe_refund"

definition TERMINAL_STRIPE_REFUND_CODES :: "string set" where
  "TERMINAL_STRIPE_REFUND_CODES = {''charge_already_refunded'', ''refund_disputed_payment'', ''charge_disputed'',
     ''resource_missing'', ''amount_too_large'', ''amount_too_small''}"

definition finalizeWithStripe ::
  "pay_world \<Rightarrow> pack_refund \<Rightarrow> stripe_refund \<Rightarrow> string \<Rightarrow> till \<Rightarrow> error + pack_refund_status \<times> till" where
  "finalizeWithStripe w r q source t = (case lockPackRefund (prf_id r) t of
     None \<Rightarrow> Inr (Pr_failed, t)
   | Some l \<Rightarrow> settlePackRefund w l \<lparr> ro_id = rf_id q, ro_status = rf_status q, ro_failure_reason = rf_failure_reason q \<rparr> source t)"

definition terminal_failure :: "stripe_failure \<Rightarrow> bool" where
  "terminal_failure f \<longleftrightarrow> isTerminalDiagnosticClass (sf_class f) \<or>
     (case sf_code f of None \<Rightarrow> False | Some c \<Rightarrow> c \<in> TERMINAL_STRIPE_REFUND_CODES)"

definition failure_code :: "stripe_failure \<Rightarrow> string" where
  "failure_code f = take 100 (case sf_code f of None \<Rightarrow> sf_class f | Some c \<Rightarrow> c)"

definition count_attempt :: "string \<Rightarrow> pack_refund \<Rightarrow> pack_refund" where
  [row_defs]: "count_attempt code r = r\<lparr>prf_attempts := prf_attempts r + 1, prf_last_error_code := Some code\<rparr>"

definition handleStripeFailure ::
  "pay_world \<Rightarrow> pack_refund \<Rightarrow> stripe_failure \<Rightarrow> till \<Rightarrow> error + pack_refund_status \<times> till" where
  "handleStripeFailure w r f t = (case lockPackRefund (prf_id r) t of
     None \<Rightarrow> Inr (if terminal_failure f then Pr_failed else Pr_letters_revoked, t)
   | Some l \<Rightarrow>
       if prf_status l \<noteq> Pr_letters_revoked then Inr (if terminal_failure f then prf_status l else Pr_letters_revoked, t)
       else if terminal_failure f
       then compensatePackRefund w l
              \<lparr> cp2_error_code = failure_code f, cp2_failure_reason = Some (sf_class f), cp2_refund_id = None \<rparr> t
       else bindE (update_refund (pw_now w) (prf_id r) (count_attempt (failure_code f)) t)
              (\<lambda>t1. Inr (Pr_letters_revoked, t1)))"

definition submitPackRefund ::
  "pay_world \<Rightarrow> pack_refund_calls \<Rightarrow> pack_refund \<Rightarrow> till \<Rightarrow> error + pack_refund_status \<times> till" where
  "submitPackRefund w calls r t = (case pc_create calls r of
     Inl f \<Rightarrow> handleStripeFailure w r f t
   | Inr q \<Rightarrow> finalizeWithStripe w r q ''pack_refund.stripe_response'' t)"

record refund_letters_result =
  rr_id :: string
  rr_status :: pack_refund_status
  rr_amount :: int
  rr_replayed :: bool

definition refundPackLetters ::
  "(string \<Rightarrow> string) \<Rightarrow> (string \<times> int \<times> int \<times> int \<times> instant \<Rightarrow> string) \<Rightarrow> pay_world \<Rightarrow> pack_refund_calls \<Rightarrow> string \<Rightarrow>
   refund_letters_input \<Rightarrow> till \<Rightarrow> (error + refund_letters_result) \<times> till" where
  "refundPackLetters hash digest w calls prid i t =
     (case input_refusal (pw_env w) i of
        Some e \<Rightarrow> (Inl e, t)
      | None \<Rightarrow> (case refund_phase_one hash digest (pw_now w) prid i t of
          Inl e \<Rightarrow> (Inl e, t)
        | Inr (Replayed rid, t1) \<Rightarrow>
            (Inr (case lockPackRefund rid t1 of
               None \<Rightarrow> \<lparr> rr_id = rid, rr_status = Pr_letters_revoked, rr_amount = 0, rr_replayed = True \<rparr>
             | Some r \<Rightarrow> \<lparr> rr_id = rid, rr_status = prf_status r, rr_amount = prf_amount r, rr_replayed = True \<rparr>), t1)
        | Inr (Revoked r, t1) \<Rightarrow> (case submitPackRefund w calls r t1 of
            Inl e \<Rightarrow> (Inl e, t1)
          | Inr (st, t2) \<Rightarrow>
              (Inr \<lparr> rr_id = prf_id r, rr_status = st, rr_amount = prf_amount r, rr_replayed = False \<rparr>, t2))))"

section \<open>The sweep\<close>

record sweep_counts =
  sw_retried :: nat
  sw_adopted :: nat
  sw_settled :: nat
  sw_compensated :: nat

definition refund_attempt_limit :: "environment \<Rightarrow> int" where
  "refund_attempt_limit = positiveIntegerSetting ''PACK_REFUND_STRIPE_ATTEMPT_LIMIT'' 5 1 max_safe_integer"

definition refund_retry_delay :: "environment \<Rightarrow> int" where
  "refund_retry_delay = positiveIntegerSetting ''PACK_REFUND_RETRY_DELAY_SECONDS'' 300 60 max_safe_integer"

definition due_rows :: "environment \<Rightarrow> instant \<Rightarrow> till \<Rightarrow> pack_refund list" where
  "due_rows env now t = take 50 (sort_key (\<lambda>r. (prf_updated_at r, prf_created_at r))
     (filter (\<lambda>r. prf_status r = Pr_letters_revoked \<and> prf_updated_at r \<le> now - refund_retry_delay env * 1000) (pack_refunds t)))"

text \<open>Stripe could not be asked: the row's turn moves on, with one alert at the limit or after a day.\<close>

definition wait_for_stripe :: "pay_world \<Rightarrow> bool \<Rightarrow> pack_refund \<Rightarrow> stripe_failure \<Rightarrow> till \<Rightarrow> till" where
  "wait_for_stripe w atLimit r f t = (case lockPackRefund (prf_id r) t of
     None \<Rightarrow> t
   | Some l \<Rightarrow> if prf_status l \<noteq> Pr_letters_revoked then t
       else (case update_refund (pw_now w) (prf_id r) (\<lambda>q. q) t of
         Inl e \<Rightarrow> t
       | Inr t1 \<Rightarrow> if atLimit \<or> day_ms \<le> pw_js w - prf_created_at l
           then with_db (raisePackRefundAlertOnce l ''stripe_unconfirmed''
                  [(''attempts'', JInt (prf_attempts l)), (''errorClass'', JStr (sf_class f))]) t1
           else t1))"

definition first_that :: "('a \<Rightarrow> bool) \<Rightarrow> ('a \<Rightarrow> bool) \<Rightarrow> 'a list \<Rightarrow> 'a option" where
  "first_that P Q xs = first_some (List.find P xs) (first_some (List.find Q xs) (List.find (\<lambda>x. True) xs))"

definition refund_at_stripe :: "pack_refund \<Rightarrow> stripe_refund list \<Rightarrow> stripe_refund option" where
  "refund_at_stripe r refunds = first_that (\<lambda>q. rf_status q = Some ''succeeded'') (\<lambda>q. \<not> ended_refund q)
     (filter (\<lambda>q. rf_pack_refund q = Some (prf_id r) \<and> rf_amount q = prf_amount r) refunds)"

definition passed_over :: "pack_refund \<Rightarrow> stripe_refund list \<Rightarrow> stripe_refund list" where
  "passed_over r refunds = filter (\<lambda>q. rf_pack_refund q = Some (prf_id r) \<and> rf_amount q \<noteq> prf_amount r) refunds"

definition note_passed_over :: "pack_refund \<Rightarrow> stripe_refund list \<Rightarrow> till \<Rightarrow> till" where
  "note_passed_over r qs t = (if qs = [] then t
     else with_db (recordOrderEvent (prf_order r) ''pack_refund.sweep_passed_over'' None None
       [(''packRefundId'', JStr (prf_id r)), (''amountCents'', JInt (prf_amount r)),
        (''refunds'', JArr (map (\<lambda>q. JObj [(''stripeRefundId'', JStr (rf_id q)), (''amountCents'', JInt (rf_amount q)),
          (''status'', json_str (rf_status q))]) qs))]) t)"

definition compensate_missing :: "pay_world \<Rightarrow> pack_refund \<Rightarrow> till \<Rightarrow> error + bool \<times> till" where
  "compensate_missing w r t = (case lockPackRefund (prf_id r) t of
     None \<Rightarrow> Inr (False, t)
   | Some l \<Rightarrow> if prf_status l \<noteq> Pr_letters_revoked then Inr (False, t)
       else bindE (compensatePackRefund w l \<lparr> cp2_error_code = ''PACK_REFUND_NOT_AT_STRIPE'',
              cp2_failure_reason = Some ''not_at_stripe'', cp2_refund_id = None \<rparr> t) (\<lambda>(st, t1). Inr (True, t1)))"

text \<open>One row of the sweep; an error leaves what was committed before it.\<close>

definition sweep_row :: "pay_world \<Rightarrow> pack_refund_calls \<Rightarrow> pack_refund \<Rightarrow> sweep_counts \<times> till \<Rightarrow> sweep_counts \<times> till" where
  "sweep_row w calls r acc = (case acc of (n, t) \<Rightarrow>
     (let atLimit = (refund_attempt_limit (pw_env w) \<le> prf_attempts r)
      in case pc_list calls (prf_intent r) of
           Inl f \<Rightarrow> (n, wait_for_stripe w atLimit r f t)
         | Inr refunds \<Rightarrow>
             let t1 = note_passed_over r (passed_over r refunds) t
             in (case refund_at_stripe r refunds of
                   Some q \<Rightarrow> (case finalizeWithStripe w r q ''pack_refund.sweep_adopted'' t1 of
                       Inl e \<Rightarrow> (n, t1) | Inr (st, t2) \<Rightarrow> (n\<lparr>sw_adopted := Suc (sw_adopted n)\<rparr>, t2))
                 | None \<Rightarrow>
                     if atLimit
                     then (case compensate_missing w r t1 of
                         Inl e \<Rightarrow> (n, t1)
                       | Inr (done, t2) \<Rightarrow> (if done then n\<lparr>sw_compensated := Suc (sw_compensated n)\<rparr> else n, t2))
                     else (case submitPackRefund w calls r t1 of
                         Inl e \<Rightarrow> (n, t1) | Inr (st, t2) \<Rightarrow> (n\<lparr>sw_retried := Suc (sw_retried n)\<rparr>, t2)))))"

definition pending_rows :: "instant \<Rightarrow> till \<Rightarrow> pack_refund list" where
  "pending_rows now t = take 50 (sort_key prf_created_at
     (filter (\<lambda>r. prf_status r = Pr_stripe_pending \<and> prf_updated_at r \<le> now - 30 * day_ms) (pack_refunds t)))"

definition settle_row :: "pay_world \<Rightarrow> pack_refund_calls \<Rightarrow> pack_refund \<Rightarrow> sweep_counts \<times> till \<Rightarrow> sweep_counts \<times> till" where
  "settle_row w calls r acc = (case acc of (n, t) \<Rightarrow> (case or_null_str (prf_refund_id r) of
     None \<Rightarrow> (n, t)
   | Some rid \<Rightarrow> (case pc_retrieve calls rid of
       Inl f \<Rightarrow> (n, t)
     | Inr q \<Rightarrow> (case finalizeWithStripe w r q ''pack_refund.sweep_settled'' t of
         Inl e \<Rightarrow> (n, t) | Inr (st, t1) \<Rightarrow> (n\<lparr>sw_settled := Suc (sw_settled n)\<rparr>, t1)))))"

definition reconcilePackRefunds :: "pay_world \<Rightarrow> pack_refund_calls \<Rightarrow> till \<Rightarrow> sweep_counts \<times> till" where
  "reconcilePackRefunds w calls t =
     (let (n, t1) = fold (sweep_row w calls) (due_rows (pw_env w) (pw_now w) t)
            (\<lparr> sw_retried = 0, sw_adopted = 0, sw_settled = 0, sw_compensated = 0 \<rparr>, t)
      in fold (settle_row w calls) (pending_rows (pw_now w) t1) (n, t1))"

section \<open>Stripe's events\<close>

text \<open>An event as the switch on its type reads it: a session, a refund or a charge, a dispute, or another.\<close>

datatype session_event_type = Se_completed | Se_async_succeeded | Se_async_failed | Se_expired

fun session_event_text :: "session_event_type \<Rightarrow> string" where
  "session_event_text Se_completed = ''checkout.session.completed''"
| "session_event_text Se_async_succeeded = ''checkout.session.async_payment_succeeded''"
| "session_event_text Se_async_failed = ''checkout.session.async_payment_failed''"
| "session_event_text Se_expired = ''checkout.session.expired''"

datatype refund_event_type = Re_created | Re_updated | Re_failed

fun refund_event_text :: "refund_event_type \<Rightarrow> string" where
  "refund_event_text Re_created = ''refund.created''"
| "refund_event_text Re_updated = ''refund.updated''"
| "refund_event_text Re_failed = ''refund.failed''"

datatype webhook_event =
  We_session session_event_type checkout_session
| We_refund refund_event_type stripe_refund
| We_charge_refunded stripe_charge
| We_dispute dispute_event_type dispute_object
| We_other string string  \<comment> \<open>the type and the id of the object\<close>

definition processStripeWebhookEvent ::
  "pay_world \<Rightarrow> string \<Rightarrow> webhook_event \<Rightarrow> till \<Rightarrow> error + event_result \<times> till" where
  "processStripeWebhookEvent w eventId ev t = (case ev of
     We_session ty cs \<Rightarrow> processCheckoutSessionEvent w eventId (session_event_text ty) cs t
   | We_refund ty q \<Rightarrow> processRefundEvent w eventId (refund_event_text ty) (A_refund q) t
   | We_charge_refunded c \<Rightarrow> processRefundEvent w eventId ''charge.refunded'' (A_charge c) t
   | We_dispute ty d \<Rightarrow> processDisputeEvent w eventId ty d t
   | We_other ty objectId \<Rightarrow>
       (let (fresh, t1) = claimStripeEvent (pw_now w) eventId ty objectId t
        in Inr (if fresh then unmatched_event else duplicate_event, t1)))"

end
