(* ===== verification/JitCheckout.thy ===== *)
theory JitCheckout
  imports Payments
begin

text \<open>
  Opening a Pay and Send checkout (src/services/commerceService.ts, \<open>prepareJitOrder\<close> and
  \<open>createJitCheckout\<close>; the product's configuration is src/services/stripeService.ts'): the checks of the draft,
  the order that is already open for it, the price that order would be paid at, and the new order.

  Parameters: \<open>jw_prices\<close>, the amount the price catalog resolved for a product; \<open>jw_urls\<close>, the return addresses of
  an order; Stripe's answer to opening a session. A refusal that first cancels the open order commits that
  cancel, so \<open>prepareJitOrder\<close> answers it as a value beside the store.
\<close>

section \<open>Parameters\<close>

record jit_world =
  jw_pay :: pay_world
  jw_prices :: "string \<Rightarrow> int option"
  jw_urls :: "string \<Rightarrow> string \<times> string"

record jit_checkout_params =
  kp_draft :: string
  kp_user :: string
  kp_allowDuplicate :: bool
  kp_contentVersion :: "string option"
  kp_returnTo :: "(string \<times> string) option"

definition jw_env :: "jit_world \<Rightarrow> environment" where "jw_env w = pw_env (jw_pay w)"

text \<open>Names and descriptions of the products sold through Pay and Send.\<close>

definition jit_thing :: "string \<Rightarrow> string \<times> string" where
  "jit_thing code = (case map_of
     [(''jit-letter'', (''Physical Letter'', ''letter'')), (''jit-postcard'', (''Physical Postcard'', ''postcard'')),
      (''jit-letter-2-pages'', (''Two-Page Letter'', ''two-page letter'')),
      (''jit-letter-3-pages'', (''Three-Page Letter'', ''three-page letter'')),
      (''jit-postcard-4x6'', (''4x6 Postcard'', ''4x6 postcard'')), (''jit-postcard-11x6'', (''11x6 Postcard'', ''11x6 postcard'')),
      (''jit-letter-certified'', (''Certified Mail Letter'', ''letter as USPS Certified Mail'')),
      (''jit-letter-certified-receipt'', (''Certified Mail Letter with Return Receipt'',
         ''letter as USPS Certified Mail with an electronic return receipt''))] code of
     None \<Rightarrow> ([], []) | Some p \<Rightarrow> p)"

definition jit_name :: "string \<Rightarrow> string" where
  "jit_name code = ''Pay & Send One '' @ fst (jit_thing code)"

definition jit_description :: "string \<Rightarrow> string" where
  "jit_description code = ''Payment authorizes Letter IRL to print and mail this exact '' @ snd (jit_thing code) @ ''.''"

fun mail_type_name :: "mail_type \<Rightarrow> string" where
  "mail_type_name Mt_letter = ''letter''"
| "mail_type_name Mt_postcard = ''postcard''"

definition jitProductConfig :: "jit_world \<Rightarrow> jit_product \<Rightarrow> mail_type \<Rightarrow> commerce_product" where
  "jitProductConfig w p mt = (let row = getConfiguredProduct (sw_sha256 (pw_send (jw_pay w))) (jp_code p) (jw_env w) in
     \<lparr> cm_code = jp_code p, cm_name = jit_name (jp_code p), cm_description = jit_description (jp_code p),
       cm_mail_type = Some (mail_type_name mt), cm_credits = None,
       cm_amount = (case jw_prices w (jp_code p) of None \<Rightarrow> 0 | Some n \<Rightarrow> n),
       cm_currency = (case row of None \<Rightarrow> jitCurrency (jw_env w) | Some r \<Rightarrow> cp_expectedCurrency r),
       cm_price_id = (case row of None \<Rightarrow> [] | Some r \<Rightarrow> cp_priceId r) \<rparr>)"

definition getJitProductConfig :: "jit_world \<Rightarrow> mail_option \<Rightarrow> commerce_product option" where
  "getJitProductConfig w opt = map_option (\<lambda>p. jitProductConfig w p (mo_mailType opt)) (jitProductFor opt (jw_env w))"

definition getJitProductConfigForCode :: "jit_world \<Rightarrow> string \<Rightarrow> commerce_product option" where
  "getJitProductConfigForCode w code = (case List.find (\<lambda>p. jp_code p = code) JIT_PRODUCTS of
     None \<Rightarrow> None
   | Some p \<Rightarrow> if isJitProductSold p (jw_env w) then Some (jitProductConfig w p (jp_mailType p)) else None)"

section \<open>The window of a checkout\<close>

definition STRIPE_MIN_CHECKOUT_WINDOW_MS :: int where "STRIPE_MIN_CHECKOUT_WINDOW_MS = 30 * 60000"
definition CHECKOUT_STAMP_MARGIN_MS :: int where "CHECKOUT_STAMP_MARGIN_MS = 5000"
definition CHECKOUT_REUSE_BUDGET_MINUTES :: int where "CHECKOUT_REUSE_BUDGET_MINUTES = 10"

definition checkoutExpiry :: "environment \<Rightarrow> instant \<Rightarrow> instant \<Rightarrow> error + instant" where
  "checkoutExpiry env js draftExpiry =
     (let minutes = min (24 * 60) (max (30 + CHECKOUT_REUSE_BUDGET_MINUTES) (integerSetting ''JIT_CHECKOUT_EXPIRY_MINUTES'' 40 env));
          configured = js + minutes * 60000 + CHECKOUT_STAMP_MARGIN_MS
      in if draftExpiry - js < STRIPE_MIN_CHECKOUT_WINDOW_MS + CHECKOUT_REUSE_BUDGET_MINUTES * 60000 + CHECKOUT_STAMP_MARGIN_MS
         then Inl (Coded_error ''DRAFT_TOO_CLOSE_TO_EXPIRY''
                ''Draft expires too soon to open a safe checkout. Please create a new preview.'')
         else Inr (if configured < draftExpiry then configured else draftExpiry))"

section \<open>What an order sent Stripe\<close>

record jit_stripe_request =
  jr_price :: string
  jr_success :: string
  jr_cancel :: string

definition jitStripeRequest :: "jit_world \<Rightarrow> string \<Rightarrow> commerce_product \<Rightarrow> (string \<times> string) option \<Rightarrow> jit_stripe_request" where
  "jitStripeRequest w oid p returnTo = (let urls = (case returnTo of None \<Rightarrow> jw_urls w oid | Some u \<Rightarrow> u) in
     \<lparr> jr_price = cm_price_id p, jr_success = fst urls, jr_cancel = snd urls \<rparr>)"

definition recordedStripeRequest :: "order \<Rightarrow> jit_stripe_request option" where
  "recordedStripeRequest x = (case map_of (o_product_snapshot x) ''stripeRequest'' of
     Some (JObj kvs) \<Rightarrow> (case (map_of kvs ''priceId'', map_of kvs ''successUrl'', map_of kvs ''cancelUrl'') of
         (Some (JStr p), Some (JStr s), Some (JStr c)) \<Rightarrow> Some \<lparr> jr_price = p, jr_success = s, jr_cancel = c \<rparr>
       | _ \<Rightarrow> None)
   | _ \<Rightarrow> None)"

definition request_json :: "jit_stripe_request \<Rightarrow> json" where
  "request_json r = JObj [(''priceId'', JStr (jr_price r)), (''successUrl'', JStr (jr_success r)), (''cancelUrl'', JStr (jr_cancel r))]"

section \<open>The draft\<close>

definition checkout_draft_refusal :: "jit_world \<Rightarrow> jit_checkout_params \<Rightarrow> draft option \<Rightarrow> error option" where
  "checkout_draft_refusal w p found = (case found of
     None \<Rightarrow> Some (Coded_error ''DRAFT_NOT_FOUND'' ''Draft not found'')
   | Some d \<Rightarrow> first_refusal
       [refuse_if (d_user d \<noteq> kp_user p) ''DRAFT_NOT_OWNED'' ''Draft does not belong to this user'',
        refuse_if (d_status d = D_expired) ''DRAFT_EXPIRED'' ''Draft has expired'',
        refuse_if (d_status d \<noteq> D_pending) ''DRAFT_INVALID_STATE'' (''Draft is '' @ draft_status_text (d_status d)),
        refuse_if (d_expires_at d \<le> pw_js (jw_pay w)) ''DRAFT_EXPIRED'' ''Draft has expired'',
        refuse_if (d_is_gift_send d) ''DRAFT_IS_GIFT'' ''Draft is a gift send'',
        refuse_if (contentVersionMatches (sw_sha256 (pw_send (jw_pay w))) (kp_contentVersion p) d = V_differs)
          ''DRAFT_CHANGED_SINCE_SHOWN'' ''Draft changed since it was shown''])"

text \<open>The product the draft is sold as, at the amount that was checked before its lock.\<close>

definition checkout_product :: "jit_world \<Rightarrow> draft \<Rightarrow> int \<Rightarrow> error + commerce_product" where
  "checkout_product w d checkedCents = (case getJitProductConfig w (draftMailOption d) of
     None \<Rightarrow> Inl (Coded_error ''JIT_OPTION_NOT_SOLD'' ''Pay & Send does not sell this mail option'')
   | Some q \<Rightarrow> if cm_amount q \<noteq> checkedCents
       then Inl (Coded_error ''DRAFT_CHANGED'' ''The draft changed while its checkout was being made'') else Inr q)"

section \<open>The order already open for it\<close>

definition active_jit_order :: "string \<Rightarrow> db \<Rightarrow> order option" where
  "active_jit_order did s = (case sort_key (\<lambda>x. - o_created_at x) (filter (\<lambda>x. o_draft_id x = Some did \<and>
       o_type x = Ot_jit_mail \<and> o_status x \<in> set ACTIVE_JIT_STATUSES) (orders s)) of [] \<Rightarrow> None | x # xs \<Rightarrow> Some x)"

definition has_session :: "order \<Rightarrow> bool" where
  "has_session x \<longleftrightarrow> or_null_str (o_stripe_checkout_session_id x) \<noteq> None \<or> or_null_str (o_checkout_url x) \<noteq> None"

definition opens_session :: "order option \<Rightarrow> bool" where
  "opens_session existing = (case existing of None \<Rightarrow> True
     | Some x \<Rightarrow> o_status x = Ord_checkout_pending \<and> \<not> has_session x)"

definition cancel_open_row :: "string \<Rightarrow> string \<Rightarrow> order \<Rightarrow> order" where
  [row_defs]: "cancel_open_row code message x = (note_failure code message x)\<lparr>o_status := Ord_cancelled\<rparr>"

definition cancel_checkout :: "instant \<Rightarrow> order \<Rightarrow> string \<Rightarrow> string \<Rightarrow> string \<Rightarrow> db \<Rightarrow> error + db" where
  "cancel_checkout now x code message event s = (if o_status x \<noteq> Ord_checkout_pending then Inr s
     else bindE (update_order now (o_id x) (cancel_open_row code message) s)
       (\<lambda>s1. Inr (recordOrderEvent (o_id x) event (Some (o_status x)) (Some Ord_cancelled) [] s1)))"

text \<open>The mail date, when a session would be opened: missed, or full. \<open>missed\<close> alone is told with a reused order.\<close>

definition mail_date_missed :: "jit_world \<Rightarrow> (string \<times> string) option \<Rightarrow> error + bool" where
  "mail_date_missed w schedule = (case schedule of None \<Rightarrow> Inr False
     | Some sched \<Rightarrow> bindE (thrown (earliestMailOn (sw_zone (pw_send (jw_pay w))) (pw_js (jw_pay w))))
         (\<lambda>today. Inr (js_less (snd sched) today)))"

definition schedule_refusal :: "jit_world \<Rightarrow> (string \<times> string) option \<Rightarrow> bool \<Rightarrow> bool \<Rightarrow> db \<Rightarrow> error + (string \<times> string) option" where
  "schedule_refusal w schedule opens missed s = (case schedule of
     None \<Rightarrow> Inr None
   | Some sched \<Rightarrow>
       if \<not> opens then Inr None
       else if missed then Inr (Some (''SCHEDULE_PASSED'', ''Draft has missed its mail date''))
       else bindE (thrown (fullMailDate (sw_zone (pw_send (jw_pay w))) (jw_env w) sched (pw_js (jw_pay w)) s))
         (\<lambda>full. Inr (if full = None then None else Some (''SCHEDULE_FULL'', ''Draft mail date is full''))))"

datatype open_order =
  Reuse order "(string \<times> string) option"
| Replace order string string string  \<comment> \<open>code, message, event\<close>
| Go_on

definition same_price :: "order \<Rightarrow> commerce_product \<Rightarrow> jit_stripe_request \<Rightarrow> bool" where
  "same_price x p current \<longleftrightarrow> o_amount_cents x = cm_amount p \<and>
     normalizedCurrency (Some (o_currency x)) [] = normalizedCurrency (Some (cm_currency p)) [] \<and>
     (case recordedStripeRequest x of None \<Rightarrow> True | Some r \<Rightarrow> jr_price r = jr_price current)"

definition same_return :: "order \<Rightarrow> jit_stripe_request \<Rightarrow> bool" where
  "same_return x current \<longleftrightarrow> (case recordedStripeRequest x of None \<Rightarrow> True
     | Some r \<Rightarrow> jr_success r = jr_success current \<and> jr_cancel r = jr_cancel current)"

text \<open>Stripe opens a session for half an hour at least: an order whose window is shorter cannot be retried.\<close>

definition window_too_short :: "instant \<Rightarrow> order \<Rightarrow> bool" where
  "window_too_short js x \<longleftrightarrow> o_status x = Ord_checkout_pending \<and> or_null_str (o_stripe_checkout_session_id x) = None \<and>
     (case o_checkout_expires_at x of None \<Rightarrow> False
      | Some e \<Rightarrow> e \<le> js + STRIPE_MIN_CHECKOUT_WINDOW_MS + CHECKOUT_STAMP_MARGIN_MS)"

definition past_window :: "instant \<Rightarrow> order \<Rightarrow> bool" where
  "past_window js x \<longleftrightarrow> (case o_checkout_expires_at x of None \<Rightarrow> False | Some e \<Rightarrow> e \<le> js)"

definition other_product :: "order \<Rightarrow> draft \<Rightarrow> bool" where
  "other_product x d \<longleftrightarrow> o_product_code x \<noteq> [] \<and> (case jitProductMatching (draftMailOption d) of
     None \<Rightarrow> False | Some p \<Rightarrow> jp_code p \<noteq> o_product_code x)"

definition open_order_decision ::
  "jit_world \<Rightarrow> jit_checkout_params \<Rightarrow> draft \<Rightarrow> commerce_product \<Rightarrow> (string \<times> string) option \<Rightarrow> bool \<Rightarrow> order \<Rightarrow> error + open_order" where
  "open_order_decision w p d q schedule missed x =
     (let js = pw_js (jw_pay w); current = jitStripeRequest w (o_id x) q (kp_returnTo p) in
      if window_too_short js x
      then Inr (if past_window js x
        then Replace x ''CHECKOUT_EXPIRED'' ''Checkout window expired before a session was opened'' ''checkout.expired_locally''
        else Replace x ''CHECKOUT_WINDOW_TOO_SHORT'' ''Checkout window too short for Stripe to open a session''
               ''checkout.window_too_short'')
      else if has_session x
      then if o_status x = Ord_checkout_pending \<and> other_product x d
           then Inl (Coded_error ''PREVIOUS_CHECKOUT_CLOSING'' ''The previous checkout for this draft is still closing'')
           else Inr (Reuse x (if o_status x = Ord_checkout_pending \<and> missed then schedule else None))
      else if o_status x \<noteq> Ord_checkout_pending then Inr (Reuse x None)
      else if cm_amount q \<le> 0 then Inr Go_on
      else if same_price x q current \<and> same_return x current then Inr (Reuse x None)
      else if same_price x q current
      then Inr (Replace x ''CHECKOUT_REQUEST_CHANGED_BEFORE_SESSION''
             ''Checkout return address changed before a session was opened'' ''checkout.request_changed_locally'')
      else Inr (Replace x ''PRICE_CHANGED_BEFORE_SESSION'' ''Configured price changed before a session was opened''
             ''checkout.repriced_locally''))"

section \<open>The order prepared\<close>

text \<open>What stands between the draft and a new order.\<close>

definition new_order_refusal :: "jit_world \<Rightarrow> jit_checkout_params \<Rightarrow> draft \<Rightarrow> commerce_product \<Rightarrow> db \<Rightarrow> error option" where
  "new_order_refusal w p d q s = first_refusal
     [refuse_if (cm_price_id q = [] \<or> cm_amount q \<le> 0) ''JIT_NOT_CONFIGURED'' ''Pay & Send pricing is not configured'',
      refuse_if (jw_env w ''JIT_ALLOW_WITH_PREPAID_BALANCE'' \<noteq> Some ''true'' \<and> isPackPayable (draftMailOption d) \<and>
          d_required_credits d \<le> balance_of (kp_user p) s)
        ''PREPAID_BALANCE_AVAILABLE'' ''This draft can be sent from the existing prepaid balance'']"

definition jit_order :: "jit_world \<Rightarrow> string \<Rightarrow> jit_checkout_params \<Rightarrow> commerce_product \<Rightarrow> instant \<Rightarrow> order" where
  "jit_order w oid p q expires = new_order (pw_now (jw_pay w)) oid (kp_user p) Ot_jit_mail (Some (kp_draft p)) q
     (productSnapshot q @ [(''stripeRequest'', request_json (jitStripeRequest w oid q (kp_returnTo p)))]) None
     (''jit-checkout:'' @ oid) (Some expires)"

definition open_jit_order ::
  "jit_world \<Rightarrow> string \<Rightarrow> jit_checkout_params \<Rightarrow> draft \<Rightarrow> commerce_product \<Rightarrow> db \<Rightarrow> error + order \<times> db" where
  "open_jit_order w oid p d q s =
     (case new_order_refusal w p d q s of Some e \<Rightarrow> Inl e | None \<Rightarrow>
      bindE (checkoutExpiry (jw_env w) (pw_js (jw_pay w)) (d_expires_at d)) (\<lambda>expires.
      (case (if kp_allowDuplicate p then None
             else assertNoRecentDuplicateMail (sw_unicode (pw_send (jw_pay w))) (sw_md5 (pw_send (jw_pay w)))
               (pw_now (jw_pay w)) (kp_user p) (kp_draft p) None s) of
        Some e \<Rightarrow> Inl e
      | None \<Rightarrow> bindE (insert_order (jit_order w oid p q expires) s) (\<lambda>s1.
          (case first_refusal [assertAccountMayPurchase (kp_user p) s1,
                  assertMailWithinDailyCaps (jw_env w) (pw_now (jw_pay w)) (kp_user p) 0 True s1] of
             Some e \<Rightarrow> Inl e
           | None \<Rightarrow> Inr (jit_order w oid p q expires,
               recordOrderEvent oid ''order.created'' None (Some Ord_checkout_pending) [] s1))))))"

record prepared_order =
  pq_order :: order
  pq_reused :: bool
  pq_missed :: "(string \<times> string) option"

definition prepareJitOrder ::
  "jit_world \<Rightarrow> string \<Rightarrow> jit_checkout_params \<Rightarrow> int \<Rightarrow> db \<Rightarrow> error + (error + prepared_order) \<times> db" where
  "prepareJitOrder w oid p checkedCents s =
     (let now = pw_now (jw_pay w) in
      case checkout_draft_refusal w p (find_draft (kp_draft p) s) of Some e \<Rightarrow> Inl e | None \<Rightarrow>
      (case find_draft (kp_draft p) s of None \<Rightarrow> Inl (Error []) | Some d \<Rightarrow>
       bindE (draftScheduleOf (d_arrive_by d) (d_mail_on d)) (\<lambda>schedule.
       bindE (checkout_product w d checkedCents) (\<lambda>q.
       bindE (mail_date_missed w schedule) (\<lambda>missed.
       let existing = active_jit_order (kp_draft p) s in
       bindE (schedule_refusal w schedule (opens_session existing) missed s) (\<lambda>refusal.
       case refusal of
         Some (code, message) \<Rightarrow>
           (case existing of
              None \<Rightarrow> Inl (Coded_error code message)
            | Some x \<Rightarrow> bindE (cancel_checkout now x code
                  (if code = ''SCHEDULE_PASSED'' then ''Mail date passed before a session was opened''
                   else ''Mail date full before a session was opened'') ''checkout.schedule_refused'' s)
                (\<lambda>s1. Inr (Inl (Coded_error code message), s1)))
       | None \<Rightarrow>
           bindE (case existing of None \<Rightarrow> Inr Go_on | Some x \<Rightarrow> open_order_decision w p d q schedule missed x) (\<lambda>decision.
           case decision of
             Reuse x told \<Rightarrow> Inr (Inr \<lparr> pq_order = x, pq_reused = True, pq_missed = told \<rparr>, s)
           | Go_on \<Rightarrow> bindE (open_jit_order w oid p d q s)
               (\<lambda>(y, s1). Inr (Inr \<lparr> pq_order = y, pq_reused = False, pq_missed = None \<rparr>, s1))
           | Replace x code message event \<Rightarrow>
               bindE (cancel_checkout now x code message event s) (\<lambda>s1.
               bindE (open_jit_order w oid p d q s1)
               (\<lambda>(y, s2). Inr (Inr \<lparr> pq_order = y, pq_reused = False, pq_missed = None \<rparr>, s2))))))))))"

section \<open>The checkout\<close>

definition jit_gate_refusal :: "jit_world \<Rightarrow> jit_checkout_params \<Rightarrow> db \<Rightarrow> error option" where
  "jit_gate_refusal w p s = first_refusal
     [refuse_if (\<not> isJitPurchaseEnabled (jw_env w)) ''JIT_DISABLED'' ''Pay & Send is not currently enabled'',
      refuse_if (\<not> isBetaAccessAllowed (kp_user p) (jw_env w)) ''BETA_ACCESS_DENIED'' BETA_ACCESS_MESSAGE,
      (case blocked_reason (kp_user p) s of None \<Rightarrow> None
       | Some r \<Rightarrow> Some (Coded_error ''ACCOUNT_SENDS_BLOCKED''
           (''Sending is disabled on this account ('' @ r @ ''). Contact support.'')))]"

text \<open>The amount of the option as read before any lock: a draft not there is priced as a letter.\<close>

definition peeked_option :: "jit_checkout_params \<Rightarrow> db \<Rightarrow> mail_option" where
  "peeked_option p s = (case find_draft (kp_draft p) s of
     Some d \<Rightarrow> if d_user d = kp_user p then draftMailOption d
       else \<lparr> mo_mailType = Mt_letter, mo_pages = None, mo_postcardSize = None, mo_mailService = None \<rparr>
   | None \<Rightarrow> \<lparr> mo_mailType = Mt_letter, mo_pages = None, mo_postcardSize = None, mo_mailService = None \<rparr>)"

definition checked_cents :: "jit_world \<Rightarrow> jit_checkout_params \<Rightarrow> db \<Rightarrow> int" where
  "checked_cents w p s = (case getJitProductConfig w (peeked_option p s) of None \<Rightarrow> 0 | Some q \<Rightarrow> cm_amount q)"

definition cap_refusal :: "jit_world \<Rightarrow> jit_checkout_params \<Rightarrow> db \<Rightarrow> error option" where
  "cap_refusal w p s = first_refusal
     [assertMailWithinDailyCaps (jw_env w) (pw_now (jw_pay w)) (kp_user p) 1 False s,
      assertChargeWithinDailyCap (jw_env w) (pw_now (jw_pay w)) (kp_user p) (checked_cents w p s) s]"

record jit_checkout =
  kc_order :: order
  kc_reused :: bool
  kc_missed :: "(string \<times> string) option"

definition unsold_answer :: "string \<Rightarrow> session_answer" where
  "unsold_answer code = \<lparr> sa_success = False, sa_session = None, sa_url = None, sa_expires_at = None,
     sa_error = Some (''Pay & Send no longer sells '' @ code), sa_error_code = Some ''PRICE_ID_NOT_CONFIGURED'',
     sa_class = Some ''configuration_error'' \<rparr>"

definition failed_checkout :: "instant \<Rightarrow> string \<Rightarrow> session_answer \<Rightarrow> db \<Rightarrow> (error + 'a) \<times> db" where
  "failed_checkout now oid a s = (case failCheckoutCreation now oid a ''Failed to create Pay & Send checkout'' s of
     Inl e \<Rightarrow> (Inl e, s) | Inr (e, s1) \<Rightarrow> (Inl e, s1))"

text \<open>Stripe's session for the prepared order, at the price of the order's own product; \<open>open_session\<close> is its answer.\<close>

definition open_stripe_session ::
  "jit_world \<Rightarrow> (order \<Rightarrow> commerce_product \<Rightarrow> session_answer) \<Rightarrow> prepared_order \<Rightarrow> db \<Rightarrow> (error + jit_checkout) \<times> db" where
  "open_stripe_session w open_session r s =
     (let x = pq_order r; now = pw_now (jw_pay w) in
      case getJitProductConfigForCode w (o_product_code x) of
        None \<Rightarrow> failed_checkout now (o_id x) (unsold_answer (o_product_code x)) s
      | Some q \<Rightarrow> (let a = open_session x q in case (sa_success a, or_null_str (sa_session a)) of
          (True, Some sid) \<Rightarrow> (case attachCheckout now (o_id x) sid (sa_url a) (sa_expires_at a) s of
              Inl e \<Rightarrow> (Inl e, s)
            | Inr (y, s1) \<Rightarrow> (Inr \<lparr> kc_order = y, kc_reused = pq_reused r, kc_missed = pq_missed r \<rparr>, s1))
        | _ \<Rightarrow> failed_checkout now (o_id x) a s))"

definition createJitCheckout ::
  "jit_world \<Rightarrow> (order \<Rightarrow> commerce_product \<Rightarrow> session_answer) \<Rightarrow> string \<Rightarrow> jit_checkout_params \<Rightarrow> db \<Rightarrow>
   (error + jit_checkout) \<times> db" where
  "createJitCheckout w open_session oid p s =
     (case first_refusal [jit_gate_refusal w p s, cap_refusal w p s] of Some e \<Rightarrow> (Inl e, s) | None \<Rightarrow>
      (case prepareJitOrder w oid p (checked_cents w p s) s of
         Inl e \<Rightarrow> (Inl e, s)
       | Inr (Inl e, s1) \<Rightarrow> (Inl e, s1)
       | Inr (Inr r, s1) \<Rightarrow>
           if o_status (pq_order r) \<noteq> Ord_checkout_pending \<or> or_null_str (o_checkout_url (pq_order r)) \<noteq> None
           then (Inr \<lparr> kc_order = pq_order r, kc_reused = True, kc_missed = pq_missed r \<rparr>, s1)
           else open_stripe_session w open_session r s1))"

end
