(* ===== verification/CommerceRun.thy ===== *)
theory CommerceRun
  imports PackRefunds JitCheckout
begin

text \<open>
  What drives the commerce service (src/services/commerceService.ts): the maintenance run, and the figures
  a customer reads of a pack.
\<close>

section \<open>Maintenance\<close>

record maintenance_counts =
  mc_expired :: nat
  mc_recovered :: nat
  mc_reconciled :: nat
  mc_refunds :: nat
  mc_stuck :: nat

text \<open>
  \<open>world\<close> gives each order's fulfilment its clocks and fresh ids; \<open>retrieve\<close> is Stripe's answer for a session.
  Every order is a transaction of its own: one that throws leaves the till as it was.
\<close>

definition paid_orders :: "db \<Rightarrow> string list" where
  "paid_orders s = map o_id (take 25 (sort_key (\<lambda>x. (nulls_first (o_paid_at x), o_created_at x))
     (filter (\<lambda>x. o_type x = Ot_jit_mail \<and> o_status x = Ord_paid) (orders s))))"

definition recover_one :: "(string \<Rightarrow> pay_world) \<Rightarrow> string \<Rightarrow> maintenance_counts \<times> till \<Rightarrow> maintenance_counts \<times> till" where
  "recover_one world oid acc = (case acc of (n, t) \<Rightarrow> (case fulfillPaidOrder (world oid) oid t of
     Inl e \<Rightarrow> (n, t)
   | Inr (b, t1) \<Rightarrow> (if b then n\<lparr>mc_recovered := Suc (mc_recovered n)\<rparr> else n, t1)))"

definition open_sessions :: "instant \<Rightarrow> db \<Rightarrow> (string \<times> string) list" where
  "open_sessions now s = map (\<lambda>x. (o_id x, or_str (o_stripe_checkout_session_id x) [])) (take 25 (sort_key o_created_at
     (filter (\<lambda>x. o_status x = Ord_checkout_pending \<and> o_stripe_checkout_session_id x \<noteq> None \<and>
       o_created_at x < now - 2 * 60000) (orders s))))"

definition reconcile_session ::
  "(string \<Rightarrow> pay_world) \<Rightarrow> (string \<Rightarrow> error + checkout_session) \<Rightarrow> string \<times> string \<Rightarrow>
   maintenance_counts \<times> till \<Rightarrow> maintenance_counts \<times> till" where
  "reconcile_session world retrieve row acc = (case (row, acc) of ((oid, sid), (n, t)) \<Rightarrow> (case retrieve sid of
     Inl e \<Rightarrow> (n, t)
   | Inr cs \<Rightarrow>
       if cs_payment_status cs = ''paid''
       then (case processCheckoutSessionEvent (world oid)
               (''reconcile:'' @ cs_id cs @ '':'' @ or_str (paymentIntentId cs) ''paid'') ''maintenance.checkout.reconciled'' cs t of
           Inl e \<Rightarrow> (n, t)
         | Inr (r, t1) \<Rightarrow> (if er_duplicate r then n else n\<lparr>mc_reconciled := Suc (mc_reconciled n)\<rparr>, t1))
       else if cs_status cs = Some ''expired''
       then (case processCheckoutSessionEvent (world oid) (''reconcile:'' @ cs_id cs @ '':expired'') ''checkout.session.expired'' cs t of
           Inl e \<Rightarrow> (n, t)
         | Inr (r, t1) \<Rightarrow> (if \<not> er_duplicate r \<and> er_status r = Some Ord_cancelled
             then n\<lparr>mc_expired := Suc (mc_expired n)\<rparr> else n, t1))
       else (n, t)))"

definition refund_one ::
  "(string \<Rightarrow> pay_world) \<Rightarrow> stripe_calls \<Rightarrow> string \<Rightarrow> maintenance_counts \<times> till \<Rightarrow> maintenance_counts \<times> till" where
  "refund_one world calls oid acc = (case acc of (n, t) \<Rightarrow> (case requestRefund (world oid) calls oid t of
     Inl e \<Rightarrow> (n, t)
   | Inr (b, t1) \<Rightarrow> (if b then n\<lparr>mc_refunds := Suc (mc_refunds n)\<rparr> else n, t1)))"

definition runCommerceMaintenance ::
  "(string \<Rightarrow> pay_world) \<Rightarrow> (string \<Rightarrow> error + checkout_session) \<Rightarrow> stripe_calls \<Rightarrow> environment \<Rightarrow> instant \<Rightarrow> till \<Rightarrow>
   maintenance_counts \<times> till" where
  "runCommerceMaintenance world retrieve calls env now t =
     (let a1 = fold (recover_one world) (paid_orders (till_db t))
            (\<lparr> mc_expired = 0, mc_recovered = 0, mc_reconciled = 0, mc_refunds = 0, mc_stuck = 0 \<rparr>, t);
          (n2, t2) = fold (reconcile_session world retrieve) (open_sessions now (till_db (snd a1))) a1;
          (orphans, s3) = cancel_orphans now (till_db t2);
          (n4, t4) = fold (refund_one world calls) (due_refunds env now s3)
            (n2\<lparr>mc_expired := mc_expired n2 + orphans\<rparr>, t2\<lparr>till_db := s3\<rparr>)
      in (n4\<lparr>mc_stuck := length (filter (\<lambda>x. STUCK_ORDER_CONDITION now x (till_db t4)) (orders (till_db t4)))\<rparr>, t4))"

section \<open>What a customer reads of a pack\<close>

record pack_figures =
  pf_letters :: int
  pf_remaining :: int
  pf_refunded :: int
  pf_per_letter :: int
  pf_refundable :: int
  pf_amount_refunded :: int

definition live_credits :: "instant \<Rightarrow> order \<Rightarrow> db \<Rightarrow> int" where
  "live_credits now x s = sum_list (map le_remaining (filter (\<lambda>e. le_status e = Lot_active \<and> 0 < le_remaining e \<and>
     (case le_expires_at e of None \<Rightarrow> True | Some u \<Rightarrow> now < u)) (filter (revocable x) (ledger s))))"

definition readPackPurchaseFigures :: "instant \<Rightarrow> order \<Rightarrow> db \<Rightarrow> pack_figures option" where
  "readPackPurchaseFigures now x s =
     (let credits = (case o_credits x of None \<Rightarrow> 0 | Some n \<Rightarrow> n); pack = credits div CREDITS_PER_LETTER;
          remaining = live_credits now x s div CREDITS_PER_LETTER
      in if o_type x \<noteq> Ot_letter_pack \<or> credits \<le> 0 \<or> credits mod CREDITS_PER_LETTER \<noteq> 0 then None
         else Some \<lparr> pf_letters = pack, pf_remaining = remaining, pf_refunded = o_credits_refunded x div CREDITS_PER_LETTER,
           pf_per_letter = o_amount_cents x div pack,
           pf_refundable = (if o_status x = Ord_fulfilled \<and> o_credits_refunded x = 0 then remaining * o_amount_cents x div pack else 0),
           pf_amount_refunded = o_amount_refunded_cents x \<rparr>)"

end
