(* ===== verification/CommerceLaws.thy ===== *)
theory CommerceLaws
  imports CommerceRun MailSendLaws
begin

text \<open>
  What every operation of the commerce service leaves of the orders, the purchase grants and Stripe's events.
  The locale \<open>evolution\<close> is the contract of a relation between a state and a later one that chains; its lemmas
  carry a relation through the fallible steps of an operation. It is interpreted for the store
  (\<open>calm\<close>: orders evolve, no purchase grant, the rows of the orders stay valid) and for the till (\<open>evolves\<close>).
\<close>

section \<open>Relations that chain\<close>

definition keeps :: "('s \<Rightarrow> 's \<Rightarrow> bool) \<Rightarrow> 's \<Rightarrow> 'e + 'a \<times> 's \<Rightarrow> bool" where
  "keeps R s m \<longleftrightarrow> (case m of Inl e \<Rightarrow> True | Inr (x, s') \<Rightarrow> R s s')"

definition kept :: "('s \<Rightarrow> 's \<Rightarrow> bool) \<Rightarrow> 's \<Rightarrow> 'e + 's \<Rightarrow> bool" where
  "kept R s m \<longleftrightarrow> (case m of Inl e \<Rightarrow> True | Inr s' \<Rightarrow> R s s')"

lemma keeps_simps [simp]: "keeps R s (Inl e)" "keeps R s (Inr (x, s')) \<longleftrightarrow> R s s'"
  and kept_simps [simp]: "kept R s (Inl e)" "kept R s (Inr s') \<longleftrightarrow> R s s'"
  by (simp_all add: keeps_def kept_def)

lemma keepsD: "keeps R s m \<Longrightarrow> m = Inr (x, s') \<Longrightarrow> R s s'"
  by simp

lemma keptD: "kept R s m \<Longrightarrow> m = Inr s' \<Longrightarrow> R s s'"
  by simp

lemma keepsI: "(\<And>x s'. m = Inr (x, s') \<Longrightarrow> R s s') \<Longrightarrow> keeps R s m"
  by (auto simp: keeps_def split: sum.split prod.split)

lemma keptI: "(\<And>s'. m = Inr s' \<Longrightarrow> R s s') \<Longrightarrow> kept R s m"
  by (auto simp: kept_def split: sum.split)

locale evolution =
  fixes R :: "'s \<Rightarrow> 's \<Rightarrow> bool"
  assumes here: "R s s" and on: "R s s' \<Longrightarrow> R s' s'' \<Longrightarrow> R s s''"
begin

lemma keeps_after: "R s s' \<Longrightarrow> keeps R s' m \<Longrightarrow> keeps R s m"
  by (auto simp: keeps_def intro: on split: sum.splits)

lemma kept_after: "R s s' \<Longrightarrow> kept R s' m \<Longrightarrow> kept R s m"
  by (auto simp: kept_def intro: on split: sum.splits)

lemma keeps_bind: "keeps R s m \<Longrightarrow> (\<And>x s'. m = Inr (x, s') \<Longrightarrow> R s s' \<Longrightarrow> keeps R s' (f (x, s'))) \<Longrightarrow> keeps R s (bindE m f)"
  by (cases m) (auto intro: keeps_after)

lemma keeps_bind1: "kept R s m \<Longrightarrow> (\<And>s'. m = Inr s' \<Longrightarrow> R s s' \<Longrightarrow> keeps R s' (f s')) \<Longrightarrow> keeps R s (bindE m f)"
  by (cases m) (auto intro: keeps_after)

lemma kept_bind: "keeps R s m \<Longrightarrow> (\<And>x s'. m = Inr (x, s') \<Longrightarrow> R s s' \<Longrightarrow> kept R s' (f (x, s'))) \<Longrightarrow> kept R s (bindE m f)"
  by (cases m) (auto intro: kept_after)

lemma kept_bind1: "kept R s m \<Longrightarrow> (\<And>s'. m = Inr s' \<Longrightarrow> R s s' \<Longrightarrow> kept R s' (f s')) \<Longrightarrow> kept R s (bindE m f)"
  by (cases m) (auto intro: kept_after)

lemma folded: "(\<And>x s. R s (f x s)) \<Longrightarrow> R s (fold f xs s)"
  by (induction xs arbitrary: s) (auto intro: here on)

end

section \<open>How an order evolves\<close>

abbreviation funded :: "order \<Rightarrow> bool" where
  "funded x \<equiv> o_status x \<in> set FUNDED_OR_REVERSED_ORDER_STATUSES"

definition row_sound :: "order \<Rightarrow> bool" where
  "row_sound x \<longleftrightarrow> 0 \<le> o_refund_attempts x \<and> o_stripe_refund_id x \<noteq> Some []"

definition order_on :: "order \<Rightarrow> order \<Rightarrow> bool" where
  "order_on x y \<longleftrightarrow> o_id y = o_id x \<and> o_user y = o_user x \<and> o_type y = o_type x \<and> o_draft_id y = o_draft_id x \<and>
     o_credits y = o_credits x \<and> o_amount_cents y = o_amount_cents x \<and> o_currency y = o_currency x \<and>
     o_product_code y = o_product_code x \<and> o_idempotency_key y = o_idempotency_key x \<and>
     o_refund_attempts x \<le> o_refund_attempts y \<and> (row_sound x \<longrightarrow> row_sound y) \<and> (funded x \<longrightarrow> funded y)"

text \<open>And no order becomes fulfilled, but by the payment of a pack.\<close>

definition order_le :: "order \<Rightarrow> order \<Rightarrow> bool" where
  "order_le x y \<longleftrightarrow> order_on x y \<and> (o_status y = Ord_fulfilled \<longrightarrow> o_status x = Ord_fulfilled)"

lemma order_on_refl [simp]: "order_on x x"
  by (simp add: order_on_def)

lemma order_on_trans: "order_on x y \<Longrightarrow> order_on y z \<Longrightarrow> order_on x z"
  by (auto simp: order_on_def)

lemma order_le_refl [simp]: "order_le x x"
  by (simp add: order_le_def)

definition orders_evolve :: "db \<Rightarrow> db \<Rightarrow> bool" where
  "orders_evolve s s' \<longleftrightarrow>
     (\<forall>oid x. find_order oid s = Some x \<longrightarrow> (\<exists>y. find_order oid s' = Some y \<and> order_on x y)) \<and>
     (\<forall>oid y. find_order oid s = None \<longrightarrow> find_order oid s' = Some y \<longrightarrow> row_sound y)"

lemma orders_evolve_refl: "orders_evolve s s"
  by (simp add: orders_evolve_def)

lemma orders_evolve_trans:
  assumes "orders_evolve s s'" and "orders_evolve s' s''" shows "orders_evolve s s''"
  unfolding orders_evolve_def
proof (intro conjI allI impI)
  fix oid x
  assume "find_order oid s = Some x"
  then show "\<exists>y. find_order oid s'' = Some y \<and> order_on x y"
    using assms unfolding orders_evolve_def by (meson order_on_trans)
next
  fix oid z
  assume none: "find_order oid s = None" and z: "find_order oid s'' = Some z"
  show "row_sound z"
  proof (cases "find_order oid s'")
    case None
    then show ?thesis using assms(2) z by (simp add: orders_evolve_def)
  next
    case (Some y)
    then have "row_sound y" using assms(1) none by (auto simp: orders_evolve_def)
    moreover obtain z' where "find_order oid s'' = Some z'" "order_on y z'"
      using assms(2) Some unfolding orders_evolve_def by blast
    ultimately show ?thesis using z by (simp add: order_on_def)
  qed
qed

text \<open>The purchase grants: the order a lot is attributed to and refers to, whose it is and its credits.\<close>

definition granted :: "db \<Rightarrow> (string option \<times> string option \<times> string \<times> int) list" where
  "granted s = map (\<lambda>e. (le_source_order_id e, le_source_reference_id e, le_user e, le_initial e))
     (filter (\<lambda>e. le_source_type e = Src_purchase) (ledger s))"

text \<open>The rows of the orders: distinct ids, and every row passes the CHECKs and unique indexes beside the others.\<close>

definition orders_ok :: "db \<Rightarrow> bool" where
  "orders_ok s \<longleftrightarrow> distinct (map o_id (orders s)) \<and>
     (\<forall>x\<in>set (orders s). order_row_refusal x (filter (\<lambda>y. o_id y \<noteq> o_id x) (orders s)) = None)"

text \<open>An operator's command stays on record.\<close>

definition audits_kept :: "db \<Rightarrow> db \<Rightarrow> bool" where
  "audits_kept s s' \<longleftrightarrow> (\<forall>k a. find_audit k s = Some a \<longrightarrow> find_audit k s' = Some a)"

lemma audits_same: "audits s' = audits s \<Longrightarrow> audits_kept s s'"
  by (simp add: audits_kept_def find_audit_def)

text \<open>The orders a payment settled: fulfilled, or with a purchase granted.\<close>

definition fulfilled_orders :: "db \<Rightarrow> string set" where
  "fulfilled_orders s = {oid. \<exists>x. find_order oid s = Some x \<and> o_status x = Ord_fulfilled}"

definition settled_orders :: "db \<Rightarrow> string set" where
  "settled_orders s = fulfilled_orders s \<union> {oid. Some oid \<in> fst ` set (granted s)}"

definition steady :: "db \<Rightarrow> db \<Rightarrow> bool" where
  "steady s s' \<longleftrightarrow> (orders_ok s \<longrightarrow> orders_ok s' \<and> orders_evolve s s' \<and> granted s' = granted s \<and> audits_kept s s')"

definition calm :: "db \<Rightarrow> db \<Rightarrow> bool" where
  "calm s s' \<longleftrightarrow> steady s s' \<and> (orders_ok s \<longrightarrow> fulfilled_orders s' \<subseteq> fulfilled_orders s)"

interpretation calm: evolution calm
proof
  fix s s' s'' :: db
  show "calm s s" by (simp add: calm_def steady_def orders_evolve_refl audits_same)
  assume "calm s s'" "calm s' s''"
  then show "calm s s''" by (auto simp: calm_def steady_def audits_kept_def intro: orders_evolve_trans)
qed

lemma orders_ok_cong: "orders s' = orders s \<Longrightarrow> orders_ok s' = orders_ok s"
  by (simp add: orders_ok_def)

lemma calm_quiet: "orders s' = orders s \<Longrightarrow> ledger s' = ledger s \<Longrightarrow> audits s' = audits s \<Longrightarrow> calm s s'"
  by (auto simp: audits_same calm_def steady_def fulfilled_orders_def orders_evolve_def find_order_def granted_def orders_ok_def)

lemma calm_granted: "orders s' = orders s \<Longrightarrow> granted s' = granted s \<Longrightarrow> audits s' = audits s \<Longrightarrow> calm s s'"
  by (auto simp: audits_same calm_def steady_def fulfilled_orders_def orders_evolve_def find_order_def orders_ok_def)

section \<open>The rows of the orders\<close>

lemma find_order_mem: "find_order oid s = Some x \<Longrightarrow> x \<in> set (orders s) \<and> o_id x = oid"
  by (auto simp: find_order_def dest: find_by_mem find_by_key)

lemma find_order_of: "distinct (map o_id (orders s)) \<Longrightarrow> x \<in> set (orders s) \<Longrightarrow> find_order (o_id x) s = Some x"
  by (simp add: find_order_def find_by_distinct)

lemma taken_by_filter: "\<not> taken_by col x (filter (\<lambda>y. o_id y \<noteq> o_id x) rows) \<longleftrightarrow>
    (\<forall>y\<in>set rows. o_id y \<noteq> o_id x \<longrightarrow> col x \<noteq> None \<longrightarrow> col y \<noteq> col x)"
  by (auto simp: taken_by_def list_ex_iff)

definition order_keys :: "(order \<Rightarrow> string option) list" where
  "order_keys = [o_stripe_checkout_session_id, o_stripe_payment_intent_id, o_stripe_refund_id, Some \<circ> o_idempotency_key, jit_slot]"

definition order_checks :: "order \<Rightarrow> bool" where
  "order_checks x \<longleftrightarrow> 0 < o_amount_cents x \<and> 0 \<le> o_amount_refunded_cents x \<and> o_amount_refunded_cents x \<le> o_amount_cents x \<and>
     (case o_credits x of None \<Rightarrow> o_type x = Ot_jit_mail | Some n \<Rightarrow> o_type x = Ot_letter_pack \<and> 0 < n) \<and>
     0 \<le> o_credits_refunded x \<and> (case o_credits x of None \<Rightarrow> True | Some n \<Rightarrow> o_credits_refunded x \<le> n) \<and>
     (o_type x = Ot_jit_mail \<longrightarrow> o_draft_id x \<noteq> None)"

lemma order_row_ok: "order_row_refusal x others = None \<longleftrightarrow>
    order_checks x \<and> (\<forall>col\<in>set order_keys. \<not> taken_by col x others)"
  by (auto simp: order_row_refusal_def order_checks_def order_keys_def not_le not_less split: option.split if_splits)

lemma orders_ok_iff: "orders_ok s \<longleftrightarrow> distinct (map o_id (orders s)) \<and> (\<forall>x\<in>set (orders s). order_checks x \<and>
    (\<forall>y\<in>set (orders s). o_id y \<noteq> o_id x \<longrightarrow> (\<forall>col\<in>set order_keys. col x \<noteq> None \<longrightarrow> col y \<noteq> col x)))"
  unfolding orders_ok_def order_row_ok taken_by_filter by meson

text \<open>A row replaced by one whose keys no other row has.\<close>

lemma orders_ok_replace:
  assumes ok: "orders_ok s" and x: "find_order oid s = Some x" and y: "order_row_refusal (f x) (filter (\<lambda>z. o_id z \<noteq> oid) (orders s)) = None"
    and i: "o_id (f x) = oid"
  shows "orders_ok (upd_order oid f s)"
proof -
  have d: "distinct (map o_id (orders s))" using ok by (simp add: orders_ok_def)
  have only: "z = x" if "z \<in> set (orders s)" "o_id z = oid" for z
    using find_order_of [OF d that(1)] that(2) x by simp
  have rows: "set (orders (upd_order oid f s)) = (\<lambda>z. if o_id z = oid then f z else z) ` set (orders s)"
    by (simp add: upd_order_def set_upd_where)
  have ids: "map o_id (orders (upd_order oid f s)) = map o_id (orders s)"
  proof -
    have "\<forall>z\<in>set (orders s). o_id (if o_id z = oid then f z else z) = o_id z" using only i by auto
    then show ?thesis by (simp add: upd_order_def upd_where_def)
  qed
  have new: "order_checks (f x)" and fresh: "\<And>z col. z \<in> set (orders s) \<Longrightarrow> o_id z \<noteq> oid \<Longrightarrow> col \<in> set order_keys \<Longrightarrow>
      col (f x) \<noteq> None \<Longrightarrow> col z \<noteq> col (f x)"
    using y unfolding order_row_ok i [symmetric] taken_by_filter by auto
  have old: "order_checks z \<and> (\<forall>v\<in>set (orders s). o_id v \<noteq> o_id z \<longrightarrow> (\<forall>col\<in>set order_keys. col z \<noteq> None \<longrightarrow> col v \<noteq> col z))"
    if "z \<in> set (orders s)" for z using ok that by (auto simp: orders_ok_iff)
  show ?thesis unfolding orders_ok_iff ids rows
  proof (intro conjI d ballI impI)
    fix z v col
    assume z: "z \<in> (\<lambda>z. if o_id z = oid then f z else z) ` set (orders s)"
      and v: "v \<in> (\<lambda>z. if o_id z = oid then f z else z) ` set (orders s)"
      and ne: "o_id v \<noteq> o_id z" and col: "col \<in> set order_keys" "col z \<noteq> None"
    from z obtain z0 where z0: "z0 \<in> set (orders s)" "z = (if o_id z0 = oid then f z0 else z0)" by auto
    from v obtain v0 where v0: "v0 \<in> set (orders s)" "v = (if o_id v0 = oid then f v0 else v0)" by auto
    show "col v \<noteq> col z"
    proof (cases "o_id z0 = oid")
      case True
      then have zf: "z = f x" using only z0 by auto
      have "o_id v0 \<noteq> oid"
      proof
        assume a: "o_id v0 = oid"
        then have "v0 = x" using only v0(1) by simp
        then have "v = f x" using a v0(2) by simp
        then show False using ne zf by simp
      qed
      then show ?thesis using fresh [OF v0(1)] v0(2) col zf by simp
    next
      case False
      then have zz: "z = z0" using z0 by simp
      show ?thesis
      proof (cases "o_id v0 = oid")
        case True
        then have "v = f x" using only v0 by auto
        then show ?thesis using fresh [OF z0(1) False col(1)] zz col(2) by metis
      next
        case False
        then have "v = v0" using v0 by simp
        then show ?thesis using old [OF z0(1)] v0(1) ne col zz by blast
      qed
    qed
  qed (use old new only in auto)
qed

lemma found_upd_order: "(\<And>x. o_id x = oid \<Longrightarrow> o_id (f x) = oid) \<Longrightarrow>
    find_order k (upd_order oid f s) = (if k = oid then map_option f (find_order oid s) else find_order k s)"
  unfolding find_order_def upd_order_def by (rule orders_tab.lookup_update)

lemma touched_id [simp]: "o_id (touched now f x) = o_id (f x)"
  by (simp add: touched_def)

lemma order_on_touched [simp]: "order_on x (touched now f x) = order_on x (f x)"
  by (simp add: order_on_def touched_def row_sound_def)

lemma touched_status [simp]: "o_status (touched now f x) = o_status (f x)"
  by (simp add: touched_def)

text \<open>The UPDATE of an order, from the row it finds.\<close>

lemma update_order_Inr:
  assumes "update_order now oid f s = Inr s'"
  obtains "find_order oid s = None" "s' = s"
  | x where "find_order oid s = Some x" "s' = upd_order oid (touched now f) s"
      "order_row_refusal (touched now f x) (filter (\<lambda>z. o_id z \<noteq> oid) (orders s)) = None"
  using assms by (auto simp: update_order_def split: option.splits)

lemma steady_update_order:
  assumes "update_order now oid f s = Inr s'" and "\<And>x. o_id (f x) = o_id x"
    and "\<And>x. find_order oid s = Some x \<Longrightarrow> order_on x (f x)"
  shows "steady s s' \<and> (\<forall>k. find_order k s' = (if k = oid then map_option (touched now f) (find_order oid s) else find_order k s))"
  using assms(1)
proof (cases rule: update_order_Inr)
  case 1
  then show ?thesis by (simp add: steady_def orders_evolve_refl audits_same)
next
  case (2 x)
  have found: "find_order k s' = (if k = oid then Some (touched now f x) else find_order k s)" for k
    unfolding 2(2) by (subst found_upd_order) (use assms(2) 2(1) in auto)
  have ok: "orders_ok s'" if "orders_ok s"
    unfolding 2(2) by (rule orders_ok_replace [OF that 2(1), where f = "touched now f"], rule 2(3))
      (use assms(2) find_order_mem [OF 2(1)] in simp)
  have "granted s' = granted s" unfolding 2(2) by (simp add: granted_def)
  moreover have "orders_evolve s s'" unfolding orders_evolve_def found using assms(3) 2(1) by auto
  moreover have "audits s' = audits s" unfolding 2(2) by simp
  ultimately show ?thesis using ok 2(1) by (simp add: steady_def audits_same found)
qed

lemma calm_update_order [intro]:
  assumes "\<And>x. o_id (f x) = o_id x" and "\<And>x. find_order oid s = Some x \<Longrightarrow> order_le x (f x)"
  shows "kept calm s (update_order now oid f s)"
proof (rule keptI)
  fix s'
  assume "update_order now oid f s = Inr s'"
  then have *: "steady s s'" "\<And>k. find_order k s' = (if k = oid then map_option (touched now f) (find_order oid s) else find_order k s)"
    using steady_update_order [of now oid f s s'] assms by (auto simp: order_le_def)
  then have "fulfilled_orders s' \<subseteq> fulfilled_orders s"
    using assms(2) by (auto simp: fulfilled_orders_def order_le_def split: if_splits)
  then show "calm s s'" using *(1) by (simp add: calm_def)
qed

text \<open>An UPDATE that leaves every key of the row, or takes it out of the index of open checkouts.\<close>

lemma order_row_same:
  assumes "order_row_refusal x others = None" and "order_checks y"
    and "o_stripe_checkout_session_id y = o_stripe_checkout_session_id x" "o_stripe_payment_intent_id y = o_stripe_payment_intent_id x"
      "o_stripe_refund_id y = o_stripe_refund_id x" "o_idempotency_key y = o_idempotency_key x"
      "jit_slot y = jit_slot x \<or> jit_slot y = None"
  shows "order_row_refusal y others = None"
  using assms by (auto simp: order_row_ok order_keys_def taken_by_def)

lemma calm_upd_order:
  assumes i: "\<And>x. o_id (f x) = o_id x" and le: "\<And>x. find_order oid s = Some x \<Longrightarrow> order_le x (f x)"
    and ok: "\<And>x others. find_order oid s = Some x \<Longrightarrow> order_row_refusal x others = None \<Longrightarrow> order_row_refusal (f x) others = None"
  shows "calm s (upd_order oid f s)"
proof (cases "find_order oid s")
  case None
  then have "\<And>x. x \<in> set (orders s) \<Longrightarrow> o_id x \<noteq> oid" by (auto simp: find_order_def find_by_None_iff image_iff)
  then have "orders (upd_order oid f s) = orders s" by (auto simp: upd_order_def intro: upd_where_none)
  then show ?thesis by (simp add: calm_quiet)
next
  case (Some x)
  have found: "find_order k (upd_order oid f s) = (if k = oid then Some (f x) else find_order k s)" for k
    by (subst found_upd_order) (use i Some in auto)
  have "orders_ok (upd_order oid f s)" if "orders_ok s"
  proof (rule orders_ok_replace [OF that Some])
    show "order_row_refusal (f x) (filter (\<lambda>z. o_id z \<noteq> oid) (orders s)) = None"
      using ok [OF Some] that find_order_mem [OF Some] by (auto simp: orders_ok_def)
  qed (use i find_order_mem [OF Some] in simp)
  then show ?thesis using le [OF Some] Some
    by (auto simp: calm_def steady_def orders_evolve_def found granted_def audits_same fulfilled_orders_def order_le_def)
qed

lemma calm_insert_order: "row_sound x \<Longrightarrow> o_status x \<noteq> Ord_fulfilled \<Longrightarrow> kept calm s (insert_order x s)"
proof (rule keptI)
  fix s'
  assume sound: "row_sound x" and open_: "o_status x \<noteq> Ord_fulfilled"
  assume ins: "insert_order x s = Inr s'"
  then have row: "order_row_refusal x (orders s) = None" and new: "find_order (o_id x) s = None"
    and s': "s' = s\<lparr>orders := orders s @ [x]\<rparr>"
    by (auto simp: insert_order_def split: option.splits if_splits)
  have other: "o_id y \<noteq> o_id x" if "y \<in> set (orders s)" for y
    using new that by (metis find_by_None_iff find_order_def imageI)
  have found: "find_order k s' = (case find_order k s of None \<Rightarrow> (if o_id x = k then Some x else None) | Some y \<Rightarrow> Some y)" for k
    by (simp add: s' find_order_def find_by_append split: option.split)
  then have "orders_evolve s s'" using sound by (auto simp: orders_evolve_def split: if_splits)
  moreover have "fulfilled_orders s' \<subseteq> fulfilled_orders s"
    using open_ found by (auto simp: fulfilled_orders_def split: option.splits if_splits)
  moreover have "orders_ok s'" if ok: "orders_ok s"
  proof -
    from row have x: "order_checks x" "\<And>y col. y \<in> set (orders s) \<Longrightarrow> col \<in> set order_keys \<Longrightarrow> col x \<noteq> None \<Longrightarrow> col y \<noteq> col x"
      by (auto simp: order_row_ok taken_by_def list_ex_iff)
    have "o_id x \<notin> o_id ` set (orders s)" using new by (simp add: find_order_def find_by_None_iff)
    then have "distinct (map o_id (orders s'))" using ok by (simp add: orders_ok_def s')
    then show ?thesis using ok x unfolding orders_ok_iff by (auto simp: s') (metis x(2))+
  qed
  ultimately show "calm s s'" by (simp add: calm_def steady_def s' granted_def audits_same)
qed

end
