(* ===== verification/CommerceFrames.thy ===== *)
theory CommerceFrames
  imports CommerceLaws
begin

text \<open>
  Which transactions of the commerce service are calm: the store's part of every operation of Till, PackLots,
  Disputes, Payments, Refunds and JitCheckout, apart from the two that grant a pack.
\<close>

section \<open>Tables beside the orders and the ledger\<close>

lemma calm_record_event [simp]: "calm s (recordOrderEvent oid ty a b m s)"
  by (rule calm_quiet) (simp_all add: recordOrderEvent_def)

lemma calm_insert_alert [simp]: "calm s (snd (insert_alert a s))"
  by (rule calm_quiet) (simp_all add: insert_alert_def)

lemma calm_raise_alert [simp]: "calm s (raise_alert ev oid ty sev d s)"
  by (simp add: raise_alert_def)

lemma calm_resolve_alerts [simp]: "calm s (resolve_alerts code P s)"
  by (rule calm_quiet) (simp_all add: resolve_alerts_def)

lemma calm_users [simp]: "calm s (upd_user uid f s)"
  by (rule calm_quiet) (simp_all add: upd_user_def)

lemma calm_letters [simp]: "calm s (upd_letter lid f s)"
  by (rule calm_quiet) (simp_all add: upd_letter_def)

lemma calm_jobs [simp]: "calm s (upd_job jid f s)" "calm s (jobs_update g s)"
  by (rule calm_quiet; simp add: upd_job_def)+

lemma calm_gifts [simp]: "calm s (revokeGiftLettersForOrderWithClient now oid cause s)"
  by (rule calm_quiet) (simp_all add: revokeGiftLettersForOrderWithClient_def Let_def)

lemma calm_write_txn [simp]: "calm s (write_txn now uid n b oid d s)"
  by (rule calm_quiet) (simp_all add: write_txn_def insert_txn_def)

lemma calm_record_audit [simp]: "calm s (record_audit a s)"
  by (auto simp: record_audit_def calm_def steady_def fulfilled_orders_def orders_evolve_def find_order_def granted_def orders_ok_def audits_kept_def
      find_audit_def find_by_append)

text \<open>One more of them after calm steps.\<close>

lemmas calm_more = calm.on [OF _ calm_record_event] calm.on [OF _ calm_raise_alert] calm.on [OF _ calm_users]
  calm.on [OF _ calm_letters] calm.on [OF _ calm_jobs(1)] calm.on [OF _ calm_gifts] calm.on [OF _ calm_write_txn]
  calm.on [OF _ calm_insert_alert] calm.on [OF _ calm_record_audit] calm.on [OF _ calm_resolve_alerts]

lemma calm_give_back [simp]: "calm s (give_back now uid n l oid line s)"
  by (auto simp: give_back_def Let_def calm.here split: option.split intro!: calm_more)

section \<open>The lots\<close>

lemma calm_insert_lot: "le_source_type e \<noteq> Src_purchase \<Longrightarrow> kept calm s (insert_lot e s)"
  by (rule keptI, drule insert_lot_Inr(1)) (auto intro: calm_granted simp: granted_def)

lemma granted_upd:
  assumes "\<And>e. P e \<Longrightarrow> le_source_type (f e) = le_source_type e \<and> le_source_order_id (f e) = le_source_order_id e \<and>
     le_source_reference_id (f e) = le_source_reference_id e \<and> le_user (f e) = le_user e \<and> le_initial (f e) = le_initial e"
  shows "granted (ledger_update (upd_where P f) s) = granted s"
proof -
  have "map (\<lambda>e. (le_source_order_id e, le_source_reference_id e, le_user e, le_initial e))
      (filter (\<lambda>e. le_source_type e = Src_purchase) (upd_where P f es)) =
    map (\<lambda>e. (le_source_order_id e, le_source_reference_id e, le_user e, le_initial e))
      (filter (\<lambda>e. le_source_type e = Src_purchase) es)" for es
    by (induction es) (auto simp: upd_where_def assms)
  then show ?thesis by (simp add: granted_def)
qed

lemma calm_take_whole [simp]: "calm s (ledger_update (upd_where P (take_whole now)) s)"
  by (rule calm_granted) (simp_all add: granted_upd take_whole_def)

lemma calm_set_remaining [simp]: "calm s (upd_lot k (set_remaining now n) s)"
  by (rule calm_granted) (simp_all add: granted_upd upd_lot_def set_remaining_def)

lemma calm_audit_lots: "kept calm s (audit_lots now x cause did es s)"
proof (induction es arbitrary: s)
  case Nil
  then show ?case by (simp add: calm.here)
next
  case (Cons e es)
  show ?case unfolding audit_lots.simps
    by (rule calm.kept_bind1 [OF calm_insert_lot Cons.IH]) (simp add: revocation_audit_def audit_lot_def)
qed

lemma calm_settle_whole [simp]: "calm s (settle_whole now x cause es s)"
  by (auto simp: settle_whole_def Let_def calm.here split: option.split intro!: calm_more)

lemma calm_revokeWholePack: "keeps calm s (revokeWholePack now x cause did s)"
  unfolding revokeWholePack_def Let_def
  by (auto intro!: calm.keeps_bind1 calm.kept_after [OF calm_take_whole calm_audit_lots] simp: calm.here)

lemma calm_take_pack_lots: "keeps calm s (take_pack_lots now x prid n needed es s)"
proof (induction es arbitrary: s needed)
  case Nil
  then show ?case by (simp add: calm.here)
next
  case (Cons e es)
  show ?case unfolding take_pack_lots.simps Let_def
    by (auto simp: calm.here intro!: calm.keeps_bind1 calm.keeps_bind [OF Cons.IH]
        calm.kept_after [OF calm_set_remaining calm_insert_lot] simp: partial_audit_def audit_lot_def)
qed

lemma calm_proportional: "keeps calm s (revokePackCreditsProportionally now x n prid s)"
  unfolding revokePackCreditsProportionally_def Let_def
  by (auto simp: calm.here intro!: calm.keeps_bind [OF calm_take_pack_lots] calm_more)

lemma calm_revokePackLots: "keeps calm s (revokePackLots now x what s)"
  unfolding revokePackLots_def
  by (auto split: taken_back.split intro!: calm.keeps_bind [OF calm_revokeWholePack] calm.keeps_bind [OF calm_proportional] calm_more simp: calm.here)

lemma calm_compensate_lots: "keeps calm s (compensate_lots now x did es s)"
proof (induction es arbitrary: s)
  case Nil
  then show ?case by (simp add: calm.here)
next
  case (Cons p es)
  obtain e n where p: "p = (e, n)" by (cases p)
  show ?case unfolding p compensate_lots.simps
    by (auto simp: calm.here Cons.IH intro!: calm.keeps_bind1 calm.keeps_bind [OF Cons.IH] calm_insert_lot
        simp: compensation_lot_def)
qed

lemma calm_compensateDisputed: "kept calm s (compensateDisputedPacks now x did s)"
  unfolding compensateDisputedPacks_def Let_def
  by (auto intro!: calm.kept_bind [OF calm_compensate_lots] calm_more calm.on [OF _ calm_give_back] simp: calm.here)

lemma calm_restore_lots: "keeps calm s (restore_lots now r reason rows s)"
proof (induction rows arbitrary: s)
  case Nil
  then show ?case by (simp add: calm.here)
next
  case (Cons p rows)
  obtain a b where p: "p = (a, b)" by (cases p)
  show ?case unfolding p restore_lots.simps
    by (auto simp: calm.here intro!: calm.keeps_bind1 calm.keeps_bind [OF Cons.IH] calm_insert_lot simp: restored_lot_def)
qed

section \<open>Mail that was funded\<close>

lemma calm_dispatched_alert [simp]: "calm s (dispatched_alert ev oid j out s)"
  by (simp add: dispatched_alert_def)

lemma calm_stopFunded [simp]: "calm s (snd (stopFundedMailBeforeFinancialReversal now x ev reason s))"
  by (auto simp: stopFundedMailBeforeFinancialReversal_def calm.here split: order_type.split option.split
      intro!: calm.on [OF _ calm_dispatched_alert] calm_more)

lemma calm_holdMail [simp]: "calm s (snd (holdMailFundedByOrder now x ev reason s))"
proof -
  have "calm s (fold (hold_funded now reason) lids s)" for lids
    by (rule calm.folded) (simp add: hold_funded_def)
  then show ?thesis by (auto simp: holdMailFundedByOrder_def Let_def calm.here intro!: calm_more)
qed

lemma calm_block [simp]: "calm s (blockAccountSends now uid reason s)"
  by (simp add: blockAccountSends_def)

lemma calm_take_disputed_pack: "kept calm s (take_disputed_pack now x ev did s)"
  unfolding take_disputed_pack_def
  by (auto simp: calm.here intro!: calm.kept_bind calm.keeps_after [OF calm_holdMail calm_revokePackLots])

lemma calm_take_refunded_pack: "kept calm s (take_refunded_pack now x ev s)"
  unfolding take_refunded_pack_def
  by (auto simp: calm.here intro!: calm.kept_bind calm.keeps_after [OF calm_holdMail calm_revokePackLots])

lemma calm_take_recovered: "kept calm s (take_recovered now evs x rs s)"
  by (induction rs arbitrary: s) (auto simp: calm.here intro!: calm.kept_bind1 [OF calm_take_disputed_pack])

lemma calm_recovered_effects: "kept calm s (recovered_effects now evs x ds s)"
proof -
  have "calm s (fold (\<lambda>r s. snd (stopFundedMailBeforeFinancialReversal now x (latest_event evs (di_id r)) reason s)) ds s)" for reason
    by (rule calm.folded) simp
  then show ?thesis by (auto simp: recovered_effects_def calm.here intro: calm.kept_after [OF _ calm_take_recovered])
qed

section \<open>The orders\<close>

text \<open>A chain starts where the rows are valid; then an order read from the table is found by its id.\<close>

lemma calm_valid: "(orders_ok s \<Longrightarrow> calm s s') \<Longrightarrow> calm s s'"
  by (auto simp: calm_def steady_def)

lemma keeps_valid: "(orders_ok s \<Longrightarrow> keeps calm s m) \<Longrightarrow> keeps calm s m"
  by (auto simp: keeps_def calm_def steady_def split: sum.splits prod.splits)

lemma kept_valid: "(orders_ok s \<Longrightarrow> kept calm s m) \<Longrightarrow> kept calm s m"
  by (auto simp: kept_def calm_def steady_def split: sum.splits)

lemma found_of_row: "orders_ok s \<Longrightarrow> x \<in> set (orders s) \<Longrightarrow> find_order (o_id x) s = Some x"
  by (simp add: find_order_of orders_ok_def)

lemma order_le_rows [simp]:
  "order_le x (note_failure c m x)" "order_le x (attach_session sid url e x)" "order_le x (note_session cs x)"
  "order_le x (to_refund now c m x)" "order_le x (recover_order now b cs x)" "order_le x (hold_code x)"
  "order_le x (undo_refund n r x)" "order_le x (paid_out n x)" "order_le x (count_refunded n x)"
  "order_le x (mark_disputed now st x)" "order_le x (claim_refund_row now n x)"
  "rid \<noteq> [] \<Longrightarrow> next \<in> {Ord_refunded, Ord_refund_pending} \<Longrightarrow> order_le x (finish_refund now rid next x)"
  "named \<noteq> Some [] \<Longrightarrow> next \<in> {Ord_refunded, Ord_refund_pending} \<Longrightarrow> order_le x (full_refund_row now next named x)"
  "\<not> funded x \<Longrightarrow> order_le x (mark_paid now i x)" "\<not> funded x \<Longrightarrow> order_le x (cancel_open_row c m x)"
  by (auto simp: order_le_def order_on_def row_defs row_sound_def FUNDED_OR_REVERSED_ORDER_STATUSES_def split: if_splits)
    (cases named; simp)+

lemma order_on_fulfilled [simp]: "order_on x (fulfil_pack_order now x)"
  by (auto simp: order_on_def row_defs row_sound_def FUNDED_OR_REVERSED_ORDER_STATUSES_def)

lemma order_id_rows [simp]:
  "o_id (note_failure c m x) = o_id x" "o_id (attach_session sid url e x) = o_id x" "o_id (note_session cs x) = o_id x"
  "o_id (to_refund now c m x) = o_id x" "o_id (recover_order now b cs x) = o_id x" "o_id (hold_code x) = o_id x"
  "o_id (undo_refund n r x) = o_id x" "o_id (paid_out n x) = o_id x" "o_id (count_refunded n x) = o_id x"
  "o_id (fulfil_pack_order now x) = o_id x" "o_id (mark_disputed now st x) = o_id x" "o_id (claim_refund_row now n x) = o_id x"
  "o_id (finish_refund now rid next x) = o_id x" "o_id (full_refund_row now next rid0 x) = o_id x"
  "o_id (mark_paid now i x) = o_id x" "o_id (cancel_open_row c m x) = o_id x"
  by (simp_all add: row_defs)

lemma unfunded [simp]:
  "Ord_checkout_pending \<notin> set FUNDED_OR_REVERSED_ORDER_STATUSES" "Ord_paid \<notin> set FUNDED_OR_REVERSED_ORDER_STATUSES"
  by (simp_all add: FUNDED_OR_REVERSED_ORDER_STATUSES_def)

lemma calm_note_failure: "kept calm s (update_order now oid (note_failure c m) s)"
  by (rule calm_update_order) simp_all

lemma calm_markCheckoutCreationFailure: "kept calm s (markCheckoutCreationFailure now oid msg code terminal s)"
proof -
  have "order_le x ((note_failure c msg x)\<lparr>o_status := Ord_cancelled\<rparr>)" if "o_status x = Ord_checkout_pending" for x c
    using order_le_rows(15) [of x c msg] that by (simp add: cancel_open_row_def)
  then show ?thesis
    by (auto simp: markCheckoutCreationFailure_def Let_def calm.here calm_note_failure split: option.split
        intro!: calm.kept_bind1 calm_update_order)
qed

lemma calm_failCheckoutCreation: "keeps calm s (failCheckoutCreation now oid a fallback s)"
  by (auto simp: failCheckoutCreation_def calm.here intro!: calm.keeps_bind1 [OF calm_markCheckoutCreationFailure])

lemma calm_attachCheckout: "keeps calm s (attachCheckout now oid sid url e s)"
  by (auto simp: attachCheckout_def split: option.split intro!: calm.keeps_bind1 calm_update_order)

lemma sound_new_order [simp]: "row_sound (new_order now oid uid ty did p snap cr key e)"
  and new_order_open [simp]: "o_status (new_order now oid uid ty did p snap cr key e) = Ord_checkout_pending"
  by (simp_all add: row_sound_def new_order_def)

lemma calm_open_pack_order: "keeps calm s (open_pack_order now oid uid p s)"
  by (auto simp: open_pack_order_def Let_def calm.here split: option.split intro!: calm.keeps_bind1 [OF calm_insert_order])

lemma calm_createLegacyPackOrder: "keeps calm s (createLegacyPackOrder now env cs s)"
proof -
  have "row_sound (legacy_order now env cs uid p)" "o_status (legacy_order now env cs uid p) = Ord_checkout_pending" for uid p
    by (simp_all add: legacy_order_def row_sound_def new_order_def)
  then show ?thesis
    by (auto simp: createLegacyPackOrder_def Let_def calm.here split: option.split
        intro!: calm.keeps_bind1 [OF calm_insert_order])
qed

lemma calm_clearRefundHold: "kept calm s (clearRefundHold now oid s)"
  by (auto simp: clearRefundHold_def calm.here order_le_def order_on_def row_sound_def split: option.split intro!: calm_update_order)

lemma calm_holdRefund: "keeps calm s (holdRefundNotCompletedWithClient now oid i st r s)"
  by (auto simp: holdRefundNotCompletedWithClient_def Let_def calm.here split: option.split
      intro!: calm.keeps_bind1 calm_update_order calm_more)

lemma calm_settle_restore: "kept calm s (settle_restore now r n s)"
  by (auto simp: settle_restore_def calm.here intro!: calm.kept_bind1 calm_update_order)

lemma calm_note_refund_failure: "kept calm s (note_refund_failure now oid c s)"
  by (auto simp: note_refund_failure_def calm.here calm_note_failure split: option.split)

lemma calm_claimRefund: "keeps calm s (claimRefund env now oid s)"
  by (auto simp: claimRefund_def Let_def calm.here split: option.split intro!: calm.keeps_bind1 calm_update_order)

lemma calm_permitCreate: "keeps calm s (permitCreate env now x n s)"
  by (auto simp: permitCreate_def Let_def calm.here order_le_def order_on_def row_sound_def split: option.split
      intro!: calm.keeps_bind1 calm_update_order)

text \<open>Orders cancelled together leave the open checkouts and no other index.\<close>

lemma calm_cancel_orphans: "calm s (snd (cancel_orphans now s))"
proof (rule calm_valid)
  assume ok: "orders_ok s"
  let ?f = "\<lambda>x. x\<lparr>o_status := Ord_cancelled, o_updated_at := now\<rparr>" and ?s = "snd (cancel_orphans now s)"
  have rows: "orders ?s = upd_where (orphaned now) ?f (orders s)" by (simp add: cancel_orphans_def)
  have found: "find_order k ?s = map_option (\<lambda>x. if orphaned now x then ?f x else x) (find_order k s)" for k
    unfolding find_order_def rows by (rule find_by_upd_where) simp
  have le: "order_le x (?f x)" if "orphaned now x" for x
    using that by (auto simp: orphaned_def order_le_def order_on_def row_sound_def FUNDED_OR_REVERSED_ORDER_STATUSES_def)
  have same: "order_checks (?f x) = order_checks x" for x by (simp add: order_checks_def split: option.split)
  have keys: "col (?f x) = None \<or> col (?f x) = col x" if "col \<in> set order_keys" for col x
    using that by (auto simp: order_keys_def jit_slot_def ACTIVE_JIT_STATUSES_def)
  have "orders_ok ?s"
    unfolding orders_ok_iff rows
  proof (intro conjI ballI impI)
    show "distinct (map o_id (upd_where (orphaned now) ?f (orders s)))"
      using ok by (simp add: orders_ok_def)
    fix x assume "x \<in> set (upd_where (orphaned now) ?f (orders s))"
    then obtain x0 where x0: "x0 \<in> set (orders s)" "x = (if orphaned now x0 then ?f x0 else x0)" by (auto simp: set_upd_where)
    then show "order_checks x" using ok same by (auto simp: orders_ok_iff)
    fix y col
    assume "y \<in> set (upd_where (orphaned now) ?f (orders s))" and ne: "o_id y \<noteq> o_id x" and col: "col \<in> set order_keys" "col x \<noteq> None"
    then obtain y0 where y0: "y0 \<in> set (orders s)" "y = (if orphaned now y0 then ?f y0 else y0)" by (auto simp: set_upd_where)
    have "col x = col x0" using keys [OF col(1), of x0] col(2) x0(2) by auto
    moreover have "o_id y0 \<noteq> o_id x0" using ne x0(2) y0(2) by (auto split: if_splits)
    ultimately have "col y0 \<noteq> col x" "col x \<noteq> None" using ok x0(1) y0(1) col by (auto simp: orders_ok_iff)
    then show "col y \<noteq> col x" using keys [OF col(1), of y0] y0(2) by (auto split: if_splits)
  qed
  moreover have "orders_evolve s ?s" using le by (auto simp: orders_evolve_def found order_le_def)
  moreover have "fulfilled_orders ?s \<subseteq> fulfilled_orders s" using le by (auto simp: fulfilled_orders_def found order_le_def split: if_splits)
  ultimately show "calm s ?s" by (simp add: calm_def steady_def granted_def cancel_orphans_def audits_same)
qed

section \<open>The order of a Pay and Send checkout\<close>

lemma calm_cancel_checkout:
  assumes "find_order (o_id x) s = Some x" shows "kept calm s (cancel_checkout now x c m ev s)"
  using assms by (auto simp: cancel_checkout_def calm.here intro!: calm.kept_bind1 calm_update_order)

lemma opened_jit:
  assumes "open_jit_order w oid p d q s = Inr (y, s')"
  obtains s1 e where "y = jit_order w oid p q e" "insert_order y s = Inr s1" "new_order_refusal w p d q s = None"
    "checkoutExpiry (jw_env w) (pw_js (jw_pay w)) (d_expires_at d) = Inr e"
    "s' = recordOrderEvent oid ''order.created'' None (Some Ord_checkout_pending) [] s1"
  using assms by (auto simp: open_jit_order_def Let_def bindE_Inr_iff split: option.splits if_splits)

lemma calm_opened: "open_jit_order w oid p d q s = Inr (y, s') \<Longrightarrow> calm s s'"
proof (erule opened_jit)
  fix s1 e
  assume y: "y = jit_order w oid p q e" and ins: "insert_order y s = Inr s1"
    and s': "s' = recordOrderEvent oid ''order.created'' None (Some Ord_checkout_pending) [] s1"
  have "row_sound y" "o_status y \<noteq> Ord_fulfilled" by (simp_all add: y jit_order_def)
  then show "calm s s'" unfolding s' by (intro calm_more keptD [OF calm_insert_order ins])
qed

lemma replaced_order: "open_order_decision w p d q sched missed x = Inr (Replace y c m ev) \<Longrightarrow> y = x"
  by (auto simp: open_order_decision_def Let_def split: if_splits)

lemma active_jit_order_mem: "active_jit_order did s = Some x \<Longrightarrow> x \<in> set (orders s)"
proof -
  assume "active_jit_order did s = Some x"
  then obtain xs where "sort_key (\<lambda>x. - o_created_at x) (filter (\<lambda>x. o_draft_id x = Some did \<and> o_type x = Ot_jit_mail \<and>
      o_status x \<in> set ACTIVE_JIT_STATUSES) (orders s)) = x # xs" by (auto simp: active_jit_order_def split: list.splits)
  then have "x \<in> set (sort_key (\<lambda>x. - o_created_at x) (filter (\<lambda>x. o_draft_id x = Some did \<and> o_type x = Ot_jit_mail \<and>
      o_status x \<in> set ACTIVE_JIT_STATUSES) (orders s)))" by simp
  then show ?thesis by simp
qed

lemma calm_cancelled: "cancel_checkout now x c m ev s = Inr s' \<Longrightarrow> find_order (o_id x) s = Some x \<Longrightarrow> calm s s'"
  by (rule keptD [OF calm_cancel_checkout])

text \<open>What a prepared checkout did: it closed the open order, reused it, or opened a new one.\<close>

lemma prepare_cases:
  assumes "prepareJitOrder w oid p cents s = Inr (r, s')"
  obtains (closed) x e c m ev where "active_jit_order (kp_draft p) s = Some x" "r = Inl e"
      "cancel_checkout (pw_now (jw_pay w)) x c m ev s = Inr s'"
  | (reused) x told where "active_jit_order (kp_draft p) s = Some x" "s' = s"
      "r = Inr \<lparr> pq_order = x, pq_reused = True, pq_missed = told \<rparr>"
  | (opened) d q s1 y where "find_draft (kp_draft p) s = Some d" "open_jit_order w oid p d q s1 = Inr (y, s')"
      "r = Inr \<lparr> pq_order = y, pq_reused = False, pq_missed = None \<rparr>"
      "s1 = s \<or> (\<exists>x c m ev. active_jit_order (kp_draft p) s = Some x \<and> cancel_checkout (pw_now (jw_pay w)) x c m ev s = Inr s1)"
proof -
  let ?ex = "active_jit_order (kp_draft p) s"
  note run0 = assms [unfolded prepareJitOrder_def Let_def]
  from run0 obtain d where d: "find_draft (kp_draft p) s = Some d" and ok: "checkout_draft_refusal w p (Some d) = None"
    by (cases "find_draft (kp_draft p) s") (simp_all add: checkout_draft_refusal_def split: option.splits)
  note run1 = run0 [unfolded d ok option.case]
  from run1 obtain schedule where schedule: "draftScheduleOf (d_arrive_by d) (d_mail_on d) = Inr schedule"
    by (cases "draftScheduleOf (d_arrive_by d) (d_mail_on d)") simp_all
  note run2 = run1 [unfolded schedule bindE_simps]
  from run2 obtain q where q: "checkout_product w d cents = Inr q" by (cases "checkout_product w d cents") simp_all
  note run3 = run2 [unfolded q bindE_simps]
  from run3 obtain missed where missed: "mail_date_missed w schedule = Inr missed"
    by (cases "mail_date_missed w schedule") simp_all
  note run4 = run3 [unfolded missed bindE_simps]
  from run4 obtain refusal where refusal: "schedule_refusal w schedule (opens_session ?ex) missed s = Inr refusal"
    by (cases "schedule_refusal w schedule (opens_session ?ex) missed s") simp_all
  note rest = run4 [unfolded refusal bindE_simps]
  show ?thesis
  proof (cases refusal)
    case (Some cm)
    with rest show ?thesis by (auto simp: bindE_Inr_iff split: option.splits prod.splits intro: closed)
  next
    case None
    with rest obtain decision where dec: "(case ?ex of None \<Rightarrow> Inr Go_on | Some x \<Rightarrow> open_order_decision w p d q schedule missed x) = Inr decision"
      and run: "(case decision of
             Reuse x told \<Rightarrow> Inr (Inr \<lparr> pq_order = x, pq_reused = True, pq_missed = told \<rparr>, s)
           | Go_on \<Rightarrow> bindE (open_jit_order w oid p d q s)
               (\<lambda>(y, s1). Inr (Inr \<lparr> pq_order = y, pq_reused = False, pq_missed = None \<rparr>, s1))
           | Replace x code message event \<Rightarrow>
               bindE (cancel_checkout (pw_now (jw_pay w)) x code message event s) (\<lambda>s1.
               bindE (open_jit_order w oid p d q s1)
               (\<lambda>(y, s2). Inr (Inr \<lparr> pq_order = y, pq_reused = False, pq_missed = None \<rparr>, s2)))) = Inr (r, s')"
      by (auto simp: bindE_Inr_iff)
    show ?thesis
    proof (cases decision)
      case (Reuse x told)
      then have "?ex = Some x" using dec by (auto simp: open_order_decision_def Let_def split: option.splits if_splits)
      then show ?thesis using run Reuse by (intro reused) auto
    next
      case (Replace x c m ev)
      then have "?ex = Some x" using dec by (auto split: option.splits dest: replaced_order)
      then show ?thesis using run Replace d by (auto simp: bindE_Inr_iff intro: opened)
    next
      case Go_on
      then show ?thesis using run d by (auto simp: bindE_Inr_iff intro: opened)
    qed
  qed
qed

lemma calm_prepareJitOrder: "keeps calm s (prepareJitOrder w oid p cents s)"
proof (rule keeps_valid, rule keepsI)
  fix r s'
  assume ok: "orders_ok s" and run: "prepareJitOrder w oid p cents s = Inr (r, s')"
  have closes: "calm s s1" if "active_jit_order (kp_draft p) s = Some x" "cancel_checkout now x c m ev s = Inr s1" for x now c m ev s1
    using calm_cancelled [OF that(2) found_of_row [OF ok active_jit_order_mem [OF that(1)]]] .
  from run show "calm s s'"
  proof (cases rule: prepare_cases)
    case (opened d q s1 y)
    have "calm s s1" using opened(4) closes calm.here by blast
    then show ?thesis using calm_opened [OF opened(2)] by (rule calm.on)
  qed (auto simp: calm.here intro: closes)
qed

section \<open>The mail of a paid order\<close>

lemma order_row_started:
  assumes "order_row_refusal x others = None" and "o_status x = Ord_paid"
  shows "order_row_refusal (start_fulfilment now lid x) others = None"
proof (rule order_row_same [OF assms(1)])
  show "order_checks (start_fulfilment now lid x)"
    using assms(1) by (auto simp: order_row_ok order_checks_def start_fulfilment_def split: option.splits)
qed (use assms(2) in \<open>simp_all add: start_fulfilment_def jit_slot_def ACTIVE_JIT_STATUSES_def\<close>)

lemma order_le_started [simp]: "order_le x (start_fulfilment now lid x)"
  by (simp add: order_le_def order_on_def start_fulfilment_def row_sound_def FUNDED_OR_REVERSED_ORDER_STATUSES_def)

lemma started_id [simp]: "o_id (start_fulfilment now lid x) = o_id x"
  by (simp add: start_fulfilment_def)

lemma create_job_frame: "createLetterJobWithClient env now jid to_iso lid nb s = Inr (j, s') \<Longrightarrow>
    orders s' = orders s \<and> ledger s' = ledger s \<and> audits s' = audits s"
  by (auto simp: createLetterJobWithClient_def Let_def upd_letter_def split: option.splits if_splits)

text \<open>What a send paid by an order leaves of the orders: that order, while it is paid, starts.\<close>

lemma jit_sent_orders:
  assumes run: "createMailOrderFromDraftWithClient w p s = Inr (r, s')" and jit: "sp_funding p = Jit_order oid"
  obtains lid where "ledger s' = ledger s" "audits s' = audits s"
    "orders s' = orders (upd_order oid (\<lambda>x. if o_status x = Ord_paid then start_fulfilment (sw_now w) lid x else x) s)"
  | x where "ledger s' = ledger s" "audits s' = audits s" "find_order oid s = Some x" "o_status x = Ord_paid"
    "orders s' = orders (upd_order oid (start_fulfilment (sw_now w) (sw_letter_id w)) s)"
  using run
proof (cases rule: send_cases)
  case (sent d sched release pay s2)
  obtain x where x: "find_order oid s = Some x" "o_status x = Ord_paid" by (rule sent_order [OF sent(2) jit])
  have "\<not> uses_gift p d" "is_jit (sp_funding p)" using jit by (simp_all add: uses_gift_def)
  with sent(2) have s2: "orders s2 = orders s" "ledger s2 = ledger s" "audits s2 = audits s"
    by (auto simp: sent_run_def send_pay_def)
  from sent(2) obtain j s4 l where job: "createLetterJobWithClient (sw_env w) (sw_now w) (sw_job_id w) (sw_to_iso w) (sw_letter_id w)
        release (upd_draft (sp_draft p) (consume_draft (sw_now w) (sw_letter_id w)) s2) = Inr (j, s4)"
    and s': "s' = move_order w (sp_funding p) (recordHeldPrintWithClient w l release s4)"
    by (auto simp: sent_run_def send_commit_def split: sum.splits prod.splits)
  have "orders s4 = orders s" "ledger s4 = ledger s" "audits s4 = audits s"
    using create_job_frame [OF job] s2 by (simp_all add: upd_draft_def)
  moreover have "audits (recordHeldPrintWithClient w l release s4) = audits s4"
    by (simp add: recordHeldPrintWithClient_def upd_letter_def split: option.split)
  ultimately have "ledger s' = ledger s" "audits s' = audits s" "orders s' = orders (upd_order oid (start_fulfilment (sw_now w) (sw_letter_id w)) s)"
    by (simp_all add: s' jit upd_order_def)
  then show ?thesis by (intro that(2) [OF _ _ x])
next
  case (replayed d)
  then obtain lid where "s' = converge_order w (sp_funding p) lid s"
    by (auto simp: send_replay_def split: option.splits if_splits)
  then show ?thesis by (intro that(1) [of lid]) (simp_all add: jit upd_order_def)
qed

lemma calm_send: "sp_funding p = Jit_order oid \<Longrightarrow> keeps calm s (createMailOrderFromDraftWithClient w p s)"
proof (rule keepsI)
  fix r s'
  assume jit: "sp_funding p = Jit_order oid" and run: "createMailOrderFromDraftWithClient w p s = Inr (r, s')"
  from run jit show "calm s s'"
  proof (cases rule: jit_sent_orders)
    case (1 lid)
    have "calm s (upd_order oid (\<lambda>x. if o_status x = Ord_paid then start_fulfilment (sw_now w) lid x else x) s)"
      by (rule calm_upd_order) (auto simp: order_row_started)
    then show ?thesis by (rule calm.on [OF _ calm_quiet]) (simp_all add: 1 upd_order_def)
  next
    case (2 x)
    have "calm s (upd_order oid (start_fulfilment (sw_now w) (sw_letter_id w)) s)"
      by (rule calm_upd_order) (use 2(3,4) in \<open>auto simp: order_row_started\<close>)
    then show ?thesis by (rule calm.on [OF _ calm_quiet]) (simp_all add: 2(1,2,5) upd_order_def)
  qed
qed

end
