(* ===== verification/TillLaws.thy ===== *)
theory TillLaws
  imports CommerceFrames
begin

text \<open>
  What every transaction of the commerce service leaves of the till: Stripe's events it has seen, the requests it
  sent for refunds, the orders, and the grants of packs, each for an order that was paid, once, at its credits.
\<close>

section \<open>Grants that are owed\<close>


definition owed :: "db \<Rightarrow> string option \<times> string option \<times> string \<times> int \<Rightarrow> bool" where
  "owed s g \<longleftrightarrow> (case g of (oid, ref, uid, n) \<Rightarrow> ref = oid \<and> (case oid of None \<Rightarrow> False | Some k \<Rightarrow>
     (case find_order k s of None \<Rightarrow> False
      | Some x \<Rightarrow> o_type x = Ot_letter_pack \<and> funded x \<and> o_user x = uid \<and> o_credits x = Some n)))"

definition grants_ok :: "db \<Rightarrow> bool" where
  "grants_ok s \<longleftrightarrow> distinct (map fst (granted s)) \<and> list_all (owed s) (granted s)"

lemma owed_evolves: "owed s g \<Longrightarrow> orders_evolve s s' \<Longrightarrow> owed s' g"
  unfolding orders_evolve_def owed_def by (fastforce simp: order_le_def order_on_def split: option.splits prod.splits)

lemma grants_ok_evolves: "grants_ok s \<Longrightarrow> orders_evolve s s' \<Longrightarrow> granted s' = granted s \<Longrightarrow> grants_ok s'"
  by (auto simp: grants_ok_def list_all_iff intro: owed_evolves)

section \<open>The till\<close>

text \<open>A command's row keeps its order, its letters and its money.\<close>

definition same_refund :: "pack_refund \<Rightarrow> pack_refund \<Rightarrow> bool" where
  "same_refund r q \<longleftrightarrow> prf_id q = prf_id r \<and> prf_order q = prf_order r \<and> prf_user q = prf_user r \<and>
     prf_letters q = prf_letters r \<and> prf_credits q = prf_credits r \<and> prf_amount q = prf_amount r \<and> prf_key q = prf_key r"

definition refunds_kept :: "till \<Rightarrow> till \<Rightarrow> bool" where
  "refunds_kept t t' \<longleftrightarrow> (\<forall>rid r. lockPackRefund rid t = Some r \<longrightarrow> (\<exists>q. lockPackRefund rid t' = Some q \<and> same_refund r q))"

lemma same_refund_refl [simp]: "same_refund r r"
  by (simp add: same_refund_def)

lemma refunds_same: "pack_refunds t' = pack_refunds t \<Longrightarrow> refunds_kept t t'"
  by (simp add: refunds_kept_def lockPackRefund_def)

lemma same_refund_trans: "same_refund r q \<Longrightarrow> same_refund q p \<Longrightarrow> same_refund r p"
  by (simp add: same_refund_def)

lemma refunds_kept_trans: "refunds_kept t t' \<Longrightarrow> refunds_kept t' t'' \<Longrightarrow> refunds_kept t t''"
  unfolding refunds_kept_def by (blast intro: same_refund_trans)

definition evolves :: "string set \<Rightarrow> till \<Rightarrow> till \<Rightarrow> bool" where
  "evolves H t t' \<longleftrightarrow> (orders_ok (till_db t) \<longrightarrow> orders_ok (till_db t') \<and> orders_evolve (till_db t) (till_db t') \<and>
     (grants_ok (till_db t) \<longrightarrow> grants_ok (till_db t')) \<and> audits_kept (till_db t) (till_db t') \<and>
     refunds_kept t t' \<and> refund_calls t' = refund_calls t \<and> settled_orders (till_db t') \<subseteq> settled_orders (till_db t) \<union> H \<and>
     (\<forall>eid. find_event eid t \<noteq> None \<longrightarrow> find_event eid t' \<noteq> None))"

interpretation ev: evolution "evolves H" for H
proof
  fix t t' t'' :: till
  show "evolves H t t" by (simp add: evolves_def orders_evolve_refl audits_same refunds_same)
  assume "evolves H t t'" "evolves H t' t''"
  then show "evolves H t t''"
    by (auto simp: evolves_def audits_kept_def intro: orders_evolve_trans refunds_kept_trans)
qed

lemma ev_calm:
  assumes "calm (till_db t) (till_db t')" "stripe_events t' = stripe_events t" "refund_calls t' = refund_calls t"
    "pack_refunds t' = pack_refunds t"
  shows "evolves H t t'"
  using assms by (auto simp: evolves_def calm_def steady_def settled_orders_def find_event_def refunds_same intro: grants_ok_evolves)

lemma keeps_open: "(orders_ok (till_db t) \<Longrightarrow> keeps (evolves H) t m) \<Longrightarrow> keeps (evolves H) t m"
  by (auto simp: keeps_def evolves_def split: sum.splits prod.splits)

lemma ev_with_db: "calm (till_db t) (f (till_db t)) \<Longrightarrow> evolves H t (with_db f t)"
  by (rule ev_calm) (simp_all add: with_db_def)

lemma ev_run_db: "keeps calm (till_db t) (f (till_db t)) \<Longrightarrow> keeps (evolves H) t (run_db f t)"
  by (auto simp: run_db_def keeps_def intro!: ev_calm split: sum.splits)

lemma ev_exec_db: "kept calm (till_db t) (f (till_db t)) \<Longrightarrow> kept (evolves H) t (exec_db f t)"
  by (auto simp: exec_db_def kept_def intro!: ev_calm split: sum.splits)

lemma ev_events: "(\<And>e. se_id (f e) = se_id e) \<Longrightarrow> evolves H t (stripe_events_update (upd_where P f) t)"
proof -
  assume id: "\<And>e. se_id (f e) = se_id e"
  have "find_event k (stripe_events_update (upd_where P f) t) = map_option (\<lambda>e. if P e then f e else e) (find_event k t)" for k
    by (simp add: find_event_def find_by_upd_where id)
  then show ?thesis by (simp add: evolves_def orders_evolve_refl audits_same refunds_same)
qed

lemma ev_event [simp]: "(\<And>e. se_id (f e) = se_id e) \<Longrightarrow> evolves H t (upd_event eid f t)"
  by (simp add: upd_event_def ev_events)

lemma ev_bind_event [simp]: "evolves H t (bind_event eid oid t)"
  by (simp add: bind_event_def)

lemma ev_note_references [simp]: "evolves H t (note_references eid a b c t)"
  by (simp add: note_references_def)

lemma ev_other_tables [simp]: "evolves H t (disputes_update f t)" "evolves H t (entitlements_update h t)"
  by (rule ev_calm; simp add: calm.here)+

lemma ev_record_event [simp]: "evolves H t (with_db (recordOrderEvent oid ty a b m) t)"
  and ev_raise_alert [simp]: "evolves H t (with_db (raise_alert src named ty sev d) t)"
  and ev_resolve_alerts [simp]: "evolves H t (with_db (resolve_alerts code P) t)"
  by (simp_all add: ev_with_db)

lemma ev_claimed: "claimStripeEvent now eid ty obj t = (b, t') \<Longrightarrow> evolves H t t' \<and> find_event eid t' \<noteq> None \<and> till_db t' = till_db t"
  by (auto simp: claimStripeEvent_def evolves_def find_event_def find_by_append orders_evolve_refl audits_same refunds_same split: if_splits option.splits)

lemmas ev_more = ev.on [OF _ ev_record_event] ev.on [OF _ ev_raise_alert] ev.on [OF _ ev_resolve_alerts]

lemma ev_revoke_entitlements [simp]: "evolves H t (revoke_entitlements oid t)"
  by (simp add: revoke_entitlements_def)

lemma ev_grant_entitlement: "kept (evolves H) t (grantPurchaseImageEntitlement env uid src oid q t)"
  by (auto simp: grantPurchaseImageEntitlement_def grantImageEntitlementWithClient_def Let_def kept_def ev.here
      ev_calm calm.here split: sum.splits if_splits)

lemma ev_refund_rows:
  assumes "refunds_kept t (pack_refunds_update f t)" shows "evolves H t (pack_refunds_update f t)"
  using assms by (simp add: evolves_def orders_evolve_refl audits_same find_event_def)

lemma ev_update_refund:
  assumes "\<And>r. same_refund r (f r)" shows "kept (evolves H) t (update_refund now rid f t)"
proof -
  have same: "same_refund r (stamped now f r)" for r using assms [of r] by (simp add: stamped_def same_refund_def)
  have "lockPackRefund k (upd_refund rid (stamped now f) t) =
      map_option (\<lambda>r. if prf_id r = rid then stamped now f r else r) (lockPackRefund k t)" for k
    unfolding lockPackRefund_def upd_refund_def by (simp add: find_by_upd_where same [unfolded same_refund_def])
  then have "refunds_kept t (upd_refund rid (stamped now f) t)" using same by (auto simp: refunds_kept_def)
  then have "evolves H t (upd_refund rid (stamped now f) t)" unfolding upd_refund_def by (rule ev_refund_rows)
  then show ?thesis by (auto simp: update_refund_def ev.here split: option.split)
qed

lemma ev_insert_refund: "kept (evolves H) t (insert_refund r t)"
proof -
  have "refunds_kept t (pack_refunds_update (\<lambda>rs. rs @ [r]) t)"
    by (auto simp: refunds_kept_def lockPackRefund_def find_by_append)
  then have "evolves H t (pack_refunds_update (\<lambda>rs. rs @ [r]) t)" by (rule ev_refund_rows)
  moreover have "pack_refunds_update (\<lambda>rs. rs @ [r]) t = t\<lparr>pack_refunds := pack_refunds t @ [r]\<rparr>" by (cases t) simp
  ultimately show ?thesis by (auto simp: insert_refund_def split: option.split)
qed

lemma same_refund_rows [simp]:
  "same_refund r (fail_refund now p r)" "same_refund r (compensate_refund now p lot r)" "same_refund r (submit_refund now rid r)"
  "same_refund r (succeed_refund now rid r)" "same_refund r (count_attempt c r)"
  by (simp_all add: same_refund_def row_defs)

lemma ev_refund_event [simp]: "evolves H t (refund_event r src d t)"
  by (simp add: refund_event_def)

section \<open>Disputes\<close>

lemma ev_recordDispute [simp]: "evolves H t (recordDispute js d uid closed keep t)"
proof -
  have "recordDispute js d uid closed keep t = disputes_update (\<lambda>ds. if find_dispute (do_id d) t = None
      then disputes t @ [dispute_row js d uid closed]
      else upd_where (\<lambda>r. di_id r = do_id d) (merge_dispute keep (dispute_row js d uid closed)) ds) t"
    by (simp add: recordDispute_def Let_def)
  then show ?thesis by simp
qed

lemma ev_unblock [simp]: "evolves H t (unblockAccountSends now uid did t)"
  by (auto simp: unblockAccountSends_def ev.here intro!: ev_with_db)

lemma ev_dispute_effects: "kept (evolves H) t (dispute_effects w eid ty d x t)"
  unfolding dispute_effects_def
  by (auto simp: ev.here intro!: ev.kept_bind1 ev_exec_db calm_take_disputed_pack calm_compensateDisputed ev_with_db)

lemma ev_stopped [simp]:
  "evolves H t (with_db (\<lambda>s. snd (stopFundedMailBeforeFinancialReversal now x src reason s)) t)"
  by (simp add: ev_with_db)

lemma ev_matched_dispute: "kept (evolves H) t (matched_dispute w eid ty d prior x t)"
  unfolding matched_dispute_def Let_def resolve_created_alerts_def
proof (intro ev.kept_bind1 ev.kept_after [OF ev_record_event ev_dispute_effects])
  show "kept (evolves H) t (exec_db (update_order (pw_now w) (o_id x) (mark_disputed (pw_now w) (do_status d)))
      (with_db (\<lambda>s. snd (stopFundedMailBeforeFinancialReversal (pw_now w) x eid ''payment_disputed'' s)) t))"
    by (rule ev.kept_after [OF ev_stopped]) (auto intro!: ev_exec_db calm_update_order)
qed (auto intro!: ev_more simp: ev.here)

lemma ev_note_dispute: "kept (evolves H) t (note_dispute w ty d why keep x t)"
  by (auto simp: note_dispute_def ev.here order_le_def order_on_def row_sound_def intro!: ev.kept_bind1 ev_exec_db calm_update_order)

lemma ev_unmatched_dispute [simp]: "evolves H t (unmatched_dispute eid ty d prior t)"
  by (auto simp: unmatched_dispute_def Let_def split: option.split intro!: ev_more)

text \<open>A processed event is seen.\<close>

definition sees :: "string set \<Rightarrow> string \<Rightarrow> till \<Rightarrow> till \<Rightarrow> bool" where
  "sees H eid t t' \<longleftrightarrow> evolves H t t' \<and> (orders_ok (till_db t) \<longrightarrow> find_event eid t' \<noteq> None)"

lemma sees_evolves: "keeps (sees H eid) t m \<Longrightarrow> keeps (evolves H) t m"
  by (auto simp: keeps_def sees_def split: sum.splits)

lemma ev_after_claim:
  assumes "\<And>t0. claimStripeEvent now eid ty obj t = (True, t0) \<Longrightarrow> keeps (evolves H) t0 (f t0)"
  shows "keeps (sees H eid) t (case claimStripeEvent now eid ty obj t of (False, t0) \<Rightarrow> Inr (duplicate_event, t0) | (True, t0) \<Rightarrow> f t0)"
proof (cases "claimStripeEvent now eid ty obj t")
  case (Pair b t0)
  note c = ev_claimed [OF Pair]
  have "sees H eid t t'" if "f t0 = Inr (r, t')" "b" for r t'
  proof -
    have "evolves H t0 t'" using assms that Pair by (auto dest: keepsD)
    then show ?thesis using c by (auto simp: sees_def intro: ev.on) (auto simp: evolves_def)
  qed
  then show ?thesis using c Pair by (cases b) (auto simp: keeps_def sees_def split: sum.split)
qed

lemma ev_processDisputeEvent: "keeps (sees H eid) t (processDisputeEvent w eid ty d t)"
  unfolding processDisputeEvent_def
proof (rule ev_after_claim, goal_cases)
  case (1 t0)
  let ?t1 = "note_references eid (do_intent d) (do_charge d) (do_metadata_order d) t0"
  let ?t2 = "\<lambda>u k. recordDispute (pw_js w) d u (ty = De_closed) k ?t1"
  have there: "evolves H t0 (?t2 u k)" for u k by (rule ev.on [OF ev_note_references ev_recordDispute])
  have bound: "evolves H t0 (bind_event eid oid (?t2 u k))" for u k oid by (rule ev.on [OF there ev_bind_event])
  show ?case unfolding Let_def
    by (auto split: option.split intro!: ev.on [OF there ev_unmatched_dispute] ev.keeps_bind1
        ev.kept_after [OF bound ev_note_dispute] ev.kept_after [OF bound ev_matched_dispute] simp: ev.here)
qed

lemma ev_applyRecovered: "keeps (evolves H) t (applyRecoveredDisputes w x evs t)"
proof -
  have a: "evolves H t (resolve_others now ours oid t)" for now ours oid t
    by (auto simp: resolve_others_def Let_def intro!: ev_more ev_events)
  have b: "calm s (fold (recovered_alert evs x) ds s)" for ds s
    by (rule calm.folded) (simp add: recovered_alert_def Let_def)
  have c: "evolves H t (disputes_update f (resolve_others now ours oid t))" for f now ours oid t
    by (rule ev.on [OF a ev_other_tables(1)])
  have u: "kept (evolves H) t (exec_db (update_order now oid (\<lambda>y. y\<lparr>o_dispute_status := v\<rparr>)) t)" for t now oid v
    by (auto simp: order_le_def order_on_def row_sound_def intro!: ev_exec_db calm_update_order)
  have r: "kept (evolves H) t (exec_db (recovered_effects now evs x ds) t)" for t now ds
    by (rule ev_exec_db, rule calm_recovered_effects)
  have done_: "evolves H t (with_db (fold (recovered_alert evs x) ds) (if l = [] then t else with_db (blockAccountSends now uid reason) t))"
    for t ds l now uid reason
  proof (cases "l = []")
    case False
    have "evolves H t (with_db (blockAccountSends now uid reason) t)" by (simp add: ev_with_db)
    then show ?thesis using False by (simp add: ev.on [OF _ ev_with_db] b)
  qed (simp add: ev_with_db b)
  show ?thesis
    unfolding applyRecoveredDisputes_def Let_def
    by (auto simp: ev.here a done_ intro!: ev.keeps_bind1 [OF ev.kept_after [OF c u]] ev.keeps_bind1 [OF r])
qed

section \<open>Paid orders\<close>

lemma update_order_found:
  assumes "update_order now oid f s = Inr s'" and "find_order oid s = Some x" and "\<And>y. o_id (f y) = o_id y"
  shows "find_order oid s' = Some (touched now f x)"
  using assms(1)
proof (cases rule: update_order_Inr)
  case (2 y)
  then show ?thesis using assms(2,3) by (simp add: found_upd_order)
qed (use assms(2) in simp)

lemma grant_gifts_frame: "grant_gifts now p e is s = Inr (gs, s') \<Longrightarrow> orders s' = orders s \<and> ledger s' = ledger s \<and> audits s' = audits s"
proof (induction "is" arbitrary: s gs)
  case (Cons i "is")
  then obtain r s1 gs1 where "insert_gift (new_gift now p e i (fresh_gift_id s)) s = Inr (r, s1)"
    "grant_gifts now p e is s1 = Inr (gs1, s')" by (auto simp: bindE_Inr_iff)
  then show ?case using Cons.IH [of s1 gs1] by (auto simp: insert_gift_def split: if_splits)
qed simp

lemma pack_gifts_frame: "grant_pack_gifts w x s = Inr s' \<Longrightarrow> orders s' = orders s \<and> ledger s' = ledger s \<and> audits s' = audits s"
  by (auto simp: grant_pack_gifts_def grantGiftLettersWithClient_def Let_def bindE_Inr_iff
      dest!: grant_gifts_frame split: option.splits if_splits)

lemma ensure_account_frame:
  assumes "ensureAccountRowWithClient now uid email n b s = Inr (u, s')"
  shows "orders s' = orders s \<and> ledger s' = ledger s \<and> audits s' = audits s"
proof -
  obtain us where "s' = s\<lparr>users := us\<rparr>" using ensureAccountRow_frame [OF assms] by blast
  then show ?thesis by simp
qed

text \<open>What the grant of a purchase adds.\<close>

lemma add_purchase:
  assumes "addCreditsToLedgerWithClient now js (pack_grant x email sid intent) s = Inr (r, s')"
  obtains n where "o_credits x = Some n" "0 < n" "orders s' = orders s" "audits s' = audits s"
    "granted s' = granted s @ [(Some (o_id x), Some (o_id x), o_user x, n)]" "Some (o_id x) \<notin> fst ` set (granted s)"
proof -
  obtain u tx lot where r: "r = (u, tx, lot)" by (cases r)
  from assms [unfolded r] show ?thesis
  proof (rule add_Inr)
    fix s1 s2
    assume pos: "0 < ac_credits (pack_grant x email sid intent)"
      and acc: "ensureAccountRowWithClient now (ac_user (pack_grant x email sid intent)) (ac_email (pack_grant x email sid intent))
         (ac_credits (pack_grant x email sid intent)) True s = Inr (u, s1)"
      and lot: "lot = new_lot now (expiration_of js (pack_grant x email sid intent)) (pack_grant x email sid intent) (fresh_id s1)"
      and ins: "insert_lot lot s1 = Inr s2" and s': "s' = insert_txn tx s2"
    from pos obtain n where n: "o_credits x = Some n" "0 < n" by (auto simp: pack_grant_def split: option.splits)
    note i = insert_lot_Inr [OF ins]
    have src: "le_source_type lot = Src_purchase" by (simp add: lot pack_grant_def)
    have named: "le_source_order_id lot = Some (o_id x)"
      using i(6) [OF src] by (simp add: lot pack_grant_def or_null_str_def split: if_splits option.splits)
    have "(le_source_order_id lot, le_source_reference_id lot, le_user lot, le_initial lot) =
        (Some (o_id x), Some (o_id x), o_user x, n)"
      using named n by (auto simp: lot pack_grant_def new_lot_def or_null_str_def split: if_splits)
    then have g: "granted s' = granted s @ [(Some (o_id x), Some (o_id x), o_user x, n)]"
      using ensure_account_frame [OF acc] src by (simp add: s' i(1) granted_def)
    have fresh: "Some (o_id x) \<notin> fst ` set (granted s)"
    proof
      assume "Some (o_id x) \<in> fst ` set (granted s)"
      then obtain e where "e \<in> set (ledger s1)" "le_source_type e = Src_purchase" "le_source_order_id e = Some (o_id x)"
        using ensure_account_frame [OF acc] by (auto simp: granted_def)
      then show False using i(7) [OF src] named by simp
    qed
    show ?thesis
      by (rule that [OF n _ _ g fresh]) (use ensure_account_frame [OF acc] in \<open>simp_all add: s' i(1) insert_txn_def\<close>)
  qed
qed

lemma ev_fulfil_pack:
  assumes found: "find_order (o_id x) (till_db t) = Some y" and le: "order_on x y" and new: "\<not> funded y"
    and pack: "o_type x = Ot_letter_pack" and paid: "o_id x \<in> H"
  shows "keeps (evolves H) t (fulfil_pack w x cs t)"
proof (rule keepsI)
  fix st t'
  assume "fulfil_pack w x cs t = Inr (st, t')"
  then obtain r t1 t2 t3 t4 where
    1: "run_db (addCreditsToLedgerWithClient (pw_now w) (pw_js w)
          (pack_grant x (or_opt (cs_customer_email cs) (cs_details_email cs)) (cs_id cs) (paymentIntentId cs))) t = Inr (r, t1)"
    and 2: "grantPurchaseImageEntitlement (pw_env w) (o_user x) ''letter_pack'' (o_id x)
          (packImageGrant (case o_credits x of None \<Rightarrow> 0 | Some n \<Rightarrow> n) (pw_env w)) t1 = Inr t2"
    and 3: "exec_db (grant_pack_gifts w x) t2 = Inr t3"
    and 4: "exec_db (update_order (pw_now w) (o_id x) (fulfil_pack_order (pw_now w))) t3 = Inr t4"
    and t': "t' = with_db (recordOrderEvent (o_id x) ''letter_pack.granted'' (Some Ord_paid) (Some Ord_fulfilled) []) t4"
    by (auto simp: fulfil_pack_def bindE_Inr_iff)
  from 1 have add: "addCreditsToLedgerWithClient (pw_now w) (pw_js w)
      (pack_grant x (or_opt (cs_customer_email cs) (cs_details_email cs)) (cs_id cs) (paymentIntentId cs)) (till_db t) = Inr (r, till_db t1)"
    and same1: "stripe_events t1 = stripe_events t" "refund_calls t1 = refund_calls t" "pack_refunds t1 = pack_refunds t"
    by (auto simp: run_db_def split: sum.splits)
  obtain n where n: "o_credits x = Some n" and ord: "orders (till_db t1) = orders (till_db t)" "audits (till_db t1) = audits (till_db t)"
    and g: "granted (till_db t1) = granted (till_db t) @ [(Some (o_id x), Some (o_id x), o_user x, n)]"
    and fresh: "Some (o_id x) \<notin> fst ` set (granted (till_db t))" by (rule add_purchase [OF add])
  have db2: "till_db t2 = till_db t1" "stripe_events t2 = stripe_events t1" "refund_calls t2 = refund_calls t1"
    "pack_refunds t2 = pack_refunds t1"
    using 2 by (auto simp: grantPurchaseImageEntitlement_def grantImageEntitlementWithClient_def Let_def split: sum.splits if_splits)
  from 3 have gifts: "grant_pack_gifts w x (till_db t1) = Inr (till_db t3)"
    and same3: "stripe_events t3 = stripe_events t2" "refund_calls t3 = refund_calls t2" "pack_refunds t3 = pack_refunds t2"
    by (auto simp: exec_db_def db2 split: sum.splits)
  have o3: "orders (till_db t3) = orders (till_db t)" "granted (till_db t3) = granted (till_db t1)" "audits (till_db t3) = audits (till_db t)"
    using pack_gifts_frame [OF gifts] by (simp_all add: ord granted_def)
  from 4 have upd: "update_order (pw_now w) (o_id x) (fulfil_pack_order (pw_now w)) (till_db t3) = Inr (till_db t4)"
    and same4: "stripe_events t4 = stripe_events t3" "refund_calls t4 = refund_calls t3" "pack_refunds t4 = pack_refunds t3"
    by (auto simp: exec_db_def split: sum.splits)
  have c34: "steady (till_db t3) (till_db t4)" and found4: "\<And>k. find_order k (till_db t4) =
      (if k = o_id x then map_option (touched (pw_now w) (fulfil_pack_order (pw_now w))) (find_order (o_id x) (till_db t3))
       else find_order k (till_db t3))"
    using steady_update_order [OF upd] by simp_all
  have find3: "find_order k (till_db t3) = find_order k (till_db t)" for k by (simp add: find_order_def o3)
  have row: "find_order (o_id x) (till_db t4) = Some (touched (pw_now w) (fulfil_pack_order (pw_now w)) y)"
    by (rule update_order_found [OF upd]) (simp_all add: find3 found)
  have db': "till_db t' = recordOrderEvent (o_id x) ''letter_pack.granted'' (Some Ord_paid) (Some Ord_fulfilled) [] (till_db t4)"
    by (simp add: t' with_db_def)
  have orders': "orders (till_db t') = orders (till_db t4)" "granted (till_db t') = granted (till_db t4)"
    "audits (till_db t') = audits (till_db t4)"
    by (simp_all add: db' recordOrderEvent_def granted_def)
  show "evolves H t t'" unfolding evolves_def
  proof (intro impI conjI)
    assume ok: "orders_ok (till_db t)"
    then have ok3: "orders_ok (till_db t3)" by (simp add: orders_ok_def o3)
    with c34 have c: "orders_ok (till_db t4)" "orders_evolve (till_db t3) (till_db t4)" "granted (till_db t4) = granted (till_db t3)"
      "audits_kept (till_db t3) (till_db t4)" by (simp_all add: steady_def)
    show "orders_ok (till_db t')" using c(1) by (simp add: orders_ok_def orders')
    show ev: "orders_evolve (till_db t) (till_db t')" using c(2) by (simp add: orders_evolve_def find_order_def orders' o3)
    show "refund_calls t' = refund_calls t" by (simp add: t' with_db_def same4 same3 db2 same1)
    show "refunds_kept t t'" by (rule refunds_same) (simp add: t' with_db_def same4 same3 db2 same1)
    show "audits_kept (till_db t) (till_db t')" using c(4) by (simp add: audits_kept_def find_audit_def orders' o3)
    show "\<forall>eid. find_event eid t \<noteq> None \<longrightarrow> find_event eid t' \<noteq> None"
      by (simp add: t' with_db_def find_event_def same4 same3 db2 same1)
    have g': "granted (till_db t') = granted (till_db t) @ [(Some (o_id x), Some (o_id x), o_user x, n)]"
      by (simp add: orders' c(3) o3 g)
    have "find_order k (till_db t') = find_order k (till_db t4)" for k by (simp add: find_order_def orders')
    then show "settled_orders (till_db t') \<subseteq> settled_orders (till_db t) \<union> H"
      using paid by (auto simp: settled_orders_def fulfilled_orders_def g' found4 find3 split: if_splits)
    assume grants: "grants_ok (till_db t)"
    have "owed (till_db t') (Some (o_id x), Some (o_id x), o_user x, n)"
      using row le pack n by (simp add: owed_def find_order_def orders' touched_def fulfil_pack_order_def order_le_def order_on_def
          FUNDED_OR_REVERSED_ORDER_STATUSES_def)
    moreover have "list_all (owed (till_db t')) (granted (till_db t))"
      using grants ev by (auto simp: grants_ok_def list_all_iff intro: owed_evolves)
    ultimately show "grants_ok (till_db t')"
      using grants fresh by (auto simp: grants_ok_def g' list_all_iff)
  qed
qed

lemma ev_mail_jit_order: "keeps (evolves H) t (mail_jit_order w x t)"
  unfolding mail_jit_order_def
  by (auto simp: ev.here intro!: ev.keeps_bind ev_run_db calm_send ev.keeps_bind1 [OF ev_grant_entitlement] simp: jit_send_def)

lemma ev_missed [simp]: "evolves H t (with_db (\<lambda>s. recordMissedSchedule oid missed (recordOrderEvent oid2 ty a b m s)) t)"
  by (auto simp: recordMissedSchedule_def calm.here split: option.split intro!: ev_with_db calm_more)

lemma ev_fulfil_jit: "keeps (evolves H) t (fulfil_jit w texts x t)"
proof -
  have "evolves H t t1" if "mail_jit_order w x t = Inr (r, t1)" for r t1 by (rule keepsD [OF ev_mail_jit_order that])
  then show ?thesis
    by (auto simp: fulfil_jit_def ev.here split: sum.split
        intro!: ev.on [OF _ ev_missed] ev.keeps_bind1 ev_exec_db calm_update_order)
qed

lemma ev_exec_update:
  assumes "\<And>y. o_id (f y) = o_id y" and "\<And>y. find_order oid (till_db t) = Some y \<Longrightarrow> order_le y (f y)"
  shows "kept (evolves H) t (exec_db (update_order now oid f) t)"
  using assms by (intro ev_exec_db calm_update_order)

lemma exec_update_found:
  assumes "exec_db (update_order now oid f) t = Inr t'" and "find_order oid (till_db t) = Some x" and "\<And>y. o_id (f y) = o_id y"
  shows "find_order oid (till_db t') = Some (touched now f x)"
  using assms update_order_found [of now oid f "till_db t" "till_db t'" x] by (auto simp: exec_db_def split: sum.splits)

lemma ev_transitionPaid:
  assumes x: "find_order (o_id x) (till_db t) = Some x"
    and owner: "cs_payment_status cs = ''paid'' \<Longrightarrow> paid_as_ordered x cs \<Longrightarrow> o_id x \<in> H"
  shows "keeps (evolves H) t (transitionPaidCheckout w x cs ty t)"
  unfolding transitionPaidCheckout_def
proof (rule ev.keeps_bind1)
  show "kept (evolves H) t (exec_db (update_order (pw_now w) (o_id x) (note_session cs)) t)" by (rule ev_exec_update) simp_all
next
  fix t1
  assume 1: "exec_db (update_order (pw_now w) (o_id x) (note_session cs)) t = Inr t1"
  let ?x1 = "touched (pw_now w) (note_session cs) x"
  have x1: "find_order (o_id x) (till_db t1) = Some ?x1" by (rule exec_update_found [OF 1 x]) simp
  have same: "o_status ?x1 = o_status x" by (simp add: touched_def note_session_def)
  have paid: "keeps (evolves H) t1 (bindE (exec_db (update_order (pw_now w) (o_id x) (mark_paid (pw_now w) (paymentIntentId cs))) t1) (\<lambda>t2.
      let t3 = with_db (recordOrderEvent (o_id x) ty (Some (o_status x)) (Some Ord_paid) []) t2
      in if o_type x = Ot_letter_pack then fulfil_pack w x cs t3 else fulfil_jit w webhook_texts x t3))"
    if new: "\<not> funded x" and owned: "o_id x \<in> H"
  proof (rule ev.keeps_bind1)
    show "kept (evolves H) t1 (exec_db (update_order (pw_now w) (o_id x) (mark_paid (pw_now w) (paymentIntentId cs))) t1)"
      by (rule ev_exec_update) (use x1 same new in simp_all)
  next
    fix t2
    assume 2: "exec_db (update_order (pw_now w) (o_id x) (mark_paid (pw_now w) (paymentIntentId cs))) t1 = Inr t2"
    let ?x2 = "touched (pw_now w) (mark_paid (pw_now w) (paymentIntentId cs)) ?x1"
    let ?t3 = "with_db (recordOrderEvent (o_id x) ty (Some (o_status x)) (Some Ord_paid) []) t2"
    have "find_order (o_id x) (till_db t2) = Some ?x2" by (rule exec_update_found [OF 2 x1]) simp
    then have x3: "find_order (o_id x) (till_db ?t3) = Some ?x2" by (simp add: with_db_def recordOrderEvent_def find_order_def)
    have le: "order_on x ?x2" using new by (simp add: order_le_def order_on_def touched_def note_session_def mark_paid_def row_sound_def)
    have "\<not> funded ?x2" by (simp add: touched_def mark_paid_def)
    then have "keeps (evolves H) ?t3 (if o_type x = Ot_letter_pack then fulfil_pack w x cs ?t3 else fulfil_jit w webhook_texts x ?t3)"
      using ev_fulfil_pack [OF x3 le] owned by (simp add: ev_fulfil_jit)
    then show "keeps (evolves H) t2 (let t3 = ?t3 in if o_type x = Ot_letter_pack then fulfil_pack w x cs t3 else fulfil_jit w webhook_texts x t3)"
      unfolding Let_def by (rule ev.keeps_after [OF ev_record_event])
  qed
  show "keeps (evolves H) t1 (if cs_payment_status cs \<noteq> ''paid'' then Inr (o_status x, t1)
     else if o_status x \<in> set FUNDED_OR_REVERSED_ORDER_STATUSES then Inr (o_status x, t1)
     else if \<not> paid_as_ordered x cs
     then bindE (exec_db (update_order (pw_now w) (o_id x)
                   (to_refund (pw_now w) ''PAYMENT_AMOUNT_MISMATCH'' (mismatch_text x cs))) t1)
            (\<lambda>t2. Inr (Ord_refund_pending, with_db (recordOrderEvent (o_id x) ty (Some (o_status x))
               (Some Ord_refund_pending) [(''reason'', JStr ''payment_amount_mismatch'')]) t2))
     else bindE (exec_db (update_order (pw_now w) (o_id x) (mark_paid (pw_now w) (paymentIntentId cs))) t1) (\<lambda>t2.
            let t3 = with_db (recordOrderEvent (o_id x) ty (Some (o_status x)) (Some Ord_paid) []) t2
            in if o_type x = Ot_letter_pack then fulfil_pack w x cs t3 else fulfil_jit w webhook_texts x t3))"
    using paid owner by (auto simp: ev.here intro!: ev.keeps_bind1 [OF ev_exec_update])
qed

lemma ev_match_events [simp]: "evolves H t (match_events now ids oid t)"
  by (auto simp: match_events_def intro!: ev_more ev_events)

lemma ev_recover_money: "keeps (evolves H) t (recover_money w x ci cs evs t)"
proof -
  have "keeps (evolves H) t1 (if b then applyRecoveredDisputes w x evs (match_events now ids oid t1)
      else Inr (([], False), match_events now ids oid t1))" for t1 b now ids oid
    by (auto intro: ev.keeps_after [OF ev_match_events ev_applyRecovered])
  then show ?thesis unfolding recover_money_def Let_def
    by (intro ev.keeps_bind1 [OF ev_exec_update] ev.keeps_bind) auto
qed

lemma ev_close_checkout:
  assumes "find_order (o_id x) (till_db t) = Some x" and "\<And>y. o_id (f y) = o_id y"
    and "o_status x = Ord_checkout_pending \<Longrightarrow> order_le x (f x)"
  shows "keeps (evolves H) t (close_checkout w ty st f x t)"
  using assms by (auto simp: close_checkout_def ignored_event_def intro!: ev.keeps_bind1 [OF ev_exec_update])

lemma ev_session_event:
  assumes "find_order (o_id x) (till_db t) = Some x"
    and "cs_payment_status cs = ''paid'' \<Longrightarrow> paid_as_ordered x cs \<Longrightarrow> o_id x \<in> H"
  shows "keeps (evolves H) t (session_event w ty cs x ci t)"
  unfolding session_event_def Let_def
  by (auto simp: ev_recover_money ignored_event_def order_le_def order_on_def row_sound_def
      intro!: ev_close_checkout [OF assms(1)] ev.keeps_bind [OF ev_transitionPaid [OF assms]] simp: ev.here)

lemma findCheckoutOrder_mem: "findCheckoutOrder cs s = Some x \<Longrightarrow> x \<in> set (orders s)"
  by (auto simp: findCheckoutOrder_def order_of_session_def find_Some_iff dest!: find_order_mem split: option.splits)

lemma bind_event_db [simp]: "till_db (bind_event eid oid t) = till_db t"
  by (simp add: bind_event_def upd_event_def)

lemma adopted_found:
  assumes "createLegacyPackOrder now env cs s = Inr (Some x, s')" shows "find_order (o_id x) s' = Some x"
proof -
  from assms obtain s1 where s1: "insert_order x s = Inr s1" and s': "orders s' = orders s1"
    by (auto simp: createLegacyPackOrder_def Let_def bindE_Inr_iff recordOrderEvent_def split: option.splits if_splits)
  have "orders s1 = orders s @ [x]" "find_order (o_id x) s = None"
    using s1 by (auto simp: insert_order_def split: option.splits if_splits)
  then show ?thesis by (simp add: find_order_def s' find_by_append)
qed

text \<open>The order of a session Stripe calls paid, at the order's amount and currency.\<close>

definition order_of_checkout :: "pay_world \<Rightarrow> checkout_session \<Rightarrow> db \<Rightarrow> order \<Rightarrow> bool" where
  "order_of_checkout w cs s x \<longleftrightarrow> (case findCheckoutOrder cs s of Some y \<Rightarrow> x = y
     | None \<Rightarrow> \<exists>s'. createLegacyPackOrder (pw_now w) (pw_env w) cs s = Inr (Some x, s'))"

definition paid_by :: "pay_world \<Rightarrow> string \<Rightarrow> checkout_session \<Rightarrow> till \<Rightarrow> string set" where
  "paid_by w eid cs t = {oid. find_event eid t = None \<and> cs_payment_status cs = ''paid'' \<and>
     (\<exists>x. o_id x = oid \<and> order_of_checkout w cs (till_db t) x \<and> paid_as_ordered x cs)}"

lemma ev_processCheckoutSessionEvent: "keeps (sees (paid_by w eid cs t) eid) t (processCheckoutSessionEvent w eid ty cs t)"
  unfolding processCheckoutSessionEvent_def
proof (rule ev_after_claim)
  fix t0
  let ?H = "paid_by w eid cs t"
  assume c: "claimStripeEvent (pw_now w) eid ty (cs_id cs) t = (True, t0)"
  have db: "till_db t0 = till_db t" using ev_claimed [OF c] by blast
  have new: "find_event eid t = None" using c by (simp add: claimStripeEvent_def split: if_splits)
  have unmatched: "evolves ?H t1 (unmatched_session eid cs t1)" for t1
    by (auto simp: unmatched_session_def ev.here intro!: ev_more)
  show "keeps (evolves ?H) t0 (case findCheckoutOrder cs (till_db t0) of
      Some x \<Rightarrow> session_event w ty cs x (or_null_str (o_stripe_payment_intent_id x)) (bind_event eid (o_id x) t0)
    | None \<Rightarrow> bindE (run_db (createLegacyPackOrder (pw_now w) (pw_env w) cs) t0) (\<lambda>(adopted, t1).
        case adopted of None \<Rightarrow> Inr (unmatched_event, unmatched_session eid cs t1)
        | Some x \<Rightarrow> session_event w ty cs x None (bind_event eid (o_id x) t1)))"
  proof (cases "findCheckoutOrder cs (till_db t0)")
    case (Some x)
    have own: "o_id x \<in> ?H" if "cs_payment_status cs = ''paid''" "paid_as_ordered x cs"
      using that Some by (auto simp: paid_by_def order_of_checkout_def db new)
    have "keeps (evolves ?H) t0 (session_event w ty cs x (or_null_str (o_stripe_payment_intent_id x)) (bind_event eid (o_id x) t0))"
    proof (rule keeps_open)
      assume "orders_ok (till_db t0)"
      then have "find_order (o_id x) (till_db (bind_event eid (o_id x) t0)) = Some x"
        using found_of_row [OF _ findCheckoutOrder_mem [OF Some]] by simp
      then show "keeps (evolves ?H) t0 (session_event w ty cs x (or_null_str (o_stripe_payment_intent_id x)) (bind_event eid (o_id x) t0))"
        using own by (intro ev.keeps_after [OF ev_bind_event ev_session_event])
    qed
    then show ?thesis using Some by simp
  next
    case None
    have adopted: "keeps (evolves ?H) t1 (session_event w ty cs x None (bind_event eid (o_id x) t1))"
      if "run_db (createLegacyPackOrder (pw_now w) (pw_env w) cs) t0 = Inr (Some x, t1)" for x t1
    proof (rule ev.keeps_after [OF ev_bind_event ev_session_event])
      from that have made: "createLegacyPackOrder (pw_now w) (pw_env w) cs (till_db t0) = Inr (Some x, till_db t1)"
        by (auto simp: run_db_def split: sum.splits)
      then show "find_order (o_id x) (till_db (bind_event eid (o_id x) t1)) = Some x" by (simp add: adopted_found)
      show "o_id x \<in> ?H" if "cs_payment_status cs = ''paid''" "paid_as_ordered x cs"
        using that made None by (auto simp: paid_by_def order_of_checkout_def db new)
    qed
    have calm: "keeps (evolves ?H) t0 (run_db (createLegacyPackOrder (pw_now w) (pw_env w) cs) t0)"
      by (rule ev_run_db, rule calm_createLegacyPackOrder)
    show ?thesis unfolding None option.case
    proof (rule ev.keeps_bind [OF calm])
      fix a t1
      assume "run_db (createLegacyPackOrder (pw_now w) (pw_env w) cs) t0 = Inr (a, t1)"
      then show "keeps (evolves ?H) t1 (case (a, t1) of (adopted, t1) \<Rightarrow> case adopted of
          None \<Rightarrow> Inr (unmatched_event, unmatched_session eid cs t1)
        | Some x \<Rightarrow> session_event w ty cs x None (bind_event eid (o_id x) t1))"
        by (cases a) (simp_all add: unmatched adopted)
    qed
  qed
qed

text \<open>The order a new session event is about is there afterwards, as it was ordered.\<close>

lemma session_event_row:
  assumes "session_event w ty cs x ci (bind_event eid (o_id x) t) = Inr (r, t')" and "find_order (o_id x) (till_db t) = Some x"
    and "orders_ok (till_db t)"
  shows "\<exists>z. find_order (o_id x) (till_db t') = Some z \<and> order_on x z"
proof -
  have "keeps (evolves UNIV) (bind_event eid (o_id x) t) (session_event w ty cs x ci (bind_event eid (o_id x) t))"
    by (rule ev_session_event) (simp_all add: assms(2))
  then have "evolves UNIV (bind_event eid (o_id x) t) t'" by (rule keepsD [OF _ assms(1)])
  then show ?thesis using assms(2,3) by (auto simp: evolves_def orders_evolve_def)
qed

lemma processed_row:
  assumes run: "processCheckoutSessionEvent w eid ty cs t = Inr (r, t')" and new: "find_event eid t = None"
    and x: "order_of_checkout w cs (till_db t) x" and ok: "orders_ok (till_db t)"
  shows "\<exists>z. find_order (o_id x) (till_db t') = Some z \<and> order_on x z"
proof -
  obtain b t0 where c: "claimStripeEvent (pw_now w) eid ty (cs_id cs) t = (b, t0)" by (metis surj_pair)
  then have b: "b" and db: "till_db t0 = till_db t" using new ev_claimed [OF c] by (auto simp: claimStripeEvent_def)
  show ?thesis
  proof (cases "findCheckoutOrder cs (till_db t)")
    case (Some y)
    then have "find_order (o_id x) (till_db t0) = Some x"
      using x found_of_row [OF ok findCheckoutOrder_mem [OF Some]] by (simp add: order_of_checkout_def db)
    moreover have "session_event w ty cs x (or_null_str (o_stripe_payment_intent_id x)) (bind_event eid (o_id x) t0) = Inr (r, t')"
      using run c b Some x by (simp add: processCheckoutSessionEvent_def db order_of_checkout_def)
    ultimately show ?thesis by (intro session_event_row [where t = t0]) (simp_all add: db ok)
  next
    case None
    then obtain s' where made: "createLegacyPackOrder (pw_now w) (pw_env w) cs (till_db t) = Inr (Some x, s')"
      using x by (auto simp: order_of_checkout_def split: sum.splits)
    then have "session_event w ty cs x None (bind_event eid (o_id x) (t0\<lparr>till_db := s'\<rparr>)) = Inr (r, t')"
      using run c b None by (simp add: processCheckoutSessionEvent_def run_db_def db)
    moreover have "orders_ok s'" using keepsD [OF calm_createLegacyPackOrder made] ok by (simp add: calm_def steady_def)
    ultimately show ?thesis by (intro session_event_row [where t = "t0\<lparr>till_db := s'\<rparr>"]) (simp_all add: adopted_found [OF made])
  qed
qed

lemma ev_fulfillPaidOrder: "keeps (evolves H) t (fulfillPaidOrder w oid t)"
  by (auto simp: fulfillPaidOrder_def ev.here split: option.split intro!: ev.keeps_bind [OF ev_fulfil_jit])

text \<open>The repair grants only what a fulfilled order is owed and nothing granted yet.\<close>

lemma ev_repair: "keeps (evolves H) t (repairFulfilledPackGrant w p t)"
proof (rule keepsI)
  fix b t'
  assume run: "repairFulfilledPackGrant w p t = Inr (b, t')"
  then obtain x t1 where x: "find_order (rp_order p) (till_db t) = Some x" and rep: "repairable p x"
    and 1: "grantPurchaseImageEntitlement (pw_env w) (o_user x) ''letter_pack'' (o_id x) (packImageGrant (rp_credits p) (pw_env w)) t = Inr t1"
    by (auto simp: repairFulfilledPackGrant_def Let_def bindE_Inr_iff split: option.splits if_splits)
  have e1: "evolves H t t1" by (rule keptD [OF ev_grant_entitlement 1])
  have db1: "till_db t1 = till_db t" "stripe_events t1 = stripe_events t" "refund_calls t1 = refund_calls t" "pack_refunds t1 = pack_refunds t"
    using 1 by (auto simp: grantPurchaseImageEntitlement_def grantImageEntitlementWithClient_def Let_def split: sum.splits if_splits)
  show "evolves H t t'"
  proof (cases "list_ex (\<lambda>e. le_source_type e = Src_purchase \<and> le_source_reference_id e = Some (o_id x)) (ledger (till_db t))")
    case True
    with run x rep 1 have "t' = t1" by (simp add: repairFulfilledPackGrant_def)
    then show ?thesis using e1 by simp
  next
    case False
    with run x rep 1 obtain r t2 where
      2: "run_db (addCreditsToLedgerWithClient (pw_now w) (pw_js w)
          (pack_grant x None (rp_session p) (o_stripe_payment_intent_id x))) t1 = Inr (r, t2)"
      and t': "t' = with_db (recordOrderEvent (o_id x) ''maintenance.pack_grant_repaired'' (Some (o_status x))
                (Some (o_status x)) [(''source'', JStr ''stripe_reconciliation'')]) t2"
      by (auto simp: repairFulfilledPackGrant_def bindE_Inr_iff)
    from 2 have add: "addCreditsToLedgerWithClient (pw_now w) (pw_js w)
        (pack_grant x None (rp_session p) (o_stripe_payment_intent_id x)) (till_db t) = Inr (r, till_db t2)"
      and same: "stripe_events t2 = stripe_events t" "refund_calls t2 = refund_calls t" "pack_refunds t2 = pack_refunds t"
      by (auto simp: run_db_def db1 split: sum.splits)
    obtain n where n: "o_credits x = Some n" and ord: "orders (till_db t2) = orders (till_db t)" "audits (till_db t2) = audits (till_db t)"
      and g: "granted (till_db t2) = granted (till_db t) @ [(Some (o_id x), Some (o_id x), o_user x, n)]"
      and fresh: "Some (o_id x) \<notin> fst ` set (granted (till_db t))" by (rule add_purchase [OF add])
    have db': "orders (till_db t') = orders (till_db t)" "granted (till_db t') = granted (till_db t2)"
      "stripe_events t' = stripe_events t" "refund_calls t' = refund_calls t" "pack_refunds t' = pack_refunds t"
      "audits (till_db t') = audits (till_db t)"
      by (simp_all add: t' with_db_def recordOrderEvent_def granted_def ord same)
    have find': "find_order k (till_db t') = find_order k (till_db t)" for k by (simp add: find_order_def db')
    have "owed (till_db t') (Some (o_id x), Some (o_id x), o_user x, n)"
      using rep x n find_order_mem [OF x]
      by (simp add: owed_def find' repairable_def FUNDED_OR_REVERSED_ORDER_STATUSES_def)
    moreover have "owed (till_db t') q = owed (till_db t) q" for q by (simp only: owed_def find')
    moreover have "settled_orders (till_db t') \<subseteq> settled_orders (till_db t) \<union> H"
      using rep x find_order_mem [OF x] by (auto simp: settled_orders_def fulfilled_orders_def find' db' g repairable_def)
    ultimately show ?thesis
      using fresh by (auto simp: evolves_def orders_evolve_def find' orders_ok_def db' find_event_def grants_ok_def g list_all_iff
          audits_same refunds_same)
  qed
qed

section \<open>Refunds\<close>

lemma ev_clearRefundHold: "kept (evolves H) t (exec_db (clearRefundHold now oid) t)"
  by (rule ev_exec_db, rule calm_clearRefundHold)

lemma ev_holdRefund: "keeps (evolves H) t (run_db (holdRefundNotCompletedWithClient now oid i st r) t)"
  by (rule ev_run_db, rule calm_holdRefund)

lemma ev_compensatePackRefund: "keeps (evolves H) t (compensatePackRefund w r p t)"
proof -
  have w: "keeps (evolves H) t (withhold_compensation w r p t)" for t
    by (auto simp: withhold_compensation_def calm.here intro!: ev.keeps_bind1 [OF ev_update_refund] ev_with_db calm_more)
  have c: "keeps (evolves H) t (bindE (run_db (restore_lots (pw_now w) r (cut_reason p) rows) t) (\<lambda>((n, lot), t1).
      bindE (exec_db (settle_restore (pw_now w) r n) t1) (\<lambda>t2.
      bindE (update_refund (pw_now w) (prf_id r) (compensate_refund (pw_now w) p lot) t2) (\<lambda>t3.
      Inr (Pr_compensated, with_db (\<lambda>s. recordOrderEvent (prf_order r) ''pack_refund.compensated'' None None
          [(''packRefundId'', JStr (prf_id r)), (''lastErrorCode'', JStr (cp2_error_code p)), (''creditsRestored'', JInt n)]
        (raise_alert None (Some (prf_order r)) ''pack_refund_failed'' Sev_critical
          [(''packRefundId'', JStr (prf_id r)), (''lastErrorCode'', JStr (cp2_error_code p)),
           (''failureReason'', JStr (cut_reason p)), (''creditsRestored'', JInt n)] s)) t3)))))" for t rows
    by (auto simp: calm.here intro!: ev.keeps_bind [OF ev_run_db] calm_restore_lots ev.keeps_bind1 [OF ev_exec_db] calm_settle_restore
        ev.keeps_bind1 [OF ev_update_refund] ev_with_db calm_more)
  have "evolves H t (with_db (resolveUnconfirmedPackRefundAlert (prf_id r)) t)"
    by (simp add: resolveUnconfirmedPackRefundAlert_def)
  then show ?thesis unfolding compensatePackRefund_def Let_def by (rule ev.keeps_after) (simp add: w c)
qed

lemma ev_late_success [simp]: "evolves H t (late_success r out src t)"
  by (auto simp: late_success_def Let_def raisePackRefundAlertOnce_def calm.here intro!: ev.on [OF ev_refund_event ev_with_db])

lemma ev_settlePackRefund: "keeps (evolves H) t (settlePackRefund w r out src t)"
proof -
  define t1 where "t1 = (if prf_status r = Pr_letters_revoked then with_db (resolveUnconfirmedPackRefundAlert (prf_id r)) t else t)"
  have 1: "evolves H t t1" by (simp add: t1_def resolveUnconfirmedPackRefundAlert_def ev.here)
  have paid: "kept (evolves H) t (exec_db (update_order now oid (paid_out n)) t)" for t now oid n by (rule ev_exec_update) simp_all
  show ?thesis unfolding settlePackRefund_def Let_def t1_def [symmetric]
    by (auto intro!: ev.keeps_after [OF 1 ev_compensatePackRefund] ev.on [OF 1 ev_late_success] 1
        ev.keeps_bind1 [OF ev.kept_after [OF 1 ev_update_refund]] ev.keeps_bind1 [OF paid])
qed

lemma ev_recordUnmatchedPartial [simp]: "evolves H t (with_db (recordUnmatchedPartialRefund w x n) t)"
proof (rule ev_with_db)
  have "calm s (s\<lparr>alerts := as\<rparr>)" for s as by (rule calm_quiet) simp_all
  then show "calm (till_db t) (recordUnmatchedPartialRefund w x n (till_db t))"
    by (auto simp: recordUnmatchedPartialRefund_def Let_def calm.here intro!: calm_more)
qed

lemma ev_command_event: "kept (evolves H) t (command_event w eid ty m rid x t)"
  by (auto simp: command_event_def Let_def ev.here split: option.split money_object.split intro!: ev.kept_bind [OF ev_settlePackRefund])

text \<open>A refund of Stripe has an id, which becomes the order's.\<close>

definition refund_named :: "money_object \<Rightarrow> bool" where
  "refund_named m \<longleftrightarrow> refund_id_of m \<noteq> Some []"

lemma ev_full_refund:
  assumes "refund_named m" shows "keeps (evolves H) t (full_refund w eid ty m x t)"
proof -
  have stop: "kept (evolves H) t (exec_db (\<lambda>s. take_refunded_pack now x src (snd (stopFundedMailBeforeFinancialReversal now x src reason s))) t)"
    "kept (evolves H) t (exec_db (\<lambda>s. Inr (snd (stopFundedMailBeforeFinancialReversal now x src reason s))) t)" for now src reason t
    by (rule ev_exec_db, auto intro: calm.kept_after [OF calm_stopFunded calm_take_refunded_pack])+
  have row: "kept (evolves H) t (exec_db (update_order now (o_id x) (full_refund_row now next (refund_id_of m))) t)"
    if "next \<in> {Ord_refunded, Ord_refund_pending}" for t now "next"
    by (rule ev_exec_update) (use assms that in \<open>simp_all add: refund_named_def\<close>)
  note rev = ev.kept_after [OF ev_revoke_entitlements row]
  show ?thesis
    by (auto simp: full_refund_def Let_def ev.here intro!: ev.keeps_bind1 [OF stop(1)] ev.keeps_bind1 [OF stop(2)]
        ev.keeps_bind1 [OF rev] ev.keeps_bind1 [OF row] ev.keeps_bind1 [OF ev.kept_after [OF ev_record_event ev_clearRefundHold]]
        ev.keeps_bind1 [OF ev.kept_bind [OF ev.keeps_after [OF ev_record_event ev_holdRefund]]])
qed

lemma ev_refund_without_command: "refund_named m \<Longrightarrow> keeps (evolves H) t (refund_without_command w eid ty m x t)"
  by (auto simp: refund_without_command_def Let_def ev_full_refund)

lemma ev_unmatched_money [simp]: "evolves H t (unmatched_money eid m t)"
  by (auto simp: unmatched_money_def intro!: ev_more)

lemma ev_processRefundEvent: "refund_named m \<Longrightarrow> keeps (sees H eid) t (processRefundEvent w eid ty m t)"
  unfolding processRefundEvent_def
proof (rule ev_after_claim, goal_cases)
  case (1 t0)
  let ?t1 = "note_references eid (mo_intent m) (mo_charge m) (mo_order m) t0"
  have bound: "evolves H t0 (bind_event eid oid ?t1)" for oid by (rule ev.on [OF ev_note_references ev_bind_event])
  show ?case unfolding Let_def
    by (auto simp: ev.here split: option.split intro!: ev.on [OF ev_note_references ev_unmatched_money]
        ev.keeps_bind1 [OF ev.kept_after [OF bound ev_command_event]]
        ev.keeps_bind [OF ev.keeps_after [OF bound ev_refund_without_command [OF 1(1)]]])
qed

definition event_named :: "webhook_event \<Rightarrow> bool" where
  "event_named ev \<longleftrightarrow> (case ev of We_refund ty q \<Rightarrow> rf_id q \<noteq> [] | _ \<Rightarrow> True)"

text \<open>The orders an event may settle: the one of a session it names.\<close>

definition settled_by :: "pay_world \<Rightarrow> string \<Rightarrow> webhook_event \<Rightarrow> till \<Rightarrow> string set" where
  "settled_by w eid ev t = (case ev of We_session ty cs \<Rightarrow> paid_by w eid cs t | _ \<Rightarrow> {})"

lemma ev_webhook: "event_named ev \<Longrightarrow> keeps (sees (settled_by w eid ev t) eid) t (processStripeWebhookEvent w eid ev t)"
  unfolding processStripeWebhookEvent_def
  by (auto simp: event_named_def refund_named_def settled_by_def sees_def split: webhook_event.split prod.split dest: ev_claimed
      intro!: ev_processCheckoutSessionEvent ev_processRefundEvent ev_processDisputeEvent)

lemma ev_finalizeRefund: "rid \<noteq> [] \<Longrightarrow> kept (evolves H) t (finalizeRefund w x rid st t)"
proof -
  assume rid: "rid \<noteq> []"
  have row: "kept (evolves H) t (exec_db (update_order now (o_id x) (finish_refund now rid next)) t)"
    if "next \<in> {Ord_refunded, Ord_refund_pending}" for t now "next"
    by (rule ev_exec_update) (use rid that in simp_all)
  have take: "kept (evolves H) t (exec_db (\<lambda>s. bindE (revokePackLots now x what s) (\<lambda>(r, s1). Inr s1)) t)" for now what t
    by (rule ev_exec_db) (auto intro!: calm.kept_bind [OF calm_revokePackLots] simp: calm.here)
  show ?thesis
    by (auto simp: finalizeRefund_def Let_def ev.here split: option.split
        intro!: ev.kept_bind1 row take ev_clearRefundHold ev.on [OF ev_revoke_entitlements ev_record_event])
qed

lemma ev_note_refund_failure: "kept (evolves H) t (exec_db (note_refund_failure now oid c) t)"
  by (rule ev_exec_db, rule calm_note_refund_failure)

lemma ev_claimRefund: "keeps (evolves H) t (run_db (claimRefund env now oid) t)"
  by (rule ev_run_db, rule calm_claimRefund)

lemma ev_permitCreate: "keeps (evolves H) t (run_db (permitCreate env now x n) t)"
  by (rule ev_run_db, rule calm_permitCreate)

section \<open>The operator's refund\<close>

lemma ev_finalizeWithStripe: "keeps (evolves H) t (finalizeWithStripe w r q src t)"
  by (auto simp: finalizeWithStripe_def ev.here ev_settlePackRefund split: option.split)

lemma ev_handleStripeFailure: "keeps (evolves H) t (handleStripeFailure w r f t)"
  by (auto simp: handleStripeFailure_def ev.here ev_compensatePackRefund split: option.split intro!: ev.keeps_bind1 [OF ev_update_refund])

lemma ev_submitPackRefund: "keeps (evolves H) t (submitPackRefund w calls r t)"
  by (auto simp: submitPackRefund_def ev_handleStripeFailure ev_finalizeWithStripe split: sum.split)

lemma ev_refund_phase_one: "keeps (evolves H) t (refund_phase_one hash digest now prid i t)"
proof -
  have take: "keeps (evolves H) t (run_db (revokePackLots now x what) t)" for x what t
    by (rule ev_run_db, rule calm_revokePackLots)
  have count: "kept (evolves H) t (exec_db (update_order now oid (count_refunded n)) t)" for oid n t
    by (rule ev_exec_update) simp_all
  have letters: "kept (evolves H) t (revoke_letters hash now i r x t)" for r x t
    by (auto simp: revoke_letters_def calm.here intro!: ev.kept_bind1 [OF ev_insert_refund] ev.kept_bind [OF take] ev.kept_bind1 [OF count]
        ev_with_db calm_more calm.on [OF _ calm_record_audit])
  show ?thesis
    by (rule keepsI) (auto simp: refund_phase_one_def bindE_Inr_iff ev.here split: option.splits dest: keptD [OF letters])
qed

lemma ev_wait_for_stripe [simp]: "evolves H t (wait_for_stripe w b r f t)"
  by (auto simp: wait_for_stripe_def raisePackRefundAlertOnce_def ev.here calm.here split: option.split sum.split
      dest: keptD [OF ev_update_refund [OF same_refund_refl]] intro!: ev.on [OF _ ev_with_db])

lemma ev_note_passed_over [simp]: "evolves H t (note_passed_over r qs t)"
  by (simp add: note_passed_over_def ev.here)

lemma ev_compensate_missing: "keeps (evolves H) t (compensate_missing w r t)"
  by (auto simp: compensate_missing_def ev.here split: option.split intro!: ev.keeps_bind [OF ev_compensatePackRefund])

end
