(* ===== verification/TillSystem.thy ===== *)
theory TillSystem
  imports TillLaws "HOL-Library.Multiset"
begin

text \<open>
  The till as a system (src/services/commerceService.ts, src/services/packRefundService.ts): webhook deliveries,
  checkouts, recoveries, refund requests of several processes cut between Stripe's answers, operator commands and
  sweeps, one transaction at a time in any order. A request for a refund is \<open>Asked\<close> from its claim to Stripe's
  answers, \<open>Created\<close> once Stripe was sent the request to create one; a process may die at any point. The
  environment, which sets the retry limit, is fixed; clocks and Stripe's answers are arbitrary in every step, with
  one thing Stripe documents: a refund has an id.
\<close>

section \<open>Steps\<close>

datatype refund_phase = Asked order int | Created order

fun phase_order :: "refund_phase \<Rightarrow> order" where
  "phase_order (Asked x n) = x"
| "phase_order (Created x) = x"

type_synonym till_run = "till \<times> refund_phase list"

inductive till_step :: "environment \<Rightarrow> till_run \<Rightarrow> till_run \<Rightarrow> bool" for env where
  delivered: "event_named ev \<Longrightarrow> processStripeWebhookEvent w eid ev t = Inr (r, t') \<Longrightarrow> till_step env (t, cl) (t', cl)"
| reconciled: "processCheckoutSessionEvent w eid ty cs t = Inr (r, t') \<Longrightarrow> till_step env (t, cl) (t', cl)"
| pack_opened: "run_db (open_pack_order now oid uid p) t = Inr (x, t') \<Longrightarrow> till_step env (t, cl) (t', cl)"
| jit_prepared: "run_db (prepareJitOrder jw oid kp cents) t = Inr (q, t') \<Longrightarrow> till_step env (t, cl) (t', cl)"
| attached: "run_db (attachCheckout now oid sid url e) t = Inr (x, t') \<Longrightarrow> till_step env (t, cl) (t', cl)"
| not_opened: "run_db (failCheckoutCreation now oid a fallback) t = Inr (x, t') \<Longrightarrow> till_step env (t, cl) (t', cl)"
| orphans: "till_step env (t, cl) (with_db (\<lambda>s. snd (cancel_orphans now s)) t, cl)"
| recovered: "fulfillPaidOrder w oid t = Inr (b, t') \<Longrightarrow> till_step env (t, cl) (t', cl)"
| repaired: "repairFulfilledPackGrant w p t = Inr (b, t') \<Longrightarrow> till_step env (t, cl) (t', cl)"
| claimed: "run_db (claimRefund env now oid) t = Inr (Some (x, n), t') \<Longrightarrow> till_step env (t, cl) (t', Asked x n # cl)"
| adopted: "c \<in> set cl \<Longrightarrow> rid \<noteq> [] \<Longrightarrow> finalizeRefund w (phase_order c) rid st t = Inr t' \<Longrightarrow> till_step env (t, cl) (t', cl)"
| ended: "run_db (holdRefundNotCompletedWithClient now oid rid st known) t = Inr (b, t') \<Longrightarrow> till_step env (t, cl) (t', cl)"
| permitted: "Asked x n \<in> set cl \<Longrightarrow> run_db (permitCreate env now x n) t = Inr (Some k, t') \<Longrightarrow>
    till_step env (t, cl) (t'\<lparr>refund_calls := refund_calls t' @ [(o_id x, k)]\<rparr>, Created x # remove1 (Asked x n) cl)"
| failed: "exec_db (note_refund_failure now oid c) t = Inr t' \<Longrightarrow> till_step env (t, cl) (t', cl)"
| over: "till_step env (t, cl) (t, remove1 c cl)"
| commanded: "refund_phase_one hash digest now prid i t = Inr (r, t') \<Longrightarrow> till_step env (t, cl) (t', cl)"
| answered: "finalizeWithStripe w r q src t = Inr (st, t') \<Longrightarrow> till_step env (t, cl) (t', cl)"
| refused: "handleStripeFailure w r f t = Inr (st, t') \<Longrightarrow> till_step env (t, cl) (t', cl)"
| missing: "compensate_missing w r t = Inr (b, t') \<Longrightarrow> till_step env (t, cl) (t', cl)"
| waited: "till_step env (t, cl) (wait_for_stripe w b r f t, cl)"
| passed: "till_step env (t, cl) (note_passed_over r qs t, cl)"

abbreviation till_steps :: "environment \<Rightarrow> till_run \<Rightarrow> till_run \<Rightarrow> bool" where
  "till_steps env \<equiv> (till_step env)\<^sup>*\<^sup>*"

text \<open>A till before its first order.\<close>

definition till_opened :: "till \<Rightarrow> bool" where
  "till_opened t \<longleftrightarrow> orders (till_db t) = [] \<and> granted (till_db t) = [] \<and> refund_calls t = []"

definition till_reachable :: "environment \<Rightarrow> till_run \<Rightarrow> bool" where
  "till_reachable env r \<longleftrightarrow> (\<exists>t. till_opened t \<and> till_steps env (t, []) r)"

section \<open>Every step evolves\<close>

lemmas till_evolving = keepsD [OF ev_fulfillPaidOrder] keepsD [OF ev_repair] keptD [OF ev_finalizeRefund]
  keepsD [OF ev_holdRefund] keptD [OF ev_note_refund_failure] keepsD [OF ev_refund_phase_one] keepsD [OF ev_finalizeWithStripe]
  keepsD [OF ev_handleStripeFailure] keepsD [OF ev_compensate_missing] keepsD [OF ev_claimRefund]

lemma store_step:
  assumes "\<And>s. keeps calm s (f s)" and "run_db f t = Inr (x, t')" shows "evolves {} t t'"
proof -
  have "keeps (evolves {}) t (run_db f t)" by (rule ev_run_db) (rule assms(1))
  then show ?thesis using assms(2) by (rule keepsD)
qed

text \<open>What a step settled was paid: a session event of it, whose session Stripe calls paid as ordered.\<close>

definition session_processed :: "till \<Rightarrow> string \<Rightarrow> till \<Rightarrow> bool" where
  "session_processed t oid t' \<longleftrightarrow> (\<exists>w eid ty cs r. processCheckoutSessionEvent w eid ty cs t = Inr (r, t') \<and> oid \<in> paid_by w eid cs t)"

abbreviation paid_step :: "till \<Rightarrow> till \<Rightarrow> string set" where
  "paid_step t t' \<equiv> {oid. session_processed t oid t'}"

lemma evolves_mono: "evolves H t t' \<Longrightarrow> H \<subseteq> H' \<Longrightarrow> evolves H' t t'"
  by (auto simp: evolves_def)

lemma evolves_session:
  assumes "processCheckoutSessionEvent w eid ty cs t = Inr (r, t')" shows "evolves (paid_step t t') t t'"
proof (rule evolves_mono)
  show "evolves (paid_by w eid cs t) t t'" by (rule keepsD [OF sees_evolves [OF ev_processCheckoutSessionEvent] assms])
  show "paid_by w eid cs t \<subseteq> paid_step t t'" unfolding session_processed_def using assms by blast
qed

lemma evolves_event:
  assumes "event_named ev" and "processStripeWebhookEvent w eid ev t = Inr (r, t')" shows "evolves (paid_step t t') t t'"
proof (cases ev)
  case (We_session ty cs)
  then show ?thesis using assms(2) by (auto simp: processStripeWebhookEvent_def intro: evolves_session)
qed (use keepsD [OF sees_evolves [OF ev_webhook [OF assms(1)]] assms(2)] in
    \<open>auto simp: settled_by_def intro: evolves_mono\<close>)

text \<open>Only a claim and a request sent to Stripe concern the attempts.\<close>

lemma till_step_cases:
  assumes "till_step env (t, cl) (t', cl')"
  obtains (quiet) "evolves (paid_step t t') t t'" "cl' = cl \<or> (\<exists>c. cl' = remove1 c cl)"
  | (claim) now oid x n where "run_db (claimRefund env now oid) t = Inr (Some (x, n), t')" "cl' = Asked x n # cl"
  | (permit) x n now k t1 where "Asked x n \<in> set cl" "run_db (permitCreate env now x n) t = Inr (Some k, t1)"
      "t' = t1\<lparr>refund_calls := refund_calls t1 @ [(o_id x, k)]\<rparr>" "cl' = Created x # remove1 (Asked x n) cl"
  using assms
proof cases
  case (claimed now oid x n)
  then show ?thesis using claim by simp
next
  case (permitted x n now k t1)
  then show ?thesis using permit by simp
next
  case (orphans now)
  then show ?thesis using quiet by (simp add: ev_with_db calm_cancel_orphans)
next
  case (over c)
  then show ?thesis using quiet ev.here by auto
qed (auto intro!: quiet dest: till_evolving evolves_event evolves_session
      evolves_mono [OF store_step [OF calm_open_pack_order] empty_subsetI] evolves_mono [OF store_step [OF calm_prepareJitOrder] empty_subsetI]
      evolves_mono [OF store_step [OF calm_attachCheckout] empty_subsetI] evolves_mono [OF store_step [OF calm_failCheckoutCreation] empty_subsetI])

text \<open>What outlives every step.\<close>

definition outlives :: "till \<Rightarrow> till \<Rightarrow> bool" where
  "outlives t t' \<longleftrightarrow> orders_evolve (till_db t) (till_db t') \<and> audits_kept (till_db t) (till_db t') \<and> refunds_kept t t' \<and>
     (\<forall>eid. find_event eid t \<noteq> None \<longrightarrow> find_event eid t' \<noteq> None)"

lemma outlives_refl: "outlives t t"
  by (simp add: outlives_def orders_evolve_refl audits_same refunds_same)

lemma outlives_trans: "outlives t t' \<Longrightarrow> outlives t' t'' \<Longrightarrow> outlives t t''"
  unfolding outlives_def by (auto simp: audits_kept_def intro: orders_evolve_trans refunds_kept_trans)

lemma step_outlives:
  assumes "till_step env (t, cl) (t', cl')" and "orders_ok (till_db t)" shows "outlives t t'"
  using assms(1)
proof (cases rule: till_step_cases)
  case quiet
  then show ?thesis using assms(2) by (simp add: outlives_def evolves_def)
next
  case (claim now oid x n)
  have "evolves {} t t'" by (rule keepsD [OF ev_claimRefund claim(1)])
  then show ?thesis using assms(2) by (simp add: outlives_def evolves_def)
next
  case (permit x n now k t1)
  have "evolves {} t t1" by (rule keepsD [OF ev_permitCreate permit(2)])
  then show ?thesis using assms(2) by (simp add: outlives_def evolves_def find_event_def refunds_kept_def lockPackRefund_def permit(3))
qed

section \<open>Attempts\<close>

text \<open>A claim of an order without a refund owns the attempt it counted, until Stripe is asked under it.\<close>

fun attempt_owned :: "environment \<Rightarrow> refund_phase \<Rightarrow> (string \<times> int) list" where
  "attempt_owned env (Asked x n) =
     (if o_stripe_refund_id x = None \<and> n < refundRetryLimit env then [(o_id x, o_refund_attempts x)] else [])"
| "attempt_owned env (Created x) = []"

definition attempts_owned :: "environment \<Rightarrow> refund_phase list \<Rightarrow> (string \<times> int) list" where
  "attempts_owned env cl = concat (map (attempt_owned env) cl)"

definition attempt_counted :: "environment \<Rightarrow> db \<Rightarrow> string \<times> int \<Rightarrow> bool" where
  "attempt_counted env s a \<longleftrightarrow> 1 \<le> snd a \<and> snd a \<le> refundRetryLimit env \<and>
     (\<exists>y. find_order (fst a) s = Some y \<and> snd a \<le> o_refund_attempts y)"

definition calls_ok :: "environment \<Rightarrow> till_run \<Rightarrow> bool" where
  "calls_ok env r \<longleftrightarrow> (case r of (t, cl) \<Rightarrow>
     distinct (refund_calls t @ attempts_owned env cl) \<and>
     (\<forall>a\<in>set (refund_calls t @ attempts_owned env cl). attempt_counted env (till_db t) a) \<and>
     (\<forall>x n. Asked x n \<in> set cl \<longrightarrow> o_stripe_refund_id x \<noteq> Some []))"

definition till_inv :: "environment \<Rightarrow> till_run \<Rightarrow> bool" where
  "till_inv env r \<longleftrightarrow> orders_ok (till_db (fst r)) \<and> grants_ok (till_db (fst r)) \<and>
     (\<forall>k x. find_order k (till_db (fst r)) = Some x \<longrightarrow> row_sound x) \<and> calls_ok env r"

lemma owned_remove: "c \<in> set cl \<Longrightarrow>
    mset (attempts_owned env cl) = mset (attempt_owned env c) + mset (attempts_owned env (remove1 c cl))"
  by (induction cl) (auto simp: attempts_owned_def)

lemma owned_sub: "set (attempts_owned env (remove1 c cl)) \<subseteq> set (attempts_owned env cl)"
  using set_remove1_subset [of c cl] by (auto simp: attempts_owned_def)

lemma owned_distinct: "distinct (as @ attempts_owned env cl) \<Longrightarrow> distinct (as @ attempts_owned env (remove1 c cl))"
proof (cases "c \<in> set cl")
  case True
  assume d: "distinct (as @ attempts_owned env cl)"
  have "mset (as @ attempts_owned env cl) = mset (attempt_owned env c @ as @ attempts_owned env (remove1 c cl))"
    using owned_remove [OF True] by simp
  then have "distinct (attempt_owned env c @ as @ attempts_owned env (remove1 c cl))"
    using d by (metis mset_eq_imp_distinct_iff)
  then show ?thesis by simp
qed (simp add: remove1_idem)

lemma counted_evolves: "attempt_counted env s a \<Longrightarrow> orders_evolve s s' \<Longrightarrow> attempt_counted env s' a"
  unfolding attempt_counted_def orders_evolve_def order_on_def by (metis (no_types, lifting) order_trans)

lemma sound_evolves:
  assumes "orders_evolve s s'" and "\<forall>k x. find_order k s = Some x \<longrightarrow> row_sound x"
  shows "\<forall>k x. find_order k s' = Some x \<longrightarrow> row_sound x"
proof (intro allI impI)
  fix k y
  assume y: "find_order k s' = Some y"
  show "row_sound y"
  proof (cases "find_order k s")
    case None
    then show ?thesis using assms(1) y by (simp add: orders_evolve_def)
  next
    case (Some x)
    then obtain z where "find_order k s' = Some z" "order_on x z" using assms(1) unfolding orders_evolve_def by blast
    then show ?thesis using assms(2) Some y by (simp add: order_on_def)
  qed
qed

text \<open>Where no request was sent and no claim made, what was owned stays so.\<close>

lemma inv_quiet:
  assumes inv: "till_inv env (t, cl)" and e: "evolves H t t'" and c: "cl' = cl \<or> (\<exists>c. cl' = remove1 c cl)"
  shows "till_inv env (t', cl')"
proof -
  have ok: "orders_ok (till_db t)" "grants_ok (till_db t)" "\<forall>k x. find_order k (till_db t) = Some x \<longrightarrow> row_sound x"
    and co: "calls_ok env (t, cl)" using inv by (simp_all add: till_inv_def)
  have e': "orders_ok (till_db t')" "grants_ok (till_db t')" "orders_evolve (till_db t) (till_db t')" "refund_calls t' = refund_calls t"
    using e ok by (simp_all add: evolves_def)
  have sub: "set (attempts_owned env cl') \<subseteq> set (attempts_owned env cl)" "set cl' \<subseteq> set cl"
    using c owned_sub [of env _ cl] set_remove1_subset by force+
  have "distinct (refund_calls t @ attempts_owned env cl')" using co c owned_distinct unfolding calls_ok_def prod.case by metis
  then have "calls_ok env (t', cl')"
    using co sub counted_evolves [OF _ e'(3)] unfolding calls_ok_def prod.case e'(4) set_append by blast
  then show ?thesis using e' sound_evolves [OF e'(3) ok(3)] by (simp add: till_inv_def)
qed

lemma fresh_attempt:
  assumes "calls_ok env (t, cl)" and "find_order oid (till_db t) = Some y" and "o_refund_attempts y < k"
  shows "(oid, k) \<notin> set (refund_calls t @ attempts_owned env cl)"
proof
  assume "(oid, k) \<in> set (refund_calls t @ attempts_owned env cl)"
  then have "attempt_counted env (till_db t) (oid, k)" using assms(1) unfolding calls_ok_def prod.case by blast
  then show False using assms(2,3) by (auto simp: attempt_counted_def)
qed

lemma claimRefund_Inr:
  assumes "claimRefund env now oid s = Inr (Some (x, n), s')"
  obtains y where "find_order oid s = Some y" "n = o_refund_attempts y" "x = touched now (claim_refund_row now (refundRetryLimit env)) y"
    "find_order oid s' = Some x" "refund_claimable env now y"
proof -
  from assms obtain y where y: "find_order oid s = Some y" "n = o_refund_attempts y"
      "x = touched now (claim_refund_row now (refundRetryLimit env)) y"
    and u: "update_order now oid (claim_refund_row now (refundRetryLimit env)) s = Inr s'" and c: "refund_claimable env now y"
    by (auto simp: claimRefund_def Let_def bindE_Inr_iff split: option.splits if_splits)
  have "find_order oid s' = Some x" unfolding y(3) by (rule update_order_found [OF u y(1)]) simp
  then show ?thesis using that y c by blast
qed

lemma inv_claimed:
  assumes inv: "till_inv env (t, cl)" and run: "run_db (claimRefund env now oid) t = Inr (Some (x, n), t')"
  shows "till_inv env (t', Asked x n # cl)"
proof -
  have e: "evolves {} t t'" by (rule keepsD [OF ev_claimRefund run])
  have q: "till_inv env (t', cl)" by (rule inv_quiet [OF inv e]) simp
  then have co: "calls_ok env (t', cl)" by (simp add: till_inv_def)
  from run have "claimRefund env now oid (till_db t) = Inr (Some (x, n), till_db t')"
    and same: "refund_calls t' = refund_calls t" by (auto simp: run_db_def split: sum.splits)
  from this(1) obtain y where y: "find_order oid (till_db t) = Some y" "n = o_refund_attempts y"
    "x = touched now (claim_refund_row now (refundRetryLimit env)) y" "find_order oid (till_db t') = Some x"
    by (rule claimRefund_Inr)
  have sound: "row_sound y" using inv y(1) by (simp add: till_inv_def)
  have ids: "o_id x = oid" using find_order_mem [OF y(4)] by simp
  have refund: "o_stripe_refund_id x = o_stripe_refund_id y" by (simp add: y(3) touched_def claim_refund_row_def)
  have "calls_ok env (t', Asked x n # cl)"
  proof (cases "o_stripe_refund_id x = None \<and> n < refundRetryLimit env")
    case True
    then have k: "o_refund_attempts x = n + 1" using refund y(2) by (simp add: y(3) touched_def claim_refund_row_def)
    have "(oid, n + 1) \<notin> set (refund_calls t @ attempts_owned env cl)"
      by (rule fresh_attempt [OF _ y(1)]) (use inv in \<open>simp_all add: till_inv_def y(2)\<close>)
    moreover have "attempt_counted env (till_db t') (oid, n + 1)"
      using True y k sound by (simp add: attempt_counted_def row_sound_def)
    ultimately show ?thesis using co True sound refund
      by (auto simp: calls_ok_def attempts_owned_def k ids same row_sound_def)
  next
    case False
    then have "attempt_owned env (Asked x n) = []" by simp
    then show ?thesis using co sound refund by (auto simp: calls_ok_def attempts_owned_def row_sound_def)
  qed
  then show ?thesis using q by (simp add: till_inv_def)
qed

lemma permitCreate_Inr:
  assumes "permitCreate env now x n s = Inr (Some k, s')" and "o_stripe_refund_id x \<noteq> Some []"
  obtains (counted) "o_stripe_refund_id x = None" "n < refundRetryLimit env" "k = o_refund_attempts x" "s' = s"
  | (counts) y where "o_stripe_refund_id x \<noteq> None" "find_order (o_id x) s = Some y" "o_status y = Ord_refund_pending"
    "o_refund_attempts y = o_refund_attempts x" "o_refund_attempts y < refundRetryLimit env" "k = o_refund_attempts y + 1"
    "\<exists>z. find_order (o_id x) s' = Some z \<and> o_refund_attempts z = k"
proof (cases "o_stripe_refund_id x")
  case None
  then show ?thesis using assms(1) counted by (auto simp: permitCreate_def or_null_str_def split: if_splits)
next
  case (Some rid)
  with assms(2) have "or_null_str (o_stripe_refund_id x) \<noteq> None" by (simp add: or_null_str_def)
  with assms(1) obtain y where y: "find_order (o_id x) s = Some y" "o_status y = Ord_refund_pending"
    "o_refund_attempts y = o_refund_attempts x" "o_refund_attempts y < refundRetryLimit env" "k = o_refund_attempts y + 1"
    and u: "update_order now (o_id x) (\<lambda>z. z\<lparr>o_refund_attempts := o_refund_attempts z + 1\<rparr>) s = Inr s'"
    by (auto simp: permitCreate_def bindE_Inr_iff split: option.splits if_splits)
  have "find_order (o_id x) s' = Some (touched now (\<lambda>z. z\<lparr>o_refund_attempts := o_refund_attempts z + 1\<rparr>) y)"
    by (rule update_order_found [OF u y(1)]) simp
  then show ?thesis using y Some by (intro counts [of y]) (simp_all add: touched_def)
qed

lemma inv_permitted:
  assumes inv: "till_inv env (t, cl)" and asked: "Asked x n \<in> set cl" and run: "run_db (permitCreate env now x n) t = Inr (Some k, t')"
  shows "till_inv env (t'\<lparr>refund_calls := refund_calls t' @ [(o_id x, k)]\<rparr>, Created x # remove1 (Asked x n) cl)"
proof -
  have e: "evolves {} t t'" by (rule keepsD [OF ev_permitCreate run])
  let ?cl = "remove1 (Asked x n) cl"
  have q: "till_inv env (t', cl)" by (rule inv_quiet [OF inv e]) simp
  then have co: "calls_ok env (t', cl)" by (simp add: till_inv_def)
  from run have p: "permitCreate env now x n (till_db t) = Inr (Some k, till_db t')"
    and same: "refund_calls t' = refund_calls t" by (auto simp: run_db_def split: sum.splits)
  have known: "o_stripe_refund_id x \<noteq> Some []" using inv asked unfolding till_inv_def calls_ok_def by auto
  have "distinct ((refund_calls t' @ [(o_id x, k)]) @ attempts_owned env ?cl) \<and> attempt_counted env (till_db t') (o_id x, k)"
    using p known
  proof (cases rule: permitCreate_Inr)
    case counted
    then have own: "attempt_owned env (Asked x n) = [(o_id x, k)]" by simp
    have "mset (refund_calls t' @ attempts_owned env cl) = mset ((refund_calls t' @ [(o_id x, k)]) @ attempts_owned env ?cl)"
      using owned_remove [OF asked, of env] unfolding own by simp
    moreover have "(o_id x, k) \<in> set (attempts_owned env cl)" using asked own unfolding attempts_owned_def by force
    ultimately show ?thesis using co unfolding calls_ok_def prod.case by (metis Un_iff mset_eq_imp_distinct_iff set_append)
  next
    case (counts y)
    have "row_sound y" using inv counts(2) by (simp add: till_inv_def)
    then have "attempt_counted env (till_db t') (o_id x, k)" using counts by (auto simp: attempt_counted_def row_sound_def)
    moreover have "(o_id x, k) \<notin> set (refund_calls t @ attempts_owned env cl)"
      by (rule fresh_attempt) (use inv counts in \<open>auto simp: till_inv_def\<close>)
    moreover have "distinct (refund_calls t' @ attempts_owned env ?cl)"
      using co unfolding calls_ok_def prod.case by (blast intro: owned_distinct)
    ultimately show ?thesis using owned_sub [of env "Asked x n" cl] same by auto
  qed
  moreover have "attempts_owned env (Created x # ?cl) = attempts_owned env ?cl" by (simp add: attempts_owned_def)
  moreover have "o_stripe_refund_id z \<noteq> Some []" if "Asked z m \<in> set ?cl" for z m
  proof -
    have "Asked z m \<in> set cl" using that by (rule subsetD [OF set_remove1_subset])
    then show ?thesis using co unfolding calls_ok_def prod.case by blast
  qed
  ultimately have "calls_ok env (t'\<lparr>refund_calls := refund_calls t' @ [(o_id x, k)]\<rparr>, Created x # ?cl)"
    using co owned_sub [of env "Asked x n" cl] unfolding calls_ok_def by auto
  then show ?thesis using q by (simp add: till_inv_def)
qed

lemma till_inv_step:
  assumes "till_step env r r'" and "till_inv env r" shows "till_inv env r'"
proof -
  obtain t cl t' cl' where r: "r = (t, cl)" "r' = (t', cl')" by (metis surj_pair)
  note step = assms(1) [unfolded r] and inv = assms(2) [unfolded r]
  from step have "till_inv env (t', cl')"
  proof (cases rule: till_step_cases)
    case quiet
    then show ?thesis by (rule inv_quiet [OF inv])
  next
    case (claim now oid x n)
    then show ?thesis using inv_claimed [OF inv] by simp
  next
    case (permit x n now k t1)
    then show ?thesis using inv_permitted [OF inv] by simp
  qed
  then show ?thesis by (simp add: r)
qed

lemma till_inv_steps: "till_steps env r r' \<Longrightarrow> till_inv env r \<Longrightarrow> till_inv env r'"
  by (induction rule: rtranclp_induct) (auto intro: till_inv_step)

lemma till_inv_opened: "till_opened t \<Longrightarrow> till_inv env (t, [])"
  by (simp add: till_opened_def till_inv_def orders_ok_def grants_ok_def find_order_def calls_ok_def attempts_owned_def)

lemma till_inv_reachable: "till_reachable env r \<Longrightarrow> till_inv env r"
  by (auto simp: till_reachable_def intro: till_inv_steps till_inv_opened)

lemma steps_outlive: "till_steps env r r' \<Longrightarrow> till_inv env r \<Longrightarrow> outlives (fst r) (fst r')"
proof (induction rule: rtranclp_induct)
  case base
  then show ?case by (simp add: outlives_refl)
next
  case (step r1 r2)
  have "till_inv env r1" by (rule till_inv_steps [OF step.hyps(1) step.prems])
  then have "outlives (fst r1) (fst r2)"
    using step.hyps(2) step_outlives [of env "fst r1" "snd r1" "fst r2" "snd r2"] by (simp add: till_inv_def)
  then show ?case using step.IH step.prems by (blast intro: outlives_trans)
qed

section \<open>What was settled was paid\<close>

text \<open>An event of a session Stripe calls paid, about this order and at what it costs, was processed on the way.\<close>

definition pays_for :: "pay_world \<Rightarrow> checkout_session \<Rightarrow> till \<Rightarrow> order \<Rightarrow> bool" where
  "pays_for w cs t x \<longleftrightarrow> cs_payment_status cs = ''paid'' \<and> cs_amount_total cs = Some (o_amount_cents x) \<and>
     normalizedCurrency (cs_currency cs) [] = normalizedCurrency (Some (o_currency x)) [] \<and>
     (\<exists>y. order_of_checkout w cs (till_db t) y \<and> o_id y = o_id x)"

definition payment_processed :: "environment \<Rightarrow> till_run \<Rightarrow> order \<Rightarrow> bool" where
  "payment_processed env run x \<longleftrightarrow> (\<exists>t1 cl1 t2 cl2. till_reachable env (t1, cl1) \<and> till_step env (t1, cl1) (t2, cl2) \<and>
     till_steps env (t2, cl2) run \<and> (\<exists>w eid ty cs r. find_event eid t1 = None \<and>
       processCheckoutSessionEvent w eid ty cs t1 = Inr (r, t2) \<and> pays_for w cs t1 x))"

definition payments_processed :: "environment \<Rightarrow> till_run \<Rightarrow> bool" where
  "payments_processed env r \<longleftrightarrow>
     (\<forall>oid\<in>settled_orders (till_db (fst r)). \<exists>x. find_order oid (till_db (fst r)) = Some x \<and> payment_processed env r x)"

lemma reachable_step: "till_reachable env r \<Longrightarrow> till_step env r r' \<Longrightarrow> till_reachable env r'"
  by (auto simp: till_reachable_def intro: rtranclp.rtrancl_into_rtrancl)

lemma pays_for_later: "pays_for w cs t x \<Longrightarrow> order_on x x' \<Longrightarrow> pays_for w cs t x'"
  by (simp add: pays_for_def order_on_def)

lemma payment_later:
  assumes "payment_processed env r x" and "till_step env r r'" and "order_on x x'" shows "payment_processed env r' x'"
proof -
  from assms(1) obtain t1 cl1 t2 cl2 w eid ty cs q where "till_reachable env (t1, cl1)" "till_step env (t1, cl1) (t2, cl2)"
    "till_steps env (t2, cl2) r" "find_event eid t1 = None" "processCheckoutSessionEvent w eid ty cs t1 = Inr (q, t2)" "pays_for w cs t1 x"
    unfolding payment_processed_def by blast
  moreover from this(3) have "till_steps env (t2, cl2) r'" using assms(2) by (rule rtranclp.rtrancl_into_rtrancl)
  moreover have "pays_for w cs t1 x'" using calculation(6) assms(3) by (rule pays_for_later)
  ultimately show ?thesis unfolding payment_processed_def by blast
qed

lemma step_settled:
  assumes "till_step env (t, cl) (t', cl')" and "orders_ok (till_db t)"
  shows "settled_orders (till_db t') \<subseteq> settled_orders (till_db t) \<union> paid_step t t'"
  using assms(1)
proof (cases rule: till_step_cases)
  case quiet
  then show ?thesis using assms(2) by (simp add: evolves_def)
next
  case (claim now oid x n)
  have "evolves {} t t'" by (rule keepsD [OF ev_claimRefund claim(1)])
  then show ?thesis using assms(2) by (auto simp: evolves_def)
next
  case (permit x n now k t1)
  have "evolves {} t t1" by (rule keepsD [OF ev_permitCreate permit(2)])
  then show ?thesis using assms(2) by (auto simp: evolves_def permit(3))
qed

lemma paid_now:
  assumes reach: "till_reachable env (t, cl)" and step: "till_step env (t, cl) (t', cl')" and paid: "session_processed t oid t'"
  shows "\<exists>x. find_order oid (till_db t') = Some x \<and> payment_processed env (t', cl') x"
proof -
  have ok: "orders_ok (till_db t)" "orders_ok (till_db t')"
    using till_inv_reachable [OF reach] till_inv_reachable [OF reachable_step [OF reach step]] by (simp_all add: till_inv_def)
  from paid obtain w eid ty cs r y where run: "processCheckoutSessionEvent w eid ty cs t = Inr (r, t')"
    and y: "find_event eid t = None" "cs_payment_status cs = ''paid''" "o_id y = oid" "order_of_checkout w cs (till_db t) y"
      "paid_as_ordered y cs" by (auto simp: session_processed_def paid_by_def)
  obtain x where x: "find_order oid (till_db t') = Some x" "order_on y x" using processed_row [OF run y(1,4) ok(1)] y(3) by blast
  have "0 < o_amount_cents x" using ok(2) find_order_mem [OF x(1)] by (auto simp: orders_ok_iff order_checks_def)
  then have "cs_amount_total cs = Some (o_amount_cents x)"
    "normalizedCurrency (cs_currency cs) [] = normalizedCurrency (Some (o_currency x)) []"
    using y(5) x(2) by (auto simp: paid_as_ordered_def order_on_def split: option.splits)
  then have "pays_for w cs t x" using y x(2) by (auto simp: pays_for_def order_on_def)
  then have "payment_processed env (t', cl') x"
    using reach run step y(1) unfolding payment_processed_def by blast
  then show ?thesis using x(1) by blast
qed

lemma payments_step:
  assumes reach: "till_reachable env r" and step: "till_step env r r'" and "payments_processed env r"
  shows "payments_processed env r'"
proof -
  obtain t cl t' cl' where r: "r = (t, cl)" "r' = (t', cl')" by (metis surj_pair)
  have ok: "orders_ok (till_db t)" using till_inv_reachable [OF reach] by (simp add: till_inv_def r)
  have out: "orders_evolve (till_db t) (till_db t')"
    using step_outlives [OF step [unfolded r] ok] by (simp add: outlives_def)
  show ?thesis unfolding payments_processed_def
  proof
    fix oid
    assume "oid \<in> settled_orders (till_db (fst r'))"
    then consider "oid \<in> settled_orders (till_db t)" | "session_processed t oid t'"
      using step_settled [OF step [unfolded r] ok] by (auto simp: r)
    then show "\<exists>x. find_order oid (till_db (fst r')) = Some x \<and> payment_processed env r' x"
    proof cases
      case 1
      then obtain x where x: "find_order oid (till_db t) = Some x" "payment_processed env r x"
        using assms(3) by (auto simp: payments_processed_def r)
      then obtain x' where "find_order oid (till_db t') = Some x'" "order_on x x'"
        using out unfolding orders_evolve_def by blast
      then show ?thesis using payment_later [OF x(2) step] by (auto simp: r)
    next
      case 2
      then show ?thesis using paid_now [OF reach [unfolded r] step [unfolded r]] by (simp add: r)
    qed
  qed
qed

lemma payments_reachable: "till_reachable env r \<Longrightarrow> payments_processed env r"
proof -
  assume "till_reachable env r"
  then obtain t where t: "till_opened t" "till_steps env (t, []) r" by (auto simp: till_reachable_def)
  from t(2) show ?thesis
  proof (induction rule: rtranclp_induct)
    case base
    then show ?case using t(1)
      by (simp add: payments_processed_def settled_orders_def fulfilled_orders_def till_opened_def find_order_def)
  next
    case (step r1 r2)
    have "till_reachable env r1" using t(1) step.hyps(1) unfolding till_reachable_def by blast
    then show ?case using step.hyps(2) step.IH by (rule payments_step)
  qed
qed

end
