(* ===== verification/TillProps.thy ===== *)
theory TillProps
  imports TillSystem
begin

text \<open>
  Properties of the till: what every run of the commerce service does is one of the interleavings of TillSystem,
  and what holds in all of them.
\<close>

section \<open>The services' operations as runs\<close>

text \<open>Stripe's refunds have ids.\<close>

definition answers_named :: "stripe_calls \<Rightarrow> bool" where
  "answers_named calls \<longleftrightarrow> (\<forall>rid r. sc_retrieve calls rid = Inr r \<longrightarrow> rf_id r \<noteq> []) \<and>
     (\<forall>i rs r. sc_list calls i = Inr rs \<longrightarrow> r \<in> set rs \<longrightarrow> rf_id r \<noteq> []) \<and>
     (\<forall>i oid k r. sc_create calls i oid k = Inr r \<longrightarrow> rf_id r \<noteq> [])"

lemma find_in: "List.find P xs = Some r \<Longrightarrow> r \<in> set xs"
  by (induction xs) (auto split: if_splits)

lemma classified_mem: "classifyOrderRefunds rs oid known = (Some r, e) \<Longrightarrow> r \<in> set rs"
  by (auto simp: classifyOrderRefunds_def Let_def dest!: find_in)

lemma looked_up_named:
  assumes "look_up_refund calls x = Inr (Some r, e)" and "answers_named calls" shows "rf_id r \<noteq> []"
  using assms by (auto simp: look_up_refund_def answers_named_def Let_def dest: classified_mem
      split: option.splits sum.splits if_splits) (metis classified_mem prod.collapse)+

lemma till_step_run: "till_step env r r' \<Longrightarrow> till_steps env r r'"
  by blast

lemma pursue_runs:
  assumes "pursue_refund w calls x n t = (res, t')" and "answers_named calls" and "pw_env w = env"
  shows "\<exists>c. till_steps env (t, Asked x n # cl) (t', c # cl)"
proof -
  have stay: ?thesis if "t' = t" using that by blast
  have finish: "till_steps env (t1, c # cl) (t2, c # cl)"
    if "finalizeRefund w (phase_order c) (rf_id r) st t1 = Inr t2" "rf_id r \<noteq> []" for c r st t1 t2
    by (rule r_into_rtranclp, rule till_step.adopted [OF _ that(2,1)]) simp
  show ?thesis
  proof (cases "look_up_refund calls x")
    case (Inl e)
    with assms(1) stay show ?thesis by (simp add: pursue_refund_def)
  next
    case (Inr p)
    obtain found dead where p: "p = (found, dead)" by (cases p)
    show ?thesis
    proof (cases found)
      case (Some r)
      have id: "rf_id r \<noteq> []" using looked_up_named [of calls x r dead] Inr p Some assms(2) by simp
      show ?thesis using assms(1) Inr p Some stay finish [of "Asked x n" r "rf_status r" t, OF _ id]
        by (auto simp: pursue_refund_def split: sum.splits)
    next
      case None
      show ?thesis
      proof (cases dead)
        case (Some r)
        then show ?thesis using assms(1) Inr p None stay
          by (auto simp: pursue_refund_def split: sum.splits prod.splits intro: till_step.ended)
      next
        case none: None
        show ?thesis
        proof (cases "run_db (permitCreate env (pw_now w) x n) t")
          case (Inl e)
          then show ?thesis using assms Inr p None none stay by (simp add: pursue_refund_def)
        next
          case (Inr q)
          obtain k t1 where q: "q = (k, t1)" by (cases q)
          show ?thesis
          proof (cases k)
            case None
            have "t1 = t" using Inr [unfolded q None]
              by (auto simp: run_db_def permitCreate_def bindE_Inr_iff split: sum.splits option.splits if_splits)
            then show ?thesis using assms \<open>look_up_refund calls x = Inr p\<close> p \<open>found = None\<close> none Inr q None stay
              by (simp add: pursue_refund_def)
          next
            case (Some k')
            let ?t2 = "t1\<lparr>refund_calls := refund_calls t1 @ [(o_id x, k')]\<rparr>"
            have "till_step env (t, Asked x n # cl) (?t2, Created x # remove1 (Asked x n) (Asked x n # cl))"
              by (rule till_step.permitted [OF _ Inr [unfolded q Some]]) simp
            then have sent: "till_steps env (t, Asked x n # cl) (?t2, Created x # cl)" by simp
            show ?thesis
            proof (cases "sc_create calls (or_str (o_stripe_payment_intent_id x) []) (o_id x) k'")
              case (Inl e)
              then show ?thesis using assms \<open>look_up_refund calls x = Inr p\<close> p \<open>found = None\<close> none Inr q Some sent
                by (auto simp: pursue_refund_def)
            next
              case created: (Inr r)
              then have "rf_id r \<noteq> []" using assms(2) by (auto simp: answers_named_def)
              then have "till_steps env (t, Asked x n # cl) (t3, Created x # cl)" if "finalizeRefund w x (rf_id r) (rf_status r) ?t2 = Inr t3" for t3
                using finish [of "Created x" r "rf_status r" ?t2 t3] that sent by auto
              then show ?thesis using assms \<open>look_up_refund calls x = Inr p\<close> p \<open>found = None\<close> none Inr q Some sent created
                by (auto simp: pursue_refund_def Let_def split: sum.splits)
            qed
          qed
        qed
      qed
    qed
  qed
qed

lemma over_run: "till_steps env r (t, c # cl) \<Longrightarrow> till_steps env r (t, cl)"
  using till_step.over [of env t "c # cl" c] by (simp add: rtranclp.rtrancl_into_rtrancl)

lemma requestRefund_runs:
  assumes "requestRefund w calls oid t = Inr (b, t')" and "answers_named calls" and "pw_env w = env"
  shows "till_steps env (t, cl) (t', cl)"
proof -
  from assms(1) obtain q t1 where claim: "run_db (claimRefund env (pw_now w) oid) t = Inr (q, t1)"
    by (auto simp: requestRefund_def assms(3) split: sum.splits)
  show ?thesis
  proof (cases q)
    case None
    with claim have "t1 = t"
      by (auto simp: run_db_def claimRefund_def Let_def bindE_Inr_iff split: sum.splits option.splits if_splits)
    then show ?thesis using assms(1,3) claim None by (simp add: requestRefund_def)
  next
    case (Some xn)
    obtain x n where xn: "xn = (x, n)" by (cases xn)
    have a: "till_step env (t, cl) (t1, Asked x n # cl)" by (rule till_step.claimed [OF claim [unfolded Some xn]])
    obtain res t2 where p: "pursue_refund w calls x n t1 = (res, t2)" by (cases "pursue_refund w calls x n t1")
    obtain c where b: "till_steps env (t1, Asked x n # cl) (t2, c # cl)" using pursue_runs [OF p assms(2,3)] by blast
    have c: "till_steps env (t, cl) (t2, c # cl)" using a b by (rule converse_rtranclp_into_rtranclp)
    have "till_steps env (t, cl) (t', c # cl)"
    proof (cases res)
      case (Inr v)
      then show ?thesis using assms(1,3) claim Some xn p c by (simp add: requestRefund_def)
    next
      case (Inl e)
      then obtain cls where "exec_db (note_refund_failure (pw_now w) oid cls) t2 = Inr t'"
        using assms(1,3) claim Some xn p by (auto simp: requestRefund_def bindE_Inr_iff)
      then have "till_step env (t2, c # cl) (t', c # cl)" by (rule till_step.failed)
      then show ?thesis using c by simp
    qed
    then show ?thesis by (rule over_run)
  qed
qed

lemma run_fold:
  assumes "\<And>x n t n' t'. f x (n, t) = (n', t') \<Longrightarrow> till_steps env (t, cl) (t', cl)" and "fold f xs (n, t) = (n', t')"
  shows "till_steps env (t, cl) (t', cl)"
  using assms(2)
proof (induction xs arbitrary: n t)
  case (Cons x xs)
  obtain m u where u: "f x (n, t) = (m, u)" by (cases "f x (n, t)")
  have "till_steps env (t, cl) (u, cl)" by (rule assms(1) [OF u])
  also have "till_steps env (u, cl) (t', cl)" using Cons by (simp add: u)
  finally show ?case .
qed simp

lemma maintenance_runs:
  assumes "runCommerceMaintenance world retrieve calls env now t = (n, t')" and "answers_named calls" and "\<And>oid. pw_env (world oid) = env"
  shows "till_steps env (t, cl) (t', cl)"
proof -
  define z where "z = \<lparr> mc_expired = 0, mc_recovered = 0, mc_reconciled = 0, mc_refunds = 0, mc_stuck = 0 \<rparr>"
  obtain n1 t1 where 1: "fold (recover_one world) (paid_orders (till_db t)) (z, t) = (n1, t1)" by (metis surj_pair)
  obtain n2 t2 where 2: "fold (reconcile_session world retrieve) (open_sessions now (till_db t1)) (n1, t1) = (n2, t2)"
    by (metis surj_pair)
  let ?t3 = "with_db (\<lambda>s. snd (cancel_orphans now s)) t2"
  let ?m = "n2\<lparr>mc_expired := mc_expired n2 + fst (cancel_orphans now (till_db t2))\<rparr>"
  obtain n4 where 4: "fold (refund_one world calls) (due_refunds env now (till_db ?t3)) (?m, ?t3) = (n4, t')"
    using assms(1) 1 2 by (auto simp: runCommerceMaintenance_def Let_def z_def [symmetric] with_db_def split: prod.splits)
  have "till_steps env (t, cl) (t1, cl)"
    by (rule run_fold [OF _ 1]) (auto simp: recover_one_def split: sum.splits intro: till_step.recovered)
  also have "till_steps env (t1, cl) (t2, cl)"
    by (rule run_fold [OF _ 2]) (auto simp: reconcile_session_def split: sum.splits if_splits prod.splits intro: till_step.reconciled)
  also have "till_steps env (t2, cl) (?t3, cl)" by (rule r_into_rtranclp, rule till_step.orphans)
  also have "till_steps env (?t3, cl) (t', cl)"
    by (rule run_fold [OF _ 4])
      (auto simp: refund_one_def split: sum.splits if_splits intro: requestRefund_runs [OF _ assms(2,3)])
  finally show ?thesis .
qed

lemma submit_runs: "submitPackRefund w calls r t = Inr (st, t') \<Longrightarrow> till_steps env (t, cl) (t', cl)"
  by (auto simp: submitPackRefund_def split: sum.splits intro: till_step.refused till_step.answered)

lemma reconcilePackRefunds_runs:
  assumes "reconcilePackRefunds w calls t = (n, t')" shows "till_steps env (t, cl) (t', cl)"
proof -
  define z where "z = \<lparr> sw_retried = 0, sw_adopted = 0, sw_settled = 0, sw_compensated = 0 \<rparr>"
  obtain n1 t1 where 1: "fold (sweep_row w calls) (due_rows (pw_env w) (pw_now w) t) (z, t) = (n1, t1)" by (metis surj_pair)
  have 2: "fold (settle_row w calls) (pending_rows (pw_now w) t1) (n1, t1) = (n, t')"
    using assms 1 by (simp add: reconcilePackRefunds_def z_def [symmetric])
  have row: "till_steps env (u, cl) (u', cl)" if "sweep_row w calls r (m, u) = (m', u')" for r m u m' u'
  proof (cases "pc_list calls (prf_intent r)")
    case (Inl f)
    then show ?thesis using that by (auto simp: sweep_row_def Let_def intro: till_step.waited)
  next
    case (Inr refunds)
    let ?u = "note_passed_over r (passed_over r refunds) u"
    have "till_steps env (u, cl) (?u, cl)" by (rule r_into_rtranclp, rule till_step.passed)
    also have "till_steps env (?u, cl) (u', cl)"
      using that Inr by (auto simp: sweep_row_def Let_def split: option.splits sum.splits if_splits
          intro: till_step.answered till_step.missing submit_runs)
    finally show ?thesis .
  qed
  have "till_steps env (t, cl) (t1, cl)" by (rule run_fold [OF row 1])
  also have "till_steps env (t1, cl) (t', cl)"
    by (rule run_fold [OF _ 2]) (auto simp: settle_row_def split: option.splits sum.splits intro: till_step.answered)
  finally show ?thesis .
qed

lemma refundPackLetters_runs:
  assumes "refundPackLetters hash digest w calls prid i t = (res, t')" shows "till_steps env (t, cl) (t', cl)"
proof (cases "input_refusal (pw_env w) i")
  case None
  show ?thesis
  proof (cases "refund_phase_one hash digest (pw_now w) prid i t")
    case (Inr q)
    obtain ph t1 where q: "q = (ph, t1)" by (cases q)
    have "till_step env (t, cl) (t1, cl)" by (rule till_step.commanded [OF Inr [unfolded q]])
    moreover have "till_steps env (t1, cl) (t', cl)"
      using assms None Inr q by (auto simp: refundPackLetters_def split: phase_one.splits sum.splits intro: submit_runs)
    ultimately show ?thesis by (rule converse_rtranclp_into_rtranclp)
  qed (use assms None in \<open>simp add: refundPackLetters_def\<close>)
qed (use assms in \<open>simp add: refundPackLetters_def\<close>)

lemma run_store: "f (till_db t) = Inr (x, s) \<Longrightarrow> run_db f t = Inr (x, t\<lparr>till_db := s\<rparr>)"
  by (simp add: run_db_def)

lemma attach_runs: "attachCheckout now oid sid url e s = Inr (x, s') \<Longrightarrow>
    till_steps env (t\<lparr>till_db := s\<rparr>, cl) (t\<lparr>till_db := s'\<rparr>, cl)"
  using run_store [of "attachCheckout now oid sid url e" "t\<lparr>till_db := s\<rparr>"] till_step.attached by fastforce

lemma not_opened_runs: "failCheckoutCreation now oid a fallback s = Inr (x, s') \<Longrightarrow>
    till_steps env (t\<lparr>till_db := s\<rparr>, cl) (t\<lparr>till_db := s'\<rparr>, cl)"
  using run_store [of "failCheckoutCreation now oid a fallback" "t\<lparr>till_db := s\<rparr>"] till_step.not_opened by fastforce

lemma same_db: "till_db t = s \<Longrightarrow> t\<lparr>till_db := s\<rparr> = t"
  by (cases t) simp

lemma createPackCheckout_runs:
  assumes "createPackCheckout w oid uid code p answer (till_db t) = (res, s')"
  shows "till_steps env (t, cl) (t\<lparr>till_db := s'\<rparr>, cl)"
proof (cases "pack_checkout_refusal w uid code p (till_db t)")
  case None
  show ?thesis
  proof (cases p)
    case (Some q)
    show ?thesis
    proof (cases "open_pack_order (pw_now w) oid uid q (till_db t)")
      case (Inr r)
      obtain x s1 where r: "r = (x, s1)" by (cases r)
      have "till_step env (t, cl) (t\<lparr>till_db := s1\<rparr>, cl)" by (rule till_step.pack_opened [OF run_store [where f = "open_pack_order _ _ _ _", OF Inr [unfolded r]]])
      moreover have "till_steps env (t\<lparr>till_db := s1\<rparr>, cl) (t\<lparr>till_db := s'\<rparr>, cl)"
        using assms None Some Inr r
        by (auto simp: createPackCheckout_def split: sum.splits option.splits bool.splits prod.splits intro: attach_runs not_opened_runs)
      ultimately show ?thesis by (rule converse_rtranclp_into_rtranclp)
    qed (use assms None Some in \<open>auto simp: createPackCheckout_def same_db\<close>)
  qed (use assms None in \<open>auto simp: createPackCheckout_def same_db\<close>)
qed (use assms in \<open>auto simp: createPackCheckout_def same_db\<close>)

lemma createJitCheckout_runs:
  assumes "createJitCheckout w open_session oid p (till_db t) = (res, s')"
  shows "till_steps env (t, cl) (t\<lparr>till_db := s'\<rparr>, cl)"
proof (cases "first_refusal [jit_gate_refusal w p (till_db t), cap_refusal w p (till_db t)]")
  case None
  show ?thesis
  proof (cases "prepareJitOrder w oid p (checked_cents w p (till_db t)) (till_db t)")
    case (Inr r)
    obtain q s1 where r: "r = (q, s1)" by (cases r)
    have "till_step env (t, cl) (t\<lparr>till_db := s1\<rparr>, cl)" by (rule till_step.jit_prepared [OF run_store [where f = "prepareJitOrder _ _ _ _", OF Inr [unfolded r]]])
    moreover have "till_steps env (t\<lparr>till_db := s1\<rparr>, cl) (t\<lparr>till_db := s'\<rparr>, cl)"
      using assms None Inr r
      by (auto simp: createJitCheckout_def open_stripe_session_def failed_checkout_def Let_def
          split: sum.splits option.splits bool.splits prod.splits if_splits intro: attach_runs not_opened_runs)
    ultimately show ?thesis by (rule converse_rtranclp_into_rtranclp)
  qed (use assms None in \<open>auto simp: createJitCheckout_def same_db\<close>)
qed (use assms in \<open>auto simp: createJitCheckout_def same_db\<close>)

section \<open>A paid pack\<close>

lemma gifts_books: "grant_gifts now p e is s = Inr (gs, s') \<Longrightarrow> orders s' = orders s \<and> ledger s' = ledger s \<and> users s' = users s"
proof (induction "is" arbitrary: s gs)
  case (Cons i "is")
  then obtain r s1 gs1 where "insert_gift (new_gift now p e i (fresh_gift_id s)) s = Inr (r, s1)"
    "grant_gifts now p e is s1 = Inr (gs1, s')" by (auto simp: bindE_Inr_iff)
  then show ?case using Cons.IH [of s1 gs1] by (auto simp: insert_gift_def split: if_splits)
qed simp

lemma pack_gifts_books: "grant_pack_gifts w x s = Inr s' \<Longrightarrow> orders s' = orders s \<and> ledger s' = ledger s \<and> users s' = users s"
  by (auto simp: grant_pack_gifts_def grantGiftLettersWithClient_def Let_def bindE_Inr_iff
      dest!: gifts_books split: option.splits if_splits)

lemma entitlement_db: "grantPurchaseImageEntitlement env uid src oid q t = Inr t' \<Longrightarrow> till_db t' = till_db t"
  by (auto simp: grantPurchaseImageEntitlement_def grantImageEntitlementWithClient_def Let_def split: sum.splits if_splits)

lemma update_order_books: "update_order now oid f s = Inr s' \<Longrightarrow> users s' = users s \<and> ledger s' = ledger s"
  by (erule update_order_Inr) simp_all

lemma exec_books: "exec_db (update_order now oid f) t = Inr t' \<Longrightarrow>
    users (till_db t') = users (till_db t) \<and> ledger (till_db t') = ledger (till_db t)"
  by (auto simp: exec_db_def dest: update_order_books split: sum.splits)

lemma recorded_books [simp]:
  "users (till_db (with_db (recordOrderEvent oid ty a b m) t)) = users (till_db t)"
  "ledger (till_db (with_db (recordOrderEvent oid ty a b m) t)) = ledger (till_db t)"
  "find_order k (till_db (with_db (recordOrderEvent oid ty a b m) t)) = find_order k (till_db t)"
  by (simp_all add: with_db_def recordOrderEvent_def find_order_def)

text \<open>What the fulfilment of a pack writes.\<close>

lemma fulfil_pack_Inr:
  assumes run: "fulfil_pack w x cs t = Inr (st, t')" and y: "find_order (o_id x) (till_db t) = Some y"
  obtains u tx lot s1 where "st = Ord_fulfilled"
    "addCreditsToLedgerWithClient (pw_now w) (pw_js w)
       (pack_grant x (or_opt (cs_customer_email cs) (cs_details_email cs)) (cs_id cs) (paymentIntentId cs)) (till_db t) = Inr ((u, tx, lot), s1)"
    "ledger (till_db t') = ledger s1" "users (till_db t') = users s1"
    "find_order (o_id x) (till_db t') = Some (touched (pw_now w) (fulfil_pack_order (pw_now w)) y)"
proof -
  from run obtain r t1 t2 t3 t4 where
    1: "run_db (addCreditsToLedgerWithClient (pw_now w) (pw_js w)
          (pack_grant x (or_opt (cs_customer_email cs) (cs_details_email cs)) (cs_id cs) (paymentIntentId cs))) t = Inr (r, t1)"
    and 2: "grantPurchaseImageEntitlement (pw_env w) (o_user x) ''letter_pack'' (o_id x)
          (packImageGrant (case o_credits x of None \<Rightarrow> 0 | Some n \<Rightarrow> n) (pw_env w)) t1 = Inr t2"
    and 3: "exec_db (grant_pack_gifts w x) t2 = Inr t3"
    and 4: "exec_db (update_order (pw_now w) (o_id x) (fulfil_pack_order (pw_now w))) t3 = Inr t4"
    and st: "st = Ord_fulfilled"
    and t': "t' = with_db (recordOrderEvent (o_id x) ''letter_pack.granted'' (Some Ord_paid) (Some Ord_fulfilled) []) t4"
    by (auto simp: fulfil_pack_def bindE_Inr_iff)
  obtain u tx lot where r: "r = (u, tx, lot)" by (cases r)
  from 1 have add: "addCreditsToLedgerWithClient (pw_now w) (pw_js w)
      (pack_grant x (or_opt (cs_customer_email cs) (cs_details_email cs)) (cs_id cs) (paymentIntentId cs)) (till_db t) = Inr ((u, tx, lot), till_db t1)"
    by (auto simp: run_db_def r split: sum.splits)
  have "grant_pack_gifts w x (till_db t1) = Inr (till_db t3)"
    using 3 entitlement_db [OF 2] by (auto simp: exec_db_def split: sum.splits)
  note g = pack_gifts_books [OF this]
  have o1: "orders (till_db t1) = orders (till_db t)" using add by (elim add_purchase)
  have "find_order (o_id x) (till_db t3) = Some y" using y g o1 by (simp add: find_order_def)
  then have "find_order (o_id x) (till_db t4) = Some (touched (pw_now w) (fulfil_pack_order (pw_now w)) y)"
    by (rule exec_update_found [OF 4]) simp
  then show ?thesis using that [OF st add] exec_books [OF 4] g by (simp add: t')
qed

lemma claimed_fresh: "find_event eid t = None \<Longrightarrow> claimStripeEvent now eid ty obj t =
    (True, t\<lparr>stripe_events := stripe_events t @ [\<lparr> se_id = eid, se_type = ty, se_object = obj, se_order = None,
       se_status = Ev_processed, se_intent = None, se_charge = None, se_metadata_order = None, se_processed_at = now,
       se_resolved_at = None \<rparr>]\<rparr>)"
  by (simp add: claimStripeEvent_def)

lemma waiting_after_claim:
  assumes "claimStripeEvent now eid ty obj t = (True, t0)"
  shows "waiting_money i oid j (bind_event eid k t0) = waiting_money i oid j t"
proof -
  have none: "find_event eid t = None" using assms by (auto simp: claimStripeEvent_def split: if_splits)
  have other: "\<And>e. e \<in> set (stripe_events t) \<Longrightarrow> se_id e \<noteq> eid" using none by (auto simp: find_event_def find_by_None_iff)
  have t0: "t0 = snd (claimStripeEvent now eid ty obj t)" using assms by simp
  have evs: "stripe_events (bind_event eid k t0) = stripe_events t @ [\<lparr> se_id = eid, se_type = ty, se_object = obj, se_order = Some k,
       se_status = Ev_processed, se_intent = None, se_charge = None, se_metadata_order = None, se_processed_at = now,
       se_resolved_at = None \<rparr>]"
    using other by (simp add: t0 claimed_fresh [OF none] bind_event_def upd_event_def upd_where_last)
  have "disputes (bind_event eid k t0) = disputes t"
    by (simp add: t0 claimed_fresh [OF none] bind_event_def upd_event_def)
  then show ?thesis by (simp add: waiting_money_def evs)
qed

text \<open>A paid session at an order still at its checkout, paid as ordered or otherwise.\<close>

lemma transition_fulfils:
  assumes tr: "transitionPaidCheckout w x cs ty t = Inr (st, t')" and x: "find_order (o_id x) (till_db t) = Some x"
    and paid: "cs_payment_status cs = ''paid''" "paid_as_ordered x cs"
    and unpaid: "o_status x \<notin> set FUNDED_OR_REVERSED_ORDER_STATUSES" and pack: "o_type x = Ot_letter_pack"
  shows "st = Ord_fulfilled \<and> (\<exists>n y lot. o_credits x = Some n \<and>
      find_order (o_id x) (till_db t') = Some y \<and> o_status y = Ord_fulfilled \<and> o_paid_at y \<noteq> None \<and>
      ledger (till_db t') = ledger (till_db t) @ [lot] \<and> le_user lot = o_user x \<and> le_source_type lot = Src_purchase \<and>
      le_source_order_id lot = Some (o_id x) \<and> 0 < n \<and> le_initial lot = n \<and> le_remaining lot = n \<and>
      le_expires_at lot = Some (add_days (pw_js w) 730) \<and>
      (\<forall>k. balance_of k (till_db t') = balance_of k (till_db t) + (if k = o_user x then n else 0)))"
proof -
  let ?g = "pack_grant x (or_opt (cs_customer_email cs) (cs_details_email cs)) (cs_id cs) (paymentIntentId cs)"
  from tr paid unpaid pack obtain t1 t2 where 1: "exec_db (update_order (pw_now w) (o_id x) (note_session cs)) t = Inr t1"
    and 2: "exec_db (update_order (pw_now w) (o_id x) (mark_paid (pw_now w) (paymentIntentId cs))) t1 = Inr t2"
    and ful: "fulfil_pack w x cs (with_db (recordOrderEvent (o_id x) ty (Some (o_status x)) (Some Ord_paid) []) t2) = Inr (st, t')"
    by (auto simp: transitionPaidCheckout_def bindE_Inr_iff)
  let ?x1 = "touched (pw_now w) (note_session cs) x"
  let ?x2 = "touched (pw_now w) (mark_paid (pw_now w) (paymentIntentId cs)) ?x1"
  let ?y = "touched (pw_now w) (fulfil_pack_order (pw_now w)) ?x2"
  let ?t3 = "with_db (recordOrderEvent (o_id x) ty (Some (o_status x)) (Some Ord_paid) []) t2"
  have x1: "find_order (o_id x) (till_db t1) = Some ?x1" by (rule exec_update_found [OF 1 x]) simp
  have "find_order (o_id x) (till_db ?t3) = Some ?x2" using exec_update_found [OF 2 x1] by simp
  with ful obtain u tx lot s1 where st: "st = Ord_fulfilled"
    and add: "addCreditsToLedgerWithClient (pw_now w) (pw_js w) ?g (till_db ?t3) = Inr ((u, tx, lot), s1)"
    and s1: "ledger (till_db t') = ledger s1" "users (till_db t') = users s1"
    and y: "find_order (o_id x) (till_db t') = Some ?y"
    by (rule fulfil_pack_Inr)
  obtain n where n: "o_credits x = Some n" "0 < n" using add by (rule add_purchase)
  obtain k where lot: "lot = new_lot (pw_now w) (expiration_of (pw_js w) ?g) ?g k" using add by (rule add_Inr) blast
  have named: "le_source_order_id lot = Some (o_id x)" using add_frame(4) [OF add] add
    by (elim add_purchase) (auto simp: granted_def lot pack_grant_def split: if_splits)
  have bal: "balance_of k (till_db t') = balance_of k (till_db t) + (if k = o_user x then n else 0)" for k
  proof -
    have "balance_of k (till_db t') = balance_of k s1" by (rule balance_cong) (rule s1(2))
    moreover have "balance_of k (till_db ?t3) = balance_of k (till_db t)" by (rule balance_cong) (simp add: exec_books [OF 1] exec_books [OF 2])
    ultimately show ?thesis using add_balance [OF add, of k] n by (simp add: pack_grant_def)
  qed
  have led: "ledger (till_db t') = ledger (till_db t) @ [lot]"
    using add_frame(4) [OF add] by (simp add: s1(1) exec_books [OF 1] exec_books [OF 2])
  have rest: "le_expires_at lot = Some (add_days (pw_js w) 730)" "le_initial lot = n" "le_remaining lot = n" "le_user lot = o_user x"
    "le_source_type lot = Src_purchase"
    using n by (simp_all add: lot pack_grant_def expiration_of_def PURCHASE_CREDIT_EXPIRY_DAYS_def)
  have fin: "o_status ?y = Ord_fulfilled" "o_paid_at ?y \<noteq> None" by (simp_all add: row_defs) (cases "o_paid_at x"; simp)
  show ?thesis using n y fin led rest named bal st by blast
qed

lemma transition_mismatch:
  assumes tr: "transitionPaidCheckout w x cs ty t = Inr (st, t')" and x: "find_order (o_id x) (till_db t) = Some x"
    and paid: "cs_payment_status cs = ''paid''" "\<not> paid_as_ordered x cs"
    and unpaid: "o_status x \<notin> set FUNDED_OR_REVERSED_ORDER_STATUSES"
  shows "st = Ord_refund_pending \<and> (\<exists>y. find_order (o_id x) (till_db t') = Some y \<and>
      o_status y = Ord_refund_pending \<and> o_last_error_code y = Some ''PAYMENT_AMOUNT_MISMATCH'' \<and>
      ledger (till_db t') = ledger (till_db t) \<and> users (till_db t') = users (till_db t) \<and>
      (\<forall>env now. claimRefund env now (o_id x) (till_db t') = Inr (None, till_db t')))"
proof -
  from tr paid unpaid obtain t1 t2 where 1: "exec_db (update_order (pw_now w) (o_id x) (note_session cs)) t = Inr t1"
    and 2: "exec_db (update_order (pw_now w) (o_id x) (to_refund (pw_now w) ''PAYMENT_AMOUNT_MISMATCH'' (mismatch_text x cs))) t1 = Inr t2"
    and t': "t' = with_db (recordOrderEvent (o_id x) ty (Some (o_status x)) (Some Ord_refund_pending)
        [(''reason'', JStr ''payment_amount_mismatch'')]) t2" and st: "st = Ord_refund_pending"
    by (auto simp: transitionPaidCheckout_def bindE_Inr_iff)
  let ?x1 = "touched (pw_now w) (note_session cs) x"
  let ?y = "touched (pw_now w) (to_refund (pw_now w) ''PAYMENT_AMOUNT_MISMATCH'' (mismatch_text x cs)) ?x1"
  have x1: "find_order (o_id x) (till_db t1) = Some ?x1" by (rule exec_update_found [OF 1 x]) simp
  have y: "find_order (o_id x) (till_db t') = Some ?y" using exec_update_found [OF 2 x1] by (simp add: t')
  have fin: "o_status ?y = Ord_refund_pending" "o_last_error_code ?y = Some ''PAYMENT_AMOUNT_MISMATCH''"
    by (simp_all add: touched_def to_refund_def)
  have "claimRefund env now (o_id x) (till_db t') = Inr (None, till_db t')" for env now
    using y fin by (simp add: claimRefund_def Let_def refund_claimable_def)
  then show ?thesis using y fin exec_books [OF 1] exec_books [OF 2] st by (simp add: t')
qed

text \<open>
  C8: A paid session of a pack whose order was not yet paid for, reported the first time, settles it: when the
  amount and the currency are the order's, the order is fulfilled and its account gets the pack, once, in one lot
  that lasts two years; otherwise nothing is granted and the order waits for a person, whom no automatic refund
  anticipates.
\<close>

theorem paid_checkout_settles_pack:
  assumes run: "processCheckoutSessionEvent w eid ty cs t = Inr (r, t')" and fresh: "find_event eid t = None"
    and found: "findCheckoutOrder cs (till_db t) = Some x" and rows: "orders_ok (till_db t)"
    and pack: "o_type x = Ot_letter_pack" and unpaid: "o_status x \<notin> set FUNDED_OR_REVERSED_ORDER_STATUSES"
    and paid: "cs_payment_status cs = ''paid''" and ty: "ty \<notin> {''checkout.session.async_payment_failed'', ''checkout.session.expired''}"
    and session: "or_null_str (o_stripe_checkout_session_id x) = None \<or> o_stripe_checkout_session_id x = Some (cs_id cs)"
    and no_money: "waiting_money (paymentIntentId cs) (o_id x)
       (first_some (or_null_str (o_stripe_payment_intent_id x)) (paymentIntentId cs)) t = []"
  shows "if paid_as_ordered x cs
    then \<exists>n y lot. o_credits x = Some n \<and> er_status r = Some Ord_fulfilled \<and>
      find_order (o_id x) (till_db t') = Some y \<and> o_status y = Ord_fulfilled \<and> o_paid_at y \<noteq> None \<and>
      ledger (till_db t') = ledger (till_db t) @ [lot] \<and> le_user lot = o_user x \<and> le_source_type lot = Src_purchase \<and>
      le_source_order_id lot = Some (o_id x) \<and> 0 < n \<and> le_initial lot = n \<and> le_remaining lot = n \<and>
      le_expires_at lot = Some (add_days (pw_js w) 730) \<and>
      (\<forall>k. balance_of k (till_db t') = balance_of k (till_db t) + (if k = o_user x then n else 0))
    else \<exists>y. er_status r = Some Ord_refund_pending \<and> find_order (o_id x) (till_db t') = Some y \<and>
      o_status y = Ord_refund_pending \<and> o_last_error_code y = Some ''PAYMENT_AMOUNT_MISMATCH'' \<and>
      ledger (till_db t') = ledger (till_db t) \<and> users (till_db t') = users (till_db t) \<and>
      (\<forall>env now. claimRefund env now (o_id x) (till_db t') = Inr (None, till_db t'))"
proof -
  obtain t0 where claim: "claimStripeEvent (pw_now w) eid ty (cs_id cs) t = (True, t0)"
    using claimed_fresh [OF fresh] by blast
  have db0: "till_db t0 = till_db t" using ev_claimed [OF claim] by simp
  let ?b = "bind_event eid (o_id x) t0"
  have x: "find_order (o_id x) (till_db t) = Some x" by (rule found_of_row [OF rows findCheckoutOrder_mem [OF found]])
  have "processCheckoutSessionEvent w eid ty cs t =
      bindE (transitionPaidCheckout w x cs ty ?b) (\<lambda>(st, t1). Inr (order_result (o_id x) st, t1))"
    using claim found db0 no_money session ty
    by (auto simp: processCheckoutSessionEvent_def session_event_def Let_def waiting_after_claim [OF claim])
  with run obtain st where tr: "transitionPaidCheckout w x cs ty ?b = Inr (st, t')" and r: "er_status r = Some st"
    by (auto simp: bindE_Inr_iff order_result_def)
  have db: "till_db ?b = till_db t" using db0 by simp
  have xb: "find_order (o_id x) (till_db ?b) = Some x" using x db by simp
  show ?thesis
  proof (cases "paid_as_ordered x cs")
    case True
    then show ?thesis using transition_fulfils [OF tr xb paid True unpaid pack] r unfolding db by simp
  next
    case False
    then show ?thesis using transition_mismatch [OF tr xb paid False unpaid] r unfolding db by simp
  qed
qed

section \<open>What holds in every interleaving\<close>


text \<open>
  C3: In every interleaving of refund requests, with processes that die at any point, Stripe is sent at most one
  request to create a refund under an order's attempt, and no attempt is beyond the retry limit, so an order's
  requests are never more than the limit.
\<close>

theorem refund_requests_bounded:
  assumes "till_reachable env (t, cl)"
  shows "distinct (refund_calls t) \<and> (\<forall>(oid, k)\<in>set (refund_calls t). 1 \<le> k \<and> k \<le> refundRetryLimit env) \<and>
    (\<forall>oid. int (length (filter (\<lambda>a. fst a = oid) (refund_calls t))) \<le> refundRetryLimit env)"
proof -
  have co: "calls_ok env (t, cl)" using till_inv_reachable [OF assms] by (simp add: till_inv_def)
  have d: "distinct (refund_calls t)" using co by (simp add: calls_ok_def)
  have range: "1 \<le> k \<and> k \<le> refundRetryLimit env" if "(oid, k) \<in> set (refund_calls t)" for oid k
  proof -
    have "attempt_counted env (till_db t) (oid, k)" using co that unfolding calls_ok_def prod.case set_append by blast
    then show ?thesis by (simp add: attempt_counted_def)
  qed
  have "int (length (filter (\<lambda>a. fst a = oid) (refund_calls t))) \<le> refundRetryLimit env" for oid
  proof -
    let ?mine = "filter (\<lambda>a. fst a = oid) (refund_calls t)"
    have sub: "snd ` set ?mine \<subseteq> {1 .. refundRetryLimit env}" using range by auto
    have "distinct (map snd ?mine)" using d by (auto simp: distinct_map inj_on_def)
    from distinct_card [OF this] have "length ?mine = card (snd ` set ?mine)" by (simp only: set_map length_map)
    also have "\<dots> \<le> card {1 .. refundRetryLimit env}" by (rule card_mono [OF _ sub]) simp
    finally have "int (length ?mine) \<le> max 0 (refundRetryLimit env)" by simp
    moreover have "0 \<le> refundRetryLimit env" by (simp add: refundRetryLimit_def integerSetting_def split: option.split)
    ultimately show ?thesis by simp
  qed
  then show ?thesis using d range by auto
qed

text \<open>
  C9: Once an event of Stripe went through, every later delivery of its id, whatever it says and whatever
  happened in between, is answered as a duplicate and changes nothing.
\<close>

theorem event_handled_once:
  assumes reach: "till_reachable env (t, cl)" and run: "processStripeWebhookEvent w eid ev t = Inr (r, t1)"
    and id: "event_named ev" and later: "till_steps env (t1, cl) (t2, cl2)"
  shows "processStripeWebhookEvent w' eid ev' t2 = Inr (duplicate_event, t2)"
proof -
  have inv: "till_inv env (t, cl)" by (rule till_inv_reachable [OF reach])
  have "sees (settled_by w eid ev t) eid t t1" by (rule keepsD [OF ev_webhook [OF id] run])
  then have seen: "find_event eid t1 \<noteq> None" using inv by (simp add: sees_def till_inv_def)
  have "till_inv env (t1, cl)" by (rule till_inv_step [OF till_step.delivered [OF id run] inv])
  then have "find_event eid t2 \<noteq> None" using steps_outlive [OF later] seen by (simp add: outlives_def)
  then have "claimStripeEvent now eid ty obj t2 = (False, t2)" for now ty obj by (simp add: claimStripeEvent_def)
  then show ?thesis
    by (auto simp: processStripeWebhookEvent_def processCheckoutSessionEvent_def processRefundEvent_def processDisputeEvent_def
        split: webhook_event.split)
qed

section \<open>A pack bought\<close>

definition ann_till :: till where
  "ann_till = \<lparr> till_db = empty_db\<lparr>users := [new_user 0 ''ann'' ''ann@example.com'' 0 0]\<rparr>, stripe_events = [], disputes = [],
     pack_refunds = [], entitlements = [], refund_calls = [] \<rparr>"

definition starter_pack :: commerce_product where
  "starter_pack = legacy_product Map.empty (PACK_PRODUCTS ! 0)"

definition till_world :: pay_world where
  "till_world = \<lparr> pw_send = \<lparr> sw_env = Map.empty, sw_zone = (\<lambda>t. - 5 * hour_ms), sw_now = 2, sw_js = 2, sw_letter_id = ''letter-1'',
     sw_job_id = ''job-1'', sw_codes = (\<lambda>_. []), sw_to_iso = (\<lambda>_. []), sw_sha256 = (\<lambda>x. ''0''),
     sw_md5 = (\<lambda>x. x), sw_unicode = (\<lambda>x. x), sw_layout = (\<lambda>_. None) \<rparr>, pw_collate = (\<lambda>a b. True) \<rparr>"

definition paid_session :: "int \<Rightarrow> checkout_session" where
  "paid_session cents = \<lparr> cs_id = ''cs_1'', cs_payment_status = ''paid'', cs_status = Some ''complete'', cs_amount_total = Some cents,
     cs_currency = Some ''usd'', cs_intent = Some ''pi_1'', cs_url = None, cs_metadata = [(''orderId'', ''o1'')],
     cs_client_reference_id = None, cs_customer_email = None, cs_details_email = None, cs_expires_at = 0 \<rparr>"

definition answered_till :: "'e + 'a \<times> till \<Rightarrow> till" where
  "answered_till r = (case r of Inl e \<Rightarrow> ann_till | Inr (x, t) \<Rightarrow> t)"

definition ordered_till :: till where
  "ordered_till = answered_till (run_db (open_pack_order 1 ''o1'' ''ann'' starter_pack) ann_till)"

definition settled :: "int \<Rightarrow> error + event_result \<times> till" where
  "settled cents = processStripeWebhookEvent till_world ''evt_1'' (We_session Se_completed (paid_session cents)) ordered_till"


lemma reaches: "till_reachable env (t, cl) \<Longrightarrow> till_step env (t, cl) r \<Longrightarrow> till_reachable env r"
  unfolding till_reachable_def by (blast intro: rtranclp.rtrancl_into_rtrancl)

lemma till_answered: "is_ok r \<Longrightarrow> \<exists>x. r = Inr (x, answered_till r)"
  by (auto simp: answered_till_def is_ok_def split: sum.splits)

lemma ann_reachable: "till_reachable Map.empty (ann_till, [])"
proof -
  have "till_opened ann_till" by code_simp
  then show ?thesis unfolding till_reachable_def by blast
qed

lemma till_opens: "is_ok (run_db (open_pack_order 1 ''o1'' ''ann'' starter_pack) ann_till)"
  by code_simp

lemma till_settles: "is_ok (settled 500)" "is_ok (settled 100)"
  by code_simp+

lemma ordered_reachable: "till_reachable Map.empty (ordered_till, [])"
proof -
  obtain x where "run_db (open_pack_order 1 ''o1'' ''ann'' starter_pack) ann_till = Inr (x, ordered_till)"
    using till_answered [OF till_opens] by (auto simp: ordered_till_def)
  then show ?thesis by (rule reaches [OF ann_reachable till_step.pack_opened])
qed


text \<open>A charge refunded before its order was known: the order waits for the refund, which a sweep claims.\<close>

definition refunded_charge :: stripe_charge where
  "refunded_charge = \<lparr> ch_id = ''ch_1'', ch_intent = Some ''pi_1'', ch_metadata_order = None, ch_amount_refunded = 100 \<rparr>"

definition early_money :: "error + event_result \<times> till" where
  "early_money = processStripeWebhookEvent till_world ''evt_0'' (We_charge_refunded refunded_charge) ordered_till"

definition late_session :: "error + event_result \<times> till" where
  "late_session = processStripeWebhookEvent till_world ''evt_1'' (We_session Se_completed (paid_session 500)) (answered_till early_money)"

definition claiming :: "error + (order \<times> int) option \<times> till" where
  "claiming = run_db (claimRefund Map.empty 3 ''o1'') (answered_till late_session)"

lemma claims: "is_ok early_money" "is_ok late_session" "is_ok claiming"
  by code_simp+

lemma late_reachable: "till_reachable Map.empty (answered_till late_session, [])"
proof -
  obtain r where "early_money = Inr (r, answered_till early_money)" using till_answered [OF claims(1)] by blast
  then have "till_step Map.empty (ordered_till, []) (answered_till early_money, [])"
    unfolding early_money_def by (rule till_step.delivered [rotated]) (simp add: event_named_def)
  then have early: "till_reachable Map.empty (answered_till early_money, [])" by (rule reaches [OF ordered_reachable])
  obtain q where "late_session = Inr (q, answered_till late_session)" using till_answered [OF claims(2)] by blast
  then have "till_step Map.empty (answered_till early_money, []) (answered_till late_session, [])"
    unfolding late_session_def by (rule till_step.delivered [rotated]) (simp add: event_named_def)
  then show ?thesis by (rule reaches [OF early])
qed

definition claimed_order :: order where
  "claimed_order = (case claiming of Inr (Some (x, n), t) \<Rightarrow> x | _ \<Rightarrow> hd (orders (till_db ordered_till)))"

definition permitting :: "error + int option \<times> till" where
  "permitting = run_db (permitCreate Map.empty 3 claimed_order 0) (answered_till claiming)"

definition requested_till :: till where
  "requested_till = (answered_till permitting)\<lparr>refund_calls := refund_calls (answered_till permitting) @ [(''o1'', 1)]\<rparr>"

lemma requested_reachable: "till_reachable Map.empty (requested_till, [Created claimed_order])"
proof -
  have got: "map_sum id fst claiming = Inr (Some (claimed_order, 0))" "map_sum id fst permitting = Inr (Some 1)"
    "o_id claimed_order = ''o1''" by code_simp+
  have "claiming = Inr (Some (claimed_order, 0), answered_till claiming)"
    using till_answered [OF claims(3)] got(1) by (metis fst_conv id_apply map_sum.simps(2) sum.inject(2))
  then have "till_step Map.empty (answered_till late_session, []) (answered_till claiming, [Asked claimed_order 0])"
    unfolding claiming_def by (rule till_step.claimed)
  then have 1: "till_reachable Map.empty (answered_till claiming, [Asked claimed_order 0])" by (rule reaches [OF late_reachable])
  have "is_ok permitting" by code_simp
  then have p: "permitting = Inr (Some 1, answered_till permitting)"
    using till_answered got(2) by (metis fst_conv id_apply map_sum.simps(2) sum.inject(2))
  have "till_step Map.empty (answered_till claiming, [Asked claimed_order 0])
      ((answered_till permitting)\<lparr>refund_calls := refund_calls (answered_till permitting) @ [(o_id claimed_order, 1)]\<rparr>,
       Created claimed_order # remove1 (Asked claimed_order 0) [Asked claimed_order 0])"
    using p unfolding permitting_def by (intro till_step.permitted) simp_all
  then show ?thesis using reaches [OF 1] by (simp add: requested_till_def got(3))
qed

theorem paid_checkout_settles_pack_witness:
  "\<exists>r t y. processCheckoutSessionEvent till_world ''evt_1'' ''checkout.session.completed'' (paid_session 500) ordered_till = Inr (r, t) \<and>
     er_status r = Some Ord_fulfilled \<and> find_order ''o1'' (till_db t) = Some y \<and> o_status y = Ord_fulfilled \<and>
     balance_of ''ann'' (till_db t) = balance_of ''ann'' (till_db ordered_till) + 4"
proof -
  let ?x = "hd (orders (till_db ordered_till))"
  obtain r t where run: "processCheckoutSessionEvent till_world ''evt_1'' ''checkout.session.completed'' (paid_session 500) ordered_till = Inr (r, t)"
    using till_answered [OF till_settles(1)] by (auto simp: settled_def processStripeWebhookEvent_def)
  have x: "find_event ''evt_1'' ordered_till = None" "findCheckoutOrder (paid_session 500) (till_db ordered_till) = Some ?x"
    "orders_ok (till_db ordered_till)" "o_type ?x = Ot_letter_pack" "o_status ?x \<notin> set FUNDED_OR_REVERSED_ORDER_STATUSES"
    "cs_payment_status (paid_session 500) = ''paid''"
    "''checkout.session.completed'' \<notin> {''checkout.session.async_payment_failed'', ''checkout.session.expired''}"
    "or_null_str (o_stripe_checkout_session_id ?x) = None \<or> o_stripe_checkout_session_id ?x = Some (cs_id (paid_session 500))"
    "waiting_money (paymentIntentId (paid_session 500)) (o_id ?x)
       (first_some (or_null_str (o_stripe_payment_intent_id ?x)) (paymentIntentId (paid_session 500))) ordered_till = []"
    "paid_as_ordered ?x (paid_session 500)" "o_id ?x = ''o1''" "o_user ?x = ''ann''" "o_credits ?x = Some 4"
    by code_simp+
  show ?thesis using paid_checkout_settles_pack [OF run x(1-9)] x(10-) run by auto
qed


theorem refund_requests_bounded_witness:
  "distinct (refund_calls requested_till) \<and> refund_calls requested_till = [(''o1'', 1)] \<and> (1::int) \<le> refundRetryLimit Map.empty"
proof -
  have "refund_calls requested_till = [(''o1'', 1)]" by code_simp
  then show ?thesis using refund_requests_bounded [OF requested_reachable] by simp
qed

theorem event_handled_once_witness:
  "processStripeWebhookEvent till_world ''evt_1'' (We_session Se_completed (paid_session 100)) (answered_till (settled 500)) =
     Inr (duplicate_event, answered_till (settled 500)) \<and> is_ok (settled 100)"
proof -
  obtain r where "settled 500 = Inr (r, answered_till (settled 500))" using till_answered [OF till_settles(1)] by blast
  then have run: "processStripeWebhookEvent till_world ''evt_1'' (We_session Se_completed (paid_session 500)) ordered_till =
      Inr (r, answered_till (settled 500))" by (simp add: settled_def)
  have "event_named (We_session Se_completed (paid_session 500))" by (simp add: event_named_def)
  then show ?thesis using event_handled_once [OF ordered_reachable run _ rtranclp.rtrancl_refl] till_settles(2) by blast
qed

end
