(* ===== verification/RefundProps.thy ===== *)
theory RefundProps
  imports TillProps
begin

text \<open>
  Properties of taking packs back: disputes that are lost and then won, the operator's refund of some letters,
  what the customer reads of it, and the checkout of a single letter.
\<close>

section \<open>The lots a dispute takes\<close>

lemma insert_lot_books: "insert_lot e s = Inr s' \<Longrightarrow> ledger s' = ledger s @ [e] \<and> users s' = users s \<and> le_id e \<notin> le_id ` set (ledger s)"
  by (frule insert_lot_Inr(1), drule insert_lot_Inr(5)) (simp add: find_lot_def find_by_None_iff)



lemma audit_fields [simp]:
  "le_source_type (revocation_audit now x cause did e lid) = Src_refund"
  "le_related_ledger_id (revocation_audit now x cause did e lid) = Some (le_id e)"
  "\<not> of_pack y (revocation_audit now x cause did e lid)" "\<not> compensates (revocation_audit now x cause did e lid) z"
  by (simp_all add: revocation_audit_def audit_lot_def of_pack_def compensates_def)

lemma audit_of_dispute [simp]:
  "did \<noteq> [] \<Longrightarrow> took did z (revocation_audit now x Rc_payment_disputed (Some did) e lid) \<longleftrightarrow> le_id z = le_id e"
  "json_int (le_source_metadata (revocation_audit now x Rc_payment_disputed (Some did) e lid)) ''remaining_at_revocation'' = le_remaining e"
  by (auto simp: took_def revocation_audit_def audit_lot_def revocation_metadata_def json_text_def json_int_def or_null_str_def)








section \<open>What a dispute takes and gives back\<close>

lemma balance_updated:
  assumes "\<And>u. u_id (f u) = u_id u"
  shows "balance_of k (upd_user uid f s) =
    (if k = uid then case find_user uid s of None \<Rightarrow> 0 | Some u \<Rightarrow> u_credits (f u) else balance_of k s)"
  by (simp add: balance_of_def find_user_upd assms split: option.split)

lemma gifts_revoked_books [simp]: "users (revokeGiftLettersForOrderWithClient now oid cause s) = users s"
  "ledger (revokeGiftLettersForOrderWithClient now oid cause s) = ledger s"
  by (simp_all add: revokeGiftLettersForOrderWithClient_def Let_def)

lemma written_books [simp]: "users (write_txn now uid n b oid d s) = users s" "ledger (write_txn now uid n b oid d s) = ledger s"
  by (simp_all add: write_txn_def insert_txn_def)


lemma raised_books [simp]: "users (raise_alert e oid ty sev d s) = users s" "ledger (raise_alert e oid ty sev d s) = ledger s"
  by (simp_all add: raise_alert_def insert_alert_def)


lemma positive_sum: "sum_list (map snd (filter (\<lambda>p. 0 < snd p) ps)) = (0::int) \<longleftrightarrow> filter (\<lambda>p. 0 < snd p) ps = []"
  by (subst sum_list_nonneg_eq_0_iff) (auto simp: filter_empty_conv)


lemma compensation_fields [simp]:
  "le_source_type (compensation_lot now x did e a lid) = Src_adjustment" "le_status (compensation_lot now x did e a lid) = Lot_active"
  "\<not> took d z (compensation_lot now x did e a lid)"
  "compensates (compensation_lot now x did e a lid) z \<longleftrightarrow> le_id e = le_id z"
  by (auto simp: compensation_lot_def took_def compensates_def json_text_def)





section \<open>Some letters of a pack\<close>

lemma live_credits_rows: "live_credits now x s = sum_list (map le_remaining (filter (live_on_pack now x) (ledger s)))"
proof -
  have "(\<lambda>e. revocable x e \<and> le_status e = Lot_active \<and> 0 < le_remaining e \<and> (case le_expires_at e of None \<Rightarrow> True | Some u \<Rightarrow> now < u)) =
      live_on_pack now x" by (auto simp: fun_eq_iff live_on_pack_def revocable_def)
  then show ?thesis by (simp add: live_credits_def)
qed

lemma sum_sorted: "sum_list (map f (sort_key k xs)) = (sum_list (map f xs) :: int)"
proof -
  have "mset (map f (sort_key k xs)) = mset (map f xs)" by simp
  then show ?thesis by (metis sum_mset_sum_list)
qed

lemma letters_live: "lettersRemainingOnPack now x s = live_credits now x s div CREDITS_PER_LETTER"
  by (simp add: lettersRemainingOnPack_def live_credits_rows live_lots_def sum_sorted)

lemma distinct_map_snoc: "distinct (map f xs) \<Longrightarrow> f y \<notin> f ` set xs \<Longrightarrow> distinct (map f (xs @ [y]))"
  by simp

lemma take_pack_lots_live:
  assumes "take_pack_lots now x prid cnt needed es s = Inr (taken, s')" and "distinct (map le_id (ledger s))"
    and "\<forall>e\<in>set es. e \<in> set (ledger s) \<and> live_on_pack now x e" and "distinct (map le_id es)"
    and "0 \<le> needed" and "needed \<le> sum_list (map le_remaining es)"
  shows "live_credits now x s' = live_credits now x s - needed \<and> orders s' = orders s \<and> users s' = users s"
  using assms
proof (induction es arbitrary: needed s taken)
  case (Cons e es)
  show ?case
  proof (cases "needed \<le> 0")
    case False
    let ?a = "min needed (le_remaining e)"
    let ?f = "set_remaining now (le_remaining e - ?a)"
    let ?s1 = "upd_lot (le_id e) ?f s"
    from False Cons.prems(1) obtain s2 rest where i: "insert_lot (partial_audit now x prid cnt e ?a (fresh_id ?s1)) ?s1 = Inr s2"
      and r: "take_pack_lots now x prid cnt (needed - ?a) es s2 = Inr (rest, s')"
      by (auto simp: Let_def bindE_Inr_iff)
    note b = insert_lot_books [OF i] insert_lot_Inr(1) [OF i]
    have live: "live_on_pack now x e" "0 < le_remaining e" using Cons.prems(3) by (auto simp: live_on_pack_def)
    have find: "find_by le_id (le_id e) (ledger s) = Some e" using Cons.prems(2,3) by (intro find_by_distinct) auto
    have "live_credits now x ?s1 = live_credits now x s - le_remaining e + (if live_on_pack now x (?f e) then le_remaining (?f e) else 0)"
      using ledger_tab.sum_update [OF Cons.prems(2) find, of le_remaining "live_on_pack now x" ?f] live
      by (simp add: live_credits_rows upd_lot_def)
    also have "\<dots> = live_credits now x s - ?a"
      using live False by (auto simp: live_on_pack_def set_remaining_def of_pack_def min_def split: option.splits)
    finally have "live_credits now x s2 = live_credits now x s - ?a"
      using b by (simp add: live_credits_rows live_on_pack_def of_pack_def partial_audit_def audit_lot_def)
    moreover have "map le_id (ledger ?s1) = map le_id (ledger s)"
      by (simp add: upd_lot_def set_remaining_def)
    then have "distinct (map le_id (ledger s2))" using b(1) Cons.prems(2) by (metis distinct_map_snoc list.set_map)
    moreover have "\<forall>e'\<in>set es. e' \<in> set (ledger s2) \<and> live_on_pack now x e'"
    proof
      fix e' assume e': "e' \<in> set es"
      then have "le_id e' \<noteq> le_id e" "e' \<in> set (ledger s)" "live_on_pack now x e'" using Cons.prems(3,4) by (auto simp: image_iff)
      then have "e' \<in> set (ledger ?s1)" by (auto simp: upd_lot_def set_upd_where image_iff)
      then show "e' \<in> set (ledger s2) \<and> live_on_pack now x e'" using b \<open>live_on_pack now x e'\<close> by simp
    qed
    moreover have "0 \<le> sum_list (map le_remaining es)"
      using Cons.prems(3) by (intro sum_list_nonneg) (auto simp: live_on_pack_def)
    then have "needed - ?a \<le> sum_list (map le_remaining es)" using Cons.prems(6) by (auto simp: min_def)
    ultimately have "live_credits now x s' = live_credits now x s - ?a - (needed - ?a) \<and> orders s' = orders s2 \<and> users s' = users s2"
      using Cons.IH [OF r] Cons.prems(4) by simp
    then show ?thesis using b by simp
  qed (use Cons.prems in simp)
qed simp

lemma partial_takes:
  assumes run: "revokePackLots now x (Some_credits n prid) s = Inr ((taken, lots), s')" and ids: "distinct (map le_id (ledger s))"
  shows "0 < n" and "n \<le> live_credits now x s" and "live_credits now x s' = live_credits now x s - n" and "orders s' = orders s"
    and "balance_of k s' = (if k = o_user x then max (balance_of k s - n) 0 else balance_of k s)"
proof -
  let ?rows = "live_lots now x s"
  have total: "sum_list (map le_remaining ?rows) = live_credits now x s" by (simp add: live_lots_def live_credits_rows sum_sorted)
  from run obtain lots' ex s0 where p: "revokePackCreditsProportionally now x n prid s = Inr ((taken, lots', ex), s0)"
    and s': "users s' = users s0" "ledger s' = ledger s0" "orders s' = orders s0"
    by (auto simp: revokePackLots_def bindE_Inr_iff revokeGiftLettersForOrderWithClient_def Let_def split: if_splits)
  from p obtain ls s1 where pos: "0 < n" and enough: "n \<le> sum_list (map le_remaining ?rows)"
    and take: "take_pack_lots now x prid (n div CREDITS_PER_LETTER) n ?rows s = Inr (ls, s1)"
    and s0: "users s0 = users (upd_user (o_user x) (take_balance now n n) s1)" "ledger s0 = ledger s1" "orders s0 = orders s1"
    by (auto simp: revokePackCreditsProportionally_def Let_def bindE_Inr_iff write_txn_def insert_txn_def split: if_splits)
  have "distinct (map le_id (filter (live_on_pack now x) (ledger s)))" using ids by (rule distinct_map_filter)
  then have "distinct (map le_id ?rows)" unfolding live_lots_def
    by (metis distinct_map distinct_sort set_sort)
  then have t: "live_credits now x s1 = live_credits now x s - n \<and> orders s1 = orders s \<and> users s1 = users s"
    by (intro take_pack_lots_live [OF take ids]) (use pos enough in \<open>auto simp: live_lots_def\<close>)
  show "0 < n" "n \<le> live_credits now x s" "live_credits now x s' = live_credits now x s - n" "orders s' = orders s"
    using pos enough total t s' s0 by (simp_all add: live_credits_rows)
  have "balance_of k s' = balance_of k (upd_user (o_user x) (take_balance now n n) s1)"
    by (rule balance_cong) (simp add: s' s0)
  also have "\<dots> = (if k = o_user x then max (balance_of k s - n) 0 else balance_of k s)"
    using t pos by (subst balance_updated) (auto simp: take_balance_def balance_of_def find_user_def split: option.split)
  finally show "balance_of k s' = (if k = o_user x then max (balance_of k s - n) 0 else balance_of k s)" .
qed

lemma floor_share:
  assumes "0 < (b::int)" shows "b * (a div b) \<le> a" and "a < b * (a div b + 1)"
proof -
  note m = mult_div_mod_eq [of b a] pos_mod_bound [OF assms, of a] pos_mod_sign [OF assms, of a]
  show "b * (a div b) \<le> a" using m by linarith
  show "a < b * (a div b + 1)" unfolding distrib_left mult_1_right using m by linarith
qed

text \<open>
  C16: An operator's refund of some letters goes through only for a fulfilled pack without another live refund and
  at least as many letters left, and does what was asked: two credits a letter leave the pack and the balance, the
  letters left fall by the number asked, the amount is their share of the price rounded down once, positive and less
  than what is left of the payment, and the row of the refund stands for Stripe to be asked.
\<close>

theorem letters_refunded_as_asked:
  assumes run: "refund_phase_one hash digest now prid i t = Inr (Revoked q, t')" and ids: "distinct (map le_id (ledger (till_db t)))"
  shows "\<exists>x y. find_order (ri_order i) (till_db t) = Some x \<and> o_status x = Ord_fulfilled \<and>
      (\<forall>r\<in>set (pack_refunds t). prf_order r = ri_order i \<longrightarrow> \<not> live_refund (prf_status r)) \<and>
      0 < ri_letters i \<and> ri_letters i \<le> lettersRemainingOnPack now x (till_db t) \<and>
      lettersRemainingOnPack now x (till_db t') = lettersRemainingOnPack now x (till_db t) - ri_letters i \<and>
      (\<forall>k. balance_of k (till_db t') =
        (if k = o_user x then max (balance_of k (till_db t) - 2 * ri_letters i) 0 else balance_of k (till_db t))) \<and>
      find_order (ri_order i) (till_db t') = Some y \<and> o_status y = Ord_fulfilled \<and>
      o_credits_refunded y = o_credits_refunded x + 2 * ri_letters i \<and> o_amount_refunded_cents y = o_amount_refunded_cents x \<and>
      pack_refunds t' = pack_refunds t @ [q] \<and> prf_id q = prid \<and> prf_order q = ri_order i \<and> prf_status q = Pr_letters_revoked \<and>
      0 < prf_amount q \<and> o_amount_refunded_cents x + prf_amount q < o_amount_cents x \<and>
      letters_in_pack x * prf_amount q \<le> ri_letters i * o_amount_cents x \<and>
      ri_letters i * o_amount_cents x < letters_in_pack x * (prf_amount q + 1)"
proof -
  from run obtain x where x: "find_order (ri_order i) (till_db t) = Some x"
    and pack: "pack_order_refusal (Some x) (ri_order i) = None" and fine: "refund_refusal digest now i x t = None"
    and q: "q = new_refund now prid i x" and rev: "revoke_letters hash now i q x t = Inr t'"
    by (auto simp: refund_phase_one_def bindE_Inr_iff split: option.splits)
  have oid: "o_id x = ri_order i" using find_order_mem [OF x] by simp
  have guards: "o_status x = Ord_fulfilled" "\<forall>r\<in>set (pack_refunds t). prf_order r = o_id x \<longrightarrow> \<not> live_refund (prf_status r)"
      "ri_letters i \<le> lettersRemainingOnPack now x (till_db t)" "1 \<le> refund_cents x (ri_letters i)"
      "o_amount_refunded_cents x + refund_cents x (ri_letters i) < o_amount_cents x"
    using fine by (auto simp: refund_refusal_def Let_def refuse_if_def list_ex_iff split: if_splits)
  have "0 < letters_in_pack x" using pack
    by (auto simp: pack_order_refusal_def refuse_if_def letters_in_pack_def CREDITS_PER_LETTER_def Let_def split: if_splits option.splits)
  then have share: "letters_in_pack x * prf_amount q \<le> ri_letters i * o_amount_cents x"
      "ri_letters i * o_amount_cents x < letters_in_pack x * (prf_amount q + 1)"
    using floor_share by (simp_all add: q new_refund_def refund_cents_def)
  from rev obtain t1 t2 t3 taken where 1: "insert_refund q t = Inr t1"
    and 2: "run_db (revokePackLots now x (Some_credits (prf_credits q) (Some (prf_id q)))) t1 = Inr (taken, t2)"
    and 3: "exec_db (update_order now (o_id x) (count_refunded (prf_credits q))) t2 = Inr t3"
    and t': "orders (till_db t') = orders (till_db t3)" "ledger (till_db t') = ledger (till_db t3)" "users (till_db t') = users (till_db t3)"
      "pack_refunds t' = pack_refunds t3"
    by (auto simp: revoke_letters_def bindE_Inr_iff with_db_def recordOrderEvent_def record_audit_def)
  have t1: "till_db t1 = till_db t" "pack_refunds t1 = pack_refunds t @ [q]"
    using 1 by (auto simp: insert_refund_def split: option.splits if_splits)
  obtain m ls where "taken = (m, ls)" by (cases taken)
  with 2 have r: "revokePackLots now x (Some_credits (prf_credits q) (Some (prf_id q))) (till_db t) = Inr ((m, ls), till_db t2)"
    and same2: "pack_refunds t2 = pack_refunds t1" by (auto simp: run_db_def t1 split: sum.splits)
  note p = partial_takes [OF r ids]
  have same3: "pack_refunds t3 = pack_refunds t2" using 3 by (auto simp: exec_db_def split: sum.splits)
  note b3 = exec_books [OF 3]
  have credits: "prf_credits q = 2 * ri_letters i" by (simp add: q new_refund_def CREDITS_PER_LETTER_def)
  have "live_credits now x (till_db t') = live_credits now x (till_db t) - 2 * ri_letters i"
    using p(3) b3 t' credits by (simp add: live_credits_rows)
  then have left: "lettersRemainingOnPack now x (till_db t') = lettersRemainingOnPack now x (till_db t) - ri_letters i"
    by (simp add: letters_live CREDITS_PER_LETTER_def)
  have bal: "balance_of k (till_db t') = (if k = o_user x then max (balance_of k (till_db t) - 2 * ri_letters i) 0 else balance_of k (till_db t))" for k
  proof -
    have "balance_of k (till_db t') = balance_of k (till_db t2)" by (rule balance_cong) (simp add: t' b3)
    then show ?thesis using p(5) [of k] credits by simp
  qed
  have "find_order (o_id x) (till_db t2) = Some x" using x oid p(4) by (simp add: find_order_def)
  then have "find_order (o_id x) (till_db t3) = Some (touched now (count_refunded (prf_credits q)) x)"
    by (rule exec_update_found [OF 3]) (simp add: count_refunded_def)
  then have y: "find_order (ri_order i) (till_db t') = Some (touched now (count_refunded (prf_credits q)) x)"
    using t'(1) oid by (simp add: find_order_def)
  have row: "prf_id q = prid" "prf_order q = ri_order i" "prf_status q = Pr_letters_revoked" "prf_amount q = refund_cents x (ri_letters i)"
    by (simp_all add: q new_refund_def oid)
  show ?thesis
    using x y guards share left bal p(1) credits row t'(4) same3 same2 t1(2) oid
    by (intro exI [of _ x] exI [of _ "touched now (count_refunded (prf_credits q)) x"]) (simp add: row_defs)
qed

text \<open>
  What the customer reads of a pack is what the operator's command works with: the letters left are the same,
  the amount shown as refundable is the one the command would pay for all of them, and only as many are refused
  as too many as exceed them.
\<close>

theorem figures_match_the_command:
  assumes read: "readPackPurchaseFigures now x (till_db t) = Some f"
  shows "pf_remaining f = lettersRemainingOnPack now x (till_db t) \<and> pf_letters f = letters_in_pack x \<and>
    (o_status x = Ord_fulfilled \<and> o_credits_refunded x = 0 \<longrightarrow> pf_refundable f = refund_cents x (pf_remaining f)) \<and>
    (pf_remaining f < ri_letters i \<longrightarrow> refund_refusal digest now i x t \<noteq> None) \<and>
    (refund_refusal digest now i x t = None \<and> o_credits_refunded x = 0 \<and> 0 < ri_letters i \<longrightarrow>
      refund_cents x (ri_letters i) \<le> pf_refundable f)"
proof -
  have figures: "0 < letters_in_pack x" "pf_remaining f = lettersRemainingOnPack now x (till_db t)" "pf_letters f = letters_in_pack x"
    "o_status x = Ord_fulfilled \<Longrightarrow> o_credits_refunded x = 0 \<Longrightarrow> pf_refundable f = refund_cents x (pf_remaining f)"
    using read by (auto simp: readPackPurchaseFigures_def Let_def letters_live letters_in_pack_def refund_cents_def CREDITS_PER_LETTER_def
        split: if_splits)
  have many: "refund_refusal digest now i x t \<noteq> None" if "pf_remaining f < ri_letters i"
    using that by (auto simp: refund_refusal_def Let_def refuse_if_def figures(2))
  moreover have "refund_cents x (ri_letters i) \<le> pf_refundable f"
    if ok: "refund_refusal digest now i x t = None" "o_credits_refunded x = 0" "0 < ri_letters i"
  proof -
    have st: "o_status x = Ord_fulfilled" and amount: "0 < o_amount_cents x"
      using ok figures(1) by (auto simp: refund_refusal_def Let_def refuse_if_def refund_cents_def split: if_splits)
        (smt (verit) div_nonpos_pos_le0 mult_nonneg_nonpos)
    have "ri_letters i \<le> pf_remaining f" using many ok(1) by force
    then have "ri_letters i * o_amount_cents x \<le> pf_remaining f * o_amount_cents x" using amount by (simp add: mult_right_mono)
    then show ?thesis using figures(1) figures(4) [OF st ok(2)] by (simp add: refund_cents_def zdiv_mono1)
  qed
  ultimately show ?thesis using figures by blast
qed

section \<open>A pack sold\<close>

definition sold_till :: till where
  "sold_till = answered_till (settled 500)"

definition sold_pack :: order where
  "sold_pack = hd (orders (till_db sold_till))"





text \<open>One letter of the pack's two is refunded: half the price, and two credits less.\<close>

definition one_letter :: refund_letters_input where
  "one_letter = \<lparr> ri_order = ''o1'', ri_letters = 1, ri_reason = ''goodwill'', ri_actor = ''op'', ri_key = ''key-1'',
     ri_environment = ''test'', ri_digest = None \<rparr>"

definition one_letter_run :: "error + phase_one \<times> till" where
  "one_letter_run = refund_phase_one (\<lambda>x. x) (\<lambda>_. []) 3 ''pr-1'' one_letter sold_till"

lemma letters_refunded_as_asked_witness:
  "lettersRemainingOnPack 3 sold_pack (till_db sold_till) = 2 \<and>
   (\<exists>q t. one_letter_run = Inr (Revoked q, t) \<and> lettersRemainingOnPack 3 sold_pack (till_db t) = 1 \<and>
      balance_of ''ann'' (till_db t) = 2 \<and> prf_amount q = 250)"
proof -
  have "(case one_letter_run of Inr (Revoked q, t) \<Rightarrow> True | _ \<Rightarrow> False)" by code_simp
  then obtain q t where run: "one_letter_run = Inr (Revoked q, t)"
    by (auto split: sum.splits phase_one.splits)
  have ids: "distinct (map le_id (ledger (till_db sold_till)))" by code_simp
  have v: "find_order ''o1'' (till_db sold_till) = Some sold_pack" "lettersRemainingOnPack 3 sold_pack (till_db sold_till) = 2"
    "balance_of ''ann'' (till_db sold_till) = 4" "o_user sold_pack = ''ann''" "letters_in_pack sold_pack = 2"
    "o_amount_cents sold_pack = 500" by code_simp+
  obtain x where x: "find_order ''o1'' (till_db sold_till) = Some x"
    "lettersRemainingOnPack 3 x (till_db t) = lettersRemainingOnPack 3 x (till_db sold_till) - 1"
    "\<forall>k. balance_of k (till_db t) = (if k = o_user x then max (balance_of k (till_db sold_till) - 2) 0 else balance_of k (till_db sold_till))"
    "letters_in_pack x * prf_amount q \<le> o_amount_cents x" "o_amount_cents x < letters_in_pack x * (prf_amount q + 1)"
    using letters_refunded_as_asked [OF run [unfolded one_letter_run_def] ids] by (auto simp: one_letter_def)
  then have "x = sold_pack" using v(1) by simp
  then have "lettersRemainingOnPack 3 sold_pack (till_db t) = 1" "balance_of ''ann'' (till_db t) = 2" "prf_amount q = 250"
    using x v by simp_all
  then show ?thesis using v(2) run by blast
qed

end
