(* ===== verification/Spec2Isabelle.thy ===== *)
theory Spec2Isabelle
  imports LedgerProps GiftProps OutboxAdminProps GateProps ScheduledMailProps MailSendProps DraftProps RefundProps
begin

text \<open>
  A verification development of the Letter IRL API (README.md): a service that prints and mails
  letters and postcards. A person composes a draft in a chat, pays for it from a balance of
  credits, with a gift letter or with a single Stripe payment, and a provider prints and mails it.
  What the development covers is the core the money and the mail pass through, all under
  src/services and src/config: the credit ledger, gift letters, drafts, the send, the outbox
  that calls the provider, held mail with an arrival date, the limits in front of them, and the commerce
  service: orders, payments, refunds and disputes.

  \<^bold>\<open>The program's parts and their theories.\<close> Each part has a theory of definitions in the order the code has
  them, a theory of laws, and a theory of properties.

  \<^item> Prelude: errors as a sum type (\<open>bindE\<close>), tables as lists of rows (\<open>find_by\<close>, \<open>upd_where\<close>), the
    locales \<open>db_table\<close> (a table of a store), \<open>exactly_once\<close> (a compensation with a marker) and
    \<open>kept_by_steps\<close> (an invariant of a step relation), JavaScript's falsy defaults, decimal text, time.
  \<^item> Json: jsonb values, their two printed forms, and that a text determines its value.
  \<^item> EnvSettings: utils/envSettings.ts, config/giftLetters.ts.
  \<^item> Store: the record \<open>db\<close> of the PostgreSQL tables with their columns (db/migrations), and the error type.
  \<^item> Accounts: userService.ts. Ledger, LedgerReads, Returns, LedgerLaws, LedgerBooks, LedgerProps:
    creditLedgerService.ts, creditService.ts.
  \<^item> GiftCodes, Gifts, GiftLaws, GiftProps: giftCodes.ts, giftLetterService.ts.
  \<^item> Outbox, OutboxRun, OutboxResolve, OutboxAdmin and their laws, steps and properties: letterJobService.ts,
    heldMail.ts, providerFailureSummary.ts, backoff.ts.
  \<^item> Calendar, Schedule, ScheduleClock, ScheduledMail and their laws and properties: deliverySchedule.ts,
    uspsHolidays.ts, scheduledMailService.ts, mailDateCapacity.ts, draftSchedule.ts, arriveBy.ts.
  \<^item> DailyLimits: dailyLimits.ts, betaSpendLimits.ts, betaAccess.ts. MailOptions: products.ts, mailOptions.ts,
    certifiedMail.ts. ContentVersion: contentVersion.ts. Duplicates: duplicateMailService.ts.
  \<^item> MailSend, MailSendLaws, MailSendProps: mailSendService.ts, with the layout record of heldPrintService.ts.
  \<^item> Stationery, Choices, Drafts, DraftLaws, DraftProps: draftService.ts, the stored forms of render/stationery.ts
    and render/postcard.ts, stationeryDesignService.ts, stationeryDefaultService.ts, signatureService.ts.
  \<^item> Till, PackLots, Disputes, Payments, Refunds, JitCheckout, CommerceRun: commerceService.ts, stuckOrders.ts, the
    products of stripeService.ts, the entitlements of imageGenerationLimitService.ts. PackRefunds:
    packRefundService.ts. The record \<open>till\<close> is the store with the tables of Stripe's events, disputes, pack refunds
    and entitlements, and a log of the requests to Stripe that create a refund.
  \<^item> CommerceLaws, CommerceFrames, TillLaws, TillSystem, TillProps, RefundProps: their laws and properties. \<open>order_le\<close> says how an
    order may move, \<open>calm\<close> what a transaction of the store leaves of orders and grants, \<open>evolves\<close> what one of the
    till does; both are instances of the locale \<open>evolution\<close>, whose composition lemmas carry the operations.
    \<open>till_step\<close> interleaves the transactions of all processes.
  \<^item> Gate, GateProps: utils/concurrencyGate.ts. OutboxSystem: workers, sends and cancels interleaved.

  \<^bold>\<open>How state and operations correspond.\<close> A service function that runs in a transaction is a function from the
  store to \<open>error + (result \<times> store)\<close>. An \<open>Inl\<close> is the exception that rolls the transaction back; the CHECKs,
  unique indexes and foreign keys a statement can violate are branches that answer an error named by the
  constraint. A statement is an update of a list of rows: SELECT by key is \<open>find_by\<close>, UPDATE ... WHERE is
  \<open>upd_where\<close>, ON CONFLICT DO NOTHING is a test before the insert. Functions carry the names of the source;
  a definition of a row update (\<open>take_lots\<close>, \<open>consume_draft\<close>) is one statement or one loop of the function that
  calls it. Row and advisory locks serialise whole transactions, so one function is one atomic step; what
  happens between two transactions (a crash, another worker, an operator, time passing) is a step relation:
  \<open>ledger_step\<close>, \<open>gift_step\<close>, \<open>outbox_step\<close>, \<open>system_step\<close>, \<open>desk_step\<close>, \<open>till_step\<close> and the gate's labelled steps.

  \<^bold>\<open>Parameters.\<close> What the repository does not contain is an argument: the clocks of the database and of the server
  (which may differ), the environment, the drawn ids, codes and jitter, the digests of Node's crypto module
  (properties that need it name the collision as a disjunct or a hypothesis), PostgreSQL's lower and md5, the
  Unicode folding, the IANA offsets of New York, the layout fingerprint of the renderer, and the mail provider
  and Stripe, whose answers are arbitrary but for one thing it documents: a refund has an id. Country and currency codes are compared with ASCII case.

  \<^bold>\<open>What the lemmas show.\<close> Ledger: consumptions, transactions and lots account for each other to the credit
  in every store the ledger's own operations reach (the reversal of a pack belongs to the commerce part), a
  deduction succeeds exactly when it is covered and takes the first lots to expire, credits come back exactly once
  and as they were taken. Gifts: a
  chain is a path whose budget falls, a gift is returned once. Outbox: a letter is submitted at most once whatever
  workers interleave or crash, only a definite rejection moves money, the job rows keep their CHECKs and refine an
  abstract life cycle (with two more edges, a reclaim and a hold, in stores that operators or reversals touched), operator commands run once and replay. Held mail: a cancel settles one letter, gives back
  what paid, lot by lot, and is final. Schedule: an accepted date can be kept. Send: one draft becomes one letter with one job,
  paid once, within the limits, no second copy, and undone exactly by a cancel. Drafts: an edit writes one open
  draft or nothing, what is shown is what is sent, a paid draft is fixed, rows and looks stay valid, the cleanup
  keeps the promises of the privacy policy. Commerce: a pack is granted, and an order fulfilled, only after an event
  of a session was processed that Stripe calls paid, at the order's amount and currency, and a pack only once; an
  event is handled once; Stripe is asked for a refund at most once an attempt and within the retry limit whatever
  processes interleave or die; a dispute that is won gives back what it took, once; an operator's refund of letters
  takes and pays their share. Gate: bounds, exact counts, order of service.

  \<^bold>\<open>Bounds and fuel.\<close> The retry loop of a gift code runs its five attempts (\<open>mint_attempts 5\<close>), as the code's
  loop does. Day stepping of the calendar carries a bound of days that is proved enough for every lead the code
  accepts (0 to 1000 business days). The maintenance batch recurses on its own limit. Integers are unbounded:
  JavaScript's are exact below 2^53 and the INTEGER columns are far below their width at the values the CHECKs
  admit.

  \<^bold>\<open>Not modelled.\<close> What is drawn: layout, HTML, PDF and images. What is said: diagnostics, notices to the operator,
  sentences for the person. What is called: Stripe, the print providers' HTTP interfaces, Auth0, object storage.
  What fronts the services: the MCP server and its tools, the REST handlers, the operator panel, the command line.
  Each has its reason in the manifest.
\<close>

end
